(* ===== verification/Base.thy ===== *)
theory Base
  imports Complex_Main "HOL-Library.Product_Lexorder" "HOL-Library.List_Lexorder"
    "HOL-Library.Char_ord" "HOL-Library.Sublist"
begin

text \<open>
  The prelude of the development: results of fallible Python code, sequences of constructor
  guards, and the generic list facts the components share.

  A Python function that may raise is a function into \<open>'a result\<close>, that is \<open>py_error + 'a\<close>:
  \<open>Inl\<close> carries the exception, \<open>Inr\<close> the returned value.  An exception is its class together
  with its message where the message is a constant of the source; text that the source
  interpolates into a message (amounts, identifiers) is left out.
\<close>

named_theorems result_simps \<open>evaluation and inversion of results\<close>
named_theorems guard_defs \<open>constructor checks of the modelled classes\<close>

section \<open>Exceptions and results\<close>

datatype py_error =
    DomainValidationError string
  | CurrencyMismatchError
  | OrderInvariantError string
  | InvalidOrderTransition string
  | PortfolioInvariantError string
  | DuplicateFillError
  | InsufficientCashError
  | InsufficientSellableQuantityError
  | InvalidFillSideError
  | UnsupportedCorporateActionError string
  | UnsupportedFeePolicyError string
  | NoNextSessionError
  | DailyBacktestInputError string
  | SignalRuntimeError string
  | EventRuntimeError string
  | DocumentMetricError string
  | GridSpecificationError string
  | FundedBenchmarkInputError string
  | MinuteGridCapabilityError string
  | MinuteReplayDataError string
  | StrategyCatalogError string
  | ValueError string
  | TypeError string
  | AssertionError
  | AttributeError
  | IndexError
  | KeyError
  | ZeroDivisionError
  | StopIteration
  | DecimalInvalidOperation
  | DecimalDivisionByZero

type_synonym 'a result = "py_error + 'a"

text \<open>Sequencing: the first exception ends the computation.\<close>

definition rbind :: "'a result \<Rightarrow> ('a \<Rightarrow> 'b result) \<Rightarrow> 'b result" where
  "rbind m f = (case m of Inl e \<Rightarrow> Inl e | Inr x \<Rightarrow> f x)"

lemma rbind_Inl [simp]: "rbind (Inl e) f = Inl e"
  by (simp add: rbind_def)

lemma rbind_Inr [simp]: "rbind (Inr x) f = f x"
  by (simp add: rbind_def)

lemma rbind_eq_Inr [result_simps]: "rbind m f = Inr y \<longleftrightarrow> (\<exists>x. m = Inr x \<and> f x = Inr y)"
  by (cases m) auto

lemma rbind_eq_Inl [result_simps]:
  "rbind m f = Inl e \<longleftrightarrow> m = Inl e \<or> (\<exists>x. m = Inr x \<and> f x = Inl e)"
  by (cases m) auto

lemma rbind_assoc: "rbind (rbind m f) g = rbind m (\<lambda>x. rbind (f x) g)"
  by (cases m) auto

lemma rbind_cong [fundef_cong]:
  "m = m' \<Longrightarrow> (\<And>x. m' = Inr x \<Longrightarrow> f x = f' x) \<Longrightarrow> rbind m f = rbind m' f'"
  by (cases m') auto

lemma rbindE:
  assumes "rbind m f = Inr y"
  obtains x where "m = Inr x" and "f x = Inr y"
  using assms by (auto simp: result_simps)

definition is_ok :: "'a result \<Rightarrow> bool" where
  "is_ok r = (case r of Inl _ \<Rightarrow> False | Inr _ \<Rightarrow> True)"

lemma is_ok_simps [simp]: "is_ok (Inr x)" "\<not> is_ok (Inl e)"
  by (simp_all add: is_ok_def)

lemma is_ok_iff: "is_ok r \<longleftrightarrow> (\<exists>x. r = Inr x)"
  by (cases r) auto

section \<open>Guards\<close>

text \<open>
  The checks of a \<open>__post_init__\<close> in source order: the first one whose condition holds
  raises.  A condition may assume that the earlier ones are false, as in the source.
\<close>

primrec checks :: "(bool \<times> py_error) list \<Rightarrow> unit result" where
  "checks [] = Inr ()"
| "checks (g # gs) = (if fst g then Inl (snd g) else checks gs)"

lemma checks_Inr [result_simps]: "checks gs = Inr u \<longleftrightarrow> list_all (\<lambda>g. \<not> fst g) gs"
  by (induction gs) auto

lemma checks_append: "checks (gs @ hs) = rbind (checks gs) (\<lambda>_. checks hs)"
  by (induction gs) auto

lemma checks_Inl_mem: "checks gs = Inl e \<Longrightarrow> (True, e) \<in> set gs"
  by (induction gs) (auto split: if_splits prod.splits)

declare checks.simps(2) [simp del]

text \<open>A constructor: the value itself when its checks pass.\<close>

definition construct :: "('a \<Rightarrow> unit result) \<Rightarrow> 'a \<Rightarrow> 'a result" where
  "construct post_init x = rbind (post_init x) (\<lambda>_. Inr x)"

lemma construct_Inr [result_simps]: "construct p x = Inr y \<longleftrightarrow> x = y \<and> is_ok (p x)"
  by (cases "p x") (simp_all add: construct_def)

lemma construct_ok: "is_ok (p x) \<Longrightarrow> construct p x = Inr x"
  by (auto simp: construct_def is_ok_iff)

lemma construct_Inl [result_simps]: "construct p x = Inl e \<longleftrightarrow> p x = Inl e"
  by (simp add: construct_def rbind_def split: sum.split)

lemma is_ok_checks [result_simps]: "is_ok (checks gs) \<longleftrightarrow> list_all (\<lambda>g. \<not> fst g) gs"
  by (auto simp: is_ok_iff result_simps)

section \<open>Loops over lists\<close>

primrec fold_res :: "('a \<Rightarrow> 's \<Rightarrow> 's result) \<Rightarrow> 'a list \<Rightarrow> 's \<Rightarrow> 's result" where
  "fold_res f [] s = Inr s"
| "fold_res f (x # xs) s = rbind (f x s) (fold_res f xs)"

primrec map_res :: "('a \<Rightarrow> 'b result) \<Rightarrow> 'a list \<Rightarrow> 'b list result" where
  "map_res f [] = Inr []"
| "map_res f (x # xs) = rbind (f x) (\<lambda>y. rbind (map_res f xs) (\<lambda>ys. Inr (y # ys)))"

text \<open>An invariant of the loop body is an invariant of the loop.\<close>

lemma fold_res_invariant:
  assumes "fold_res f xs s = Inr t" and "I s"
    and "\<And>x s t. x \<in> set xs \<Longrightarrow> I s \<Longrightarrow> f x s = Inr t \<Longrightarrow> I t"
  shows "I t"
  using assms
proof (induction xs arbitrary: s)
  case Nil
  then show ?case by simp
next
  case (Cons x xs)
  from Cons.prems(1) obtain u where u: "f x s = Inr u" "fold_res f xs u = Inr t"
    by (auto simp: result_simps)
  from Cons.prems(2,3) u(1) have "I u" by auto
  with u(2) Cons.prems(3) show ?case by (intro Cons.IH) auto
qed

lemma map_res_length: "map_res f xs = Inr ys \<Longrightarrow> length ys = length xs"
  by (induction xs arbitrary: ys) (auto simp: result_simps)

lemma map_res_nth: "map_res f xs = Inr ys \<Longrightarrow> i < length xs \<Longrightarrow> f (xs ! i) = Inr (ys ! i)"
  by (induction xs arbitrary: ys i) (auto simp: result_simps nth_Cons split: nat.splits)

text \<open>
  Neighbouring elements in order: the source's loops over \<open>zip(xs, xs[1:])\<close> or \<open>pairwise(xs)\<close>.
\<close>

fun strictly_increasing :: "'a::linorder list \<Rightarrow> bool" where
  "strictly_increasing (x # y # zs) \<longleftrightarrow> x < y \<and> strictly_increasing (y # zs)"
| "strictly_increasing _ \<longleftrightarrow> True"

lemma strictly_increasing_iff: "strictly_increasing xs \<longleftrightarrow> sorted_wrt (<) xs"
  by (induction xs rule: strictly_increasing.induct) (auto intro: less_trans)

lemma strictly_increasing_distinct: "strictly_increasing xs \<Longrightarrow> distinct xs"
  using strict_sorted_iff strictly_increasing_iff by blast

lemma strictly_increasing_sorted: "strictly_increasing xs \<Longrightarrow> sorted xs"
  using strict_sorted_iff strictly_increasing_iff by blast

lemma sorted_le_last: "sorted xs \<Longrightarrow> x \<in> set xs \<Longrightarrow> x \<le> last xs"
  by (induction xs) (auto split: if_splits)

section \<open>Sums over filtered lists\<close>

lemma sum_list_filter_append:
  "sum_list (map f (filter P (xs @ ys))) = sum_list (map f (filter P xs)) + sum_list (map f (filter P ys))"
  by simp

lemma sum_list_nonneg_map: "(\<And>x. x \<in> set xs \<Longrightarrow> 0 \<le> f x) \<Longrightarrow> 0 \<le> (sum_list (map f xs) :: int)"
  by (induction xs) auto

lemma distinct_length_remdups: "length (remdups xs) = length xs \<longleftrightarrow> distinct xs"
  by (simp add: length_remdups_eq)

section \<open>Strings\<close>

text \<open>
  Python's \<open>str.strip\<close> removes white space at both ends; the strings of the model are ASCII, so
  the white space is the ASCII white space of Python (tab, line feed, vertical tab, form feed,
  carriage return, the four separators 28--31, and the blank).
\<close>

definition py_space :: "char \<Rightarrow> bool" where
  "py_space c \<longleftrightarrow> (let n = (of_char c :: nat) in (9 \<le> n \<and> n \<le> 13) \<or> (28 \<le> n \<and> n \<le> 32))"

definition strip :: "string \<Rightarrow> string" where
  "strip s = rev (dropWhile py_space (rev (dropWhile py_space s)))"

definition blank :: "string \<Rightarrow> bool" where
  "blank s \<longleftrightarrow> strip s = []"

lemma blank_iff: "blank s \<longleftrightarrow> list_all py_space s"
proof -
  have "list_all py_space s" if "list_all py_space (dropWhile py_space s)"
    using that by (induction s) (auto split: if_splits)
  moreover have "list_all py_space (dropWhile py_space s)" if "list_all py_space s"
    using that by (induction s) auto
  moreover have "blank s \<longleftrightarrow> list_all py_space (dropWhile py_space s)"
    by (simp add: blank_def strip_def list_all_iff)
  ultimately show ?thesis by blast
qed

definition starts_with :: "string \<Rightarrow> string \<Rightarrow> bool" where
  "starts_with p s \<longleftrightarrow> take (length p) s = p"

definition removeprefix :: "string \<Rightarrow> string \<Rightarrow> string" where
  "removeprefix p s = (if starts_with p s then drop (length p) s else s)"

definition lower_hex :: "char \<Rightarrow> bool" where
  "lower_hex c \<longleftrightarrow> c \<in> set ''0123456789abcdef''"

end
