(* ===== verification/Decimals.thy ===== *)
theory Decimals
  imports Base
begin

text \<open>
  Python's \<open>decimal.Decimal\<close> under the default context of the program (28 significant digits,
  ROUND_HALF_EVEN, \<open>InvalidOperation\<close> and \<open>DivisionByZero\<close> trapped).  No file of the domain changes that context outside
  the indicator formulas, which use a local one.

  A finite Decimal is represented by its numerical value, a rational.  The exponent of a
  Decimal shows only in its printed form, never in a comparison, so equal values are equal
  here as they are under \<open>==\<close>.  Every arithmetic operation computes the exact result and then
  rounds it to the context (\<open>ctx\<close>); comparisons, \<open>min\<close>, \<open>max\<close> and conversions from \<open>int\<close> are
  exact.  The exponent range of the context (about 10 to the power 999999) is not modelled.
\<close>

section \<open>Decimal digits\<close>

fun ndigits :: "nat \<Rightarrow> nat" where
  "ndigits n = (if n < 10 then 1 else Suc (ndigits (n div 10)))"

declare ndigits.simps [simp del]

lemma ndigits_pos: "0 < ndigits n"
  by (subst ndigits.simps) simp

lemma ndigits_upper: "n < 10 ^ ndigits n"
proof (induction n rule: ndigits.induct)
  case (1 n)
  show ?case
  proof (cases "n < 10")
    case True
    then show ?thesis by (simp add: ndigits.simps [of n])
  next
    case False
    with "1" have "n div 10 < 10 ^ ndigits (n div 10)" by simp
    then have "n < 10 * 10 ^ ndigits (n div 10)" by arith
    with False show ?thesis by (simp add: ndigits.simps [of n])
  qed
qed

lemma ndigits_lower: "0 < n \<Longrightarrow> 10 ^ (ndigits n - 1) \<le> n"
proof (induction n rule: ndigits.induct)
  case (1 n)
  show ?case
  proof (cases "n < 10")
    case True
    with "1.prems" show ?thesis by (simp add: ndigits.simps [of n])
  next
    case False
    with "1.IH" have "10 ^ (ndigits (n div 10) - 1) \<le> n div 10" by simp
    then have "10 * 10 ^ (ndigits (n div 10) - 1) \<le> n" by simp
    moreover have "10 ^ ndigits (n div 10) = 10 * (10::nat) ^ (ndigits (n div 10) - 1)"
      using ndigits_pos [of "n div 10"] by (cases "ndigits (n div 10)") auto
    ultimately show ?thesis using False by (simp add: ndigits.simps [of n])
  qed
qed

text \<open>\<open>Decimal.adjusted\<close>: the exponent of the most significant digit.\<close>

definition adjusted :: "rat \<Rightarrow> int" where
  "adjusted x =
     (if 1 \<le> \<bar>x\<bar> then int (ndigits (nat \<lfloor>\<bar>x\<bar>\<rfloor>)) - 1
      else - int (ndigits (nat (\<lceil>1 / \<bar>x\<bar>\<rceil> - 1))))"

text \<open>The same on integers, for evaluation.\<close>

function int_digits :: "int \<Rightarrow> int" where
  "int_digits n = (if n < 10 then 1 else 1 + int_digits (n div 10))"
  by pat_completeness auto
termination by (relation "measure nat") auto

lemma int_digits_eq: "int_digits n = int (ndigits (nat n))"
proof (induction n rule: int_digits.induct)
  case (1 n)
  show ?case
  proof (cases "n < 10")
    case True
    then have "nat n < 10" by linarith
    then show ?thesis using True by (simp add: ndigits.simps [of "nat n"])
  next
    case False
    then have "nat (n div 10) = nat n div 10" "\<not> nat n < 10" by (simp_all add: nat_div_distrib)
    then show ?thesis
      using "1" False by (simp add: int_digits.simps [of n] ndigits.simps [of "nat n"] del: int_digits.simps)
  qed
qed

declare int_digits.simps [simp del]

lemma adjusted_code [code]:
  "adjusted x = (if 1 \<le> \<bar>x\<bar> then int_digits \<lfloor>\<bar>x\<bar>\<rfloor> - 1 else - int_digits (\<lceil>1 / \<bar>x\<bar>\<rceil> - 1))"
  by (simp add: adjusted_def int_digits_eq)

lemma adjusted_minus [simp]: "adjusted (- x) = adjusted x"
  by (simp add: adjusted_def)

lemma adjusted_ge_1:
  assumes "1 \<le> \<bar>x\<bar>"
  shows "10 powi adjusted x \<le> \<bar>x\<bar> \<and> \<bar>x\<bar> < 10 powi (adjusted x + 1)"
proof -
  define n where "n = nat \<lfloor>\<bar>x\<bar>\<rfloor>"
  define d where "d = ndigits n"
  have f: "1 \<le> \<lfloor>\<bar>x\<bar>\<rfloor>" using assms by (simp add: le_floor_iff)
  then have "int n = \<lfloor>\<bar>x\<bar>\<rfloor>" by (simp add: n_def)
  then have rn: "rat_of_nat n = of_int \<lfloor>\<bar>x\<bar>\<rfloor>" by (metis of_int_of_nat_eq)
  have n: "0 < n" "rat_of_nat n \<le> \<bar>x\<bar>" "\<bar>x\<bar> < rat_of_nat n + 1"
    using f floor_correct [of "\<bar>x\<bar>"] by (simp_all add: rn) (simp add: n_def)
  have "(10::rat) ^ (d - 1) \<le> rat_of_nat n"
    using ndigits_lower [OF n(1)] unfolding d_def by (metis of_nat_le_iff of_nat_numeral of_nat_power)
  moreover have "rat_of_nat n + 1 \<le> 10 ^ d"
    using ndigits_upper [of n] unfolding d_def
    by (metis Suc_leI of_nat_Suc of_nat_le_iff of_nat_numeral of_nat_power add.commute)
  moreover have "0 < d" by (simp add: d_def ndigits_pos)
  then have "adjusted x = int (d - 1)" "adjusted x + 1 = int d"
    using assms by (auto simp: adjusted_def d_def n_def)
  then have "10 powi adjusted x = (10::rat) ^ (d - 1)" and "10 powi (adjusted x + 1) = (10::rat) ^ d"
    by (simp_all only: power_int_of_nat)
  ultimately show ?thesis using n(2,3) by linarith
qed

lemma adjusted_lt_1:
  assumes "x \<noteq> 0" and "\<bar>x\<bar> < 1"
  shows "10 powi adjusted x \<le> \<bar>x\<bar> \<and> \<bar>x\<bar> < 10 powi (adjusted x + 1)"
proof -
  define y where "y = 1 / \<bar>x\<bar>"
  define m where "m = nat (\<lceil>y\<rceil> - 1)"
  define d where "d = ndigits m"
  have y: "1 < y" using assms by (simp add: y_def divide_simps)
  then have c: "1 < \<lceil>y\<rceil>" by (simp add: less_ceiling_iff)
  then have m0: "0 < m" by (simp add: m_def)
  have "int m = \<lceil>y\<rceil> - 1" using c by (simp add: m_def)
  then have mr: "rat_of_nat m = of_int \<lceil>y\<rceil> - 1" by (metis of_int_1 of_int_diff of_int_of_nat_eq)
  have m1: "rat_of_nat m < y" and m2: "y \<le> rat_of_nat m + 1"
    unfolding mr using ceiling_correct [of y] by linarith+
  have "rat_of_nat m + 1 \<le> 10 ^ d"
    using ndigits_upper [of m] unfolding d_def
    by (metis Suc_leI of_nat_Suc of_nat_le_iff of_nat_numeral of_nat_power add.commute)
  with m2 have up: "y \<le> 10 ^ d" by linarith
  have "(10::rat) ^ (d - 1) \<le> rat_of_nat m"
    using ndigits_lower [OF m0] unfolding d_def by (metis of_nat_le_iff of_nat_numeral of_nat_power)
  with m1 have lo: "10 ^ (d - 1) < y" by linarith
  have a: "adjusted x = - int d" using assms by (simp add: adjusted_def d_def m_def y_def)
  have e1: "10 powi adjusted x = (1::rat) / 10 ^ d"
    by (simp add: a power_int_minus divide_inverse)
  have "0 < d" by (simp add: d_def ndigits_pos)
  then have "adjusted x + 1 = - int (d - 1)" using a by simp
  then have e2: "10 powi (adjusted x + 1) = (1::rat) / 10 ^ (d - 1)"
    by (simp add: power_int_minus divide_inverse)
  have x: "\<bar>x\<bar> = 1 / y" by (simp add: y_def)
  show ?thesis
    unfolding e1 e2 x using up lo y by (simp add: frac_le frac_less2 divide_simps)
qed

lemma adjusted_bounds:
  "x \<noteq> 0 \<Longrightarrow> 10 powi adjusted x \<le> \<bar>x\<bar> \<and> \<bar>x\<bar> < 10 powi (adjusted x + 1)"
  using adjusted_ge_1 adjusted_lt_1 by (meson not_le)

lemma powi10_mono: "a \<le> b \<Longrightarrow> (10::rat) powi a \<le> 10 powi b"
  by (rule power_int_increasing) auto

lemma powi10_less_iff: "(10::rat) powi a < 10 powi b \<longleftrightarrow> a < b"
  by (metis linorder_not_less one_less_numeral_iff power_int_strict_increasing powi10_mono semiring_norm(76))

lemma powi10_pos [simp]: "(0::rat) < 10 powi a"
  by simp

lemma adjusted_unique:
  assumes "10 powi e \<le> \<bar>x\<bar>" and "\<bar>x\<bar> < 10 powi (e + 1)"
  shows "adjusted x = e"
proof -
  have "0 < \<bar>x\<bar>" using assms(1) powi10_pos [of e] by linarith
  then have "x \<noteq> 0" by simp
  then have "10 powi adjusted x \<le> \<bar>x\<bar>" "\<bar>x\<bar> < 10 powi (adjusted x + 1)"
    using adjusted_bounds by auto
  with assms have "(10::rat) powi adjusted x < 10 powi (e + 1)" "(10::rat) powi e < 10 powi (adjusted x + 1)"
    by linarith+
  then show ?thesis by (simp add: powi10_less_iff)
qed

lemma adjusted_mono:
  assumes "0 < x" and "x \<le> y"
  shows "adjusted x \<le> adjusted y"
proof -
  have "10 powi adjusted x \<le> x" "y < 10 powi (adjusted y + 1)"
    using adjusted_bounds [of x] adjusted_bounds [of y] assms by auto
  with assms have "(10::rat) powi adjusted x < 10 powi (adjusted y + 1)" by linarith
  then show ?thesis by (simp add: powi10_less_iff)
qed

section \<open>Rounding to an integer\<close>

text \<open>The rounding modes of the \<open>decimal\<close> module the program uses.\<close>

datatype rounding = ROUND_HALF_EVEN | ROUND_HALF_UP | ROUND_UP | ROUND_DOWN

definition round_half_even :: "rat \<Rightarrow> int" where
  "round_half_even x =
     (let f = \<lfloor>x\<rfloor>; d = x - of_int f
      in if d < 1 / 2 then f else if 1 / 2 < d then f + 1 else if even f then f else f + 1)"

definition round_down :: "rat \<Rightarrow> int" where
  "round_down x = (if 0 \<le> x then \<lfloor>x\<rfloor> else \<lceil>x\<rceil>)"

definition round_up :: "rat \<Rightarrow> int" where
  "round_up x = (if 0 \<le> x then \<lceil>x\<rceil> else \<lfloor>x\<rfloor>)"

definition round_half_up :: "rat \<Rightarrow> int" where
  "round_half_up x = (if 0 \<le> x then \<lfloor>x + 1 / 2\<rfloor> else \<lceil>x - 1 / 2\<rceil>)"

fun round_with :: "rounding \<Rightarrow> rat \<Rightarrow> int" where
  "round_with ROUND_HALF_EVEN x = round_half_even x"
| "round_with ROUND_HALF_UP x = round_half_up x"
| "round_with ROUND_UP x = round_up x"
| "round_with ROUND_DOWN x = round_down x"

lemma round_half_even_of_int [simp]: "round_half_even (of_int n) = n"
  by (simp add: round_half_even_def)

lemma round_half_even_bounds: "\<lfloor>x\<rfloor> \<le> round_half_even x \<and> round_half_even x \<le> \<lfloor>x\<rfloor> + 1"
  by (simp add: round_half_even_def Let_def)

lemma round_half_even_error: "\<bar>of_int (round_half_even x) - x\<bar> \<le> 1 / 2"
proof -
  have "of_int \<lfloor>x\<rfloor> \<le> x" "x < of_int \<lfloor>x\<rfloor> + 1" using floor_correct [of x] by simp_all
  then show ?thesis unfolding round_half_even_def Let_def
    by (cases "even \<lfloor>x\<rfloor>") (auto simp: abs_le_iff)
qed

lemma round_half_even_mono:
  assumes "x \<le> y"
  shows "round_half_even x \<le> round_half_even y"
proof (cases "\<lfloor>x\<rfloor> = \<lfloor>y\<rfloor>")
  case True
  with assms show ?thesis by (auto simp: round_half_even_def Let_def)
next
  case False
  with assms have "\<lfloor>x\<rfloor> + 1 \<le> \<lfloor>y\<rfloor>" using floor_mono [OF assms] by linarith
  then show ?thesis using round_half_even_bounds [of x] round_half_even_bounds [of y] by linarith
qed

lemma round_half_even_minus: "round_half_even (- x) = - round_half_even x"
proof (cases "x \<in> \<int>")
  case True
  then obtain n where "x = of_int n" by (auto elim: Ints_cases)
  then show ?thesis by (metis of_int_minus round_half_even_of_int)
next
  case False
  have "\<lceil>x\<rceil> = \<lfloor>x\<rfloor> + 1"
    using False by (metis Ints_of_int ceiling_altdef)
  then have "\<lfloor>- x\<rfloor> = - \<lfloor>x\<rfloor> - 1" by (simp add: floor_minus)
  then show ?thesis
    by (auto simp: round_half_even_def Let_def)
qed

text \<open>\<open>int(d)\<close> of a Decimal truncates toward zero.\<close>

definition py_int :: "rat \<Rightarrow> int" where
  "py_int x = round_with ROUND_DOWN x"

lemma py_int_nonneg: "0 \<le> x \<Longrightarrow> 0 \<le> py_int x \<and> of_int (py_int x) \<le> x \<and> x < of_int (py_int x) + 1"
  using floor_correct [of x] by (simp add: py_int_def round_down_def)

lemma round_up_ge: "0 \<le> x \<Longrightarrow> x \<le> of_int (round_up x)"
  by (simp add: round_up_def)

lemma round_half_up_error: "\<bar>of_int (round_half_up x) - x\<bar> \<le> 1 / 2"
proof (cases "0 \<le> x")
  case True
  define f where "f = \<lfloor>x + 1 / 2\<rfloor>"
  have "of_int f \<le> x + 1 / 2 \<and> x + 1 / 2 < of_int f + 1"
    using floor_correct [of "x + 1 / 2"] by (simp add: f_def)
  moreover have "round_half_up x = f" using True by (simp add: round_half_up_def f_def)
  ultimately show ?thesis unfolding abs_le_iff by auto
next
  case False
  define c where "c = \<lceil>x - 1 / 2\<rceil>"
  have "of_int c - 1 < x - 1 / 2 \<and> x - 1 / 2 \<le> of_int c"
    using ceiling_correct [of "x - 1 / 2"] by (simp add: c_def)
  moreover have "round_half_up x = c" using False by (simp add: round_half_up_def c_def)
  ultimately show ?thesis unfolding abs_le_iff by auto
qed

lemma round_half_up_nonneg: "0 \<le> x \<Longrightarrow> 0 \<le> round_half_up x"
  by (simp add: round_half_up_def)

lemma round_half_up_of_int [simp]: "round_half_up (of_int n) = n"
proof -
  have "\<bar>of_int (round_half_up (of_int n)) - (of_int n :: rat)\<bar> \<le> 1 / 2"
    by (rule round_half_up_error)
  then have "\<bar>of_int (round_half_up (of_int n) - n) :: rat\<bar> < 1" by simp
  then have "\<bar>round_half_up (of_int n) - n\<bar> < 1"
    by (metis of_int_abs of_int_less_1_iff)
  then show ?thesis by linarith
qed

section \<open>Rounding to a number of digits\<close>

text \<open>The value with \<open>p\<close> significant digits that is nearest to \<open>x\<close>, the even one when there are two.\<close>

definition round_to :: "nat \<Rightarrow> rat \<Rightarrow> rat" where
  "round_to p x =
     (if x = 0 then 0
      else let u = 10 powi (adjusted x + 1 - int p) in of_int (round_half_even (x / u)) * u)"

lemma round_to_0 [simp]: "round_to p 0 = 0"
  by (simp add: round_to_def)

lemma round_to_minus: "round_to p (- x) = - round_to p x"
  by (simp add: round_to_def Let_def round_half_even_minus)

lemma round_to_pos_bounds:
  assumes "0 < x" "0 < p"
  shows "10 powi adjusted x \<le> round_to p x \<and> round_to p x \<le> 10 powi (adjusted x + 1)"
proof -
  define u :: rat where "u = 10 powi (adjusted x + 1 - int p)"
  have u: "0 < u" by (simp add: u_def)
  have "adjusted x = int (p - 1) + (adjusted x + 1 - int p)" using assms(2) by simp
  then have "(10::rat) powi adjusted x = 10 powi (int (p - 1) + (adjusted x + 1 - int p))" by (rule arg_cong)
  then have e1: "10 powi adjusted x = of_int (10 ^ (p - 1)) * u" by (simp add: u_def power_int_add)
  have e2: "10 powi (adjusted x + 1) = of_int (10 ^ p) * u"
    by (simp add: u_def power_int_diff)
  have b: "of_int (10 ^ (p - 1)) * u \<le> x" "x < of_int (10 ^ p) * u"
    using adjusted_bounds [of x] assms unfolding e1 e2 by simp_all
  then have "of_int (10 ^ (p - 1)) \<le> x / u" "x / u \<le> of_int (10 ^ p)"
    using u by (simp_all add: pos_le_divide_eq pos_divide_le_eq)
  then have r: "10 ^ (p - 1) \<le> round_half_even (x / u)" "round_half_even (x / u) \<le> 10 ^ p"
    using round_half_even_mono round_half_even_of_int by metis+
  have c: "round_to p x = of_int (round_half_even (x / u)) * u"
    using assms by (simp add: round_to_def Let_def u_def)
  have "of_int (10 ^ (p - 1)) * u \<le> round_to p x"
    unfolding c using r(1) u by (metis mult_right_mono of_int_le_iff order.strict_implies_order)
  moreover have "round_to p x \<le> of_int (10 ^ p) * u"
    unfolding c using r(2) u by (metis mult_right_mono of_int_le_iff order.strict_implies_order)
  ultimately show ?thesis by (simp only: e1 e2)
qed

lemma round_to_mono_pos:
  assumes "0 < x" and "x \<le> y" "0 < p"
  shows "round_to p x \<le> round_to p y"
proof (cases "adjusted x = adjusted y")
  case True
  define u :: rat where "u = 10 powi (adjusted x + 1 - int p)"
  have u: "0 < u" by (simp add: u_def)
  have "round_half_even (x / u) \<le> round_half_even (y / u)"
    using assms(2) u by (intro round_half_even_mono) (simp add: divide_right_mono)
  then have "of_int (round_half_even (x / u)) * u \<le> of_int (round_half_even (y / u)) * u"
    using u by (simp add: mult_right_mono)
  then show ?thesis using assms True by (simp add: round_to_def Let_def u_def)
next
  case False
  with adjusted_mono [OF assms(1,2)] have "adjusted x + 1 \<le> adjusted y" by simp
  then have "(10::rat) powi (adjusted x + 1) \<le> 10 powi adjusted y" by (rule powi10_mono)
  with round_to_pos_bounds [of x p] round_to_pos_bounds [of y p] assms show ?thesis by linarith
qed

lemma round_to_pos: "0 < x \<Longrightarrow> 0 < p \<Longrightarrow> 0 < round_to p x"
  using round_to_pos_bounds [of x p] powi10_pos [of "adjusted x"] by linarith

lemma round_to_nonneg: "0 \<le> x \<Longrightarrow> 0 < p \<Longrightarrow> 0 \<le> round_to p x"
  using round_to_pos [of x p] by (cases "x = 0") auto

lemma round_to_mono: "x \<le> y \<Longrightarrow> 0 < p \<Longrightarrow> round_to p x \<le> round_to p y"
proof -
  assume xy: "x \<le> y" and p: "0 < p"
  consider "0 < x" | "x \<le> 0" "0 \<le> y" | "y < 0" using xy by linarith
  then show ?thesis
  proof cases
    case 1
    then show ?thesis using xy p by (intro round_to_mono_pos)
  next
    case 2
    then show ?thesis using round_to_nonneg [of "- x" p] round_to_nonneg [of y p] p by (simp add: round_to_minus)
  next
    case 3
    then have "round_to p (- y) \<le> round_to p (- x)" using xy p by (intro round_to_mono_pos) auto
    then show ?thesis by (simp add: round_to_minus)
  qed
qed

lemma round_to_error:
  assumes "x \<noteq> 0"
  shows "\<bar>round_to p x - x\<bar> \<le> 10 powi (adjusted x + 1 - int p) / 2"
proof -
  define u :: rat where "u = 10 powi (adjusted x + 1 - int p)"
  have u: "0 < u" by (simp add: u_def)
  have "round_to p x - x = (of_int (round_half_even (x / u)) - x / u) * u"
    using assms u by (simp add: round_to_def Let_def u_def algebra_simps)
  then have "\<bar>round_to p x - x\<bar> = \<bar>of_int (round_half_even (x / u)) - x / u\<bar> * u"
    using u by (simp add: abs_mult)
  also have "\<dots> \<le> 1 / 2 * u"
    using round_half_even_error [of "x / u"] u by (intro mult_right_mono) auto
  finally show ?thesis by (simp add: u_def)
qed

text \<open>A value whose coefficient fits into the digits is unchanged.\<close>

lemma round_to_exact:
  assumes x: "x = of_int c * 10 powi e" and c: "\<bar>c\<bar> < 10 ^ p"
  shows "round_to p x = x"
proof (cases "c = 0")
  case True
  with x show ?thesis by simp
next
  case False
  define k where "k = adjusted x + 1 - int p"
  have xnz: "x \<noteq> 0" using False x by simp
  have "\<bar>x\<bar> = of_int \<bar>c\<bar> * 10 powi e" by (simp add: x abs_mult)
  moreover have "(of_int \<bar>c\<bar> :: rat) < of_int (10 ^ p)" using c by (simp only: of_int_less_iff)
  ultimately have "\<bar>x\<bar> < of_int (10 ^ p) * 10 powi e" by (simp add: mult_strict_right_mono)
  also have "\<dots> = 10 powi (e + int p)" by (simp add: power_int_add)
  finally have "(10::rat) powi adjusted x < 10 powi (e + int p)"
    using adjusted_bounds [OF xnz] by linarith
  then have ke: "k \<le> e" by (simp add: k_def powi10_less_iff)
  have "x / 10 powi k = of_int c * 10 powi (e - k)"
    by (simp add: x power_int_diff)
  also have "\<dots> = of_int (c * 10 ^ nat (e - k))"
    using ke by (simp add: power_int_def)
  finally have q: "x / 10 powi k = of_int (c * 10 ^ nat (e - k))" .
  have "round_half_even (x / 10 powi k) = c * 10 ^ nat (e - k)"
    unfolding q by (rule round_half_even_of_int)
  then have "of_int (round_half_even (x / 10 powi k)) = x / 10 powi k"
    by (simp only: q)
  then show ?thesis
    using xnz by (simp add: round_to_def Let_def flip: k_def)
qed

section \<open>The arithmetic context\<close>

definition ctx :: "rat \<Rightarrow> rat" where
  "ctx x =
     (if x = 0 then 0
      else let u = 10 powi (adjusted x - 27) in of_int (round_half_even (x / u)) * u)"

definition dec_add :: "rat \<Rightarrow> rat \<Rightarrow> rat" where
  "dec_add x y = ctx (x + y)"

definition dec_sub :: "rat \<Rightarrow> rat \<Rightarrow> rat" where
  "dec_sub x y = ctx (x - y)"

definition dec_mul :: "rat \<Rightarrow> rat \<Rightarrow> rat" where
  "dec_mul x y = ctx (x * y)"

definition dec_neg :: "rat \<Rightarrow> rat" where
  "dec_neg x = ctx (- x)"

definition dec_div :: "rat \<Rightarrow> rat \<Rightarrow> rat result" where
  "dec_div x y = (if y = 0 then Inl DecimalDivisionByZero else Inr (ctx (x / y)))"

text \<open>
  \<open>d.quantize(Decimal(10) ** -k, rounding=r)\<close>: the result has \<open>k\<close> decimals, and a coefficient of
  more than 28 digits raises.
\<close>

definition quantize :: "rounding \<Rightarrow> nat \<Rightarrow> rat \<Rightarrow> rat result" where
  "quantize r k x =
     (let c = round_with r (x * 10 ^ k)
      in if 10 ^ 28 \<le> \<bar>c\<bar> then Inl DecimalInvalidOperation else Inr (of_int c / 10 ^ k))"

lemma ctx_round_to: "ctx x = round_to 28 x"
  by (simp add: ctx_def round_to_def Let_def algebra_simps)

lemma ctx_0 [simp]: "ctx 0 = 0"
  by (simp add: ctx_def)

lemma ctx_minus: "ctx (- x) = - ctx x"
  by (simp add: ctx_round_to round_to_minus)

lemma ctx_pos_bounds: "0 < x \<Longrightarrow> 10 powi adjusted x \<le> ctx x \<and> ctx x \<le> 10 powi (adjusted x + 1)"
  unfolding ctx_round_to by (rule round_to_pos_bounds) simp_all

lemma ctx_pos: "0 < x \<Longrightarrow> 0 < ctx x"
  using ctx_pos_bounds [of x] powi10_pos [of "adjusted x"] by linarith

lemma ctx_nonneg: "0 \<le> x \<Longrightarrow> 0 \<le> ctx x"
  using ctx_pos [of x] by (cases "x = 0") auto

lemma ctx_neg: "x < 0 \<Longrightarrow> ctx x < 0"
  using ctx_pos [of "- x"] by (simp add: ctx_minus)

lemma ctx_nonpos: "x \<le> 0 \<Longrightarrow> ctx x \<le> 0"
  using ctx_nonneg [of "- x"] by (simp add: ctx_minus)

lemma ctx_pos_iff [simp]: "0 < ctx x \<longleftrightarrow> 0 < x"
  using ctx_pos ctx_nonpos by (meson not_le)

lemma ctx_nonneg_iff [simp]: "0 \<le> ctx x \<longleftrightarrow> 0 \<le> x"
  using ctx_nonneg ctx_neg by (meson not_le)

lemma ctx_eq_0_iff [simp]: "ctx x = 0 \<longleftrightarrow> x = 0"
  using ctx_pos_iff ctx_nonneg_iff by (metis linorder_neqE_linordered_idom order_less_irrefl not_le)

lemma ctx_mono: "x \<le> y \<Longrightarrow> ctx x \<le> ctx y"
  unfolding ctx_round_to by (rule round_to_mono) simp_all

lemma ctx_error: "x \<noteq> 0 \<Longrightarrow> \<bar>ctx x - x\<bar> \<le> 10 powi (adjusted x - 27) / 2"
  using round_to_error [of x 28] by (simp add: ctx_round_to algebra_simps)

lemma ctx_exact: "x = of_int c * 10 powi e \<Longrightarrow> \<bar>c\<bar> < 10 ^ 28 \<Longrightarrow> ctx x = x"
  unfolding ctx_round_to by (rule round_to_exact)

lemma ctx_of_int: "\<bar>n\<bar> < 10 ^ 28 \<Longrightarrow> ctx (of_int n) = of_int n"
  by (rule ctx_exact [of _ n 0]) auto

section \<open>Decimal grids\<close>

text \<open>
  A value on the grid of \<open>k\<close> decimals is a multiple of 10 to the power \<open>- k\<close>.  On a grid, and
  below the 28 digits of the context, the arithmetic is exact: this is the range the amounts
  of the program live in (prices and cash of a few decimals).
\<close>

definition on_grid :: "nat \<Rightarrow> rat \<Rightarrow> bool" where
  "on_grid k x \<longleftrightarrow> of_int \<lfloor>x * 10 ^ k\<rfloor> = x * 10 ^ k"

lemma on_grid_iff: "on_grid k x \<longleftrightarrow> (\<exists>n. x = of_int n / 10 ^ k)"
proof
  assume g: "on_grid k x"
  have "x = x * 10 ^ k / 10 ^ k" by simp
  also have "\<dots> = of_int \<lfloor>x * 10 ^ k\<rfloor> / 10 ^ k" using g unfolding on_grid_def by (rule arg_cong [OF sym])
  finally have "x = of_int \<lfloor>x * 10 ^ k\<rfloor> / 10 ^ k" .
  then show "\<exists>n. x = of_int n / 10 ^ k" by blast
qed (auto simp: on_grid_def)

lemma on_grid_0 [simp]: "on_grid k 0"
  by (simp add: on_grid_def)

lemma on_grid_of_int [simp]: "on_grid k (of_int n)"
  unfolding on_grid_iff by (rule exI [of _ "n * 10 ^ k"]) simp

lemma on_grid_add: "on_grid k x \<Longrightarrow> on_grid k y \<Longrightarrow> on_grid k (x + y)"
  unfolding on_grid_iff by (metis add_divide_distrib of_int_add)

lemma on_grid_diff: "on_grid k x \<Longrightarrow> on_grid k y \<Longrightarrow> on_grid k (x - y)"
  unfolding on_grid_iff by (metis diff_divide_distrib of_int_diff)

lemma on_grid_minus: "on_grid k x \<Longrightarrow> on_grid k (- x)"
  using on_grid_diff [of k 0 x] by simp

lemma on_grid_mult_int: "on_grid k x \<Longrightarrow> on_grid k (x * of_int n)"
  unfolding on_grid_iff by (metis of_int_mult times_divide_eq_left)

lemma on_grid_mono: "on_grid k x \<Longrightarrow> k \<le> l \<Longrightarrow> on_grid l x"
proof -
  assume "on_grid k x" and kl: "k \<le> l"
  then obtain n where n: "x = of_int n / 10 ^ k" by (auto simp: on_grid_iff)
  have "(10::rat) ^ l = 10 ^ (l - k) * 10 ^ k" using kl by (simp flip: power_add)
  then have "x = of_int (n * 10 ^ (l - k)) / 10 ^ l" by (simp add: n)
  then show "on_grid l x" unfolding on_grid_iff by blast
qed

lemma ctx_on_grid:
  assumes "on_grid k x" and "\<bar>x\<bar> * 10 ^ k < 10 ^ 28"
  shows "ctx x = x"
proof -
  from assms(1) obtain n where n: "x = of_int n / 10 ^ k" by (auto simp: on_grid_iff)
  have "(of_int \<bar>n\<bar> :: rat) < of_int (10 ^ 28)" using assms(2) by (simp add: n abs_divide)
  then have "\<bar>n\<bar> < 10 ^ 28" by (simp only: of_int_less_iff)
  moreover have "x = of_int n * 10 powi (- int k)" by (simp add: n power_int_minus divide_inverse)
  ultimately show ?thesis by (rule ctx_exact [rotated])
qed

text \<open>
  For evaluation: a value with at most ten decimal places that fits the precision is left as it is, which
  saves the search for its leading digit.
\<close>

lemma round_to_short:
  assumes "quotient_of x = (n, d)" and "10000000000 mod d = 0" and "\<bar>n * (10000000000 div d)\<bar> < 10 ^ p"
  shows "round_to p x = x"
proof -
  have d: "0 < d" by (rule quotient_of_denom_pos [OF assms(1)])
  have e: "d * (10000000000 div d) = 10000000000" using assms(2) by (metis div_mult_mod_eq add.right_neutral mult.commute)
  have tenth: "a / of_int 10000000000 = a * 10 powi (- 10)" for a :: rat by (simp add: power_int_def power_divide)
  have "x = of_int n / of_int d" by (rule quotient_of_div [OF assms(1)])
  also have "\<dots> = of_int (n * (10000000000 div d)) / of_int (d * (10000000000 div d))"
  proof -
    have "0 < d * (10000000000 div d)" by (simp only: e)
    then have "0 < 10000000000 div d" using d by (simp only: zero_less_mult_iff) simp
    then show ?thesis by (simp only: of_int_mult) (simp add: mult_divide_mult_cancel_right)
  qed
  also have "\<dots> = of_int (n * (10000000000 div d)) * 10 powi (- 10)"
    unfolding e by (rule tenth)
  finally show ?thesis using assms(3) by (rule round_to_exact)
qed

lemma round_to_code [code]:
  "round_to p x =
     (case quotient_of x of (n, d) \<Rightarrow>
        if 10000000000 mod d = 0 \<and> \<bar>n * (10000000000 div d)\<bar> < 10 ^ p then x
        else let u = 10 powi (adjusted x + 1 - int p) in of_int (round_half_even (x / u)) * u)"
proof (cases "x = 0")
  case False
  then show ?thesis using round_to_short [of x _ _ p] by (auto simp: round_to_def split: prod.split)
qed simp

lemma ctx_code [code]:
  "ctx x =
     (case quotient_of x of (n, d) \<Rightarrow>
        if 10000000000 mod d = 0 \<and> \<bar>n * (10000000000 div d)\<bar> < 10000000000000000000000000000 then x
        else let u = 10 powi (adjusted x - 27) in of_int (round_half_even (x / u)) * u)"
proof -
  have u: "adjusted x + 1 - int 28 = adjusted x - 27" by simp
  show ?thesis using round_to_code [of 28 x] unfolding ctx_round_to u by simp
qed

lemma quantize_on_grid: "quantize r k x = Inr y \<Longrightarrow> on_grid k y"
  by (auto simp: quantize_def Let_def on_grid_iff split: if_splits)

lemma quantize_half_up_error:
  assumes "quantize ROUND_HALF_UP k x = Inr y"
  shows "\<bar>y - x\<bar> \<le> 1 / (2 * 10 ^ k)"
proof -
  define c where "c = round_half_up (x * 10 ^ k)"
  have y: "y = of_int c / 10 ^ k"
    using assms by (auto simp: quantize_def Let_def c_def split: if_splits)
  have "y - x = (of_int c - x * 10 ^ k) / 10 ^ k" by (simp add: y diff_divide_distrib)
  then have "\<bar>y - x\<bar> = \<bar>of_int c - x * 10 ^ k\<bar> / 10 ^ k" by (simp add: abs_divide)
  also have "\<dots> \<le> (1 / 2) / 10 ^ k"
    using round_half_up_error [of "x * 10 ^ k"] by (intro divide_right_mono) (auto simp: c_def)
  finally show ?thesis by simp
qed

lemma quantize_nonneg:
  "quantize ROUND_HALF_UP k x = Inr y \<Longrightarrow> 0 \<le> x \<Longrightarrow> 0 \<le> y"
  by (auto simp: quantize_def Let_def round_half_up_nonneg zero_le_divide_iff split: if_splits)

lemma quantize_ok:
  assumes "\<bar>x\<bar> * 10 ^ k < 10 ^ 28 - 1"
  shows "is_ok (quantize ROUND_HALF_UP k x)"
proof -
  define c where "c = round_half_up (x * 10 ^ k)"
  have "\<bar>of_int c - x * 10 ^ k\<bar> \<le> 1 / 2" unfolding c_def by (rule round_half_up_error)
  moreover have "\<bar>x * 10 ^ k\<bar> < 10 ^ 28 - 1" using assms by (simp add: abs_mult)
  ultimately have "\<bar>of_int c :: rat\<bar> < 10 ^ 28" unfolding abs_less_iff abs_le_iff by auto
  then have "of_int \<bar>c\<bar> < (of_int (10 ^ 28) :: rat)" by simp
  then have "\<bar>c\<bar> < 10 ^ 28" by (simp only: of_int_less_iff)
  then show ?thesis by (simp add: quantize_def Let_def flip: c_def)
qed

end
