(* ===== verification/Shared.thy ===== *)
theory Shared
  imports Decimals
begin

text \<open>
  Dates and instants of the standard library as far as the program uses them, and the small
  value objects of \<open>ashare_lab/domain/shared\<close>: identifiers, money, prices and quantities.

  A \<open>date\<close> is its proleptic Gregorian ordinal (\<open>date.toordinal()\<close>).  An aware \<open>datetime\<close> is the
  instant it denotes, in microseconds of UTC counted from ordinal 0: comparison, equality and
  subtraction of aware datetimes are those of their instants.  A naive datetime cannot be
  written, so \<open>require_aware\<close> and the other run-time type checks of the constructors hold by typing.
  Here \<open>Asia/Shanghai\<close> is UTC+8 throughout, without the summer time of 1986--1991.  The theory \<open>Availability\<close>
  and the financial facts, whose code checks the offset of a datetime against a named zone, use the wider
  type \<open>stamp\<close> (clock reading, offset, zone) and a time zone database instead.
\<close>

section \<open>Dates and instants\<close>

type_synonym date = int
type_synonym datetime = int
type_synonym clock_time = int

definition days_before_year :: "int \<Rightarrow> int" where
  "days_before_year y = (let p = y - 1 in p * 365 + p div 4 - p div 100 + p div 400)"

definition is_leap :: "int \<Rightarrow> bool" where
  "is_leap y \<longleftrightarrow> y mod 4 = 0 \<and> (y mod 100 \<noteq> 0 \<or> y mod 400 = 0)"

definition days_before_month :: "int \<Rightarrow> int \<Rightarrow> int" where
  "days_before_month y m =
     sum_list (take (nat (m - 1)) [31, if is_leap y then 29 else 28, 31, 30, 31, 30, 31, 31, 30, 31, 30, 31])"

definition ymd :: "int \<Rightarrow> int \<Rightarrow> int \<Rightarrow> date" where
  "ymd y m d = days_before_year y + days_before_month y m + d"

definition microseconds_per_day :: int where
  "microseconds_per_day = 86400000000"

definition seconds :: "int \<Rightarrow> int" where
  "seconds n = n * 1000000"

definition hm :: "int \<Rightarrow> int \<Rightarrow> clock_time" where
  "hm h m = seconds ((h * 60 + m) * 60)"

definition shanghai_offset :: int where
  "shanghai_offset = seconds (8 * 3600)"

definition shanghai_date :: "datetime \<Rightarrow> date" where
  "shanghai_date t = (t + shanghai_offset) div microseconds_per_day"

definition shanghai_time :: "datetime \<Rightarrow> clock_time" where
  "shanghai_time t = (t + shanghai_offset) mod microseconds_per_day"

text \<open>\<open>datetime.combine(day, clock, tzinfo=SHANGHAI)\<close>.\<close>

definition combine :: "date \<Rightarrow> clock_time \<Rightarrow> datetime" where
  "combine d c = d * microseconds_per_day + c - shanghai_offset"

definition clock_ok :: "clock_time \<Rightarrow> bool" where
  "clock_ok c \<longleftrightarrow> 0 \<le> c \<and> c < microseconds_per_day"

lemma shanghai_date_combine [simp]: "clock_ok c \<Longrightarrow> shanghai_date (combine d c) = d"
  by (simp add: clock_ok_def combine_def shanghai_date_def microseconds_per_day_def)

lemma shanghai_time_combine [simp]: "clock_ok c \<Longrightarrow> shanghai_time (combine d c) = c"
  by (simp add: clock_ok_def combine_def shanghai_time_def microseconds_per_day_def)

lemma combine_date_time [simp]: "combine (shanghai_date t) (shanghai_time t) = t"
  by (simp add: combine_def shanghai_date_def shanghai_time_def)

lemma clock_ok_shanghai_time [simp]: "clock_ok (shanghai_time t)"
  by (simp add: clock_ok_def shanghai_time_def microseconds_per_day_def)

lemma shanghai_date_mono: "s \<le> t \<Longrightarrow> shanghai_date s \<le> shanghai_date t"
  unfolding shanghai_date_def by (intro zdiv_mono1) (auto simp: microseconds_per_day_def)

lemma combine_le_iff [simp]: "combine d c \<le> combine d c' \<longleftrightarrow> c \<le> c'"
  by (simp add: combine_def)

lemma combine_less_iff [simp]: "combine d c < combine d c' \<longleftrightarrow> c < c'"
  by (simp add: combine_def)

lemma clock_ok_hm: "0 \<le> h \<Longrightarrow> h < 24 \<Longrightarrow> 0 \<le> m \<Longrightarrow> m < 60 \<Longrightarrow> clock_ok (hm h m)"
  by (simp add: clock_ok_def hm_def seconds_def microseconds_per_day_def)

lemma clock_ok_market [simp]:
  "clock_ok (hm 9 15)" "clock_ok (hm 9 30)" "clock_ok (hm 11 30)" "clock_ok (hm 13 0)" "clock_ok (hm 15 0)"
  by (simp_all add: clock_ok_hm)

section \<open>Optional values\<close>

text \<open>\<open>value is not None and P(value)\<close>.\<close>

fun opt_any :: "('a \<Rightarrow> bool) \<Rightarrow> 'a option \<Rightarrow> bool" where
  "opt_any P None \<longleftrightarrow> False"
| "opt_any P (Some x) \<longleftrightarrow> P x"

lemma opt_any_iff: "opt_any P v \<longleftrightarrow> (\<exists>x. v = Some x \<and> P x)"
  by (cases v) auto

section \<open>Identifiers (ids.py)\<close>

text \<open>\<open>^[A-Za-z0-9][A-Za-z0-9._:-]{0,127}$\<close>, matched against the whole string.\<close>

definition id_head :: "char \<Rightarrow> bool" where
  "id_head c \<longleftrightarrow> (let n = (of_char c :: nat) in
     (65 \<le> n \<and> n \<le> 90) \<or> (97 \<le> n \<and> n \<le> 122) \<or> (48 \<le> n \<and> n \<le> 57))"

definition id_tail :: "char \<Rightarrow> bool" where
  "id_tail c \<longleftrightarrow> id_head c \<or> c \<in> set ''._:-''"

fun strong_id_ok :: "string \<Rightarrow> bool" where
  "strong_id_ok [] \<longleftrightarrow> False"
| "strong_id_ok (c # cs) \<longleftrightarrow> id_head c \<and> list_all id_tail cs \<and> length cs \<le> 127"

definition mk_id :: "string \<Rightarrow> string result" where
  "mk_id v =
     (if strong_id_ok v then Inr v
      else Inl (DomainValidationError
        ''identifier must be 1-128 characters and contain only letters, digits, . _ : or -''))"

section \<open>Money (money.py)\<close>

record money =
  amount :: rat
  currency :: string

type_synonym price = money

definition currency_ok :: "string \<Rightarrow> bool" where
  "currency_ok s \<longleftrightarrow> length s = 3 \<and> list_all (\<lambda>c. (of_char c :: nat) \<in> {65..90}) s"

definition mk_money :: "rat \<Rightarrow> string \<Rightarrow> money result" where
  "mk_money a c =
     (if currency_ok c then Inr \<lparr>amount = a, currency = c\<rparr>
      else Inl (DomainValidationError ''currency must be a three-letter uppercase code''))"

definition mk_price :: "rat \<Rightarrow> string \<Rightarrow> price result" where
  "mk_price a c =
     rbind (mk_money a c) (\<lambda>m.
       if a \<le> 0 then Inl (DomainValidationError ''price must be greater than zero'') else Inr m)"

definition money_zero :: "string \<Rightarrow> money result" where
  "money_zero c = mk_money 0 c"

definition require_same_currency :: "money \<Rightarrow> money \<Rightarrow> unit result" where
  "require_same_currency x y =
     (if currency x \<noteq> currency y then Inl CurrencyMismatchError else Inr ())"

definition money_add :: "money \<Rightarrow> money \<Rightarrow> money result" where
  "money_add x y =
     rbind (require_same_currency x y) (\<lambda>_. mk_money (dec_add (amount x) (amount y)) (currency x))"

definition money_sub :: "money \<Rightarrow> money \<Rightarrow> money result" where
  "money_sub x y =
     rbind (require_same_currency x y) (\<lambda>_. mk_money (dec_sub (amount x) (amount y)) (currency x))"

text \<open>Multiplication by a Decimal or an \<open>int\<close>; the source's \<open>Decimal(multiplier)\<close> is exact.\<close>

definition money_mul :: "money \<Rightarrow> rat \<Rightarrow> money result" where
  "money_mul x k = mk_money (dec_mul (amount x) k) (currency x)"

definition money_ok :: "money \<Rightarrow> bool" where
  "money_ok m \<longleftrightarrow> currency_ok (currency m)"

definition price_ok :: "price \<Rightarrow> bool" where
  "price_ok p \<longleftrightarrow> money_ok p \<and> 0 < amount p"

lemma currency_ok_CNY [simp]: "currency_ok ''CNY''"
  by code_simp

lemma mk_money_ok [simp]: "currency_ok c \<Longrightarrow> mk_money a c = Inr \<lparr>amount = a, currency = c\<rparr>"
  by (simp add: mk_money_def)

lemma mk_money_Inr [result_simps]:
  "mk_money a c = Inr m \<longleftrightarrow> currency_ok c \<and> m = \<lparr>amount = a, currency = c\<rparr>"
  by (auto simp: mk_money_def)

lemma mk_price_Inr [result_simps]:
  "mk_price a c = Inr m \<longleftrightarrow> currency_ok c \<and> 0 < a \<and> m = \<lparr>amount = a, currency = c\<rparr>"
  by (auto simp: mk_price_def result_simps)

lemma money_zero_Inr [result_simps]:
  "money_zero c = Inr m \<longleftrightarrow> currency_ok c \<and> m = \<lparr>amount = 0, currency = c\<rparr>"
  by (auto simp: money_zero_def result_simps)

lemma money_add_Inr [result_simps]:
  "money_add x y = Inr z \<longleftrightarrow>
     currency x = currency y \<and> currency_ok (currency x) \<and>
     z = \<lparr>amount = ctx (amount x + amount y), currency = currency x\<rparr>"
  by (auto simp: money_add_def require_same_currency_def dec_add_def result_simps)

lemma money_sub_Inr [result_simps]:
  "money_sub x y = Inr z \<longleftrightarrow>
     currency x = currency y \<and> currency_ok (currency x) \<and>
     z = \<lparr>amount = ctx (amount x - amount y), currency = currency x\<rparr>"
  by (auto simp: money_sub_def require_same_currency_def dec_sub_def result_simps)

lemma money_mul_Inr [result_simps]:
  "money_mul x k = Inr z \<longleftrightarrow>
     currency_ok (currency x) \<and> z = \<lparr>amount = ctx (amount x * k), currency = currency x\<rparr>"
  by (auto simp: money_mul_def dec_mul_def result_simps)

lemma money_eq_iff: "m = m' \<longleftrightarrow> amount m = amount m' \<and> currency m = currency (m' :: money)"
  by (cases m; cases m') auto

section \<open>Quantities (quantity.py)\<close>

definition mk_quantity :: "int \<Rightarrow> int result" where
  "mk_quantity v =
     (if v < 0 then Inl (DomainValidationError ''quantity cannot be negative'') else Inr v)"

definition quantity_add :: "int \<Rightarrow> int \<Rightarrow> int result" where
  "quantity_add x y = mk_quantity (x + y)"

definition quantity_sub :: "int \<Rightarrow> int \<Rightarrow> int result" where
  "quantity_sub x y =
     (if x < y then Inl (DomainValidationError ''quantity subtraction cannot underflow'')
      else mk_quantity (x - y))"

lemma mk_quantity_Inr [result_simps]: "mk_quantity v = Inr q \<longleftrightarrow> 0 \<le> v \<and> q = v"
  by (auto simp: mk_quantity_def)

lemma quantity_sub_Inr [result_simps]: "quantity_sub x y = Inr q \<longleftrightarrow> y \<le> x \<and> q = x - y"
  by (auto simp: quantity_sub_def result_simps)

end
