(* ===== verification/Orders.thy ===== *)
theory Orders
  imports Shared
begin

text \<open>
  The order aggregate of \<open>ashare_lab/domain/orders\<close>: statuses, the immutable order snapshot and
  its audit events with their constructor checks (models.py), and the transition functions
  (state_machine.py).  A \<open>replace(order, ...)\<close> of the source builds a new snapshot, so its
  constructor checks run again (\<open>mk_order\<close>).  Reachable orders are those a sequence of commands
  produces from \<open>create\<close>, together with the audit trail they leave.
\<close>

section \<open>Statuses and events (models.py)\<close>

datatype order_side = BUY | SELL

datatype order_type = LIMIT | MARKETABLE_LIMIT

datatype time_in_force = DAY

datatype order_status =
  CREATED | SUBMITTED | ACCEPTED | PARTIALLY_FILLED | FILLED | REJECTED | CANCELLED | EXPIRED

fun is_terminal_status :: "order_status \<Rightarrow> bool" where
  "is_terminal_status s \<longleftrightarrow> s \<in> set [FILLED, REJECTED, CANCELLED, EXPIRED]"

fun order_status_value :: "order_status \<Rightarrow> string" where
  "order_status_value CREATED = ''created''"
| "order_status_value SUBMITTED = ''submitted''"
| "order_status_value ACCEPTED = ''accepted''"
| "order_status_value PARTIALLY_FILLED = ''partially_filled''"
| "order_status_value FILLED = ''filled''"
| "order_status_value REJECTED = ''rejected''"
| "order_status_value CANCELLED = ''cancelled''"
| "order_status_value EXPIRED = ''expired''"

datatype event_kind =
  EvCreated | EvSubmitted | EvAccepted | EvPartiallyFilled | EvFilled | EvRejected | EvCancelled | EvExpired

fun event_target_status :: "event_kind \<Rightarrow> order_status" where
  "event_target_status EvCreated = CREATED"
| "event_target_status EvSubmitted = SUBMITTED"
| "event_target_status EvAccepted = ACCEPTED"
| "event_target_status EvPartiallyFilled = PARTIALLY_FILLED"
| "event_target_status EvFilled = FILLED"
| "event_target_status EvRejected = REJECTED"
| "event_target_status EvCancelled = CANCELLED"
| "event_target_status EvExpired = EXPIRED"

definition fill_event_kinds :: "event_kind list" where
  "fill_event_kinds = [EvPartiallyFilled, EvFilled]"

definition reason_event_kinds :: "event_kind list" where
  "reason_event_kinds = [EvRejected, EvCancelled, EvExpired]"

definition missing_reason :: "string option \<Rightarrow> bool" where
  "missing_reason r = (case r of None \<Rightarrow> True | Some s \<Rightarrow> blank s)"

record order =
  o_order_id :: string
  o_decision_id :: string
  o_instrument_id :: string
  o_side :: order_side
  o_type :: order_type
  o_time_in_force :: time_in_force
  o_quantity :: int
  o_limit_price :: price
  o_created_at :: datetime
  o_valid_from :: datetime
  o_valid_until :: datetime
  o_updated_at :: datetime
  o_status :: order_status
  o_filled_quantity :: int
  o_average_fill_price :: "price option"
  o_submitted_at :: "datetime option"
  o_accepted_at :: "datetime option"
  o_fill_eligible_at :: "datetime option"
  o_terminal_at :: "datetime option"
  o_terminal_reason :: "string option"
  o_applied_fill_ids :: "string list"
  o_version :: int

section \<open>Checks of an order snapshot\<close>

text \<open>The checks of \<open>Order.__post_init__\<close>, in the groups and the order of the source.\<close>

definition order_quantity_checks :: "order \<Rightarrow> (bool \<times> py_error) list" where
  "order_quantity_checks x =
    [(o_quantity x \<le> 0, OrderInvariantError ''order quantity must be greater than zero''),
     (o_filled_quantity x > o_quantity x, OrderInvariantError ''filled quantity cannot exceed order quantity''),
     (o_version x < 1, OrderInvariantError ''order version must be at least one''),
     (o_valid_from x > o_valid_until x, OrderInvariantError ''valid_from cannot be after valid_until''),
     (o_created_at x > o_valid_until x, OrderInvariantError ''order cannot be created after valid_until''),
     (o_updated_at x < o_created_at x, OrderInvariantError ''updated_at cannot be before created_at'')]"

definition order_optional_time_checks :: "order \<Rightarrow> (bool \<times> py_error) list" where
  "order_optional_time_checks x =
    [(opt_any (\<lambda>t. t < o_created_at x) (o_submitted_at x), OrderInvariantError ''submitted_at cannot be before created_at''),
     (opt_any (\<lambda>t. t > o_updated_at x) (o_submitted_at x), OrderInvariantError ''submitted_at cannot be after updated_at''),
     (opt_any (\<lambda>t. t < o_created_at x) (o_accepted_at x), OrderInvariantError ''accepted_at cannot be before created_at''),
     (opt_any (\<lambda>t. t > o_updated_at x) (o_accepted_at x), OrderInvariantError ''accepted_at cannot be after updated_at''),
     (opt_any (\<lambda>t. t < o_created_at x) (o_fill_eligible_at x), OrderInvariantError ''fill_eligible_at cannot be before created_at''),
     (opt_any (\<lambda>t. t < o_created_at x) (o_terminal_at x), OrderInvariantError ''terminal_at cannot be before created_at''),
     (opt_any (\<lambda>t. t > o_updated_at x) (o_terminal_at x), OrderInvariantError ''terminal_at cannot be after updated_at'')]"

definition order_acceptance_checks :: "order \<Rightarrow> (bool \<times> py_error) list" where
  "order_acceptance_checks x =
    (opt_any (\<lambda>t. t > o_valid_until x) (o_submitted_at x), OrderInvariantError ''submitted_at cannot be after valid_until'') #
    (case o_accepted_at x of
       Some a \<Rightarrow>
        [(o_submitted_at x = None, OrderInvariantError ''accepted order must have submitted_at''),
         (opt_any (\<lambda>t. a < t) (o_submitted_at x), OrderInvariantError ''accepted_at cannot be before submitted_at''),
         (a > o_valid_until x, OrderInvariantError ''accepted_at cannot be after valid_until''),
         (o_fill_eligible_at x = None, OrderInvariantError ''accepted order must have fill_eligible_at'')]
     | None \<Rightarrow>
        [(o_fill_eligible_at x \<noteq> None, OrderInvariantError ''fill_eligible_at requires accepted_at'')]) @
    (case o_fill_eligible_at x of
       Some e \<Rightarrow>
        [(opt_any (\<lambda>a. e < a) (o_accepted_at x), OrderInvariantError ''fill_eligible_at cannot be before accepted_at''),
         (e < o_valid_from x, OrderInvariantError ''fill_eligible_at cannot be before valid_from''),
         (e > o_valid_until x, OrderInvariantError ''fill_eligible_at cannot be after valid_until'')]
     | None \<Rightarrow> [])"

definition order_fill_checks :: "order \<Rightarrow> (bool \<times> py_error) list" where
  "order_fill_checks x =
    (if o_filled_quantity x = 0 then
       [(o_average_fill_price x \<noteq> None, OrderInvariantError ''average_fill_price requires a positive filled quantity''),
        (o_applied_fill_ids x \<noteq> [], OrderInvariantError ''fill ids require a positive filled quantity'')]
     else
       [(o_accepted_at x = None, OrderInvariantError ''a filled order must have been accepted''),
        (o_average_fill_price x = None, OrderInvariantError ''positive filled quantity requires average_fill_price''),
        (opt_any (\<lambda>p. currency p \<noteq> currency (o_limit_price x)) (o_average_fill_price x),
         OrderInvariantError ''average fill and limit price currencies must match''),
        (o_applied_fill_ids x = [], OrderInvariantError ''positive filled quantity requires at least one fill id'')]) @
    [(\<not> distinct (o_applied_fill_ids x), OrderInvariantError ''applied fill ids must be unique'')]"

definition order_status_checks :: "order \<Rightarrow> (bool \<times> py_error) list" where
  "order_status_checks x =
    (case o_status x of
       CREATED \<Rightarrow>
        [(o_submitted_at x \<noteq> None \<or> o_accepted_at x \<noteq> None, OrderInvariantError ''created order cannot be submitted or accepted''),
         (o_version x \<noteq> 1, OrderInvariantError ''created order must have version one'')]
     | SUBMITTED \<Rightarrow>
        [(o_submitted_at x = None \<or> o_accepted_at x \<noteq> None, OrderInvariantError ''submitted order requires submitted_at and cannot be accepted'')]
     | ACCEPTED \<Rightarrow>
        [(o_accepted_at x = None \<or> o_filled_quantity x \<noteq> 0, OrderInvariantError ''accepted order requires acceptance and no fills'')]
     | PARTIALLY_FILLED \<Rightarrow>
        [(\<not> (0 < o_filled_quantity x \<and> o_filled_quantity x < o_quantity x), OrderInvariantError ''partially filled status requires a partial quantity'')]
     | FILLED \<Rightarrow>
        [(o_filled_quantity x \<noteq> o_quantity x, OrderInvariantError ''filled status requires the full requested quantity'')]
     | REJECTED \<Rightarrow>
        [(o_submitted_at x = None \<or> o_accepted_at x \<noteq> None, OrderInvariantError ''rejected order must have been submitted but not accepted''),
         (o_filled_quantity x \<noteq> 0, OrderInvariantError ''rejected order cannot contain fills'')]
     | CANCELLED \<Rightarrow>
        [(o_filled_quantity x = o_quantity x, OrderInvariantError ''fully filled order cannot be cancelled or expired'')]
     | EXPIRED \<Rightarrow>
        [(o_filled_quantity x = o_quantity x, OrderInvariantError ''fully filled order cannot be cancelled or expired'')])"

definition order_terminal_checks :: "order \<Rightarrow> (bool \<times> py_error) list" where
  "order_terminal_checks x =
    (if is_terminal_status (o_status x) then
       [(o_terminal_at x = None, OrderInvariantError ''terminal order requires terminal_at''),
        (o_terminal_at x \<noteq> Some (o_updated_at x), OrderInvariantError ''terminal_at must equal the final updated_at''),
        (if o_status x = FILLED
         then (o_terminal_reason x \<noteq> None, OrderInvariantError ''filled order cannot have terminal_reason'')
         else (missing_reason (o_terminal_reason x), OrderInvariantError ''terminal_reason must be a non-empty string''))]
     else
       [(o_terminal_at x \<noteq> None \<or> o_terminal_reason x \<noteq> None, OrderInvariantError ''non-terminal order cannot have terminal metadata'')])"

definition order_post_init :: "order \<Rightarrow> unit result" where
  "order_post_init x = checks
     (order_quantity_checks x @ order_optional_time_checks x @ order_acceptance_checks x @
      order_fill_checks x @ order_status_checks x @ order_terminal_checks x)"

definition mk_order :: "order \<Rightarrow> order result" where
  "mk_order x = construct order_post_init x"

definition remaining_quantity :: "order \<Rightarrow> int result" where
  "remaining_quantity x = quantity_sub (o_quantity x) (o_filled_quantity x)"

section \<open>Audit events and transitions (models.py)\<close>

record order_event =
  ev_event_id :: string
  ev_order_id :: string
  ev_sequence :: int
  ev_kind :: event_kind
  ev_occurred_at :: datetime
  ev_previous_status :: "order_status option"
  ev_status :: order_status
  ev_fill_id :: "string option"
  ev_fill_quantity :: "int option"
  ev_fill_price :: "price option"
  ev_fill_eligible_at :: "datetime option"
  ev_reason_code :: "string option"

definition order_event_checks :: "order_event \<Rightarrow> (bool \<times> py_error) list" where
  "order_event_checks e =
    [(ev_sequence e < 1, OrderInvariantError ''event sequence must be at least one''),
     (ev_status e \<noteq> event_target_status (ev_kind e), OrderInvariantError ''event kind does not match target status''),
     (if ev_kind e = EvCreated
      then (ev_previous_status e \<noteq> None \<or> ev_sequence e \<noteq> 1,
            OrderInvariantError ''created event must have no previous status and sequence one'')
      else (ev_previous_status e = None, OrderInvariantError ''non-created event must include its previous status''))] @
    (if ev_kind e \<in> set fill_event_kinds then
      [(ev_fill_id e = None \<or> ev_fill_quantity e = None \<or> ev_fill_price e = None,
        OrderInvariantError ''fill event requires fill id, quantity, and price''),
       (opt_any (\<lambda>q. q \<le> 0) (ev_fill_quantity e), OrderInvariantError ''fill event quantity must be positive'')]
     else
      [(ev_fill_id e \<noteq> None \<or> ev_fill_quantity e \<noteq> None \<or> ev_fill_price e \<noteq> None,
        OrderInvariantError ''non-fill event cannot contain fill data'')]) @
    (if ev_kind e = EvAccepted then
      [(ev_fill_eligible_at e = None, OrderInvariantError ''accepted event requires fill_eligible_at''),
       (opt_any (\<lambda>t. t < ev_occurred_at e) (ev_fill_eligible_at e),
        OrderInvariantError ''fill_eligible_at cannot be before acceptance'')]
     else
      [(ev_fill_eligible_at e \<noteq> None, OrderInvariantError ''only an accepted event can carry fill_eligible_at'')]) @
    (if ev_kind e \<in> set reason_event_kinds then
      [(missing_reason (ev_reason_code e), OrderInvariantError ''reason_code must be a non-empty string'')]
     else
      [(ev_reason_code e \<noteq> None, OrderInvariantError ''only rejected, cancelled, or expired events carry a reason'')])"

definition mk_event :: "order_event \<Rightarrow> order_event result" where
  "mk_event e = construct (\<lambda>e. checks (order_event_checks e)) e"

record order_transition =
  tr_order :: order
  tr_event :: order_event

definition transition_checks :: "order_transition \<Rightarrow> (bool \<times> py_error) list" where
  "transition_checks t =
    [(o_order_id (tr_order t) \<noteq> ev_order_id (tr_event t), OrderInvariantError ''transition order and event ids must match''),
     (o_status (tr_order t) \<noteq> ev_status (tr_event t), OrderInvariantError ''transition order and event statuses must match''),
     (o_version (tr_order t) \<noteq> ev_sequence (tr_event t), OrderInvariantError ''order version must equal event sequence''),
     (o_updated_at (tr_order t) \<noteq> ev_occurred_at (tr_event t), OrderInvariantError ''order updated_at must equal event occurred_at'')]"

definition mk_transition :: "order_transition \<Rightarrow> order_transition result" where
  "mk_transition t = construct (\<lambda>t. checks (transition_checks t)) t"

section \<open>Transition functions (state_machine.py)\<close>

definition require_status :: "order \<Rightarrow> order_status list \<Rightarrow> string \<Rightarrow> unit result" where
  "require_status x allowed action =
     (if o_status x \<notin> set allowed
      then Inl (InvalidOrderTransition (''cannot '' @ action @ '' order in '' @ order_status_value (o_status x)))
      else Inr ())"

definition require_transition_time :: "order \<Rightarrow> datetime \<Rightarrow> unit result" where
  "require_transition_time x t =
     (if t < o_updated_at x
      then Inl (OrderInvariantError ''transition time cannot be before the previous order update'')
      else Inr ())"

definition order_transition_of ::
  "order \<Rightarrow> order \<Rightarrow> string \<Rightarrow> event_kind \<Rightarrow> datetime \<Rightarrow> string option \<Rightarrow> int option \<Rightarrow> price option \<Rightarrow>
   datetime option \<Rightarrow> string option \<Rightarrow> order_transition result" where
  "order_transition_of previous updated event_id kind occurred_at fill_id fill_quantity fill_price
      fill_eligible_at reason_code =
     rbind (mk_event \<lparr>ev_event_id = event_id, ev_order_id = o_order_id updated,
              ev_sequence = o_version updated, ev_kind = kind, ev_occurred_at = occurred_at,
              ev_previous_status = Some (o_status previous), ev_status = o_status updated,
              ev_fill_id = fill_id, ev_fill_quantity = fill_quantity, ev_fill_price = fill_price,
              ev_fill_eligible_at = fill_eligible_at, ev_reason_code = reason_code\<rparr>)
       (\<lambda>e. mk_transition \<lparr>tr_order = updated, tr_event = e\<rparr>)"

definition create_order ::
  "string \<Rightarrow> string \<Rightarrow> string \<Rightarrow> string \<Rightarrow> order_side \<Rightarrow> int \<Rightarrow> price \<Rightarrow> datetime \<Rightarrow> datetime \<Rightarrow> datetime \<Rightarrow>
   order_type \<Rightarrow> time_in_force \<Rightarrow> order_transition result" where
  "create_order order_id event_id decision_id instrument_id side quantity limit_price
      created_at valid_from valid_until otype tif =
     rbind (mk_order \<lparr>o_order_id = order_id, o_decision_id = decision_id, o_instrument_id = instrument_id,
              o_side = side, o_type = otype, o_time_in_force = tif, o_quantity = quantity,
              o_limit_price = limit_price, o_created_at = created_at, o_valid_from = valid_from,
              o_valid_until = valid_until, o_updated_at = created_at, o_status = CREATED,
              o_filled_quantity = 0, o_average_fill_price = None, o_submitted_at = None,
              o_accepted_at = None, o_fill_eligible_at = None, o_terminal_at = None,
              o_terminal_reason = None, o_applied_fill_ids = [], o_version = 1\<rparr>)
       (\<lambda>x. rbind (mk_event \<lparr>ev_event_id = event_id, ev_order_id = order_id, ev_sequence = 1,
                     ev_kind = EvCreated, ev_occurred_at = created_at, ev_previous_status = None,
                     ev_status = CREATED, ev_fill_id = None, ev_fill_quantity = None,
                     ev_fill_price = None, ev_fill_eligible_at = None, ev_reason_code = None\<rparr>)
         (\<lambda>e. mk_transition \<lparr>tr_order = x, tr_event = e\<rparr>))"

definition submit_order :: "order \<Rightarrow> string \<Rightarrow> datetime \<Rightarrow> order_transition result" where
  "submit_order x event_id submitted_at =
     rbind (require_status x [CREATED] ''submit'') (\<lambda>_.
     rbind (require_transition_time x submitted_at) (\<lambda>_.
     if submitted_at > o_valid_until x
     then Inl (OrderInvariantError ''cannot submit an order after valid_until'')
     else rbind (mk_order (x\<lparr>o_status := SUBMITTED, o_submitted_at := Some submitted_at,
                             o_updated_at := submitted_at, o_version := o_version x + 1\<rparr>))
       (\<lambda>u. order_transition_of x u event_id EvSubmitted submitted_at None None None None None)))"

definition accept_order :: "order \<Rightarrow> string \<Rightarrow> datetime \<Rightarrow> datetime \<Rightarrow> order_transition result" where
  "accept_order x event_id accepted_at fill_eligible_at =
     rbind (require_status x [SUBMITTED] ''accept'') (\<lambda>_.
     rbind (require_transition_time x accepted_at) (\<lambda>_.
     rbind (checks
       [(accepted_at > o_valid_until x, OrderInvariantError ''cannot accept an order after valid_until''),
        (fill_eligible_at < accepted_at, OrderInvariantError ''fill_eligible_at cannot be before accepted_at''),
        (fill_eligible_at < o_valid_from x, OrderInvariantError ''fill_eligible_at cannot be before valid_from''),
        (fill_eligible_at > o_valid_until x, OrderInvariantError ''fill_eligible_at cannot be after valid_until'')]) (\<lambda>_.
     rbind (mk_order (x\<lparr>o_status := ACCEPTED, o_accepted_at := Some accepted_at,
                        o_fill_eligible_at := Some fill_eligible_at, o_updated_at := accepted_at,
                        o_version := o_version x + 1\<rparr>))
       (\<lambda>u. order_transition_of x u event_id EvAccepted accepted_at None None None (Some fill_eligible_at) None))))"

definition reject_order :: "order \<Rightarrow> string \<Rightarrow> datetime \<Rightarrow> string \<Rightarrow> order_transition result" where
  "reject_order x event_id rejected_at reason_code =
     rbind (require_status x [SUBMITTED] ''reject'') (\<lambda>_.
     rbind (require_transition_time x rejected_at) (\<lambda>_.
     rbind (mk_order (x\<lparr>o_status := REJECTED, o_terminal_at := Some rejected_at,
                        o_terminal_reason := Some reason_code, o_updated_at := rejected_at,
                        o_version := o_version x + 1\<rparr>))
       (\<lambda>u. order_transition_of x u event_id EvRejected rejected_at None None None None (Some reason_code))))"

definition record_fill_checks ::
  "order \<Rightarrow> string \<Rightarrow> datetime \<Rightarrow> int \<Rightarrow> price \<Rightarrow> int \<Rightarrow> (bool \<times> py_error) list" where
  "record_fill_checks x fill_id filled_at quantity fill_price remaining =
     [(o_fill_eligible_at x = None, OrderInvariantError ''accepted order is missing fill_eligible_at''),
      (opt_any (\<lambda>t. filled_at < t) (o_fill_eligible_at x), OrderInvariantError ''fill cannot occur before fill_eligible_at''),
      (filled_at > o_valid_until x, OrderInvariantError ''fill cannot occur after valid_until''),
      (quantity \<le> 0, OrderInvariantError ''fill quantity must be greater than zero''),
      (quantity > remaining, OrderInvariantError ''fill quantity exceeds remaining order quantity''),
      (fill_id \<in> set (o_applied_fill_ids x), OrderInvariantError ''fill has already been applied''),
      (currency fill_price \<noteq> currency (o_limit_price x), OrderInvariantError ''fill and limit price currencies must match''),
      (o_side x = BUY \<and> amount fill_price > amount (o_limit_price x), OrderInvariantError ''buy fill price cannot exceed its limit price''),
      (o_side x = SELL \<and> amount fill_price < amount (o_limit_price x), OrderInvariantError ''sell fill price cannot be below its limit price'')]"

text \<open>The volume-weighted average of the fills, each step rounded to the decimal context.\<close>

definition next_average :: "price option \<Rightarrow> int \<Rightarrow> rat \<Rightarrow> int \<Rightarrow> rat result" where
  "next_average average old_quantity fill_amount added =
     (case average of
        None \<Rightarrow> Inr fill_amount
      | Some a \<Rightarrow>
          dec_div (dec_add (dec_mul (amount a) (of_int old_quantity)) (dec_mul fill_amount (of_int added)))
            (of_int (old_quantity + added)))"

definition record_fill ::
  "order \<Rightarrow> string \<Rightarrow> string \<Rightarrow> datetime \<Rightarrow> int \<Rightarrow> price \<Rightarrow> order_transition result" where
  "record_fill x event_id fill_id filled_at quantity fill_price =
     rbind (require_status x [ACCEPTED, PARTIALLY_FILLED] ''record fill for'') (\<lambda>_.
     rbind (require_transition_time x filled_at) (\<lambda>_.
     rbind (remaining_quantity x) (\<lambda>remaining.
     rbind (checks (record_fill_checks x fill_id filled_at quantity fill_price remaining)) (\<lambda>_.
     let new_quantity = o_filled_quantity x + quantity in
     rbind (next_average (o_average_fill_price x) (o_filled_quantity x) (amount fill_price) quantity) (\<lambda>average_amount.
     rbind (mk_price average_amount (currency fill_price)) (\<lambda>average_price.
     let is_complete = (new_quantity = o_quantity x) in
     rbind (mk_order (x\<lparr>o_status := (if is_complete then FILLED else PARTIALLY_FILLED),
                        o_filled_quantity := new_quantity, o_average_fill_price := Some average_price,
                        o_terminal_at := (if is_complete then Some filled_at else None),
                        o_updated_at := filled_at,
                        o_applied_fill_ids := o_applied_fill_ids x @ [fill_id],
                        o_version := o_version x + 1\<rparr>))
       (\<lambda>u. order_transition_of x u event_id (if is_complete then EvFilled else EvPartiallyFilled)
              filled_at (Some fill_id) (Some quantity) (Some fill_price) None None)))))))"

definition open_statuses :: "order_status list" where
  "open_statuses = [CREATED, SUBMITTED, ACCEPTED, PARTIALLY_FILLED]"

definition cancel_order :: "order \<Rightarrow> string \<Rightarrow> datetime \<Rightarrow> string \<Rightarrow> order_transition result" where
  "cancel_order x event_id cancelled_at reason_code =
     rbind (require_status x open_statuses ''cancel'') (\<lambda>_.
     rbind (require_transition_time x cancelled_at) (\<lambda>_.
     if cancelled_at > o_valid_until x
     then Inl (OrderInvariantError ''order past valid_until must expire instead of being cancelled'')
     else rbind (mk_order (x\<lparr>o_status := CANCELLED, o_terminal_at := Some cancelled_at,
                             o_terminal_reason := Some reason_code, o_updated_at := cancelled_at,
                             o_version := o_version x + 1\<rparr>))
       (\<lambda>u. order_transition_of x u event_id EvCancelled cancelled_at None None None None (Some reason_code))))"

definition expire_order :: "order \<Rightarrow> string \<Rightarrow> datetime \<Rightarrow> string \<Rightarrow> order_transition result" where
  "expire_order x event_id expired_at reason_code =
     rbind (require_status x open_statuses ''expire'') (\<lambda>_.
     rbind (require_transition_time x expired_at) (\<lambda>_.
     if expired_at < o_valid_until x
     then Inl (OrderInvariantError ''cannot expire an order before valid_until'')
     else rbind (mk_order (x\<lparr>o_status := EXPIRED, o_terminal_at := Some expired_at,
                             o_terminal_reason := Some reason_code, o_updated_at := expired_at,
                             o_version := o_version x + 1\<rparr>))
       (\<lambda>u. order_transition_of x u event_id EvExpired expired_at None None None None (Some reason_code))))"

section \<open>What a transition does\<close>

definition valid_order :: "order \<Rightarrow> bool" where
  "valid_order x \<longleftrightarrow> is_ok (order_post_init x)"

lemmas order_check_defs =
  order_post_init_def order_quantity_checks_def order_optional_time_checks_def
  order_acceptance_checks_def order_fill_checks_def order_status_checks_def
  order_terminal_checks_def opt_any_iff

lemma valid_order_iff:
  "valid_order x \<longleftrightarrow>
     list_all (\<lambda>g. \<not> fst g) (order_quantity_checks x) \<and>
     list_all (\<lambda>g. \<not> fst g) (order_optional_time_checks x) \<and>
     list_all (\<lambda>g. \<not> fst g) (order_acceptance_checks x) \<and>
     list_all (\<lambda>g. \<not> fst g) (order_fill_checks x) \<and>
     list_all (\<lambda>g. \<not> fst g) (order_status_checks x) \<and>
     list_all (\<lambda>g. \<not> fst g) (order_terminal_checks x)"
  by (simp add: valid_order_def order_post_init_def result_simps)

lemma mk_order_Inr [result_simps]: "mk_order x = Inr y \<longleftrightarrow> x = y \<and> valid_order x"
  by (simp add: mk_order_def valid_order_def result_simps)

lemma require_status_Inr [result_simps]:
  "require_status x allowed action = Inr u \<longleftrightarrow> o_status x \<in> set allowed"
  by (simp add: require_status_def)

lemma require_transition_time_Inr [result_simps]:
  "require_transition_time x t = Inr u \<longleftrightarrow> o_updated_at x \<le> t"
  by (auto simp: require_transition_time_def)

lemma order_transition_of_Inr:
  assumes "order_transition_of x u ev k t fid q p el r = Inr tr"
  shows "tr = \<lparr>tr_order = u, tr_event = \<lparr>ev_event_id = ev, ev_order_id = o_order_id u,
      ev_sequence = o_version u, ev_kind = k, ev_occurred_at = t, ev_previous_status = Some (o_status x),
      ev_status = o_status u, ev_fill_id = fid, ev_fill_quantity = q, ev_fill_price = p,
      ev_fill_eligible_at = el, ev_reason_code = r\<rparr>\<rparr>"
  using assms
  by (auto simp: order_transition_of_def mk_event_def mk_transition_def result_simps)

text \<open>The commands of the state machine, as data.\<close>

datatype order_command =
    Submit string datetime
  | Accept string datetime datetime
  | Reject string datetime string
  | RecordFill string string datetime int price
  | Cancel string datetime string
  | Expire string datetime string

fun apply_command :: "order \<Rightarrow> order_command \<Rightarrow> order_transition result" where
  "apply_command x (Submit ev t) = submit_order x ev t"
| "apply_command x (Accept ev t e) = accept_order x ev t e"
| "apply_command x (Reject ev t r) = reject_order x ev t r"
| "apply_command x (RecordFill ev f t q p) = record_fill x ev f t q p"
| "apply_command x (Cancel ev t r) = cancel_order x ev t r"
| "apply_command x (Expire ev t r) = expire_order x ev t r"

lemma submit_order_Inr:
  assumes "submit_order x ev t = Inr tr"
  shows "o_status x = CREATED" "o_updated_at x \<le> t" "t \<le> o_valid_until x"
    "tr_order tr = x\<lparr>o_status := SUBMITTED, o_submitted_at := Some t, o_updated_at := t,
       o_version := o_version x + 1\<rparr>"
    "valid_order (tr_order tr)"
    "ev_kind (tr_event tr) = EvSubmitted" "ev_fill_quantity (tr_event tr) = None" "ev_fill_id (tr_event tr) = None"
  using assms
  by (auto simp: submit_order_def result_simps split: if_splits dest!: order_transition_of_Inr)

lemma accept_order_Inr:
  assumes "accept_order x ev t e = Inr tr"
  shows "o_status x = SUBMITTED" "o_updated_at x \<le> t" "t \<le> e" "o_valid_from x \<le> e" "e \<le> o_valid_until x"
    "tr_order tr = x\<lparr>o_status := ACCEPTED, o_accepted_at := Some t, o_fill_eligible_at := Some e,
       o_updated_at := t, o_version := o_version x + 1\<rparr>"
    "valid_order (tr_order tr)"
    "ev_kind (tr_event tr) = EvAccepted" "ev_fill_quantity (tr_event tr) = None" "ev_fill_id (tr_event tr) = None"
  using assms
  by (auto simp: accept_order_def result_simps split: if_splits dest!: order_transition_of_Inr)

lemma reject_order_Inr:
  assumes "reject_order x ev t r = Inr tr"
  shows "o_status x = SUBMITTED" "o_updated_at x \<le> t"
    "tr_order tr = x\<lparr>o_status := REJECTED, o_terminal_at := Some t, o_terminal_reason := Some r,
       o_updated_at := t, o_version := o_version x + 1\<rparr>"
    "valid_order (tr_order tr)"
    "ev_kind (tr_event tr) = EvRejected" "ev_fill_quantity (tr_event tr) = None" "ev_fill_id (tr_event tr) = None"
  using assms
  by (auto simp: reject_order_def result_simps split: if_splits dest!: order_transition_of_Inr)

lemma cancel_order_Inr:
  assumes "cancel_order x ev t r = Inr tr"
  shows "o_status x \<in> set open_statuses" "o_updated_at x \<le> t" "t \<le> o_valid_until x"
    "tr_order tr = x\<lparr>o_status := CANCELLED, o_terminal_at := Some t, o_terminal_reason := Some r,
       o_updated_at := t, o_version := o_version x + 1\<rparr>"
    "valid_order (tr_order tr)"
    "ev_kind (tr_event tr) = EvCancelled" "ev_fill_quantity (tr_event tr) = None" "ev_fill_id (tr_event tr) = None"
  using assms
  by (auto simp: cancel_order_def result_simps split: if_splits dest!: order_transition_of_Inr)

lemma expire_order_Inr:
  assumes "expire_order x ev t r = Inr tr"
  shows "o_status x \<in> set open_statuses" "o_updated_at x \<le> t" "o_valid_until x \<le> t"
    "tr_order tr = x\<lparr>o_status := EXPIRED, o_terminal_at := Some t, o_terminal_reason := Some r,
       o_updated_at := t, o_version := o_version x + 1\<rparr>"
    "valid_order (tr_order tr)"
    "ev_kind (tr_event tr) = EvExpired" "ev_fill_quantity (tr_event tr) = None" "ev_fill_id (tr_event tr) = None"
  using assms
  by (auto simp: expire_order_def result_simps split: if_splits dest!: order_transition_of_Inr)

lemma record_fill_Inr:
  assumes "record_fill x ev f t q p = Inr tr"
  shows "o_status x \<in> {ACCEPTED, PARTIALLY_FILLED}" "o_updated_at x \<le> t" "t \<le> o_valid_until x"
    "\<exists>e. o_fill_eligible_at x = Some e \<and> e \<le> t" "0 < q" "o_filled_quantity x + q \<le> o_quantity x"
    "f \<notin> set (o_applied_fill_ids x)" "currency p = currency (o_limit_price x)"
    "o_side x = BUY \<Longrightarrow> amount p \<le> amount (o_limit_price x)"
    "o_side x = SELL \<Longrightarrow> amount (o_limit_price x) \<le> amount p"
    "\<exists>a. next_average (o_average_fill_price x) (o_filled_quantity x) (amount p) q = Inr a \<and> 0 < a \<and>
       tr_order tr = x\<lparr>o_status := (if o_filled_quantity x + q = o_quantity x then FILLED else PARTIALLY_FILLED),
         o_filled_quantity := o_filled_quantity x + q,
         o_average_fill_price := Some \<lparr>amount = a, currency = currency p\<rparr>,
         o_terminal_at := (if o_filled_quantity x + q = o_quantity x then Some t else None),
         o_updated_at := t, o_applied_fill_ids := o_applied_fill_ids x @ [f],
         o_version := o_version x + 1\<rparr>"
    "valid_order (tr_order tr)"
    "ev_kind (tr_event tr) \<in> {EvPartiallyFilled, EvFilled}"
    "ev_fill_quantity (tr_event tr) = Some q" "ev_fill_id (tr_event tr) = Some f"
proof -
  let ?done = "o_filled_quantity x + q = o_quantity x"
  from assms obtain r a pr u where
    st: "require_status x [ACCEPTED, PARTIALLY_FILLED] ''record fill for'' = Inr ()"
    and tm: "require_transition_time x t = Inr ()"
    and rem: "remaining_quantity x = Inr r"
    and ck: "checks (record_fill_checks x f t q p r) = Inr ()"
    and av: "next_average (o_average_fill_price x) (o_filled_quantity x) (amount p) q = Inr a"
    and pr: "mk_price a (currency p) = Inr pr"
    and u: "mk_order (x\<lparr>o_status := (if ?done then FILLED else PARTIALLY_FILLED),
        o_filled_quantity := o_filled_quantity x + q, o_average_fill_price := Some pr,
        o_terminal_at := (if ?done then Some t else None), o_updated_at := t,
        o_applied_fill_ids := o_applied_fill_ids x @ [f], o_version := o_version x + 1\<rparr>) = Inr u"
    and tr: "order_transition_of x u ev (if ?done then EvFilled else EvPartiallyFilled) t
        (Some f) (Some q) (Some p) None None = Inr tr"
    unfolding record_fill_def Let_def by (elim rbindE) (rule that; simp)
  note tr' = order_transition_of_Inr [OF tr]
  have pr': "0 < a" "pr = \<lparr>amount = a, currency = currency p\<rparr>"
    using pr by (auto simp: result_simps)
  show "o_status x \<in> {ACCEPTED, PARTIALLY_FILLED}" "o_updated_at x \<le> t"
    using st tm by (auto simp: result_simps)
  have r: "r = o_quantity x - o_filled_quantity x"
    using rem by (simp add: remaining_quantity_def result_simps)
  show "t \<le> o_valid_until x" "0 < q" "o_filled_quantity x + q \<le> o_quantity x"
    "f \<notin> set (o_applied_fill_ids x)" "currency p = currency (o_limit_price x)"
    using ck by (simp_all add: record_fill_checks_def result_simps r)
  show "\<exists>e. o_fill_eligible_at x = Some e \<and> e \<le> t"
    using ck by (auto simp: record_fill_checks_def result_simps opt_any_iff not_less)
  show "o_side x = BUY \<Longrightarrow> amount p \<le> amount (o_limit_price x)"
    "o_side x = SELL \<Longrightarrow> amount (o_limit_price x) \<le> amount p"
    using ck by (simp_all add: record_fill_checks_def result_simps)
  show "\<exists>a. next_average (o_average_fill_price x) (o_filled_quantity x) (amount p) q = Inr a \<and> 0 < a \<and>
       tr_order tr = x\<lparr>o_status := (if ?done then FILLED else PARTIALLY_FILLED),
         o_filled_quantity := o_filled_quantity x + q,
         o_average_fill_price := Some \<lparr>amount = a, currency = currency p\<rparr>,
         o_terminal_at := (if ?done then Some t else None),
         o_updated_at := t, o_applied_fill_ids := o_applied_fill_ids x @ [f],
         o_version := o_version x + 1\<rparr>"
    using av pr' u tr' by (intro exI [of _ a]) (simp add: result_simps)
  show "valid_order (tr_order tr)" using u tr' by (auto simp: result_simps)
  show "ev_kind (tr_event tr) \<in> {EvPartiallyFilled, EvFilled}"
    "ev_fill_quantity (tr_event tr) = Some q" "ev_fill_id (tr_event tr) = Some f"
    using tr' by simp_all
qed

lemma apply_command_event:
  assumes "apply_command x c = Inr tr"
  shows "valid_order (tr_order tr) \<and> o_version (tr_order tr) = o_version x + 1 \<and>
    ev_sequence (tr_event tr) = o_version x + 1 \<and> ev_status (tr_event tr) = o_status (tr_order tr) \<and>
    ev_order_id (tr_event tr) = o_order_id x \<and> ev_previous_status (tr_event tr) = Some (o_status x) \<and>
    ev_occurred_at (tr_event tr) = o_updated_at (tr_order tr) \<and> o_updated_at x \<le> o_updated_at (tr_order tr)"
  using assms
  by (cases c)
    (auto simp: submit_order_def accept_order_def reject_order_def record_fill_def cancel_order_def
      expire_order_def result_simps Let_def split: if_splits dest!: order_transition_of_Inr)

section \<open>Reachable orders and their audit trail\<close>

text \<open>
  \<open>order_history x es\<close>: the snapshot \<open>x\<close> and the events \<open>es\<close> are what some run of the state
  machine produces, from \<open>create\<close> on.
\<close>

inductive order_history :: "order \<Rightarrow> order_event list \<Rightarrow> bool" where
  created: "create_order oid ev did inst side q lp t0 vf vu ot tif = Inr tr \<Longrightarrow>
     order_history (tr_order tr) [tr_event tr]"
| commanded: "order_history x es \<Longrightarrow> apply_command x c = Inr tr \<Longrightarrow>
     order_history (tr_order tr) (es @ [tr_event tr])"

definition filled_in :: "order_event list \<Rightarrow> int" where
  "filled_in es = sum_list (map (\<lambda>e. case ev_fill_quantity e of None \<Rightarrow> 0 | Some q \<Rightarrow> q) es)"

definition fill_ids_in :: "order_event list \<Rightarrow> string list" where
  "fill_ids_in es = concat (map (\<lambda>e. case ev_fill_id e of None \<Rightarrow> [] | Some f \<Rightarrow> [f]) es)"

text \<open>The snapshot is what its audit trail says it is.\<close>

definition trail_agrees :: "order \<Rightarrow> order_event list \<Rightarrow> bool" where
  "trail_agrees x es \<longleftrightarrow>
     valid_order x \<and>
     map ev_sequence es = map int [1..<Suc (length es)] \<and>
     o_version x = int (length es) \<and>
     list_all (\<lambda>e. ev_order_id e = o_order_id x) es \<and>
     sorted (map ev_occurred_at es) \<and>
     es \<noteq> [] \<and> ev_status (last es) = o_status x \<and> ev_occurred_at (last es) = o_updated_at x \<and>
     filled_in es = o_filled_quantity x \<and>
     fill_ids_in es = o_applied_fill_ids x"

lemma create_order_Inr:
  assumes "create_order oid ev did inst side q lp t0 vf vu ot tif = Inr tr"
  shows "trail_agrees (tr_order tr) [tr_event tr]" "o_status (tr_order tr) = CREATED"
    "o_average_fill_price (tr_order tr) = None" "o_filled_quantity (tr_order tr) = 0"
  using assms
  by (auto simp: create_order_def mk_event_def mk_transition_def result_simps trail_agrees_def
      filled_in_def fill_ids_in_def)

lemma apply_command_fills:
  assumes "apply_command x c = Inr tr"
  shows "o_filled_quantity (tr_order tr) = o_filled_quantity x +
      (case ev_fill_quantity (tr_event tr) of None \<Rightarrow> 0 | Some q \<Rightarrow> q) \<and>
    o_applied_fill_ids (tr_order tr) = o_applied_fill_ids x @
      (case ev_fill_id (tr_event tr) of None \<Rightarrow> [] | Some f \<Rightarrow> [f]) \<and>
    o_order_id (tr_order tr) = o_order_id x \<and> o_quantity (tr_order tr) = o_quantity x \<and>
    o_side (tr_order tr) = o_side x \<and> o_limit_price (tr_order tr) = o_limit_price x \<and>
    o_valid_until (tr_order tr) = o_valid_until x"
proof (cases c)
  case (Submit ev t)
  with assms have "submit_order x ev t = Inr tr" by simp
  from submit_order_Inr(4,7,8) [OF this] show ?thesis by simp
next
  case (Accept ev t e)
  with assms have "accept_order x ev t e = Inr tr" by simp
  from accept_order_Inr(6,9,10) [OF this] show ?thesis by simp
next
  case (Reject ev t r)
  with assms have "reject_order x ev t r = Inr tr" by simp
  from reject_order_Inr(3,6,7) [OF this] show ?thesis by simp
next
  case (RecordFill ev f t q p)
  with assms have "record_fill x ev f t q p = Inr tr" by simp
  from record_fill_Inr(11,14,15) [OF this] show ?thesis by auto
next
  case (Cancel ev t r)
  with assms have "cancel_order x ev t r = Inr tr" by simp
  from cancel_order_Inr(4,7,8) [OF this] show ?thesis by simp
next
  case (Expire ev t r)
  with assms have "expire_order x ev t r = Inr tr" by simp
  from expire_order_Inr(4,7,8) [OF this] show ?thesis by simp
qed

lemma trail_agrees_step:
  assumes "trail_agrees x es" and c: "apply_command x c = Inr tr"
  shows "trail_agrees (tr_order tr) (es @ [tr_event tr])"
proof -
  note ev = apply_command_event [OF c] and fl = apply_command_fills [OF c]
  have es: "es \<noteq> []" "sorted (map ev_occurred_at es)" "ev_occurred_at (last es) = o_updated_at x"
    using assms(1) by (simp_all add: trail_agrees_def)
  have "ev_occurred_at e \<le> o_updated_at x" if "e \<in> set es" for e
    using sorted_le_last [OF es(2), of "ev_occurred_at e"] that es(1,3) by (simp add: last_map)
  then have "sorted (map ev_occurred_at (es @ [tr_event tr]))"
    using es(2) ev by (fastforce simp: sorted_append)
  then show ?thesis
    using assms(1) ev fl
    by (simp add: trail_agrees_def filled_in_def fill_ids_in_def list_all_iff)
qed

lemma order_history_agrees: "order_history x es \<Longrightarrow> trail_agrees x es"
  by (induction rule: order_history.induct) (auto intro: create_order_Inr trail_agrees_step)

lemma order_history_valid: "order_history x es \<Longrightarrow> valid_order x"
  using order_history_agrees by (simp add: trail_agrees_def)

text \<open>Running a list of commands, collecting the events.\<close>

fun run_commands :: "order \<Rightarrow> order_event list \<Rightarrow> order_command list \<Rightarrow> (order \<times> order_event list) result" where
  "run_commands x es [] = Inr (x, es)"
| "run_commands x es (c # cs) =
     rbind (apply_command x c) (\<lambda>tr. run_commands (tr_order tr) (es @ [tr_event tr]) cs)"

lemma run_commands_history:
  "order_history x es \<Longrightarrow> run_commands x es cs = Inr (y, fs) \<Longrightarrow> order_history y fs"
  by (induction cs arbitrary: x es) (auto simp: result_simps intro: order_history.commanded)

section \<open>The abstract life cycle\<close>

text \<open>
  What the state machine promises its clients: a status, the quantity done and the quantity
  ordered, and the moves between them.
\<close>

record order_view =
  v_status :: order_status
  v_done :: int
  v_total :: int

definition view_of :: "order \<Rightarrow> order_view" where
  "view_of x = \<lparr>v_status = o_status x, v_done = o_filled_quantity x, v_total = o_quantity x\<rparr>"

inductive life_cycle :: "order_view \<Rightarrow> order_view \<Rightarrow> bool" where
  submitted: "v_status v = CREATED \<Longrightarrow> life_cycle v (v\<lparr>v_status := SUBMITTED\<rparr>)"
| accepted: "v_status v = SUBMITTED \<Longrightarrow> life_cycle v (v\<lparr>v_status := ACCEPTED\<rparr>)"
| rejected: "v_status v = SUBMITTED \<Longrightarrow> life_cycle v (v\<lparr>v_status := REJECTED\<rparr>)"
| partly: "v_status v \<in> {ACCEPTED, PARTIALLY_FILLED} \<Longrightarrow> 0 < q \<Longrightarrow> v_done v + q < v_total v \<Longrightarrow>
     life_cycle v (v\<lparr>v_status := PARTIALLY_FILLED, v_done := v_done v + q\<rparr>)"
| complete: "v_status v \<in> {ACCEPTED, PARTIALLY_FILLED} \<Longrightarrow> v_done v < v_total v \<Longrightarrow>
     life_cycle v (v\<lparr>v_status := FILLED, v_done := v_total v\<rparr>)"
| cancelled: "v_status v \<in> {CREATED, SUBMITTED, ACCEPTED, PARTIALLY_FILLED} \<Longrightarrow> v_done v < v_total v \<Longrightarrow>
     life_cycle v (v\<lparr>v_status := CANCELLED\<rparr>)"
| expired: "v_status v \<in> {CREATED, SUBMITTED, ACCEPTED, PARTIALLY_FILLED} \<Longrightarrow> v_done v < v_total v \<Longrightarrow>
     life_cycle v (v\<lparr>v_status := EXPIRED\<rparr>)"

inductive_cases life_cycleE: "life_cycle v w"

lemma valid_order_quantities:
  "valid_order x \<Longrightarrow> 0 < o_quantity x \<and> o_filled_quantity x \<le> o_quantity x \<and> 1 \<le> o_version x"
  by (simp add: valid_order_iff order_quantity_checks_def)

lemma valid_order_terminal_not_full:
  "valid_order x \<Longrightarrow> o_status x \<in> {CANCELLED, EXPIRED} \<Longrightarrow> o_filled_quantity x \<noteq> o_quantity x"
  by (auto simp: valid_order_iff order_status_checks_def)

lemma apply_command_life_cycle:
  assumes "apply_command x c = Inr tr"
  shows "life_cycle (view_of x) (view_of (tr_order tr))"
proof -
  have v: "valid_order (tr_order tr)" using apply_command_event [OF assms] by simp
  show ?thesis
  proof (cases c)
    case (Submit ev t)
    with assms have "submit_order x ev t = Inr tr" by simp
    from submit_order_Inr(1,4) [OF this] life_cycle.submitted [of "view_of x"]
    show ?thesis by (simp add: view_of_def)
  next
    case (Accept ev t e)
    with assms have "accept_order x ev t e = Inr tr" by simp
    from accept_order_Inr(1,6) [OF this] life_cycle.accepted [of "view_of x"]
    show ?thesis by (simp add: view_of_def)
  next
    case (Reject ev t r)
    with assms have "reject_order x ev t r = Inr tr" by simp
    from reject_order_Inr(1,3) [OF this] life_cycle.rejected [of "view_of x"]
    show ?thesis by (simp add: view_of_def)
  next
    case (RecordFill ev f t q p)
    with assms have "record_fill x ev f t q p = Inr tr" by simp
    note r = record_fill_Inr(1,5,6,11) [OF this]
    show ?thesis
    proof (cases "o_filled_quantity x + q = o_quantity x")
      case True
      then show ?thesis using r life_cycle.complete [of "view_of x"] by (auto simp: view_of_def)
    next
      case False
      then show ?thesis using r life_cycle.partly [of "view_of x" q] by (auto simp: view_of_def)
    qed
  next
    case (Cancel ev t r)
    with assms have "cancel_order x ev t r = Inr tr" by simp
    from cancel_order_Inr(1,4) [OF this] v valid_order_quantities [OF v]
      valid_order_terminal_not_full [OF v] life_cycle.cancelled [of "view_of x"]
    show ?thesis by (auto simp: view_of_def open_statuses_def)
  next
    case (Expire ev t r)
    with assms have "expire_order x ev t r = Inr tr" by simp
    from expire_order_Inr(1,4) [OF this] v valid_order_quantities [OF v]
      valid_order_terminal_not_full [OF v] life_cycle.expired [of "view_of x"]
    show ?thesis by (auto simp: view_of_def open_statuses_def)
  qed
qed

section \<open>When a command succeeds\<close>

lemma mk_order_ok: "valid_order x \<Longrightarrow> mk_order x = Inr x"
  by (simp add: result_simps)

lemma order_transition_of_ok:
  assumes "o_status u = event_target_status k" "1 \<le> o_version u" "o_updated_at u = t" "k \<noteq> EvCreated"
    and "if k \<in> set fill_event_kinds then fid \<noteq> None \<and> p \<noteq> None \<and> (\<exists>n. q = Some n \<and> 0 < n)
         else fid = None \<and> q = None \<and> p = None"
    and "if k = EvAccepted then \<exists>e. el = Some e \<and> t \<le> e else el = None"
    and "if k \<in> set reason_event_kinds then \<not> missing_reason r else r = None"
  shows "is_ok (order_transition_of x u ev k t fid q p el r)"
  using assms
  by (auto simp: order_transition_of_def mk_event_def mk_transition_def is_ok_iff result_simps
      order_event_checks_def transition_checks_def opt_any_iff construct_def split: if_splits)

lemma expire_order_ok:
  assumes v: "valid_order x" and nt: "\<not> is_terminal_status (o_status x)"
    and t: "o_updated_at x \<le> t" "o_valid_until x \<le> t" and r: "\<not> blank r"
  shows "\<exists>tr. expire_order x ev t r = Inr tr"
proof -
  let ?u = "x\<lparr>o_status := EXPIRED, o_terminal_at := Some t, o_terminal_reason := Some r,
     o_updated_at := t, o_version := o_version x + 1\<rparr>"
  have st: "o_status x \<in> set open_statuses"
    using nt by (cases "o_status x") (auto simp: open_statuses_def)
  have "valid_order ?u"
    using v nt t r unfolding valid_order_iff
    by (cases "o_status x")
      (auto simp: order_quantity_checks_def order_optional_time_checks_def order_acceptance_checks_def
        order_fill_checks_def order_status_checks_def order_terminal_checks_def opt_any_iff missing_reason_def
        split: option.splits if_splits)
  moreover have "is_ok (order_transition_of x ?u ev EvExpired t None None None None (Some r))"
    using valid_order_quantities [OF v] r
    by (intro order_transition_of_ok) (auto simp: fill_event_kinds_def reason_event_kinds_def missing_reason_def)
  ultimately show ?thesis
    using st t by (simp add: expire_order_def require_status_def require_transition_time_def mk_order_ok is_ok_iff)
qed

lemma next_average_pos:
  assumes "next_average avg old_q p q = Inr a" "0 < p" "0 < q" "opt_any (\<lambda>m. 0 < amount m \<and> 0 < old_q) avg \<or> avg = None"
  shows "0 < a"
  using assms
  by (cases avg) (auto simp: next_average_def dec_div_def dec_add_def dec_mul_def add_pos_pos split: if_splits)

lemma record_fill_ok:
  assumes v: "valid_order x" and st: "o_status x \<in> {ACCEPTED, PARTIALLY_FILLED}"
    and el: "o_fill_eligible_at x = Some e" "e \<le> t" and t: "o_updated_at x \<le> t" "t \<le> o_valid_until x"
    and q: "0 < q" "o_filled_quantity x + q \<le> o_quantity x"
    and f: "f \<notin> set (o_applied_fill_ids x)"
    and p: "price_ok p" "currency p = currency (o_limit_price x)"
    and lim: "if o_side x = BUY then amount p \<le> amount (o_limit_price x) else amount (o_limit_price x) \<le> amount p"
    and avg: "opt_any (\<lambda>m. 0 < amount m) (o_average_fill_price x) \<or> o_average_fill_price x = None"
    and nn: "0 \<le> o_filled_quantity x"
  shows "\<exists>tr. record_fill x ev f t q p = Inr tr"
proof -
  let ?done = "o_filled_quantity x + q = o_quantity x"
  let ?n = "next_average (o_average_fill_price x) (o_filled_quantity x) (amount p) q"
  have pos: "o_average_fill_price x \<noteq> None \<Longrightarrow> 0 < o_filled_quantity x"
    using v nn by (auto simp: valid_order_iff order_fill_checks_def split: if_splits)
  obtain a where a: "?n = Inr a"
    using q nn by (cases "o_average_fill_price x") (auto simp: next_average_def dec_div_def)
  have "0 < a"
    by (rule next_average_pos [OF a]) (use p q avg pos in \<open>auto simp: price_ok_def opt_any_iff\<close>)
  define pr where "pr = \<lparr>amount = a, currency = currency p\<rparr>"
  have pr: "mk_price a (currency p) = Inr pr"
    using \<open>0 < a\<close> p by (simp add: result_simps pr_def price_ok_def money_ok_def)
  define u where "u = x\<lparr>o_status := (if ?done then FILLED else PARTIALLY_FILLED),
        o_filled_quantity := o_filled_quantity x + q, o_average_fill_price := Some pr,
        o_terminal_at := (if ?done then Some t else None), o_updated_at := t,
        o_applied_fill_ids := o_applied_fill_ids x @ [f], o_version := o_version x + 1\<rparr>"
  have "valid_order u"
    using v st el t q f p nn unfolding valid_order_iff u_def
    by (auto simp: order_quantity_checks_def order_optional_time_checks_def order_acceptance_checks_def
        order_fill_checks_def order_status_checks_def order_terminal_checks_def opt_any_iff pr_def
        split: option.splits if_splits)
  then have u: "mk_order u = Inr u" by (rule mk_order_ok)
  have "is_ok (order_transition_of x u ev (if ?done then EvFilled else EvPartiallyFilled) t
      (Some f) (Some q) (Some p) None None)"
    using valid_order_quantities [OF v] q
    by (intro order_transition_of_ok) (auto simp: fill_event_kinds_def reason_event_kinds_def u_def)
  then obtain tr where tr: "order_transition_of x u ev (if ?done then EvFilled else EvPartiallyFilled) t
      (Some f) (Some q) (Some p) None None = Inr tr"
    by (auto simp: is_ok_iff)
  have rem: "remaining_quantity x = Inr (o_quantity x - o_filled_quantity x)"
    using q by (simp add: remaining_quantity_def result_simps)
  have ck: "checks (record_fill_checks x f t q p (o_quantity x - o_filled_quantity x)) = Inr ()"
    using el t q f p lim
    by (auto simp: record_fill_checks_def result_simps opt_any_iff split: if_splits)
  show ?thesis
    using st t a pr u tr rem ck
    by (intro exI [of _ tr])
      (simp add: record_fill_def require_status_def require_transition_time_def Let_def flip: u_def)
qed

text \<open>A fill within the limit keeps the average within the limit, where the limit has few decimals.\<close>

lemma grid_multiple_exact:
  assumes "on_grid k l" "0 \<le> l" "l * of_int n * 10 ^ k < 10 ^ 28" "0 \<le> m" "m \<le> n"
  shows "ctx (l * of_int m) = l * of_int m"
proof (rule ctx_on_grid [of k])
  show "on_grid k (l * of_int m)" using assms(1) by (rule on_grid_mult_int)
  have "l * of_int m * 10 ^ k \<le> l * of_int n * 10 ^ k"
    using assms by (intro mult_right_mono mult_left_mono) auto
  with assms show "\<bar>l * of_int m\<bar> * 10 ^ k < 10 ^ 28" by simp
qed

lemma next_average_le:
  assumes n: "next_average (Some m) old_q p q = Inr a" and "amount m \<le> l" "p \<le> l"
    and "0 < old_q" "0 < q" and l: "0 < l" "on_grid k l" "l * of_int (old_q + q) * 10 ^ k < 10 ^ 28"
  shows "a \<le> l"
proof -
  note ex = grid_multiple_exact [OF l(2) _ l(3)]
  have a: "a = ctx (ctx (ctx (amount m * of_int old_q) + ctx (p * of_int q)) / of_int (old_q + q))"
    using n assms by (simp add: next_average_def dec_div_def dec_add_def dec_mul_def split: if_splits)
  have "ctx (amount m * of_int old_q) \<le> ctx (l * of_int old_q)" "ctx (p * of_int q) \<le> ctx (l * of_int q)"
    using assms by (auto intro!: ctx_mono mult_right_mono)
  then have "ctx (amount m * of_int old_q) + ctx (p * of_int q) \<le> l * of_int (old_q + q)"
    using ex [of old_q] ex [of q] assms by (simp add: algebra_simps)
  then have "ctx (ctx (amount m * of_int old_q) + ctx (p * of_int q)) \<le> l * of_int (old_q + q)"
    using ctx_mono ex [of "old_q + q"] assms by (metis add_pos_pos less_imp_le order_refl)
  then have "ctx (ctx (amount m * of_int old_q) + ctx (p * of_int q)) / of_int (old_q + q) \<le> l"
    using assms by (subst pos_divide_le_eq) (auto simp: add_pos_pos simp flip: of_int_add)
  then have "a \<le> ctx l" unfolding a by (rule ctx_mono)
  also have "ctx l = l" using ex [of 1] assms by simp
  finally show ?thesis .
qed

lemma next_average_ge:
  assumes n: "next_average (Some m) old_q p q = Inr a" and "l \<le> amount m" "l \<le> p"
    and "0 < old_q" "0 < q" and l: "0 < l" "on_grid k l" "l * of_int (old_q + q) * 10 ^ k < 10 ^ 28"
  shows "l \<le> a"
proof -
  note ex = grid_multiple_exact [OF l(2) _ l(3)]
  have a: "a = ctx (ctx (ctx (amount m * of_int old_q) + ctx (p * of_int q)) / of_int (old_q + q))"
    using n assms by (simp add: next_average_def dec_div_def dec_add_def dec_mul_def split: if_splits)
  have "ctx (l * of_int old_q) \<le> ctx (amount m * of_int old_q)" "ctx (l * of_int q) \<le> ctx (p * of_int q)"
    using assms by (auto intro!: ctx_mono mult_right_mono)
  then have "l * of_int (old_q + q) \<le> ctx (amount m * of_int old_q) + ctx (p * of_int q)"
    using ex [of old_q] ex [of q] assms by (simp add: algebra_simps)
  then have "l * of_int (old_q + q) \<le> ctx (ctx (amount m * of_int old_q) + ctx (p * of_int q))"
    using ctx_mono ex [of "old_q + q"] assms by (metis add_pos_pos less_imp_le order_refl)
  then have "l \<le> ctx (ctx (amount m * of_int old_q) + ctx (p * of_int q)) / of_int (old_q + q)"
    using assms by (subst pos_le_divide_eq) (auto simp: add_pos_pos simp flip: of_int_add)
  then have "ctx l \<le> a" unfolding a by (rule ctx_mono)
  moreover have "ctx l = l" using ex [of 1] assms by simp
  ultimately show ?thesis by simp
qed

definition average_ok :: "order \<Rightarrow> bool" where
  "average_ok x \<longleftrightarrow>
     0 \<le> o_filled_quantity x \<and>
     (o_filled_quantity x = 0 \<longleftrightarrow> o_average_fill_price x = None) \<and>
     (\<forall>m. o_average_fill_price x = Some m \<longrightarrow> 0 < amount m \<and>
       (\<forall>k. 0 < amount (o_limit_price x) \<and> on_grid k (amount (o_limit_price x)) \<and>
            amount (o_limit_price x) * of_int (o_quantity x) * 10 ^ k < 10 ^ 28 \<longrightarrow>
          (if o_side x = BUY then amount m \<le> amount (o_limit_price x)
           else amount (o_limit_price x) \<le> amount m)))"

lemma average_ok_fill:
  assumes ok: "average_ok x" and c: "record_fill x ev f t q p = Inr tr"
  shows "average_ok (tr_order tr)"
proof -
  note r = record_fill_Inr [OF c]
  obtain a where a: "next_average (o_average_fill_price x) (o_filled_quantity x) (amount p) q = Inr a" "0 < a"
    and tr: "o_filled_quantity (tr_order tr) = o_filled_quantity x + q"
      "o_average_fill_price (tr_order tr) = Some \<lparr>amount = a, currency = currency p\<rparr>"
      "o_limit_price (tr_order tr) = o_limit_price x" "o_quantity (tr_order tr) = o_quantity x"
      "o_side (tr_order tr) = o_side x"
    using r(11) by auto
  have within: "if o_side x = BUY then a \<le> amount (o_limit_price x) else amount (o_limit_price x) \<le> a"
    if l: "0 < amount (o_limit_price x)" "on_grid k (amount (o_limit_price x))"
      "amount (o_limit_price x) * of_int (o_quantity x) * 10 ^ k < 10 ^ 28" for k
  proof (cases "o_average_fill_price x")
    case None
    then show ?thesis using a r(9,10) by (cases "o_side x") (auto simp: next_average_def)
  next
    case (Some m)
    with ok have m: "0 < o_filled_quantity x"
      "if o_side x = BUY then amount m \<le> amount (o_limit_price x) else amount (o_limit_price x) \<le> amount m"
      using l unfolding average_ok_def by auto
    have "amount (o_limit_price x) * of_int (o_filled_quantity x + q) * 10 ^ k
        \<le> amount (o_limit_price x) * of_int (o_quantity x) * 10 ^ k"
      using r(6) l(1) by (intro mult_right_mono mult_left_mono) auto
    with l(3) have b: "amount (o_limit_price x) * of_int (o_filled_quantity x + q) * 10 ^ k < 10 ^ 28"
      by linarith
    show ?thesis
    proof (cases "o_side x")
      case BUY
      then show ?thesis
        using next_average_le [OF a(1) [unfolded Some] _ _ m(1) r(5) l(1,2) b] m(2) r(9) by simp
    next
      case SELL
      then show ?thesis
        using next_average_ge [OF a(1) [unfolded Some] _ _ m(1) r(5) l(1,2) b] m(2) r(10) by simp
    qed
  qed
  show ?thesis
    unfolding average_ok_def tr using a(2) r(5) ok within by (auto simp: average_ok_def)
qed

lemma average_ok_cong:
  assumes "average_ok x" "o_filled_quantity y = o_filled_quantity x"
    "o_average_fill_price y = o_average_fill_price x" "o_limit_price y = o_limit_price x"
    "o_quantity y = o_quantity x" "o_side y = o_side x"
  shows "average_ok y"
  using assms by (simp add: average_ok_def)

lemma order_history_average: "order_history x es \<Longrightarrow> average_ok x"
proof (induction rule: order_history.induct)
  case (created oid ev did inst side q lp t0 vf vu ot tif tr)
  from create_order_Inr(3,4) [OF this] show ?case by (simp add: average_ok_def)
next
  case (commanded x es c tr)
  show ?case
  proof (cases c)
    case (RecordFill ev f t q p)
    with commanded show ?thesis by (auto intro: average_ok_fill)
  next
    case (Submit ev t)
    with commanded have "submit_order x ev t = Inr tr" by simp
    from submit_order_Inr(4) [OF this] show ?thesis by (intro average_ok_cong [OF commanded.IH]) auto
  next
    case (Accept ev t e)
    with commanded have "accept_order x ev t e = Inr tr" by simp
    from accept_order_Inr(6) [OF this] show ?thesis by (intro average_ok_cong [OF commanded.IH]) auto
  next
    case (Reject ev t r)
    with commanded have "reject_order x ev t r = Inr tr" by simp
    from reject_order_Inr(3) [OF this] show ?thesis by (intro average_ok_cong [OF commanded.IH]) auto
  next
    case (Cancel ev t r)
    with commanded have "cancel_order x ev t r = Inr tr" by simp
    from cancel_order_Inr(4) [OF this] show ?thesis by (intro average_ok_cong [OF commanded.IH]) auto
  next
    case (Expire ev t r)
    with commanded have "expire_order x ev t r = Inr tr" by simp
    from expire_order_Inr(4) [OF this] show ?thesis by (intro average_ok_cong [OF commanded.IH]) auto
  qed
qed

section \<open>Properties\<close>

definition cny :: "rat \<Rightarrow> money" where
  "cny a = \<lparr>amount = a, currency = ''CNY''\<rparr>"

text \<open>A run of the machine used by the witnesses: a buy of 300 shares, filled in two parts.\<close>

definition sample_created :: "order_transition result" where
  "sample_created = create_order ''o1'' ''e1'' ''d1'' ''300059.SZ'' BUY 300 (cny (105 / 10)) 10 20 90
     MARKETABLE_LIMIT DAY"

definition sample_commands :: "order_command list" where
  "sample_commands = [Submit ''e2'' 11, Accept ''e3'' 12 20, RecordFill ''e4'' ''f1'' 20 100 (cny 10),
     RecordFill ''e5'' ''f2'' 30 100 (cny (103 / 10))]"

definition sample_run :: "(order \<times> order_event list) result" where
  "sample_run = rbind sample_created (\<lambda>tr. run_commands (tr_order tr) [tr_event tr] sample_commands)"

lemma sample_run_history:
  assumes "sample_run = Inr (x, es)"
  shows "order_history x es"
proof -
  from assms obtain tr where "sample_created = Inr tr"
    and r: "run_commands (tr_order tr) [tr_event tr] sample_commands = Inr (x, es)"
    unfolding sample_run_def by (rule rbindE)
  then have "create_order ''o1'' ''e1'' ''d1'' ''300059.SZ'' BUY 300 (cny (105 / 10)) 10 20 90
     MARKETABLE_LIMIT DAY = Inr tr"
    by (simp add: sample_created_def)
  then have "order_history (tr_order tr) [tr_event tr]" by (rule order_history.created)
  then show ?thesis using r by (rule run_commands_history)
qed

lemma sample_run_result:
  obtains x es where "sample_run = Inr (x, es)" "order_history x es" "length es = 5"
    "o_status x = PARTIALLY_FILLED" "o_filled_quantity x = 200" "o_quantity x = 300" "o_side x = BUY"
    "o_limit_price x = cny (105 / 10)" "o_average_fill_price x = Some (cny (1015 / 100))"
    "o_valid_until x = 90" "o_updated_at x = 30" "o_fill_eligible_at x = Some 20"
    "o_applied_fill_ids x = [''f1'', ''f2'']"
proof -
  have "case sample_run of Inl e \<Rightarrow> False | Inr (x, es) \<Rightarrow> length es = 5 \<and>
      o_status x = PARTIALLY_FILLED \<and> o_filled_quantity x = 200 \<and> o_quantity x = 300 \<and> o_side x = BUY \<and>
      o_limit_price x = cny (105 / 10) \<and> o_average_fill_price x = Some (cny (1015 / 100)) \<and>
      o_valid_until x = 90 \<and> o_updated_at x = 30 \<and> o_fill_eligible_at x = Some 20 \<and>
      o_applied_fill_ids x = [''f1'', ''f2'']"
    by code_simp
  then show ?thesis
    using that sample_run_history by (auto split: sum.splits prod.splits)
qed

text \<open>C17: in every run of the order state machine the snapshot agrees with its audit trail: it passes
  all its constructor checks, its version counts the events, the events are numbered 1, 2, ... without
  gaps and ordered in time, the filled quantity is the sum of the fill events and the applied fill ids
  are those of the fill events, in order.\<close>

theorem order_audit_trail: "order_history x es \<Longrightarrow> trail_agrees x es"
  by (rule order_history_agrees)

theorem order_audit_trail_witness:
  "\<exists>x es. sample_run = Inr (x, es) \<and> length es = 5 \<and> o_filled_quantity x = 200 \<and> trail_agrees x es"
  by (rule sample_run_result) (auto intro: order_audit_trail)

text \<open>C34: the state machine refines the abstract life cycle: every command that succeeds is one of the
  abstract moves between statuses, with the quantity done growing by a positive fill and reaching the
  ordered quantity exactly when the order is FILLED.\<close>

theorem order_refines_life_cycle:
  "apply_command x c = Inr tr \<Longrightarrow> life_cycle (view_of x) (view_of (tr_order tr))"
  by (rule apply_command_life_cycle)

theorem order_refines_life_cycle_witness:
  "\<exists>x tr. apply_command x (RecordFill ''e6'' ''f3'' 40 100 (cny 10)) = Inr tr \<and>
     life_cycle (view_of x) (view_of (tr_order tr)) \<and> o_status (tr_order tr) = FILLED"
proof (rule sample_run_result)
  fix x es
  assume h: "sample_run = Inr (x, es)"
  have "case sample_run of Inl e \<Rightarrow> False | Inr (x, es) \<Rightarrow>
      (case apply_command x (RecordFill ''e6'' ''f3'' 40 100 (cny 10)) of Inl e \<Rightarrow> False
       | Inr tr \<Rightarrow> o_status (tr_order tr) = FILLED)"
    by code_simp
  then obtain tr where "apply_command x (RecordFill ''e6'' ''f3'' 40 100 (cny 10)) = Inr tr"
    "o_status (tr_order tr) = FILLED"
    unfolding h by (auto split: sum.splits)
  with order_refines_life_cycle show ?thesis by blast
qed

text \<open>A terminal order is final: every command on it raises InvalidOrderTransition.\<close>

theorem terminal_order_is_final:
  assumes "is_terminal_status (o_status x)"
  shows "\<exists>m. apply_command x c = Inl (InvalidOrderTransition m)"
  using assms
  by (cases c) (auto simp: submit_order_def accept_order_def reject_order_def record_fill_def
      cancel_order_def expire_order_def require_status_def open_statuses_def)

theorem terminal_order_is_final_witness:
  "\<exists>x m. is_terminal_status (o_status x) \<and> apply_command x (Cancel ''e7'' 90 ''late'') = Inl (InvalidOrderTransition m)"
proof (rule sample_run_result)
  fix x es
  assume "order_history x es" "o_status x = PARTIALLY_FILLED"
  have "is_terminal_status (o_status (x\<lparr>o_status := EXPIRED\<rparr>))" by simp
  with terminal_order_is_final [of "x\<lparr>o_status := EXPIRED\<rparr>"] show ?thesis by blast
qed

text \<open>C32: a fill is recorded exactly when the order is working, the fill lies in the eligible window,
  does not precede the last update, is a positive quantity that still fits, is a new fill, and respects
  currency and limit price; no constructor check ever rejects it beyond that.\<close>

theorem record_fill_exact:
  assumes h: "order_history x es" and p: "price_ok p"
  shows "is_ok (record_fill x ev f t q p) \<longleftrightarrow>
    o_status x \<in> {ACCEPTED, PARTIALLY_FILLED} \<and>
    (\<exists>e. o_fill_eligible_at x = Some e \<and> e \<le> t) \<and> o_updated_at x \<le> t \<and> t \<le> o_valid_until x \<and>
    0 < q \<and> o_filled_quantity x + q \<le> o_quantity x \<and> f \<notin> set (o_applied_fill_ids x) \<and>
    currency p = currency (o_limit_price x) \<and>
    (if o_side x = BUY then amount p \<le> amount (o_limit_price x) else amount (o_limit_price x) \<le> amount p)"
    (is "?l \<longleftrightarrow> ?r")
proof
  assume ?l
  then obtain tr where "record_fill x ev f t q p = Inr tr" by (auto simp: is_ok_iff)
  note r = record_fill_Inr [OF this]
  show ?r using r(1-10) by (cases "o_side x") auto
next
  assume r: ?r
  then obtain e where e: "o_fill_eligible_at x = Some e" "e \<le> t" by blast
  have "average_ok x" using h by (rule order_history_average)
  then have "\<exists>tr. record_fill x ev f t q p = Inr tr"
    using r p e by (intro record_fill_ok [OF order_history_valid [OF h]]) (auto simp: average_ok_def opt_any_iff)
  then show ?l by (auto simp: is_ok_iff)
qed

theorem record_fill_exact_witness:
  "\<exists>x es. sample_run = Inr (x, es) \<and> is_ok (record_fill x ''e6'' ''f3'' 40 100 (cny 10)) \<and>
     \<not> is_ok (record_fill x ''e6'' ''f2'' 40 100 (cny 10)) \<and> \<not> is_ok (record_fill x ''e6'' ''f3'' 40 101 (cny 10))"
proof (rule sample_run_result)
  fix x es
  assume s: "sample_run = Inr (x, es)" and h: "order_history x es"
    and x: "o_status x = PARTIALLY_FILLED" "o_filled_quantity x = 200" "o_quantity x = 300" "o_side x = BUY"
    "o_limit_price x = cny (105 / 10)" "o_valid_until x = 90" "o_updated_at x = 30"
    "o_fill_eligible_at x = Some 20" "o_applied_fill_ids x = [''f1'', ''f2'']"
  have "price_ok (cny 10)" by (simp add: price_ok_def money_ok_def cny_def)
  from record_fill_exact [OF h this] show ?thesis
    using s x by (intro exI [of _ x] exI [of _ es]) (simp add: cny_def)
qed

text \<open>The average fill price of a buy order never exceeds its limit and that of a sell order never
  undercuts it, in spite of the rounding of each averaging step, as long as the limit times the quantity
  fits the 28 digits of the decimal context.\<close>

theorem average_fill_within_limit:
  assumes "order_history x es" "o_average_fill_price x = Some m"
    and "0 < amount (o_limit_price x)" "on_grid k (amount (o_limit_price x))"
    and "amount (o_limit_price x) * of_int (o_quantity x) * 10 ^ k < 10 ^ 28"
  shows "if o_side x = BUY then amount m \<le> amount (o_limit_price x) else amount (o_limit_price x) \<le> amount m"
  using order_history_average [OF assms(1)] assms(2-5) unfolding average_ok_def by blast

theorem average_fill_within_limit_witness:
  "\<exists>x es m. sample_run = Inr (x, es) \<and> o_average_fill_price x = Some m \<and> amount m = 1015 / 100 \<and>
     amount m \<le> amount (o_limit_price x)"
proof (rule sample_run_result)
  fix x es
  assume s: "sample_run = Inr (x, es)" and h: "order_history x es"
    and x: "o_quantity x = 300" "o_side x = BUY" "o_limit_price x = cny (105 / 10)"
    "o_average_fill_price x = Some (cny (1015 / 100))"
  have "on_grid 2 (105 / 10)" by code_simp
  with average_fill_within_limit [OF h x(4), of 2] x s show ?thesis
    by (intro exI [of _ x] exI [of _ es]) (simp add: cny_def)
qed

text \<open>An order that is not terminal can always be closed: at any time from its validity end on,
  \<open>expire\<close> with a non-blank reason succeeds, keeps what was filled and leaves the order EXPIRED.\<close>

theorem open_order_can_expire:
  assumes "valid_order x" "\<not> is_terminal_status (o_status x)" "o_updated_at x \<le> t" "o_valid_until x \<le> t"
    and "\<not> blank r"
  shows "\<exists>tr. expire_order x ev t r = Inr tr \<and> o_status (tr_order tr) = EXPIRED \<and>
    o_filled_quantity (tr_order tr) = o_filled_quantity x \<and> o_terminal_at (tr_order tr) = Some t"
proof -
  from expire_order_ok [OF assms] obtain tr where tr: "expire_order x ev t r = Inr tr" by blast
  from expire_order_Inr(4) [OF tr] tr show ?thesis by auto
qed

theorem open_order_can_expire_witness:
  "\<exists>x es tr. sample_run = Inr (x, es) \<and> expire_order x ''e6'' 90 ''day_remainder_expired'' = Inr tr \<and>
     o_filled_quantity (tr_order tr) = 200"
proof (rule sample_run_result)
  fix x es
  assume s: "sample_run = Inr (x, es)" and h: "order_history x es"
    and x: "o_status x = PARTIALLY_FILLED" "o_valid_until x = 90" "o_updated_at x = 30" "o_filled_quantity x = 200"
  have "\<not> blank ''day_remainder_expired''" by code_simp
  with open_order_can_expire [OF order_history_valid [OF h], of 90] x s show ?thesis by fastforce
qed

end
