(* ===== verification/MarketData.thy ===== *)
theory MarketData
  imports Shared
begin

text \<open>
  The canonical market records of \<open>ashare_lab/domain/market_data\<close>: boards and their buy
  declaration rules, one security on one session (\<open>instrument_session\<close>), daily and minute bars,
  corporate actions, event envelopes with their availability clock (models.py), and the
  syntactic identity of a mainland share (instruments.py).  Each class is a record, its
  \<open>__post_init__\<close> a list of checks and its constructor \<open>mk_...\<close>.  Fields a class only carries
  along as text (a provider, a URL) are strings.
\<close>

section \<open>Boards and buy declarations\<close>

datatype price_basis = UNADJUSTED | BACK_ADJUSTED | DYNAMIC_FRONT_ADJUSTED

datatype board = MAIN | STOCK_ETF | CHINEXT | STAR | BSE

fun standard_buy_quantity_rule :: "board \<Rightarrow> int \<times> int" where
  "standard_buy_quantity_rule MAIN = (100, 100)"
| "standard_buy_quantity_rule STOCK_ETF = (100, 100)"
| "standard_buy_quantity_rule CHINEXT = (100, 100)"
| "standard_buy_quantity_rule STAR = (200, 1)"
| "standard_buy_quantity_rule BSE = (100, 1)"

datatype trading_status = TRADING | SUSPENDED | DELISTED

fun trading_status_value :: "trading_status \<Rightarrow> string" where
  "trading_status_value TRADING = ''trading''"
| "trading_status_value SUSPENDED = ''suspended''"
| "trading_status_value DELISTED = ''delisted''"

datatype time_quality = EXACT | VENDOR_OBSERVED | DATE_ONLY_CONSERVATIVE | ESTIMATED_RESEARCH_ONLY

datatype action_kind = CASH_DIVIDEND | SHARE_DISTRIBUTION | STOCK_SPLIT | REVERSE_SPLIT | RIGHTS_ISSUE

record instrument_session =
  s_instrument_id :: string
  s_session_date :: date
  s_board :: board
  s_status :: trading_status
  s_previous_close :: price
  s_upper_limit :: "price option"
  s_lower_limit :: "price option"
  s_minimum_buy_quantity :: int
  s_buy_quantity_increment :: int
  s_price_tick :: rat
  s_t_plus_one :: bool
  s_is_st :: bool

definition session_checks :: "instrument_session \<Rightarrow> (bool \<times> py_error) list" where
  "session_checks s =
    [((s_upper_limit s = None) \<noteq> (s_lower_limit s = None),
      DomainValidationError ''upper_limit and lower_limit must both be set or both be absent''),
     (opt_any (\<lambda>p. currency p \<noteq> currency (s_previous_close s)) (s_upper_limit s) \<or>
      opt_any (\<lambda>p. currency p \<noteq> currency (s_previous_close s)) (s_lower_limit s),
      DomainValidationError ''session prices must use one currency''),
     (opt_any (\<lambda>u. opt_any (\<lambda>l. amount l \<ge> amount u) (s_lower_limit s)) (s_upper_limit s),
      DomainValidationError ''lower_limit must be below upper_limit''),
     (s_minimum_buy_quantity s \<le> 0, DomainValidationError ''minimum_buy_quantity must be a positive integer''),
     (s_buy_quantity_increment s \<le> 0, DomainValidationError ''buy_quantity_increment must be a positive integer''),
     ((s_minimum_buy_quantity s, s_buy_quantity_increment s) \<noteq> standard_buy_quantity_rule (s_board s),
      DomainValidationError ''buy quantity rule does not match board''),
     (s_price_tick s \<le> 0, DomainValidationError ''price_tick must be positive''),
     (s_board s = STOCK_ETF \<and> s_price_tick s \<noteq> 1 / 1000, DomainValidationError ''stock_etf requires price_tick=0.001''),
     (s_board s = STOCK_ETF \<and> \<not> s_t_plus_one s, DomainValidationError ''stock_etf requires T+1 settlement''),
     (s_board s = STOCK_ETF \<and> s_is_st s, DomainValidationError ''stock_etf cannot use stock ST rules'')]"

definition mk_session :: "instrument_session \<Rightarrow> instrument_session result" where
  "mk_session s = construct (\<lambda>s. checks (session_checks s)) s"

definition is_valid_buy_quantity :: "instrument_session \<Rightarrow> int \<Rightarrow> bool" where
  "is_valid_buy_quantity s q \<longleftrightarrow>
     q \<ge> s_minimum_buy_quantity s \<and> (q - s_minimum_buy_quantity s) mod s_buy_quantity_increment s = 0"

definition floor_buy_quantity :: "instrument_session \<Rightarrow> int \<Rightarrow> int result" where
  "floor_buy_quantity s maximum =
     (if maximum < 0 then Inl (DomainValidationError ''maximum buy quantity must be a non-negative integer'')
      else if maximum < s_minimum_buy_quantity s then Inr 0
      else Inr (s_minimum_buy_quantity s +
        ((maximum - s_minimum_buy_quantity s) div s_buy_quantity_increment s) * s_buy_quantity_increment s))"

definition previous_buy_quantity :: "instrument_session \<Rightarrow> int \<Rightarrow> int result" where
  "previous_buy_quantity s q =
     (if \<not> is_valid_buy_quantity s q
      then Inl (DomainValidationError ''quantity must be a valid buy declaration'')
      else floor_buy_quantity s (q - 1))"

definition session_ok :: "instrument_session \<Rightarrow> bool" where
  "session_ok s \<longleftrightarrow> is_ok (checks (session_checks s))"

lemma session_ok_rule:
  assumes "session_ok s"
  shows "0 < s_minimum_buy_quantity s" "0 < s_buy_quantity_increment s" "0 < s_price_tick s"
    "s_upper_limit s = None \<longleftrightarrow> s_lower_limit s = None"
    "s_upper_limit s = Some u \<Longrightarrow> s_lower_limit s = Some l \<Longrightarrow> amount l < amount u"
    "s_upper_limit s = Some u \<Longrightarrow> currency u = currency (s_previous_close s)"
  using assms by (auto simp: session_ok_def session_checks_def result_simps opt_any_iff)

lemma floor_buy_quantity_greatest:
  assumes s: "0 < s_minimum_buy_quantity s" "0 < s_buy_quantity_increment s"
    and f: "floor_buy_quantity s m = Inr q"
  shows "0 \<le> q" "q \<le> m" "q = 0 \<or> is_valid_buy_quantity s q"
    "is_valid_buy_quantity s r \<Longrightarrow> r \<le> m \<Longrightarrow> r \<le> q"
proof -
  let ?a = "s_minimum_buy_quantity s" and ?i = "s_buy_quantity_increment s"
  show "0 \<le> q" "q = 0 \<or> is_valid_buy_quantity s q"
    using s f by (auto simp: floor_buy_quantity_def is_valid_buy_quantity_def pos_imp_zdiv_nonneg_iff split: if_splits)
  have d: "(m - ?a) div ?i * ?i \<le> m - ?a" using s(2) by (metis div_mod_decomp_int le_add_same_cancel1 pos_mod_sign)
  then show "q \<le> m" using s f by (auto simp: floor_buy_quantity_def split: if_splits)
  assume r: "is_valid_buy_quantity s r" "r \<le> m"
  then have "(r - ?a) div ?i \<le> (m - ?a) div ?i" using s(2) by (intro zdiv_mono1) auto
  then have "(r - ?a) div ?i * ?i \<le> (m - ?a) div ?i * ?i" using s(2) by (intro mult_right_mono) auto
  moreover have "r - ?a = (r - ?a) div ?i * ?i" using r(1) by (simp add: is_valid_buy_quantity_def dvd_eq_mod_eq_0)
  ultimately show "r \<le> q" using r s f by (auto simp: floor_buy_quantity_def is_valid_buy_quantity_def split: if_splits)
qed

lemma floor_buy_quantity_ok: "0 \<le> m \<Longrightarrow> \<exists>q. floor_buy_quantity s m = Inr q"
  by (simp add: floor_buy_quantity_def)

lemma previous_buy_quantity_less:
  assumes "0 < s_minimum_buy_quantity s" "0 < s_buy_quantity_increment s" "previous_buy_quantity s q = Inr r"
  shows "0 \<le> r" "r < q" "r = 0 \<or> is_valid_buy_quantity s r"
    "is_valid_buy_quantity s n \<Longrightarrow> n < q \<Longrightarrow> n \<le> r"
  using floor_buy_quantity_greatest [OF assms(1,2), of "q - 1" r] assms(3)
  by (auto simp: previous_buy_quantity_def split: if_splits)

lemma previous_buy_quantity_ok:
  "0 < s_minimum_buy_quantity s \<Longrightarrow> is_valid_buy_quantity s q \<Longrightarrow> \<exists>r. previous_buy_quantity s q = Inr r"
  by (simp add: previous_buy_quantity_def is_valid_buy_quantity_def floor_buy_quantity_ok)

section \<open>Bars\<close>

record daily_bar =
  b_instrument_id :: string
  b_session_date :: date
  b_open :: price
  b_high :: price
  b_low :: price
  b_close :: price
  b_volume :: int
  b_turnover :: rat
  b_available_at :: datetime
  b_price_basis :: price_basis
  b_turnover_rate_pct :: "rat option"
  b_turnover_rate_provider :: "string option"
  b_turnover_rate_methodology :: "string option"

definition blank_or_missing :: "string option \<Rightarrow> bool" where
  "blank_or_missing v = (case v of None \<Rightarrow> True | Some s \<Rightarrow> blank s)"

definition daily_bar_checks :: "daily_bar \<Rightarrow> (bool \<times> py_error) list" where
  "daily_bar_checks b =
    [(length (remdups [currency (b_open b), currency (b_high b), currency (b_low b), currency (b_close b)]) \<noteq> 1,
      DomainValidationError ''OHLC prices must use one currency''),
     (amount (b_low b) > Min (set [amount (b_open b), amount (b_high b), amount (b_low b), amount (b_close b)]) \<or>
      amount (b_high b) < Max (set [amount (b_open b), amount (b_high b), amount (b_low b), amount (b_close b)]),
      DomainValidationError ''OHLC values are inconsistent with high/low''),
     (b_turnover b < 0, DomainValidationError ''turnover must be a finite non-negative Decimal'')] @
    (case b_turnover_rate_pct b of
       None \<Rightarrow>
        [(b_turnover_rate_provider b \<noteq> None \<or> b_turnover_rate_methodology b \<noteq> None,
          DomainValidationError ''turnover-rate provenance requires turnover_rate_pct'')]
     | Some r \<Rightarrow>
        [(r < 0, DomainValidationError ''turnover_rate_pct must be a finite non-negative Decimal''),
         (blank_or_missing (b_turnover_rate_provider b) \<or> blank_or_missing (b_turnover_rate_methodology b),
          DomainValidationError ''turnover-rate provenance requires non-empty provider and methodology'')])"

definition mk_daily_bar :: "daily_bar \<Rightarrow> daily_bar result" where
  "mk_daily_bar b = construct (\<lambda>b. checks (daily_bar_checks b)) b"

text \<open>A bar its constructor accepts, with prices of the class \<open>Price\<close> and a \<open>Quantity\<close>.\<close>

definition daily_bar_ok :: "daily_bar \<Rightarrow> bool" where
  "daily_bar_ok b \<longleftrightarrow>
     is_ok (checks (daily_bar_checks b)) \<and> price_ok (b_open b) \<and> price_ok (b_high b) \<and> price_ok (b_low b) \<and>
     price_ok (b_close b) \<and> 0 \<le> b_volume b"

lemma daily_bar_ok_order:
  assumes "daily_bar_ok b"
  shows "0 < amount (b_low b)" "amount (b_low b) \<le> amount (b_open b)" "amount (b_low b) \<le> amount (b_close b)"
    "amount (b_open b) \<le> amount (b_high b)" "amount (b_close b) \<le> amount (b_high b)"
    "amount (b_low b) \<le> amount (b_high b)"
  using assms by (auto simp: daily_bar_ok_def daily_bar_checks_def result_simps price_ok_def)

lemma daily_bar_ok_currency:
  assumes "daily_bar_ok b"
  shows "currency (b_high b) = currency (b_open b)" "currency (b_low b) = currency (b_open b)"
    "currency (b_close b) = currency (b_open b)" "currency_ok (currency (b_open b))"
  using assms by (auto simp: daily_bar_ok_def daily_bar_checks_def result_simps price_ok_def money_ok_def split: if_splits)

record minute_bar =
  m_instrument_id :: string
  m_bar_start_at :: datetime
  m_bar_end_at :: datetime
  m_available_at :: datetime
  m_open :: price
  m_high :: price
  m_low :: price
  m_close :: price
  m_volume :: int
  m_turnover :: rat
  m_price_basis :: price_basis

definition minute_bar_checks :: "minute_bar \<Rightarrow> (bool \<times> py_error) list" where
  "minute_bar_checks b =
    [(m_bar_end_at b \<le> m_bar_start_at b, DomainValidationError ''minute bar end must follow its start''),
     (m_bar_end_at b - m_bar_start_at b \<noteq> seconds 60, DomainValidationError ''minute bar interval must be exactly 60 seconds''),
     (m_available_at b < m_bar_end_at b, DomainValidationError ''minute bar cannot be available before it is complete''),
     (m_price_basis b \<noteq> UNADJUSTED, DomainValidationError ''minute execution bar must be unadjusted''),
     (length (remdups [currency (m_open b), currency (m_high b), currency (m_low b), currency (m_close b)]) \<noteq> 1,
      DomainValidationError ''minute OHLC prices must use one currency''),
     (amount (m_low b) > Min (set [amount (m_open b), amount (m_high b), amount (m_low b), amount (m_close b)]) \<or>
      amount (m_high b) < Max (set [amount (m_open b), amount (m_high b), amount (m_low b), amount (m_close b)]),
      DomainValidationError ''minute OHLC values are inconsistent with high/low''),
     (m_turnover b < 0, DomainValidationError ''minute turnover must be a finite non-negative Decimal'')]"

definition mk_minute_bar :: "minute_bar \<Rightarrow> minute_bar result" where
  "mk_minute_bar b = construct (\<lambda>b. checks (minute_bar_checks b)) b"

record minute_close =
  mc_instrument_id :: string
  mc_bar_start_at :: datetime
  mc_bar_end_at :: datetime
  mc_available_at :: datetime
  mc_close :: price
  mc_price_basis :: price_basis

definition minute_close_checks :: "minute_close \<Rightarrow> (bool \<times> py_error) list" where
  "minute_close_checks b =
    [(mc_bar_end_at b - mc_bar_start_at b \<noteq> seconds 60, DomainValidationError ''minute close interval must be exactly 60 seconds''),
     (mc_available_at b < mc_bar_end_at b, DomainValidationError ''minute close cannot be available before completion''),
     (mc_price_basis b \<noteq> BACK_ADJUSTED, DomainValidationError ''minute signal close must be back-adjusted'')]"

definition mk_minute_close :: "minute_close \<Rightarrow> minute_close result" where
  "mk_minute_close b = construct (\<lambda>b. checks (minute_close_checks b)) b"

section \<open>Corporate actions\<close>

record corporate_action =
  a_action_id :: string
  a_source_action_id :: string
  a_instrument_id :: string
  a_type :: action_kind
  a_record_date :: date
  a_ex_date :: date
  a_source_released_at :: "datetime option"
  a_vendor_first_available_at :: "datetime option"
  a_ingested_at :: datetime
  a_replay_available_at :: datetime
  a_revision_no :: int
  a_time_quality :: time_quality
  a_provider :: string
  a_source_url :: string
  a_raw_response_sha256 :: string
  a_validation_status :: string
  a_currency :: string
  a_gross_cash_per_share :: "rat option"
  a_cash_pay_date :: "date option"
  a_share_multiplier :: "rat option"
  a_share_credit_date :: "date option"
  a_share_sellable_date :: "date option"
  a_rights_ratio :: "rat option"
  a_rights_subscription_price :: "rat option"
  a_rights_payment_deadline :: "date option"
  a_rights_listing_date :: "date option"

text \<open>\<open>v is None or P(v)\<close>.\<close>

fun none_or :: "('a \<Rightarrow> bool) \<Rightarrow> 'a option \<Rightarrow> bool" where
  "none_or P None \<longleftrightarrow> True"
| "none_or P (Some x) \<longleftrightarrow> P x"

definition cash_dividend_checks :: "corporate_action \<Rightarrow> (bool \<times> py_error) list" where
  "cash_dividend_checks a =
    [(none_or (\<lambda>v. v \<le> 0) (a_gross_cash_per_share a), DomainValidationError ''cash dividend requires positive gross_cash_per_share''),
     (a_share_multiplier a \<noteq> None \<or> a_share_credit_date a \<noteq> None \<or> a_share_sellable_date a \<noteq> None \<or>
      a_rights_ratio a \<noteq> None \<or> a_rights_subscription_price a \<noteq> None \<or>
      a_rights_payment_deadline a \<noteq> None \<or> a_rights_listing_date a \<noteq> None,
      DomainValidationError ''cash dividend contains incompatible economic terms''),
     (none_or (\<lambda>d. d < a_ex_date a) (a_cash_pay_date a), DomainValidationError ''cash dividend requires pay date on or after ex_date'')]"

definition share_action_checks :: "corporate_action \<Rightarrow> (bool \<times> py_error) list" where
  "share_action_checks a =
    [(none_or (\<lambda>m. m \<le> 0 \<or> m = 1) (a_share_multiplier a), DomainValidationError ''share action requires a positive non-unit multiplier''),
     (a_type a = REVERSE_SPLIT \<and> opt_any (\<lambda>m. m \<ge> 1) (a_share_multiplier a), DomainValidationError ''reverse split multiplier must be below one''),
     (a_type a \<noteq> REVERSE_SPLIT \<and> opt_any (\<lambda>m. m \<le> 1) (a_share_multiplier a),
      DomainValidationError ''share distribution or split multiplier must exceed one''),
     (none_or (\<lambda>d. d < a_ex_date a) (a_share_credit_date a),
      DomainValidationError ''share action requires a credit date on or after ex_date''),
     (none_or (\<lambda>d. opt_any (\<lambda>c. d < c) (a_share_credit_date a)) (a_share_sellable_date a),
      DomainValidationError ''share action requires sellable date on or after credit date''),
     (a_gross_cash_per_share a \<noteq> None \<or> a_cash_pay_date a \<noteq> None \<or> a_rights_ratio a \<noteq> None \<or>
      a_rights_subscription_price a \<noteq> None \<or> a_rights_payment_deadline a \<noteq> None \<or> a_rights_listing_date a \<noteq> None,
      DomainValidationError ''share action contains incompatible economic terms'')]"

definition rights_issue_checks :: "corporate_action \<Rightarrow> (bool \<times> py_error) list" where
  "rights_issue_checks a =
    [(none_or (\<lambda>v. v \<le> 0) (a_rights_ratio a), DomainValidationError ''rights issue requires a positive rights_ratio''),
     (none_or (\<lambda>v. v \<le> 0) (a_rights_subscription_price a),
      DomainValidationError ''rights issue requires a positive rights_subscription_price''),
     (a_rights_payment_deadline a = None \<or> a_rights_listing_date a = None,
      DomainValidationError ''rights issue requires payment deadline and listing date''),
     (opt_any (\<lambda>d. d < a_ex_date a) (a_rights_payment_deadline a), DomainValidationError ''rights payment deadline cannot precede ex_date''),
     (opt_any (\<lambda>d. d < a_ex_date a) (a_rights_listing_date a), DomainValidationError ''rights listing date cannot precede ex_date''),
     (a_gross_cash_per_share a \<noteq> None \<or> a_share_multiplier a \<noteq> None,
      DomainValidationError ''rights issue contains incompatible economic terms''),
     (a_cash_pay_date a \<noteq> None \<or> a_share_credit_date a \<noteq> None \<or> a_share_sellable_date a \<noteq> None,
      DomainValidationError ''rights issue contains incompatible settlement dates'')]"

definition terms_checks :: "corporate_action \<Rightarrow> (bool \<times> py_error) list" where
  "terms_checks a =
    (case a_type a of
       CASH_DIVIDEND \<Rightarrow> cash_dividend_checks a
     | SHARE_DISTRIBUTION \<Rightarrow> share_action_checks a
     | STOCK_SPLIT \<Rightarrow> share_action_checks a
     | REVERSE_SPLIT \<Rightarrow> share_action_checks a
     | RIGHTS_ISSUE \<Rightarrow> rights_issue_checks a)"

definition hex_digest_ok :: "string \<Rightarrow> bool" where
  "hex_digest_ok s \<longleftrightarrow> (let d = removeprefix ''sha256:'' s in length d = 64 \<and> list_all lower_hex d)"

definition validation_statuses :: "string list" where
  "validation_statuses = [''validated'', ''unverified'', ''blocked_time_quality'', ''rejected'']"

definition corporate_action_checks :: "corporate_action \<Rightarrow> (bool \<times> py_error) list" where
  "corporate_action_checks a =
    [(a_record_date a \<ge> a_ex_date a, DomainValidationError ''corporate-action record_date must precede ex_date''),
     (opt_any (\<lambda>t. a_replay_available_at a < t) (a_source_released_at a) \<or>
      opt_any (\<lambda>t. a_replay_available_at a < t) (a_vendor_first_available_at a),
      DomainValidationError ''replay_available_at cannot precede source or vendor availability''),
     (a_revision_no a < 0, DomainValidationError ''corporate-action revision_no cannot be negative''),
     (blank (a_source_action_id a), DomainValidationError ''corporate-action source_action_id cannot be blank''),
     (blank (a_provider a), DomainValidationError ''corporate-action provider cannot be blank''),
     (blank (a_source_url a), DomainValidationError ''corporate-action source_url cannot be blank''),
     (\<not> hex_digest_ok (a_raw_response_sha256 a),
      DomainValidationError ''corporate-action raw_response_sha256 must contain 64 lowercase hex digits''),
     (a_validation_status a \<notin> set validation_statuses, DomainValidationError ''invalid corporate-action validation_status''),
     (\<not> currency_ok (a_currency a), DomainValidationError ''currency must be a three-letter uppercase code'')] @
    terms_checks a"

definition mk_corporate_action :: "corporate_action \<Rightarrow> corporate_action result" where
  "mk_corporate_action a = construct (\<lambda>a. checks (corporate_action_checks a)) a"

definition action_available_at :: "corporate_action \<Rightarrow> datetime option" where
  "action_available_at a =
     (if a_validation_status a \<noteq> ''validated'' then None
      else if a_time_quality a = ESTIMATED_RESEARCH_ONLY then None
      else Some (a_replay_available_at a))"

definition action_ok :: "corporate_action \<Rightarrow> bool" where
  "action_ok a \<longleftrightarrow> is_ok (checks (corporate_action_checks a))"

lemma action_ok_dates: "action_ok a \<Longrightarrow> a_record_date a < a_ex_date a \<and> 0 \<le> a_revision_no a \<and> currency_ok (a_currency a)"
  by (simp add: action_ok_def corporate_action_checks_def result_simps)

lemma none_or_iff: "none_or P v \<longleftrightarrow> (\<forall>x. v = Some x \<longrightarrow> P x)"
  by (cases v) auto

lemma action_ok_cash:
  "action_ok a \<Longrightarrow> a_type a = CASH_DIVIDEND \<Longrightarrow>
     \<exists>g d. a_gross_cash_per_share a = Some g \<and> 0 < g \<and> a_cash_pay_date a = Some d \<and> a_ex_date a \<le> d"
  by (auto simp: action_ok_def corporate_action_checks_def result_simps terms_checks_def cash_dividend_checks_def none_or_iff)

lemma action_ok_share:
  "action_ok a \<Longrightarrow> a_type a \<in> {SHARE_DISTRIBUTION, STOCK_SPLIT, REVERSE_SPLIT} \<Longrightarrow>
     \<exists>m c d. a_share_multiplier a = Some m \<and> 0 < m \<and> (if a_type a = REVERSE_SPLIT then m < 1 else 1 < m) \<and>
       a_share_credit_date a = Some c \<and> a_ex_date a \<le> c \<and> a_share_sellable_date a = Some d \<and> c \<le> d"
  by (auto simp: action_ok_def corporate_action_checks_def result_simps terms_checks_def share_action_checks_def
      none_or_iff opt_any_iff)

section \<open>Market events\<close>

datatype attribute = TextValue string | IntValue int | DecimalValue rat | BoolValue bool | NullValue

record market_event =
  me_event_id :: string
  me_event_code :: string
  me_instrument_id :: string
  me_attributes :: "(string \<times> attribute) list"

definition mk_market_event :: "market_event \<Rightarrow> market_event result" where
  "mk_market_event e = construct (\<lambda>e. checks
     [(me_event_code e = [] \<or> length (me_event_code e) > 128, DomainValidationError ''event_code must contain 1-128 characters'')]) e"

record event_envelope =
  ee_event :: market_event
  ee_occurred_at :: "datetime option"
  ee_source_released_at :: "datetime option"
  ee_vendor_first_available_at :: "datetime option"
  ee_ingested_at :: datetime
  ee_revision_no :: int
  ee_time_quality :: time_quality
  ee_replay_available_at :: "datetime option"
  ee_source_event_id :: "string option"
  ee_provider :: "string option"
  ee_source_url :: "string option"
  ee_raw_response_sha256 :: "string option"
  ee_validation_status :: "string option"

definition event_envelope_checks :: "event_envelope \<Rightarrow> (bool \<times> py_error) list" where
  "event_envelope_checks e =
    [(ee_revision_no e < 0, DomainValidationError ''revision_no cannot be negative''),
     (opt_any (\<lambda>r. opt_any (\<lambda>t. r < t) (ee_source_released_at e) \<or> opt_any (\<lambda>t. r < t) (ee_vendor_first_available_at e))
        (ee_replay_available_at e),
      DomainValidationError ''replay_available_at cannot precede source or vendor availability''),
     (opt_any blank (ee_source_event_id e), DomainValidationError ''source_event_id cannot be blank''),
     (opt_any blank (ee_provider e), DomainValidationError ''provider cannot be blank''),
     (opt_any blank (ee_source_url e), DomainValidationError ''source_url cannot be blank''),
     (opt_any (\<lambda>d. \<not> hex_digest_ok d) (ee_raw_response_sha256 e),
      DomainValidationError ''raw_response_sha256 must contain 64 lowercase hexadecimal digits''),
     (opt_any (\<lambda>v. v \<notin> set validation_statuses) (ee_validation_status e), DomainValidationError ''invalid event validation_status'')]"

definition mk_event_envelope :: "event_envelope \<Rightarrow> event_envelope result" where
  "mk_event_envelope e = construct (\<lambda>e. checks (event_envelope_checks e)) e"

definition event_available_at :: "event_envelope \<Rightarrow> datetime option" where
  "event_available_at e =
     (if ee_time_quality e = ESTIMATED_RESEARCH_ONLY then None
      else if ee_validation_status e \<in> set [Some ''unverified'', Some ''blocked_time_quality'', Some ''rejected''] then None
      else case ee_replay_available_at e of
        Some t \<Rightarrow> Some t
      | None \<Rightarrow> Some (fold max
          (List.map_filter id [ee_source_released_at e, ee_vendor_first_available_at e]) (ee_ingested_at e)))"

definition is_visible_at :: "event_envelope \<Rightarrow> datetime \<Rightarrow> bool" where
  "is_visible_at e clock \<longleftrightarrow> opt_any (\<lambda>t. t \<le> clock) (event_available_at e)"

lemma visible_not_early:
  assumes "is_ok (checks (event_envelope_checks e))" and "is_visible_at e clock"
  shows "none_or (\<lambda>t. t \<le> clock) (ee_source_released_at e) \<and> none_or (\<lambda>t. t \<le> clock) (ee_vendor_first_available_at e)"
  using assms
  by (cases "ee_source_released_at e"; cases "ee_vendor_first_available_at e"; cases "ee_replay_available_at e")
    (auto simp: is_visible_at_def event_available_at_def event_envelope_checks_def result_simps List.map_filter_def
      split: if_splits)

lemma visible_mono: "is_visible_at e s \<Longrightarrow> s \<le> t \<Longrightarrow> is_visible_at e t"
  by (auto simp: is_visible_at_def opt_any_iff)

section \<open>Dataset snapshots\<close>

text \<open>\<open>^[a-z][a-z0-9_-]*:[0-9a-f]{64}$\<close>.\<close>

definition lower_alpha :: "char \<Rightarrow> bool" where
  "lower_alpha c \<longleftrightarrow> (of_char c :: nat) \<in> {97..122}"

definition digit_char :: "char \<Rightarrow> bool" where
  "digit_char c \<longleftrightarrow> (of_char c :: nat) \<in> {48..57}"

definition producer_snapshot_id_ok :: "string \<Rightarrow> bool" where
  "producer_snapshot_id_ok s \<longleftrightarrow>
     (let p = takeWhile (\<lambda>c. c \<noteq> CHR '':'') s; r = drop (length p) s in
      p \<noteq> [] \<and> lower_alpha (hd p) \<and> list_all (\<lambda>c. lower_alpha c \<or> digit_char c \<or> c \<in> set ''_-'') (tl p) \<and>
      length r = 65 \<and> list_all lower_hex (tl r))"

record snapshot_ref =
  sr_snapshot_id :: string
  sr_checksum :: string
  sr_schema_version :: string
  sr_created_at :: datetime
  sr_producer_schema_version :: "string option"
  sr_producer_snapshot_id :: "string option"

definition snapshot_ref_checks :: "snapshot_ref \<Rightarrow> (bool \<times> py_error) list" where
  "snapshot_ref_checks r =
    [(\<not> starts_with ''sha256:'' (sr_checksum r) \<or> length (sr_checksum r) \<noteq> 71,
      DomainValidationError ''checksum must be sha256:<64 lowercase hex digits>''),
     (\<not> list_all lower_hex (removeprefix ''sha256:'' (sr_checksum r)),
      DomainValidationError ''checksum must contain lowercase hexadecimal digits''),
     (sr_schema_version r = [], DomainValidationError ''schema_version cannot be empty''),
     (sr_producer_schema_version r = Some [], DomainValidationError ''producer_schema_version cannot be empty''),
     (opt_any (\<lambda>s. \<not> producer_snapshot_id_ok s) (sr_producer_snapshot_id r),
      DomainValidationError ''producer_snapshot_id must be <provider>:<64 lowercase hex digits>'')]"

definition mk_snapshot_ref :: "snapshot_ref \<Rightarrow> snapshot_ref result" where
  "mk_snapshot_ref r = construct (\<lambda>r. checks (snapshot_ref_checks r)) r"

end
