(* ===== verification/Portfolio.thy ===== *)
theory Portfolio
  imports Orders MarketData
begin

text \<open>
  The immutable portfolio of \<open>ashare_lab/domain/portfolio\<close>: double-entry journal values
  (journal.py), fees, fills, T+1 position lots, corporate-action entitlements and the complete
  state with their constructor checks (models.py).  The transitions that apply fills are in the
  theory Ledger, those of corporate actions in CorporateActions.
\<close>

section \<open>Journal (journal.py)\<close>

datatype posting_side = DEBIT | CREDIT

datatype ledger_account =
    CashAccount | PositionAsset | CommissionExpense | StampTaxExpense | TransferFeeExpense
  | OtherFeeExpense | RealizedPnl | DividendIncome | DividendReceivable

datatype ledger_component =
    CashComponent | Principal | CostBasis | Commission | StampTax | TransferFee | OtherFee
  | RealizedPnlComponent | CashDividendComponent

record posting =
  p_account :: ledger_account
  p_side :: posting_side
  p_amount :: money
  p_component :: ledger_component
  p_instrument_id :: "string option"

definition mk_posting :: "posting \<Rightarrow> posting result" where
  "mk_posting p = construct (\<lambda>p. checks
     [(amount (p_amount p) \<le> 0, PortfolioInvariantError ''posting amount must be greater than zero'')]) p"

record ledger_entry =
  le_fill_id :: string
  le_order_id :: string
  le_occurred_at :: datetime
  le_postings :: "posting list"

definition total_from :: "posting_side \<Rightarrow> posting list \<Rightarrow> money \<Rightarrow> money result" where
  "total_from side ps start =
     fold_res (\<lambda>p total. if p_side p = side then money_add total (p_amount p) else Inr total) ps start"

definition total_for :: "posting_side \<Rightarrow> posting list \<Rightarrow> money result" where
  "total_for side ps =
     (case ps of
        [] \<Rightarrow> Inl IndexError
      | p # _ \<Rightarrow> rbind (money_zero (currency (p_amount p))) (total_from side ps))"

definition ledger_entry_post_init :: "ledger_entry \<Rightarrow> unit result" where
  "ledger_entry_post_init e =
     rbind (checks
       [(length (le_postings e) < 2, PortfolioInvariantError ''ledger entry requires at least two postings''),
        (length (remdups (map (currency \<circ> p_amount) (le_postings e))) \<noteq> 1,
         PortfolioInvariantError ''all postings in a ledger entry must use one currency'')]) (\<lambda>_.
     rbind (total_for DEBIT (le_postings e)) (\<lambda>debit_total.
     rbind (total_for CREDIT (le_postings e)) (\<lambda>credit_total.
       if debit_total \<noteq> credit_total
       then Inl (PortfolioInvariantError ''ledger entry is not balanced: total debits must equal total credits'')
       else Inr ())))"

definition mk_ledger_entry :: "ledger_entry \<Rightarrow> ledger_entry result" where
  "mk_ledger_entry e = construct ledger_entry_post_init e"

definition ledger_entry_currency :: "ledger_entry \<Rightarrow> string result" where
  "ledger_entry_currency e = (case le_postings e of [] \<Rightarrow> Inl IndexError | p # _ \<Rightarrow> Inr (currency (p_amount p)))"

section \<open>Fees and fills (models.py)\<close>

datatype fee_kind = CommissionFee | StampTaxFee | TransferFeeFee | OtherFeeFee

record fee_breakdown =
  fb_commission :: money
  fb_stamp_tax :: money
  fb_transfer_fee :: money
  fb_other :: money

definition fee_items :: "fee_breakdown \<Rightarrow> (fee_kind \<times> money) list" where
  "fee_items f =
     [(CommissionFee, fb_commission f), (StampTaxFee, fb_stamp_tax f),
      (TransferFeeFee, fb_transfer_fee f), (OtherFeeFee, fb_other f)]"

definition fee_breakdown_checks :: "fee_breakdown \<Rightarrow> (bool \<times> py_error) list" where
  "fee_breakdown_checks f =
    [(length (remdups (map (currency \<circ> snd) (fee_items f))) \<noteq> 1,
      PortfolioInvariantError ''all fee components must use one currency''),
     (list_ex (\<lambda>i. amount (snd i) < 0) (fee_items f), PortfolioInvariantError ''fee components cannot be negative'')]"

definition mk_fee_breakdown :: "fee_breakdown \<Rightarrow> fee_breakdown result" where
  "mk_fee_breakdown f = construct (\<lambda>f. checks (fee_breakdown_checks f)) f"

definition fee_zero :: "string \<Rightarrow> fee_breakdown result" where
  "fee_zero c = rbind (money_zero c) (\<lambda>z.
     mk_fee_breakdown \<lparr>fb_commission = z, fb_stamp_tax = z, fb_transfer_fee = z, fb_other = z\<rparr>)"

definition fee_currency :: "fee_breakdown \<Rightarrow> string" where
  "fee_currency f = currency (fb_commission f)"

definition fee_total :: "fee_breakdown \<Rightarrow> money result" where
  "fee_total f =
     rbind (money_add (fb_commission f) (fb_stamp_tax f)) (\<lambda>a.
     rbind (money_add a (fb_transfer_fee f)) (\<lambda>b. money_add b (fb_other f)))"

record fill_record =
  f_fill_id :: string
  f_order_id :: string
  f_instrument_id :: string
  f_side :: order_side
  f_quantity :: int
  f_price :: price
  f_filled_at :: datetime
  f_fees :: fee_breakdown

definition fill_record_checks :: "fill_record \<Rightarrow> (bool \<times> py_error) list" where
  "fill_record_checks f =
    [(f_quantity f \<le> 0, PortfolioInvariantError ''fill quantity must be greater than zero''),
     (fee_currency (f_fees f) \<noteq> currency (f_price f), PortfolioInvariantError ''fill price and fees must use one currency'')]"

definition mk_fill_record :: "fill_record \<Rightarrow> fill_record result" where
  "mk_fill_record f = construct (\<lambda>f. checks (fill_record_checks f)) f"

definition trading_date :: "fill_record \<Rightarrow> date" where
  "trading_date f = shanghai_date (f_filled_at f)"

definition gross_amount :: "fill_record \<Rightarrow> money result" where
  "gross_amount f = money_mul (f_price f) (of_int (f_quantity f))"

section \<open>Position lots (models.py)\<close>

record position_lot =
  l_opened_by_fill_id :: string
  l_instrument_id :: string
  l_acquired_at :: datetime
  l_acquired_on :: date
  l_sellable_on :: date
  l_remaining_quantity :: int
  l_cost_basis :: money
  l_acquisition_principal :: "money option"

definition position_lot_checks :: "position_lot \<Rightarrow> (bool \<times> py_error) list" where
  "position_lot_checks l =
    [(l_acquired_on l \<noteq> shanghai_date (l_acquired_at l),
      PortfolioInvariantError ''acquired_on must match acquired_at in Asia/Shanghai''),
     (l_sellable_on l < l_acquired_on l, PortfolioInvariantError ''sellable_on cannot precede the acquisition date''),
     (l_remaining_quantity l \<le> 0, PortfolioInvariantError ''position lot quantity must be positive''),
     (amount (l_cost_basis l) < 0, PortfolioInvariantError ''position lot cost basis cannot be negative''),
     (opt_any (\<lambda>p. currency p \<noteq> currency (l_cost_basis l) \<or> amount p < 0) (l_acquisition_principal l),
      PortfolioInvariantError ''invalid fee-exclusive acquisition principal'')]"

definition mk_lot :: "position_lot \<Rightarrow> position_lot result" where
  "mk_lot l = construct (\<lambda>l. checks (position_lot_checks l)) l"

definition lot_ok :: "position_lot \<Rightarrow> bool" where
  "lot_ok l \<longleftrightarrow> is_ok (checks (position_lot_checks l))"

lemma mk_lot_Inr [result_simps]: "mk_lot l = Inr m \<longleftrightarrow> l = m \<and> lot_ok l"
  by (simp add: mk_lot_def lot_ok_def result_simps)

lemma lot_ok_iff:
  "lot_ok l \<longleftrightarrow> l_acquired_on l = shanghai_date (l_acquired_at l) \<and> l_acquired_on l \<le> l_sellable_on l \<and>
     0 < l_remaining_quantity l \<and> 0 \<le> amount (l_cost_basis l) \<and>
     (\<forall>p. l_acquisition_principal l = Some p \<longrightarrow> currency p = currency (l_cost_basis l) \<and> 0 \<le> amount p)"
  by (cases "l_acquisition_principal l") (auto simp: lot_ok_def position_lot_checks_def result_simps)

section \<open>Corporate-action entitlements and their ledger (models.py)\<close>

datatype action_phase = ENTITLEMENT | ACCRUAL | SETTLEMENT | DECLINED

datatype entitlement_status = CAPTURED | ACCRUED | SETTLED

record entitlement =
  en_action_id :: string
  en_revision_no :: int
  en_instrument_id :: string
  en_action_type :: action_kind
  en_record_date :: date
  en_ex_date :: date
  en_settlement_date :: date
  en_entitled_quantity :: int
  en_cash_amount :: money
  en_share_delta :: int
  en_share_sellable_date :: "date option"
  en_status :: entitlement_status
  en_captured_at :: datetime
  en_accrued_at :: "datetime option"
  en_settled_at :: "datetime option"
  en_record_lots :: "position_lot list"
  en_share_principals :: "money option list"

definition entitlement_checks :: "entitlement \<Rightarrow> (bool \<times> py_error) list" where
  "entitlement_checks e =
    [(en_revision_no e < 0, PortfolioInvariantError ''corporate-action revision cannot be negative''),
     (\<not> (en_record_date e \<le> en_ex_date e \<and> en_ex_date e \<le> en_settlement_date e),
      PortfolioInvariantError ''corporate-action entitlement dates are inconsistent''),
     (amount (en_cash_amount e) < 0, PortfolioInvariantError ''corporate-action cash entitlement cannot be negative''),
     (en_share_principals e \<noteq> [] \<and>
      (length (en_share_principals e) \<noteq> length (en_record_lots e) \<or>
       list_ex (opt_any (\<lambda>p. amount p < 0 \<or> currency p \<noteq> currency (en_cash_amount e))) (en_share_principals e)),
      PortfolioInvariantError ''bonus principal allocation does not match registration lots''),
     (en_record_lots e \<noteq> [] \<and>
      (list_ex (\<lambda>l. l_instrument_id l \<noteq> en_instrument_id e) (en_record_lots e) \<or>
       sum_list (map l_remaining_quantity (en_record_lots e)) \<noteq> en_entitled_quantity e),
      PortfolioInvariantError ''record-date lots do not match entitlement''),
     (case en_status e of
        CAPTURED \<Rightarrow> (en_accrued_at e \<noteq> None \<or> en_settled_at e \<noteq> None,
          PortfolioInvariantError ''captured entitlement cannot have later clocks'')
      | ACCRUED \<Rightarrow> (en_accrued_at e = None \<or> en_settled_at e \<noteq> None,
          PortfolioInvariantError ''accrued entitlement clocks are inconsistent'')
      | SETTLED \<Rightarrow> (en_accrued_at e = None \<or> en_settled_at e = None,
          PortfolioInvariantError ''settled entitlement requires accrual and settlement clocks''))]"

definition mk_entitlement :: "entitlement \<Rightarrow> entitlement result" where
  "mk_entitlement e = construct (\<lambda>e. checks (entitlement_checks e)) e"

definition entitlement_ok :: "entitlement \<Rightarrow> bool" where
  "entitlement_ok e \<longleftrightarrow> is_ok (checks (entitlement_checks e))"

lemma mk_entitlement_Inr [result_simps]: "mk_entitlement e = Inr e' \<longleftrightarrow> e = e' \<and> entitlement_ok e"
  by (simp add: mk_entitlement_def entitlement_ok_def result_simps)

record action_entry =
  ce_action_id :: string
  ce_revision_no :: int
  ce_instrument_id :: string
  ce_action_type :: action_kind
  ce_phase :: action_phase
  ce_occurred_at :: datetime
  ce_cash_before :: money
  ce_cash_after :: money
  ce_quantity_before :: int
  ce_quantity_after :: int
  ce_position_cost_before :: money
  ce_position_cost_after :: money
  ce_receivable_before :: money
  ce_receivable_after :: money
  ce_share_delta_before :: int
  ce_share_delta_after :: int
  ce_postings :: "posting list"

definition action_entry_checks :: "action_entry \<Rightarrow> (bool \<times> py_error) list" where
  "action_entry_checks e =
    [(ce_revision_no e < 0, PortfolioInvariantError ''corporate-action revision cannot be negative''),
     (length (remdups ([currency (ce_cash_before e), currency (ce_cash_after e),
        currency (ce_position_cost_before e), currency (ce_position_cost_after e),
        currency (ce_receivable_before e), currency (ce_receivable_after e)] @
        map (currency \<circ> p_amount) (ce_postings e))) \<noteq> 1,
      PortfolioInvariantError ''corporate-action ledger currencies must match''),
     (amount (ce_cash_before e) < 0 \<or> amount (ce_cash_after e) < 0,
      PortfolioInvariantError ''corporate-action ledger cash cannot be negative''),
     (ce_position_cost_before e \<noteq> ce_position_cost_after e,
      PortfolioInvariantError ''supported corporate actions must preserve aggregate position cost''),
     (amount (ce_receivable_before e) < 0 \<or> amount (ce_receivable_after e) < 0,
      PortfolioInvariantError ''corporate-action receivable cannot be negative'')]"

definition action_entry_post_init :: "action_entry \<Rightarrow> unit result" where
  "action_entry_post_init e =
     rbind (checks (action_entry_checks e)) (\<lambda>_.
       if ce_postings e = [] then Inr ()
       else
         rbind (money_zero (currency (ce_cash_before e))) (\<lambda>zero.
         rbind (total_from DEBIT (ce_postings e) zero) (\<lambda>debit.
         rbind (total_from CREDIT (ce_postings e) zero) (\<lambda>credit.
           if debit \<noteq> credit then Inl (PortfolioInvariantError ''corporate-action postings must balance'')
           else Inr ()))))"

definition mk_action_entry :: "action_entry \<Rightarrow> action_entry result" where
  "mk_action_entry e = construct action_entry_post_init e"

definition cash_delta :: "action_entry \<Rightarrow> money result" where
  "cash_delta e = money_sub (ce_cash_after e) (ce_cash_before e)"

section \<open>The portfolio state (models.py)\<close>

record portfolio_state =
  ps_cash :: money
  ps_lots :: "position_lot list"
  ps_fills :: "fill_record list"
  ps_ledger_entries :: "ledger_entry list"
  ps_action_entries :: "action_entry list"
  ps_entitlements :: "entitlement list"

definition action_entry_key :: "action_entry \<Rightarrow> string \<times> int \<times> action_phase" where
  "action_entry_key e = (ce_action_id e, ce_revision_no e, ce_phase e)"

definition entitlement_key :: "entitlement \<Rightarrow> string \<times> int" where
  "entitlement_key e = (en_action_id e, en_revision_no e)"

definition portfolio_checks :: "portfolio_state \<Rightarrow> (bool \<times> py_error) list" where
  "portfolio_checks s =
    [(amount (ps_cash s) < 0, PortfolioInvariantError ''portfolio cash cannot be negative''),
     (\<not> distinct (map l_opened_by_fill_id (ps_lots s)), PortfolioInvariantError ''open position lot ids must be unique''),
     (\<not> distinct (map f_fill_id (ps_fills s)), PortfolioInvariantError ''applied fill ids must be unique''),
     (map le_fill_id (ps_ledger_entries s) \<noteq> map f_fill_id (ps_fills s),
      PortfolioInvariantError ''each applied fill must have one ledger entry in the same order''),
     (list_ex (\<lambda>l. currency (l_cost_basis l) \<noteq> currency (ps_cash s)) (ps_lots s),
      PortfolioInvariantError ''cash and position lots must use one currency''),
     (list_ex (\<lambda>f. currency (f_price f) \<noteq> currency (ps_cash s)) (ps_fills s),
      PortfolioInvariantError ''cash and fills must use one currency''),
     (list_ex (\<lambda>e. ledger_entry_currency e \<noteq> Inr (currency (ps_cash s))) (ps_ledger_entries s),
      PortfolioInvariantError ''cash and ledger must use one currency''),
     (\<not> distinct (map action_entry_key (ps_action_entries s)),
      PortfolioInvariantError ''corporate-action ledger keys must be unique''),
     (list_ex (\<lambda>e. currency (ce_cash_before e) \<noteq> currency (ps_cash s)) (ps_action_entries s),
      PortfolioInvariantError ''cash and corporate-action ledger must use one currency''),
     (\<not> distinct (map entitlement_key (ps_entitlements s)),
      PortfolioInvariantError ''corporate-action entitlements must be unique''),
     (list_ex (\<lambda>e. currency (en_cash_amount e) \<noteq> currency (ps_cash s)) (ps_entitlements s),
      PortfolioInvariantError ''cash and corporate-action entitlements must match'')]"

definition mk_portfolio :: "portfolio_state \<Rightarrow> portfolio_state result" where
  "mk_portfolio s = construct (\<lambda>s. checks (portfolio_checks s)) s"

text \<open>
  A state its constructor accepts, made of values their constructors accept: the lots and the
  entitlements inside it were themselves constructed.
\<close>

definition portfolio_ok :: "portfolio_state \<Rightarrow> bool" where
  "portfolio_ok s \<longleftrightarrow>
     is_ok (checks (portfolio_checks s)) \<and> currency_ok (currency (ps_cash s)) \<and>
     list_all lot_ok (ps_lots s) \<and> list_all entitlement_ok (ps_entitlements s)"

lemma mk_portfolio_Inr [result_simps]:
  "mk_portfolio s = Inr t \<longleftrightarrow> s = t \<and> is_ok (checks (portfolio_checks s))"
  by (simp add: mk_portfolio_def result_simps)

definition applied_fill_ids :: "portfolio_state \<Rightarrow> string set" where
  "applied_fill_ids s =
     set (map f_fill_id (ps_fills s)) \<union> set (map l_opened_by_fill_id (ps_lots s)) \<union>
     set (map le_fill_id (ps_ledger_entries s))"

definition applied_action_phases :: "portfolio_state \<Rightarrow> (string \<times> int \<times> action_phase) set" where
  "applied_action_phases s = set (map action_entry_key (ps_action_entries s))"

text \<open>\<open>_dividend_receivable\<close> and the property of the same name, with an optional instrument filter.\<close>

definition dividend_receivable_of :: "entitlement list \<Rightarrow> string option \<Rightarrow> string \<Rightarrow> money result" where
  "dividend_receivable_of es instrument c =
     rbind (money_zero c) (fold_res (\<lambda>e total.
       if none_or (\<lambda>i. en_instrument_id e = i) instrument \<and> en_status e = ACCRUED
       then money_add total (en_cash_amount e) else Inr total) es)"

definition dividend_receivable :: "portfolio_state \<Rightarrow> string option \<Rightarrow> money result" where
  "dividend_receivable s instrument = dividend_receivable_of (ps_entitlements s) instrument (currency (ps_cash s))"

definition pending_share_delta_of :: "entitlement list \<Rightarrow> string \<Rightarrow> int" where
  "pending_share_delta_of es instrument =
     sum_list (map en_share_delta (filter (\<lambda>e. en_instrument_id e = instrument \<and> en_status e = ACCRUED) es))"

definition pending_share_delta :: "portfolio_state \<Rightarrow> string \<Rightarrow> int" where
  "pending_share_delta s instrument = pending_share_delta_of (ps_entitlements s) instrument"

definition share_receivable_quantity :: "portfolio_state \<Rightarrow> string \<Rightarrow> int" where
  "share_receivable_quantity s instrument = max 0 (pending_share_delta s instrument)"

text \<open>
  The quantities of lots are \<open>Quantity\<close> values, so the sums below are non-negative and the
  source's \<open>Quantity(sum(...))\<close> never raises.
\<close>

definition position_quantity_of :: "position_lot list \<Rightarrow> string \<Rightarrow> int" where
  "position_quantity_of ls instrument =
     sum_list (map l_remaining_quantity (filter (\<lambda>l. l_instrument_id l = instrument) ls))"

definition position_quantity :: "portfolio_state \<Rightarrow> string \<Rightarrow> int" where
  "position_quantity s instrument = position_quantity_of (ps_lots s) instrument"

definition sellable_quantity :: "portfolio_state \<Rightarrow> string \<Rightarrow> date \<Rightarrow> int" where
  "sellable_quantity s instrument day =
     sum_list (map l_remaining_quantity
       (filter (\<lambda>l. l_instrument_id l = instrument \<and> l_sellable_on l \<le> day) (ps_lots s)))"

definition position_cost_of :: "position_lot list \<Rightarrow> string \<Rightarrow> string \<Rightarrow> money result" where
  "position_cost_of ls instrument c =
     rbind (money_zero c) (fold_res (\<lambda>l total.
       if l_instrument_id l = instrument then money_add total (l_cost_basis l) else Inr total) ls)"

definition position_cost :: "portfolio_state \<Rightarrow> string \<Rightarrow> money result" where
  "position_cost s instrument = position_cost_of (ps_lots s) instrument (currency (ps_cash s))"

definition pending_share_principal :: "portfolio_state \<Rightarrow> string \<Rightarrow> rat result" where
  "pending_share_principal s instrument =
     fold_res (\<lambda>e total.
       if en_instrument_id e = instrument \<and> en_status e = ACCRUED
       then fold_res (\<lambda>p t. case p of
                None \<Rightarrow> Inl (PortfolioInvariantError ''pending share principal provenance missing'')
              | Some m \<Rightarrow> Inr (dec_add t (amount m))) (en_share_principals e) total
       else Inr total) (ps_entitlements s) 0"

end
