(* ===== verification/Rounding.thy ===== *)
theory Rounding
  imports Decimals
begin

text \<open>
  When rounded decimal arithmetic is exact: values with at most 28 digits, differences and
  complements of such values, and the pro-rata split \<open>cost * part / whole\<close> the ledger uses.
\<close>

section \<open>Representable values\<close>

definition representable :: "rat \<Rightarrow> bool" where
  "representable x \<longleftrightarrow> ctx x = x"

lemma representable_0 [simp]: "representable 0"
  by (simp add: representable_def)

lemma representable_on_grid: "on_grid k x \<Longrightarrow> \<bar>x\<bar> * 10 ^ k < 10 ^ 28 \<Longrightarrow> representable x"
  by (simp add: representable_def ctx_on_grid)

lemma ctx_grid_diff:
  assumes "on_grid k a" "on_grid k b" "0 \<le> b" "b \<le> a" "a * 10 ^ k < 10 ^ 28"
  shows "ctx (a - b) = a - b"
proof -
  have "(a - b) * 10 ^ k \<le> a * 10 ^ k" using assms(3) by (intro mult_right_mono) auto
  then have "(a - b) * 10 ^ k < 10 ^ 28" using assms(5) by (rule le_less_trans)
  then show ?thesis using assms by (intro ctx_on_grid [of k]) (simp_all add: on_grid_diff)
qed

lemma powi10_add_nat: "(10::rat) powi (e + int n) = 10 powi e * 10 ^ n"
  by (simp add: power_int_add)

lemma representable_ctx [simp]: "representable (ctx x)"
proof (cases "x = 0")
  case True
  then show ?thesis by simp
next
  case False
  define u :: rat where "u = 10 powi (adjusted x - 27)"
  define c where "c = round_half_even (x / u)"
  have cx: "ctx x = of_int c * u" using False by (simp add: ctx_def Let_def u_def c_def)
  have u: "0 < u" by (simp add: u_def)
  have "\<bar>ctx x\<bar> \<le> 10 powi (adjusted x + 1)"
  proof (cases "0 < x")
    case True
    then show ?thesis using ctx_pos_bounds [of x] by simp
  next
    case neg: False
    then have "0 < - x" using False by simp
    then have "ctx (- x) \<le> 10 powi (adjusted x + 1)" "0 \<le> ctx (- x)"
      using ctx_pos_bounds [of "- x"] by (simp_all add: ctx_nonneg)
    then show ?thesis by (simp add: ctx_minus)
  qed
  also have "\<dots> = 10 ^ 28 * u" by (simp add: u_def power_int_diff power_int_add)
  finally have "of_int \<bar>c\<bar> * u \<le> of_int (10 ^ 28) * u" using u by (simp add: cx abs_mult)
  then have "of_int \<bar>c\<bar> \<le> (of_int (10 ^ 28) :: rat)" using u by (simp only: mult_le_cancel_right_pos)
  then have cb: "\<bar>c\<bar> \<le> 10 ^ 28" by (simp only: of_int_le_iff)
  show ?thesis
  proof (cases "\<bar>c\<bar> < 10 ^ 28")
    case True
    then show ?thesis unfolding representable_def by (intro ctx_exact [of _ c "adjusted x - 27"]) (auto simp: cx u_def)
  next
    case False
    with cb have "\<bar>c\<bar> = 10 ^ 28" by simp
    then have "c = sgn c * 10 ^ 28" by (metis mult_sgn_abs)
    then have "ctx x = of_int (sgn c * 10 ^ 28) * u" using cx by metis
    also have "\<dots> = of_int (sgn c) * 10 powi (adjusted x + 1)"
      by (simp add: u_def power_int_diff power_int_add)
    finally show ?thesis unfolding representable_def by (intro ctx_exact [of _ "sgn c" "adjusted x + 1"]) (auto simp: sgn_if)
  qed
qed

lemma ctx_idem [simp]: "ctx (ctx x) = ctx x"
  using representable_ctx [of x] by (simp add: representable_def)

text \<open>A representable value is a multiple of the unit in its last place.\<close>

lemma representable_unit:
  assumes "representable x" and "x \<noteq> 0"
  shows "\<exists>c. x = of_int c * 10 powi (adjusted x - 27)"
proof -
  have "x = of_int (round_half_even (x / 10 powi (adjusted x - 27))) * 10 powi (adjusted x - 27)"
    using assms by (simp add: representable_def ctx_def Let_def)
  then show ?thesis by blast
qed

section \<open>Rounding to a near multiple\<close>

lemma round_half_even_near:
  assumes "even c" and "\<bar>y - of_int c\<bar> \<le> 1 / 2"
  shows "round_half_even y = c"
proof -
  have b: "of_int c - 1 / 2 \<le> y" "y \<le> of_int c + 1 / 2" using assms(2) by linarith+
  consider "y < of_int c" | "of_int c \<le> y" by linarith
  then show ?thesis
  proof cases
    case 1
    then have "\<lfloor>y\<rfloor> = c - 1" using b by (intro floor_unique) auto
    then show ?thesis using b assms(1) by (auto simp: round_half_even_def Let_def not_less)
  next
    case 2
    then have "\<lfloor>y\<rfloor> = c" using b by (intro floor_unique) auto
    then show ?thesis using b assms(1) by (auto simp: round_half_even_def Let_def)
  qed
qed

lemma ctx_near:
  assumes x: "x \<noteq> 0" and u: "u = 10 powi (adjusted x - 27)" and "even c" and n: "\<bar>x - of_int c * u\<bar> \<le> u / 2"
  shows "ctx x = of_int c * u"
proof -
  have up: "0 < u" by (simp add: u)
  have "\<bar>x / u - of_int c\<bar> = \<bar>x - of_int c * u\<bar> / u" using up by (simp add: field_simps abs_divide)
  also have "\<dots> \<le> (u / 2) / u" using n up by (intro divide_right_mono) auto
  finally have "\<bar>x / u - of_int c\<bar> \<le> 1 / 2" using up by simp
  then have "round_half_even (x / u) = c" using assms(3) by (intro round_half_even_near)
  then show ?thesis using x by (simp add: ctx_def Let_def flip: u)
qed

lemma on_grid_unit:
  assumes g: "on_grid k g" "0 < g" "g * 10 ^ k < 10 ^ 27" and e: "e \<le> adjusted g - 27"
  shows "\<exists>c. even c \<and> g = of_int c * 10 powi e"
proof -
  from g(1) obtain n where n: "g = of_int n / 10 ^ k" by (auto simp: on_grid_iff)
  have "(10::rat) powi adjusted g \<le> g" using adjusted_bounds [of g] g(2) by simp
  also have "g = (g * 10 ^ k) * 10 powi (- int k)" by (simp add: power_int_minus divide_inverse)
  also have "\<dots> < 10 ^ 27 * 10 powi (- int k)" using g(3) by (intro mult_strict_right_mono) auto
  also have "\<dots> = 10 powi (27 - int k)" by (simp add: power_int_diff power_int_minus divide_inverse)
  finally have "adjusted g < 27 - int k" by (simp add: powi10_less_iff)
  with e have d: "0 < - int k - e" by linarith
  have "g = of_int n * 10 powi (- int k)" by (simp add: n power_int_minus divide_inverse)
  also have "\<dots> = of_int n * (10 powi e * 10 powi (- int k - e))" by (simp flip: power_int_add)
  also have "10 powi (- int k - e) = (of_int (10 ^ nat (- int k - e)) :: rat)" using d by (simp add: power_int_def)
  finally have "g = of_int (n * 10 ^ nat (- int k - e)) * 10 powi e" by simp
  moreover have "even (n * 10 ^ nat (- int k - e))" using d by simp
  ultimately show ?thesis by blast
qed

text \<open>
  The complement of a part: a total \<open>g\<close> of at most 27 digits is recovered from any part \<open>a\<close> and
  the rounded rest, however many digits \<open>a\<close> has.
\<close>

lemma ctx_complement:
  assumes g: "on_grid k g" "g * 10 ^ k < 10 ^ 27" and a: "0 < a" "a < g"
  shows "ctx (a + ctx (g - a)) = g"
proof -
  define d where "d = g - a"
  define x where "x = a + ctx d"
  have d: "0 < d" "d < g" using a by (auto simp: d_def)
  have gp: "0 < g" using a by linarith
  have xp: "0 < x" using a d by (simp add: x_def add_pos_pos)
  have "\<bar>ctx d - d\<bar> \<le> 10 powi (adjusted d - 27) / 2" using d by (intro ctx_error) auto
  moreover have "x - g = ctx d - d" by (simp add: x_def d_def)
  ultimately have near: "\<bar>x - g\<bar> \<le> 10 powi (adjusted d - 27) / 2" by (simp only:)
  have adg: "adjusted d \<le> adjusted g" using d by (intro adjusted_mono) auto
  have gb: "10 powi adjusted g \<le> g" "g < 10 powi (adjusted g + 1)" using adjusted_bounds [of g] gp by auto
  obtain c where c: "even c" "g = of_int c * 10 powi (adjusted g - 27)"
    using on_grid_unit [OF g(1) gp g(2), of "adjusted g - 27"] by auto
  show ?thesis
  proof (cases "10 powi adjusted g \<le> x")
    case True
    define u :: rat where "u = 10 powi (adjusted g - 27)"
    have u: "0 < u" by (simp add: u_def)
    have uu: "10 powi (adjusted g + 1) = of_int (10 ^ 28) * u" by (simp add: u_def power_int_diff power_int_add)
    have cu: "g = of_int c * u" using c(2) by (simp add: u_def)
    have "of_int c * u < of_int (10 ^ 28) * u" using gb(2) unfolding uu cu [symmetric] .
    then have "c < 10 ^ 28" using u by (simp only: mult_less_cancel_right_pos of_int_less_iff)
    then have "of_int (c + 1) * u \<le> of_int (10 ^ 28) * u"
      using u by (intro mult_right_mono) (simp_all only: of_int_le_iff zless_imp_add1_zle less_imp_le)
    then have "of_int c * u + u \<le> 10 powi (adjusted g + 1)" unfolding uu by (simp add: algebra_simps)
    then have "g + u \<le> 10 powi (adjusted g + 1)" unfolding cu [symmetric] .
    moreover have nu: "\<bar>x - g\<bar> \<le> u / 2" using near powi10_mono [of "adjusted d - 27" "adjusted g - 27"] adg by (simp add: u_def)
    ultimately have "x < 10 powi (adjusted g + 1)" using u by linarith
    then have "adjusted x = adjusted g" using True xp by (intro adjusted_unique) auto
    then have ux: "u = 10 powi (adjusted x - 27)" by (simp add: u_def)
    have "\<bar>x - of_int c * u\<bar> \<le> u / 2" using nu unfolding cu [symmetric] .
    then have "ctx x = of_int c * u"
      using xp c(1) ux by (intro ctx_near) auto
    then show ?thesis unfolding cu [symmetric] by (simp add: x_def d_def)
  next
    case False
    have "adjusted d < adjusted g"
    proof (rule ccontr)
      assume "\<not> adjusted d < adjusted g"
      then have "adjusted d = adjusted g" using adg by simp
      then have "10 powi adjusted g \<le> ctx d" using ctx_pos_bounds [of d] d by simp
      then show False using False a by (simp add: x_def)
    qed
    define u :: rat where "u = 10 powi (adjusted g - 28)"
    have u: "0 < u" by (simp add: u_def)
    have nu: "\<bar>x - g\<bar> \<le> u / 2"
      using near powi10_mono [of "adjusted d - 27" "adjusted g - 28"] \<open>adjusted d < adjusted g\<close> by (simp add: u_def)
    have e1: "10 powi adjusted g = of_int (10 ^ 28) * u" "10 powi (adjusted g - 1) = of_int (10 ^ 27) * u"
      by (simp_all add: u_def power_int_diff)
    have "g - u / 2 \<le> x" using nu by linarith
    then have "10 powi (adjusted g - 1) \<le> x" using gb(1) u unfolding e1 by simp
    moreover have "x < 10 powi (adjusted g - 1 + 1)" using False by simp
    ultimately have ax: "adjusted x = adjusted g - 1" using xp by (intro adjusted_unique) auto
    obtain b where b: "even b" "g = of_int b * u"
      using on_grid_unit [OF g(1) gp g(2), of "adjusted g - 28"] by (auto simp: u_def)
    have "ctx x = of_int b * u" using xp b nu by (intro ctx_near) (auto simp: ax u_def)
    then show ?thesis unfolding b(2) [symmetric] by (simp add: x_def d_def)
  qed
qed

text \<open>What a representable amount exceeds a grid value by is exact.\<close>

lemma ctx_excess:
  assumes g: "on_grid k g" "0 \<le> g" "g \<le> a" and a: "representable a" "a * 10 ^ k < 10 ^ 27"
  shows "ctx (a - g) = a - g"
proof (cases "a = 0")
  case True
  then show ?thesis using g by simp
next
  case False
  then have ap: "0 < a" using g by linarith
  define u :: rat where "u = 10 powi (adjusted a - 27)"
  have u: "0 < u" by (simp add: u_def)
  obtain c where c: "a = of_int c * u" using representable_unit [OF a(1)] False by (auto simp: u_def)
  from g(1) obtain n where n: "g = of_int n / 10 ^ k" by (auto simp: on_grid_iff)
  have "(10::rat) powi adjusted a \<le> a" using adjusted_bounds [of a] ap by simp
  also have "a = (a * 10 ^ k) * 10 powi (- int k)" by (simp add: power_int_minus divide_inverse)
  also have "\<dots> < 10 ^ 27 * 10 powi (- int k)" using a(2) by (intro mult_strict_right_mono) auto
  also have "\<dots> = 10 powi (27 - int k)" by (simp add: power_int_diff power_int_minus divide_inverse)
  finally have "adjusted a < 27 - int k" by (simp add: powi10_less_iff)
  then have d: "0 \<le> - int k - (adjusted a - 27)" by linarith
  have "g = of_int n * 10 powi (- int k)" by (simp add: n power_int_minus divide_inverse)
  also have "\<dots> = of_int n * (u * 10 powi (- int k - (adjusted a - 27)))" by (simp add: u_def flip: power_int_add)
  also have "10 powi (- int k - (adjusted a - 27)) = (of_int (10 ^ nat (- int k - (adjusted a - 27))) :: rat)"
    using d by (simp add: power_int_def)
  finally have gu: "g = of_int (n * 10 ^ nat (- int k - (adjusted a - 27))) * u" by simp
  define m where "m = n * 10 ^ nat (- int k - (adjusted a - 27))"
  have e: "a - g = of_int (c - m) * u" by (simp add: c gu m_def algebra_simps)
  have "a < of_int (10 ^ 28) * u"
    using adjusted_bounds [OF False] ap by (simp add: u_def power_int_diff power_int_add)
  then have "of_int (c - m) * u < of_int (10 ^ 28) * u" using e g by linarith
  moreover have "0 \<le> of_int (c - m) * u" using e g by linarith
  ultimately have "c - m < 10 ^ 28" "0 \<le> c - m"
    using u by (simp_all only: mult_less_cancel_right_pos of_int_less_iff zero_le_mult_iff of_int_0_le_iff) auto
  then show ?thesis using e by (intro ctx_exact [of _ "c - m" "adjusted a - 27"]) (auto simp: u_def)
qed

lemma on_grid_mult: "on_grid k x \<Longrightarrow> on_grid j y \<Longrightarrow> on_grid (k + j) (x * y)"
  unfolding on_grid_iff by (metis of_int_mult power_add times_divide_times_eq)

section \<open>Pro-rata parts\<close>

lemma ctx_le_relative:
  assumes "0 \<le> x"
  shows "ctx x \<le> x + x / 10 ^ 27"
proof (cases "x = 0")
  case False
  then have "10 powi adjusted x \<le> x" using adjusted_bounds [of x] assms by simp
  then have "10 powi (adjusted x - 27) \<le> x / 10 ^ 27" by (simp add: power_int_diff divide_right_mono)
  moreover have "\<bar>ctx x - x\<bar> \<le> 10 powi (adjusted x - 27) / 2" using False by (rule ctx_error)
  moreover have "0 \<le> x / 10 ^ 27" using assms by simp
  ultimately show ?thesis by linarith
qed simp

lemma pro_rata_bounds:
  assumes c: "representable c" "0 \<le> c" and n: "0 < n" "n < w" "n < 10 ^ 27"
  shows "0 \<le> ctx (ctx (c * of_int n) / of_int w)" "ctx (ctx (c * of_int n) / of_int w) \<le> c"
proof -
  have cn: "0 \<le> c * of_int n" using c n by simp
  have w: "0 < (of_int w :: rat)" using n by simp
  show "0 \<le> ctx (ctx (c * of_int n) / of_int w)" using cn w by simp
  have n1: "of_int n \<le> (10 ^ 27 :: rat)" using n(3) by (metis of_int_le_iff of_int_numeral of_int_power order_less_imp_le)
  have "of_int n + of_int n / 10 ^ 27 \<le> (of_int n + 1 :: rat)" using n1 by simp
  also have "\<dots> \<le> of_int w" using n(2) by (metis of_int_1 of_int_add of_int_le_iff zless_imp_add1_zle)
  finally have "c * (of_int n + of_int n / 10 ^ 27) \<le> c * of_int w" using c(2) by (rule mult_left_mono)
  moreover have "ctx (c * of_int n) \<le> c * of_int n + c * of_int n / 10 ^ 27" using cn by (rule ctx_le_relative)
  ultimately have "ctx (c * of_int n) \<le> c * of_int w" by (simp add: algebra_simps)
  then have "ctx (c * of_int n) / of_int w \<le> c" using w by (simp add: pos_divide_le_eq)
  then show "ctx (ctx (c * of_int n) / of_int w) \<le> c" using ctx_mono [of _ c] c(1) by (simp add: representable_def)
qed

end
