(* ===== verification/Ledger.thy ===== *)
theory Ledger
  imports Portfolio Rounding "HOL-Library.Multiset"
begin

text \<open>
  The pure transitions that apply an executed fill to the portfolio
  (\<open>ashare_lab/domain/portfolio/ledger.py\<close>): \<open>apply_buy\<close> opens a T+1 lot, \<open>apply_sell\<close> consumes
  eligible lots first in, first out; both write a balanced journal entry.  The lemmas show what
  each leaves of cash, quantity and lots, and when the journal check passes.
\<close>

section \<open>Postings\<close>

fun fee_component :: "fee_kind \<Rightarrow> ledger_component" where
  "fee_component CommissionFee = Commission"
| "fee_component StampTaxFee = StampTax"
| "fee_component TransferFeeFee = TransferFee"
| "fee_component OtherFeeFee = OtherFee"

fun fee_expense_account :: "fee_kind \<Rightarrow> ledger_account" where
  "fee_expense_account CommissionFee = CommissionExpense"
| "fee_expense_account StampTaxFee = StampTaxExpense"
| "fee_expense_account TransferFeeFee = TransferFeeExpense"
| "fee_expense_account OtherFeeFee = OtherFeeExpense"

definition capitalized_fee_postings :: "fill_record \<Rightarrow> posting list result" where
  "capitalized_fee_postings f =
     map_res (\<lambda>(kind, m). mk_posting \<lparr>p_account = PositionAsset, p_side = DEBIT, p_amount = m,
         p_component = fee_component kind, p_instrument_id = Some (f_instrument_id f)\<rparr>)
       (filter (\<lambda>(kind, m). amount m > 0) (fee_items (f_fees f)))"

definition expense_fee_postings :: "fee_breakdown \<Rightarrow> string \<Rightarrow> posting list result" where
  "expense_fee_postings fees instrument =
     map_res (\<lambda>(kind, m). mk_posting \<lparr>p_account = fee_expense_account kind, p_side = DEBIT, p_amount = m,
         p_component = fee_component kind, p_instrument_id = Some instrument\<rparr>)
       (filter (\<lambda>(kind, m). amount m > 0) (fee_items fees))"

fun opposite_side :: "posting_side \<Rightarrow> posting_side" where
  "opposite_side DEBIT = CREDIT"
| "opposite_side CREDIT = DEBIT"

text \<open>\<open>_append_signed_posting\<close>: the postings it appends, none for an amount of zero.\<close>

definition signed_posting ::
  "money \<Rightarrow> posting_side \<Rightarrow> ledger_account \<Rightarrow> ledger_component \<Rightarrow> string option \<Rightarrow> posting list result" where
  "signed_posting m positive_side account component instrument =
     (if amount m = 0 then Inr []
      else if amount m < 0 then
        rbind (mk_money (dec_neg (amount m)) (currency m)) (\<lambda>neg.
        rbind (mk_posting \<lparr>p_account = account, p_side = opposite_side positive_side, p_amount = neg,
                 p_component = component, p_instrument_id = instrument\<rparr>) (\<lambda>p. Inr [p]))
      else
        rbind (mk_posting \<lparr>p_account = account, p_side = positive_side, p_amount = m,
                 p_component = component, p_instrument_id = instrument\<rparr>) (\<lambda>p. Inr [p]))"

definition buy_entry :: "fill_record \<Rightarrow> ledger_entry result" where
  "buy_entry f =
     rbind (gross_amount f) (\<lambda>gross.
     rbind (mk_posting \<lparr>p_account = PositionAsset, p_side = DEBIT, p_amount = gross,
              p_component = Principal, p_instrument_id = Some (f_instrument_id f)\<rparr>) (\<lambda>principal.
     rbind (capitalized_fee_postings f) (\<lambda>fees.
     rbind (fee_total (f_fees f)) (\<lambda>total.
     rbind (money_add gross total) (\<lambda>paid.
     rbind (mk_posting \<lparr>p_account = CashAccount, p_side = CREDIT, p_amount = paid,
              p_component = CashComponent, p_instrument_id = None\<rparr>) (\<lambda>cash.
       mk_ledger_entry \<lparr>le_fill_id = f_fill_id f, le_order_id = f_order_id f,
         le_occurred_at = f_filled_at f, le_postings = principal # fees @ [cash]\<rparr>))))))"

definition sell_entry :: "fill_record \<Rightarrow> money \<Rightarrow> ledger_entry result" where
  "sell_entry f sold_cost =
     rbind (gross_amount f) (\<lambda>gross.
     rbind (fee_total (f_fees f)) (\<lambda>total.
     rbind (money_sub gross total) (\<lambda>delta.
     rbind (signed_posting delta DEBIT CashAccount CashComponent None) (\<lambda>cash.
     rbind (expense_fee_postings (f_fees f) (f_instrument_id f)) (\<lambda>fees.
     rbind (mk_posting \<lparr>p_account = PositionAsset, p_side = CREDIT, p_amount = sold_cost,
              p_component = CostBasis, p_instrument_id = Some (f_instrument_id f)\<rparr>) (\<lambda>asset.
     rbind (money_sub gross sold_cost) (\<lambda>realized.
     rbind (signed_posting realized CREDIT RealizedPnl RealizedPnlComponent (Some (f_instrument_id f))) (\<lambda>pnl.
       mk_ledger_entry \<lparr>le_fill_id = f_fill_id f, le_order_id = f_order_id f,
         le_occurred_at = f_filled_at f, le_postings = cash @ fees @ asset # pnl\<rparr>))))))))"

section \<open>Applying fills\<close>

definition require_fill :: "portfolio_state \<Rightarrow> fill_record \<Rightarrow> order_side \<Rightarrow> unit result" where
  "require_fill s f expected = checks
     [(f_side f \<noteq> expected, InvalidFillSideError),
      (f_fill_id f \<in> applied_fill_ids s, DuplicateFillError),
      (currency (f_price f) \<noteq> currency (ps_cash s),
       PortfolioInvariantError ''fill and portfolio cash currencies must match'')]"

definition apply_buy :: "portfolio_state \<Rightarrow> fill_record \<Rightarrow> date \<Rightarrow> portfolio_state result" where
  "apply_buy s f sellable_on =
     rbind (require_fill s f BUY) (\<lambda>_.
     if sellable_on \<le> trading_date f
     then Inl (PortfolioInvariantError ''A-share buy lot must become sellable after its trading date'')
     else
     rbind (gross_amount f) (\<lambda>gross.
     rbind (fee_total (f_fees f)) (\<lambda>fees.
     rbind (money_add gross fees) (\<lambda>acquisition_cost.
     if amount (ps_cash s) < amount acquisition_cost then Inl InsufficientCashError
     else
     rbind (mk_lot \<lparr>l_opened_by_fill_id = f_fill_id f, l_instrument_id = f_instrument_id f,
              l_acquired_at = f_filled_at f, l_acquired_on = trading_date f, l_sellable_on = sellable_on,
              l_remaining_quantity = f_quantity f, l_cost_basis = acquisition_cost,
              l_acquisition_principal = Some gross\<rparr>) (\<lambda>lot.
     rbind (buy_entry f) (\<lambda>entry.
     rbind (money_sub (ps_cash s) acquisition_cost) (\<lambda>cash.
       mk_portfolio \<lparr>ps_cash = cash, ps_lots = ps_lots s @ [lot], ps_fills = ps_fills s @ [f],
         ps_ledger_entries = ps_ledger_entries s @ [entry], ps_action_entries = ps_action_entries s,
         ps_entitlements = ps_entitlements s\<rparr>)))))))"

text \<open>
  The FIFO consumption of \<open>apply_sell\<close>: the eligible lots with their index, ordered by
  acquisition instant, opening fill and index; the loop state is what is left to sell, the
  replacements by index (\<open>None\<close> for a lot sold completely) and the cost of what was sold.
\<close>

definition eligible_lots :: "portfolio_state \<Rightarrow> fill_record \<Rightarrow> (nat \<times> position_lot) list" where
  "eligible_lots s f =
     sort_key (\<lambda>(i, l). (l_acquired_at l, l_opened_by_fill_id l, i))
       (filter (\<lambda>(i, l). l_instrument_id l = f_instrument_id f \<and> l_sellable_on l \<le> trading_date f)
         (List.enumerate 0 (ps_lots s)))"

record sale =
  sl_remaining :: int
  sl_replacements :: "nat \<rightharpoonup> position_lot option"
  sl_sold_cost :: money

definition sell_part_of_lot :: "position_lot \<Rightarrow> int \<Rightarrow> (money \<times> position_lot) result" where
  "sell_part_of_lot l consumed =
     rbind (dec_div (dec_mul (amount (l_cost_basis l)) (of_int consumed)) (of_int (l_remaining_quantity l))) (\<lambda>a.
     rbind (mk_money a (currency (l_cost_basis l))) (\<lambda>allocated.
     rbind (mk_quantity (l_remaining_quantity l - consumed)) (\<lambda>left.
     rbind (money_sub (l_cost_basis l) allocated) (\<lambda>basis.
     rbind (case l_acquisition_principal l of
              None \<Rightarrow> Inr None
            | Some p \<Rightarrow>
                rbind (dec_div (dec_mul (amount p) (of_int left)) (of_int (l_remaining_quantity l))) (\<lambda>q.
                rbind (mk_money q (currency p)) (\<lambda>m. Inr (Some m)))) (\<lambda>principal.
     rbind (mk_lot (l\<lparr>l_remaining_quantity := left, l_cost_basis := basis, l_acquisition_principal := principal\<rparr>))
       (\<lambda>lot. Inr (allocated, lot)))))))"

definition consume_lot :: "nat \<times> position_lot \<Rightarrow> sale \<Rightarrow> sale result" where
  "consume_lot il w =
     (let i = fst il; l = snd il; consumed = min (sl_remaining w) (l_remaining_quantity l) in
      if sl_remaining w = 0 then Inr w
      else
        rbind (if consumed = l_remaining_quantity l then Inr (l_cost_basis l, None)
               else rbind (sell_part_of_lot l consumed) (\<lambda>(c, l'). Inr (c, Some l'))) (\<lambda>(allocated, replacement).
        rbind (money_add (sl_sold_cost w) allocated) (\<lambda>cost.
          Inr \<lparr>sl_remaining = sl_remaining w - consumed,
               sl_replacements = (sl_replacements w)(i \<mapsto> replacement), sl_sold_cost = cost\<rparr>)))"

definition surviving_lots :: "position_lot list \<Rightarrow> (nat \<rightharpoonup> position_lot option) \<Rightarrow> position_lot list" where
  "surviving_lots ls r =
     List.map_filter (\<lambda>(i, l). case r i of None \<Rightarrow> Some l | Some replacement \<Rightarrow> replacement) (List.enumerate 0 ls)"

definition apply_sell :: "portfolio_state \<Rightarrow> fill_record \<Rightarrow> portfolio_state result" where
  "apply_sell s f =
     rbind (require_fill s f SELL) (\<lambda>_.
     let eligible = eligible_lots s f;
         sellable = sum_list (map (l_remaining_quantity \<circ> snd) eligible)
     in if f_quantity f > sellable then Inl InsufficientSellableQuantityError
     else
     rbind (money_zero (currency (ps_cash s))) (\<lambda>zero.
     rbind (fold_res consume_lot eligible
              \<lparr>sl_remaining = f_quantity f, sl_replacements = Map.empty, sl_sold_cost = zero\<rparr>) (\<lambda>w.
     let lots = surviving_lots (ps_lots s) (sl_replacements w) in
     rbind (gross_amount f) (\<lambda>gross.
     rbind (fee_total (f_fees f)) (\<lambda>fees.
     rbind (money_add (ps_cash s) gross) (\<lambda>proceeds.
     rbind (money_sub proceeds fees) (\<lambda>cash_after.
     if amount cash_after < 0 then Inl InsufficientCashError
     else
     rbind (sell_entry f (sl_sold_cost w)) (\<lambda>entry.
       mk_portfolio \<lparr>ps_cash = cash_after, ps_lots = lots, ps_fills = ps_fills s @ [f],
         ps_ledger_entries = ps_ledger_entries s @ [entry], ps_action_entries = ps_action_entries s,
         ps_entitlements = ps_entitlements s\<rparr>))))))))"

section \<open>Journal totals\<close>

text \<open>Sums as the source forms them: each addition rounded to the decimal context.\<close>

definition ctx_sum :: "rat \<Rightarrow> rat list \<Rightarrow> rat" where
  "ctx_sum start xs = fold (\<lambda>x t. ctx (t + x)) xs start"

lemma ctx_sum_simps [simp]: "ctx_sum t [] = t" "ctx_sum t (x # xs) = ctx_sum (ctx (t + x)) xs"
  by (simp_all add: ctx_sum_def)

lemma ctx_sum_append: "ctx_sum t (xs @ ys) = ctx_sum (ctx_sum t xs) ys"
  by (simp add: ctx_sum_def)

lemma ctx_sum_exact:
  assumes "on_grid k t" "\<forall>x \<in> set xs. on_grid k x \<and> 0 \<le> x" "0 \<le> t" "(t + sum_list xs) * 10 ^ k < 10 ^ 28"
  shows "ctx_sum t xs = t + sum_list xs"
  using assms
proof (induction xs arbitrary: t)
  case Nil
  then show ?case by simp
next
  case (Cons x xs)
  have nn: "0 \<le> sum_list xs" using Cons.prems(2) by (intro sum_list_nonneg) auto
  have "(t + x) * 10 ^ k \<le> (t + sum_list (x # xs)) * 10 ^ k"
    using nn by (intro mult_right_mono) auto
  then have "(t + x) * 10 ^ k < 10 ^ 28" using Cons.prems(4) by (rule le_less_trans)
  moreover have "\<bar>t + x\<bar> = t + x" using Cons.prems(2,3) by simp
  moreover have "on_grid k (t + x)" using Cons.prems(1,2) by (simp add: on_grid_add)
  ultimately have "ctx (t + x) = t + x" by (intro ctx_on_grid [of k]) simp_all
  with Cons show ?case by (auto simp: on_grid_add add.assoc)
qed

definition side_amounts :: "posting_side \<Rightarrow> posting list \<Rightarrow> rat list" where
  "side_amounts side ps = map (amount \<circ> p_amount) (filter (\<lambda>p. p_side p = side) ps)"

lemma side_amounts_simps [simp]:
  "side_amounts side [] = []"
  "side_amounts side (p # ps) =
     (if p_side p = side then amount (p_amount p) # side_amounts side ps else side_amounts side ps)"
  "side_amounts side (ps @ qs) = side_amounts side ps @ side_amounts side qs"
  by (simp_all add: side_amounts_def)

lemma total_from_eq:
  assumes "currency_ok (currency m)" "\<forall>p \<in> set ps. currency (p_amount p) = currency m"
  shows "total_from side ps m = Inr \<lparr>amount = ctx_sum (amount m) (side_amounts side ps), currency = currency m\<rparr>"
  using assms
proof (induction ps arbitrary: m)
  case Nil
  then show ?case by (simp add: total_from_def)
next
  case (Cons p ps)
  show ?case
  proof (cases "p_side p = side")
    case True
    have "money_add m (p_amount p) = Inr \<lparr>amount = ctx (amount m + amount (p_amount p)), currency = currency m\<rparr>"
      using Cons.prems by (simp add: result_simps)
    then show ?thesis
      using Cons.IH [of "\<lparr>amount = ctx (amount m + amount (p_amount p)), currency = currency m\<rparr>"] Cons.prems True
      by (simp add: total_from_def)
  next
    case False
    then show ?thesis using Cons by (simp add: total_from_def)
  qed
qed

lemma total_for_eq:
  assumes "ps \<noteq> []" "currency_ok c" "\<forall>p \<in> set ps. currency (p_amount p) = c"
  shows "total_for side ps = Inr \<lparr>amount = ctx_sum 0 (side_amounts side ps), currency = c\<rparr>"
proof (cases ps)
  case Nil
  then show ?thesis using assms by simp
next
  case (Cons p qs)
  have "money_zero (currency (p_amount p)) = Inr \<lparr>amount = 0, currency = c\<rparr>"
    using assms Cons by (simp add: result_simps)
  then show ?thesis
    using total_from_eq [of "\<lparr>amount = 0, currency = c\<rparr>" ps side] assms Cons
    by (simp add: total_for_def)
qed

lemma remdups_all_same: "xs \<noteq> [] \<Longrightarrow> \<forall>x \<in> set xs. x = c \<Longrightarrow> length (remdups xs) = 1"
proof -
  assume "xs \<noteq> []" "\<forall>x \<in> set xs. x = c"
  then have "set xs = {c}" by (cases xs) auto
  then have "card (set xs) = 1" by simp
  then show ?thesis by (simp add: length_remdups_card_conv)
qed

text \<open>The journal check amounts to the equality of the two rounded sums.\<close>

lemma mk_ledger_entry_eq:
  assumes "2 \<le> length (le_postings e)" "currency_ok c" "\<forall>p \<in> set (le_postings e). currency (p_amount p) = c"
  shows "mk_ledger_entry e =
    (if ctx_sum 0 (side_amounts DEBIT (le_postings e)) = ctx_sum 0 (side_amounts CREDIT (le_postings e))
     then Inr e
     else Inl (PortfolioInvariantError ''ledger entry is not balanced: total debits must equal total credits''))"
proof -
  have ne: "le_postings e \<noteq> []" using assms(1) by auto
  have "length (remdups (map (currency \<circ> p_amount) (le_postings e))) = 1"
    using ne assms(3) by (intro remdups_all_same [of _ c]) auto
  then show ?thesis
    using assms total_for_eq [OF ne assms(2,3)]
    by (simp add: mk_ledger_entry_def construct_def ledger_entry_post_init_def checks.simps)
qed

section \<open>Exact amounts of a fill\<close>

definition fees_ok :: "fee_breakdown \<Rightarrow> bool" where
  "fees_ok f \<longleftrightarrow> is_ok (checks (fee_breakdown_checks f)) \<and> currency_ok (fee_currency f)"

definition fill_ok :: "fill_record \<Rightarrow> bool" where
  "fill_ok f \<longleftrightarrow> is_ok (checks (fill_record_checks f)) \<and> price_ok (f_price f) \<and> fees_ok (f_fees f)"

definition exact_gross :: "fill_record \<Rightarrow> rat" where
  "exact_gross f = amount (f_price f) * of_int (f_quantity f)"

definition exact_fees :: "fee_breakdown \<Rightarrow> rat" where
  "exact_fees f = sum_list (map (amount \<circ> snd) (fee_items f))"

text \<open>Price and fees have at most \<open>k\<close> decimals and the amounts of the fill fit the decimal context.\<close>

definition fill_on_grid :: "nat \<Rightarrow> fill_record \<Rightarrow> bool" where
  "fill_on_grid k f \<longleftrightarrow>
     on_grid k (amount (f_price f)) \<and> list_all (\<lambda>i. on_grid k (amount (snd i))) (fee_items (f_fees f)) \<and>
     (exact_gross f + exact_fees (f_fees f)) * 10 ^ k < 10 ^ 27"

lemma fees_ok_iff:
  "fees_ok f \<longleftrightarrow>
     currency (fb_stamp_tax f) = currency (fb_commission f) \<and> currency (fb_transfer_fee f) = currency (fb_commission f) \<and>
     currency (fb_other f) = currency (fb_commission f) \<and> currency_ok (currency (fb_commission f)) \<and>
     0 \<le> amount (fb_commission f) \<and> 0 \<le> amount (fb_stamp_tax f) \<and> 0 \<le> amount (fb_transfer_fee f) \<and>
     0 \<le> amount (fb_other f)"
  by (auto simp: fees_ok_def fee_breakdown_checks_def fee_items_def fee_currency_def result_simps not_less split: if_splits)

lemma fill_ok_iff:
  "fill_ok f \<longleftrightarrow> 0 < f_quantity f \<and> currency (fb_commission (f_fees f)) = currency (f_price f) \<and>
     price_ok (f_price f) \<and> fees_ok (f_fees f)"
  by (auto simp: fill_ok_def fill_record_checks_def fee_currency_def result_simps)

lemma exact_fees_nonneg: "fees_ok f \<Longrightarrow> 0 \<le> exact_fees f"
  by (simp add: fees_ok_iff exact_fees_def fee_items_def)

lemma exact_gross_pos: "fill_ok f \<Longrightarrow> 0 < exact_gross f"
  by (simp add: fill_ok_iff exact_gross_def price_ok_def)

lemma fill_grid_facts:
  assumes "fill_ok f" "fill_on_grid k f"
  shows "on_grid k (exact_gross f)" "on_grid k (exact_fees (f_fees f))" "exact_gross f * 10 ^ k < 10 ^ 27"
    "exact_fees (f_fees f) * 10 ^ k < 10 ^ 27"
proof -
  have p: "0 < exact_gross f" "0 \<le> exact_fees (f_fees f)"
    using assms exact_gross_pos exact_fees_nonneg by (auto simp: fill_ok_def)
  have b: "exact_gross f * 10 ^ k + exact_fees (f_fees f) * 10 ^ k < 10 ^ 27"
    using assms by (simp add: fill_on_grid_def algebra_simps)
  have "0 \<le> exact_gross f * 10 ^ k" "0 \<le> exact_fees (f_fees f) * 10 ^ k" using p by auto
  with b show "exact_gross f * 10 ^ k < 10 ^ 27" "exact_fees (f_fees f) * 10 ^ k < 10 ^ 27" by linarith+
  show "on_grid k (exact_gross f)" using assms by (simp add: exact_gross_def fill_on_grid_def on_grid_mult_int)
  show "on_grid k (exact_fees (f_fees f))"
    using assms by (simp add: exact_fees_def fill_on_grid_def fee_items_def on_grid_add)
qed

lemma gross_amount_exact:
  assumes "fill_ok f" "fill_on_grid k f"
  shows "gross_amount f = Inr \<lparr>amount = exact_gross f, currency = currency (f_price f)\<rparr>"
proof -
  note g = fill_grid_facts [OF assms] exact_gross_pos [OF assms(1)]
  have "ctx (exact_gross f) = exact_gross f" using g by (intro ctx_on_grid [of k]) auto
  then show ?thesis
    using assms by (simp add: gross_amount_def result_simps exact_gross_def fill_ok_iff price_ok_def money_ok_def)
qed

lemma fee_total_eq:
  assumes "fees_ok f"
  shows "fee_total f = Inr \<lparr>amount = ctx_sum (amount (fb_commission f))
      [amount (fb_stamp_tax f), amount (fb_transfer_fee f), amount (fb_other f)], currency = currency (fb_commission f)\<rparr>"
  using assms by (simp add: fee_total_def money_add_def require_same_currency_def dec_add_def fees_ok_iff)

lemma fee_total_exact:
  assumes "fill_ok f" "fill_on_grid k f"
  shows "fee_total (f_fees f) = Inr \<lparr>amount = exact_fees (f_fees f), currency = currency (f_price f)\<rparr>"
proof -
  have fo: "fees_ok (f_fees f)" using assms by (simp add: fill_ok_iff)
  have "ctx_sum (amount (fb_commission (f_fees f)))
      [amount (fb_stamp_tax (f_fees f)), amount (fb_transfer_fee (f_fees f)), amount (fb_other (f_fees f))] =
    amount (fb_commission (f_fees f)) + sum_list
      [amount (fb_stamp_tax (f_fees f)), amount (fb_transfer_fee (f_fees f)), amount (fb_other (f_fees f))]"
    using fo assms(2) fill_grid_facts(4) [OF assms]
    by (intro ctx_sum_exact [of k]) (auto simp: fees_ok_iff fill_on_grid_def fee_items_def exact_fees_def)
  then show ?thesis
    using fee_total_eq [OF fo] assms by (simp add: exact_fees_def fee_items_def fill_ok_iff)
qed

section \<open>Buying\<close>

text \<open>The preconditions every fill shares, and the values a buy adds to the portfolio.\<close>

definition positive_fees :: "fee_breakdown \<Rightarrow> (fee_kind \<times> money) list" where
  "positive_fees f = filter (\<lambda>(kind, m). amount m > 0) (fee_items f)"

lemma map_res_mk_posting:
  "\<forall>x \<in> set xs. 0 < amount (p_amount (g x)) \<Longrightarrow> map_res (\<lambda>x. mk_posting (g x)) xs = Inr (map g xs)"
  by (induction xs) (simp_all add: mk_posting_def construct_def checks.simps)

lemma capitalized_fee_postings_eq:
  "capitalized_fee_postings f = Inr (map (\<lambda>(kind, m). \<lparr>p_account = PositionAsset, p_side = DEBIT, p_amount = m,
     p_component = fee_component kind, p_instrument_id = Some (f_instrument_id f)\<rparr>) (positive_fees (f_fees f)))"
  unfolding capitalized_fee_postings_def positive_fees_def case_prod_beta
  by (rule map_res_mk_posting) auto

lemma expense_fee_postings_eq:
  "expense_fee_postings fees ins = Inr (map (\<lambda>(kind, m). \<lparr>p_account = fee_expense_account kind, p_side = DEBIT,
     p_amount = m, p_component = fee_component kind, p_instrument_id = Some ins\<rparr>) (positive_fees fees))"
  unfolding expense_fee_postings_def positive_fees_def case_prod_beta
  by (rule map_res_mk_posting) auto

lemma side_amounts_map:
  "(\<And>x. p_side (g x) = t) \<Longrightarrow>
     side_amounts side (map g xs) = (if t = side then map (amount \<circ> p_amount \<circ> g) xs else [])"
  by (induction xs) auto

lemma sum_list_positive: "\<forall>x \<in> set xs. 0 \<le> amount (snd x) \<Longrightarrow>
    sum_list (map (amount \<circ> snd) (filter (\<lambda>(kind, m). amount m > 0) xs)) = sum_list (map (amount \<circ> snd) xs)"
  by (induction xs) auto

lemma positive_fees_sum:
  assumes "fees_ok f"
  shows "sum_list (map (amount \<circ> snd) (positive_fees f)) = exact_fees f"
  unfolding positive_fees_def exact_fees_def
  using assms by (intro sum_list_positive) (auto simp: fees_ok_iff fee_items_def)

lemma positive_fees_mem: "i \<in> set (positive_fees f) \<longleftrightarrow> i \<in> set (fee_items f) \<and> 0 < amount (snd i)"
  by (auto simp: positive_fees_def)

lemma fee_items_facts:
  assumes "fill_ok f" "fill_on_grid k f" "i \<in> set (fee_items (f_fees f))"
  shows "on_grid k (amount (snd i))" "currency (snd i) = currency (f_price f)"
  using assms by (auto simp: fill_on_grid_def fill_ok_iff fees_ok_iff list_all_iff fee_items_def)

lemma positive_fees_facts:
  assumes "fill_ok f" "fill_on_grid k f" "i \<in> set (positive_fees (f_fees f))"
  shows "0 < amount (snd i)" "on_grid k (amount (snd i))" "currency (snd i) = currency (f_price f)"
  using assms(3) fee_items_facts [OF assms(1,2)] by (auto simp: positive_fees_mem)

definition bought_lot :: "fill_record \<Rightarrow> date \<Rightarrow> position_lot" where
  "bought_lot f d = \<lparr>l_opened_by_fill_id = f_fill_id f, l_instrument_id = f_instrument_id f,
     l_acquired_at = f_filled_at f, l_acquired_on = trading_date f, l_sellable_on = d,
     l_remaining_quantity = f_quantity f,
     l_cost_basis = \<lparr>amount = exact_gross f + exact_fees (f_fees f), currency = currency (f_price f)\<rparr>,
     l_acquisition_principal = Some \<lparr>amount = exact_gross f, currency = currency (f_price f)\<rparr>\<rparr>"

definition bought_entry :: "fill_record \<Rightarrow> ledger_entry" where
  "bought_entry f = \<lparr>le_fill_id = f_fill_id f, le_order_id = f_order_id f, le_occurred_at = f_filled_at f,
     le_postings =
       \<lparr>p_account = PositionAsset, p_side = DEBIT,
         p_amount = \<lparr>amount = exact_gross f, currency = currency (f_price f)\<rparr>,
         p_component = Principal, p_instrument_id = Some (f_instrument_id f)\<rparr> #
       map (\<lambda>(kind, m). \<lparr>p_account = PositionAsset, p_side = DEBIT, p_amount = m,
         p_component = fee_component kind, p_instrument_id = Some (f_instrument_id f)\<rparr>) (positive_fees (f_fees f)) @
       [\<lparr>p_account = CashAccount, p_side = CREDIT,
         p_amount = \<lparr>amount = exact_gross f + exact_fees (f_fees f), currency = currency (f_price f)\<rparr>,
         p_component = CashComponent, p_instrument_id = None\<rparr>]\<rparr>"

lemma acquisition_cost_exact:
  assumes "fill_ok f" "fill_on_grid k f"
  shows "ctx (exact_gross f + exact_fees (f_fees f)) = exact_gross f + exact_fees (f_fees f)"
  using fill_grid_facts [OF assms] assms exact_gross_pos [OF assms(1)] exact_fees_nonneg [of "f_fees f"]
  by (intro ctx_on_grid [of k]) (auto simp: on_grid_add fill_on_grid_def fill_ok_def)

lemma buy_entry_exact:
  assumes "fill_ok f" "fill_on_grid k f"
  shows "buy_entry f = Inr (bought_entry f)"
proof -
  note g = fill_grid_facts [OF assms] exact_gross_pos [OF assms(1)]
  note pf = positive_fees_facts [OF assms]
  have fo: "fees_ok (f_fees f)" using assms by (simp add: fill_ok_def)
  have c: "currency_ok (currency (f_price f))" using assms by (simp add: fill_ok_iff price_ok_def money_ok_def)
  have tot: "0 < exact_gross f + exact_fees (f_fees f)" using g exact_fees_nonneg [OF fo] by linarith
  have deb: "ctx_sum (exact_gross f) (map (amount \<circ> snd) (positive_fees (f_fees f))) = exact_gross f + exact_fees (f_fees f)"
    using ctx_sum_exact [of k "exact_gross f" "map (amount \<circ> snd) (positive_fees (f_fees f))"] g pf assms
    by (auto simp: positive_fees_sum [OF fo] fill_on_grid_def less_imp_le)
  have g1: "ctx (exact_gross f) = exact_gross f" using g by (intro ctx_on_grid [of k]) auto
  have "mk_ledger_entry (bought_entry f) = Inr (bought_entry f)"
    using c deb g1 acquisition_cost_exact [OF assms] pf(3)
    by (subst mk_ledger_entry_eq [of _ "currency (f_price f)"])
      (auto simp: bought_entry_def side_amounts_map [where t = DEBIT] comp_def case_prod_beta)
  then show ?thesis
    using g tot c acquisition_cost_exact [OF assms]
    by (simp add: buy_entry_def gross_amount_exact [OF assms] fee_total_exact [OF assms] capitalized_fee_postings_eq
      mk_posting_def construct_def checks.simps money_add_def require_same_currency_def dec_add_def bought_entry_def)
qed

definition after_fill :: "portfolio_state \<Rightarrow> fill_record \<Rightarrow> money \<Rightarrow> position_lot list \<Rightarrow> ledger_entry \<Rightarrow> portfolio_state" where
  "after_fill s f cash lots e = \<lparr>ps_cash = cash, ps_lots = lots, ps_fills = ps_fills s @ [f],
     ps_ledger_entries = ps_ledger_entries s @ [e], ps_action_entries = ps_action_entries s,
     ps_entitlements = ps_entitlements s\<rparr>"

lemma after_fill_simps [simp]:
  "ps_cash (after_fill s f cash lots e) = cash" "ps_lots (after_fill s f cash lots e) = lots"
  "ps_fills (after_fill s f cash lots e) = ps_fills s @ [f]"
  "ps_ledger_entries (after_fill s f cash lots e) = ps_ledger_entries s @ [e]"
  "ps_action_entries (after_fill s f cash lots e) = ps_action_entries s"
  "ps_entitlements (after_fill s f cash lots e) = ps_entitlements s"
  by (simp_all add: after_fill_def)

lemma after_fill_ok:
  assumes "is_ok (checks (portfolio_checks s))" "0 \<le> amount cash" "currency cash = currency (ps_cash s)"
    "distinct (map l_opened_by_fill_id lots)" "\<forall>l \<in> set lots. currency (l_cost_basis l) = currency (ps_cash s)"
    "f_fill_id f \<notin> applied_fill_ids s" "currency (f_price f) = currency (ps_cash s)"
    "le_fill_id e = f_fill_id f" "ledger_entry_currency e = Inr (currency (ps_cash s))"
  shows "is_ok (checks (portfolio_checks (after_fill s f cash lots e)))"
  using assms by (auto simp: portfolio_checks_def is_ok_checks applied_fill_ids_def list_ex_iff)

lemma require_fill_ok: "require_fill s f side = Inr u \<longleftrightarrow>
    f_side f = side \<and> f_fill_id f \<notin> applied_fill_ids s \<and> currency (f_price f) = currency (ps_cash s)"
  by (auto simp: require_fill_def result_simps)

lemma apply_buy_exact:
  assumes "portfolio_ok s" "fill_ok f" "fill_on_grid k f"
    "on_grid k (amount (ps_cash s))" "amount (ps_cash s) * 10 ^ k < 10 ^ 28"
  shows "apply_buy s f d =
    (if f_side f \<noteq> BUY then Inl InvalidFillSideError
     else if f_fill_id f \<in> applied_fill_ids s then Inl DuplicateFillError
     else if currency (f_price f) \<noteq> currency (ps_cash s)
       then Inl (PortfolioInvariantError ''fill and portfolio cash currencies must match'')
     else if d \<le> trading_date f
       then Inl (PortfolioInvariantError ''A-share buy lot must become sellable after its trading date'')
     else if amount (ps_cash s) < exact_gross f + exact_fees (f_fees f) then Inl InsufficientCashError
     else Inr (after_fill s f
       \<lparr>amount = amount (ps_cash s) - (exact_gross f + exact_fees (f_fees f)), currency = currency (ps_cash s)\<rparr>
       (ps_lots s @ [bought_lot f d]) (bought_entry f)))"
proof (cases "f_side f = BUY \<and> f_fill_id f \<notin> applied_fill_ids s \<and> currency (f_price f) = currency (ps_cash s) \<and>
    trading_date f < d")
  case False
  then show ?thesis by (auto simp: apply_buy_def require_fill_def checks.simps)
next
  case True
  then have r: "require_fill s f BUY = Inr ()" by (simp add: require_fill_ok)
  define cost where "cost = exact_gross f + exact_fees (f_fees f)"
  have cc: "currency_ok (currency (ps_cash s))" using assms(1) by (simp add: portfolio_ok_def)
  have pos: "0 < cost"
    using exact_gross_pos [OF assms(2)] exact_fees_nonneg [of "f_fees f"] assms(2) by (simp add: cost_def fill_ok_def)
  have add: "money_add \<lparr>amount = exact_gross f, currency = currency (f_price f)\<rparr>
      \<lparr>amount = exact_fees (f_fees f), currency = currency (f_price f)\<rparr> = Inr \<lparr>amount = cost, currency = currency (ps_cash s)\<rparr>"
    using acquisition_cost_exact [OF assms(2,3)] True cc by (simp add: result_simps cost_def)
  have lot: "mk_lot (bought_lot f d) = Inr (bought_lot f d)"
    using pos True assms(2) exact_gross_pos [OF assms(2)]
    by (simp add: mk_lot_Inr lot_ok_iff bought_lot_def trading_date_def cost_def fill_ok_iff less_imp_le)
  have step: "apply_buy s f d =
     (if amount (ps_cash s) < cost then Inl InsufficientCashError
      else rbind (money_sub (ps_cash s) \<lparr>amount = cost, currency = currency (ps_cash s)\<rparr>)
        (\<lambda>cash. mk_portfolio (after_fill s f cash (ps_lots s @ [bought_lot f d]) (bought_entry f))))"
    using True add lot
    by (simp add: apply_buy_def r gross_amount_exact [OF assms(2,3)] fee_total_exact [OF assms(2,3)]
      buy_entry_exact [OF assms(2,3)] bought_lot_def cost_def after_fill_def)
  show ?thesis
  proof (cases "amount (ps_cash s) < cost")
    case enough: False
    have "on_grid k cost"
      using fill_grid_facts [OF assms(2,3)] by (simp add: cost_def on_grid_add)
    then have "ctx (amount (ps_cash s) - cost) = amount (ps_cash s) - cost"
      using enough assms(4,5) pos by (intro ctx_grid_diff [of k]) auto
    then have sub: "money_sub (ps_cash s) \<lparr>amount = cost, currency = currency (ps_cash s)\<rparr> =
        Inr \<lparr>amount = amount (ps_cash s) - cost, currency = currency (ps_cash s)\<rparr>"
      using cc by (simp add: result_simps)
    have "is_ok (checks (portfolio_checks (after_fill s f
        \<lparr>amount = amount (ps_cash s) - cost, currency = currency (ps_cash s)\<rparr> (ps_lots s @ [bought_lot f d]) (bought_entry f))))"
      using assms(1) enough True
      by (intro after_fill_ok)
        (auto simp: portfolio_ok_def portfolio_checks_def is_ok_checks list_ex_iff bought_lot_def applied_fill_ids_def
          bought_entry_def ledger_entry_currency_def)
    then show ?thesis using True enough unfolding step sub by (simp add: mk_portfolio_Inr flip: cost_def)
  qed (use True in \<open>simp add: step flip: cost_def\<close>)
qed

text \<open>C28: on a well-formed portfolio and fill whose amounts have at most k decimals and fit the
  decimal context, applying a buy has exactly the outcome of the source's guards in their order:
  a wrong side, a fill already applied, another currency, a sellable date that is not later than
  the trading date (T+1) and a cost above the cash each raise their own error; otherwise cash
  decreases by price times quantity plus fees, one lot with that cost is appended, and the fill
  and its balanced journal entry are recorded; nothing else changes.\<close>

theorem apply_buy_outcome:
  assumes "portfolio_ok s" "fill_ok f" "fill_on_grid k f"
    "on_grid k (amount (ps_cash s))" "amount (ps_cash s) * 10 ^ k < 10 ^ 28"
  shows "apply_buy s f d =
    (if f_side f \<noteq> BUY then Inl InvalidFillSideError
     else if f_fill_id f \<in> applied_fill_ids s then Inl DuplicateFillError
     else if currency (f_price f) \<noteq> currency (ps_cash s)
       then Inl (PortfolioInvariantError ''fill and portfolio cash currencies must match'')
     else if d \<le> trading_date f
       then Inl (PortfolioInvariantError ''A-share buy lot must become sellable after its trading date'')
     else if amount (ps_cash s) < exact_gross f + exact_fees (f_fees f) then Inl InsufficientCashError
     else Inr (after_fill s f
       \<lparr>amount = amount (ps_cash s) - (exact_gross f + exact_fees (f_fees f)), currency = currency (ps_cash s)\<rparr>
       (ps_lots s @ [bought_lot f d]) (bought_entry f)))"
  using assms by (rule apply_buy_exact)

section \<open>Selling first in, first out\<close>

text \<open>
  The reference: what remains of a queue of lots, each an opening fill and a quantity, after \<open>n\<close>
  shares are taken from its front.
\<close>

fun fifo :: "int \<Rightarrow> (string \<times> int) list \<Rightarrow> (string \<times> int) list" where
  "fifo n [] = []"
| "fifo n ((i, q) # qs) =
     (if n = 0 then (i, q) # qs else if q \<le> n then fifo (n - q) qs else (i, q - n) # qs)"

definition lot_view :: "position_lot \<Rightarrow> string \<times> int" where
  "lot_view l = (l_opened_by_fill_id l, l_remaining_quantity l)"

definition lot_key :: "position_lot \<Rightarrow> datetime \<times> string" where
  "lot_key l = (l_acquired_at l, l_opened_by_fill_id l)"

definition eligible :: "fill_record \<Rightarrow> position_lot \<Rightarrow> bool" where
  "eligible f l \<longleftrightarrow> l_instrument_id l = f_instrument_id f \<and> l_sellable_on l \<le> trading_date f"

lemma fifo_0 [simp]: "fifo 0 qs = qs"
  by (cases qs) auto

lemma fifo_sum:
  "0 \<le> n \<Longrightarrow> n \<le> sum_list (map snd qs) \<Longrightarrow> \<forall>q \<in> set qs. 0 < snd q \<Longrightarrow>
     sum_list (map snd (fifo n qs)) = sum_list (map snd qs) - n"
  by (induction n qs rule: fifo.induct) auto

text \<open>A lot that was sold in part: the same lot with another quantity, cost and principal.\<close>

definition part_of :: "position_lot \<Rightarrow> position_lot \<Rightarrow> bool" where
  "part_of l' l \<longleftrightarrow>
     l' = l\<lparr>l_remaining_quantity := l_remaining_quantity l', l_cost_basis := l_cost_basis l',
       l_acquisition_principal := l_acquisition_principal l'\<rparr> \<and>
     lot_ok l' \<and> currency (l_cost_basis l') = currency (l_cost_basis l)"

lemma part_of_simps:
  assumes "part_of l' l"
  shows "l_opened_by_fill_id l' = l_opened_by_fill_id l" "l_instrument_id l' = l_instrument_id l"
    "l_acquired_at l' = l_acquired_at l" "l_sellable_on l' = l_sellable_on l" "lot_ok l'"
    "currency (l_cost_basis l') = currency (l_cost_basis l)" "eligible f l' = eligible f l" "lot_key l' = lot_key l"
  using assms by (cases l; cases l'; auto simp: part_of_def eligible_def lot_key_def)+

lemma sell_part_of_lot_Inr:
  assumes "sell_part_of_lot l n = Inr (a, l')"
  shows "part_of l' l" "l_remaining_quantity l' = l_remaining_quantity l - n" "currency a = currency (l_cost_basis l)"
    "amount a = ctx (ctx (amount (l_cost_basis l) * of_int n) / of_int (l_remaining_quantity l))"
    "amount (l_cost_basis l') = ctx (amount (l_cost_basis l) - amount a)"
  using assms
  by (auto simp: sell_part_of_lot_def dec_div_def dec_mul_def part_of_def result_simps
    split: if_splits option.splits)

definition replace_lot :: "(nat \<rightharpoonup> position_lot option) \<Rightarrow> nat \<times> position_lot \<Rightarrow> position_lot option" where
  "replace_lot r il = (case r (fst il) of None \<Rightarrow> Some (snd il) | Some replacement \<Rightarrow> replacement)"

lemma surviving_lots_eq: "surviving_lots ls r = List.map_filter (replace_lot r) (List.enumerate 0 ls)"
  unfolding surviving_lots_def by (rule arg_cong2 [where f = List.map_filter]) (auto simp: replace_lot_def fun_eq_iff split: option.splits)

lemma consume_lot_Inr:
  assumes "consume_lot (i, l) w = Inr w'" "0 \<le> sl_remaining w" "0 < l_remaining_quantity l"
  shows "(sl_remaining w = 0 \<and> w' = w) \<or>
    (0 < sl_remaining w \<and> l_remaining_quantity l \<le> sl_remaining w \<and>
      sl_remaining w' = sl_remaining w - l_remaining_quantity l \<and>
      sl_replacements w' = (sl_replacements w)(i \<mapsto> None) \<and>
      money_add (sl_sold_cost w) (l_cost_basis l) = Inr (sl_sold_cost w')) \<or>
    (0 < sl_remaining w \<and> sl_remaining w < l_remaining_quantity l \<and> sl_remaining w' = 0 \<and>
      (\<exists>a l'. sell_part_of_lot l (sl_remaining w) = Inr (a, l') \<and>
        sl_replacements w' = (sl_replacements w)(i \<mapsto> Some l') \<and> money_add (sl_sold_cost w) a = Inr (sl_sold_cost w')))"
  using assms
  by (auto simp: consume_lot_def Let_def result_simps min_def split: if_splits)

lemma map_filter_cong:
  "(\<And>x. x \<in> set xs \<Longrightarrow> f x = g x) \<Longrightarrow> List.map_filter f xs = List.map_filter g xs"
  by (induction xs) (auto split: option.splits)

lemma consume_lots:
  assumes "fold_res consume_lot es w = Inr w'" "distinct (map fst es)"
    "\<forall>e \<in> set es. 0 < l_remaining_quantity (snd e) \<and> sl_replacements w (fst e) = None" "0 \<le> sl_remaining w"
  shows "map lot_view (List.map_filter (replace_lot (sl_replacements w')) es) =
      fifo (sl_remaining w) (map (lot_view \<circ> snd) es) \<and>
    (\<forall>i. i \<notin> fst ` set es \<longrightarrow> sl_replacements w' i = sl_replacements w i) \<and>
    (\<forall>e \<in> set es. \<forall>l'. sl_replacements w' (fst e) = Some (Some l') \<longrightarrow> part_of l' (snd e)) \<and>
    sl_remaining w' = max 0 (sl_remaining w - sum_list (map (l_remaining_quantity \<circ> snd) es))"
  using assms
proof (induction es arbitrary: w)
  case Nil
  then show ?case by simp
next
  case (Cons e es)
  obtain i l where e: "e = (i, l)" by (cases e)
  from Cons.prems(1) obtain v where v: "consume_lot (i, l) w = Inr v" "fold_res consume_lot es v = Inr w'"
    by (auto simp: result_simps e)
  have q: "0 < l_remaining_quantity l" "sl_replacements w i = None" "i \<notin> fst ` set es"
    using Cons.prems by (auto simp: e)
  note cases = consume_lot_Inr [OF v(1) Cons.prems(4) q(1)]
  have fresh: "\<forall>e \<in> set es. 0 < l_remaining_quantity (snd e) \<and> sl_replacements v (fst e) = None"
  proof
    fix e' assume e': "e' \<in> set es"
    then have "fst e' \<noteq> i" using q(3) by auto
    with e' show "0 < l_remaining_quantity (snd e') \<and> sl_replacements v (fst e') = None"
      using cases Cons.prems(3) by auto
  qed
  have nn: "0 \<le> sl_remaining v" using cases by auto
  have sums: "0 \<le> sum_list (map (l_remaining_quantity \<circ> snd) es)"
    using fresh by (intro sum_list_nonneg_map) (auto simp: less_imp_le)
  note IH = Cons.IH [OF v(2) _ fresh nn]
  have same: "sl_replacements w' i = sl_replacements v i" using IH Cons.prems(2) q(3) by auto
  from cases show ?case
  proof (elim disjE conjE exE)
    assume "sl_remaining w = 0" "v = w"
    then show ?thesis
      using IH Cons.prems(2) same q sums
      by (auto simp: e replace_lot_def lot_view_def comp_def max_def)
  next
    assume "0 < sl_remaining w" "l_remaining_quantity l \<le> sl_remaining w"
      "sl_remaining v = sl_remaining w - l_remaining_quantity l"
      "sl_replacements v = (sl_replacements w)(i \<mapsto> None)"
    then show ?thesis
      using IH Cons.prems(2) same q
      by (auto simp: e replace_lot_def lot_view_def comp_def max_def)
  next
    fix a l'
    assume "0 < sl_remaining w" "sl_remaining w < l_remaining_quantity l" "sl_remaining v = 0"
      "sell_part_of_lot l (sl_remaining w) = Inr (a, l')" "sl_replacements v = (sl_replacements w)(i \<mapsto> Some l')"
    then show ?thesis
      using IH Cons.prems(2) same q sums sell_part_of_lot_Inr [of l "sl_remaining w" a l']
      by (auto simp: e replace_lot_def lot_view_def part_of_simps comp_def max_def)
  qed
qed

text \<open>Sorting by a key without ties, and filtered maps.\<close>

lemma sorted_unique:
  assumes "mset xs = mset ys" "sorted (map k xs)" "sorted (map k ys)" "inj_on k (set xs)"
  shows "xs = ys"
proof -
  have "map k xs = map k ys"
    using assms(1-3) properties_for_sort [of "map k xs" "map k ys"] sorted_sort_id [of "map k ys"] by (simp add: mset_map)
  moreover have "set ys = set xs" using assms(1) by (metis set_mset_mset)
  ultimately show ?thesis using assms(4) by (simp add: inj_on_map_eq_map)
qed

lemma set_map_filter: "y \<in> set (List.map_filter g xs) \<longleftrightarrow> (\<exists>x \<in> set xs. g x = Some y)"
  by (induction xs) (auto split: option.splits)

lemma filter_map_filter:
  "(\<And>x y. x \<in> set xs \<Longrightarrow> g x = Some y \<Longrightarrow> P y = Q x) \<Longrightarrow>
     filter P (List.map_filter g xs) = List.map_filter g (filter Q xs)"
  by (induction xs) (auto split: option.splits)

lemma mset_map_filter: "mset xs = mset ys \<Longrightarrow> mset (List.map_filter g xs) = mset (List.map_filter g ys)"
  by (simp add: List.map_filter_def)

lemma sorted_map_filter:
  assumes "sorted (map k xs)" "\<And>x y. x \<in> set xs \<Longrightarrow> g x = Some y \<Longrightarrow> h y = k x"
  shows "sorted (map h (List.map_filter g xs))"
  using assms
proof (induction xs)
  case (Cons x xs)
  then have "sorted (map h (List.map_filter g xs))" by auto
  moreover have "h y \<le> h z" if "g x = Some y" "z \<in> set (List.map_filter g xs)" for y z
  proof -
    from that(2) obtain x' where "x' \<in> set xs" "g x' = Some z" by (auto simp: set_map_filter)
    then have "k x \<le> k x'" "h z = k x'" using Cons.prems by auto
    moreover have "h y = k x" using Cons.prems(2) that(1) by simp
    ultimately show ?thesis by simp
  qed
  ultimately show ?case by (auto split: option.splits)
qed simp

lemma map_filter_Some: "(\<And>x. x \<in> set xs \<Longrightarrow> g x = Some (h x)) \<Longrightarrow> List.map_filter g xs = map h xs"
  by (induction xs) auto

lemma filter_enumerate: "map snd (filter (P \<circ> snd) (List.enumerate n xs)) = filter P xs"
  by (induction xs arbitrary: n) auto

lemma distinct_fst_filter: "distinct (map fst xs) \<Longrightarrow> distinct (map fst (filter P xs))"
  by (rule distinct_map_filter)

lemma mset_eligible_lots:
  "mset (eligible_lots s f) = mset (filter (eligible f \<circ> snd) (List.enumerate 0 (ps_lots s)))"
  by (simp add: eligible_lots_def eligible_def comp_def case_prod_beta)

lemma set_eligible_lots:
  "set (eligible_lots s f) = set (filter (eligible f \<circ> snd) (List.enumerate 0 (ps_lots s)))"
  by (rule mset_eq_setD [OF mset_eligible_lots])

lemma distinct_eligible_lots: "distinct (map fst (eligible_lots s f))"
proof -
  have "mset (map fst (eligible_lots s f)) = mset (map fst (filter (eligible f \<circ> snd) (List.enumerate 0 (ps_lots s))))"
    by (simp only: mset_map mset_eligible_lots)
  moreover have "distinct (map fst (filter (eligible f \<circ> snd) (List.enumerate 0 (ps_lots s))))"
    by (intro distinct_fst_filter) simp
  ultimately show ?thesis by (metis mset_eq_imp_distinct_iff)
qed

lemma sorted_eligible_lots: "sorted (map (lot_key \<circ> snd) (eligible_lots s f))"
proof -
  have "sorted (map (\<lambda>(i, l). (l_acquired_at l, l_opened_by_fill_id l, i)) (eligible_lots s f))"
    unfolding eligible_lots_def by (rule sorted_sort_key)
  then show ?thesis
    unfolding sorted_map by (rule sorted_wrt_mono_rel [rotated]) (auto simp: lot_key_def)
qed

text \<open>Up to the indices, the eligible lots are the lots in the order of their keys.\<close>

lemma eligible_lots_order:
  assumes "distinct (map l_opened_by_fill_id (ps_lots s))"
    and "mset ls = mset (filter (eligible f) (ps_lots s))" and "sorted (map lot_key ls)"
  shows "map snd (eligible_lots s f) = ls"
proof (rule sorted_unique [of _ _ lot_key])
  have "mset (map snd (eligible_lots s f)) = mset (filter (eligible f) (ps_lots s))"
    by (simp only: mset_map mset_eligible_lots flip: filter_enumerate [of "eligible f" 0])
  then show "mset (map snd (eligible_lots s f)) = mset ls" using assms(2) by simp
  then have "set (map snd (eligible_lots s f)) \<subseteq> set (ps_lots s)"
    using mset_eq_setD [of "map snd (eligible_lots s f)" "filter (eligible f) (ps_lots s)"] assms(2) by auto
  then have "inj_on l_opened_by_fill_id (set (map snd (eligible_lots s f)))"
    using assms(1) by (auto simp: distinct_map intro: inj_on_subset)
  then show "inj_on lot_key (set (map snd (eligible_lots s f)))"
    by (auto simp: inj_on_def lot_key_def)
qed (use assms(3) sorted_eligible_lots in simp_all)

lemma apply_sellE:
  assumes "apply_sell s f = Inr t"
  obtains zero w gross fees proceeds cash entry where
    "require_fill s f SELL = Inr ()"
    "f_quantity f \<le> sum_list (map (l_remaining_quantity \<circ> snd) (eligible_lots s f))"
    "money_zero (currency (ps_cash s)) = Inr zero"
    "fold_res consume_lot (eligible_lots s f)
       \<lparr>sl_remaining = f_quantity f, sl_replacements = Map.empty, sl_sold_cost = zero\<rparr> = Inr w"
    "gross_amount f = Inr gross" "fee_total (f_fees f) = Inr fees" "money_add (ps_cash s) gross = Inr proceeds"
    "money_sub proceeds fees = Inr cash" "0 \<le> amount cash" "sell_entry f (sl_sold_cost w) = Inr entry"
    "t = after_fill s f cash (surviving_lots (ps_lots s) (sl_replacements w)) entry"
    "is_ok (checks (portfolio_checks t))"
proof -
  from assms obtain zero w gross fees proceeds cash entry where
    r: "require_fill s f SELL = Inr ()" and
    q: "f_quantity f \<le> sum_list (map (l_remaining_quantity \<circ> snd) (eligible_lots s f))" and
    z: "money_zero (currency (ps_cash s)) = Inr zero" and
    w: "fold_res consume_lot (eligible_lots s f)
       \<lparr>sl_remaining = f_quantity f, sl_replacements = Map.empty, sl_sold_cost = zero\<rparr> = Inr w" and
    g: "gross_amount f = Inr gross" "fee_total (f_fees f) = Inr fees" "money_add (ps_cash s) gross = Inr proceeds"
       "money_sub proceeds fees = Inr cash" and
    c: "0 \<le> amount cash" and e: "sell_entry f (sl_sold_cost w) = Inr entry" and
    t: "mk_portfolio (after_fill s f cash (surviving_lots (ps_lots s) (sl_replacements w)) entry) = Inr t"
    unfolding apply_sell_def Let_def after_fill_def
    by (elim rbindE) (auto elim!: rbindE simp: not_less split: if_splits)
  show thesis using t that [OF r q z w g c e] by (auto simp: mk_portfolio_Inr)
qed

text \<open>What the replacements of a sale are: only eligible lots have one, and it is nothing or a part of the lot.\<close>

definition sale_map :: "portfolio_state \<Rightarrow> fill_record \<Rightarrow> (nat \<rightharpoonup> position_lot option) \<Rightarrow> bool" where
  "sale_map s f r \<longleftrightarrow>
     (\<forall>i. i \<notin> fst ` set (eligible_lots s f) \<longrightarrow> r i = None) \<and>
     (\<forall>e \<in> set (eligible_lots s f). \<forall>l'. r (fst e) = Some (Some l') \<longrightarrow> part_of l' (snd e))"

lemma eligible_indexed:
  assumes "e \<in> set (List.enumerate 0 (ps_lots s))" "fst e \<in> fst ` set (eligible_lots s f)"
  shows "e \<in> set (eligible_lots s f)"
proof -
  from assms(2) obtain e' where e': "e' \<in> set (eligible_lots s f)" "fst e' = fst e" by force
  moreover have "e' \<in> set (List.enumerate 0 (ps_lots s))" using e'(1) by (auto simp: set_eligible_lots)
  moreover have "distinct (map fst (List.enumerate 0 (ps_lots s)))" by simp
  ultimately have "e' = e" using assms(1) by (metis eq_key_imp_eq_value prod.collapse)
  then show ?thesis using e' by simp
qed

lemma sale_map_kept:
  assumes "sale_map s f r" "e \<in> set (List.enumerate 0 (ps_lots s))" "replace_lot r e = Some l'"
  shows "l' = snd e \<or> part_of l' (snd e)"
proof (cases "fst e \<in> fst ` set (eligible_lots s f)")
  case True
  then have "e \<in> set (eligible_lots s f)" using assms(2) by (intro eligible_indexed)
  then show ?thesis using assms by (auto simp: sale_map_def replace_lot_def split: option.splits)
next
  case False
  then have "r (fst e) = None" using assms(1) by (simp add: sale_map_def)
  then show ?thesis using assms(3) by (simp add: replace_lot_def)
qed

lemma sale_map_same:
  assumes "sale_map s f r" "e \<in> set (List.enumerate 0 (ps_lots s))" "replace_lot r e = Some l'"
  shows "eligible f l' = eligible f (snd e)" "lot_key l' = lot_key (snd e)"
  using sale_map_kept [OF assms] part_of_simps(7,8) [of l' "snd e"] by auto

lemma sale_map_ineligible:
  assumes "sale_map s f r" "e \<in> set (List.enumerate 0 (ps_lots s))" "\<not> eligible f (snd e)"
  shows "replace_lot r e = Some (snd e)"
proof -
  have "e \<notin> set (eligible_lots s f)" using assms(3) by (simp add: set_eligible_lots)
  then have "fst e \<notin> fst ` set (eligible_lots s f)" using eligible_indexed [OF assms(2)] by blast
  then show ?thesis using assms(1) by (simp add: sale_map_def replace_lot_def)
qed

lemma enumerate_mem: "e \<in> set (List.enumerate n xs) \<Longrightarrow> snd e \<in> set xs"
  by (induction xs arbitrary: n) auto

lemma surviving_lots_parts:
  assumes "sale_map s f r" "l' \<in> set (surviving_lots (ps_lots s) r)"
  shows "\<exists>l \<in> set (ps_lots s). l' = l \<or> part_of l' l"
proof -
  from assms(2) obtain e where e: "e \<in> set (List.enumerate 0 (ps_lots s))" "replace_lot r e = Some l'"
    by (auto simp: surviving_lots_eq set_map_filter)
  have "snd e \<in> set (ps_lots s)" using e(1) by (rule enumerate_mem)
  then show ?thesis using sale_map_kept [OF assms(1) e] by auto
qed

lemma surviving_lots_ineligible:
  assumes "sale_map s f r"
  shows "filter (\<lambda>l. \<not> eligible f l) (surviving_lots (ps_lots s) r) = filter (\<lambda>l. \<not> eligible f l) (ps_lots s)"
proof -
  have "filter (\<lambda>l. \<not> eligible f l) (surviving_lots (ps_lots s) r) =
      List.map_filter (replace_lot r) (filter ((\<lambda>l. \<not> eligible f l) \<circ> snd) (List.enumerate 0 (ps_lots s)))"
    unfolding surviving_lots_eq
    by (rule filter_map_filter) (simp add: sale_map_same(1) [OF assms])
  also have "\<dots> = map snd (filter ((\<lambda>l. \<not> eligible f l) \<circ> snd) (List.enumerate 0 (ps_lots s)))"
    using sale_map_ineligible [OF assms] by (intro map_filter_Some) auto
  finally show ?thesis by (simp only: filter_enumerate)
qed

lemma surviving_lots_order:
  assumes r: "sale_map s f r" and t: "ps_lots t = surviving_lots (ps_lots s) r"
    and d: "distinct (map l_opened_by_fill_id (ps_lots t))"
  shows "map snd (eligible_lots t f) = List.map_filter (replace_lot r) (eligible_lots s f)"
proof (rule eligible_lots_order [OF d])
  have "filter (eligible f) (ps_lots t) =
      List.map_filter (replace_lot r) (filter (eligible f \<circ> snd) (List.enumerate 0 (ps_lots s)))"
    unfolding t surviving_lots_eq
    by (rule filter_map_filter) (simp add: sale_map_same(1) [OF r])
  then show "mset (List.map_filter (replace_lot r) (eligible_lots s f)) = mset (filter (eligible f) (ps_lots t))"
    using mset_map_filter [OF mset_eligible_lots [of s f]] by simp
  show "sorted (map lot_key (List.map_filter (replace_lot r) (eligible_lots s f)))"
  proof (rule sorted_map_filter [OF sorted_eligible_lots])
    fix e l assume e: "e \<in> set (eligible_lots s f)" "replace_lot r e = Some l"
    then have "e \<in> set (List.enumerate 0 (ps_lots s))" by (auto simp: set_eligible_lots)
    then show "lot_key l = (lot_key \<circ> snd) e" using sale_map_same(2) [OF r _ e(2)] by simp
  qed
qed

lemma sale_loop:
  assumes "fold_res consume_lot (eligible_lots s f)
      \<lparr>sl_remaining = n, sl_replacements = Map.empty, sl_sold_cost = zero\<rparr> = Inr w"
    and "list_all lot_ok (ps_lots s)" "0 \<le> n"
  shows "sale_map s f (sl_replacements w)"
    and "map lot_view (List.map_filter (replace_lot (sl_replacements w)) (eligible_lots s f)) =
      fifo n (map (lot_view \<circ> snd) (eligible_lots s f))"
proof -
  have "\<forall>e \<in> set (eligible_lots s f). 0 < l_remaining_quantity (snd e)"
    using assms(2) unfolding set_eligible_lots by (auto simp: list_all_iff lot_ok_iff in_set_enumerate_eq)
  with consume_lots [OF assms(1) distinct_eligible_lots] assms(3)
  show "sale_map s f (sl_replacements w)"
    "map lot_view (List.map_filter (replace_lot (sl_replacements w)) (eligible_lots s f)) =
      fifo n (map (lot_view \<circ> snd) (eligible_lots s f))"
    by (auto simp: sale_map_def)
qed

text \<open>
  What a sale does to the lots: the ones that are not eligible stay as they are, the eligible
  ones are consumed in order, and every lot of the result is a lot of the state before or a part of one.
\<close>

lemma apply_sell_lots:
  assumes "apply_sell s f = Inr t" "portfolio_ok s" "0 \<le> f_quantity f"
  shows "map lot_view (map snd (eligible_lots t f)) = fifo (f_quantity f) (map lot_view (map snd (eligible_lots s f)))"
    and "filter (\<lambda>l. \<not> eligible f l) (ps_lots t) = filter (\<lambda>l. \<not> eligible f l) (ps_lots s)"
    and "\<forall>l' \<in> set (ps_lots t). \<exists>l \<in> set (ps_lots s). l' = l \<or> part_of l' l"
proof -
  from apply_sellE [OF assms(1)] obtain zero w cash entry where
    w: "fold_res consume_lot (eligible_lots s f)
       \<lparr>sl_remaining = f_quantity f, sl_replacements = Map.empty, sl_sold_cost = zero\<rparr> = Inr w" and
    t: "t = after_fill s f cash (surviving_lots (ps_lots s) (sl_replacements w)) entry" and
    ok: "is_ok (checks (portfolio_checks t))" by metis
  have l: "list_all lot_ok (ps_lots s)" using assms(2) by (simp add: portfolio_ok_def)
  note loop = sale_loop [OF w l assms(3)]
  have d: "distinct (map l_opened_by_fill_id (ps_lots t))" using ok by (simp add: portfolio_checks_def is_ok_checks)
  show "map lot_view (map snd (eligible_lots t f)) = fifo (f_quantity f) (map lot_view (map snd (eligible_lots s f)))"
    using surviving_lots_order [OF loop(1) _ d] loop(2) t by simp
  show "filter (\<lambda>l. \<not> eligible f l) (ps_lots t) = filter (\<lambda>l. \<not> eligible f l) (ps_lots s)"
    using surviving_lots_ineligible [OF loop(1)] t by simp
  show "\<forall>l' \<in> set (ps_lots t). \<exists>l \<in> set (ps_lots s). l' = l \<or> part_of l' l"
    using surviving_lots_parts [OF loop(1)] t by simp
qed

section \<open>When a sale succeeds\<close>

lemma part_principal_ok:
  assumes "lot_ok l" "currency_ok (currency (l_cost_basis l))" "0 < w" "0 \<le> left"
  shows "\<exists>p. (case l_acquisition_principal l of None \<Rightarrow> Inr None
      | Some p \<Rightarrow> rbind (dec_div (dec_mul (amount p) (of_int left)) (of_int w))
          (\<lambda>q. rbind (mk_money q (currency p)) (\<lambda>m. Inr (Some m)))) = Inr p \<and>
    (\<forall>m. p = Some m \<longrightarrow> currency m = currency (l_cost_basis l) \<and> 0 \<le> amount m)"
proof (cases "l_acquisition_principal l")
  case (Some m)
  then have m: "currency m = currency (l_cost_basis l)" "0 \<le> amount m" using assms(1) by (auto simp: lot_ok_iff)
  have "dec_div (dec_mul (amount m) (of_int left)) (of_int w) = Inr (ctx (ctx (amount m * of_int left) / of_int w))"
    using assms(3) by (simp add: dec_div_def dec_mul_def)
  then show ?thesis using Some m assms(2-4) by simp
qed simp

lemma sell_part_of_lot_ok:
  assumes "lot_ok l" "currency_ok (currency (l_cost_basis l))" "representable (amount (l_cost_basis l))"
    "0 < n" "n < l_remaining_quantity l" "n < 10 ^ 27"
  shows "\<exists>a l'. sell_part_of_lot l n = Inr (a, l') \<and> currency a = currency (l_cost_basis l) \<and>
    0 \<le> amount a \<and> amount a \<le> amount (l_cost_basis l) \<and> (0 < amount (l_cost_basis l) \<longrightarrow> 0 < amount a)"
proof -
  define c where "c = amount (l_cost_basis l)"
  define a where "a = ctx (ctx (c * of_int n) / of_int (l_remaining_quantity l))"
  have cr: "representable c" "0 \<le> c" using assms(1,3) by (simp_all add: c_def lot_ok_iff)
  have ab: "0 \<le> a" "a \<le> c" using pro_rata_bounds [OF cr assms(4-6)] by (simp_all add: a_def)
  have ap: "0 < c \<Longrightarrow> 0 < a" using assms(4,5) by (simp add: a_def)
  have q: "(of_int (l_remaining_quantity l) :: rat) \<noteq> 0" using assms(4,5) by simp
  have div: "dec_div (dec_mul c (of_int n)) (of_int (l_remaining_quantity l)) = Inr a"
    using q by (simp add: dec_div_def dec_mul_def a_def)
  define left where "left = l_remaining_quantity l - n"
  have left: "mk_quantity left = Inr left" "0 < left" using assms(5) by (simp_all add: mk_quantity_def left_def)
  have basis: "money_sub (l_cost_basis l) \<lparr>amount = a, currency = currency (l_cost_basis l)\<rparr> =
      Inr \<lparr>amount = ctx (c - a), currency = currency (l_cost_basis l)\<rparr>"
    using assms(2) by (simp add: result_simps c_def)
  obtain p where p: "(case l_acquisition_principal l of None \<Rightarrow> Inr None
      | Some p \<Rightarrow> rbind (dec_div (dec_mul (amount p) (of_int left)) (of_int (l_remaining_quantity l)))
          (\<lambda>q. rbind (mk_money q (currency p)) (\<lambda>m. Inr (Some m)))) = Inr p"
    and pok: "\<And>m. p = Some m \<Longrightarrow> currency m = currency (l_cost_basis l) \<and> 0 \<le> amount m"
    using part_principal_ok [of l "l_remaining_quantity l" left] assms(1,2,4,5) left(2) by auto
  define l' where "l' = l\<lparr>l_remaining_quantity := left,
    l_cost_basis := \<lparr>amount = ctx (c - a), currency = currency (l_cost_basis l)\<rparr>, l_acquisition_principal := p\<rparr>"
  have "lot_ok l'" using assms(1) left(2) ab pok by (simp add: lot_ok_iff l'_def)
  then have lot: "mk_lot l' = Inr l'" by (simp only: mk_lot_Inr simp_thms)
  have "sell_part_of_lot l n = Inr (\<lparr>amount = a, currency = currency (l_cost_basis l)\<rparr>, l')"
    unfolding sell_part_of_lot_def left_def [symmetric] c_def [symmetric] div rbind_Inr mk_money_ok [OF assms(2)]
      left(1) basis p l'_def [symmetric] lot ..
  then show ?thesis using ab ap by (auto simp: c_def)
qed

definition lot_weight :: "nat \<Rightarrow> position_lot \<Rightarrow> rat" where
  "lot_weight k l = amount (l_cost_basis l) * 10 ^ k + 1"

lemma ctx_le_grid:
  assumes "x \<le> of_int m / 10 ^ k" "0 \<le> m" "of_int m < (10 ^ 28 :: rat)"
  shows "ctx x \<le> of_int m / 10 ^ k"
proof -
  have "ctx (of_int m / 10 ^ k) = of_int m / 10 ^ k"
    using assms(2,3) by (intro ctx_on_grid [of k]) (auto simp: on_grid_iff)
  then show ?thesis using ctx_mono [OF assms(1)] by simp
qed

lemma consume_lot_ok:
  assumes l: "lot_ok l" "currency (l_cost_basis l) = c" "currency_ok c" "representable (amount (l_cost_basis l))"
    "0 < amount (l_cost_basis l)"
    and w: "0 \<le> sl_remaining w" "sl_remaining w < 10 ^ 27" "currency (sl_sold_cost w) = c" "0 \<le> amount (sl_sold_cost w)"
    and m: "amount (sl_sold_cost w) \<le> of_int m / 10 ^ k" "0 \<le> m" "of_int m + lot_weight k l < 10 ^ 28"
  shows "\<exists>v m'. consume_lot (i, l) w = Inr v \<and> 0 \<le> sl_remaining v \<and> sl_remaining v < 10 ^ 27 \<and>
    currency (sl_sold_cost v) = c \<and> 0 \<le> amount (sl_sold_cost v) \<and>
    (0 < sl_remaining w \<or> 0 < amount (sl_sold_cost w) \<longrightarrow> 0 < amount (sl_sold_cost v)) \<and>
    (representable (amount (sl_sold_cost w)) \<longrightarrow> representable (amount (sl_sold_cost v))) \<and>
    amount (sl_sold_cost v) \<le> of_int m' / 10 ^ k \<and> 0 \<le> m' \<and> of_int m' \<le> of_int m + lot_weight k l"
proof (cases "sl_remaining w = 0")
  case True
  then show ?thesis using w m l by (intro exI [of _ w] exI [of _ m]) (auto simp: consume_lot_def lot_weight_def)
next
  case False
  define n where "n = min (sl_remaining w) (l_remaining_quantity l)"
  define cost where "cost = amount (l_cost_basis l)"
  have q: "0 < l_remaining_quantity l" using l by (simp add: lot_ok_iff)
  have n: "0 < n" "n \<le> l_remaining_quantity l" "n < 10 ^ 27" "n \<le> sl_remaining w" using False w q by (auto simp: n_def)
  obtain a r where ar: "(if n = l_remaining_quantity l then Inr (l_cost_basis l, None)
      else rbind (sell_part_of_lot l n) (\<lambda>(c, l'). Inr (c, Some l'))) = Inr (a, r)"
    and a: "currency a = c" "0 < amount a" "amount a \<le> cost"
  proof (cases "n = l_remaining_quantity l")
    case True
    then show thesis using l that [of "l_cost_basis l" None] by (simp add: cost_def)
  next
    case part: False
    then obtain a l' where "sell_part_of_lot l n = Inr (a, l')" "currency a = c" "amount a \<le> cost" "0 < amount a"
      using sell_part_of_lot_ok [of l n] l n by (auto simp: cost_def)
    then show thesis using part that [of a "Some l'"] by simp
  qed
  define m' where "m' = m + \<lceil>cost * 10 ^ k\<rceil>"
  have ceil: "cost * 10 ^ k \<le> of_int \<lceil>cost * 10 ^ k\<rceil>" "of_int \<lceil>cost * 10 ^ k\<rceil> \<le> cost * 10 ^ k + 1" by linarith+
  have m'u: "of_int m' \<le> of_int m + lot_weight k l" using ceil(2) by (simp add: m'_def lot_weight_def cost_def)
  have "0 \<le> cost * 10 ^ k" using l by (simp add: cost_def)
  then have m'0: "0 \<le> m'" using m(2) unfolding m'_def by (simp add: ceiling_mono add_nonneg_nonneg)
  have "cost \<le> of_int \<lceil>cost * 10 ^ k\<rceil> / 10 ^ k" using ceil(1) by (simp add: pos_le_divide_eq)
  then have "amount (sl_sold_cost w) + amount a \<le> of_int m' / 10 ^ k"
    using a m(1) by (simp add: m'_def add_divide_distrib)
  moreover have "of_int m' < (10 ^ 28 :: rat)" using m'u m(3) by linarith
  ultimately have bound: "ctx (amount (sl_sold_cost w) + amount a) \<le> of_int m' / 10 ^ k"
    using m'0 by (intro ctx_le_grid)
  have "money_add (sl_sold_cost w) a = Inr \<lparr>amount = ctx (amount (sl_sold_cost w) + amount a), currency = c\<rparr>"
    using a w l by (simp add: result_simps)
  then have "consume_lot (i, l) w = Inr \<lparr>sl_remaining = sl_remaining w - n, sl_replacements = (sl_replacements w)(i \<mapsto> r),
      sl_sold_cost = \<lparr>amount = ctx (amount (sl_sold_cost w) + amount a), currency = c\<rparr>\<rparr>"
    unfolding consume_lot_def Let_def fst_conv snd_conv n_def [symmetric]
    by (simp only: ar False if_False rbind_Inr split_conv)
  moreover have "0 < amount (sl_sold_cost w) + amount a" using a w by (simp add: add_nonneg_pos)
  ultimately show ?thesis using bound m'0 m'u n w by (auto intro!: exI [of _ m'] simp: less_imp_le)
qed

lemma consume_lots_ok:
  assumes "\<forall>e \<in> set es. lot_ok (snd e) \<and> currency (l_cost_basis (snd e)) = c \<and>
      representable (amount (l_cost_basis (snd e))) \<and> 0 < amount (l_cost_basis (snd e))"
    "currency_ok c" "0 \<le> sl_remaining w" "sl_remaining w < 10 ^ 27" "currency (sl_sold_cost w) = c"
    "0 \<le> amount (sl_sold_cost w)" "representable (amount (sl_sold_cost w))"
    "amount (sl_sold_cost w) \<le> of_int m / 10 ^ k" "0 \<le> m"
    "of_int m + sum_list (map (lot_weight k \<circ> snd) es) < 10 ^ 28"
  shows "\<exists>v. fold_res consume_lot es w = Inr v \<and> currency (sl_sold_cost v) = c \<and>
    representable (amount (sl_sold_cost v)) \<and>
    (es \<noteq> [] \<and> 0 < sl_remaining w \<or> 0 < amount (sl_sold_cost w) \<longrightarrow> 0 < amount (sl_sold_cost v)) \<and>
    amount (sl_sold_cost v) * 10 ^ k \<le> of_int m + sum_list (map (lot_weight k \<circ> snd) es)"
  using assms
proof (induction es arbitrary: w m)
  case Nil
  then show ?case by (simp add: pos_le_divide_eq)
next
  case (Cons e es)
  obtain i l where e: "e = (i, l)" by (cases e)
  have nn: "0 \<le> sum_list (map (lot_weight k \<circ> snd) es)"
    using Cons.prems(1) by (intro sum_list_nonneg) (auto simp: lot_weight_def)
  have "of_int m + lot_weight k l < 10 ^ 28" using Cons.prems(10) nn by (simp add: e comp_def)
  with consume_lot_ok [of l c w m k i] Cons.prems obtain v m' where
    v: "consume_lot (i, l) w = Inr v" "0 \<le> sl_remaining v" "sl_remaining v < 10 ^ 27" "currency (sl_sold_cost v) = c"
      "0 \<le> amount (sl_sold_cost v)" "0 < sl_remaining w \<or> 0 < amount (sl_sold_cost w) \<longrightarrow> 0 < amount (sl_sold_cost v)"
      "representable (amount (sl_sold_cost v))" and
    m': "amount (sl_sold_cost v) \<le> of_int m' / 10 ^ k" "0 \<le> m'" "of_int m' \<le> of_int m + lot_weight k l"
    by (auto simp: e)
  have "of_int m' + sum_list (map (lot_weight k \<circ> snd) es) < 10 ^ 28"
    using m'(3) Cons.prems(10) by (simp add: e comp_def)
  moreover have "\<forall>e \<in> set es. lot_ok (snd e) \<and> currency (l_cost_basis (snd e)) = c \<and>
      representable (amount (l_cost_basis (snd e))) \<and> 0 < amount (l_cost_basis (snd e))"
    using Cons.prems(1) by simp
  ultimately obtain u where "fold_res consume_lot es v = Inr u" "currency (sl_sold_cost u) = c" "representable (amount (sl_sold_cost u))"
    "0 < amount (sl_sold_cost v) \<longrightarrow> 0 < amount (sl_sold_cost u)"
    "amount (sl_sold_cost u) * 10 ^ k \<le> of_int m' + sum_list (map (lot_weight k \<circ> snd) es)"
    using Cons.IH [OF _ Cons.prems(2) v(2-5,7) m'(1,2)] by blast
  then show ?case using v(1,6) m'(3) by (intro exI [of _ u]) (auto simp: e comp_def)
qed

text \<open>The journal entry of a sale with net proceeds of at least zero.\<close>

definition sold_entry :: "fill_record \<Rightarrow> rat \<Rightarrow> ledger_entry" where
  "sold_entry f cost =
     (let c = currency (f_price f); gross = exact_gross f; fees = exact_fees (f_fees f) in
     \<lparr>le_fill_id = f_fill_id f, le_order_id = f_order_id f, le_occurred_at = f_filled_at f,
      le_postings =
        (if gross = fees then [] else [\<lparr>p_account = CashAccount, p_side = DEBIT,
           p_amount = \<lparr>amount = gross - fees, currency = c\<rparr>, p_component = CashComponent, p_instrument_id = None\<rparr>]) @
        map (\<lambda>(kind, m). \<lparr>p_account = fee_expense_account kind, p_side = DEBIT, p_amount = m,
          p_component = fee_component kind, p_instrument_id = Some (f_instrument_id f)\<rparr>) (positive_fees (f_fees f)) @
        \<lparr>p_account = PositionAsset, p_side = CREDIT, p_amount = \<lparr>amount = cost, currency = c\<rparr>,
          p_component = CostBasis, p_instrument_id = Some (f_instrument_id f)\<rparr> #
        (if gross = cost then [] else [\<lparr>p_account = RealizedPnl, p_side = (if cost < gross then CREDIT else DEBIT),
           p_amount = \<lparr>amount = ctx \<bar>gross - cost\<bar>, currency = c\<rparr>, p_component = RealizedPnlComponent,
           p_instrument_id = Some (f_instrument_id f)\<rparr>])\<rparr>)"

lemma signed_posting_eq:
  assumes "currency_ok (currency m)"
  shows "signed_posting m side account component ins =
    Inr (if amount m = 0 then []
         else [\<lparr>p_account = account, p_side = (if amount m < 0 then opposite_side side else side),
           p_amount = \<lparr>amount = (if amount m < 0 then ctx (- amount m) else amount m), currency = currency m\<rparr>,
           p_component = component, p_instrument_id = ins\<rparr>])"
proof -
  have "0 < ctx (- amount m)" if "amount m < 0" using that by simp
  then show ?thesis using assms
    by (auto simp: signed_posting_def mk_posting_def construct_def checks.simps dec_neg_def not_le money_eq_iff
      simp flip: not_less)
qed

lemma sold_entry_balanced:
  assumes f: "fill_ok f" "fill_on_grid k f" "exact_fees (f_fees f) \<le> exact_gross f"
    and c: "0 < cost" "representable cost" "cost * 10 ^ k < 10 ^ 27"
  shows "mk_ledger_entry (sold_entry f cost) = Inr (sold_entry f cost)"
proof -
  define g where "g = exact_gross f"
  define x where "x = exact_fees (f_fees f)"
  define base where "base = (if g = x then [] else [g - x]) @ map (amount \<circ> snd) (positive_fees (f_fees f))"
  note gr = fill_grid_facts [OF f(1,2), folded g_def x_def]
  have gp: "0 < g" using exact_gross_pos [OF f(1)] by (simp add: g_def)
  have fo: "fees_ok (f_fees f)" and cur: "currency_ok (currency (f_price f))"
    using f(1) by (simp_all add: fill_ok_iff price_ok_def money_ok_def)
  have sum: "sum_list base = g" by (simp add: base_def positive_fees_sum [OF fo] x_def)
  have el: "\<forall>y \<in> set base. on_grid k y \<and> 0 \<le> y"
    using positive_fees_facts [OF f(1,2)] gr f(3) by (auto simp: base_def on_grid_diff g_def x_def less_imp_le)
  have base: "ctx_sum 0 base = g"
    using ctx_sum_exact [of k 0 base] el sum gr(3) by simp
  have two: "2 \<le> length (le_postings (sold_entry f cost))"
  proof (cases "g = x")
    case True
    then have "positive_fees (f_fees f) \<noteq> []" using sum gp by (auto simp: base_def)
    then show ?thesis using True by (simp add: sold_entry_def Let_def g_def x_def Suc_le_eq)
  qed (simp add: sold_entry_def Let_def g_def x_def)
  have debit: "side_amounts DEBIT (le_postings (sold_entry f cost)) = base @ (if g < cost then [ctx (cost - g)] else [])"
    and credit: "side_amounts CREDIT (le_postings (sold_entry f cost)) = cost # (if cost < g then [ctx (g - cost)] else [])"
    by (auto simp: sold_entry_def Let_def base_def g_def x_def side_amounts_map [where t = DEBIT] comp_def case_prod_beta)
  have "ctx_sum 0 (base @ (if g < cost then [ctx (cost - g)] else [])) = ctx_sum 0 (cost # (if cost < g then [ctx (g - cost)] else []))"
  proof (rule linorder_cases [of g cost])
    assume "g < cost"
    then have "ctx (cost - g) = cost - g" using gr c gp by (intro ctx_excess [of k]) auto
    then show ?thesis using \<open>g < cost\<close> c by (simp add: ctx_sum_append base representable_def)
  next
    assume "cost < g"
    then show ?thesis using ctx_complement [OF gr(1,3) c(1)] c by (simp add: base representable_def)
  qed (use base c in \<open>simp add: representable_def\<close>)
  then show ?thesis
    using two cur positive_fees_facts(3) [OF f(1,2)] unfolding mk_ledger_entry_def
    by (subst mk_ledger_entry_eq [unfolded mk_ledger_entry_def, of _ "currency (f_price f)"])
      (auto simp: debit credit, auto simp: sold_entry_def Let_def split: if_splits)
qed

lemma sell_entry_exact:
  assumes f: "fill_ok f" "fill_on_grid k f" "exact_fees (f_fees f) \<le> exact_gross f"
    and c: "0 < cost" "representable cost" "cost * 10 ^ k < 10 ^ 27"
  shows "sell_entry f \<lparr>amount = cost, currency = currency (f_price f)\<rparr> = Inr (sold_entry f cost)"
proof -
  note g = fill_grid_facts [OF f(1,2)] exact_gross_pos [OF f(1)]
  have fo: "fees_ok (f_fees f)" and cur: "currency_ok (currency (f_price f))"
    using f(1) by (simp_all add: fill_ok_iff price_ok_def money_ok_def)
  have "ctx (exact_gross f - exact_fees (f_fees f)) = exact_gross f - exact_fees (f_fees f)"
    using g f(3) exact_fees_nonneg [OF fo] by (intro ctx_grid_diff [of k]) auto
  then have net: "money_sub \<lparr>amount = exact_gross f, currency = currency (f_price f)\<rparr>
      \<lparr>amount = exact_fees (f_fees f), currency = currency (f_price f)\<rparr> =
      Inr \<lparr>amount = exact_gross f - exact_fees (f_fees f), currency = currency (f_price f)\<rparr>"
    using cur by (simp add: result_simps)
  have pnl: "money_sub \<lparr>amount = exact_gross f, currency = currency (f_price f)\<rparr>
      \<lparr>amount = cost, currency = currency (f_price f)\<rparr> =
      Inr \<lparr>amount = ctx (exact_gross f - cost), currency = currency (f_price f)\<rparr>"
    using cur by (simp add: result_simps)
  have neg: "ctx (exact_gross f - cost) < 0 \<longleftrightarrow> exact_gross f < cost"
    using ctx_nonneg_iff [of "exact_gross f - cost"] by linarith
  have asset: "mk_posting \<lparr>p_account = PositionAsset, p_side = CREDIT, p_amount = \<lparr>amount = cost, currency = currency (f_price f)\<rparr>,
      p_component = CostBasis, p_instrument_id = Some (f_instrument_id f)\<rparr> =
    Inr \<lparr>p_account = PositionAsset, p_side = CREDIT, p_amount = \<lparr>amount = cost, currency = currency (f_price f)\<rparr>,
      p_component = CostBasis, p_instrument_id = Some (f_instrument_id f)\<rparr>"
    using c(1) by (simp add: mk_posting_def construct_def checks.simps)
  have "ctx \<bar>exact_gross f - cost\<bar> = \<bar>ctx (exact_gross f - cost)\<bar>"
    using neg by (cases "exact_gross f < cost") (simp_all add: abs_if flip: ctx_minus)
  then have "sell_entry f \<lparr>amount = cost, currency = currency (f_price f)\<rparr> = mk_ledger_entry (sold_entry f cost)"
    using f(3) cur neg
    by (auto simp: sell_entry_def gross_amount_exact [OF f(1,2)] fee_total_exact [OF f(1,2)] net pnl asset
      signed_posting_eq expense_fee_postings_eq sold_entry_def Let_def abs_if ctx_minus)
  then show ?thesis by (simp add: sold_entry_balanced [OF assms])
qed

lemma map_filter_key:
  "(\<And>e y. e \<in> set xs \<Longrightarrow> g e = Some y \<Longrightarrow> h y = k e) \<Longrightarrow>
     map h (List.map_filter g xs) = map k (filter (\<lambda>e. g e \<noteq> None) xs)"
  by (induction xs) (auto split: option.splits)

lemma map_enumerate: "map (\<lambda>e. h (snd e)) (List.enumerate n xs) = map h xs"
  by (induction xs arbitrary: n) auto

lemma surviving_lots_distinct:
  assumes "sale_map s f r" "distinct (map l_opened_by_fill_id (ps_lots s))"
  shows "distinct (map l_opened_by_fill_id (surviving_lots (ps_lots s) r))"
proof -
  have "map l_opened_by_fill_id (surviving_lots (ps_lots s) r) =
      map (\<lambda>e. l_opened_by_fill_id (snd e)) (filter (\<lambda>e. replace_lot r e \<noteq> None) (List.enumerate 0 (ps_lots s)))"
    unfolding surviving_lots_eq
  proof (rule map_filter_key)
    fix e l assume "e \<in> set (List.enumerate 0 (ps_lots s))" "replace_lot r e = Some l"
    from sale_map_same(2) [OF assms(1) this] show "l_opened_by_fill_id l = l_opened_by_fill_id (snd e)"
      by (simp add: lot_key_def)
  qed
  moreover have "map (\<lambda>e. l_opened_by_fill_id (snd e)) (List.enumerate 0 (ps_lots s)) = map l_opened_by_fill_id (ps_lots s)"
    by (rule map_enumerate)
  ultimately show ?thesis using assms(2) by (simp add: distinct_map_filter)
qed

lemma ledger_entry_currency_eq:
  "le_postings e \<noteq> [] \<Longrightarrow> \<forall>p \<in> set (le_postings e). currency (p_amount p) = c \<Longrightarrow> ledger_entry_currency e = Inr c"
  by (cases "le_postings e") (auto simp: ledger_entry_currency_def)

lemma sold_entry_currency:
  assumes "fill_ok f" "fill_on_grid k f"
  shows "ledger_entry_currency (sold_entry f cost) = Inr (currency (f_price f))"
  using positive_fees_facts(3) [OF assms]
  by (intro ledger_entry_currency_eq) (auto simp: sold_entry_def Let_def split: if_splits)

lemma eligible_quantity:
  "sum_list (map (l_remaining_quantity \<circ> snd) (eligible_lots s f)) = sellable_quantity s (f_instrument_id f) (trading_date f)"
proof -
  have "mset (map snd (eligible_lots s f)) = mset (filter (eligible f) (ps_lots s))"
    by (simp only: mset_map mset_eligible_lots flip: filter_enumerate [of "eligible f" 0])
  then have "mset (map l_remaining_quantity (map snd (eligible_lots s f))) =
      mset (map l_remaining_quantity (filter (eligible f) (ps_lots s)))"
    by (simp only: mset_map)
  then have "sum_list (map l_remaining_quantity (map snd (eligible_lots s f))) =
      sum_list (map l_remaining_quantity (filter (eligible f) (ps_lots s)))"
    by (metis sum_mset_sum_list)
  then show ?thesis by (simp add: sellable_quantity_def eligible_def [abs_def] comp_def)
qed

lemma surviving_lots_currency:
  assumes "sale_map s f r" "is_ok (checks (portfolio_checks s))" "l \<in> set (surviving_lots (ps_lots s) r)"
  shows "currency (l_cost_basis l) = currency (ps_cash s)"
proof -
  obtain l' where "l' \<in> set (ps_lots s)" "l = l' \<or> part_of l l'" using surviving_lots_parts [OF assms(1,3)] by auto
  then show ?thesis using assms(2) part_of_simps(6) by (auto simp: portfolio_checks_def is_ok_checks list_ex_iff)
qed

text \<open>The lots a sale may consume have a positive cost of at most 28 digits, and their sum fits the context.\<close>

definition saleable :: "nat \<Rightarrow> portfolio_state \<Rightarrow> fill_record \<Rightarrow> bool" where
  "saleable k s f \<longleftrightarrow>
     list_all (\<lambda>l. representable (amount (l_cost_basis l)) \<and> 0 < amount (l_cost_basis l)) (filter (eligible f) (ps_lots s)) \<and>
     sum_list (map (lot_weight k) (filter (eligible f) (ps_lots s))) < 10 ^ 27"

lemma eligible_weight:
  "sum_list (map (lot_weight k \<circ> snd) (eligible_lots s f)) = sum_list (map (lot_weight k) (filter (eligible f) (ps_lots s)))"
proof -
  have "mset (map (lot_weight k) (map snd (eligible_lots s f))) = mset (map (lot_weight k) (filter (eligible f) (ps_lots s)))"
    by (simp only: mset_map mset_eligible_lots flip: filter_enumerate [of "eligible f" 0])
  then have "sum_list (map (lot_weight k) (map snd (eligible_lots s f))) = sum_list (map (lot_weight k) (filter (eligible f) (ps_lots s)))"
    by (metis sum_mset_sum_list)
  then show ?thesis by simp
qed

lemma apply_sell_succeeds:
  assumes s: "portfolio_ok s" "on_grid k (amount (ps_cash s))" "(amount (ps_cash s) + exact_gross f) * 10 ^ k < 10 ^ 28"
    and f: "fill_ok f" "fill_on_grid k f" "exact_fees (f_fees f) \<le> exact_gross f" "f_quantity f < 10 ^ 27"
    and r: "require_fill s f SELL = Inr ()" and l: "saleable k s f"
    and q: "f_quantity f \<le> sellable_quantity s (f_instrument_id f) (trading_date f)"
  shows "\<exists>cost lots. 0 < cost \<and> mk_ledger_entry (sold_entry f cost) = Inr (sold_entry f cost) \<and>
    apply_sell s f = Inr (after_fill s f
      \<lparr>amount = amount (ps_cash s) + exact_gross f - exact_fees (f_fees f), currency = currency (ps_cash s)\<rparr>
      lots (sold_entry f cost))"
proof -
  have side: "currency (f_price f) = currency (ps_cash s)" "f_fill_id f \<notin> applied_fill_ids s" using r by (auto simp: require_fill_ok)
  have s2: "list_all lot_ok (ps_lots s)" "currency_ok (currency (ps_cash s))" "is_ok (checks (portfolio_checks s))"
    and cash0: "0 \<le> amount (ps_cash s)" and dist: "distinct (map l_opened_by_fill_id (ps_lots s))"
    using s(1) by (simp_all add: portfolio_ok_def portfolio_checks_def is_ok_checks)
  have qp: "0 < f_quantity f" using f(1) by (simp add: fill_ok_iff)
  have ne: "eligible_lots s f \<noteq> []"
    using q qp eligible_quantity [of s f] by auto
  have el: "\<forall>e \<in> set (eligible_lots s f). lot_ok (snd e) \<and> currency (l_cost_basis (snd e)) = currency (ps_cash s) \<and>
      representable (amount (l_cost_basis (snd e))) \<and> 0 < amount (l_cost_basis (snd e))"
    using s2(1,3) l unfolding set_eligible_lots
    by (auto simp: list_all_iff saleable_def portfolio_checks_def is_ok_checks list_ex_iff dest!: enumerate_mem)
  have "sum_list (map (lot_weight k \<circ> snd) (eligible_lots s f)) < 10 ^ 27"
    using l by (simp only: eligible_weight saleable_def)
  then obtain w where w: "fold_res consume_lot (eligible_lots s f) \<lparr>sl_remaining = f_quantity f, sl_replacements = Map.empty,
      sl_sold_cost = \<lparr>amount = 0, currency = currency (ps_cash s)\<rparr>\<rparr> = Inr w"
    and wc: "currency (sl_sold_cost w) = currency (ps_cash s)" "representable (amount (sl_sold_cost w))"
      "0 < amount (sl_sold_cost w)" "amount (sl_sold_cost w) * 10 ^ k < 10 ^ 27"
    using consume_lots_ok [OF el s2(2), of "\<lparr>sl_remaining = f_quantity f, sl_replacements = Map.empty,
      sl_sold_cost = \<lparr>amount = 0, currency = currency (ps_cash s)\<rparr>\<rparr>" 0 k] ne qp f(4) by force
  define cost where "cost = amount (sl_sold_cost w)"
  have sold: "sl_sold_cost w = \<lparr>amount = cost, currency = currency (f_price f)\<rparr>"
    using wc side by (simp add: cost_def money_eq_iff)
  have entry: "sell_entry f (sl_sold_cost w) = Inr (sold_entry f cost)"
    unfolding sold using wc by (intro sell_entry_exact [OF f(1-3)]) (simp_all add: cost_def)
  note g = fill_grid_facts [OF f(1,2)] exact_gross_pos [OF f(1)]
  have fees0: "0 \<le> exact_fees (f_fees f)" using f(1) by (simp add: fill_ok_iff exact_fees_nonneg)
  have add: "ctx (amount (ps_cash s) + exact_gross f) = amount (ps_cash s) + exact_gross f"
    using s(2,3) g cash0 by (intro ctx_on_grid [of k]) (auto simp: on_grid_add)
  have sub: "ctx (amount (ps_cash s) + exact_gross f - exact_fees (f_fees f)) =
      amount (ps_cash s) + exact_gross f - exact_fees (f_fees f)"
    using s(2,3) g fees0 f(3) cash0 by (intro ctx_grid_diff [of k]) (auto simp: on_grid_add)
  define cash where "cash = \<lparr>amount = amount (ps_cash s) + exact_gross f - exact_fees (f_fees f), currency = currency (ps_cash s)\<rparr>"
  define t where "t = after_fill s f cash (surviving_lots (ps_lots s) (sl_replacements w)) (sold_entry f cost)"
  have map_ok: "sale_map s f (sl_replacements w)" using sale_loop [OF w s2(1)] qp by simp
  have "is_ok (checks (portfolio_checks t))"
    unfolding t_def using side s2 f(3) cash0 surviving_lots_distinct [OF map_ok dist] surviving_lots_currency [OF map_ok s2(3)]
      sold_entry_currency [OF f(1,2)]
    by (intro after_fill_ok) (auto simp: cash_def sold_entry_def Let_def)
  then have "mk_portfolio t = Inr t" by (simp add: mk_portfolio_Inr)
  moreover have "money_zero (currency (ps_cash s)) = Inr \<lparr>amount = 0, currency = currency (ps_cash s)\<rparr>"
    using s2(2) by (simp add: money_zero_def)
  moreover have "money_add (ps_cash s) \<lparr>amount = exact_gross f, currency = currency (f_price f)\<rparr> =
      Inr \<lparr>amount = amount (ps_cash s) + exact_gross f, currency = currency (ps_cash s)\<rparr>"
    using add side s2(2) by (simp add: result_simps)
  moreover have "money_sub \<lparr>amount = amount (ps_cash s) + exact_gross f, currency = currency (ps_cash s)\<rparr>
      \<lparr>amount = exact_fees (f_fees f), currency = currency (f_price f)\<rparr> = Inr cash"
    using sub side s2(2) by (simp add: result_simps cash_def)
  moreover have "\<not> amount cash < 0" using f(3) cash0 by (simp add: cash_def)
  ultimately have "apply_sell s f = Inr t"
    using q by (simp add: apply_sell_def r eligible_quantity w entry gross_amount_exact [OF f(1,2)]
      fee_total_exact [OF f(1,2)] t_def after_fill_def)
  moreover have "mk_ledger_entry (sold_entry f cost) = Inr (sold_entry f cost)"
    using wc by (intro sold_entry_balanced [OF f(1-3)]) (simp_all add: cost_def)
  ultimately show ?thesis using wc by (auto simp: t_def cash_def cost_def)
qed

text \<open>C29: on a well-formed portfolio, a sale whose eligible lots all have a positive cost, whose fees do
  not exceed its gross amount and whose amounts fit the decimal context has exactly the outcome of the
  source's guards: a wrong side, a fill already applied, another currency, and a quantity above the
  quantity that is sellable on the trading date (T+1) each raise their own error; otherwise the
  sale succeeds with cash increased by exactly gross minus fees and a journal entry whose debits
  equal its credits: net cash, fees, the cost sold and the realised profit or loss.\<close>

theorem apply_sell_outcome:
  assumes "portfolio_ok s" "on_grid k (amount (ps_cash s))" "(amount (ps_cash s) + exact_gross f) * 10 ^ k < 10 ^ 28"
    and "fill_ok f" "fill_on_grid k f" "exact_fees (f_fees f) \<le> exact_gross f" "f_quantity f < 10 ^ 27"
    and "saleable k s f"
  shows "if f_side f \<noteq> SELL then apply_sell s f = Inl InvalidFillSideError
    else if f_fill_id f \<in> applied_fill_ids s then apply_sell s f = Inl DuplicateFillError
    else if currency (f_price f) \<noteq> currency (ps_cash s)
      then apply_sell s f = Inl (PortfolioInvariantError ''fill and portfolio cash currencies must match'')
    else if sellable_quantity s (f_instrument_id f) (trading_date f) < f_quantity f
      then apply_sell s f = Inl InsufficientSellableQuantityError
    else \<exists>cost lots. 0 < cost \<and> mk_ledger_entry (sold_entry f cost) = Inr (sold_entry f cost) \<and>
      apply_sell s f = Inr (after_fill s f
        \<lparr>amount = amount (ps_cash s) + exact_gross f - exact_fees (f_fees f), currency = currency (ps_cash s)\<rparr>
        lots (sold_entry f cost))"
proof (cases "f_side f = SELL \<and> f_fill_id f \<notin> applied_fill_ids s \<and> currency (f_price f) = currency (ps_cash s)")
  case False
  then show ?thesis by (auto simp: apply_sell_def require_fill_def checks.simps)
next
  case True
  then have r: "require_fill s f SELL = Inr ()" by (simp add: require_fill_ok)
  show ?thesis
  proof (cases "sellable_quantity s (f_instrument_id f) (trading_date f) < f_quantity f")
    case True
    then show ?thesis
      using \<open>f_side f = SELL \<and> f_fill_id f \<notin> applied_fill_ids s \<and> currency (f_price f) = currency (ps_cash s)\<close>
      by (simp add: apply_sell_def r eligible_quantity)
  next
    case False
    then show ?thesis using True apply_sell_succeeds [OF assms(1-7) r assms(8)] by (simp add: not_less)
  qed
qed

lemma apply_sell_quantities:
  assumes "apply_sell s f = Inr t" "portfolio_ok s" "fill_ok f"
  shows "map lot_view (map snd (eligible_lots t f)) = fifo (f_quantity f) (map lot_view (map snd (eligible_lots s f)))"
    and "filter (\<lambda>l. \<not> eligible f l) (ps_lots t) = filter (\<lambda>l. \<not> eligible f l) (ps_lots s)"
    and "sellable_quantity t (f_instrument_id f) (trading_date f) =
      sellable_quantity s (f_instrument_id f) (trading_date f) - f_quantity f"
    and "0 < f_quantity f" "f_quantity f \<le> sellable_quantity s (f_instrument_id f) (trading_date f)"
proof -
  show q: "0 < f_quantity f" using assms(3) by (simp add: fill_ok_iff)
  note lots = apply_sell_lots [OF assms(1,2) less_imp_le [OF q]]
  show "map lot_view (map snd (eligible_lots t f)) = fifo (f_quantity f) (map lot_view (map snd (eligible_lots s f)))"
    "filter (\<lambda>l. \<not> eligible f l) (ps_lots t) = filter (\<lambda>l. \<not> eligible f l) (ps_lots s)"
    by (rule lots)+
  show le: "f_quantity f \<le> sellable_quantity s (f_instrument_id f) (trading_date f)"
    using apply_sellE [OF assms(1)] eligible_quantity [of s f] by metis
  have view: "sum_list (map snd (map lot_view (map snd (eligible_lots u f)))) =
      sellable_quantity u (f_instrument_id f) (trading_date f)" for u
    using eligible_quantity [of u f] by (simp add: lot_view_def comp_def)
  have "\<forall>p \<in> set (map lot_view (map snd (eligible_lots s f))). 0 < snd p"
    using assms(2) by (auto simp: set_eligible_lots lot_view_def portfolio_ok_def list_all_iff lot_ok_iff dest!: enumerate_mem)
  from fifo_sum [OF less_imp_le [OF q] _ this] show "sellable_quantity t (f_instrument_id f) (trading_date f) =
      sellable_quantity s (f_instrument_id f) (trading_date f) - f_quantity f"
    using le lots(1) view by metis
qed

text \<open>The shares that may be sold and were acquired before a lot; the opening fill decides between equal instants.\<close>

definition shares_before :: "portfolio_state \<Rightarrow> fill_record \<Rightarrow> position_lot \<Rightarrow> int" where
  "shares_before s f x = sum_list (map l_remaining_quantity (filter (\<lambda>y.
     l_instrument_id y = f_instrument_id f \<and> l_sellable_on y \<le> trading_date f \<and>
     (l_acquired_at y < l_acquired_at x \<or> (l_acquired_at y = l_acquired_at x \<and> l_opened_by_fill_id y < l_opened_by_fill_id x)))
     (ps_lots s)))"

definition lot_quantity :: "portfolio_state \<Rightarrow> string \<Rightarrow> int" where
  "lot_quantity s i = sum_list (map l_remaining_quantity (filter (\<lambda>l. l_opened_by_fill_id l = i) (ps_lots s)))"

lemma mset_eligible_lots_snd: "mset (map snd (eligible_lots s f)) = mset (filter (eligible f) (ps_lots s))"
  by (simp only: mset_map mset_eligible_lots flip: filter_enumerate [of "eligible f" 0])

lemma sum_filter_mset:
  "mset xs = mset ys \<Longrightarrow> sum_list (map (g :: 'a \<Rightarrow> int) (filter P xs)) = sum_list (map g (filter P ys))"
  by (metis mset_filter mset_map sum_mset_sum_list)

lemma shares_before_eligible:
  assumes "distinct (map l_opened_by_fill_id (ps_lots s))" "eligible_lots s f = xs @ e # ys"
  shows "shares_before s f (snd e) = sum_list (map (l_remaining_quantity \<circ> snd) xs)"
proof -
  let ?zs = "map snd (eligible_lots s f)"
  note m = mset_eligible_lots_snd [of s f]
  have "distinct (map l_opened_by_fill_id (filter (eligible f) (ps_lots s)))" using assms(1) by (rule distinct_map_filter)
  then have d: "distinct (map l_opened_by_fill_id ?zs)" using m by (metis mset_eq_imp_distinct_iff mset_map)
  have sorted: "sorted (map lot_key ?zs)" using sorted_eligible_lots [of s f] by (simp add: comp_def)
  have "lot_key y < lot_key (snd e)" if "y \<in> set (map snd xs)" for y
  proof -
    have "lot_key y \<le> lot_key (snd e)" using that sorted unfolding assms(2) by (auto simp: sorted_append)
    moreover have "l_opened_by_fill_id y \<noteq> l_opened_by_fill_id (snd e)" using that d unfolding assms(2) by (auto simp: image_iff)
    then have "lot_key y \<noteq> lot_key (snd e)" by (simp add: lot_key_def)
    ultimately show ?thesis by simp
  qed
  moreover have "\<not> lot_key y < lot_key (snd e)" if "y \<in> set (map snd (e # ys))" for y
    using that sorted unfolding assms(2) by (auto simp: sorted_append)
  ultimately have prefix: "filter (\<lambda>y. lot_key y < lot_key (snd e)) ?zs = map snd xs"
    unfolding assms(2) by (auto simp: filter_id_conv filter_empty_conv)
  have "shares_before s f (snd e) =
      sum_list (map l_remaining_quantity (filter (\<lambda>y. lot_key y < lot_key (snd e)) (filter (eligible f) (ps_lots s))))"
    unfolding shares_before_def filter_filter
    by (intro arg_cong [where f = sum_list] arg_cong [where f = "map l_remaining_quantity"] filter_cong refl)
      (auto simp: eligible_def lot_key_def less_prod_def)
  also have "\<dots> = sum_list (map l_remaining_quantity (filter (\<lambda>y. lot_key y < lot_key (snd e)) ?zs))"
    by (rule sum_filter_mset [OF m [symmetric]])
  finally show ?thesis unfolding prefix map_map .
qed

lemma no_entry: "i \<notin> fst ` set qs \<Longrightarrow> filter (\<lambda>p. fst p = i) qs = []"
  by (induction qs) auto

lemma fifo_other: "i \<notin> fst ` set qs \<Longrightarrow> filter (\<lambda>p. fst p = i) (fifo n qs) = []"
  by (induction n qs rule: fifo.induct) (auto simp: no_entry)

lemma fifo_quantity:
  assumes "distinct (map fst (xs @ (i, q) # ys))" "\<forall>p \<in> set (xs @ (i, q) # ys). 0 < snd p" "0 \<le> n"
  shows "sum_list (map snd (filter (\<lambda>p. fst p = i) (fifo n (xs @ (i, q) # ys)))) =
    max 0 (q - max 0 (n - sum_list (map snd xs)))"
  using assms
proof (induction xs arbitrary: n)
  case Nil
  then have "filter (\<lambda>p. fst p = i) ys = []" by (auto simp: filter_empty_conv)
  then show ?case using Nil fifo_other [of i ys "n - q"] by (auto simp: max_def)
next
  case (Cons p xs)
  obtain j r where p: "p = (j, r)" by (cases p)
  have f: "filter (\<lambda>p. fst p = i) (xs @ (i, q) # ys) = [(i, q)]" "j \<noteq> i"
    using Cons.prems(1) by (auto simp: p no_entry)
  have nn: "0 \<le> sum_list (map snd xs)" using Cons.prems(2) by (intro sum_list_nonneg) force
  show ?case
  proof (cases "n \<noteq> 0 \<and> r \<le> n")
    case True
    then show ?thesis using Cons.IH [of "n - r"] Cons.prems f(2) by (simp add: p algebra_simps)
  next
    case False
    then have "n < r \<or> n = 0" "0 < q" "0 < r" using Cons.prems(2) by (auto simp: p)
    then show ?thesis using False f nn Cons.prems(3) by (auto simp: p max_def)
  qed
qed

lemma lot_quantity_eligible:
  assumes "x \<in> set (ps_lots s)" "eligible f x" "distinct (map l_opened_by_fill_id (ps_lots s))"
    and "filter (\<lambda>l. \<not> eligible f l) (ps_lots t) = filter (\<lambda>l. \<not> eligible f l) (ps_lots s)"
  shows "lot_quantity t (l_opened_by_fill_id x) =
    sum_list (map snd (filter (\<lambda>p. fst p = l_opened_by_fill_id x) (map lot_view (map snd (eligible_lots t f)))))"
proof -
  let ?i = "l_opened_by_fill_id x"
  have "eligible f l" if "l \<in> set (ps_lots t)" "l_opened_by_fill_id l = ?i" for l
  proof (rule ccontr)
    assume "\<not> eligible f l"
    then have "l \<in> set (filter (\<lambda>l. \<not> eligible f l) (ps_lots s))" using that(1) unfolding assms(4) [symmetric] by simp
    then have "l = x" using that(2) assms(1,3) by (auto simp: distinct_map dest: inj_onD)
    then show False using \<open>\<not> eligible f l\<close> assms(2) by simp
  qed
  then have "filter (\<lambda>l. l_opened_by_fill_id l = ?i) (ps_lots t) = filter (\<lambda>l. l_opened_by_fill_id l = ?i) (filter (eligible f) (ps_lots t))"
    by (auto intro: filter_cong)
  then show ?thesis
    using sum_filter_mset [OF mset_eligible_lots_snd [of t f], of l_remaining_quantity "\<lambda>l. l_opened_by_fill_id l = ?i"]
    by (simp add: lot_quantity_def lot_view_def filter_map comp_def)
qed

text \<open>C10: shares are sold first in, first out, and only the shares that may be sold: a lot of the instrument that is sellable on
  the trading date keeps what the sale needs beyond the sellable lots acquired before it (by instant, then by opening
  fill), so every lot is emptied before a later one is touched; all lots of other instruments and all lots still locked
  by T+1 stay exactly as they were, in their order, every remaining lot is one of the lots before with at most
  its quantity, cost and principal changed, and the sellable quantity falls by exactly the quantity sold.\<close>

theorem apply_sell_fifo:
  assumes "apply_sell s f = Inr t" "portfolio_ok s" "fill_ok f"
  shows "(\<forall>x \<in> set (ps_lots s). l_instrument_id x = f_instrument_id f \<and> l_sellable_on x \<le> trading_date f \<longrightarrow>
      lot_quantity t (l_opened_by_fill_id x) = max 0 (l_remaining_quantity x - max 0 (f_quantity f - shares_before s f x))) \<and>
    filter (\<lambda>l. \<not> (l_instrument_id l = f_instrument_id f \<and> l_sellable_on l \<le> trading_date f)) (ps_lots t) =
      filter (\<lambda>l. \<not> (l_instrument_id l = f_instrument_id f \<and> l_sellable_on l \<le> trading_date f)) (ps_lots s) \<and>
    (\<forall>l' \<in> set (ps_lots t). \<exists>l \<in> set (ps_lots s). l' = l\<lparr>l_remaining_quantity := l_remaining_quantity l',
      l_cost_basis := l_cost_basis l', l_acquisition_principal := l_acquisition_principal l'\<rparr>) \<and>
    sellable_quantity t (f_instrument_id f) (trading_date f) =
      sellable_quantity s (f_instrument_id f) (trading_date f) - f_quantity f \<and>
    0 < f_quantity f \<and> f_quantity f \<le> sellable_quantity s (f_instrument_id f) (trading_date f)"
proof -
  note sale = apply_sell_quantities [OF assms]
  have d: "distinct (map l_opened_by_fill_id (ps_lots s))" and ok: "list_all lot_ok (ps_lots s)"
    using assms(2) by (simp_all add: portfolio_ok_def portfolio_checks_def is_ok_checks)
  have "lot_quantity t (l_opened_by_fill_id x) = max 0 (l_remaining_quantity x - max 0 (f_quantity f - shares_before s f x))"
    if x: "x \<in> set (ps_lots s)" "eligible f x" for x
  proof -
    have m: "set (map snd (eligible_lots s f)) = set (filter (eligible f) (ps_lots s))"
      by (rule mset_eq_setD [OF mset_eligible_lots_snd])
    then have "x \<in> set (map snd (eligible_lots s f))" using x by simp
    then obtain e where "e \<in> set (eligible_lots s f)" "snd e = x" by auto
    then obtain xs ys where e: "eligible_lots s f = xs @ e # ys" "snd e = x" by (auto dest: split_list)
    let ?view = "\<lambda>e. lot_view (snd e)"
    have v: "map lot_view (map snd (eligible_lots s f)) = map ?view xs @ (l_opened_by_fill_id x, l_remaining_quantity x) # map ?view ys"
      using e by (simp add: lot_view_def)
    have "distinct (map l_opened_by_fill_id (filter (eligible f) (ps_lots s)))" using d by (rule distinct_map_filter)
    then have "distinct (map l_opened_by_fill_id (map snd (eligible_lots s f)))"
      using mset_eligible_lots_snd by (metis mset_eq_imp_distinct_iff mset_map)
    then have dv: "distinct (map fst (map lot_view (map snd (eligible_lots s f))))" by (simp add: lot_view_def comp_def)
    have pos: "\<forall>p \<in> set (map lot_view (map snd (eligible_lots s f))). 0 < snd p"
      using m ok by (auto simp: lot_view_def list_all_iff lot_ok_iff image_iff) 
    have "sum_list (map snd (map ?view xs)) = shares_before s f x"
      using shares_before_eligible [OF d e(1)] e(2) by (simp add: lot_view_def comp_def)
    then show ?thesis
      unfolding lot_quantity_eligible [OF x d sale(2)] sale(1) v
      using fifo_quantity [OF dv [unfolded v] pos [unfolded v] less_imp_le [OF sale(4)]] by (simp only:)
  qed
  moreover have "\<exists>l \<in> set (ps_lots s). l' = l\<lparr>l_remaining_quantity := l_remaining_quantity l',
      l_cost_basis := l_cost_basis l', l_acquisition_principal := l_acquisition_principal l'\<rparr>" if lot: "l' \<in> set (ps_lots t)" for l'
  proof -
    obtain l where l: "l \<in> set (ps_lots s)" "l' = l \<or> part_of l' l"
      using apply_sell_lots(3) [OF assms(1,2) less_imp_le [OF sale(4)], THEN bspec, OF lot] by (rule bexE)
    have "l' = l\<lparr>l_remaining_quantity := l_remaining_quantity l', l_cost_basis := l_cost_basis l',
        l_acquisition_principal := l_acquisition_principal l'\<rparr>"
      using l(2)
    proof
      assume "l' = l"
      then show ?thesis by (simp only:) simp
    next
      assume "part_of l' l"
      then show ?thesis unfolding part_of_def by (rule conjunct1)
    qed
    then show ?thesis using l(1) by (rule bexI)
  qed
  ultimately show ?thesis using sale(2-5) unfolding eligible_def by blast
qed

section \<open>A sale of shares without cost\<close>

lemma consume_zero_cost:
  assumes "\<forall>e \<in> set zs. amount (l_cost_basis (snd e)) = 0 \<and> 0 < l_remaining_quantity (snd e) \<and>
      lot_ok (snd e) \<and> currency (l_cost_basis (snd e)) = c"
    "currency_ok c" "0 \<le> sl_remaining w" "sl_remaining w < 10 ^ 27" "sl_sold_cost w = \<lparr>amount = 0, currency = c\<rparr>"
    "sl_remaining w \<le> sum_list (map (l_remaining_quantity \<circ> snd) zs)"
  shows "\<exists>v. fold_res consume_lot (zs @ rest) w = Inr v \<and> sl_sold_cost v = \<lparr>amount = 0, currency = c\<rparr>"
  using assms
proof (induction zs arbitrary: w)
  case Nil
  have "fold_res consume_lot rest w = Inr w" if "sl_remaining w = 0"
    using that by (induction rest) (auto simp: consume_lot_def)
  then show ?case using Nil by simp
next
  case (Cons e zs)
  obtain i l where e: "e = (i, l)" by (cases e)
  define n where "n = min (sl_remaining w) (l_remaining_quantity l)"
  have l: "amount (l_cost_basis l) = 0" "0 < l_remaining_quantity l" "lot_ok l" "currency (l_cost_basis l) = c"
    using Cons.prems(1) by (simp_all add: e)
  have zero: "\<lparr>amount = 0, currency = c\<rparr> = l_cost_basis l" using l by (simp add: money_eq_iff)
  have "\<exists>v. consume_lot (i, l) w = Inr v \<and> sl_remaining v = sl_remaining w - n \<and> sl_sold_cost v = \<lparr>amount = 0, currency = c\<rparr>"
  proof (cases "sl_remaining w = 0")
    case True
    then show ?thesis using l Cons.prems(5) by (auto simp: consume_lot_def n_def)
  next
    case False
    obtain a r where "(if n = l_remaining_quantity l then Inr (l_cost_basis l, None)
        else rbind (sell_part_of_lot l n) (\<lambda>(c, l'). Inr (c, Some l'))) = Inr (a, r)" "currency a = c" "amount a = 0"
    proof (cases "n = l_remaining_quantity l")
      case True
      then show thesis using l that by simp
    next
      case part: False
      then have "0 < n" "n < l_remaining_quantity l" "n < 10 ^ 27" using False Cons.prems(3,4) l by (auto simp: n_def)
      from sell_part_of_lot_ok [OF l(3) _ _ this] l Cons.prems(2) obtain a l' where
        "sell_part_of_lot l n = Inr (a, l')" "currency a = c" "amount a = 0" by auto
      then show thesis using part that by simp
    qed
    moreover from this have "money_add (sl_sold_cost w) a = Inr \<lparr>amount = 0, currency = c\<rparr>"
      using Cons.prems(2,5) by (simp add: result_simps)
    ultimately have "consume_lot (i, l) w = Inr \<lparr>sl_remaining = sl_remaining w - n,
        sl_replacements = (sl_replacements w)(i \<mapsto> r), sl_sold_cost = \<lparr>amount = 0, currency = c\<rparr>\<rparr>"
      unfolding consume_lot_def Let_def fst_conv snd_conv n_def [symmetric]
      by (simp only: False if_False rbind_Inr split_conv)
    then show ?thesis by simp
  qed
  then obtain v where v: "consume_lot (i, l) w = Inr v" "sl_remaining v = sl_remaining w - n"
    "sl_sold_cost v = \<lparr>amount = 0, currency = c\<rparr>" by auto
  have "0 \<le> sum_list (map (l_remaining_quantity \<circ> snd) zs)"
    using Cons.prems(1) by (intro sum_list_nonneg_map) (auto simp: less_imp_le)
  then have "\<exists>u. fold_res consume_lot (zs @ rest) v = Inr u \<and> sl_sold_cost u = \<lparr>amount = 0, currency = c\<rparr>"
    using Cons.prems v l by (intro Cons.IH) (auto simp: e n_def comp_def)
  then show ?case using v by (simp add: e)
qed

lemma zero_cost_sale_error:
  assumes s: "portfolio_ok s" "on_grid k (amount (ps_cash s))" "(amount (ps_cash s) + exact_gross f) * 10 ^ k < 10 ^ 28"
    and f: "fill_ok f" "fill_on_grid k f" "exact_fees (f_fees f) \<le> exact_gross f" "f_quantity f < 10 ^ 27"
    and r: "require_fill s f SELL = Inr ()"
    and z: "eligible_lots s f = zs @ rest" "\<forall>e \<in> set zs. amount (l_cost_basis (snd e)) = 0"
      "f_quantity f \<le> sum_list (map (l_remaining_quantity \<circ> snd) zs)"
  shows "f_quantity f \<le> sellable_quantity s (f_instrument_id f) (trading_date f)"
    and "apply_sell s f = Inl (PortfolioInvariantError ''posting amount must be greater than zero'')"
proof -
  have side: "currency (f_price f) = currency (ps_cash s)" using r by (auto simp: require_fill_ok)
  have s2: "list_all lot_ok (ps_lots s)" "currency_ok (currency (ps_cash s))" "is_ok (checks (portfolio_checks s))"
    and cash0: "0 \<le> amount (ps_cash s)"
    using s(1) by (simp_all add: portfolio_ok_def portfolio_checks_def is_ok_checks)
  have q: "0 < f_quantity f" using f(1) by (simp add: fill_ok_iff)
  have el: "lot_ok (snd e) \<and> 0 < l_remaining_quantity (snd e) \<and> currency (l_cost_basis (snd e)) = currency (ps_cash s)"
    if e: "e \<in> set (eligible_lots s f)" for e
  proof -
    have "snd e \<in> set (ps_lots s)" using e by (auto simp: set_eligible_lots dest: enumerate_mem)
    then show ?thesis using  s2(1,3) by (auto simp: list_all_iff portfolio_checks_def is_ok_checks list_ex_iff lot_ok_iff)
  qed
  have "0 \<le> sum_list (map (l_remaining_quantity \<circ> snd) rest)"
    using el z(1) by (intro sum_list_nonneg_map) (simp add: less_imp_le)
  then show le: "f_quantity f \<le> sellable_quantity s (f_instrument_id f) (trading_date f)"
    using z(1,3) by (simp flip: eligible_quantity)
  have "\<forall>e \<in> set zs. amount (l_cost_basis (snd e)) = 0 \<and> 0 < l_remaining_quantity (snd e) \<and>
      lot_ok (snd e) \<and> currency (l_cost_basis (snd e)) = currency (ps_cash s)"
    using el z(1,2) by simp
  from consume_zero_cost [OF this s2(2), of "\<lparr>sl_remaining = f_quantity f, sl_replacements = Map.empty,
      sl_sold_cost = \<lparr>amount = 0, currency = currency (ps_cash s)\<rparr>\<rparr>" rest] q z(1,3) f(4)
  obtain w where w: "fold_res consume_lot (eligible_lots s f) \<lparr>sl_remaining = f_quantity f, sl_replacements = Map.empty,
      sl_sold_cost = \<lparr>amount = 0, currency = currency (ps_cash s)\<rparr>\<rparr> = Inr w"
    and wc: "sl_sold_cost w = \<lparr>amount = 0, currency = currency (ps_cash s)\<rparr>" by auto
  note g = fill_grid_facts [OF f(1,2)] exact_gross_pos [OF f(1)]
  have fees0: "0 \<le> exact_fees (f_fees f)" using f(1) by (simp add: fill_ok_iff exact_fees_nonneg)
  have "0 \<le> ctx (ctx (amount (ps_cash s) + exact_gross f) - exact_fees (f_fees f))"
  proof -
    have "ctx (amount (ps_cash s) + exact_gross f) = amount (ps_cash s) + exact_gross f"
      using s(2,3) g cash0 by (intro ctx_on_grid [of k]) (auto simp: on_grid_add)
    then show ?thesis using f(3) cash0 by simp
  qed
  moreover have "sell_entry f (sl_sold_cost w) = Inl (PortfolioInvariantError ''posting amount must be greater than zero'')"
    using side s2(2) unfolding wc
    by (simp add: sell_entry_def gross_amount_exact [OF f(1,2)] fee_total_exact [OF f(1,2)] money_sub_def
      require_same_currency_def signed_posting_eq expense_fee_postings_eq mk_posting_def construct_def checks.simps)
  ultimately show "apply_sell s f = Inl (PortfolioInvariantError ''posting amount must be greater than zero'')"
    using le side s2(2) by (simp add: apply_sell_def r eligible_quantity money_zero_def w gross_amount_exact [OF f(1,2)]
      fee_total_exact [OF f(1,2)] money_add_def money_sub_def require_same_currency_def dec_add_def dec_sub_def not_less)
qed

text \<open>C39: shares that carry no cost cannot be sold: when the quantity sold lies before the first sellable lot with a cost in the
  order of acquisition, as it can for shares from a bonus distribution, whose lots cost nothing, the sale raises ``posting amount must be greater than zero'' although enough
  shares are sellable, because the journal entry would credit the position with a cost of zero.\<close>

theorem zero_cost_sale_fails:
  assumes s: "portfolio_ok s" "on_grid k (amount (ps_cash s))" "(amount (ps_cash s) + exact_gross f) * 10 ^ k < 10 ^ 28"
    and f: "fill_ok f" "fill_on_grid k f" "exact_fees (f_fees f) \<le> exact_gross f" "f_quantity f < 10 ^ 27"
    and r: "require_fill s f SELL = Inr ()"
    and q: "f_quantity f \<le> sellable_quantity s (f_instrument_id f) (trading_date f)"
    and z: "\<forall>l \<in> set (ps_lots s). l_instrument_id l = f_instrument_id f \<and> l_sellable_on l \<le> trading_date f \<and>
      amount (l_cost_basis l) \<noteq> 0 \<longrightarrow> f_quantity f \<le> shares_before s f l"
  shows "apply_sell s f = Inl (PortfolioInvariantError ''posting amount must be greater than zero'')"
proof -
  let ?free = "\<lambda>e. amount (l_cost_basis (snd e)) = 0"
  define zs rest where zs: "zs = takeWhile ?free (eligible_lots s f)" and rest: "rest = dropWhile ?free (eligible_lots s f)"
  have e: "eligible_lots s f = zs @ rest" by (simp add: zs rest)
  have d: "distinct (map l_opened_by_fill_id (ps_lots s))" using s(1) by (simp add: portfolio_ok_def portfolio_checks_def is_ok_checks)
  have "f_quantity f \<le> sum_list (map (l_remaining_quantity \<circ> snd) zs)"
  proof (cases rest)
    case Nil
    then show ?thesis using q eligible_quantity [of s f] e by simp
  next
    case (Cons x ys)
    have "x \<in> set (eligible_lots s f)" by (simp add: e Cons)
    then have "snd x \<in> set (ps_lots s)" "eligible f (snd x)" by (auto simp: set_eligible_lots dest: enumerate_mem)
    moreover have "\<not> ?free x" using Cons hd_dropWhile [of ?free "eligible_lots s f"] unfolding rest [symmetric] by simp
    ultimately have "f_quantity f \<le> shares_before s f (snd x)" using z by (simp add: eligible_def)
    then show ?thesis using shares_before_eligible [OF d, of f zs x ys] e Cons by simp
  qed
  moreover have "\<forall>e \<in> set zs. ?free e" by (auto simp: zs dest: set_takeWhileD)
  ultimately show ?thesis using zero_cost_sale_error(2) [OF s f r e] by blast
qed

section \<open>Instances\<close>

definition cash_portfolio :: "rat \<Rightarrow> portfolio_state" where
  "cash_portfolio x = \<lparr>ps_cash = cny x, ps_lots = [], ps_fills = [], ps_ledger_entries = [],
     ps_action_entries = [], ps_entitlements = []\<rparr>"

definition sample_fill :: "string \<Rightarrow> order_side \<Rightarrow> int \<Rightarrow> rat \<Rightarrow> int \<Rightarrow> fill_record" where
  "sample_fill i side q p day = \<lparr>f_fill_id = i, f_order_id = ''order:'' @ i, f_instrument_id = ''300059.SZ'', f_side = side,
     f_quantity = q, f_price = cny p, f_filled_at = combine day (hm 10 0),
     f_fees = \<lparr>fb_commission = cny 5, fb_stamp_tax = cny (if side = SELL then 55 / 10 else 0),
       fb_transfer_fee = cny (11 / 100), fb_other = cny 0\<rparr>\<rparr>"

definition sample_buy :: fill_record where
  "sample_buy = sample_fill ''fill:b1'' BUY 1000 (105 / 10) 738000"

definition sample_sell :: fill_record where
  "sample_sell = sample_fill ''fill:s1'' SELL 400 11 738001"

definition sample_holding :: portfolio_state where
  "sample_holding = after_fill (cash_portfolio 100000) sample_buy (cny (8949489 / 100))
     [bought_lot sample_buy 738001] (bought_entry sample_buy)"

definition bonus_lot :: position_lot where
  "bonus_lot = (bought_lot sample_buy 738001)
     \<lparr>l_opened_by_fill_id := ''corporate:c1'', l_remaining_quantity := 500, l_cost_basis := cny 0,
      l_acquisition_principal := Some (cny 0)\<rparr>"

definition bonus_holding :: portfolio_state where
  "bonus_holding = sample_holding\<lparr>ps_lots := [bought_lot sample_buy 738001, bonus_lot]\<rparr>"

theorem apply_buy_outcome_witness:
  "apply_buy (cash_portfolio 100000) sample_buy 738001 = Inr sample_holding"
proof -
  have p: "portfolio_ok (cash_portfolio 100000)" "fill_ok sample_buy" "fill_on_grid 2 sample_buy"
    "on_grid 2 (amount (ps_cash (cash_portfolio 100000)))" "amount (ps_cash (cash_portfolio 100000)) * 10 ^ 2 < 10 ^ 28"
    by code_simp+
  have c: "f_side sample_buy = BUY" "f_fill_id sample_buy \<notin> applied_fill_ids (cash_portfolio 100000)"
    "currency (f_price sample_buy) = currency (ps_cash (cash_portfolio 100000))" "\<not> 738001 \<le> trading_date sample_buy"
    "\<not> amount (ps_cash (cash_portfolio 100000)) < exact_gross sample_buy + exact_fees (f_fees sample_buy)"
    by code_simp+
  have "amount (ps_cash (cash_portfolio 100000)) - (exact_gross sample_buy + exact_fees (f_fees sample_buy)) = 8949489 / 100"
    by code_simp
  moreover have "ps_lots (cash_portfolio 100000) = []" "currency (ps_cash (cash_portfolio 100000)) = ''CNY''"
    by code_simp+
  ultimately show ?thesis
    using apply_buy_outcome [OF p, of 738001] c by (simp add: sample_holding_def cny_def)
qed

lemma sample_sell_premises:
  "portfolio_ok sample_holding" "on_grid 2 (amount (ps_cash sample_holding))"
  "(amount (ps_cash sample_holding) + exact_gross sample_sell) * 10 ^ 2 < 10 ^ 28"
  "fill_ok sample_sell" "fill_on_grid 2 sample_sell" "exact_fees (f_fees sample_sell) \<le> exact_gross sample_sell"
  "f_quantity sample_sell < 10 ^ 27" "saleable 2 sample_holding sample_sell"
  by code_simp+

lemma sample_sell_guards:
  "f_side sample_sell = SELL" "f_fill_id sample_sell \<notin> applied_fill_ids sample_holding"
  "currency (f_price sample_sell) = currency (ps_cash sample_holding)"
  "\<not> sellable_quantity sample_holding (f_instrument_id sample_sell) (trading_date sample_sell) < f_quantity sample_sell"
  "amount (ps_cash sample_holding) + exact_gross sample_sell - exact_fees (f_fees sample_sell) = 9388428 / 100"
  "currency (ps_cash sample_holding) = ''CNY''"
  by code_simp+

lemma sample_sell_done:
  obtains t where "apply_sell sample_holding sample_sell = Inr t"
proof -
  have "require_fill sample_holding sample_sell SELL = Inr ()"
    using sample_sell_guards by (simp add: require_fill_ok)
  then show thesis
    using apply_sell_succeeds [OF sample_sell_premises(1-7) _ sample_sell_premises(8)] sample_sell_guards(4) that
    by (auto simp: not_less)
qed

theorem apply_sell_outcome_witness:
  "\<exists>cost lots. 0 < cost \<and> apply_sell sample_holding sample_sell =
     Inr (after_fill sample_holding sample_sell (cny (9388428 / 100)) lots (sold_entry sample_sell cost))"
  using apply_sell_outcome [OF sample_sell_premises] sample_sell_guards by (auto simp: cny_def)

text \<open>Two sellable lots, the later one listed first, and a lot that is still locked.\<close>

definition later_buy :: fill_record where
  "later_buy = (sample_fill ''fill:b0'' BUY 700 (105 / 10) 738000)\<lparr>f_filled_at := combine 738000 (hm 11 0)\<rparr>"

definition locked_buy :: fill_record where
  "locked_buy = sample_fill ''fill:b3'' BUY 300 (105 / 10) 738001"

definition large_sell :: fill_record where
  "large_sell = sample_fill ''fill:s1'' SELL 1200 11 738001"

definition three_lots :: portfolio_state where
  "three_lots = (cash_portfolio 100000)\<lparr>ps_lots := [bought_lot later_buy 738001, bought_lot locked_buy 738002, bought_lot sample_buy 738001]\<rparr>"

theorem apply_sell_fifo_witness:
  "\<exists>t. apply_sell three_lots large_sell = Inr t \<and> lot_quantity t ''fill:b1'' = 0 \<and> lot_quantity t ''fill:b0'' = 500 \<and>
     sellable_quantity t ''300059.SZ'' 738001 = 500"
proof -
  have p: "portfolio_ok three_lots" "on_grid 2 (amount (ps_cash three_lots))"
    "(amount (ps_cash three_lots) + exact_gross large_sell) * 10 ^ 2 < 10 ^ 28" "fill_ok large_sell" "fill_on_grid 2 large_sell"
    "exact_fees (f_fees large_sell) \<le> exact_gross large_sell" "f_quantity large_sell < 10 ^ 27"
    "require_fill three_lots large_sell SELL = Inr ()" "saleable 2 three_lots large_sell"
    "f_quantity large_sell \<le> sellable_quantity three_lots (f_instrument_id large_sell) (trading_date large_sell)"
    by code_simp+
  from apply_sell_succeeds [OF p] obtain t where t: "apply_sell three_lots large_sell = Inr t" by blast
  have v: "shares_before three_lots large_sell (bought_lot sample_buy 738001) = 0" "shares_before three_lots large_sell (bought_lot later_buy 738001) = 1000"
    "l_remaining_quantity (bought_lot sample_buy 738001) = 1000" "l_remaining_quantity (bought_lot later_buy 738001) = 700"
    "f_quantity large_sell = 1200" "l_opened_by_fill_id (bought_lot sample_buy 738001) = ''fill:b1''"
    "l_opened_by_fill_id (bought_lot later_buy 738001) = ''fill:b0''" "f_instrument_id large_sell = ''300059.SZ''" "trading_date large_sell = 738001"
    "sellable_quantity three_lots ''300059.SZ'' 738001 = 1700" "l_instrument_id (bought_lot sample_buy 738001) = ''300059.SZ''"
    "l_instrument_id (bought_lot later_buy 738001) = ''300059.SZ''" "l_sellable_on (bought_lot sample_buy 738001) = 738001"
    "l_sellable_on (bought_lot later_buy 738001) = 738001"
    by code_simp+
  have m: "bought_lot sample_buy 738001 \<in> set (ps_lots three_lots)" "bought_lot later_buy 738001 \<in> set (ps_lots three_lots)"
    by (simp_all add: three_lots_def)
  note fifo = apply_sell_fifo [OF t p(1,4)]
  have "lot_quantity t ''fill:b1'' = 0" "lot_quantity t ''fill:b0'' = 500"
    using fifo [THEN conjunct1, THEN bspec, OF m(1)] fifo [THEN conjunct1, THEN bspec, OF m(2)] by (simp_all only: v) simp_all
  moreover have "sellable_quantity t ''300059.SZ'' 738001 = 500" using fifo by (simp only: v)
  ultimately show ?thesis using t by blast
qed

theorem zero_cost_sale_fails_witness:
  "sellable_quantity bonus_holding ''300059.SZ'' 738001 = 1500 \<and>
   apply_sell bonus_holding sample_sell = Inl (PortfolioInvariantError ''posting amount must be greater than zero'')"
proof -
  have p: "portfolio_ok bonus_holding" "on_grid 2 (amount (ps_cash bonus_holding))"
    "(amount (ps_cash bonus_holding) + exact_gross sample_sell) * 10 ^ 2 < 10 ^ 28"
    "fill_ok sample_sell" "fill_on_grid 2 sample_sell" "exact_fees (f_fees sample_sell) \<le> exact_gross sample_sell"
    "f_quantity sample_sell < 10 ^ 27" "require_fill bonus_holding sample_sell SELL = Inr ()"
    "f_quantity sample_sell \<le> sellable_quantity bonus_holding (f_instrument_id sample_sell) (trading_date sample_sell)"
    "\<forall>l \<in> set (ps_lots bonus_holding). l_instrument_id l = f_instrument_id sample_sell \<and> l_sellable_on l \<le> trading_date sample_sell \<and>
      amount (l_cost_basis l) \<noteq> 0 \<longrightarrow> f_quantity sample_sell \<le> shares_before bonus_holding sample_sell l"
    by code_simp+
  have "sellable_quantity bonus_holding ''300059.SZ'' 738001 = 1500" by code_simp
  then show ?thesis using zero_cost_sale_fails [OF p] by blast
qed

end
