(* ===== verification/Text.thy ===== *)
theory Text
  imports Shared
begin

text \<open>
  Printing of numbers inside identifiers (\<open>str(int)\<close>, an \<open>int\<close> in an f-string), the splitting and
  joining of strings, and the shape of hexadecimal digests.  The digest function itself
  (\<open>hashlib.sha256(...).hexdigest()\<close>) is a parameter of the definitions that use it.
\<close>

section \<open>Decimal numerals\<close>

definition digit_char :: "int \<Rightarrow> char" where
  "digit_char d = char_of (48 + nat d)"

definition char_digit :: "char \<Rightarrow> int" where
  "char_digit c = int (of_char c) - 48"

function show_nat :: "int \<Rightarrow> string" where
  "show_nat n = (if n < 10 then [digit_char n] else show_nat (n div 10) @ [digit_char (n mod 10)])"
  by pat_completeness auto
termination by (relation "measure nat") auto

declare show_nat.simps [simp del]

definition show_int :: "int \<Rightarrow> string" where
  "show_int n = (if n < 0 then CHR ''-'' # show_nat (- n) else show_nat n)"

definition read_nat :: "string \<Rightarrow> int" where
  "read_nat s = fold (\<lambda>c n. 10 * n + char_digit c) s 0"

lemma char_digit_char: "0 \<le> d \<Longrightarrow> d < 10 \<Longrightarrow> char_digit (digit_char d) = d"
  by (simp add: char_digit_def digit_char_def)

lemma read_show_nat: "0 \<le> n \<Longrightarrow> read_nat (show_nat n) = n"
proof (induction n rule: show_nat.induct)
  case (1 n)
  then show ?case
    by (subst show_nat.simps) (simp add: read_nat_def char_digit_char)
qed

lemma show_nat_inject: "0 \<le> m \<Longrightarrow> 0 \<le> n \<Longrightarrow> show_nat m = show_nat n \<longleftrightarrow> m = n"
  by (metis read_show_nat)

definition is_digit :: "char \<Rightarrow> bool" where
  "is_digit c \<longleftrightarrow> 48 \<le> (of_char c :: nat) \<and> (of_char c :: nat) \<le> 57"

lemma show_nat_digits: "0 \<le> n \<Longrightarrow> list_all is_digit (show_nat n)"
proof (induction n rule: show_nat.induct)
  case (1 n)
  have d: "is_digit (digit_char d)" if "0 \<le> d" "d < 10" for d
    using that by (simp add: is_digit_def digit_char_def)
  from 1 show ?case by (subst show_nat.simps) (simp add: d)
qed

lemma show_nat_nonempty: "show_nat n \<noteq> []"
  by (subst show_nat.simps) simp

text \<open>A colon ends a prefix that has none: identifiers built as \<open>prefix:suffix\<close> determine both.\<close>

lemma append_colon_inject:
  assumes "CHR '':'' \<notin> set s" "CHR '':'' \<notin> set s'"
  shows "s @ CHR '':'' # t = s' @ CHR '':'' # t' \<longleftrightarrow> s = s' \<and> t = t'"
  using assms
proof (induction s arbitrary: s')
  case Nil
  then show ?case by (cases s') auto
next
  case (Cons c s)
  then show ?case by (cases s') auto
qed

section \<open>Digests\<close>

text \<open>What the program relies on of a hexadecimal SHA-256: 64 lower-case hexadecimal digits.\<close>

definition hex_digest :: "(string \<Rightarrow> string) \<Rightarrow> bool" where
  "hex_digest h \<longleftrightarrow> (\<forall>s. length (h s) = 64 \<and> list_all lower_hex (h s))"

lemma lower_hex_id: "lower_hex c \<Longrightarrow> id_head c"
  unfolding lower_hex_def by (auto simp: id_head_def Let_def)

lemma lower_hex_not_colon: "lower_hex c \<Longrightarrow> c \<noteq> CHR '':''"
  by (auto simp: lower_hex_def)

lemma list_all_id_tail: "list_all id_head s \<Longrightarrow> list_all id_tail s"
  by (auto simp: list_all_iff id_tail_def)

end
