(* ===== verification/CorporateActions.thy ===== *)
theory CorporateActions
  imports Ledger Text
begin

text \<open>
  The staged, idempotent transitions of corporate actions
  (\<open>ashare_lab/domain/portfolio/corporate_actions.py\<close>): the entitlement is captured at the record
  date, accrued at the ex-date and settled at its source date, and a rights issue is declined.
  Every transition leaves one entry in the corporate-action ledger.  The SHA-256 of a string is
  the parameter \<open>sha\<close>.
\<close>

section \<open>Shared steps\<close>

definition require_stage_clock :: "datetime \<Rightarrow> date \<Rightarrow> unit result" where
  "require_stage_clock t expected = checks
     [(shanghai_date t \<noteq> expected, PortfolioInvariantError ''corporate-action phase used the wrong local date'')]"

definition phase_key :: "corporate_action \<Rightarrow> action_phase \<Rightarrow> string \<times> int \<times> action_phase" where
  "phase_key a p = (a_action_id a, a_revision_no a, p)"

definition is_entitlement_of :: "corporate_action \<Rightarrow> entitlement \<Rightarrow> bool" where
  "is_entitlement_of a e \<longleftrightarrow> en_action_id e = a_action_id a \<and> en_revision_no e = a_revision_no a"

definition find_entitlement :: "portfolio_state \<Rightarrow> corporate_action \<Rightarrow> (nat \<times> entitlement) result" where
  "find_entitlement s a =
     (case filter (\<lambda>(i, e). is_entitlement_of a e) (List.enumerate 0 (ps_entitlements s)) of
        [m] \<Rightarrow> Inr m
      | _ \<Rightarrow> Inl (PortfolioInvariantError ''corporate-action entitlement is missing or ambiguous''))"

definition replace_entitlement :: "portfolio_state \<Rightarrow> nat \<Rightarrow> entitlement \<Rightarrow> entitlement list" where
  "replace_entitlement s i e = (ps_entitlements s)[i := e]"

definition with_action_entry ::
  "portfolio_state \<Rightarrow> money \<Rightarrow> position_lot list \<Rightarrow> entitlement list \<Rightarrow> action_entry \<Rightarrow> portfolio_state" where
  "with_action_entry s cash lots es entry = \<lparr>ps_cash = cash, ps_lots = lots, ps_fills = ps_fills s,
     ps_ledger_entries = ps_ledger_entries s, ps_action_entries = ps_action_entries s @ [entry],
     ps_entitlements = es\<rparr>"

definition action_entry_of ::
  "portfolio_state \<Rightarrow> corporate_action \<Rightarrow> action_phase \<Rightarrow> datetime \<Rightarrow> money \<Rightarrow> position_lot list \<Rightarrow>
   entitlement list \<Rightarrow> posting list \<Rightarrow> action_entry result" where
  "action_entry_of s a phase t cash_after lots_after es_after postings =
     rbind (position_cost s (a_instrument_id a)) (\<lambda>cost_before.
     rbind (position_cost_of lots_after (a_instrument_id a) (currency (ps_cash s))) (\<lambda>cost_after.
     rbind (dividend_receivable s (Some (a_instrument_id a))) (\<lambda>receivable_before.
     rbind (dividend_receivable_of es_after (Some (a_instrument_id a)) (currency (ps_cash s))) (\<lambda>receivable_after.
       mk_action_entry \<lparr>ce_action_id = a_action_id a, ce_revision_no = a_revision_no a,
         ce_instrument_id = a_instrument_id a, ce_action_type = a_type a, ce_phase = phase, ce_occurred_at = t,
         ce_cash_before = ps_cash s, ce_cash_after = cash_after,
         ce_quantity_before = position_quantity s (a_instrument_id a),
         ce_quantity_after = position_quantity_of lots_after (a_instrument_id a),
         ce_position_cost_before = cost_before, ce_position_cost_after = cost_after,
         ce_receivable_before = receivable_before, ce_receivable_after = receivable_after,
         ce_share_delta_before = pending_share_delta s (a_instrument_id a),
         ce_share_delta_after = pending_share_delta_of es_after (a_instrument_id a),
         ce_postings = postings\<rparr>))))"

text \<open>The \<open>_entry\<close> and \<open>_state\<close> with which every transition ends.\<close>

definition record_phase ::
  "portfolio_state \<Rightarrow> corporate_action \<Rightarrow> action_phase \<Rightarrow> datetime \<Rightarrow> money \<Rightarrow> position_lot list \<Rightarrow>
   entitlement list \<Rightarrow> posting list \<Rightarrow> portfolio_state result" where
  "record_phase s a phase t cash lots es postings =
     rbind (action_entry_of s a phase t cash lots es postings)
       (\<lambda>entry. mk_portfolio (with_action_entry s cash lots es entry))"

section \<open>Capturing an entitlement\<close>

definition to_integral :: "rat \<Rightarrow> int" where
  "to_integral x = round_half_even x"

definition entitlement_terms :: "corporate_action \<Rightarrow> int \<Rightarrow> (money \<times> int \<times> date option \<times> date) result" where
  "entitlement_terms a q =
     rbind (money_zero (a_currency a)) (\<lambda>zero.
     case a_type a of
       CASH_DIVIDEND \<Rightarrow>
         (case (a_gross_cash_per_share a, a_cash_pay_date a) of
            (Some g, Some d) \<Rightarrow> rbind (mk_money (dec_mul g (of_int q)) (a_currency a)) (\<lambda>m. Inr (m, 0, None, d))
          | _ \<Rightarrow> Inl AssertionError)
     | RIGHTS_ISSUE \<Rightarrow>
         (case a_rights_listing_date a of Some d \<Rightarrow> Inr (zero, 0, None, d) | None \<Rightarrow> Inl AssertionError)
     | _ \<Rightarrow>
         (case (a_share_multiplier a, a_share_credit_date a, a_share_sellable_date a) of
            (Some m, Some c, Some d) \<Rightarrow>
              (let target = dec_mul (of_int q) m in
               if target \<noteq> of_int (to_integral target)
               then Inl (UnsupportedCorporateActionError ''share_action_requires_integer_registration_allocation_evidence'')
               else Inr (zero, to_integral target - q, Some d, c))
          | _ \<Rightarrow> Inl AssertionError))"

definition terms_known_at :: "corporate_action \<Rightarrow> datetime \<Rightarrow> bool" where
  "terms_known_at a t \<longleftrightarrow> (case action_available_at a of None \<Rightarrow> False | Some u \<Rightarrow> u \<le> t)"

definition new_entitlement ::
  "portfolio_state \<Rightarrow> corporate_action \<Rightarrow> datetime \<Rightarrow> money \<Rightarrow> int \<Rightarrow> date option \<Rightarrow> date \<Rightarrow> entitlement" where
  "new_entitlement s a t cash delta sellable settlement =
     \<lparr>en_action_id = a_action_id a, en_revision_no = a_revision_no a,
      en_instrument_id = a_instrument_id a, en_action_type = a_type a, en_record_date = a_record_date a,
      en_ex_date = a_ex_date a, en_settlement_date = settlement,
      en_entitled_quantity = position_quantity s (a_instrument_id a), en_cash_amount = cash,
      en_share_delta = delta, en_share_sellable_date = sellable, en_status = CAPTURED,
      en_captured_at = t, en_accrued_at = None, en_settled_at = None,
      en_record_lots = filter (\<lambda>l. l_instrument_id l = a_instrument_id a) (ps_lots s),
      en_share_principals = []\<rparr>"

definition capture_entitlement :: "portfolio_state \<Rightarrow> corporate_action \<Rightarrow> datetime \<Rightarrow> portfolio_state result" where
  "capture_entitlement s a t =
     rbind (require_stage_clock t (a_record_date a)) (\<lambda>_.
     if phase_key a ENTITLEMENT \<in> applied_action_phases s then Inr s
     else
     rbind (checks
       [(\<not> terms_known_at a t, PortfolioInvariantError ''corporate-action terms were not validated by record-date close''),
        (a_currency a \<noteq> currency (ps_cash s), PortfolioInvariantError ''corporate-action and portfolio currencies must match''),
        (list_ex (is_entitlement_of a) (ps_entitlements s),
         PortfolioInvariantError ''corporate-action entitlement state is inconsistent''),
        (a_type a = RIGHTS_ISSUE,
         UnsupportedCorporateActionError ''rights_issue_requires_explicit_participation_and_settlement_policy'')]) (\<lambda>_.
     rbind (entitlement_terms a (position_quantity s (a_instrument_id a))) (\<lambda>(cash, delta, sellable, settlement).
     rbind (mk_entitlement (new_entitlement s a t cash delta sellable settlement)) (\<lambda>e.
       record_phase s a ENTITLEMENT t (ps_cash s) (ps_lots s) (ps_entitlements s @ [e]) []))))"

definition decline_rights_issue :: "portfolio_state \<Rightarrow> corporate_action \<Rightarrow> datetime \<Rightarrow> portfolio_state result" where
  "decline_rights_issue s a t =
     rbind (require_stage_clock t (a_record_date a)) (\<lambda>_.
     if a_type a \<noteq> RIGHTS_ISSUE then Inl (UnsupportedCorporateActionError ''only a rights issue can be declined'')
     else if phase_key a DECLINED \<in> applied_action_phases s then Inr s
     else
     rbind (checks
       [(\<not> terms_known_at a t, PortfolioInvariantError ''corporate-action terms were not validated by record-date close''),
        (a_currency a \<noteq> currency (ps_cash s), PortfolioInvariantError ''corporate-action and portfolio currencies must match''),
        (list_ex (is_entitlement_of a) (ps_entitlements s),
         PortfolioInvariantError ''declined rights issue cannot have an entitlement'')]) (\<lambda>_.
       record_phase s a DECLINED t (ps_cash s) (ps_lots s) (ps_entitlements s) []))"

section \<open>Accrual at the ex-date\<close>

text \<open>
  The dictionary from opening fill to lot (the last lot wins, as in a dict comprehension), and the
  allocation of the fee-exclusive principal to the bonus shares of the lots held at the record
  date.  \<open>Money(x)\<close> without a currency is CNY, whatever the currency of the portfolio.
\<close>

definition lots_by_fill :: "position_lot list \<Rightarrow> string \<rightharpoonup> position_lot" where
  "lots_by_fill ls = map_of (map (\<lambda>l. (l_opened_by_fill_id l, l)) (rev ls))"

definition bonus_principal :: "rat \<Rightarrow> position_lot \<Rightarrow> money option result" where
  "bonus_principal m l =
     (case l_acquisition_principal l of
        None \<Rightarrow> Inr None
      | Some p \<Rightarrow>
          rbind (dec_div (dec_mul (amount p) (dec_sub m 1)) m) (\<lambda>x.
          rbind (mk_money x ''CNY'') (\<lambda>money. Inr (Some money))))"

definition allocate_bonus ::
  "(string \<rightharpoonup> position_lot) \<Rightarrow> rat \<Rightarrow> position_lot list \<Rightarrow> (string \<rightharpoonup> money option) result" where
  "allocate_bonus current m sources =
     fold_res (\<lambda>source allocated.
       case current (l_opened_by_fill_id source) of
         None \<Rightarrow> Inl (UnsupportedCorporateActionError ''bonus_principal_requires_record_inventory_at_ex_date'')
       | Some l \<Rightarrow>
           if l_remaining_quantity l \<noteq> l_remaining_quantity source
           then Inl (UnsupportedCorporateActionError ''bonus_principal_requires_record_inventory_at_ex_date'')
           else rbind (bonus_principal m l) (\<lambda>p. Inr (allocated(l_opened_by_fill_id l \<mapsto> p)))) sources Map.empty"

definition reduce_principal :: "(string \<rightharpoonup> money option) \<Rightarrow> position_lot \<Rightarrow> position_lot result" where
  "reduce_principal allocated l =
     (case allocated (l_opened_by_fill_id l) of
        None \<Rightarrow> Inr l
      | Some part \<Rightarrow>
          (case l_acquisition_principal l of
             None \<Rightarrow> mk_lot (l\<lparr>l_acquisition_principal := None\<rparr>)
           | Some p \<Rightarrow>
               (case part of
                  None \<Rightarrow> Inl AttributeError
                | Some x \<Rightarrow>
                    rbind (mk_money (dec_sub (amount p) (amount x)) ''CNY'') (\<lambda>rest.
                      mk_lot (l\<lparr>l_acquisition_principal := Some rest\<rparr>)))))"

definition lookup_principal :: "(string \<rightharpoonup> money option) \<Rightarrow> position_lot \<Rightarrow> money option result" where
  "lookup_principal allocated l =
     (case allocated (l_opened_by_fill_id l) of None \<Rightarrow> Inl KeyError | Some p \<Rightarrow> Inr p)"

definition accrual_lots :: "portfolio_state \<Rightarrow> corporate_action \<Rightarrow> entitlement \<Rightarrow> (position_lot list \<times> entitlement) result" where
  "accrual_lots s a e =
     (if a_type a = SHARE_DISTRIBUTION \<and> 0 < en_share_delta e then
        rbind (dec_div (of_int (en_entitled_quantity e + en_share_delta e)) (of_int (en_entitled_quantity e))) (\<lambda>m.
        rbind (allocate_bonus (lots_by_fill (ps_lots s)) m (en_record_lots e)) (\<lambda>allocated.
        rbind (map_res (reduce_principal allocated) (ps_lots s)) (\<lambda>lots.
        rbind (map_res (lookup_principal allocated) (en_record_lots e)) (\<lambda>principals.
        rbind (mk_entitlement (e\<lparr>en_share_principals := principals\<rparr>)) (\<lambda>e'. Inr (lots, e'))))))
      else Inr (ps_lots s, e))"

definition dividend_postings ::
  "money \<Rightarrow> string \<Rightarrow> ledger_account \<Rightarrow> string option \<Rightarrow> ledger_account \<Rightarrow> posting list result" where
  "dividend_postings m instrument debit debit_instrument credit =
     (if amount m > 0 then
        rbind (mk_posting \<lparr>p_account = debit, p_side = DEBIT, p_amount = m,
                 p_component = CashDividendComponent, p_instrument_id = debit_instrument\<rparr>) (\<lambda>p.
        rbind (mk_posting \<lparr>p_account = credit, p_side = CREDIT, p_amount = m,
                 p_component = CashDividendComponent, p_instrument_id = Some instrument\<rparr>) (\<lambda>q. Inr [p, q]))
      else Inr [])"

definition accrue_action :: "portfolio_state \<Rightarrow> corporate_action \<Rightarrow> datetime \<Rightarrow> portfolio_state result" where
  "accrue_action s a t =
     rbind (require_stage_clock t (a_ex_date a)) (\<lambda>_.
     if phase_key a ACCRUAL \<in> applied_action_phases s then Inr s
     else
     rbind (find_entitlement s a) (\<lambda>(i, e).
     if en_status e \<noteq> CAPTURED then Inl (PortfolioInvariantError ''corporate action must be captured before accrual'')
     else
     rbind (mk_entitlement (e\<lparr>en_status := ACCRUED, en_accrued_at := Some t\<rparr>)) (\<lambda>updated.
     rbind (accrual_lots s a updated) (\<lambda>(lots, e').
     rbind (dividend_postings (en_cash_amount e) (a_instrument_id a) DividendReceivable (Some (a_instrument_id a)) DividendIncome)
       (\<lambda>postings.
       record_phase s a ACCRUAL t (ps_cash s) lots (replace_entitlement s i e') postings)))))"

section \<open>Settlement\<close>

definition corporate_lot_id :: "(string \<Rightarrow> string) \<Rightarrow> corporate_action \<Rightarrow> string result" where
  "corporate_lot_id sha a =
     mk_id (''corporate:'' @ take 24 (sha (a_action_id a @ CHR '':'' # show_int (a_revision_no a))))"

definition credit_lot ::
  "(string \<Rightarrow> string) \<Rightarrow> portfolio_state \<Rightarrow> corporate_action \<Rightarrow> entitlement \<Rightarrow> date \<Rightarrow> nat \<times> position_lot \<Rightarrow>
   position_lot list \<Rightarrow> position_lot list result" where
  "credit_lot sha s a e sellable il credited =
     rbind (dec_div (dec_mul (of_int (l_remaining_quantity (snd il))) (of_int (en_share_delta e)))
              (of_int (en_entitled_quantity e))) (\<lambda>delta.
     if delta \<noteq> of_int (to_integral delta)
     then Inl (UnsupportedCorporateActionError ''share_distribution_requires_fractional_lot_allocation_policy'')
     else if delta = 0 then Inr credited
     else
     rbind (corporate_lot_id sha a) (\<lambda>prefix.
     rbind (mk_id (prefix @ CHR '':'' # take 24 (sha (l_opened_by_fill_id (snd il))))) (\<lambda>fill.
     rbind (mk_quantity (py_int delta)) (\<lambda>q.
     rbind (money_zero (currency (ps_cash s))) (\<lambda>zero.
     rbind (mk_lot \<lparr>l_opened_by_fill_id = fill, l_instrument_id = a_instrument_id a,
              l_acquired_at = l_acquired_at (snd il), l_acquired_on = l_acquired_on (snd il),
              l_sellable_on = max (l_sellable_on (snd il)) sellable, l_remaining_quantity = q, l_cost_basis = zero,
              l_acquisition_principal = (if en_share_principals e \<noteq> [] then en_share_principals e ! fst il else None)\<rparr>)
       (\<lambda>lot. Inr (credited @ [lot])))))))"

definition settle_distribution ::
  "(string \<Rightarrow> string) \<Rightarrow> portfolio_state \<Rightarrow> corporate_action \<Rightarrow> entitlement \<Rightarrow> position_lot list result" where
  "settle_distribution sha s a e =
     (if en_share_delta e > 0 then
        (case en_share_sellable_date e of
           None \<Rightarrow> Inl AssertionError
         | Some sellable \<Rightarrow>
             if en_record_lots e = []
             then Inl (UnsupportedCorporateActionError ''share_distribution_missing_registration_lots'')
             else rbind (fold_res (credit_lot sha s a e sellable) (List.enumerate 0 (en_record_lots e)) [])
               (\<lambda>credited. Inr (ps_lots s @ credited)))
      else Inr (ps_lots s))"

definition split_lot :: "int \<Rightarrow> int \<Rightarrow> date \<Rightarrow> position_lot \<Rightarrow> position_lot result" where
  "split_lot target current sellable l =
     rbind (dec_div (dec_mul (of_int (l_remaining_quantity l)) (of_int target)) (of_int current)) (\<lambda>allocated.
     if allocated \<noteq> of_int (to_integral allocated) \<or> allocated \<le> 0
     then Inl (UnsupportedCorporateActionError ''split_requires_fractional_lot_allocation_policy'')
     else
     rbind (mk_quantity (py_int allocated)) (\<lambda>q.
       mk_lot (l\<lparr>l_remaining_quantity := q, l_sellable_on := max (l_sellable_on l) sellable\<rparr>)))"

definition settle_split :: "portfolio_state \<Rightarrow> corporate_action \<Rightarrow> entitlement \<Rightarrow> position_lot list result" where
  "settle_split s a e =
     (let current = position_quantity s (a_instrument_id a); target = current + en_share_delta e in
      rbind (checks
        [(current \<noteq> en_entitled_quantity e,
          UnsupportedCorporateActionError ''split_settlement_requires_unchanged_record_date_inventory''),
         (target < 0 \<or> (current > 0 \<and> target = 0),
          UnsupportedCorporateActionError ''split_settlement_requires_positive_integer_registered_quantity'')]) (\<lambda>_.
      if target > 0 then
        (case en_share_sellable_date e of
           None \<Rightarrow> Inl AssertionError
         | Some sellable \<Rightarrow>
             rbind (map_res (split_lot target current sellable)
                      (filter (\<lambda>l. l_instrument_id l = a_instrument_id a) (ps_lots s)))
               (\<lambda>transformed. Inr (filter (\<lambda>l. l_instrument_id l \<noteq> a_instrument_id a) (ps_lots s) @ transformed)))
      else Inr (ps_lots s)))"

definition settlement_effect ::
  "(string \<Rightarrow> string) \<Rightarrow> portfolio_state \<Rightarrow> corporate_action \<Rightarrow> entitlement \<Rightarrow>
   (money \<times> position_lot list \<times> posting list) result" where
  "settlement_effect sha s a e =
     (case a_type a of
        CASH_DIVIDEND \<Rightarrow>
          rbind (money_add (ps_cash s) (en_cash_amount e)) (\<lambda>cash.
          rbind (dividend_postings (en_cash_amount e) (a_instrument_id a) CashAccount None DividendReceivable)
            (\<lambda>postings. Inr (cash, ps_lots s, postings)))
      | SHARE_DISTRIBUTION \<Rightarrow> rbind (settle_distribution sha s a e) (\<lambda>lots. Inr (ps_cash s, lots, []))
      | RIGHTS_ISSUE \<Rightarrow> Inr (ps_cash s, ps_lots s, [])
      | _ \<Rightarrow> rbind (settle_split s a e) (\<lambda>lots. Inr (ps_cash s, lots, [])))"

definition settle_action ::
  "(string \<Rightarrow> string) \<Rightarrow> portfolio_state \<Rightarrow> corporate_action \<Rightarrow> datetime \<Rightarrow> portfolio_state result" where
  "settle_action sha s a t =
     (if phase_key a SETTLEMENT \<in> applied_action_phases s then Inr s
      else
      rbind (find_entitlement s a) (\<lambda>(i, e).
      rbind (checks
        [(en_status e \<noteq> ACCRUED, PortfolioInvariantError ''corporate action must accrue before settlement''),
         (shanghai_date t < en_settlement_date e,
          PortfolioInvariantError ''corporate action cannot settle before its source date'')]) (\<lambda>_.
      rbind (settlement_effect sha s a e) (\<lambda>(cash, lots, postings).
      rbind (mk_entitlement (e\<lparr>en_status := SETTLED, en_settled_at := Some t\<rparr>)) (\<lambda>updated.
        record_phase s a SETTLEMENT t cash lots (replace_entitlement s i updated) postings)))))"

section \<open>What every transition leaves\<close>

lemma with_action_entry_simps [simp]:
  "ps_cash (with_action_entry s cash lots es e) = cash" "ps_lots (with_action_entry s cash lots es e) = lots"
  "ps_fills (with_action_entry s cash lots es e) = ps_fills s"
  "ps_ledger_entries (with_action_entry s cash lots es e) = ps_ledger_entries s"
  "ps_action_entries (with_action_entry s cash lots es e) = ps_action_entries s @ [e]"
  "ps_entitlements (with_action_entry s cash lots es e) = es"
  by (simp_all add: with_action_entry_def)

definition entry_for :: "portfolio_state \<Rightarrow> corporate_action \<Rightarrow> action_phase \<Rightarrow> action_entry \<Rightarrow> bool" where
  "entry_for s a p e \<longleftrightarrow>
     action_entry_key e = phase_key a p \<and> ce_cash_before e = ps_cash s \<and>
     ce_quantity_before e = position_quantity s (a_instrument_id a)"

lemma record_phaseE:
  assumes "record_phase s a p t cash lots es postings = Inr s'"
  obtains entry m where "s' = with_action_entry s cash lots es entry" "entry_for s a p entry"
    "is_ok (checks (portfolio_checks s'))" "position_cost s (a_instrument_id a) = Inr m"
    "position_cost_of lots (a_instrument_id a) (currency (ps_cash s)) = Inr m"
    "ce_cash_after entry = cash" "ce_quantity_after entry = position_quantity_of lots (a_instrument_id a)"
proof -
  from assms obtain entry where
    e: "action_entry_of s a p t cash lots es postings = Inr entry"
    and s': "s' = with_action_entry s cash lots es entry" "is_ok (checks (portfolio_checks s'))"
    by (auto simp: record_phase_def result_simps)
  from e obtain b c r r' where
    bc: "position_cost s (a_instrument_id a) = Inr b"
      "position_cost_of lots (a_instrument_id a) (currency (ps_cash s)) = Inr c"
    and mk: "mk_action_entry \<lparr>ce_action_id = a_action_id a, ce_revision_no = a_revision_no a,
         ce_instrument_id = a_instrument_id a, ce_action_type = a_type a, ce_phase = p, ce_occurred_at = t,
         ce_cash_before = ps_cash s, ce_cash_after = cash,
         ce_quantity_before = position_quantity s (a_instrument_id a),
         ce_quantity_after = position_quantity_of lots (a_instrument_id a),
         ce_position_cost_before = b, ce_position_cost_after = c,
         ce_receivable_before = r, ce_receivable_after = r',
         ce_share_delta_before = pending_share_delta s (a_instrument_id a),
         ce_share_delta_after = pending_share_delta_of es (a_instrument_id a),
         ce_postings = postings\<rparr> = Inr entry"
    unfolding action_entry_of_def by (elim rbindE) (rule that; assumption)
  from mk have entry: "entry_for s a p entry" "ce_cash_after entry = cash"
      "ce_quantity_after entry = position_quantity_of lots (a_instrument_id a)"
    by (auto simp: mk_action_entry_def construct_Inr entry_for_def action_entry_key_def phase_key_def)
  from mk have "b = c"
    by (auto simp: mk_action_entry_def construct_Inr action_entry_post_init_def action_entry_checks_def is_ok_iff
      checks_Inr elim!: rbindE)
  then show thesis using that [OF s'(1) entry(1) s'(2) bc(1)] bc(2) entry by simp
qed

lemma applied_phases_with_entry:
  "entry_for s a p e \<Longrightarrow>
     applied_action_phases (with_action_entry s cash lots es e) = insert (phase_key a p) (applied_action_phases s)"
  by (auto simp: applied_action_phases_def entry_for_def)

lemma eq_set_imp: "xs = [x] \<Longrightarrow> x \<in> set xs"
  by simp

lemma find_entitlement_facts:
  assumes "find_entitlement s a = Inr (i, e)"
  shows "i < length (ps_entitlements s)" "ps_entitlements s ! i = e" "is_entitlement_of a e"
proof -
  have "filter (\<lambda>(i, e). is_entitlement_of a e) (List.enumerate 0 (ps_entitlements s)) = [(i, e)]"
    using assms by (auto simp: find_entitlement_def split: list.splits)
  from eq_set_imp [OF this] show "i < length (ps_entitlements s)" "ps_entitlements s ! i = e" "is_entitlement_of a e"
    by (simp_all add: in_set_enumerate_eq)
qed

lemma is_entitlement_of_key: "is_entitlement_of a e \<longleftrightarrow> entitlement_key e = (a_action_id a, a_revision_no a)"
  by (auto simp: is_entitlement_of_def entitlement_key_def)

lemma capture_entitlementE:
  assumes "capture_entitlement s a t = Inr s'"
  obtains "phase_key a ENTITLEMENT \<in> applied_action_phases s" "s' = s"
  | cash delta sellable settlement e where
    "phase_key a ENTITLEMENT \<notin> applied_action_phases s"
    "\<forall>e \<in> set (ps_entitlements s). \<not> is_entitlement_of a e" "a_type a \<noteq> RIGHTS_ISSUE"
    "entitlement_terms a (position_quantity s (a_instrument_id a)) = Inr (cash, delta, sellable, settlement)"
    "e = new_entitlement s a t cash delta sellable settlement" "entitlement_ok e"
    "record_phase s a ENTITLEMENT t (ps_cash s) (ps_lots s) (ps_entitlements s @ [e]) [] = Inr s'"
proof (cases "phase_key a ENTITLEMENT \<in> applied_action_phases s")
  case True
  then show thesis using assms that(1) by (auto simp: capture_entitlement_def elim!: rbindE)
next
  case False
  then have "\<exists>cash delta sellable settlement e.
    (\<forall>e \<in> set (ps_entitlements s). \<not> is_entitlement_of a e) \<and> a_type a \<noteq> RIGHTS_ISSUE \<and>
    entitlement_terms a (position_quantity s (a_instrument_id a)) = Inr (cash, delta, sellable, settlement) \<and>
    e = new_entitlement s a t cash delta sellable settlement \<and> entitlement_ok e \<and>
    record_phase s a ENTITLEMENT t (ps_cash s) (ps_lots s) (ps_entitlements s @ [e]) [] = Inr s'"
    using assms unfolding capture_entitlement_def
    by (auto simp: checks_Inr list_ex_iff mk_entitlement_Inr elim!: rbindE)
  then show thesis using that(2) False by blast
qed

lemma new_entitlement_simps [simp]:
  "entitlement_key (new_entitlement s a t cash delta sellable settlement) = (a_action_id a, a_revision_no a)"
  "en_status (new_entitlement s a t cash delta sellable settlement) = CAPTURED"
  by (simp_all add: new_entitlement_def entitlement_key_def)

lemma decline_rights_issueE:
  assumes "decline_rights_issue s a t = Inr s'"
  obtains "phase_key a DECLINED \<in> applied_action_phases s" "s' = s"
  | "phase_key a DECLINED \<notin> applied_action_phases s"
    "record_phase s a DECLINED t (ps_cash s) (ps_lots s) (ps_entitlements s) [] = Inr s'"
  using assms by (auto simp: decline_rights_issue_def elim!: rbindE split: if_splits)

lemma accrual_lotsE:
  assumes "accrual_lots s a e = Inr (lots, e')"
  obtains "lots = ps_lots s" "e' = e"
  | allocated principals where "map_res (reduce_principal allocated) (ps_lots s) = Inr lots"
    "e' = e\<lparr>en_share_principals := principals\<rparr>" "entitlement_ok e'" "a_type a = SHARE_DISTRIBUTION" "0 < en_share_delta e"
proof (cases "a_type a = SHARE_DISTRIBUTION \<and> 0 < en_share_delta e")
  case True
  then show thesis using assms that(2) unfolding accrual_lots_def
    by (auto simp: mk_entitlement_Inr elim!: rbindE)
next
  case False
  then show thesis using assms that(1) by (auto simp: accrual_lots_def)
qed

lemma accrue_actionE:
  assumes "accrue_action s a t = Inr s'"
  obtains "phase_key a ACCRUAL \<in> applied_action_phases s" "s' = s"
  | i e lots e' postings where "phase_key a ACCRUAL \<notin> applied_action_phases s"
    "find_entitlement s a = Inr (i, e)" "en_status e = CAPTURED"
    "entitlement_ok (e\<lparr>en_status := ACCRUED, en_accrued_at := Some t\<rparr>)"
    "accrual_lots s a (e\<lparr>en_status := ACCRUED, en_accrued_at := Some t\<rparr>) = Inr (lots, e')"
    "record_phase s a ACCRUAL t (ps_cash s) lots (replace_entitlement s i e') postings = Inr s'"
proof (cases "phase_key a ACCRUAL \<in> applied_action_phases s")
  case True
  then show thesis using assms that(1) by (auto simp: accrue_action_def elim!: rbindE)
next
  case False
  then show thesis using assms that(2) unfolding accrue_action_def if_not_P [OF False]
    by (auto simp: mk_entitlement_Inr elim!: rbindE split: if_splits)
qed

lemma settle_actionE:
  assumes "settle_action sha s a t = Inr s'"
  obtains "phase_key a SETTLEMENT \<in> applied_action_phases s" "s' = s"
  | i e cash lots postings where "phase_key a SETTLEMENT \<notin> applied_action_phases s"
    "find_entitlement s a = Inr (i, e)" "en_status e = ACCRUED" "en_settlement_date e \<le> shanghai_date t"
    "settlement_effect sha s a e = Inr (cash, lots, postings)"
    "entitlement_ok (e\<lparr>en_status := SETTLED, en_settled_at := Some t\<rparr>)"
    "record_phase s a SETTLEMENT t cash lots
       (replace_entitlement s i (e\<lparr>en_status := SETTLED, en_settled_at := Some t\<rparr>)) postings = Inr s'"
proof (cases "phase_key a SETTLEMENT \<in> applied_action_phases s")
  case True
  moreover from this have "s' = s" using assms by (simp add: settle_action_def)
  ultimately show thesis by (rule that(1))
next
  case False
  obtain ie where "find_entitlement s a = Inr ie"
    using assms unfolding settle_action_def if_not_P [OF False] by (elim rbindE) (rule that)
  then obtain i e where f: "find_entitlement s a = Inr (i, e)" by (cases ie) simp
  define updated where "updated = e\<lparr>en_status := SETTLED, en_settled_at := Some t\<rparr>"
  have step: "rbind (checks
        [(en_status e \<noteq> ACCRUED, PortfolioInvariantError ''corporate action must accrue before settlement''),
         (shanghai_date t < en_settlement_date e,
          PortfolioInvariantError ''corporate action cannot settle before its source date'')])
      (\<lambda>_. rbind (settlement_effect sha s a e) (\<lambda>(cash, lots, postings).
        rbind (mk_entitlement updated) (\<lambda>updated.
          record_phase s a SETTLEMENT t cash lots (replace_entitlement s i updated) postings))) = Inr s'"
    using assms unfolding settle_action_def if_not_P [OF False] f rbind_Inr split_conv updated_def .
  obtain u where c: "checks
        [(en_status e \<noteq> ACCRUED, PortfolioInvariantError ''corporate action must accrue before settlement''),
         (shanghai_date t < en_settlement_date e,
          PortfolioInvariantError ''corporate action cannot settle before its source date'')] = Inr u"
    and rest: "rbind (settlement_effect sha s a e) (\<lambda>(cash, lots, postings).
        rbind (mk_entitlement updated) (\<lambda>updated.
          record_phase s a SETTLEMENT t cash lots (replace_entitlement s i updated) postings)) = Inr s'"
    using step by (rule rbindE)
  have g: "en_status e = ACCRUED" "en_settlement_date e \<le> shanghai_date t"
    using c unfolding checks_Inr by (simp_all add: not_less)
  obtain x where x: "settlement_effect sha s a e = Inr x"
    "(\<lambda>(cash, lots, postings). rbind (mk_entitlement updated) (\<lambda>updated.
        record_phase s a SETTLEMENT t cash lots (replace_entitlement s i updated) postings)) x = Inr s'"
    using rest by (rule rbindE)
  obtain cash lots postings where "x = (cash, lots, postings)" by (cases x)
  with x have r: "settlement_effect sha s a e = Inr (cash, lots, postings)"
    "rbind (mk_entitlement updated) (\<lambda>updated.
        record_phase s a SETTLEMENT t cash lots (replace_entitlement s i updated) postings) = Inr s'"
    by simp_all
  from r(2) have "entitlement_ok updated"
    "record_phase s a SETTLEMENT t cash lots (replace_entitlement s i updated) postings = Inr s'"
    by (auto simp: mk_entitlement_Inr elim!: rbindE)
  then show thesis unfolding updated_def by (rule that(2) [OF False f g r(1)])
qed

section \<open>Well-formedness\<close>

lemma map_res_all:
  assumes "map_res f xs = Inr ys" "\<And>x y. x \<in> set xs \<Longrightarrow> f x = Inr y \<Longrightarrow> P y"
  shows "list_all P ys"
  using assms
proof (induction xs arbitrary: ys)
  case (Cons x xs)
  then obtain y ys' where "f x = Inr y" "map_res f xs = Inr ys'" "ys = y # ys'" by (auto simp: result_simps)
  moreover from this have "list_all P ys'" using Cons.prems(2) by (intro Cons.IH) auto
  ultimately show ?case using Cons.prems(2) [of x y] by simp
qed simp

lemma reduce_principal_ok: "reduce_principal allocated l = Inr l' \<Longrightarrow> lot_ok l \<Longrightarrow> lot_ok l'"
  by (auto simp: reduce_principal_def mk_lot_Inr elim!: rbindE split: option.splits)

lemma credit_lotE:
  assumes "credit_lot sha s a e d il credited = Inr new"
  obtains delta where
    "dec_div (dec_mul (of_int (l_remaining_quantity (snd il))) (of_int (en_share_delta e))) (of_int (en_entitled_quantity e)) = Inr delta"
    "delta = 0" "new = credited"
  | delta lot where
    "dec_div (dec_mul (of_int (l_remaining_quantity (snd il))) (of_int (en_share_delta e))) (of_int (en_entitled_quantity e)) = Inr delta"
    "delta \<noteq> 0" "delta = of_int (to_integral delta)" "new = credited @ [lot]" "lot_ok lot"
    "l_remaining_quantity lot = py_int delta" "l_cost_basis lot = \<lparr>amount = 0, currency = currency (ps_cash s)\<rparr>"
    "l_instrument_id lot = a_instrument_id a" "l_acquired_at lot = l_acquired_at (snd il)"
    "l_sellable_on lot = max (l_sellable_on (snd il)) d"
proof -
  from assms obtain delta where
    d: "dec_div (dec_mul (of_int (l_remaining_quantity (snd il))) (of_int (en_share_delta e))) (of_int (en_entitled_quantity e)) = Inr delta"
    unfolding credit_lot_def by (elim rbindE)
  show thesis
  proof (cases "delta = 0")
    case True
    then show thesis using assms d that(1) by (auto simp: credit_lot_def to_integral_def round_half_even_def)
  next
    case False
    then have "delta = of_int (to_integral delta)" using assms d by (auto simp: credit_lot_def split: if_splits)
    with assms d False obtain fill q zero lot where "mk_quantity (py_int delta) = Inr q" "money_zero (currency (ps_cash s)) = Inr zero"
      "mk_lot \<lparr>l_opened_by_fill_id = fill, l_instrument_id = a_instrument_id a,
              l_acquired_at = l_acquired_at (snd il), l_acquired_on = l_acquired_on (snd il),
              l_sellable_on = max (l_sellable_on (snd il)) d, l_remaining_quantity = q, l_cost_basis = zero,
              l_acquisition_principal = (if en_share_principals e \<noteq> [] then en_share_principals e ! fst il else None)\<rparr> = Inr lot"
      "new = credited @ [lot]"
      unfolding credit_lot_def by (auto elim!: rbindE split: if_splits)
    then show thesis using that(2) [OF d False \<open>delta = of_int (to_integral delta)\<close>]
      by (auto simp: mk_lot_Inr mk_quantity_Inr money_zero_Inr)
  qed
qed

lemma settle_distribution_ok:
  assumes "settle_distribution sha s a e = Inr lots" "list_all lot_ok (ps_lots s)"
  shows "list_all lot_ok lots"
proof (cases "lots = ps_lots s")
  case False
  with assms obtain d credited where c: "fold_res (credit_lot sha s a e d) (List.enumerate 0 (en_record_lots e)) [] = Inr credited"
    "lots = ps_lots s @ credited"
    by (auto simp: settle_distribution_def elim!: rbindE split: if_splits option.splits)
  have "list_all lot_ok credited"
    by (rule fold_res_invariant [OF c(1), of "list_all lot_ok"]) (auto elim!: credit_lotE)
  then show ?thesis using assms(2) c(2) by simp
qed (use assms in simp)

lemma settle_split_ok:
  assumes "settle_split s a e = Inr lots" "list_all lot_ok (ps_lots s)"
  shows "list_all lot_ok lots"
proof (cases "lots = ps_lots s")
  case False
  with assms obtain target current d transformed where
    m: "map_res (split_lot target current d) (filter (\<lambda>l. l_instrument_id l = a_instrument_id a) (ps_lots s)) = Inr transformed"
    and lots: "lots = filter (\<lambda>l. l_instrument_id l \<noteq> a_instrument_id a) (ps_lots s) @ transformed"
    by (auto simp: settle_split_def Let_def elim!: rbindE split: if_splits option.splits)
  have "list_all lot_ok transformed"
    by (rule map_res_all [OF m]) (auto simp: split_lot_def mk_lot_Inr elim!: rbindE split: if_splits)
  then show ?thesis using assms(2) by (auto simp: lots list_all_iff)
qed (use assms in simp)

lemma settlement_effect_ok:
  assumes "settlement_effect sha s a e = Inr (cash, lots, postings)" "list_all lot_ok (ps_lots s)"
  shows "list_all lot_ok lots \<and> currency cash = currency (ps_cash s)"
  using assms settle_split_ok [of s a e] settle_distribution_ok [of sha s a e]
  by (cases "a_type a") (auto simp: settlement_effect_def money_add_Inr elim!: rbindE)

lemma portfolio_ok_with_entry:
  assumes "portfolio_ok s" "is_ok (checks (portfolio_checks (with_action_entry s cash lots es entry)))"
    "currency cash = currency (ps_cash s)" "list_all lot_ok lots" "list_all entitlement_ok es"
  shows "portfolio_ok (with_action_entry s cash lots es entry)"
  using assms unfolding portfolio_ok_def with_action_entry_simps by simp

lemma list_all_update: "list_all P xs \<Longrightarrow> P y \<Longrightarrow> list_all P (xs[i := y])"
  using set_update_subset_insert [of xs i y] unfolding list_all_iff by blast

lemma capture_keeps_ok: "capture_entitlement s a t = Inr s' \<Longrightarrow> portfolio_ok s \<Longrightarrow> portfolio_ok s'"
  by (elim capture_entitlementE record_phaseE) (auto simp: portfolio_ok_def)

lemma decline_keeps_ok: "decline_rights_issue s a t = Inr s' \<Longrightarrow> portfolio_ok s \<Longrightarrow> portfolio_ok s'"
  by (elim decline_rights_issueE record_phaseE) (auto simp: portfolio_ok_def)

lemma accrue_keeps_ok:
  assumes "accrue_action s a t = Inr s'" "portfolio_ok s"
  shows "portfolio_ok s'"
  using assms(1)
proof (cases rule: accrue_actionE)
  case (2 i e lots e' postings)
  have "list_all lot_ok lots \<and> entitlement_ok e'"
    using 2(5)
  proof (cases rule: accrual_lotsE)
    case (2 allocated principals)
    have "\<forall>l \<in> set (ps_lots s). lot_ok l" using assms(2) by (simp add: portfolio_ok_def list_all_iff)
    then show ?thesis using map_res_all [OF 2(1), of lot_ok] reduce_principal_ok 2 by blast
  qed (use 2(4) assms(2) in \<open>simp add: portfolio_ok_def\<close>)
  moreover have "list_all entitlement_ok (ps_entitlements s)" using assms(2) by (simp add: portfolio_ok_def)
  ultimately show ?thesis using 2(6) assms(2)
    by (elim record_phaseE) (auto simp: replace_entitlement_def intro!: portfolio_ok_with_entry list_all_update)
qed (use assms(2) in simp)

lemma settle_keeps_ok:
  assumes "settle_action sha s a t = Inr s'" "portfolio_ok s"
  shows "portfolio_ok s'"
  using assms(1)
proof (cases rule: settle_actionE)
  case (2 i e cash lots postings)
  have "list_all lot_ok lots \<and> currency cash = currency (ps_cash s)"
    using settlement_effect_ok [OF 2(5)] assms(2) by (simp add: portfolio_ok_def)
  moreover have "list_all entitlement_ok (ps_entitlements s)" using assms(2) by (simp add: portfolio_ok_def)
  ultimately show ?thesis using 2(6,7) assms(2)
    by (elim record_phaseE) (auto simp: replace_entitlement_def intro!: portfolio_ok_with_entry list_all_update)
qed (use assms(2) in simp)

lemma apply_buy_keeps_ok:
  assumes "apply_buy s f d = Inr s'" "portfolio_ok s"
  shows "portfolio_ok s'"
proof -
  from assms(1) obtain cost lot entry cash where "mk_lot lot = Inr lot" "money_sub (ps_cash s) cost = Inr cash"
    "mk_portfolio (after_fill s f cash (ps_lots s @ [lot]) entry) = Inr s'"
    unfolding apply_buy_def after_fill_def by (auto simp: mk_lot_Inr elim!: rbindE split: if_splits)
  then show ?thesis using assms(2) by (auto simp: portfolio_ok_def mk_portfolio_Inr mk_lot_Inr money_sub_Inr)
qed

lemma apply_sell_keeps_ok:
  assumes "apply_sell s f = Inr s'" "portfolio_ok s" "0 \<le> f_quantity f"
  shows "portfolio_ok s'"
proof -
  from apply_sellE [OF assms(1)] obtain proceeds gross fees where
    ok: "is_ok (checks (portfolio_checks s'))" and
    c: "money_add (ps_cash s) gross = Inr proceeds" "money_sub proceeds fees = Inr (ps_cash s')" and
    e: "ps_entitlements s' = ps_entitlements s" by (metis after_fill_simps(1,6))
  have l: "\<forall>l \<in> set (ps_lots s). lot_ok l" using assms(2) by (simp add: portfolio_ok_def list_all_iff)
  have "list_all lot_ok (ps_lots s')"
    using apply_sell_lots(3) [OF assms] l part_of_simps(5) unfolding list_all_iff by metis
  then show ?thesis using ok c e assms(2) by (auto simp: portfolio_ok_def money_add_Inr money_sub_Inr)
qed

section \<open>Portfolio histories\<close>

text \<open>
  The portfolios reachable from a start by the six transitions of the ledger, each applied to a
  fill its constructor accepts or to any corporate action, in any order.
\<close>

inductive portfolio_history :: "(string \<Rightarrow> string) \<Rightarrow> portfolio_state \<Rightarrow> portfolio_state \<Rightarrow> bool" for sha s0 where
  start: "portfolio_history sha s0 s0"
| buy: "portfolio_history sha s0 s \<Longrightarrow> fill_ok f \<Longrightarrow> apply_buy s f d = Inr t \<Longrightarrow> portfolio_history sha s0 t"
| sell: "portfolio_history sha s0 s \<Longrightarrow> fill_ok f \<Longrightarrow> apply_sell s f = Inr t \<Longrightarrow> portfolio_history sha s0 t"
| capture: "portfolio_history sha s0 s \<Longrightarrow> capture_entitlement s a u = Inr t \<Longrightarrow> portfolio_history sha s0 t"
| decline: "portfolio_history sha s0 s \<Longrightarrow> decline_rights_issue s a u = Inr t \<Longrightarrow> portfolio_history sha s0 t"
| accrue: "portfolio_history sha s0 s \<Longrightarrow> accrue_action s a u = Inr t \<Longrightarrow> portfolio_history sha s0 t"
| settle: "portfolio_history sha s0 s \<Longrightarrow> settle_action sha s a u = Inr t \<Longrightarrow> portfolio_history sha s0 t"

lemma history_ok:
  "portfolio_history sha s0 s \<Longrightarrow> portfolio_ok s0 \<Longrightarrow> portfolio_ok s"
proof (induction rule: portfolio_history.induct)
  case (sell s f t)
  then show ?case by (auto intro!: apply_sell_keeps_ok [of s f t] simp: fill_ok_iff)
qed (auto intro: apply_buy_keeps_ok capture_keeps_ok decline_keeps_ok accrue_keeps_ok settle_keeps_ok)

lemma portfolio_ok_facts:
  assumes "portfolio_ok s"
  shows "0 \<le> amount (ps_cash s)" "distinct (map f_fill_id (ps_fills s))"
    "map le_fill_id (ps_ledger_entries s) = map f_fill_id (ps_fills s)"
    "distinct (map l_opened_by_fill_id (ps_lots s))" "distinct (map entitlement_key (ps_entitlements s))"
    "distinct (map action_entry_key (ps_action_entries s))"
    "\<And>l. l \<in> set (ps_lots s) \<Longrightarrow> 0 < l_remaining_quantity l \<and> l_acquired_on l \<le> l_sellable_on l"
  using assms by (auto simp: portfolio_ok_def portfolio_checks_def is_ok_checks list_all_iff lot_ok_iff)

text \<open>The phases an action has passed, and those its entitlement's status stands for.\<close>

definition action_status :: "portfolio_state \<Rightarrow> string \<times> int \<rightharpoonup> entitlement_status" where
  "action_status s = map_of (map (\<lambda>e. (entitlement_key e, en_status e)) (ps_entitlements s))"

definition passed_phases :: "portfolio_state \<Rightarrow> string \<times> int \<Rightarrow> action_phase set" where
  "passed_phases s k = {p. p \<noteq> DECLINED \<and> (fst k, snd k, p) \<in> applied_action_phases s}"

fun status_phases :: "entitlement_status option \<Rightarrow> action_phase set" where
  "status_phases None = {}"
| "status_phases (Some CAPTURED) = {ENTITLEMENT}"
| "status_phases (Some ACCRUED) = {ENTITLEMENT, ACCRUAL}"
| "status_phases (Some SETTLED) = {ENTITLEMENT, ACCRUAL, SETTLEMENT}"

lemma map_of_list_update:
  assumes "distinct (map k xs)" "i < length xs" "k y = k (xs ! i)"
  shows "map_of (map (\<lambda>x. (k x, v x)) (xs[i := y])) = (map_of (map (\<lambda>x. (k x, v x)) xs))(k y \<mapsto> v y)"
  using assms
proof (induction xs arbitrary: i)
  case (Cons x xs)
  show ?case
  proof (cases i)
    case (Suc j)
    have "k y \<in> set (map k xs)" using Cons.prems Suc by auto
    then have "k x \<noteq> k y" using Cons.prems(1) by auto
    moreover have "map_of (map (\<lambda>x. (k x, v x)) (xs[j := y])) = (map_of (map (\<lambda>x. (k x, v x)) xs))(k y \<mapsto> v y)"
      using Cons.prems Suc by (intro Cons.IH) auto
    ultimately show ?thesis using Suc by (auto simp: fun_upd_twist)
  qed (use Cons.prems in auto)
qed simp

lemma action_status_replace:
  assumes "portfolio_ok s" "find_entitlement s a = Inr (i, e)" "entitlement_key e' = entitlement_key e"
    "ps_entitlements t = replace_entitlement s i e'"
  shows "action_status t = (action_status s)((a_action_id a, a_revision_no a) \<mapsto> en_status e')"
proof -
  from find_entitlement_facts [OF assms(2)] have i: "i < length (ps_entitlements s)" "ps_entitlements s ! i = e"
    "entitlement_key e = (a_action_id a, a_revision_no a)" by (auto simp: is_entitlement_of_key)
  show ?thesis
    unfolding action_status_def assms(4) replace_entitlement_def
    using map_of_list_update [of entitlement_key "ps_entitlements s" i e' en_status] portfolio_ok_facts(5) [OF assms(1)] i assms(3)
    by simp
qed

lemma action_status_found:
  assumes "portfolio_ok s" "find_entitlement s a = Inr (i, e)"
  shows "action_status s (a_action_id a, a_revision_no a) = Some (en_status e)"
proof -
  from find_entitlement_facts [OF assms(2)] have e: "e \<in> set (ps_entitlements s)" "entitlement_key e = (a_action_id a, a_revision_no a)"
    by (auto simp: is_entitlement_of_key [symmetric] intro: nth_mem)
  have "(entitlement_key e, en_status e) \<in> set (map (\<lambda>e. (entitlement_key e, en_status e)) (ps_entitlements s))"
    using e(1) by simp
  then show ?thesis
    unfolding action_status_def e(2) [symmetric] using portfolio_ok_facts(5) [OF assms(1)]
    by (intro map_of_is_SomeI) (auto simp: comp_def)
qed

lemma passed_phases_entry:
  assumes "entry_for s a p entry" "p \<noteq> DECLINED"
  shows "passed_phases (with_action_entry s cash lots es entry) k =
    (if k = (a_action_id a, a_revision_no a) then insert p (passed_phases s k) else passed_phases s k)"
  using assms applied_phases_with_entry [OF assms(1), of cash lots es]
  by (cases k) (auto simp: passed_phases_def phase_key_def)

lemma passed_phases_declined:
  assumes "entry_for s a DECLINED entry"
  shows "passed_phases (with_action_entry s cash lots es entry) k = passed_phases s k"
  using applied_phases_with_entry [OF assms, of cash lots es]
  by (cases k) (auto simp: passed_phases_def phase_key_def)

definition phases_agree :: "portfolio_state \<Rightarrow> bool" where
  "phases_agree s \<longleftrightarrow> (\<forall>k. passed_phases s k = status_phases (action_status s k))"

lemma same_actions_agree:
  "ps_action_entries t = ps_action_entries s \<Longrightarrow> ps_entitlements t = ps_entitlements s \<Longrightarrow> phases_agree s \<Longrightarrow> phases_agree t"
  by (simp add: phases_agree_def passed_phases_def action_status_def applied_action_phases_def)

lemma capture_agree:
  assumes "capture_entitlement s a u = Inr t" "phases_agree s"
  shows "phases_agree t"
  using assms(1)
proof (cases rule: capture_entitlementE)
  case (2 cash delta sellable settlement e)
  from record_phaseE [OF 2(7)] obtain entry where
    t: "t = with_action_entry s (ps_cash s) (ps_lots s) (ps_entitlements s @ [e]) entry" and
    en: "entry_for s a ENTITLEMENT entry" by metis
  have none: "action_status s (a_action_id a, a_revision_no a) = None"
    using 2(2) by (auto simp: action_status_def map_of_eq_None_iff is_entitlement_of_key)
  have "action_status t = (action_status s)((a_action_id a, a_revision_no a) \<mapsto> CAPTURED)"
    using 2(5) none by (auto simp: t action_status_def map_add_def split: option.splits)
  then show ?thesis
    using assms(2) none passed_phases_entry [OF en, of "ps_cash s" "ps_lots s" "ps_entitlements s @ [e]"]
    by (auto simp: phases_agree_def t)
qed (use assms(2) in simp)

lemma decline_agree:
  assumes "decline_rights_issue s a u = Inr t" "phases_agree s"
  shows "phases_agree t"
  using assms(1)
proof (cases rule: decline_rights_issueE)
  case 2
  from record_phaseE [OF 2(2)] obtain entry where
    t: "t = with_action_entry s (ps_cash s) (ps_lots s) (ps_entitlements s) entry" and
    en: "entry_for s a DECLINED entry" by metis
  then show ?thesis
    using assms(2) passed_phases_declined [OF en] by (simp add: phases_agree_def t action_status_def)
qed (use assms(2) in simp)

lemma accrue_agree:
  assumes "accrue_action s a u = Inr t" "phases_agree s" "portfolio_ok s"
  shows "phases_agree t"
  using assms(1)
proof (cases rule: accrue_actionE)
  case (2 i e lots e' postings)
  from record_phaseE [OF 2(6)] obtain entry where
    t: "t = with_action_entry s (ps_cash s) lots (replace_entitlement s i e') entry" and
    en: "entry_for s a ACCRUAL entry" by metis
  have e': "entitlement_key e' = entitlement_key e \<and> en_status e' = ACCRUED"
    using 2(5) by (cases rule: accrual_lotsE) (auto simp: entitlement_key_def)
  then have "action_status t = (action_status s)((a_action_id a, a_revision_no a) \<mapsto> ACCRUED)"
    using action_status_replace [OF assms(3) 2(2), of e' t] by (simp add: t)
  then show ?thesis
    using assms(2) action_status_found [OF assms(3) 2(2)] 2(3)
      passed_phases_entry [OF en, of "ps_cash s" lots "replace_entitlement s i e'"]
    by (auto simp: phases_agree_def t)
qed (use assms(2) in simp)

lemma settle_agree:
  assumes "settle_action sha s a u = Inr t" "phases_agree s" "portfolio_ok s"
  shows "phases_agree t"
  using assms(1)
proof (cases rule: settle_actionE)
  case (2 i e cash lots postings)
  define e' where "e' = e\<lparr>en_status := SETTLED, en_settled_at := Some u\<rparr>"
  from record_phaseE [OF 2(7)] obtain entry where
    t: "t = with_action_entry s cash lots (replace_entitlement s i e') entry" and
    en: "entry_for s a SETTLEMENT entry" by (metis e'_def)
  have "action_status t = (action_status s)((a_action_id a, a_revision_no a) \<mapsto> SETTLED)"
    using action_status_replace [OF assms(3) 2(2), of e' t] by (simp add: t e'_def entitlement_key_def)
  then show ?thesis
    using assms(2) action_status_found [OF assms(3) 2(2)] 2(3)
      passed_phases_entry [OF en, of cash lots "replace_entitlement s i e'"]
    by (auto simp: phases_agree_def t)
qed (use assms(2) in simp)

lemma apply_buy_actions:
  "apply_buy s f d = Inr t \<Longrightarrow> ps_action_entries t = ps_action_entries s \<and> ps_entitlements t = ps_entitlements s"
  unfolding apply_buy_def by (auto simp: mk_portfolio_Inr elim!: rbindE split: if_splits)

lemma apply_sell_actions:
  "apply_sell s f = Inr t \<Longrightarrow> ps_action_entries t = ps_action_entries s \<and> ps_entitlements t = ps_entitlements s"
  by (elim apply_sellE) simp

lemma history_agree:
  "portfolio_history sha s0 s \<Longrightarrow> portfolio_ok s0 \<Longrightarrow> phases_agree s0 \<Longrightarrow> phases_agree s"
proof (induction rule: portfolio_history.induct)
  case (accrue s a u t)
  then show ?case by (intro accrue_agree [of s a u t] history_ok [of sha s0 s]) auto
next
  case (settle s a u t)
  then show ?case by (intro settle_agree [of sha s a u t] history_ok [of sha s0 s]) auto
qed (auto intro: capture_agree decline_agree dest: apply_buy_actions apply_sell_actions elim: same_actions_agree [rotated 2])

section \<open>Exact allocation of shares\<close>

lemma ctx_ratio_integer:
  assumes "ctx (of_int a / of_int b) = of_int n" "0 \<le> a" "a < 10 ^ 27" "0 < b"
  shows "a = n * b"
proof (cases "a = 0")
  case True
  then show ?thesis using assms by simp
next
  case False
  define x :: rat where "x = of_int a / of_int b"
  have b: "(0::rat) < of_int b" and x: "0 < x" using assms False by (simp_all add: x_def)
  have "10 powi adjusted x \<le> x" using adjusted_bounds [of x] x by simp
  then have "10 powi (adjusted x - 27) \<le> x / 10 ^ 27" by (simp add: power_int_diff divide_right_mono)
  then have "10 powi (adjusted x - 27) / 2 \<le> x / 10 ^ 27 / 2" by (rule divide_right_mono) simp
  moreover have "\<bar>of_int n - x\<bar> \<le> 10 powi (adjusted x - 27) / 2"
    using ctx_error [of x] x assms(1) by (simp flip: x_def)
  ultimately have "\<bar>of_int n - x\<bar> \<le> x / 10 ^ 27 / 2" by (rule order_trans [rotated])
  then have "\<bar>of_int n - x\<bar> * of_int b \<le> x / 10 ^ 27 / 2 * of_int b" using b by (intro mult_right_mono) auto
  also have "\<dots> = of_int a / 10 ^ 27 / 2" using b by (simp add: x_def)
  also have "\<dots> < 1"
  proof -
    have "(of_int a :: rat) < of_int (10 ^ 27)" using assms(3) by (simp only: of_int_less_iff)
    then show ?thesis by simp
  qed
  also have "\<bar>of_int n - x\<bar> * of_int b = \<bar>(of_int n - x) * of_int b\<bar>" using b by (simp add: abs_mult)
  also have "(of_int n - x) * of_int b = (of_int (n * b - a) :: rat)" using b by (simp add: x_def left_diff_distrib)
  finally have "of_int \<bar>n * b - a\<bar> < (1 :: rat)" by (simp only: of_int_abs)
  then have "\<bar>n * b - a\<bar> < 1" by (simp only: of_int_less_1_iff)
  then show ?thesis by simp
qed

lemma py_int_of_int [simp]: "py_int (of_int n) = n"
  by (simp add: py_int_def round_down_def)

lemma pro_rata_integer:
  assumes "dec_div (dec_mul (of_int q) (of_int d)) (of_int w) = Inr x" "x = of_int n"
    "0 \<le> q" "0 \<le> d" "q * d < 10 ^ 27" "0 < w"
  shows "n * w = q * d"
proof -
  have "ctx (of_int (q * d)) = of_int (q * d)" using assms(3-5) by (intro ctx_of_int) auto
  then have "ctx (of_int (q * d) / of_int w) = of_int n" using assms(1,2,6) by (simp add: dec_div_def dec_mul_def)
  then show ?thesis using ctx_ratio_integer [of "q * d" w n] assms(3-6) by simp
qed

lemma credit_lots_sum:
  assumes "fold_res (credit_lot sha s a e d) xs acc = Inr new" "0 < en_entitled_quantity e" "0 \<le> en_share_delta e"
    "\<forall>x \<in> set xs. 0 \<le> l_remaining_quantity (snd x) \<and> l_remaining_quantity (snd x) * en_share_delta e < 10 ^ 27"
  shows "sum_list (map l_remaining_quantity new) * en_entitled_quantity e =
    sum_list (map l_remaining_quantity acc) * en_entitled_quantity e +
    sum_list (map (l_remaining_quantity \<circ> snd) xs) * en_share_delta e"
  using assms
proof (induction xs arbitrary: acc)
  case (Cons x xs)
  then obtain mid where mid: "credit_lot sha s a e d x acc = Inr mid" "fold_res (credit_lot sha s a e d) xs mid = Inr new"
    by (auto simp: result_simps)
  have "sum_list (map l_remaining_quantity mid) * en_entitled_quantity e =
      sum_list (map l_remaining_quantity acc) * en_entitled_quantity e + l_remaining_quantity (snd x) * en_share_delta e"
    using mid(1)
  proof (cases rule: credit_lotE)
    case (1 delta)
    have "0 * en_entitled_quantity e = l_remaining_quantity (snd x) * en_share_delta e"
      using Cons.prems 1 by (intro pro_rata_integer [OF 1(1)]) auto
    then show ?thesis using 1 by simp
  next
    case (2 delta lot)
    have "to_integral delta * en_entitled_quantity e = l_remaining_quantity (snd x) * en_share_delta e"
      using Cons.prems by (intro pro_rata_integer [OF 2(1,3)]) auto
    moreover have "l_remaining_quantity lot = to_integral delta" using 2(3,6) by (metis py_int_of_int)
    ultimately show ?thesis using 2(4) by (simp add: algebra_simps)
  qed
  moreover have "sum_list (map l_remaining_quantity new) * en_entitled_quantity e =
      sum_list (map l_remaining_quantity mid) * en_entitled_quantity e +
      sum_list (map (l_remaining_quantity \<circ> snd) xs) * en_share_delta e"
    using Cons.prems mid(2) by (intro Cons.IH) auto
  ultimately show ?case by (simp add: algebra_simps comp_def)
qed simp

lemma credit_lots_all:
  assumes "fold_res (credit_lot sha s a e d) xs [] = Inr new"
  shows "\<forall>l \<in> set new. l_instrument_id l = a_instrument_id a \<and> amount (l_cost_basis l) = 0 \<and> d \<le> l_sellable_on l"
  by (rule fold_res_invariant [OF assms]) (auto elim!: credit_lotE)

lemma element_le_sum: "x \<in> set xs \<Longrightarrow> \<forall>y \<in> set xs. 0 \<le> f y \<Longrightarrow> f x \<le> (sum_list (map f xs) :: int)"
proof (induction xs)
  case (Cons y ys)
  have "0 \<le> sum_list (map f ys)" "0 \<le> f y" using Cons.prems by (auto intro: sum_list_nonneg_map)
  moreover have "f x \<le> sum_list (map f ys)" if "x \<in> set ys" using that Cons by auto
  ultimately show ?case using Cons.prems(1) by auto
qed simp

lemma settle_distribution_exact:
  assumes "settle_distribution sha s a e = Inr lots" "entitlement_ok e" "list_all lot_ok (en_record_lots e)"
    "0 < en_share_delta e" "0 < en_entitled_quantity e" "en_entitled_quantity e * en_share_delta e < 10 ^ 27"
  shows "\<exists>new. lots = ps_lots s @ new \<and> sum_list (map l_remaining_quantity new) = en_share_delta e \<and>
    (\<forall>l \<in> set new. l_instrument_id l = a_instrument_id a \<and> amount (l_cost_basis l) = 0)"
proof -
  from assms(1,4) obtain d new where d: "fold_res (credit_lot sha s a e d) (List.enumerate 0 (en_record_lots e)) [] = Inr new"
    and lots: "lots = ps_lots s @ new" and ne: "en_record_lots e \<noteq> []"
    by (auto simp: settle_distribution_def elim!: rbindE split: option.splits if_splits)
  have total: "sum_list (map l_remaining_quantity (en_record_lots e)) = en_entitled_quantity e"
    using assms(2) ne by (auto simp: entitlement_ok_def entitlement_checks_def is_ok_checks)
  have nn: "\<forall>l \<in> set (en_record_lots e). 0 \<le> l_remaining_quantity l"
    using assms(3) by (auto simp: list_all_iff lot_ok_iff)
  have "l_remaining_quantity l * en_share_delta e < 10 ^ 27" if "l \<in> set (en_record_lots e)" for l
  proof -
    have "l_remaining_quantity l \<le> en_entitled_quantity e"
      using element_le_sum [OF that, of l_remaining_quantity] nn total by simp
    then have "l_remaining_quantity l * en_share_delta e \<le> en_entitled_quantity e * en_share_delta e"
      using assms(4) by (intro mult_right_mono) auto
    then show ?thesis using assms(6) by linarith
  qed
  then have "sum_list (map l_remaining_quantity new) * en_entitled_quantity e = en_entitled_quantity e * en_share_delta e"
    using credit_lots_sum [OF d assms(5)] assms(4) nn total
    by (auto dest!: enumerate_mem simp: map_enumerate [of l_remaining_quantity] comp_def)
  then have "sum_list (map l_remaining_quantity new) = en_share_delta e" using assms(5) by simp
  then show ?thesis using lots credit_lots_all [OF d] by auto
qed

lemma split_lotE:
  assumes "split_lot target current d l = Inr l'"
  obtains n where "dec_div (dec_mul (of_int (l_remaining_quantity l)) (of_int target)) (of_int current) = Inr (of_int n)"
    "l' = l\<lparr>l_remaining_quantity := n, l_sellable_on := max (l_sellable_on l) d\<rparr>"
proof -
  obtain x where x: "dec_div (dec_mul (of_int (l_remaining_quantity l)) (of_int target)) (of_int current) = Inr x"
    using assms unfolding split_lot_def by (elim rbindE) (rule that)
  with assms have i: "x = of_int (to_integral x)" by (auto simp: split_lot_def split: if_splits)
  have "l' = l\<lparr>l_remaining_quantity := py_int x, l_sellable_on := max (l_sellable_on l) d\<rparr>"
    using assms x by (auto simp: split_lot_def mk_quantity_Inr mk_lot_Inr elim!: rbindE split: if_splits)
  then show thesis using that [of "to_integral x"] x i by (metis py_int_of_int)
qed

lemma split_lots_sum:
  assumes "map_res (split_lot target current d) ls = Inr ls'" "0 < current" "0 \<le> target"
    "\<forall>l \<in> set ls. 0 \<le> l_remaining_quantity l \<and> l_remaining_quantity l * target < 10 ^ 27"
  shows "sum_list (map l_remaining_quantity ls') * current = sum_list (map l_remaining_quantity ls) * target \<and>
    list_all2 (\<lambda>l l'. l_remaining_quantity l' * current = l_remaining_quantity l * target \<and>
      l' = l\<lparr>l_remaining_quantity := l_remaining_quantity l', l_sellable_on := max (l_sellable_on l) d\<rparr>) ls ls'"
  using assms
proof (induction ls arbitrary: ls')
  case (Cons l ls)
  then obtain l' rest where l': "split_lot target current d l = Inr l'" "map_res (split_lot target current d) ls = Inr rest"
    "ls' = l' # rest" by (auto simp: result_simps)
  from l'(1) obtain n where n: "dec_div (dec_mul (of_int (l_remaining_quantity l)) (of_int target)) (of_int current) = Inr (of_int n)"
    and eq: "l' = l\<lparr>l_remaining_quantity := n, l_sellable_on := max (l_sellable_on l) d\<rparr>" by (rule split_lotE)
  have "n * current = l_remaining_quantity l * target"
    using Cons.prems by (intro pro_rata_integer [OF n]) auto
  then show ?case using Cons l' eq by (simp add: algebra_simps)
qed simp

lemma settle_split_exact:
  assumes "settle_split s a e = Inr lots" "list_all lot_ok (ps_lots s)" "0 < position_quantity s (a_instrument_id a)"
    "position_quantity s (a_instrument_id a) * (position_quantity s (a_instrument_id a) + en_share_delta e) < 10 ^ 27"
  shows "position_quantity_of lots (a_instrument_id a) = position_quantity s (a_instrument_id a) + en_share_delta e \<and>
    filter (\<lambda>l. l_instrument_id l \<noteq> a_instrument_id a) lots = filter (\<lambda>l. l_instrument_id l \<noteq> a_instrument_id a) (ps_lots s) \<and>
    (\<exists>d. list_all2 (\<lambda>l l'. l_remaining_quantity l' * position_quantity s (a_instrument_id a) =
          l_remaining_quantity l * (position_quantity s (a_instrument_id a) + en_share_delta e) \<and>
        l' = l\<lparr>l_remaining_quantity := l_remaining_quantity l', l_sellable_on := max (l_sellable_on l) d\<rparr>)
      (filter (\<lambda>l. l_instrument_id l = a_instrument_id a) (ps_lots s))
      (filter (\<lambda>l. l_instrument_id l = a_instrument_id a) lots))"
proof -
  define ins where "ins = a_instrument_id a"
  define cur where "cur = position_quantity s ins"
  define target where "target = cur + en_share_delta e"
  define own where "own = filter (\<lambda>l. l_instrument_id l = ins) (ps_lots s)"
  from assms(1,3) have tp: "0 < target"
    by (auto simp: settle_split_def Let_def cur_def target_def ins_def checks_Inr elim!: rbindE split: if_splits)
  with assms(1) obtain d new where d: "map_res (split_lot target cur d) own = Inr new"
    and lots: "lots = filter (\<lambda>l. l_instrument_id l \<noteq> ins) (ps_lots s) @ new"
    by (auto simp: settle_split_def Let_def cur_def target_def ins_def own_def elim!: rbindE split: option.splits)
  have sum: "sum_list (map l_remaining_quantity own) = cur"
    by (simp add: own_def cur_def position_quantity_def position_quantity_of_def)
  have nn: "\<forall>l \<in> set own. 0 \<le> l_remaining_quantity l" using assms(2) by (auto simp: own_def list_all_iff lot_ok_iff)
  have "\<forall>l \<in> set own. 0 \<le> l_remaining_quantity l \<and> l_remaining_quantity l * target < 10 ^ 27"
  proof
    fix l assume l: "l \<in> set own"
    then have "l_remaining_quantity l \<le> cur" using element_le_sum [OF l nn] sum by simp
    then have "l_remaining_quantity l * target \<le> cur * target" using tp by (intro mult_right_mono) auto
    then show "0 \<le> l_remaining_quantity l \<and> l_remaining_quantity l * target < 10 ^ 27"
      using assms(4) nn l by (simp add: cur_def target_def ins_def)
  qed
  with split_lots_sum [OF d] assms(3) tp sum have
    "sum_list (map l_remaining_quantity new) * cur = target * cur" and
    rel: "list_all2 (\<lambda>l l'. l_remaining_quantity l' * cur = l_remaining_quantity l * target \<and>
      l' = l\<lparr>l_remaining_quantity := l_remaining_quantity l', l_sellable_on := max (l_sellable_on l) d\<rparr>) own new"
    by (simp_all add: cur_def ins_def)
  then have total: "sum_list (map l_remaining_quantity new) = target" using assms(3) by (simp add: cur_def ins_def)
  have "list_all2 (\<lambda>l l'. l_instrument_id l' = l_instrument_id l) own new"
    by (rule list_all2_mono [OF rel]) (metis position_lot.select_convs(2) position_lot.surjective position_lot.update_convs(5,6))
  then have "\<forall>l \<in> set new. l_instrument_id l = ins"
    by (auto simp: list_all2_conv_all_nth own_def in_set_conv_nth) (metis (mono_tags, lifting) length_filter_le mem_Collect_eq nth_mem set_filter)
  then have f: "filter (\<lambda>l. l_instrument_id l = ins) new = new" "filter (\<lambda>l. l_instrument_id l \<noteq> ins) new = []"
    by (auto simp: filter_id_conv filter_empty_conv)
  have g: "filter (\<lambda>l. l_instrument_id l = ins) lots = new"
    "filter (\<lambda>l. l_instrument_id l \<noteq> ins) lots = filter (\<lambda>l. l_instrument_id l \<noteq> ins) (ps_lots s)"
    by (simp_all add: lots f filter_empty_conv)
  then show ?thesis
    using total rel unfolding ins_def [symmetric] cur_def [symmetric] target_def [symmetric] own_def [symmetric] g
    by (auto simp: position_quantity_of_def g(1))
qed

section \<open>Entitlements over time\<close>

definition same_entitlement :: "entitlement \<Rightarrow> entitlement \<Rightarrow> bool" where
  "same_entitlement e e' \<longleftrightarrow>
     e' = e\<lparr>en_status := en_status e', en_accrued_at := en_accrued_at e', en_settled_at := en_settled_at e',
       en_share_principals := en_share_principals e'\<rparr>"

lemma same_entitlement_simps:
  assumes "same_entitlement e e'"
  shows "entitlement_key e' = entitlement_key e" "en_cash_amount e' = en_cash_amount e" "en_share_delta e' = en_share_delta e"
    "en_entitled_quantity e' = en_entitled_quantity e" "en_record_lots e' = en_record_lots e"
    "en_settlement_date e' = en_settlement_date e" "en_instrument_id e' = en_instrument_id e"
  using assms by (cases e; cases e'; simp add: same_entitlement_def entitlement_key_def)+

lemma same_entitlement_refl [simp]: "same_entitlement e e"
  by (simp add: same_entitlement_def)

lemma same_entitlement_trans: "same_entitlement e f \<Longrightarrow> same_entitlement f g \<Longrightarrow> same_entitlement e g"
  by (cases e; cases f; cases g) (simp add: same_entitlement_def)

definition entitlements_extend :: "entitlement list \<Rightarrow> entitlement list \<Rightarrow> bool" where
  "entitlements_extend es fs \<longleftrightarrow> (\<exists>gs hs. fs = gs @ hs \<and> list_all2 same_entitlement es gs)"

lemma entitlements_extend_refl: "entitlements_extend es es"
  unfolding entitlements_extend_def by (rule exI [of _ es], rule exI [of _ "[]"]) (simp add: list_all2_refl)

lemma entitlements_extend_append: "entitlements_extend es (es @ hs)"
  unfolding entitlements_extend_def by (rule exI [of _ es], rule exI [of _ hs]) (simp add: list_all2_refl)

lemma entitlements_extend_trans:
  assumes "entitlements_extend es fs" "entitlements_extend fs gs"
  shows "entitlements_extend es gs"
proof -
  from assms obtain f1 f2 g1 g2 where f: "fs = f1 @ f2" "list_all2 same_entitlement es f1"
    and g: "gs = g1 @ g2" "list_all2 same_entitlement fs g1"
    by (auto simp: entitlements_extend_def)
  from g(2) f(1) obtain h1 h2 where h: "g1 = h1 @ h2" "list_all2 same_entitlement f1 h1"
    by (auto simp: list_all2_append1)
  have "list_all2 same_entitlement es h1"
    by (rule list_all2_trans [OF _ f(2) h(2)]) (rule same_entitlement_trans)
  then show ?thesis unfolding entitlements_extend_def g(1) h(1) by auto
qed

lemma entitlements_extend_replace:
  assumes "find_entitlement s a = Inr (i, e)" "same_entitlement e e'"
  shows "entitlements_extend (ps_entitlements s) (replace_entitlement s i e')"
proof -
  have "list_all2 same_entitlement (ps_entitlements s) ((ps_entitlements s)[i := e'])"
    using find_entitlement_facts [OF assms(1)] assms(2) by (auto simp: list_all2_conv_all_nth nth_list_update)
  then show ?thesis unfolding entitlements_extend_def replace_entitlement_def by (intro exI [of _ "_[_ := _]"] exI [of _ "[]"]) simp
qed

lemma step_extends:
  "capture_entitlement s a u = Inr t \<Longrightarrow> entitlements_extend (ps_entitlements s) (ps_entitlements t)"
  "decline_rights_issue s a u = Inr t \<Longrightarrow> entitlements_extend (ps_entitlements s) (ps_entitlements t)"
  "accrue_action s a u = Inr t \<Longrightarrow> entitlements_extend (ps_entitlements s) (ps_entitlements t)"
  "settle_action sha s a u = Inr t \<Longrightarrow> entitlements_extend (ps_entitlements s) (ps_entitlements t)"
proof -
  show "entitlements_extend (ps_entitlements s) (ps_entitlements t)" if "capture_entitlement s a u = Inr t"
    using that by (cases rule: capture_entitlementE)
      (auto elim!: record_phaseE simp: entitlements_extend_refl entitlements_extend_append)
  show "entitlements_extend (ps_entitlements s) (ps_entitlements t)" if "decline_rights_issue s a u = Inr t"
    using that by (cases rule: decline_rights_issueE) (auto elim!: record_phaseE simp: entitlements_extend_refl)
  show "entitlements_extend (ps_entitlements s) (ps_entitlements t)" if "accrue_action s a u = Inr t"
    using that
  proof (cases rule: accrue_actionE)
    case (2 i e lots e' postings)
    have "same_entitlement e e'" using 2(5) by (cases rule: accrual_lotsE) (auto simp: same_entitlement_def)
    then show ?thesis using 2(6) entitlements_extend_replace [OF 2(2)] by (auto elim!: record_phaseE)
  qed (simp add: entitlements_extend_refl)
  show "entitlements_extend (ps_entitlements s) (ps_entitlements t)" if "settle_action sha s a u = Inr t"
    using that
  proof (cases rule: settle_actionE)
    case (2 i e cash lots postings)
    have "same_entitlement e (e\<lparr>en_status := SETTLED, en_settled_at := Some u\<rparr>)" by (simp add: same_entitlement_def)
    then show ?thesis using 2(7) entitlements_extend_replace [OF 2(2)] by (auto elim!: record_phaseE)
  qed (simp add: entitlements_extend_refl)
qed

lemma history_extends:
  "portfolio_history sha s0 s \<Longrightarrow> entitlements_extend (ps_entitlements s0) (ps_entitlements s)"
proof (induction rule: portfolio_history.induct)
  case (buy s f d t)
  then show ?case by (simp add: apply_buy_actions)
next
  case (sell s f t)
  then show ?case by (simp add: apply_sell_actions)
qed (auto intro: entitlements_extend_refl entitlements_extend_trans step_extends)

text \<open>The entitlement found later is the one captured, whatever happened in between.\<close>

lemma entitlement_frozen:
  assumes "portfolio_history sha s1 s2" "portfolio_ok s1" "e \<in> set (ps_entitlements s1)" "is_entitlement_of a e"
    "find_entitlement s2 a = Inr (i, e')"
  shows "same_entitlement e e'"
proof -
  from history_extends [OF assms(1)] obtain gs hs where g: "ps_entitlements s2 = gs @ hs"
    "list_all2 same_entitlement (ps_entitlements s1) gs" by (auto simp: entitlements_extend_def)
  from assms(3) obtain j where j: "j < length (ps_entitlements s1)" "ps_entitlements s1 ! j = e"
    by (auto simp: in_set_conv_nth)
  obtain e2 where e2: "e2 \<in> set gs" "same_entitlement e e2"
    using list_all2_nthD [OF g(2) j(1)] list_all2_lengthD [OF g(2)] j that [of "gs ! j"] by simp
  have "portfolio_ok s2" by (rule history_ok [OF assms(1,2)])
  then have d: "distinct (map entitlement_key (ps_entitlements s2))" by (rule portfolio_ok_facts)
  note found = find_entitlement_facts [OF assms(5)]
  have "e' \<in> set (ps_entitlements s2)" using nth_mem [OF found(1)] found(2) by simp
  moreover have "entitlement_key e' = entitlement_key e2"
    using found(3) assms(4) same_entitlement_simps(1) [OF e2(2)] by (simp add: is_entitlement_of_key)
  moreover have "inj_on entitlement_key (set (ps_entitlements s2))" using d by (simp add: distinct_map)
  moreover have "e2 \<in> set (ps_entitlements s2)" using e2(1) g(1) by simp
  ultimately have "e' = e2" by (intro inj_onD [of entitlement_key "set (ps_entitlements s2)"])
  then show ?thesis using e2(2) by simp
qed

section \<open>Instances\<close>

definition sample_action :: "action_kind \<Rightarrow> corporate_action" where
  "sample_action kind =
     (let share = kind \<in> {SHARE_DISTRIBUTION, STOCK_SPLIT, REVERSE_SPLIT} in
     \<lparr>a_action_id = ''action1'', a_source_action_id = ''src1'', a_instrument_id = ''300059.SZ'', a_type = kind,
a_record_date = 738002, a_ex_date = 738003,
      a_source_released_at = None, a_vendor_first_available_at = None, a_ingested_at = combine 738001 (hm 9 15),
      a_replay_available_at = combine 738001 (hm 9 15), a_revision_no = 0, a_time_quality = EXACT,
      a_provider = ''p'', a_source_url = ''u'', a_raw_response_sha256 = replicate 64 CHR ''a'',
      a_validation_status = ''validated'', a_currency = ''CNY'',
      a_gross_cash_per_share = (if kind = CASH_DIVIDEND then Some (1 / 4) else None),
      a_cash_pay_date = (if kind = CASH_DIVIDEND then Some 738004 else None),
      a_share_multiplier = (if share then Some (3 / 2) else None),
      a_share_credit_date = (if share then Some 738003 else None),
      a_share_sellable_date = (if share then Some 738003 else None),
      a_rights_ratio = None, a_rights_subscription_price = None, a_rights_payment_deadline = None,
      a_rights_listing_date = None\<rparr>)"

definition sample_sha :: "string \<Rightarrow> string" where
  "sample_sha s = take 64 (s @ replicate 64 CHR ''0'')"

definition sample_state :: "portfolio_state result \<Rightarrow> portfolio_state" where
  "sample_state r = (case r of Inr s \<Rightarrow> s | Inl _ \<Rightarrow> cash_portfolio 0)"

definition captured_holding :: "action_kind \<Rightarrow> portfolio_state result" where
  "captured_holding kind = capture_entitlement sample_holding (sample_action kind) (combine 738002 (hm 15 0))"

definition accrued_holding :: "action_kind \<Rightarrow> portfolio_state result" where
  "accrued_holding kind = rbind (captured_holding kind)
     (\<lambda>s. accrue_action s (sample_action kind) (combine 738003 (hm 9 15)))"

definition settled_holding :: "action_kind \<Rightarrow> portfolio_state result" where
  "settled_holding kind = rbind (accrued_holding kind)
     (\<lambda>s. settle_action sample_sha s (sample_action kind) (combine 738004 (hm 9 15)))"

lemma captured_history:
  assumes "captured_holding kind = Inr s1"
  shows "portfolio_history sha sample_holding s1"
  using assms portfolio_history.capture [OF portfolio_history.start] by (auto simp: captured_holding_def)

lemma accrued_history:
  assumes "accrued_holding kind = Inr s2"
  obtains s1 where "captured_holding kind = Inr s1" "portfolio_history sha s1 s2" "portfolio_history sha sample_holding s2"
proof -
  from assms obtain s1 where s1: "captured_holding kind = Inr s1"
    "accrue_action s1 (sample_action kind) (combine 738003 (hm 9 15)) = Inr s2"
    unfolding accrued_holding_def by (elim rbindE)
  have "portfolio_history sha s1 s2" "portfolio_history sha sample_holding s2"
    using s1(2) captured_history [OF s1(1)] by (auto intro: portfolio_history.accrue portfolio_history.start)
  then show thesis using that s1(1) by blast
qed

lemma sample_run_ok:
  assumes "case accrued_holding kind of Inl _ \<Rightarrow> False | Inr s \<Rightarrow>
    P s \<and> is_ok (settle_action sample_sha s (sample_action kind) (combine 738004 (hm 9 15)))"
  obtains s1 s2 s3 where "captured_holding kind = Inr s1" "accrued_holding kind = Inr s2" "settled_holding kind = Inr s3"
    "settle_action sample_sha s2 (sample_action kind) (combine 738004 (hm 9 15)) = Inr s3"
    "portfolio_history sample_sha s1 s2" "portfolio_history sample_sha sample_holding s2"
    "portfolio_history sample_sha sample_holding s3" "P s2"
proof -
  from assms obtain s2 s3 where s2: "accrued_holding kind = Inr s2" "P s2"
    and s3: "settle_action sample_sha s2 (sample_action kind) (combine 738004 (hm 9 15)) = Inr s3"
    by (auto simp: is_ok_iff split: sum.splits)
  obtain s1 where s1: "captured_holding kind = Inr s1" "portfolio_history sample_sha s1 s2"
    "portfolio_history sample_sha sample_holding s2"
    using s2(1) by (rule accrued_history)
  have "settled_holding kind = Inr s3" using s2(1) s3 by (simp add: settled_holding_def)
  then show thesis using that s1 s2 s3 portfolio_history.settle [OF s1(3) s3] by blast
qed

lemma sample_dividend_run:
  "case accrued_holding CASH_DIVIDEND of Inl _ \<Rightarrow> False | Inr s \<Rightarrow>
     (phase_key (sample_action CASH_DIVIDEND) SETTLEMENT \<notin> applied_action_phases s \<and>
      amount (ps_cash s) = 8949489 / 100) \<and>
     is_ok (settle_action sample_sha s (sample_action CASH_DIVIDEND) (combine 738004 (hm 9 15)))"
  by code_simp

lemmas dividend_run = sample_run_ok [OF sample_dividend_run]

section \<open>Properties\<close>

text \<open>C9: every portfolio reached from a well-formed one by any sequence of buys, sales and
  corporate-action transitions is well-formed: its cash is not negative, every fill was applied
  once and has exactly one journal entry, in the same order, every open lot has its own opening
  identifier and a positive quantity, and no lot becomes sellable before its acquisition.\<close>

theorem portfolio_always_well_formed:
  assumes "portfolio_history sha s0 s" "portfolio_ok s0"
  shows "portfolio_ok s \<and> 0 \<le> amount (ps_cash s) \<and> distinct (map f_fill_id (ps_fills s)) \<and>
    map le_fill_id (ps_ledger_entries s) = map f_fill_id (ps_fills s) \<and>
    distinct (map l_opened_by_fill_id (ps_lots s)) \<and>
    (\<forall>l \<in> set (ps_lots s). 0 < l_remaining_quantity l \<and> l_acquired_on l \<le> l_sellable_on l)"
  using history_ok [OF assms] portfolio_ok_facts [of s] by simp

theorem portfolio_always_well_formed_witness:
  "\<exists>s. settled_holding CASH_DIVIDEND = Inr s \<and> portfolio_ok s"
proof -
  obtain s where s: "settled_holding CASH_DIVIDEND = Inr s" "portfolio_history sample_sha sample_holding s"
    by (rule dividend_run)
  then show ?thesis using portfolio_always_well_formed [OF s(2) sample_sell_premises(1)] by blast
qed

text \<open>C30: a corporate action passes its phases in order and each at most once: in every reachable
  portfolio the phases recorded for an action and revision are exactly those its entitlement's
  status stands for (captured: the entitlement; accrued: also the accrual; settled: all three), an
  action without an entitlement has passed none of them, and no phase is recorded twice.\<close>

theorem action_phases_in_order:
  assumes "portfolio_history sha s0 s" "portfolio_ok s0" "ps_entitlements s0 = []" "ps_action_entries s0 = []"
  shows "passed_phases s k = status_phases (action_status s k) \<and> distinct (map action_entry_key (ps_action_entries s))"
proof -
  have "phases_agree s0"
    using assms(3,4) by (simp add: phases_agree_def passed_phases_def action_status_def applied_action_phases_def)
  then show ?thesis
    using history_agree [OF assms(1,2)] portfolio_ok_facts(6) [OF history_ok [OF assms(1,2)]]
    unfolding phases_agree_def by blast
qed

theorem action_phases_in_order_witness:
  "\<exists>s. settled_holding CASH_DIVIDEND = Inr s \<and> passed_phases s (''action1'', 0) = status_phases (action_status s (''action1'', 0))"
proof -
  obtain s where s: "settled_holding CASH_DIVIDEND = Inr s" "portfolio_history sample_sha sample_holding s"
    by (rule dividend_run)
  moreover have "ps_entitlements sample_holding = []" "ps_action_entries sample_holding = []"
    by (simp_all add: sample_holding_def cash_portfolio_def)
  ultimately show ?thesis using action_phases_in_order [OF s(2) sample_sell_premises(1)] s(1) by blast
qed

text \<open>C35: the four corporate-action transitions are idempotent: repeating a successful one, with the
  same action and clock, returns the portfolio unchanged, so a retry neither pays a dividend nor
  credits shares a second time.\<close>

theorem corporate_actions_idempotent:
  "(capture_entitlement s a u = Inr t \<longrightarrow> capture_entitlement t a u = Inr t) \<and>
   (decline_rights_issue s a u = Inr t \<longrightarrow> decline_rights_issue t a u = Inr t) \<and>
   (accrue_action s a u = Inr t \<longrightarrow> accrue_action t a u = Inr t) \<and>
   (settle_action sha s a u = Inr t \<longrightarrow> settle_action sha t a u = Inr t)"
proof -
  have recorded: "phase_key a p \<in> applied_action_phases t"
    if "record_phase s a p u cash lots es postings = Inr t" for p cash lots es postings
    using that by (elim record_phaseE) (simp add: applied_phases_with_entry)
  have "capture_entitlement t a u = Inr t" if c: "capture_entitlement s a u = Inr t"
  proof -
    have "phase_key a ENTITLEMENT \<in> applied_action_phases t"
      using c recorded by (cases rule: capture_entitlementE) auto
    moreover have "require_stage_clock u (a_record_date a) = Inr ()"
      using c by (auto simp: capture_entitlement_def elim!: rbindE)
    ultimately show ?thesis by (simp add: capture_entitlement_def)
  qed
  moreover have "decline_rights_issue t a u = Inr t" if c: "decline_rights_issue s a u = Inr t"
  proof -
    have "phase_key a DECLINED \<in> applied_action_phases t"
      using c recorded by (cases rule: decline_rights_issueE) auto
    moreover have "require_stage_clock u (a_record_date a) = Inr ()" "a_type a = RIGHTS_ISSUE"
      using c by (auto simp: decline_rights_issue_def elim!: rbindE split: if_splits)
    ultimately show ?thesis by (simp add: decline_rights_issue_def)
  qed
  moreover have "accrue_action t a u = Inr t" if c: "accrue_action s a u = Inr t"
  proof -
    have "phase_key a ACCRUAL \<in> applied_action_phases t"
      using c recorded by (cases rule: accrue_actionE) auto
    moreover have "require_stage_clock u (a_ex_date a) = Inr ()"
      using c by (auto simp: accrue_action_def elim!: rbindE)
    ultimately show ?thesis by (simp add: accrue_action_def)
  qed
  moreover have "settle_action sha t a u = Inr t" if c: "settle_action sha s a u = Inr t"
  proof -
    have "phase_key a SETTLEMENT \<in> applied_action_phases t"
      using c recorded by (cases rule: settle_actionE) auto
    then show ?thesis by (simp add: settle_action_def)
  qed
  ultimately show ?thesis by blast
qed

theorem corporate_actions_idempotent_witness:
  "\<exists>s. captured_holding CASH_DIVIDEND = Inr s \<and>
     capture_entitlement s (sample_action CASH_DIVIDEND) (combine 738002 (hm 15 0)) = Inr s"
proof -
  obtain s where "captured_holding CASH_DIVIDEND = Inr s" by (rule dividend_run)
  then show ?thesis using corporate_actions_idempotent by (auto simp: captured_holding_def)
qed

text \<open>C31: a cash dividend is fixed at the record date and paid once, whatever is traded in between:
  if the entitlement is captured from a portfolio holding q shares, then after any history of
  trades and other actions the settlement of that action adds exactly the gross dividend per share
  times q to the cash and leaves all lots as they are.\<close>

theorem dividend_fixed_at_record_date:
  assumes s: "portfolio_ok s" "capture_entitlement s a u = Inr s1" "phase_key a ENTITLEMENT \<notin> applied_action_phases s"
    and a: "a_type a = CASH_DIVIDEND" "a_gross_cash_per_share a = Some g" "on_grid k g" "0 \<le> g"
      "g * of_int (position_quantity s (a_instrument_id a)) * 10 ^ k < 10 ^ 28" "0 \<le> position_quantity s (a_instrument_id a)"
    and h: "portfolio_history sha s1 s2"
    and t: "settle_action sha s2 a v = Inr s3" "phase_key a SETTLEMENT \<notin> applied_action_phases s2"
    and c: "on_grid k (amount (ps_cash s2))"
      "(amount (ps_cash s2) + g * of_int (position_quantity s (a_instrument_id a))) * 10 ^ k < 10 ^ 28"
  shows "amount (ps_cash s3) = amount (ps_cash s2) + g * of_int (position_quantity s (a_instrument_id a)) \<and>
    ps_lots s3 = ps_lots s2 \<and> ps_fills s3 = ps_fills s2"
proof -
  define q where "q = position_quantity s (a_instrument_id a)"
  have gq: "on_grid k (g * of_int q)" "0 \<le> g * of_int q" using a by (simp_all add: on_grid_mult_int q_def)
  have exact: "ctx (g * of_int q) = g * of_int q" using a gq by (intro ctx_on_grid [of k]) (simp_all add: q_def)
  from s(2) obtain e where e: "e \<in> set (ps_entitlements s1)" "is_entitlement_of a e" "amount (en_cash_amount e) = g * of_int q"
  proof (cases rule: capture_entitlementE)
    case (2 cash delta sellable settlement e)
    then have "amount cash = g * of_int q"
      using a(1,2) exact by (auto simp: entitlement_terms_def mk_money_Inr dec_mul_def q_def elim!: rbindE split: option.splits)
    then show thesis using 2 that [of e] by (auto elim!: record_phaseE simp: new_entitlement_def is_entitlement_of_def)
  qed (use s(3) in simp)
  have ok1: "portfolio_ok s1" by (rule capture_keeps_ok [OF s(2,1)])
  have ok2: "portfolio_ok s2" by (rule history_ok [OF h ok1])
  from t(1) show ?thesis
  proof (cases rule: settle_actionE)
    case (2 i e' cash lots postings)
    have "en_cash_amount e' = en_cash_amount e"
      using entitlement_frozen [OF h ok1 e(1,2) 2(2)] by (rule same_entitlement_simps)
    then have cash: "amount cash = ctx (amount (ps_cash s2) + g * of_int q)" "lots = ps_lots s2"
      using 2(5) a(1) e(3) by (auto simp: settlement_effect_def money_add_Inr elim!: rbindE)
    have "0 \<le> amount (ps_cash s2)" by (rule portfolio_ok_facts [OF ok2])
    then have "ctx (amount (ps_cash s2) + g * of_int q) = amount (ps_cash s2) + g * of_int q"
      using c gq by (intro ctx_on_grid [of k]) (simp_all add: on_grid_add q_def)
    then show ?thesis using 2(7) cash by (auto elim!: record_phaseE simp: q_def)
  qed (use t(2) in simp)
qed

theorem dividend_fixed_at_record_date_witness:
  "\<exists>s2 s3. accrued_holding CASH_DIVIDEND = Inr s2 \<and> settled_holding CASH_DIVIDEND = Inr s3 \<and>
     amount (ps_cash s3) = amount (ps_cash s2) + 250"
proof -
  obtain s1 s2 s3 where s1: "captured_holding CASH_DIVIDEND = Inr s1" and s2: "accrued_holding CASH_DIVIDEND = Inr s2"
    and s3: "settled_holding CASH_DIVIDEND = Inr s3"
    and t: "settle_action sample_sha s2 (sample_action CASH_DIVIDEND) (combine 738004 (hm 9 15)) = Inr s3"
    and h: "portfolio_history sample_sha s1 s2"
    and p: "phase_key (sample_action CASH_DIVIDEND) SETTLEMENT \<notin> applied_action_phases s2 \<and> amount (ps_cash s2) = 8949489 / 100"
    by (rule dividend_run)
  have f: "phase_key (sample_action CASH_DIVIDEND) ENTITLEMENT \<notin> applied_action_phases sample_holding"
    "a_type (sample_action CASH_DIVIDEND) = CASH_DIVIDEND" "a_gross_cash_per_share (sample_action CASH_DIVIDEND) = Some (1 / 4)"
    "on_grid 2 (1 / 4)" "0 \<le> (1 / 4 :: rat)"
    "1 / 4 * of_int (position_quantity sample_holding (a_instrument_id (sample_action CASH_DIVIDEND))) * 10 ^ 2 < (10 ^ 28 :: rat)"
    "0 \<le> position_quantity sample_holding (a_instrument_id (sample_action CASH_DIVIDEND))"
    "position_quantity sample_holding (a_instrument_id (sample_action CASH_DIVIDEND)) = 1000"
    by code_simp+
  have "on_grid 2 (8949489 / 100)" "(8949489 / 100 + 1 / 4 * of_int 1000) * 10 ^ 2 < (10 ^ 28 :: rat)" by code_simp+
  then have e: "on_grid 2 (amount (ps_cash s2))"
    "(amount (ps_cash s2) + 1 / 4 * of_int (position_quantity sample_holding (a_instrument_id (sample_action CASH_DIVIDEND)))) * 10 ^ 2 < 10 ^ 28"
    unfolding f(8) p [THEN conjunct2] .
  from dividend_fixed_at_record_date [OF sample_sell_premises(1) s1 [unfolded captured_holding_def] f(1-7) h t p [THEN conjunct1] e]
  show ?thesis using s2 s3 f(8) by auto
qed

lemma accrue_replaces:
  assumes "accrue_action s a u = Inr t"
  shows "ps_entitlements t = ps_entitlements s \<or>
    (\<exists>i e e'. find_entitlement s a = Inr (i, e) \<and> same_entitlement e e' \<and> ps_entitlements t = replace_entitlement s i e')"
  using assms
proof (cases rule: accrue_actionE)
  case (2 i e lots e' postings)
  have "same_entitlement e e'" using 2(5) by (cases rule: accrual_lotsE) (auto simp: same_entitlement_def)
  then show ?thesis using 2(2,6) by (auto elim!: record_phaseE)
qed simp

lemma settle_replaces:
  assumes "settle_action sha s a u = Inr t"
  shows "ps_entitlements t = ps_entitlements s \<or>
    (\<exists>i e e'. find_entitlement s a = Inr (i, e) \<and> same_entitlement e e' \<and> ps_entitlements t = replace_entitlement s i e')"
  using assms
proof (cases rule: settle_actionE)
  case (2 i e cash lots postings)
  have "same_entitlement e (e\<lparr>en_status := SETTLED, en_settled_at := Some u\<rparr>)" by (simp add: same_entitlement_def)
  then show ?thesis using 2(2,7) by (auto elim!: record_phaseE)
qed simp

definition record_lots_ok :: "portfolio_state \<Rightarrow> bool" where
  "record_lots_ok s \<longleftrightarrow> list_all (\<lambda>e. list_all lot_ok (en_record_lots e)) (ps_entitlements s)"

lemma replace_record_lots:
  assumes "record_lots_ok s" "find_entitlement s a = Inr (i, e)" "same_entitlement e e'"
    "ps_entitlements t = replace_entitlement s i e'"
  shows "record_lots_ok t"
proof -
  have "e \<in> set (ps_entitlements s)" using find_entitlement_facts [OF assms(2)] nth_mem by metis
  then have "list_all lot_ok (en_record_lots e')"
    using assms(1) same_entitlement_simps(5) [OF assms(3)] by (simp add: record_lots_ok_def list_all_iff)
  then show ?thesis
    using assms(1,4) unfolding record_lots_ok_def replace_entitlement_def by (simp add: list_all_update)
qed

lemma history_record_lots:
  "portfolio_history sha s0 s \<Longrightarrow> portfolio_ok s0 \<Longrightarrow> record_lots_ok s0 \<Longrightarrow> record_lots_ok s"
proof (induction rule: portfolio_history.induct)
  case (buy s f d t)
  then show ?case by (simp add: apply_buy_actions record_lots_ok_def)
next
  case (sell s f t)
  then show ?case by (simp add: apply_sell_actions record_lots_ok_def)
next
  case (capture s a u t)
  have "list_all lot_ok (ps_lots s)" using history_ok [OF capture(1,4)] by (simp add: portfolio_ok_def)
  then have l: "list_all lot_ok (filter (\<lambda>l. l_instrument_id l = a_instrument_id a) (ps_lots s))"
    by (auto simp: list_all_iff)
  from capture(2) show ?case
  proof (cases rule: capture_entitlementE)
    case (2 cash delta sellable settlement e)
    then have "ps_entitlements t = ps_entitlements s @ [e]" by (auto elim!: record_phaseE)
    then show ?thesis using l 2(5) capture(3-5) by (simp add: record_lots_ok_def new_entitlement_def)
  qed (use capture in simp)
next
  case (decline s a u t)
  then have "ps_entitlements t = ps_entitlements s" by (auto elim!: decline_rights_issueE record_phaseE)
  then show ?case using decline by (simp add: record_lots_ok_def)
next
  case (accrue s a u t)
  then show ?case using accrue_replaces [OF accrue(2)] replace_record_lots by (auto simp: record_lots_ok_def)
next
  case (settle s a u t)
  then show ?case using settle_replaces [OF settle(2)] replace_record_lots by (auto simp: record_lots_ok_def)
qed

lemma settle_freshE:
  assumes "settle_action sha s a u = Inr t" "phase_key a SETTLEMENT \<notin> applied_action_phases s"
    "find_entitlement s a = Inr (i, e)"
  obtains cash lots postings where "settlement_effect sha s a e = Inr (cash, lots, postings)"
    "ps_cash t = cash" "ps_lots t = lots" "en_status e = ACCRUED" "en_settlement_date e \<le> shanghai_date u"
  using assms(1)
proof (cases rule: settle_actionE)
  case (2 i' e' cash lots postings)
  then have "e' = e" using assms(3) by simp
  then show thesis using that 2 by (auto elim!: record_phaseE)
qed (use assms(2) in simp)

lemma found_mem: "find_entitlement s a = Inr (i, e) \<Longrightarrow> e \<in> set (ps_entitlements s)"
  using find_entitlement_facts nth_mem by metis

text \<open>Settling a share distribution credits exactly the entitled number of shares: in any reachable
  portfolio, a positive share entitlement on a positive registered quantity (their product below
  10^27) adds new lots, all of the action's instrument and all without cost, whose quantities sum
  to the entitlement; every existing lot and the cash stay as they were.\<close>

theorem distribution_adds_exact_shares:
  assumes h: "portfolio_history sha s0 s" "portfolio_ok s0" "ps_entitlements s0 = []"
    and t: "settle_action sha s a u = Inr t" "phase_key a SETTLEMENT \<notin> applied_action_phases s"
    and e: "find_entitlement s a = Inr (i, e)" "a_type a = SHARE_DISTRIBUTION" "0 < en_share_delta e"
      "0 < en_entitled_quantity e" "en_entitled_quantity e * en_share_delta e < 10 ^ 27"
  shows "position_quantity t (a_instrument_id a) = position_quantity s (a_instrument_id a) + en_share_delta e \<and>
    ps_cash t = ps_cash s \<and>
    (\<exists>new. ps_lots t = ps_lots s @ new \<and> sum_list (map l_remaining_quantity new) = en_share_delta e \<and>
      (\<forall>l \<in> set new. l_instrument_id l = a_instrument_id a \<and> amount (l_cost_basis l) = 0))"
proof -
  have "record_lots_ok s" by (rule history_record_lots [OF h(1,2)]) (simp add: record_lots_ok_def h(3))
  then have r: "list_all lot_ok (en_record_lots e)" using found_mem [OF e(1)] by (simp add: record_lots_ok_def list_all_iff)
  have ok: "entitlement_ok e"
    using history_ok [OF h(1,2)] found_mem [OF e(1)] by (simp add: portfolio_ok_def list_all_iff)
  from t e(1) obtain lots where "settle_distribution sha s a e = Inr lots" and l: "ps_cash t = ps_cash s" "ps_lots t = lots"
    by (rule settle_freshE) (use e(2) in \<open>auto simp: settlement_effect_def elim!: rbindE\<close>)
  from settle_distribution_exact [OF this(1) ok r e(3-5)] obtain new where new: "lots = ps_lots s @ new"
    "sum_list (map l_remaining_quantity new) = en_share_delta e"
    "\<forall>l \<in> set new. l_instrument_id l = a_instrument_id a \<and> amount (l_cost_basis l) = 0" by auto
  have "filter (\<lambda>l. l_instrument_id l = a_instrument_id a) new = new" using new(3) by (simp add: filter_id_conv)
  then show ?thesis using l new by (auto simp: position_quantity_def position_quantity_of_def)
qed

text \<open>C36: settling a split or reverse split rescales every lot of the instrument by the registered ratio
  exactly: the position becomes the registered quantity plus the entitled change, each lot keeps its
  identity, dates of acquisition, cost and principal while its quantity times the old total equals
  the old quantity times the new total, and the lots of other instruments and the cash stay as they were.\<close>

theorem split_scales_exactly:
  assumes s: "portfolio_ok s" "settle_action sha s a u = Inr t" "phase_key a SETTLEMENT \<notin> applied_action_phases s"
    and e: "find_entitlement s a = Inr (i, e)" "a_type a \<in> {STOCK_SPLIT, REVERSE_SPLIT}"
    and q: "0 < position_quantity s (a_instrument_id a)"
      "position_quantity s (a_instrument_id a) * (position_quantity s (a_instrument_id a) + en_share_delta e) < 10 ^ 27"
  shows "ps_cash t = ps_cash s \<and>
    position_quantity t (a_instrument_id a) = en_entitled_quantity e + en_share_delta e \<and>
    filter (\<lambda>l. l_instrument_id l \<noteq> a_instrument_id a) (ps_lots t) =
      filter (\<lambda>l. l_instrument_id l \<noteq> a_instrument_id a) (ps_lots s) \<and>
    (\<exists>d. list_all2 (\<lambda>l l'. l_remaining_quantity l' * position_quantity s (a_instrument_id a) =
          l_remaining_quantity l * (position_quantity s (a_instrument_id a) + en_share_delta e) \<and>
        l' = l\<lparr>l_remaining_quantity := l_remaining_quantity l', l_sellable_on := max (l_sellable_on l) d\<rparr>)
      (filter (\<lambda>l. l_instrument_id l = a_instrument_id a) (ps_lots s))
      (filter (\<lambda>l. l_instrument_id l = a_instrument_id a) (ps_lots t)))"
proof -
  from s(2,3) e(1) obtain lots where l: "settle_split s a e = Inr lots" "ps_cash t = ps_cash s" "ps_lots t = lots"
    by (rule settle_freshE) (use e(2) in \<open>auto simp: settlement_effect_def elim!: rbindE\<close>)
  have "en_entitled_quantity e = position_quantity s (a_instrument_id a)"
    using l(1) by (auto simp: settle_split_def Let_def checks_Inr elim!: rbindE)
  then show ?thesis
    using settle_split_exact [OF l(1) _ q] s(1) l unfolding portfolio_ok_def position_quantity_def [of t]
    by (simp only: l(3))
qed

section \<open>Two defects of the source\<close>

text \<open>
  Bonus shares carry no cost, and their identifiers sort before those of fills, so they are the
  first shares a later sale consumes.
\<close>

text \<open>Buying 1000 shares and receiving 500 bonus shares leaves 1500 sellable shares, and a sale of 400 of them raises.\<close>

lemma bonus_shares_cannot_be_sold:
  "case settled_holding SHARE_DISTRIBUTION of Inl _ \<Rightarrow> False
   | Inr s \<Rightarrow> sellable_quantity s ''300059.SZ'' 738005 = 1500 \<and>
       apply_sell s (sample_fill ''fill:s2'' SELL 400 11 738005) =
         Inl (PortfolioInvariantError ''posting amount must be greater than zero'')"
  by code_simp

lemma allocate_bonus_dom:
  assumes "allocate_bonus current m ls = Inr allocated" "l \<in> set ls" "\<And>i l. current i = Some l \<Longrightarrow> l_opened_by_fill_id l = i"
  shows "allocated (l_opened_by_fill_id l) \<noteq> None"
proof -
  let ?step = "\<lambda>source allocated.
       case current (l_opened_by_fill_id source) of
         None \<Rightarrow> Inl (UnsupportedCorporateActionError ''bonus_principal_requires_record_inventory_at_ex_date'')
       | Some l \<Rightarrow>
           if l_remaining_quantity l \<noteq> l_remaining_quantity source
           then Inl (UnsupportedCorporateActionError ''bonus_principal_requires_record_inventory_at_ex_date'')
           else rbind (bonus_principal m l) (\<lambda>p. Inr (allocated(l_opened_by_fill_id l \<mapsto> p)))"
  have step: "dom acc \<subseteq> dom acc' \<and> l_opened_by_fill_id x \<in> dom acc'" if "?step x acc = Inr acc'" for x acc acc'
    using that assms(3) by (auto elim!: rbindE split: option.splits if_splits)
  have "dom acc \<subseteq> dom acc' \<and> (\<forall>x \<in> set xs. l_opened_by_fill_id x \<in> dom acc')" if "fold_res ?step xs acc = Inr acc'" for xs acc acc'
    using that
  proof (induction xs arbitrary: acc)
    case (Cons x xs)
    then obtain mid where mid: "?step x acc = Inr mid" "fold_res ?step xs mid = Inr acc'" by (auto simp: result_simps)
    then show ?case using step [OF mid(1)] Cons.IH [OF mid(2)] by auto
  qed simp
  then show ?thesis using assms(1,2) unfolding allocate_bonus_def by fastforce
qed

lemma lots_by_fill_id: "lots_by_fill ls i = Some l \<Longrightarrow> l_opened_by_fill_id l = i \<and> l \<in> set ls"
  by (auto simp: lots_by_fill_def dest!: map_of_SomeD)

lemma reduce_principal_cny:
  assumes "reduce_principal allocated l = Inr l'" "allocated (l_opened_by_fill_id l) \<noteq> None" "l_acquisition_principal l \<noteq> None"
  shows "currency (l_cost_basis l) = ''CNY''"
  using assms by (auto simp: reduce_principal_def mk_money_Inr mk_lot_Inr lot_ok_iff elim!: rbindE split: option.splits)

text \<open>The accrual of a share distribution works for CNY portfolios only: the split principals are
  built without a currency, which means CNY, so for a registered lot with a known principal in
  another currency the accrual of a positive share entitlement never succeeds.\<close>

theorem bonus_accrual_requires_cny:
  assumes s: "portfolio_ok s" "currency (ps_cash s) \<noteq> ''CNY''"
    and e: "find_entitlement s a = Inr (i, e)" "a_type a = SHARE_DISTRIBUTION" "0 < en_share_delta e"
      "phase_key a ACCRUAL \<notin> applied_action_phases s"
    and l: "l \<in> set (ps_lots s)" "l \<in> set (en_record_lots e)" "l_acquisition_principal l \<noteq> None"
  shows "\<not> is_ok (accrue_action s a u)"
proof
  assume "is_ok (accrue_action s a u)"
  then obtain t where "accrue_action s a u = Inr t" by (auto simp: is_ok_iff)
  then show False
  proof (cases rule: accrue_actionE)
    case (2 i' e1 lots e' postings)
    then have "e1 = e" using e(1) by simp
    with 2(5) e(2,3) obtain m allocated where
      a: "allocate_bonus (lots_by_fill (ps_lots s)) m (en_record_lots e) = Inr allocated"
      and lots: "map_res (reduce_principal allocated) (ps_lots s) = Inr lots"
      by (auto simp: accrual_lots_def elim!: rbindE)
    have "allocated (l_opened_by_fill_id l) \<noteq> None"
      using allocate_bonus_dom [OF a l(2)] lots_by_fill_id by blast
    moreover obtain j where "j < length (ps_lots s)" "ps_lots s ! j = l" using l(1) by (auto simp: in_set_conv_nth)
    then have "reduce_principal allocated l = Inr (lots ! j)" using map_res_nth [OF lots] by metis
    ultimately have "currency (l_cost_basis l) = ''CNY''" using l(3) by (intro reduce_principal_cny)
    moreover have "currency (l_cost_basis l) = currency (ps_cash s)"
      using s(1) l(1) by (auto simp: portfolio_ok_def portfolio_checks_def is_ok_checks list_ex_iff)
    ultimately show False using s(2) by simp
  qed (use e(4) in simp)
qed

section \<open>Witnesses\<close>

lemma sample_distribution_run:
  "case accrued_holding SHARE_DISTRIBUTION of Inl _ \<Rightarrow> False | Inr s \<Rightarrow>
     (phase_key (sample_action SHARE_DISTRIBUTION) SETTLEMENT \<notin> applied_action_phases s \<and>
      position_quantity s ''300059.SZ'' = 1000 \<and>
      (case find_entitlement s (sample_action SHARE_DISTRIBUTION) of Inl _ \<Rightarrow> False
       | Inr (i, e) \<Rightarrow> en_share_delta e = 500 \<and> en_entitled_quantity e = 1000)) \<and>
     is_ok (settle_action sample_sha s (sample_action SHARE_DISTRIBUTION) (combine 738004 (hm 9 15)))"
  by code_simp

lemma sample_split_run:
  "case accrued_holding STOCK_SPLIT of Inl _ \<Rightarrow> False | Inr s \<Rightarrow>
     (phase_key (sample_action STOCK_SPLIT) SETTLEMENT \<notin> applied_action_phases s \<and>
      position_quantity s ''300059.SZ'' = 1000 \<and>
      (case find_entitlement s (sample_action STOCK_SPLIT) of Inl _ \<Rightarrow> False
       | Inr (i, e) \<Rightarrow> en_share_delta e = 500 \<and> en_entitled_quantity e = 1000)) \<and>
     is_ok (settle_action sample_sha s (sample_action STOCK_SPLIT) (combine 738004 (hm 9 15)))"
  by code_simp

lemma sample_action_simps:
  "a_instrument_id (sample_action kind) = ''300059.SZ''" "a_type (sample_action kind) = kind"
  by (simp_all add: sample_action_def Let_def)

theorem distribution_adds_exact_shares_witness:
  "\<exists>s. settled_holding SHARE_DISTRIBUTION = Inr s \<and> position_quantity s ''300059.SZ'' = 1500"
proof (rule sample_run_ok [OF sample_distribution_run])
  fix s1 s2 s3
  let ?a = "sample_action SHARE_DISTRIBUTION"
  assume s3: "settled_holding SHARE_DISTRIBUTION = Inr s3" and t: "settle_action sample_sha s2 ?a (combine 738004 (hm 9 15)) = Inr s3"
    and h: "portfolio_history sample_sha sample_holding s2"
    and p: "phase_key ?a SETTLEMENT \<notin> applied_action_phases s2 \<and> position_quantity s2 ''300059.SZ'' = 1000 \<and>
      (case find_entitlement s2 ?a of Inl _ \<Rightarrow> False
       | Inr (i, e) \<Rightarrow> en_share_delta e = 500 \<and> en_entitled_quantity e = 1000)"
  then obtain i e where e: "find_entitlement s2 ?a = Inr (i, e)" "en_share_delta e = 500" "en_entitled_quantity e = 1000"
    by (auto split: sum.splits)
  have "ps_entitlements sample_holding = []" by (simp add: sample_holding_def cash_portfolio_def)
  from distribution_adds_exact_shares [OF h sample_sell_premises(1) this t p [THEN conjunct1] e(1)] e(2,3) p s3
  show ?thesis by (simp add: sample_action_simps)
qed

theorem split_scales_exactly_witness:
  "\<exists>s. settled_holding STOCK_SPLIT = Inr s \<and> position_quantity s ''300059.SZ'' = 1500"
proof (rule sample_run_ok [OF sample_split_run])
  fix s1 s2 s3
  let ?a = "sample_action STOCK_SPLIT"
  assume s3: "settled_holding STOCK_SPLIT = Inr s3" and t: "settle_action sample_sha s2 ?a (combine 738004 (hm 9 15)) = Inr s3"
    and h: "portfolio_history sample_sha sample_holding s2"
    and p: "phase_key ?a SETTLEMENT \<notin> applied_action_phases s2 \<and> position_quantity s2 ''300059.SZ'' = 1000 \<and>
      (case find_entitlement s2 ?a of Inl _ \<Rightarrow> False
       | Inr (i, e) \<Rightarrow> en_share_delta e = 500 \<and> en_entitled_quantity e = 1000)"
  then obtain i e where e: "find_entitlement s2 ?a = Inr (i, e)" "en_share_delta e = 500" "en_entitled_quantity e = 1000"
    by (auto split: sum.splits)
  from split_scales_exactly [OF history_ok [OF h sample_sell_premises(1)] t p [THEN conjunct1] e(1)] e(2,3) p s3
  show ?thesis by (simp add: sample_action_simps)
qed

text \<open>A portfolio in another currency with one lot.\<close>

definition usd :: "rat \<Rightarrow> money" where
  "usd x = \<lparr>amount = x, currency = ''USD''\<rparr>"

definition usd_lot :: position_lot where
  "usd_lot = (bought_lot sample_buy 738001)\<lparr>l_cost_basis := usd 10505, l_acquisition_principal := Some (usd 10500)\<rparr>"

definition usd_captured :: "portfolio_state result" where
  "usd_captured = capture_entitlement ((cash_portfolio 0)\<lparr>ps_cash := usd 100, ps_lots := [usd_lot]\<rparr>)
     ((sample_action SHARE_DISTRIBUTION)\<lparr>a_currency := ''USD''\<rparr>) (combine 738002 (hm 15 0))"

lemma usd_captured_run:
  "case usd_captured of Inl _ \<Rightarrow> False | Inr s \<Rightarrow>
     portfolio_ok s \<and> currency (ps_cash s) \<noteq> ''CNY'' \<and> usd_lot \<in> set (ps_lots s) \<and>
     phase_key ((sample_action SHARE_DISTRIBUTION)\<lparr>a_currency := ''USD''\<rparr>) ACCRUAL \<notin> applied_action_phases s \<and>
     (case find_entitlement s ((sample_action SHARE_DISTRIBUTION)\<lparr>a_currency := ''USD''\<rparr>) of Inl _ \<Rightarrow> False
       | Inr (i, e) \<Rightarrow> 0 < en_share_delta e \<and> usd_lot \<in> set (en_record_lots e))"
  by code_simp

theorem bonus_accrual_requires_cny_witness:
  "\<exists>s. usd_captured = Inr s \<and>
     \<not> is_ok (accrue_action s ((sample_action SHARE_DISTRIBUTION)\<lparr>a_currency := ''USD''\<rparr>) (combine 738003 (hm 9 15)))"
proof -
  let ?a = "(sample_action SHARE_DISTRIBUTION)\<lparr>a_currency := ''USD''\<rparr>"
  obtain s i e where s: "usd_captured = Inr s" "portfolio_ok s" "currency (ps_cash s) \<noteq> ''CNY''" "usd_lot \<in> set (ps_lots s)"
    "phase_key ?a ACCRUAL \<notin> applied_action_phases s" and e: "find_entitlement s ?a = Inr (i, e)" "0 < en_share_delta e"
    "usd_lot \<in> set (en_record_lots e)"
    using usd_captured_run by (auto split: sum.splits)
  have "a_type ?a = SHARE_DISTRIBUTION" by (simp add: sample_action_def Let_def)
  moreover have "l_acquisition_principal usd_lot \<noteq> None" by (simp add: usd_lot_def)
  ultimately show ?thesis using bonus_accrual_requires_cny [OF s(2,3) e(1) _ e(2) s(5,4) e(3)] s(1) by blast
qed

end
