(* ===== verification/Calendar.thy ===== *)
theory Calendar
  imports Ledger
begin

text \<open>
  The trading calendar (\<open>ashare_lab/domain/execution/calendar.py\<close>): a snapshot of sessions that is
  searched by bisection, with the locale \<open>session_source\<close> for what its clients rely on.
\<close>

section \<open>The calendar\<close>

record trading_calendar =
  cal_version :: string
  cal_sessions :: "date list"

definition calendar_checks :: "trading_calendar \<Rightarrow> (bool \<times> py_error) list" where
  "calendar_checks c =
    [(blank (cal_version c), DomainValidationError ''calendar version must be non-empty''),
     (cal_sessions c = [], DomainValidationError ''sessions must be a non-empty tuple''),
     (\<not> strictly_increasing (cal_sessions c), DomainValidationError ''sessions must be unique and in strictly increasing order'')]"

definition mk_calendar :: "trading_calendar \<Rightarrow> trading_calendar result" where
  "mk_calendar c = construct (\<lambda>c. checks (calendar_checks c)) c"

definition calendar_ok :: "trading_calendar \<Rightarrow> bool" where
  "calendar_ok c \<longleftrightarrow> is_ok (checks (calendar_checks c))"

text \<open>\<open>bisect.bisect_right\<close> of the standard library: the loop on the bounds \<open>lo\<close> and \<open>hi\<close>.\<close>

function bisect_loop :: "'a::linorder list \<Rightarrow> 'a \<Rightarrow> nat \<Rightarrow> nat \<Rightarrow> nat" where
  "bisect_loop xs x lo hi =
     (if lo < hi then
        (let mid = (lo + hi) div 2
         in if x < xs ! mid then bisect_loop xs x lo mid else bisect_loop xs x (mid + 1) hi)
      else lo)"
  by pat_completeness auto
termination by (relation "measure (\<lambda>(xs, x, lo, hi). hi - lo)") auto

declare bisect_loop.simps [simp del]

definition bisect_right :: "'a::linorder list \<Rightarrow> 'a \<Rightarrow> nat" where
  "bisect_right xs x = bisect_loop xs x 0 (length xs)"

definition is_session :: "trading_calendar \<Rightarrow> date \<Rightarrow> bool" where
  "is_session c day =
     (let index = bisect_right (cal_sessions c) day
      in 0 < index \<and> cal_sessions c ! (index - 1) = day)"

definition next_session :: "trading_calendar \<Rightarrow> date \<Rightarrow> date result" where
  "next_session c after =
     (let index = bisect_right (cal_sessions c) after
      in if index = length (cal_sessions c) then Inl NoNextSessionError else Inr (cal_sessions c ! index))"

section \<open>Bisection\<close>

lemma bisect_loop_done: "\<not> lo < hi \<Longrightarrow> bisect_loop xs x lo hi = lo"
  by (simp add: bisect_loop.simps [of xs x lo hi])

lemma bisect_loop_left:
  "lo < hi \<Longrightarrow> x < xs ! ((lo + hi) div 2) \<Longrightarrow> bisect_loop xs x lo hi = bisect_loop xs x lo ((lo + hi) div 2)"
  by (subst bisect_loop.simps) simp

lemma bisect_loop_right:
  "lo < hi \<Longrightarrow> \<not> x < xs ! ((lo + hi) div 2) \<Longrightarrow> bisect_loop xs x lo hi = bisect_loop xs x ((lo + hi) div 2 + 1) hi"
  by (subst bisect_loop.simps) simp

text \<open>Between its bounds, the loop finds the boundary between the elements up to \<open>x\<close> and those above.\<close>

definition boundary :: "'a::linorder list \<Rightarrow> 'a \<Rightarrow> nat \<Rightarrow> bool" where
  "boundary xs x k \<longleftrightarrow> (\<forall>i < k. xs ! i \<le> x) \<and> (\<forall>i. k \<le> i \<longrightarrow> i < length xs \<longrightarrow> x < xs ! i)"

lemma bisect_loop_boundary:
  assumes "sorted xs" "hi \<le> length xs" "lo \<le> hi"
    "\<forall>i < lo. xs ! i \<le> x" "\<forall>i. hi \<le> i \<longrightarrow> i < length xs \<longrightarrow> x < xs ! i"
  shows "bisect_loop xs x lo hi \<le> hi \<and> boundary xs x (bisect_loop xs x lo hi)"
  using assms
proof (induction xs x lo hi rule: bisect_loop.induct)
  case (1 xs x lo hi)
  define mid where "mid = (lo + hi) div 2"
  consider "\<not> lo < hi" | "lo < hi" "x < xs ! mid" | "lo < hi" "\<not> x < xs ! mid" by blast
  then show ?case
  proof cases
    case 1
    then have "bisect_loop xs x lo hi = lo" "lo = hi" using "1.prems"(3) by (simp_all add: bisect_loop_done)
    then show ?thesis using "1.prems" by (simp add: boundary_def)
  next
    case 2
    have m: "mid < hi" "lo \<le> mid" using 2(1) by (auto simp: mid_def)
    have "x < xs ! i" if "mid \<le> i" "i < length xs" for i
      using sorted_nth_mono [OF "1.prems"(1) that] 2(2) by simp
    then have "bisect_loop xs x lo mid \<le> mid \<and> boundary xs x (bisect_loop xs x lo mid)"
      using "1.IH"(1) [OF 2(1) mid_def 2(2)] "1.prems" m by simp
    then show ?thesis using bisect_loop_left [OF 2(1), of x xs, folded mid_def, OF 2(2)] m by simp
  next
    case 3
    have m: "mid < hi" "lo \<le> mid" using 3(1) by (auto simp: mid_def)
    have "xs ! i \<le> x" if "i < mid + 1" for i
      using sorted_nth_mono [OF "1.prems"(1), of i mid] 3(2) m "1.prems"(2) that by simp
    then have "bisect_loop xs x (mid + 1) hi \<le> hi \<and> boundary xs x (bisect_loop xs x (mid + 1) hi)"
      using "1.IH"(2) [OF 3(1) mid_def 3(2)] "1.prems" m by simp
    then show ?thesis using bisect_loop_right [OF 3(1), of x xs, folded mid_def, OF 3(2)] by simp
  qed
qed

lemma bisect_right_split:
  assumes "sorted xs"
  shows "bisect_right xs x \<le> length xs" "i < bisect_right xs x \<Longrightarrow> xs ! i \<le> x"
    "bisect_right xs x \<le> i \<Longrightarrow> i < length xs \<Longrightarrow> x < xs ! i"
  using bisect_loop_boundary [OF assms, of "length xs" 0 x] by (auto simp: bisect_right_def boundary_def)

section \<open>The interface of a calendar\<close>

locale session_source =
  fixes valid :: "'c \<Rightarrow> bool" and session :: "'c \<Rightarrow> date \<Rightarrow> bool" and following :: "'c \<Rightarrow> date \<Rightarrow> date result"
  assumes following_least: "valid c \<Longrightarrow> following c d = Inr e \<Longrightarrow> d < e \<and> session c e \<and> (\<forall>x. session c x \<longrightarrow> d < x \<longrightarrow> e \<le> x)"
    and following_none: "valid c \<Longrightarrow> following c d = Inl err \<Longrightarrow> err = NoNextSessionError \<and> (\<forall>x. session c x \<longrightarrow> x \<le> d)"
begin

lemma following_later: "valid c \<Longrightarrow> following c d = Inr e \<Longrightarrow> d < e"
  using following_least by blast

lemma following_mono:
  assumes "valid c" "following c d = Inr e" "following c d' = Inr e'" "d \<le> d'"
  shows "e \<le> e'"
  using following_least [OF assms(1,2)] following_least [OF assms(1,3)] assms(4) by (meson le_less_trans)

text \<open>T+1: a buy whose shares become sellable at the following session leaves what can be sold today as it was.\<close>

lemma bought_today_not_sellable:
  assumes "valid c" "following c (trading_date f) = Inr e" "apply_buy s f e = Inr t"
  shows "sellable_quantity t ins (trading_date f) = sellable_quantity s ins (trading_date f)"
proof -
  from assms(3) obtain lot where "ps_lots t = ps_lots s @ [lot]" "l_sellable_on lot = e"
    unfolding apply_buy_def by (auto simp: mk_lot_Inr mk_portfolio_Inr elim!: rbindE split: if_splits)
  then show ?thesis using following_later [OF assms(1,2)] by (simp add: sellable_quantity_def)
qed

end

lemma calendar_sorted: "calendar_ok c \<Longrightarrow> sorted (cal_sessions c)"
  by (simp add: calendar_ok_def calendar_checks_def is_ok_checks strictly_increasing_sorted)

lemma is_session_iff:
  assumes "calendar_ok c"
  shows "is_session c day \<longleftrightarrow> day \<in> set (cal_sessions c)"
proof
  define xs where "xs = cal_sessions c"
  define k where "k = bisect_right xs day"
  have s: "sorted xs" using assms by (simp add: xs_def calendar_sorted)
  note b = bisect_right_split [OF s, where x = day, folded k_def]
  show "day \<in> set (cal_sessions c)" if "is_session c day"
  proof -
    have "0 < k" "xs ! (k - 1) = day" using that by (simp_all add: is_session_def Let_def xs_def k_def)
    moreover have "k - 1 < length xs" using b(1) \<open>0 < k\<close> by linarith
    ultimately show ?thesis using nth_mem [of "k - 1" xs] by (simp add: xs_def)
  qed
  show "is_session c day" if day: "day \<in> set (cal_sessions c)"
  proof -
    obtain i where i: "i < length xs" "xs ! i = day" using day by (auto simp: xs_def in_set_conv_nth)
    then have "i < k" using b(3) [of i] by (meson less_irrefl not_less)
    then have "xs ! (k - 1) \<le> day" "0 < k" using b(2) [of "k - 1"] by auto
    moreover have "xs ! i \<le> xs ! (k - 1)" using s \<open>i < k\<close> b(1) by (intro sorted_nth_mono) auto
    ultimately have "0 < k \<and> xs ! (k - 1) = day" using i by simp
    then show ?thesis by (simp only: is_session_def Let_def xs_def k_def)
  qed
qed

lemma next_session_Inr:
  assumes "calendar_ok c" "next_session c d = Inr e"
  shows "d < e \<and> is_session c e \<and> (\<forall>x. is_session c x \<longrightarrow> d < x \<longrightarrow> e \<le> x)"
proof -
  define xs where "xs = cal_sessions c"
  define k where "k = bisect_right xs d"
  have s: "sorted xs" using assms by (simp add: xs_def calendar_sorted)
  note b = bisect_right_split [OF s, where x = d, folded k_def]
  from assms(2) have k: "k \<noteq> length xs" "e = xs ! k"
    by (auto simp: next_session_def Let_def xs_def k_def split: if_splits)
  then have kl: "k < length xs" using b(1) by simp
  have "e \<le> x" if x: "x \<in> set xs" "d < x" for x
  proof -
    obtain i where i: "i < length xs" "xs ! i = x" using x(1) by (auto simp: in_set_conv_nth)
    then have "k \<le> i" using b(2) [of i] x(2) by (meson leD leI)
    then show ?thesis using sorted_nth_mono [OF s, of k i] i k(2) by simp
  qed
  then show ?thesis using b(3) [of k] kl k(2) nth_mem [OF kl] is_session_iff [OF assms(1)] by (auto simp: xs_def)
qed

lemma next_session_Inl:
  assumes "calendar_ok c" "next_session c d = Inl err"
  shows "err = NoNextSessionError \<and> (\<forall>x. is_session c x \<longrightarrow> x \<le> d)"
proof -
  define xs where "xs = cal_sessions c"
  have s: "sorted xs" using assms by (simp add: xs_def calendar_sorted)
  from assms(2) have "bisect_right xs d = length xs" "err = NoNextSessionError"
    by (auto simp: next_session_def Let_def xs_def split: if_splits)
  then show ?thesis
    using bisect_right_split(2) [OF s] is_session_iff [OF assms(1)] by (auto simp: xs_def in_set_conv_nth)
qed

interpretation calendar: session_source calendar_ok is_session next_session
  by unfold_locales (fact next_session_Inr, fact next_session_Inl)

text \<open>C38: the calendar answers from its snapshot alone, and exactly: by bisection, \<open>is_session\<close> is
  membership in the snapshot, \<open>next_session\<close> is the least session strictly after the given day,
  and it raises \<open>NoNextSessionError\<close> exactly when the snapshot has no later session.\<close>

theorem calendar_lookup_exact:
  assumes "mk_calendar c = Inr c'"
  shows "(\<forall>d. is_session c d \<longleftrightarrow> d \<in> set (cal_sessions c)) \<and>
    (\<forall>d. next_session c d =
       (if \<exists>x \<in> set (cal_sessions c). d < x then Inr (Min {x \<in> set (cal_sessions c). d < x})
        else Inl NoNextSessionError))"
proof -
  have ok: "calendar_ok c" using assms by (auto simp: mk_calendar_def construct_Inr calendar_ok_def)
  have "next_session c d = (if \<exists>x \<in> set (cal_sessions c). d < x then Inr (Min {x \<in> set (cal_sessions c). d < x})
        else Inl NoNextSessionError)" for d
  proof (cases "next_session c d")
    case (Inl err)
    then show ?thesis using next_session_Inl [OF ok Inl] is_session_iff [OF ok] by (auto simp: not_less)
  next
    case (Inr e)
    note r = next_session_Inr [OF ok Inr, unfolded is_session_iff [OF ok]]
    then have "Min {x \<in> set (cal_sessions c). d < x} = e" by (intro Min_eqI) auto
    then show ?thesis using Inr r by auto
  qed
  then show ?thesis using is_session_iff [OF ok] by blast
qed

theorem calendar_lookup_exact_witness:
  "is_session \<lparr>cal_version = ''v1'', cal_sessions = [3, 4, 7]\<rparr> 4 \<and>
   next_session \<lparr>cal_version = ''v1'', cal_sessions = [3, 4, 7]\<rparr> 4 = Inr 7"
proof -
  have "mk_calendar \<lparr>cal_version = ''v1'', cal_sessions = [3, 4, 7]\<rparr> = Inr \<lparr>cal_version = ''v1'', cal_sessions = [3, 4, 7]\<rparr>"
    by code_simp
  note l = calendar_lookup_exact [OF this]
  have "{x \<in> set [3, 4, 7 :: int]. 4 < x} = {7}" by auto
  then show ?thesis using l by simp
qed

end
