(* ===== verification/Matching.thy ===== *)
theory Matching
  imports Orders MarketData Rounding
begin

text \<open>
  Matching of an accepted order against one bar: the friction and OHLC conventions of
  \<open>ashare_lab/domain/execution/bar_prices.py\<close> and the conservative daily-bar matcher of
  \<open>matching.py\<close>.  The lemmas show what every fill satisfies: price limits, time window, capacity.
\<close>

section \<open>Requests and results (matching.py)\<close>

datatype limit_handling = WAIT_FOR_UNLOCK | STRICT_NO_FILL_AT_LIMIT | ALLOW_LIMIT_VOLUME

datatype capacity_mode = POINT_IN_TIME_VOLUME | UNLIMITED

datatype volume_source = PREVIOUS_SESSION_DAILY_BAR | EXPLICIT_POINT_IN_TIME_OBSERVATION

record volume_observation =
  v_quantity :: int
  v_known_at :: datetime
  v_source :: volume_source
  v_source_session_date :: "date option"

definition mk_volume_observation :: "volume_observation \<Rightarrow> volume_observation result" where
  "mk_volume_observation v = construct (\<lambda>v. checks
     [(v_source v = PREVIOUS_SESSION_DAILY_BAR \<and> v_source_session_date v = None,
       DomainValidationError ''previous-session volume requires source_session_date'')]) v"

definition volume_reason_code :: "volume_observation \<Rightarrow> string" where
  "volume_reason_code v =
     (if v_source v = PREVIOUS_SESSION_DAILY_BAR then ''capacity_previous_session_volume_proxy''
      else ''capacity_explicit_point_in_time_observation'')"

definition previous_session_volume_proxy :: "daily_bar \<Rightarrow> volume_observation result" where
  "previous_session_volume_proxy b = mk_volume_observation
     \<lparr>v_quantity = b_volume b, v_known_at = b_available_at b, v_source = PREVIOUS_SESSION_DAILY_BAR,
      v_source_session_date = Some (b_session_date b)\<rparr>"

datatype match_outcome = FILLED_OUTCOME | PARTIALLY_FILLED_OUTCOME | NO_FILL

datatype execution_time_quality = DAILY_BAR_OPEN_PROXY | DAILY_BAR_AVAILABLE_AT_PROXY

record match_request =
  q_order :: order
  q_bar :: daily_bar
  q_session :: instrument_session
  q_opening_price_proxy_at :: datetime
  q_participation_rate :: rat
  q_slippage_bps :: rat
  q_slippage_cny :: rat
  q_limit_handling :: limit_handling
  q_capacity_mode :: capacity_mode
  q_point_in_time_volume :: "volume_observation option"

definition match_request_checks :: "match_request \<Rightarrow> (bool \<times> py_error) list" where
  "match_request_checks q =
    [(\<not> (0 < q_participation_rate q \<and> q_participation_rate q \<le> 1), DomainValidationError ''participation_rate must be in (0, 1]''),
     (\<not> (0 \<le> q_slippage_bps q \<and> q_slippage_bps q \<le> 1000), DomainValidationError ''slippage_bps must be in [0, 1000]''),
     (q_slippage_cny q < 0, DomainValidationError ''slippage_cny must be finite and non-negative'')] @
    (if q_capacity_mode q = UNLIMITED then
       [(q_point_in_time_volume q \<noteq> None, DomainValidationError ''unlimited capacity cannot also receive point_in_time_volume'')]
     else
       (case q_point_in_time_volume q of
          None \<Rightarrow> []
        | Some v \<Rightarrow>
           [(v_known_at v > q_opening_price_proxy_at q,
             DomainValidationError ''point-in-time volume must be known by opening_price_proxy_at''),
            (v_source v = PREVIOUS_SESSION_DAILY_BAR \<and>
               none_or (\<lambda>d. d \<ge> b_session_date (q_bar q)) (v_source_session_date v),
             DomainValidationError ''previous-session volume must come from a date before the matched session'')])) @
    [(length (remdups [o_instrument_id (q_order q), b_instrument_id (q_bar q), s_instrument_id (q_session q)]) \<noteq> 1,
      DomainValidationError ''order, bar, and session instruments must match''),
     (b_session_date (q_bar q) \<noteq> s_session_date (q_session q), DomainValidationError ''bar and session dates must match''),
     (o_side (q_order q) = BUY \<and> \<not> is_valid_buy_quantity (q_session q) (o_quantity (q_order q)),
      DomainValidationError ''buy order quantity violates the session declaration rule'')]"

definition mk_match_request :: "match_request \<Rightarrow> match_request result" where
  "mk_match_request q = construct (\<lambda>q. checks (match_request_checks q)) q"

record match_result =
  r_outcome :: match_outcome
  r_reason_code :: string
  r_quantity :: int
  r_price :: "price option"
  r_filled_at :: "datetime option"
  r_capacity_reason_code :: "string option"
  r_time_quality :: "execution_time_quality option"

definition match_result_checks :: "match_result \<Rightarrow> (bool \<times> py_error) list" where
  "match_result_checks r =
    (if r_outcome r = NO_FILL then
       [(r_quantity r \<noteq> 0 \<or> r_price r \<noteq> None \<or> r_filled_at r \<noteq> None \<or> r_time_quality r \<noteq> None,
         DomainValidationError ''no-fill result cannot contain fill fields'')]
     else
       [(r_quantity r \<le> 0 \<or> r_price r = None \<or> r_filled_at r = None,
         DomainValidationError ''fill result requires quantity, price, and time''),
        (r_capacity_reason_code r = None \<or> r_capacity_reason_code r = Some [],
         DomainValidationError ''fill result requires capacity_reason_code''),
        (r_time_quality r = None, DomainValidationError ''fill result requires execution time quality'')])"

definition mk_match_result :: "match_result \<Rightarrow> match_result result" where
  "mk_match_result r = construct (\<lambda>r. checks (match_result_checks r)) r"

definition no_fill :: "string \<Rightarrow> match_result result" where
  "no_fill reason = mk_match_result \<lparr>r_outcome = NO_FILL, r_reason_code = reason, r_quantity = 0, r_price = None,
     r_filled_at = None, r_capacity_reason_code = None, r_time_quality = None\<rparr>"

section \<open>Friction and bar prices\<close>

text \<open>\<open>max(floor, amount)\<close> and \<open>min(ceiling, amount)\<close> where the bound is present.\<close>

definition at_least :: "rat option \<Rightarrow> rat \<Rightarrow> rat" where
  "at_least b x = (case b of None \<Rightarrow> x | Some l \<Rightarrow> max l x)"

definition at_most :: "rat option \<Rightarrow> rat \<Rightarrow> rat" where
  "at_most b x = (case b of None \<Rightarrow> x | Some h \<Rightarrow> min h x)"

definition raw_slipped :: "rat \<Rightarrow> order_side \<Rightarrow> rat \<Rightarrow> rat \<Rightarrow> rat" where
  "raw_slipped price side bps cny_slip =
     (let direction = (if side = BUY then 1 else - 1) in
      dec_add (dec_mul price (dec_add 1 (ctx (dec_mul direction bps / 10000)))) (dec_mul direction cny_slip))"

definition price_with_slippage ::
  "price \<Rightarrow> order_side \<Rightarrow> rat \<Rightarrow> rat \<Rightarrow> rat \<Rightarrow> rat option \<Rightarrow> rat option \<Rightarrow> price result" where
  "price_with_slippage p side bps cny_slip tick price_floor price_ceiling =
     rbind (dec_div (raw_slipped (amount p) side bps cny_slip) tick) (\<lambda>quotient.
     let ticks = (if side = BUY then round_up quotient else round_down quotient)
     in mk_price (at_most price_ceiling (at_least price_floor (dec_mul (of_int ticks) tick))) (currency p))"

record bar_prices =
  bp_open :: rat
  bp_high :: rat
  bp_low :: rat
  bp_close :: rat

definition bar_prices_checks :: "bar_prices \<Rightarrow> (bool \<times> py_error) list" where
  "bar_prices_checks b =
    [(\<not> (0 < bp_open b \<and> 0 < bp_high b \<and> 0 < bp_low b \<and> 0 < bp_close b), ValueError ''OHLC must be finite and positive''),
     (\<not> (bp_low b \<le> min (bp_open b) (bp_close b) \<and> min (bp_open b) (bp_close b) \<le> max (bp_open b) (bp_close b) \<and>
         max (bp_open b) (bp_close b) \<le> bp_high b), ValueError ''inconsistent OHLC'')]"

definition mk_bar_prices :: "bar_prices \<Rightarrow> bar_prices result" where
  "mk_bar_prices b = construct (\<lambda>b. checks (bar_prices_checks b)) b"

datatype observation = BarObservation | OpenObservation | CloseObservation

definition match_bar_price ::
  "bar_prices \<Rightarrow> order_side \<Rightarrow> rat option \<Rightarrow> observation \<Rightarrow> rat \<Rightarrow> rat \<Rightarrow> rat \<Rightarrow> rat option result" where
  "match_bar_price bar side limit observed bps cny_slip tick =
     rbind (checks
       [(\<not> (0 \<le> bps \<and> bps \<le> 1000) \<or> cny_slip < 0 \<or> tick \<le> 0, ValueError ''invalid execution friction''),
        (opt_any (\<lambda>l. l \<le> 0) limit, ValueError ''invalid limit price'')]) (\<lambda>_.
     let base = (if observed = CloseObservation then bp_close bar else bp_open bar);
         buy = (side = BUY);
         marketable = none_or (\<lambda>l. if buy then base \<le> l else base \<ge> l) limit;
         touched = none_or (\<lambda>l. if buy then bp_low bar \<le> l else bp_high bar \<ge> l) limit
     in if \<not> marketable \<and> (observed \<noteq> BarObservation \<or> \<not> touched) then Inr None
        else
          rbind (mk_price (if marketable then base else (case limit of None \<Rightarrow> base | Some l \<Rightarrow> l)) ''CNY'') (\<lambda>start.
          rbind (price_with_slippage start side bps cny_slip tick (Some (bp_low bar)) (Some (bp_high bar))) (\<lambda>p.
          Inr (Some (case limit of None \<Rightarrow> amount p | Some l \<Rightarrow> if buy then min (amount p) l else max (amount p) l)))))"

datatype exit_choice = NoExit | TakeProfit | StopLoss

definition protective_exit :: "bar_prices \<Rightarrow> rat option \<Rightarrow> rat option \<Rightarrow> exit_choice \<times> bool" where
  "protective_exit bar take_profit stop_loss =
     (if opt_any (\<lambda>t. bp_open bar \<ge> t) take_profit then (TakeProfit, False)
      else if opt_any (\<lambda>s. bp_open bar \<le> s) stop_loss then (StopLoss, False)
      else
        let profit = opt_any (\<lambda>t. bp_high bar \<ge> t) take_profit;
            loss = opt_any (\<lambda>s. bp_low bar \<le> s) stop_loss
        in if loss then (StopLoss, profit) else if profit then (TakeProfit, False) else (NoExit, False))"

section \<open>The daily-bar matcher\<close>

definition adverse_limit :: "match_request \<Rightarrow> price option" where
  "adverse_limit q =
     (if o_side (q_order q) = BUY \<and> opt_any (\<lambda>u. amount (b_open (q_bar q)) \<ge> amount u) (s_upper_limit (q_session q))
      then s_upper_limit (q_session q)
      else if o_side (q_order q) = SELL \<and> opt_any (\<lambda>l. amount (b_open (q_bar q)) \<le> amount l) (s_lower_limit (q_session q))
      then s_lower_limit (q_session q)
      else None)"

definition daily_limit_reason :: "match_request \<Rightarrow> price \<Rightarrow> string" where
  "daily_limit_reason q limit =
     (let b = q_bar q in
      if list_all (\<lambda>v. v = amount limit) [amount (b_open b), amount (b_high b), amount (b_low b), amount (b_close b)]
      then ''one_price_limit_'' @ (if o_side (q_order q) = BUY then ''up'' else ''down'')
      else ''daily_unlock_timing_unknown'')"

text \<open>\<open>_capacity\<close>: a reason not to fill, or the capacity with its reason code.\<close>

definition match_capacity :: "match_request \<Rightarrow> (string + int \<times> string) result" where
  "match_capacity q =
     (if q_capacity_mode q = UNLIMITED
      then rbind (remaining_quantity (q_order q)) (\<lambda>n. Inr (Inr (n, ''capacity_unlimited_explicit'')))
      else
        (case q_point_in_time_volume q of
           None \<Rightarrow> Inr (Inl ''point_in_time_capacity_unknown'')
         | Some v \<Rightarrow>
             if v_quantity v = 0 then Inr (Inl ''point_in_time_volume_zero'')
             else Inr (Inr (py_int (dec_mul (of_int (v_quantity v)) (q_participation_rate q)), volume_reason_code v))))"

text \<open>The eligibility guards of \<open>match\<close> in their order: the reason of the first that fails.\<close>

definition eligibility :: "match_request \<Rightarrow> string option" where
  "eligibility q =
     (let x = q_order q; t = q_opening_price_proxy_at q in
      if o_status x \<noteq> ACCEPTED \<and> o_status x \<noteq> PARTIALLY_FILLED then Some ''order_not_working''
      else if t < o_valid_from x then Some ''order_not_yet_valid''
      else if t > o_valid_until x then Some ''order_validity_elapsed''
      else if none_or (\<lambda>e. t < e) (o_fill_eligible_at x) then Some ''fill_not_yet_eligible''
      else if s_status (q_session q) \<noteq> TRADING then Some (''security_'' @ trading_status_value (s_status (q_session q)))
      else if b_volume (q_bar q) = 0 then Some ''no_market_trades''
      else None)"

record basis =
  ba_price :: price
  ba_time :: datetime
  ba_quality :: execution_time_quality
  ba_intrabar :: bool

text \<open>The base price and time at an adverse price limit, or the reason not to fill.\<close>

definition opening_basis :: "match_request \<Rightarrow> string + basis" where
  "opening_basis q =
     (case adverse_limit q of
        None \<Rightarrow> Inr \<lparr>ba_price = b_open (q_bar q), ba_time = q_opening_price_proxy_at q,
                 ba_quality = DAILY_BAR_OPEN_PROXY, ba_intrabar = False\<rparr>
      | Some limit \<Rightarrow>
          (case q_limit_handling q of
             ALLOW_LIMIT_VOLUME \<Rightarrow>
               if b_available_at (q_bar q) > o_valid_until (q_order q) then Inl ''bar_available_after_order_expiry''
               else Inr \<lparr>ba_price = limit, ba_time = b_available_at (q_bar q),
                      ba_quality = DAILY_BAR_AVAILABLE_AT_PROXY, ba_intrabar = False\<rparr>
           | STRICT_NO_FILL_AT_LIMIT \<Rightarrow> Inl ''adverse_price_limit''
           | WAIT_FOR_UNLOCK \<Rightarrow> Inl (daily_limit_reason q limit)))"

text \<open>
  The fill price before the band: a LIMIT order goes through \<open>match_bar_price\<close> (with its checks on
  the daily band and on the availability of the bar), a marketable limit order gets the base
  price with friction.
\<close>

definition is_intrabar :: "order \<Rightarrow> price \<Rightarrow> bool" where
  "is_intrabar x base =
     (if o_side x = BUY then amount base > amount (o_limit_price x) else amount base < amount (o_limit_price x))"

definition limit_order_price :: "match_request \<Rightarrow> basis \<Rightarrow> (string + price \<times> basis) result" where
  "limit_order_price q basis =
     (let x = q_order q; b = q_bar q; s = q_session q; limit = amount (o_limit_price x);
          intrabar = is_intrabar x (ba_price basis)
      in if opt_any (\<lambda>u. limit > amount u) (s_upper_limit s) \<or> opt_any (\<lambda>l. limit < amount l) (s_lower_limit s)
         then Inr (Inl ''limit_outside_daily_price_band'')
         else if intrabar \<and> b_available_at b > o_valid_until x then Inr (Inl ''bar_available_after_order_expiry'')
         else
           let basis' = (if intrabar then basis\<lparr>ba_time := b_available_at b, ba_quality := DAILY_BAR_AVAILABLE_AT_PROXY,
                           ba_intrabar := True\<rparr> else basis)
           in rbind (mk_bar_prices \<lparr>bp_open = amount (b_open b), bp_high = amount (b_high b), bp_low = amount (b_low b),
                       bp_close = amount (b_close b)\<rparr>) (\<lambda>prices.
              rbind (match_bar_price prices (o_side x) (Some limit) BarObservation (q_slippage_bps q) (q_slippage_cny q)
                       (s_price_tick s)) (\<lambda>found.
              case found of
                None \<Rightarrow> Inr (Inl ''limit_not_reached'')
              | Some a \<Rightarrow> rbind (mk_price a ''CNY'') (\<lambda>p. Inr (Inr (p, basis'))))))"

definition candidate_price :: "match_request \<Rightarrow> basis \<Rightarrow> (string + price \<times> basis) result" where
  "candidate_price q basis =
     (if o_type (q_order q) = LIMIT then limit_order_price q basis
      else
        rbind (price_with_slippage (ba_price basis) (o_side (q_order q)) (q_slippage_bps q) (q_slippage_cny q)
                 (s_price_tick (q_session q)) (Some (amount (b_low (q_bar q)))) (Some (amount (b_high (q_bar q)))))
          (\<lambda>p. Inr (Inr (p, basis))))"

text \<open>The price is capped at the daily band: at the upper limit first, then at the lower one.\<close>

definition within_band :: "instrument_session \<Rightarrow> price \<Rightarrow> price" where
  "within_band s p =
     (let p' = (case s_upper_limit s of Some u \<Rightarrow> if amount p > amount u then u else p | None \<Rightarrow> p)
      in (case s_lower_limit s of Some l \<Rightarrow> if amount p' < amount l then l else p' | None \<Rightarrow> p'))"

definition fill_result :: "match_request \<Rightarrow> price \<Rightarrow> basis \<Rightarrow> match_result result" where
  "fill_result q price basis =
     rbind (match_capacity q) (\<lambda>c.
     case c of
       Inl reason \<Rightarrow> no_fill reason
     | Inr (capacity, capacity_reason) \<Rightarrow>
         rbind (remaining_quantity (q_order q)) (\<lambda>remaining.
         let quantity = min remaining capacity
         in if quantity \<le> 0 then no_fill ''participation_capacity_zero''
            else rbind (mk_quantity quantity) (\<lambda>n.
              mk_match_result \<lparr>r_outcome = (if quantity = remaining then FILLED_OUTCOME else PARTIALLY_FILLED_OUTCOME),
                r_reason_code = (if adverse_limit q \<noteq> None then ''matched_at_limit''
                                 else if ba_intrabar basis then ''matched_intrabar_limit'' else ''matched_at_open''),
                r_quantity = n, r_price = Some price, r_filled_at = Some (ba_time basis),
                r_capacity_reason_code = Some capacity_reason, r_time_quality = Some (ba_quality basis)\<rparr>)))"

definition match_order :: "match_request \<Rightarrow> match_result result" where
  "match_order q =
     (case eligibility q of
        Some reason \<Rightarrow> no_fill reason
      | None \<Rightarrow>
          (case opening_basis q of
             Inl reason \<Rightarrow> no_fill reason
           | Inr basis \<Rightarrow>
               rbind (candidate_price q basis) (\<lambda>c.
               case c of
                 Inl reason \<Rightarrow> no_fill reason
               | Inr (candidate, basis') \<Rightarrow>
                   let price = within_band (q_session q) candidate; x = q_order q
                   in if o_side x = BUY \<and> amount price > amount (o_limit_price x) then no_fill ''buy_limit_not_marketable''
                      else if o_side x = SELL \<and> amount price < amount (o_limit_price x)
                        then no_fill ''sell_limit_not_marketable''
                      else fill_result q price basis')))"

section \<open>Requests that typecheck\<close>

text \<open>The values a request carries are what their own constructors accept.\<close>

definition request_ok :: "match_request \<Rightarrow> bool" where
  "request_ok q \<longleftrightarrow>
     is_ok (mk_match_request q) \<and> valid_order (q_order q) \<and> daily_bar_ok (q_bar q) \<and> session_ok (q_session q) \<and>
     price_ok (o_limit_price (q_order q)) \<and> none_or price_ok (s_upper_limit (q_session q)) \<and>
     none_or price_ok (s_lower_limit (q_session q)) \<and> none_or (\<lambda>v. 0 \<le> v_quantity v) (q_point_in_time_volume q)"

lemma no_fill_eq [simp]:
  "no_fill reason = Inr \<lparr>r_outcome = NO_FILL, r_reason_code = reason, r_quantity = 0, r_price = None,
     r_filled_at = None, r_capacity_reason_code = None, r_time_quality = None\<rparr>"
  by (simp add: no_fill_def mk_match_result_def result_simps match_result_checks_def)

section \<open>Friction\<close>

lemma at_least_iff: "x \<le> at_least b y \<longleftrightarrow> x \<le> y \<or> opt_any (\<lambda>l. x \<le> l) b"
  by (cases b) (auto simp: at_least_def max_def)

lemma slippage_clipped:
  assumes "price_with_slippage p side bps slip tick (Some lo) (Some hi) = Inr r" "lo \<le> hi"
  shows "lo \<le> amount r" "amount r \<le> hi" "currency r = currency p" "0 < amount r"
  using assms by (auto simp: price_with_slippage_def at_least_def at_most_def result_simps Let_def)

lemma slippage_total:
  assumes "0 < lo" "lo \<le> hi" "0 < tick" "currency_ok (currency p)"
  shows "\<exists>r. price_with_slippage p side bps slip tick (Some lo) (Some hi) = Inr r"
proof -
  have "dec_div x tick \<noteq> Inl e" for x e using assms(3) by (simp add: dec_div_def)
  then obtain u where u: "dec_div (raw_slipped (amount p) side bps slip) tick = Inr u"
    by (cases "dec_div (raw_slipped (amount p) side bps slip) tick") auto
  have "0 < at_most (Some hi) (at_least (Some lo) y)" for y
    using assms by (auto simp: at_least_def at_most_def min_def max_def)
  then show ?thesis
    using assms(4) by (auto simp: price_with_slippage_def u Let_def mk_price_def mk_money_def not_le)
qed

lemma match_bar_price_bounds:
  assumes m: "match_bar_price bar side limit obs bps slip tick = Inr (Some p)"
    and bar: "bp_low bar \<le> bp_open bar" "bp_open bar \<le> bp_high bar" "bp_low bar \<le> bp_close bar" "bp_close bar \<le> bp_high bar"
  shows "bp_low bar \<le> p" "p \<le> bp_high bar" "opt_any (\<lambda>l. (if side = BUY then l < p else p < l)) limit \<longleftrightarrow> False"
    "0 < bp_low bar \<Longrightarrow> 0 < p"
proof -
  let ?base = "if obs = CloseObservation then bp_close bar else bp_open bar"
  have base: "bp_low bar \<le> ?base" "?base \<le> bp_high bar" using bar by auto
  define start where "start = (if none_or (\<lambda>l. if side = BUY then ?base \<le> l else ?base \<ge> l) limit then ?base
    else case limit of None \<Rightarrow> ?base | Some l \<Rightarrow> l)"
  from m obtain c where c: "price_with_slippage \<lparr>amount = start, currency = ''CNY''\<rparr> side bps slip tick
      (Some (bp_low bar)) (Some (bp_high bar)) = Inr c"
    and p: "p = (case limit of None \<Rightarrow> amount c | Some l \<Rightarrow> if side = BUY then min (amount c) l else max (amount c) l)"
    and reach: "none_or (\<lambda>l. if side = BUY then ?base \<le> l else ?base \<ge> l) limit \<or>
      none_or (\<lambda>l. if side = BUY then bp_low bar \<le> l else bp_high bar \<ge> l) limit"
    by (auto simp: match_bar_price_def Let_def result_simps start_def split: if_splits)
  have lh: "bp_low bar \<le> bp_high bar" using bar by linarith
  note cb = slippage_clipped(1,2) [OF c lh]
  have "none_or (\<lambda>l. if side = BUY then bp_low bar \<le> l else bp_high bar \<ge> l) limit"
    using reach base by (cases limit) (auto split: if_splits)
  then show "bp_low bar \<le> p" "p \<le> bp_high bar"
    using cb by (auto simp: p min_def max_def split: option.splits if_splits)
  then show "0 < bp_low bar \<Longrightarrow> 0 < p" by linarith
  show "opt_any (\<lambda>l. (if side = BUY then l < p else p < l)) limit \<longleftrightarrow> False"
    by (auto simp: p opt_any_iff)
qed

section \<open>The shape of a fill\<close>

lemma match_order_fillE:
  assumes "match_order q = Inr r" "r_outcome r \<noteq> NO_FILL"
  obtains basis c basis' where "eligibility q = None" "opening_basis q = Inr basis"
    "candidate_price q basis = Inr (Inr (c, basis'))"
    "if o_side (q_order q) = BUY then amount (within_band (q_session q) c) \<le> amount (o_limit_price (q_order q))
       else amount (o_limit_price (q_order q)) \<le> amount (within_band (q_session q) c)"
    "fill_result q (within_band (q_session q) c) basis' = Inr r"
proof -
  from assms have e: "eligibility q = None"
    by (cases "eligibility q") (auto simp: match_order_def)
  from assms e obtain basis where b: "opening_basis q = Inr basis"
    by (cases "opening_basis q") (auto simp: match_order_def)
  from assms e b obtain k where k: "candidate_price q basis = Inr k"
    by (auto simp: match_order_def result_simps)
  from assms e b k obtain c basis' where c: "k = Inr (c, basis')"
    by (cases k) (auto simp: match_order_def)
  note assms' = assms(1) [unfolded match_order_def e b Let_def, simplified, unfolded k c, simplified]
  show thesis
    using assms(2) assms' by (intro that [OF e b k [unfolded c]]) (cases "o_side (q_order q)"; auto split: if_splits)+
qed

lemma eligible_order:
  assumes "eligibility q = None"
  shows "o_status (q_order q) \<in> {ACCEPTED, PARTIALLY_FILLED}"
    "o_valid_from (q_order q) \<le> q_opening_price_proxy_at q" "q_opening_price_proxy_at q \<le> o_valid_until (q_order q)"
    "opt_any (\<lambda>e. e \<le> q_opening_price_proxy_at q) (o_fill_eligible_at (q_order q))"
    "s_status (q_session q) = TRADING" "b_volume (q_bar q) \<noteq> 0"
  using assms by (auto simp: eligibility_def Let_def not_less none_or_iff opt_any_iff split: if_splits)

lemma fill_resultE:
  assumes "fill_result q p b = Inr r" "r_outcome r \<noteq> NO_FILL"
  obtains remaining capacity reason where "remaining_quantity (q_order q) = Inr remaining"
    "match_capacity q = Inr (Inr (capacity, reason))" "0 < r_quantity r" "r_quantity r = min remaining capacity"
    "r_price r = Some p" "r_filled_at r = Some (ba_time b)"
    "r_outcome r = (if r_quantity r = remaining then FILLED_OUTCOME else PARTIALLY_FILLED_OUTCOME)"
    "r_time_quality r = Some (ba_quality b)"
proof -
  from assms obtain k where k: "match_capacity q = Inr k" by (auto simp: fill_result_def result_simps)
  from assms k obtain capacity reason where c: "k = Inr (capacity, reason)"
    by (cases k) (auto simp: fill_result_def)
  from assms k c obtain n where n: "remaining_quantity (q_order q) = Inr n"
    by (auto simp: fill_result_def result_simps)
  note f = assms(1) [unfolded fill_result_def Let_def k c n, simplified]
  then have pos: "\<not> min n capacity \<le> 0" using assms(2) by (auto split: if_splits)
  then show thesis
    using f by (intro that [OF n k [unfolded c]]) (auto simp: mk_match_result_def result_simps)
qed

lemma opening_basis_time:
  assumes "opening_basis q = Inr b"
  shows "ba_time b = q_opening_price_proxy_at q \<or> ba_time b = b_available_at (q_bar q) \<and> ba_time b \<le> o_valid_until (q_order q)"
  using assms by (auto simp: opening_basis_def split: option.splits limit_handling.splits if_splits)

lemma limit_order_priceE:
  assumes "limit_order_price q b = Inr (Inr (c, b'))"
  obtains bars where "bars = \<lparr>bp_open = amount (b_open (q_bar q)), bp_high = amount (b_high (q_bar q)),
      bp_low = amount (b_low (q_bar q)), bp_close = amount (b_close (q_bar q))\<rparr>"
    "match_bar_price bars (o_side (q_order q)) (Some (amount (o_limit_price (q_order q)))) BarObservation
      (q_slippage_bps q) (q_slippage_cny q) (s_price_tick (q_session q)) = Inr (Some (amount c))"
    "currency c = ''CNY''"
    "b' = (if is_intrabar (q_order q) (ba_price b) then b\<lparr>ba_time := b_available_at (q_bar q),
       ba_quality := DAILY_BAR_AVAILABLE_AT_PROXY, ba_intrabar := True\<rparr> else b)"
    "is_intrabar (q_order q) (ba_price b) \<Longrightarrow> b_available_at (q_bar q) \<le> o_valid_until (q_order q)"
proof -
  let ?bars = "\<lparr>bp_open = amount (b_open (q_bar q)), bp_high = amount (b_high (q_bar q)),
      bp_low = amount (b_low (q_bar q)), bp_close = amount (b_close (q_bar q))\<rparr>"
  from assms obtain found where f: "match_bar_price ?bars (o_side (q_order q)) (Some (amount (o_limit_price (q_order q))))
      BarObservation (q_slippage_bps q) (q_slippage_cny q) (s_price_tick (q_session q)) = Inr found"
    and m: "mk_bar_prices ?bars = Inr ?bars"
    and late: "is_intrabar (q_order q) (ba_price b) \<Longrightarrow> b_available_at (q_bar q) \<le> o_valid_until (q_order q)"
    unfolding limit_order_price_def Let_def by (auto simp: result_simps mk_bar_prices_def split: if_splits)
  show thesis
    using assms m f late
    by (cases found) (auto simp: limit_order_price_def Let_def result_simps split: if_splits intro!: that)
qed

lemma candidate_price_time:
  assumes "candidate_price q b = Inr (Inr (c, b'))"
  shows "ba_time b' = ba_time b \<or> ba_time b' = b_available_at (q_bar q) \<and> ba_time b' \<le> o_valid_until (q_order q)"
proof (cases "o_type (q_order q) = LIMIT")
  case True
  with assms have "limit_order_price q b = Inr (Inr (c, b'))" by (simp add: candidate_price_def)
  then show ?thesis by (elim limit_order_priceE) auto
next
  case False
  then show ?thesis using assms by (auto simp: candidate_price_def result_simps)
qed

lemma candidate_price_in_bar:
  assumes c: "candidate_price q b = Inr (Inr (c, b'))" and bar: "daily_bar_ok (q_bar q)"
  shows "amount (b_low (q_bar q)) \<le> amount c" "amount c \<le> amount (b_high (q_bar q))" "0 < amount c" "currency_ok (currency c)"
    "currency c = (if o_type (q_order q) = LIMIT then ''CNY'' else currency (ba_price b))"
proof -
  note ord = daily_bar_ok_order [OF bar]
  have "(amount (b_low (q_bar q)) \<le> amount c \<and> amount c \<le> amount (b_high (q_bar q))) \<and> currency_ok (currency c) \<and>
    currency c = (if o_type (q_order q) = LIMIT then ''CNY'' else currency (ba_price b))"
  proof (cases "o_type (q_order q) = LIMIT")
    case True
    with c have "limit_order_price q b = Inr (Inr (c, b'))" by (simp add: candidate_price_def)
    then show ?thesis
    proof (elim limit_order_priceE)
      fix bars
      assume bars: "bars = \<lparr>bp_open = amount (b_open (q_bar q)), bp_high = amount (b_high (q_bar q)),
          bp_low = amount (b_low (q_bar q)), bp_close = amount (b_close (q_bar q))\<rparr>"
        and m: "match_bar_price bars (o_side (q_order q)) (Some (amount (o_limit_price (q_order q)))) BarObservation
          (q_slippage_bps q) (q_slippage_cny q) (s_price_tick (q_session q)) = Inr (Some (amount c))"
        and cu: "currency c = ''CNY''"
      show ?thesis using match_bar_price_bounds(1,2) [OF m] ord cu True by (simp add: bars)
    qed
  next
    case False
    then have m: "price_with_slippage (ba_price b) (o_side (q_order q)) (q_slippage_bps q) (q_slippage_cny q)
        (s_price_tick (q_session q)) (Some (amount (b_low (q_bar q)))) (Some (amount (b_high (q_bar q)))) = Inr c"
      using c by (auto simp: candidate_price_def result_simps)
    have "currency_ok (currency c)" using m by (auto simp: price_with_slippage_def result_simps)
    then show ?thesis using slippage_clipped [OF m ord(6)] False by simp
  qed
  then show "amount (b_low (q_bar q)) \<le> amount c" "amount c \<le> amount (b_high (q_bar q))" "currency_ok (currency c)"
    "currency c = (if o_type (q_order q) = LIMIT then ''CNY'' else currency (ba_price b))"
    by blast+
  then show "0 < amount c" using ord(1) by linarith
qed

lemma within_band_bounds:
  assumes "session_ok s"
  shows "none_or (\<lambda>u. amount (within_band s p) \<le> amount u) (s_upper_limit s)"
    "none_or (\<lambda>l. amount l \<le> amount (within_band s p)) (s_lower_limit s)"
    "within_band s p = p \<or> Some (within_band s p) = s_upper_limit s \<or> Some (within_band s p) = s_lower_limit s"
    "none_or (\<lambda>u. amount p \<le> amount u) (s_upper_limit s) \<Longrightarrow> none_or (\<lambda>l. amount l \<le> amount p) (s_lower_limit s) \<Longrightarrow>
      within_band s p = p"
  using session_ok_rule(4,5) [OF assms]
  by (cases "s_upper_limit s"; cases "s_lower_limit s"; force simp: within_band_def Let_def)+

section \<open>What a fill guarantees\<close>

text \<open>The contract of a fill, in terms of the request and the result only.\<close>

definition fill_safe :: "match_request \<Rightarrow> match_result \<Rightarrow> bool" where
  "fill_safe q r \<longleftrightarrow>
     (let x = q_order q; s = q_session q; b = q_bar q in
      o_status x \<in> {ACCEPTED, PARTIALLY_FILLED} \<and> s_status s = TRADING \<and> b_volume b \<noteq> 0 \<and>
      opt_any (\<lambda>e. e \<le> q_opening_price_proxy_at q) (o_fill_eligible_at x) \<and>
      opt_any (\<lambda>t. t \<le> o_valid_until x \<and> t \<in> {q_opening_price_proxy_at q, b_available_at b}) (r_filled_at r) \<and>
      opt_any (\<lambda>p. 0 < amount p \<and>
        (if o_side x = BUY then amount p \<le> amount (o_limit_price x) else amount (o_limit_price x) \<le> amount p) \<and>
        none_or (\<lambda>u. amount p \<le> amount u) (s_upper_limit s) \<and> none_or (\<lambda>l. amount l \<le> amount p) (s_lower_limit s) \<and>
        (none_or (\<lambda>u. amount (b_high b) \<le> amount u) (s_upper_limit s) \<and>
         none_or (\<lambda>l. amount l \<le> amount (b_low b)) (s_lower_limit s) \<longrightarrow>
           amount (b_low b) \<le> amount p \<and> amount p \<le> amount (b_high b))) (r_price r) \<and>
      0 < r_quantity r \<and> r_quantity r \<le> o_quantity x - o_filled_quantity x \<and>
      (r_outcome r = FILLED_OUTCOME \<longleftrightarrow> r_quantity r = o_quantity x - o_filled_quantity x) \<and>
      (q_capacity_mode q = POINT_IN_TIME_VOLUME \<longrightarrow>
         opt_any (\<lambda>v. v_quantity v < 10 ^ 28 \<longrightarrow>
           of_int (r_quantity r) \<le> dec_mul (of_int (v_quantity v)) (q_participation_rate q) \<and>
           r_quantity r \<le> v_quantity v) (q_point_in_time_volume q)))"

lemma request_okD:
  assumes "request_ok q"
  shows "valid_order (q_order q)" "daily_bar_ok (q_bar q)" "session_ok (q_session q)" "price_ok (o_limit_price (q_order q))"
    "0 < q_participation_rate q" "q_participation_rate q \<le> 1" "0 \<le> q_slippage_bps q" "q_slippage_bps q \<le> 1000"
    "0 \<le> q_slippage_cny q" "none_or price_ok (s_upper_limit (q_session q))" "none_or price_ok (s_lower_limit (q_session q))"
    "none_or (\<lambda>v. 0 \<le> v_quantity v) (q_point_in_time_volume q)"
  using assms
  by (auto simp: request_ok_def mk_match_request_def is_ok_iff result_simps match_request_checks_def)

lemma capacity_bounded:
  assumes q: "request_ok q" and c: "match_capacity q = Inr (Inr (capacity, reason))"
    and mode: "q_capacity_mode q = POINT_IN_TIME_VOLUME"
  shows "opt_any (\<lambda>v. v_quantity v < 10 ^ 28 \<longrightarrow>
    of_int capacity \<le> dec_mul (of_int (v_quantity v)) (q_participation_rate q) \<and> capacity \<le> v_quantity v)
    (q_point_in_time_volume q)"
proof -
  note rate = request_okD(5,6) [OF q]
  from c mode obtain v where v: "q_point_in_time_volume q = Some v"
    and cap: "capacity = py_int (dec_mul (of_int (v_quantity v)) (q_participation_rate q))"
    by (auto simp: match_capacity_def split: option.splits if_splits)
  have nn: "0 \<le> v_quantity v" using request_okD(12) [OF q] v by simp
  define d where "d = dec_mul (of_int (v_quantity v)) (q_participation_rate q)"
  have "0 \<le> d" using nn rate by (simp add: d_def dec_mul_def)
  then have cd: "of_int capacity \<le> d" using py_int_nonneg [of d] by (simp add: cap d_def)
  show ?thesis
  proof (cases "10 ^ 28 \<le> v_quantity v")
    case True
    then show ?thesis by (simp add: v)
  next
    case False
    have "d \<le> ctx (of_int (v_quantity v))"
      unfolding d_def dec_mul_def using nn rate by (intro ctx_mono) (simp add: mult_left_le)
    also have "\<dots> = of_int (v_quantity v)" using False nn by (intro ctx_of_int) simp
    finally have "of_int capacity \<le> (of_int (v_quantity v) :: rat)" using cd by linarith
    then show ?thesis using cd by (simp add: v d_def)
  qed
qed

lemma fill_parts:
  assumes q: "request_ok q" and m: "match_order q = Inr r" "r_outcome r \<noteq> NO_FILL"
  obtains c p t capacity reason where "eligibility q = None"
    "amount (b_low (q_bar q)) \<le> amount c" "amount c \<le> amount (b_high (q_bar q))" "price_ok c"
    "currency c = ''CNY'' \<or> o_type (q_order q) \<noteq> LIMIT \<and>
       (currency c = currency (b_open (q_bar q)) \<or> Some (currency c) = map_option currency (adverse_limit q))"
    "p = within_band (q_session q) c" "r_price r = Some p" "r_filled_at r = Some t"
    "t = q_opening_price_proxy_at q \<or> t = b_available_at (q_bar q)" "t \<le> o_valid_until (q_order q)"
    "if o_side (q_order q) = BUY then amount p \<le> amount (o_limit_price (q_order q))
       else amount (o_limit_price (q_order q)) \<le> amount p"
    "match_capacity q = Inr (Inr (capacity, reason))" "0 < r_quantity r"
    "r_quantity r = min (o_quantity (q_order q) - o_filled_quantity (q_order q)) capacity"
    "r_outcome r = FILLED_OUTCOME \<longleftrightarrow> r_quantity r = o_quantity (q_order q) - o_filled_quantity (q_order q)"
proof -
  from m obtain basis c basis' where e: "eligibility q = None" and b: "opening_basis q = Inr basis"
    and c: "candidate_price q basis = Inr (Inr (c, basis'))"
    and lim: "if o_side (q_order q) = BUY then amount (within_band (q_session q) c) \<le> amount (o_limit_price (q_order q))
       else amount (o_limit_price (q_order q)) \<le> amount (within_band (q_session q) c)"
    and f: "fill_result q (within_band (q_session q) c) basis' = Inr r"
    by (rule match_order_fillE)
  from f m(2) obtain n capacity reason where n: "remaining_quantity (q_order q) = Inr n"
    and k: "match_capacity q = Inr (Inr (capacity, reason))" "0 < r_quantity r" "r_quantity r = min n capacity"
    and r: "r_price r = Some (within_band (q_session q) c)" "r_filled_at r = Some (ba_time basis')"
      "r_outcome r = (if r_quantity r = n then FILLED_OUTCOME else PARTIALLY_FILLED_OUTCOME)"
    by (rule fill_resultE)
  have n': "n = o_quantity (q_order q) - o_filled_quantity (q_order q)"
    using n by (simp add: remaining_quantity_def result_simps)
  note bar = candidate_price_in_bar [OF c request_okD(2) [OF q]]
  have cur: "currency c = ''CNY'' \<or> o_type (q_order q) \<noteq> LIMIT \<and>
      (currency c = currency (b_open (q_bar q)) \<or> Some (currency c) = map_option currency (adverse_limit q))"
    using bar(5) b by (auto simp: opening_basis_def split: option.splits limit_handling.splits if_splits)
  have t: "ba_time basis' = q_opening_price_proxy_at q \<or> ba_time basis' = b_available_at (q_bar q)"
    "ba_time basis' \<le> o_valid_until (q_order q)"
    using opening_basis_time [OF b] candidate_price_time [OF c] eligible_order(3) [OF e] by auto
  show thesis
  proof (rule that [OF e bar(1,2) _ cur refl r(1,2) t])
    show "price_ok c" using bar(3,4) by (simp add: price_ok_def money_ok_def)
    show "if o_side (q_order q) = BUY then amount (within_band (q_session q) c) \<le> amount (o_limit_price (q_order q))
       else amount (o_limit_price (q_order q)) \<le> amount (within_band (q_session q) c)"
      by (rule lim)
  qed (use k r n' in auto)
qed

lemma match_order_safe:
  assumes q: "request_ok q" and m: "match_order q = Inr r" "r_outcome r \<noteq> NO_FILL"
  shows "fill_safe q r"
proof -
  from assms obtain c p t capacity reason where e: "eligibility q = None"
    and bar: "amount (b_low (q_bar q)) \<le> amount c" "amount c \<le> amount (b_high (q_bar q))" "price_ok c"
    and p: "p = within_band (q_session q) c" "r_price r = Some p" and t: "r_filled_at r = Some t"
      "t = q_opening_price_proxy_at q \<or> t = b_available_at (q_bar q)" "t \<le> o_valid_until (q_order q)"
    and lim: "if o_side (q_order q) = BUY then amount p \<le> amount (o_limit_price (q_order q))
       else amount (o_limit_price (q_order q)) \<le> amount p"
    and k: "match_capacity q = Inr (Inr (capacity, reason))" "0 < r_quantity r"
      "r_quantity r = min (o_quantity (q_order q) - o_filled_quantity (q_order q)) capacity"
      "r_outcome r = FILLED_OUTCOME \<longleftrightarrow> r_quantity r = o_quantity (q_order q) - o_filled_quantity (q_order q)"
    by (rule fill_parts)
  note el = eligible_order [OF e] and band = within_band_bounds [OF request_okD(3) [OF q], of c]
  have pos: "0 < amount p"
    using band(3) bar(3) request_okD(10,11) [OF q] by (auto simp: p(1) price_ok_def none_or_iff)
  have inside: "none_or (\<lambda>u. amount (b_high (q_bar q)) \<le> amount u) (s_upper_limit (q_session q)) \<and>
      none_or (\<lambda>l. amount l \<le> amount (b_low (q_bar q))) (s_lower_limit (q_session q)) \<longrightarrow> p = c"
  proof
    assume a: "none_or (\<lambda>u. amount (b_high (q_bar q)) \<le> amount u) (s_upper_limit (q_session q)) \<and>
      none_or (\<lambda>l. amount l \<le> amount (b_low (q_bar q))) (s_lower_limit (q_session q))"
    have "within_band (q_session q) c = c"
      by (rule band(4)) (use a bar in \<open>force simp: none_or_iff\<close>)+
    then show "p = c" by (simp add: p(1))
  qed
  have cap: "q_capacity_mode q = POINT_IN_TIME_VOLUME \<longrightarrow>
      opt_any (\<lambda>v. v_quantity v < 10 ^ 28 \<longrightarrow>
        of_int (r_quantity r) \<le> dec_mul (of_int (v_quantity v)) (q_participation_rate q) \<and>
        r_quantity r \<le> v_quantity v) (q_point_in_time_volume q)"
  proof
    assume "q_capacity_mode q = POINT_IN_TIME_VOLUME"
    note capacity_bounded [OF q k(1) this]
    moreover have "r_quantity r \<le> capacity" "of_int (r_quantity r) \<le> (of_int capacity :: rat)" using k(3) by simp_all
    ultimately show "opt_any (\<lambda>v. v_quantity v < 10 ^ 28 \<longrightarrow>
        of_int (r_quantity r) \<le> dec_mul (of_int (v_quantity v)) (q_participation_rate q) \<and>
        r_quantity r \<le> v_quantity v) (q_point_in_time_volume q)"
      unfolding opt_any_iff by (meson order_trans)
  qed
  have n: "r_quantity r \<le> o_quantity (q_order q) - o_filled_quantity (q_order q)" using k(3) by simp
  have rng: "none_or (\<lambda>u. amount (b_high (q_bar q)) \<le> amount u) (s_upper_limit (q_session q)) \<and>
      none_or (\<lambda>l. amount l \<le> amount (b_low (q_bar q))) (s_lower_limit (q_session q)) \<longrightarrow>
      amount (b_low (q_bar q)) \<le> amount p \<and> amount p \<le> amount (b_high (q_bar q))"
    using inside bar(1,2) by blast
  show ?thesis
    unfolding fill_safe_def Let_def
    using el(1,4,5,6) t p(2) pos lim band(1,2) [folded p(1)] rng k(2,4) n cap by simp
qed

section \<open>The matcher never raises\<close>

lemma limit_order_price_total:
  assumes q: "request_ok q"
  shows "\<exists>c. limit_order_price q b = Inr c"
proof -
  let ?bars = "\<lparr>bp_open = amount (b_open (q_bar q)), bp_high = amount (b_high (q_bar q)),
      bp_low = amount (b_low (q_bar q)), bp_close = amount (b_close (q_bar q))\<rparr>"
  note bar = daily_bar_ok_order [OF request_okD(2) [OF q]]
  have m: "mk_bar_prices ?bars = Inr ?bars"
    using bar by (auto simp: mk_bar_prices_def result_simps bar_prices_checks_def)
  have l: "0 < amount (o_limit_price (q_order q))" using request_okD(4) [OF q] by (simp add: price_ok_def)
  have t: "0 < s_price_tick (q_session q)" using session_ok_rule(3) [OF request_okD(3) [OF q]] .
  have "\<exists>v. match_bar_price ?bars (o_side (q_order q)) (Some (amount (o_limit_price (q_order q)))) BarObservation
      (q_slippage_bps q) (q_slippage_cny q) (s_price_tick (q_session q)) = Inr v"
  proof -
    have slip: "\<exists>r. price_with_slippage \<lparr>amount = a, currency = ''CNY''\<rparr> (o_side (q_order q)) (q_slippage_bps q)
        (q_slippage_cny q) (s_price_tick (q_session q)) (Some (bp_low ?bars)) (Some (bp_high ?bars)) = Inr r" for a
      by (rule slippage_total) (use bar t in auto)
    have mk: "mk_price a ''CNY'' = Inr \<lparr>amount = a, currency = ''CNY''\<rparr>" if "0 < a" for a
      using that by (simp add: result_simps)
    have op: "0 < amount (b_open (q_bar q))" using bar by linarith
    have ck: "\<not> (\<not> (0 \<le> q_slippage_bps q \<and> q_slippage_bps q \<le> 1000) \<or> q_slippage_cny q < 0 \<or> s_price_tick (q_session q) \<le> 0)"
      "\<not> amount (o_limit_price (q_order q)) \<le> 0"
      using t l request_okD(7,8,9) [OF q] by simp_all
    from slip [of "amount (o_limit_price (q_order q))"] slip [of "amount (b_open (q_bar q))"]
    show ?thesis
      using mk [OF op] mk [OF l] ck
      by (auto simp: match_bar_price_def checks.simps(2) Let_def)
  qed
  then obtain v where v: "match_bar_price ?bars (o_side (q_order q)) (Some (amount (o_limit_price (q_order q)))) BarObservation
      (q_slippage_bps q) (q_slippage_cny q) (s_price_tick (q_session q)) = Inr v" by blast
  have "\<exists>p. mk_price a ''CNY'' = Inr p" if "v = Some a" for a
    using match_bar_price_bounds(4) [OF v [unfolded that]] bar by (simp add: mk_price_def)
  then show ?thesis
    by (cases v) (auto simp: limit_order_price_def Let_def m v)
qed

lemma opening_basis_currency:
  assumes q: "request_ok q" and b: "opening_basis q = Inr b"
  shows "currency_ok (currency (ba_price b))"
  using b request_okD(10,11) [OF q] daily_bar_ok_currency(4) [OF request_okD(2) [OF q]]
  by (auto simp: opening_basis_def adverse_limit_def price_ok_def money_ok_def none_or_iff opt_any_iff
      split: option.splits limit_handling.splits if_splits)

lemma candidate_price_total:
  assumes q: "request_ok q" and b: "opening_basis q = Inr b"
  shows "\<exists>c. candidate_price q b = Inr c"
proof (cases "o_type (q_order q) = LIMIT")
  case True
  then show ?thesis using limit_order_price_total [OF q] by (simp add: candidate_price_def)
next
  case False
  note bar = daily_bar_ok_order [OF request_okD(2) [OF q]]
  obtain p where "price_with_slippage (ba_price b) (o_side (q_order q)) (q_slippage_bps q) (q_slippage_cny q)
      (s_price_tick (q_session q)) (Some (amount (b_low (q_bar q)))) (Some (amount (b_high (q_bar q)))) = Inr p"
    using slippage_total [OF bar(1,6) session_ok_rule(3) [OF request_okD(3) [OF q]] opening_basis_currency [OF assms]]
    by blast
  with False show ?thesis by (simp add: candidate_price_def)
qed

lemma match_capacity_total:
  assumes "valid_order (q_order q)"
  shows "\<exists>k. match_capacity q = Inr k" "k = Inr (c, reason) \<Longrightarrow> match_capacity q = Inr k \<Longrightarrow> reason \<noteq> []"
  using valid_order_quantities [OF assms]
  by (auto simp: match_capacity_def remaining_quantity_def quantity_sub_def mk_quantity_def volume_reason_code_def
      split: option.splits if_splits)

lemma fill_result_total:
  assumes "valid_order (q_order q)"
  shows "\<exists>r. fill_result q p b = Inr r"
proof -
  obtain k where k: "match_capacity q = Inr k" using match_capacity_total(1) [OF assms] by blast
  have n: "remaining_quantity (q_order q) = Inr (o_quantity (q_order q) - o_filled_quantity (q_order q))"
    using valid_order_quantities [OF assms] by (simp add: remaining_quantity_def result_simps)
  show ?thesis
  proof (cases k)
    case (Inr cr)
    obtain c reason where cr: "cr = (c, reason)" by (cases cr)
    have "reason \<noteq> []" using match_capacity_total(2) [OF assms _ k] Inr cr by blast
    then show ?thesis
      by (simp add: fill_result_def k Inr cr n Let_def mk_quantity_def mk_match_result_def construct_def
          match_result_checks_def checks.simps(2))
  qed (simp add: fill_result_def k)
qed

lemma match_order_total:
  assumes q: "request_ok q"
  shows "\<exists>r. match_order q = Inr r"
proof (cases "eligibility q")
  case None
  show ?thesis
  proof (cases "opening_basis q")
    case (Inr b)
    obtain k where k: "candidate_price q b = Inr k" using candidate_price_total [OF q Inr] by blast
    show ?thesis
      using None Inr k fill_result_total [OF request_okD(1) [OF q]]
      by (cases k) (auto simp: match_order_def Let_def)
  qed (simp add: match_order_def None)
qed (simp add: match_order_def)

lemma matched_fill_recordable:
  assumes h: "order_history (q_order q) es" and q: "request_ok q"
    and m: "match_order q = Inr r" "r_outcome r \<noteq> NO_FILL" "r_price r = Some p" "r_filled_at r = Some t"
    and t: "q_opening_price_proxy_at q \<le> b_available_at (q_bar q)" "o_updated_at (q_order q) \<le> t"
    and f: "f \<notin> set (o_applied_fill_ids (q_order q))" and c: "currency p = currency (o_limit_price (q_order q))"
  shows "\<exists>tr. record_fill (q_order q) ev f t (r_quantity r) p = Inr tr \<and>
    o_status (tr_order tr) = (if r_outcome r = FILLED_OUTCOME then FILLED else PARTIALLY_FILLED)"
proof -
  have safe: "fill_safe q r" using q m(1,2) by (rule match_order_safe)
  have avg: "average_ok (q_order q)" using h by (rule order_history_average)
  from safe obtain e where e: "o_fill_eligible_at (q_order q) = Some e" "e \<le> q_opening_price_proxy_at q"
    by (auto simp: fill_safe_def Let_def opt_any_iff)
  have p: "price_ok p"
    using safe m(3) c request_okD(4) [OF q] by (simp add: fill_safe_def Let_def price_ok_def money_ok_def)
  have "\<exists>tr. record_fill (q_order q) ev f t (r_quantity r) p = Inr tr"
    using order_history_valid [OF h]
    by (rule record_fill_ok [where e = e])
      (use safe m t e f c p avg in \<open>auto simp: fill_safe_def Let_def average_ok_def opt_any_iff\<close>)
  then obtain tr where tr: "record_fill (q_order q) ev f t (r_quantity r) p = Inr tr" by blast
  moreover have "o_status (tr_order tr) = (if r_outcome r = FILLED_OUTCOME then FILLED else PARTIALLY_FILLED)"
    using record_fill_Inr(11) [OF tr] safe by (auto simp: fill_safe_def Let_def)
  ultimately show ?thesis by blast
qed

section \<open>Properties\<close>

text \<open>C18: every fill the daily matcher returns is safe: the order was working and inside its validity
  and eligibility window, the security was trading with a non-zero volume, the price respects the order's limit
  and the session's price band (and the bar's low and high whenever the bar lies inside the band), the time
  is the opening or the bar's availability and never after the order expired, the quantity is positive,
  at most what remains and at most the participating share of the observed volume, and the outcome says
  FILLED exactly when nothing remains.\<close>

theorem match_fill_safe:
  assumes "request_ok q" "match_order q = Inr r" "r_outcome r \<noteq> NO_FILL"
  shows "fill_safe q r"
  using assms by (rule match_order_safe)

text \<open>A buy of 300 shares at a limit of 10.50 against a bar that opens at 10.20, with 5 basis points of
  friction and a tenth of the previous session's 2,000 shares.\<close>

definition sample_order :: order where
  "sample_order = \<lparr>o_order_id = ''o1'', o_decision_id = ''d1'', o_instrument_id = ''300059.SZ'', o_side = BUY,
     o_type = MARKETABLE_LIMIT, o_time_in_force = DAY, o_quantity = 300, o_limit_price = cny (105 / 10),
     o_created_at = 10, o_valid_from = 20, o_valid_until = 90, o_updated_at = 30, o_status = PARTIALLY_FILLED,
     o_filled_quantity = 200, o_average_fill_price = Some (cny (1015 / 100)), o_submitted_at = Some 11,
     o_accepted_at = Some 12, o_fill_eligible_at = Some 20, o_terminal_at = None, o_terminal_reason = None,
     o_applied_fill_ids = [''f1'', ''f2''], o_version = 5\<rparr>"

lemma sample_order_history: "\<exists>es. order_history sample_order es"
proof -
  have "case sample_run of Inl e \<Rightarrow> False | Inr (x, es) \<Rightarrow> x = sample_order" by code_simp
  then show ?thesis using sample_run_history by (auto split: sum.splits prod.splits)
qed

definition sample_bar :: daily_bar where
  "sample_bar = \<lparr>b_instrument_id = ''300059.SZ'', b_session_date = 2, b_open = cny (102 / 10), b_high = cny (104 / 10),
     b_low = cny 10, b_close = cny (103 / 10), b_volume = 5000, b_turnover = 51000, b_available_at = 80,
     b_price_basis = UNADJUSTED, b_turnover_rate_pct = None, b_turnover_rate_provider = None,
     b_turnover_rate_methodology = None\<rparr>"

definition sample_session :: instrument_session where
  "sample_session = \<lparr>s_instrument_id = ''300059.SZ'', s_session_date = 2, s_board = CHINEXT, s_status = TRADING,
     s_previous_close = cny 10, s_upper_limit = Some (cny 12), s_lower_limit = Some (cny 8),
     s_minimum_buy_quantity = 100, s_buy_quantity_increment = 100, s_price_tick = 1 / 100, s_t_plus_one = True,
     s_is_st = False\<rparr>"

definition sample_request :: match_request where
  "sample_request = \<lparr>q_order = sample_order, q_bar = sample_bar, q_session = sample_session,
     q_opening_price_proxy_at = 40, q_participation_rate = 1 / 40, q_slippage_bps = 5, q_slippage_cny = 0,
     q_limit_handling = WAIT_FOR_UNLOCK, q_capacity_mode = POINT_IN_TIME_VOLUME,
     q_point_in_time_volume = Some \<lparr>v_quantity = 2000, v_known_at = 30, v_source = PREVIOUS_SESSION_DAILY_BAR,
       v_source_session_date = Some 1\<rparr>\<rparr>"

lemma sample_request_ok: "request_ok sample_request"
  by code_simp

lemma sample_slippage:
  "price_with_slippage (cny (102 / 10)) BUY 5 0 (1 / 100) (Some 10) (Some (104 / 10)) = Inr (cny (1021 / 100))"
proof -
  have r: "raw_slipped (amount (cny (102 / 10))) BUY 5 0 = 102051 / 10000" by code_simp
  have d: "dec_div (102051 / 10000) (1 / 100) = Inr (102051 / 100)" by code_simp
  have u: "round_up (102051 / 100) = 1021" by code_simp
  have m: "dec_mul (of_int 1021) (1 / 100) = 1021 / 100" by code_simp
  show ?thesis
    unfolding price_with_slippage_def r d rbind_Inr Let_def using u m
    by (simp only: u m simp_thms if_True) (simp add: cny_def at_most_def at_least_def mk_price_def)
qed

lemma sample_request_fill:
  "match_order sample_request = Inr \<lparr>r_outcome = PARTIALLY_FILLED_OUTCOME, r_reason_code = ''matched_at_open'',
     r_quantity = 50, r_price = Some (cny (1021 / 100)), r_filled_at = Some 40,
     r_capacity_reason_code = Some ''capacity_previous_session_volume_proxy'', r_time_quality = Some DAILY_BAR_OPEN_PROXY\<rparr>"
proof -
  let ?b = "\<lparr>ba_price = cny (102 / 10), ba_time = 40, ba_quality = DAILY_BAR_OPEN_PROXY, ba_intrabar = False\<rparr>"
  have "eligibility sample_request = None" "opening_basis sample_request = Inr ?b" "adverse_limit sample_request = None"
    by code_simp+
  moreover have "match_capacity sample_request = Inr (Inr (50, ''capacity_previous_session_volume_proxy''))" by code_simp
  moreover have "candidate_price sample_request ?b = Inr (Inr (cny (1021 / 100), ?b))"
    using sample_slippage
    by (simp add: candidate_price_def sample_request_def sample_order_def sample_bar_def sample_session_def cny_def)
  moreover have "within_band (q_session sample_request) (cny (1021 / 100)) = cny (1021 / 100)" by code_simp
  moreover have "remaining_quantity (q_order sample_request) = Inr 100" "o_side (q_order sample_request) = BUY"
    "o_limit_price (q_order sample_request) = cny (105 / 10)" by code_simp+
  ultimately show ?thesis
    by (simp add: match_order_def Let_def fill_result_def mk_quantity_def mk_match_result_def construct_def
        match_result_checks_def checks.simps(2) cny_def)
qed

theorem match_fill_safe_witness:
  "\<exists>r. match_order sample_request = Inr r \<and> r_quantity r = 50 \<and> fill_safe sample_request r"
  using match_fill_safe [OF sample_request_ok sample_request_fill] by (simp add: sample_request_fill)

text \<open>C37: the daily matcher is total on well-formed requests: whatever the order, bar, session, friction
  and capacity, it returns a result and no constructor inside it raises.\<close>

theorem matcher_never_raises:
  assumes "request_ok q"
  shows "\<exists>r. match_order q = Inr r"
  using assms by (rule match_order_total)

theorem matcher_never_raises_witness: "\<exists>r. match_order (sample_request\<lparr>q_limit_handling := ALLOW_LIMIT_VOLUME\<rparr>) = Inr r"
proof (rule matcher_never_raises)
  show "request_ok (sample_request\<lparr>q_limit_handling := ALLOW_LIMIT_VOLUME\<rparr>)" by code_simp
qed

text \<open>Matcher and order agree: a fill the matcher returns for an order of the state machine is always
  accepted by \<open>record_fill\<close> under a fresh fill id (if the bar did not become available before the opening,
  the order was not updated after the fill time and the currencies match), and the new status is FILLED
  exactly when the matcher says so.\<close>

theorem matched_fill_is_recorded:
  assumes h: "order_history (q_order q) es" and q: "request_ok q"
    and m: "match_order q = Inr r" "r_outcome r \<noteq> NO_FILL" "r_price r = Some p" "r_filled_at r = Some t"
    and t: "q_opening_price_proxy_at q \<le> b_available_at (q_bar q)" "o_updated_at (q_order q) \<le> t"
    and f: "f \<notin> set (o_applied_fill_ids (q_order q))" and c: "currency p = currency (o_limit_price (q_order q))"
  shows "\<exists>tr. record_fill (q_order q) ev f t (r_quantity r) p = Inr tr \<and>
    o_status (tr_order tr) = (if r_outcome r = FILLED_OUTCOME then FILLED else PARTIALLY_FILLED)"
  using assms by (rule matched_fill_recordable)

theorem matched_fill_is_recorded_witness:
  "\<exists>tr. record_fill sample_order ''e6'' ''f3'' 40 50 (cny (1021 / 100)) = Inr tr \<and>
     o_status (tr_order tr) = PARTIALLY_FILLED"
proof -
  obtain es where h: "order_history sample_order es" using sample_order_history by blast
  have o: "q_order sample_request = sample_order" by (simp add: sample_request_def)
  have "q_opening_price_proxy_at sample_request \<le> b_available_at (q_bar sample_request)"
    by (simp add: sample_request_def sample_bar_def)
  from matched_fill_is_recorded [OF h [folded o] sample_request_ok sample_request_fill _ _ _ this, of "cny (1021 / 100)" 40 "''f3''" "''e6''"]
  show ?thesis by (simp add: o sample_order_def cny_def)
qed

text \<open>An order nothing stands against is filled completely: a working, eligible MARKETABLE_LIMIT buy in
  a trading session with unlimited capacity, whose bar opens below the upper limit and trades no higher
  than the order's limit, gets everything that remains at the opening.\<close>

theorem unconstrained_buy_fills:
  assumes q: "request_ok q" and e: "eligibility q = None"
    and x: "o_side (q_order q) = BUY" "o_type (q_order q) = MARKETABLE_LIMIT" "o_filled_quantity (q_order q) < o_quantity (q_order q)"
    and u: "q_capacity_mode q = UNLIMITED" "none_or (\<lambda>u. amount (b_high (q_bar q)) < amount u) (s_upper_limit (q_session q))"
      "none_or (\<lambda>l. amount l \<le> amount (b_low (q_bar q))) (s_lower_limit (q_session q))"
      "amount (b_high (q_bar q)) \<le> amount (o_limit_price (q_order q))"
  shows "\<exists>r. match_order q = Inr r \<and> r_outcome r = FILLED_OUTCOME \<and>
    r_quantity r = o_quantity (q_order q) - o_filled_quantity (q_order q) \<and>
    r_filled_at r = Some (q_opening_price_proxy_at q)"
proof -
  note bar = daily_bar_ok_order [OF request_okD(2) [OF q]]
  have "adverse_limit q = None" using x u(2) bar by (auto simp: adverse_limit_def opt_any_iff none_or_iff)
  then have b: "opening_basis q = Inr \<lparr>ba_price = b_open (q_bar q), ba_time = q_opening_price_proxy_at q,
      ba_quality = DAILY_BAR_OPEN_PROXY, ba_intrabar = False\<rparr>" (is "_ = Inr ?b")
    by (simp add: opening_basis_def)
  obtain k where k: "candidate_price q ?b = Inr k" using candidate_price_total [OF q b] by blast
  then obtain c where c: "k = Inr (c, ?b)" using x(2) by (auto simp: candidate_price_def result_simps)
  note cb = candidate_price_in_bar [OF k [unfolded c] request_okD(2) [OF q]]
  have w: "within_band (q_session q) c = c"
    by (rule within_band_bounds(4) [OF request_okD(3) [OF q]]) (use u cb in \<open>force simp: none_or_iff\<close>)+
  have n: "remaining_quantity (q_order q) = Inr (o_quantity (q_order q) - o_filled_quantity (q_order q))"
    using x(3) by (simp add: remaining_quantity_def result_simps)
  show ?thesis
    using e x u(1,4) cb(2)
    by (simp add: match_order_def b k c w Let_def fill_result_def match_capacity_def n mk_quantity_def
        mk_match_result_def construct_def match_result_checks_def checks.simps(2))
qed

theorem unconstrained_buy_fills_witness:
  "\<exists>r. match_order (sample_request\<lparr>q_capacity_mode := UNLIMITED, q_point_in_time_volume := None\<rparr>) = Inr r \<and>
     r_outcome r = FILLED_OUTCOME \<and> r_quantity r = 100"
proof -
  define q where "q = sample_request\<lparr>q_capacity_mode := UNLIMITED, q_point_in_time_volume := None\<rparr>"
  have q: "request_ok q" "eligibility q = None" unfolding q_def by code_simp+
  have o: "o_side (q_order q) = BUY" "o_type (q_order q) = MARKETABLE_LIMIT" "o_filled_quantity (q_order q) = 200"
    "o_quantity (q_order q) = 300" "o_limit_price (q_order q) = cny (105 / 10)"
    unfolding q_def by code_simp+
  have "b_high (q_bar q) = cny (104 / 10)" "b_low (q_bar q) = cny 10" "q_capacity_mode q = UNLIMITED"
    "s_upper_limit (q_session q) = Some (cny 12)" "s_lower_limit (q_session q) = Some (cny 8)"
    by (simp_all add: q_def sample_request_def sample_bar_def sample_session_def)
  with unconstrained_buy_fills [OF q o(1,2)] o have "\<exists>r. match_order q = Inr r \<and> r_outcome r = FILLED_OUTCOME \<and> r_quantity r = 100"
    by (auto simp: cny_def)
  then show ?thesis by (simp add: q_def)
qed

end
