(* ===== verification/Rules.thy ===== *)
theory Rules
  imports MarketData Rounding
begin

text \<open>
  The fallback rule book of \<open>ashare_lab/domain/execution/rules.py\<close>: the daily price band and the
  declaration rule of a security on a session, derived from its board, its listing and its
  previous close.  The lemmas relate the band to the exact ratios and say when a session exists.
\<close>

record rule_input =
  ri_instrument_id :: string
  ri_session_date :: date
  ri_board :: board
  ri_status :: trading_status
  ri_previous_close :: price
  ri_listing_date :: date
  ri_listing_session_number :: int
  ri_is_st :: bool

definition rule_input_checks :: "rule_input \<Rightarrow> (bool \<times> py_error) list" where
  "rule_input_checks i =
    [(ri_listing_date i > ri_session_date i, DomainValidationError ''listing_date cannot be after session_date''),
     (ri_listing_session_number i < 1, DomainValidationError ''listing_session_number must be at least one'')]"

definition mk_rule_input :: "rule_input \<Rightarrow> rule_input result" where
  "mk_rule_input i = construct (\<lambda>i. checks (rule_input_checks i)) i"

definition chinext_reform :: date where
  "chinext_reform = ymd 2020 8 24"

definition main_registration_first_listings :: date where
  "main_registration_first_listings = ymd 2023 4 10"

text \<open>The upper and the lower ratio of the band; no ratio stands for a session without a band.\<close>

definition band_ratios :: "rule_input \<Rightarrow> (rat option \<times> rat option) result" where
  "band_ratios i =
     (let st_ratio = (if ri_is_st i then 5 / 100 else 10 / 100) in
      case ri_board i of
        STOCK_ETF \<Rightarrow>
          if ri_is_st i then Inl (DomainValidationError ''stock_etf cannot use stock ST rules'')
          else Inr (Some (10 / 100), Some (10 / 100))
      | STAR \<Rightarrow>
          if ri_listing_session_number i \<le> 5 then Inr (None, None) else Inr (Some (20 / 100), Some (20 / 100))
      | CHINEXT \<Rightarrow>
          if ri_listing_date i \<ge> chinext_reform \<and> ri_listing_session_number i \<le> 5 then Inr (None, None)
          else if ri_session_date i \<ge> chinext_reform then Inr (Some (20 / 100), Some (20 / 100))
          else Inr (Some st_ratio, Some st_ratio)
      | BSE \<Rightarrow>
          if ri_listing_session_number i = 1 then Inr (None, None) else Inr (Some (30 / 100), Some (30 / 100))
      | MAIN \<Rightarrow>
          if ri_listing_date i \<ge> main_registration_first_listings \<and> ri_listing_session_number i \<le> 5
          then Inr (None, None)
          else if ri_listing_date i < main_registration_first_listings \<and> ri_listing_session_number i = 1
          then Inr (Some (44 / 100), Some (36 / 100))
          else Inr (Some st_ratio, Some st_ratio))"

definition tick_decimals :: "board \<Rightarrow> nat" where
  "tick_decimals b = (if b = STOCK_ETF then 3 else 2)"

definition limit_price :: "rule_input \<Rightarrow> rat \<Rightarrow> price result" where
  "limit_price i factor =
     rbind (quantize ROUND_HALF_UP (tick_decimals (ri_board i)) (dec_mul (amount (ri_previous_close i)) factor))
       (\<lambda>a. mk_price a (currency (ri_previous_close i)))"

definition session_of :: "rule_input \<Rightarrow> price option \<Rightarrow> price option \<Rightarrow> instrument_session" where
  "session_of i upper lower =
     \<lparr>s_instrument_id = ri_instrument_id i, s_session_date = ri_session_date i, s_board = ri_board i,
      s_status = ri_status i, s_previous_close = ri_previous_close i, s_upper_limit = upper, s_lower_limit = lower,
      s_minimum_buy_quantity = fst (standard_buy_quantity_rule (ri_board i)),
      s_buy_quantity_increment = snd (standard_buy_quantity_rule (ri_board i)),
      s_price_tick = 1 / 10 ^ tick_decimals (ri_board i), s_t_plus_one = True, s_is_st = ri_is_st i\<rparr>"

definition build_session :: "rule_input \<Rightarrow> instrument_session result" where
  "build_session i =
     rbind (band_ratios i) (\<lambda>(upper_ratio, lower_ratio).
     case (upper_ratio, lower_ratio) of
       (Some u, Some l) \<Rightarrow>
         rbind (limit_price i (dec_add 1 u)) (\<lambda>upper.
         rbind (limit_price i (dec_sub 1 l)) (\<lambda>lower. mk_session (session_of i (Some upper) (Some lower))))
     | _ \<Rightarrow> mk_session (session_of i None None))"

section \<open>The band\<close>

lemma band_ratios_cases:
  assumes "band_ratios i = Inr r"
  obtains "r = (None, None)"
  | u l where "r = (Some u, Some l)" "5 / 100 \<le> u" "u \<le> 44 / 100" "5 / 100 \<le> l" "l \<le> 36 / 100"
      "dec_add 1 u = 1 + u" "dec_sub 1 l = 1 - l" "on_grid 2 (1 + u)" "on_grid 2 (1 - l)"
proof -
  have g: "dec_add 1 (5 / 100) = 1 + 5 / 100" "dec_add 1 (10 / 100) = 1 + 10 / 100" "dec_add 1 (20 / 100) = 1 + 20 / 100"
    "dec_add 1 (30 / 100) = 1 + 30 / 100" "dec_add 1 (44 / 100) = 1 + 44 / 100"
    "dec_sub 1 (5 / 100) = 1 - 5 / 100" "dec_sub 1 (10 / 100) = 1 - 10 / 100" "dec_sub 1 (20 / 100) = 1 - 20 / 100"
    "dec_sub 1 (30 / 100) = 1 - 30 / 100" "dec_sub 1 (36 / 100) = 1 - 36 / 100"
    by code_simp+
  have h: "on_grid 2 (1 + 5 / 100)" "on_grid 2 (1 + 10 / 100)" "on_grid 2 (1 + 20 / 100)" "on_grid 2 (1 + 30 / 100)"
    "on_grid 2 (1 + 44 / 100)" "on_grid 2 (1 - 5 / 100)" "on_grid 2 (1 - 10 / 100)" "on_grid 2 (1 - 20 / 100)"
    "on_grid 2 (1 - 30 / 100)" "on_grid 2 (1 - 36 / 100)"
    by code_simp+
  have "r \<in> {(None, None), (Some (5 / 100), Some (5 / 100)), (Some (10 / 100), Some (10 / 100)),
      (Some (20 / 100), Some (20 / 100)), (Some (30 / 100), Some (30 / 100)), (Some (44 / 100), Some (36 / 100))}"
    using assms by (auto simp: band_ratios_def Let_def split: board.splits if_splits)
  then consider "r = (None, None)" | "r = (Some (5 / 100), Some (5 / 100))" | "r = (Some (10 / 100), Some (10 / 100))"
    | "r = (Some (20 / 100), Some (20 / 100))" | "r = (Some (30 / 100), Some (30 / 100))"
    | "r = (Some (44 / 100), Some (36 / 100))"
    by blast
  then show thesis
  proof cases
    case 1 then show thesis by (rule that(1))
  next
    case 2 then show thesis by (rule that(2)) (use g h in simp_all)
  next
    case 3 then show thesis by (rule that(2)) (use g h in simp_all)
  next
    case 4 then show thesis by (rule that(2)) (use g h in simp_all)
  next
    case 5 then show thesis by (rule that(2)) (use g h in simp_all)
  next
    case 6 then show thesis by (rule that(2)) (use g h in simp_all)
  qed
qed

definition ticked :: "nat \<Rightarrow> rat \<Rightarrow> rat" where
  "ticked k x = of_int (round_half_up (x * 10 ^ k)) / 10 ^ k"

lemma ticked_error: "\<bar>ticked k x - x\<bar> \<le> 1 / (2 * 10 ^ k)"
proof -
  define c where "c = round_half_up (x * 10 ^ k)"
  have "ticked k x - x = (of_int c - x * 10 ^ k) / 10 ^ k" by (simp add: ticked_def c_def diff_divide_distrib)
  then have "\<bar>ticked k x - x\<bar> = \<bar>of_int c - x * 10 ^ k\<bar> / 10 ^ k" by (simp add: abs_divide)
  also have "\<dots> \<le> (1 / 2) / 10 ^ k"
    using round_half_up_error [of "x * 10 ^ k"] by (intro divide_right_mono) (auto simp: c_def)
  finally show ?thesis by simp
qed

lemma limit_price_exact:
  assumes p: "price_ok (ri_previous_close i)" "on_grid (tick_decimals (ri_board i)) (amount (ri_previous_close i))"
    and b: "amount (ri_previous_close i) * 10 ^ (tick_decimals (ri_board i) + 2) < 10 ^ 27"
    and f: "on_grid 2 f" "0 < f" "f \<le> 2"
  shows "limit_price i f =
    (let a = ticked (tick_decimals (ri_board i)) (amount (ri_previous_close i) * f) in
     if a \<le> 0 then Inl (DomainValidationError ''price must be greater than zero'')
     else Inr \<lparr>amount = a, currency = currency (ri_previous_close i)\<rparr>)"
proof -
  let ?k = "tick_decimals (ri_board i)" and ?p = "amount (ri_previous_close i)"
  have p0: "0 < ?p" using p(1) by (simp add: price_ok_def)
  have g: "on_grid (?k + 2) (?p * f)"
    using p(2) f(1) by (rule on_grid_mult)
  have le: "?p * f \<le> ?p * 2" using p0 f by (intro mult_left_mono) auto
  have lt: "?p * f * 10 ^ (?k + 2) < 2 * 10 ^ 27"
  proof -
    have "?p * f * 10 ^ (?k + 2) \<le> ?p * 2 * 10 ^ (?k + 2)" using le by (intro mult_right_mono) auto
    then show ?thesis using b by linarith
  qed
  have nn: "0 \<le> ?p * f" using p0 f by simp
  have "dec_mul ?p f = ?p * f"
    unfolding dec_mul_def using g by (rule ctx_on_grid) (use nn lt in simp)
  moreover have "is_ok (quantize ROUND_HALF_UP ?k (?p * f))"
  proof (rule quantize_ok)
    have "?p * f * 10 ^ ?k \<le> ?p * f * 10 ^ (?k + 2)" using nn by (intro mult_left_mono) auto
    also have "\<dots> < 10 ^ 28 - 1" using lt by (rule less_le_trans) simp
    finally show "\<bar>?p * f\<bar> * 10 ^ ?k < 10 ^ 28 - 1" using nn by (simp only: abs_of_nonneg)
  qed
  then have "quantize ROUND_HALF_UP ?k (?p * f) = Inr (ticked ?k (?p * f))"
    by (simp add: quantize_def ticked_def Let_def split: if_splits)
  moreover have "currency_ok (currency (ri_previous_close i))" using p(1) by (simp add: price_ok_def money_ok_def)
  ultimately show ?thesis by (simp add: limit_price_def mk_price_def Let_def)
qed

section \<open>Sessions of the rule book\<close>

lemma session_of_ok:
  assumes p: "price_ok (ri_previous_close i)" and st: "ri_board i = STOCK_ETF \<Longrightarrow> \<not> ri_is_st i"
    and b: "upper = None \<and> lower = None \<or>
      (\<exists>u l. upper = Some u \<and> lower = Some l \<and> amount l < amount u \<and>
         currency u = currency (ri_previous_close i) \<and> currency l = currency (ri_previous_close i))"
  shows "mk_session (session_of i upper lower) = Inr (session_of i upper lower)"
  using assms
  by (cases "ri_board i") (auto simp: mk_session_def construct_Inr is_ok_checks session_checks_def session_of_def tick_decimals_def)

lemma session_of_Inr:
  assumes "mk_session (session_of i upper lower) = Inr s"
  shows "s = session_of i upper lower" "session_ok s"
  using assms by (auto simp: mk_session_def construct_Inr session_ok_def)

lemma band_ratios_etf: "band_ratios i = Inr r \<Longrightarrow> ri_board i = STOCK_ETF \<Longrightarrow> \<not> ri_is_st i"
  by (auto simp: band_ratios_def Let_def split: if_splits)

text \<open>The previous close in ticks.\<close>

lemma ticks_of:
  assumes "on_grid k p"
  obtains n where "p = of_int n / 10 ^ k" "p * 10 ^ k = of_int n"
  using assms by (auto simp: on_grid_iff)

lemma ticked_bounds:
  assumes "on_grid k p"
  shows "p \<le> x \<Longrightarrow> p \<le> ticked k x" "x \<le> p \<Longrightarrow> ticked k x \<le> p"
proof -
  obtain n where n: "p = of_int n / 10 ^ k" "p * 10 ^ k = of_int n" using assms by (rule ticks_of)
  define e where "e = x * 10 ^ k"
  have e: "\<bar>of_int (round_half_up e) - e\<bar> \<le> 1 / 2" by (rule round_half_up_error)
  show "p \<le> ticked k x" if "p \<le> x"
  proof -
    have "of_int n \<le> e" using that unfolding e_def n(2) [symmetric] by (rule mult_right_mono) simp
    then have "of_int n - 1 < (of_int (round_half_up e) :: rat)" using e unfolding abs_le_iff by linarith
    then have "n \<le> round_half_up e" by linarith
    then show ?thesis by (simp add: ticked_def n(1) divide_right_mono flip: e_def)
  qed
  show "ticked k x \<le> p" if "x \<le> p"
  proof -
    have "e \<le> of_int n" using that unfolding e_def n(2) [symmetric] by (rule mult_right_mono) simp
    then have "of_int (round_half_up e) < (of_int n + 1 :: rat)" using e unfolding abs_le_iff by linarith
    then have "round_half_up e \<le> n" by linarith
    then show ?thesis by (simp add: ticked_def n(1) divide_right_mono flip: e_def)
  qed
qed

definition band_limit :: "rule_input \<Rightarrow> rat \<Rightarrow> price" where
  "band_limit i factor = \<lparr>amount = ticked (tick_decimals (ri_board i)) (amount (ri_previous_close i) * factor),
     currency = currency (ri_previous_close i)\<rparr>"

lemma band_strict:
  assumes "9 \<le> n" "5 / 100 \<le> u" "5 / 100 \<le> l" "l \<le> 36 / 100" "n \<noteq> 9"
  shows "round_half_up (of_int n * (1 - l)) < round_half_up (of_int n * (1 + u))" "0 < round_half_up (of_int n * (1 - l))"
proof -
  have n: "10 \<le> n" using assms by linarith
  have m: "of_int n * (1 + u) - of_int n * (1 - l) = of_int n * (u + l)" by (simp add: algebra_simps)
  have "10 * (1 / 10) \<le> of_int n * (u + l)" using n assms by (intro mult_mono) auto
  then have d: "1 \<le> of_int n * (1 + u) - of_int n * (1 - l)" using m by linarith
  have nn: "0 \<le> of_int n * (1 - l)" "0 \<le> of_int n * (1 + u)" using n assms by auto
  have "of_int \<lfloor>of_int n * (1 - l) + 1 / 2\<rfloor> \<le> of_int n * (1 - l) + 1 / 2" by (rule of_int_floor_le)
  then have "of_int (\<lfloor>of_int n * (1 - l) + 1 / 2\<rfloor> + 1) \<le> of_int n * (1 + u) + 1 / 2"
    using d unfolding of_int_add of_int_1 by linarith
  then have "\<lfloor>of_int n * (1 - l) + 1 / 2\<rfloor> + 1 \<le> \<lfloor>of_int n * (1 + u) + 1 / 2\<rfloor>" by (simp only: le_floor_iff)
  then show "round_half_up (of_int n * (1 - l)) < round_half_up (of_int n * (1 + u))"
    using nn by (simp add: round_half_up_def)
  have "10 * (64 / 100) \<le> of_int n * (1 - l)" using n assms by (intro mult_mono) auto
  then have "1 \<le> \<lfloor>of_int n * (1 - l) + 1 / 2\<rfloor>" by (simp add: le_floor_iff)
  then show "0 < round_half_up (of_int n * (1 - l))" using nn by (simp add: round_half_up_def)
qed

lemma build_session_exact:
  assumes p: "price_ok (ri_previous_close i)" "on_grid (tick_decimals (ri_board i)) (amount (ri_previous_close i))"
    and b: "amount (ri_previous_close i) * 10 ^ (tick_decimals (ri_board i) + 2) < 10 ^ 27"
    and n: "10 \<le> amount (ri_previous_close i) * 10 ^ tick_decimals (ri_board i)"
  shows "build_session i =
    (case band_ratios i of
       Inl e \<Rightarrow> Inl e
     | Inr (Some u, Some l) \<Rightarrow> Inr (session_of i (Some (band_limit i (1 + u))) (Some (band_limit i (1 - l))))
     | Inr _ \<Rightarrow> Inr (session_of i None None))"
proof (cases "band_ratios i")
  case (Inr r)
  show ?thesis
  proof (rule band_ratios_cases [OF Inr])
    assume r: "r = (None, None)"
    have "mk_session (session_of i None None) = Inr (session_of i None None)"
      by (rule session_of_ok) (use p(1) band_ratios_etf [OF Inr] in auto)
    then show ?thesis by (simp add: build_session_def Inr r)
  next
    fix u l
    assume r: "r = (Some u, Some l)" and ul: "5 / 100 \<le> u" "u \<le> 44 / 100" "5 / 100 \<le> l" "l \<le> 36 / 100"
      and d: "dec_add 1 u = 1 + u" "dec_sub 1 l = 1 - l" "on_grid 2 (1 + u)" "on_grid 2 (1 - l)"
    let ?k = "tick_decimals (ri_board i)"
    obtain m where m: "amount (ri_previous_close i) = of_int m / 10 ^ ?k" "amount (ri_previous_close i) * 10 ^ ?k = of_int m"
      using p(2) by (rule ticks_of)
    have m10: "10 \<le> m" using n by (simp add: m(2))
    have lt: "round_half_up (of_int m * (1 - l)) < round_half_up (of_int m * (1 + u))" "0 < round_half_up (of_int m * (1 - l))"
      by (rule band_strict; use m10 ul in simp)+
    have t: "ticked ?k (amount (ri_previous_close i) * f) = of_int (round_half_up (of_int m * f)) / 10 ^ ?k" for f
    proof -
      have "amount (ri_previous_close i) * f * 10 ^ ?k = (amount (ri_previous_close i) * 10 ^ ?k) * f" by (simp only: mult_ac)
      then show ?thesis by (simp only: ticked_def m(2))
    qed
    have pos: "\<not> of_int (round_half_up (of_int m * (1 + u))) / 10 ^ ?k \<le> (0 :: rat)"
      "\<not> of_int (round_half_up (of_int m * (1 - l))) / 10 ^ ?k \<le> (0 :: rat)"
      using lt by (simp_all add: not_le)
    have up: "limit_price i (1 + u) = Inr (band_limit i (1 + u))"
      using limit_price_exact [OF p b d(3)] ul pos(1) by (simp add: t band_limit_def Let_def)
    have lo: "limit_price i (1 - l) = Inr (band_limit i (1 - l))"
      using limit_price_exact [OF p b d(4)] ul pos(2) by (simp add: t band_limit_def Let_def)
    have "mk_session (session_of i (Some (band_limit i (1 + u))) (Some (band_limit i (1 - l)))) =
        Inr (session_of i (Some (band_limit i (1 + u))) (Some (band_limit i (1 - l))))"
    proof (rule session_of_ok [OF p(1) band_ratios_etf [OF Inr]], assumption)
      show "Some (band_limit i (1 + u)) = None \<and> Some (band_limit i (1 - l)) = None \<or>
        (\<exists>x y. Some (band_limit i (1 + u)) = Some x \<and> Some (band_limit i (1 - l)) = Some y \<and> amount y < amount x \<and>
          currency x = currency (ri_previous_close i) \<and> currency y = currency (ri_previous_close i))"
        using lt by (simp add: band_limit_def t divide_strict_right_mono)
    qed
    then show ?thesis by (simp add: build_session_def Inr r d up lo)
  qed
qed (simp add: build_session_def)

section \<open>Properties\<close>

text \<open>The rule book derives the session exactly: from a previous close of at least ten ticks it returns
  the declaration rule of the board and, where a ratio applies, the limits previous close times one plus or
  minus the ratio rounded half up to the tick (without rounding error of the decimal context); without a ratio
  (the first sessions after a listing) it returns a session without limits, and only an ST exchange-traded
  fund raises.\<close>

theorem rule_book_session_exact:
  assumes "price_ok (ri_previous_close i)" "on_grid (tick_decimals (ri_board i)) (amount (ri_previous_close i))"
    and "amount (ri_previous_close i) * 10 ^ (tick_decimals (ri_board i) + 2) < 10 ^ 27"
    and "10 \<le> amount (ri_previous_close i) * 10 ^ tick_decimals (ri_board i)"
  shows "build_session i =
    (case band_ratios i of
       Inl e \<Rightarrow> Inl e
     | Inr (Some u, Some l) \<Rightarrow> Inr (session_of i (Some (band_limit i (1 + u))) (Some (band_limit i (1 - l))))
     | Inr _ \<Rightarrow> Inr (session_of i None None))"
  using assms by (rule build_session_exact)

definition sample_input :: "board \<Rightarrow> bool \<Rightarrow> rat \<Rightarrow> rule_input" where
  "sample_input b st p = \<lparr>ri_instrument_id = ''600000.SH'', ri_session_date = ymd 2024 5 6, ri_board = b, ri_status = TRADING,
     ri_previous_close = \<lparr>amount = p, currency = ''CNY''\<rparr>, ri_listing_date = ymd 2001 1 2,
     ri_listing_session_number = 900, ri_is_st = st\<rparr>"

lemma rule_book_session_example:
  "build_session (sample_input MAIN False (1037 / 100)) = Inr (session_of (sample_input MAIN False (1037 / 100))
     (Some \<lparr>amount = 1141 / 100, currency = ''CNY''\<rparr>) (Some \<lparr>amount = 933 / 100, currency = ''CNY''\<rparr>))"
proof -
  let ?i = "sample_input MAIN False (1037 / 100)"
  have r: "band_ratios ?i = Inr (Some (10 / 100), Some (10 / 100))" by code_simp
  have "price_ok (ri_previous_close ?i)" "on_grid (tick_decimals (ri_board ?i)) (amount (ri_previous_close ?i))"
    "amount (ri_previous_close ?i) * 10 ^ (tick_decimals (ri_board ?i) + 2) < 10 ^ 27"
    "10 \<le> amount (ri_previous_close ?i) * 10 ^ tick_decimals (ri_board ?i)"
    by code_simp+
  note rule_book_session_exact [OF this]
  moreover have "band_limit ?i (1 + 10 / 100) = \<lparr>amount = 1141 / 100, currency = ''CNY''\<rparr>"
    "band_limit ?i (1 - 10 / 100) = \<lparr>amount = 933 / 100, currency = ''CNY''\<rparr>"
    by code_simp+
  ultimately show ?thesis unfolding r by (simp only: sum.case prod.case option.case)
qed

text \<open>The limits of a session bracket the previous close: every session the rule book builds passes the
  session checks, its upper limit is at least the previous close, its lower limit at most, and each limit
  differs from the exact ratio times the previous close by at most half a tick.\<close>

theorem price_band_brackets_close:
  assumes p: "price_ok (ri_previous_close i)" "on_grid (tick_decimals (ri_board i)) (amount (ri_previous_close i))"
    and b: "amount (ri_previous_close i) * 10 ^ (tick_decimals (ri_board i) + 2) < 10 ^ 27"
    and s: "build_session i = Inr s"
  shows "session_ok s \<and>
    none_or (\<lambda>x. amount (ri_previous_close i) \<le> amount x \<and>
      opt_any (\<lambda>u. \<bar>amount x - amount (ri_previous_close i) * (1 + u)\<bar> \<le> s_price_tick s / 2)
        (case band_ratios i of Inr (u, _) \<Rightarrow> u | Inl _ \<Rightarrow> None)) (s_upper_limit s) \<and>
    none_or (\<lambda>x. amount x \<le> amount (ri_previous_close i) \<and>
      opt_any (\<lambda>l. \<bar>amount x - amount (ri_previous_close i) * (1 - l)\<bar> \<le> s_price_tick s / 2)
        (case band_ratios i of Inr (_, l) \<Rightarrow> l | Inl _ \<Rightarrow> None)) (s_lower_limit s)"
proof -
  from s obtain r where r: "band_ratios i = Inr r" by (auto simp: build_session_def result_simps)
  have p0: "0 < amount (ri_previous_close i)" using p(1) by (simp add: price_ok_def)
  show ?thesis
  proof (rule band_ratios_cases [OF r])
    assume "r = (None, None)"
    with s r have "mk_session (session_of i None None) = Inr s" by (simp add: build_session_def)
    from session_of_Inr [OF this] show ?thesis by (simp add: session_of_def)
  next
    fix u l
    assume u: "r = (Some u, Some l)" and ul: "5 / 100 \<le> u" "u \<le> 44 / 100" "5 / 100 \<le> l" "l \<le> 36 / 100"
      and d: "dec_add 1 u = 1 + u" "dec_sub 1 l = 1 - l" "on_grid 2 (1 + u)" "on_grid 2 (1 - l)"
    from s r u d obtain x y where x: "limit_price i (1 + u) = Inr x" and y: "limit_price i (1 - l) = Inr y"
      and m: "mk_session (session_of i (Some x) (Some y)) = Inr s"
      unfolding build_session_def by (auto elim!: rbindE)
    have xa: "amount x = ticked (tick_decimals (ri_board i)) (amount (ri_previous_close i) * (1 + u))"
      using x limit_price_exact [OF p b d(3)] ul by (auto simp: Let_def split: if_splits)
    have ya: "amount y = ticked (tick_decimals (ri_board i)) (amount (ri_previous_close i) * (1 - l))"
      using y limit_price_exact [OF p b d(4)] ul by (auto simp: Let_def split: if_splits)
    have "amount (ri_previous_close i) \<le> amount (ri_previous_close i) * (1 + u)"
      "amount (ri_previous_close i) * (1 - l) \<le> amount (ri_previous_close i)"
      using p0 ul by (simp_all add: mult_le_cancel_left1 mult_le_cancel_left2)
    note br = ticked_bounds(1) [OF p(2) this(1), folded xa] ticked_bounds(2) [OF p(2) this(2), folded ya]
    have er: "\<bar>amount x - amount (ri_previous_close i) * (1 + u)\<bar> \<le> 1 / (2 * 10 ^ tick_decimals (ri_board i))"
      "\<bar>amount y - amount (ri_previous_close i) * (1 - l)\<bar> \<le> 1 / (2 * 10 ^ tick_decimals (ri_board i))"
      unfolding xa ya by (rule ticked_error)+
    have half: "s_price_tick (session_of i (Some x) (Some y)) / 2 = 1 / (2 * 10 ^ tick_decimals (ri_board i))"
      by (simp add: session_of_def)
    have lim: "s_upper_limit (session_of i (Some x) (Some y)) = Some x" "s_lower_limit (session_of i (Some x) (Some y)) = Some y"
      by (simp_all add: session_of_def)
    from session_of_Inr [OF m] show ?thesis
      using br er by (simp only: r u lim half none_or.simps opt_any.simps sum.case prod.case simp_thms)
  qed
qed

theorem price_band_brackets_close_witness:
  "\<exists>s. build_session (sample_input STAR False 50) = Inr s \<and> s_upper_limit s = Some \<lparr>amount = 60, currency = ''CNY''\<rparr> \<and>
     session_ok s \<and> none_or (\<lambda>x. 50 \<le> amount x) (s_upper_limit s)"
proof -
  let ?i = "sample_input STAR False 50"
  have "case build_session ?i of Inl _ \<Rightarrow> False | Inr s \<Rightarrow> s_upper_limit s = Some \<lparr>amount = 60, currency = ''CNY''\<rparr>" by code_simp
  then obtain s where s: "build_session ?i = Inr s" "s_upper_limit s = Some \<lparr>amount = 60, currency = ''CNY''\<rparr>"
    by (auto split: sum.splits)
  have "price_ok (ri_previous_close ?i)" "on_grid (tick_decimals (ri_board ?i)) (amount (ri_previous_close ?i))"
    "amount (ri_previous_close ?i) * 10 ^ (tick_decimals (ri_board ?i) + 2) < 10 ^ 27"
    by code_simp+
  from price_band_brackets_close [OF this s(1)] s show ?thesis by simp
qed

text \<open>A penny stock has no session: at a ratio of 5 per cent (an ST stock) and a previous close below ten
  ticks, both limits round to the previous close itself and the rule book raises ``lower_limit must be below
  upper_limit'' instead of returning a session.\<close>

theorem penny_stock_has_no_session:
  assumes p: "price_ok (ri_previous_close i)" "on_grid (tick_decimals (ri_board i)) (amount (ri_previous_close i))"
    and n: "amount (ri_previous_close i) * 10 ^ tick_decimals (ri_board i) < 10"
    and r: "band_ratios i = Inr (Some (5 / 100), Some (5 / 100))"
  shows "build_session i = Inl (DomainValidationError ''lower_limit must be below upper_limit'')"
proof -
  let ?k = "tick_decimals (ri_board i)" and ?p = "amount (ri_previous_close i)"
  obtain m where m: "?p = of_int m / 10 ^ ?k" "?p * 10 ^ ?k = of_int m" using p(2) by (rule ticks_of)
  have p0: "0 < ?p" using p(1) by (simp add: price_ok_def)
  have m0: "0 < m" "m < 10" using p0 n m(2) by (simp_all add: m(1) zero_less_divide_iff)
  then have mr: "0 < (of_int m :: rat)" "of_int m \<le> (9 :: rat)" by simp_all
  have f: "round_half_up (of_int m * f) = m" if "f \<in> {105 / 100, 95 / 100}" for f
  proof -
    have "\<lfloor>of_int m * f + 1 / 2\<rfloor> = m" proof (rule floor_unique)
      have "of_int m \<le> of_int m * (105 / 100) + (1 / 2 :: rat)" "of_int m * (105 / 100) + 1 / 2 < of_int m + (1 :: rat)"
        "of_int m \<le> of_int m * (95 / 100) + (1 / 2 :: rat)" "of_int m * (95 / 100) + 1 / 2 < of_int m + (1 :: rat)"
        using mr by linarith+
      then show "of_int m \<le> of_int m * f + 1 / 2" "of_int m * f + 1 / 2 < of_int m + 1"
        using that by (elim insertE emptyE; simp only:)+
    qed
    moreover have "0 \<le> of_int m * f" using that m0 by auto
    ultimately show ?thesis by (simp add: round_half_up_def)
  qed
  have b: "?p * 10 ^ (?k + 2) < 10 ^ 27" using n by (simp add: power_add)
  have t: "ticked ?k (?p * f) = ?p" if "f \<in> {105 / 100, 95 / 100}" for f
  proof -
    have "?p * f * 10 ^ ?k = (?p * 10 ^ ?k) * f" by (simp only: mult_ac)
    then have "?p * f * 10 ^ ?k = of_int m * f" by (simp only: m(2))
    then have "ticked ?k (?p * f) = of_int m / 10 ^ ?k" by (simp only: ticked_def f [OF that])
    then show ?thesis by (simp only: m(1))
  qed
  have g: "on_grid 2 (105 / 100)" "on_grid 2 (95 / 100)" by code_simp+
  have l: "limit_price i f = Inr \<lparr>amount = ?p, currency = currency (ri_previous_close i)\<rparr>" if "f \<in> {105 / 100, 95 / 100}" for f
  proof -
    have "on_grid 2 f" using that g by (elim insertE emptyE; simp only:)
    moreover have "0 < f" "f \<le> 2" using that by auto
    ultimately have "on_grid 2 f" "0 < f" "f \<le> 2" by simp_all
    from limit_price_exact [OF p b this] show ?thesis using t [OF that] p0 by (simp add: Let_def)
  qed
  have "dec_add 1 (5 / 100) = 105 / 100" "dec_sub 1 (5 / 100) = 95 / 100" by code_simp+
  then show ?thesis
    by (simp add: build_session_def r l mk_session_def construct_def session_checks_def session_of_def checks.simps(2))
qed

theorem penny_stock_has_no_session_witness:
  "build_session (sample_input MAIN True (9 / 100)) = Inl (DomainValidationError ''lower_limit must be below upper_limit'')"
proof (rule penny_stock_has_no_session)
  show "price_ok (ri_previous_close (sample_input MAIN True (9 / 100)))"
    "on_grid (tick_decimals (ri_board (sample_input MAIN True (9 / 100)))) (amount (ri_previous_close (sample_input MAIN True (9 / 100))))"
    "amount (ri_previous_close (sample_input MAIN True (9 / 100))) * 10 ^ tick_decimals (ri_board (sample_input MAIN True (9 / 100))) < 10"
    "band_ratios (sample_input MAIN True (9 / 100)) = Inr (Some (5 / 100), Some (5 / 100))"
    by code_simp+
qed

end
