(* ===== verification/Fees.thy ===== *)
theory Fees
  imports Ledger
begin

text \<open>
  Transaction fees (\<open>ashare_lab/domain/execution/fees.py\<close>): a broker's commission terms plus the
  versioned statutory schedule of stamp tax and transfer fees.  The locale \<open>fee_quote\<close> is the
  interface \<open>FeeQuoteProvider\<close> that sizing and execution use; the calculator provides it.
\<close>

section \<open>The fee policy\<close>

datatype ashare_exchange = SHANGHAI | SHENZHEN | BEIJING

record fee_policy =
  fp_exchange :: ashare_exchange
  fp_commission_rate :: rat
  fp_minimum_commission :: money

definition fee_policy_checks :: "fee_policy \<Rightarrow> (bool \<times> py_error) list" where
  "fee_policy_checks p =
    [(fp_commission_rate p < 0, DomainValidationError ''commission_rate must be a finite non-negative Decimal''),
     (amount (fp_minimum_commission p) < 0, DomainValidationError ''minimum_commission cannot be negative'')]"

definition mk_fee_policy :: "fee_policy \<Rightarrow> fee_policy result" where
  "mk_fee_policy p = construct (\<lambda>p. checks (fee_policy_checks p)) p"

definition sh_sz_transfer_fee_start :: date where
  "sh_sz_transfer_fee_start = ymd 2015 8 1"

definition unified_transfer_fee_start :: date where
  "unified_transfer_fee_start = ymd 2022 4 29"

definition stamp_tax_reduction_start :: date where
  "stamp_tax_reduction_start = ymd 2023 8 28"

definition stamp_tax_rate :: "order_side \<Rightarrow> date \<Rightarrow> rat" where
  "stamp_tax_rate side d =
     (if side = BUY then 0 else if d \<ge> stamp_tax_reduction_start then 5 / 10000 else 1 / 1000)"

definition transfer_fee_rate :: "ashare_exchange \<Rightarrow> date \<Rightarrow> rat result" where
  "transfer_fee_rate exchange d =
     (if d \<ge> unified_transfer_fee_start then Inr (1 / 100000)
      else if exchange = BEIJING
        then Inl (UnsupportedFeePolicyError ''Beijing Stock Exchange transfer fees before 2022-04-29 are not modeled by policy cn.a_share.cash_equity_fees.2015_present.v1'')
      else if d < sh_sz_transfer_fee_start
        then Inl (UnsupportedFeePolicyError ''Shanghai/Shenzhen transfer fees before 2015-08-01 are not modeled by policy cn.a_share.cash_equity_fees.2015_present.v1'')
      else Inr (2 / 100000))"

section \<open>The calculator\<close>

definition cent_money :: "rat \<Rightarrow> string \<Rightarrow> money result" where
  "cent_money x c = rbind (quantize ROUND_HALF_UP 2 x) (\<lambda>y. mk_money y c)"

definition validate_fee_request :: "fee_policy \<Rightarrow> price \<Rightarrow> int \<Rightarrow> unit result" where
  "validate_fee_request policy price q = checks
     [(q \<le> 0, DomainValidationError ''quantity must be a positive Quantity''),
      (currency price \<noteq> currency (fp_minimum_commission policy), CurrencyMismatchError)]"

definition calculate_fees :: "fee_policy \<Rightarrow> order_side \<Rightarrow> price \<Rightarrow> int \<Rightarrow> date \<Rightarrow> fee_breakdown result" where
  "calculate_fees policy side price q d =
     rbind (validate_fee_request policy price q) (\<lambda>_.
     let gross = dec_mul (amount price) (of_int q);
         raw_commission = dec_mul gross (fp_commission_rate policy)
     in rbind (cent_money (max raw_commission (amount (fp_minimum_commission policy))) (currency price)) (\<lambda>commission.
     rbind (cent_money (dec_mul gross (stamp_tax_rate side d)) (currency price)) (\<lambda>stamp_tax.
     rbind (transfer_fee_rate (fp_exchange policy) d) (\<lambda>rate.
     rbind (cent_money (dec_mul gross rate) (currency price)) (\<lambda>transfer_fee.
     rbind (cent_money 0 (currency price)) (\<lambda>other.
       mk_fee_breakdown \<lparr>fb_commission = commission, fb_stamp_tax = stamp_tax,
         fb_transfer_fee = transfer_fee, fb_other = other\<rparr>))))))"

section \<open>The interface of a fee provider\<close>

text \<open>
  What the clients of \<open>FeeQuoteProvider\<close> rely on: a quote consists of non-negative components in
  the currency of the price, and is given for a positive quantity only.
\<close>

locale fee_quote =
  fixes quote :: "order_side \<Rightarrow> price \<Rightarrow> int \<Rightarrow> date \<Rightarrow> fee_breakdown result"
  assumes quote_ok: "quote side p q d = Inr f \<Longrightarrow> fees_ok f \<and> fee_currency f = currency p \<and> 0 < q"
begin

lemma quote_total:
  assumes "quote side p q d = Inr f"
  obtains m where "fee_total f = Inr m" "currency m = currency p" "0 \<le> amount m" "currency_ok (currency p)"
proof -
  from quote_ok [OF assms] have f: "fees_ok f" "fee_currency f = currency p" by simp_all
  then have nn: "0 \<le> amount (fb_commission f)" "0 \<le> amount (fb_stamp_tax f)" "0 \<le> amount (fb_transfer_fee f)"
    "0 \<le> amount (fb_other f)" "currency_ok (currency p)"
    by (simp_all add: fees_ok_iff fee_currency_def)
  then have "0 \<le> ctx_sum (amount (fb_commission f)) [amount (fb_stamp_tax f), amount (fb_transfer_fee f), amount (fb_other f)]"
    by simp
  then show thesis using that fee_total_eq [OF f(1)] f(2) nn(5) by (auto simp: fee_currency_def)
qed

lemma quoted_fill_ok:
  assumes "quote side p q d = Inr f" "price_ok p"
  shows "fill_ok \<lparr>f_fill_id = i, f_order_id = oid, f_instrument_id = ins, f_side = side, f_quantity = q, f_price = p,
    f_filled_at = t, f_fees = f\<rparr>"
  using quote_ok [OF assms(1)] assms(2) by (simp add: fill_ok_iff fee_currency_def)

end

lemma cent_money_Inr: "cent_money x c = Inr m \<Longrightarrow> currency_ok c \<and> currency m = c \<and> (0 \<le> x \<longrightarrow> 0 \<le> amount m)"
  by (auto simp: cent_money_def mk_money_Inr elim!: rbindE dest: quantize_nonneg)

lemma calculate_fees_ok:
  assumes "calculate_fees policy side p q d = Inr f"
  shows "fees_ok f \<and> fee_currency f = currency p \<and> 0 < q"
proof -
  from assms obtain c s t z where "validate_fee_request policy p q = Inr ()"
    "currency c = currency p" "currency s = currency p" "currency t = currency p" "currency z = currency p"
    "currency_ok (currency p)"
    "mk_fee_breakdown \<lparr>fb_commission = c, fb_stamp_tax = s, fb_transfer_fee = t, fb_other = z\<rparr> = Inr f"
    unfolding calculate_fees_def Let_def by (auto elim!: rbindE dest!: cent_money_Inr)
  then show ?thesis
    by (auto simp: mk_fee_breakdown_def construct_Inr fees_ok_def fee_currency_def validate_fee_request_def checks_Inr)
qed

interpretation calculator: fee_quote "calculate_fees policy" for policy
  by unfold_locales (rule calculate_fees_ok)

section \<open>Exact components\<close>

definition cents :: "rat \<Rightarrow> rat" where
  "cents x = of_int (round_half_up (x * 100)) / 100"

lemma cents_error: "\<bar>cents x - x\<bar> \<le> 1 / 200"
proof -
  have "cents x - x = (of_int (round_half_up (x * 100)) - x * 100) / 100" by (simp add: cents_def diff_divide_distrib)
  then have "\<bar>cents x - x\<bar> = \<bar>of_int (round_half_up (x * 100)) - x * 100\<bar> / 100" by (simp only: abs_divide abs_numeral)
  also have "\<dots> \<le> (1 / 2) / 100" using round_half_up_error [of "x * 100"] by (intro divide_right_mono) auto
  finally show ?thesis by simp
qed

lemma cents_nonneg: "0 \<le> x \<Longrightarrow> 0 \<le> cents x"
  by (simp add: cents_def round_half_up_nonneg)

lemma quantize_cents:
  assumes "\<bar>x\<bar> * 10 ^ 2 < 10 ^ 28 - 1"
  shows "quantize ROUND_HALF_UP 2 x = Inr (cents x)"
proof -
  obtain y where "quantize ROUND_HALF_UP 2 x = Inr y" using quantize_ok [OF assms] by (auto simp: is_ok_iff)
  then show ?thesis by (auto simp: quantize_def Let_def cents_def split: if_splits)
qed

lemma rate_grids:
  "on_grid 5 (stamp_tax_rate side d)" "transfer_fee_rate ex d = Inr r \<Longrightarrow> on_grid 5 r"
  "0 \<le> stamp_tax_rate side d" "stamp_tax_rate side d \<le> 1" "transfer_fee_rate ex d = Inr r \<Longrightarrow> 0 \<le> r \<and> r \<le> 1"
proof -
  show "on_grid 5 (stamp_tax_rate side d)" "0 \<le> stamp_tax_rate side d" "stamp_tax_rate side d \<le> 1"
    by (simp_all add: stamp_tax_rate_def on_grid_def)
  assume "transfer_fee_rate ex d = Inr r"
  then have r: "r = 1 / 100000 \<or> r = 2 / 100000"
    unfolding transfer_fee_rate_def by (metis sum.inject(2) sum.distinct(1))
  moreover have "on_grid 5 (1 / 100000)" "on_grid 5 (2 / 100000)" by (simp_all add: on_grid_def)
  ultimately show "on_grid 5 r" by (elim disjE) (simp_all only:)
  show "0 \<le> r \<and> r \<le> 1" using r by (elim disjE) linarith+
qed

lemma ctx_rate:
  assumes "on_grid k g" "0 \<le> g" "on_grid j r" "0 \<le> r" "r \<le> 1" "g * 10 ^ (k + j) < 10 ^ 28"
  shows "ctx (g * r) = g * r"
proof -
  have "g * r * 10 ^ (k + j) \<le> g * 10 ^ (k + j)"
    using assms by (intro mult_right_mono) (auto simp: mult_left_le)
  then have "g * r * 10 ^ (k + j) < 10 ^ 28" using assms(6) by (rule le_less_trans)
  then show ?thesis using assms by (intro ctx_on_grid [of "k + j"]) (auto simp: on_grid_mult)
qed

lemma calculate_fees_exact:
  assumes p: "price_ok price" "on_grid k (amount price)" "0 < q" "currency price = currency (fp_minimum_commission policy)"
    and r: "on_grid j (fp_commission_rate policy)" "0 \<le> fp_commission_rate policy" "fp_commission_rate policy \<le> 1"
      "0 \<le> amount (fp_minimum_commission policy)" "amount (fp_minimum_commission policy) * 10 ^ 2 < 10 ^ 27"
    and b: "amount price * of_int q * 10 ^ (k + j + 5) < 10 ^ 25"
  shows "calculate_fees policy side price q d =
    (case transfer_fee_rate (fp_exchange policy) d of
       Inl e \<Rightarrow> Inl e
     | Inr r \<Rightarrow>
         (let gross = amount price * of_int q; money = (\<lambda>x. \<lparr>amount = cents x, currency = currency price\<rparr>) in
          Inr \<lparr>fb_commission = money (max (gross * fp_commission_rate policy) (amount (fp_minimum_commission policy))),
               fb_stamp_tax = money (gross * stamp_tax_rate side d), fb_transfer_fee = money (gross * r),
               fb_other = money 0\<rparr>))"
proof -
  define g where "g = amount price * of_int q"
  have g: "on_grid k g" "0 < g" using p by (simp_all add: g_def on_grid_mult_int price_ok_def)
  have cur: "currency_ok (currency price)" using p(1) by (simp add: price_ok_def money_ok_def)
  have le: "g * 10 ^ i < 10 ^ 25" if "i \<le> k + j + 5" for i
  proof -
    have "(10::rat) ^ i \<le> 10 ^ (k + j + 5)" using that by (intro power_increasing) auto
    then have "g * 10 ^ i \<le> g * 10 ^ (k + j + 5)" using g by (intro mult_left_mono) auto
    then show ?thesis using b by (simp add: g_def)
  qed
  have big: "x < 10 ^ 25 \<Longrightarrow> x < (10 ^ 28 :: rat)" for x by simp
  have e1: "ctx (amount price * of_int q) = g"
    using ctx_on_grid [OF g(1)] big [OF le [of k]] g by (simp add: g_def)
  have e2: "ctx (g * fp_commission_rate policy) = g * fp_commission_rate policy"
    using ctx_rate [OF g(1) _ r(1-3)] big [OF le [of "k + j"]] g by simp
  have e3: "ctx (g * stamp_tax_rate side d) = g * stamp_tax_rate side d"
    using ctx_rate [OF g(1) _ rate_grids(1,3,4)] big [OF le [of "k + 5"]] g by simp
  have cent: "cent_money x (currency price) = Inr \<lparr>amount = cents x, currency = currency price\<rparr>" if "0 \<le> x" "x < 10 ^ 25" for x
    using quantize_cents [of x] that cur by (simp add: cent_money_def)
  have g25: "g < 10 ^ 25" using le [of 0] by simp
  have part: "0 \<le> g * y \<and> g * y < 10 ^ 25" if "0 \<le> y" "y \<le> 1" for y
  proof -
    have "g * y \<le> g" using that(2) g by (intro mult_left_le) auto
    then have "g * y < 10 ^ 25" using g25 by (rule le_less_trans)
    then show ?thesis using that(1) g by simp
  qed
  have comm: "0 \<le> max (g * fp_commission_rate policy) (amount (fp_minimum_commission policy))"
    "max (g * fp_commission_rate policy) (amount (fp_minimum_commission policy)) < 10 ^ 25"
    using part [OF r(2,3)] r(4,5) by simp_all
  have valid: "validate_fee_request policy price q = Inr ()" using p(3,4) by (simp add: validate_fee_request_def checks_Inr)
  show ?thesis
  proof (cases "transfer_fee_rate (fp_exchange policy) d")
    case (Inl e)
    then show ?thesis
      using cent [OF comm] cent [of "g * stamp_tax_rate side d"] part [OF rate_grids(3,4)]
      by (simp add: calculate_fees_def valid Let_def dec_mul_def e1 e2 e3)
  next
    case (Inr r)
    note rr = rate_grids(2,5) [OF Inr]
    have e4: "ctx (g * r) = g * r" using ctx_rate [OF g(1) _ rr(1)] rr(2) big [OF le [of "k + 5"]] g by simp
    have "0 \<le> cents (max (g * fp_commission_rate policy) (amount (fp_minimum_commission policy)))"
      "0 \<le> cents (g * stamp_tax_rate side d)" "0 \<le> cents (g * r)" "0 \<le> cents 0"
      using comm(1) part [OF rate_grids(3,4)] part rr(2) by (auto intro!: cents_nonneg)
    then have "mk_fee_breakdown \<lparr>fb_commission = \<lparr>amount = cents (max (g * fp_commission_rate policy)
          (amount (fp_minimum_commission policy))), currency = currency price\<rparr>,
        fb_stamp_tax = \<lparr>amount = cents (g * stamp_tax_rate side d), currency = currency price\<rparr>,
        fb_transfer_fee = \<lparr>amount = cents (g * r), currency = currency price\<rparr>,
        fb_other = \<lparr>amount = cents 0, currency = currency price\<rparr>\<rparr> =
      Inr \<lparr>fb_commission = \<lparr>amount = cents (max (g * fp_commission_rate policy)
          (amount (fp_minimum_commission policy))), currency = currency price\<rparr>,
        fb_stamp_tax = \<lparr>amount = cents (g * stamp_tax_rate side d), currency = currency price\<rparr>,
        fb_transfer_fee = \<lparr>amount = cents (g * r), currency = currency price\<rparr>,
        fb_other = \<lparr>amount = cents 0, currency = currency price\<rparr>\<rparr>"
      by (simp add: mk_fee_breakdown_def construct_def fee_breakdown_checks_def fee_items_def checks.simps not_less)
    moreover have "ctx g = g" using e1 by (simp add: g_def)
    ultimately show ?thesis
      using Inr cent [OF comm] cent [of "g * stamp_tax_rate side d"] part [OF rate_grids(3,4)] cent [of "g * r"] part rr(2) cent [of 0]
      by (simp add: calculate_fees_def valid Let_def dec_mul_def e2 e3 e4 flip: g_def)
  qed
qed

lemma cents_floor: "0 \<le> x \<Longrightarrow> cents x = of_int \<lfloor>x * 100 + 1 / 2\<rfloor> / 100"
  by (simp add: cents_def round_half_up_def)

text \<open>C33: the fees of a fill are those of the published schedule, each component rounded on its own to
  the cent, half up: the broker's commission is the commission rate times the gross amount but at
  least the minimum, stamp tax is due on sales only, at 0.1 per cent before 28 August 2023 and 0.05
  per cent from then on, and the transfer fee is 0.001 per cent from 29 April 2022 and 0.002 per
  cent before; before that day Beijing, and before 1 August 2015 every exchange, has no published
  rate and the calculation raises instead of guessing.  Prices of at most k decimals and a commission
  rate of at most j decimals, with amounts inside the decimal context.\<close>

theorem fees_follow_schedule:
  assumes p: "price_ok price" "on_grid k (amount price)" "0 < q" "currency price = currency (fp_minimum_commission policy)"
    and r: "on_grid j (fp_commission_rate policy)" "0 \<le> fp_commission_rate policy" "fp_commission_rate policy \<le> 1"
      "0 \<le> amount (fp_minimum_commission policy)" "amount (fp_minimum_commission policy) * 10 ^ 2 < 10 ^ 27"
    and b: "amount price * of_int q * 10 ^ (k + j + 5) < 10 ^ 25"
  shows "calculate_fees policy side price q d =
    (let gross = amount price * of_int q;
         money = (\<lambda>x. \<lparr>amount = of_int \<lfloor>x * 100 + 1 / 2\<rfloor> / 100, currency = currency price\<rparr>)
     in if d < ymd 2022 4 29 \<and> fp_exchange policy = BEIJING
        then Inl (UnsupportedFeePolicyError ''Beijing Stock Exchange transfer fees before 2022-04-29 are not modeled by policy cn.a_share.cash_equity_fees.2015_present.v1'')
        else if d < ymd 2022 4 29 \<and> d < ymd 2015 8 1
        then Inl (UnsupportedFeePolicyError ''Shanghai/Shenzhen transfer fees before 2015-08-01 are not modeled by policy cn.a_share.cash_equity_fees.2015_present.v1'')
        else Inr \<lparr>fb_commission = money (max (gross * fp_commission_rate policy) (amount (fp_minimum_commission policy))),
             fb_stamp_tax = money (if side = SELL then gross * (if d < ymd 2023 8 28 then 1 / 1000 else 1 / 2000) else 0),
             fb_transfer_fee = money (gross * (if d < ymd 2022 4 29 then 2 / 100000 else 1 / 100000)),
             fb_other = money 0\<rparr>)"
proof -
  have g: "0 \<le> amount price * of_int q" using p(1,3) by (simp add: price_ok_def)
  have "0 \<le> max (amount price * of_int q * fp_commission_rate policy) (amount (fp_minimum_commission policy))"
    using r(4) by simp
  moreover have tax: "amount price * of_int q * stamp_tax_rate side d =
      (if side = SELL then amount price * of_int q * (if d < ymd 2023 8 28 then 1 / 1000 else 1 / 2000) else 0)"
    by (cases side) (simp_all add: stamp_tax_rate_def stamp_tax_reduction_start_def)
  moreover have "0 \<le> amount price * of_int q * stamp_tax_rate side d" "0 \<le> amount price * of_int q * (2 / 100000)"
    "0 \<le> amount price * of_int q * (1 / 100000)"
    using g by (simp_all add: stamp_tax_rate_def)
  ultimately show ?thesis
    unfolding calculate_fees_exact [OF assms]
    by (simp add: transfer_fee_rate_def unified_transfer_fee_start_def sh_sz_transfer_fee_start_def Let_def cents_floor not_le)
qed

definition sample_policy :: fee_policy where
  "sample_policy = \<lparr>fp_exchange = SHENZHEN, fp_commission_rate = 3 / 10000,
     fp_minimum_commission = \<lparr>amount = 5, currency = ''CNY''\<rparr>\<rparr>"

theorem fees_follow_schedule_witness:
  "calculate_fees sample_policy SELL (cny (1234 / 100)) 10000 (ymd 2024 1 2) =
     Inr \<lparr>fb_commission = cny (3702 / 100), fb_stamp_tax = cny (617 / 10), fb_transfer_fee = cny (123 / 100), fb_other = cny 0\<rparr>"
proof -
  have p: "price_ok (cny (1234 / 100))" "on_grid 2 (amount (cny (1234 / 100)))" "0 < (10000 :: int)"
    "currency (cny (1234 / 100)) = currency (fp_minimum_commission sample_policy)"
    "on_grid 4 (fp_commission_rate sample_policy)" "0 \<le> fp_commission_rate sample_policy" "fp_commission_rate sample_policy \<le> 1"
    "0 \<le> amount (fp_minimum_commission sample_policy)" "amount (fp_minimum_commission sample_policy) * 10 ^ 2 < 10 ^ 27"
    "amount (cny (1234 / 100)) * of_int 10000 * 10 ^ (2 + 4 + 5) < 10 ^ 25"
    by code_simp+
  show ?thesis unfolding fees_follow_schedule [OF p] by code_simp
qed

end
