(* ===== verification/Sizing.thy ===== *)
theory Sizing
  imports Fees Rules
begin

text \<open>
  Sizing of a buy before the opening, \<open>ashare_lab/application/pre_open_sizing.py\<close>: the greatest
  valid declaration whose notional and fees at the upper price limit fit the allotted share of
  the cash.  The loop walks down the valid declarations and asks the fee provider at each; it is
  proved inside the interface \<open>fee_quote\<close> of the provider and instantiated with the calculator.
\<close>

record pre_open_sizing =
  z_affordability_price :: price
  z_quantity :: int

text \<open>One affordability test: the notional plus the quoted fees against the budget.\<close>

definition affordable ::
  "(order_side \<Rightarrow> price \<Rightarrow> int \<Rightarrow> date \<Rightarrow> fee_breakdown result) \<Rightarrow> price \<Rightarrow> date \<Rightarrow> rat \<Rightarrow> int \<Rightarrow> bool result" where
  "affordable quote p d budget shares =
     rbind (mk_quantity shares) (\<lambda>n.
     rbind (quote BUY p n d) (\<lambda>fees.
     rbind (fee_total fees) (\<lambda>total.
       Inr (dec_add (dec_mul (amount p) (of_int shares)) (amount total) \<le> budget))))"

text \<open>The while loop.  Not returning is the value \<open>None\<close>; the theorems below exclude it.\<close>

partial_function (option) sizing_loop ::
  "(order_side \<Rightarrow> price \<Rightarrow> int \<Rightarrow> date \<Rightarrow> fee_breakdown result) \<Rightarrow> instrument_session \<Rightarrow> price \<Rightarrow> date \<Rightarrow> rat \<Rightarrow> int \<Rightarrow>
   int result option" where
  "sizing_loop quote s p d budget shares =
     (if shares \<le> 0 then Some (Inr 0)
      else
        (case affordable quote p d budget shares of
           Inl e \<Rightarrow> Some (Inl e)
         | Inr fits \<Rightarrow>
             if fits then Some (Inr shares)
             else
               (case previous_buy_quantity s shares of
                  Inl e \<Rightarrow> Some (Inl e)
                | Inr n \<Rightarrow> sizing_loop quote s p d budget n)))"

declare sizing_loop.simps [code]

definition size_pre_open_buy ::
  "(order_side \<Rightarrow> price \<Rightarrow> int \<Rightarrow> date \<Rightarrow> fee_breakdown result) \<Rightarrow> money \<Rightarrow> instrument_session \<Rightarrow> rat \<Rightarrow> date \<Rightarrow>
   pre_open_sizing option result option" where
  "size_pre_open_buy quote cash s allocation_ratio d =
     (case s_upper_limit s of
        None \<Rightarrow> Some (Inr None)
      | Some p \<Rightarrow>
          (let budget = dec_mul (amount cash) allocation_ratio in
           case rbind (dec_div budget (amount p)) (\<lambda>x. floor_buy_quantity s (py_int x)) of
             Inl e \<Rightarrow> Some (Inl e)
           | Inr shares \<Rightarrow>
               map_option (\<lambda>r. rbind r (\<lambda>n. Inr (Some \<lparr>z_affordability_price = p, z_quantity = n\<rparr>)))
                 (sizing_loop quote s p d budget shares)))"

section \<open>The loop\<close>

text \<open>
  What the loop returns from a valid declaration (or zero): the greatest declaration that is not
  larger and fits, zero if none fits, or the error of the first failing quote.
\<close>

definition fits :: "(order_side \<Rightarrow> price \<Rightarrow> int \<Rightarrow> date \<Rightarrow> fee_breakdown result) \<Rightarrow> price \<Rightarrow> date \<Rightarrow> rat \<Rightarrow> int \<Rightarrow> bool" where
  "fits quote p d budget n \<longleftrightarrow> affordable quote p d budget n = Inr True"

lemma sizing_loop_spec:
  assumes s: "session_ok s" and n: "shares = 0 \<or> is_valid_buy_quantity s shares"
    and q: "\<And>m. 0 < m \<Longrightarrow> m \<le> shares \<Longrightarrow> is_valid_buy_quantity s m \<Longrightarrow> is_ok (affordable quote p d budget m)"
  shows "\<exists>r. sizing_loop quote s p d budget shares = Some (Inr r) \<and> 0 \<le> r \<and> r \<le> shares \<and>
    (r = 0 \<or> is_valid_buy_quantity s r \<and> fits quote p d budget r) \<and>
    (\<forall>m. is_valid_buy_quantity s m \<and> m \<le> shares \<and> fits quote p d budget m \<longrightarrow> m \<le> r)"
  using n q
proof (induction "nat shares" arbitrary: shares rule: less_induct)
  case less
  note rule = session_ok_rule(1,2) [OF s]
  show ?case
  proof (cases "shares \<le> 0")
    case True
    then have "shares = 0" using less.prems(1) rule by (auto simp: is_valid_buy_quantity_def)
    then show ?thesis using rule by (subst sizing_loop.simps) (auto simp: is_valid_buy_quantity_def)
  next
    case False
    then have v: "is_valid_buy_quantity s shares" using less.prems(1) by simp
    obtain b where b: "affordable quote p d budget shares = Inr b"
      using less.prems(2) [OF _ order_refl v] False by (auto simp: is_ok_iff)
    show ?thesis
    proof (cases b)
      case True
      have "sizing_loop quote s p d budget shares = Some (Inr shares)"
        using False b True by (subst sizing_loop.simps) simp
      then show ?thesis using v False b True by (intro exI [of _ shares]) (auto simp: fits_def)
    next
      case nofit: False
      obtain n where n: "previous_buy_quantity s shares = Inr n"
        using previous_buy_quantity_ok [OF rule(1) v] by blast
      note down = previous_buy_quantity_less [OF rule n]
      have "sizing_loop quote s p d budget shares = sizing_loop quote s p d budget n"
        using False b nofit n by (subst sizing_loop.simps) simp
      moreover have "\<exists>r. sizing_loop quote s p d budget n = Some (Inr r) \<and> 0 \<le> r \<and> r \<le> n \<and>
        (r = 0 \<or> is_valid_buy_quantity s r \<and> fits quote p d budget r) \<and>
        (\<forall>m. is_valid_buy_quantity s m \<and> m \<le> n \<and> fits quote p d budget m \<longrightarrow> m \<le> r)"
        using down False by (intro less.hyps less.prems(2)) auto
      moreover have "m \<le> n" if "is_valid_buy_quantity s m" "m \<le> shares" "fits quote p d budget m" for m
      proof -
        have "m \<noteq> shares" using that(3) b nofit by (auto simp: fits_def)
        then show ?thesis using down(4) that by simp
      qed
      ultimately show ?thesis using down(2) by (metis order.strict_implies_order order.trans)
    qed
  qed
qed

section \<open>Against the interface of the fee provider\<close>

text \<open>Where the provider answers every quantity up to the start of the loop, the loop returns.\<close>

context fee_quote begin

lemma affordable_answers: "0 < m \<Longrightarrow> is_ok (quote BUY p m d) \<Longrightarrow> is_ok (affordable quote p d budget m)"
proof -
  assume m: "0 < m" and "is_ok (quote BUY p m d)"
  then obtain f where f: "quote BUY p m d = Inr f" by (auto simp: is_ok_iff)
  from quote_total [OF this] obtain t where "fee_total f = Inr t" by blast
  with f m show ?thesis by (simp add: affordable_def mk_quantity_def)
qed

lemma loop_returns_greatest:
  assumes "session_ok s" "shares = 0 \<or> is_valid_buy_quantity s shares"
    and "\<And>m. 0 < m \<Longrightarrow> m \<le> shares \<Longrightarrow> is_ok (quote BUY p m d)"
  shows "\<exists>r. sizing_loop quote s p d budget shares = Some (Inr r) \<and> 0 \<le> r \<and> r \<le> shares \<and>
    (r = 0 \<or> is_valid_buy_quantity s r \<and> fits quote p d budget r) \<and>
    (\<forall>m. is_valid_buy_quantity s m \<and> m \<le> shares \<and> fits quote p d budget m \<longrightarrow> m \<le> r)"
  using assms by (intro sizing_loop_spec affordable_answers) auto

end

section \<open>The calculator as provider\<close>

definition buy_fees :: "fee_policy \<Rightarrow> rat \<Rightarrow> rat \<Rightarrow> rat" where
  "buy_fees policy rate gross =
     cents (max (gross * fp_commission_rate policy) (amount (fp_minimum_commission policy))) + cents (gross * rate)"

lemma cents_mono: "0 \<le> x \<Longrightarrow> x \<le> y \<Longrightarrow> cents x \<le> cents y"
  by (simp add: cents_def round_half_up_def divide_right_mono floor_mono)

lemma buy_fees_mono:
  assumes "0 \<le> x" "x \<le> y" "0 \<le> fp_commission_rate policy" "0 \<le> rate"
  shows "buy_fees policy rate x \<le> buy_fees policy rate y"
proof -
  have "x * fp_commission_rate policy \<le> y * fp_commission_rate policy" "x * rate \<le> y * rate"
    using assms by (auto intro: mult_right_mono)
  then show ?thesis
    unfolding buy_fees_def using assms by (intro add_mono cents_mono) (auto simp: le_max_iff_disj)
qed

text \<open>
  The range in which the arithmetic is exact: prices of at most \<open>k\<close> decimals, a commission rate of
  at most \<open>j\<close> decimals, a published transfer rate, and amounts up to 10 to the power \<open>25 - (k + j + 5)\<close>.
\<close>

definition exact_range :: "nat \<Rightarrow> nat \<Rightarrow> fee_policy \<Rightarrow> date \<Rightarrow> rat \<Rightarrow> bool" where
  "exact_range k j policy d rate \<longleftrightarrow>
     2 \<le> k \<and> k \<le> 20 \<and> on_grid j (fp_commission_rate policy) \<and> 0 \<le> fp_commission_rate policy \<and> fp_commission_rate policy \<le> 1 \<and>
     0 \<le> amount (fp_minimum_commission policy) \<and> amount (fp_minimum_commission policy) * 10 ^ k < 10 ^ 25 \<and>
     transfer_fee_rate (fp_exchange policy) d = Inr rate"

lemma on_grid_cents: "on_grid 2 (cents x)"
  by (auto simp: cents_def on_grid_iff)

lemma cents_0 [simp]: "cents 0 = 0"
  using round_half_up_of_int [of 0] by (simp add: cents_def)

lemma quoted_fees_exact:
  assumes e: "exact_range k j policy d rate" and p: "price_ok price" "on_grid k (amount price)"
      "currency price = currency (fp_minimum_commission policy)" and q: "0 < q"
    and b: "amount price * of_int q * 10 ^ (k + j + 5) < 10 ^ 25"
    and f: "f_side fill = BUY" "f_price fill = price" "f_quantity fill = q"
      "calculate_fees policy BUY price q d = Inr (f_fees fill)"
  shows "fill_ok fill" "fill_on_grid k fill" "exact_fees (f_fees fill) = buy_fees policy rate (amount price * of_int q)"
proof -
  let ?g = "amount price * of_int q"
  have k20: "k \<le> 20" using e by (simp add: exact_range_def)
  have e': "2 \<le> k" "on_grid j (fp_commission_rate policy)" "0 \<le> fp_commission_rate policy" "fp_commission_rate policy \<le> 1"
    "0 \<le> amount (fp_minimum_commission policy)" "amount (fp_minimum_commission policy) * 10 ^ k < 10 ^ 25"
    "transfer_fee_rate (fp_exchange policy) d = Inr rate"
    using e by (simp_all add: exact_range_def)
  have k2: "(10::rat) ^ 2 \<le> 10 ^ k" using e'(1) by (intro power_increasing) auto
  have mc: "amount (fp_minimum_commission policy) * 10 ^ 2 < 10 ^ 27"
  proof -
    have "amount (fp_minimum_commission policy) * 10 ^ 2 \<le> amount (fp_minimum_commission policy) * 10 ^ k"
      using e'(5) k2 by (rule mult_left_mono [rotated])
    then show ?thesis using e'(6) by simp
  qed
  have fees: "f_fees fill = \<lparr>fb_commission = \<lparr>amount = cents (max (?g * fp_commission_rate policy) (amount (fp_minimum_commission policy))),
      currency = currency price\<rparr>, fb_stamp_tax = \<lparr>amount = 0, currency = currency price\<rparr>,
      fb_transfer_fee = \<lparr>amount = cents (?g * rate), currency = currency price\<rparr>, fb_other = \<lparr>amount = 0, currency = currency price\<rparr>\<rparr>"
    using calculate_fees_exact [OF p(1,2) q p(3) e'(2-5) mc b, of BUY d] f(4) e'(7)
    by (simp add: Let_def stamp_tax_rate_def)
  show ex: "exact_fees (f_fees fill) = buy_fees policy rate ?g"
    by (simp add: fees exact_fees_def fee_items_def buy_fees_def)
  show fo: "fill_ok fill"
    using calculate_fees_ok [OF f(4)] f p(1) by (simp add: fill_ok_iff fee_currency_def)
  have g: "0 < ?g" using p(1) q by (simp add: price_ok_def)
  have r: "0 \<le> rate" "rate \<le> 1" using rate_grids(5) [OF e'(7)] by simp_all
  have gk: "?g * 10 ^ k < 10 ^ 25"
  proof -
    have "(10::rat) ^ k \<le> 10 ^ (k + j + 5)" by (intro power_increasing) auto
    then have "?g * 10 ^ k \<le> ?g * 10 ^ (k + j + 5)" using g by (intro mult_left_mono) auto
    then show ?thesis using b by linarith
  qed
  have part: "?g * y * 10 ^ k < 10 ^ 25" if "0 \<le> y" "y \<le> 1" for y
  proof -
    have "?g * y \<le> ?g" using that g by (intro mult_left_le) auto
    then have "?g * y * 10 ^ k \<le> ?g * 10 ^ k" by (intro mult_right_mono) auto
    then show ?thesis using gk by linarith
  qed
  have cent: "cents x * 10 ^ k < 10 ^ 25 + 10 ^ k" if "x * 10 ^ k < 10 ^ 25" for x
  proof -
    have "cents x \<le> x + 1 / 200" using cents_error [of x] by linarith
    then have "cents x * 10 ^ k \<le> (x + 1 / 200) * 10 ^ k" by (intro mult_right_mono) auto
    also have "\<dots> = x * 10 ^ k + 10 ^ k / 200" by (simp add: algebra_simps)
    finally have "cents x * 10 ^ k \<le> x * 10 ^ k + 10 ^ k / 200" .
    moreover have "0 < (10::rat) ^ k" by simp
    ultimately show ?thesis using that by linarith
  qed
  have pk: "(10::rat) ^ k \<le> 10 ^ 20" using k20 by (intro power_increasing) auto
  have mx: "max (?g * fp_commission_rate policy) (amount (fp_minimum_commission policy)) * 10 ^ k < 10 ^ 25"
    using part [OF e'(3,4)] e'(6) by (simp only: max_def simp_thms split: if_split)
  have "(?g + buy_fees policy rate ?g) * 10 ^ k = ?g * 10 ^ k + cents (max (?g * fp_commission_rate policy) (amount (fp_minimum_commission policy))) * 10 ^ k +
      cents (?g * rate) * 10 ^ k"
    by (simp add: buy_fees_def algebra_simps)
  also have "\<dots> < 10 ^ 27"
    using gk cent [OF part [OF r]] cent [OF mx] pk by simp
  finally have "(?g + buy_fees policy rate ?g) * 10 ^ k < 10 ^ 27" .
  then show "fill_on_grid k fill"
    using ex f p(2) on_grid_mono [OF on_grid_cents e'(1)]
    by (simp add: fill_on_grid_def exact_gross_def fees fee_items_def)
qed

lemma affordable_exact:
  assumes e: "exact_range k j policy d rate" and p: "price_ok price" "on_grid k (amount price)"
      "currency price = currency (fp_minimum_commission policy)" and q: "0 < q"
    and b: "amount price * of_int q * 10 ^ (k + j + 5) < 10 ^ 25"
  shows "affordable (calculate_fees policy) price d budget q =
    Inr (amount price * of_int q + buy_fees policy rate (amount price * of_int q) \<le> budget)"
    "\<exists>f. calculate_fees policy BUY price q d = Inr f"
proof -
  have e': "on_grid j (fp_commission_rate policy)" "0 \<le> fp_commission_rate policy" "fp_commission_rate policy \<le> 1"
    "0 \<le> amount (fp_minimum_commission policy)" "transfer_fee_rate (fp_exchange policy) d = Inr rate"
    using e by (simp_all add: exact_range_def)
  have "(10::rat) ^ 2 \<le> 10 ^ k" using e by (intro power_increasing) (auto simp: exact_range_def)
  then have "amount (fp_minimum_commission policy) * 10 ^ 2 \<le> amount (fp_minimum_commission policy) * 10 ^ k"
    using e'(4) by (intro mult_left_mono) auto
  moreover have "amount (fp_minimum_commission policy) * 10 ^ k < 10 ^ 25" using e by (simp add: exact_range_def)
  ultimately have mc: "amount (fp_minimum_commission policy) * 10 ^ 2 < 10 ^ 27" by simp
  obtain f where f: "calculate_fees policy BUY price q d = Inr f"
    using calculate_fees_exact [OF p(1,2) q p(3) e'(1-4) mc b, of BUY d] e'(5) by (simp add: Let_def)
  then show "\<exists>f. calculate_fees policy BUY price q d = Inr f" by blast
  define fill where "fill = \<lparr>f_fill_id = [], f_order_id = [], f_instrument_id = [], f_side = BUY, f_quantity = q,
    f_price = price, f_filled_at = 0, f_fees = f\<rparr>"
  have fill: "f_side fill = BUY" "f_price fill = price" "f_quantity fill = q" "f_fees fill = f"
    by (simp_all add: fill_def)
  note x = quoted_fees_exact [OF e p q b fill(1-3) f [folded fill(4)]]
  have g: "exact_gross fill = amount price * of_int q" by (simp add: exact_gross_def fill)
  note y = fill_grid_facts [OF x(1,2)] exact_gross_pos [OF x(1)]
  have nn: "0 \<le> exact_fees (f_fees fill)" using x(1) by (intro exact_fees_nonneg) (simp add: fill_ok_iff)
  have "(exact_gross fill + exact_fees (f_fees fill)) * 10 ^ k < 10 ^ 27" using x(2) by (simp add: fill_on_grid_def)
  then have "ctx (exact_gross fill + exact_fees (f_fees fill)) = exact_gross fill + exact_fees (f_fees fill)"
    using y nn by (intro ctx_on_grid [of k] on_grid_add) auto
  moreover have "ctx (exact_gross fill) = exact_gross fill" using y by (intro ctx_on_grid [of k]) auto
  ultimately show "affordable (calculate_fees policy) price d budget q =
      Inr (amount price * of_int q + buy_fees policy rate (amount price * of_int q) \<le> budget)"
    using q f fee_total_exact [OF x(1,2)] x(3)
    by (simp add: affordable_def mk_quantity_def dec_add_def dec_mul_def fill g)
qed

text \<open>No declaration the budget could pay is above the start of the loop.\<close>

lemma start_covers:
  assumes s: "session_ok s" and p: "0 < amount p" "on_grid k (amount p)" and b: "0 \<le> budget" "budget * 10 ^ k < 10 ^ 27"
    and st: "rbind (dec_div budget (amount p)) (\<lambda>x. floor_buy_quantity s (py_int x)) = Inr start"
    and m: "is_valid_buy_quantity s m" "amount p * of_int m \<le> budget"
  shows "m \<le> start"
proof -
  note rule = session_ok_rule(1,2) [OF s]
  have m0: "0 < m" using m(1) rule by (simp add: is_valid_buy_quantity_def)
  have f: "floor_buy_quantity s (py_int (ctx (budget / amount p))) = Inr start"
    using st p(1) by (auto simp: dec_div_def)
  have pm: "amount p \<ge> 1 / 10 ^ k"
  proof -
    obtain n where n: "amount p = of_int n / 10 ^ k" using p(2) by (auto simp: on_grid_iff)
    then have "0 < n" using p(1) by (simp add: zero_less_divide_iff)
    then show ?thesis by (simp add: n divide_right_mono)
  qed
  have le: "of_int m \<le> budget / amount p" using m(2) p(1) by (simp add: pos_le_divide_eq mult.commute)
  have "(of_int m :: rat) < 10 ^ 27"
  proof -
    have "of_int m * (1 / 10 ^ k) \<le> of_int m * amount p" using pm m0 by (intro mult_left_mono) auto
    also have "\<dots> \<le> budget" using m(2) by (simp add: mult.commute)
    finally have "of_int m \<le> budget * 10 ^ k" by (simp add: pos_divide_le_eq)
    then show ?thesis using b(2) by linarith
  qed
  then have "(of_int m :: rat) < of_int (10 ^ 27)" by simp
  then have "m < 10 ^ 27" by (simp only: of_int_less_iff)
  then have "of_int m = ctx (of_int m)" using m0 by (simp add: ctx_of_int)
  also have "\<dots> \<le> ctx (budget / amount p)" using le by (rule ctx_mono)
  finally have "of_int m \<le> ctx (budget / amount p)" .
  moreover have "0 \<le> ctx (budget / amount p)" using b(1) p(1) by simp
  ultimately have "m \<le> py_int (ctx (budget / amount p))"
    using py_int_nonneg [of "ctx (budget / amount p)"] by linarith
  then show ?thesis using floor_buy_quantity_greatest(4) [OF rule f m(1)] by blast
qed

lemma start_within:
  assumes s: "session_ok s" and p: "0 < amount p" and b: "0 \<le> budget"
    and st: "rbind (dec_div budget (amount p)) (\<lambda>x. floor_buy_quantity s (py_int x)) = Inr start"
  shows "start = 0 \<or> is_valid_buy_quantity s start" "0 \<le> start" "amount p * of_int start \<le> 2 * budget"
proof -
  note rule = session_ok_rule(1,2) [OF s]
  have f: "floor_buy_quantity s (py_int (ctx (budget / amount p))) = Inr start"
    using st p(1) by (auto simp: dec_div_def)
  note fl = floor_buy_quantity_greatest [OF rule f]
  show "start = 0 \<or> is_valid_buy_quantity s start" "0 \<le> start" using fl by auto
  have nn: "0 \<le> budget / amount p" using b p by simp
  have "of_int start \<le> (of_int (py_int (ctx (budget / amount p))) :: rat)" using fl(2) by simp
  also have "\<dots> \<le> ctx (budget / amount p)" using py_int_nonneg [of "ctx (budget / amount p)"] nn by simp
  also have "\<dots> \<le> budget / amount p + budget / amount p / 10 ^ 27" using nn by (rule ctx_le_relative)
  also have "\<dots> \<le> 2 * (budget / amount p)" using nn by simp
  finally have "of_int start * amount p \<le> 2 * (budget / amount p) * amount p" using p by (intro mult_right_mono) auto
  then show "amount p * of_int start \<le> 2 * budget" using p by (simp add: mult.commute)
qed

section \<open>Properties\<close>

text \<open>The sizing as a specification: the greatest valid declaration that the budget can pay at the limit.\<close>

definition pays :: "fee_policy \<Rightarrow> rat \<Rightarrow> price \<Rightarrow> rat \<Rightarrow> int \<Rightarrow> bool" where
  "pays policy rate p budget n \<longleftrightarrow>
     amount p * of_int n + buy_fees policy rate (amount p * of_int n) \<le> budget"

lemma size_pre_open_buy_spec:
  assumes s: "session_ok s" "s_upper_limit s = Some p" and e: "exact_range k j policy d rate"
    and p: "price_ok p" "on_grid k (amount p)" "currency p = currency (fp_minimum_commission policy)"
    and b: "0 \<le> dec_mul (amount cash) ratio" "dec_mul (amount cash) ratio * 10 ^ (k + j + 5) < 10 ^ 24"
  shows "\<exists>n. size_pre_open_buy (calculate_fees policy) cash s ratio d =
      Some (Inr (Some \<lparr>z_affordability_price = p, z_quantity = n\<rparr>)) \<and> 0 \<le> n \<and>
    (n = 0 \<or> is_valid_buy_quantity s n \<and> pays policy rate p (dec_mul (amount cash) ratio) n) \<and>
    (\<forall>m. is_valid_buy_quantity s m \<and> pays policy rate p (dec_mul (amount cash) ratio) m \<longrightarrow> m \<le> n)"
proof -
  define budget where "budget = dec_mul (amount cash) ratio"
  note b' = b [folded budget_def]
  have p0: "0 < amount p" using p(1) by (simp add: price_ok_def)
  note rule = session_ok_rule(1,2) [OF s(1)]
  have "0 \<le> py_int (ctx (budget / amount p))"
    using py_int_nonneg [of "ctx (budget / amount p)"] b'(1) p0 by simp
  then obtain start where st: "rbind (dec_div budget (amount p)) (\<lambda>x. floor_buy_quantity s (py_int x)) = Inr start"
    using floor_buy_quantity_ok p0 by (auto simp: dec_div_def)
  note sw = start_within [OF s(1) p0 b'(1) st]
  have small: "amount p * of_int m * 10 ^ (k + j + 5) < 10 ^ 25" if "0 < m" "m \<le> start" for m
  proof -
    have "amount p * of_int m \<le> amount p * of_int start" using that p0 by (intro mult_left_mono) auto
    also have "\<dots> \<le> 2 * budget" by (rule sw(3))
    finally have "amount p * of_int m * 10 ^ (k + j + 5) \<le> 2 * budget * 10 ^ (k + j + 5)" by (rule mult_right_mono) simp
    moreover have "2 * budget * 10 ^ (k + j + 5) < 2 * 10 ^ 24" using b'(2) by simp
    moreover have "2 * 10 ^ 24 < (10 ^ 25 :: rat)" by simp
    ultimately show ?thesis by linarith
  qed
  have aff: "affordable (calculate_fees policy) p d budget m = Inr (pays policy rate p budget m)" if "0 < m" "m \<le> start" for m
    using affordable_exact(1) [OF e p that(1) small [OF that]] by (simp add: pays_def)
  have ans: "is_ok (calculate_fees policy BUY p m d)" if "0 < m" "m \<le> start" for m
    using affordable_exact(2) [OF e p that(1) small [OF that]] by (auto simp: is_ok_iff)
  obtain n where n: "sizing_loop (calculate_fees policy) s p d budget start = Some (Inr n)" "0 \<le> n" "n \<le> start"
    "n = 0 \<or> is_valid_buy_quantity s n \<and> fits (calculate_fees policy) p d budget n"
    "\<forall>m. is_valid_buy_quantity s m \<and> m \<le> start \<and> fits (calculate_fees policy) p d budget m \<longrightarrow> m \<le> n"
    using calculator.loop_returns_greatest [OF s(1) sw(1), where p = p and d = d and budget = budget and policy = policy] ans
    by blast
  have run: "size_pre_open_buy (calculate_fees policy) cash s ratio d = Some (Inr (Some \<lparr>z_affordability_price = p, z_quantity = n\<rparr>))"
    using st n(1) by (simp add: size_pre_open_buy_def s(2) Let_def flip: budget_def)
  have good: "n = 0 \<or> is_valid_buy_quantity s n \<and> pays policy rate p budget n"
    using n(2,3,4) aff [of n] by (auto simp: fits_def)
  have all: "m \<le> n" if m: "is_valid_buy_quantity s m" "pays policy rate p budget m" for m
  proof -
    have m0: "0 < m" using m(1) rule by (simp add: is_valid_buy_quantity_def)
    have pm: "amount p * of_int m \<le> budget"
    proof -
      have "0 \<le> buy_fees policy rate (amount p * of_int m)"
        unfolding buy_fees_def using e rate_grids(5) [of _ d rate] p0 m0
        by (intro add_nonneg_nonneg cents_nonneg) (auto simp: exact_range_def le_max_iff_disj)
      then show ?thesis using m(2) by (simp add: pays_def)
    qed
    have "budget * 10 ^ k \<le> budget * 10 ^ (k + j + 5)" using b'(1) by (intro mult_left_mono power_increasing) auto
    then have "budget * 10 ^ k < 10 ^ 27" using b'(2) by simp
    then have ms: "m \<le> start" using start_covers [OF s(1) p0 p(2) b'(1) _ st m(1) pm] by blast
    then show ?thesis using n(5) m aff [OF m0 ms] by (simp add: fits_def)
  qed
  show ?thesis
    unfolding budget_def [symmetric] using run n(2) good all by blast
qed

text \<open>C40: sizing before the opening returns and is optimal: for a session with an upper limit the loop ends, and
  its quantity is the greatest valid declaration whose notional and fees at the upper limit fit the budget
  (zero if none fits), where fees are the schedule's, with no error from the decimal context.\<close>

theorem sizing_is_greatest_affordable:
  assumes "session_ok s" "s_upper_limit s = Some p" and "exact_range k j policy d rate"
    and "price_ok p" "on_grid k (amount p)" "currency p = currency (fp_minimum_commission policy)"
    and "0 \<le> dec_mul (amount cash) ratio" "dec_mul (amount cash) ratio * 10 ^ (k + j + 5) < 10 ^ 24"
  shows "\<exists>n. size_pre_open_buy (calculate_fees policy) cash s ratio d =
      Some (Inr (Some \<lparr>z_affordability_price = p, z_quantity = n\<rparr>)) \<and> 0 \<le> n \<and>
    (n = 0 \<or> is_valid_buy_quantity s n \<and> pays policy rate p (dec_mul (amount cash) ratio) n) \<and>
    (\<forall>m. is_valid_buy_quantity s m \<and> pays policy rate p (dec_mul (amount cash) ratio) m \<longrightarrow> m \<le> n)"
  using assms by (rule size_pre_open_buy_spec)

definition sized_session :: instrument_session where
  "sized_session = session_of (sample_input MAIN False 10) (Some (cny 11)) (Some (cny 9))"

lemma sample_exact_range: "exact_range 2 4 sample_policy (ymd 2024 5 6) (1 / 100000)"
  by code_simp

theorem sizing_is_greatest_affordable_witness:
  "\<exists>n. size_pre_open_buy (calculate_fees sample_policy) (cny 10000) sized_session 1 (ymd 2024 5 6) =
     Some (Inr (Some \<lparr>z_affordability_price = cny 11, z_quantity = n\<rparr>)) \<and> n = 900"
proof -
  have s: "session_ok sized_session" "s_upper_limit sized_session = Some (cny 11)"
    "price_ok (cny 11)" "on_grid 2 (amount (cny 11))" "currency (cny 11) = currency (fp_minimum_commission sample_policy)"
    "0 \<le> dec_mul (amount (cny 10000)) 1" "dec_mul (amount (cny 10000)) 1 * 10 ^ (2 + 4 + 5) < 10 ^ 24"
    by code_simp+
  have v: "is_valid_buy_quantity sized_session 900" "pays sample_policy (1 / 100000) (cny 11) (dec_mul (amount (cny 10000)) 1) 900"
    by code_simp+
  have no: "\<not> pays sample_policy (1 / 100000) (cny 11) (dec_mul (amount (cny 10000)) 1) n" if "1000 \<le> n" for n
  proof -
    have "dec_mul (amount (cny 10000)) 1 = 10000" by code_simp
    moreover have "0 \<le> buy_fees sample_policy (1 / 100000) (11 * of_int n)"
      unfolding buy_fees_def using that
      by (intro add_nonneg_nonneg cents_nonneg) (auto simp: sample_policy_def le_max_iff_disj)
    moreover have "11 * (1000 :: rat) \<le> 11 * of_int n" using that by simp
    ultimately show ?thesis by (simp add: pays_def cny_def)
  qed
  from sizing_is_greatest_affordable [OF s(1,2) sample_exact_range s(3-7)]
  obtain n where n: "size_pre_open_buy (calculate_fees sample_policy) (cny 10000) sized_session 1 (ymd 2024 5 6) =
      Some (Inr (Some \<lparr>z_affordability_price = cny 11, z_quantity = n\<rparr>))" "0 \<le> n"
    "n = 0 \<or> is_valid_buy_quantity sized_session n \<and> pays sample_policy (1 / 100000) (cny 11) (dec_mul (amount (cny 10000)) 1) n"
    "\<forall>m. is_valid_buy_quantity sized_session m \<and> pays sample_policy (1 / 100000) (cny 11) (dec_mul (amount (cny 10000)) 1) m \<longrightarrow> m \<le> n"
    by blast
  have "900 \<le> n" using n(4) v by blast
  moreover from this have "is_valid_buy_quantity sized_session n" "n < 1000" using n(3) no [of n] by (auto simp: not_le [symmetric])
  moreover have "s_minimum_buy_quantity sized_session = 100" "s_buy_quantity_increment sized_session = 100" by code_simp+
  ultimately have "n = 900" unfolding is_valid_buy_quantity_def by presburger
  with n(1) show ?thesis by blast
qed

end
