(* ===== verification/Financials.thy ===== *)
theory Financials
  imports Text
begin

text \<open>
  The closed catalog of financial metrics (\<open>ashare_lab/domain/financials/models.py\<close>): the
  enumerations, the shape every metric definition must have, the exact table and its lookup.
  The pydantic models raise one \<open>ValidationError\<close> (a \<open>ValueError\<close>) for all violations; the
  model gives the message of the first check that fails, in source order.
\<close>

section \<open>Enumerations\<close>

datatype financial_metric =
    REVENUE | NET_PROFIT_PARENT | REVENUE_YOY | NET_PROFIT_PARENT_YOY | ROE
  | GROSS_MARGIN | NET_MARGIN | OPERATING_CASH_FLOW | BASIC_EPS | BOOK_VALUE_PER_SHARE
  | CAPITAL_RESERVE_PER_SHARE | UNASSIGNED_PROFIT_PER_SHARE | OPERATING_CASH_FLOW_PER_SHARE | GROSS_PROFIT | DEDUCTED_NET_PROFIT
  | DEDUCTED_NET_PROFIT_YOY | ROTA | TOTAL_ASSETS_TURNOVER | INVENTORY_TURNOVER | ACCOUNTS_RECEIVABLE_TURNOVER
  | PE_TTM | PB_MRQ | DIVIDEND_YIELD_TTM | PE | PB
  | PS | PCF

primrec financial_metric_value :: "financial_metric \<Rightarrow> string" where
  "financial_metric_value REVENUE = ''financial.revenue''"
| "financial_metric_value NET_PROFIT_PARENT = ''financial.net_profit_parent''"
| "financial_metric_value REVENUE_YOY = ''financial.revenue_yoy''"
| "financial_metric_value NET_PROFIT_PARENT_YOY = ''financial.net_profit_parent_yoy''"
| "financial_metric_value ROE = ''financial.roe''"
| "financial_metric_value GROSS_MARGIN = ''financial.gross_margin''"
| "financial_metric_value NET_MARGIN = ''financial.net_margin''"
| "financial_metric_value OPERATING_CASH_FLOW = ''financial.operating_cash_flow''"
| "financial_metric_value BASIC_EPS = ''financial.basic_eps''"
| "financial_metric_value BOOK_VALUE_PER_SHARE = ''financial.book_value_per_share''"
| "financial_metric_value CAPITAL_RESERVE_PER_SHARE = ''financial.capital_reserve_per_share''"
| "financial_metric_value UNASSIGNED_PROFIT_PER_SHARE = ''financial.unassigned_profit_per_share''"
| "financial_metric_value OPERATING_CASH_FLOW_PER_SHARE = ''financial.operating_cash_flow_per_share''"
| "financial_metric_value GROSS_PROFIT = ''financial.gross_profit''"
| "financial_metric_value DEDUCTED_NET_PROFIT = ''financial.deducted_net_profit''"
| "financial_metric_value DEDUCTED_NET_PROFIT_YOY = ''financial.deducted_net_profit_yoy''"
| "financial_metric_value ROTA = ''financial.rota''"
| "financial_metric_value TOTAL_ASSETS_TURNOVER = ''financial.total_assets_turnover''"
| "financial_metric_value INVENTORY_TURNOVER = ''financial.inventory_turnover''"
| "financial_metric_value ACCOUNTS_RECEIVABLE_TURNOVER = ''financial.accounts_receivable_turnover''"
| "financial_metric_value PE_TTM = ''valuation.pe_ttm''"
| "financial_metric_value PB_MRQ = ''valuation.pb_mrq''"
| "financial_metric_value DIVIDEND_YIELD_TTM = ''valuation.dividend_yield_ttm''"
| "financial_metric_value PE = ''valuation.pe''"
| "financial_metric_value PB = ''valuation.pb''"
| "financial_metric_value PS = ''valuation.ps''"
| "financial_metric_value PCF = ''valuation.pcf''"

datatype data_kind = STATEMENT | VALUATION

datatype period_basis = SINGLE_QUARTER | YTD_CUMULATIVE | FULL_YEAR | TTM | MRQ | POINT_IN_TIME

datatype report_type = Q1 | SEMIANNUAL | Q3 | ANNUAL

datatype statement_scope = CONSOLIDATED | PARENT_COMPANY

datatype financial_unit = UNIT_CNY | UNIT_CNY_PER_SHARE | UNIT_PERCENT | UNIT_RATIO | UNIT_TIMES

section \<open>Metric definitions\<close>

record metric_definition =
  md_metric_id :: financial_metric
  md_data_kind :: data_kind
  md_unit :: financial_unit
  md_allowed_period_bases :: "period_basis list"
  md_allowed_statement_scopes :: "statement_scope list"

definition metric_definition_checks :: "metric_definition \<Rightarrow> (bool \<times> py_error) list" where
  "metric_definition_checks d =
    [(md_allowed_period_bases d = [], ValueError ''allowed_period_bases must not be empty''),
     (\<not> distinct (md_allowed_period_bases d), ValueError ''allowed_period_bases must be unique''),
     (\<not> distinct (md_allowed_statement_scopes d), ValueError ''allowed_statement_scopes must be unique''),
     (md_data_kind d = STATEMENT \<and> md_allowed_statement_scopes d = [],
      ValueError ''statement metric requires allowed_statement_scopes''),
     (md_data_kind d = STATEMENT \<and> list_ex (\<lambda>b. b = TTM \<or> b = MRQ) (md_allowed_period_bases d),
      ValueError ''statement metrics cannot declare TTM or MRQ''),
     (md_data_kind d \<noteq> STATEMENT \<and> md_allowed_statement_scopes d \<noteq> [],
      ValueError ''valuation metrics cannot declare statement scopes'')]"

definition statement_bases :: "period_basis list" where
  "statement_bases = [SINGLE_QUARTER, YTD_CUMULATIVE, FULL_YEAR]"

definition statement_scopes :: "statement_scope list" where
  "statement_scopes = [CONSOLIDATED, PARENT_COMPANY]"

definition consolidated_only :: "statement_scope list" where
  "consolidated_only = [CONSOLIDATED]"

definition statement_definition :: "financial_metric \<Rightarrow> financial_unit \<Rightarrow> statement_scope list \<Rightarrow> metric_definition" where
  "statement_definition m u scopes =
     \<lparr>md_metric_id = m, md_data_kind = STATEMENT, md_unit = u, md_allowed_period_bases = statement_bases,
      md_allowed_statement_scopes = scopes\<rparr>"

definition valuation_definition :: "financial_metric \<Rightarrow> financial_unit \<Rightarrow> period_basis \<Rightarrow> metric_definition" where
  "valuation_definition m u b =
     \<lparr>md_metric_id = m, md_data_kind = VALUATION, md_unit = u, md_allowed_period_bases = [b],
      md_allowed_statement_scopes = []\<rparr>"

definition first_metric_definitions :: "metric_definition list" where
  "first_metric_definitions =
    [statement_definition REVENUE UNIT_CNY statement_scopes,
     statement_definition NET_PROFIT_PARENT UNIT_CNY consolidated_only,
     statement_definition REVENUE_YOY UNIT_PERCENT statement_scopes,
     statement_definition NET_PROFIT_PARENT_YOY UNIT_PERCENT consolidated_only,
     statement_definition ROE UNIT_PERCENT statement_scopes,
     statement_definition GROSS_MARGIN UNIT_PERCENT statement_scopes,
     statement_definition NET_MARGIN UNIT_PERCENT statement_scopes,
     statement_definition OPERATING_CASH_FLOW UNIT_CNY statement_scopes,
     statement_definition BASIC_EPS UNIT_CNY_PER_SHARE statement_scopes,
     statement_definition BOOK_VALUE_PER_SHARE UNIT_CNY_PER_SHARE statement_scopes,
     statement_definition CAPITAL_RESERVE_PER_SHARE UNIT_CNY_PER_SHARE statement_scopes,
     statement_definition UNASSIGNED_PROFIT_PER_SHARE UNIT_CNY_PER_SHARE statement_scopes,
     statement_definition OPERATING_CASH_FLOW_PER_SHARE UNIT_CNY_PER_SHARE statement_scopes,
     statement_definition GROSS_PROFIT UNIT_CNY statement_scopes,
     statement_definition DEDUCTED_NET_PROFIT UNIT_CNY statement_scopes,
     statement_definition DEDUCTED_NET_PROFIT_YOY UNIT_RATIO statement_scopes,
     statement_definition ROTA UNIT_RATIO statement_scopes,
     statement_definition TOTAL_ASSETS_TURNOVER UNIT_TIMES statement_scopes,
     statement_definition INVENTORY_TURNOVER UNIT_TIMES statement_scopes,
     statement_definition ACCOUNTS_RECEIVABLE_TURNOVER UNIT_TIMES statement_scopes,
     valuation_definition PE_TTM UNIT_TIMES TTM,
     valuation_definition PB_MRQ UNIT_TIMES MRQ,
     valuation_definition DIVIDEND_YIELD_TTM UNIT_PERCENT TTM,
     valuation_definition PE UNIT_TIMES POINT_IN_TIME,
     valuation_definition PB UNIT_TIMES POINT_IN_TIME,
     valuation_definition PS UNIT_TIMES POINT_IN_TIME,
     valuation_definition PCF UNIT_TIMES POINT_IN_TIME]"

definition definition_for :: "financial_metric \<Rightarrow> metric_definition result" where
  "definition_for m =
     (case find (\<lambda>d. md_metric_id d = m) first_metric_definitions of
        Some d \<Rightarrow> Inr d
      | None \<Rightarrow> Inl (ValueError ''metric is not registered''))"

section \<open>The catalog is total and coherent\<close>

lemma metric_list_complete: "m \<in> set (map md_metric_id first_metric_definitions)"
  by (cases m) (simp_all add: first_metric_definitions_def statement_definition_def valuation_definition_def)

lemma first_metric_definitions_coherent:
  "list_all (\<lambda>d. is_ok (checks (metric_definition_checks d))) first_metric_definitions"
  by code_simp

lemma metrics_distinct: "distinct (map md_metric_id first_metric_definitions)"
  by code_simp

lemma definition_for_total:
  obtains d where "definition_for m = Inr d" "d \<in> set first_metric_definitions" "md_metric_id d = m"
proof -
  obtain d where d: "find (\<lambda>d. md_metric_id d = m) first_metric_definitions = Some d"
    using metric_list_complete [of m] by (cases "find (\<lambda>d. md_metric_id d = m) first_metric_definitions") (auto simp: find_None_iff)
  then have "d \<in> set first_metric_definitions \<and> md_metric_id d = m" by (auto simp: find_Some_iff)
  with d that show thesis by (simp add: definition_for_def)
qed

text \<open>The catalog is total, unambiguous and coherent: every metric has exactly one definition in the table, the
  lookup returns it, and it passes every check of the definition model.\<close>

theorem metric_catalog_total:
  "\<exists>d. definition_for m = Inr d \<and> md_metric_id d = m \<and> is_ok (checks (metric_definition_checks d)) \<and>
     filter (\<lambda>e. md_metric_id e = m) first_metric_definitions = [d]"
proof -
  obtain d where d: "definition_for m = Inr d" "d \<in> set first_metric_definitions" "md_metric_id d = m"
    by (rule definition_for_total)
  then obtain ys zs where s: "first_metric_definitions = ys @ d # zs" by (meson split_list)
  from metrics_distinct have "filter (\<lambda>e. md_metric_id e = m) ys = []" "filter (\<lambda>e. md_metric_id e = m) zs = []"
    using d(3) unfolding s by (auto simp: filter_empty_conv) (metis image_eqI)+
  then have "filter (\<lambda>e. md_metric_id e = m) first_metric_definitions = [d]" using d(3) unfolding s by simp
  then show ?thesis using d first_metric_definitions_coherent by (auto simp: list_all_iff)
qed

end
