(* ===== verification/Conditions.thy ===== *)
theory Conditions
  imports Financials
begin

text \<open>
  The condition trees and exit rules of the strategy language
  (\<open>ashare_lab/domain/strategy/models.py\<close>): their fields, the validators of their pydantic models,
  and the walks over the tree.  Values are those of the fields after pydantic has parsed them (texts
  are stripped, literals fixed by their type are left out); messages that the source writes in
  Chinese are given in English.  A finite \<open>float\<close> is the decimal of its shortest representation.
\<close>

section \<open>Names and scalars\<close>

datatype py_float = Finite rat | Infinite bool | NaN

fun is_finite :: "py_float \<Rightarrow> bool" where
  "is_finite (Finite _) \<longleftrightarrow> True"
| "is_finite _ \<longleftrightarrow> False"

datatype json_scalar = JStr string | JInt int | JFloat py_float | JBool bool

fun non_finite_scalar :: "json_scalar \<Rightarrow> bool" where
  "non_finite_scalar (JFloat x) \<longleftrightarrow> \<not> is_finite x"
| "non_finite_scalar _ \<longleftrightarrow> False"

definition lower_letter :: "char \<Rightarrow> bool" where
  "lower_letter c \<longleftrightarrow> 97 \<le> (of_char c :: nat) \<and> (of_char c :: nat) \<le> 122"

definition ascii_letter :: "char \<Rightarrow> bool" where
  "ascii_letter c \<longleftrightarrow> lower_letter c \<or> (65 \<le> (of_char c :: nat) \<and> (of_char c :: nat) \<le> 90)"

definition ascii_alnum :: "char \<Rightarrow> bool" where
  "ascii_alnum c \<longleftrightarrow> ascii_letter c \<or> is_digit c"

definition snake_tail :: "char \<Rightarrow> bool" where
  "snake_tail c \<longleftrightarrow> lower_letter c \<or> is_digit c \<or> c = CHR ''_''"

text \<open>\<open>[a-z][a-z0-9_]*\<close>\<close>

fun snake_word :: "string \<Rightarrow> bool" where
  "snake_word [] \<longleftrightarrow> False"
| "snake_word (c # cs) \<longleftrightarrow> lower_letter c \<and> list_all snake_tail cs"

fun split_dots :: "string \<Rightarrow> string list" where
  "split_dots [] = [[]]"
| "split_dots (c # cs) =
     (if c = CHR ''.'' then [] # split_dots cs
      else (case split_dots cs of w # ws \<Rightarrow> (c # w) # ws | [] \<Rightarrow> [[c]]))"

text \<open>\<open>^[a-z][a-z0-9_]*(\.[a-z][a-z0-9_]*)+$\<close>\<close>

definition dotted_name :: "string \<Rightarrow> bool" where
  "dotted_name s \<longleftrightarrow> 2 \<le> length (split_dots s) \<and> list_all snake_word (split_dots s)"

definition event_code_ok :: "string \<Rightarrow> bool" where
  "event_code_ok s \<longleftrightarrow> starts_with ''event.'' s \<and> dotted_name (removeprefix ''event.'' s)"

text \<open>\<open>^[A-Za-z0-9][A-Za-z0-9._-]{0,63}$\<close>\<close>

definition version_tail :: "char \<Rightarrow> bool" where
  "version_tail c \<longleftrightarrow> ascii_alnum c \<or> c \<in> set ''._-''"

fun version_ok :: "string \<Rightarrow> bool" where
  "version_ok [] \<longleftrightarrow> False"
| "version_ok (c # cs) \<longleftrightarrow> ascii_alnum c \<and> list_all version_tail cs \<and> length cs \<le> 63"

text \<open>\<open>^[a-z][a-z0-9_]{1,63}$\<close>\<close>

definition trigger_ok :: "string \<Rightarrow> bool" where
  "trigger_ok s \<longleftrightarrow> snake_word s \<and> 2 \<le> length s \<and> length s \<le> 64"

text \<open>\<open>not name or not name.replace("_", "a").isalnum() or not name[0].isalpha()\<close>\<close>

fun bad_parameter_name :: "string \<Rightarrow> bool" where
  "bad_parameter_name [] \<longleftrightarrow> True"
| "bad_parameter_name (c # cs) \<longleftrightarrow>
     \<not> list_all ascii_alnum (map (\<lambda>x. if x = CHR ''_'' then CHR ''a'' else x) (c # cs)) \<or> \<not> ascii_letter c"

section \<open>Conditions\<close>

record indicator_condition =
  ic_indicator_id :: string
  ic_definition_version :: string
  ic_params :: "(string \<times> json_scalar) list"
  ic_trigger :: string
  ic_value :: "py_float option"

definition indicator_condition_checks :: "indicator_condition \<Rightarrow> (bool \<times> py_error) list" where
  "indicator_condition_checks c =
    [(\<not> dotted_name (ic_indicator_id c), ValueError ''indicator_id pattern''),
     (\<not> version_ok (ic_definition_version c), ValueError ''definition_version pattern''),
     (16 < length (ic_params c), ValueError ''params has too many items''),
     (list_ex (\<lambda>(n, v). bad_parameter_name n \<or> non_finite_scalar v) (ic_params c), ValueError ''invalid parameter''),
     (\<not> trigger_ok (ic_trigger c), ValueError ''trigger pattern''),
     (opt_any (\<lambda>v. \<not> is_finite v) (ic_value c), ValueError ''indicator comparison value must be finite'')]"

datatype financial_comparator = FIN_GT | FIN_GTE | FIN_LT | FIN_LTE | FIN_EQ | FIN_NE

record financial_condition =
  fc_metric_id :: financial_metric
  fc_report_type :: "report_type option"
  fc_period_basis :: "period_basis option"
  fc_statement_scope :: "statement_scope option"
  fc_comparator :: financial_comparator
  fc_value :: rat
  fc_unit :: financial_unit

definition financial_condition_post_init :: "financial_condition \<Rightarrow> unit result" where
  "financial_condition_post_init c =
     rbind (definition_for (fc_metric_id c)) (\<lambda>d. checks
      [(opt_any (\<lambda>b. b \<notin> set (md_allowed_period_bases d)) (fc_period_basis c),
        ValueError ''period_basis is not allowed for metric''),
       (fc_unit c \<noteq> md_unit d, ValueError ''unit does not match metric catalog''),
       (md_data_kind d = STATEMENT \<and> fc_statement_scope c = None,
        ValueError ''statement condition requires statement_scope''),
       (md_data_kind d = STATEMENT \<and> the (fc_statement_scope c) \<notin> set (md_allowed_statement_scopes d),
        ValueError ''statement_scope is not allowed for metric''),
       (md_data_kind d \<noteq> STATEMENT \<and> (fc_report_type c \<noteq> None \<or> fc_statement_scope c \<noteq> None),
        ValueError ''valuation condition cannot declare report shape'')])"

datatype match_mode = ASCII_TOKEN | LITERAL_MATCH

datatype count_comparator = COUNT_GT | COUNT_GTE

record document_predicate =
  dp_term :: string
  dp_match_mode :: match_mode
  dp_case_sensitive :: bool
  dp_comparator :: count_comparator
  dp_value :: int

definition document_predicate_checks :: "document_predicate \<Rightarrow> (bool \<times> py_error) list" where
  "document_predicate_checks p =
    [(dp_term p = [] \<or> 64 < length (dp_term p), ValueError ''document term length''),
     (list_ex (\<lambda>c. (of_char c :: nat) < 32) (dp_term p), ValueError ''document term cannot contain control characters''),
     (blank (dp_term p), ValueError ''document term cannot be blank''),
     (dp_value p < 0 \<or> 1000000 < dp_value p, ValueError ''document count out of range''),
     (dp_match_mode p = ASCII_TOKEN \<and> \<not> list_ex ascii_alnum (dp_term p),
      ValueError ''ascii_token match mode requires an ASCII alphanumeric term'')]"

record event_condition =
  ec_event_code :: string
  ec_definition_version :: string
  ec_attributes :: "(string \<times> json_scalar) list"
  ec_document_text :: "document_predicate option"

definition event_condition_checks :: "event_condition \<Rightarrow> (bool \<times> py_error) list" where
  "event_condition_checks c =
    [(\<not> event_code_ok (ec_event_code c), ValueError ''event_code pattern''),
     (\<not> version_ok (ec_definition_version c), ValueError ''definition_version pattern''),
     (8 < length (ec_attributes c), ValueError ''attributes has too many items''),
     (list_ex (\<lambda>(n, v). bad_parameter_name n \<or> non_finite_scalar v) (ec_attributes c), ValueError ''invalid event attribute''),
     (opt_any (\<lambda>p. \<not> is_ok (checks (document_predicate_checks p))) (ec_document_text c), ValueError ''document_text'')]"

datatype condition =
    IndicatorCondition indicator_condition
  | FinancialCondition financial_condition
  | EventCondition event_condition
  | AllCondition "condition list"
  | AnyCondition "condition list"
  | NotCondition condition

fun condition_children :: "condition \<Rightarrow> condition list" where
  "condition_children (AllCondition cs) = cs"
| "condition_children (AnyCondition cs) = cs"
| "condition_children (NotCondition c) = [c]"
| "condition_children _ = []"

lemma condition_children_size [termination_simp]: "x \<in> set (condition_children c) \<Longrightarrow> size x < size c"
  by (cases c) (auto simp: less_Suc_eq_le dest!: size_list_estimation' [OF _ order_refl, where f = size])

fun condition_post_init :: "condition \<Rightarrow> unit result" where
  "condition_post_init (IndicatorCondition c) = checks (indicator_condition_checks c)"
| "condition_post_init (FinancialCondition c) = financial_condition_post_init c"
| "condition_post_init (EventCondition c) = checks (event_condition_checks c)"
| "condition_post_init (NotCondition c) = Inr ()"
| "condition_post_init c =
     checks [(length (condition_children c) < 2 \<or> 16 < length (condition_children c), ValueError ''children length'')]"

text \<open>A node can only be built from nodes that were built.\<close>

fun valid_condition :: "condition \<Rightarrow> bool" where
  "valid_condition c \<longleftrightarrow> is_ok (condition_post_init c) \<and> list_all valid_condition (condition_children c)"

declare valid_condition.simps [simp del]

section \<open>Walks over the tree\<close>

fun condition_size :: "condition \<Rightarrow> nat" where
  "condition_size c = 1 + sum_list (map condition_size (condition_children c))"

fun condition_depth :: "condition \<Rightarrow> nat" where
  "condition_depth c =
     (if condition_children c = [] then 1
      else 1 + fold max (map condition_depth (condition_children c)) 0)"

declare condition_size.simps [simp del] condition_depth.simps [simp del]

fun is_event_condition :: "condition \<Rightarrow> bool" where
  "is_event_condition (EventCondition _) \<longleftrightarrow> True"
| "is_event_condition _ \<longleftrightarrow> False"

fun is_financial_condition :: "condition \<Rightarrow> bool" where
  "is_financial_condition (FinancialCondition _) \<longleftrightarrow> True"
| "is_financial_condition _ \<longleftrightarrow> False"

fun is_indicator_condition :: "condition \<Rightarrow> bool" where
  "is_indicator_condition (IndicatorCondition _) \<longleftrightarrow> True"
| "is_indicator_condition _ \<longleftrightarrow> False"

fun contains_event :: "condition \<Rightarrow> bool" where
  "contains_event c \<longleftrightarrow> is_event_condition c \<or> list_ex contains_event (condition_children c)"

fun contains_financial :: "condition \<Rightarrow> bool" where
  "contains_financial c \<longleftrightarrow> is_financial_condition c \<or> list_ex contains_financial (condition_children c)"

declare contains_event.simps [simp del] contains_financial.simps [simp del]

text \<open>The inner \<open>walk\<close> of the three iterators, with the class it looks for as an argument.\<close>

fun walk_condition :: "(condition \<Rightarrow> bool) \<Rightarrow> condition \<Rightarrow> condition list" where
  "walk_condition wanted c =
     (if wanted c then [c] else concat (map (walk_condition wanted) (condition_children c)))"

declare walk_condition.simps [simp del]

lemma walk_wanted: "x \<in> set (walk_condition wanted c) \<Longrightarrow> wanted x"
  by (induction wanted c rule: walk_condition.induct) (subst (asm) walk_condition.simps, auto split: if_splits)

lemma contains_event_walk: "contains_event c \<longleftrightarrow> walk_condition is_event_condition c \<noteq> []"
proof (induction c rule: contains_event.induct)
  case (1 c)
  then show ?case
    by (subst contains_event.simps, subst walk_condition.simps) (auto simp: list_ex_iff)
qed

lemma contains_financial_walk: "contains_financial c \<longleftrightarrow> walk_condition is_financial_condition c \<noteq> []"
proof (induction c rule: contains_financial.induct)
  case (1 c)
  then show ?case
    by (subst contains_financial.simps, subst walk_condition.simps) (auto simp: list_ex_iff)
qed

lemma walk_length_le_size: "length (walk_condition wanted c) \<le> condition_size c"
proof (induction wanted c rule: walk_condition.induct)
  case (1 wanted c)
  show ?case
  proof (cases "wanted c")
    case True
    then show ?thesis by (subst walk_condition.simps, subst condition_size.simps) simp
  next
    case False
    have "sum_list (map (\<lambda>x. length (walk_condition wanted x)) (condition_children c))
          \<le> sum_list (map condition_size (condition_children c))"
      using 1 False by (intro sum_list_mono) simp
    then show ?thesis using False
      by (subst walk_condition.simps, subst condition_size.simps) (simp add: length_concat comp_def)
  qed
qed

lemma fold_max_le: "a \<le> b \<Longrightarrow> (\<And>x. x \<in> set (xs :: nat list) \<Longrightarrow> x \<le> b) \<Longrightarrow> fold max xs a \<le> b"
  by (induction xs arbitrary: a) auto

lemma condition_depth_le_size: "condition_depth c \<le> condition_size c"
proof (induction c rule: condition_depth.induct)
  case (1 c)
  show ?case
  proof (cases "condition_children c = []")
    case True
    then show ?thesis by (subst condition_depth.simps, subst condition_size.simps) simp
  next
    case False
    have "x \<le> sum_list (map condition_size (condition_children c))"
      if "x \<in> set (map condition_depth (condition_children c))" for x
    proof -
      from that obtain y where y: "y \<in> set (condition_children c)" "x = condition_depth y" by auto
      have "x \<le> condition_size y" using 1 False y by simp
      also have "\<dots> \<le> sum_list (map condition_size (condition_children c))"
        using y(1) by (intro member_le_sum_list) auto
      finally show ?thesis .
    qed
    then have "fold max (map condition_depth (condition_children c)) 0 \<le> sum_list (map condition_size (condition_children c))"
      by (intro fold_max_le) auto
    then show ?thesis using False by (subst condition_depth.simps, subst condition_size.simps) simp
  qed
qed

section \<open>Exit rules\<close>

datatype return_trigger = TAKE_PROFIT | STOP_LOSS

record minute_protection =
  mp_take_profit_pct :: "rat option"
  mp_stop_loss_pct :: "rat option"
  mp_trailing_drawdown_pct :: "rat option"
  mp_limit_price_cny :: "rat option"

definition minute_protection_checks :: "minute_protection \<Rightarrow> (bool \<times> py_error) list" where
  "minute_protection_checks m =
    [(opt_any (\<lambda>p. p \<le> 0 \<or> 10000 < p) (mp_take_profit_pct m), ValueError ''take_profit_pct out of range''),
     (opt_any (\<lambda>p. p \<le> 0 \<or> 100 \<le> p) (mp_stop_loss_pct m), ValueError ''stop_loss_pct out of range''),
     (opt_any (\<lambda>p. p \<le> 0 \<or> 100 \<le> p) (mp_trailing_drawdown_pct m), ValueError ''trailing_drawdown_pct out of range''),
     (opt_any (\<lambda>p. p \<le> 0) (mp_limit_price_cny m), ValueError ''limit_price_cny must be positive''),
     (mp_take_profit_pct m = None \<and> mp_stop_loss_pct m = None \<and> mp_trailing_drawdown_pct m = None,
      ValueError ''minute protection needs a take-profit or stop-loss threshold'')]"

datatype exit_rule =
    MarketExit condition
  | HoldingPeriodExit int
  | PositionReturnExit return_trigger rat
  | TrailingDrawdownExit rat
  | MinuteProtectionExit minute_protection

fun exit_rule_ok :: "exit_rule \<Rightarrow> bool" where
  "exit_rule_ok (MarketExit c) \<longleftrightarrow> valid_condition c"
| "exit_rule_ok (HoldingPeriodExit sessions) \<longleftrightarrow> 1 \<le> sessions \<and> sessions \<le> 10000"
| "exit_rule_ok (PositionReturnExit t threshold) \<longleftrightarrow>
     0 < threshold \<and> threshold \<le> 10000 \<and> \<not> (t = STOP_LOSS \<and> threshold > 100)"
| "exit_rule_ok (TrailingDrawdownExit threshold) \<longleftrightarrow> 0 < threshold \<and> threshold \<le> 100"
| "exit_rule_ok (MinuteProtectionExit m) \<longleftrightarrow> is_ok (checks (minute_protection_checks m))"

fun is_minute_rule :: "exit_rule \<Rightarrow> bool" where
  "is_minute_rule (MinuteProtectionExit _) \<longleftrightarrow> True"
| "is_minute_rule _ \<longleftrightarrow> False"

fun is_holding_rule :: "exit_rule \<Rightarrow> bool" where
  "is_holding_rule (HoldingPeriodExit _) \<longleftrightarrow> True"
| "is_holding_rule _ \<longleftrightarrow> False"

fun is_trailing_rule :: "exit_rule \<Rightarrow> bool" where
  "is_trailing_rule (TrailingDrawdownExit _) \<longleftrightarrow> True"
| "is_trailing_rule _ \<longleftrightarrow> False"

fun return_rule_trigger :: "exit_rule \<Rightarrow> return_trigger option" where
  "return_rule_trigger (PositionReturnExit t _) = Some t"
| "return_rule_trigger _ = None"

datatype exit_op = FIRST_OF | ALL_OF

record exit_policy =
  xp_op :: exit_op
  xp_children :: "exit_rule list"

definition exit_policy_checks :: "exit_policy \<Rightarrow> (bool \<times> py_error) list" where
  "exit_policy_checks x =
    (let minute_rules = filter is_minute_rule (xp_children x);
         return_keys = List.map_filter return_rule_trigger (xp_children x) in
    [(xp_children x = [] \<or> 16 < length (xp_children x), ValueError ''exit children length''),
     (\<not> list_all exit_rule_ok (xp_children x), ValueError ''invalid exit rule''),
     (minute_rules \<noteq> [] \<and> (length minute_rules \<noteq> 1 \<or> xp_op x \<noteq> FIRST_OF),
      ValueError ''minute protection must be one first_of exit node''),
     (1 < length (filter is_holding_rule (xp_children x)), ValueError ''exit may contain at most one holding-period rule''),
     (\<not> distinct return_keys, ValueError ''exit may contain at most one take-profit and one stop-loss rule''),
     (xp_op x = ALL_OF \<and> set return_keys = {TAKE_PROFIT, STOP_LOSS},
      ValueError ''all exit cannot require both take-profit and stop-loss on the same entry-anchored closing return''),
     (1 < length (filter is_trailing_rule (xp_children x)), ValueError ''exit may contain at most one trailing-drawdown rule'')])"

definition mk_exit_policy :: "exit_policy \<Rightarrow> exit_policy result" where
  "mk_exit_policy x = construct (\<lambda>x. checks (exit_policy_checks x)) x"

section \<open>Period and capital of a backtest\<close>

record backtest_config =
  bt_start :: date
  bt_end :: date
  bt_initial_cash_cny :: int

definition backtest_config_checks :: "backtest_config \<Rightarrow> (bool \<times> py_error) list" where
  "backtest_config_checks b =
    [(bt_initial_cash_cny b \<le> 0 \<or> 1000000000 < bt_initial_cash_cny b, ValueError ''initial_cash_cny out of range''),
     (bt_start b > bt_end b, ValueError ''backtest start must be on or before end'')]"

end
