(* ===== verification/Signals.thy ===== *)
theory Signals
  imports MarketData Conditions
begin

text \<open>
  Signal facts of \<open>ashare_lab/domain/signals\<close> (models.py, comparators.py), the exit rules the
  backtest tells apart, the projection of entry facts to occurrences (\<open>application/entry_occurrences.py\<close>), and the
  selection of facts in \<open>application/daily_backtest.py\<close>.  How a fact is computed from bars and
  events (the indicator runtime) is not part of this theory: timelines of facts are inputs.
\<close>

section \<open>Facts (models.py)\<close>

record signal_evidence =
  se_type :: string
  se_id :: string
  se_available_at :: datetime
  se_source_event_id :: "string option"
  se_provider :: "string option"
  se_source_url :: "string option"
  se_time_quality :: "string option"
  se_timestamp_precision :: "string option"
  se_validation_status :: "string option"
  se_raw_response_sha256 :: "string option"

definition signal_evidence_checks :: "signal_evidence \<Rightarrow> (bool \<times> py_error) list" where
  "signal_evidence_checks e =
    [(blank (se_type e) \<or> blank (se_id e), DomainValidationError ''signal evidence type and id cannot be blank''),
     (opt_any blank (se_source_event_id e), DomainValidationError ''signal evidence source_event_id cannot be blank''),
     (opt_any blank (se_provider e), DomainValidationError ''signal evidence provider cannot be blank''),
     (opt_any blank (se_source_url e), DomainValidationError ''signal evidence source_url cannot be blank''),
     (opt_any blank (se_time_quality e), DomainValidationError ''signal evidence time_quality cannot be blank''),
     (opt_any (\<lambda>p. p \<notin> set [''second'', ''minute'', ''hour'', ''date'']) (se_timestamp_precision e),
      DomainValidationError ''signal evidence timestamp_precision is invalid''),
     (opt_any (\<lambda>d. \<not> hex_digest_ok d) (se_raw_response_sha256 e), DomainValidationError ''signal evidence raw hash must be SHA-256'')]"

definition mk_signal_evidence :: "signal_evidence \<Rightarrow> signal_evidence result" where
  "mk_signal_evidence e = construct (\<lambda>e. checks (signal_evidence_checks e)) e"

text \<open>A fact carries the facts of its children, so it is a recursive datatype.\<close>

datatype signal_fact = SignalFact
  (sf_instrument_id: string) (sf_session_date: date) (sf_condition_ref: string) (sf_triggered: bool)
  (sf_observed_at: datetime) (sf_available_at: datetime) (sf_reason: string)
  (sf_left_value: "rat option") (sf_right_value: "rat option")
  (sf_children: "signal_fact list") (sf_evidence: "signal_evidence list")

definition evidence_key :: "signal_evidence \<Rightarrow> string \<times> string \<times> string option" where
  "evidence_key e = (se_type e, se_id e, se_source_event_id e)"

definition signal_fact_checks :: "signal_fact \<Rightarrow> (bool \<times> py_error) list" where
  "signal_fact_checks f =
    [(sf_available_at f < sf_observed_at f, DomainValidationError ''signal available_at cannot precede observed_at''),
     (sf_condition_ref f = [], DomainValidationError ''condition_ref cannot be empty''),
     (sf_reason f = [], DomainValidationError ''signal reason cannot be empty''),
     (list_ex (\<lambda>c. sf_instrument_id c \<noteq> sf_instrument_id f \<or> sf_session_date c \<noteq> sf_session_date f) (sf_children f),
      DomainValidationError ''child signal facts must describe the same bar''),
     (\<not> distinct (map evidence_key (sf_evidence f)), DomainValidationError ''signal evidence must be unique'')]"

definition mk_signal_fact :: "signal_fact \<Rightarrow> signal_fact result" where
  "mk_signal_fact f = construct (\<lambda>f. checks (signal_fact_checks f)) f"

section \<open>Comparators\<close>

datatype comparator = CROSSES_ABOVE | CROSSES_BELOW | GT | GTE | LT | LTE

definition evaluate_comparator :: "comparator \<Rightarrow> rat \<Rightarrow> rat \<Rightarrow> rat option \<Rightarrow> rat option \<Rightarrow> bool result" where
  "evaluate_comparator c left right previous_left previous_right =
     (if c = GT then Inr (left > right)
      else if c = GTE then Inr (left \<ge> right)
      else if c = LT then Inr (left < right)
      else if c = LTE then Inr (left \<le> right)
      else
        (case (previous_left, previous_right) of
           (Some pl, Some pr) \<Rightarrow>
             if c = CROSSES_ABOVE then Inr (pl \<le> pr \<and> left > right) else Inr (pl \<ge> pr \<and> left < right)
         | _ \<Rightarrow> Inl (ValueError ''requires both previous operands'')))"

section \<open>Exit rules the backtest distinguishes\<close>

fun is_account_rule :: "exit_rule \<Rightarrow> bool" where
  "is_account_rule (HoldingPeriodExit _) \<longleftrightarrow> True"
| "is_account_rule (PositionReturnExit _ _) \<longleftrightarrow> True"
| "is_account_rule (TrailingDrawdownExit _) \<longleftrightarrow> True"
| "is_account_rule _ \<longleftrightarrow> False"

fun market_condition :: "exit_rule \<Rightarrow> condition result" where
  "market_condition (MarketExit c) = Inr c"
| "market_condition _ = Inl (ValueError ''not a condition'')"

text \<open>
  The rules the signal runtime evaluates, joined by the operator of the policy; joining builds a new
  condition node, so its validator runs.
\<close>

definition exit_condition :: "exit_policy \<Rightarrow> exit_rule option result" where
  "exit_condition x =
     (case filter (\<lambda>r. \<not> is_account_rule r) (xp_children x) of
        [] \<Rightarrow> Inr None
      | [r] \<Rightarrow> Inr (Some r)
      | rs \<Rightarrow> rbind (map_res market_condition rs) (\<lambda>cs.
                let c = (if xp_op x = ALL_OF then AllCondition cs else AnyCondition cs)
                in rbind (condition_post_init c) (\<lambda>_. Inr (Some (MarketExit c)))))"

fun holding_sessions :: "exit_rule \<Rightarrow> int option" where
  "holding_sessions (HoldingPeriodExit n) = Some n"
| "holding_sessions _ = None"

definition holding_period_exit :: "exit_policy \<Rightarrow> int option" where
  "holding_period_exit x = (case List.map_filter holding_sessions (xp_children x) of [] \<Rightarrow> None | n # _ \<Rightarrow> Some n)"

fun is_risk_rule :: "exit_rule \<Rightarrow> bool" where
  "is_risk_rule (PositionReturnExit _ _) \<longleftrightarrow> True"
| "is_risk_rule (TrailingDrawdownExit _) \<longleftrightarrow> True"
| "is_risk_rule _ \<longleftrightarrow> False"

definition position_risk_exits :: "exit_policy \<Rightarrow> exit_rule list" where
  "position_risk_exits x = filter is_risk_rule (xp_children x)"

section \<open>Entry semantics\<close>

datatype entry_semantics = EDGE_ENTRY | EVENT_ENTRY | STATE_ENTRY | COMPOSITE_ENTRY

definition edge_trigger_ids :: "string list" where
  "edge_trigger_ids = [''bearish'', ''bullish'', ''new_high'', ''surge_down'', ''surge_up'']"

fun entry_signal_semantics :: "condition \<Rightarrow> entry_semantics" where
  "entry_signal_semantics (EventCondition _) = EVENT_ENTRY"
| "entry_signal_semantics (FinancialCondition _) = STATE_ENTRY"
| "entry_signal_semantics (IndicatorCondition c) =
     (if sublist ''cross'' (ic_trigger c) \<or> ic_trigger c \<in> set edge_trigger_ids then EDGE_ENTRY else STATE_ENTRY)"
| "entry_signal_semantics _ = COMPOSITE_ENTRY"

section \<open>Entry occurrences\<close>

text \<open>
  One pass over the timeline with a flag (\<open>active\<close>) for states and a set of seen evidence keys for
  events; the triggers of crossing indicators are pulses and stay as they are.
\<close>

definition occurrence_keys :: "signal_fact \<Rightarrow> (string \<times> string) list" where
  "occurrence_keys f = map (\<lambda>e. (se_type e,
     (case se_source_event_id e of Some s \<Rightarrow> if s = [] then se_id e else s | None \<Rightarrow> se_id e))) (sf_evidence f)"

fun state_occurrences :: "bool \<Rightarrow> signal_fact option list \<Rightarrow> signal_fact option list" where
  "state_occurrences active [] = []"
| "state_occurrences active (None # fs) = None # state_occurrences active fs"
| "state_occurrences active (Some f # fs) =
     (if \<not> sf_triggered f \<or> (sf_triggered f \<and> \<not> active) then Some f else None) # state_occurrences (sf_triggered f) fs"

fun event_occurrences :: "(string \<times> string) set \<Rightarrow> signal_fact option list \<Rightarrow> signal_fact option list" where
  "event_occurrences seen [] = []"
| "event_occurrences seen (None # fs) = None # event_occurrences seen fs"
| "event_occurrences seen (Some f # fs) =
     (let keys = set (occurrence_keys f);
          fresh = sf_triggered f \<and> (keys = {} \<or> \<not> keys \<subseteq> seen)
      in (if \<not> sf_triggered f \<or> fresh then Some f else None) #
           event_occurrences (if sf_triggered f then seen \<union> keys else seen) fs)"

definition entry_occurrences :: "signal_fact option list \<Rightarrow> condition \<Rightarrow> signal_fact option list" where
  "entry_occurrences timeline c =
     (case c of
        IndicatorCondition ic \<Rightarrow> if sublist ''cross'' (ic_trigger ic) then timeline else state_occurrences False timeline
      | EventCondition _ \<Rightarrow> event_occurrences {} timeline
      | _ \<Rightarrow> state_occurrences False timeline)"

section \<open>Selection of facts\<close>

text \<open>\<open>min(xs, key=k)\<close> and \<open>max(xs, key=k)\<close>: the first element with the least or greatest key.\<close>

fun first_min :: "('a \<Rightarrow> 'k::linorder) \<Rightarrow> 'a \<Rightarrow> 'a list \<Rightarrow> 'a" where
  "first_min k x [] = x"
| "first_min k x (y # ys) = first_min k (if k y < k x then y else x) ys"

fun first_max :: "('a \<Rightarrow> 'k::linorder) \<Rightarrow> 'a \<Rightarrow> 'a list \<Rightarrow> 'a" where
  "first_max k x [] = x"
| "first_max k x (y # ys) = first_max k (if k x < k y then y else x) ys"

lemma first_min_least: "first_min k x ys \<in> set (x # ys) \<and> (\<forall>z \<in> set (x # ys). k (first_min k x ys) \<le> k z)"
  by (induction ys arbitrary: x) (fastforce split: if_splits)+

lemma first_max_greatest: "first_max k x ys \<in> set (x # ys) \<and> (\<forall>z \<in> set (x # ys). k z \<le> k (first_max k x ys))"
  by (induction ys arbitrary: x) (fastforce split: if_splits)+

definition exit_key :: "signal_fact \<Rightarrow> datetime \<times> datetime \<times> date \<times> string" where
  "exit_key f = (sf_available_at f, sf_observed_at f, sf_session_date f, sf_condition_ref f)"

definition first_available_exit :: "signal_fact option list \<Rightarrow> signal_fact option" where
  "first_available_exit facts =
     (case List.map_filter id facts of [] \<Rightarrow> None | f # fs \<Rightarrow> Some (first_min exit_key f fs))"

definition signal_is_not_older :: "signal_fact \<Rightarrow> signal_fact \<Rightarrow> bool" where
  "signal_is_not_older f g \<longleftrightarrow>
     (sf_session_date g, sf_observed_at g, sf_available_at g) \<le> (sf_session_date f, sf_observed_at f, sf_available_at f)"

text \<open>
  \<open>_consume_latest_available_signal\<close> with its mutable set of handled indices passed and returned:
  every available fact in the window is marked as handled, the latest of them is returned.
\<close>

definition available_indices ::
  "signal_fact option list \<Rightarrow> nat set \<Rightarrow> nat \<Rightarrow> nat \<Rightarrow> datetime \<Rightarrow> bool \<Rightarrow> nat list" where
  "available_indices timeline handled start up_to cutoff inclusive =
     filter (\<lambda>i. i \<notin> handled \<and>
       opt_any (\<lambda>f. sf_triggered f \<and> (if inclusive then sf_available_at f \<le> cutoff else sf_available_at f < cutoff))
         (timeline ! i)) [start..<Suc up_to]"

definition consume_key :: "signal_fact option list \<Rightarrow> nat \<Rightarrow> date \<times> datetime \<times> datetime \<times> nat" where
  "consume_key timeline i =
     (case timeline ! i of Some f \<Rightarrow> (sf_session_date f, sf_available_at f, sf_observed_at f, i) | None \<Rightarrow> (0, 0, 0, i))"

definition consume_latest_available ::
  "signal_fact option list \<Rightarrow> nat set \<Rightarrow> nat \<Rightarrow> nat \<Rightarrow> datetime \<Rightarrow> bool \<Rightarrow> signal_fact option \<times> nat set" where
  "consume_latest_available timeline handled start up_to cutoff inclusive =
     (case available_indices timeline handled start up_to cutoff inclusive of
        [] \<Rightarrow> (None, handled)
      | i # js \<Rightarrow> (timeline ! first_max (consume_key timeline) i js, handled \<union> set (i # js)))"

section \<open>What selection does\<close>

lemma first_available_exit_earliest:
  assumes "first_available_exit facts = Some f"
  shows "Some f \<in> set facts \<and> (\<forall>g. Some g \<in> set facts \<longrightarrow> exit_key f \<le> exit_key g)"
proof -
  have m: "set (List.map_filter id facts) = {g. Some g \<in> set facts}"
    by (induction facts) (auto simp: List.map_filter_simps split: option.split)
  from assms obtain x xs where x: "List.map_filter id facts = x # xs" "f = first_min exit_key x xs"
    by (auto simp: first_available_exit_def split: list.splits)
  from first_min_least [of exit_key x xs] show ?thesis
    unfolding x(2) [symmetric] x(1) [symmetric] m by blast
qed

lemma first_available_exit_None: "first_available_exit facts = None \<longleftrightarrow> set facts \<subseteq> {None}"
  by (induction facts) (auto simp: first_available_exit_def List.map_filter_simps split: option.splits list.splits)

definition available_at_index ::
  "signal_fact option list \<Rightarrow> nat set \<Rightarrow> nat \<Rightarrow> nat \<Rightarrow> datetime \<Rightarrow> bool \<Rightarrow> nat \<Rightarrow> bool" where
  "available_at_index timeline handled start up_to cutoff inclusive i \<longleftrightarrow>
     start \<le> i \<and> i \<le> up_to \<and> i \<notin> handled \<and>
     opt_any (\<lambda>f. sf_triggered f \<and> (if inclusive then sf_available_at f \<le> cutoff else sf_available_at f < cutoff)) (timeline ! i)"

lemma available_indices_set:
  "set (available_indices timeline h s u c inc) = {i. available_at_index timeline h s u c inc i}"
  by (auto simp: available_indices_def available_at_index_def)

lemma consume_latest_shape:
  assumes "consume_latest_available timeline h s u c inc = (r, h')"
  shows "h' = h \<union> {i. available_at_index timeline h s u c inc i}"
    "r = None \<longleftrightarrow> (\<forall>i. \<not> available_at_index timeline h s u c inc i)"
    "r = Some f \<Longrightarrow> \<exists>i. available_at_index timeline h s u c inc i \<and> timeline ! i = Some f \<and>
       (\<forall>j. available_at_index timeline h s u c inc j \<longrightarrow> consume_key timeline j \<le> consume_key timeline i)"
proof -
  note st = available_indices_set [of timeline h s u c inc]
  have "h' = h \<union> {i. available_at_index timeline h s u c inc i} \<and>
    (r = None \<longleftrightarrow> (\<forall>i. \<not> available_at_index timeline h s u c inc i)) \<and>
    (\<forall>f. r = Some f \<longrightarrow> (\<exists>i. available_at_index timeline h s u c inc i \<and> timeline ! i = Some f \<and>
       (\<forall>j. available_at_index timeline h s u c inc j \<longrightarrow> consume_key timeline j \<le> consume_key timeline i)))"
  proof (cases "available_indices timeline h s u c inc")
    case Nil
    with assms st show ?thesis by (simp add: consume_latest_available_def)
  next
    case (Cons i js)
    define m where "m = first_max (consume_key timeline) i js"
    have r: "r = timeline ! m" "h' = h \<union> set (i # js)"
      using assms by (simp_all add: consume_latest_available_def Cons m_def)
    have m: "available_at_index timeline h s u c inc m"
      "\<forall>j. available_at_index timeline h s u c inc j \<longrightarrow> consume_key timeline j \<le> consume_key timeline m"
      using first_max_greatest [of "consume_key timeline" i js] st unfolding m_def [symmetric] Cons by blast+
    then obtain g where g: "timeline ! m = Some g" by (cases "timeline ! m") (auto simp: available_at_index_def)
    have "h' = h \<union> {i. available_at_index timeline h s u c inc i}" 
      using r(2) unfolding st [symmetric] Cons by simp
    with m g r(1) show ?thesis by auto
  qed
  then show "h' = h \<union> {i. available_at_index timeline h s u c inc i}"
    "r = None \<longleftrightarrow> (\<forall>i. \<not> available_at_index timeline h s u c inc i)"
    "r = Some f \<Longrightarrow> \<exists>i. available_at_index timeline h s u c inc i \<and> timeline ! i = Some f \<and>
       (\<forall>j. available_at_index timeline h s u c inc j \<longrightarrow> consume_key timeline j \<le> consume_key timeline i)"
    by blast+
qed

lemma consume_again:
  assumes "consume_latest_available timeline h s u c inc = (r, h')"
  shows "consume_latest_available timeline h' s u c inc = (None, h')"
proof -
  obtain r2 h2 where c: "consume_latest_available timeline h' s u c inc = (r2, h2)" by fastforce
  have "\<not> available_at_index timeline h' s u c inc i" for i
    using consume_latest_shape(1) [OF assms] by (auto simp: available_at_index_def)
  with consume_latest_shape(1,2) [OF c] c show ?thesis by simp
qed

text \<open>The last known fact of a prefix.\<close>

definition last_triggered :: "bool \<Rightarrow> signal_fact option list \<Rightarrow> bool" where
  "last_triggered active fs = fold (\<lambda>f a. case f of None \<Rightarrow> a | Some f \<Rightarrow> sf_triggered f) fs active"

lemma last_triggered_simps [simp]:
  "last_triggered active [] = active"
  "last_triggered active (None # fs) = last_triggered active fs"
  "last_triggered active (Some f # fs) = last_triggered (sf_triggered f) fs"
  by (simp_all add: last_triggered_def)

definition seen_keys :: "signal_fact option list \<Rightarrow> (string \<times> string) set" where
  "seen_keys fs = \<Union> {set (occurrence_keys f) |f. Some f \<in> set fs \<and> sf_triggered f}"

lemma seen_keys_simps [simp]:
  "seen_keys [] = {}" "seen_keys (None # fs) = seen_keys fs"
  "seen_keys (Some f # fs) = (if sf_triggered f then set (occurrence_keys f) else {}) \<union> seen_keys fs"
  by (auto simp: seen_keys_def)

lemma take_option_case [simp]:
  "last_triggered active (take (Suc n) (x # fs)) = last_triggered active (x # take n fs)"
  "seen_keys (take (Suc n) (x # fs)) = seen_keys (x # take n fs)"
  by simp_all

lemma state_occurrences_nth:
  "i < length fs \<Longrightarrow> state_occurrences active fs ! i =
     (case fs ! i of None \<Rightarrow> None
      | Some f \<Rightarrow> if sf_triggered f \<and> last_triggered active (take i fs) then None else Some f)"
proof (induction active fs arbitrary: i rule: state_occurrences.induct)
  case (1 active)
  then show ?case by simp
next
  case (2 active fs)
  then show ?case by (cases i) (simp_all cong: option.case_cong)
next
  case (3 active f fs)
  then show ?case by (cases i) (simp_all cong: option.case_cong)
qed

lemma state_occurrences_length [simp]: "length (state_occurrences active fs) = length fs"
  by (induction active fs rule: state_occurrences.induct) auto

lemma event_occurrences_length [simp]: "length (event_occurrences seen fs) = length fs"
  by (induction seen fs rule: event_occurrences.induct) (auto simp: Let_def)

lemma event_occurrences_nth:
  "i < length fs \<Longrightarrow> event_occurrences seen fs ! i =
     (case fs ! i of None \<Rightarrow> None
      | Some f \<Rightarrow> if sf_triggered f \<and> occurrence_keys f \<noteq> [] \<and> set (occurrence_keys f) \<subseteq> seen \<union> seen_keys (take i fs)
          then None else Some f)"
proof (induction seen fs arbitrary: i rule: event_occurrences.induct)
  case (1 seen)
  then show ?case by simp
next
  case (2 seen fs)
  then show ?case by (cases i) (simp_all cong: option.case_cong)
next
  case (3 seen f fs)
  show ?case
  proof (cases i)
    case 0
    then show ?thesis by (auto simp: Let_def)
  next
    case (Suc j)
    have "j < length fs" using 3 Suc by simp
    from "3.IH" [OF refl refl this] show ?thesis by (auto simp: Suc Let_def Un_assoc split: option.splits)
  qed
qed

section \<open>Properties\<close>

text \<open>An entry occurs once per episode: the projection keeps the length of the timeline and every fact that
  is not triggered; crossing indicators keep all pulses; for states it drops exactly the triggered facts whose
  last known predecessor was triggered; for events exactly those whose evidence was all seen before.\<close>

theorem entries_once_per_episode:
  assumes "i < length timeline"
  shows "length (entry_occurrences timeline c) = length timeline \<and>
    entry_occurrences timeline c ! i =
      (case timeline ! i of None \<Rightarrow> None
       | Some f \<Rightarrow>
           if sf_triggered f \<and>
             (case c of
                IndicatorCondition ic \<Rightarrow> \<not> sublist ''cross'' (ic_trigger ic) \<and> last_triggered False (take i timeline)
              | EventCondition _ \<Rightarrow> occurrence_keys f \<noteq> [] \<and> set (occurrence_keys f) \<subseteq> seen_keys (take i timeline)
              | _ \<Rightarrow> last_triggered False (take i timeline))
           then None else Some f)"
  using assms
  by (cases c; cases "timeline ! i") (auto simp: entry_occurrences_def state_occurrences_nth event_occurrences_nth)

definition sample_fact :: "date \<Rightarrow> bool \<Rightarrow> signal_fact" where
  "sample_fact d t = SignalFact ''300059.SZ'' d ''indicator:ma'' t (combine d (hm 15 0)) (combine d (hm 15 0)) ''close''
     None None [] []"

definition sample_indicator :: indicator_condition where
  "sample_indicator = \<lparr>ic_indicator_id = ''technical.ma'', ic_definition_version = ''1.0.0'', ic_params = [],
     ic_trigger = ''above'', ic_value = None\<rparr>"

definition sample_timeline :: "signal_fact option list" where
  "sample_timeline = [Some (sample_fact 1 True), Some (sample_fact 2 True), None, Some (sample_fact 4 True),
     Some (sample_fact 5 False), Some (sample_fact 6 True)]"

theorem entries_once_per_episode_witness:
  "entry_occurrences sample_timeline (IndicatorCondition sample_indicator) ! 3 = None \<and>
   entry_occurrences sample_timeline (IndicatorCondition sample_indicator) ! 5 = Some (sample_fact 6 True)"
proof -
  have l: "3 < length sample_timeline" "5 < length sample_timeline" by (simp_all add: sample_timeline_def)
  have s: "\<not> sublist ''cross'' (ic_trigger sample_indicator)" by code_simp
  have "last_triggered False (take 3 sample_timeline)" "\<not> last_triggered False (take 5 sample_timeline)"
    "sample_timeline ! 3 = Some (sample_fact 4 True)" "sample_timeline ! 5 = Some (sample_fact 6 True)"
    "sf_triggered (sample_fact 4 True)"
    by code_simp+
  then show ?thesis
    using entries_once_per_episode [OF l(1), of "IndicatorCondition sample_indicator"]
      entries_once_per_episode [OF l(2), of "IndicatorCondition sample_indicator"] s by simp
qed

text \<open>No signal is acted upon twice and none is skipped: consuming marks exactly the available facts of the
  window as handled and returns the one that is latest by session, availability and observation (none exactly
  when none is available), never one that was not available by the cutoff; consuming again returns nothing.\<close>

theorem signals_consumed_once:
  assumes "consume_latest_available timeline h s u c inc = (r, h')"
  shows "h' = h \<union> {i. available_at_index timeline h s u c inc i} \<and>
    (case r of
       None \<Rightarrow> \<forall>i. \<not> available_at_index timeline h s u c inc i
     | Some f \<Rightarrow> sf_triggered f \<and> sf_available_at f \<le> c \<and>
         (\<exists>i. available_at_index timeline h s u c inc i \<and> timeline ! i = Some f \<and>
           (\<forall>j. available_at_index timeline h s u c inc j \<longrightarrow> consume_key timeline j \<le> consume_key timeline i))) \<and>
    consume_latest_available timeline h' s u c inc = (None, h')"
proof (cases r)
  case None
  then show ?thesis using consume_latest_shape(1,2) [OF assms] consume_again [OF assms] by simp
next
  case (Some f)
  from consume_latest_shape(3) [OF assms Some] obtain i where i: "available_at_index timeline h s u c inc i"
      "timeline ! i = Some f"
      "\<forall>j. available_at_index timeline h s u c inc j \<longrightarrow> consume_key timeline j \<le> consume_key timeline i"
    by blast
  have "sf_triggered f \<and> sf_available_at f \<le> c" using i(1,2) by (auto simp: available_at_index_def split: if_splits)
  then show ?thesis using Some i consume_latest_shape(1) [OF assms] consume_again [OF assms] by auto
qed

theorem signals_consumed_once_witness:
  "\<exists>h. consume_latest_available sample_timeline {0} 0 3 (combine 3 0) True = (Some (sample_fact 2 True), h) \<and>
     consume_latest_available sample_timeline h 0 3 (combine 3 0) True = (None, h)"
proof -
  have "fst (consume_latest_available sample_timeline {0} 0 3 (combine 3 0) True) = Some (sample_fact 2 True)" by code_simp
  then obtain h where h: "consume_latest_available sample_timeline {0} 0 3 (combine 3 0) True = (Some (sample_fact 2 True), h)"
    by (metis prod.collapse)
  from signals_consumed_once [OF h] h show ?thesis by blast
qed

end
