(* ===== verification/Execution.thy ===== *)
theory Execution
  imports CorporateActions Calendar Matching Sizing Signals
begin

text \<open>
  One attempt of the daily backtest to execute a decision (\<open>application/daily_backtest.py\<close>): the
  identifiers of a run, its configuration, decisions, the order of a session from creation to its
  terminal state, and the portfolio after the attempt.  It composes the sizing, the order state
  machine, the matcher, the fee provider and the ledger.  The calendar and the fee provider are the
  function arguments \<open>next_day\<close> and \<open>quote\<close> (the source's protocols).
\<close>

section \<open>Identifiers of a run\<close>

definition pad :: "nat \<Rightarrow> int \<Rightarrow> string" where
  "pad width n = replicate (width - length (show_int n)) (CHR ''0'') @ show_int n"

record id_sequence =
  ids_run_key :: string
  ids_decision :: int
  ids_order :: int
  ids_fill :: int

definition run_id :: "string \<Rightarrow> string \<Rightarrow> nat \<Rightarrow> int \<Rightarrow> string" where
  "run_id kind key width n = kind @ '':'' @ key @ '':'' @ pad width n"

definition next_decision_id :: "id_sequence \<Rightarrow> (string \<times> id_sequence) result" where
  "next_decision_id ids =
     (let n = ids_decision ids + 1 in
      rbind (mk_id (run_id ''decision'' (ids_run_key ids) 6 n)) (\<lambda>i. Inr (i, ids\<lparr>ids_decision := n\<rparr>)))"

definition next_order_id :: "id_sequence \<Rightarrow> (string \<times> id_sequence) result" where
  "next_order_id ids =
     (let n = ids_order ids + 1 in
      rbind (mk_id (run_id ''order'' (ids_run_key ids) 6 n)) (\<lambda>i. Inr (i, ids\<lparr>ids_order := n\<rparr>)))"

definition next_fill_id :: "id_sequence \<Rightarrow> (string \<times> id_sequence) result" where
  "next_fill_id ids =
     (let n = ids_fill ids + 1 in
      rbind (mk_id (run_id ''fill'' (ids_run_key ids) 6 n)) (\<lambda>i. Inr (i, ids\<lparr>ids_fill := n\<rparr>)))"

definition order_event_id :: "string \<Rightarrow> int \<Rightarrow> string result" where
  "order_event_id order_id sequence = mk_id (run_id ''event'' order_id 2 sequence)"

text \<open>\<open>_safe_run_key\<close>: strings are ASCII, so \<open>isascii\<close> holds.\<close>

definition safe_run_key :: "string \<Rightarrow> string result" where
  "safe_run_key value =
     (let safe = filter (\<lambda>c. ascii_alnum c \<or> c \<in> set ''_-.'') value
      in if safe = [] then Inl (DailyBacktestInputError ''run_key must contain a safe identifier character'')
         else Inr (take 40 safe))"

section \<open>Configuration\<close>

record daily_config =
  dc_participation_rate :: rat
  dc_slippage_bps :: rat
  dc_slippage_cny :: rat
  dc_limit_handling :: limit_handling
  dc_allocation_ratio :: rat
  dc_retry_unfilled_exits :: bool
  dc_max_exit_attempts :: int
  dc_capacity_mode :: capacity_mode
  dc_edge_entry_validity_sessions :: int
  dc_event_entry_validity_sessions :: int
  dc_state_entry_validity_sessions :: int

definition max_entry_validity_sessions :: int where
  "max_entry_validity_sessions = 20"

definition daily_config_checks :: "daily_config \<Rightarrow> (bool \<times> py_error) list" where
  "daily_config_checks c =
    [(\<not> (0 < dc_participation_rate c \<and> dc_participation_rate c \<le> 1), DailyBacktestInputError ''participation_rate must be in (0, 1]''),
     (\<not> (0 < dc_allocation_ratio c \<and> dc_allocation_ratio c \<le> 1), DailyBacktestInputError ''allocation_ratio must be in (0, 1]''),
     (dc_slippage_bps c < 0, DailyBacktestInputError ''slippage_bps cannot be negative''),
     (dc_slippage_cny c < 0, DailyBacktestInputError ''slippage_cny must be finite and non-negative''),
     (dc_max_exit_attempts c < 1, DailyBacktestInputError ''max_exit_attempts must be positive''),
     (list_ex (\<lambda>v. \<not> (1 \<le> v \<and> v \<le> max_entry_validity_sessions))
        [dc_edge_entry_validity_sessions c, dc_event_entry_validity_sessions c, dc_state_entry_validity_sessions c],
      DailyBacktestInputError ''entry signal validity sessions must be integers in [1, 20]''),
     (dc_event_entry_validity_sessions c \<noteq> 1,
      DailyBacktestInputError ''event entry validity sessions must be 1 until point-in-time revision invalidation is supported''),
     (dc_state_entry_validity_sessions c \<noteq> 1,
      DailyBacktestInputError ''state entry validity sessions must be 1 until point-in-time state revalidation is supported'')]"

definition mk_daily_config :: "daily_config \<Rightarrow> daily_config result" where
  "mk_daily_config c = construct (\<lambda>c. checks (daily_config_checks c)) c"

definition config_ok :: "daily_config \<Rightarrow> bool" where
  "config_ok c \<longleftrightarrow> is_ok (checks (daily_config_checks c))"

section \<open>Decisions\<close>

datatype decision_status =
    PENDING_DECISION | RETRYING | FILLED_DECISION | PARTIALLY_FILLED_DECISION | UNFILLED | NO_FUTURE_SESSION
  | REJECTED_DECISION | CANCELLED_DECISION

record strategy_decision =
  sd_decision_id :: string
  sd_side :: order_side
  sd_signal :: signal_fact
  sd_created_at :: datetime
  sd_status :: decision_status
  sd_order_ids :: "string list"
  sd_attempts :: int
  sd_outcome_reason :: "string option"
  sd_signal_semantics :: "entry_semantics option"
  sd_signal_validity_sessions :: "int option"

definition entry_validity_sessions :: "daily_config \<Rightarrow> entry_semantics \<Rightarrow> int" where
  "entry_validity_sessions c e =
     (case e of
        EDGE_ENTRY \<Rightarrow> dc_edge_entry_validity_sessions c
      | EVENT_ENTRY \<Rightarrow> 1
      | STATE_ENTRY \<Rightarrow> dc_state_entry_validity_sessions c
      | COMPOSITE_ENTRY \<Rightarrow> 1)"

text \<open>\<open>_new_decision\<close> appends to the list of decisions; the new one is the last.\<close>

definition new_decision ::
  "strategy_decision list \<Rightarrow> id_sequence \<Rightarrow> order_side \<Rightarrow> signal_fact \<Rightarrow> daily_config \<Rightarrow> condition \<Rightarrow>
   (strategy_decision list \<times> id_sequence) result" where
  "new_decision decisions ids side signal config entry =
     (let semantics = (if side = BUY then Some (entry_signal_semantics entry) else None) in
      rbind (next_decision_id ids) (\<lambda>(i, ids').
      Inr (decisions @ [\<lparr>sd_decision_id = i, sd_side = side, sd_signal = signal, sd_created_at = sf_available_at signal,
             sd_status = PENDING_DECISION, sd_order_ids = [], sd_attempts = 0, sd_outcome_reason = None,
             sd_signal_semantics = semantics,
             sd_signal_validity_sessions = map_option (entry_validity_sessions config) semantics\<rparr>], ids')))"

definition persistent_prefixes :: "string list" where
  "persistent_prefixes =
     [''holding_period_exit:'', ''position_return_exit:'', ''trailing_drawdown_exit:'', ''all:account_and_market'']"

definition is_persistent_account_exit :: "strategy_decision \<Rightarrow> bool" where
  "is_persistent_account_exit d \<longleftrightarrow>
     sd_side d = SELL \<and> list_ex (\<lambda>p. starts_with p (sf_condition_ref (sd_signal d))) persistent_prefixes"

definition economic_position_quantity :: "portfolio_state \<Rightarrow> string \<Rightarrow> int result" where
  "economic_position_quantity s inst =
     (let value = position_quantity s inst + pending_share_delta s inst
      in if value < 0 then Inl (DailyBacktestInputError ''corporate action produced negative economic shares'')
         else Inr value)"

section \<open>One attempt\<close>

record order_trace =
  ot_order :: order
  ot_events :: "order_event list"
  ot_match :: match_result

record attempt =
  at_portfolio :: portfolio_state
  at_decision :: strategy_decision
  at_trace :: "order_trace option"
  at_fill :: "fill_record option"
  at_retry :: bool
  at_ids :: id_sequence

definition opening_auction_accept_at :: clock_time where
  "opening_auction_accept_at = hm 9 15"

definition daily_opening_price_proxy_at :: clock_time where
  "daily_opening_price_proxy_at = hm 9 30"

definition decision_processing_latency :: int where
  "decision_processing_latency = seconds 1"

definition session_close :: "date \<Rightarrow> datetime" where
  "session_close d = combine d (hm 15 0)"

definition retryable_entry_reasons :: "string list" where
  "retryable_entry_reasons =
     [''adverse_price_limit'', ''daily_unlock_timing_unknown'', ''one_price_limit_up'', ''participation_capacity_zero'',
      ''point_in_time_volume_zero'']"

text \<open>\<open>except (KeyError, ValueError)\<close>: the classes below \<open>KeyError\<close> or \<open>ValueError\<close>.\<close>

fun is_key_or_value_error :: "py_error \<Rightarrow> bool" where
  "is_key_or_value_error (InvalidOrderTransition _) \<longleftrightarrow> False"
| "is_key_or_value_error (TypeError _) \<longleftrightarrow> False"
| "is_key_or_value_error AssertionError \<longleftrightarrow> False"
| "is_key_or_value_error AttributeError \<longleftrightarrow> False"
| "is_key_or_value_error IndexError \<longleftrightarrow> False"
| "is_key_or_value_error ZeroDivisionError \<longleftrightarrow> False"
| "is_key_or_value_error StopIteration \<longleftrightarrow> False"
| "is_key_or_value_error DecimalInvalidOperation \<longleftrightarrow> False"
| "is_key_or_value_error DecimalDivisionByZero \<longleftrightarrow> False"
| "is_key_or_value_error _ \<longleftrightarrow> True"

text \<open>What stands before the order: an early return with its status, or quantity, limit and T+1 date.\<close>

datatype terms =
    Stop decision_status string bool
  | Order (terms_quantity: int) (terms_limit: price) (terms_sellable_on: "date option")

definition buy_terms ::
  "(date \<Rightarrow> date result) \<Rightarrow> (order_side \<Rightarrow> price \<Rightarrow> int \<Rightarrow> date \<Rightarrow> fee_breakdown result) \<Rightarrow> daily_config \<Rightarrow>
   daily_bar \<Rightarrow> instrument_session \<Rightarrow> portfolio_state \<Rightarrow> terms result option" where
  "buy_terms next_day quote config bar session portfolio =
     (case next_day (b_session_date bar) of
        Inl e \<Rightarrow>
          Some (if is_key_or_value_error e
                then Inr (Stop NO_FUTURE_SESSION ''no_proven_t_plus_one_session_after_buy_fill'' False) else Inl e)
      | Inr sellable_on \<Rightarrow>
          map_option (\<lambda>r. rbind r (\<lambda>sizing. Inr
              (case sizing of
                 None \<Rightarrow> Stop REJECTED_DECISION ''pre_open_buy_sizing_upper_limit_unavailable'' False
               | Some z \<Rightarrow>
                   if z_quantity z = 0 then Stop REJECTED_DECISION ''insufficient_cash_for_minimum_buy_quantity'' False
                   else Order (z_quantity z) (z_affordability_price z) (Some sellable_on))))
            (size_pre_open_buy quote (ps_cash portfolio) session (dc_allocation_ratio config) (b_session_date bar)))"

definition sell_terms ::
  "daily_config \<Rightarrow> strategy_decision \<Rightarrow> daily_bar \<Rightarrow> instrument_session \<Rightarrow> portfolio_state \<Rightarrow> string \<Rightarrow> terms result" where
  "sell_terms config decision bar session portfolio inst =
     rbind (price_with_slippage (b_open bar) (sd_side decision) (dc_slippage_bps config) (dc_slippage_cny config)
              (s_price_tick session) (Some (amount (b_low bar))) (Some (amount (b_high bar)))) (\<lambda>expected_price.
     let quantity = sellable_quantity portfolio inst (b_session_date bar) in
     if quantity = 0 then
       let retry = is_persistent_account_exit decision \<and> dc_retry_unfilled_exits config
       in Inr (Stop (if retry then RETRYING else UNFILLED) ''insufficient_sellable_quantity'' retry)
     else Inr (Order quantity (case s_lower_limit session of Some l \<Rightarrow> l | None \<Rightarrow> expected_price) None))"

definition attempt_terms ::
  "(date \<Rightarrow> date result) \<Rightarrow> (order_side \<Rightarrow> price \<Rightarrow> int \<Rightarrow> date \<Rightarrow> fee_breakdown result) \<Rightarrow> daily_config \<Rightarrow>
   strategy_decision \<Rightarrow> daily_bar \<Rightarrow> instrument_session \<Rightarrow> portfolio_state \<Rightarrow> string \<Rightarrow> terms result option" where
  "attempt_terms next_day quote config decision bar session portfolio inst =
     (if sd_side decision = BUY then buy_terms next_day quote config bar session portfolio
      else Some (sell_terms config decision bar session portfolio inst))"

text \<open>The day order: created, submitted and accepted at the same instant, with its three events.\<close>

definition place_order ::
  "string \<Rightarrow> strategy_decision \<Rightarrow> string \<Rightarrow> int \<Rightarrow> price \<Rightarrow> datetime \<Rightarrow> datetime \<Rightarrow> datetime \<Rightarrow>
   (order \<times> order_event list) result" where
  "place_order order_id decision inst quantity limit submitted_at open_at close_at =
     rbind (order_event_id order_id 1) (\<lambda>e1.
     rbind (create_order order_id e1 (sd_decision_id decision) inst (sd_side decision) quantity limit
              submitted_at open_at close_at MARKETABLE_LIMIT DAY) (\<lambda>created.
     rbind (order_event_id order_id 2) (\<lambda>e2.
     rbind (submit_order (tr_order created) e2 submitted_at) (\<lambda>submitted.
     rbind (order_event_id order_id 3) (\<lambda>e3.
     rbind (accept_order (tr_order submitted) e3 submitted_at open_at) (\<lambda>accepted.
       Inr (tr_order accepted, [tr_event created, tr_event submitted, tr_event accepted])))))))"

definition attempt_request ::
  "daily_config \<Rightarrow> order \<Rightarrow> daily_bar \<Rightarrow> instrument_session \<Rightarrow> datetime \<Rightarrow> volume_observation option \<Rightarrow> match_request" where
  "attempt_request config x bar session open_at volume =
     \<lparr>q_order = x, q_bar = bar, q_session = session, q_opening_price_proxy_at = open_at,
      q_participation_rate = dc_participation_rate config, q_slippage_bps = dc_slippage_bps config,
      q_slippage_cny = dc_slippage_cny config, q_limit_handling = dc_limit_handling config,
      q_capacity_mode = dc_capacity_mode config, q_point_in_time_volume = volume\<rparr>"

text \<open>The fill of a match: recorded in the order, charged with fees, booked into the portfolio.\<close>

definition book_fill ::
  "(order_side \<Rightarrow> price \<Rightarrow> int \<Rightarrow> date \<Rightarrow> fee_breakdown result) \<Rightarrow> strategy_decision \<Rightarrow> string \<Rightarrow> date \<Rightarrow> date option \<Rightarrow>
   order \<Rightarrow> match_result \<Rightarrow> portfolio_state \<Rightarrow> id_sequence \<Rightarrow>
   (order_transition \<times> fill_record \<times> portfolio_state \<times> id_sequence) result" where
  "book_fill quote decision inst day sellable_on x match portfolio ids =
     (case (r_price match, r_filled_at match) of
        (Some price, Some filled_at) \<Rightarrow>
          rbind (next_fill_id ids) (\<lambda>(fill_id, ids').
          rbind (order_event_id (o_order_id x) 4) (\<lambda>e4.
          rbind (record_fill x e4 fill_id filled_at (r_quantity match) price) (\<lambda>filled.
          rbind (quote (sd_side decision) price (r_quantity match) day) (\<lambda>fees.
          rbind (mk_fill_record \<lparr>f_fill_id = fill_id, f_order_id = o_order_id x, f_instrument_id = inst,
                   f_side = sd_side decision, f_quantity = r_quantity match, f_price = price,
                   f_filled_at = filled_at, f_fees = fees\<rparr>) (\<lambda>fill.
          rbind (if sd_side decision = BUY
                 then (case sellable_on of Some d \<Rightarrow> apply_buy portfolio fill d | None \<Rightarrow> Inl AssertionError)
                 else apply_sell portfolio fill) (\<lambda>portfolio'.
            Inr (filled, fill, portfolio', ids')))))))
      | _ \<Rightarrow> Inl AssertionError)"

text \<open>An order that is not filled at the close expires.\<close>

definition close_order :: "order \<Rightarrow> match_result \<Rightarrow> datetime \<Rightarrow> (order \<times> order_event list) result" where
  "close_order x match close_at =
     (if o_status x \<noteq> FILLED then
        rbind (order_event_id (o_order_id x) (o_version x + 1)) (\<lambda>e.
        rbind (expire_order x e close_at
                 (if r_outcome match \<noteq> NO_FILL then ''day_remainder_expired'' else r_reason_code match)) (\<lambda>expired.
          Inr (tr_order expired, [tr_event expired])))
      else Inr (x, []))"

text \<open>The retry rules and the decision after the attempt.\<close>

definition retry_exit :: "daily_config \<Rightarrow> strategy_decision \<Rightarrow> int \<Rightarrow> int \<Rightarrow> bool" where
  "retry_exit config decision attempts economic \<longleftrightarrow>
     is_persistent_account_exit decision \<and> economic > 0 \<and> dc_retry_unfilled_exits config \<and>
     (starts_with ''holding_period_exit:'' (sf_condition_ref (sd_signal decision)) \<or>
      attempts < dc_max_exit_attempts config)"

definition retry_entry :: "strategy_decision \<Rightarrow> match_result \<Rightarrow> fill_record option \<Rightarrow> int \<Rightarrow> bool" where
  "retry_entry decision match fill attempts \<longleftrightarrow>
     sd_side decision = BUY \<and> fill = None \<and> r_outcome match = NO_FILL \<and>
     r_reason_code match \<in> set retryable_entry_reasons \<and>
     opt_any (\<lambda>n. attempts < n) (sd_signal_validity_sessions decision)"

definition settle_decision ::
  "daily_config \<Rightarrow> strategy_decision \<Rightarrow> order \<Rightarrow> match_result \<Rightarrow> fill_record option \<Rightarrow> int \<Rightarrow> strategy_decision \<times> bool" where
  "settle_decision config decision x match fill economic =
     (let attempts = sd_attempts decision + 1;
          exit_again = retry_exit config decision attempts economic;
          entry_again = retry_entry decision match fill attempts;
          again = (exit_again \<or> entry_again)
      in (decision\<lparr>sd_status :=
              (if again then (if fill \<noteq> None then PARTIALLY_FILLED_DECISION else RETRYING)
               else if fill = None then UNFILLED
               else if o_filled_quantity x = o_quantity x then FILLED_DECISION
               else PARTIALLY_FILLED_DECISION),
            sd_order_ids := sd_order_ids decision @ [o_order_id x],
            sd_attempts := attempts,
            sd_outcome_reason := Some
              (if exit_again then ''retry_exit_remaining_position''
               else if entry_again then ''retry_entry_after:'' @ r_reason_code match
               else r_reason_code match)\<rparr>, again))"

definition run_order ::
  "(order_side \<Rightarrow> price \<Rightarrow> int \<Rightarrow> date \<Rightarrow> fee_breakdown result) \<Rightarrow> daily_config \<Rightarrow> strategy_decision \<Rightarrow> daily_bar \<Rightarrow>
   instrument_session \<Rightarrow> portfolio_state \<Rightarrow> id_sequence \<Rightarrow> string \<Rightarrow> volume_observation option \<Rightarrow>
   int \<Rightarrow> price \<Rightarrow> date option \<Rightarrow> attempt result" where
  "run_order quote config decision bar session portfolio ids inst volume quantity limit sellable_on =
     (let open_at = combine (b_session_date bar) daily_opening_price_proxy_at;
          close_at = combine (b_session_date bar) (hm 15 0);
          submitted_at = max (sd_created_at decision + decision_processing_latency)
            (combine (b_session_date bar) opening_auction_accept_at) in
      rbind (next_order_id ids) (\<lambda>(order_id, ids1).
      rbind (place_order order_id decision inst quantity limit submitted_at open_at close_at) (\<lambda>(accepted, events).
      rbind (mk_match_request (attempt_request config accepted bar session open_at volume)) (\<lambda>q.
      rbind (match_order q) (\<lambda>match.
      rbind (if r_outcome match \<noteq> NO_FILL
             then rbind (book_fill quote decision inst (b_session_date bar) sellable_on accepted match portfolio ids1)
               (\<lambda>(filled, fill, portfolio', ids2). Inr (tr_order filled, [tr_event filled], Some fill, portfolio', ids2))
             else Inr (accepted, [], None, portfolio, ids1)) (\<lambda>(x, fill_events, fill, portfolio', ids2).
      rbind (close_order x match close_at) (\<lambda>(final, close_events).
      rbind (economic_position_quantity portfolio' inst) (\<lambda>economic.
        Inr (case settle_decision config decision final match fill economic of (decision', again) \<Rightarrow>
          \<lparr>at_portfolio = portfolio', at_decision = decision',
           at_trace = Some \<lparr>ot_order = final, ot_events = events @ fill_events @ close_events, ot_match = match\<rparr>,
           at_fill = fill, at_retry = again, at_ids = ids2\<rparr>)))))))))"

definition attempt_decision ::
  "(date \<Rightarrow> date result) \<Rightarrow> (order_side \<Rightarrow> price \<Rightarrow> int \<Rightarrow> date \<Rightarrow> fee_breakdown result) \<Rightarrow> daily_config \<Rightarrow>
   strategy_decision \<Rightarrow> daily_bar \<Rightarrow> instrument_session \<Rightarrow> portfolio_state \<Rightarrow> id_sequence \<Rightarrow> string \<Rightarrow>
   volume_observation option \<Rightarrow> attempt result option" where
  "attempt_decision next_day quote config decision bar session portfolio ids inst volume =
     map_option (\<lambda>t. rbind t (\<lambda>t.
       case t of
         Stop status reason again \<Rightarrow>
           Inr \<lparr>at_portfolio = portfolio,
                at_decision = decision\<lparr>sd_status := status, sd_outcome_reason := Some reason\<rparr>,
                at_trace = None, at_fill = None, at_retry = again, at_ids = ids\<rparr>
       | Order quantity limit sellable_on \<Rightarrow>
           run_order quote config decision bar session portfolio ids inst volume quantity limit sellable_on))
       (attempt_terms next_day quote config decision bar session portfolio inst)"

end
