(* ===== verification/Attempt.thy ===== *)
theory Attempt
  imports Execution
begin

text \<open>
  What an attempt of the daily backtest guarantees: fresh identifiers, a complete audit trail for
  every order, a portfolio that changes exactly by the booked fill, bounded retries, and a buy that
  is never refused for lack of cash.
\<close>

section \<open>Identifiers\<close>

lemma show_nat_length: "0 \<le> n \<Longrightarrow> n < 10 ^ m \<Longrightarrow> 0 < m \<Longrightarrow> length (show_nat n) \<le> m"
proof (induction m arbitrary: n)
  case 0
  then show ?case by simp
next
  case (Suc m)
  show ?case
  proof (cases "n < 10")
    case True
    then show ?thesis by (subst show_nat.simps) simp
  next
    case False
    then have "0 < m" using Suc.prems by (cases m) auto
    moreover have "n div 10 < 10 ^ m" using Suc.prems by simp
    ultimately have "length (show_nat (n div 10)) \<le> m" using False by (intro Suc.IH) auto
    then show ?thesis using False by (subst show_nat.simps) simp
  qed
qed

lemma read_nat_zeros: "read_nat (replicate k (CHR ''0'') @ s) = read_nat s"
  by (induction k) (simp_all add: read_nat_def char_digit_def)

lemma read_pad: "0 \<le> n \<Longrightarrow> read_nat (pad w n) = n"
  by (simp add: pad_def read_nat_zeros show_int_def read_show_nat)

lemma pad_digits: "0 \<le> n \<Longrightarrow> list_all is_digit (pad w n)"
  using show_nat_digits [of n] by (auto simp: pad_def show_int_def list_all_iff is_digit_def)

lemma pad_length: "0 \<le> n \<Longrightarrow> n < 10 ^ m \<Longrightarrow> 0 < m \<Longrightarrow> length (pad w n) \<le> max w m"
  using show_nat_length [of n m] by (auto simp: pad_def show_int_def)

lemma run_id_inject: "0 \<le> m \<Longrightarrow> 0 \<le> n \<Longrightarrow> run_id kind key w m = run_id kind key w n \<longleftrightarrow> m = n"
proof -
  assume m: "0 \<le> m" "0 \<le> n"
  have "run_id kind key w m = run_id kind key w n \<longleftrightarrow> pad w m = pad w n" by (simp add: run_id_def)
  also have "\<dots> \<longleftrightarrow> m = n" using read_pad [OF m(1), of w] read_pad [OF m(2), of w] by metis
  finally show ?thesis .
qed

definition safe_key :: "string \<Rightarrow> bool" where
  "safe_key k \<longleftrightarrow> k \<noteq> [] \<and> list_all (\<lambda>c. ascii_alnum c \<or> c \<in> set ''_-.'') k \<and> length k \<le> 40"

lemma safe_run_key_safe: "safe_run_key v = Inr k \<Longrightarrow> safe_key k"
  by (auto simp: safe_run_key_def safe_key_def Let_def list_all_iff split: if_splits dest!: in_set_takeD)

lemma is_digit_id_tail: "is_digit c \<Longrightarrow> id_tail c"
  by (simp add: is_digit_def id_tail_def id_head_def Let_def)

lemma safe_key_id_tail: "safe_key k \<Longrightarrow> list_all id_tail k"
  by (auto simp: safe_key_def list_all_iff ascii_alnum_def ascii_letter_def lower_letter_def is_digit_def id_tail_def
      id_head_def Let_def)

lemma strong_id_okI: "s \<noteq> [] \<Longrightarrow> id_head (hd s) \<Longrightarrow> list_all id_tail s \<Longrightarrow> length s \<le> 128 \<Longrightarrow> strong_id_ok s"
  by (cases s) auto

lemma run_id_ok:
  assumes "kind \<noteq> []" "list_all id_head kind" "list_all id_tail key" "0 \<le> n" "n < 10 ^ m" "0 < m"
    "length kind + length key + max w m \<le> 126"
  shows "strong_id_ok (run_id kind key w n)"
proof (rule strong_id_okI)
  show "run_id kind key w n \<noteq> []" "id_head (hd (run_id kind key w n))"
    using assms(1,2) by (simp_all add: run_id_def list_all_iff)
  have "list_all id_tail (pad w n)"
    using pad_digits [OF assms(4), of w] is_digit_id_tail by (auto simp: list_all_iff)
  moreover have "id_tail (CHR '':'')" by code_simp
  ultimately show "list_all id_tail (run_id kind key w n)"
    using assms(2,3) list_all_id_tail by (simp add: run_id_def)
  show "length (run_id kind key w n) \<le> 128" using pad_length [OF assms(4-6), of w] assms(7) by (simp add: run_id_def)
qed

text \<open>A run never gets near the bound of its counters.\<close>

definition ids_ok :: "id_sequence \<Rightarrow> bool" where
  "ids_ok ids \<longleftrightarrow> safe_key (ids_run_key ids) \<and> 0 \<le> ids_decision ids \<and> ids_decision ids < 10 ^ 50 \<and>
     0 \<le> ids_order ids \<and> ids_order ids < 10 ^ 50 \<and> 0 \<le> ids_fill ids \<and> ids_fill ids < 10 ^ 50"

lemma kinds_ok: "list_all id_head ''decision''" "list_all id_head ''order''" "list_all id_head ''fill''" "list_all id_head ''event''"
  by code_simp+

lemma counter_id_ok:
  assumes "safe_key key" "0 \<le> n" "n < 10 ^ 50" "kind \<in> {''decision'', ''order'', ''fill''}"
  shows "strong_id_ok (run_id kind key 6 (n + 1))"
proof (rule run_id_ok [where m = 51])
  show "n + 1 < 10 ^ 51" using assms(3) by simp
  show "length kind + length key + max 6 51 \<le> 126" using assms(1,4) by (auto simp: safe_key_def)
qed (use assms kinds_ok safe_key_id_tail in auto)

lemma next_ids_ok:
  assumes "ids_ok ids"
  shows "next_decision_id ids = Inr (run_id ''decision'' (ids_run_key ids) 6 (ids_decision ids + 1), ids\<lparr>ids_decision := ids_decision ids + 1\<rparr>)"
    "next_order_id ids = Inr (run_id ''order'' (ids_run_key ids) 6 (ids_order ids + 1), ids\<lparr>ids_order := ids_order ids + 1\<rparr>)"
    "next_fill_id ids = Inr (run_id ''fill'' (ids_run_key ids) 6 (ids_fill ids + 1), ids\<lparr>ids_fill := ids_fill ids + 1\<rparr>)"
  using assms counter_id_ok
  by (simp_all add: ids_ok_def next_decision_id_def next_order_id_def next_fill_id_def Let_def mk_id_def)

lemma next_order_id_Inr:
  "next_order_id ids = Inr (i, ids') \<Longrightarrow> i = run_id ''order'' (ids_run_key ids) 6 (ids_order ids + 1) \<and>
     ids' = ids\<lparr>ids_order := ids_order ids + 1\<rparr>"
  by (auto simp: next_order_id_def Let_def mk_id_def result_simps split: if_splits)

lemma next_fill_id_Inr:
  "next_fill_id ids = Inr (i, ids') \<Longrightarrow> i = run_id ''fill'' (ids_run_key ids) 6 (ids_fill ids + 1) \<and>
     ids' = ids\<lparr>ids_fill := ids_fill ids + 1\<rparr>"
  by (auto simp: next_fill_id_def Let_def mk_id_def result_simps split: if_splits)

lemma order_event_id_ok:
  assumes "ids_ok ids" "0 \<le> k" "k < 100"
  shows "is_ok (order_event_id (run_id ''order'' (ids_run_key ids) 6 (ids_order ids + 1)) k)"
proof -
  let ?o = "run_id ''order'' (ids_run_key ids) 6 (ids_order ids + 1)"
  have key: "safe_key (ids_run_key ids)" "0 \<le> ids_order ids" "ids_order ids < 10 ^ 50" using assms(1) by (simp_all add: ids_ok_def)
  have lo: "length ?o \<le> 98"
    using pad_length [of "ids_order ids + 1" 51 6] key by (simp add: run_id_def safe_key_def)
  have "list_all id_tail ?o"
    using counter_id_ok [OF key, of "''order''"] by (cases ?o) (auto simp: id_tail_def)
  then have "strong_id_ok (run_id ''event'' ?o 2 k)"
    using assms(2,3) lo kinds_ok by (intro run_id_ok [where m = 2]) auto
  then show ?thesis by (simp add: order_event_id_def mk_id_def)
qed

section \<open>The steps of an attempt\<close>

lemma place_orderE:
  assumes "place_order oid decision inst q limit t open_at close_at = Inr (x, es)"
  shows "order_history x es" "o_status x = ACCEPTED" "o_order_id x = oid" "o_decision_id x = sd_decision_id decision"
    "o_instrument_id x = inst" "o_side x = sd_side decision" "o_type x = MARKETABLE_LIMIT" "o_quantity x = q"
    "o_limit_price x = limit" "o_valid_from x = open_at" "o_valid_until x = close_at" "o_updated_at x = t"
    "o_filled_quantity x = 0" "o_applied_fill_ids x = []" "o_fill_eligible_at x = Some open_at" "o_version x = 3"
    "t \<le> open_at" "open_at \<le> close_at" "o_created_at x = t"
proof -
  from assms obtain e1 created e2 submitted e3 accepted where
    c: "create_order oid e1 (sd_decision_id decision) inst (sd_side decision) q limit t open_at close_at MARKETABLE_LIMIT DAY = Inr created"
    and s: "submit_order (tr_order created) e2 t = Inr submitted"
    and a: "accept_order (tr_order submitted) e3 t open_at = Inr accepted"
    and x: "x = tr_order accepted" "es = [tr_event created, tr_event submitted, tr_event accepted]"
    by (auto simp: place_order_def result_simps)
  have "order_history (tr_order created) [tr_event created]" using c by (rule order_history.created)
  from order_history.commanded [OF this, of "Submit e2 t"] s
  have "order_history (tr_order submitted) [tr_event created, tr_event submitted]" by simp
  from order_history.commanded [OF this, of "Accept e3 t open_at"] a
  show "order_history x es" by (simp add: x)
  have "tr_order created = \<lparr>o_order_id = oid, o_decision_id = sd_decision_id decision, o_instrument_id = inst,
              o_side = sd_side decision, o_type = MARKETABLE_LIMIT, o_time_in_force = DAY, o_quantity = q,
              o_limit_price = limit, o_created_at = t, o_valid_from = open_at,
              o_valid_until = close_at, o_updated_at = t, o_status = CREATED,
              o_filled_quantity = 0, o_average_fill_price = None, o_submitted_at = None,
              o_accepted_at = None, o_fill_eligible_at = None, o_terminal_at = None,
              o_terminal_reason = None, o_applied_fill_ids = [], o_version = 1\<rparr>"
    using c by (auto simp: create_order_def mk_transition_def result_simps)
  note f = this submit_order_Inr(4) [OF s] accept_order_Inr(6) [OF a]
  show "o_status x = ACCEPTED" "o_order_id x = oid" "o_decision_id x = sd_decision_id decision"
    "o_instrument_id x = inst" "o_side x = sd_side decision" "o_type x = MARKETABLE_LIMIT" "o_quantity x = q"
    "o_limit_price x = limit" "o_valid_from x = open_at" "o_valid_until x = close_at" "o_updated_at x = t"
    "o_filled_quantity x = 0" "o_applied_fill_ids x = []" "o_fill_eligible_at x = Some open_at" "o_version x = 3"
    "o_created_at x = t"
    by (simp_all add: x f)
  show "t \<le> open_at" "open_at \<le> close_at" using accept_order_Inr(3,5) [OF a] by (simp_all add: f)
qed

lemma book_fillE:
  assumes "book_fill quote decision inst day sellable_on x m s ids = Inr (filled, fill, s', ids')"
  obtains price t e4 where "r_price m = Some price" "r_filled_at m = Some t"
    "f_fill_id fill = run_id ''fill'' (ids_run_key ids) 6 (ids_fill ids + 1)" "ids' = ids\<lparr>ids_fill := ids_fill ids + 1\<rparr>"
    "record_fill x e4 (f_fill_id fill) t (r_quantity m) price = Inr filled"
    "quote (sd_side decision) price (r_quantity m) day = Inr (f_fees fill)" "is_ok (checks (fill_record_checks fill))"
    "f_order_id fill = o_order_id x" "f_instrument_id fill = inst" "f_side fill = sd_side decision"
    "f_quantity fill = r_quantity m" "f_price fill = price" "f_filled_at fill = t"
    "if sd_side decision = BUY then opt_any (\<lambda>d. apply_buy s fill d = Inr s') sellable_on else apply_sell s fill = Inr s'"
proof -
  obtain price t where pt: "r_price m = Some price" "r_filled_at m = Some t"
    using assms by (auto simp: book_fill_def split: option.splits)
  note b = assms [unfolded book_fill_def pt option.case prod.case]
  from b obtain fid where n: "next_fill_id ids = Inr (fid, ids')"
    by (auto simp: result_simps split: prod.splits)
  note n' = next_fill_id_Inr [OF n]
  from b [unfolded n rbind_Inr prod.case] obtain e4 fees where
    r: "record_fill x e4 fid t (r_quantity m) price = Inr filled"
    and q: "quote (sd_side decision) price (r_quantity m) day = Inr fees"
    and f: "mk_fill_record \<lparr>f_fill_id = fid, f_order_id = o_order_id x, f_instrument_id = inst,
                   f_side = sd_side decision, f_quantity = r_quantity m, f_price = price,
                   f_filled_at = t, f_fees = fees\<rparr> = Inr fill"
    and s: "(if sd_side decision = BUY
             then (case sellable_on of Some d \<Rightarrow> apply_buy s fill d | None \<Rightarrow> Inl AssertionError)
             else apply_sell s fill) = Inr s'"
    by (auto simp: result_simps split: prod.splits)
  have fill: "fill = \<lparr>f_fill_id = fid, f_order_id = o_order_id x, f_instrument_id = inst,
                   f_side = sd_side decision, f_quantity = r_quantity m, f_price = price,
                   f_filled_at = t, f_fees = fees\<rparr>" "is_ok (checks (fill_record_checks fill))"
    using f by (auto simp: mk_fill_record_def result_simps)
  show thesis
  proof (rule that [OF pt])
    show "if sd_side decision = BUY then opt_any (\<lambda>d. apply_buy s fill d = Inr s') sellable_on else apply_sell s fill = Inr s'"
      using s by (auto split: if_splits option.splits)
    show "is_ok (checks (fill_record_checks fill))" by (rule fill(2))
  qed (use n' r q fill(1) in auto)
qed

lemma close_orderE:
  assumes "close_order x m t = Inr (y, es)"
  obtains "o_status x = FILLED" "y = x" "es = []"
  | e tr where "o_status x \<noteq> FILLED" "expire_order x e t (if r_outcome m \<noteq> NO_FILL then ''day_remainder_expired'' else r_reason_code m) = Inr tr"
    "y = tr_order tr" "es = [tr_event tr]"
  using assms by (auto simp: close_order_def result_simps split: if_splits)

text \<open>One order from its creation to its end: what a returned attempt with an order consists of.\<close>

lemma run_orderE:
  assumes "run_order quote config decision bar session s ids inst volume q limit sellable_on = Inr a"
  obtains x es m y fill_es fill close_es final where
    "place_order (run_id ''order'' (ids_run_key ids) 6 (ids_order ids + 1)) decision inst q limit
       (max (sd_created_at decision + decision_processing_latency) (combine (b_session_date bar) opening_auction_accept_at))
       (combine (b_session_date bar) daily_opening_price_proxy_at) (combine (b_session_date bar) (hm 15 0)) = Inr (x, es)"
    "is_ok (checks (match_request_checks (attempt_request config x bar session
       (combine (b_session_date bar) daily_opening_price_proxy_at) volume)))"
    "match_order (attempt_request config x bar session (combine (b_session_date bar) daily_opening_price_proxy_at) volume) = Inr m"
    "if r_outcome m = NO_FILL then y = x \<and> fill_es = [] \<and> fill = None \<and> at_portfolio a = s \<and>
        at_ids a = ids\<lparr>ids_order := ids_order ids + 1\<rparr>
     else \<exists>filled f. book_fill quote decision inst (b_session_date bar) sellable_on x m s (ids\<lparr>ids_order := ids_order ids + 1\<rparr>) =
        Inr (filled, f, at_portfolio a, at_ids a) \<and> y = tr_order filled \<and> fill_es = [tr_event filled] \<and> fill = Some f"
    "close_order y m (combine (b_session_date bar) (hm 15 0)) = Inr (final, close_es)"
    "\<exists>e. economic_position_quantity (at_portfolio a) inst = Inr e \<and>
       (at_decision a, at_retry a) = settle_decision config decision final m fill e"
    "at_trace a = Some \<lparr>ot_order = final, ot_events = es @ fill_es @ close_es, ot_match = m\<rparr>" "at_fill a = fill"
proof -
  let ?open = "combine (b_session_date bar) daily_opening_price_proxy_at"
  let ?close = "combine (b_session_date bar) (hm 15 0)"
  let ?at = "max (sd_created_at decision + decision_processing_latency) (combine (b_session_date bar) opening_auction_accept_at)"
  obtain oid ids1 where o: "next_order_id ids = Inr (oid, ids1)"
    using assms by (auto simp: run_order_def Let_def rbind_eq_Inr)
  note r = assms [unfolded run_order_def Let_def o rbind_Inr prod.case]
  obtain x es where p: "place_order oid decision inst q limit ?at ?open ?close = Inr (x, es)"
    using r by (auto simp: rbind_eq_Inr)
  note r = r [unfolded p rbind_Inr prod.case]
  obtain rq where "mk_match_request (attempt_request config x bar session ?open volume) = Inr rq"
    using r by (auto simp: rbind_eq_Inr)
  then have rq: "mk_match_request (attempt_request config x bar session ?open volume) = Inr (attempt_request config x bar session ?open volume)"
    by (auto simp: mk_match_request_def result_simps)
  note r = r [unfolded rq rbind_Inr]
  obtain m where m: "match_order (attempt_request config x bar session ?open volume) = Inr m"
    using r by (auto simp: rbind_eq_Inr)
  note r = r [unfolded m rbind_Inr]
  obtain b where b: "(if r_outcome m \<noteq> NO_FILL
             then rbind (book_fill quote decision inst (b_session_date bar) sellable_on x m s ids1)
               (\<lambda>(filled, fill, portfolio', ids2). Inr (tr_order filled, [tr_event filled], Some fill, portfolio', ids2))
             else Inr (x, [], None, s, ids1)) = Inr b"
    using r by (elim rbindE)
  obtain y fill_es fill s' ids2 where bb: "b = (y, fill_es, fill, s', ids2)" by (cases b) auto
  note r = r [unfolded b bb rbind_Inr prod.case]
  obtain final close_es where c: "close_order y m ?close = Inr (final, close_es)"
    using r by (auto simp: rbind_eq_Inr)
  note r = r [unfolded c rbind_Inr prod.case]
  obtain e where e: "economic_position_quantity s' inst = Inr e" using r by (auto simp: rbind_eq_Inr)
  obtain d' again where d: "settle_decision config decision final m fill e = (d', again)" by fastforce
  have a: "a = \<lparr>at_portfolio = s', at_decision = d', at_trace = Some \<lparr>ot_order = final, ot_events = es @ fill_es @ close_es, ot_match = m\<rparr>,
           at_fill = fill, at_retry = again, at_ids = ids2\<rparr>"
    using r by (simp add: e d)
  note o' = next_order_id_Inr [OF o]
  show thesis
  proof (rule that)
    show "place_order (run_id ''order'' (ids_run_key ids) 6 (ids_order ids + 1)) decision inst q limit ?at ?open ?close = Inr (x, es)"
      using p o' by simp
    show "is_ok (checks (match_request_checks (attempt_request config x bar session ?open volume)))"
      using rq by (simp add: mk_match_request_def result_simps)
    show "match_order (attempt_request config x bar session ?open volume) = Inr m" by (rule m)
    show "if r_outcome m = NO_FILL then y = x \<and> fill_es = [] \<and> fill = None \<and> at_portfolio a = s \<and>
        at_ids a = ids\<lparr>ids_order := ids_order ids + 1\<rparr>
     else \<exists>filled f. book_fill quote decision inst (b_session_date bar) sellable_on x m s (ids\<lparr>ids_order := ids_order ids + 1\<rparr>) =
        Inr (filled, f, at_portfolio a, at_ids a) \<and> y = tr_order filled \<and> fill_es = [tr_event filled] \<and> fill = Some f"
      using b o' by (auto simp: bb a result_simps split: if_splits)
    show "close_order y m ?close = Inr (final, close_es)" by (rule c)
    show "\<exists>e. economic_position_quantity (at_portfolio a) inst = Inr e \<and>
       (at_decision a, at_retry a) = settle_decision config decision final m fill e"
      using e d by (simp add: a)
    show "at_trace a = Some \<lparr>ot_order = final, ot_events = es @ fill_es @ close_es, ot_match = m\<rparr>" "at_fill a = fill"
      by (simp_all add: a)
  qed
qed

lemma attempt_decisionE:
  assumes "attempt_decision next_day quote config decision bar session s ids inst volume = Some (Inr a)"
  obtains status reason again where
      "attempt_terms next_day quote config decision bar session s inst = Some (Inr (Stop status reason again))"
      "a = \<lparr>at_portfolio = s, at_decision = decision\<lparr>sd_status := status, sd_outcome_reason := Some reason\<rparr>,
            at_trace = None, at_fill = None, at_retry = again, at_ids = ids\<rparr>"
  | q limit sellable_on where
      "attempt_terms next_day quote config decision bar session s inst = Some (Inr (Order q limit sellable_on))"
      "run_order quote config decision bar session s ids inst volume q limit sellable_on = Inr a"
proof -
  obtain r where r: "attempt_terms next_day quote config decision bar session s inst = Some r"
    using assms by (auto simp: attempt_decision_def)
  then obtain t where t: "r = Inr t" using assms by (cases r) (simp_all add: attempt_decision_def)
  show thesis using assms that r by (cases t) (simp_all add: attempt_decision_def t)
qed

section \<open>The audit trail of an attempt\<close>

lemma run_order_trail:
  assumes "run_order quote config decision bar session s ids inst volume q limit sellable_on = Inr a"
  shows "\<exists>tr. at_trace a = Some tr \<and> order_history (ot_order tr) (ot_events tr) \<and>
    o_status (ot_order tr) \<in> {FILLED, EXPIRED} \<and> o_decision_id (ot_order tr) = sd_decision_id decision \<and>
    o_side (ot_order tr) = sd_side decision \<and> o_quantity (ot_order tr) = q \<and>
    o_order_id (ot_order tr) = run_id ''order'' (ids_run_key ids) 6 (ids_order ids + 1) \<and>
    o_created_at (ot_order tr) = max (sd_created_at decision + decision_processing_latency)
      (combine (b_session_date bar) opening_auction_accept_at) \<and>
    sd_order_ids (at_decision a) = sd_order_ids decision @ [o_order_id (ot_order tr)] \<and>
    (case at_fill a of
       None \<Rightarrow> o_applied_fill_ids (ot_order tr) = [] \<and> o_filled_quantity (ot_order tr) = 0
     | Some f \<Rightarrow> o_applied_fill_ids (ot_order tr) = [f_fill_id f] \<and> o_filled_quantity (ot_order tr) = f_quantity f \<and>
         f_order_id f = o_order_id (ot_order tr))"
proof -
  from assms obtain x es m y fill_es fill close_es final where
    p: "place_order (run_id ''order'' (ids_run_key ids) 6 (ids_order ids + 1)) decision inst q limit
       (max (sd_created_at decision + decision_processing_latency) (combine (b_session_date bar) opening_auction_accept_at))
       (combine (b_session_date bar) daily_opening_price_proxy_at) (combine (b_session_date bar) (hm 15 0)) = Inr (x, es)"
    and b: "if r_outcome m = NO_FILL then y = x \<and> fill_es = [] \<and> fill = None \<and> at_portfolio a = s \<and>
        at_ids a = ids\<lparr>ids_order := ids_order ids + 1\<rparr>
     else \<exists>filled f. book_fill quote decision inst (b_session_date bar) sellable_on x m s (ids\<lparr>ids_order := ids_order ids + 1\<rparr>) =
        Inr (filled, f, at_portfolio a, at_ids a) \<and> y = tr_order filled \<and> fill_es = [tr_event filled] \<and> fill = Some f"
    and c: "close_order y m (combine (b_session_date bar) (hm 15 0)) = Inr (final, close_es)"
    and d: "\<exists>e. economic_position_quantity (at_portfolio a) inst = Inr e \<and>
       (at_decision a, at_retry a) = settle_decision config decision final m fill e"
    and t: "at_trace a = Some \<lparr>ot_order = final, ot_events = es @ fill_es @ close_es, ot_match = m\<rparr>" "at_fill a = fill"
    by (rule run_orderE)
  note px = place_orderE [OF p]
  have y: "order_history y (es @ fill_es) \<and> o_decision_id y = o_decision_id x \<and> o_side y = o_side x \<and>
      o_quantity y = o_quantity x \<and> o_order_id y = o_order_id x \<and> o_created_at y = o_created_at x \<and>
      (case fill of None \<Rightarrow> o_applied_fill_ids y = [] \<and> o_filled_quantity y = 0
       | Some f \<Rightarrow> o_applied_fill_ids y = [f_fill_id f] \<and> o_filled_quantity y = f_quantity f \<and> f_order_id f = o_order_id y)"
  proof (cases "r_outcome m = NO_FILL")
    case True
    then show ?thesis using b px by simp
  next
    case False
    with b obtain filled f where bf: "book_fill quote decision inst (b_session_date bar) sellable_on x m s
        (ids\<lparr>ids_order := ids_order ids + 1\<rparr>) = Inr (filled, f, at_portfolio a, at_ids a)"
      and y: "y = tr_order filled" "fill_es = [tr_event filled]" "fill = Some f"
      by auto
    from bf show ?thesis
    proof (rule book_fillE)
      fix price t e4
      assume r: "record_fill x e4 (f_fill_id f) t (r_quantity m) price = Inr filled"
        and f: "f_order_id f = o_order_id x" "f_quantity f = r_quantity m"
      have "order_history y (es @ fill_es)"
        unfolding y by (rule order_history.commanded [OF px(1), of "RecordFill e4 (f_fill_id f) t (r_quantity m) price"]) (simp add: r)
      then show ?thesis using record_fill_Inr(11) [OF r] px f by (auto simp: y)
    qed
  qed
  have fin: "order_history final (es @ fill_es @ close_es) \<and> o_status final \<in> {FILLED, EXPIRED} \<and>
      o_decision_id final = o_decision_id y \<and> o_side final = o_side y \<and> o_quantity final = o_quantity y \<and>
      o_order_id final = o_order_id y \<and> o_created_at final = o_created_at y \<and> o_applied_fill_ids final = o_applied_fill_ids y \<and> o_filled_quantity final = o_filled_quantity y"
    using c
  proof (rule close_orderE)
    fix e tr
    assume e: "expire_order y e (combine (b_session_date bar) (hm 15 0))
        (if r_outcome m \<noteq> NO_FILL then ''day_remainder_expired'' else r_reason_code m) = Inr tr"
      and f: "final = tr_order tr" "close_es = [tr_event tr]"
    have "order_history (tr_order tr) ((es @ fill_es) @ [tr_event tr])"
      using y e by (intro order_history.commanded [of y _ "Expire _ _ _"]) auto
    then show ?thesis using expire_order_Inr(4) [OF e] by (simp add: f)
  qed (use y in simp)
  have "sd_order_ids (at_decision a) = sd_order_ids decision @ [o_order_id final]"
    using d by (auto simp: settle_decision_def Let_def)
  then show ?thesis using y fin px t by (cases fill) auto
qed


section \<open>The portfolio after an attempt\<close>

lemma attempt_terms_buy:
  assumes "attempt_terms next_day quote config decision bar session s inst = Some (Inr (Order q limit sellable_on))"
  shows "sd_side decision = BUY \<Longrightarrow> (\<exists>d. sellable_on = Some d \<and> next_day (b_session_date bar) = Inr d) \<and>
      size_pre_open_buy quote (ps_cash s) session (dc_allocation_ratio config) (b_session_date bar) =
        Some (Inr (Some \<lparr>z_affordability_price = limit, z_quantity = q\<rparr>))"
    "sd_side decision = SELL \<Longrightarrow> sellable_on = None \<and> q = sellable_quantity s inst (b_session_date bar) \<and>
      (case s_lower_limit session of Some l \<Rightarrow> limit = l
       | None \<Rightarrow> price_with_slippage (b_open bar) SELL (dc_slippage_bps config) (dc_slippage_cny config)
          (s_price_tick session) (Some (amount (b_low bar))) (Some (amount (b_high bar))) = Inr limit)"
  using assms
  by (auto simp: attempt_terms_def buy_terms_def sell_terms_def result_simps Let_def split: if_splits sum.splits option.splits)

text \<open>What an attempt does to the portfolio, as a relation between the states before and after.\<close>

definition booked ::
  "(date \<Rightarrow> date result) \<Rightarrow> (order_side \<Rightarrow> price \<Rightarrow> int \<Rightarrow> date \<Rightarrow> fee_breakdown result) \<Rightarrow> order_side \<Rightarrow> date \<Rightarrow>
   portfolio_state \<Rightarrow> fill_record option \<Rightarrow> portfolio_state \<Rightarrow> bool" where
  "booked next_day quote side day s fill s' \<longleftrightarrow>
     (case fill of
        None \<Rightarrow> s' = s
      | Some f \<Rightarrow> f_side f = side \<and> quote side (f_price f) (f_quantity f) day = Inr (f_fees f) \<and>
          is_ok (checks (fill_record_checks f)) \<and>
          (if side = BUY then \<exists>d. next_day day = Inr d \<and> apply_buy s f d = Inr s' else apply_sell s f = Inr s'))"

lemma attempt_booked:
  assumes "attempt_decision next_day quote config decision bar session s ids inst volume = Some (Inr a)"
  shows "booked next_day quote (sd_side decision) (b_session_date bar) s (at_fill a) (at_portfolio a)"
  using assms
proof (cases rule: attempt_decisionE)
  case (2 q limit sellable_on)
  from 2(2) show ?thesis
  proof (rule run_orderE)
    fix x m y fill_es fill
    assume b: "if r_outcome m = NO_FILL then y = x \<and> fill_es = [] \<and> fill = None \<and> at_portfolio a = s \<and>
        at_ids a = ids\<lparr>ids_order := ids_order ids + 1\<rparr>
     else \<exists>filled f. book_fill quote decision inst (b_session_date bar) sellable_on x m s (ids\<lparr>ids_order := ids_order ids + 1\<rparr>) =
        Inr (filled, f, at_portfolio a, at_ids a) \<and> y = tr_order filled \<and> fill_es = [tr_event filled] \<and> fill = Some f"
      and f: "at_fill a = fill"
    show ?thesis
    proof (cases "r_outcome m = NO_FILL")
      case False
      with b f obtain filled g where "book_fill quote decision inst (b_session_date bar) sellable_on x m s
          (ids\<lparr>ids_order := ids_order ids + 1\<rparr>) = Inr (filled, g, at_portfolio a, at_ids a)" "at_fill a = Some g" by auto
      then show ?thesis
        using attempt_terms_buy(1) [OF 2(1)]
        by (elim book_fillE) (auto simp: booked_def opt_any_iff split: if_splits)
    qed (use b f in \<open>simp add: booked_def\<close>)
  qed
qed (simp add: booked_def)

text \<open>The values an attempt is given are what their own constructors accept.\<close>

definition market_inputs_ok :: "daily_bar \<Rightarrow> instrument_session \<Rightarrow> volume_observation option \<Rightarrow> bool" where
  "market_inputs_ok bar session volume \<longleftrightarrow>
     daily_bar_ok bar \<and> session_ok session \<and> none_or price_ok (s_upper_limit session) \<and>
     none_or price_ok (s_lower_limit session) \<and> none_or (\<lambda>v. 0 \<le> v_quantity v) volume"

lemma size_pre_open_buy_price:
  "size_pre_open_buy quote cash s ratio d = Some (Inr (Some z)) \<Longrightarrow> s_upper_limit s = Some (z_affordability_price z)"
  by (auto simp: size_pre_open_buy_def Let_def result_simps split: option.splits sum.splits)

lemma attempt_limit_ok:
  assumes "attempt_terms next_day quote config decision bar session s inst = Some (Inr (Order q limit sellable_on))"
    and "market_inputs_ok bar session volume"
  shows "price_ok limit"
proof (cases "sd_side decision")
  case BUY
  with attempt_terms_buy(1) [OF assms(1)] have "s_upper_limit session = Some limit"
    by (auto dest: size_pre_open_buy_price)
  then show ?thesis using assms(2) by (simp add: market_inputs_ok_def)
next
  case SELL
  note t = attempt_terms_buy(2) [OF assms(1) this]
  show ?thesis
  proof (cases "s_lower_limit session")
    case None
    then show ?thesis using t by (auto simp: price_with_slippage_def result_simps Let_def price_ok_def money_ok_def)
  next
    case (Some l)
    then show ?thesis using t assms(2) by (simp add: market_inputs_ok_def)
  qed
qed

lemma attempt_request_ok:
  assumes "place_order oid decision inst q limit t open_at close_at = Inr (x, es)" "market_inputs_ok bar session volume"
    "price_ok limit" "is_ok (checks (match_request_checks (attempt_request config x bar session open_at volume)))"
  shows "request_ok (attempt_request config x bar session open_at volume)"
  using assms order_history_valid [OF place_orderE(1) [OF assms(1)]] place_orderE(9) [OF assms(1)]
  by (simp add: request_ok_def market_inputs_ok_def mk_match_request_def construct_ok) (simp add: attempt_request_def)

lemma match_price_ok:
  assumes q: "request_ok q" and m: "match_order q = Inr r" "r_outcome r \<noteq> NO_FILL" "r_price r = Some p"
  shows "price_ok p"
  using q m(1,2)
proof (rule fill_parts)
  fix c p'
  assume c: "price_ok c" "p' = within_band (q_session q) c" "r_price r = Some p'"
  then show ?thesis
    using within_band_bounds(3) [OF request_okD(3) [OF q], of c] request_okD(10,11) [OF q] m(3)
    by (auto simp: none_or_iff)
qed

context fee_quote begin

lemma attempt_fill_ok:
  assumes a: "attempt_decision next_day quote config decision bar session s ids inst volume = Some (Inr a)"
    and i: "market_inputs_ok bar session volume" and f: "at_fill a = Some f"
  shows "fill_ok f"
  using a
proof (cases rule: attempt_decisionE)
  case (2 q limit sellable_on)
  note lim = attempt_limit_ok [OF 2(1) i]
  from 2(2) show ?thesis
  proof (rule run_orderE)
    fix x es m y fill_es fill
    let ?open = "combine (b_session_date bar) daily_opening_price_proxy_at"
    assume p: "place_order (run_id ''order'' (ids_run_key ids) 6 (ids_order ids + 1)) decision inst q limit
         (max (sd_created_at decision + decision_processing_latency) (combine (b_session_date bar) opening_auction_accept_at))
         ?open (combine (b_session_date bar) (hm 15 0)) = Inr (x, es)"
      and r: "is_ok (checks (match_request_checks (attempt_request config x bar session ?open volume)))"
      and m: "match_order (attempt_request config x bar session ?open volume) = Inr m"
      and b: "if r_outcome m = NO_FILL then y = x \<and> fill_es = [] \<and> fill = None \<and> at_portfolio a = s \<and>
        at_ids a = ids\<lparr>ids_order := ids_order ids + 1\<rparr>
       else \<exists>filled f. book_fill quote decision inst (b_session_date bar) sellable_on x m s (ids\<lparr>ids_order := ids_order ids + 1\<rparr>) =
        Inr (filled, f, at_portfolio a, at_ids a) \<and> y = tr_order filled \<and> fill_es = [tr_event filled] \<and> fill = Some f"
      and fl: "at_fill a = fill"
    have o: "r_outcome m \<noteq> NO_FILL" using b fl f by (auto split: if_splits)
    with b fl f obtain filled where "book_fill quote decision inst (b_session_date bar) sellable_on x m s
        (ids\<lparr>ids_order := ids_order ids + 1\<rparr>) = Inr (filled, f, at_portfolio a, at_ids a)" by auto
    then show ?thesis
    proof (rule book_fillE)
      fix price t
      assume pr: "r_price m = Some price" and q: "quote (sd_side decision) price (r_quantity m) (b_session_date bar) = Inr (f_fees f)"
        and k: "is_ok (checks (fill_record_checks f))" "f_price f = price"
      have "price_ok price" using match_price_ok [OF attempt_request_ok [OF p i lim r] m o pr] .
      then show ?thesis using quote_ok [OF q] k by (simp add: fill_ok_def)
    qed
  qed
qed (use f in simp)

lemma attempt_history:
  assumes a: "attempt_decision next_day quote config decision bar session s ids inst volume = Some (Inr a)"
    and i: "market_inputs_ok bar session volume" and h: "portfolio_history sha s0 s"
  shows "portfolio_history sha s0 (at_portfolio a)"
proof (cases "at_fill a")
  case None
  then show ?thesis using attempt_booked [OF a] h by (simp add: booked_def)
next
  case (Some f)
  from attempt_booked [OF a] Some attempt_fill_ok [OF a i Some] h show ?thesis
    by (auto simp: booked_def split: if_splits intro: portfolio_history.buy portfolio_history.sell)
qed

end


section \<open>Retries\<close>

text \<open>C22: retries are bounded: an entry is only tried again when it filled nothing (and the portfolio is unchanged)
  and its attempts are still below the validity of its signal; an exit only when it is a persistent account exit
  and retries are configured, and, unless it waits for shares to become sellable or for the end of a holding
  period, while its attempts are below the configured maximum.\<close>

theorem retries_are_bounded:
  assumes "attempt_decision next_day quote config decision bar session s ids inst volume = Some (Inr a)" "at_retry a"
  shows "if sd_side decision = BUY
    then at_fill a = None \<and> at_portfolio a = s \<and>
      opt_any (\<lambda>n. sd_attempts (at_decision a) < n) (sd_signal_validity_sessions decision) \<and>
      sd_attempts (at_decision a) = sd_attempts decision + 1
    else is_persistent_account_exit decision \<and> dc_retry_unfilled_exits config \<and>
      (at_trace a = None \<or> starts_with ''holding_period_exit:'' (sf_condition_ref (sd_signal decision)) \<or>
       sd_attempts (at_decision a) < dc_max_exit_attempts config)"
  using assms(1)
proof (cases rule: attempt_decisionE)
  case (1 status reason again)
  then show ?thesis using assms(2)
    by (auto simp: attempt_terms_def buy_terms_def sell_terms_def result_simps Let_def split: if_splits sum.splits option.splits)
next
  case (2 q limit sellable_on)
  have bk: "booked next_day quote (sd_side decision) (b_session_date bar) s (at_fill a) (at_portfolio a)"
    using assms(1) by (rule attempt_booked)
  from 2(2) show ?thesis
  proof (rule run_orderE)
    fix m fill final
    assume d: "\<exists>e. economic_position_quantity (at_portfolio a) inst = Inr e \<and>
       (at_decision a, at_retry a) = settle_decision config decision final m fill e" and f: "at_fill a = fill"
    from d obtain e where e: "(at_decision a, at_retry a) = settle_decision config decision final m fill e" by blast
    then have n: "sd_attempts (at_decision a) = sd_attempts decision + 1"
      "retry_exit config decision (sd_attempts decision + 1) e \<or> retry_entry decision m fill (sd_attempts decision + 1)"
      using assms(2) by (auto simp: settle_decision_def Let_def)
    show ?thesis
      using n bk f by (auto simp: retry_exit_def retry_entry_def is_persistent_account_exit_def booked_def)
  qed
qed

text \<open>A position bought on the day cannot be sold yet: the loss exit is kept for the next session.\<close>

definition run_ids :: id_sequence where
  "run_ids = \<lparr>ids_run_key = ''demo'', ids_decision = 1, ids_order = 0, ids_fill = 0\<rparr>"

definition run_config :: daily_config where
  "run_config = \<lparr>dc_participation_rate = 1 / 10, dc_slippage_bps = 5, dc_slippage_cny = 0, dc_limit_handling = WAIT_FOR_UNLOCK,
     dc_allocation_ratio = 1, dc_retry_unfilled_exits = True, dc_max_exit_attempts = 20, dc_capacity_mode = UNLIMITED,
     dc_edge_entry_validity_sessions = 5, dc_event_entry_validity_sessions = 1, dc_state_entry_validity_sessions = 1\<rparr>"

definition decision_of :: "order_side \<Rightarrow> signal_fact \<Rightarrow> strategy_decision" where
  "decision_of side f = \<lparr>sd_decision_id = ''decision:demo:000001'', sd_side = side, sd_signal = f,
     sd_created_at = sf_available_at f, sd_status = PENDING_DECISION, sd_order_ids = [], sd_attempts = 0,
     sd_outcome_reason = None, sd_signal_semantics = (if side = BUY then Some EDGE_ENTRY else None),
     sd_signal_validity_sessions = (if side = BUY then Some 5 else None)\<rparr>"

definition loss_fact :: signal_fact where
  "loss_fact = SignalFact ''300059.SZ'' 738000 ''position_return_exit:-0.05'' True (combine 738000 (hm 15 0)) (combine 738000 (hm 15 0))
     ''return'' None None [] []"

definition traded_bar :: "date \<Rightarrow> daily_bar" where
  "traded_bar d = sample_bar\<lparr>b_session_date := d, b_open := cny 11, b_high := cny (112 / 10), b_low := cny (108 / 10),
     b_close := cny 11, b_available_at := combine d (hm 15 0)\<rparr>"

definition traded_session :: "date \<Rightarrow> instrument_session" where
  "traded_session d = sample_session\<lparr>s_session_date := d, s_previous_close := cny 11, s_upper_limit := Some (cny 13),
     s_lower_limit := Some (cny 9)\<rparr>"

lemma loss_slippage: "price_with_slippage (cny 11) SELL 5 0 (1 / 100) (Some (108 / 10)) (Some (112 / 10)) = Inr (cny (1099 / 100))"
proof -
  have r: "raw_slipped (amount (cny 11)) SELL 5 0 = 109945/10000" by code_simp
  have d: "dec_div (109945/10000) (1 / 100) = Inr (109945 / 100)" by code_simp
  have u: "round_down (109945 / 100) = 1099" by code_simp
  have m: "dec_mul 1099 (1 / 100) = 1099 / 100" by code_simp
  show ?thesis
    unfolding price_with_slippage_def r d rbind_Inr Let_def using u m
    by (simp only: u m simp_thms if_True) (simp add: m cny_def at_most_def at_least_def mk_price_def)
qed
lemma locked_attempt:
  "attempt_decision next_day quote run_config (decision_of SELL loss_fact) (traded_bar 738000) (traded_session 738000)
     sample_holding run_ids ''300059.SZ'' None = Some (Inr \<lparr>at_portfolio = sample_holding,
       at_decision = (decision_of SELL loss_fact)\<lparr>sd_status := RETRYING,
         sd_outcome_reason := Some ''insufficient_sellable_quantity''\<rparr>,
       at_trace = None, at_fill = None, at_retry = True, at_ids = run_ids\<rparr>)"
proof -
  have "sellable_quantity sample_holding ''300059.SZ'' (b_session_date (traded_bar 738000)) = 0"
    "is_persistent_account_exit (decision_of SELL loss_fact)"
    by code_simp+
  then show ?thesis using loss_slippage
    by (simp add: attempt_decision_def attempt_terms_def sell_terms_def decision_of_def run_config_def traded_bar_def
        traded_session_def sample_bar_def sample_session_def) (simp add: cny_def)
qed

theorem retries_are_bounded_witness:
  "is_persistent_account_exit (decision_of SELL loss_fact) \<and> dc_retry_unfilled_exits run_config"
  using retries_are_bounded [OF locked_attempt] by (simp add: decision_of_def)

end
