(* ===== verification/BuyAttempt.thy ===== *)
theory BuyAttempt
  imports Attempt
begin

text \<open>
  A buy attempt of the daily backtest returns: no step of it raises, from the sizing to the ledger, and
  what it spends is at most the allotted budget.
\<close>

section \<open>Placing an order\<close>

lemma create_order_ok:
  assumes "0 < q" "t \<le> vu" "vf \<le> vu"
  shows "\<exists>tr. create_order oid ev did inst side q lp t vf vu ot tif = Inr tr"
  using assms
  by (simp add: create_order_def mk_order_def construct_def order_check_defs checks.simps mk_event_def order_event_checks_def
      fill_event_kinds_def reason_event_kinds_def mk_transition_def transition_checks_def is_ok_checks)

lemma create_order_order:
  assumes "create_order oid ev did inst side q lp t vf vu ot tif = Inr tr"
  shows "tr_order tr = \<lparr>o_order_id = oid, o_decision_id = did, o_instrument_id = inst,
              o_side = side, o_type = ot, o_time_in_force = tif, o_quantity = q,
              o_limit_price = lp, o_created_at = t, o_valid_from = vf,
              o_valid_until = vu, o_updated_at = t, o_status = CREATED,
              o_filled_quantity = 0, o_average_fill_price = None, o_submitted_at = None,
              o_accepted_at = None, o_fill_eligible_at = None, o_terminal_at = None,
              o_terminal_reason = None, o_applied_fill_ids = [], o_version = 1\<rparr>"
  using assms by (auto simp: create_order_def mk_transition_def result_simps)

lemma submit_order_ok:
  assumes "o_status x = CREATED" "valid_order x" "o_updated_at x = t" "o_created_at x = t" "t \<le> o_valid_until x"
  shows "\<exists>tr. submit_order x ev t = Inr tr"
proof -
  let ?u = "x\<lparr>o_status := SUBMITTED, o_submitted_at := Some t, o_updated_at := t, o_version := o_version x + 1\<rparr>"
  have v: "valid_order ?u" and n: "1 \<le> o_version x"
    using assms unfolding valid_order_iff
    by (auto simp: order_quantity_checks_def order_optional_time_checks_def order_acceptance_checks_def
        order_fill_checks_def order_status_checks_def order_terminal_checks_def opt_any_iff split: option.splits if_splits)
  have "is_ok (order_transition_of x ?u ev EvSubmitted t None None None None None)"
    using n by (intro order_transition_of_ok) (auto simp: fill_event_kinds_def reason_event_kinds_def)
  then show ?thesis
    using assms v by (auto simp: submit_order_def require_status_def require_transition_time_def mk_order_ok is_ok_iff)
qed

lemma accept_order_ok:
  assumes "o_status x = SUBMITTED" "valid_order x" "o_updated_at x = t" "o_created_at x = t"
    "t \<le> e" "o_valid_from x \<le> e" "e \<le> o_valid_until x"
  shows "\<exists>tr. accept_order x ev t e = Inr tr"
proof -
  let ?u = "x\<lparr>o_status := ACCEPTED, o_accepted_at := Some t, o_fill_eligible_at := Some e, o_updated_at := t,
       o_version := o_version x + 1\<rparr>"
  have v: "valid_order ?u" and n: "1 \<le> o_version x"
    using assms unfolding valid_order_iff
    by (auto simp: order_quantity_checks_def order_optional_time_checks_def order_acceptance_checks_def
        order_fill_checks_def order_status_checks_def order_terminal_checks_def opt_any_iff split: option.splits if_splits)
  have "is_ok (order_transition_of x ?u ev EvAccepted t None None None (Some e) None)"
    using n assms by (intro order_transition_of_ok) (auto simp: fill_event_kinds_def reason_event_kinds_def)
  moreover have "t \<le> o_valid_until x" using assms by linarith
  ultimately show ?thesis
    using assms v
    by (auto simp: accept_order_def require_status_def require_transition_time_def mk_order_ok is_ok_iff checks.simps(2) not_less)
qed

lemma place_order_ok:
  assumes ids: "\<And>k. 0 \<le> k \<Longrightarrow> k < 100 \<Longrightarrow> is_ok (order_event_id oid k)"
    and q: "0 < q" and t: "t \<le> open_at" "open_at \<le> close_at"
  shows "\<exists>x es. place_order oid decision inst q limit t open_at close_at = Inr (x, es)"
proof -
  obtain e1 e2 e3 where e: "order_event_id oid 1 = Inr e1" "order_event_id oid 2 = Inr e2" "order_event_id oid 3 = Inr e3"
    using ids [of 1] ids [of 2] ids [of 3] by (auto simp: is_ok_iff)
  obtain c where c: "create_order oid e1 (sd_decision_id decision) inst (sd_side decision) q limit t open_at close_at MARKETABLE_LIMIT DAY = Inr c"
    using create_order_ok [OF q, of t close_at open_at] t by (meson order_trans)
  note co = create_order_order [OF c]
  have vc: "valid_order (tr_order c)" using create_order_Inr(1) [OF c] by (simp add: trail_agrees_def)
  obtain s where s: "submit_order (tr_order c) e2 t = Inr s"
    using submit_order_ok [OF _ vc, of t e2] t by (auto simp: co)
  note so = submit_order_Inr(4) [OF s]
  obtain a where a: "accept_order (tr_order s) e3 t open_at = Inr a"
    using accept_order_ok [OF _ submit_order_Inr(5) [OF s], of t open_at e3] t by (auto simp: co so)
  show ?thesis by (simp add: place_order_def e c s a)
qed

section \<open>Reasons\<close>

lemma blank_simps: "blank [] \<longleftrightarrow> True" "blank (c # cs) \<longleftrightarrow> py_space c \<and> blank cs"
  by (simp_all add: blank_iff)

text \<open>Every reason the matcher gives for not filling starts with a letter.\<close>

lemma eligibility_reason: "eligibility q = Some r \<Longrightarrow> \<not> blank r"
  by (auto simp: eligibility_def Let_def py_space_def blank_simps split: if_splits)

lemma daily_limit_reason_not_blank: "\<not> blank (daily_limit_reason q l)"
  by (simp add: daily_limit_reason_def Let_def py_space_def blank_simps)

lemma opening_basis_reason: "opening_basis q = Inl r \<Longrightarrow> \<not> blank r"
  using daily_limit_reason_not_blank
  by (auto simp: opening_basis_def py_space_def blank_simps split: option.splits limit_handling.splits if_splits)

lemma candidate_price_reason: "candidate_price q b = Inr (Inl r) \<Longrightarrow> \<not> blank r"
  by (auto simp: candidate_price_def limit_order_price_def Let_def result_simps py_space_def blank_simps
      split: if_splits option.splits)

lemma fill_result_reason: "fill_result q p b = Inr r \<Longrightarrow> \<not> blank (r_reason_code r)"
proof -
  assume f: "fill_result q p b = Inr r"
  then obtain k where k: "match_capacity q = Inr k" by (auto simp: fill_result_def result_simps)
  note f = f [unfolded fill_result_def k rbind_Inr Let_def]
  show ?thesis
  proof (cases k)
    case (Inl reason)
    then have "\<not> blank reason"
      using k by (auto simp: match_capacity_def result_simps py_space_def blank_simps split: if_splits option.splits)
    then show ?thesis using f Inl by auto
  next
    case (Inr c)
    obtain capacity code where c: "c = (capacity, code)" by (cases c)
    obtain n where n: "remaining_quantity (q_order q) = Inr n"
      using f by (auto simp: Inr c result_simps)
    show ?thesis
      using f by (auto simp: Inr c n result_simps mk_match_result_def py_space_def blank_simps split: if_splits)
  qed
qed

lemma match_reason_not_blank:
  assumes "match_order q = Inr r"
  shows "\<not> blank (r_reason_code r)"
proof (cases "eligibility q")
  case (Some reason)
  then show ?thesis using assms eligibility_reason [OF Some] by (auto simp: match_order_def)
next
  case None
  show ?thesis
  proof (cases "opening_basis q")
    case (Inl reason)
    then show ?thesis using assms None opening_basis_reason [OF Inl] by (auto simp: match_order_def)
  next
    case (Inr b)
    obtain k where k: "candidate_price q b = Inr k" using assms None Inr by (auto simp: match_order_def result_simps)
    show ?thesis
    proof (cases k)
      case (Inl reason)
      then show ?thesis using assms None Inr k candidate_price_reason [of q b reason] by (auto simp: match_order_def)
    next
      case kr: (Inr cb)
      then show ?thesis
        using assms None Inr k fill_result_reason [of q _ _ r]
        by (cases cb) (auto simp: match_order_def Let_def blank_simps py_space_def split: if_splits)
    qed
  qed
qed

section \<open>The price of a fill has few decimals\<close>

lemma clipped_ctx_on_grid:
  assumes g: "on_grid k lo" "on_grid k hi" "on_grid k x" and b: "0 \<le> lo" "lo \<le> hi" "hi * 10 ^ k < 10 ^ 28"
  shows "on_grid k (at_most (Some hi) (at_least (Some lo) (ctx x)))"
proof (cases "lo < ctx x \<and> ctx x < hi")
  case False
  then show ?thesis using g b by (auto simp: at_most_def at_least_def min_def max_def)
next
  case True
  have lt: "x * 10 ^ k < 10 ^ 28" if "x \<le> hi" for x
    using mult_right_mono [OF that, of "10 ^ k"] b(3) by (rule le_less_trans) simp
  have lh: "ctx lo = lo" "ctx hi = hi"
    using g b lt [OF b(2)] lt [of hi] by (auto intro!: ctx_on_grid [of k] simp only: abs_of_nonneg)
  have "lo < x" "x < hi" using ctx_mono [of x lo] ctx_mono [of hi x] True lh by (auto simp: not_le [symmetric])
  then have "ctx x = x" using g b lt [of x] by (intro ctx_on_grid [of k]) auto
  then show ?thesis using True g by (simp add: at_most_def at_least_def)
qed

lemma slippage_on_grid:
  assumes "price_with_slippage p side bps slip tick (Some lo) (Some hi) = Inr r"
    and "on_grid k lo" "on_grid k hi" "on_grid k tick" "0 \<le> lo" "lo \<le> hi" "hi * 10 ^ k < 10 ^ 28"
  shows "on_grid k (amount r)"
proof -
  from assms(1) obtain n where "amount r = at_most (Some hi) (at_least (Some lo) (ctx (of_int n * tick)))"
    by (auto simp: price_with_slippage_def dec_mul_def result_simps Let_def)
  moreover have "on_grid k (of_int n * tick)" using on_grid_mult_int [OF assms(4), of n] by (simp add: mult.commute)
  ultimately show ?thesis using clipped_ctx_on_grid assms by metis
qed

section \<open>A buy attempt returns\<close>

text \<open>
  What the day loop hands to a buy attempt: a session of the instrument with a price band, a bar with the
  same instrument and date that is not known before the opening, a volume observation the matcher may use,
  a decision confirmed before the auction cutoff, one currency, and amounts in the exact decimal range.
\<close>

definition volume_usable :: "daily_config \<Rightarrow> daily_bar \<Rightarrow> volume_observation option \<Rightarrow> bool" where
  "volume_usable config bar volume \<longleftrightarrow>
     (if dc_capacity_mode config = UNLIMITED then volume = None
      else none_or (\<lambda>v. v_known_at v \<le> combine (b_session_date bar) daily_opening_price_proxy_at \<and>
        (v_source v = PREVIOUS_SESSION_DAILY_BAR \<longrightarrow> opt_any (\<lambda>d. d < b_session_date bar) (v_source_session_date v))) volume)"

definition session_inputs_agree :: "daily_bar \<Rightarrow> instrument_session \<Rightarrow> string \<Rightarrow> bool" where
  "session_inputs_agree bar session inst \<longleftrightarrow>
     b_instrument_id bar = inst \<and> s_instrument_id session = inst \<and> s_session_date session = b_session_date bar \<and>
     combine (b_session_date bar) daily_opening_price_proxy_at \<le> b_available_at bar"

definition prices_on_grid :: "nat \<Rightarrow> string \<Rightarrow> daily_bar \<Rightarrow> instrument_session \<Rightarrow> bool" where
  "prices_on_grid k c bar session \<longleftrightarrow>
     currency (b_open bar) = c \<and> on_grid k (amount (b_low bar)) \<and> on_grid k (amount (b_high bar)) \<and>
     amount (b_high bar) * 10 ^ k < 10 ^ 28 \<and> on_grid k (s_price_tick session) \<and>
     none_or (\<lambda>p. on_grid k (amount p) \<and> currency p = c) (s_upper_limit session) \<and>
     none_or (\<lambda>p. on_grid k (amount p) \<and> currency p = c) (s_lower_limit session)"

definition portfolio_ready :: "nat \<Rightarrow> nat \<Rightarrow> portfolio_state \<Rightarrow> id_sequence \<Rightarrow> string \<Rightarrow> bool" where
  "portfolio_ready k j s ids inst \<longleftrightarrow>
     portfolio_ok s \<and> ids_ok ids \<and> is_ok (economic_position_quantity s inst) \<and>
     run_id ''fill'' (ids_run_key ids) 6 (ids_fill ids + 1) \<notin> applied_fill_ids s \<and>
     on_grid k (amount (ps_cash s)) \<and> amount (ps_cash s) * 10 ^ (k + j + 5) < 10 ^ 24"

definition buy_ready ::
  "nat \<Rightarrow> nat \<Rightarrow> fee_policy \<Rightarrow> rat \<Rightarrow> daily_config \<Rightarrow> strategy_decision \<Rightarrow> daily_bar \<Rightarrow> instrument_session \<Rightarrow>
   portfolio_state \<Rightarrow> id_sequence \<Rightarrow> string \<Rightarrow> volume_observation option \<Rightarrow> bool" where
  "buy_ready k j policy rate config decision bar session s ids inst volume \<longleftrightarrow>
     sd_side decision = BUY \<and> config_ok config \<and> dc_slippage_bps config \<le> 1000 \<and>
     market_inputs_ok bar session volume \<and> session_inputs_agree bar session inst \<and> volume_usable config bar volume \<and>
     sd_created_at decision + decision_processing_latency \<le> combine (b_session_date bar) opening_auction_accept_at \<and>
     exact_range k j policy (b_session_date bar) rate \<and>
     currency (fp_minimum_commission policy) = currency (ps_cash s) \<and>
     prices_on_grid k (currency (ps_cash s)) bar session \<and> portfolio_ready k j s ids inst"

lemma config_okD:
  assumes "config_ok c"
  shows "0 < dc_participation_rate c" "dc_participation_rate c \<le> 1" "0 < dc_allocation_ratio c" "dc_allocation_ratio c \<le> 1"
    "0 \<le> dc_slippage_bps c" "0 \<le> dc_slippage_cny c"
  using assms by (auto simp: config_ok_def daily_config_checks_def is_ok_checks)

lemma session_times: "combine d opening_auction_accept_at \<le> combine d daily_opening_price_proxy_at"
    "combine d daily_opening_price_proxy_at \<le> combine d (hm 15 0)"
  by (simp_all add: opening_auction_accept_at_def daily_opening_price_proxy_at_def hm_def seconds_def)

text \<open>The budget is at most the cash.\<close>

lemma budget_bounds:
  assumes r: "portfolio_ready k j s ids inst" and c: "config_ok config"
  defines "budget \<equiv> dec_mul (amount (ps_cash s)) (dc_allocation_ratio config)"
  shows "0 \<le> budget" "budget \<le> amount (ps_cash s)" "budget * 10 ^ (k + j + 5) < 10 ^ 24"
    "amount (ps_cash s) * 10 ^ k < 10 ^ 28"
proof -
  have cash: "0 \<le> amount (ps_cash s)" using r portfolio_ok_facts(1) by (auto simp: portfolio_ready_def)
  have k: "(10::rat) ^ k \<le> 10 ^ (k + j + 5)" by (intro power_increasing) auto
  have "amount (ps_cash s) * 10 ^ k \<le> amount (ps_cash s) * 10 ^ (k + j + 5)" using cash k by (intro mult_left_mono)
  moreover have b: "amount (ps_cash s) * 10 ^ (k + j + 5) < 10 ^ 24" using r by (simp add: portfolio_ready_def)
  moreover have "(10::rat) ^ 24 < 10 ^ 28" by simp
  ultimately show ck: "amount (ps_cash s) * 10 ^ k < 10 ^ 28" by linarith
  note ratio = config_okD(3,4) [OF c]
  have "budget \<le> ctx (amount (ps_cash s))"
    unfolding budget_def dec_mul_def using cash ratio by (intro ctx_mono) (simp add: mult_left_le)
  also have "\<dots> = amount (ps_cash s)"
    using r cash ck by (intro ctx_on_grid [of k]) (auto simp: portfolio_ready_def)
  finally show le: "budget \<le> amount (ps_cash s)" .
  show "0 \<le> budget" using cash ratio by (simp add: budget_def dec_mul_def)
  have "budget * 10 ^ (k + j + 5) \<le> amount (ps_cash s) * 10 ^ (k + j + 5)" using le by (rule mult_right_mono) simp
  then show "budget * 10 ^ (k + j + 5) < 10 ^ 24" using b by linarith
qed

text \<open>The terms: either a stop, or a declaration the budget pays at the upper limit.\<close>

lemma buy_terms_ok:
  assumes r: "buy_ready k j policy rate config decision bar session s ids inst volume" and u: "s_upper_limit session = Some p"
  defines "budget \<equiv> dec_mul (amount (ps_cash s)) (dc_allocation_ratio config)"
  shows "\<exists>t. attempt_terms (next_session cal) (calculate_fees policy) config decision bar session s inst = Some (Inr t) \<and>
    (case t of Stop _ _ _ \<Rightarrow> True
     | Order q limit d \<Rightarrow> limit = p \<and> 0 < q \<and> is_valid_buy_quantity session q \<and> pays policy rate p budget q \<and>
         opt_any (\<lambda>d. next_session cal (b_session_date bar) = Inr d) d)"
proof (cases "next_session cal (b_session_date bar)")
  case (Inl e)
  then have "e = NoNextSessionError" by (auto simp: next_session_def Let_def split: if_splits)
  then show ?thesis using r Inl by (simp add: attempt_terms_def buy_terms_def buy_ready_def)
next
  case (Inr d)
  have so: "session_ok session" "price_ok p" "on_grid k (amount p)" "currency p = currency (fp_minimum_commission policy)"
    using r u by (auto simp: buy_ready_def market_inputs_ok_def prices_on_grid_def)
  have e: "exact_range k j policy (b_session_date bar) rate" using r by (simp add: buy_ready_def)
  have "portfolio_ready k j s ids inst" "config_ok config" using r by (simp_all add: buy_ready_def)
  note b = budget_bounds(1,3) [OF this]
  obtain n where n: "size_pre_open_buy (calculate_fees policy) (ps_cash s) session (dc_allocation_ratio config) (b_session_date bar) =
      Some (Inr (Some \<lparr>z_affordability_price = p, z_quantity = n\<rparr>))" "0 \<le> n"
    "n = 0 \<or> is_valid_buy_quantity session n \<and> pays policy rate p budget n"
    using size_pre_open_buy_spec [OF so(1) u e so(2-4) b] unfolding budget_def by blast
  then show ?thesis using r Inr by (auto simp: attempt_terms_def buy_terms_def buy_ready_def)
qed

lemma market_fill_price:
  assumes q: "request_ok q" and m: "match_order q = Inr r" "r_outcome r \<noteq> NO_FILL" "r_price r = Some p"
    and o: "o_type (q_order q) = MARKETABLE_LIMIT" and g: "prices_on_grid k c (q_bar q) (q_session q)"
  shows "on_grid k (amount p)" "currency p = c"
proof -
  from m(1,2) obtain basis x basis' where b: "opening_basis q = Inr basis" and x: "candidate_price q basis = Inr (Inr (x, basis'))"
    and f: "fill_result q (within_band (q_session q) x) basis' = Inr r"
    by (rule match_order_fillE)
  from f m(2,3) have p: "p = within_band (q_session q) x" by (elim fill_resultE) auto
  have sl: "price_with_slippage (ba_price basis) (o_side (q_order q)) (q_slippage_bps q) (q_slippage_cny q)
      (s_price_tick (q_session q)) (Some (amount (b_low (q_bar q)))) (Some (amount (b_high (q_bar q)))) = Inr x"
    using x o by (auto simp: candidate_price_def result_simps)
  note bar = daily_bar_ok_order [OF request_okD(2) [OF q]]
  have gx: "on_grid k (amount x)" by (rule slippage_on_grid [OF sl]) (use g bar in \<open>auto simp: prices_on_grid_def\<close>)
  have "currency (ba_price basis) = c"
    using b g by (auto simp: opening_basis_def adverse_limit_def prices_on_grid_def none_or_iff opt_any_iff
        split: option.splits limit_handling.splits if_splits)
  then have cx: "currency x = c" using slippage_clipped(3) [OF sl bar(6)] by simp
  show "on_grid k (amount p)" "currency p = c"
    using within_band_bounds(3) [OF request_okD(3) [OF q], of x] gx cx g
    by (auto simp: p prices_on_grid_def none_or_iff)
qed

text \<open>The request of an accepted day order passes the checks of its constructor.\<close>

lemma buy_request_ok:
  assumes r: "buy_ready k j policy rate config decision bar session s ids inst volume"
    and p: "place_order oid decision inst q limit t (combine (b_session_date bar) daily_opening_price_proxy_at) close_at = Inr (x, es)"
    and q: "is_valid_buy_quantity session q"
  shows "is_ok (checks (match_request_checks (attempt_request config x bar session
    (combine (b_session_date bar) daily_opening_price_proxy_at) volume)))"
proof -
  have c: "config_ok config" "dc_slippage_bps config \<le> 1000" using r by (simp_all add: buy_ready_def)
  have v: "volume_usable config bar volume" "session_inputs_agree bar session inst" using r by (simp_all add: buy_ready_def)
  show ?thesis
    using config_okD [OF c(1)] c(2) v q place_orderE(5,6,8) [OF p]
    by (cases volume) (auto simp: match_request_checks_def attempt_request_def is_ok_checks volume_usable_def
        session_inputs_agree_def opt_any_iff split: if_splits)
qed

lemma ids_ok_order: "ids_ok ids \<Longrightarrow> next_fill_id (ids\<lparr>ids_order := n\<rparr>) =
    Inr (run_id ''fill'' (ids_run_key ids) 6 (ids_fill ids + 1), ids\<lparr>ids_order := n, ids_fill := ids_fill ids + 1\<rparr>)"
  using counter_id_ok [of "ids_run_key ids" "ids_fill ids" "''fill''"]
  by (simp add: ids_ok_def next_fill_id_def Let_def mk_id_def)

text \<open>The fill of a buy is booked, and what it costs is within the budget.\<close>

lemma buy_book_ok:
  assumes r: "buy_ready k j policy rate config decision bar session s ids inst volume"
    and u: "s_upper_limit session = Some p" and cal: "calendar_ok cal" "next_session cal (b_session_date bar) = Inr d"
    and q: "is_valid_buy_quantity session n" "0 < n" "pays policy rate p budget n"
    and budget: "budget = dec_mul (amount (ps_cash s)) (dc_allocation_ratio config)"
    and o: "place_order (run_id ''order'' (ids_run_key ids) 6 (ids_order ids + 1)) decision inst n p
       (max (sd_created_at decision + decision_processing_latency) (combine (b_session_date bar) opening_auction_accept_at))
       (combine (b_session_date bar) daily_opening_price_proxy_at) (combine (b_session_date bar) (hm 15 0)) = Inr (x, es)"
    and m: "match_order (attempt_request config x bar session (combine (b_session_date bar) daily_opening_price_proxy_at) volume) = Inr m"
      "r_outcome m \<noteq> NO_FILL"
  shows "\<exists>filled f s' ids'. book_fill (calculate_fees policy) decision inst (b_session_date bar) (Some d) x m s
      (ids\<lparr>ids_order := ids_order ids + 1\<rparr>) = Inr (filled, f, s', ids') \<and>
    exact_gross f + exact_fees (f_fees f) \<le> budget \<and>
    s' = after_fill s f \<lparr>amount = amount (ps_cash s) - (exact_gross f + exact_fees (f_fees f)), currency = currency (ps_cash s)\<rparr>
       (ps_lots s @ [bought_lot f d]) (bought_entry f) \<and> f_instrument_id f = inst \<and> 0 < f_quantity f"
proof -
  let ?open = "combine (b_session_date bar) daily_opening_price_proxy_at"
  let ?q = "attempt_request config x bar session ?open volume"
  note px = place_orderE [OF o]
  have buy: "sd_side decision = BUY" and mi: "market_inputs_ok bar session volume" and ag: "session_inputs_agree bar session inst"
    and e: "exact_range k j policy (b_session_date bar) rate" and cm: "currency (fp_minimum_commission policy) = currency (ps_cash s)"
    and pg: "prices_on_grid k (currency (ps_cash s)) bar session" and pr: "portfolio_ready k j s ids inst" and co: "config_ok config"
    using r by (simp_all add: buy_ready_def)
  have ids: "ids_ok ids" and pok: "portfolio_ok s" using pr by (simp_all add: portfolio_ready_def)
  have lim: "price_ok p" "on_grid k (amount p)" "currency p = currency (ps_cash s)"
    using mi pg u by (simp_all add: market_inputs_ok_def prices_on_grid_def)
  have rq: "request_ok ?q" by (rule attempt_request_ok [OF o mi lim(1) buy_request_ok [OF r o q(1)]])
  have qo: "q_order ?q = x" "q_bar ?q = bar" "q_session ?q = session" "q_opening_price_proxy_at ?q = ?open"
    by (simp_all add: attempt_request_def)
  from rq m obtain c p' t where e1: "r_price m = Some p'" "r_filled_at m = Some t" "t = ?open \<or> t = b_available_at bar"
      "t \<le> combine (b_session_date bar) (hm 15 0)" "amount p' \<le> amount p" "0 < r_quantity m" "r_quantity m \<le> n"
    by (rule fill_parts) (use px buy in \<open>auto simp: qo\<close>)
  have p': "price_ok p'" by (rule match_price_ok [OF rq m e1(1)])
  note grid = market_fill_price [OF rq m e1(1), of k "currency (ps_cash s)", unfolded qo, OF px(7) pg]
  have t: "?open \<le> t" using e1(3) ag by (auto simp: session_inputs_agree_def)
  define fid where "fid = run_id ''fill'' (ids_run_key ids) 6 (ids_fill ids + 1)"
  have nid: "next_fill_id (ids\<lparr>ids_order := ids_order ids + 1\<rparr>) = Inr (fid, ids\<lparr>ids_order := ids_order ids + 1, ids_fill := ids_fill ids + 1\<rparr>)"
    using ids_ok_order [OF ids] by (simp add: fid_def)
  obtain e4 where e4: "order_event_id (o_order_id x) 4 = Inr e4"
    using order_event_id_ok [OF ids, of 4] by (auto simp: is_ok_iff px(3))
  have up: "o_updated_at x \<le> t" unfolding px(12) using px(17) t by (rule order_trans)
  have "b_session_date bar = b_session_date bar \<and> ?open \<le> b_available_at bar" using ag by (simp add: session_inputs_agree_def)
  then obtain filled where filled: "record_fill x e4 fid t (r_quantity m) p' = Inr filled"
    using matched_fill_recordable [OF _ rq m e1(1,2), of es fid e4, unfolded qo] px(1,9,14) up grid(2) lim(3) by auto
  have small: "amount p' * of_int (r_quantity m) \<le> amount p * of_int n"
    using e1(5-7) p' by (intro mult_mono) (auto simp: price_ok_def)
  have pay: "amount p * of_int n + buy_fees policy rate (amount p * of_int n) \<le> budget" using q(3) by (simp add: pays_def)
  have rates: "0 \<le> fp_commission_rate policy" "0 \<le> rate" "0 \<le> amount (fp_minimum_commission policy)"
    using e rate_grids(5) [of _ "b_session_date bar" rate] by (auto simp: exact_range_def)
  have g0: "0 < amount p' * of_int (r_quantity m)" using p' e1(6) by (simp add: price_ok_def)
  have fees0: "0 \<le> buy_fees policy rate (amount p * of_int n)"
    unfolding buy_fees_def using rates g0 small
    by (intro add_nonneg_nonneg cents_nonneg) (auto simp: le_max_iff_disj intro!: mult_nonneg_nonneg)
  have cost: "amount p' * of_int (r_quantity m) + buy_fees policy rate (amount p' * of_int (r_quantity m)) \<le> budget"
    using buy_fees_mono [OF less_imp_le [OF g0] small rates(1,2)] small pay by linarith
  note bb = budget_bounds [OF pr co, folded budget]
  have b25: "amount p' * of_int (r_quantity m) * 10 ^ (k + j + 5) < 10 ^ 25"
  proof -
    have "amount p' * of_int (r_quantity m) \<le> budget" using small pay fees0 by linarith
    then have "amount p' * of_int (r_quantity m) * 10 ^ (k + j + 5) \<le> budget * 10 ^ (k + j + 5)" by (rule mult_right_mono) simp
    moreover have "(10::rat) ^ 24 < 10 ^ 25" by simp
    ultimately show ?thesis using bb(3) by linarith
  qed
  have cp': "currency p' = currency (fp_minimum_commission policy)" using grid(2) cm by simp
  obtain fees where fees: "calculate_fees policy BUY p' (r_quantity m) (b_session_date bar) = Inr fees"
    using affordable_exact(2) [OF e p' grid(1) cp' e1(6) b25] by blast
  define f where "f = \<lparr>f_fill_id = fid, f_order_id = o_order_id x, f_instrument_id = inst, f_side = BUY,
     f_quantity = r_quantity m, f_price = p', f_filled_at = t, f_fees = fees\<rparr>"
  have ff: "f_side f = BUY" "f_price f = p'" "f_quantity f = r_quantity m" "f_fees f = fees" "f_fill_id f = fid" "f_filled_at f = t"
    "f_instrument_id f = inst"
    by (simp_all add: f_def)
  note fx = quoted_fees_exact [OF e p' grid(1) cp' e1(6) b25 ff(1-3) fees [folded ff(4)]]
  have spent: "exact_gross f + exact_fees (f_fees f) \<le> budget" using cost fx(3) by (simp add: exact_gross_def ff)
  have "trading_date f \<le> b_session_date bar"
    using shanghai_date_mono [OF e1(4)] by (simp add: trading_date_def ff)
  moreover have "b_session_date bar < d" using next_session_Inr [OF cal] by blast
  ultimately have later: "\<not> d \<le> trading_date f" by simp
  have fresh: "fid \<notin> applied_fill_ids s" using pr by (simp add: portfolio_ready_def fid_def)
  have "apply_buy s f d = Inr (after_fill s f \<lparr>amount = amount (ps_cash s) - (exact_gross f + exact_fees (f_fees f)),
      currency = currency (ps_cash s)\<rparr> (ps_lots s @ [bought_lot f d]) (bought_entry f))"
    using apply_buy_exact [OF pok fx(1,2) _ bb(4), of d] pr later fresh grid(2) spent bb(2) ff
    by (simp add: portfolio_ready_def)
  moreover have "mk_fill_record f = Inr f"
    using fx(1) by (simp add: mk_fill_record_def construct_ok fill_ok_def)
  ultimately have "book_fill (calculate_fees policy) decision inst (b_session_date bar) (Some d) x m s
      (ids\<lparr>ids_order := ids_order ids + 1\<rparr>) = Inr (filled, f, after_fill s f \<lparr>amount = amount (ps_cash s) -
      (exact_gross f + exact_fees (f_fees f)), currency = currency (ps_cash s)\<rparr> (ps_lots s @ [bought_lot f d]) (bought_entry f),
      ids\<lparr>ids_order := ids_order ids + 1, ids_fill := ids_fill ids + 1\<rparr>)"
    using nid e4 filled fees buy by (simp add: book_fill_def e1(1,2) flip: f_def)
  then show ?thesis using spent ff e1(6) by (intro exI conjI) (assumption | simp)+
qed


text \<open>The end of the order.\<close>

lemma close_order_ok:
  assumes v: "valid_order y" and st: "o_status y \<in> {ACCEPTED, PARTIALLY_FILLED, FILLED}"
    and t: "o_updated_at y \<le> t" "o_valid_until y \<le> t" and r: "\<not> blank (r_reason_code m)"
    and e: "is_ok (order_event_id (o_order_id y) (o_version y + 1))"
  shows "is_ok (close_order y m t)"
proof (cases "o_status y = FILLED")
  case False
  then have nt: "\<not> is_terminal_status (o_status y)" using st by auto
  let ?r = "if r_outcome m \<noteq> NO_FILL then ''day_remainder_expired'' else r_reason_code m"
  have "\<not> blank ?r" using r by (simp add: blank_simps py_space_def)
  obtain e' where e': "order_event_id (o_order_id y) (o_version y + 1) = Inr e'" using e by (auto simp: is_ok_iff)
  obtain tr where "expire_order y e' t ?r = Inr tr" using expire_order_ok [OF v nt t \<open>\<not> blank ?r\<close>] by blast
  then show ?thesis using False by (simp add: close_order_def e')
qed (simp add: close_order_def)

lemma economic_after_buy:
  assumes "is_ok (economic_position_quantity s inst)" "f_instrument_id f = inst" "0 < f_quantity f"
  shows "is_ok (economic_position_quantity (after_fill s f cash (ps_lots s @ [bought_lot f d]) e) inst)"
  using assms
  by (auto simp: economic_position_quantity_def Let_def position_quantity_def position_quantity_of_def pending_share_delta_def
      after_fill_def bought_lot_def split: if_splits)

text \<open>What a buy attempt leaves: no fill and the same portfolio, or a fill paid within the budget.\<close>

definition within_budget :: "daily_config \<Rightarrow> portfolio_state \<Rightarrow> fill_record option \<Rightarrow> portfolio_state \<Rightarrow> bool" where
  "within_budget config s fill s' \<longleftrightarrow>
     (case fill of
        None \<Rightarrow> s' = s
      | Some f \<Rightarrow> exact_gross f + exact_fees (f_fees f) \<le> dec_mul (amount (ps_cash s)) (dc_allocation_ratio config) \<and>
          amount (ps_cash s') = amount (ps_cash s) - (exact_gross f + exact_fees (f_fees f)))"

lemma buy_order_returns:
  assumes r: "buy_ready k j policy rate config decision bar session s ids inst volume"
    and u: "s_upper_limit session = Some p" and cal: "calendar_ok cal" "next_session cal (b_session_date bar) = Inr d"
    and q: "is_valid_buy_quantity session n" "0 < n" "pays policy rate p (dec_mul (amount (ps_cash s)) (dc_allocation_ratio config)) n"
  shows "\<exists>a. run_order (calculate_fees policy) config decision bar session s ids inst volume n p (Some d) = Inr a \<and>
    within_budget config s (at_fill a) (at_portfolio a)"
proof -
  let ?open = "combine (b_session_date bar) daily_opening_price_proxy_at"
  let ?close = "combine (b_session_date bar) (hm 15 0)"
  let ?at = "max (sd_created_at decision + decision_processing_latency) (combine (b_session_date bar) opening_auction_accept_at)"
  let ?oid = "run_id ''order'' (ids_run_key ids) 6 (ids_order ids + 1)"
  have ids: "ids_ok ids" and eco: "is_ok (economic_position_quantity s inst)"
    and mi: "market_inputs_ok bar session volume" and pp: "price_ok p"
    using r u by (auto simp: buy_ready_def portfolio_ready_def market_inputs_ok_def)
  have at: "?at \<le> ?open" using r session_times(1) by (simp add: buy_ready_def)
  obtain x es where o: "place_order ?oid decision inst n p ?at ?open ?close = Inr (x, es)"
    using place_order_ok [OF order_event_id_ok [OF ids] q(2) at session_times(2)] by blast
  note px = place_orderE [OF o]
  note rq = attempt_request_ok [OF o mi pp buy_request_ok [OF r o q(1)]]
  obtain m where m: "match_order (attempt_request config x bar session ?open volume) = Inr m"
    using match_order_total [OF rq] by blast
  note reason = match_reason_not_blank [OF m]
  have mk: "mk_match_request (attempt_request config x bar session ?open volume) = Inr (attempt_request config x bar session ?open volume)"
    using buy_request_ok [OF r o q(1)] by (simp add: mk_match_request_def construct_ok)
  note step = run_order_def Let_def next_ids_ok(2) [OF ids] rbind_Inr prod.case o mk m
  show ?thesis
  proof (cases "r_outcome m = NO_FILL")
    case True
    have "o_updated_at x \<le> ?close" unfolding px(12) using px(17,18) by (rule order_trans)
    then have "is_ok (close_order x m ?close)"
      using px(2,3,11,16) order_event_id_ok [OF ids, of 4] reason
      by (intro close_order_ok order_history_valid [OF px(1)]) simp_all
    then obtain c where c: "close_order x m ?close = Inr c" by (auto simp: is_ok_iff)
    from eco obtain e where e: "economic_position_quantity s inst = Inr e" by (auto simp: is_ok_iff)
    show ?thesis by (simp add: step True c e within_budget_def split: prod.split)
  next
    case False
    from buy_book_ok [OF r u cal q refl o m False] obtain filled f s' ids' where
      b: "book_fill (calculate_fees policy) decision inst (b_session_date bar) (Some d) x m s
        (ids\<lparr>ids_order := ids_order ids + 1\<rparr>) = Inr (filled, f, s', ids')"
      and spent: "exact_gross f + exact_fees (f_fees f) \<le> dec_mul (amount (ps_cash s)) (dc_allocation_ratio config)"
      and s': "s' = after_fill s f \<lparr>amount = amount (ps_cash s) - (exact_gross f + exact_fees (f_fees f)), currency = currency (ps_cash s)\<rparr>
       (ps_lots s @ [bought_lot f d]) (bought_entry f)" "f_instrument_id f = inst" "0 < f_quantity f"
      by blast
    from b have "is_ok (close_order (tr_order filled) m ?close)"
    proof (rule book_fillE)
      fix price t e4
      assume rf: "record_fill x e4 (f_fill_id f) t (r_quantity m) price = Inr filled"
      note up = record_fill_Inr(11) [OF rf]
      have "is_ok (order_event_id (o_order_id (tr_order filled)) (o_version (tr_order filled) + 1))"
        using up px order_event_id_ok [OF ids, of 5] by auto
      then show ?thesis
        using up record_fill_Inr(3) [OF rf] px reason
        by (intro close_order_ok record_fill_Inr(12) [OF rf]) auto
    qed
    then obtain c where c: "close_order (tr_order filled) m ?close = Inr c" by (auto simp: is_ok_iff)
    have "is_ok (economic_position_quantity s' inst)" unfolding s'(1) by (rule economic_after_buy [OF eco s'(2,3)])
    then obtain e where e: "economic_position_quantity s' inst = Inr e" unfolding is_ok_iff by blast
    have "amount (ps_cash s') = amount (ps_cash s) - (exact_gross f + exact_fees (f_fees f))" by (simp add: s'(1))
    then show ?thesis using spent by (simp add: step False b c e within_budget_def split: prod.split)
  qed
qed

text \<open>A concrete buy: 10,000 CNY, the sized session, and a bar that trades between the limits.\<close>

definition buy_bar :: daily_bar where
  "buy_bar = sample_bar\<lparr>b_instrument_id := ''600000.SH'', b_session_date := ymd 2024 5 6,
     b_available_at := combine (ymd 2024 5 6) (hm 15 0)\<rparr>"

definition buy_decision :: strategy_decision where
  "buy_decision = decision_of BUY (sample_fact (ymd 2024 4 30) True)"

definition buy_calendar :: trading_calendar where
  "buy_calendar = \<lparr>cal_version = ''v1'', cal_sessions = [ymd 2024 4 30, ymd 2024 5 6, ymd 2024 5 7]\<rparr>"

lemma buy_scenario:
  "buy_ready 2 4 sample_policy (1 / 100000) run_config buy_decision buy_bar sized_session (cash_portfolio 10000) run_ids ''600000.SH'' None"
  "s_upper_limit sized_session = Some (cny 11)" "calendar_ok buy_calendar"
  "market_inputs_ok buy_bar sized_session None"
  by code_simp+

lemma buy_scenario_next: "next_session buy_calendar (b_session_date buy_bar) = Inr (ymd 2024 5 7)"
  by code_simp

text \<open>When some declaration is affordable and a later session exists, the attempt sends an order.\<close>

lemma buy_attempt_sends:
  assumes r: "buy_ready k j policy rate config decision bar session s ids inst volume" and u: "s_upper_limit session = Some p"
    and cal: "calendar_ok cal" "next_session cal (b_session_date bar) = Inr d"
    and m: "is_valid_buy_quantity session m" "0 < m" "pays policy rate p (dec_mul (amount (ps_cash s)) (dc_allocation_ratio config)) m"
  shows "\<exists>a tr. attempt_decision (next_session cal) (calculate_fees policy) config decision bar session s ids inst volume =
      Some (Inr a) \<and> at_trace a = Some tr \<and> within_budget config s (at_fill a) (at_portfolio a)"
proof -
  have buy: "sd_side decision = BUY" and e: "exact_range k j policy (b_session_date bar) rate"
    and so: "session_ok session" "price_ok p" "on_grid k (amount p)" "currency p = currency (fp_minimum_commission policy)"
    and pc: "portfolio_ready k j s ids inst" "config_ok config"
    using r u by (auto simp: buy_ready_def market_inputs_ok_def prices_on_grid_def)
  from size_pre_open_buy_spec [OF so(1) u e so(2-4) budget_bounds(1,3) [OF pc]] obtain n where
    n: "size_pre_open_buy (calculate_fees policy) (ps_cash s) session (dc_allocation_ratio config) (b_session_date bar) =
      Some (Inr (Some \<lparr>z_affordability_price = p, z_quantity = n\<rparr>))" "m \<le> n"
    "n = 0 \<or> is_valid_buy_quantity session n \<and> pays policy rate p (dec_mul (amount (ps_cash s)) (dc_allocation_ratio config)) n"
    using m(1,3) by blast
  then have t: "attempt_terms (next_session cal) (calculate_fees policy) config decision bar session s inst =
      Some (Inr (Order n p (Some d)))"
    using buy cal(2) m(2) by (simp add: attempt_terms_def buy_terms_def)
  obtain a where a: "run_order (calculate_fees policy) config decision bar session s ids inst volume n p (Some d) = Inr a"
    "within_budget config s (at_fill a) (at_portfolio a)"
    using buy_order_returns [OF r u cal, of n] n(2,3) m(2) by auto
  show ?thesis using run_order_trail [OF a(1)] a by (auto simp: attempt_decision_def t)
qed

lemma buy_scenario_order:
  "\<exists>a tr. attempt_decision (next_session buy_calendar) (calculate_fees sample_policy) run_config buy_decision buy_bar
      sized_session (cash_portfolio 10000) run_ids ''600000.SH'' None = Some (Inr a) \<and> at_trace a = Some tr"
proof -
  have "is_valid_buy_quantity sized_session 900"
    "pays sample_policy (1 / 100000) (cny 11) (dec_mul (amount (ps_cash (cash_portfolio 10000))) (dc_allocation_ratio run_config)) 900"
    by code_simp+
  then show ?thesis using buy_attempt_sends [OF buy_scenario(1-3) buy_scenario_next, of 900] by auto
qed

lemma buy_attempt_ok:
  assumes "buy_ready k j policy rate config decision bar session s ids inst volume"
    and "s_upper_limit session = Some p" "calendar_ok cal"
  shows "\<exists>a. attempt_decision (next_session cal) (calculate_fees policy) config decision bar session s ids inst volume =
      Some (Inr a) \<and> within_budget config s (at_fill a) (at_portfolio a)"
proof -
  from buy_terms_ok [OF assms(1,2), of cal] obtain t where
    t: "attempt_terms (next_session cal) (calculate_fees policy) config decision bar session s inst = Some (Inr t)"
    and c: "case t of Stop _ _ _ \<Rightarrow> True
     | Order q limit d \<Rightarrow> limit = p \<and> 0 < q \<and> is_valid_buy_quantity session q \<and>
         pays policy rate p (dec_mul (amount (ps_cash s)) (dc_allocation_ratio config)) q \<and>
         opt_any (\<lambda>d. next_session cal (b_session_date bar) = Inr d) d"
    by blast
  have o: "t = Order q limit d \<Longrightarrow> limit = p \<and> 0 < q \<and> is_valid_buy_quantity session q \<and>
        pays policy rate p (dec_mul (amount (ps_cash s)) (dc_allocation_ratio config)) q \<and>
        (\<exists>d'. d = Some d' \<and> next_session cal (b_session_date bar) = Inr d')" for q limit d
    using c by (auto simp: opt_any_iff)
  show ?thesis
  proof (cases t)
    case Stop
    then show ?thesis by (simp add: attempt_decision_def t within_budget_def)
  next
    case (Order q limit d)
    note t' = o [OF this]
    then obtain d' where d: "d = Some d'" "next_session cal (b_session_date bar) = Inr d'" by blast
    from buy_order_returns [OF assms d(2), of q] t' show ?thesis by (auto simp: attempt_decision_def t Order d)
  qed
qed

text \<open>C21: a buy attempt always returns and never overspends: for inputs the day loop prepares (a decision confirmed
  before the auction, prices with few decimals, an exact range for the fees) sizing, the order, the matcher, the
  fees and the ledger never raise, no InsufficientCash is possible, and a fill costs at most the allocated budget
  and leaves exactly the cash minus its cost; otherwise the portfolio is unchanged.\<close>

theorem buy_attempt_returns:
  assumes "buy_ready k j policy rate config decision bar session s ids inst volume"
    and "s_upper_limit session = Some p" "calendar_ok cal"
  shows "\<exists>a. attempt_decision (next_session cal) (calculate_fees policy) config decision bar session s ids inst volume =
      Some (Inr a) \<and> within_budget config s (at_fill a) (at_portfolio a)"
  using assms by (rule buy_attempt_ok)

theorem buy_attempt_returns_witness:
  "\<exists>a. attempt_decision (next_session buy_calendar) (calculate_fees sample_policy) run_config buy_decision buy_bar
      sized_session (cash_portfolio 10000) run_ids ''600000.SH'' None = Some (Inr a) \<and>
    within_budget run_config (cash_portfolio 10000) (at_fill a) (at_portfolio a)"
  by (rule buy_attempt_returns [OF buy_scenario(1-3)])

text \<open>C19: every order an attempt sends leaves a complete audit trail: its events are a history of the state machine
  from creation on, it ends FILLED or EXPIRED, belongs to the decision (which lists it last), and its recorded
  fills are exactly the fill the attempt returns.\<close>

theorem attempt_order_complete:
  assumes "attempt_decision next_day quote config decision bar session s ids inst volume = Some (Inr a)"
    and "at_trace a = Some tr"
  shows "order_history (ot_order tr) (ot_events tr) \<and> o_status (ot_order tr) \<in> {FILLED, EXPIRED} \<and>
    o_decision_id (ot_order tr) = sd_decision_id decision \<and> o_side (ot_order tr) = sd_side decision \<and>
    sd_order_ids (at_decision a) = sd_order_ids decision @ [o_order_id (ot_order tr)] \<and>
    (case at_fill a of
       None \<Rightarrow> o_applied_fill_ids (ot_order tr) = [] \<and> o_filled_quantity (ot_order tr) = 0
     | Some f \<Rightarrow> o_applied_fill_ids (ot_order tr) = [f_fill_id f] \<and> o_filled_quantity (ot_order tr) = f_quantity f \<and>
         f_order_id f = o_order_id (ot_order tr))"
  using assms(1)
proof (cases rule: attempt_decisionE)
  case (2 q limit sellable_on)
  then show ?thesis using run_order_trail [OF 2(2)] assms(2) by auto
qed (use assms(2) in simp)

theorem attempt_order_complete_witness:
  "\<exists>a tr. attempt_decision (next_session buy_calendar) (calculate_fees sample_policy) run_config buy_decision buy_bar
      sized_session (cash_portfolio 10000) run_ids ''600000.SH'' None = Some (Inr a) \<and> at_trace a = Some tr \<and>
    o_status (ot_order tr) \<in> {FILLED, EXPIRED} \<and> sd_order_ids (at_decision a) = [o_order_id (ot_order tr)]"
proof -
  obtain a tr where a: "attempt_decision (next_session buy_calendar) (calculate_fees sample_policy) run_config buy_decision buy_bar
      sized_session (cash_portfolio 10000) run_ids ''600000.SH'' None = Some (Inr a)" "at_trace a = Some tr"
    using buy_scenario_order by blast
  then show ?thesis using attempt_order_complete [OF a] by (simp add: buy_decision_def decision_of_def)
qed

text \<open>C4: the portfolio changes exactly by the fill: with the fee calculator of the program an attempt either
  returns no fill and the same portfolio, or one fill of the decision's side whose fees are the calculator's,
  booked by apply_buy (sellable on the next session of the calendar) or apply_sell; so every attempt extends
  the history of the portfolio.\<close>

theorem attempt_books_its_fill:
  assumes "attempt_decision next_day (calculate_fees policy) config decision bar session s ids inst volume = Some (Inr a)"
    and "market_inputs_ok bar session volume" "portfolio_history sha s0 s"
  shows "booked next_day (calculate_fees policy) (sd_side decision) (b_session_date bar) s (at_fill a) (at_portfolio a) \<and>
    portfolio_history sha s0 (at_portfolio a)"
  using attempt_booked [OF assms(1)] calculator.attempt_history [OF assms] by blast

theorem attempt_books_its_fill_witness:
  "\<exists>a. attempt_decision (next_session buy_calendar) (calculate_fees sample_policy) run_config buy_decision buy_bar
      sized_session (cash_portfolio 10000) run_ids ''600000.SH'' None = Some (Inr a) \<and>
    portfolio_history (\<lambda>_. []) (cash_portfolio 10000) (at_portfolio a)"
proof -
  obtain a where a: "attempt_decision (next_session buy_calendar) (calculate_fees sample_policy) run_config buy_decision buy_bar
      sized_session (cash_portfolio 10000) run_ids ''600000.SH'' None = Some (Inr a)"
    using buy_scenario_order by blast
  show ?thesis using attempt_books_its_fill [OF a buy_scenario(4) portfolio_history.start] a by blast
qed

end
