(* ===== verification/Analytics.thy ===== *)
theory Analytics
  imports MarketData Rounding Text
begin

text \<open>
  The artefacts of a run that are measured (\<open>domain/analytics/metrics.py\<close>: equity points, round trips,
  the curve, drawdown and trade statistics) and the conversion of prices at an ex-date
  (\<open>application/minute_price_rebase.py\<close>).  The ratios that the program computes in binary floating
  point (volatility, Sharpe ratio, annualised return) are not modelled; a Decimal that is finally
  converted by \<open>float(...)\<close> is kept as it is.
\<close>

section \<open>Equity and round trips\<close>

record equity_point =
  ep_session_date :: date
  ep_equity :: rat
  ep_benchmark :: "rat option"

definition equity_point_checks :: "equity_point \<Rightarrow> (bool \<times> py_error) list" where
  "equity_point_checks p =
    [(ep_equity p \<le> 0, DomainValidationError ''equity must be a finite positive Decimal''),
     (opt_any (\<lambda>b. b \<le> 0) (ep_benchmark p), DomainValidationError ''benchmark must be a finite positive Decimal'')]"

definition mk_equity_point :: "equity_point \<Rightarrow> equity_point result" where
  "mk_equity_point p = construct (\<lambda>p. checks (equity_point_checks p)) p"

record round_trip =
  rt_entry_date :: date
  rt_exit_date :: date
  rt_net_pnl :: rat

definition round_trip_checks :: "round_trip \<Rightarrow> (bool \<times> py_error) list" where
  "round_trip_checks t = [(rt_entry_date t > rt_exit_date t, DomainValidationError ''round-trip entry cannot follow exit'')]"

definition mk_round_trip :: "round_trip \<Rightarrow> round_trip result" where
  "mk_round_trip t = construct (\<lambda>t. checks (round_trip_checks t)) t"

definition holding_days :: "round_trip \<Rightarrow> int" where
  "holding_days t = rt_exit_date t - rt_entry_date t"

section \<open>Metrics\<close>

definition curve_checks :: "equity_point list \<Rightarrow> (bool \<times> py_error) list" where
  "curve_checks curve =
    (let dates = map ep_session_date curve in
    [(curve = [], DomainValidationError ''equity curve cannot be empty''),
     (dates \<noteq> sort dates \<or> \<not> distinct dates, DomainValidationError ''equity curve dates must be strictly increasing'')])"

text \<open>\<open>_maximum_drawdown\<close> before its conversion to a float: the loop on the peak and the worst value.\<close>

fun drawdown_loop :: "equity_point list \<Rightarrow> rat \<Rightarrow> rat \<Rightarrow> rat result" where
  "drawdown_loop [] peak worst = Inr worst"
| "drawdown_loop (p # ps) peak worst =
     (let peak' = max peak (ep_equity p) in
      rbind (dec_div (ep_equity p) peak') (\<lambda>ratio. drawdown_loop ps peak' (min worst (dec_sub ratio 1))))"

definition maximum_drawdown :: "equity_point list \<Rightarrow> rat result" where
  "maximum_drawdown curve =
     (case curve of [] \<Rightarrow> Inl IndexError | p # _ \<Rightarrow> drawdown_loop curve (ep_equity p) 0)"

definition benchmark_return :: "equity_point list \<Rightarrow> rat option result" where
  "benchmark_return curve =
     (if list_ex (\<lambda>p. ep_benchmark p = None) curve then Inr None
      else if curve = [] then Inl IndexError
      else case (ep_benchmark (hd curve), ep_benchmark (last curve)) of
             (Some first, Some final) \<Rightarrow> rbind (dec_div final first) (\<lambda>r. Inr (Some (dec_sub r 1)))
           | _ \<Rightarrow> Inr None)"

datatype profit_factor = NO_FACTOR | FACTOR rat | INFINITE_FACTOR

record trade_metrics =
  tm_maximum_drawdown :: rat
  tm_benchmark_return :: "rat option"
  tm_trade_count :: nat
  tm_win_count :: nat
  tm_profit_factor :: profit_factor
  tm_holding_days :: "int list"
  tm_small_sample :: bool

definition dec_sum :: "rat list \<Rightarrow> rat" where
  "dec_sum xs = foldl dec_add 0 xs"

definition profit_factor_of :: "round_trip list \<Rightarrow> profit_factor result" where
  "profit_factor_of trades =
     (let gross_profit = dec_sum (map rt_net_pnl (filter (\<lambda>t. rt_net_pnl t > 0) trades));
          gross_loss = dec_neg (dec_sum (map rt_net_pnl (filter (\<lambda>t. rt_net_pnl t < 0) trades)))
      in if gross_loss > 0 then rbind (dec_div gross_profit gross_loss) (\<lambda>r. Inr (FACTOR r))
         else Inr (if gross_profit > 0 then INFINITE_FACTOR else NO_FACTOR))"

definition calculate_metrics :: "equity_point list \<Rightarrow> round_trip list \<Rightarrow> trade_metrics result" where
  "calculate_metrics curve trades =
     rbind (checks (curve_checks curve)) (\<lambda>_.
     rbind (maximum_drawdown curve) (\<lambda>drawdown.
     rbind (benchmark_return curve) (\<lambda>bench.
     rbind (profit_factor_of trades) (\<lambda>factor.
       Inr \<lparr>tm_maximum_drawdown = drawdown, tm_benchmark_return = bench, tm_trade_count = length trades,
            tm_win_count = length (filter (\<lambda>t. rt_net_pnl t > 0) trades), tm_profit_factor = factor,
            tm_holding_days = map holding_days trades, tm_small_sample = (length trades < 30)\<rparr>))))"

section \<open>Price conversion at an ex-date\<close>

record price_rebase =
  rb_instrument_id :: string
  rb_ex_date :: date
  rb_factor :: rat
  rb_available_at :: datetime
  rb_source_sha256 :: string

definition price_rebase_checks :: "price_rebase \<Rightarrow> (bool \<times> py_error) list" where
  "price_rebase_checks r =
    [(rb_factor r \<le> 0, ValueError ''price rebase factor must be positive''),
     (rb_available_at r > combine (rb_ex_date r) (hm 9 30), ValueError ''price rebase was not known before the ex-date open''),
     (\<not> (let d = removeprefix ''sha256:'' (rb_source_sha256 r) in length d = 64 \<and> list_all lower_hex d),
      ValueError ''price rebase requires a source hash'')]"

definition mk_price_rebase :: "price_rebase \<Rightarrow> price_rebase result" where
  "mk_price_rebase r = construct (\<lambda>r. checks (price_rebase_checks r)) r"

definition rebase_price :: "price_rebase \<Rightarrow> rat option \<Rightarrow> bool \<Rightarrow> rat \<Rightarrow> rat option result" where
  "rebase_price r v buy tick =
     (case v of
        None \<Rightarrow> Inr None
      | Some x \<Rightarrow>
          rbind (dec_div (dec_mul x (rb_factor r)) tick) (\<lambda>ticks.
          let y = dec_mul (of_int (if buy then \<lfloor>ticks\<rfloor> else \<lceil>ticks\<rceil>)) tick in
          if y \<le> 0 then Inl (ValueError ''rebased price falls below one tick'') else Inr (Some y)))"

definition active_rebases :: "price_rebase list \<Rightarrow> datetime \<Rightarrow> price_rebase list" where
  "active_rebases rs as_of =
     filter (\<lambda>r. rb_ex_date r \<le> shanghai_date as_of \<and> rb_available_at r \<le> as_of) rs"

definition bar_factor :: "price_rebase list \<Rightarrow> daily_bar \<Rightarrow> rat" where
  "bar_factor active b =
     fold (\<lambda>r f. if b_session_date b < rb_ex_date r then dec_mul f (rb_factor r) else f) active 1"

definition front_adjusted_bar :: "price_rebase list \<Rightarrow> daily_bar \<Rightarrow> daily_bar result" where
  "front_adjusted_bar active b =
     (let f = bar_factor active b in
      rbind (mk_price (dec_mul (amount (b_open b)) f) ''CNY'') (\<lambda>open_price.
      rbind (mk_price (dec_mul (amount (b_high b)) f) ''CNY'') (\<lambda>high.
      rbind (mk_price (dec_mul (amount (b_low b)) f) ''CNY'') (\<lambda>low.
      rbind (mk_price (dec_mul (amount (b_close b)) f) ''CNY'') (\<lambda>close.
        mk_daily_bar (b\<lparr>b_open := open_price, b_high := high, b_low := low, b_close := close,
          b_price_basis := DYNAMIC_FRONT_ADJUSTED\<rparr>))))))"

definition dynamic_front_adjusted_bars :: "daily_bar list \<Rightarrow> price_rebase list \<Rightarrow> datetime \<Rightarrow> daily_bar list result" where
  "dynamic_front_adjusted_bars bars rs as_of =
     (case bars of
        [] \<Rightarrow> Inr []
      | b # _ \<Rightarrow>
          let instrument = b_instrument_id b in
          rbind (checks
            [(list_ex (\<lambda>b. b_instrument_id b \<noteq> instrument \<or> b_price_basis b \<noteq> UNADJUSTED \<or> b_available_at b > as_of) bars,
              ValueError ''dynamic signal input requires available raw bars for one instrument''),
             (\<not> strictly_increasing (map b_session_date bars), ValueError ''dynamic signal dates must be strictly ordered''),
             (\<not> distinct (map rb_ex_date rs) \<or> list_ex (\<lambda>r. rb_instrument_id r \<noteq> instrument) rs,
              ValueError ''dynamic signal factors must be unique and match the instrument'')])
          (\<lambda>_. map_res (front_adjusted_bar (active_rebases rs as_of)) bars))"

section \<open>The curve\<close>

lemma curve_checks_ok:
  "curve \<noteq> [] \<Longrightarrow> strictly_increasing (map ep_session_date curve) \<Longrightarrow> is_ok (checks (curve_checks curve))"
  using strictly_increasing_distinct sorted_sort_id [OF strictly_increasing_sorted, of "map ep_session_date curve"]
  by (simp add: curve_checks_def Let_def is_ok_checks)

definition positive_curve :: "equity_point list \<Rightarrow> bool" where
  "positive_curve curve \<longleftrightarrow> list_all (\<lambda>p. 0 < ep_equity p) curve"

lemma dec_div_pos: "0 < y \<Longrightarrow> dec_div x y = Inr (ctx (x / y))"
  by (simp add: dec_div_def)

text \<open>The drawdown of one point against a peak.\<close>

definition drawdown_at :: "rat \<Rightarrow> rat \<Rightarrow> rat" where
  "drawdown_at peak e = dec_sub (ctx (e / peak)) 1"

lemma ctx_1 [simp]: "ctx 1 = 1"
  using ctx_of_int [of 1] by simp

lemma drawdown_at_bounds:
  assumes "0 < e" "e \<le> peak"
  shows "- 1 \<le> drawdown_at peak e \<and> drawdown_at peak e \<le> 0"
proof -
  have "0 \<le> ctx (e / peak)" "ctx (e / peak) \<le> 1" using assms ctx_mono [of "e / peak" 1] by auto
  moreover have "ctx (- 1 :: rat) = - 1" by (simp add: ctx_minus)
  ultimately show ?thesis
    using ctx_mono [of "ctx (e / peak) - 1" 0] ctx_mono [of "- 1" "ctx (e / peak) - 1"]
    by (simp add: drawdown_at_def dec_sub_def)
qed

lemma drawdown_at_peak [simp]: "0 < e \<Longrightarrow> drawdown_at e e = 0"
  by (simp add: drawdown_at_def dec_sub_def)

text \<open>The reference: each point against the greatest value up to it.\<close>

definition drawdowns_from :: "rat \<Rightarrow> rat list \<Rightarrow> rat set" where
  "drawdowns_from peak es = (\<lambda>i. drawdown_at (Max (insert peak (set (take (Suc i) es)))) (es ! i)) ` {..<length es}"

lemma drawdowns_from_Cons: "drawdowns_from peak (e # es) = insert (drawdown_at (max peak e) e) (drawdowns_from (max peak e) es)"
proof -
  let ?f = "\<lambda>i. drawdown_at (Max (insert peak (set (take (Suc i) (e # es))))) ((e # es) ! i)"
  have m: "Max (insert peak (insert e A)) = Max (insert (max peak e) A)" if "finite A" for A
    using that by (cases "A = {}") (simp_all add: max.assoc)
  have "{..<length (e # es)} = insert 0 (Suc ` {..<length es})" by (auto simp: less_Suc_eq_0_disj)
  then have "drawdowns_from peak (e # es) = insert (?f 0) ((\<lambda>i. ?f (Suc i)) ` {..<length es})"
    by (simp only: drawdowns_from_def image_insert image_image)
  also have "?f 0 = drawdown_at (max peak e) e" by simp
  also have "(\<lambda>i. ?f (Suc i)) ` {..<length es} = drawdowns_from (max peak e) es"
    unfolding drawdowns_from_def by (intro image_cong) (simp_all only: take_Suc_Cons list.set nth_Cons_Suc m finite_set)
  finally show ?thesis .
qed

lemma drawdown_loop_eq:
  assumes "0 < peak" "positive_curve ps"
  shows "drawdown_loop ps peak worst = Inr (Min (insert worst (drawdowns_from peak (map ep_equity ps))))"
  using assms
proof (induction ps arbitrary: peak worst)
  case Nil
  then show ?case by (simp add: drawdowns_from_def)
next
  case (Cons p ps)
  have p: "0 < max peak (ep_equity p)" "positive_curve ps" using Cons.prems by (auto simp: positive_curve_def less_max_iff_disj)
  have f: "finite (drawdowns_from q es)" for q es by (simp add: drawdowns_from_def)
  have m: "Min (insert (min w x) A) = Min (insert w (insert x A))" if "finite A" for w x and A :: "rat set"
    using that by (cases "A = {}") (simp_all add: min.assoc)
  show ?case
    using Cons.IH [OF p] p(1) by (simp add: Let_def dec_div_pos drawdowns_from_Cons m f flip: drawdown_at_def)
qed

section \<open>Properties\<close>

text \<open>C27: the maximum drawdown is exact: for a curve of positive equity the loop never raises and returns the least,
  over all points, of the point's value against the greatest value up to it (minus one), which lies in [-1, 0].\<close>

theorem maximum_drawdown_exact:
  assumes "positive_curve curve" "curve \<noteq> []"
  shows "\<exists>d. maximum_drawdown curve = Inr d \<and>
    d = Min ((\<lambda>i. drawdown_at (Max (ep_equity ` set (take (Suc i) curve))) (ep_equity (curve ! i))) ` {..<length curve}) \<and>
    - 1 \<le> d \<and> d \<le> 0"
proof -
  define es where "es = map ep_equity curve"
  define D where "D = (\<lambda>i. drawdown_at (Max (ep_equity ` set (take (Suc i) curve))) (ep_equity (curve ! i))) ` {..<length curve}"
  obtain p ps where c: "curve = p # ps" using assms(2) by (cases curve) auto
  have pos: "0 < ep_equity p" using assms(1) by (simp add: c positive_curve_def)
  have "drawdowns_from (ep_equity p) es = D"
  proof -
    have "insert (ep_equity p) (set (take (Suc i) es)) = ep_equity ` set (take (Suc i) curve)" for i
      by (auto simp: es_def c take_map)
    then show ?thesis unfolding drawdowns_from_def D_def by (intro image_cong) (simp_all add: es_def)
  qed
  moreover have "0 \<in> D" unfolding D_def using pos by (intro image_eqI [of _ _ 0]) (simp_all add: c)
  moreover have "maximum_drawdown curve = drawdown_loop curve (ep_equity p) 0" by (simp add: maximum_drawdown_def c)
  ultimately have d: "maximum_drawdown curve = Inr (Min D)"
    using drawdown_loop_eq [OF pos assms(1), of 0] by (simp add: insert_absorb flip: es_def)
  have "- 1 \<le> x \<and> x \<le> 0" if x: "x \<in> D" for x
  proof -
    obtain i where i: "i < length curve" "x = drawdown_at (Max (ep_equity ` set (take (Suc i) curve))) (ep_equity (curve ! i))"
      using x by (auto simp: D_def)
    have "curve ! i \<in> set (take (Suc i) curve)" using i(1) by (auto simp: in_set_conv_nth intro!: exI [of _ i])
    moreover have "0 < ep_equity (curve ! i)" using i(1) assms(1) by (simp add: positive_curve_def list_all_length)
    ultimately show ?thesis unfolding i(2) by (intro drawdown_at_bounds) auto
  qed
  moreover have "Min D \<in> D" using \<open>0 \<in> D\<close> by (intro Min_in) (auto simp: D_def)
  ultimately show ?thesis using d by (auto simp: D_def)
qed

definition sample_curve :: "equity_point list" where
  "sample_curve = map (\<lambda>(d, e). \<lparr>ep_session_date = d, ep_equity = e, ep_benchmark = None\<rparr>)
     [(1, 100), (2, 125), (3, 100), (4, 130), (5, 117)]"

theorem maximum_drawdown_exact_witness: "\<exists>d. maximum_drawdown sample_curve = Inr d \<and> - 1 \<le> d \<and> d \<le> 0"
proof -
  have "positive_curve sample_curve" "sample_curve \<noteq> []" by code_simp+
  from maximum_drawdown_exact [OF this] show ?thesis by blast
qed

end
