(* ===== verification/RunInputs.thy ===== *)
theory RunInputs
  imports Attempt Analytics
begin

text \<open>
  The inputs of a daily backtest and their validation (\<open>application/daily_backtest.py\<close>): bars, signal
  bars and sessions that align, provider timelines, corporate actions selected and grouped by day, the
  benchmark path and the price rebases; and the account facts (position risk, holding period) the run
  derives from its own fills.
\<close>

section \<open>The request\<close>

text \<open>
  The fields of \<open>StrategySpec\<close> the daily executor reads; entry and exit are present, since strategies
  with plans are executed elsewhere.
\<close>

record backtest_strategy =
  bs_symbol :: string
  bs_entry :: condition
  bs_exit :: exit_policy
  bs_hybrid :: bool
  bs_position_policy :: string
  bs_backtest :: backtest_config

text \<open>
  Calendar and fee calculator are arguments of the run.  Of the financial facts only the instrument
  is read here.
\<close>

record backtest_input =
  bi_run_key :: string
  bi_strategy :: backtest_strategy
  bi_bars :: "daily_bar list"
  bi_sessions :: "instrument_session list"
  bi_signal_bars :: "daily_bar list option"
  bi_events :: "event_envelope list"
  bi_financial_instruments :: "string list"
  bi_entry_timeline :: "signal_fact option list option"
  bi_exit_timeline :: "signal_fact option list option"
  bi_actions :: "corporate_action list"
  bi_config :: daily_config
  bi_benchmark_equity :: "(date \<times> rat) list"
  bi_benchmark_initial :: "rat option"
  bi_benchmark_filled :: "bool option"
  bi_benchmark_close :: "(date \<times> rat) list"
  bi_rebases :: "price_rebase list option"

abbreviation bi_end :: "backtest_input \<Rightarrow> date" where
  "bi_end i \<equiv> bt_end (bs_backtest (bi_strategy i))"

abbreviation bi_start :: "backtest_input \<Rightarrow> date" where
  "bi_start i \<equiv> bt_start (bs_backtest (bi_strategy i))"

section \<open>Bars and sessions\<close>

definition up_to_end :: "date \<Rightarrow> daily_bar list \<Rightarrow> daily_bar list" where
  "up_to_end end_day bars = filter (\<lambda>b. b_session_date b \<le> end_day) bars"

definition session_map :: "instrument_session list \<Rightarrow> date \<Rightarrow> instrument_session option" where
  "session_map sessions = map_of (map (\<lambda>s. (s_session_date s, s)) sessions)"

definition source_signal_bars :: "backtest_input \<Rightarrow> daily_bar list" where
  "source_signal_bars i = (case bi_signal_bars i of None \<Rightarrow> bi_bars i | Some bs \<Rightarrow> if bs = [] then bi_bars i else bs)"

definition bar_checks :: "backtest_input \<Rightarrow> string \<Rightarrow> (bool \<times> py_error) list" where
  "bar_checks i instrument =
    (let all_bars = up_to_end (bi_end i) (bi_bars i);
         signal_bars = up_to_end (bi_end i) (source_signal_bars i) in
    [(list_ex (\<lambda>b. b_instrument_id b \<noteq> instrument) all_bars, DailyBacktestInputError ''all bars must match the strategy instrument''),
     (list_ex (\<lambda>b. b_price_basis b \<noteq> UNADJUSTED) all_bars, DailyBacktestInputError ''execution bars must be unadjusted''),
     (\<not> strictly_increasing (map b_session_date all_bars), DailyBacktestInputError ''bars must be strictly date ordered''),
     (\<not> list_ex (\<lambda>b. bi_start i \<le> b_session_date b \<and> b_session_date b \<le> bi_end i) all_bars,
      DailyBacktestInputError ''no bars fall inside the strategy backtest period''),
     (position_risk_exits (bs_exit (bi_strategy i)) \<noteq> [] \<and> bi_signal_bars i = None \<and> bi_rebases i = None,
      DailyBacktestInputError ''position risk exits require explicit back-adjusted signal bars''),
     (list_ex (\<lambda>b. b_instrument_id b \<noteq> instrument) signal_bars, DailyBacktestInputError ''all signal bars must match the strategy instrument''),
     (\<not> strictly_increasing (map b_session_date signal_bars), DailyBacktestInputError ''signal bars must be strictly date ordered''),
     (bi_signal_bars i \<noteq> None \<and>
        list_ex (\<lambda>b. b_price_basis b \<noteq> (if bi_rebases i \<noteq> None then UNADJUSTED else BACK_ADJUSTED)) signal_bars,
      DailyBacktestInputError ''explicit signal bars must be back-adjusted''),
     (map (\<lambda>b. (b_instrument_id b, b_session_date b)) all_bars \<noteq> map (\<lambda>b. (b_instrument_id b, b_session_date b)) signal_bars,
      DailyBacktestInputError ''signal and execution bars must align one-to-one by date''),
     (list_ex (\<lambda>(x, y). b_available_at y \<noteq> b_available_at x) (zip all_bars signal_bars),
      DailyBacktestInputError ''signal and execution bars must have identical availability times''),
     (\<not> distinct (map s_session_date (bi_sessions i)), DailyBacktestInputError ''sessions must have unique dates''),
     (list_ex (\<lambda>s. s_instrument_id s \<noteq> instrument) (bi_sessions i), DailyBacktestInputError ''all sessions must match the strategy instrument''),
     (list_ex (\<lambda>e. me_instrument_id (ee_event e) \<noteq> instrument) (bi_events i), DailyBacktestInputError ''all events must match the strategy instrument''),
     (list_ex (\<lambda>f. f \<noteq> instrument) (bi_financial_instruments i),
      DailyBacktestInputError ''all financial facts must match the strategy instrument''),
     (\<not> distinct (map (\<lambda>e. (me_event_id (ee_event e), ee_revision_no e)) (bi_events i)),
      DailyBacktestInputError ''events must have unique event_id and revision_no pairs''),
     (list_ex (\<lambda>b. session_map (bi_sessions i) (b_session_date b) = None) all_bars,
      DailyBacktestInputError ''missing sessions for bars'')])"

text \<open>Bars, signal bars and the index of the first bar of the period.\<close>

fun first_index :: "('a \<Rightarrow> bool) \<Rightarrow> 'a list \<Rightarrow> nat option" where
  "first_index P [] = None"
| "first_index P (x # xs) = (if P x then Some 0 else map_option Suc (first_index P xs))"

definition validate_and_select_inputs :: "backtest_input \<Rightarrow> (daily_bar list \<times> daily_bar list \<times> nat) result" where
  "validate_and_select_inputs i =
     rbind (checks
       [(bi_benchmark_filled i \<noteq> None \<and> bi_benchmark_equity i = [],
         DailyBacktestInputError ''benchmark_entry_filled requires a funded benchmark equity path''),
        (bi_bars i = [], DailyBacktestInputError ''daily backtest requires bars'')]) (\<lambda>_.
     rbind (mk_id (bs_symbol (bi_strategy i))) (\<lambda>instrument.
     rbind (checks (bar_checks i instrument)) (\<lambda>_.
       let all_bars = up_to_end (bi_end i) (bi_bars i) in
       case first_index (\<lambda>b. bi_start i \<le> b_session_date b \<and> b_session_date b \<le> bi_end i) all_bars of
         None \<Rightarrow> Inl IndexError
       | Some first \<Rightarrow> Inr (all_bars, up_to_end (bi_end i) (source_signal_bars i), first))))"

section \<open>Timelines\<close>

definition is_auditable_signal_evidence :: "signal_evidence \<Rightarrow> bool" where
  "is_auditable_signal_evidence e \<longleftrightarrow>
     se_provider e \<noteq> None \<and> se_raw_response_sha256 e \<noteq> None \<and>
     (if se_type e = ''provider_indicator'' then True
      else if se_type e = ''skill_numeric_history'' then se_validation_status e = Some ''provider_history_bound''
      else se_type e = ''skill_ohlcv_derived_indicator'' \<and>
        se_validation_status e \<in> set [Some ''local_formula_on_provider_ohlcv'', Some ''local_formula_on_point_in_time_rebases''])"

definition provider_fact_checks :: "signal_fact \<Rightarrow> daily_bar \<Rightarrow> (bool \<times> py_error) list" where
  "provider_fact_checks f b =
    [(sf_instrument_id f \<noteq> b_instrument_id b \<or> sf_session_date f \<noteq> b_session_date b,
      DailyBacktestInputError ''provider signal identity does not match its signal bar''),
     (sf_observed_at f > b_available_at b, DailyBacktestInputError ''provider signal uses an observation from the future''),
     (sf_evidence f = [] \<or> list_ex (\<lambda>e. \<not> is_auditable_signal_evidence e) (sf_evidence f),
      DailyBacktestInputError ''provider signal is missing auditable source provenance'')]"

definition validate_provider_timeline ::
  "signal_fact option list \<Rightarrow> daily_bar list \<Rightarrow> signal_fact option list result" where
  "validate_provider_timeline timeline bars =
     (if length timeline \<noteq> length bars
      then Inl (DailyBacktestInputError ''provider timeline must align one-to-one with signal bars'')
      else rbind (fold_res (\<lambda>(f, b) _. case f of None \<Rightarrow> Inr () | Some f \<Rightarrow> checks (provider_fact_checks f b))
             (zip timeline bars) ()) (\<lambda>_. Inr timeline))"

text \<open>
  Without provider timelines the indicator runtime computes them from the bars; what it returns for a
  condition is the argument \<open>runtime\<close>.
\<close>

definition select_signal_timelines ::
  "(exit_rule \<Rightarrow> signal_fact option list result) \<Rightarrow> backtest_input \<Rightarrow> daily_bar list \<Rightarrow> exit_rule option \<Rightarrow>
   (signal_fact option list \<times> signal_fact option list) result" where
  "select_signal_timelines runtime i signal_bars market =
     (if bi_entry_timeline i = None \<and> bi_exit_timeline i = None then
        rbind (runtime (MarketExit (bs_entry (bi_strategy i)))) (\<lambda>entry.
        rbind (case market of Some c \<Rightarrow> runtime c | None \<Rightarrow> Inr (replicate (length signal_bars) None)) (\<lambda>exits.
          Inr (entry, exits)))
      else
        case bi_entry_timeline i of
          None \<Rightarrow> Inl (DailyBacktestInputError ''provider indicator mode requires an entry signal timeline'')
        | Some entry \<Rightarrow>
            if market \<noteq> None \<and> bi_exit_timeline i = None
            then Inl (DailyBacktestInputError ''provider indicator mode requires an exit signal timeline'')
            else
              rbind (validate_provider_timeline entry signal_bars) (\<lambda>entry'.
              rbind (validate_provider_timeline
                  (case bi_exit_timeline i of
                     Some xs \<Rightarrow> if xs = [] then replicate (length signal_bars) None else xs
                   | None \<Rightarrow> replicate (length signal_bars) None) signal_bars) (\<lambda>exits.
                Inr (entry', exits))))"

section \<open>Benchmark\<close>

definition benchmark_checks :: "(date \<times> rat) list \<Rightarrow> rat option \<Rightarrow> bool \<Rightarrow> (bool \<times> py_error) list" where
  "benchmark_checks values initial funded =
    [(funded \<and> initial = None, DailyBacktestInputError ''funded benchmark requires explicit pre-entry benchmark_initial_equity''),
     (opt_any (\<lambda>v. v \<le> 0) initial, DailyBacktestInputError ''benchmark_initial_equity must be finite and positive''),
     (\<not> distinct (map fst values) \<or> \<not> strictly_increasing (map fst values),
      DailyBacktestInputError ''benchmark equity dates must be unique and ordered''),
     (list_ex (\<lambda>v. snd v < 0) values, DailyBacktestInputError ''benchmark equity values must be finite and non-negative'')]"

definition validate_benchmark_equity :: "(date \<times> rat) list \<Rightarrow> rat option \<Rightarrow> bool \<Rightarrow> (date \<Rightarrow> rat option) result" where
  "validate_benchmark_equity values initial funded =
     rbind (checks (benchmark_checks values initial funded)) (\<lambda>_. Inr (map_of values))"

section \<open>Corporate actions of a run\<close>

definition bar_index :: "daily_bar list \<Rightarrow> date \<Rightarrow> nat option" where
  "bar_index bars d = first_index (\<lambda>b. b_session_date b = d) bars"

definition action_record_checks :: "daily_bar list \<Rightarrow> date \<Rightarrow> corporate_action \<Rightarrow> (bool \<times> py_error) list" where
  "action_record_checks bars final_date a =
    [(action_available_at a = None, DailyBacktestInputError ''corporate action revision is not validated for point-in-time replay''),
     (bar_index bars (a_record_date a) = None, DailyBacktestInputError ''corporate-action record date has no pinned session''),
     (opt_any (\<lambda>t. t > session_close (a_record_date a)) (action_available_at a),
      DailyBacktestInputError ''corporate-action terms were not validated by record-date close''),
     (a_ex_date a \<le> final_date \<and> bar_index bars (a_ex_date a) = None,
      DailyBacktestInputError ''corporate-action ex date has no pinned session''),
     (a_ex_date a \<le> final_date \<and> bar_index bars (a_ex_date a) \<noteq> map_option Suc (bar_index bars (a_record_date a)),
      DailyBacktestInputError ''corporate-action record date must be the session immediately before ex date'')]"

text \<open>The loop over the actions with the keys seen so far and the selected actions.\<close>

fun select_actions ::
  "daily_bar list \<Rightarrow> date \<Rightarrow> date \<Rightarrow> string \<Rightarrow> (string \<times> int) set \<Rightarrow> (string \<times> action_kind) set \<Rightarrow> corporate_action list \<Rightarrow>
   corporate_action list result" where
  "select_actions bars first_date final_date instrument keys legs [] = Inr []"
| "select_actions bars first_date final_date instrument keys legs (a # as) =
     rbind (checks
       [(a_instrument_id a \<noteq> instrument, DailyBacktestInputError ''all corporate actions must match the strategy instrument''),
        ((a_action_id a, a_revision_no a) \<in> keys \<or> (a_source_action_id a, a_type a) \<in> legs,
         DailyBacktestInputError ''corporate actions must contain one selected revision per source action leg'')]) (\<lambda>_.
     let rest = select_actions bars first_date final_date instrument
           (insert (a_action_id a, a_revision_no a) keys) (insert (a_source_action_id a, a_type a) legs) as in
     if a_record_date a < first_date \<or> final_date < a_record_date a then rest
     else rbind (checks (action_record_checks bars final_date a)) (\<lambda>_. rbind rest (\<lambda>selected. Inr (a # selected))))"

definition action_order :: "corporate_action \<Rightarrow> date \<times> date \<times> string \<times> int" where
  "action_order a = (a_record_date a, a_ex_date a, a_action_id a, a_revision_no a)"

definition validate_corporate_actions :: "corporate_action list \<Rightarrow> daily_bar list \<Rightarrow> nat \<Rightarrow> corporate_action list result" where
  "validate_corporate_actions actions bars first =
     rbind (select_actions bars (b_session_date (bars ! first)) (b_session_date (last bars)) (b_instrument_id (hd bars)) {} {} actions)
       (\<lambda>selected. Inr (sort_key action_order selected))"

text \<open>\<open>grouped.get(day, ())\<close> of \<open>_actions_by_date\<close> and \<open>_actions_by_settlement_session\<close>.\<close>

definition actions_by_record_date :: "corporate_action list \<Rightarrow> date \<Rightarrow> corporate_action list" where
  "actions_by_record_date actions day = filter (\<lambda>a. a_record_date a = day) actions"

definition actions_by_ex_date :: "corporate_action list \<Rightarrow> date \<Rightarrow> corporate_action list" where
  "actions_by_ex_date actions day = filter (\<lambda>a. a_ex_date a = day) actions"

definition action_settlement_date :: "corporate_action \<Rightarrow> date result" where
  "action_settlement_date a =
     (if a_type a = CASH_DIVIDEND then (case a_cash_pay_date a of Some d \<Rightarrow> Inr d | None \<Rightarrow> Inl AssertionError)
      else if a_type a \<in> set [SHARE_DISTRIBUTION, STOCK_SPLIT, REVERSE_SPLIT]
      then (case a_share_credit_date a of Some d \<Rightarrow> Inr d | None \<Rightarrow> Inl AssertionError)
      else Inl (DailyBacktestInputError ''rights issues do not create a settlement under decline policy''))"

text \<open>The session in which an action settles: the first one on or after its settlement date, if any.\<close>

definition settlement_sessions :: "corporate_action list \<Rightarrow> daily_bar list \<Rightarrow> (date option \<times> corporate_action) list result" where
  "settlement_sessions actions bars =
     map_res (\<lambda>a. rbind (action_settlement_date a) (\<lambda>d. Inr (List.find (\<lambda>x. x \<ge> d) (map b_session_date bars), a)))
       (filter (\<lambda>a. a_type a \<noteq> RIGHTS_ISSUE) actions)"

definition actions_by_settlement :: "(date option \<times> corporate_action) list \<Rightarrow> date \<Rightarrow> corporate_action list" where
  "actions_by_settlement grouped day = map snd (filter (\<lambda>(d, a). d = Some day) grouped)"

end
