(* ===== verification/DayLoop.thy ===== *)
theory DayLoop
  imports RunInputs "HOL-Library.AList"
begin

text \<open>
  The day loop of \<open>run_daily_backtest\<close> (\<open>application/daily_backtest.py\<close>): its state, one definition per
  step of a trading day in the order of the source, the loop over the bars and the end of the run.
  A step that may raise returns a \<open>result\<close>; the attempt to execute contains the sizing loop, so it and
  the day return an option of a result.
\<close>

section \<open>Account facts\<close>

text \<open>
  \<open>str(Decimal(str(x)))\<close> of a threshold: the digits before the point, and the fewest digits after it (at
  least one, at most 17) that give the value.
\<close>

definition fraction_digits :: "rat \<Rightarrow> nat" where
  "fraction_digits x = (case filter (\<lambda>k. x * 10 ^ k = of_int \<lfloor>x * 10 ^ k\<rfloor>) [1..<17] of [] \<Rightarrow> 17 | k # _ \<Rightarrow> k)"

definition threshold_text :: "rat \<Rightarrow> string" where
  "threshold_text x =
     (let k = fraction_digits x
      in show_int \<lfloor>x\<rfloor> @ ''.'' @ pad k \<lfloor>(x - of_int \<lfloor>x\<rfloor>) * 10 ^ k\<rfloor>)"

definition anchor_evidence :: "fill_record \<Rightarrow> signal_evidence" where
  "anchor_evidence f =
     \<lparr>se_type = ''entry_fill_anchor'', se_id = f_fill_id f, se_available_at = f_filled_at f, se_source_event_id = None,
      se_provider = Some ''backtest_ledger'', se_source_url = None, se_time_quality = None, se_timestamp_precision = None,
      se_validation_status = Some ''validated'', se_raw_response_sha256 = None\<rparr>"

text \<open>A rule that holds: its reference, the first words of its reason and the two compared values.\<close>

fun risk_trigger :: "rat \<Rightarrow> rat \<Rightarrow> exit_rule \<Rightarrow> (string \<times> string \<times> rat \<times> rat) option" where
  "risk_trigger return_pct drawdown_pct (PositionReturnExit TAKE_PROFIT threshold) =
     (if return_pct \<ge> threshold
      then Some (''position_return_exit:take_profit:'' @ threshold_text threshold @ ''pct'',
                 ''take_profit confirmed at daily close'', return_pct, threshold) else None)"
| "risk_trigger return_pct drawdown_pct (PositionReturnExit STOP_LOSS threshold) =
     (if return_pct \<le> dec_neg threshold
      then Some (''position_return_exit:stop_loss:'' @ threshold_text threshold @ ''pct'',
                 ''stop_loss confirmed at daily close'', return_pct, dec_neg threshold) else None)"
| "risk_trigger return_pct drawdown_pct (TrailingDrawdownExit threshold) =
     (if drawdown_pct > dec_neg threshold then None
      else Some (''trailing_drawdown_exit:'' @ threshold_text threshold @ ''pct'',
                 ''trailing drawdown confirmed at daily close'', drawdown_pct, dec_neg threshold))"
| "risk_trigger return_pct drawdown_pct _ = None"

definition percent_change :: "rat \<Rightarrow> rat \<Rightarrow> rat result" where
  "percent_change x base = rbind (dec_div x base) (\<lambda>r. Inr (dec_mul (dec_sub r 1) 100))"

definition position_risk_signal ::
  "exit_rule list \<Rightarrow> fill_record \<Rightarrow> rat \<Rightarrow> rat \<Rightarrow> daily_bar \<Rightarrow> bool \<Rightarrow> (signal_fact option \<times> rat) result" where
  "position_risk_signal rules anchor anchor_price previous_peak bar raw =
     (if b_price_basis bar \<noteq> (if raw then UNADJUSTED else BACK_ADJUSTED)
      then Inl (DailyBacktestInputError ''position risk exits require back-adjusted signal bars'')
      else if b_volume bar = 0 then Inr (None, previous_peak)
      else
        let close = amount (b_close bar) in
        if anchor_price \<le> 0 \<or> close \<le> 0 then Inl (DailyBacktestInputError ''position risk exit prices must be positive'')
        else
          let peak = max previous_peak close in
          rbind (percent_change close anchor_price) (\<lambda>return_pct.
          rbind (percent_change close peak) (\<lambda>drawdown_pct.
            let observed = session_close (b_session_date bar) in
            case List.map_filter (risk_trigger return_pct drawdown_pct) rules of
              [] \<Rightarrow> Inr (None, peak)
            | (ref, reason, left, right) # _ \<Rightarrow>
                rbind (mk_signal_evidence (anchor_evidence anchor)) (\<lambda>e.
                rbind (mk_signal_fact (SignalFact (f_instrument_id anchor) (b_session_date bar) ref True observed
                   (max (b_available_at bar) observed) reason (Some left) (Some right) [] [e])) (\<lambda>f.
                  Inr (Some f, peak))))))"

definition holding_period_signal :: "int \<Rightarrow> fill_record \<Rightarrow> date \<Rightarrow> datetime \<Rightarrow> signal_fact result" where
  "holding_period_signal sessions anchor target available_at =
     rbind (mk_signal_evidence (anchor_evidence anchor)) (\<lambda>e.
     mk_signal_fact (SignalFact (f_instrument_id anchor) target
       (''holding_period_exit:'' @ show_int sessions @ '':first_entry_fill:subsequent_trading_sessions'') True
       available_at available_at ''first BUY fill; target is subsequent pinned A-share session''
       (Some (of_int sessions)) (Some (of_int sessions)) [] [e]))"

text \<open>The session the holding period ends in, counted in sessions of the calendar; none beyond the period.\<close>

fun maturity_day :: "(date \<Rightarrow> date result) \<Rightarrow> date \<Rightarrow> nat \<Rightarrow> date \<Rightarrow> date option result" where
  "maturity_day next_day end_day 0 day = Inr (Some day)"
| "maturity_day next_day end_day (Suc n) day =
     (if day \<ge> end_day then Inr None else rbind (next_day day) (maturity_day next_day end_day n))"

definition holding_target ::
  "(date \<Rightarrow> date result) \<Rightarrow> date \<Rightarrow> daily_bar list \<Rightarrow> int \<Rightarrow> date \<Rightarrow> nat option result" where
  "holding_target next_day end_day bars sessions day =
     rbind (maturity_day next_day end_day (nat sessions) day) (\<lambda>target.
     case target of
       None \<Rightarrow> Inr None
     | Some d \<Rightarrow>
         if d > end_day then Inr None
         else (case bar_index bars d of
                 None \<Rightarrow> Inl (DailyBacktestInputError ''holding target market session has no security data'')
               | Some i \<Rightarrow> Inr (Some i)))"

section \<open>What is fixed during a run\<close>

record run_env =
  re_config :: daily_config
  re_instrument :: string
  re_entry :: condition
  re_accumulate :: bool
  re_end :: date
  re_holding :: "int option"
  re_risk_rules :: "exit_rule list"
  re_market_rule :: "exit_rule option"
  re_combined :: bool
  re_bars :: "daily_bar list"
  re_signal_bars :: "daily_bar list"
  re_sessions :: "date \<Rightarrow> instrument_session option"
  re_first :: nat
  re_entry_timeline :: "signal_fact option list"
  re_order_timeline :: "signal_fact option list"
  re_exit_timeline :: "signal_fact option list"
  re_market_timeline :: "signal_fact option list"
  re_record_actions :: "date \<Rightarrow> corporate_action list"
  re_ex_actions :: "date \<Rightarrow> corporate_action list"
  re_settlement_actions :: "date \<Rightarrow> corporate_action list"
  re_benchmark :: "date \<Rightarrow> rat option"
  re_rebases :: "date \<Rightarrow> price_rebase option"
  re_raw_rebased :: bool
  re_next_day :: "date \<Rightarrow> date result"
  re_quote :: "order_side \<Rightarrow> price \<Rightarrow> int \<Rightarrow> date \<Rightarrow> fee_breakdown result"
  re_sha :: "string \<Rightarrow> string"

section \<open>The state of a run\<close>

record run_state =
  rs_portfolio :: portfolio_state
  rs_decisions :: "strategy_decision list"
  rs_traces :: "order_trace list"
  rs_signals :: "signal_fact list"
  rs_curve :: "equity_point list"
  rs_trips :: "round_trip list"
  rs_pending :: "nat option"
  rs_entries :: "nat set"
  rs_exits :: "nat set"
  rs_ids :: id_sequence
  rs_cost :: money
  rs_proceeds :: money
  rs_income :: money
  rs_trade_date :: "date option"
  rs_holding_fill :: "fill_record option"
  rs_holding_target :: "nat option"
  rs_holding_emitted :: bool
  rs_risk_fill :: "fill_record option"
  rs_risk_price :: "rat option"
  rs_risk_peak :: "rat option"
  rs_queued :: "signal_fact option"

abbreviation bar_at :: "run_env \<Rightarrow> nat \<Rightarrow> daily_bar" where
  "bar_at env k \<equiv> re_bars env ! k"

abbreviation day_at :: "run_env \<Rightarrow> nat \<Rightarrow> date" where
  "day_at env k \<equiv> b_session_date (bar_at env k)"

definition auction_accept :: "date \<Rightarrow> datetime" where
  "auction_accept d = combine d opening_auction_accept_at"

definition decision_cutoff :: "date \<Rightarrow> datetime" where
  "decision_cutoff d = auction_accept d - decision_processing_latency"

definition preopen :: "date \<Rightarrow> datetime" where
  "preopen d = combine d daily_opening_price_proxy_at - 1"

definition economic_position :: "run_env \<Rightarrow> run_state \<Rightarrow> int result" where
  "economic_position env s = economic_position_quantity (rs_portfolio s) (re_instrument env)"

definition pending_side :: "run_state \<Rightarrow> order_side option" where
  "pending_side s = map_option (\<lambda>i. sd_side (rs_decisions s ! i)) (rs_pending s)"

section \<open>Before the open\<close>

definition rebase_step :: "run_env \<Rightarrow> nat \<Rightarrow> run_state \<Rightarrow> run_state result" where
  "rebase_step env k s =
     (case re_rebases env (day_at env k) of
        None \<Rightarrow> Inr s
      | Some r \<Rightarrow>
          if rb_available_at r > preopen (day_at env k)
          then Inl (DailyBacktestInputError ''risk price rebase was not known before open'')
          else Inr (s\<lparr>rs_risk_price := map_option (\<lambda>p. dec_mul p (rb_factor r)) (rs_risk_price s),
                      rs_risk_peak := map_option (\<lambda>p. dec_mul p (rb_factor r)) (rs_risk_peak s)\<rparr>))"

definition holding_step :: "run_env \<Rightarrow> nat \<Rightarrow> run_state \<Rightarrow> (signal_fact option \<times> run_state) result" where
  "holding_step env k s =
     (case (re_holding env, rs_holding_fill s) of
        (Some sessions, Some anchor) \<Rightarrow>
          if \<not> re_combined env \<and> rs_holding_target s = Some k \<and> \<not> rs_holding_emitted s
          then rbind (holding_period_signal sessions anchor (day_at env k) (decision_cutoff (day_at env k))) (\<lambda>f.
                 Inr (Some f, s\<lparr>rs_holding_emitted := True, rs_signals := rs_signals s @ [f]\<rparr>))
          else Inr (None, s)
      | _ \<Rightarrow> Inr (None, s))"

text \<open>\<open>except UnsupportedCorporateActionError as exc: raise DailyBacktestInputError(str(exc))\<close>.\<close>

definition unsupported_action :: "'a result \<Rightarrow> 'a result" where
  "unsupported_action r =
     (case r of Inl (UnsupportedCorporateActionError m) \<Rightarrow> Inl (DailyBacktestInputError m) | _ \<Rightarrow> r)"

definition accrue_step :: "run_env \<Rightarrow> date \<Rightarrow> corporate_action \<Rightarrow> run_state \<Rightarrow> run_state result" where
  "accrue_step env day a s =
     (if a_type a = RIGHTS_ISSUE then Inr s
      else
        rbind (dividend_receivable (rs_portfolio s) (Some (re_instrument env))) (\<lambda>receivable.
        rbind (accrue_action (rs_portfolio s) a (preopen day)) (\<lambda>p.
        rbind (dividend_receivable p (Some (re_instrument env))) (\<lambda>receivable'.
        rbind (money_sub receivable' receivable) (\<lambda>delta.
        rbind (if rs_trade_date s \<noteq> None then money_add (rs_income s) delta else Inr (rs_income s)) (\<lambda>income.
          Inr (s\<lparr>rs_portfolio := p, rs_income := income\<rparr>)))))))"

definition settle_step :: "run_env \<Rightarrow> datetime \<Rightarrow> bool \<Rightarrow> corporate_action \<Rightarrow> run_state \<Rightarrow> run_state result" where
  "settle_step env t cash a s =
     (if (a_type a = CASH_DIVIDEND) \<noteq> cash then Inr s
      else rbind (settle_action (re_sha env) (rs_portfolio s) a t) (\<lambda>p. Inr (s\<lparr>rs_portfolio := p\<rparr>)))"

definition preopen_actions :: "run_env \<Rightarrow> nat \<Rightarrow> run_state \<Rightarrow> run_state result" where
  "preopen_actions env k s =
     (let d = day_at env k in
      unsupported_action
        (rbind (fold_res (accrue_step env d) (re_ex_actions env d) s)
           (fold_res (settle_step env (preopen d) False) (re_settlement_actions env d))))"

section \<open>The decision of the day\<close>

definition consume_exit :: "run_env \<Rightarrow> nat \<Rightarrow> datetime \<Rightarrow> run_state \<Rightarrow> signal_fact option \<times> run_state" where
  "consume_exit env k cutoff s =
     (case consume_latest_available (re_exit_timeline env) (rs_exits s) (re_first env) k cutoff True of
        (f, handled) \<Rightarrow> (f, s\<lparr>rs_exits := handled\<rparr>))"

definition consume_entry :: "run_env \<Rightarrow> nat \<Rightarrow> datetime \<Rightarrow> run_state \<Rightarrow> signal_fact option \<times> run_state" where
  "consume_entry env k cutoff s =
     (case consume_latest_available (re_order_timeline env) (rs_entries s) (re_first env) k cutoff True of
        (f, handled) \<Rightarrow> (f, s\<lparr>rs_entries := handled\<rparr>))"

definition decide :: "run_env \<Rightarrow> order_side \<Rightarrow> signal_fact \<Rightarrow> run_state \<Rightarrow> run_state result" where
  "decide env side f s =
     rbind (new_decision (rs_decisions s) (rs_ids s) side f (re_config env) (re_entry env)) (\<lambda>(ds, ids).
       Inr (s\<lparr>rs_decisions := ds, rs_ids := ids, rs_pending := Some (length ds - 1)\<rparr>))"

text \<open>\<open>chosen is queued\<close>: of the facts \<open>fs @ [queued]\<close>, \<open>min\<close> chose the last one.\<close>

definition chose_queued :: "signal_fact option list \<Rightarrow> signal_fact option \<Rightarrow> bool" where
  "chose_queued fs queued =
     opt_any (\<lambda>q. case first_available_exit fs of None \<Rightarrow> True | Some f \<Rightarrow> exit_key q < exit_key f) queued"

text \<open>
  Without a pending decision: the newest entry and exit facts are consumed, and the exit of a position,
  or else the entry, becomes the decision of the day.  The result carries the exit fact that may
  cancel a new buy.
\<close>

definition open_decision ::
  "run_env \<Rightarrow> nat \<Rightarrow> signal_fact option \<Rightarrow> run_state \<Rightarrow> (signal_fact option \<times> run_state) result" where
  "open_decision env k holding s =
     (if rs_pending s \<noteq> None then Inr (None, s)
      else
        rbind (economic_position env s) (\<lambda>position.
        let cutoff = decision_cutoff (day_at env k);
            (entry, s1) = consume_entry env k cutoff s;
            (exit_fact, s2) = consume_exit env k cutoff s1;
            chosen = (if position > 0 then first_available_exit [exit_fact, holding, rs_queued s2] else None)
        in case chosen of
             Some f \<Rightarrow>
               rbind (decide env SELL f s2) (\<lambda>s3.
                 Inr (None, if chose_queued [exit_fact, holding] (rs_queued s2) then s3\<lparr>rs_queued := None\<rparr> else s3))
           | None \<Rightarrow>
               (case (if position = 0 \<or> re_accumulate env then entry else None) of
                  Some f \<Rightarrow> rbind (decide env BUY f s2) (\<lambda>s3. Inr (exit_fact, s3))
                | None \<Rightarrow> Inr (None, s2))))"

text \<open>An exit that is not older than the entry cancels a pending buy; with a position it replaces it by a sale.\<close>

definition cancel_entry ::
  "run_env \<Rightarrow> nat \<Rightarrow> signal_fact option \<Rightarrow> signal_fact option \<Rightarrow> run_state \<Rightarrow> run_state result" where
  "cancel_entry env k holding known s =
     (case rs_pending s of
        None \<Rightarrow> Inr s
      | Some i \<Rightarrow>
          let d = rs_decisions s ! i in
          if sd_side d \<noteq> BUY then Inr s
          else
            let (exit_fact, s1) =
                  (if known = None then consume_exit env k (decision_cutoff (day_at env k)) s else (known, s));
                current = (case exit_fact of
                             Some f \<Rightarrow> if signal_is_not_older f (sd_signal d) then Some f else None
                           | None \<Rightarrow> None)
            in rbind (economic_position env s1) (\<lambda>position.
               let replacement = (if position > 0 then first_available_exit [current, holding, rs_queued s1] else None)
               in case (if replacement \<noteq> None then replacement else current) of
                    None \<Rightarrow> Inr s1
                  | Some cancelling \<Rightarrow>
                      let s2 = s1\<lparr>rs_decisions := (rs_decisions s1)[i := d\<lparr>sd_status := CANCELLED_DECISION,
                                   sd_outcome_reason := Some (''opposite_exit_signal_invalidated_entry:'' @ sf_condition_ref cancelling)\<rparr>],
                                 rs_pending := None\<rparr>
                      in (case replacement of
                            None \<Rightarrow> Inr s2
                          | Some f \<Rightarrow>
                              rbind (decide env SELL f s2) (\<lambda>s3.
                                Inr (if chose_queued [current, holding] (rs_queued s1) then s3\<lparr>rs_queued := None\<rparr> else s3)))))"

text \<open>The pending decision may be executed today when it was available, with the latency, by the auction.\<close>

definition due :: "run_env \<Rightarrow> nat \<Rightarrow> strategy_decision \<Rightarrow> bool" where
  "due env k d \<longleftrightarrow> sf_available_at (sd_signal d) + decision_processing_latency \<le> auction_accept (day_at env k)"

definition drop_untradeable :: "run_env \<Rightarrow> nat \<Rightarrow> instrument_session \<Rightarrow> run_state \<Rightarrow> run_state" where
  "drop_untradeable env k session s =
     (case rs_pending s of
        None \<Rightarrow> s
      | Some i \<Rightarrow>
          let d = rs_decisions s ! i in
          if due env k d \<and> s_status session \<noteq> TRADING \<and> \<not> is_persistent_account_exit d
          then s\<lparr>rs_decisions := (rs_decisions s)[i := d\<lparr>sd_status := UNFILLED, sd_outcome_reason := Some ''security_not_trading''\<rparr>],
                 rs_pending := None\<rparr>
          else s)"

section \<open>The attempt and its fill\<close>

text \<open>A buy opens the trade, anchors the account exits and adds to the cost of the trade.\<close>

definition anchor_holding :: "run_env \<Rightarrow> fill_record \<Rightarrow> run_state \<Rightarrow> run_state result" where
  "anchor_holding env f s =
     (case re_holding env of
        None \<Rightarrow> Inr s
      | Some sessions \<Rightarrow>
          if rs_holding_fill s \<noteq> None then Inr s
          else
            rbind (holding_target (re_next_day env) (re_end env) (re_bars env) sessions (trading_date f)) (\<lambda>target.
              Inr (s\<lparr>rs_holding_fill := Some f, rs_holding_target := target, rs_holding_emitted := False\<rparr>)))"

definition anchor_risk :: "run_env \<Rightarrow> nat \<Rightarrow> fill_record \<Rightarrow> run_state \<Rightarrow> run_state result" where
  "anchor_risk env k f s =
     (if re_risk_rules env = [] \<or> rs_risk_fill s \<noteq> None then Inr s
      else
        let execution_open = amount (b_open (bar_at env k));
            signal_bar = re_signal_bars env ! k;
            signal_open = amount (b_open signal_bar)
        in if execution_open \<le> 0 \<or> signal_open \<le> 0
           then Inl (DailyBacktestInputError ''risk exit requires positive aligned execution and signal opens'')
           else rbind (dec_div (dec_mul (amount (f_price f)) signal_open) execution_open) (\<lambda>price.
                  Inr (s\<lparr>rs_risk_fill := Some f, rs_risk_price := Some price,
                         rs_risk_peak := Some (max price (amount (b_close signal_bar)))\<rparr>)))"

definition book_buy :: "run_env \<Rightarrow> nat \<Rightarrow> fill_record \<Rightarrow> run_state \<Rightarrow> run_state result" where
  "book_buy env k f s =
     (let s1 = s\<lparr>rs_trade_date := (case rs_trade_date s of None \<Rightarrow> Some (trading_date f) | Some d \<Rightarrow> Some d)\<rparr> in
      rbind (anchor_holding env f s1) (\<lambda>s2.
      rbind (anchor_risk env k f s2) (\<lambda>s3.
      rbind (gross_amount f) (\<lambda>gross.
      rbind (fee_total (f_fees f)) (\<lambda>fees.
      rbind (money_add gross fees) (\<lambda>paid.
      rbind (money_add (rs_cost s3) paid) (\<lambda>cost.
        Inr (s3\<lparr>rs_cost := cost\<rparr>))))))))"

text \<open>A sale adds to the proceeds; when nothing remains the trade is closed and the account facts are forgotten.\<close>

definition flat_state :: "run_state \<Rightarrow> run_state" where
  "flat_state s = s\<lparr>rs_cost := \<lparr>amount = 0, currency = ''CNY''\<rparr>, rs_proceeds := \<lparr>amount = 0, currency = ''CNY''\<rparr>,
     rs_income := \<lparr>amount = 0, currency = ''CNY''\<rparr>, rs_trade_date := None, rs_holding_fill := None, rs_holding_target := None,
     rs_holding_emitted := False, rs_risk_fill := None, rs_risk_price := None, rs_risk_peak := None, rs_queued := None\<rparr>"

definition book_sell :: "run_env \<Rightarrow> fill_record \<Rightarrow> run_state \<Rightarrow> run_state result" where
  "book_sell env f s =
     rbind (gross_amount f) (\<lambda>gross.
     rbind (fee_total (f_fees f)) (\<lambda>fees.
     rbind (money_sub gross fees) (\<lambda>received.
     rbind (money_add (rs_proceeds s) received) (\<lambda>proceeds.
     let s1 = s\<lparr>rs_proceeds := proceeds\<rparr> in
     rbind (economic_position env s1) (\<lambda>position.
       if position \<noteq> 0 then Inr s1
       else case rs_trade_date s1 of
              None \<Rightarrow> Inr (flat_state s1)
            | Some entry_date \<Rightarrow>
                rbind (money_add (rs_proceeds s1) (rs_income s1)) (\<lambda>total.
                rbind (money_sub total (rs_cost s1)) (\<lambda>pnl.
                rbind (mk_round_trip \<lparr>rt_entry_date = entry_date, rt_exit_date = trading_date f, rt_net_pnl = amount pnl\<rparr>) (\<lambda>trip.
                  Inr (flat_state (s1\<lparr>rs_trips := rs_trips s1 @ [trip]\<rparr>))))))))))"

definition book_attempt :: "run_env \<Rightarrow> nat \<Rightarrow> nat \<Rightarrow> attempt \<Rightarrow> run_state \<Rightarrow> run_state result" where
  "book_attempt env k i a s =
     (let s1 = s\<lparr>rs_portfolio := at_portfolio a, rs_decisions := (rs_decisions s)[i := at_decision a], rs_ids := at_ids a,
                rs_traces := rs_traces s @ (case at_trace a of None \<Rightarrow> [] | Some tr \<Rightarrow> [tr])\<rparr>
      in rbind (case at_fill a of
                  None \<Rightarrow> Inr s1
                | Some f \<Rightarrow> if f_side f = BUY then book_buy env k f s1 else book_sell env f s1) (\<lambda>s2.
           Inr (if at_retry a then s2 else s2\<lparr>rs_pending := None\<rparr>)))"

definition attempt_volume :: "run_env \<Rightarrow> nat \<Rightarrow> volume_observation option result" where
  "attempt_volume env k =
     (if dc_capacity_mode (re_config env) = POINT_IN_TIME_VOLUME \<and> 0 < k
      then rbind (previous_session_volume_proxy (bar_at env (k - 1))) (\<lambda>v. Inr (Some v))
      else Inr None)"

definition attempt_step :: "run_env \<Rightarrow> nat \<Rightarrow> instrument_session \<Rightarrow> run_state \<Rightarrow> run_state result option" where
  "attempt_step env k session s =
     (case rs_pending s of
        None \<Rightarrow> Some (Inr s)
      | Some i \<Rightarrow>
          let d = rs_decisions s ! i in
          if due env k d \<and> s_status session = TRADING
          then case attempt_volume env k of
                 Inl e \<Rightarrow> Some (Inl e)
               | Inr volume \<Rightarrow>
                   map_option (\<lambda>r. rbind r (\<lambda>a. book_attempt env k i a s))
                     (attempt_decision (re_next_day env) (re_quote env) (re_config env) d (bar_at env k) session
                        (rs_portfolio s) (rs_ids s) (re_instrument env) volume)
          else Some (Inr s))"

section \<open>After the close\<close>

definition mark_equity :: "run_env \<Rightarrow> nat \<Rightarrow> run_state \<Rightarrow> run_state result" where
  "mark_equity env k s =
     (let bar = bar_at env k;
          shares = position_quantity (rs_portfolio s) (re_instrument env) + pending_share_delta (rs_portfolio s) (re_instrument env)
      in rbind (dividend_receivable (rs_portfolio s) (Some (re_instrument env))) (\<lambda>receivable.
         rbind (mk_equity_point \<lparr>ep_session_date = b_session_date bar,
             ep_equity = dec_add (dec_add (amount (ps_cash (rs_portfolio s))) (amount receivable))
               (dec_mul (of_int shares) (amount (b_close bar))),
             ep_benchmark = re_benchmark env (b_session_date bar)\<rparr>) (\<lambda>p.
           Inr (s\<lparr>rs_curve := rs_curve s @ [p]\<rparr>))))"

definition note_triggered :: "run_env \<Rightarrow> nat \<Rightarrow> run_state \<Rightarrow> run_state" where
  "note_triggered env k s =
     s\<lparr>rs_signals := rs_signals s @ filter sf_triggered
         (List.map_filter id [re_entry_timeline env ! k, re_exit_timeline env ! k])\<rparr>"

definition record_step :: "run_env \<Rightarrow> date \<Rightarrow> corporate_action \<Rightarrow> run_state \<Rightarrow> run_state result" where
  "record_step env day a s =
     rbind ((if a_type a = RIGHTS_ISSUE then decline_rights_issue else capture_entitlement) (rs_portfolio s) a (session_close day))
       (\<lambda>p. Inr (s\<lparr>rs_portfolio := p\<rparr>))"

definition close_actions :: "run_env \<Rightarrow> nat \<Rightarrow> run_state \<Rightarrow> run_state result" where
  "close_actions env k s =
     (let d = day_at env k in
      unsupported_action
        (rbind (fold_res (record_step env d) (re_record_actions env d) s)
           (fold_res (settle_step env (session_close d) True) (re_settlement_actions env d))))"

text \<open>
  A policy that requires all its exits: the market fact, the maturity and every risk rule are evaluated
  against the same close, and only their conjunction queues a sale.
\<close>

definition merge_evidence :: "signal_fact list \<Rightarrow> signal_evidence list" where
  "merge_evidence fs = map snd (fold (\<lambda>e m. AList.update (evidence_key e) e m) (concat (map sf_evidence fs)) [])"

definition market_conjunct :: "run_env \<Rightarrow> nat \<Rightarrow> datetime \<Rightarrow> bool \<times> signal_fact list" where
  "market_conjunct env k close_at =
     (let fact = re_market_timeline env ! k;
          ready = (re_market_rule env = None \<or> opt_any (\<lambda>f. sf_triggered f \<and> sf_available_at f \<le> close_at) fact)
      in (ready, if ready then (case fact of Some f \<Rightarrow> [f] | None \<Rightarrow> []) else []))"

definition holding_conjunct ::
  "run_env \<Rightarrow> nat \<Rightarrow> datetime \<Rightarrow> run_state \<Rightarrow> bool \<times> signal_fact list \<Rightarrow> (bool \<times> signal_fact list) result" where
  "holding_conjunct env k close_at s rf =
     (case re_holding env of
        None \<Rightarrow> Inr rf
      | Some sessions \<Rightarrow>
          (case (rs_holding_fill s, rs_holding_target s) of
             (Some anchor, Some target) \<Rightarrow>
               if target \<le> k
               then rbind (holding_period_signal sessions anchor (day_at env k) close_at) (\<lambda>f. Inr (fst rf, snd rf @ [f]))
               else Inr (False, snd rf)
           | _ \<Rightarrow> Inr (False, snd rf)))"

definition risk_conjunct ::
  "run_env \<Rightarrow> nat \<Rightarrow> run_state \<Rightarrow> exit_rule \<Rightarrow> bool \<times> signal_fact list \<times> rat option \<Rightarrow>
   (bool \<times> signal_fact list \<times> rat option) result" where
  "risk_conjunct env k s rule = (\<lambda>(ready, facts, peak).
     case (rs_risk_fill s, rs_risk_price s, peak) of
       (Some anchor, Some price, Some p) \<Rightarrow>
         rbind (position_risk_signal [rule] anchor price p (re_signal_bars env ! k) (re_raw_rebased env)) (\<lambda>(fact, p').
           Inr (case fact of None \<Rightarrow> (False, facts, Some p') | Some f \<Rightarrow> (ready, facts @ [f], Some p')))
     | _ \<Rightarrow> Inr (False, facts, peak))"

definition joint_fact :: "signal_fact list \<Rightarrow> datetime \<Rightarrow> signal_fact result" where
  "joint_fact facts close_at =
     (let f = hd facts in
      mk_signal_fact (SignalFact (sf_instrument_id f) (sf_session_date f) ''all:account_and_market'' (sf_triggered f)
        close_at close_at ''all exit conditions hold in the same session'' None None facts (merge_evidence facts)))"

definition may_queue_exit :: "run_state \<Rightarrow> bool" where
  "may_queue_exit s \<longleftrightarrow> rs_queued s = None \<and> none_or (\<lambda>side. side = BUY) (pending_side s)"

definition combined_exit :: "run_env \<Rightarrow> nat \<Rightarrow> run_state \<Rightarrow> run_state result" where
  "combined_exit env k s =
     (if \<not> (re_combined env \<and> may_queue_exit s) then Inr s
      else
        rbind (economic_position env s) (\<lambda>position.
        if \<not> (position > 0 \<and> b_volume (bar_at env k) > 0) then Inr s
        else
          let close_at = max (b_available_at (bar_at env k)) (session_close (day_at env k)) in
          rbind (holding_conjunct env k close_at s (market_conjunct env k close_at)) (\<lambda>(ready, facts).
          rbind (fold_res (risk_conjunct env k s) (re_risk_rules env) (ready, facts, rs_risk_peak s)) (\<lambda>(ready, facts, peak).
          let s1 = s\<lparr>rs_risk_peak := peak\<rparr> in
          if ready \<and> facts \<noteq> []
          then rbind (joint_fact facts close_at) (\<lambda>f. Inr (s1\<lparr>rs_queued := Some f, rs_signals := rs_signals s1 @ [f]\<rparr>))
          else Inr s1))))"

text \<open>Otherwise the first risk rule that holds at the close is queued for the next session.\<close>

definition risk_exit :: "run_env \<Rightarrow> nat \<Rightarrow> run_state \<Rightarrow> run_state result" where
  "risk_exit env k s =
     (if \<not> (re_risk_rules env \<noteq> [] \<and> \<not> re_combined env \<and> may_queue_exit s) then Inr s
      else
        rbind (economic_position env s) (\<lambda>position.
        if \<not> position > 0 then Inr s
        else
          case (rs_risk_fill s, rs_risk_price s, rs_risk_peak s) of
            (Some anchor, Some price, Some peak) \<Rightarrow>
              rbind (position_risk_signal (re_risk_rules env) anchor price peak (re_signal_bars env ! k) (re_raw_rebased env))
                (\<lambda>(fact, peak'). Inr (s\<lparr>rs_queued := fact, rs_risk_peak := Some peak',
                   rs_signals := rs_signals s @ (case fact of None \<Rightarrow> [] | Some f \<Rightarrow> [f])\<rparr>))
          | _ \<Rightarrow> Inr s))"

section \<open>The loop\<close>

definition open_day :: "run_env \<Rightarrow> nat \<Rightarrow> instrument_session \<Rightarrow> run_state \<Rightarrow> run_state result" where
  "open_day env k session s =
     rbind (rebase_step env k s) (\<lambda>s.
     rbind (holding_step env k s) (\<lambda>(holding, s).
     rbind (preopen_actions env k s) (\<lambda>s.
     rbind (open_decision env k holding s) (\<lambda>(known, s).
     rbind (cancel_entry env k holding known s) (\<lambda>s.
       Inr (drop_untradeable env k session s))))))"

definition close_day :: "run_env \<Rightarrow> nat \<Rightarrow> run_state \<Rightarrow> run_state result" where
  "close_day env k s =
     rbind (mark_equity env k s) (\<lambda>s.
     rbind (close_actions env k (note_triggered env k s)) (\<lambda>s.
     rbind (combined_exit env k s) (risk_exit env k)))"

definition run_day :: "run_env \<Rightarrow> nat \<Rightarrow> run_state \<Rightarrow> run_state result option" where
  "run_day env k s =
     (case re_sessions env (day_at env k) of
        None \<Rightarrow> Some (Inl KeyError)
      | Some session \<Rightarrow>
          (case open_day env k session s of
             Inl e \<Rightarrow> Some (Inl e)
           | Inr s1 \<Rightarrow> map_option (\<lambda>r. rbind r (close_day env k)) (attempt_step env k session s1)))"

fun run_days :: "run_env \<Rightarrow> nat list \<Rightarrow> run_state \<Rightarrow> run_state result option" where
  "run_days env [] s = Some (Inr s)"
| "run_days env (k # ks) s =
     (case run_day env k s of
        None \<Rightarrow> None
      | Some (Inl e) \<Rightarrow> Some (Inl e)
      | Some (Inr s') \<Rightarrow> run_days env ks s')"

section \<open>The beginning and the end of a run\<close>

definition rebase_checks :: "backtest_input \<Rightarrow> string \<Rightarrow> (bool \<times> py_error) list" where
  "rebase_checks i instrument =
    (let rs = (case bi_rebases i of None \<Rightarrow> [] | Some rs \<Rightarrow> rs);
         ex_dates = map a_ex_date (bi_actions i) in
    [(\<not> distinct (map rb_ex_date rs) \<or> list_ex (\<lambda>r. rb_instrument_id r \<noteq> instrument) rs,
      DailyBacktestInputError ''risk price rebases must be unique and match the security''),
     (bi_rebases i \<noteq> None \<and>
        (list_ex (\<lambda>r. rb_ex_date r \<notin> set ex_dates) rs \<or>
         list_ex (\<lambda>d. bi_start i \<le> d \<and> d \<le> bi_end i \<and> d \<notin> set (map rb_ex_date rs)) ex_dates),
      DailyBacktestInputError ''risk price rebases must cover source corporate actions'')])"

definition rebase_map :: "backtest_input \<Rightarrow> date \<Rightarrow> price_rebase option" where
  "rebase_map i = map_of (map (\<lambda>r. (rb_ex_date r, r)) (case bi_rebases i of None \<Rightarrow> [] | Some rs \<Rightarrow> rs))"

definition accumulate_on_new_entry :: string where
  "accumulate_on_new_entry = ''accumulate_on_new_entry_signal''"

definition prepare_env ::
  "(date \<Rightarrow> date result) \<Rightarrow> (order_side \<Rightarrow> price \<Rightarrow> int \<Rightarrow> date \<Rightarrow> fee_breakdown result) \<Rightarrow> (string \<Rightarrow> string) \<Rightarrow>
   (exit_rule \<Rightarrow> signal_fact option list result) \<Rightarrow> backtest_input \<Rightarrow> run_env result" where
  "prepare_env next_day quote sha runtime i =
     (let strategy = bi_strategy i in
      rbind (checks [(bs_hybrid strategy, DailyBacktestInputError ''minute_protection_requires_hybrid_executor'')]) (\<lambda>_.
      rbind (validate_and_select_inputs i) (\<lambda>(bars, signal_bars, first).
      rbind (checks (rebase_checks i (bs_symbol strategy))) (\<lambda>_.
      rbind (exit_condition (bs_exit strategy)) (\<lambda>market.
      rbind (select_signal_timelines runtime i signal_bars market) (\<lambda>(entry_timeline, exit_timeline).
      let accumulate = (bs_position_policy strategy = accumulate_on_new_entry);
          holding = holding_period_exit (bs_exit strategy);
          rules = position_risk_exits (bs_exit strategy);
          combined = (xp_op (bs_exit strategy) = ALL_OF \<and> (holding \<noteq> None \<or> rules \<noteq> [])) in
      rbind (checks [(bi_benchmark_equity i \<noteq> [] \<and> bi_benchmark_close i \<noteq> [],
          DailyBacktestInputError ''benchmark_equity and legacy benchmark_close cannot both be supplied'')]) (\<lambda>_.
      rbind (validate_benchmark_equity (if bi_benchmark_equity i \<noteq> [] then bi_benchmark_equity i else bi_benchmark_close i)
          (bi_benchmark_initial i) (bi_benchmark_equity i \<noteq> [])) (\<lambda>benchmark.
      rbind (validate_corporate_actions (bi_actions i) bars first) (\<lambda>actions.
      rbind (settlement_sessions actions bars) (\<lambda>settlements.
        Inr \<lparr>re_config = bi_config i, re_instrument = bs_symbol strategy, re_entry = bs_entry strategy,
             re_accumulate = accumulate, re_end = bi_end i, re_holding = holding, re_risk_rules = rules,
             re_market_rule = market, re_combined = combined, re_bars = bars, re_signal_bars = signal_bars,
             re_sessions = session_map (bi_sessions i), re_first = first, re_entry_timeline = entry_timeline,
             re_order_timeline = (if accumulate then entry_occurrences entry_timeline (bs_entry strategy) else entry_timeline),
             re_exit_timeline = (if combined then replicate (length exit_timeline) None else exit_timeline),
             re_market_timeline = exit_timeline, re_record_actions = actions_by_record_date actions,
             re_ex_actions = actions_by_ex_date actions, re_settlement_actions = actions_by_settlement settlements,
             re_benchmark = benchmark, re_rebases = rebase_map i, re_raw_rebased = (bi_rebases i \<noteq> None),
             re_next_day = next_day, re_quote = quote, re_sha = sha\<rparr>))))))))))"

definition initial_state :: "backtest_input \<Rightarrow> run_env \<Rightarrow> run_state result" where
  "initial_state i env =
     (let zero = \<lparr>amount = 0, currency = ''CNY''\<rparr>;
          cash = \<lparr>amount = of_int (bt_initial_cash_cny (bs_backtest (bi_strategy i))), currency = ''CNY''\<rparr>;
          start = day_at env (re_first env) in
      rbind (mk_portfolio \<lparr>ps_cash = cash, ps_lots = [], ps_fills = [], ps_ledger_entries = [], ps_action_entries = [],
         ps_entitlements = []\<rparr>) (\<lambda>portfolio.
      rbind (safe_run_key (bi_run_key i)) (\<lambda>key.
      rbind (mk_equity_point \<lparr>ep_session_date = start - 1, ep_equity = amount cash,
          ep_benchmark = (case bi_benchmark_initial i of Some v \<Rightarrow> Some v | None \<Rightarrow> re_benchmark env start)\<rparr>) (\<lambda>p.
        Inr \<lparr>rs_portfolio = portfolio, rs_decisions = [], rs_traces = [], rs_signals = [], rs_curve = [p], rs_trips = [],
             rs_pending = None, rs_entries = {}, rs_exits = {},
             rs_ids = \<lparr>ids_run_key = key, ids_decision = 0, ids_order = 0, ids_fill = 0\<rparr>,
             rs_cost = zero, rs_proceeds = zero, rs_income = zero, rs_trade_date = None, rs_holding_fill = None,
             rs_holding_target = None, rs_holding_emitted = False, rs_risk_fill = None, rs_risk_price = None,
             rs_risk_peak = None, rs_queued = None\<rparr>))))"

definition no_future_session :: "run_state \<Rightarrow> run_state" where
  "no_future_session s =
     (case rs_pending s of
        None \<Rightarrow> s
      | Some i \<Rightarrow> s\<lparr>rs_decisions := (rs_decisions s)[i := (rs_decisions s ! i)\<lparr>sd_status := NO_FUTURE_SESSION,
          sd_outcome_reason := Some ''no_future_session_in_backtest_period''\<rparr>]\<rparr>)"

text \<open>A decision left pending, or a fact that only became available after the last auction, has no session.\<close>

definition end_of_run :: "run_env \<Rightarrow> run_state \<Rightarrow> run_state result" where
  "end_of_run env s =
     (if rs_pending s \<noteq> None then Inr (no_future_session s)
      else
        rbind (economic_position env s) (\<lambda>quantity.
        let k = length (re_bars env) - 1;
            cutoff = max (b_available_at (last (re_bars env))) (session_close (b_session_date (last (re_bars env))));
            (entry, s1) = consume_entry env k cutoff s;
            (exit_fact, s2) = consume_exit env k cutoff s1;
            chosen = (if quantity > 0 then first_available_exit [exit_fact, rs_queued s2] else None)
        in case chosen of
             Some f \<Rightarrow> rbind (decide env SELL f s2) (\<lambda>s3. Inr (no_future_session s3))
           | None \<Rightarrow>
               (case (if quantity = 0 \<or> re_accumulate env then entry else None) of
                  Some f \<Rightarrow> rbind (decide env BUY f s2) (\<lambda>s3. Inr (no_future_session s3))
                | None \<Rightarrow> Inr s2)))"

record backtest_result =
  br_state :: run_state
  br_metrics :: trade_metrics
  br_benchmark_filled :: "bool option"

definition run_daily_backtest ::
  "(date \<Rightarrow> date result) \<Rightarrow> (order_side \<Rightarrow> price \<Rightarrow> int \<Rightarrow> date \<Rightarrow> fee_breakdown result) \<Rightarrow> (string \<Rightarrow> string) \<Rightarrow>
   (exit_rule \<Rightarrow> signal_fact option list result) \<Rightarrow> backtest_input \<Rightarrow> backtest_result result option" where
  "run_daily_backtest next_day quote sha runtime i =
     (case rbind (prepare_env next_day quote sha runtime i) (\<lambda>env. rbind (initial_state i env) (\<lambda>s. Inr (env, s))) of
        Inl e \<Rightarrow> Some (Inl e)
      | Inr (env, s) \<Rightarrow>
          map_option (\<lambda>r.
            rbind r (\<lambda>s'.
            rbind (end_of_run env s') (\<lambda>s''.
            rbind (calculate_metrics (rs_curve s'') (rs_trips s'')) (\<lambda>m.
              Inr \<lparr>br_state = s'', br_metrics = m, br_benchmark_filled = bi_benchmark_filled i\<rparr>))))
            (run_days env [re_first env..<length (re_bars env)] s))"

end
