(* ===== verification/BacktestRun.thy ===== *)
theory BacktestRun
  imports DayLoop
begin

text \<open>
  What a run of the daily backtest guarantees: its portfolio is a history of the ledger, every order
  belongs to a decision that was known before it, all decisions are settled, identifiers never repeat,
  and the equity curve has one point per session.
\<close>

section \<open>One attempt as seen by the loop\<close>

text \<open>Statuses a decision that is not pending may have.\<close>

definition settled :: "decision_status \<Rightarrow> bool" where
  "settled st \<longleftrightarrow> st \<noteq> PENDING_DECISION \<and> st \<noteq> RETRYING"

definition same_decision :: "strategy_decision \<Rightarrow> strategy_decision \<Rightarrow> bool" where
  "same_decision d d' \<longleftrightarrow> sd_decision_id d' = sd_decision_id d \<and> sd_side d' = sd_side d \<and>
     sd_signal d' = sd_signal d \<and> sd_created_at d' = sd_created_at d"

definition fill_ids :: "fill_record option \<Rightarrow> string list" where
  "fill_ids f = (case f of None \<Rightarrow> [] | Some f \<Rightarrow> [f_fill_id f])"

lemma apply_buy_fills: "apply_buy s f d = Inr t \<Longrightarrow> ps_fills t = ps_fills s @ [f]"
  unfolding apply_buy_def by (auto simp: mk_portfolio_Inr elim!: rbindE split: if_splits)

lemma apply_sell_fills: "apply_sell s f = Inr t \<Longrightarrow> ps_fills t = ps_fills s @ [f]"
  by (elim apply_sellE) simp

lemma booked_fills:
  assumes "booked next_day quote side day s fill s'"
  shows "map f_fill_id (ps_fills s') = map f_fill_id (ps_fills s) @ fill_ids fill"
  using assms apply_buy_fills apply_sell_fills
  by (cases fill) (auto simp: booked_def fill_ids_def split: if_splits)

lemma run_order_ids:
  assumes "run_order quote config decision bar session s ids inst volume q limit sellable_on = Inr a"
  shows "at_ids a = ids\<lparr>ids_order := ids_order ids + 1, ids_fill := ids_fill ids + int (length (fill_ids (at_fill a)))\<rparr> \<and>
    fill_ids (at_fill a) = (if at_fill a = None then [] else [run_id ''fill'' (ids_run_key ids) 6 (ids_fill ids + 1)])"
  using assms
proof (rule run_orderE)
  fix x m y fill_es fill
  assume b: "if r_outcome m = NO_FILL then y = x \<and> fill_es = [] \<and> fill = None \<and> at_portfolio a = s \<and>
        at_ids a = ids\<lparr>ids_order := ids_order ids + 1\<rparr>
     else \<exists>filled f. book_fill quote decision inst (b_session_date bar) sellable_on x m s (ids\<lparr>ids_order := ids_order ids + 1\<rparr>) =
        Inr (filled, f, at_portfolio a, at_ids a) \<and> y = tr_order filled \<and> fill_es = [tr_event filled] \<and> fill = Some f"
    and f: "at_fill a = fill"
  show ?thesis
  proof (cases "r_outcome m = NO_FILL")
    case True
    then show ?thesis using b f by (simp add: fill_ids_def)
  next
    case False
    with b f obtain filled g where "book_fill quote decision inst (b_session_date bar) sellable_on x m s
        (ids\<lparr>ids_order := ids_order ids + 1\<rparr>) = Inr (filled, g, at_portfolio a, at_ids a)" "at_fill a = Some g" by auto
    then show ?thesis by (elim book_fillE) (simp add: fill_ids_def)
  qed
qed

lemma attempt_ids:
  assumes "attempt_decision next_day quote config decision bar session s ids inst volume = Some (Inr a)"
  shows "at_ids a = ids\<lparr>ids_order := ids_order ids + (if at_trace a = None then 0 else 1),
      ids_fill := ids_fill ids + int (length (fill_ids (at_fill a)))\<rparr>"
    "fill_ids (at_fill a) = (if at_fill a = None then [] else [run_id ''fill'' (ids_run_key ids) 6 (ids_fill ids + 1)])"
    "at_trace a = None \<Longrightarrow> at_fill a = None"
proof -
  have "at_ids a = ids\<lparr>ids_order := ids_order ids + (if at_trace a = None then 0 else 1),
      ids_fill := ids_fill ids + int (length (fill_ids (at_fill a)))\<rparr> \<and>
    fill_ids (at_fill a) = (if at_fill a = None then [] else [run_id ''fill'' (ids_run_key ids) 6 (ids_fill ids + 1)]) \<and>
    (at_trace a = None \<longrightarrow> at_fill a = None)"
    using assms
  proof (cases rule: attempt_decisionE)
    case 1
    then show ?thesis by (simp add: fill_ids_def)
  next
    case 2
    then show ?thesis using run_order_ids [OF 2(2)] run_order_trail [OF 2(2)] by auto
  qed
  then show "at_ids a = ids\<lparr>ids_order := ids_order ids + (if at_trace a = None then 0 else 1),
      ids_fill := ids_fill ids + int (length (fill_ids (at_fill a)))\<rparr>"
    "fill_ids (at_fill a) = (if at_fill a = None then [] else [run_id ''fill'' (ids_run_key ids) 6 (ids_fill ids + 1)])"
    "at_trace a = None \<Longrightarrow> at_fill a = None"
    by blast+
qed

text \<open>A decision keeps its identity; unless it is tried again it is settled; its orders are listed.\<close>

lemma attempt_decision_kept:
  assumes "attempt_decision next_day quote config decision bar session s ids inst volume = Some (Inr a)"
  shows "same_decision decision (at_decision a) \<and> (\<not> at_retry a \<longrightarrow> settled (sd_status (at_decision a))) \<and>
    sd_order_ids (at_decision a) = sd_order_ids decision @ (case at_trace a of None \<Rightarrow> [] | Some tr \<Rightarrow> [o_order_id (ot_order tr)])"
  using assms
proof (cases rule: attempt_decisionE)
  case (1 status reason again)
  then show ?thesis
    by (auto simp: same_decision_def settled_def attempt_terms_def buy_terms_def sell_terms_def result_simps Let_def
        split: if_splits sum.splits option.splits)
next
  case (2 q limit sellable_on)
  obtain m fill final e where
    d: "(at_decision a, at_retry a) = settle_decision config decision final m fill e"
    and t: "at_trace a \<noteq> None"
    using 2(2) by (rule run_orderE) auto
  then show ?thesis using run_order_trail [OF 2(2)]
    by (auto simp: same_decision_def settled_def settle_decision_def Let_def split: if_splits)
qed

lemma attempt_trace:
  assumes "attempt_decision next_day quote config decision bar session s ids inst volume = Some (Inr a)"
    and "at_trace a = Some tr"
  shows "order_history (ot_order tr) (ot_events tr) \<and> o_status (ot_order tr) \<in> {FILLED, EXPIRED} \<and>
    o_decision_id (ot_order tr) = sd_decision_id decision \<and> o_side (ot_order tr) = sd_side decision \<and>
    o_order_id (ot_order tr) = run_id ''order'' (ids_run_key ids) 6 (ids_order ids + 1) \<and>
    sd_created_at decision + decision_processing_latency \<le> o_created_at (ot_order tr) \<and>
    o_applied_fill_ids (ot_order tr) = fill_ids (at_fill a)"
  using assms(1)
proof (cases rule: attempt_decisionE)
  case (2 q limit sellable_on)
  then show ?thesis using run_order_trail [OF 2(2)] assms(2) by (auto simp: fill_ids_def split: option.splits)
qed (use assms(2) in simp)

section \<open>Steps that leave orders and decisions alone\<close>

text \<open>Only the bookkeeping of the open trade and of the account exits changes.\<close>

definition same_core :: "run_state \<Rightarrow> run_state \<Rightarrow> bool" where
  "same_core s s' \<longleftrightarrow> rs_portfolio s' = rs_portfolio s \<and> rs_decisions s' = rs_decisions s \<and> rs_traces s' = rs_traces s \<and>
     rs_pending s' = rs_pending s \<and> rs_ids s' = rs_ids s \<and> rs_curve s' = rs_curve s \<and>
     rs_entries s' = rs_entries s \<and> rs_exits s' = rs_exits s"

lemma same_core_refl [simp]: "same_core s s"
  by (simp add: same_core_def)

lemma same_core_trans: "same_core s t \<Longrightarrow> same_core t u \<Longrightarrow> same_core s u"
  by (simp add: same_core_def)

lemma rebase_core: "rebase_step env k s = Inr s' \<Longrightarrow> same_core s s'"
  by (auto simp: rebase_step_def same_core_def split: option.splits if_splits)

lemma holding_core: "holding_step env k s = Inr (h, s') \<Longrightarrow> same_core s s'"
  by (auto simp: holding_step_def same_core_def result_simps split: option.splits if_splits)

lemma anchor_holding_core: "anchor_holding env f s = Inr s' \<Longrightarrow> same_core s s'"
  by (auto simp: anchor_holding_def same_core_def result_simps split: option.splits if_splits)

lemma anchor_risk_core: "anchor_risk env k f s = Inr s' \<Longrightarrow> same_core s s'"
  by (auto simp: anchor_risk_def same_core_def result_simps Let_def split: if_splits)

lemma book_buy_core: "book_buy env k f s = Inr s' \<Longrightarrow> same_core s s'"
  unfolding book_buy_def Let_def
  by (elim rbindE) (auto dest!: anchor_holding_core anchor_risk_core simp: same_core_def)

lemma anchor_queued: "anchor_holding env f s = Inr s' \<Longrightarrow> rs_queued s' = rs_queued s"
    "anchor_risk env k f s = Inr s' \<Longrightarrow> rs_queued s' = rs_queued s"
  by (auto simp: anchor_holding_def anchor_risk_def rbind_eq_Inr Let_def split: option.splits if_splits)

lemma book_buy_queued: "book_buy env k f s = Inr s' \<Longrightarrow> rs_queued s' = rs_queued s"
  unfolding book_buy_def Let_def by (elim rbindE) (auto dest!: anchor_queued)

lemma book_sell_core: "book_sell env f s = Inr s' \<Longrightarrow> same_core s s'"
  unfolding book_sell_def Let_def
  by (elim rbindE) (auto simp: same_core_def flat_state_def elim!: rbindE split: if_splits option.splits)

lemma note_core: "same_core s (note_triggered env k s)"
  by (simp add: note_triggered_def same_core_def)

lemma combined_core: "combined_exit env k s = Inr s' \<Longrightarrow> same_core s s'"
  by (auto simp: combined_exit_def same_core_def Let_def elim!: rbindE split: if_splits prod.splits)

lemma risk_core: "risk_exit env k s = Inr s' \<Longrightarrow> same_core s s'"
  by (auto simp: risk_exit_def same_core_def elim!: rbindE split: if_splits prod.splits option.splits)

text \<open>Corporate actions change the portfolio along its history, without fills.\<close>

definition action_step :: "(string \<Rightarrow> string) \<Rightarrow> run_state \<Rightarrow> run_state \<Rightarrow> bool" where
  "action_step sha s s' \<longleftrightarrow> rs_decisions s' = rs_decisions s \<and> rs_traces s' = rs_traces s \<and>
     rs_pending s' = rs_pending s \<and> rs_ids s' = rs_ids s \<and> rs_curve s' = rs_curve s \<and>
     ps_fills (rs_portfolio s') = ps_fills (rs_portfolio s) \<and>
     (\<forall>p. portfolio_history sha p (rs_portfolio s) \<longrightarrow> portfolio_history sha p (rs_portfolio s'))"

lemma action_step_refl [simp]: "action_step sha s s"
  by (simp add: action_step_def)

lemma action_step_trans: "action_step sha s t \<Longrightarrow> action_step sha t u \<Longrightarrow> action_step sha s u"
  by (simp add: action_step_def)

lemma record_phase_fills: "record_phase s a ph t cash lots es ps = Inr s' \<Longrightarrow> ps_fills s' = ps_fills s"
  by (auto simp: record_phase_def mk_portfolio_Inr with_action_entry_def elim!: rbindE)

lemma accrue_fills: "accrue_action s a t = Inr s' \<Longrightarrow> ps_fills s' = ps_fills s"
  unfolding accrue_action_def
  by (auto simp: record_phase_fills Let_def elim!: rbindE split: if_splits prod.splits option.splits)

lemma settle_fills: "settle_action sha s a t = Inr s' \<Longrightarrow> ps_fills s' = ps_fills s"
  unfolding settle_action_def
  by (auto simp: record_phase_fills Let_def elim!: rbindE split: if_splits prod.splits option.splits)

lemma capture_fills: "capture_entitlement s a t = Inr s' \<Longrightarrow> ps_fills s' = ps_fills s"
  unfolding capture_entitlement_def
  by (auto simp: record_phase_fills Let_def elim!: rbindE split: if_splits prod.splits option.splits)

lemma decline_fills: "decline_rights_issue s a t = Inr s' \<Longrightarrow> ps_fills s' = ps_fills s"
  unfolding decline_rights_issue_def
  by (auto simp: record_phase_fills Let_def elim!: rbindE split: if_splits prod.splits option.splits)

lemma unsupported_Inr: "unsupported_action r = Inr x \<longleftrightarrow> r = Inr x"
  by (auto simp: unsupported_action_def split: sum.splits py_error.splits)

lemma accrue_step_action: "accrue_step env d a s = Inr s' \<Longrightarrow> action_step sha s s'"
  by (auto simp: accrue_step_def action_step_def accrue_fills intro: portfolio_history.accrue elim!: rbindE split: if_splits)

lemma settle_step_action: "settle_step env t cash a s = Inr s' \<Longrightarrow> action_step (re_sha env) s s'"
  by (auto simp: settle_step_def action_step_def settle_fills intro: portfolio_history.settle elim!: rbindE split: if_splits)

lemma record_step_action: "record_step env d a s = Inr s' \<Longrightarrow> action_step sha s s'"
  by (auto simp: record_step_def action_step_def capture_fills decline_fills
      intro: portfolio_history.capture portfolio_history.decline elim!: rbindE split: if_splits)

lemma fold_action:
  assumes "fold_res f xs s = Inr s'" "\<And>x s s'. f x s = Inr s' \<Longrightarrow> action_step sha s s'"
  shows "action_step sha s s'"
  using assms(1) by (rule fold_res_invariant) (auto intro: action_step_trans assms(2))

lemma preopen_actions_step: "preopen_actions env k s = Inr s' \<Longrightarrow> action_step (re_sha env) s s'"
  unfolding preopen_actions_def Let_def unsupported_Inr
  by (elim rbindE) (blast intro: action_step_trans fold_action accrue_step_action settle_step_action)

lemma close_actions_step: "close_actions env k s = Inr s' \<Longrightarrow> action_step (re_sha env) s s'"
  unfolding close_actions_def Let_def unsupported_Inr
  by (elim rbindE) (blast intro: action_step_trans fold_action record_step_action settle_step_action)

section \<open>The invariant of a run\<close>

definition numbered :: "string \<Rightarrow> string \<Rightarrow> nat \<Rightarrow> string list" where
  "numbered kind key n = map (\<lambda>k. run_id kind key 6 (int k + 1)) [0..<n]"

lemma numbered_Suc: "numbered kind key (Suc n) = numbered kind key n @ [run_id kind key 6 (int n + 1)]"
  by (simp add: numbered_def)

lemma numbered_distinct: "distinct (numbered kind key n)"
  by (auto simp: numbered_def distinct_map inj_on_def run_id_inject)

abbreviation trace_id :: "order_trace \<Rightarrow> string" where
  "trace_id t \<equiv> o_order_id (ot_order t)"

text \<open>The orders of a decision, in the order they were sent.\<close>

definition orders_of :: "order_trace list \<Rightarrow> strategy_decision \<Rightarrow> string list" where
  "orders_of ts d = map trace_id (filter (\<lambda>t. o_decision_id (ot_order t) = sd_decision_id d) ts)"

lemma orders_of_append: "orders_of (ts @ us) d = orders_of ts d @ orders_of us d"
  by (simp add: orders_of_def)

definition decisions_ok :: "string \<Rightarrow> run_state \<Rightarrow> bool" where
  "decisions_ok key s \<longleftrightarrow>
     map sd_decision_id (rs_decisions s) = numbered ''decision'' key (length (rs_decisions s)) \<and>
     ids_decision (rs_ids s) = int (length (rs_decisions s)) \<and>
     none_or (\<lambda>i. i < length (rs_decisions s)) (rs_pending s) \<and>
     (\<forall>i < length (rs_decisions s). rs_pending s \<noteq> Some i \<longrightarrow> settled (sd_status (rs_decisions s ! i))) \<and>
     (\<forall>d \<in> set (rs_decisions s). sd_created_at d = sf_available_at (sd_signal d) \<and> sd_order_ids d = orders_of (rs_traces s) d)"

text \<open>An order of a decision, sent no earlier than one second after its fact was available.\<close>

definition order_of_decision :: "strategy_decision \<Rightarrow> order \<Rightarrow> bool" where
  "order_of_decision d x \<longleftrightarrow> o_decision_id x = sd_decision_id d \<and> o_side x = sd_side d \<and>
     sf_available_at (sd_signal d) + decision_processing_latency \<le> o_created_at x"

definition orders_ok :: "string \<Rightarrow> run_state \<Rightarrow> bool" where
  "orders_ok key s \<longleftrightarrow>
     map trace_id (rs_traces s) = numbered ''order'' key (length (rs_traces s)) \<and>
     ids_order (rs_ids s) = int (length (rs_traces s)) \<and>
     (\<forall>t \<in> set (rs_traces s). order_history (ot_order t) (ot_events t) \<and> o_status (ot_order t) \<in> {FILLED, EXPIRED} \<and>
        (\<exists>d \<in> set (rs_decisions s). order_of_decision d (ot_order t)))"

definition fills_ok :: "string \<Rightarrow> run_state \<Rightarrow> bool" where
  "fills_ok key s \<longleftrightarrow>
     concat (map (\<lambda>t. o_applied_fill_ids (ot_order t)) (rs_traces s)) = map f_fill_id (ps_fills (rs_portfolio s)) \<and>
     map f_fill_id (ps_fills (rs_portfolio s)) = numbered ''fill'' key (length (ps_fills (rs_portfolio s))) \<and>
     ids_fill (rs_ids s) = int (length (ps_fills (rs_portfolio s)))"

definition run_inv :: "run_env \<Rightarrow> string \<Rightarrow> portfolio_state \<Rightarrow> run_state \<Rightarrow> bool" where
  "run_inv env key p0 s \<longleftrightarrow> portfolio_history (re_sha env) p0 (rs_portfolio s) \<and> ids_run_key (rs_ids s) = key \<and>
     decisions_ok key s \<and> orders_ok key s \<and> fills_ok key s"

lemma action_step_inv:
  assumes "action_step (re_sha env) s s'" "run_inv env key p0 s"
  shows "run_inv env key p0 s'"
proof -
  have e: "rs_decisions s' = rs_decisions s" "rs_traces s' = rs_traces s" "rs_pending s' = rs_pending s" "rs_ids s' = rs_ids s"
    "ps_fills (rs_portfolio s') = ps_fills (rs_portfolio s)"
    using assms(1) by (simp_all add: action_step_def)
  have "decisions_ok key s'" "orders_ok key s'" "fills_ok key s'"
    using assms(2) unfolding run_inv_def decisions_ok_def orders_ok_def fills_ok_def e by blast+
  then show ?thesis using assms e(4) by (simp add: run_inv_def action_step_def)
qed

lemma same_core_inv: "same_core s s' \<Longrightarrow> run_inv env key p0 s \<Longrightarrow> run_inv env key p0 s'"
  by (rule action_step_inv) (simp_all add: same_core_def action_step_def)

text \<open>Changes to the consumed facts, the queue and the pending flag of settled decisions are irrelevant.\<close>

lemma run_inv_update [simp]:
  "run_inv env key p0 (s\<lparr>rs_queued := q\<rparr>) = run_inv env key p0 s"
  "run_inv env key p0 (s\<lparr>rs_entries := h\<rparr>) = run_inv env key p0 s"
  "run_inv env key p0 (s\<lparr>rs_exits := h\<rparr>) = run_inv env key p0 s"
  "run_inv env key p0 (s\<lparr>rs_curve := c\<rparr>) = run_inv env key p0 s"
  by (simp_all add: run_inv_def decisions_ok_def orders_ok_def fills_ok_def)

lemma new_decision_Inr:
  assumes "new_decision ds ids side f config entry = Inr (ds', ids')"
  shows "\<exists>d. ds' = ds @ [d] \<and> sd_decision_id d = run_id ''decision'' (ids_run_key ids) 6 (ids_decision ids + 1) \<and>
    sd_side d = side \<and> sd_signal d = f \<and> sd_created_at d = sf_available_at f \<and> sd_order_ids d = [] \<and>
    ids' = ids\<lparr>ids_decision := ids_decision ids + 1\<rparr>"
  using assms by (auto simp: new_decision_def next_decision_id_def Let_def mk_id_def result_simps split: if_splits)

lemma decision_id_fresh:
  assumes "decisions_ok key s" "orders_ok key s" "sd_decision_id d = run_id ''decision'' key 6 (int (length (rs_decisions s)) + 1)"
  shows "orders_of (rs_traces s) d = []"
proof -
  let ?n = "length (rs_decisions s)"
  have "o_decision_id (ot_order t) \<noteq> sd_decision_id d" if t: "t \<in> set (rs_traces s)" for t
  proof -
    from t assms(2) obtain e where e: "e \<in> set (rs_decisions s)" "o_decision_id (ot_order t) = sd_decision_id e"
      unfolding orders_ok_def order_of_decision_def by blast
    then have "o_decision_id (ot_order t) \<in> set (map sd_decision_id (rs_decisions s))" by simp
    also have "map sd_decision_id (rs_decisions s) = numbered ''decision'' key ?n" using assms(1) by (simp only: decisions_ok_def)
    finally have "o_decision_id (ot_order t) \<in> set (numbered ''decision'' key ?n)" .
    then show ?thesis
      using numbered_distinct [of "''decision''" key "Suc ?n"] by (auto simp: numbered_Suc assms(3))
  qed
  then show ?thesis by (auto simp: orders_of_def filter_empty_conv)
qed

lemma decide_inv:
  assumes "decide env side f s = Inr s'" "rs_pending s = None" "run_inv env key p0 s"
  shows "run_inv env key p0 s' \<and> rs_curve s' = rs_curve s \<and> rs_traces s' = rs_traces s"
proof -
  obtain ds ids where n: "new_decision (rs_decisions s) (rs_ids s) side f (re_config env) (re_entry env) = Inr (ds, ids)"
    and s': "s' = s\<lparr>rs_decisions := ds, rs_ids := ids, rs_pending := Some (length ds - 1)\<rparr>"
    using assms(1) by (auto simp: decide_def result_simps)
  from new_decision_Inr [OF n] obtain d where d: "ds = rs_decisions s @ [d]"
    "sd_decision_id d = run_id ''decision'' (ids_run_key (rs_ids s)) 6 (ids_decision (rs_ids s) + 1)"
    "sd_created_at d = sf_available_at (sd_signal d)" "sd_order_ids d = []"
    "ids = (rs_ids s)\<lparr>ids_decision := ids_decision (rs_ids s) + 1\<rparr>"
    by auto
  have inv: "decisions_ok key s" "orders_ok key s" "fills_ok key s" "ids_run_key (rs_ids s) = key"
    using assms(3) by (simp_all add: run_inv_def)
  have di: "sd_decision_id d = run_id ''decision'' key 6 (int (length (rs_decisions s)) + 1)"
    using d(2) inv(1,4) by (simp add: decisions_ok_def)
  note f = decision_id_fresh [OF inv(1,2) di]
  have "map sd_decision_id (rs_decisions s') = numbered ''decision'' key (length (rs_decisions s'))"
    using inv(1) d(1) di by (simp add: s' decisions_ok_def numbered_Suc)
  moreover have "\<forall>i < length (rs_decisions s'). rs_pending s' \<noteq> Some i \<longrightarrow> settled (sd_status (rs_decisions s' ! i))"
    using inv(1) d(1) assms(2) by (auto simp: s' decisions_ok_def nth_append less_Suc_eq)
  moreover have "\<forall>e \<in> set (rs_decisions s'). sd_created_at e = sf_available_at (sd_signal e) \<and> sd_order_ids e = orders_of (rs_traces s') e"
    using inv(1) d(1,3,4) f unfolding decisions_ok_def by (simp add: s')
  moreover have "ids_decision (rs_ids s') = int (length (rs_decisions s'))" using inv(1) d(1,5) by (simp add: s' decisions_ok_def)
  ultimately have "decisions_ok key s'" using d(1) by (simp add: decisions_ok_def s')
  moreover have "orders_ok key s'" using inv(2) d(1,5) unfolding orders_ok_def by (simp add: s')
  moreover have "fills_ok key s'" using inv(3) d(5) unfolding fills_ok_def by (simp add: s')
  ultimately show ?thesis using assms(3) d(5) by (simp add: run_inv_def s')
qed

text \<open>Replacing the pending decision, with or without a new order of it.\<close>

lemma decisions_update:
  assumes ok: "decisions_ok key s" and i: "rs_pending s = Some i" and same: "same_decision (rs_decisions s ! i) d'"
    and o: "\<forall>t \<in> set us. o_decision_id (ot_order t) = sd_decision_id (rs_decisions s ! i)"
      "sd_order_ids d' = sd_order_ids (rs_decisions s ! i) @ map trace_id us"
    and p: "pending = Some i \<or> pending = None \<and> settled (sd_status d')" and n: "ids_decision ids = ids_decision (rs_ids s)"
  shows "decisions_ok key (s\<lparr>rs_portfolio := q, rs_decisions := (rs_decisions s)[i := d'], rs_ids := ids,
    rs_traces := rs_traces s @ us, rs_pending := pending\<rparr>)"
proof -
  let ?ds = "rs_decisions s"
  have il: "i < length ?ds" using ok i by (simp add: decisions_ok_def)
  have ids: "map sd_decision_id ?ds = numbered ''decision'' key (length ?ds)" using ok by (simp only: decisions_ok_def)
  have dist: "distinct (map sd_decision_id ?ds)" unfolding ids by (rule numbered_distinct)
  have ids': "map sd_decision_id (?ds[i := d']) = map sd_decision_id ?ds"
    using same il by (simp add: map_update same_decision_def list_update_same_conv)
  have each: "sd_created_at (?ds[i := d'] ! j) = sf_available_at (sd_signal (?ds[i := d'] ! j)) \<and>
      sd_order_ids (?ds[i := d'] ! j) = orders_of (rs_traces s @ us) (?ds[i := d'] ! j)" if j: "j < length ?ds" for j
  proof -
    have old: "sd_created_at (?ds ! j) = sf_available_at (sd_signal (?ds ! j))" "sd_order_ids (?ds ! j) = orders_of (rs_traces s) (?ds ! j)"
      using ok j by (simp_all add: decisions_ok_def)
    show ?thesis
    proof (cases "j = i")
      case True
      have "orders_of us d' = map trace_id us" using o(1) same by (simp add: orders_of_def same_decision_def)
      moreover have "orders_of (rs_traces s) d' = orders_of (rs_traces s) (?ds ! i)"
        using same by (simp add: orders_of_def same_decision_def)
      ultimately show ?thesis using old same o(2) il by (simp add: True orders_of_append same_decision_def)
    next
      case False
      then have "sd_decision_id (?ds ! j) \<noteq> sd_decision_id (?ds ! i)"
        using nth_eq_iff_index_eq [OF dist, of j i] j il by simp
      then have "orders_of us (?ds ! j) = []" using o(1) by (auto simp: orders_of_def filter_empty_conv)
      then show ?thesis using old False by (simp add: orders_of_append)
    qed
  qed
  have "\<forall>e \<in> set (?ds[i := d']). sd_created_at e = sf_available_at (sd_signal e) \<and> sd_order_ids e = orders_of (rs_traces s @ us) e"
    unfolding all_set_conv_all_nth using each by simp
  moreover have "\<forall>j < length ?ds. pending \<noteq> Some j \<longrightarrow> settled (sd_status (?ds[i := d'] ! j))"
    using ok i p by (auto simp: decisions_ok_def nth_list_update)
  ultimately show ?thesis using ok il ids ids' p n by (auto simp: decisions_ok_def)
qed

lemma orders_kept:
  assumes "\<exists>d \<in> set ds. order_of_decision d x" "i < length ds" "same_decision (ds ! i) d'"
  shows "\<exists>d \<in> set (ds[i := d']). order_of_decision d x"
proof -
  from assms(1) obtain j where j: "j < length ds" "order_of_decision (ds ! j) x" by (auto simp: in_set_conv_nth)
  then have "order_of_decision (ds[i := d'] ! j) x"
    using assms(2,3) by (cases "j = i") (simp_all add: order_of_decision_def same_decision_def)
  then show ?thesis using j(1) nth_mem [of j "ds[i := d']"] by auto
qed

lemma settle_inv:
  assumes inv: "run_inv env key p0 s" and i: "rs_pending s = Some i"
    and d: "same_decision (rs_decisions s ! i) d'" "sd_order_ids d' = sd_order_ids (rs_decisions s ! i)" "settled (sd_status d')"
  shows "run_inv env key p0 (s\<lparr>rs_decisions := (rs_decisions s)[i := d'], rs_pending := None\<rparr>)"
proof -
  let ?s = "s\<lparr>rs_decisions := (rs_decisions s)[i := d'], rs_pending := None\<rparr>"
  have ok: "decisions_ok key s" "orders_ok key s" "fills_ok key s" using inv by (simp_all add: run_inv_def)
  have "decisions_ok key ?s"
    using decisions_update [OF ok(1) i d(1), of "[]" None "rs_ids s" "rs_portfolio s"] d(2,3) by simp
  moreover have "i < length (rs_decisions s)" using ok(1) i by (simp add: decisions_ok_def)
  then have "orders_ok key ?s" using ok(2) orders_kept [OF _ _ d(1)] unfolding orders_ok_def by simp
  moreover have "fills_ok key ?s" using ok(3) unfolding fills_ok_def by simp
  ultimately show ?thesis using inv by (simp add: run_inv_def)
qed

text \<open>An attempt of the pending decision.\<close>

lemma attempt_inv:
  assumes inv: "run_inv env key p0 s" and i: "rs_pending s = Some i"
    and a: "attempt_decision next_day quote config (rs_decisions s ! i) bar session (rs_portfolio s) (rs_ids s) inst volume = Some (Inr a)"
    and h: "portfolio_history (re_sha env) p0 (at_portfolio a)"
  shows "run_inv env key p0 (s\<lparr>rs_portfolio := at_portfolio a, rs_decisions := (rs_decisions s)[i := at_decision a],
    rs_ids := at_ids a, rs_traces := rs_traces s @ (case at_trace a of None \<Rightarrow> [] | Some tr \<Rightarrow> [tr]),
    rs_pending := (if at_retry a then Some i else None)\<rparr>)" (is "run_inv env key p0 ?s")
proof -
  have ok: "decisions_ok key s" "orders_ok key s" "fills_ok key s" "ids_run_key (rs_ids s) = key" using inv by (simp_all add: run_inv_def)
  note kept = attempt_decision_kept [OF a] and ids = attempt_ids [OF a] and tr = attempt_trace [OF a]
  have il: "i < length (rs_decisions s)" using ok(1) i by (simp add: decisions_ok_def)
  let ?us = "case at_trace a of None \<Rightarrow> [] | Some tr \<Rightarrow> [tr]"
  have us: "\<forall>t \<in> set ?us. o_decision_id (ot_order t) = sd_decision_id (rs_decisions s ! i)"
    "sd_order_ids (at_decision a) = sd_order_ids (rs_decisions s ! i) @ map trace_id ?us"
    using tr kept by (auto split: option.splits)
  have "decisions_ok key ?s"
    using decisions_update [OF ok(1) i _ us, of "if at_retry a then Some i else None" "at_ids a" "at_portfolio a"] kept ids(1) by simp
  moreover have "orders_ok key ?s"
  proof -
    have old: "\<forall>t \<in> set (rs_traces s). order_history (ot_order t) (ot_events t) \<and> o_status (ot_order t) \<in> {FILLED, EXPIRED} \<and>
        (\<exists>d \<in> set ((rs_decisions s)[i := at_decision a]). order_of_decision d (ot_order t))"
      using ok(2) orders_kept [OF _ il conjunct1 [OF kept]] unfolding orders_ok_def by blast
    have "sd_created_at (rs_decisions s ! i) = sf_available_at (sd_signal (rs_decisions s ! i))"
      using ok(1) il by (simp add: decisions_ok_def)
    then have "order_of_decision (at_decision a) (ot_order t)" if "at_trace a = Some t" for t
      using tr [OF that] kept by (simp add: order_of_decision_def same_decision_def)
    then have new: "\<forall>t \<in> set ?us. order_history (ot_order t) (ot_events t) \<and> o_status (ot_order t) \<in> {FILLED, EXPIRED} \<and>
        (\<exists>d \<in> set ((rs_decisions s)[i := at_decision a]). order_of_decision d (ot_order t))"
      using tr set_update_memI [OF il, of "at_decision a"] by (cases "at_trace a") auto
    have n: "map trace_id (rs_traces s) = numbered ''order'' key (length (rs_traces s))"
      "ids_order (rs_ids s) = int (length (rs_traces s))"
      using ok(2) by (simp_all only: orders_ok_def)
    have "map trace_id (rs_traces s @ ?us) = numbered ''order'' key (length (rs_traces s @ ?us))"
      using n tr ok(4) by (auto simp: numbered_Suc split: option.splits)
    moreover have "ids_order (at_ids a) = int (length (rs_traces s @ ?us))" using n ids(1) by (auto split: option.splits)
    ultimately show ?thesis using old new unfolding orders_ok_def by auto
  qed
  moreover have "fills_ok key ?s"
  proof -
    let ?n = "length (ps_fills (rs_portfolio s))"
    have f: "map f_fill_id (ps_fills (at_portfolio a)) = map f_fill_id (ps_fills (rs_portfolio s)) @ fill_ids (at_fill a)"
      by (rule booked_fills [OF attempt_booked [OF a]])
    have n: "concat (map (\<lambda>t. o_applied_fill_ids (ot_order t)) (rs_traces s)) = map f_fill_id (ps_fills (rs_portfolio s))"
      "map f_fill_id (ps_fills (rs_portfolio s)) = numbered ''fill'' key ?n" "ids_fill (rs_ids s) = int ?n"
      using ok(3) by (simp_all only: fills_ok_def)
    have len: "length (ps_fills (at_portfolio a)) = ?n + length (fill_ids (at_fill a))" using arg_cong [OF f, of length] by simp
    have "concat (map (\<lambda>t. o_applied_fill_ids (ot_order t)) ?us) = fill_ids (at_fill a)"
      using tr ids(3) by (auto simp: fill_ids_def split: option.splits)
    then have "concat (map (\<lambda>t. o_applied_fill_ids (ot_order t)) (rs_traces s @ ?us)) = map f_fill_id (ps_fills (at_portfolio a))"
      using n(1) f by simp
    moreover have "map f_fill_id (ps_fills (at_portfolio a)) = numbered ''fill'' key (length (ps_fills (at_portfolio a)))"
      unfolding f len n(2) using ids(2) n(3) ok(4) by (cases "at_fill a") (auto simp: fill_ids_def numbered_Suc)
    moreover have "ids_fill (at_ids a) = int (length (ps_fills (at_portfolio a)))" using ids(1) n(3) len by simp
    ultimately show ?thesis by (simp add: fills_ok_def)
  qed
  ultimately show ?thesis using h ok(4) ids(1) by (simp add: run_inv_def)
qed

section \<open>A day keeps the invariant\<close>

lemma consume_shape:
  "consume_entry env k c s = (f, s') \<Longrightarrow> \<exists>h. s' = s\<lparr>rs_entries := h\<rparr>"
  "consume_exit env k c s = (f, s') \<Longrightarrow> \<exists>h. s' = s\<lparr>rs_exits := h\<rparr>"
  by (auto simp: consume_entry_def consume_exit_def split: prod.splits)

lemma open_decision_inv:
  assumes "open_decision env k holding s = Inr (known, s')" "run_inv env key p0 s"
  shows "run_inv env key p0 s' \<and> rs_curve s' = rs_curve s"
proof (cases "rs_pending s")
  case None
  obtain e s1 where e: "consume_entry env k (decision_cutoff (day_at env k)) s = (e, s1)" by fastforce
  obtain x s2 where x: "consume_exit env k (decision_cutoff (day_at env k)) s1 = (x, s2)" by fastforce
  have s2: "run_inv env key p0 s2" "rs_pending s2 = None" "rs_curve s2 = rs_curve s"
    using consume_shape(1) [OF e] consume_shape(2) [OF x] assms(2) None by auto
  have d: "run_inv env key p0 s3 \<and> rs_curve s3 = rs_curve s" if "decide env side f s2 = Inr s3" for side f s3
    using decide_inv [OF that s2(2,1)] s2(3) by simp
  obtain n where n: "economic_position env s = Inr n" using assms(1) None by (auto simp: open_decision_def rbind_eq_Inr)
  define chosen where "chosen = (if n > 0 then first_available_exit [x, holding, rs_queued s2] else None)"
  define fresh where "fresh = (if n = 0 \<or> re_accumulate env then e else None)"
  have r: "(case chosen of
      Some f \<Rightarrow> rbind (decide env SELL f s2) (\<lambda>s3.
          Inr (None, if chose_queued [x, holding] (rs_queued s2) then s3\<lparr>rs_queued := None\<rparr> else s3))
    | None \<Rightarrow> (case fresh of Some f \<Rightarrow> rbind (decide env BUY f s2) (\<lambda>s3. Inr (x, s3)) | None \<Rightarrow> Inr (None, s2))) = Inr (known, s')"
    using assms(1) by (simp only: open_decision_def None n e x Let_def prod.case rbind_Inr chosen_def fresh_def simp_thms if_False)
  show ?thesis
  proof (cases chosen)
    case None
    then show ?thesis using r d s2(1,3) by (cases fresh) (auto simp: rbind_eq_Inr)
  next
    case (Some f)
    then show ?thesis using r d by (auto simp: rbind_eq_Inr)
  qed
qed (use assms in \<open>simp add: open_decision_def\<close>)

lemma cancel_entry_inv:
  assumes "cancel_entry env k holding known s = Inr s'" "run_inv env key p0 s"
  shows "run_inv env key p0 s' \<and> rs_curve s' = rs_curve s"
proof (cases "rs_pending s")
  case (Some i)
  show ?thesis
  proof (cases "sd_side (rs_decisions s ! i) = BUY")
    case True
    obtain x s1 where x: "(if known = None then consume_exit env k (decision_cutoff (day_at env k)) s else (known, s)) = (x, s1)"
      by fastforce
    have s1: "run_inv env key p0 s1" "rs_pending s1 = Some i" "rs_curve s1 = rs_curve s" "rs_decisions s1 = rs_decisions s"
      using consume_shape(2) [of env k "decision_cutoff (day_at env k)" s x s1] x assms(2) Some by (auto split: if_splits)
    define s2 where "s2 r = s1\<lparr>rs_decisions := (rs_decisions s1)[i := (rs_decisions s ! i)\<lparr>sd_status := CANCELLED_DECISION,
        sd_outcome_reason := r\<rparr>], rs_pending := None\<rparr>" for r
    have s2: "run_inv env key p0 (s2 r)" "rs_pending (s2 r) = None" "rs_curve (s2 r) = rs_curve s" for r
      using settle_inv [OF s1(1,2), of "(rs_decisions s ! i)\<lparr>sd_status := CANCELLED_DECISION, sd_outcome_reason := r\<rparr>"] s1(3,4)
      by (simp_all add: s2_def same_decision_def settled_def)
    have d: "run_inv env key p0 s3 \<and> rs_curve s3 = rs_curve s" if "decide env side f (s2 r) = Inr s3" for side f r s3
      using decide_inv [OF that s2(2,1)] s2(3) by simp
    define current where "current = (case x of Some f \<Rightarrow>
        if signal_is_not_older f (sd_signal (rs_decisions s ! i)) then Some f else None | None \<Rightarrow> None)"
    have r: "rbind (economic_position env s1) (\<lambda>position.
        let replacement = (if position > 0 then first_available_exit [current, holding, rs_queued s1] else None)
        in case (if replacement \<noteq> None then replacement else current) of
             None \<Rightarrow> Inr s1
           | Some cancelling \<Rightarrow>
               (case replacement of
                  None \<Rightarrow> Inr (s2 (Some (''opposite_exit_signal_invalidated_entry:'' @ sf_condition_ref cancelling)))
                | Some f \<Rightarrow>
                    rbind (decide env SELL f (s2 (Some (''opposite_exit_signal_invalidated_entry:'' @ sf_condition_ref cancelling)))) (\<lambda>s3.
                      Inr (if chose_queued [current, holding] (rs_queued s1) then s3\<lparr>rs_queued := None\<rparr> else s3)))) = Inr s'"
      using assms(1) by (simp only: cancel_entry_def Some option.case True x prod.case Let_def current_def s2_def simp_thms if_False)
    then obtain n where n: "economic_position env s1 = Inr n" by (auto simp: rbind_eq_Inr)
    define replacement where "replacement = (if n > 0 then first_available_exit [current, holding, rs_queued s1] else None)"
    note r = r [unfolded n rbind_Inr Let_def, folded replacement_def]
    show ?thesis
    proof (cases replacement)
      case None
      then show ?thesis using r s1(1,3) s2(1,3) by (cases current) auto
    next
      case (Some f)
      then show ?thesis using r d by (auto simp: rbind_eq_Inr)
    qed
  qed (use assms Some in \<open>simp add: cancel_entry_def Let_def\<close>)
qed (use assms in \<open>simp add: cancel_entry_def\<close>)

lemma drop_untradeable_inv:
  "run_inv env key p0 s \<Longrightarrow> run_inv env key p0 (drop_untradeable env k session s) \<and>
     rs_curve (drop_untradeable env k session s) = rs_curve s"
  using settle_inv by (auto simp: drop_untradeable_def Let_def same_decision_def settled_def split: option.splits)

lemma open_day_inv:
  assumes "open_day env k session s = Inr s'" "run_inv env key p0 s"
  shows "run_inv env key p0 s' \<and> rs_curve s' = rs_curve s"
proof -
  from assms(1) obtain s1 h s2 s3 known s4 s5 where
    c: "rebase_step env k s = Inr s1" "holding_step env k s1 = Inr (h, s2)" "preopen_actions env k s2 = Inr s3"
      "open_decision env k h s3 = Inr (known, s4)" "cancel_entry env k h known s4 = Inr s5" "s' = drop_untradeable env k session s5"
    by (auto simp: open_day_def result_simps)
  have "run_inv env key p0 s2" using assms(2) same_core_inv rebase_core [OF c(1)] holding_core [OF c(2)] by blast
  then have "run_inv env key p0 s3" using action_step_inv preopen_actions_step [OF c(3)] by blast
  moreover have "rs_curve s3 = rs_curve s"
    using rebase_core [OF c(1)] holding_core [OF c(2)] preopen_actions_step [OF c(3)] by (simp add: same_core_def action_step_def)
  ultimately show ?thesis
    using open_decision_inv [OF c(4)] cancel_entry_inv [OF c(5)] drop_untradeable_inv [of env key p0 s5] c(6) by metis
qed

text \<open>What the run is given: the program's fee calculator, bars and sessions their constructors accept.\<close>

definition session_input_ok :: "instrument_session \<Rightarrow> bool" where
  "session_input_ok s \<longleftrightarrow> session_ok s \<and> none_or price_ok (s_upper_limit s) \<and> none_or price_ok (s_lower_limit s)"

definition env_ok :: "fee_policy \<Rightarrow> run_env \<Rightarrow> bool" where
  "env_ok policy env \<longleftrightarrow> re_quote env = calculate_fees policy \<and> (\<forall>b \<in> set (re_bars env). daily_bar_ok b) \<and>
     (\<forall>d session. re_sessions env d = Some session \<longrightarrow> session_input_ok session)"

lemma attempt_volume_ok:
  assumes "attempt_volume env k = Inr v" "env_ok policy env" "k < length (re_bars env)"
  shows "none_or (\<lambda>v. 0 \<le> v_quantity v) v"
proof -
  have "0 \<le> b_volume (bar_at env j)" if "j < length (re_bars env)" for j
    using assms(2) that by (auto simp: env_ok_def daily_bar_ok_def)
  then show ?thesis
    using assms(1,3) by (auto simp: attempt_volume_def previous_session_volume_proxy_def mk_volume_observation_def result_simps split: if_splits)
qed

lemma book_attempt_core:
  assumes "book_attempt env k i a s = Inr s'" "rs_pending s = Some i"
  shows "same_core (s\<lparr>rs_portfolio := at_portfolio a, rs_decisions := (rs_decisions s)[i := at_decision a],
    rs_ids := at_ids a, rs_traces := rs_traces s @ (case at_trace a of None \<Rightarrow> [] | Some tr \<Rightarrow> [tr]),
    rs_pending := (if at_retry a then Some i else None)\<rparr>) s'"
proof -
  define s1 where "s1 = s\<lparr>rs_portfolio := at_portfolio a, rs_decisions := (rs_decisions s)[i := at_decision a], rs_ids := at_ids a,
                rs_traces := rs_traces s @ (case at_trace a of None \<Rightarrow> [] | Some tr \<Rightarrow> [tr])\<rparr>"
  obtain s2 where s2: "(case at_fill a of None \<Rightarrow> Inr s1
      | Some f \<Rightarrow> if f_side f = BUY then book_buy env k f s1 else book_sell env f s1) = Inr s2"
    and s': "s' = (if at_retry a then s2 else s2\<lparr>rs_pending := None\<rparr>)"
    using assms(1) by (auto simp: book_attempt_def Let_def rbind_eq_Inr simp flip: s1_def)
  have "same_core s1 s2" using s2 book_buy_core book_sell_core by (auto split: option.splits if_splits)
  then show ?thesis using assms(2) by (simp add: same_core_def s1_def s')
qed

lemma attempt_step_inv:
  assumes a: "attempt_step env k session s = Some (Inr s')" and inv: "run_inv env key p0 s"
    and e: "env_ok policy env" "k < length (re_bars env)" "session_input_ok session"
  shows "run_inv env key p0 s' \<and> rs_curve s' = rs_curve s"
proof (cases "rs_pending s")
  case (Some i)
  show ?thesis
  proof (cases "due env k (rs_decisions s ! i) \<and> s_status session = TRADING")
    case True
    note r = a [unfolded attempt_step_def Some option.case Let_def, simplified True simp_thms if_True]
    obtain v where v: "attempt_volume env k = Inr v" using r by (cases "attempt_volume env k") auto
    obtain x where x: "attempt_decision (re_next_day env) (re_quote env) (re_config env) (rs_decisions s ! i) (bar_at env k) session
        (rs_portfolio s) (rs_ids s) (re_instrument env) v = Some (Inr x)" and b: "book_attempt env k i x s = Inr s'"
      using r by (auto simp: v rbind_eq_Inr)
    have q: "re_quote env = calculate_fees policy" using e(1) by (simp add: env_ok_def)
    have "market_inputs_ok (bar_at env k) session v"
      using e attempt_volume_ok [OF v e(1,2)] by (auto simp: market_inputs_ok_def env_ok_def session_input_ok_def)
    then have "portfolio_history (re_sha env) p0 (at_portfolio x)"
      using calculator.attempt_history [OF x [unfolded q]] inv by (simp add: run_inv_def)
    note new = attempt_inv [OF inv Some x this]
    show ?thesis using same_core_inv [OF book_attempt_core [OF b Some] new] book_attempt_core [OF b Some] by (simp add: same_core_def)
  next
    case False
    then have "s' = s" using a by (simp only: attempt_step_def Some option.case Let_def if_False option.inject sum.inject)
    then show ?thesis using inv by simp
  qed
qed (use a inv in \<open>simp add: attempt_step_def\<close>)

definition point_ok :: "equity_point \<Rightarrow> bool" where
  "point_ok p \<longleftrightarrow> is_ok (checks (equity_point_checks p))"

lemma point_ok_iff: "point_ok p \<longleftrightarrow> 0 < ep_equity p \<and> none_or (\<lambda>b. 0 < b) (ep_benchmark p)"
  by (cases "ep_benchmark p") (auto simp: point_ok_def equity_point_checks_def is_ok_checks)

lemma mark_equity_Inr:
  assumes "mark_equity env k s = Inr s'"
  shows "\<exists>p. s' = s\<lparr>rs_curve := rs_curve s @ [p]\<rparr> \<and> ep_session_date p = day_at env k \<and> point_ok p"
  using assms by (auto simp: mark_equity_def Let_def rbind_eq_Inr mk_equity_point_def construct_Inr point_ok_def)

lemma close_day_inv:
  assumes "close_day env k s = Inr s'" "run_inv env key p0 s"
  shows "run_inv env key p0 s' \<and> (\<exists>p. rs_curve s' = rs_curve s @ [p] \<and> ep_session_date p = day_at env k \<and> point_ok p)"
proof -
  from assms(1) obtain s1 s2 s3 where
    c: "mark_equity env k s = Inr s1" "close_actions env k (note_triggered env k s1) = Inr s2"
      "combined_exit env k s2 = Inr s3" "risk_exit env k s3 = Inr s'"
    by (auto simp: close_day_def rbind_eq_Inr)
  from mark_equity_Inr [OF c(1)] obtain p where p: "s1 = s\<lparr>rs_curve := rs_curve s @ [p]\<rparr>" "ep_session_date p = day_at env k" "point_ok p"
    by blast
  have "run_inv env key p0 s1" using p(1) assms(2) by simp
  then have "run_inv env key p0 s2" using action_step_inv [OF close_actions_step [OF c(2)]] same_core_inv [OF note_core] by blast
  then have "run_inv env key p0 s'" using same_core_inv combined_core [OF c(3)] risk_core [OF c(4)] by blast
  moreover have "rs_curve s' = rs_curve s1"
    using note_core [of s1 env k] close_actions_step [OF c(2)] combined_core [OF c(3)] risk_core [OF c(4)]
    by (simp add: same_core_def action_step_def)
  ultimately show ?thesis using p by auto
qed

lemma run_day_inv:
  assumes "run_day env k s = Some (Inr s')" "run_inv env key p0 s" "env_ok policy env" "k < length (re_bars env)"
  shows "run_inv env key p0 s' \<and> (\<exists>p. rs_curve s' = rs_curve s @ [p] \<and> ep_session_date p = day_at env k \<and> point_ok p)"
proof -
  obtain session s1 s2 where d: "re_sessions env (day_at env k) = Some session" "open_day env k session s = Inr s1"
    "attempt_step env k session s1 = Some (Inr s2)" "close_day env k s2 = Inr s'"
    using assms(1) by (auto simp: run_day_def rbind_eq_Inr split: option.splits sum.splits)
  have "session_input_ok session" using assms(3) d(1) by (simp add: env_ok_def)
  then show ?thesis
    using open_day_inv [OF d(2) assms(2)] attempt_step_inv [OF d(3) _ assms(3,4)] close_day_inv [OF d(4)] by metis
qed

text \<open>The curve: one positive point per day, dated by the bars.\<close>

definition curve_extends :: "equity_point list \<Rightarrow> date list \<Rightarrow> equity_point list \<Rightarrow> bool" where
  "curve_extends c ds c' \<longleftrightarrow> (\<exists>ps. c' = c @ ps \<and> map ep_session_date ps = ds \<and> list_all point_ok ps)"

lemma run_days_inv:
  assumes "run_days env ks s = Some (Inr s')" "run_inv env key p0 s" "env_ok policy env" "\<forall>k \<in> set ks. k < length (re_bars env)"
  shows "run_inv env key p0 s' \<and> curve_extends (rs_curve s) (map (day_at env) ks) (rs_curve s')"
  using assms
proof (induction ks arbitrary: s)
  case Nil
  then show ?case by (simp add: curve_extends_def)
next
  case (Cons k ks)
  obtain t where t: "run_day env k s = Some (Inr t)" "run_days env ks t = Some (Inr s')"
    using Cons.prems(1) by (auto split: option.splits sum.splits)
  from run_day_inv [OF t(1) Cons.prems(2,3)] Cons.prems(4) obtain p where
    p: "run_inv env key p0 t" "rs_curve t = rs_curve s @ [p]" "ep_session_date p = day_at env k" "point_ok p"
    by auto
  with Cons.IH [OF t(2) p(1)] Cons.prems(3,4) show ?case
    by (auto simp: curve_extends_def)
qed

section \<open>The whole run\<close>

definition inputs_ok :: "backtest_input \<Rightarrow> bool" where
  "inputs_ok i \<longleftrightarrow> list_all daily_bar_ok (bi_bars i) \<and> list_all session_input_ok (bi_sessions i)"

lemma first_index_less: "first_index P xs = Some k \<Longrightarrow> k < length xs"
  by (induction xs arbitrary: k) (auto split: if_splits)

abbreviation in_period :: "backtest_input \<Rightarrow> daily_bar \<Rightarrow> bool" where
  "in_period i b \<equiv> bi_start i \<le> b_session_date b \<and> b_session_date b \<le> bi_end i"

lemma drop_first_index:
  assumes "first_index (\<lambda>b. m \<le> f b \<and> f b \<le> n) xs = Some k" "sorted (map f xs)" "\<forall>x \<in> set xs. f x \<le> n"
  shows "drop k xs = filter (\<lambda>b. m \<le> f b \<and> f b \<le> n) xs"
  using assms
proof (induction xs arbitrary: k)
  case (Cons x xs)
  show ?case
  proof (cases "m \<le> f x")
    case True
    then have "\<forall>y \<in> set (x # xs). m \<le> f y \<and> f y \<le> n" using Cons.prems(2,3) by force
    then show ?thesis using True Cons.prems(1,3) by (simp add: filter_True)
  next
    case False
    then show ?thesis using Cons by auto
  qed
qed simp

lemma validate_inputs_Inr:
  assumes "validate_and_select_inputs i = Inr (bars, signal_bars, first)"
  shows "first_index (in_period i) bars = Some first" "bars = up_to_end (bi_end i) (bi_bars i)" "strictly_increasing (map b_session_date bars)" "first < length bars"
  using assms first_index_less
  by (auto simp: validate_and_select_inputs_def rbind_eq_Inr Let_def bar_checks_def checks_Inr split: option.splits)

lemma prepare_env_Inr:
  assumes "prepare_env next_day quote sha runtime i = Inr env"
  shows "first_index (in_period i) (re_bars env) = Some (re_first env)" "re_bars env = up_to_end (bi_end i) (bi_bars i)" "strictly_increasing (map b_session_date (re_bars env))"
    "re_first env < length (re_bars env)" "re_quote env = quote" "re_sha env = sha" "re_next_day env = next_day"
    "re_sessions env = session_map (bi_sessions i)"
proof -
  obtain v where v: "validate_and_select_inputs i = Inr v"
    using assms by (auto simp: prepare_env_def Let_def rbind_eq_Inr)
  obtain bars signal_bars first where b: "v = (bars, signal_bars, first)" by (cases v) auto
  note p = assms [unfolded prepare_env_def Let_def v b rbind_Inr prod.case]
  have e: "re_bars env = bars \<and> re_first env = first \<and> re_quote env = quote \<and> re_sha env = sha \<and> re_next_day env = next_day \<and>
      re_sessions env = session_map (bi_sessions i)"
    using p by (auto elim!: rbindE split: prod.splits)
  then show "first_index (in_period i) (re_bars env) = Some (re_first env)" "re_bars env = up_to_end (bi_end i) (bi_bars i)" "strictly_increasing (map b_session_date (re_bars env))"
    "re_first env < length (re_bars env)" "re_quote env = quote" "re_sha env = sha" "re_next_day env = next_day"
    "re_sessions env = session_map (bi_sessions i)"
    using validate_inputs_Inr [OF v [unfolded b]] by simp_all
qed

lemma prepare_env_ok:
  assumes "prepare_env next_day (calculate_fees policy) sha runtime i = Inr env" "inputs_ok i"
  shows "env_ok policy env"
proof -
  have "session_input_ok s" if "session_map (bi_sessions i) d = Some s" for d s
    using map_of_SomeD [OF that [unfolded session_map_def]] assms(2) by (auto simp: inputs_ok_def list_all_iff)
  then show ?thesis
    using prepare_env_Inr [OF assms(1)] assms(2) by (auto simp: env_ok_def inputs_ok_def up_to_end_def list_all_iff)
qed

lemma initial_state_Inr:
  assumes "initial_state i env = Inr s"
  shows "rs_portfolio s = cash_portfolio (of_int (bt_initial_cash_cny (bs_backtest (bi_strategy i))))"
    "run_inv env (ids_run_key (rs_ids s)) (rs_portfolio s) s"
    "curve_extends [] [day_at env (re_first env) - 1] (rs_curve s)" "rs_pending s = None"
proof -
  obtain key p where k: "mk_equity_point p = Inr p" "ep_session_date p = day_at env (re_first env) - 1"
    "s = \<lparr>rs_portfolio = cash_portfolio (of_int (bt_initial_cash_cny (bs_backtest (bi_strategy i)))), rs_decisions = [], rs_traces = [],
       rs_signals = [], rs_curve = [p], rs_trips = [], rs_pending = None, rs_entries = {}, rs_exits = {},
       rs_ids = \<lparr>ids_run_key = key, ids_decision = 0, ids_order = 0, ids_fill = 0\<rparr>,
       rs_cost = cny 0, rs_proceeds = cny 0, rs_income = cny 0, rs_trade_date = None, rs_holding_fill = None,
       rs_holding_target = None, rs_holding_emitted = False, rs_risk_fill = None, rs_risk_price = None,
       rs_risk_peak = None, rs_queued = None\<rparr>"
    using assms by (auto simp: initial_state_def Let_def rbind_eq_Inr mk_equity_point_def construct_Inr mk_portfolio_Inr
        cash_portfolio_def cny_def)
  show "rs_portfolio s = cash_portfolio (of_int (bt_initial_cash_cny (bs_backtest (bi_strategy i))))" "rs_pending s = None"
    by (simp_all add: k)
  show "run_inv env (ids_run_key (rs_ids s)) (rs_portfolio s) s"
    by (simp add: k run_inv_def decisions_ok_def orders_ok_def fills_ok_def numbered_def cash_portfolio_def portfolio_history.start)
  show "curve_extends [] [day_at env (re_first env) - 1] (rs_curve s)"
    using k(1,2) by (simp add: k(3) curve_extends_def mk_equity_point_def construct_Inr point_ok_def)
qed

definition all_settled :: "run_state \<Rightarrow> bool" where
  "all_settled s \<longleftrightarrow> (\<forall>d \<in> set (rs_decisions s). settled (sd_status d))"

lemma no_future_session_inv:
  assumes "run_inv env key p0 s"
  shows "run_inv env key p0 (no_future_session s) \<and> all_settled (no_future_session s) \<and>
    rs_curve (no_future_session s) = rs_curve s \<and> rs_traces (no_future_session s) = rs_traces s"
proof (cases "rs_pending s")
  case None
  then show ?thesis using assms
    by (auto simp: no_future_session_def all_settled_def run_inv_def decisions_ok_def in_set_conv_nth)
next
  case (Some i)
  define d where "d = (rs_decisions s ! i)\<lparr>sd_status := NO_FUTURE_SESSION,
     sd_outcome_reason := Some ''no_future_session_in_backtest_period''\<rparr>"
  have e: "no_future_session s = s\<lparr>rs_decisions := (rs_decisions s)[i := d]\<rparr>" by (simp add: no_future_session_def Some d_def)
  have ok: "decisions_ok key s" "orders_ok key s" "fills_ok key s" using assms by (simp_all add: run_inv_def)
  have d: "same_decision (rs_decisions s ! i) d" "sd_order_ids d = sd_order_ids (rs_decisions s ! i)" "settled (sd_status d)"
    by (simp_all add: d_def same_decision_def settled_def)
  have il: "i < length (rs_decisions s)" using ok(1) Some by (simp add: decisions_ok_def)
  have p: "s\<lparr>rs_decisions := ds, rs_pending := Some i\<rparr> = s\<lparr>rs_decisions := ds\<rparr>" for ds using Some by simp
  have "decisions_ok key (no_future_session s)"
    using decisions_update [OF ok(1) Some d(1), of "[]" "Some i" "rs_ids s" "rs_portfolio s"] d(2) by (simp add: e p)
  moreover have "orders_ok key (no_future_session s)"
    using ok(2) orders_kept [OF _ il d(1)] unfolding orders_ok_def by (simp add: e)
  moreover have "fills_ok key (no_future_session s)" using ok(3) unfolding fills_ok_def by (simp add: e)
  moreover have "all_settled (no_future_session s)"
    unfolding all_settled_def all_set_conv_all_nth
    using ok(1) il d(3) Some by (auto simp: e decisions_ok_def nth_list_update)
  ultimately show ?thesis using assms by (simp add: run_inv_def e)
qed

lemma end_of_run_inv:
  assumes "end_of_run env s = Inr s'" "run_inv env key p0 s"
  shows "run_inv env key p0 s' \<and> all_settled s' \<and> rs_curve s' = rs_curve s \<and> rs_traces s' = rs_traces s"
proof (cases "rs_pending s")
  case None
  let ?k = "length (re_bars env) - 1"
  let ?cutoff = "max (b_available_at (last (re_bars env))) (session_close (b_session_date (last (re_bars env))))"
  obtain e s1 where e: "consume_entry env ?k ?cutoff s = (e, s1)" by fastforce
  obtain x s2 where x: "consume_exit env ?k ?cutoff s1 = (x, s2)" by fastforce
  have s2: "run_inv env key p0 s2" "rs_pending s2 = None" "rs_curve s2 = rs_curve s" "rs_traces s2 = rs_traces s"
    using consume_shape(1) [OF e] consume_shape(2) [OF x] assms(2) None by auto
  have d: "run_inv env key p0 (no_future_session s3) \<and> all_settled (no_future_session s3) \<and>
      rs_curve (no_future_session s3) = rs_curve s \<and> rs_traces (no_future_session s3) = rs_traces s"
    if "decide env side f s2 = Inr s3" for side f s3
    using decide_inv [OF that s2(2,1)] no_future_session_inv s2(3,4) by metis
  have s2s: "all_settled s2" using no_future_session_inv [OF s2(1)] s2(2) by (simp add: no_future_session_def)
  obtain n where n: "economic_position env s = Inr n" using assms(1) None by (auto simp: end_of_run_def rbind_eq_Inr)
  define chosen where "chosen = (if n > 0 then first_available_exit [x, rs_queued s2] else None)"
  define fresh where "fresh = (if n = 0 \<or> re_accumulate env then e else None)"
  have r: "(case chosen of
      Some f \<Rightarrow> rbind (decide env SELL f s2) (\<lambda>s3. Inr (no_future_session s3))
    | None \<Rightarrow> (case fresh of Some f \<Rightarrow> rbind (decide env BUY f s2) (\<lambda>s3. Inr (no_future_session s3)) | None \<Rightarrow> Inr s2)) = Inr s'"
    using assms(1) by (simp only: end_of_run_def None n e x Let_def prod.case rbind_Inr chosen_def fresh_def simp_thms if_False)
  show ?thesis
  proof (cases chosen)
    case None
    then show ?thesis using r d s2(1,3,4) s2s by (cases fresh) (auto simp: rbind_eq_Inr)
  next
    case (Some f)
    then show ?thesis using r d by (auto simp: rbind_eq_Inr)
  qed
next
  case (Some i)
  then show ?thesis using assms no_future_session_inv [OF assms(2)] by (simp add: end_of_run_def)
qed

text \<open>What cannot fail after a buy: its cost is added up, and a solvent account has a positive equity.\<close>

lemma position_quantity_nonneg: "portfolio_ok s \<Longrightarrow> 0 \<le> position_quantity s inst"
  unfolding position_quantity_def position_quantity_of_def
  by (intro sum_list_nonneg_map) (auto dest: portfolio_ok_facts(7) simp: less_imp_le)

lemma apply_buy_parts:
  assumes "apply_buy s f d = Inr t"
  obtains gross fees cost where "gross_amount f = Inr gross" "fee_total (f_fees f) = Inr fees" "money_add gross fees = Inr cost"
    "currency cost = currency (ps_cash s)" "currency (ps_cash t) = currency (ps_cash s)"
proof -
  from assms have "currency (f_price f) = currency (ps_cash s)"
    by (auto simp: apply_buy_def require_fill_def checks_Inr rbind_eq_Inr)
  with assms that show thesis
    by (auto simp: apply_buy_def rbind_eq_Inr gross_amount_def money_mul_Inr money_add_Inr money_sub_Inr mk_portfolio_Inr split: if_splits)
qed

lemma book_buy_ok:
  assumes "apply_buy p f d = Inr p'" "re_holding env = None" "re_risk_rules env = []"
    "currency (rs_cost s) = currency (ps_cash p)" "currency_ok (currency (ps_cash p))"
  shows "is_ok (book_buy env k f s)"
  using assms(1)
proof (rule apply_buy_parts)
  fix gross fees cost
  assume "gross_amount f = Inr gross" "fee_total (f_fees f) = Inr fees" "money_add gross fees = Inr cost"
    "currency cost = currency (ps_cash p)"
  then show ?thesis using assms(2-5)
    by (simp add: book_buy_def Let_def anchor_holding_def anchor_risk_def money_add_def require_same_currency_def)
qed

lemma mark_equity_ok:
  assumes "portfolio_ok (rs_portfolio s)" "0 < amount (ps_cash (rs_portfolio s))" "ps_entitlements (rs_portfolio s) = []"
    "price_ok (b_close (bar_at env k))" "re_benchmark env (day_at env k) = None"
  shows "is_ok (mark_equity env k s)"
proof -
  have "currency_ok (currency (ps_cash (rs_portfolio s)))" using assms(1) by (simp add: portfolio_ok_def)
  then have r: "dividend_receivable (rs_portfolio s) i = Inr \<lparr>amount = 0, currency = currency (ps_cash (rs_portfolio s))\<rparr>" for i
    using assms(3) by (simp add: dividend_receivable_def dividend_receivable_of_def money_zero_def)
  have "0 \<le> amount (b_close (bar_at env k)) * of_int (position_quantity (rs_portfolio s) (re_instrument env))"
    using assms(4) position_quantity_nonneg [OF assms(1)] by (simp add: price_ok_def)
  then have "0 < dec_add (dec_add (amount (ps_cash (rs_portfolio s))) 0)
      (dec_mul (of_int (position_quantity (rs_portfolio s) (re_instrument env))) (amount (b_close (bar_at env k))))"
    using assms(2) by (simp add: dec_add_def dec_mul_def mult.commute add_pos_nonneg)
  then show ?thesis
    using assms(3,5) by (simp add: mark_equity_def Let_def r pending_share_delta_def pending_share_delta_of_def mk_equity_point_def
        construct_ok equity_point_checks_def is_ok_checks)
qed

text \<open>A returned run, taken apart.\<close>

lemma run_daily_backtestE:
  assumes "run_daily_backtest next_day (calculate_fees policy) sha runtime i = Some (Inr r)" "inputs_ok i"
  obtains env key where "prepare_env next_day (calculate_fees policy) sha runtime i = Inr env"
    "run_inv env key (cash_portfolio (of_int (bt_initial_cash_cny (bs_backtest (bi_strategy i))))) (br_state r)"
    "all_settled (br_state r)"
    "curve_extends [] ((day_at env (re_first env) - 1) # map (day_at env) [re_first env..<length (re_bars env)]) (rs_curve (br_state r))"
    "calculate_metrics (rs_curve (br_state r)) (rs_trips (br_state r)) = Inr (br_metrics r)"
proof -
  obtain env s where p: "prepare_env next_day (calculate_fees policy) sha runtime i = Inr env" and s: "initial_state i env = Inr s"
    using assms(1) by (auto simp: run_daily_backtest_def rbind_eq_Inr split: sum.splits prod.splits)
  obtain s1 s2 m where d: "run_days env [re_first env..<length (re_bars env)] s = Some (Inr s1)"
    "end_of_run env s1 = Inr s2" "calculate_metrics (rs_curve s2) (rs_trips s2) = Inr m" "br_state r = s2" "br_metrics r = m"
    using assms(1) by (auto simp: run_daily_backtest_def p s rbind_eq_Inr)
  note i = initial_state_Inr [OF s]
  have "run_inv env (ids_run_key (rs_ids s)) (rs_portfolio s) s1 \<and>
      curve_extends (rs_curve s) (map (day_at env) [re_first env..<length (re_bars env)]) (rs_curve s1)"
    using run_days_inv [OF d(1) i(2) prepare_env_ok [OF p assms(2)]] by simp
  then show thesis
    using end_of_run_inv [OF d(2)] d i(1,3)
    by (intro that [OF p, of "ids_run_key (rs_ids s)"]) (auto simp: curve_extends_def)
qed

text \<open>The bars a run trades on.\<close>

definition period_bars :: "backtest_input \<Rightarrow> daily_bar list" where
  "period_bars i = filter (in_period i) (bi_bars i)"

lemma run_bars_are_period:
  assumes "prepare_env next_day quote sha runtime i = Inr env"
  shows "map (bar_at env) [re_first env..<length (re_bars env)] = period_bars i" "drop (re_first env) (re_bars env) = period_bars i"
proof -
  note e = prepare_env_Inr [OF assms]
  have "drop (re_first env) (re_bars env) = filter (in_period i) (re_bars env)"
    using e strictly_increasing_sorted [OF e(3)] by (intro drop_first_index) (auto simp: up_to_end_def)
  also have "\<dots> = period_bars i" by (auto simp: e(2) up_to_end_def period_bars_def intro: filter_cong)
  finally show d: "drop (re_first env) (re_bars env) = period_bars i" .
  have "map (bar_at env) [re_first env..<length (re_bars env)] = drop (re_first env) (re_bars env)"
    by (rule nth_equalityI) auto
  then show "map (bar_at env) [re_first env..<length (re_bars env)] = period_bars i" by (simp only: d)
qed

lemma run_days_are_period:
  assumes "prepare_env next_day quote sha runtime i = Inr env"
  shows "map (day_at env) [re_first env..<length (re_bars env)] = map b_session_date (period_bars i)"
    "strictly_increasing (map b_session_date (period_bars i))" "period_bars i \<noteq> []"
    "day_at env (re_first env) = b_session_date (hd (period_bars i))"
proof -
  note e = prepare_env_Inr [OF assms] and d = run_bars_are_period(2) [OF assms]
  have m: "map (day_at env) [re_first env..<length (re_bars env)] = map b_session_date (drop (re_first env) (re_bars env))"
    by (rule nth_equalityI) auto
  then show "map (day_at env) [re_first env..<length (re_bars env)] = map b_session_date (period_bars i)" by (simp only: d)
  show "strictly_increasing (map b_session_date (period_bars i))"
    using e(3) unfolding strictly_increasing_iff d [symmetric] by (simp add: drop_map [symmetric] sorted_wrt_drop)
  show "period_bars i \<noteq> []" "day_at env (re_first env) = b_session_date (hd (period_bars i))"
    using e(4) unfolding d [symmetric] by (simp_all add: hd_drop_conv_nth)
qed

lemma benchmark_return_ok:
  assumes "list_all point_ok curve" "curve \<noteq> []"
  shows "is_ok (benchmark_return curve)"
proof (cases "ep_benchmark (hd curve)")
  case None
  then show ?thesis using assms(2) by (cases curve) (simp_all add: benchmark_return_def)
next
  case (Some b)
  then have "0 < b" using assms by (cases curve) (auto simp: point_ok_iff)
  then show ?thesis using assms(2) Some
    by (simp add: benchmark_return_def dec_div_pos split: option.split)
qed

lemma calculate_metrics_ok:
  assumes "list_all point_ok curve" "strictly_increasing (map ep_session_date curve)" "curve \<noteq> []"
  shows "is_ok (calculate_metrics curve trades)"
proof -
  have "positive_curve curve" using assms(1) by (auto simp: positive_curve_def point_ok_iff list_all_iff)
  then have "maximum_drawdown curve = drawdown_loop curve (ep_equity (hd curve)) 0" "0 < ep_equity (hd curve)"
    using assms(3) by (cases curve; simp add: maximum_drawdown_def positive_curve_def)+
  then obtain d where "maximum_drawdown curve = Inr d" using drawdown_loop_eq [OF _ \<open>positive_curve curve\<close>] by simp
  moreover obtain b where "benchmark_return curve = Inr b" using benchmark_return_ok [OF assms(1,3)] by (auto simp: is_ok_iff)
  moreover have "is_ok (profit_factor_of trades)" by (simp add: profit_factor_of_def Let_def dec_div_pos)
  ultimately show ?thesis using curve_checks_ok [OF assms(3,2)] by (auto simp: calculate_metrics_def is_ok_iff)
qed

section \<open>What the curve shows\<close>

text \<open>
  A point of the curve is the account at a close: cash, dividends receivable, and the shares held or still to be
  received at the closing price.  The accounts that are marked follow one another in the history of the portfolio.
\<close>

definition marked :: "string \<Rightarrow> portfolio_state \<Rightarrow> daily_bar \<Rightarrow> equity_point \<Rightarrow> bool" where
  "marked inst p bar x \<longleftrightarrow> ep_session_date x = b_session_date bar \<and>
     (\<exists>receivable. dividend_receivable p (Some inst) = Inr receivable \<and>
        ep_equity x = dec_add (dec_add (amount (ps_cash p)) (amount receivable))
          (dec_mul (of_int (position_quantity p inst + pending_share_delta p inst)) (amount (b_close bar))))"

fun marked_history ::
  "(string \<Rightarrow> string) \<Rightarrow> string \<Rightarrow> portfolio_state \<Rightarrow> daily_bar list \<Rightarrow> equity_point list \<Rightarrow> portfolio_state \<Rightarrow> bool" where
  "marked_history sha inst p [] [] q \<longleftrightarrow> portfolio_history sha p q"
| "marked_history sha inst p (bar # bars) (x # xs) q \<longleftrightarrow>
     (\<exists>held. portfolio_history sha p held \<and> marked inst held bar x \<and> marked_history sha inst held bars xs q)"
| "marked_history sha inst p _ _ q \<longleftrightarrow> False"

lemma portfolio_history_trans:
  "portfolio_history sha q r \<Longrightarrow> portfolio_history sha p q \<Longrightarrow> portfolio_history sha p r"
  by (induction rule: portfolio_history.induct) (auto intro: portfolio_history.intros)

lemma marked_history_before:
  "marked_history sha inst q bars xs r \<Longrightarrow> portfolio_history sha p q \<Longrightarrow> marked_history sha inst p bars xs r"
  by (cases "(sha, inst, q, bars, xs, r)" rule: marked_history.cases) (auto intro: portfolio_history_trans)

lemma marked_history_after:
  "marked_history sha inst p bars xs q \<Longrightarrow> portfolio_history sha q r \<Longrightarrow> marked_history sha inst p bars xs r"
  by (induction sha inst p bars xs q rule: marked_history.induct) (auto intro: portfolio_history_trans)

lemma run_inv_here: "run_inv env key p0 s \<Longrightarrow> run_inv env key (rs_portfolio s) s"
  by (simp add: run_inv_def portfolio_history.start)

lemma mark_equity_marked:
  assumes "mark_equity env k s = Inr s'"
  shows "\<exists>x. rs_curve s' = rs_curve s @ [x] \<and> rs_portfolio s' = rs_portfolio s \<and>
    marked (re_instrument env) (rs_portfolio s) (bar_at env k) x"
  using assms by (auto simp: mark_equity_def Let_def rbind_eq_Inr mk_equity_point_def construct_Inr marked_def)

lemma close_day_marked:
  assumes "close_day env k s = Inr s'" "run_inv env key p0 s"
  shows "\<exists>x. rs_curve s' = rs_curve s @ [x] \<and> marked (re_instrument env) (rs_portfolio s) (bar_at env k) x"
proof -
  from assms(1) obtain s1 s2 s3 where
    c: "mark_equity env k s = Inr s1" "close_actions env k (note_triggered env k s1) = Inr s2"
      "combined_exit env k s2 = Inr s3" "risk_exit env k s3 = Inr s'"
    by (auto simp: close_day_def rbind_eq_Inr)
  have "rs_curve s' = rs_curve s1"
    using note_core [of s1 env k] close_actions_step [OF c(2)] combined_core [OF c(3)] risk_core [OF c(4)]
    by (simp add: same_core_def action_step_def)
  then show ?thesis using mark_equity_marked [OF c(1)] by auto
qed

lemma run_day_marked:
  assumes "run_day env k s = Some (Inr s')" "run_inv env key p0 s" "env_ok policy env" "k < length (re_bars env)"
  shows "\<exists>held x. portfolio_history (re_sha env) (rs_portfolio s) held \<and> marked (re_instrument env) held (bar_at env k) x \<and>
    portfolio_history (re_sha env) held (rs_portfolio s') \<and> rs_curve s' = rs_curve s @ [x]"
proof -
  obtain session s1 s2 where d: "re_sessions env (day_at env k) = Some session" "open_day env k session s = Inr s1"
    "attempt_step env k session s1 = Some (Inr s2)" "close_day env k s2 = Inr s'"
    using assms(1) by (auto simp: run_day_def rbind_eq_Inr split: option.splits sum.splits)
  have "session_input_ok session" using assms(3) d(1) by (simp add: env_ok_def)
  then have i: "run_inv env key (rs_portfolio s) s2" "rs_curve s2 = rs_curve s"
    using open_day_inv [OF d(2) run_inv_here [OF assms(2)]] attempt_step_inv [OF d(3) _ assms(3,4)] by metis+
  then have "run_inv env key (rs_portfolio s2) s'"
    using close_day_inv [OF d(4) run_inv_here] by blast
  then show ?thesis using i close_day_marked [OF d(4) i(1)] unfolding run_inv_def by metis
qed

lemma run_days_marked:
  assumes "run_days env ks s = Some (Inr s')" "run_inv env key p0 s" "env_ok policy env" "\<forall>k \<in> set ks. k < length (re_bars env)"
  shows "\<exists>xs. rs_curve s' = rs_curve s @ xs \<and>
    marked_history (re_sha env) (re_instrument env) (rs_portfolio s) (map (bar_at env) ks) xs (rs_portfolio s')"
  using assms
proof (induction ks arbitrary: s)
  case Nil
  then show ?case by (simp add: portfolio_history.start)
next
  case (Cons k ks)
  obtain t where t: "run_day env k s = Some (Inr t)" "run_days env ks t = Some (Inr s')"
    using Cons.prems(1) by (auto split: option.splits sum.splits)
  have k: "k < length (re_bars env)" using Cons.prems(4) by simp
  obtain held x where h: "portfolio_history (re_sha env) (rs_portfolio s) held" "marked (re_instrument env) held (bar_at env k) x"
    "portfolio_history (re_sha env) held (rs_portfolio t)" "rs_curve t = rs_curve s @ [x]"
    using run_day_marked [OF t(1) Cons.prems(2,3) k] by blast
  have "run_inv env key p0 t" using run_day_inv [OF t(1) Cons.prems(2,3) k] by blast
  then obtain xs where xs: "rs_curve s' = rs_curve t @ xs"
    "marked_history (re_sha env) (re_instrument env) (rs_portfolio t) (map (bar_at env) ks) xs (rs_portfolio s')"
    using Cons.IH [OF t(2) _ Cons.prems(3)] Cons.prems(4) by auto
  then show ?case using h marked_history_before [OF xs(2) h(3)] by auto
qed

lemma prepare_env_instrument:
  assumes "prepare_env next_day quote sha runtime i = Inr env"
  shows "re_instrument env = bs_symbol (bi_strategy i)"
proof -
  obtain v where v: "validate_and_select_inputs i = Inr v"
    using assms by (auto simp: prepare_env_def Let_def rbind_eq_Inr)
  obtain bars signal_bars first where b: "v = (bars, signal_bars, first)" by (cases v) auto
  show ?thesis
    using assms [unfolded prepare_env_def Let_def v b rbind_Inr prod.case] by (auto elim!: rbindE split: prod.splits)
qed

text \<open>The whole curve of a returned run: the starting point, then the marked bars of the period.\<close>

lemma run_curve_marked:
  assumes "run_daily_backtest next_day (calculate_fees policy) sha runtime i = Some (Inr r)" "inputs_ok i"
  shows "\<exists>x xs. rs_curve (br_state r) = x # xs \<and> ep_equity x = of_int (bt_initial_cash_cny (bs_backtest (bi_strategy i))) \<and>
    marked_history sha (bs_symbol (bi_strategy i)) (cash_portfolio (of_int (bt_initial_cash_cny (bs_backtest (bi_strategy i)))))
      (period_bars i) xs (rs_portfolio (br_state r))"
proof -
  obtain env s where p: "prepare_env next_day (calculate_fees policy) sha runtime i = Inr env" and s: "initial_state i env = Inr s"
    using assms(1) by (auto simp: run_daily_backtest_def rbind_eq_Inr split: sum.splits prod.splits)
  obtain s1 where d: "run_days env [re_first env..<length (re_bars env)] s = Some (Inr s1)" "end_of_run env s1 = Inr (br_state r)"
    using assms(1) by (auto simp: run_daily_backtest_def p s rbind_eq_Inr)
  note i = initial_state_Inr [OF s] and e = prepare_env_ok [OF p assms(2)]
  obtain x where x: "rs_curve s = [x]" "ep_equity x = of_int (bt_initial_cash_cny (bs_backtest (bi_strategy i)))"
    using s by (auto simp: initial_state_def Let_def rbind_eq_Inr mk_equity_point_def construct_Inr)
  obtain xs where xs: "rs_curve s1 = x # xs"
    "marked_history sha (re_instrument env) (rs_portfolio s) (map (bar_at env) [re_first env..<length (re_bars env)]) xs (rs_portfolio s1)"
    using run_days_marked [OF d(1) i(2) e] x(1) prepare_env_Inr(6) [OF p] by auto
  have "run_inv env (ids_run_key (rs_ids s)) (rs_portfolio s) s1" using run_days_inv [OF d(1) i(2) e] by simp
  from end_of_run_inv [OF d(2) run_inv_here [OF this]]
  have "portfolio_history sha (rs_portfolio s1) (rs_portfolio (br_state r))" "rs_curve (br_state r) = rs_curve s1"
    using prepare_env_Inr(6) [OF p] by (auto simp: run_inv_def)
  then show ?thesis
    using x(2) xs(1) marked_history_after [OF xs(2)] i(1) prepare_env_instrument [OF p] run_bars_are_period [OF p] by metis
qed

end
