(* ===== verification/RunProperties.thy ===== *)
theory RunProperties
  imports BacktestRun BuyAttempt
begin

text \<open>
  The properties of a whole run of the daily backtest, and a concrete run of two sessions: a signal at
  the first close, a buy at the second open.
\<close>

section \<open>A concrete run\<close>

definition half_config :: daily_config where
  "half_config = run_config\<lparr>dc_allocation_ratio := 1 / 2\<rparr>"

definition run_fact :: signal_fact where
  "run_fact = SignalFact ''600000.SH'' (ymd 2024 4 30) ''indicator:ma'' True (combine (ymd 2024 4 30) (hm 15 0))
     (combine (ymd 2024 4 30) (hm 15 0)) ''close above average'' None None []
     [\<lparr>se_type = ''provider_indicator'', se_id = ''ma:2024-04-30'', se_available_at = combine (ymd 2024 4 30) (hm 15 0),
       se_source_event_id = None, se_provider = Some ''provider'', se_source_url = None, se_time_quality = None,
       se_timestamp_precision = None, se_validation_status = None, se_raw_response_sha256 = Some (replicate 64 (CHR ''a''))\<rparr>]"

definition run_bars :: "daily_bar list" where
  "run_bars = [buy_bar\<lparr>b_session_date := ymd 2024 4 30, b_available_at := combine (ymd 2024 4 30) (hm 15 0)\<rparr>, buy_bar]"

definition run_input :: backtest_input where
  "run_input = \<lparr>bi_run_key = ''demo'',
     bi_strategy = \<lparr>bs_symbol = ''600000.SH'', bs_entry = IndicatorCondition sample_indicator,
       bs_exit = \<lparr>xp_op = FIRST_OF, xp_children = [MarketExit (IndicatorCondition sample_indicator)]\<rparr>, bs_hybrid = False,
       bs_position_policy = ''single_position_no_pyramiding'',
       bs_backtest = \<lparr>bt_start = ymd 2024 4 1, bt_end = ymd 2024 5 6, bt_initial_cash_cny = 10000\<rparr>\<rparr>,
     bi_bars = run_bars, bi_sessions = [sized_session\<lparr>s_session_date := ymd 2024 4 30\<rparr>, sized_session],
     bi_signal_bars = None, bi_events = [], bi_financial_instruments = [],
     bi_entry_timeline = Some [Some run_fact, None], bi_exit_timeline = Some [None, None],
     bi_actions = [], bi_config = half_config, bi_benchmark_equity = [], bi_benchmark_initial = None,
     bi_benchmark_filled = None, bi_benchmark_close = [], bi_rebases = None\<rparr>"

lemma run_input_ok: "inputs_ok run_input" by code_simp

lemma run_inputs: "validate_and_select_inputs run_input = Inr (run_bars, run_bars, 0)" by code_simp
lemma run_exit: "exit_condition (bs_exit (bi_strategy run_input)) = Inr (Some (MarketExit (IndicatorCondition sample_indicator)))" by code_simp
lemma run_timelines: "select_signal_timelines runtime run_input run_bars (Some (MarketExit (IndicatorCondition sample_indicator))) =
   Inr ([Some run_fact, None], [None, None])" by code_simp
lemma run_benchmark: "validate_benchmark_equity [] None False = Inr Map.empty" by (simp add: validate_benchmark_equity_def benchmark_checks_def checks.simps(2))
lemma run_actions: "validate_corporate_actions [] run_bars 0 = Inr []" by code_simp
definition run_env :: "(date \<Rightarrow> date result) \<Rightarrow> (order_side \<Rightarrow> price \<Rightarrow> int \<Rightarrow> date \<Rightarrow> fee_breakdown result) \<Rightarrow> (string \<Rightarrow> string) \<Rightarrow> run_env" where
  "run_env next_day quote sha =
     \<lparr>re_config = half_config, re_instrument = ''600000.SH'', re_entry = IndicatorCondition sample_indicator,
      re_accumulate = False, re_end = ymd 2024 5 6, re_holding = None, re_risk_rules = [],
      re_market_rule = Some (MarketExit (IndicatorCondition sample_indicator)), re_combined = False,
      re_bars = run_bars, re_signal_bars = run_bars, re_sessions = session_map (bi_sessions run_input), re_first = 0,
      re_entry_timeline = [Some run_fact, None], re_order_timeline = [Some run_fact, None],
      re_exit_timeline = [None, None], re_market_timeline = [None, None],
      re_record_actions = actions_by_record_date [], re_ex_actions = actions_by_ex_date [],
      re_settlement_actions = actions_by_settlement [], re_benchmark = Map.empty, re_rebases = Map.empty,
      re_raw_rebased = False, re_next_day = next_day, re_quote = quote, re_sha = sha\<rparr>"
lemma run_prepared: "prepare_env next_day quote sha runtime run_input = Inr (run_env next_day quote sha)"
proof -
  have r: "checks (rebase_checks run_input ''600000.SH'') = Inr ()" by code_simp
  have f: "bs_symbol (bi_strategy run_input) = ''600000.SH''" "\<not> bs_hybrid (bi_strategy run_input)"
    "bs_position_policy (bi_strategy run_input) \<noteq> accumulate_on_new_entry"
    "holding_period_exit (bs_exit (bi_strategy run_input)) = None" "position_risk_exits (bs_exit (bi_strategy run_input)) = []"
    "bi_benchmark_equity run_input = []" "bi_benchmark_close run_input = []" "bi_benchmark_initial run_input = None" "bi_actions run_input = []"
    "bi_rebases run_input = None" "bs_entry (bi_strategy run_input) = IndicatorCondition sample_indicator" "bi_end run_input = ymd 2024 5 6"
    "bi_config run_input = half_config"
    by (simp_all add: run_input_def accumulate_on_new_entry_def holding_period_exit_def position_risk_exits_def List.map_filter_simps)
  have st: "settlement_sessions [] run_bars = Inr []" by (simp add: settlement_sessions_def)
  have rb: "rebase_map run_input = Map.empty" by (simp add: rebase_map_def f)
  show ?thesis
    by (simp add: prepare_env_def Let_def run_inputs run_exit run_timelines run_benchmark run_actions r f st rb checks.simps(2))
      (simp add: run_env_def)
qed
definition start_state where
  "start_state = \<lparr>rs_portfolio = cash_portfolio 10000, rs_decisions = [], rs_traces = [],
       rs_signals = [], rs_curve = [\<lparr>ep_session_date = ymd 2024 4 29, ep_equity = 10000, ep_benchmark = None\<rparr>], rs_trips = [], rs_pending = None, rs_entries = {}, rs_exits = {},
       rs_ids = \<lparr>ids_run_key = ''demo'', ids_decision = 0, ids_order = 0, ids_fill = 0\<rparr>,
       rs_cost = cny 0, rs_proceeds = cny 0, rs_income = cny 0, rs_trade_date = None, rs_holding_fill = None,
       rs_holding_target = None, rs_holding_emitted = False, rs_risk_fill = None, rs_risk_price = None,
       rs_risk_peak = None, rs_queued = None\<rparr>"
lemma run_started: "initial_state run_input (run_env next_day quote sha) = Inr start_state"
proof -
  have k: "safe_run_key ''demo'' = Inr ''demo''" by code_simp
  have p: "is_ok (checks (portfolio_checks (cash_portfolio 10000)))" by code_simp
  have d: "day_at (run_env next_day quote sha) 0 = ymd 2024 4 30" by (simp add: run_env_def run_bars_def)
  have d': "ymd 2024 4 30 - 1 = ymd 2024 4 29" by code_simp
  have f: "bi_run_key run_input = ''demo''" "bi_benchmark_initial run_input = None" "bt_initial_cash_cny (bs_backtest (bi_strategy run_input)) = 10000"
    by (simp_all add: run_input_def)
  have e: "re_first (run_env next_day quote sha) = 0" "re_benchmark (run_env next_day quote sha) = Map.empty" by (simp_all add: run_env_def)
  show ?thesis using p
    by (simp add: initial_state_def Let_def d d' f k e mk_portfolio_def mk_equity_point_def construct_ok equity_point_checks_def is_ok_checks checks.simps(2)
       cash_portfolio_def cny_def construct_def start_state_def is_ok_iff)
qed
definition first_day_state where
 "first_day_state = start_state\<lparr>rs_curve := rs_curve start_state @ [\<lparr>ep_session_date = ymd 2024 4 30, ep_equity = 10000, ep_benchmark = None\<rparr>],
   rs_signals := [run_fact]\<rparr>"
lemma run_first_day: "run_day (run_env next_day quote sha) 0 start_state = Some (Inr first_day_state)"
  by code_simp

text \<open>The environment with the calendar and the fee calculator of the program.\<close>

definition demo_env :: run_env where
  "demo_env = run_env (next_session buy_calendar) (calculate_fees sample_policy) (\<lambda>_. [])"

definition demo_decision :: strategy_decision where
  "demo_decision = \<lparr>sd_decision_id = ''decision:demo:000001'', sd_side = BUY, sd_signal = run_fact,
     sd_created_at = combine (ymd 2024 4 30) (hm 15 0), sd_status = PENDING_DECISION, sd_order_ids = [], sd_attempts = 0,
     sd_outcome_reason = None, sd_signal_semantics = Some STATE_ENTRY, sd_signal_validity_sessions = Some 1\<rparr>"

definition demo_ids :: id_sequence where
  "demo_ids = \<lparr>ids_run_key = ''demo'', ids_decision = 1, ids_order = 0, ids_fill = 0\<rparr>"

lemma demo_opened:
  "open_day demo_env 1 sized_session first_day_state = Inr (first_day_state\<lparr>rs_decisions := [demo_decision], rs_pending := Some 0,
     rs_entries := {0}, rs_ids := demo_ids\<rparr>)"
  by code_simp

lemma demo_ready:
  "buy_ready 2 4 sample_policy (1 / 100000) half_config demo_decision buy_bar sized_session (cash_portfolio 10000) demo_ids ''600000.SH'' None"
  "due demo_env 1 demo_decision" "attempt_volume demo_env 1 = Inr None"
  by code_simp+

lemma demo_env_fields:
  "re_sessions demo_env (ymd 2024 5 6) = Some sized_session" "day_at demo_env (Suc 0) = ymd 2024 5 6" "bar_at demo_env (Suc 0) = buy_bar"
  "re_holding demo_env = None" "re_risk_rules demo_env = []" "\<not> re_combined demo_env" "re_next_day demo_env = next_session buy_calendar"
  "re_quote demo_env = calculate_fees sample_policy" "re_config demo_env = half_config" "re_instrument demo_env = ''600000.SH''"
  "re_benchmark demo_env = Map.empty" "re_record_actions demo_env d = []" "re_settlement_actions demo_env d = []" "re_first demo_env = 0"
  "re_order_timeline demo_env = [Some run_fact, None]" "re_exit_timeline demo_env = [None, None]" "\<not> re_accumulate demo_env"
  "length (re_bars demo_env) = Suc (Suc 0)"
proof -
  show "re_sessions demo_env (ymd 2024 5 6) = Some sized_session" by code_simp
qed (simp_all add: demo_env_def run_env_def run_bars_def buy_bar_def actions_by_record_date_def actions_by_settlement_def)

lemma demo_portfolio: "portfolio_ok (cash_portfolio 10000)"
  by code_simp

text \<open>The attempt returns; whatever it fills, the account stays solvent and the day ends.\<close>

lemma demo_second_day:
  "\<exists>s. run_day demo_env 1 first_day_state = Some (Inr s) \<and> is_ok (end_of_run demo_env s) \<and> rs_traces s \<noteq> []"
proof -
  have "is_valid_buy_quantity sized_session 400"
    "pays sample_policy (1 / 100000) (cny 11) (dec_mul (amount (ps_cash (cash_portfolio 10000))) (dc_allocation_ratio half_config)) 400"
    by code_simp+
  then obtain a tr where a: "attempt_decision (next_session buy_calendar) (calculate_fees sample_policy) half_config demo_decision buy_bar
      sized_session (cash_portfolio 10000) demo_ids ''600000.SH'' None = Some (Inr a)"
    and tr: "at_trace a = Some tr" and w: "within_budget half_config (cash_portfolio 10000) (at_fill a) (at_portfolio a)"
    using buy_attempt_sends [OF demo_ready(1) buy_scenario(2,3) buy_scenario_next, of 400] by auto
  let ?P = "at_portfolio a"
  have b: "booked (next_session buy_calendar) (calculate_fees sample_policy) BUY (b_session_date buy_bar) (cash_portfolio 10000) (at_fill a) ?P"
    using attempt_booked [OF a] by (simp add: demo_decision_def)
  have h: "portfolio_history (\<lambda>_. []) (cash_portfolio 10000) ?P"
    using calculator.attempt_history [OF a buy_scenario(4) portfolio_history.start] .
  note ok = history_ok [OF h demo_portfolio]
  have half: "dec_mul (amount (ps_cash (cash_portfolio 10000))) (dc_allocation_ratio half_config) = 5000" by code_simp
  have cash: "0 < amount (ps_cash ?P)"
    using w half by (auto simp: within_budget_def cash_portfolio_def cny_def split: option.splits)
  have ent: "ps_entitlements ?P = []" "currency (ps_cash ?P) = ''CNY''"
    using b by (auto simp: booked_def cash_portfolio_def cny_def dest: apply_buy_actions elim: apply_buy_parts split: option.splits)
  define s1 where "s1 = first_day_state\<lparr>rs_decisions := [demo_decision], rs_pending := Some 0, rs_entries := {0}, rs_ids := demo_ids\<rparr>"
  have s1: "rs_portfolio s1 = cash_portfolio 10000" "rs_decisions s1 = [demo_decision]" "rs_pending s1 = Some 0" "rs_ids s1 = demo_ids"
    "currency (rs_cost s1) = ''CNY''" "rs_entries s1 = {0}" "rs_exits s1 = {}" "rs_queued s1 = None"
    by (simp_all add: s1_def first_day_state_def start_state_def cny_def)
  have "\<exists>s2. book_attempt demo_env 1 0 a s1 = Inr s2 \<and> rs_queued s2 = None"
  proof (cases "at_fill a")
    case None
    then show ?thesis using s1 by (simp add: book_attempt_def Let_def)
  next
    case (Some f)
    then obtain d where "f_side f = BUY" "apply_buy (cash_portfolio 10000) f d = Inr ?P" using b by (auto simp: booked_def)
    moreover define s where "s = s1\<lparr>rs_portfolio := ?P, rs_decisions := (rs_decisions s1)[0 := at_decision a], rs_ids := at_ids a,
        rs_traces := rs_traces s1 @ (case at_trace a of None \<Rightarrow> [] | Some tr \<Rightarrow> [tr])\<rparr>"
    ultimately obtain t where t: "book_buy demo_env 1 f s = Inr t"
      using book_buy_ok [of "cash_portfolio 10000" f d ?P demo_env s 1] demo_env_fields(4,5) s1(5)
      by (auto simp: is_ok_iff cash_portfolio_def cny_def)
    then have "rs_queued t = None" using book_buy_queued [OF t] s1(8) by (simp add: s_def)
    then show ?thesis using t Some \<open>f_side f = BUY\<close> by (simp add: book_attempt_def Let_def flip: s_def)
  qed
  then obtain s2 where s2: "book_attempt demo_env 1 0 a s1 = Inr s2" "rs_queued s2 = None" by blast
  note core = book_attempt_core [OF s2(1) s1(3), unfolded same_core_def, simplified]
  have step: "attempt_step demo_env 1 sized_session s1 = Some (Inr s2)"
    using a s2(1) demo_ready(2,3) demo_env_fields s1 by (simp add: attempt_step_def Let_def sized_session_def session_of_def sample_input_def)
  have "price_ok (b_close (bar_at demo_env 1))" by (simp add: demo_env_fields(3) buy_bar_def sample_bar_def price_ok_def money_ok_def cny_def)
  then have "is_ok (mark_equity demo_env 1 s2)"
    using core ok cash ent(1) by (intro mark_equity_ok) (simp_all add: demo_env_fields(11))
  then obtain s3 where "mark_equity demo_env 1 s2 = Inr s3" by (auto simp: is_ok_iff)
  moreover from mark_equity_Inr [OF this] obtain p where s3: "s3 = s2\<lparr>rs_curve := rs_curve s2 @ [p]\<rparr>" by blast
  ultimately have "close_day demo_env 1 s2 = Inr (note_triggered demo_env 1 s3)"
    using demo_env_fields by (simp add: close_day_def close_actions_def Let_def unsupported_action_def combined_exit_def risk_exit_def)
  then have day: "run_day demo_env 1 first_day_state = Some (Inr (note_triggered demo_env 1 s3))"
    using demo_opened [folded s1_def] step demo_env_fields by (simp add: run_day_def)
  let ?s = "note_triggered demo_env 1 s3"
  have e: "rs_portfolio ?s = ?P" "rs_entries ?s = {0}" "rs_exits ?s = {}" "rs_queued ?s = None"
    using core s1 s2(2) by (simp_all add: note_triggered_def s3)
  have n: "economic_position demo_env ?s = Inr (position_quantity ?P ''600000.SH'')"
    using position_quantity_nonneg [OF ok] ent(1) e(1) demo_env_fields
    by (simp add: economic_position_def economic_position_quantity_def Let_def pending_share_delta_def pending_share_delta_of_def not_less)
  have c: "consume_latest_available [Some run_fact, None] {0} 0 (Suc 0) t True = (None, {0})"
    "consume_latest_available [None, None] {} 0 (Suc 0) t True = (None, {})" for t
    by (simp_all add: consume_latest_available_def available_indices_def)
  have "is_ok (end_of_run demo_env ?s)"
    using n e demo_env_fields
    by (simp add: end_of_run_def consume_entry_def consume_exit_def c first_available_exit_def List.map_filter_simps)
  moreover have "rs_traces ?s \<noteq> []" using core tr by (simp add: note_triggered_def s3)
  ultimately show ?thesis using day by blast
qed

text \<open>So the run returns.\<close>

abbreviation demo_run :: "backtest_result result option" where
  "demo_run \<equiv> run_daily_backtest (next_session buy_calendar) (calculate_fees sample_policy) (\<lambda>_. [])
     (\<lambda>_. Inl AssertionError) run_input"

lemma demo_run_returns: "\<exists>r. demo_run = Some (Inr r) \<and> rs_traces (br_state r) \<noteq> []"
proof -
  note p = run_prepared [of "next_session buy_calendar" "calculate_fees sample_policy" "\<lambda>_. []" "\<lambda>_. Inl AssertionError", folded demo_env_def]
  note i = run_started [of "next_session buy_calendar" "calculate_fees sample_policy" "\<lambda>_. []", folded demo_env_def]
  note d = run_first_day [of "next_session buy_calendar" "calculate_fees sample_policy" "\<lambda>_. []", folded demo_env_def]
  obtain s t where s: "run_day demo_env (Suc 0) first_day_state = Some (Inr s)" "end_of_run demo_env s = Inr t" "rs_traces s \<noteq> []"
    using demo_second_day by (auto simp: is_ok_iff)
  have r: "run_days demo_env [re_first demo_env..<length (re_bars demo_env)] start_state = Some (Inr s)"
    using d s(1) by (simp add: demo_env_fields upt_rec)
  note inv = run_days_inv [OF r initial_state_Inr(2) [OF i] prepare_env_ok [OF p run_input_ok]]
  have "curve_extends [] ((day_at demo_env (re_first demo_env) - 1) # map (day_at demo_env) [re_first demo_env..<length (re_bars demo_env)]) (rs_curve t)"
    using inv end_of_run_inv [OF s(2)] initial_state_Inr(3) [OF i] by (auto simp: curve_extends_def)
  then have c: "map ep_session_date (rs_curve t) = (b_session_date (hd (period_bars run_input)) - 1) # map b_session_date (period_bars run_input)"
    "list_all point_ok (rs_curve t)"
    unfolding run_days_are_period(1,4) [OF p] by (auto simp: curve_extends_def)
  have "strictly_increasing (map ep_session_date (rs_curve t))" "rs_curve t \<noteq> []"
    using run_days_are_period(2,3) [OF p] c(1) by (cases "period_bars run_input"; auto)+
  then obtain m where "calculate_metrics (rs_curve t) (rs_trips t) = Inr m"
    using calculate_metrics_ok [OF c(2)] by (auto simp: is_ok_iff)
  moreover have "rs_traces t \<noteq> []" using end_of_run_inv [OF s(2) conjunct1 [OF inv]] s(3) by simp
  ultimately show ?thesis by (simp add: run_daily_backtest_def p i r s(2))
qed

section \<open>Properties\<close>

text \<open>C1: a run of the daily backtest only trades what its orders filled: its portfolio is a history of ledger
  operations that starts with the initial cash, every fill of the ledger is the fill of exactly one order of the run,
  in the order they were sent, and no order or fill identifier occurs twice.\<close>

theorem run_books_only_its_fills:
  assumes "run_daily_backtest next_day (calculate_fees policy) sha runtime i = Some (Inr r)" "inputs_ok i"
  shows "portfolio_history sha (cash_portfolio (of_int (bt_initial_cash_cny (bs_backtest (bi_strategy i))))) (rs_portfolio (br_state r)) \<and>
    concat (map (\<lambda>t. o_applied_fill_ids (ot_order t)) (rs_traces (br_state r))) = map f_fill_id (ps_fills (rs_portfolio (br_state r))) \<and>
    distinct (map f_fill_id (ps_fills (rs_portfolio (br_state r)))) \<and> distinct (map trace_id (rs_traces (br_state r)))"
  using assms
proof (rule run_daily_backtestE)
  fix env key
  assume "prepare_env next_day (calculate_fees policy) sha runtime i = Inr env"
    "run_inv env key (cash_portfolio (of_int (bt_initial_cash_cny (bs_backtest (bi_strategy i))))) (br_state r)"
  then show ?thesis
    using prepare_env_Inr(6) numbered_distinct unfolding run_inv_def fills_ok_def orders_ok_def by metis
qed

theorem run_books_only_its_fills_witness:
  "\<exists>r. demo_run = Some (Inr r) \<and> portfolio_history (\<lambda>_. []) (cash_portfolio 10000) (rs_portfolio (br_state r))"
proof -
  obtain r where r: "demo_run = Some (Inr r)" using demo_run_returns by blast
  then show ?thesis using run_books_only_its_fills [OF r run_input_ok] by (simp add: run_input_def)
qed

text \<open>C2: no look-ahead: every order of a run has a complete history, ends filled or expired, and belongs to a
  decision of the run on the same side, whose signal was available at least one second (the processing latency)
  before the order was created.\<close>

theorem run_has_no_look_ahead:
  assumes "run_daily_backtest next_day (calculate_fees policy) sha runtime i = Some (Inr r)" "inputs_ok i"
    and "t \<in> set (rs_traces (br_state r))"
  shows "order_history (ot_order t) (ot_events t) \<and> o_status (ot_order t) \<in> {FILLED, EXPIRED} \<and>
    (\<exists>d \<in> set (rs_decisions (br_state r)). o_decision_id (ot_order t) = sd_decision_id d \<and> o_side (ot_order t) = sd_side d \<and>
       sf_available_at (sd_signal d) + decision_processing_latency \<le> o_created_at (ot_order t))"
  using assms(1,2)
proof (rule run_daily_backtestE)
  fix env key
  assume "run_inv env key (cash_portfolio (of_int (bt_initial_cash_cny (bs_backtest (bi_strategy i))))) (br_state r)"
  then show ?thesis using assms(3) unfolding run_inv_def orders_ok_def order_of_decision_def by blast
qed

theorem run_has_no_look_ahead_witness:
  "\<exists>r t. demo_run = Some (Inr r) \<and> t \<in> set (rs_traces (br_state r)) \<and> o_status (ot_order t) \<in> {FILLED, EXPIRED} \<and>
     (\<exists>d \<in> set (rs_decisions (br_state r)). sf_available_at (sd_signal d) + decision_processing_latency \<le> o_created_at (ot_order t))"
proof -
  obtain r where r: "demo_run = Some (Inr r)" "rs_traces (br_state r) \<noteq> []" using demo_run_returns by blast
  then obtain t where t: "t \<in> set (rs_traces (br_state r))" by (cases "rs_traces (br_state r)") auto
  show ?thesis using run_has_no_look_ahead [OF r(1) run_input_ok t] r(1) t by blast
qed

text \<open>C3: a run settles all its decisions: at the end none is pending or waiting for a retry, their identifiers are
  distinct, and each lists exactly the orders that were sent for it, in order.\<close>

theorem run_settles_decisions:
  assumes "run_daily_backtest next_day (calculate_fees policy) sha runtime i = Some (Inr r)" "inputs_ok i"
  shows "distinct (map sd_decision_id (rs_decisions (br_state r))) \<and>
    (\<forall>d \<in> set (rs_decisions (br_state r)). sd_status d \<notin> {PENDING_DECISION, RETRYING} \<and>
       sd_order_ids d = map trace_id (filter (\<lambda>t. o_decision_id (ot_order t) = sd_decision_id d) (rs_traces (br_state r))))"
  using assms
proof (rule run_daily_backtestE)
  fix env key
  assume "run_inv env key (cash_portfolio (of_int (bt_initial_cash_cny (bs_backtest (bi_strategy i))))) (br_state r)"
    "all_settled (br_state r)"
  then show ?thesis
    using numbered_distinct unfolding run_inv_def decisions_ok_def all_settled_def settled_def orders_of_def
    by (metis insert_iff singletonD)
qed

theorem run_settles_decisions_witness:
  "\<exists>r. demo_run = Some (Inr r) \<and> (\<forall>d \<in> set (rs_decisions (br_state r)). sd_status d \<noteq> PENDING_DECISION)"
proof -
  obtain r where r: "demo_run = Some (Inr r)" using demo_run_returns by blast
  then show ?thesis using run_settles_decisions [OF r run_input_ok] by blast
qed



end
