(* ===== verification/Availability.thy ===== *)
theory Availability
  imports Calendar Text
begin

text \<open>
  The point-in-time clocks of \<open>ashare_lab/domain/time/availability.py\<close>: when a data revision was
  observed, announced, first usable, and the earliest instant at which a fact can be traded on.  This file
  checks the offsets of datetimes, so a datetime is a \<open>stamp\<close> here: its wall clock, its offset and whether it
  belongs to a named zone.  The time zone database is an argument.
\<close>

section \<open>Datetimes with their offsets\<close>

text \<open>
  \<open>st_wall\<close> is the clock reading in microseconds, counted like an instant; \<open>st_offset\<close> is \<open>utcoffset()\<close>, \<open>None\<close> when the datetime
  is naive; \<open>st_zone\<close> is the key when \<open>tzinfo\<close> is the \<open>ZoneInfo\<close> of a key (the interpreter keeps one per key), and \<open>None\<close>
  when it is a fixed offset.
\<close>

record stamp =
  st_wall :: int
  st_offset :: "int option"
  st_zone :: "string option"

definition stamp_instant :: "stamp \<Rightarrow> datetime" where
  "stamp_instant v = st_wall v - (case st_offset v of None \<Rightarrow> 0 | Some d \<Rightarrow> d)"

definition wall_date :: "int \<Rightarrow> date" where
  "wall_date w = w div microseconds_per_day"

definition wall_time :: "int \<Rightarrow> clock_time" where
  "wall_time w = w mod microseconds_per_day"

definition stamp_date :: "stamp \<Rightarrow> date" where
  "stamp_date v = wall_date (st_wall v)"

definition stamp_time :: "stamp \<Rightarrow> clock_time" where
  "stamp_time v = wall_time (st_wall v)"

text \<open>\<open><\<close> on aware datetimes: two of the same zone object are compared by their clocks, others by their instants.\<close>

definition stamp_less :: "stamp \<Rightarrow> stamp \<Rightarrow> bool" where
  "stamp_less v w \<longleftrightarrow>
     (if st_zone v = st_zone w \<and> st_zone v \<noteq> None then st_wall v < st_wall w else stamp_instant v < stamp_instant w)"

text \<open>
  A zone of the database: the offset in force at an instant (\<open>ZoneInfo.fromutc\<close>) and the offset of a clock
  reading (\<open>ZoneInfo.utcoffset\<close> with \<open>fold=0\<close>).  A key that is absent raises \<open>ZoneInfoNotFoundError\<close>.
\<close>

record time_zone =
  tz_at :: "datetime \<Rightarrow> int"
  tz_wall :: "int \<Rightarrow> int"

type_synonym time_zones = "string \<rightharpoonup> time_zone"

text \<open>\<open>value.astimezone(zone)\<close>: a value of the zone itself is returned as it is.\<close>

definition as_timezone :: "string \<Rightarrow> time_zone \<Rightarrow> stamp \<Rightarrow> stamp" where
  "as_timezone name zone v =
     (if st_zone v = Some name then v
      else let offset = tz_at zone (stamp_instant v)
           in \<lparr>st_wall = stamp_instant v + offset, st_offset = Some offset, st_zone = Some name\<rparr>)"

text \<open>The instants of the other components as the exchange's clock shows them.\<close>

definition shanghai_stamp :: "datetime \<Rightarrow> stamp" where
  "shanghai_stamp t = \<lparr>st_wall = t + shanghai_offset, st_offset = Some shanghai_offset, st_zone = Some ''Asia/Shanghai''\<rparr>"

section \<open>Availability of a revision\<close>

record availability =
  av_observed_at :: "stamp option"
  av_announced_at :: "stamp option"
  av_first_available_at :: "stamp option"
  av_signal_at :: "stamp option"
  av_execution_at :: "stamp option"
  av_retrieved_at :: "stamp option"
  av_timezone :: string
  av_source :: string
  av_revision_id :: string

definition required_text :: "string \<Rightarrow> string result" where
  "required_text s = (if blank s then Inl (DomainValidationError ''must be a non-empty string'') else Inr (strip s))"

definition validated_timezone :: "time_zones \<Rightarrow> string \<Rightarrow> (string \<times> time_zone) result" where
  "validated_timezone zones s =
     rbind (required_text s) (\<lambda>name.
       case zones name of
         None \<Rightarrow> Inl (DomainValidationError ''timezone must be a valid IANA timezone'')
       | Some zone \<Rightarrow> Inr (name, zone))"

definition datetime_in_zone_checks :: "string \<Rightarrow> time_zone \<Rightarrow> stamp \<Rightarrow> (bool \<times> py_error) list" where
  "datetime_in_zone_checks name zone v =
    [(st_offset v = None, DomainValidationError ''must be timezone-aware''),
     (st_offset v \<noteq> st_offset (as_timezone name zone v), DomainValidationError ''must use timezone'')]"

definition require_datetime_in_zone :: "string \<Rightarrow> time_zone \<Rightarrow> stamp \<Rightarrow> unit result" where
  "require_datetime_in_zone name zone v = checks (datetime_in_zone_checks name zone v)"

definition datetime_fields :: "availability \<Rightarrow> stamp option list" where
  "datetime_fields a = [av_observed_at a, av_announced_at a, av_first_available_at a, av_signal_at a, av_execution_at a, av_retrieved_at a]"

definition both :: "('a \<Rightarrow> 'b \<Rightarrow> bool) \<Rightarrow> 'a option \<Rightarrow> 'b option \<Rightarrow> bool" where
  "both P x y = opt_any (\<lambda>a. opt_any (P a) y) x"

definition availability_checks :: "availability \<Rightarrow> (bool \<times> py_error) list" where
  "availability_checks a =
    [(av_signal_at a \<noteq> None \<and> av_first_available_at a = None, DomainValidationError ''signal_at requires first_available_at''),
     (av_execution_at a \<noteq> None \<and> av_signal_at a = None, DomainValidationError ''execution_at requires signal_at''),
     (both (\<lambda>v w. stamp_less w v) (av_announced_at a) (av_first_available_at a),
      DomainValidationError ''first_available_at cannot precede announced_at''),
     (both (\<lambda>v w. stamp_less w v) (av_first_available_at a) (av_signal_at a),
      DomainValidationError ''first_available_at cannot follow signal_at''),
     (both (\<lambda>v w. stamp_less w v) (av_signal_at a) (av_execution_at a),
      DomainValidationError ''signal_at cannot follow execution_at'')]"

text \<open>The constructor strips the three texts.\<close>

definition mk_availability :: "time_zones \<Rightarrow> availability \<Rightarrow> availability result" where
  "mk_availability zones a =
     rbind (validated_timezone zones (av_timezone a)) (\<lambda>(name, zone).
     rbind (required_text (av_source a)) (\<lambda>source.
     rbind (required_text (av_revision_id a)) (\<lambda>revision.
     rbind (checks (concat (map (datetime_in_zone_checks name zone) (List.map_filter id (datetime_fields a))))) (\<lambda>_.
     rbind (checks (availability_checks a)) (\<lambda>_.
       Inr (a\<lparr>av_timezone := name, av_source := source, av_revision_id := revision\<rparr>))))))"

definition is_available_at :: "time_zones \<Rightarrow> availability \<Rightarrow> stamp \<Rightarrow> bool result" where
  "is_available_at zones a as_of =
     rbind (validated_timezone zones (av_timezone a)) (\<lambda>(name, zone).
     rbind (require_datetime_in_zone name zone as_of) (\<lambda>_.
       Inr (opt_any (\<lambda>first. \<not> stamp_less as_of first) (av_first_available_at a))))"

definition value_as_of :: "time_zones \<Rightarrow> availability \<Rightarrow> 'v option \<Rightarrow> stamp \<Rightarrow> 'v option result" where
  "value_as_of zones a v as_of =
     (if v = None then Inr None
      else rbind (is_available_at zones a as_of) (\<lambda>available. Inr (if available then v else None)))"

section \<open>Canonical representation\<close>

text \<open>
  A payload of \<open>from_dict\<close> is a dictionary with text keys; its values are null, texts or something else.
  \<open>isoformat\<close> stands for \<open>datetime.isoformat\<close> and \<open>parse_iso\<close> for \<open>datetime.fromisoformat\<close>, \<open>None\<close> when it raises.
\<close>

datatype payload_value = PNull | PText string | POther

type_synonym payload = "(string \<times> payload_value) list"

definition serialized_fields :: "string list" where
  "serialized_fields = [''observed_at'', ''announced_at'', ''first_available_at'', ''signal_at'', ''execution_at'',
     ''retrieved_at'', ''timezone'', ''source'', ''revision_id'']"

definition serialize_datetime :: "(stamp \<Rightarrow> string) \<Rightarrow> stamp option \<Rightarrow> payload_value" where
  "serialize_datetime isoformat t = (case t of None \<Rightarrow> PNull | Some t \<Rightarrow> PText (isoformat t))"

definition availability_to_dict :: "(stamp \<Rightarrow> string) \<Rightarrow> availability \<Rightarrow> payload" where
  "availability_to_dict isoformat a =
    [(''observed_at'', serialize_datetime isoformat (av_observed_at a)), (''announced_at'', serialize_datetime isoformat (av_announced_at a)),
     (''first_available_at'', serialize_datetime isoformat (av_first_available_at a)), (''signal_at'', serialize_datetime isoformat (av_signal_at a)),
     (''execution_at'', serialize_datetime isoformat (av_execution_at a)), (''retrieved_at'', serialize_datetime isoformat (av_retrieved_at a)),
     (''timezone'', PText (av_timezone a)), (''source'', PText (av_source a)), (''revision_id'', PText (av_revision_id a))]"

definition payload_text :: "payload \<Rightarrow> string \<Rightarrow> string result" where
  "payload_text p k =
     (case map_of p k of
        Some (PText s) \<Rightarrow> required_text s
      | _ \<Rightarrow> Inl (DomainValidationError ''must be a non-empty string''))"

definition parse_datetime :: "(string \<Rightarrow> stamp option) \<Rightarrow> payload \<Rightarrow> string \<Rightarrow> stamp option result" where
  "parse_datetime parse_iso p k =
     (case map_of p k of
        Some (PText s) \<Rightarrow>
          (case parse_iso s of
             None \<Rightarrow> Inl (DomainValidationError ''must be a valid ISO 8601 datetime'')
           | Some t \<Rightarrow> Inr (Some t))
      | Some POther \<Rightarrow> Inl (DomainValidationError ''must be an ISO 8601 string or null'')
      | _ \<Rightarrow> Inr None)"

definition availability_from_dict :: "time_zones \<Rightarrow> (string \<Rightarrow> stamp option) \<Rightarrow> payload \<Rightarrow> availability result" where
  "availability_from_dict zones parse_iso p =
     rbind (checks
       [(list_ex (\<lambda>k. k \<notin> set serialized_fields) (map fst p), DomainValidationError ''point-in-time payload has unexpected fields''),
        (list_ex (\<lambda>k. k \<notin> set (map fst p)) serialized_fields, DomainValidationError ''point-in-time payload is missing fields'')]) (\<lambda>_.
     rbind (payload_text p ''timezone'') (\<lambda>zone.
     rbind (payload_text p ''source'') (\<lambda>source.
     rbind (payload_text p ''revision_id'') (\<lambda>revision.
     rbind (parse_datetime parse_iso p ''observed_at'') (\<lambda>observed.
     rbind (parse_datetime parse_iso p ''announced_at'') (\<lambda>announced.
     rbind (parse_datetime parse_iso p ''first_available_at'') (\<lambda>first.
     rbind (parse_datetime parse_iso p ''signal_at'') (\<lambda>signal.
     rbind (parse_datetime parse_iso p ''execution_at'') (\<lambda>execution.
     rbind (parse_datetime parse_iso p ''retrieved_at'') (\<lambda>retrieved.
       mk_availability zones
         \<lparr>av_observed_at = observed, av_announced_at = announced, av_first_available_at = first, av_signal_at = signal,
          av_execution_at = execution, av_retrieved_at = retrieved, av_timezone = zone, av_source = source,
          av_revision_id = revision\<rparr>))))))))))"

section \<open>The earliest tradable instant\<close>

record session_schedule =
  ss_session_open :: clock_time
  ss_morning_close :: clock_time
  ss_afternoon_open :: clock_time
  ss_session_close :: clock_time
  ss_timezone :: string

definition default_schedule :: session_schedule where
  "default_schedule = \<lparr>ss_session_open = hm 9 30, ss_morning_close = hm 11 30, ss_afternoon_open = hm 13 0,
     ss_session_close = hm 15 0, ss_timezone = ''Asia/Shanghai''\<rparr>"

definition session_schedule_checks :: "session_schedule \<Rightarrow> (bool \<times> py_error) list" where
  "session_schedule_checks s =
    [(\<not> (ss_session_open s < ss_morning_close s \<and> ss_morning_close s < ss_afternoon_open s \<and>
          ss_afternoon_open s < ss_session_close s),
      DomainValidationError ''A-share session times must be strictly increasing'')]"

definition mk_session_schedule :: "time_zones \<Rightarrow> session_schedule \<Rightarrow> session_schedule result" where
  "mk_session_schedule zones s =
     rbind (validated_timezone zones (ss_timezone s)) (\<lambda>(name, _).
     rbind (checks ((name \<noteq> ''Asia/Shanghai'', DomainValidationError ''A-share schedule timezone must be Asia/Shanghai'')
              # session_schedule_checks s)) (\<lambda>_.
       Inr (s\<lparr>ss_timezone := name\<rparr>)))"

definition validated_sessions :: "date list \<Rightarrow> unit result" where
  "validated_sessions ds =
     checks [(ds = [], DomainValidationError ''sessions must be non-empty''),
             (\<not> strictly_increasing ds, DomainValidationError ''sessions must be strictly increasing'')]"

text \<open>\<open>bisect_left\<close>: the position of the first element that is not less than the wanted one.\<close>

function bisect_left_loop :: "date list \<Rightarrow> date \<Rightarrow> nat \<Rightarrow> nat \<Rightarrow> nat" where
  "bisect_left_loop xs x lo hi =
     (if lo < hi
      then let mid = (lo + hi) div 2
           in if xs ! mid < x then bisect_left_loop xs x (mid + 1) hi else bisect_left_loop xs x lo mid
      else lo)"
  by pat_completeness auto
termination by (relation "measure (\<lambda>(xs, x, lo, hi). hi - lo)") auto

declare bisect_left_loop.simps [simp del]

definition bisect_left :: "date list \<Rightarrow> date \<Rightarrow> nat" where
  "bisect_left xs x = bisect_left_loop xs x 0 (length xs)"

text \<open>\<open>datetime.combine(day, clock, tzinfo=zone)\<close>\<close>

definition wall_at :: "date \<Rightarrow> clock_time \<Rightarrow> int" where
  "wall_at day clock = day * microseconds_per_day + clock"

definition combine_in :: "string \<Rightarrow> time_zone \<Rightarrow> date \<Rightarrow> clock_time \<Rightarrow> stamp" where
  "combine_in name zone day clock =
     \<lparr>st_wall = wall_at day clock, st_offset = Some (tz_wall zone (wall_at day clock)), st_zone = Some name\<rparr>"

definition session_open_at_or_fail :: "date list \<Rightarrow> nat \<Rightarrow> session_schedule \<Rightarrow> string \<Rightarrow> time_zone \<Rightarrow> stamp result" where
  "session_open_at_or_fail sessions i s name zone =
     (if i \<ge> length sessions then Inl (DomainValidationError ''no trading session at or after'')
      else Inr (combine_in name zone (sessions ! i) (ss_session_open s)))"

definition earliest_tradable_at :: "time_zones \<Rightarrow> session_schedule \<Rightarrow> date list \<Rightarrow> stamp \<Rightarrow> stamp result" where
  "earliest_tradable_at zones s sessions available_at =
     rbind (validated_timezone zones (ss_timezone s)) (\<lambda>(name, zone).
     rbind (require_datetime_in_zone name zone available_at) (\<lambda>_.
     rbind (validated_sessions sessions) (\<lambda>_.
       let local = as_timezone name zone available_at;
           day = stamp_date local;
           clock = stamp_time local;
           i = bisect_left sessions day
       in if i = length sessions \<or> sessions ! i \<noteq> day then session_open_at_or_fail sessions i s name zone
          else if clock < ss_session_open s then Inr (combine_in name zone day (ss_session_open s))
          else if ss_session_open s \<le> clock \<and> clock < ss_morning_close s then Inr local
          else if ss_morning_close s \<le> clock \<and> clock < ss_afternoon_open s
          then Inr (combine_in name zone day (ss_afternoon_open s))
          else if ss_afternoon_open s \<le> clock \<and> clock < ss_session_close s then Inr local
          else session_open_at_or_fail sessions (i + 1) s name zone)))"

section \<open>Round trip\<close>

lemma dropWhile_idem: "dropWhile P (dropWhile P xs) = dropWhile P xs"
  by (induction xs) auto

lemma dropWhile_id: "xs = [] \<or> \<not> P (hd xs) \<Longrightarrow> dropWhile P xs = xs"
  by (cases xs) auto

lemma strip_id: "s = [] \<or> (\<not> py_space (hd s) \<and> \<not> py_space (last s)) \<Longrightarrow> strip s = s"
  by (auto simp: strip_def dropWhile_id hd_rev)

lemma strip_ends: "strip s \<noteq> [] \<Longrightarrow> \<not> py_space (hd (strip s)) \<and> \<not> py_space (last (strip s))"
proof -
  define t where "t = dropWhile py_space s"
  assume ne: "strip s \<noteq> []"
  then have r: "dropWhile py_space (rev t) \<noteq> []" by (simp add: strip_def t_def)
  have "last (strip s) = hd (dropWhile py_space (rev t))" using r by (simp add: strip_def t_def last_rev)
  then have l: "\<not> py_space (last (strip s))" using hd_dropWhile [OF r] by simp
  have "t \<noteq> []" using r by auto
  have "prefix (strip s) t"
    by (metis rev_rev_ident strip_def suffix_dropWhile suffix_to_prefix t_def)
  then have "hd (strip s) = hd t" using ne by (auto simp: prefix_def)
  then have "\<not> py_space (hd (strip s))" using hd_dropWhile [of py_space s] \<open>t \<noteq> []\<close> by (simp add: t_def)
  then show ?thesis using l by simp
qed

lemma strip_idem [simp]: "strip (strip s) = strip s"
  using strip_ends [of s] by (intro strip_id) blast

lemma required_text_idem: "required_text s = Inr t \<Longrightarrow> required_text t = Inr t"
  by (auto simp: required_text_def blank_def split: if_splits)

lemma validated_timezone_Inr:
  "validated_timezone zones s = Inr (name, zone) \<longleftrightarrow> required_text s = Inr name \<and> zones name = Some zone"
  by (auto simp: validated_timezone_def result_simps split: option.splits)

definition given_stamps :: "availability \<Rightarrow> stamp set" where
  "given_stamps a = set (List.map_filter id (datetime_fields a))"

lemma given_stamps_iff: "v \<in> given_stamps a \<longleftrightarrow> Some v \<in> set (datetime_fields a)"
  by (auto simp: given_stamps_def map_filter_def image_iff)

definition in_zone :: "string \<Rightarrow> time_zone \<Rightarrow> stamp \<Rightarrow> bool" where
  "in_zone name zone v \<longleftrightarrow> st_offset v \<noteq> None \<and> st_offset v = st_offset (as_timezone name zone v)"

lemma require_datetime_in_zone_Inr: "require_datetime_in_zone name zone v = Inr u \<longleftrightarrow> in_zone name zone v"
  by (auto simp: require_datetime_in_zone_def datetime_in_zone_checks_def result_simps in_zone_def)

lemma mk_availability_Inr:
  "mk_availability zones b = Inr a \<longleftrightarrow>
     (\<exists>name zone source revision. required_text (av_timezone b) = Inr name \<and> zones name = Some zone \<and>
        required_text (av_source b) = Inr source \<and> required_text (av_revision_id b) = Inr revision \<and>
        (\<forall>v \<in> given_stamps b. in_zone name zone v) \<and>
        checks (availability_checks b) = Inr () \<and>
        a = b\<lparr>av_timezone := name, av_source := source, av_revision_id := revision\<rparr>)"
  by (auto simp: mk_availability_def result_simps validated_timezone_Inr datetime_in_zone_checks_def given_stamps_def list_all_iff in_zone_def)

lemma updated_texts [simp]:
  "given_stamps (b\<lparr>av_timezone := name, av_source := source, av_revision_id := revision\<rparr>) = given_stamps b"
  "availability_checks (b\<lparr>av_timezone := name, av_source := source, av_revision_id := revision\<rparr>) = availability_checks b"
  by (simp_all add: given_stamps_def datetime_fields_def availability_checks_def)

lemma mk_availability_idem:
  assumes "mk_availability zones b = Inr a"
  shows "mk_availability zones a = Inr a" "required_text (av_timezone a) = Inr (av_timezone a)"
    "required_text (av_source a) = Inr (av_source a)" "required_text (av_revision_id a) = Inr (av_revision_id a)"
  using assms required_text_idem by (auto simp: mk_availability_Inr)

lemma mk_availability_aware: "mk_availability zones b = Inr a \<Longrightarrow> v \<in> given_stamps a \<Longrightarrow> st_offset v \<noteq> None"
  by (auto simp: mk_availability_Inr in_zone_def)

text \<open>What \<open>isoformat\<close> keeps of a datetime: the clock and the offset.\<close>

definition with_fixed_offset :: "stamp \<Rightarrow> stamp" where
  "with_fixed_offset v = v\<lparr>st_zone := None\<rparr>"

definition with_fixed_offsets :: "availability \<Rightarrow> availability" where
  "with_fixed_offsets a =
     a\<lparr>av_observed_at := map_option with_fixed_offset (av_observed_at a), av_announced_at := map_option with_fixed_offset (av_announced_at a),
       av_first_available_at := map_option with_fixed_offset (av_first_available_at a),
       av_signal_at := map_option with_fixed_offset (av_signal_at a), av_execution_at := map_option with_fixed_offset (av_execution_at a),
       av_retrieved_at := map_option with_fixed_offset (av_retrieved_at a)\<rparr>"

text \<open>
  No datetime lies in an hour that a clock change skips or repeats: it has the offset its zone has at its instant,
  and clocks are ordered as instants.
\<close>

definition away_from_clock_changes :: "time_zones \<Rightarrow> availability \<Rightarrow> bool" where
  "away_from_clock_changes zones a \<longleftrightarrow>
     (\<forall>v \<in> given_stamps a. case zones (av_timezone a) of None \<Rightarrow> False | Some zone \<Rightarrow> st_offset v = Some (tz_at zone (stamp_instant v))) \<and>
     (\<forall>v \<in> given_stamps a. \<forall>w \<in> given_stamps a. stamp_less v w \<longleftrightarrow> stamp_instant v < stamp_instant w)"

lemma with_fixed_offset_simps [simp]:
  "stamp_instant (with_fixed_offset v) = stamp_instant v" "st_wall (with_fixed_offset v) = st_wall v"
  "st_offset (with_fixed_offset v) = st_offset v" "st_zone (with_fixed_offset v) = None"
  "with_fixed_offset (with_fixed_offset v) = with_fixed_offset v"
  "stamp_less (with_fixed_offset v) (with_fixed_offset w) \<longleftrightarrow> stamp_instant v < stamp_instant w"
  by (simp_all add: with_fixed_offset_def stamp_instant_def stamp_less_def)

lemma given_stamps_fixed: "given_stamps (with_fixed_offsets a) = with_fixed_offset ` given_stamps a"
proof -
  have "datetime_fields (with_fixed_offsets a) = map (map_option with_fixed_offset) (datetime_fields a)"
    by (simp add: datetime_fields_def with_fixed_offsets_def)
  then show ?thesis by (force simp: given_stamps_def map_filter_def image_iff map_option_case split: option.splits)
qed

lemma fixed_offsets_idem [simp]: "with_fixed_offsets (with_fixed_offsets a) = with_fixed_offsets a"
  by (simp add: with_fixed_offsets_def option.map_comp comp_def)

lemma availability_checks_fixed:
  assumes "\<forall>v \<in> given_stamps a. \<forall>w \<in> given_stamps a. stamp_less v w \<longleftrightarrow> stamp_instant v < stamp_instant w"
  shows "availability_checks (with_fixed_offsets a) = availability_checks a"
proof -
  have "both (\<lambda>v w. stamp_less w v) (map_option with_fixed_offset x) (map_option with_fixed_offset y) =
      both (\<lambda>v w. stamp_less w v) x y" if "x \<in> set (datetime_fields a)" "y \<in> set (datetime_fields a)" for x y
    using assms that by (cases x; cases y) (simp_all add: both_def given_stamps_iff)
  then show ?thesis by (simp add: availability_checks_def with_fixed_offsets_def datetime_fields_def)
qed

lemma mk_availability_fixed:
  assumes "mk_availability zones a = Inr a" "away_from_clock_changes zones a"
  shows "mk_availability zones (with_fixed_offsets a) = Inr (with_fixed_offsets a)"
proof -
  have t: "av_timezone (with_fixed_offsets a) = av_timezone a" "av_source (with_fixed_offsets a) = av_source a"
    "av_revision_id (with_fixed_offsets a) = av_revision_id a"
    by (simp_all add: with_fixed_offsets_def)
  from mk_availability_idem [OF assms(1)] assms(1) obtain zone where
    z: "required_text (av_timezone a) = Inr (av_timezone a)" "required_text (av_source a) = Inr (av_source a)"
      "required_text (av_revision_id a) = Inr (av_revision_id a)" "zones (av_timezone a) = Some zone"
      "checks (availability_checks a) = Inr ()"
    by (auto simp: mk_availability_Inr)
  have "st_offset v = Some (tz_at zone (stamp_instant v))" if "v \<in> given_stamps a" for v
    using assms(2) that z(4) by (simp add: away_from_clock_changes_def)
  then have "\<forall>v \<in> given_stamps (with_fixed_offsets a). in_zone (av_timezone a) zone v"
    by (auto simp: given_stamps_fixed as_timezone_def Let_def in_zone_def)
  moreover have "checks (availability_checks (with_fixed_offsets a)) = Inr ()"
    using availability_checks_fixed assms(2) z(5) by (simp add: away_from_clock_changes_def)
  moreover have "with_fixed_offsets a\<lparr>av_timezone := av_timezone a, av_source := av_source a, av_revision_id := av_revision_id a\<rparr> =
      with_fixed_offsets a"
    by (simp add: with_fixed_offsets_def)
  ultimately show ?thesis
    unfolding mk_availability_Inr t using z
    by (intro exI [of _ "av_timezone a"] exI [of _ zone] exI [of _ "av_source a"] exI [of _ "av_revision_id a"] conjI) simp_all
qed

text \<open>Whatever the clocks, reading back constructs the record with fixed offsets.\<close>

lemma from_dict_to_dict:
  assumes isoformat: "\<And>v. st_offset v \<noteq> None \<Longrightarrow> parse_iso (isoformat v) = Some (with_fixed_offset v)"
    and a: "mk_availability zones a = Inr a"
  shows "availability_from_dict zones parse_iso (availability_to_dict isoformat a) = mk_availability zones (with_fixed_offsets a)"
proof -
  let ?p = "availability_to_dict isoformat a"
  have o: "st_offset v \<noteq> None" if "Some v \<in> set (datetime_fields a)" for v
    using mk_availability_aware [OF a] that by (simp add: given_stamps_iff)
  have t: "parse_datetime parse_iso ?p ''observed_at'' = Inr (map_option with_fixed_offset (av_observed_at a))"
    "parse_datetime parse_iso ?p ''announced_at'' = Inr (map_option with_fixed_offset (av_announced_at a))"
    "parse_datetime parse_iso ?p ''first_available_at'' = Inr (map_option with_fixed_offset (av_first_available_at a))"
    "parse_datetime parse_iso ?p ''signal_at'' = Inr (map_option with_fixed_offset (av_signal_at a))"
    "parse_datetime parse_iso ?p ''execution_at'' = Inr (map_option with_fixed_offset (av_execution_at a))"
    "parse_datetime parse_iso ?p ''retrieved_at'' = Inr (map_option with_fixed_offset (av_retrieved_at a))"
    using o by (simp_all add: parse_datetime_def availability_to_dict_def serialize_datetime_def isoformat datetime_fields_def
        split: option.splits)
  have x: "payload_text ?p ''timezone'' = Inr (av_timezone a)" "payload_text ?p ''source'' = Inr (av_source a)"
    "payload_text ?p ''revision_id'' = Inr (av_revision_id a)"
    using mk_availability_idem [OF a] by (simp_all add: payload_text_def availability_to_dict_def)
  have f: "map fst ?p = serialized_fields" by (simp add: availability_to_dict_def serialized_fields_def)
  show ?thesis unfolding availability_from_dict_def t x f by (cases a) (simp add: checks.simps list_ex_iff with_fixed_offsets_def)
qed

text \<open>C26: serialising the availability of a revision loses nothing but the name of the time zone object: whatever the
  constructor accepts, its texts normalised, is read back from its dictionary with the same clocks, offsets and texts,
  and what was read back once is read back unchanged; for any printing of aware datetimes whose parser restores
  clock and offset, and datetimes outside the hours that a clock change of the zone skips or repeats.\<close>

theorem availability_round_trip:
  assumes isoformat: "\<And>v. st_offset v \<noteq> None \<Longrightarrow> parse_iso (isoformat v) = Some (with_fixed_offset v)"
    and a: "mk_availability zones b = Inr a" and clocks: "away_from_clock_changes zones a"
  shows "availability_from_dict zones parse_iso (availability_to_dict isoformat a) = Inr (with_fixed_offsets a) \<and>
    availability_from_dict zones parse_iso (availability_to_dict isoformat (with_fixed_offsets a)) = Inr (with_fixed_offsets a)"
  using from_dict_to_dict [of parse_iso isoformat zones a] from_dict_to_dict [of parse_iso isoformat zones "with_fixed_offsets a"]
    mk_availability_fixed [OF mk_availability_idem(1) [OF a] clocks] mk_availability_idem(1) [OF a] isoformat by simp

definition sample_isoformat :: "stamp \<Rightarrow> string" where
  "sample_isoformat v = show_int (st_wall v) @ '' '' @ show_int (case st_offset v of None \<Rightarrow> 0 | Some d \<Rightarrow> d)"

definition read_int :: "string \<Rightarrow> int" where
  "read_int s = (if starts_with ''-'' s then - read_nat (tl s) else read_nat s)"

definition sample_parse_iso :: "string \<Rightarrow> stamp option" where
  "sample_parse_iso s =
     Some \<lparr>st_wall = read_int (takeWhile (\<lambda>c. c \<noteq> CHR '' '') s),
       st_offset = Some (read_int (tl (dropWhile (\<lambda>c. c \<noteq> CHR '' '') s))), st_zone = None\<rparr>"

lemma read_show_int: "read_int (show_int t) = t"
proof (cases "t < 0")
  case True
  then show ?thesis by (simp add: read_int_def show_int_def starts_with_def read_show_nat)
next
  case False
  then obtain c cs where "show_nat t = c # cs" "is_digit c"
    using show_nat_nonempty [of t] show_nat_digits [of t] by (cases "show_nat t") auto
  moreover have "\<not> is_digit (CHR ''-'')" by (simp add: is_digit_def)
  ultimately show ?thesis using False read_show_nat [of t]
    by (auto simp: read_int_def show_int_def starts_with_def)
qed

lemma show_int_no_space: "c \<in> set (show_int t) \<Longrightarrow> c \<noteq> CHR '' ''"
proof -
  have "\<not> is_digit (CHR '' '')" by (simp add: is_digit_def)
  then show "c \<in> set (show_int t) \<Longrightarrow> c \<noteq> CHR '' ''"
    using show_nat_digits [of t] show_nat_digits [of "- t"] by (auto simp: show_int_def list_all_iff split: if_splits)
qed

lemma sample_parse_isoformat: "st_offset v \<noteq> None \<Longrightarrow> sample_parse_iso (sample_isoformat v) = Some (with_fixed_offset v)"
  using show_int_no_space
  by (auto simp: sample_parse_iso_def sample_isoformat_def with_fixed_offset_def read_show_int takeWhile_append2 dropWhile_append2)

text \<open>\<open>Asia/Shanghai\<close> with its summer time of 1988, from two o'clock on 17 April to two o'clock on 11 September.\<close>

definition sample_shanghai :: time_zone where
  "sample_shanghai =
     \<lparr>tz_at = (\<lambda>t. if combine (ymd 1988 4 17) (hm 2 0) \<le> t \<and> t < combine (ymd 1988 9 11) (hm 1 0) then seconds (9 * 3600) else seconds (8 * 3600)),
      tz_wall = (\<lambda>w. if wall_at (ymd 1988 4 17) (hm 3 0) \<le> w \<and> w < wall_at (ymd 1988 9 11) (hm 2 0) then seconds (9 * 3600) else seconds (8 * 3600))\<rparr>"

definition sample_zones :: time_zones where
  "sample_zones = [''Asia/Shanghai'' \<mapsto> sample_shanghai]"

definition sample_availability :: availability where
  "sample_availability = \<lparr>av_observed_at = Some (combine_in ''Asia/Shanghai'' sample_shanghai (ymd 2025 1 2) (hm 15 0)),
     av_announced_at = Some (combine_in ''Asia/Shanghai'' sample_shanghai (ymd 2025 1 2) (hm 18 0)),
     av_first_available_at = Some (with_fixed_offset (combine_in ''Asia/Shanghai'' sample_shanghai (ymd 2025 1 3) (hm 9 0))),
     av_signal_at = None, av_execution_at = None, av_retrieved_at = None, av_timezone = '' Asia/Shanghai'',
     av_source = ''vendor '', av_revision_id = ''r1''\<rparr>"

theorem availability_round_trip_witness:
  "\<exists>a. mk_availability sample_zones sample_availability = Inr a \<and> av_source a = ''vendor'' \<and>
     availability_from_dict sample_zones sample_parse_iso (availability_to_dict sample_isoformat a) = Inr (with_fixed_offsets a)"
proof -
  have "case mk_availability sample_zones sample_availability of Inl _ \<Rightarrow> False
    | Inr a \<Rightarrow> av_source a = ''vendor'' \<and> away_from_clock_changes sample_zones a"
    by code_simp
  then obtain a where a: "mk_availability sample_zones sample_availability = Inr a" "av_source a = ''vendor''"
      "away_from_clock_changes sample_zones a"
    by (auto split: sum.splits)
  then show ?thesis using availability_round_trip [OF sample_parse_isoformat a(1,3)] by blast
qed

text \<open>
  Within such an hour the round trip fails: the constructor compares a datetime of the zone with itself and
  accepts half past two on the morning on which the clocks jump from two to three, but what is printed has
  another offset than the zone has at that instant.
\<close>

lemma skipped_hour_is_not_read_back:
  "case mk_availability sample_zones (sample_availability\<lparr>av_announced_at := None,
       av_observed_at := Some (combine_in ''Asia/Shanghai'' sample_shanghai (ymd 1988 4 17) (hm 2 30))\<rparr>) of
     Inl _ \<Rightarrow> False
   | Inr a \<Rightarrow> availability_from_dict sample_zones sample_parse_iso (availability_to_dict sample_isoformat a) =
       Inl (DomainValidationError ''must use timezone'')"
  by code_simp

section \<open>Exactness of the earliest tradable instant\<close>

text \<open>On dates, the left bisection at \<open>x\<close> is the right one at \<open>x - 1\<close>.\<close>

lemma bisect_left_right: "bisect_left xs x = bisect_right xs (x - 1)"
proof -
  have "bisect_left_loop xs x lo hi = bisect_loop xs (x - 1) lo hi" for lo hi
  proof (induction xs x lo hi rule: bisect_left_loop.induct)
    case (1 xs x lo hi)
    show ?case
    proof (cases "lo < hi")
      case True
      then show ?thesis
        using "1.IH"(1) [OF True refl] "1.IH"(2) [OF True refl]
        by (subst bisect_left_loop.simps, subst bisect_loop.simps) (auto simp: Let_def not_less)
    next
      case False
      then show ?thesis by (simp add: bisect_left_loop.simps [of xs x lo hi] bisect_loop.simps [of xs "x - 1" lo hi])
    qed
  qed
  then show ?thesis by (simp add: bisect_left_def bisect_right_def)
qed

text \<open>Clock readings.\<close>

lemma wall_simps [simp]:
  "clock_ok c \<Longrightarrow> wall_date (wall_at d c) = d" "clock_ok c \<Longrightarrow> wall_time (wall_at d c) = c"
  "wall_at (wall_date w) (wall_time w) = w" "clock_ok (wall_time w)" "wall_at d c \<le> wall_at d c' \<longleftrightarrow> c \<le> c'"
  by (simp_all add: wall_date_def wall_time_def wall_at_def clock_ok_def microseconds_per_day_def)

lemma wall_less_day: "wall_date u < wall_date t \<Longrightarrow> u < t"
  unfolding wall_date_def by (metis less_le_not_le linorder_le_less_linear zdiv_mono1 microseconds_per_day_def zero_less_numeral)

lemma wall_le_cases:
  "t \<le> u \<longleftrightarrow> wall_date t < wall_date u \<or> (wall_date t = wall_date u \<and> wall_time t \<le> wall_time u)"
proof (cases "wall_date t = wall_date u")
  case True
  then show ?thesis by (metis wall_simps(3,5) order_less_irrefl)
next
  case False
  then show ?thesis using wall_less_day [of t u] wall_less_day [of u t] by linarith
qed

text \<open>The readings of the exchange's clock during continuous trading.\<close>

definition trading_clock :: "session_schedule \<Rightarrow> clock_time \<Rightarrow> bool" where
  "trading_clock s c \<longleftrightarrow>
     (ss_session_open s \<le> c \<and> c < ss_morning_close s) \<or> (ss_afternoon_open s \<le> c \<and> c < ss_session_close s)"

definition trading_wall :: "session_schedule \<Rightarrow> date list \<Rightarrow> int \<Rightarrow> bool" where
  "trading_wall s sessions w \<longleftrightarrow> wall_date w \<in> set sessions \<and> trading_clock s (wall_time w)"

definition schedule_ok :: "session_schedule \<Rightarrow> bool" where
  "schedule_ok s \<longleftrightarrow> is_ok (checks (session_schedule_checks s)) \<and> clock_ok (ss_session_open s) \<and> clock_ok (ss_session_close s) \<and>
     ss_timezone s = ''Asia/Shanghai''"

lemma schedule_order: "schedule_ok s \<Longrightarrow> ss_session_open s < ss_morning_close s \<and> ss_morning_close s < ss_afternoon_open s \<and>
    ss_afternoon_open s < ss_session_close s \<and> clock_ok (ss_session_open s) \<and> clock_ok (ss_afternoon_open s)"
  by (auto simp: schedule_ok_def session_schedule_checks_def result_simps clock_ok_def)

text \<open>The least trading reading that is not before \<open>t\<close>, or none.\<close>

abbreviation first_reading :: "session_schedule \<Rightarrow> date list \<Rightarrow> int \<Rightarrow> stamp result \<Rightarrow> bool" where
  "first_reading s sessions t R \<equiv>
    (case R of
      Inr r \<Rightarrow> trading_wall s sessions (st_wall r) \<and> t \<le> st_wall r \<and>
        (\<forall>u. trading_wall s sessions u \<longrightarrow> t \<le> u \<longrightarrow> st_wall r \<le> u)
    | Inl e \<Rightarrow> \<forall>u. trading_wall s sessions u \<longrightarrow> u < t)"

text \<open>What \<open>earliest_tradable_at\<close> does with the local time once its checks have passed.\<close>

definition tradable_from :: "string \<Rightarrow> time_zone \<Rightarrow> session_schedule \<Rightarrow> date list \<Rightarrow> stamp \<Rightarrow> stamp result" where
  "tradable_from name zone s sessions v =
     (let i = bisect_left sessions (stamp_date v)
      in if i = length sessions \<or> sessions ! i \<noteq> stamp_date v then session_open_at_or_fail sessions i s name zone
         else if stamp_time v < ss_session_open s then Inr (combine_in name zone (stamp_date v) (ss_session_open s))
         else if ss_session_open s \<le> stamp_time v \<and> stamp_time v < ss_morning_close s then Inr v
         else if ss_morning_close s \<le> stamp_time v \<and> stamp_time v < ss_afternoon_open s
         then Inr (combine_in name zone (stamp_date v) (ss_afternoon_open s))
         else if ss_afternoon_open s \<le> stamp_time v \<and> stamp_time v < ss_session_close s then Inr v
         else session_open_at_or_fail sessions (i + 1) s name zone)"

lemma combine_in_wall [simp]: "st_wall (combine_in name zone d c) = wall_at d c"
  by (simp add: combine_in_def)

lemma session_open_exact:
  assumes s: "schedule_ok s" and sorted: "sorted sessions"
    and low: "\<And>j. j < i \<Longrightarrow> j < length sessions \<Longrightarrow> \<forall>u. wall_date u = sessions ! j \<longrightarrow> trading_clock s (wall_time u) \<longrightarrow> u < t"
    and high: "\<And>j. i \<le> j \<Longrightarrow> j < length sessions \<Longrightarrow> wall_date t < sessions ! j"
  shows "first_reading s sessions t (session_open_at_or_fail sessions i s name zone)"
proof (cases "i < length sessions")
  case True
  have "trading_wall s sessions (wall_at (sessions ! i) (ss_session_open s))"
    using True schedule_order [OF s] by (simp add: trading_wall_def trading_clock_def)
  moreover have "t \<le> wall_at (sessions ! i) (ss_session_open s)"
    using high [of i] True schedule_order [OF s] wall_le_cases [of t "wall_at (sessions ! i) (ss_session_open s)"] by simp
  moreover have "wall_at (sessions ! i) (ss_session_open s) \<le> u" if u: "trading_wall s sessions u" "t \<le> u" for u
  proof -
    obtain j where j: "j < length sessions" "wall_date u = sessions ! j"
      using u(1) by (auto simp: trading_wall_def in_set_conv_nth)
    have "i \<le> j" using low [of j] j u by (auto simp: trading_wall_def not_less [symmetric])
    then have "sessions ! i \<le> wall_date u" using sorted_nth_mono [OF sorted _ j(1), of i] j(2) by simp
    moreover have "ss_session_open s \<le> wall_time u"
      using u(1) schedule_order [OF s] by (auto simp: trading_wall_def trading_clock_def)
    ultimately show ?thesis using schedule_order [OF s] wall_le_cases [of "wall_at (sessions ! i) (ss_session_open s)" u] by auto
  qed
  ultimately show ?thesis using True by (simp add: session_open_at_or_fail_def)
next
  case False
  have "u < t" if "trading_wall s sessions u" for u
    using low that False by (auto simp: trading_wall_def in_set_conv_nth)
  then show ?thesis using False by (simp add: session_open_at_or_fail_def)
qed

text \<open>A day that is a session: the answer lies on that day unless its close has passed.\<close>

lemma same_day_exact:
  assumes s: "schedule_ok s" and "wall_date t \<in> set sessions" "c = wall_time t \<and> trading_clock s c \<or>
      (c = ss_session_open s \<and> wall_time t < c) \<or> (c = ss_afternoon_open s \<and> wall_time t < c \<and> ss_morning_close s \<le> wall_time t)"
  shows "trading_wall s sessions (wall_at (wall_date t) c) \<and> t \<le> wall_at (wall_date t) c \<and>
    (\<forall>u. trading_wall s sessions u \<longrightarrow> t \<le> u \<longrightarrow> wall_at (wall_date t) c \<le> u)"
proof -
  have c: "clock_ok c" "trading_clock s c" "wall_time t \<le> c"
    using assms(3) schedule_order [OF s] by (auto simp: trading_clock_def)
  have "c \<le> wall_time u" if "trading_clock s (wall_time u)" "wall_time t \<le> wall_time u" for u
    using that assms(3) schedule_order [OF s] by (auto simp: trading_clock_def)
  then have "wall_at (wall_date t) c \<le> u" if "trading_wall s sessions u" "t \<le> u" for u
    using that c(1) wall_le_cases [of t u] wall_le_cases [of "wall_at (wall_date t) c" u] by (auto simp: trading_wall_def)
  then show ?thesis
    using c assms(2) wall_le_cases [of t "wall_at (wall_date t) c"] by (simp add: trading_wall_def)
qed

lemma session_position:
  assumes "strictly_increasing sessions" and "i = bisect_left sessions day"
  shows "i \<le> length sessions" "\<And>j. j < i \<Longrightarrow> sessions ! j < day" "\<And>j. i \<le> j \<Longrightarrow> j < length sessions \<Longrightarrow> day \<le> sessions ! j"
  using bisect_right_split [OF strictly_increasing_sorted [OF assms(1)], where x = "day - 1"] assms(2)
  by (force simp: bisect_left_right)+

lemma open_session_exact:
  assumes s: "schedule_ok s" and sorted: "strictly_increasing sessions" and t: "t = st_wall v"
    and i: "i = bisect_left sessions (wall_date t)" "i < length sessions" "sessions ! i = wall_date t"
    and early: "wall_time t < ss_session_close s"
  shows "first_reading s sessions t (tradable_from name zone s sessions v)"
proof -
  define c where "c = (if wall_time t < ss_session_open s then ss_session_open s
    else if ss_morning_close s \<le> wall_time t \<and> wall_time t < ss_afternoon_open s then ss_afternoon_open s
    else wall_time t)"
  have "\<exists>r. tradable_from name zone s sessions v = Inr r \<and> st_wall r = wall_at (wall_date t) c"
    using i early schedule_order [OF s] by (auto simp: tradable_from_def Let_def c_def stamp_date_def stamp_time_def t)
  moreover have "c = wall_time t \<and> trading_clock s c \<or> (c = ss_session_open s \<and> wall_time t < c) \<or>
      (c = ss_afternoon_open s \<and> wall_time t < c \<and> ss_morning_close s \<le> wall_time t)"
    using early by (auto simp: c_def trading_clock_def)
  ultimately show ?thesis using same_day_exact [OF s, of t sessions c] i(2,3) nth_mem [of i sessions] by auto
qed

lemma closed_session_exact:
  assumes s: "schedule_ok s" and sorted: "strictly_increasing sessions" and t: "t = st_wall v"
    and i: "i = bisect_left sessions (wall_date t)" "i < length sessions" "sessions ! i = wall_date t"
    and late: "\<not> wall_time t < ss_session_close s"
  shows "first_reading s sessions t (tradable_from name zone s sessions v)"
proof -
  have "u < t" if "wall_date u = wall_date t" "trading_clock s (wall_time u)" for u
    using that late schedule_order [OF s] wall_le_cases [of t u] by (auto simp: trading_clock_def not_less [symmetric])
  then have low: "\<forall>u. wall_date u = sessions ! j \<longrightarrow> trading_clock s (wall_time u) \<longrightarrow> u < t"
    if "j < i + 1" "j < length sessions" for j
    using that i(3) wall_less_day session_position(2) [OF sorted i(1), of j] by (cases "j = i") auto
  have high: "wall_date t < sessions ! j" if "i + 1 \<le> j" "j < length sessions" for j
    using sorted i(2,3) that sorted_wrt_nth_less [of "(<)" sessions i j] by (simp add: strictly_increasing_iff)
  have "tradable_from name zone s sessions v = session_open_at_or_fail sessions (i + 1) s name zone"
    using late i schedule_order [OF s] by (auto simp: tradable_from_def Let_def stamp_date_def stamp_time_def t)
  then show ?thesis using session_open_exact [OF s strictly_increasing_sorted [OF sorted] low high] by simp
qed

lemma no_session_exact:
  assumes s: "schedule_ok s" and sorted: "strictly_increasing sessions" and t: "t = st_wall v"
    and i: "i = bisect_left sessions (wall_date t)" "i = length sessions \<or> sessions ! i \<noteq> wall_date t"
  shows "first_reading s sessions t (tradable_from name zone s sessions v)"
proof -
  note position = session_position [OF sorted i(1)]
  have high: "wall_date t < sessions ! j" if j: "i \<le> j" "j < length sessions" for j
  proof -
    have "wall_date t < sessions ! i" using i(2) position(3) [of i] j by force
    then show ?thesis using sorted_nth_mono [OF strictly_increasing_sorted [OF sorted] j] by simp
  qed
  have low: "\<forall>u. wall_date u = sessions ! j \<longrightarrow> trading_clock s (wall_time u) \<longrightarrow> u < t" if "j < i" for j
    using wall_less_day position(2) [OF that] by simp
  have "tradable_from name zone s sessions v = session_open_at_or_fail sessions i s name zone"
    using i by (auto simp: tradable_from_def Let_def stamp_date_def stamp_time_def t)
  then show ?thesis using session_open_exact [OF s strictly_increasing_sorted [OF sorted] low high] by simp
qed

lemma tradable_from_exact:
  assumes s: "schedule_ok s" and sorted: "strictly_increasing sessions"
  shows "first_reading s sessions (st_wall v) (tradable_from name zone s sessions v)"
proof -
  let ?i = "bisect_left sessions (wall_date (st_wall v))"
  have "?i \<le> length sessions" by (rule session_position(1) [OF sorted refl])
  then consider "?i = length sessions \<or> sessions ! ?i \<noteq> wall_date (st_wall v)"
    | "?i < length sessions" "sessions ! ?i = wall_date (st_wall v)" "wall_time (st_wall v) < ss_session_close s"
    | "?i < length sessions" "sessions ! ?i = wall_date (st_wall v)" "\<not> wall_time (st_wall v) < ss_session_close s" by fastforce
  then show ?thesis
    by cases (rule no_session_exact [OF assms refl refl] open_session_exact [OF assms refl refl]
        closed_session_exact [OF assms refl refl]; assumption)+
qed

lemma tradable_now:
  assumes s: "schedule_ok s" and sorted: "strictly_increasing sessions" and now: "trading_wall s sessions (st_wall v)"
  shows "tradable_from name zone s sessions v = Inr v"
proof -
  let ?day = "wall_date (st_wall v)"
  define i where "i = bisect_left sessions ?day"
  note position = session_position [OF sorted i_def]
  obtain j where j: "j < length sessions" "sessions ! j = ?day" using now by (auto simp: trading_wall_def in_set_conv_nth)
  then have "i \<le> j" using position(2) [of j] by (metis not_less order_less_irrefl)
  then have "i < length sessions" "sessions ! i = ?day"
    using j position(3) [of i] sorted_nth_mono [OF strictly_increasing_sorted [OF sorted], of i j] by auto
  moreover have "trading_clock s (wall_time (st_wall v))" using now by (simp add: trading_wall_def)
  moreover have "tradable_from name zone s sessions v = (let clock = wall_time (st_wall v) in
      if clock < ss_session_open s then Inr (combine_in name zone ?day (ss_session_open s))
      else if ss_session_open s \<le> clock \<and> clock < ss_morning_close s then Inr v
      else if ss_morning_close s \<le> clock \<and> clock < ss_afternoon_open s then Inr (combine_in name zone ?day (ss_afternoon_open s))
      else if ss_afternoon_open s \<le> clock \<and> clock < ss_session_close s then Inr v
      else session_open_at_or_fail sessions (i + 1) s name zone)"
    using calculation(1,2) by (simp add: tradable_from_def Let_def stamp_date_def stamp_time_def i_def)
  ultimately show ?thesis using schedule_order [OF s] by (auto simp: trading_clock_def Let_def)
qed

text \<open>The answer is the local time itself or a combined reading.\<close>

lemma tradable_from_cases:
  assumes "tradable_from name zone s sessions v = Inr r"
  shows "r = v \<or> (\<exists>d c. r = combine_in name zone d c)"
  using assms by (auto simp: tradable_from_def Let_def session_open_at_or_fail_def split: if_splits)

lemma as_timezone_in_zone:
  assumes "in_zone name zone v"
  shows "st_wall (as_timezone name zone v) = st_wall v" "st_offset (as_timezone name zone v) = st_offset v"
    "st_zone (as_timezone name zone v) = Some name"
proof -
  have "st_wall (as_timezone name zone v) = st_wall v \<and> st_offset (as_timezone name zone v) = st_offset v \<and>
      st_zone (as_timezone name zone v) = Some name"
  proof (cases "st_zone v = Some name")
    case False
    then have o: "st_offset v = Some (tz_at zone (stamp_instant v))" using assms by (simp add: in_zone_def as_timezone_def Let_def)
    have "stamp_instant v + d = st_wall v" if "st_offset v = Some d" for d using that by (simp add: stamp_instant_def)
    from this [OF o] show ?thesis using False o by (simp add: as_timezone_def Let_def)
  qed (simp add: as_timezone_def)
  then show "st_wall (as_timezone name zone v) = st_wall v" "st_offset (as_timezone name zone v) = st_offset v"
    "st_zone (as_timezone name zone v) = Some name" by simp_all
qed

lemma earliest_tradable_at_eq:
  assumes "schedule_ok s" "sessions \<noteq> []" "strictly_increasing sessions" "zones ''Asia/Shanghai'' = Some zone"
  shows "earliest_tradable_at zones s sessions t =
    rbind (require_datetime_in_zone ''Asia/Shanghai'' zone t) (\<lambda>_.
      tradable_from ''Asia/Shanghai'' zone s sessions (as_timezone ''Asia/Shanghai'' zone t))"
proof -
  have z: "ss_timezone s = ''Asia/Shanghai''" using assms(1) by (simp add: schedule_ok_def)
  have "required_text ''Asia/Shanghai'' = Inr ''Asia/Shanghai''" by code_simp
  then have "validated_timezone zones (ss_timezone s) = Inr (''Asia/Shanghai'', zone)"
    using assms(4) by (simp add: z validated_timezone_Inr)
  moreover have "validated_sessions sessions = Inr ()" using assms(2,3) by (simp add: validated_sessions_def result_simps checks.simps)
  ultimately show ?thesis by (simp add: earliest_tradable_at_def tradable_from_def Let_def)
qed

text \<open>C25: the earliest tradable instant is exact: for a valid schedule and increasing sessions, \<open>earliest_tradable_at\<close> accepts
  exactly the aware datetimes that belong to the time zone Asia/Shanghai or have the offset that zone has at their
  instant; for those it returns, in that zone, the least clock reading of continuous trading on a session that is not
  before the given one, the given time itself when it is one, and it raises only when no session offers one.\<close>

theorem earliest_tradable_exact:
  assumes "schedule_ok s" "sessions \<noteq> []" "strictly_increasing sessions" "zones ''Asia/Shanghai'' = Some zone"
  shows "case earliest_tradable_at zones s sessions t of
      Inr r \<Rightarrow>
        (st_offset t \<noteq> None \<and> (st_zone t = Some ''Asia/Shanghai'' \<or> st_offset t = Some (tz_at zone (stamp_instant t)))) \<and>
        trading_wall s sessions (st_wall r) \<and> st_wall t \<le> st_wall r \<and>
        (\<forall>u. trading_wall s sessions u \<longrightarrow> st_wall t \<le> u \<longrightarrow> st_wall r \<le> u) \<and>
        st_zone r = Some ''Asia/Shanghai'' \<and>
        st_offset r = (if st_wall r = st_wall t then st_offset t else Some (tz_wall zone (st_wall r)))
    | Inl e \<Rightarrow>
        \<not> (st_offset t \<noteq> None \<and> (st_zone t = Some ''Asia/Shanghai'' \<or> st_offset t = Some (tz_at zone (stamp_instant t)))) \<or>
        (\<forall>u. trading_wall s sessions u \<longrightarrow> u < st_wall t)"
proof -
  let ?name = "''Asia/Shanghai''" and ?local = "as_timezone ''Asia/Shanghai'' zone t"
  have accepted: "in_zone ?name zone t \<longleftrightarrow>
      st_offset t \<noteq> None \<and> (st_zone t = Some ?name \<or> st_offset t = Some (tz_at zone (stamp_instant t)))"
    by (auto simp: in_zone_def as_timezone_def Let_def)
  show ?thesis
  proof (cases "in_zone ?name zone t")
    case False
    then obtain e where "require_datetime_in_zone ?name zone t = Inl e"
      by (metis require_datetime_in_zone_Inr sum.exhaust)
    then show ?thesis using False accepted earliest_tradable_at_eq [where zones = zones and t = t, OF assms] by simp
  next
    case True
    note local = as_timezone_in_zone [OF True]
    have e: "earliest_tradable_at zones s sessions t = tradable_from ?name zone s sessions ?local"
      using True earliest_tradable_at_eq [where zones = zones and t = t, OF assms] require_datetime_in_zone_Inr [of ?name zone t "()"] by simp
    have exact: "first_reading s sessions (st_wall t) (tradable_from ?name zone s sessions ?local)"
      using tradable_from_exact [OF assms(1,3), of ?local ?name zone] unfolding local(1) .
    have zone: "st_zone r = Some ?name \<and> st_offset r = (if st_wall r = st_wall t then st_offset t else Some (tz_wall zone (st_wall r)))"
      if r: "tradable_from ?name zone s sessions ?local = Inr r" for r
    proof (cases "r = ?local")
      case True
      then show ?thesis by (simp add: local)
    next
      case False
      then obtain d c where "r = combine_in ?name zone d c" using tradable_from_cases [OF r] by blast
      moreover have "st_wall r \<noteq> st_wall t"
        using tradable_now [OF assms(1,3), of ?local ?name zone] exact r False by (auto simp: local)
      ultimately show ?thesis by (simp add: combine_in_def)
    qed
    show ?thesis
    proof (cases "tradable_from ?name zone s sessions ?local")
      case (Inl x)
      then show ?thesis using exact unfolding e by (simp only: sum.case) blast
    next
      case (Inr r)
      then show ?thesis using exact zone [OF Inr] True unfolding e accepted Inr sum.case by blast
    qed
  qed
qed

definition sample_morning :: "int \<Rightarrow> int \<Rightarrow> int \<Rightarrow> stamp" where
  "sample_morning d h m = combine_in ''Asia/Shanghai'' sample_shanghai d (hm h m)"

theorem earliest_tradable_exact_witness:
  "earliest_tradable_at sample_zones default_schedule [730003, 730004, 730007] (sample_morning 730004 12 0) = Inr (sample_morning 730004 13 0) \<and>
   trading_wall default_schedule [730003, 730004, 730007] (wall_at 730004 (hm 13 0)) \<and>
   \<not> trading_wall default_schedule [730003, 730004, 730007] (wall_at 730007 (hm 15 1)) \<and>
   earliest_tradable_at sample_zones default_schedule [730003, 730004, 730007]
     \<lparr>st_wall = wall_at 730004 (hm 12 0), st_offset = Some 0, st_zone = None\<rparr> = Inl (DomainValidationError ''must use timezone'')"
proof -
  let ?E = "earliest_tradable_at sample_zones default_schedule [730003, 730004, 730007]"
  have s: "schedule_ok default_schedule" by code_simp
  have v: "[730003, 730004, 730007] \<noteq> ([] :: date list)" "strictly_increasing [730003, 730004, 730007 :: date]" by simp_all
  have z: "sample_zones ''Asia/Shanghai'' = Some sample_shanghai" by (simp add: sample_zones_def)
  have a: "?E (sample_morning 730004 12 0) = Inr (sample_morning 730004 13 0)"
    "?E (sample_morning 730007 15 0) = Inl (DomainValidationError ''no trading session at or after'')"
    "?E \<lparr>st_wall = wall_at 730004 (hm 12 0), st_offset = Some 0, st_zone = None\<rparr> = Inl (DomainValidationError ''must use timezone'')"
    by code_simp+
  have w: "st_wall (sample_morning 730004 13 0) = wall_at 730004 (hm 13 0)" "st_wall (sample_morning 730007 15 0) < wall_at 730007 (hm 15 1)"
    "st_offset (sample_morning 730007 15 0) \<noteq> None \<and> st_zone (sample_morning 730007 15 0) = Some ''Asia/Shanghai''"
    by code_simp+
  have "trading_wall default_schedule [730003, 730004, 730007] (st_wall (sample_morning 730004 13 0))"
    using earliest_tradable_exact [where zones = sample_zones and t = "sample_morning 730004 12 0", OF s v z] unfolding a(1) sum.case by blast
  moreover have "\<forall>u. trading_wall default_schedule [730003, 730004, 730007] u \<longrightarrow> u < st_wall (sample_morning 730007 15 0)"
    using earliest_tradable_exact [where zones = sample_zones and t = "sample_morning 730007 15 0", OF s v z] w(3) unfolding a(2) sum.case by blast
  ultimately show ?thesis using a w(2) unfolding w(1) by (metis less_asym)
qed

end
