(* ===== verification/FinancialFacts.thy ===== *)
theory FinancialFacts
  imports Financials Availability
begin

text \<open>
  Provider facts about financials: the content-addressed source references and data envelopes of
  \<open>ashare_lab/domain/provenance/models.py\<close>, the fact record, its coverage and the snapshot manifest of
  \<open>ashare_lab/domain/financials/models.py\<close>.  Texts are ASCII, on which NFC normalisation is the identity.
  The clocks of a fact are the stamps of its availability, checked by \<open>mk_availability\<close> against the time zone database.
\<close>

section \<open>Source references and data envelopes\<close>

datatype source_kind = PROVIDER_RECORD | DETERMINISTIC_TRANSFORM

fun source_kind_value :: "source_kind \<Rightarrow> string" where
  "source_kind_value PROVIDER_RECORD = ''provider_record''"
| "source_kind_value DETERMINISTIC_TRANSFORM = ''deterministic_transform''"

record source_ref =
  src_provider :: string
  src_source_id :: string
  src_snapshot_id :: string
  src_schema_version :: string
  src_content_sha256 :: string
  src_kind :: source_kind

definition prefixed_digest :: "string \<Rightarrow> string \<Rightarrow> bool" where
  "prefixed_digest p s \<longleftrightarrow> starts_with p s \<and> length (drop (length p) s) = 64 \<and> list_all lower_hex (drop (length p) s)"

definition require_sha256 :: "string \<Rightarrow> unit result" where
  "require_sha256 s = checks [(\<not> prefixed_digest ''sha256:'' s, DomainValidationError ''must be a sha256 content hash'')]"

definition mk_source_ref :: "source_ref \<Rightarrow> source_ref result" where
  "mk_source_ref r =
     rbind (required_text (src_provider r)) (\<lambda>provider.
     rbind (required_text (src_source_id r)) (\<lambda>source_id.
     rbind (required_text (src_snapshot_id r)) (\<lambda>snapshot_id.
     rbind (required_text (src_schema_version r)) (\<lambda>schema_version.
     rbind (require_sha256 (src_content_sha256 r)) (\<lambda>_.
       Inr (r\<lparr>src_provider := provider, src_source_id := source_id, src_snapshot_id := snapshot_id,
             src_schema_version := schema_version\<rparr>))))))"

definition source_sort_key :: "source_ref \<Rightarrow> string \<times> string \<times> string \<times> string \<times> string \<times> string" where
  "source_sort_key r = (src_provider r, src_snapshot_id r, src_source_id r, src_schema_version r, src_content_sha256 r,
     source_kind_value (src_kind r))"

text \<open>The value of an envelope; the decimals of the model are finite.\<close>

record data_envelope =
  de_data_id :: string
  de_value :: "attribute option"
  de_unit :: "string option"
  de_availability :: availability
  de_source_refs :: "source_ref list"

definition canonical_source_refs :: "source_ref list \<Rightarrow> source_ref list result" where
  "canonical_source_refs refs =
     rbind (checks [(refs = [], DomainValidationError ''source_refs must be non-empty''),
                    (\<not> distinct refs, DomainValidationError ''source_refs must be unique'')]) (\<lambda>_.
       Inr (sort_key source_sort_key refs))"

definition optional_text :: "string option \<Rightarrow> string option result" where
  "optional_text t = (case t of None \<Rightarrow> Inr None | Some s \<Rightarrow> rbind (required_text s) (\<lambda>s. Inr (Some s)))"

definition mk_data_envelope :: "data_envelope \<Rightarrow> data_envelope result" where
  "mk_data_envelope d =
     rbind (required_text (de_data_id d)) (\<lambda>data_id.
     rbind (optional_text (de_unit d)) (\<lambda>unit.
     rbind (canonical_source_refs (de_source_refs d)) (\<lambda>refs.
     rbind (checks [(av_source (de_availability d) \<notin> set (map src_provider refs),
              DomainValidationError ''availability source must match a source_refs provider'')]) (\<lambda>_.
       Inr (d\<lparr>de_data_id := data_id, de_unit := unit, de_source_refs := refs\<rparr>)))))"

definition envelope_value_as_of :: "time_zones \<Rightarrow> data_envelope \<Rightarrow> stamp \<Rightarrow> attribute option result" where
  "envelope_value_as_of zones d as_of = value_as_of zones (de_availability d) (de_value d) as_of"

section \<open>The fact record\<close>

record financial_fact =
  ff_instrument_id :: string
  ff_metric_id :: financial_metric
  ff_value :: "rat option"
  ff_provider :: string
  ff_source_dataset :: string
  ff_source_field :: string
  ff_report_period :: "date option"
  ff_report_type :: "report_type option"
  ff_period_basis :: period_basis
  ff_statement_scope :: "statement_scope option"
  ff_unit :: financial_unit
  ff_availability :: availability
  ff_revision_id :: string
  ff_raw_response_sha256 :: string
  ff_snapshot_id :: string
  ff_source_refs :: "source_ref list"

definition has_control :: "string \<Rightarrow> bool" where
  "has_control s \<longleftrightarrow> list_ex (\<lambda>c. (of_char c :: nat) < 32 \<or> (of_char c :: nat) = 127) s"

definition inexact_text :: "string \<Rightarrow> bool" where
  "inexact_text s \<longleftrightarrow> blank s \<or> s \<noteq> strip s \<or> has_control s"

text \<open>\<open>[0-9]{6}\.(SH|SZ|BJ)\<close>\<close>

definition instrument_symbol_ok :: "string \<Rightarrow> bool" where
  "instrument_symbol_ok s \<longleftrightarrow> length (take 6 s) = 6 \<and> list_all is_digit (take 6 s) \<and> drop 6 s \<in> {''.SH'', ''.SZ'', ''.BJ''}"

definition shape_checks :: "financial_fact \<Rightarrow> metric_definition \<Rightarrow> (bool \<times> py_error) list" where
  "shape_checks f d =
    (if md_data_kind d = STATEMENT then
      [(ff_report_period f = None, ValueError ''statement fact requires report_period''),
       (ff_report_type f = None, ValueError ''statement fact requires report_type''),
       (ff_statement_scope f = None, ValueError ''statement fact requires statement_scope''),
       (av_announced_at (ff_availability f) = None, ValueError ''statement fact requires announced_at''),
       (av_observed_at (ff_availability f) = None, ValueError ''statement fact requires observed_at''),
       (map_option stamp_date (av_observed_at (ff_availability f)) \<noteq> ff_report_period f,
        ValueError ''report_period must match availability.observed_at date''),
       (ff_report_type f = Some Q1 \<and> ff_period_basis f = FULL_YEAR, ValueError ''q1 report cannot use full_year period_basis'')]
     else
      [(ff_report_period f \<noteq> None \<and> ff_report_type f \<noteq> None \<and> ff_statement_scope f \<noteq> None,
        ValueError ''data shape does not match metric catalog kind''),
       (ff_report_period f \<noteq> None, ValueError ''valuation fact cannot carry report_period''),
       (ff_report_type f \<noteq> None, ValueError ''valuation fact cannot carry report_type''),
       (ff_statement_scope f \<noteq> None, ValueError ''valuation fact cannot carry statement_scope''),
       (av_observed_at (ff_availability f) = None, ValueError ''valuation fact requires observed_at'')])"

definition financial_fact_checks :: "financial_fact \<Rightarrow> (bool \<times> py_error) list" where
  "financial_fact_checks f =
    [(inexact_text (ff_provider f), ValueError ''financial provenance text must be nonblank and exact''),
     (inexact_text (ff_source_dataset f), ValueError ''financial provenance text must be nonblank and exact''),
     (inexact_text (ff_source_field f), ValueError ''financial provenance text must be nonblank and exact''),
     (inexact_text (ff_revision_id f), ValueError ''financial provenance text must be nonblank and exact''),
     (ff_source_refs f = [], ValueError ''source_refs has too few items''),
     (\<not> instrument_symbol_ok (ff_instrument_id f), ValueError ''instrument_id must be a canonical A-share symbol''),
     (\<not> prefixed_digest ''sha256:'' (ff_raw_response_sha256 f), ValueError ''raw_response_sha256 must be a sha256 content hash''),
     (\<not> prefixed_digest ''financial:'' (ff_snapshot_id f), ValueError ''snapshot_id must be a financial content identity''),
     (av_first_available_at (ff_availability f) = None, ValueError ''financial fact requires first_available_at''),
     (av_signal_at (ff_availability f) \<noteq> None \<or> av_execution_at (ff_availability f) \<noteq> None,
      ValueError ''financial fact availability cannot contain signal or execution time''),
     (av_revision_id (ff_availability f) \<noteq> ff_revision_id f, ValueError ''revision_id must match availability.revision_id''),
     (av_source (ff_availability f) \<noteq> ff_provider f, ValueError ''provider must match availability.source''),
     (\<not> distinct (ff_source_refs f), ValueError ''source_refs must be unique'')] @
    concat (map (\<lambda>r.
      [(src_kind r \<noteq> PROVIDER_RECORD, ValueError ''financial facts require provider_record source refs''),
       (src_provider r \<noteq> ff_provider f, ValueError ''provider must match every source_refs provider''),
       (src_snapshot_id r \<noteq> ff_snapshot_id f, ValueError ''snapshot_id must match every source_refs snapshot_id'')])
      (ff_source_refs f)) @
    [(ff_raw_response_sha256 f \<notin> set (map src_content_sha256 (ff_source_refs f)),
      ValueError ''raw_response_sha256 must be present in source_refs'')]"

definition catalog_checks :: "financial_fact \<Rightarrow> metric_definition \<Rightarrow> (bool \<times> py_error) list" where
  "catalog_checks f d =
    [(ff_period_basis f \<notin> set (md_allowed_period_bases d), ValueError ''period_basis is not allowed for metric''),
     (ff_unit f \<noteq> md_unit d, ValueError ''unit does not match metric catalog''),
     (opt_any (\<lambda>s. s \<notin> set (md_allowed_statement_scopes d)) (ff_statement_scope f),
      ValueError ''statement_scope is not allowed for metric'')]"

definition financial_fact_post_init :: "financial_fact \<Rightarrow> unit result" where
  "financial_fact_post_init f =
     rbind (checks (financial_fact_checks f)) (\<lambda>_.
     rbind (definition_for (ff_metric_id f)) (\<lambda>d.
       checks (shape_checks f d @ catalog_checks f d)))"

definition mk_financial_fact :: "financial_fact \<Rightarrow> financial_fact result" where
  "mk_financial_fact f = construct financial_fact_post_init f"

section \<open>Coverage and manifest\<close>

record metric_coverage =
  cov_metric_id :: financial_metric
  cov_start :: date
  cov_end :: date
  cov_non_null_count :: int
  cov_null_count :: int
  cov_source_dataset :: string
  cov_source_field :: string

definition metric_coverage_checks :: "metric_coverage \<Rightarrow> (bool \<times> py_error) list" where
  "metric_coverage_checks c =
    [(cov_non_null_count c < 0, ValueError ''non_null_count must be non-negative''),
     (cov_null_count c < 0, ValueError ''null_count must be non-negative''),
     (inexact_text (cov_source_dataset c), ValueError ''coverage source identity must be nonblank exact text''),
     (inexact_text (cov_source_field c), ValueError ''coverage source identity must be nonblank exact text''),
     (cov_start c > cov_end c, ValueError ''coverage_start cannot follow coverage_end''),
     (cov_non_null_count c + cov_null_count c < 1, ValueError ''metric coverage requires at least one observed row'')]"

definition mk_metric_coverage :: "metric_coverage \<Rightarrow> metric_coverage result" where
  "mk_metric_coverage c = construct (\<lambda>c. checks (metric_coverage_checks c)) c"

record snapshot_manifest =
  sm_snapshot_id :: string
  sm_provider :: string
  sm_content_sha256 :: string
  sm_generated_at :: datetime
  sm_coverage_start :: date
  sm_coverage_end :: date
  sm_source_datasets :: "string list"
  sm_metric_ids :: "financial_metric list"
  sm_metric_coverage :: "metric_coverage list"
  sm_fact_count :: int

definition coverage_key :: "metric_coverage \<Rightarrow> financial_metric \<times> string \<times> string" where
  "coverage_key c = (cov_metric_id c, cov_source_dataset c, cov_source_field c)"

definition manifest_checks :: "snapshot_manifest \<Rightarrow> (bool \<times> py_error) list" where
  "manifest_checks m =
    [(inexact_text (sm_provider m), ValueError ''provider must be nonblank exact text''),
     (sm_source_datasets m = [], ValueError ''source_datasets has too few items''),
     (list_ex inexact_text (sm_source_datasets m), ValueError ''source_datasets must contain nonblank exact text''),
     (\<not> distinct (sm_source_datasets m), ValueError ''source_datasets must be unique''),
     (sm_metric_ids m = [], ValueError ''metric_ids has too few items''),
     (\<not> distinct (sm_metric_ids m), ValueError ''metric_ids must be unique''),
     (sm_metric_coverage m = [], ValueError ''metric_coverage has too few items''),
     (sm_fact_count m < 1, ValueError ''fact_count must be positive''),
     (\<not> prefixed_digest ''financial:'' (sm_snapshot_id m), ValueError ''snapshot_id must be a financial content identity''),
     (\<not> prefixed_digest ''sha256:'' (sm_content_sha256 m), ValueError ''content_sha256 must be a sha256 content hash''),
     (removeprefix ''financial:'' (sm_snapshot_id m) \<noteq> removeprefix ''sha256:'' (sm_content_sha256 m),
      ValueError ''snapshot_id must match content_sha256''),
     (sm_coverage_start m > sm_coverage_end m, ValueError ''coverage_start cannot follow coverage_end''),
     (\<not> distinct (map coverage_key (sm_metric_coverage m)), ValueError ''metric_coverage entries must have unique source identities''),
     (set (sm_metric_ids m) \<noteq> set (map cov_metric_id (sm_metric_coverage m)), ValueError ''metric_ids must exactly match metric_coverage''),
     (set (sm_source_datasets m) \<noteq> set (map cov_source_dataset (sm_metric_coverage m)),
      ValueError ''source_datasets must exactly match metric_coverage''),
     (sm_fact_count m \<noteq> sum_list (map (\<lambda>c. cov_non_null_count c + cov_null_count c) (sm_metric_coverage m)),
      ValueError ''fact_count must equal metric_coverage row counts''),
     (sm_coverage_start m \<noteq> Min (set (map cov_start (sm_metric_coverage m))) \<or>
        sm_coverage_end m \<noteq> Max (set (map cov_end (sm_metric_coverage m))),
      ValueError ''global coverage must equal metric_coverage bounds'')]"

definition mk_snapshot_manifest :: "snapshot_manifest \<Rightarrow> snapshot_manifest result" where
  "mk_snapshot_manifest m = construct (\<lambda>m. checks (manifest_checks m)) m"

section \<open>Consequences of the constructors\<close>

text \<open>An accepted fact is traceable: its raw response is among the sources, all of one provider and snapshot.\<close>

lemma mk_financial_fact_traceable:
  assumes "mk_financial_fact f = Inr g"
  shows "g = f \<and> av_first_available_at (ff_availability f) \<noteq> None \<and> ff_provider f = av_source (ff_availability f) \<and>
    (\<exists>r \<in> set (ff_source_refs f). src_content_sha256 r = ff_raw_response_sha256 f) \<and>
    (\<forall>r \<in> set (ff_source_refs f). src_provider r = ff_provider f \<and> src_snapshot_id r = ff_snapshot_id f)"
  using assms
  by (auto simp: mk_financial_fact_def construct_Inr financial_fact_post_init_def is_ok_iff result_simps
      financial_fact_checks_def list_ex_iff list_all_iff)

text \<open>The coverage entries of an accepted manifest lie within its bounds and account for all its facts.\<close>

lemma mk_snapshot_manifest_covers:
  assumes "mk_snapshot_manifest m = Inr m'" "c \<in> set (sm_metric_coverage m)"
  shows "sm_coverage_start m \<le> cov_start c \<and> cov_end c \<le> sm_coverage_end m \<and> cov_metric_id c \<in> set (sm_metric_ids m)"
  using assms
  by (auto simp: mk_snapshot_manifest_def construct_Inr result_simps manifest_checks_def list_ex_iff)

end
