(* ===== verification/Documents.thy ===== *)
theory Documents
  imports Availability Conditions
begin

text \<open>
  The deterministic document metric of \<open>ashare_lab/domain/events/document_metrics.py\<close>: the contract a
  frozen document text must meet before a term is counted in it, and the two ways of counting.  The
  functions of the Python library that depend on character tables or hash a text are arguments, bundled
  in \<open>text_library\<close>.
\<close>

section \<open>Library functions\<close>

datatype json =
    JsonNull | JsonBool bool | JsonInt int | JsonFloat | JsonText string
  | JsonArray "json list" | JsonObject "(string \<times> json) list"

text \<open>
  \<open>tl_sha256\<close> is \<open>hashlib.sha256(text.encode("utf-8")).hexdigest()\<close>, \<open>tl_nfkc\<close> is \<open>unicodedata.normalize("NFKC", text)\<close>, \<open>tl_casefold\<close> is
  \<open>str.casefold\<close>, \<open>tl_json_loads\<close> is \<open>json.loads\<close> (\<open>None\<close> when it raises), \<open>tl_parse_iso\<close> is \<open>datetime.fromisoformat\<close> (\<open>None\<close> when
  it raises or the result is naive) and \<open>tl_zones\<close> is the time zone database.
\<close>

record text_library =
  tl_sha256 :: "string \<Rightarrow> string"
  tl_nfkc :: "string \<Rightarrow> string"
  tl_casefold :: "string \<Rightarrow> string"
  tl_json_loads :: "string \<Rightarrow> json option"
  tl_parse_iso :: "string \<Rightarrow> datetime option"
  tl_zones :: time_zones

type_synonym attributes = "(string \<times> attribute) list"

section \<open>Reading attributes\<close>

abbreviation document_error :: "string \<Rightarrow> 'a result" where
  "document_error m \<equiv> Inl (DocumentMetricError m)"

definition document_text_of :: "attributes \<Rightarrow> string \<Rightarrow> string result" where
  "document_text_of attrs name =
     (case map_of attrs name of
        Some (TextValue s) \<Rightarrow> if s = [] then document_error ''event document attribute is missing'' else Inr s
      | _ \<Rightarrow> document_error ''event document attribute is missing'')"

definition lower_char :: "char \<Rightarrow> char" where
  "lower_char c = (let n = (of_char c :: nat) in if 65 \<le> n \<and> n \<le> 90 then char_of (n + 32) else c)"

definition normalized_sha256 :: "string \<Rightarrow> string result" where
  "normalized_sha256 s =
     (let digest = removeprefix ''sha256:'' (map lower_char s)
      in if length digest \<noteq> 64 \<or> \<not> list_all lower_hex digest then document_error ''event document attribute is not SHA-256''
         else Inr digest)"

definition document_sha256_of :: "attributes \<Rightarrow> string \<Rightarrow> string result" where
  "document_sha256_of attrs name = rbind (document_text_of attrs name) normalized_sha256"

definition positive_int_of :: "attributes \<Rightarrow> string \<Rightarrow> int result" where
  "positive_int_of attrs name =
     (case map_of attrs name of
        Some (IntValue v) \<Rightarrow> if v \<le> 0 then document_error ''event document attribute must be positive'' else Inr v
      | _ \<Rightarrow> document_error ''event document attribute must be positive'')"

definition non_negative_int_of :: "attributes \<Rightarrow> string \<Rightarrow> int result" where
  "non_negative_int_of attrs name =
     (case map_of attrs name of
        Some (IntValue v) \<Rightarrow> if v < 0 then document_error ''event document attribute must be non-negative'' else Inr v
      | _ \<Rightarrow> document_error ''event document attribute must be non-negative'')"

section \<open>The frozen text\<close>

definition visible_characters :: "string \<Rightarrow> nat" where
  "visible_characters s = length (filter (\<lambda>c. \<not> py_space c) s)"

definition page_keys :: "string list" where
  "page_keys = [''pageNumber'', ''text'', ''textSha256'', ''characterCount'', ''nonWhitespaceCharacterCount'']"

definition json_text :: "json option \<Rightarrow> string option" where
  "json_text v = (case v of Some (JsonText s) \<Rightarrow> Some s | _ \<Rightarrow> None)"

definition page_text :: "text_library \<Rightarrow> json \<Rightarrow> nat \<Rightarrow> string result" where
  "page_text L raw number =
     (case raw of
        JsonObject page \<Rightarrow>
          let field = map_of page;
              text = (case json_text (field ''text'') of Some s \<Rightarrow> s | None \<Rightarrow> []);
              digest = (case json_text (field ''textSha256'') of Some s \<Rightarrow> s | None \<Rightarrow> [])
          in rbind (checks
               [(set (map fst page) \<noteq> set page_keys, DocumentMetricError ''document page evidence has an unsupported shape''),
                (field ''pageNumber'' \<noteq> Some (JsonInt (int number)), DocumentMetricError ''document page numbers are not contiguous''),
                (blank text, DocumentMetricError ''document page evidence contains no extractable text''),
                (length digest \<noteq> 64 \<or> \<not> list_all lower_hex digest, DocumentMetricError ''document page text hash is not SHA-256''),
                (tl_sha256 L text \<noteq> digest, DocumentMetricError ''document page text hash does not match page text''),
                (field ''characterCount'' \<noteq> Some (JsonInt (int (length text))),
                 DocumentMetricError ''document page character count does not match page text''),
                (field ''nonWhitespaceCharacterCount'' \<noteq> Some (JsonInt (int (visible_characters text))),
                 DocumentMetricError ''document page non-whitespace count does not match page text'')]) (\<lambda>_. Inr text)
      | _ \<Rightarrow> document_error ''document page evidence has an unsupported shape'')"

fun page_texts :: "text_library \<Rightarrow> json list \<Rightarrow> nat \<Rightarrow> string list result" where
  "page_texts L [] number = Inr []"
| "page_texts L (p # ps) number =
     rbind (page_text L p number) (\<lambda>t. rbind (page_texts L ps (number + 1)) (\<lambda>ts. Inr (t # ts)))"

definition validated_pages :: "text_library \<Rightarrow> attributes \<Rightarrow> int \<Rightarrow> string list result" where
  "validated_pages L attrs page_count =
     rbind (document_text_of attrs ''document_text_pages_json'') (\<lambda>raw.
       case tl_json_loads L raw of
         None \<Rightarrow> document_error ''document page evidence is not valid JSON''
       | Some (JsonArray pages) \<Rightarrow>
           if int (length pages) \<noteq> page_count then document_error ''document page evidence count does not match provider pages''
           else page_texts L pages 1
       | _ \<Rightarrow> document_error ''document page evidence count does not match provider pages'')"

text \<open>\<open>separator.join(parts)\<close>\<close>

fun join_with :: "string \<Rightarrow> string list \<Rightarrow> string" where
  "join_with sep [] = []"
| "join_with sep [x] = x"
| "join_with sep (x # y # zs) = x @ sep @ join_with sep (y # zs)"

definition page_separator :: string where
  "page_separator = [char_of (10::nat), char_of (12::nat), char_of (10::nat)]"

record text_artifact =
  ta_text :: string
  ta_text_sha256 :: string
  ta_source_sha256 :: string

definition extractor_by_source_format :: "(string \<times> string \<times> string) list" where
  "extractor_by_source_format = [(''notice_content'', ''eastmoney_notice_content'', ''1''), (''pdf'', ''pypdfium2_text_layer'', ''1'')]"

text \<open>\<open>_required_text(...) != expected\<close> raises.\<close>

definition require_text :: "attributes \<Rightarrow> string \<Rightarrow> string \<Rightarrow> string \<Rightarrow> unit result" where
  "require_text attrs name expected message =
     rbind (document_text_of attrs name) (\<lambda>s. checks [(s \<noteq> expected, DocumentMetricError message)])"

definition extractor_checks :: "attributes \<Rightarrow> string \<Rightarrow> unit result" where
  "extractor_checks attrs source_format =
     (case map_of extractor_by_source_format source_format of
        None \<Rightarrow> document_error ''document text source format is unsupported''
      | Some (name, version) \<Rightarrow>
          rbind (require_text attrs ''document_text_extractor'' name ''document text extractor identity is unsupported'') (\<lambda>_.
          rbind (require_text attrs ''document_text_extractor_version'' version ''document text extractor version is unsupported'') (\<lambda>_.
            if source_format = ''pdf'' then rbind (document_text_of attrs ''document_text_extractor_library_version'') (\<lambda>_. Inr ())
            else Inr ())))"

definition page_count_of :: "attributes \<Rightarrow> string \<Rightarrow> int result" where
  "page_count_of attrs source_format =
     rbind (positive_int_of attrs ''document_text_provider_page_count'') (\<lambda>provider_pages.
     rbind (positive_int_of attrs ''document_text_extracted_page_count'') (\<lambda>extracted_pages.
     rbind (positive_int_of attrs ''document_text_page_count'') (\<lambda>page_count.
     rbind (non_negative_int_of attrs ''document_text_empty_page_count'') (\<lambda>empty_pages.
     rbind (checks
       [(provider_pages \<noteq> extracted_pages \<or> extracted_pages \<noteq> page_count \<or> empty_pages \<noteq> 0,
         DocumentMetricError ''document text does not cover every provider page''),
        (source_format = ''notice_content'' \<and> page_count \<noteq> 1,
         DocumentMetricError ''notice-content text must contain exactly one provider page'')]) (\<lambda>_. Inr page_count)))))"

definition rebuild_checks :: "text_library \<Rightarrow> attributes \<Rightarrow> string \<Rightarrow> int \<Rightarrow> unit result" where
  "rebuild_checks L attrs text page_count =
     rbind (validated_pages L attrs page_count) (\<lambda>pages.
     rbind (checks [(join_with page_separator pages \<noteq> text,
              DocumentMetricError ''document page text does not rebuild the frozen document text'')]) (\<lambda>_.
     rbind (positive_int_of attrs ''document_text_character_count'') (\<lambda>characters.
     rbind (checks [(characters \<noteq> int (length text),
              DocumentMetricError ''document text character count does not match frozen text'')]) (\<lambda>_.
     rbind (positive_int_of attrs ''document_text_non_whitespace_character_count'') (\<lambda>visible.
       checks [(visible \<noteq> int (visible_characters text),
              DocumentMetricError ''document text non-whitespace count does not match frozen text'')])))))"

definition validate_document_text_artifact ::
  "text_library \<Rightarrow> attributes \<Rightarrow> string option \<Rightarrow> text_artifact result" where
  "validate_document_text_artifact L attrs expected_source_sha256 =
     rbind (document_text_of attrs ''document_text'') (\<lambda>text.
     rbind (document_sha256_of attrs ''document_text_sha256'') (\<lambda>text_sha256.
     rbind (document_sha256_of attrs ''document_text_source_sha256'') (\<lambda>source_sha256.
     rbind (checks [(tl_sha256 L text \<noteq> text_sha256, DocumentMetricError ''document text hash does not match frozen text'')]) (\<lambda>_.
     rbind (case expected_source_sha256 of
         None \<Rightarrow> Inr ()
       | Some s \<Rightarrow> rbind (if s = [] then document_error ''event document attribute is missing'' else normalized_sha256 s) (\<lambda>d.
           checks [(source_sha256 \<noteq> d, DocumentMetricError ''document text source hash does not match frozen source document'')])) (\<lambda>_.
     rbind (require_text attrs ''document_text_quality'' ''complete_text_layer'' ''document text quality is not complete_text_layer'') (\<lambda>_.
     rbind (require_text attrs ''document_text_normalization'' ''unicode_nfkc_lf_strip.v1'' ''document text normalization is unsupported'') (\<lambda>_.
     rbind (require_text attrs ''document_version_role'' ''initial_complete'' ''document is not the initial complete report version'') (\<lambda>_.
     rbind (require_text attrs ''document_text_scope'' ''complete_primary_document'' ''document text is not the complete primary document'') (\<lambda>_.
     rbind (document_text_of attrs ''document_text_source_format'') (\<lambda>source_format.
     rbind (extractor_checks attrs source_format) (\<lambda>_.
     rbind (page_count_of attrs source_format) (\<lambda>page_count.
     rbind (rebuild_checks L attrs text page_count) (\<lambda>_.
       Inr \<lparr>ta_text = text, ta_text_sha256 = text_sha256, ta_source_sha256 = source_sha256\<rparr>)))))))))))))"

section \<open>Counting a term\<close>

text \<open>\<open>str.count\<close>: occurrences that do not overlap, from the left; the empty term occurs between all characters.\<close>

function literal_occurrences :: "string \<Rightarrow> string \<Rightarrow> nat" where
  "literal_occurrences term s =
     (if term = [] then length s + 1
      else if s = [] then 0
      else if starts_with term s then 1 + literal_occurrences term (drop (length term) s)
      else literal_occurrences term (tl s))"
  by pat_completeness auto
termination by (relation "measure (\<lambda>(t, s). length s)") auto

declare literal_occurrences.simps [simp del]

text \<open>
  \<open>re.finditer\<close> with the escaped term between two assertions: no ASCII word character just before the match
  and none just after it.  \<open>last\<close> is the character before the position of the search.
\<close>

definition word_char :: "char \<Rightarrow> bool" where
  "word_char c \<longleftrightarrow> ascii_alnum c \<or> c = CHR ''_''"

fun word_at :: "string \<Rightarrow> bool" where
  "word_at [] \<longleftrightarrow> False"
| "word_at (c # cs) \<longleftrightarrow> word_char c"

definition token_here :: "string \<Rightarrow> char option \<Rightarrow> string \<Rightarrow> bool" where
  "token_here term before s \<longleftrightarrow>
     \<not> opt_any word_char before \<and> starts_with term s \<and> \<not> word_at (drop (length term) s)"

function token_occurrences :: "string \<Rightarrow> char option \<Rightarrow> string \<Rightarrow> nat" where
  "token_occurrences term before s =
     (if s = [] then (if token_here term before s then 1 else 0)
      else if token_here term before s then
        1 + (if term = [] then token_occurrences term (Some (hd s)) (tl s)
             else token_occurrences term (Some (last term)) (drop (length term) s))
      else token_occurrences term (Some (hd s)) (tl s))"
  by pat_completeness auto
termination by (relation "measure (\<lambda>(t, b, s). length s)") auto

declare token_occurrences.simps [simp del]

definition term_count :: "text_library \<Rightarrow> document_predicate \<Rightarrow> string \<Rightarrow> nat" where
  "term_count L p text =
     (let fold_case = (\<lambda>s. if dp_case_sensitive p then s else tl_casefold L s);
          normalized_text = fold_case (tl_nfkc L text);
          normalized_term = fold_case (tl_nfkc L (dp_term p))
      in if dp_match_mode p = ASCII_TOKEN then token_occurrences normalized_term None normalized_text
         else literal_occurrences normalized_term normalized_text)"

text \<open>The count and whether it satisfies the comparison; the validated conditions only compare from below.\<close>

definition evaluate_document_text_predicate ::
  "text_library \<Rightarrow> document_predicate \<Rightarrow> attributes \<Rightarrow> (nat \<times> bool) result" where
  "evaluate_document_text_predicate L p attrs =
     rbind (validate_document_text_artifact L attrs None) (\<lambda>a.
       let count = term_count L p (ta_text a)
       in Inr (count, (if dp_comparator p = COUNT_GT then dp_value p < int count else dp_value p \<le> int count)))"

section \<open>What the counts mean\<close>

lemma starts_with_drop: "starts_with t s \<Longrightarrow> s = t @ drop (length t) s"
  by (metis append_take_drop_id starts_with_def)

text \<open>A counted occurrence takes the characters of the term.\<close>

lemma literal_count_bound: "term \<noteq> [] \<Longrightarrow> literal_occurrences term s * length term \<le> length s"
proof (induction "term" s rule: literal_occurrences.induct)
  case (1 t s)
  show ?case
  proof (cases "s \<noteq> [] \<and> starts_with t s")
    case True
    then have "length t \<le> length s" by (metis starts_with_def length_take min.absorb_iff2 min.commute)
    then show ?thesis using 1 True by (subst literal_occurrences.simps) (simp add: algebra_simps)
  next
    case False
    then show ?thesis using 1 by (subst literal_occurrences.simps) (auto simp: neq_Nil_conv)
  qed
qed

text \<open>Dropping characters in front loses at most the occurrences that begin there.\<close>

lemma literal_mono_tl: "t \<noteq> [] \<Longrightarrow> s \<noteq> [] \<Longrightarrow> literal_occurrences t (tl s) \<le> literal_occurrences t s \<and>
    literal_occurrences t s \<le> 1 + literal_occurrences t (drop (length t) s)"
proof (induction "length s" arbitrary: s rule: less_induct)
  case less
  have mono: "literal_occurrences t (drop k r) \<le> literal_occurrences t r" if "length r < length s" for k r
    using that
  proof (induction k arbitrary: r)
    case (Suc k)
    then show ?case
    proof (cases r)
      case (Cons c r')
      then have "literal_occurrences t (drop k r') \<le> literal_occurrences t r'" using Suc by simp
      also have "\<dots> \<le> literal_occurrences t r" using less.hyps [of r] less.prems(1) Suc.prems Cons by simp
      finally show ?thesis using Cons by simp
    qed simp
  qed simp
  obtain c r where s: "s = c # r" using less.prems(2) by (cases s) auto
  obtain n where n: "length t = Suc n" using less.prems(1) by (cases t) auto
  have step: "literal_occurrences t r \<le> 1 + literal_occurrences t (drop n r)"
  proof (cases "r = []")
    case True
    then show ?thesis using less.prems(1) by (simp add: literal_occurrences.simps)
  next
    case False
    have "literal_occurrences t r \<le> 1 + literal_occurrences t (drop (length t) r)"
      using less.hyps [of r] less.prems(1) False s by simp
    also have "drop (length t) r = drop 1 (drop n r)" by (simp add: n)
    also have "literal_occurrences t (drop 1 (drop n r)) \<le> literal_occurrences t (drop n r)"
      by (rule mono) (simp add: s)
    finally show ?thesis by simp
  qed
  show ?case
  proof (cases "starts_with t s")
    case True
    then have "literal_occurrences t s = 1 + literal_occurrences t (drop n r)"
      using less.prems by (subst literal_occurrences.simps) (simp add: s n)
    then show ?thesis using step by (simp add: s n)
  next
    case False
    then have "literal_occurrences t s = literal_occurrences t r"
      using less.prems by (subst literal_occurrences.simps) (simp add: s)
    then show ?thesis using step by (simp add: s n)
  qed
qed

text \<open>Counting whole tokens never finds more than counting literally.\<close>

lemma token_le_literal: "t \<noteq> [] \<Longrightarrow> token_occurrences t b s \<le> literal_occurrences t s"
proof (induction t b s rule: token_occurrences.induct)
  case (1 t b s)
  show ?case
  proof (cases "s = []")
    case True
    then show ?thesis using "1.prems" by (simp add: token_occurrences.simps token_here_def starts_with_def)
  next
    case False
    then show ?thesis
    proof (cases "token_here t b s")
      case True
      then have "starts_with t s" by (simp add: token_here_def)
      then show ?thesis using "1.IH"(2) [OF False True "1.prems" "1.prems"] "1.prems" False True
        by (subst token_occurrences.simps, subst literal_occurrences.simps) simp
    next
      case no: False
      then have "token_occurrences t b s = token_occurrences t (Some (hd s)) (tl s)"
        using False by (subst token_occurrences.simps) simp
      also have "\<dots> \<le> literal_occurrences t (tl s)" using "1.IH"(3) [OF False no "1.prems"] .
      also have "\<dots> \<le> literal_occurrences t s" using literal_mono_tl [OF "1.prems" False] by simp
      finally show ?thesis .
    qed
  qed
qed

text \<open>A match is a real occurrence of the term.\<close>

lemma literal_occurs: "0 < literal_occurrences t s \<Longrightarrow> sublist t s"
proof (induction t s rule: literal_occurrences.induct)
  case (1 t s)
  show ?case
  proof (cases "t = [] \<or> s = []")
    case True
    then show ?thesis using "1.prems" by (cases "t = []") (simp_all add: literal_occurrences.simps [of t "[]"])
  next
    case False
    show ?thesis
    proof (cases "starts_with t s")
      case True
      then show ?thesis by (metis starts_with_drop prefix_def prefix_imp_sublist)
    next
      case no: False
      then have "0 < literal_occurrences t (tl s)" using "1.prems" False by (subst (asm) literal_occurrences.simps) simp
      then have "sublist t (tl s)" using "1.IH"(2) False no by simp
      then show ?thesis using False by (metis list.collapse sublist_Cons_right)
    qed
  qed
qed

text \<open>An accepted document is its hash-checked pages and nothing else.\<close>

lemma page_texts_length: "page_texts L ps n = Inr ts \<Longrightarrow> length ts = length ps"
  by (induction ps arbitrary: n ts) (auto simp: result_simps)

lemma page_text_ok: "page_text L p n = Inr t \<Longrightarrow> \<not> blank t"
  by (auto simp: page_text_def Let_def result_simps split: json.splits)

lemma page_texts_ok: "page_texts L ps n = Inr ts \<Longrightarrow> \<forall>t \<in> set ts. \<not> blank t"
  by (induction ps arbitrary: n ts) (auto simp: result_simps dest: page_text_ok)

lemma validated_pages_ok: "validated_pages L attrs n = Inr ts \<Longrightarrow> int (length ts) = n \<and> (\<forall>t \<in> set ts. \<not> blank t)"
  unfolding validated_pages_def
  by (erule rbindE, split option.split_asm, simp, split json.split_asm)
    (auto dest: page_texts_length page_texts_ok split: if_split_asm)

lemma rebuild_checks_ok:
  assumes "rebuild_checks L attrs text n = Inr ()" "0 < n"
  shows "\<exists>pages. pages \<noteq> [] \<and> (\<forall>t \<in> set pages. \<not> blank t) \<and> join_with page_separator pages = text"
proof -
  obtain pages where p: "validated_pages L attrs n = Inr pages" "join_with page_separator pages = text"
    using assms(1) by (auto simp: rebuild_checks_def result_simps)
  then show ?thesis using validated_pages_ok [OF p(1)] assms(2) by auto
qed

lemma page_count_pos: "page_count_of attrs fmt = Inr n \<Longrightarrow> 0 < n"
  by (auto simp: page_count_of_def positive_int_of_def result_simps split: option.splits attribute.splits if_splits)

lemma validated_artifact_rebuilds:
  assumes "validate_document_text_artifact L attrs expected = Inr a"
  shows "map_of attrs ''document_text'' = Some (TextValue (ta_text a)) \<and> tl_sha256 L (ta_text a) = ta_text_sha256 a \<and>
    (\<exists>pages. pages \<noteq> [] \<and> (\<forall>t \<in> set pages. \<not> blank t) \<and> join_with page_separator pages = ta_text a)"
proof -
  obtain fmt n where *: "document_text_of attrs ''document_text'' = Inr (ta_text a)" "tl_sha256 L (ta_text a) = ta_text_sha256 a"
      "page_count_of attrs fmt = Inr n" "rebuild_checks L attrs (ta_text a) n = Inr ()"
    using assms by (auto simp: validate_document_text_artifact_def result_simps)
  have t: "map_of attrs ''document_text'' = Some (TextValue (ta_text a))"
    using *(1) by (auto simp: document_text_of_def split: option.splits attribute.splits if_splits)
  show ?thesis using t *(2) rebuild_checks_ok [OF *(4) page_count_pos [OF *(3)]] by blast
qed

end
