(* ===== verification/Timeseries.thy ===== *)
theory Timeseries
  imports Rounding
begin

text \<open>
  Loops over a list that produce one value per position, the local decimal context of the indicator
  formulas, and what makes a series usable in a backtest: a longer history never changes the values it had.
\<close>

named_theorems causal_intros \<open>prefix stability of compound series\<close>

section \<open>The local context\<close>

text \<open>\<open>with localcontext() as context: context.prec = 34\<close>\<close>

definition loc :: "rat \<Rightarrow> rat" where
  "loc x = round_to 34 x"

lemma loc_mono: "x \<le> y \<Longrightarrow> loc x \<le> loc y"
  by (simp add: loc_def round_to_mono)

lemma loc_0 [simp]: "loc 0 = 0"
  by (simp add: loc_def)

lemma loc_minus: "loc (- x) = - loc x"
  by (simp add: loc_def round_to_minus)

lemma loc_nonneg: "0 \<le> x \<Longrightarrow> 0 \<le> loc x"
  by (simp add: loc_def round_to_nonneg)

lemma loc_pos: "0 < x \<Longrightarrow> 0 < loc x"
  by (simp add: loc_def round_to_pos)

lemma loc_of_int: "\<bar>n\<bar> < 10 ^ 34 \<Longrightarrow> loc (of_int n) = of_int n"
  unfolding loc_def by (rule round_to_exact [where c = n and e = 0]) (simp only: power_int_0_right mult_1_right, assumption)

text \<open>A quotient of two computed values; \<open>r\<close> rounds to the context in force.\<close>

definition quot :: "(rat \<Rightarrow> rat) \<Rightarrow> rat \<Rightarrow> rat \<Rightarrow> rat result" where
  "quot r x y =
     (if y = 0 then Inl (if x = 0 then DecimalInvalidOperation else DecimalDivisionByZero) else Inr (r (x / y)))"

text \<open>\<open>sum(values, Decimal(0))\<close>\<close>

definition dsum :: "rat list \<Rightarrow> rat" where
  "dsum xs = fold (\<lambda>x total. loc (total + x)) xs 0"

lemma dsum_from_nonneg: "0 \<le> t \<Longrightarrow> list_all (\<lambda>x. 0 \<le> x) xs \<Longrightarrow> 0 \<le> fold (\<lambda>x total. loc (total + x)) xs t"
  by (induction xs arbitrary: t) (simp_all add: loc_nonneg)

lemma dsum_nonneg: "list_all (\<lambda>x. 0 \<le> x) xs \<Longrightarrow> 0 \<le> dsum xs"
  by (simp add: dsum_def dsum_from_nonneg)

text \<open>\<open>x ** 2\<close> is computed with three guard digits and then rounded.\<close>

definition square :: "rat \<Rightarrow> rat" where
  "square x = loc (round_to 37 (x * x))"

lemma square_nonneg: "0 \<le> square x"
  by (simp add: square_def loc_def round_to_nonneg)

section \<open>Square roots\<close>

text \<open>The integer square root, two bits at a time.\<close>

fun isqrt :: "nat \<Rightarrow> nat" where
  "isqrt n = (if n = 0 then 0 else let r = 2 * isqrt (n div 4) in if (r + 1) * (r + 1) \<le> n then r + 1 else r)"

declare isqrt.simps [simp del]

lemma isqrt_correct: "isqrt n * isqrt n \<le> n \<and> n < (isqrt n + 1) * (isqrt n + 1)"
proof (induction n rule: isqrt.induct)
  case (1 n)
  show ?case
  proof (cases "n = 0")
    case True
    then show ?thesis by (simp add: isqrt.simps [of 0])
  next
    case False
    define q where "q = isqrt (n div 4)"
    have q: "q * q \<le> n div 4" "n div 4 < (q + 1) * (q + 1)" using "1" False by (auto simp: q_def)
    have "4 * (q * q) \<le> n" using q(1) by linarith
    moreover have "n < 4 * ((q + 1) * (q + 1))" using q(2) by linarith
    ultimately have "(2 * q) * (2 * q) \<le> n" "n < (2 * q + 2) * (2 * q + 2)" by (simp_all add: algebra_simps)
    then show ?thesis using False by (simp add: isqrt.simps [of n] Let_def algebra_simps flip: q_def)
  qed
qed

text \<open>
  \<open>Decimal.sqrt\<close>: the root rounded to the digits of the context.  With \<open>x = m * u\<^sup>2\<close> and \<open>u\<close> the unit of the last
  digit, the root lies between \<open>isqrt \<lfloor>m\<rfloor>\<close> and the next integer, and \<open>m\<close> tells the nearer one.
\<close>

definition sqrt_to :: "nat \<Rightarrow> rat \<Rightarrow> rat result" where
  "sqrt_to p x =
     (if x < 0 then Inl DecimalInvalidOperation
      else if x = 0 then Inr 0
      else
        let u = 10 powi (adjusted x div 2 + 1 - int p);
            m = x / (u * u);
            n = isqrt (nat \<lfloor>m\<rfloor>);
            h = of_nat n + 1 / 2
        in Inr (of_nat (if m < h * h \<or> (m = h * h \<and> even n) then n else n + 1) * u))"

section \<open>Natural logarithms\<close>

text \<open>
  \<open>Decimal.ln\<close> returns the correctly rounded logarithm.  It is irrational for every argument but one, so
  the nearest value is unique.
\<close>

definition ln_to :: "nat \<Rightarrow> rat \<Rightarrow> rat result" where
  "ln_to p x =
     (if x \<le> 0 then Inl DecimalInvalidOperation
      else if x = 1 then Inr 0
      else
        let y = ln (of_rat x :: real);
            e = \<lfloor>log 10 \<bar>y\<bar>\<rfloor> + 1 - int p
        in Inr (of_int \<lfloor>y / 10 powi e + 1 / 2\<rfloor> * 10 powi e))"

text \<open>The one definition that cannot be evaluated; a formula that needs it is left as it is.\<close>

declare ln_to_def [code del]

section \<open>Loops that fill a series\<close>

primrec loop_res :: "(nat \<Rightarrow> 's \<Rightarrow> ('b \<times> 's) result) \<Rightarrow> nat list \<Rightarrow> 's \<Rightarrow> 'b list result" where
  "loop_res step [] s = Inr []"
| "loop_res step (i # is) s = rbind (step i s) (\<lambda>(y, s'). rbind (loop_res step is s') (\<lambda>ys. Inr (y # ys)))"

text \<open>\<open>for index in range(n)\<close> with local variables: the step returns \<open>result[index]\<close> and the variables after it.\<close>

definition series :: "nat \<Rightarrow> (nat \<Rightarrow> 's \<Rightarrow> ('b \<times> 's) result) \<Rightarrow> 's \<Rightarrow> 'b list result" where
  "series n step s = loop_res step [0..<n] s"

text \<open>The same without variables, and without exceptions.\<close>

definition points :: "nat \<Rightarrow> (nat \<Rightarrow> 'b result) \<Rightarrow> 'b list result" where
  "points n f = map_res f [0..<n]"

definition scan :: "nat \<Rightarrow> (nat \<Rightarrow> 's \<Rightarrow> 'b \<times> 's) \<Rightarrow> 's \<Rightarrow> 'b list result" where
  "scan n step s = series n (\<lambda>i s. Inr (step i s)) s"

text \<open>\<open>xs[a:b]\<close>\<close>

definition slice :: "'a list \<Rightarrow> nat \<Rightarrow> nat \<Rightarrow> 'a list" where
  "slice xs a b = drop a (take b xs)"

lemma slice_take [simp]: "b \<le> n \<Longrightarrow> slice (take n xs) a b = slice xs a b"
  by (simp add: slice_def min_def)

lemma map_slice: "map f (slice xs a b) = slice (map f xs) a b"
  by (simp add: slice_def take_map drop_map)

lemma set_slice_subset: "set (slice xs a b) \<subseteq> set xs"
  by (metis slice_def set_drop_subset set_take_subset subset_trans)

lemma nth_in_slice: "a \<le> i \<Longrightarrow> i < b \<Longrightarrow> i < length xs \<Longrightarrow> xs ! i \<in> set (slice xs a b)"
  by (auto simp: slice_def in_set_conv_nth intro!: exI [of _ "i - a"])

text \<open>\<open>aligned[original_index] = valid[position]\<close> for the positions that a mask selects.\<close>

fun spread :: "bool list \<Rightarrow> 'a option list \<Rightarrow> 'a option list" where
  "spread [] xs = []"
| "spread (True # ms) (x # xs) = x # spread ms xs"
| "spread (True # ms) [] = None # spread ms []"
| "spread (False # ms) xs = None # spread ms xs"

section \<open>Prefix stability\<close>

text \<open>\<open>r'\<close>, computed from the first \<open>n\<close> of \<open>N\<close> elements, has the first \<open>n\<close> values of \<open>r\<close>.\<close>

definition prefix_of :: "nat \<Rightarrow> nat \<Rightarrow> 'a list result \<Rightarrow> 'a list result \<Rightarrow> bool" where
  "prefix_of N n r r' \<longleftrightarrow> (\<forall>xs. r = Inr xs \<longrightarrow> length xs = N \<and> r' = Inr (take n xs))"

definition causal :: "('b list \<Rightarrow> 'a list result) \<Rightarrow> bool" where
  "causal F \<longleftrightarrow> (\<forall>bs n. n \<le> length bs \<longrightarrow> prefix_of (length bs) n (F bs) (F (take n bs)))"

lemma causalI: "(\<And>bs n. n \<le> length bs \<Longrightarrow> prefix_of (length bs) n (F bs) (F (take n bs))) \<Longrightarrow> causal F"
  by (simp add: causal_def)

lemma causalD: "causal F \<Longrightarrow> n \<le> length bs \<Longrightarrow> prefix_of (length bs) n (F bs) (F (take n bs))"
  by (simp add: causal_def)

lemma causal_length: "causal F \<Longrightarrow> F bs = Inr xs \<Longrightarrow> length xs = length bs"
  using causalD [of F "length bs" bs] by (simp add: prefix_of_def)

lemma causal_take: "causal F \<Longrightarrow> F bs = Inr xs \<Longrightarrow> n \<le> length bs \<Longrightarrow> F (take n bs) = Inr (take n xs)"
  using causalD [of F n bs] by (simp add: prefix_of_def)

lemma prefix_same [causal_intros]: "(\<And>x. m = Inr x \<Longrightarrow> prefix_of N n (f x) (f' x)) \<Longrightarrow> prefix_of N n (rbind m f) (rbind m f')"
  by (auto simp: prefix_of_def result_simps)

lemma prefix_bind:
  "prefix_of N n r r' \<Longrightarrow> (\<And>xs. length xs = N \<Longrightarrow> prefix_of N n (f xs) (f' (take n xs))) \<Longrightarrow>
   prefix_of N n (rbind r f) (rbind r' f')"
  by (auto simp: prefix_of_def result_simps)

lemma prefix_Inl [causal_intros]: "prefix_of N n (Inl e) r"
  by (simp add: prefix_of_def)

lemma loop_res_length: "loop_res step is s = Inr xs \<Longrightarrow> length xs = length is"
  by (induction "is" arbitrary: s xs) (auto simp: result_simps split: prod.splits)

lemma loop_res_prefix:
  "loop_res step (is @ js) s = Inr xs \<Longrightarrow> (\<And>i s. i \<in> set is \<Longrightarrow> step' i s = step i s) \<Longrightarrow>
   loop_res step' is s = Inr (take (length is) xs)"
  by (induction "is" arbitrary: s xs) (auto simp: result_simps split: prod.splits)

lemma prefix_series [causal_intros]:
  assumes "n \<le> N" and "\<And>i s. i < n \<Longrightarrow> step' i s = step i s"
  shows "prefix_of N n (series N step s) (series n step' s)"
proof -
  have e: "[0..<N] = [0..<n] @ [n..<N]" using assms(1) by (metis le_add_diff_inverse upt_add_eq_append zero_le)
  have "loop_res step' [0..<n] s = Inr (take n xs)" if "loop_res step [0..<N] s = Inr xs" for xs
    using loop_res_prefix [of step "[0..<n]" "[n..<N]" s xs step'] that assms(2) unfolding e by simp
  then show ?thesis by (auto simp: prefix_of_def series_def dest: loop_res_length)
qed

lemma prefix_scan [causal_intros]:
  assumes "n \<le> N" and "\<And>i s. i < n \<Longrightarrow> step' i s = step i s"
  shows "prefix_of N n (scan N step s) (scan n step' s)"
  unfolding scan_def using assms by (intro prefix_series) auto

lemma points_series: "points n f = series n (\<lambda>i _. rbind (f i) (\<lambda>y. Inr (y, ()))) ()"
proof -
  have "map_res f is = loop_res (\<lambda>i _. rbind (f i) (\<lambda>y. Inr (y, ()))) is ()" for "is"
    by (induction "is") (auto simp: rbind_assoc)
  then show ?thesis by (simp add: points_def series_def)
qed

lemma prefix_points [causal_intros]:
  assumes "n \<le> N" and "\<And>i. i < n \<Longrightarrow> f' i = f i"
  shows "prefix_of N n (points N f) (points n f')"
  unfolding points_series using assms by (intro prefix_series) auto

lemma prefix_map [causal_intros]: "length xs = N \<Longrightarrow> prefix_of N n (Inr (map f xs)) (Inr (map f (take n xs)))"
  by (simp add: prefix_of_def take_map)

lemma points_length: "points n f = Inr xs \<Longrightarrow> length xs = n"
  by (auto simp: points_def dest: map_res_length)

lemma points_nth: "points n f = Inr xs \<Longrightarrow> i < n \<Longrightarrow> f i = Inr (xs ! i)"
  using map_res_nth [of f "[0..<n]" xs i] by (simp add: points_def)

text \<open>A series over the elements that satisfy a condition, put back to their places.\<close>

definition on_valid :: "('b \<Rightarrow> bool) \<Rightarrow> ('b list \<Rightarrow> 'a option list result) \<Rightarrow> 'b list \<Rightarrow> 'a option list result" where
  "on_valid P F bs = rbind (F (filter P bs)) (\<lambda>xs. Inr (spread (map P bs) xs))"

lemma spread_length [simp]: "length (spread ms xs) = length ms"
  by (induction ms xs rule: spread.induct) auto

lemma take_spread: "n \<le> length ms \<Longrightarrow> take n (spread ms xs) = spread (take n ms) (take (length (filter id (take n ms))) xs)"
proof (induction ms xs arbitrary: n rule: spread.induct)
  case (2 ms x xs)
  then show ?case by (cases n) auto
next
  case (3 ms)
  then show ?case by (cases n) auto
next
  case (4 ms xs)
  then show ?case by (cases n) auto
qed simp

lemma filter_take: "filter P (take n bs) = take (length (filter P (take n bs))) (filter P bs)"
proof -
  have "filter P bs = filter P (take n bs) @ filter P (drop n bs)" by (metis append_take_drop_id filter_append)
  then show ?thesis by (metis append_eq_conv_conj)
qed

lemma causal_on_valid:
  assumes "causal F"
  shows "causal (on_valid P F)"
proof (rule causalI)
  fix bs :: "'a list" and n
  assume n: "n \<le> length bs"
  let ?m = "length (filter P (take n bs))"
  have m: "?m \<le> length (filter P bs)" by (metis filter_take length_take min.cobounded1)
  show "prefix_of (length bs) n (on_valid P F bs) (on_valid P F (take n bs))"
    unfolding prefix_of_def
  proof (intro allI impI)
    fix ys
    assume "on_valid P F bs = Inr ys"
    then obtain xs where xs: "F (filter P bs) = Inr xs" "ys = spread (map P bs) xs" by (auto simp: on_valid_def result_simps)
    have "F (filter P (take n bs)) = Inr (take ?m xs)" using causal_take [OF assms xs(1) m] by (metis filter_take)
    moreover have "length (filter id (take n (map P bs))) = ?m" by (simp add: take_map filter_map comp_def)
    ultimately have "on_valid P F (take n bs) = Inr (take n ys)"
      using n take_spread [of n "map P bs" xs] by (simp add: on_valid_def xs(2) take_map)
    then show "length ys = length bs \<and> on_valid P F (take n bs) = Inr (take n ys)" by (simp add: xs(2))
  qed
qed

end
