(* ===== verification/Indicators.thy ===== *)
theory Indicators
  imports MarketData Timeseries
begin

text \<open>
  The daily indicators of \<open>ashare_lab/domain/signals/indicators.py\<close>.  Each takes the bars and returns one
  optional value per bar; \<open>None\<close> is the warm-up.  A loop over part of the indices of a result that is
  prefilled with \<open>None\<close> is a loop over all indices whose first steps yield \<open>None\<close>.  Sums, quotients and roots are
  rounded to the context they are computed in: \<open>loc\<close> inside \<open>with localcontext()\<close>, \<open>ctx\<close> outside.
\<close>

section \<open>Prices, volumes, periods\<close>

datatype price_field = OPEN | HIGH | LOW | CLOSE

fun price_of :: "price_field \<Rightarrow> daily_bar \<Rightarrow> rat" where
  "price_of OPEN b = amount (b_open b)"
| "price_of HIGH b = amount (b_high b)"
| "price_of LOW b = amount (b_low b)"
| "price_of CLOSE b = amount (b_close b)"

abbreviation high_of :: "daily_bar \<Rightarrow> rat" where "high_of b \<equiv> amount (b_high b)"
abbreviation low_of :: "daily_bar \<Rightarrow> rat" where "low_of b \<equiv> amount (b_low b)"
abbreviation close_of :: "daily_bar \<Rightarrow> rat" where "close_of b \<equiv> amount (b_close b)"

definition tradable :: "daily_bar \<Rightarrow> bool" where
  "tradable b \<longleftrightarrow> 0 < b_volume b"

definition require_positive_periods :: "nat list \<Rightarrow> unit result" where
  "require_positive_periods ps = checks (map (\<lambda>p. (p = 0, ValueError ''indicator period must be a positive integer'')) ps)"

section \<open>Simple moving averages\<close>

text \<open>The sum of the window is kept and moved: the entering value minus the leaving one is added.\<close>

definition average_step :: "rat list \<Rightarrow> nat \<Rightarrow> nat \<Rightarrow> rat \<Rightarrow> rat option \<times> rat" where
  "average_step vs p i running =
     (if i + 1 < p then (None, running)
      else let running' = (if i + 1 = p then dsum (take p vs) else loc (running + loc (vs ! i - vs ! (i - p))))
           in (Some (loc (running' / of_nat p)), running'))"

definition simple_moving_average :: "rat list \<Rightarrow> nat \<Rightarrow> rat option list result" where
  "simple_moving_average vs p = scan (length vs) (average_step vs p) 0"

definition moving_average :: "nat \<Rightarrow> price_field \<Rightarrow> daily_bar list \<Rightarrow> rat option list result" where
  "moving_average p field bars =
     rbind (require_positive_periods [p]) (\<lambda>_. simple_moving_average (map (price_of field) bars) p)"

definition volume_average :: "nat \<Rightarrow> daily_bar list \<Rightarrow> rat option list result" where
  "volume_average p bars =
     rbind (require_positive_periods [p]) (\<lambda>_. simple_moving_average (map (\<lambda>b. of_int (b_volume b)) bars) p)"

definition market_amount :: "daily_bar list \<Rightarrow> rat option list result" where
  "market_amount bars = Inr (map (\<lambda>b. Some (b_turnover b)) bars)"

definition amount_average :: "nat \<Rightarrow> daily_bar list \<Rightarrow> rat option list result" where
  "amount_average p bars =
     rbind (require_positive_periods [p]) (\<lambda>_. simple_moving_average (map b_turnover bars) p)"

definition moving_average_cross :: "nat \<Rightarrow> nat \<Rightarrow> price_field \<Rightarrow> daily_bar list \<Rightarrow> (rat \<times> rat) option list result" where
  "moving_average_cross fast slow field bars =
     rbind (require_positive_periods [fast, slow]) (\<lambda>_.
     rbind (checks [(fast \<ge> slow, ValueError ''moving-average fast period must be less than slow period'')]) (\<lambda>_.
     rbind (moving_average fast field bars) (\<lambda>fs.
     rbind (moving_average slow field bars) (\<lambda>ss.
       points (length bars) (\<lambda>i. Inr (case (fs ! i, ss ! i) of (Some f, Some s) \<Rightarrow> Some (f, s) | _ \<Rightarrow> None))))))"

definition bull_and_bear_index ::
  "nat \<Rightarrow> nat \<Rightarrow> nat \<Rightarrow> nat \<Rightarrow> price_field \<Rightarrow> daily_bar list \<Rightarrow> rat option list result" where
  "bull_and_bear_index p1 p2 p3 p4 field bars =
     rbind (require_positive_periods [p1, p2, p3, p4]) (\<lambda>_.
     rbind (checks [(\<not> (p1 < p2 \<and> p2 < p3 \<and> p3 < p4), ValueError ''BBI periods must be strictly increasing'')]) (\<lambda>_.
     rbind (moving_average p1 field bars) (\<lambda>s1.
     rbind (moving_average p2 field bars) (\<lambda>s2.
     rbind (moving_average p3 field bars) (\<lambda>s3.
     rbind (moving_average p4 field bars) (\<lambda>s4.
       points (length bars) (\<lambda>i. Inr (case (s1 ! i, s2 ! i, s3 ! i, s4 ! i) of
           (Some a, Some b, Some c, Some d) \<Rightarrow> Some (loc (dsum [a, b, c, d] / 4))
         | _ \<Rightarrow> None))))))))"

definition simple_bias :: "nat \<Rightarrow> price_field \<Rightarrow> daily_bar list \<Rightarrow> rat option list result" where
  "simple_bias p field bars =
     rbind (moving_average p field bars) (\<lambda>averages.
       points (length bars) (\<lambda>i. Inr (case averages ! i of
           None \<Rightarrow> None
         | Some a \<Rightarrow> if a = 0 then None else Some (loc (100 * loc (loc (price_of field (bars ! i) / a) - 1))))))"

section \<open>Exponential moving averages\<close>

definition ema_step :: "rat list \<Rightarrow> nat \<Rightarrow> nat \<Rightarrow> rat \<Rightarrow> rat \<times> rat" where
  "ema_step vs p i previous =
     (let alpha = loc (2 / of_nat (p + 1));
          current = (if i = 0 then vs ! 0 else loc (previous + loc (alpha * loc (vs ! i - previous))))
      in (current, current))"

definition ema_from_first :: "rat list \<Rightarrow> nat \<Rightarrow> rat list result" where
  "ema_from_first vs p = scan (length vs) (ema_step vs p) 0"

definition exponential_moving_average :: "nat \<Rightarrow> price_field \<Rightarrow> daily_bar list \<Rightarrow> rat option list result" where
  "exponential_moving_average p field bars =
     rbind (require_positive_periods [p]) (\<lambda>_.
     rbind (ema_from_first (map (price_of field) bars) p) (\<lambda>recursive.
       points (length bars) (\<lambda>i. Inr (if i + 1 < p then None else Some (recursive ! i)))))"

definition ema_bias :: "nat \<Rightarrow> price_field \<Rightarrow> daily_bar list \<Rightarrow> rat option list result" where
  "ema_bias p field bars =
     rbind (exponential_moving_average p field bars) (\<lambda>averages.
       points (length bars) (\<lambda>i. Inr (case averages ! i of
           None \<Rightarrow> None
         | Some a \<Rightarrow> if a = 0 then None else Some (loc (loc (loc (price_of field (bars ! i) / a) - 1) * 100)))))"

record macd_point =
  macd_line :: rat
  signal_line :: rat
  macd_histogram :: rat

definition macd :: "nat \<Rightarrow> nat \<Rightarrow> nat \<Rightarrow> daily_bar list \<Rightarrow> macd_point option list result" where
  "macd fast slow signal bars =
     rbind (require_positive_periods [fast, slow, signal]) (\<lambda>_.
     rbind (checks [(fast \<ge> slow, ValueError ''MACD fast period must be less than slow period'')]) (\<lambda>_.
     rbind (ema_from_first (map close_of bars) fast) (\<lambda>fs.
     rbind (ema_from_first (map close_of bars) slow) (\<lambda>ss.
     rbind (points (length bars) (\<lambda>i. Inr (ctx (fs ! i - ss ! i)))) (\<lambda>dif.
     rbind (ema_from_first dif signal) (\<lambda>signals.
       points (length bars) (\<lambda>i. Inr (
         if i + 2 < slow + signal then None
         else Some \<lparr>macd_line = dif ! i, signal_line = signals ! i,
                    macd_histogram = ctx (2 * ctx (dif ! i - signals ! i))\<rparr>))))))))"

section \<open>Returns and ranges\<close>

definition period_return_pct :: "nat \<Rightarrow> price_field \<Rightarrow> daily_bar list \<Rightarrow> rat option list result" where
  "period_return_pct p field bars =
     rbind (require_positive_periods [p]) (\<lambda>_.
       points (length bars) (\<lambda>i.
         if i < p then Inr None
         else rbind (quot loc (price_of field (bars ! i)) (price_of field (bars ! (i - p)))) (\<lambda>r.
                Inr (Some (loc (loc (r - 1) * 100))))))"

definition rate_of_change :: "nat \<Rightarrow> price_field \<Rightarrow> daily_bar list \<Rightarrow> rat option list result" where
  "rate_of_change p field bars = period_return_pct p field bars"

definition momentum :: "nat \<Rightarrow> price_field \<Rightarrow> daily_bar list \<Rightarrow> rat option list result" where
  "momentum p field bars =
     rbind (require_positive_periods [p]) (\<lambda>_.
       points (length bars) (\<lambda>i. Inr (
         if i < p then None else Some (ctx (price_of field (bars ! i) - price_of field (bars ! (i - p)))))))"

definition rolling_high :: "nat \<Rightarrow> price_field \<Rightarrow> daily_bar list \<Rightarrow> rat option list result" where
  "rolling_high p field bars =
     rbind (require_positive_periods [p]) (\<lambda>_.
       points (length bars) (\<lambda>i. Inr (
         if i < p then None else Some (Max (set (map (price_of field) (slice bars (i - p) i)))))))"

definition streak_step :: "daily_bar list \<Rightarrow> nat \<Rightarrow> nat \<Rightarrow> nat \<Rightarrow> rat option \<times> nat" where
  "streak_step bars days i streak =
     (if i = 0 then (None, streak)
      else let streak' = (if close_of (bars ! i) > close_of (bars ! (i - 1)) then streak + 1 else 0)
           in (if i \<ge> days then Some (of_nat streak') else None, streak'))"

definition consecutive_up :: "nat \<Rightarrow> daily_bar list \<Rightarrow> rat option list result" where
  "consecutive_up days bars =
     rbind (require_positive_periods [days]) (\<lambda>_. scan (length bars) (streak_step bars days) 0)"

definition amplitude_pct :: "daily_bar list \<Rightarrow> rat option list result" where
  "amplitude_pct bars =
     points (length bars) (\<lambda>i.
       if i = 0 then Inr None
       else rbind (quot loc (loc (100 * loc (high_of (bars ! i) - low_of (bars ! i)))) (close_of (bars ! (i - 1)))) (\<lambda>r.
              Inr (Some r)))"

definition true_range_at :: "daily_bar list \<Rightarrow> nat \<Rightarrow> rat" where
  "true_range_at bars i =
     Max {ctx (high_of (bars ! i) - low_of (bars ! i)),
          ctx \<bar>ctx (high_of (bars ! i) - close_of (bars ! (i - 1)))\<bar>,
          ctx \<bar>ctx (low_of (bars ! i) - close_of (bars ! (i - 1)))\<bar>}"

definition true_range :: "daily_bar list \<Rightarrow> rat option list result" where
  "true_range bars = points (length bars) (\<lambda>i. Inr (if i = 0 then None else Some (true_range_at bars i)))"

text \<open>Wilder's smoothing: an arithmetic seed at index \<open>p\<close>, then the weight \<open>1/p\<close> for the new value.\<close>

definition wilder :: "nat \<Rightarrow> rat \<Rightarrow> rat \<Rightarrow> rat" where
  "wilder p previous current = loc (loc (loc (previous * of_nat (p - 1)) + current) / of_nat p)"

definition atr_step :: "daily_bar list \<Rightarrow> nat \<Rightarrow> nat \<Rightarrow> rat \<Rightarrow> rat option \<times> rat" where
  "atr_step bars p i previous =
     (if i < p then (None, previous)
      else let current = (if i = p then loc (dsum (map (true_range_at bars) [1..<p + 1]) / of_nat p)
                          else wilder p previous (true_range_at bars i))
           in (Some current, current))"

definition average_true_range :: "nat \<Rightarrow> daily_bar list \<Rightarrow> rat option list result" where
  "average_true_range p bars =
     rbind (require_positive_periods [p]) (\<lambda>_. scan (length bars) (atr_step bars p) 0)"

definition normalized_average_true_range :: "nat \<Rightarrow> daily_bar list \<Rightarrow> rat option list result" where
  "normalized_average_true_range p bars =
     rbind (average_true_range p bars) (\<lambda>averages.
       points (length bars) (\<lambda>i. Inr (case averages ! i of
           None \<Rightarrow> None
         | Some a \<Rightarrow> if close_of (bars ! i) > 0 then Some (loc (loc (100 * a) / close_of (bars ! i))) else None)))"

section \<open>Oscillators\<close>

definition highest :: "daily_bar list \<Rightarrow> rat" where
  "highest window = Max (set (map high_of window))"

definition lowest :: "daily_bar list \<Rightarrow> rat" where
  "lowest window = Min (set (map low_of window))"

definition raw_k :: "nat \<Rightarrow> daily_bar list \<Rightarrow> nat \<Rightarrow> rat" where
  "raw_k p bars i =
     (let window = slice bars (i + 1 - p) (i + 1);
          spread = loc (highest window - lowest window)
      in if spread = 0 then 50
         else loc (loc (100 * loc (close_of (bars ! i) - lowest window)) / spread))"

definition stochastic_oscillator :: "nat \<Rightarrow> nat \<Rightarrow> daily_bar list \<Rightarrow> (rat \<times> rat) option list result" where
  "stochastic_oscillator k_period d_period bars =
     rbind (require_positive_periods [k_period, d_period]) (\<lambda>_.
       points (length bars) (\<lambda>i. Inr (
         if i + 2 < k_period + d_period then None
         else Some (raw_k k_period bars i,
                    loc (dsum (map (raw_k k_period bars) [i + 1 - d_period..<i + 1]) / of_nat d_period)))))"

definition williams_r :: "nat \<Rightarrow> daily_bar list \<Rightarrow> rat option list result" where
  "williams_r p bars =
     rbind (require_positive_periods [p]) (\<lambda>_.
       points (length bars) (\<lambda>i. Inr (
         if i + 1 < p then None
         else
           let window = slice bars (i + 1 - p) (i + 1);
               spread = loc (highest window - lowest window)
           in Some (if spread = 0 then - 50
                    else loc (loc (- 100 * loc (highest window - close_of (bars ! i))) / spread)))))"

record kdj_point =
  kdj_k :: rat
  kdj_d :: rat
  kdj_j :: rat

definition rsv :: "nat \<Rightarrow> daily_bar list \<Rightarrow> nat \<Rightarrow> rat" where
  "rsv p bars i =
     (let window = slice bars (i + 1 - p) (i + 1);
          spread = loc (highest window - lowest window)
      in if spread = 0 then 50
         else loc (loc (loc (close_of (bars ! i) - lowest window) / spread) * 100))"

definition kdj_step :: "nat \<Rightarrow> nat \<Rightarrow> nat \<Rightarrow> daily_bar list \<Rightarrow> nat \<Rightarrow> rat \<times> rat \<Rightarrow> kdj_point option \<times> rat \<times> rat" where
  "kdj_step p k_smoothing d_smoothing bars i = (\<lambda>(previous_k, previous_d).
     if i + 1 < p then (None, previous_k, previous_d)
     else
       let k = wilder k_smoothing previous_k (rsv p bars i);
           d = wilder d_smoothing previous_d k
       in (Some \<lparr>kdj_k = k, kdj_d = d, kdj_j = loc (loc (3 * k) - loc (2 * d))\<rparr>, k, d))"

definition kdj :: "nat \<Rightarrow> nat \<Rightarrow> nat \<Rightarrow> daily_bar list \<Rightarrow> kdj_point option list result" where
  "kdj p k_smoothing d_smoothing bars =
     rbind (require_positive_periods [p, k_smoothing, d_smoothing]) (\<lambda>_.
       scan (length bars) (kdj_step p k_smoothing d_smoothing bars) (50, 50))"

definition rsi_value :: "rat \<Rightarrow> rat \<Rightarrow> rat" where
  "rsi_value gain loss =
     (if gain = 0 \<and> loss = 0 then 50
      else if loss = 0 then 100
      else if gain = 0 then 0
      else loc (100 - loc (100 / loc (1 + loc (gain / loss)))))"

definition gain_at :: "daily_bar list \<Rightarrow> nat \<Rightarrow> rat" where
  "gain_at bars i = max (loc (close_of (bars ! i) - close_of (bars ! (i - 1)))) 0"

definition loss_at :: "daily_bar list \<Rightarrow> nat \<Rightarrow> rat" where
  "loss_at bars i = max (loc (- loc (close_of (bars ! i) - close_of (bars ! (i - 1))))) 0"

definition rsi_step :: "nat \<Rightarrow> daily_bar list \<Rightarrow> nat \<Rightarrow> rat \<times> rat \<Rightarrow> rat option \<times> rat \<times> rat" where
  "rsi_step p bars i = (\<lambda>(average_gain, average_loss).
     if i < p then (None, average_gain, average_loss)
     else
       let gain = (if i = p then loc (dsum (map (gain_at bars) [1..<p + 1]) / of_nat p)
                   else wilder p average_gain (gain_at bars i));
           loss = (if i = p then loc (dsum (map (loss_at bars) [1..<p + 1]) / of_nat p)
                   else wilder p average_loss (loss_at bars i))
       in (Some (rsi_value gain loss), gain, loss))"

definition rsi :: "nat \<Rightarrow> daily_bar list \<Rightarrow> rat option list result" where
  "rsi p bars =
     rbind (require_positive_periods [p]) (\<lambda>_. scan (length bars) (rsi_step p bars) (0, 0))"

definition typical_price :: "daily_bar \<Rightarrow> rat" where
  "typical_price b = ctx (ctx (ctx (high_of b + low_of b) + close_of b) / 3)"

definition cci :: "nat \<Rightarrow> rat \<Rightarrow> daily_bar list \<Rightarrow> rat option list result" where
  "cci p constant bars =
     rbind (require_positive_periods [p]) (\<lambda>_.
     rbind (checks [(constant \<le> 0, ValueError ''CCI constant must be a positive Decimal'')]) (\<lambda>_.
       points (length bars) (\<lambda>i.
         if i + 1 < p then Inr None
         else
           let window = map typical_price (slice bars (i + 1 - p) (i + 1));
               mean = loc (dsum window / of_nat p);
               deviation = loc (dsum (map (\<lambda>v. loc \<bar>loc (v - mean)\<bar>) window) / of_nat p)
           in if deviation = 0 then Inr (Some 0)
              else rbind (quot loc (loc (typical_price (bars ! i) - mean)) (loc (constant * deviation))) (\<lambda>r. Inr (Some r)))))"

section \<open>Bands and deviations\<close>

record band_point =
  band_middle :: rat
  band_upper :: rat
  band_lower :: rat

definition window_mean :: "nat \<Rightarrow> rat list \<Rightarrow> rat" where
  "window_mean p window = loc (dsum window / of_nat p)"

text \<open>The population standard deviation of a window.\<close>

definition window_stddev :: "nat \<Rightarrow> rat list \<Rightarrow> rat result" where
  "window_stddev p window =
     sqrt_to 34 (loc (dsum (map (\<lambda>v. square (loc (v - window_mean p window))) window) / of_nat p))"

definition bollinger_bands :: "nat \<Rightarrow> rat \<Rightarrow> price_field \<Rightarrow> daily_bar list \<Rightarrow> band_point option list result" where
  "bollinger_bands p multiplier field bars =
     rbind (require_positive_periods [p]) (\<lambda>_.
     rbind (checks [(multiplier \<le> 0, ValueError ''Bollinger stddev_multiplier must be a positive Decimal'')]) (\<lambda>_.
       points (length bars) (\<lambda>i.
         if i + 1 < p then Inr None
         else
           let window = map (price_of field) (slice bars (i + 1 - p) (i + 1));
               middle = window_mean p window
           in rbind (window_stddev p window) (\<lambda>deviation.
                let width = loc (deviation * multiplier)
                in Inr (Some \<lparr>band_middle = middle, band_upper = loc (middle + width), band_lower = loc (middle - width)\<rparr>)))))"

definition donchian_channel :: "nat \<Rightarrow> daily_bar list \<Rightarrow> band_point option list result" where
  "donchian_channel p bars =
     rbind (require_positive_periods [p]) (\<lambda>_.
       points (length bars) (\<lambda>i. Inr (
         if i < p then None
         else
           let window = slice bars (i - p) i;
               upper = highest window;
               lower = lowest window
           in Some \<lparr>band_middle = loc (loc (upper + lower) / 2), band_upper = upper, band_lower = lower\<rparr>)))"

text \<open>The returns are computed for all bars before any deviation is.\<close>

definition simple_returns :: "price_field \<Rightarrow> daily_bar list \<Rightarrow> rat list result" where
  "simple_returns field bars =
     points (length bars) (\<lambda>i.
       if i = 0 then Inr 0
       else rbind (quot ctx (price_of field (bars ! i)) (price_of field (bars ! (i - 1)))) (\<lambda>r. Inr (ctx (100 * ctx (r - 1)))))"

definition return_stddev :: "nat \<Rightarrow> price_field \<Rightarrow> daily_bar list \<Rightarrow> rat option list result" where
  "return_stddev p field bars =
     rbind (require_positive_periods [p]) (\<lambda>_.
     rbind (simple_returns field bars) (\<lambda>returns.
       points (length bars) (\<lambda>i.
         if i < p then Inr None
         else rbind (window_stddev p (slice returns (i + 1 - p) (i + 1))) (\<lambda>d. Inr (Some d)))))"

definition log_returns :: "price_field \<Rightarrow> daily_bar list \<Rightarrow> rat list result" where
  "log_returns field bars =
     points (length bars) (\<lambda>i.
       if i = 0 then Inr 0
       else rbind (quot ctx (price_of field (bars ! i)) (price_of field (bars ! (i - 1)))) (ln_to 28))"

definition historical_volatility :: "nat \<Rightarrow> nat \<Rightarrow> price_field \<Rightarrow> daily_bar list \<Rightarrow> rat option list result" where
  "historical_volatility p annualization_sessions field bars =
     rbind (require_positive_periods [p, annualization_sessions]) (\<lambda>_.
     rbind (log_returns field bars) (\<lambda>returns.
     rbind (sqrt_to 34 (of_nat annualization_sessions)) (\<lambda>root.
     let scale = loc (root * 100) in
       points (length bars) (\<lambda>i.
         if i < p then Inr None
         else rbind (window_stddev p (slice returns (i + 1 - p) (i + 1))) (\<lambda>d. Inr (Some (loc (d * scale))))))))"

section \<open>Volume\<close>

text \<open>The mean of the previous sessions with volume; the history grows after the average is taken.\<close>

definition previous_volume_step :: "daily_bar list \<Rightarrow> nat \<Rightarrow> nat \<Rightarrow> rat list \<Rightarrow> rat option \<times> rat list" where
  "previous_volume_step bars p i history =
     (let volume = of_int (b_volume (bars ! i))
      in if volume \<le> 0 then (None, history)
         else (if length history \<ge> p then Some (loc (dsum (drop (length history - p) history) / of_nat p)) else None,
               history @ [volume]))"

definition previous_volume_average :: "nat \<Rightarrow> daily_bar list \<Rightarrow> rat option list result" where
  "previous_volume_average p bars =
     rbind (require_positive_periods [p]) (\<lambda>_. scan (length bars) (previous_volume_step bars p) [])"

definition relative_volume :: "nat \<Rightarrow> daily_bar list \<Rightarrow> rat option list result" where
  "relative_volume p bars =
     rbind (previous_volume_average p bars) (\<lambda>baselines.
       points (length bars) (\<lambda>i. Inr (case baselines ! i of
           None \<Rightarrow> None
         | Some baseline \<Rightarrow>
             if baseline \<le> 0 \<or> b_volume (bars ! i) \<le> 0 then None
             else Some (loc (of_int (b_volume (bars ! i)) / baseline)))))"

record volume_price_point =
  vp_relative_volume :: rat
  vp_return_pct :: rat

definition volume_price_step ::
  "daily_bar list \<Rightarrow> rat option list \<Rightarrow> nat \<Rightarrow> nat option \<Rightarrow> (volume_price_point option \<times> nat option) result" where
  "volume_price_step bars relative i previous =
     (if b_volume (bars ! i) \<le> 0 then Inr (None, previous)
      else
        case (relative ! i, previous) of
          (Some ratio, Some j) \<Rightarrow>
            rbind (quot loc (close_of (bars ! i)) (close_of (bars ! j))) (\<lambda>r.
              Inr (Some \<lparr>vp_relative_volume = ratio, vp_return_pct = loc (loc (r - 1) * 100)\<rparr>, Some i))
        | _ \<Rightarrow> Inr (None, Some i))"

text \<open>\<open>previous_valid_index\<close> never runs ahead of the loop, so the bars before \<open>i\<close> contain it.\<close>

definition volume_price_points :: "nat \<Rightarrow> daily_bar list \<Rightarrow> volume_price_point option list result" where
  "volume_price_points p bars =
     rbind (relative_volume p bars) (\<lambda>relative.
       series (length bars) (volume_price_step bars relative) None)"

definition obv_step :: "daily_bar list \<Rightarrow> nat \<Rightarrow> (rat \<times> rat) option \<Rightarrow> rat option \<times> (rat \<times> rat) option" where
  "obv_step bars i state =
     (let volume = of_int (b_volume (bars ! i)); close = close_of (bars ! i)
      in if b_volume (bars ! i) \<le> 0 then (None, state)
         else
           let running = (case state of
                 None \<Rightarrow> volume
               | Some (previous, previous_close) \<Rightarrow>
                   if close > previous_close then ctx (previous + volume)
                   else if close < previous_close then ctx (previous - volume) else previous)
           in (Some running, Some (running, close)))"

definition on_balance_volume :: "daily_bar list \<Rightarrow> rat option list result" where
  "on_balance_volume bars = scan (length bars) (obv_step bars) None"

section \<open>Directional movement\<close>

record directional_point =
  dp_adx :: rat
  dp_plus_di :: rat
  dp_minus_di :: rat

definition plus_move :: "daily_bar list \<Rightarrow> nat \<Rightarrow> rat" where
  "plus_move bars i =
     (let up = ctx (high_of (bars ! i) - high_of (bars ! (i - 1)));
          down = ctx (low_of (bars ! (i - 1)) - low_of (bars ! i))
      in if up > down \<and> up > 0 then up else 0)"

definition minus_move :: "daily_bar list \<Rightarrow> nat \<Rightarrow> rat" where
  "minus_move bars i =
     (let up = ctx (high_of (bars ! i) - high_of (bars ! (i - 1)));
          down = ctx (low_of (bars ! (i - 1)) - low_of (bars ! i))
      in if down > up \<and> down > 0 then down else 0)"

text \<open>The sums of true range and movements: the first \<open>p\<close> values, then Wilder's running form.\<close>

definition running_sum :: "nat \<Rightarrow> (nat \<Rightarrow> rat) \<Rightarrow> nat \<Rightarrow> rat \<Rightarrow> rat" where
  "running_sum p f i running =
     (if i = p then dsum (map f [1..<p + 1]) else loc (loc (running - loc (running / of_nat p)) + f i))"

definition directional_index :: "rat \<Rightarrow> rat \<Rightarrow> rat" where
  "directional_index running spread_sum = (if spread_sum = 0 then 0 else loc (loc (100 * running) / spread_sum))"

text \<open>+DI, -DI and DX of a session.\<close>

definition directional_step ::
  "nat \<Rightarrow> daily_bar list \<Rightarrow> nat \<Rightarrow> rat \<times> rat \<times> rat \<Rightarrow> (rat \<times> rat \<times> rat) option \<times> rat \<times> rat \<times> rat" where
  "directional_step p bars i = (\<lambda>(spread_sum, plus, minus).
     if i < p then (None, spread_sum, plus, minus)
     else
       let spread_sum = running_sum p (true_range_at bars) i spread_sum;
           plus = running_sum p (plus_move bars) i plus;
           minus = running_sum p (minus_move bars) i minus;
           plus_di = directional_index plus spread_sum;
           minus_di = directional_index minus spread_sum;
           running = loc (plus_di + minus_di);
           dx = (if running = 0 then 0 else loc (loc (100 * loc \<bar>loc (plus_di - minus_di)\<bar>) / running))
       in (Some (plus_di, minus_di, dx), spread_sum, plus, minus))"

definition dx_at :: "(rat \<times> rat \<times> rat) option list \<Rightarrow> nat \<Rightarrow> rat" where
  "dx_at dis i = (case dis ! i of Some (_, _, dx) \<Rightarrow> dx | None \<Rightarrow> 0)"

definition adx_step ::
  "nat \<Rightarrow> (rat \<times> rat \<times> rat) option list \<Rightarrow> nat \<Rightarrow> rat \<Rightarrow> directional_point option \<times> rat" where
  "adx_step p dis i previous =
     (if i + 1 < 2 * p then (None, previous)
      else
        case dis ! i of
          None \<Rightarrow> (None, previous)
        | Some (plus_di, minus_di, dx) \<Rightarrow>
            let adx = (if i + 1 = 2 * p then loc (dsum (map (dx_at dis) [p..<2 * p]) / of_nat p) else wilder p previous dx)
            in (Some \<lparr>dp_adx = adx, dp_plus_di = plus_di, dp_minus_di = minus_di\<rparr>, adx))"

definition valid_directional_movement :: "nat \<Rightarrow> daily_bar list \<Rightarrow> directional_point option list result" where
  "valid_directional_movement p bars =
     rbind (scan (length bars) (directional_step p bars) (0, 0, 0)) (\<lambda>dis. scan (length bars) (adx_step p dis) 0)"

definition directional_movement :: "nat \<Rightarrow> daily_bar list \<Rightarrow> directional_point option list result" where
  "directional_movement p bars =
     rbind (require_positive_periods [p]) (\<lambda>_. on_valid tradable (valid_directional_movement p) bars)"

section \<open>Trend regimes\<close>

datatype trend_regime = UP_TREND | DOWN_TREND | RANGE_TREND

record trend_point =
  tp_regime :: trend_regime
  tp_short_average :: rat
  tp_long_average :: rat
  tp_movement :: directional_point

record trend_parameters =
  tr_short_period :: nat
  tr_long_period :: nat
  tr_slope_lookback :: nat
  tr_adx_period :: nat
  tr_adx_threshold :: rat
  tr_confirmation_days :: nat
  tr_stability_bars :: nat

definition raw_regime :: "rat \<Rightarrow> rat \<Rightarrow> rat \<Rightarrow> rat \<Rightarrow> rat \<Rightarrow> directional_point \<Rightarrow> trend_regime" where
  "raw_regime threshold close short_average long_average prior_short dmi =
     (if close > short_average \<and> short_average > long_average \<and> short_average > prior_short \<and>
         dp_adx dmi \<ge> threshold \<and> dp_plus_di dmi > dp_minus_di dmi then UP_TREND
      else if close < short_average \<and> short_average < long_average \<and> short_average < prior_short \<and>
         dp_adx dmi \<ge> threshold \<and> dp_minus_di dmi > dp_plus_di dmi then DOWN_TREND
      else RANGE_TREND)"

text \<open>The raw regimes of all sessions so far; a trend is confirmed when the last ones agree.\<close>

definition trend_step ::
  "trend_parameters \<Rightarrow> daily_bar list \<Rightarrow> rat option list \<Rightarrow> rat option list \<Rightarrow> directional_point option list \<Rightarrow>
   nat \<Rightarrow> trend_regime list \<Rightarrow> trend_point option \<times> trend_regime list" where
  "trend_step q bars shorts longs dmis i regimes =
     (case (shorts ! i, longs ! i, dmis ! i, if i < tr_slope_lookback q then None else shorts ! (i - tr_slope_lookback q)) of
        (Some short_average, Some long_average, Some dmi, Some prior_short) \<Rightarrow>
          if i + 1 < tr_stability_bars q then (None, regimes @ [RANGE_TREND])
          else
            let raw = raw_regime (tr_adx_threshold q) (close_of (bars ! i)) short_average long_average prior_short dmi;
                regimes' = regimes @ [raw];
                days = tr_confirmation_days q;
                confirmed = (if raw \<noteq> RANGE_TREND \<and> length regimes' \<ge> days \<and>
                                list_all (\<lambda>r. r = raw) (drop (length regimes' - days) regimes')
                             then raw else RANGE_TREND)
            in (Some \<lparr>tp_regime = confirmed, tp_short_average = short_average, tp_long_average = long_average,
                      tp_movement = dmi\<rparr>, regimes')
      | _ \<Rightarrow> (None, regimes @ [RANGE_TREND]))"

definition valid_stage_trend :: "trend_parameters \<Rightarrow> daily_bar list \<Rightarrow> trend_point option list result" where
  "valid_stage_trend q bars =
     rbind (moving_average (tr_short_period q) CLOSE bars) (\<lambda>shorts.
     rbind (moving_average (tr_long_period q) CLOSE bars) (\<lambda>longs.
     rbind (directional_movement (tr_adx_period q) bars) (\<lambda>dmis.
       scan (length bars) (trend_step q bars shorts longs dmis) [])))"

definition stage_trend :: "trend_parameters \<Rightarrow> daily_bar list \<Rightarrow> trend_point option list result" where
  "stage_trend q bars =
     rbind (require_positive_periods [tr_short_period q, tr_long_period q, tr_slope_lookback q, tr_adx_period q,
              tr_confirmation_days q, tr_stability_bars q]) (\<lambda>_.
     rbind (checks [(tr_short_period q \<ge> tr_long_period q, ValueError ''short trend period must be less than long period''),
                    (tr_adx_threshold q < 0, ValueError ''ADX threshold must be a finite non-negative Decimal'')]) (\<lambda>_.
       on_valid tradable (valid_stage_trend q) bars))"

section \<open>Divergence of price and volume\<close>

text \<open>A session of the filtered list carries its index in the original one.\<close>

type_synonym placed_bar = "nat \<times> daily_bar"

record divergence_point =
  vd_bearish :: bool
  vd_bullish :: bool
  vd_current :: "nat option"
  vd_previous :: "nat option"
  vd_price_change :: "rat option"
  vd_obv_change :: "rat option"
  vd_obv_threshold :: "rat option"

record divergence_parameters =
  dv_left_bars :: nat
  dv_right_bars :: nat
  dv_min_separation :: nat
  dv_max_separation :: nat
  dv_price_threshold :: rat
  dv_obv_threshold :: rat
  dv_volume_period :: nat

datatype pivot_kind = HIGH_PIVOT | LOW_PIVOT

definition confirmed_pivot_kind :: "daily_bar list \<Rightarrow> nat \<Rightarrow> nat \<Rightarrow> nat \<Rightarrow> pivot_kind option" where
  "confirmed_pivot_kind bars pivot left right =
     (if pivot < left \<or> pivot + right \<ge> length bars then None
      else
        let others = slice bars (pivot - left) pivot @ slice bars (pivot + 1) (pivot + right + 1)
        in if list_all (\<lambda>b. high_of (bars ! pivot) > high_of b) others then Some HIGH_PIVOT
           else if list_all (\<lambda>b. low_of (bars ! pivot) < low_of b) others then Some LOW_PIVOT
           else None)"

definition latest_separated_pivot :: "nat list \<Rightarrow> nat \<Rightarrow> nat \<Rightarrow> nat \<Rightarrow> nat option" where
  "latest_separated_pivot pivots current least most =
     (case filter (\<lambda>p. least \<le> current - p \<and> current - p \<le> most) (rev pivots) of [] \<Rightarrow> None | p # _ \<Rightarrow> Some p)"

definition divergence_of ::
  "divergence_parameters \<Rightarrow> placed_bar list \<Rightarrow> rat option list \<Rightarrow> nat \<Rightarrow> nat \<Rightarrow> bool \<Rightarrow> divergence_point result" where
  "divergence_of q places obv previous current bearish =
     (let bar_at = (\<lambda>i. snd (places ! i));
          value = (\<lambda>i. if bearish then high_of (bar_at i) else low_of (bar_at i));
          obv_at = (\<lambda>i. case obv ! i of Some v \<Rightarrow> v | None \<Rightarrow> 0)
      in rbind (if bearish then quot loc (value current) (value previous) else quot loc (value previous) (value current)) (\<lambda>r.
         let price_change = loc (loc (r - 1) * 100);
             obv_change = loc (if bearish then obv_at previous - obv_at current else obv_at current - obv_at previous);
             volumes = map (\<lambda>b. of_int (b_volume (snd b))) (slice places (current - dv_volume_period q) current);
             threshold = loc (loc (dsum volumes / of_nat (dv_volume_period q)) * dv_obv_threshold q);
             triggered = (price_change \<ge> dv_price_threshold q \<and> obv_change \<ge> threshold)
         in Inr \<lparr>vd_bearish = (bearish \<and> triggered), vd_bullish = (\<not> bearish \<and> triggered),
                 vd_current = Some (fst (places ! current)), vd_previous = Some (fst (places ! previous)),
                 vd_price_change = Some price_change, vd_obv_change = Some obv_change, vd_obv_threshold = Some threshold\<rparr>))"

definition no_divergence :: divergence_point where
  "no_divergence = \<lparr>vd_bearish = False, vd_bullish = False, vd_current = None, vd_previous = None, vd_price_change = None,
     vd_obv_change = None, vd_obv_threshold = None\<rparr>"

text \<open>The pivots found so far: the high ones and the low ones.\<close>

definition divergence_step ::
  "divergence_parameters \<Rightarrow> placed_bar list \<Rightarrow> rat option list \<Rightarrow> nat \<Rightarrow> nat list \<times> nat list \<Rightarrow>
   (divergence_point option \<times> nat list \<times> nat list) result" where
  "divergence_step q places obv i = (\<lambda>(highs, lows).
     if i < dv_left_bars q + dv_right_bars q then Inr (None, highs, lows)
     else
       let pivot = i - dv_right_bars q;
           ready = max (dv_volume_period q) (dv_left_bars q + dv_min_separation q) + dv_right_bars q;
           compare = (\<lambda>pivots bearish.
             case latest_separated_pivot pivots pivot (dv_min_separation q) (dv_max_separation q) of
               None \<Rightarrow> Inr no_divergence
             | Some previous \<Rightarrow> divergence_of q places obv previous pivot bearish);
           out = (\<lambda>point. if i \<ge> ready then Some point else None)
       in case confirmed_pivot_kind (map snd places) pivot (dv_left_bars q) (dv_right_bars q) of
            Some HIGH_PIVOT \<Rightarrow> rbind (compare highs True) (\<lambda>point. Inr (out point, highs @ [pivot], lows))
          | Some LOW_PIVOT \<Rightarrow> rbind (compare lows False) (\<lambda>point. Inr (out point, highs, lows @ [pivot]))
          | None \<Rightarrow> Inr (out no_divergence, highs, lows))"

definition placed_divergence :: "divergence_parameters \<Rightarrow> placed_bar list \<Rightarrow> divergence_point option list result" where
  "placed_divergence q places =
     rbind (on_balance_volume (map snd places)) (\<lambda>obv. series (length places) (divergence_step q places obv) ([], []))"

definition confirmed_obv_divergence :: "divergence_parameters \<Rightarrow> daily_bar list \<Rightarrow> divergence_point option list result" where
  "confirmed_obv_divergence q bars =
     rbind (require_positive_periods [dv_left_bars q, dv_right_bars q, dv_min_separation q, dv_max_separation q,
              dv_volume_period q]) (\<lambda>_.
     rbind (checks [(dv_min_separation q > dv_max_separation q,
                     ValueError ''minimum pivot separation cannot exceed maximum separation''),
                    (dv_price_threshold q < 0, ValueError ''price_threshold_pct must be a finite non-negative Decimal''),
                    (dv_obv_threshold q < 0, ValueError ''obv_threshold_adv must be a finite non-negative Decimal'')]) (\<lambda>_.
       on_valid (\<lambda>b. tradable (snd b)) (placed_divergence q) (enumerate 0 bars)))"

end
