(* ===== verification/PrefixStability.thy ===== *)
theory PrefixStability
  imports Indicators
begin

text \<open>
  Every indicator is prefix stable (\<open>causal\<close>): the values computed from the first bars are the first
  values computed from all bars, so no value depends on a later bar.  \<open>causal_series\<close> collects these facts.
\<close>

named_theorems causal_series \<open>prefix stability of the indicators\<close>

lemma prefix_causal:
  assumes "causal F" "length ys = N" "n \<le> N"
    and "\<And>xs. length xs = N \<Longrightarrow> prefix_of N n (f xs) (f' (take n xs))"
  shows "prefix_of N n (rbind (F ys) f) (rbind (F (take n ys)) f')"
  using causalD [OF assms(1), of n ys] assms(2-4) by (auto intro: prefix_bind)

lemma causal_guard: "causal F \<Longrightarrow> causal (\<lambda>bs. rbind m (\<lambda>_. F bs))"
  by (auto simp: causal_def intro: prefix_same)

lemma causal_map: "causal F \<Longrightarrow> causal (\<lambda>bs. F (map f bs))"
  by (rule causalI) (metis causalD length_map take_map)

text \<open>The loops of a second pass, after the length of the shorter list is known.\<close>

lemma points_take:
  assumes "n \<le> length bs" and "\<And>i. i < n \<Longrightarrow> f' i = f i"
  shows "prefix_of (length bs) n (points (length bs) f) (points (length (take n bs)) f')"
  using prefix_points [of n "length bs" f' f] assms by (simp add: min_absorb2)

lemma scan_take:
  assumes "n \<le> length bs" and "\<And>i s. i < n \<Longrightarrow> step' i s = step i s"
  shows "prefix_of (length bs) n (scan (length bs) step s) (scan (length (take n bs)) step' s)"
  using prefix_scan [of n "length bs" step' step] assms by (simp add: min_absorb2)

lemmas take_passes = causal_guard causalI points_take scan_take

lemma causal_scan:
  assumes "\<And>bs n i s. n \<le> length bs \<Longrightarrow> i < n \<Longrightarrow> step (take n bs) i s = step bs i s"
  shows "causal (\<lambda>bs. scan (length bs) (step bs) s0)"
  using assms by (intro take_passes) (auto simp: Let_def split: option.splits)

lemma causal_points:
  assumes "\<And>bs n i. n \<le> length bs \<Longrightarrow> i < n \<Longrightarrow> f (take n bs) i = f bs i"
  shows "causal (\<lambda>bs. points (length bs) (f bs))"
  using assms by (intro take_passes) (auto simp: Let_def split: option.splits)

text \<open>A second pass over the bars that reads the series of the first.\<close>

lemma causal_then_scan:
  assumes "causal F"
    and "\<And>bs xs n i s. length xs = length bs \<Longrightarrow> n \<le> length bs \<Longrightarrow> i < n \<Longrightarrow> step (take n bs) (take n xs) i s = step bs xs i s"
  shows "causal (\<lambda>bs. rbind (F bs) (\<lambda>xs. scan (length bs) (step bs xs) s0))"
  using assms(2) by (intro take_passes prefix_causal [OF assms(1)]) (auto simp: Let_def split: option.splits)

lemma causal_then_points:
  assumes "causal F"
    and "\<And>bs xs n i. length xs = length bs \<Longrightarrow> n \<le> length bs \<Longrightarrow> i < n \<Longrightarrow> f (take n bs) (take n xs) i = f bs xs i"
  shows "causal (\<lambda>bs. rbind (F bs) (\<lambda>xs. points (length bs) (f bs xs)))"
  using assms(2) by (intro take_passes prefix_causal [OF assms(1)]) (auto simp: Let_def split: option.splits)

section \<open>Averages\<close>

lemma causal_simple_moving_average: "causal (\<lambda>vs. simple_moving_average vs p)"
  unfolding simple_moving_average_def by (rule causal_scan) (auto simp: average_step_def Let_def min_absorb1)

lemma causal_moving_average [causal_series]: "causal (moving_average p field)"
  unfolding moving_average_def by (intro causal_guard causal_map causal_simple_moving_average)

lemma causal_volume_average [causal_series]: "causal (volume_average p)"
  unfolding volume_average_def by (intro causal_guard causal_map causal_simple_moving_average)

lemma causal_amount_average [causal_series]: "causal (amount_average p)"
  unfolding amount_average_def by (intro causal_guard causal_map causal_simple_moving_average)

lemma causal_pointwise [causal_series]: "causal (\<lambda>bs. Inr (map f bs))"
  by (auto simp: causal_def prefix_of_def take_map)

lemma causal_market_amount [causal_series]: "causal market_amount"
  unfolding market_amount_def by (rule causal_pointwise)

lemma causal_moving_average_cross [causal_series]: "causal (moving_average_cross fast slow field)"
  unfolding moving_average_cross_def
  by (intro take_passes prefix_causal [OF causal_moving_average]) (auto simp: Let_def split: option.splits)

lemma causal_bull_and_bear_index [causal_series]: "causal (bull_and_bear_index p1 p2 p3 p4 field)"
  unfolding bull_and_bear_index_def
  by (intro take_passes prefix_causal [OF causal_moving_average]) (auto simp: Let_def split: option.splits)

lemma causal_simple_bias [causal_series]: "causal (simple_bias p field)"
  unfolding simple_bias_def by (intro causal_then_points causal_moving_average) (auto simp: Let_def split: option.splits)

lemma causal_ema_from_first: "causal (\<lambda>vs. ema_from_first vs p)"
  unfolding ema_from_first_def by (rule causal_scan) (auto simp: ema_step_def Let_def)

lemma causal_exponential_moving_average [causal_series]: "causal (exponential_moving_average p field)"
  unfolding exponential_moving_average_def
  by (intro causal_guard causal_then_points [OF causal_map [OF causal_ema_from_first]]) (auto simp: Let_def split: option.splits)

lemma causal_ema_bias [causal_series]: "causal (ema_bias p field)"
  unfolding ema_bias_def by (intro causal_then_points causal_exponential_moving_average) (auto simp: Let_def split: option.splits)

lemma causal_macd [causal_series]: "causal (macd fast slow signal)"
  unfolding macd_def
  by (intro take_passes prefix_causal [OF causal_map [OF causal_ema_from_first]] prefix_bind [OF points_take]
      prefix_causal [OF causal_ema_from_first]) (auto simp: min_absorb2)

section \<open>Returns, ranges and oscillators\<close>

lemma slice_take_Suc [simp]: "i < n \<Longrightarrow> slice (take n xs) a (Suc i) = slice xs a (Suc i)"
  by simp

lemma map_nth_take: "b \<le> n \<Longrightarrow> (\<And>i. a \<le> i \<Longrightarrow> i < n \<Longrightarrow> f (take n bs) i = f bs i) \<Longrightarrow>
   map (f (take n bs)) [a..<b] = map (f bs) [a..<b]"
  by auto

lemma causal_period_return_pct [causal_series]: "causal (period_return_pct p field)"
  unfolding period_return_pct_def by (intro causal_guard causal_points) (auto simp: Let_def split: option.splits)

lemma causal_rate_of_change [causal_series]: "causal (rate_of_change p field)"
  using causal_period_return_pct by (simp add: rate_of_change_def [abs_def])

lemma causal_momentum [causal_series]: "causal (momentum p field)"
  unfolding momentum_def by (intro causal_guard causal_points) (auto simp: Let_def split: option.splits)

lemma causal_rolling_high [causal_series]: "causal (rolling_high p field)"
  unfolding rolling_high_def by (intro causal_guard causal_points) (auto simp: Let_def split: option.splits)

lemma causal_consecutive_up [causal_series]: "causal (consecutive_up days)"
  unfolding consecutive_up_def by (intro causal_guard causal_scan) (auto simp: streak_step_def)

lemma causal_amplitude_pct [causal_series]: "causal amplitude_pct"
  unfolding amplitude_pct_def by (intro causal_points) (auto simp: Let_def split: option.splits)

lemma true_range_at_take: "0 < i \<Longrightarrow> i < n \<Longrightarrow> true_range_at (take n bs) i = true_range_at bs i"
  by (simp add: true_range_at_def)

lemma causal_true_range [causal_series]: "causal true_range"
  unfolding true_range_def by (intro causal_points) (auto simp: true_range_at_take)

lemma true_ranges_take: "p < n \<Longrightarrow> map (true_range_at (take n bs)) [Suc 0..<Suc p] = map (true_range_at bs) [Suc 0..<Suc p]"
  by (auto simp: true_range_at_take)

lemma causal_positive:
  assumes "0 \<notin> set ps \<Longrightarrow> causal F"
  shows "causal (\<lambda>bs. rbind (require_positive_periods ps) (\<lambda>_. F bs))"
proof (cases "require_positive_periods ps")
  case (Inl e)
  then show ?thesis by (simp add: causal_def prefix_of_def)
next
  case (Inr u)
  then have "0 \<notin> set ps" by (auto simp: require_positive_periods_def result_simps list_all_iff)
  then show ?thesis using assms by (intro causal_guard)
qed

lemma causal_average_true_range [causal_series]: "causal (average_true_range p)"
  unfolding average_true_range_def
  by (intro causal_positive causal_scan) (auto simp: atr_step_def Let_def true_range_at_take true_ranges_take simp del: upt_Suc)

lemma causal_normalized_average_true_range [causal_series]: "causal (normalized_average_true_range p)"
  unfolding normalized_average_true_range_def by (intro causal_then_points causal_average_true_range) (auto simp: Let_def split: option.splits)

lemma raw_k_take: "i < n \<Longrightarrow> raw_k p (take n bs) i = raw_k p bs i"
  by (simp add: raw_k_def Let_def)

lemma raw_ks_take: "b \<le> n \<Longrightarrow> map (raw_k p (take n bs)) [a..<b] = map (raw_k p bs) [a..<b]"
  by (auto simp: raw_k_take)

lemma causal_stochastic_oscillator [causal_series]: "causal (stochastic_oscillator k_period d_period)"
  unfolding stochastic_oscillator_def by (intro causal_guard causal_points) (simp add: raw_k_take raw_ks_take del: upt_Suc)

lemma causal_williams_r [causal_series]: "causal (williams_r p)"
  unfolding williams_r_def by (intro causal_guard causal_points) (auto simp: Let_def split: option.splits)

lemma causal_kdj [causal_series]: "causal (kdj p k_smoothing d_smoothing)"
  unfolding kdj_def by (intro causal_guard causal_scan) (auto simp: kdj_step_def rsv_def Let_def split: prod.splits)

lemma gain_loss_take:
  "0 < i \<Longrightarrow> i < n \<Longrightarrow> gain_at (take n bs) i = gain_at bs i"
  "0 < i \<Longrightarrow> i < n \<Longrightarrow> loss_at (take n bs) i = loss_at bs i"
  "p < n \<Longrightarrow> map (gain_at (take n bs)) [Suc 0..<Suc p] = map (gain_at bs) [Suc 0..<Suc p]"
  "p < n \<Longrightarrow> map (loss_at (take n bs)) [Suc 0..<Suc p] = map (loss_at bs) [Suc 0..<Suc p]"
  by (auto simp: gain_at_def loss_at_def)

lemma causal_rsi [causal_series]: "causal (rsi p)"
  unfolding rsi_def by (intro causal_positive causal_scan) (auto simp: rsi_step_def Let_def gain_loss_take simp del: upt_Suc)

lemma causal_cci [causal_series]: "causal (cci p constant)"
  unfolding cci_def by (intro causal_guard causal_points) (auto simp: Let_def split: option.splits)

section \<open>Bands, deviations, volume\<close>

lemma causal_bollinger_bands [causal_series]: "causal (bollinger_bands p multiplier field)"
  unfolding bollinger_bands_def by (intro causal_guard causal_points) (auto simp: Let_def split: option.splits)

lemma causal_donchian_channel [causal_series]: "causal (donchian_channel p)"
  unfolding donchian_channel_def by (intro causal_guard causal_points) (auto simp: Let_def split: option.splits)

lemma causal_simple_returns: "causal (simple_returns field)"
  unfolding simple_returns_def by (intro causal_points) (auto simp: Let_def split: option.splits)

lemma causal_log_returns: "causal (log_returns field)"
  unfolding log_returns_def by (intro causal_points) (auto simp: Let_def split: option.splits)

lemma causal_return_stddev [causal_series]: "causal (return_stddev p field)"
  unfolding return_stddev_def by (intro causal_guard causal_then_points causal_simple_returns) (auto simp: Let_def split: option.splits)

lemma causal_historical_volatility [causal_series]: "causal (historical_volatility p annualization_sessions field)"
  unfolding historical_volatility_def Let_def
  by (intro causal_guard causalI prefix_causal [OF causal_log_returns] prefix_same points_take) (auto simp: Let_def split: option.splits)

lemma causal_previous_volume_average [causal_series]: "causal (previous_volume_average p)"
  unfolding previous_volume_average_def by (intro causal_guard causal_scan) (auto simp: previous_volume_step_def)

lemma causal_relative_volume [causal_series]: "causal (relative_volume p)"
  unfolding relative_volume_def by (intro causal_then_points causal_previous_volume_average) (auto simp: Let_def split: option.splits)

lemma causal_on_balance_volume [causal_series]: "causal on_balance_volume"
  unfolding on_balance_volume_def by (intro causal_scan) (auto simp: obv_step_def)

section \<open>Loops whose variables refer to earlier sessions\<close>

lemma loop_res_prefix_inv:
  assumes "loop_res step ([a..<n] @ js) s = Inr xs" "a \<le> n" "I a s"
    and inv: "\<And>i s y s'. i < n \<Longrightarrow> I i s \<Longrightarrow> step i s = Inr (y, s') \<Longrightarrow> I (Suc i) s'"
    and eq: "\<And>i s. i < n \<Longrightarrow> I i s \<Longrightarrow> step' i s = step i s"
  shows "loop_res step' [a..<n] s = Inr (take (n - a) xs)"
  using assms(1-3)
proof (induction "n - a" arbitrary: a s xs)
  case 0
  then show ?case by simp
next
  case (Suc m)
  then have e: "[a..<n] = a # [Suc a..<n]" "a < n" by (simp_all add: upt_conv_Cons)
  from Suc.prems(1) obtain y s' ys where
    y: "step a s = Inr (y, s')" "loop_res step ([Suc a..<n] @ js) s' = Inr ys" "xs = y # ys"
    by (auto simp: e(1) result_simps split: prod.splits)
  have "loop_res step' [Suc a..<n] s' = Inr (take (n - Suc a) ys)"
    using Suc.hyps(2) e(2) y(1,2) inv [OF e(2) Suc.prems(3)] by (intro Suc.hyps(1)) auto
  moreover have "take (n - a) xs = y # take (n - Suc a) ys" using e(2) y(3) by (simp add: Suc_diff_Suc flip: take_Suc_Cons)
  ultimately show ?case using eq [OF e(2) Suc.prems(3)] y(1) by (simp add: e(1))
qed

lemma series_take_inv:
  assumes "n \<le> length bs" "I 0 s0"
    and inv: "\<And>i s y s'. i < n \<Longrightarrow> I i s \<Longrightarrow> step i s = Inr (y, s') \<Longrightarrow> I (Suc i) s'"
    and eq: "\<And>i s. i < n \<Longrightarrow> I i s \<Longrightarrow> step' i s = step i s"
  shows "prefix_of (length bs) n (series (length bs) step s0) (series (length (take n bs)) step' s0)"
proof -
  have u: "[0..<length bs] = [0..<n] @ [n..<length bs]" using assms(1) by (metis le_add_diff_inverse upt_add_eq_append zero_le)
  show ?thesis
    unfolding prefix_of_def
  proof (intro allI impI conjI)
    fix xs
    assume r: "series (length bs) step s0 = Inr xs"
    then show "length xs = length bs" by (auto simp: series_def dest: loop_res_length)
    show "series (length (take n bs)) step' s0 = Inr (take n xs)"
      using loop_res_prefix_inv [of step 0 n "[n..<length bs]" s0 xs I step'] r assms u
      by (simp add: series_def min_absorb2)
  qed
qed

lemma causal_volume_price_points [causal_series]: "causal (volume_price_points p)"
  unfolding volume_price_points_def
  by (intro causalI prefix_causal [OF causal_relative_volume] series_take_inv [where I = "\<lambda>i s. \<forall>j. s = Some j \<longrightarrow> j < i"])
    (auto simp: volume_price_step_def result_simps split: if_splits option.splits)

section \<open>Directional movement and trends\<close>

lemma moves_take:
  "p < n \<Longrightarrow> map (plus_move (take n bs)) [Suc 0..<Suc p] = map (plus_move bs) [Suc 0..<Suc p]"
  "p < n \<Longrightarrow> map (minus_move (take n bs)) [Suc 0..<Suc p] = map (minus_move bs) [Suc 0..<Suc p]"
  "0 < i \<Longrightarrow> i < n \<Longrightarrow> plus_move (take n bs) i = plus_move bs i"
  "0 < i \<Longrightarrow> i < n \<Longrightarrow> minus_move (take n bs) i = minus_move bs i"
  by (auto simp: plus_move_def minus_move_def Let_def)

lemma directional_step_take:
  "0 < p \<Longrightarrow> i < n \<Longrightarrow> directional_step p (take n bs) i s = directional_step p bs i s"
  by (cases s) (auto simp: directional_step_def running_sum_def moves_take true_range_at_take true_ranges_take
      Let_def simp del: upt_Suc)

lemma dx_take: "b \<le> n \<Longrightarrow> map (dx_at (take n dis)) [a..<b] = map (dx_at dis) [a..<b]"
  by (auto simp: dx_at_def)

lemma adx_step_take: "i < n \<Longrightarrow> adx_step p (take n dis) i s = adx_step p dis i s"
  by (auto simp: adx_step_def dx_take Let_def split: option.splits)

lemma causal_valid_directional_movement: "0 < p \<Longrightarrow> causal (valid_directional_movement p)"
  unfolding valid_directional_movement_def
  by (intro causal_then_scan causal_scan) (simp_all add: directional_step_take adx_step_take)

lemma causal_directional_movement [causal_series]: "causal (directional_movement p)"
  unfolding directional_movement_def by (intro causal_positive causal_on_valid causal_valid_directional_movement) auto

lemma trend_step_take:
  "i < n \<Longrightarrow> trend_step q (take n bs) (take n shorts) (take n longs) (take n dmis) i s = trend_step q bs shorts longs dmis i s"
  by (auto simp: trend_step_def Let_def less_imp_diff_less split: option.splits)

lemma causal_stage_trend [causal_series]: "causal (stage_trend q)"
  unfolding stage_trend_def valid_stage_trend_def [abs_def]
  by (intro causal_guard causal_on_valid causalI prefix_causal [OF causal_moving_average]
      prefix_causal [OF causal_directional_movement] scan_take) (auto simp: trend_step_take)

section \<open>Divergence\<close>

lemma confirmed_pivot_kind_take:
  "right \<le> i \<Longrightarrow> i < n \<Longrightarrow> n \<le> length bs \<Longrightarrow>
   confirmed_pivot_kind (take n bs) (i - right) left right = confirmed_pivot_kind bs (i - right) left right"
  by (auto simp: confirmed_pivot_kind_def Let_def)

lemma latest_separated_pivot_mem: "latest_separated_pivot pivots c l m = Some p \<Longrightarrow> p \<in> set pivots"
  by (auto simp: latest_separated_pivot_def filter_eq_Cons_iff split: list.splits) (metis in_set_conv_decomp set_rev)

lemma divergence_of_take:
  "previous < n \<Longrightarrow> current < n \<Longrightarrow> divergence_of q (take n places) (take n obv) previous current b = divergence_of q places obv previous current b"
  by (simp add: divergence_of_def Let_def)

lemma divergence_step_take:
  assumes "i < n" "n \<le> length places" "list_all (\<lambda>p. p < i) (fst s)" "list_all (\<lambda>p. p < i) (snd s)"
  shows "divergence_step q (take n places) (take n obv) i s = divergence_step q places obv i s"
proof -
  have m: "divergence_of q (take n places) (take n obv) previous (i - r) b = divergence_of q places obv previous (i - r) b"
    if "latest_separated_pivot ps (i - r) l k = Some previous" "list_all (\<lambda>p. p < i) ps" for ps previous b r l k
    using latest_separated_pivot_mem [OF that(1)] that(2) assms(1) by (intro divergence_of_take) (auto simp: list_all_iff)
  show ?thesis
    using assms m
    by (cases s) (auto simp: divergence_step_def Let_def take_map [symmetric] confirmed_pivot_kind_take
        split: option.splits pivot_kind.splits)
qed

lemma divergence_step_inv:
  assumes "divergence_step q places obv i s = Inr (y, s')" "list_all (\<lambda>p. p < i) (fst s)" "list_all (\<lambda>p. p < i) (snd s)"
  shows "list_all (\<lambda>p. p < Suc i) (fst s') \<and> list_all (\<lambda>p. p < Suc i) (snd s')"
proof -
  have l: "list_all (\<lambda>p. p < Suc i) ps" if "list_all (\<lambda>p. p < i) ps" for ps using that by (auto simp: list_all_iff)
  show ?thesis
    using assms by (cases s) (auto simp: divergence_step_def Let_def result_simps l split: if_splits option.splits pivot_kind.splits)
qed

lemma causal_placed_divergence: "causal (placed_divergence q)"
  unfolding placed_divergence_def
  by (intro causalI prefix_causal [OF causal_map [OF causal_on_balance_volume]]
      series_take_inv [where I = "\<lambda>i s. list_all (\<lambda>p. p < i) (fst s) \<and> list_all (\<lambda>p. p < i) (snd s)"])
    (auto simp: divergence_step_take dest: divergence_step_inv)

lemma take_enumerate: "enumerate 0 (take n xs) = take n (enumerate 0 xs)"
  by (simp add: enumerate_eq_zip take_zip min_def)

lemma causal_confirmed_obv_divergence [causal_series]: "causal (confirmed_obv_divergence q)"
proof -
  have "causal (\<lambda>bs. on_valid (\<lambda>b. tradable (snd b)) (placed_divergence q) (enumerate 0 bs))"
    using causalD [OF causal_on_valid [OF causal_placed_divergence]]
    by (auto intro!: causalI simp: take_enumerate) (metis length_enumerate)
  then show ?thesis unfolding confirmed_obv_divergence_def by (intro causal_guard)
qed

end
