(* ===== verification/IndicatorSignals.thy ===== *)
theory IndicatorSignals
  imports Signals PrefixStability
begin

text \<open>
  The indicator leaves of \<open>ashare_lab/domain/signals/runtime.py\<close>: how an indicator condition becomes one
  optional fact per bar.  A fact compares two values with the operator of the condition's trigger, is
  observed at the close of its bar and available when all bars its values depend on are.  The labels
  and numbers that the source prints into a fact's reason are left out.
\<close>

section \<open>Parameters and triggers\<close>

abbreviation runtime_error :: "string \<Rightarrow> 'a result" where
  "runtime_error m \<equiv> Inl (SignalRuntimeError m)"

definition int_param_or :: "indicator_condition \<Rightarrow> string \<Rightarrow> int option \<Rightarrow> nat result" where
  "int_param_or c name fallback =
     (case (case map_of (ic_params c) name of Some v \<Rightarrow> Some v | None \<Rightarrow> map_option JInt fallback) of
        Some (JInt v) \<Rightarrow> if v \<le> 0 then runtime_error ''parameter must be a positive integer'' else Inr (nat v)
      | _ \<Rightarrow> runtime_error ''parameter must be a positive integer'')"

definition int_param :: "indicator_condition \<Rightarrow> string \<Rightarrow> nat result" where
  "int_param c name = int_param_or c name None"

definition str_param :: "indicator_condition \<Rightarrow> string \<Rightarrow> string result" where
  "str_param c name =
     (case map_of (ic_params c) name of
        Some (JStr s) \<Rightarrow> if s = [] then runtime_error ''parameter must be a non-empty string'' else Inr s
      | _ \<Rightarrow> runtime_error ''parameter must be a non-empty string'')"

definition decimal_param :: "indicator_condition \<Rightarrow> string \<Rightarrow> rat result" where
  "decimal_param c name =
     (case map_of (ic_params c) name of
        Some (JInt v) \<Rightarrow> Inr (of_int v)
      | Some (JFloat (Finite v)) \<Rightarrow> Inr v
      | _ \<Rightarrow> runtime_error ''parameter must be a finite number'')"

definition price_field_param :: "indicator_condition \<Rightarrow> price_field result" where
  "price_field_param c =
     rbind (str_param c ''price_field'') (\<lambda>raw.
       case map_of [(''open'', OPEN), (''high'', HIGH), (''low'', LOW), (''close'', CLOSE)] raw of
         Some field \<Rightarrow> Inr field
       | None \<Rightarrow> runtime_error ''unsupported price_field'')"

text \<open>The value of a condition is finite: its constructor has excluded the others.\<close>

definition required_value :: "indicator_condition \<Rightarrow> rat result" where
  "required_value c =
     (case ic_value c of
        Some (Finite v) \<Rightarrow> Inr v
      | _ \<Rightarrow> runtime_error ''trigger requires a comparison value'')"

definition resolve_trigger :: "indicator_condition \<Rightarrow> (string \<times> comparator) list \<Rightarrow> bool \<Rightarrow> comparator result" where
  "resolve_trigger c mapping value_required =
     (case map_of mapping (ic_trigger c) of
        None \<Rightarrow> runtime_error ''unsupported trigger''
      | Some cmp \<Rightarrow>
          if value_required \<and> ic_value c = None then runtime_error ''trigger requires a comparison value''
          else if \<not> value_required \<and> ic_value c \<noteq> None then runtime_error ''trigger forbids a comparison value''
          else Inr cmp)"

definition is_cross :: "comparator \<Rightarrow> bool" where
  "is_cross cmp \<longleftrightarrow> cmp = CROSSES_ABOVE \<or> cmp = CROSSES_BELOW"

definition forbid_value :: "indicator_condition \<Rightarrow> unit result" where
  "forbid_value c = checks [(ic_value c \<noteq> None, SignalRuntimeError ''trigger forbids a comparison value'')]"

section \<open>Facts about a bar\<close>

definition observed_at :: "daily_bar \<Rightarrow> datetime" where
  "observed_at b = combine (b_session_date b) (hm 15 0)"

text \<open>The latest availability of \<open>bars[start : i + 1]\<close>.\<close>

definition dependency_available :: "daily_bar list \<Rightarrow> nat \<Rightarrow> nat \<Rightarrow> datetime" where
  "dependency_available bars start i = Max (set (map b_available_at (slice bars start (i + 1))))"

definition condition_ref :: "indicator_condition \<Rightarrow> string" where
  "condition_ref c = ic_indicator_id c @ ''@'' @ ic_definition_version c @ '':'' @ ic_trigger c"

definition bar_fact ::
  "indicator_condition \<Rightarrow> daily_bar list \<Rightarrow> nat \<Rightarrow> bool \<Rightarrow> nat \<Rightarrow> string \<Rightarrow> rat option \<Rightarrow> rat option \<Rightarrow> signal_fact option result" where
  "bar_fact c bars i triggered start reason left right =
     rbind (mk_signal_fact (SignalFact (b_instrument_id (bars ! i)) (b_session_date (bars ! i)) (condition_ref c) triggered
         (observed_at (bars ! i)) (max (observed_at (bars ! i)) (dependency_available bars start i)) reason left right [] []))
       (\<lambda>f. Inr (Some f))"

definition leaf_fact ::
  "indicator_condition \<Rightarrow> daily_bar list \<Rightarrow> nat \<Rightarrow> comparator \<Rightarrow> rat \<Rightarrow> rat \<Rightarrow> rat option \<Rightarrow> rat option \<Rightarrow> nat \<Rightarrow>
   signal_fact option result" where
  "leaf_fact c bars i cmp left right previous_left previous_right start =
     rbind (evaluate_comparator cmp left right previous_left previous_right) (\<lambda>triggered.
       bar_fact c bars i triggered start ''comparison of two values'' (Some left) (Some right))"

definition boolean_fact ::
  "indicator_condition \<Rightarrow> daily_bar list \<Rightarrow> nat \<Rightarrow> bool \<Rightarrow> rat option \<Rightarrow> rat option \<Rightarrow> signal_fact option result" where
  "boolean_fact c bars i triggered left right = bar_fact c bars i triggered 0 ''conjunction of conditions'' left right"

text \<open>\<open>xs[index - 1] if index > 0 else None\<close>\<close>

definition before :: "(nat \<Rightarrow> 'a option) \<Rightarrow> nat \<Rightarrow> 'a option" where
  "before f i = (if 0 < i then f (i - 1) else None)"

section \<open>Series against a threshold or a price\<close>

definition threshold_triggers :: "(string \<times> comparator) list" where
  "threshold_triggers = [(''crosses_above'', CROSSES_ABOVE), (''crosses_below'', CROSSES_BELOW), (''above'', GT), (''below'', LT),
     (''at_least'', GTE), (''at_most'', LTE)]"

definition price_triggers :: "(string \<times> comparator) list" where
  "price_triggers = [(''price_crosses_above'', CROSSES_ABOVE), (''price_crosses_below'', CROSSES_BELOW),
     (''price_above'', GT), (''price_below'', LT)]"

definition evaluate_threshold_series ::
  "indicator_condition \<Rightarrow> daily_bar list \<Rightarrow> rat option list \<Rightarrow> (nat \<Rightarrow> bool \<Rightarrow> nat) \<Rightarrow> signal_fact option list result" where
  "evaluate_threshold_series c bars values start =
     rbind (checks [(ic_trigger c \<in> {''at_least'', ''at_most''} \<and> ic_indicator_id c \<notin> {''price.close'', ''price.return_pct''},
              SignalRuntimeError ''inclusive threshold trigger is not supported'')]) (\<lambda>_.
     rbind (resolve_trigger c threshold_triggers True) (\<lambda>cmp.
     rbind (required_value c) (\<lambda>threshold.
       points (length bars) (\<lambda>i.
         case values ! i of
           None \<Rightarrow> Inr None
         | Some v \<Rightarrow>
             let previous = before (\<lambda>j. values ! j) i
             in if is_cross cmp \<and> previous = None then Inr None
                else leaf_fact c bars i cmp v threshold previous (map_option (\<lambda>_. threshold) previous) (start i (is_cross cmp))))))"

definition evaluate_price_series ::
  "indicator_condition \<Rightarrow> daily_bar list \<Rightarrow> rat option list \<Rightarrow> price_field \<Rightarrow> (nat \<Rightarrow> bool \<Rightarrow> nat) \<Rightarrow>
   signal_fact option list result" where
  "evaluate_price_series c bars values field start =
     rbind (resolve_trigger c price_triggers False) (\<lambda>cmp.
       points (length bars) (\<lambda>i.
         case values ! i of
           None \<Rightarrow> Inr None
         | Some v \<Rightarrow>
             let previous = before (\<lambda>j. values ! j) i
             in if is_cross cmp \<and> previous = None then Inr None
                else leaf_fact c bars i cmp (price_of field (bars ! i)) v
                       (before (\<lambda>j. Some (price_of field (bars ! j))) i) previous (start i (is_cross cmp))))"

text \<open>Where the bars a value depends on begin: a window, one bar longer for a crossing, or the whole history.\<close>

definition window_start :: "nat \<Rightarrow> nat \<Rightarrow> bool \<Rightarrow> nat" where
  "window_start p i cross = (if cross then i - p else i + 1 - p)"

definition whole_history :: "nat \<Rightarrow> bool \<Rightarrow> nat" where
  "whole_history i cross = 0"

definition evaluate_ma :: "indicator_condition \<Rightarrow> daily_bar list \<Rightarrow> signal_fact option list result" where
  "evaluate_ma c bars =
     rbind (int_param c ''period'') (\<lambda>p.
     rbind (price_field_param c) (\<lambda>field.
     rbind (moving_average p field bars) (\<lambda>averages. evaluate_price_series c bars averages field (window_start p))))"

definition evaluate_ema :: "indicator_condition \<Rightarrow> daily_bar list \<Rightarrow> signal_fact option list result" where
  "evaluate_ema c bars =
     rbind (int_param c ''period'') (\<lambda>p.
     rbind (price_field_param c) (\<lambda>field.
     rbind (exponential_moving_average p field bars) (\<lambda>values. evaluate_price_series c bars values field whole_history)))"

definition evaluate_bbi :: "indicator_condition \<Rightarrow> daily_bar list \<Rightarrow> signal_fact option list result" where
  "evaluate_bbi c bars =
     rbind (int_param c ''period_1'') (\<lambda>p1.
     rbind (int_param c ''period_2'') (\<lambda>p2.
     rbind (int_param c ''period_3'') (\<lambda>p3.
     rbind (int_param c ''period_4'') (\<lambda>p4.
     rbind (price_field_param c) (\<lambda>field.
     rbind (bull_and_bear_index p1 p2 p3 p4 field bars) (\<lambda>values. evaluate_price_series c bars values field (window_start p4)))))))"

definition evaluate_cci :: "indicator_condition \<Rightarrow> daily_bar list \<Rightarrow> signal_fact option list result" where
  "evaluate_cci c bars =
     rbind (int_param_or c ''period'' (Some 14)) (\<lambda>p.
     rbind (decimal_param c ''constant'') (\<lambda>constant.
     rbind (cci p constant bars) (\<lambda>values. evaluate_threshold_series c bars values (window_start p))))"

definition evaluate_ema_bias :: "indicator_condition \<Rightarrow> daily_bar list \<Rightarrow> signal_fact option list result" where
  "evaluate_ema_bias c bars =
     rbind (int_param c ''period'') (\<lambda>p.
     rbind (price_field_param c) (\<lambda>field.
     rbind (ema_bias p field bars) (\<lambda>values. evaluate_threshold_series c bars values whole_history)))"

definition evaluate_close_price :: "indicator_condition \<Rightarrow> daily_bar list \<Rightarrow> signal_fact option list result" where
  "evaluate_close_price c bars =
     evaluate_threshold_series c bars (map (\<lambda>b. Some (close_of b)) bars) (window_start 1)"

text \<open>The series that look \<open>p\<close> sessions back: one bar more than a window of \<open>p\<close>.\<close>

definition lookback_start :: "nat \<Rightarrow> nat \<Rightarrow> bool \<Rightarrow> nat" where
  "lookback_start p i cross = i - p - of_bool cross"

definition evaluate_lookback ::
  "(nat \<Rightarrow> price_field \<Rightarrow> daily_bar list \<Rightarrow> rat option list result) \<Rightarrow> indicator_condition \<Rightarrow> daily_bar list \<Rightarrow>
   signal_fact option list result" where
  "evaluate_lookback indicator c bars =
     rbind (int_param c ''period'') (\<lambda>p.
     rbind (price_field_param c) (\<lambda>field.
     rbind (indicator p field bars) (\<lambda>values. evaluate_threshold_series c bars values (lookback_start p))))"

definition evaluate_return_pct :: "indicator_condition \<Rightarrow> daily_bar list \<Rightarrow> signal_fact option list result" where
  "evaluate_return_pct = evaluate_lookback period_return_pct"

definition evaluate_roc :: "indicator_condition \<Rightarrow> daily_bar list \<Rightarrow> signal_fact option list result" where
  "evaluate_roc = evaluate_lookback rate_of_change"

definition evaluate_momentum :: "indicator_condition \<Rightarrow> daily_bar list \<Rightarrow> signal_fact option list result" where
  "evaluate_momentum = evaluate_lookback momentum"

definition evaluate_return_stddev :: "indicator_condition \<Rightarrow> daily_bar list \<Rightarrow> signal_fact option list result" where
  "evaluate_return_stddev = evaluate_lookback return_stddev"

definition evaluate_historical_volatility :: "indicator_condition \<Rightarrow> daily_bar list \<Rightarrow> signal_fact option list result" where
  "evaluate_historical_volatility c bars =
     rbind (int_param c ''period'') (\<lambda>p.
     rbind (int_param c ''annualization_sessions'') (\<lambda>sessions.
     rbind (price_field_param c) (\<lambda>field.
     rbind (historical_volatility p sessions field bars) (\<lambda>values.
       evaluate_threshold_series c bars values (lookback_start p)))))"

definition evaluate_bias :: "indicator_condition \<Rightarrow> daily_bar list \<Rightarrow> signal_fact option list result" where
  "evaluate_bias c bars =
     rbind (int_param c ''period'') (\<lambda>p.
     rbind (price_field_param c) (\<lambda>field.
     rbind (simple_bias p field bars) (\<lambda>values. evaluate_threshold_series c bars values (window_start p))))"

definition evaluate_amplitude :: "indicator_condition \<Rightarrow> daily_bar list \<Rightarrow> signal_fact option list result" where
  "evaluate_amplitude c bars =
     rbind (amplitude_pct bars) (\<lambda>values. evaluate_threshold_series c bars values (lookback_start 1))"

definition evaluate_true_range :: "indicator_condition \<Rightarrow> daily_bar list \<Rightarrow> signal_fact option list result" where
  "evaluate_true_range c bars =
     rbind (true_range bars) (\<lambda>values. evaluate_threshold_series c bars values (lookback_start 1))"

definition evaluate_amount :: "indicator_condition \<Rightarrow> daily_bar list \<Rightarrow> signal_fact option list result" where
  "evaluate_amount c bars =
     rbind (market_amount bars) (\<lambda>values. evaluate_threshold_series c bars values (window_start 1))"

definition evaluate_amount_average :: "indicator_condition \<Rightarrow> daily_bar list \<Rightarrow> signal_fact option list result" where
  "evaluate_amount_average c bars =
     rbind (int_param c ''period'') (\<lambda>p.
     rbind (amount_average p bars) (\<lambda>values. evaluate_threshold_series c bars values (window_start p)))"

text \<open>Only the provider's own turnover rate is used; it is never reconstructed.\<close>

definition evaluate_turnover_rate :: "indicator_condition \<Rightarrow> daily_bar list \<Rightarrow> signal_fact option list result" where
  "evaluate_turnover_rate c bars =
     rbind (checks [(list_ex (\<lambda>b. b_turnover_rate_pct b = None \<or> b_turnover_rate_provider b = None \<or>
                                  b_turnover_rate_methodology b = None) bars,
        SignalRuntimeError ''market.turnover_rate requires provider-supplied turnover_rate_pct with provider and methodology'')]) (\<lambda>_.
       evaluate_threshold_series c bars (map b_turnover_rate_pct bars) (window_start 1))"

definition evaluate_wilder ::
  "(nat \<Rightarrow> daily_bar list \<Rightarrow> rat option list result) \<Rightarrow> indicator_condition \<Rightarrow> daily_bar list \<Rightarrow> signal_fact option list result" where
  "evaluate_wilder indicator c bars =
     rbind (int_param c ''period'') (\<lambda>p.
     rbind (indicator p bars) (\<lambda>values. evaluate_threshold_series c bars values whole_history))"

definition evaluate_atr :: "indicator_condition \<Rightarrow> daily_bar list \<Rightarrow> signal_fact option list result" where
  "evaluate_atr = evaluate_wilder average_true_range"

definition evaluate_natr :: "indicator_condition \<Rightarrow> daily_bar list \<Rightarrow> signal_fact option list result" where
  "evaluate_natr = evaluate_wilder normalized_average_true_range"

definition evaluate_adx :: "indicator_condition \<Rightarrow> daily_bar list \<Rightarrow> signal_fact option list result" where
  "evaluate_adx = evaluate_wilder (\<lambda>p bars. rbind (directional_movement p bars) (\<lambda>points. Inr (map (map_option dp_adx) points)))"

definition evaluate_williams_r :: "indicator_condition \<Rightarrow> daily_bar list \<Rightarrow> signal_fact option list result" where
  "evaluate_williams_r c bars =
     rbind (int_param c ''period'') (\<lambda>p.
     rbind (williams_r p bars) (\<lambda>values. evaluate_threshold_series c bars values (window_start p)))"

section \<open>Two lines\<close>

text \<open>
  Both lines of a point are compared; a crossing needs the previous point.  \<open>always\<close> says that the source
  skips a bar without a previous point whatever the operator is.
\<close>

definition evaluate_lines ::
  "indicator_condition \<Rightarrow> daily_bar list \<Rightarrow> (rat \<times> rat) option list \<Rightarrow> comparator \<Rightarrow> bool \<Rightarrow> (nat \<Rightarrow> bool \<Rightarrow> nat) \<Rightarrow>
   signal_fact option list result" where
  "evaluate_lines c bars lines cmp always start =
     points (length bars) (\<lambda>i.
       case lines ! i of
         None \<Rightarrow> Inr None
       | Some (left, right) \<Rightarrow>
           let previous = before (\<lambda>j. lines ! j) i
           in if (always \<or> is_cross cmp) \<and> previous = None then Inr None
              else leaf_fact c bars i cmp left right (map_option fst previous) (map_option snd previous) (start i (is_cross cmp)))"

definition evaluate_ma_cross :: "indicator_condition \<Rightarrow> daily_bar list \<Rightarrow> signal_fact option list result" where
  "evaluate_ma_cross c bars =
     rbind (int_param c ''fast_period'') (\<lambda>fast.
     rbind (int_param c ''slow_period'') (\<lambda>slow.
     rbind (price_field_param c) (\<lambda>field.
     rbind (moving_average_cross fast slow field bars) (\<lambda>points.
     rbind (resolve_trigger c [(''golden_cross'', CROSSES_ABOVE), (''death_cross'', CROSSES_BELOW), (''fast_above_slow'', GT),
              (''fast_below_slow'', LT)] False) (\<lambda>cmp.
       evaluate_lines c bars points cmp False (window_start slow))))))"

definition bollinger_triggers :: "(string \<times> comparator \<times> (band_point \<Rightarrow> rat)) list" where
  "bollinger_triggers =
     [(''price_crosses_above_upper'', CROSSES_ABOVE, band_upper), (''price_crosses_below_upper'', CROSSES_BELOW, band_upper),
      (''price_crosses_above_middle'', CROSSES_ABOVE, band_middle), (''price_crosses_below_middle'', CROSSES_BELOW, band_middle),
      (''price_crosses_above_lower'', CROSSES_ABOVE, band_lower), (''price_crosses_below_lower'', CROSSES_BELOW, band_lower)]"

definition evaluate_bollinger :: "indicator_condition \<Rightarrow> daily_bar list \<Rightarrow> signal_fact option list result" where
  "evaluate_bollinger c bars =
     rbind (int_param c ''period'') (\<lambda>p.
     rbind (decimal_param c ''stddev_multiplier'') (\<lambda>multiplier.
     rbind (price_field_param c) (\<lambda>field.
     rbind (bollinger_bands p multiplier field bars) (\<lambda>bands.
       case map_of bollinger_triggers (ic_trigger c) of
         None \<Rightarrow> runtime_error ''unsupported trigger''
       | Some (cmp, band) \<Rightarrow>
           rbind (forbid_value c) (\<lambda>_.
             evaluate_lines c bars (map2 (\<lambda>b. map_option (\<lambda>x. (price_of field b, band x))) bars bands) cmp True (window_start p))))))"

definition evaluate_kdj :: "indicator_condition \<Rightarrow> daily_bar list \<Rightarrow> signal_fact option list result" where
  "evaluate_kdj c bars =
     rbind (int_param c ''period'') (\<lambda>p.
     rbind (int_param c ''k_smoothing'') (\<lambda>k_smoothing.
     rbind (int_param c ''d_smoothing'') (\<lambda>d_smoothing.
     rbind (kdj p k_smoothing d_smoothing bars) (\<lambda>points'.
       if ic_trigger c \<in> {''golden_cross'', ''death_cross''}
       then rbind (resolve_trigger c [(''golden_cross'', CROSSES_ABOVE), (''death_cross'', CROSSES_BELOW)] False) (\<lambda>cmp.
              evaluate_lines c bars (map (map_option (\<lambda>x. (kdj_k x, kdj_d x))) points') cmp True whole_history)
       else rbind (resolve_trigger c [(''j_above'', GT), (''j_below'', LT)] True) (\<lambda>cmp.
            rbind (required_value c) (\<lambda>threshold.
              points (length bars) (\<lambda>i.
                case points' ! i of
                  None \<Rightarrow> Inr None
                | Some x \<Rightarrow> leaf_fact c bars i cmp (kdj_j x) threshold None None 0)))))))"

definition evaluate_macd :: "indicator_condition \<Rightarrow> daily_bar list \<Rightarrow> signal_fact option list result" where
  "evaluate_macd c bars =
     rbind (int_param c ''fast'') (\<lambda>fast.
     rbind (int_param c ''slow'') (\<lambda>slow.
     rbind (int_param c ''signal'') (\<lambda>signal.
     rbind (macd fast slow signal bars) (\<lambda>points'.
     rbind (resolve_trigger c [(''golden_cross'', CROSSES_ABOVE), (''death_cross'', CROSSES_BELOW),
              (''crosses_above_zero'', CROSSES_ABOVE), (''crosses_below_zero'', CROSSES_BELOW)] False) (\<lambda>cmp.
     let to_zero = ic_trigger c \<in> {''crosses_above_zero'', ''crosses_below_zero''}
     in evaluate_lines c bars
          (map (map_option (\<lambda>x. (macd_line x, if to_zero then 0 else signal_line x))) points') cmp True whole_history)))))"

definition evaluate_rsi :: "indicator_condition \<Rightarrow> daily_bar list \<Rightarrow> signal_fact option list result" where
  "evaluate_rsi c bars =
     rbind (int_param c ''period'') (\<lambda>p.
     rbind (rsi p bars) (\<lambda>values.
     rbind (resolve_trigger c [(''crosses_above'', CROSSES_ABOVE), (''crosses_below'', CROSSES_BELOW), (''above'', GT),
              (''below'', LT)] True) (\<lambda>cmp.
     rbind (required_value c) (\<lambda>threshold.
       evaluate_lines c bars (map (map_option (\<lambda>v. (v, threshold))) values) cmp False whole_history))))"

definition evaluate_dmi :: "indicator_condition \<Rightarrow> daily_bar list \<Rightarrow> signal_fact option list result" where
  "evaluate_dmi c bars =
     rbind (forbid_value c) (\<lambda>_.
     rbind (int_param c ''period'') (\<lambda>p.
     rbind (resolve_trigger c [(''plus_crosses_above_minus'', CROSSES_ABOVE), (''plus_crosses_below_minus'', CROSSES_BELOW),
              (''plus_above_minus'', GT), (''plus_below_minus'', LT)] False) (\<lambda>cmp.
     rbind (directional_movement p bars) (\<lambda>points'.
       evaluate_lines c bars (map (map_option (\<lambda>x. (dp_plus_di x, dp_minus_di x))) points') cmp False whole_history))))"

definition evaluate_stochastic :: "indicator_condition \<Rightarrow> daily_bar list \<Rightarrow> signal_fact option list result" where
  "evaluate_stochastic c bars =
     rbind (int_param c ''k_period'') (\<lambda>k_period.
     rbind (int_param c ''d_period'') (\<lambda>d_period.
     rbind (stochastic_oscillator k_period d_period bars) (\<lambda>points'.
       case map_of [(''k_crosses_above_d'', CROSSES_ABOVE), (''k_crosses_below_d'', CROSSES_BELOW)] (ic_trigger c) of
         Some cmp \<Rightarrow>
           rbind (forbid_value c) (\<lambda>_. evaluate_lines c bars points' cmp True (\<lambda>i _. i + 1 - k_period - d_period))
       | None \<Rightarrow>
           (case map_of [(''k_above'', GT), (''k_below'', LT)] (ic_trigger c) of
              None \<Rightarrow> runtime_error ''unsupported trigger''
            | Some cmp \<Rightarrow>
                rbind (required_value c) (\<lambda>threshold.
                  points (length bars) (\<lambda>i.
                    case points' ! i of
                      None \<Rightarrow> Inr None
                    | Some (k, _) \<Rightarrow> leaf_fact c bars i cmp k threshold None None (i + 2 - k_period - d_period)))))))"

definition donchian_triggers :: "(string \<times> comparator \<times> (band_point \<Rightarrow> rat)) list" where
  "donchian_triggers =
     [(''price_crosses_above_upper'', CROSSES_ABOVE, band_upper), (''price_crosses_below_lower'', CROSSES_BELOW, band_lower),
      (''price_above_upper'', GT, band_upper), (''price_below_lower'', LT, band_lower)]"

definition evaluate_donchian :: "indicator_condition \<Rightarrow> daily_bar list \<Rightarrow> signal_fact option list result" where
  "evaluate_donchian c bars =
     rbind (forbid_value c) (\<lambda>_.
     rbind (int_param c ''period'') (\<lambda>p.
     rbind (donchian_channel p bars) (\<lambda>bands.
       case map_of donchian_triggers (ic_trigger c) of
         None \<Rightarrow> runtime_error ''unsupported trigger''
       | Some (cmp, band) \<Rightarrow>
           evaluate_lines c bars (map2 (\<lambda>b. map_option (\<lambda>x. (close_of b, band x))) bars bands) cmp False (lookback_start p))))"

section \<open>Counts, volumes and regimes\<close>

definition evaluate_rolling_high :: "indicator_condition \<Rightarrow> daily_bar list \<Rightarrow> signal_fact option list result" where
  "evaluate_rolling_high c bars =
     rbind (int_param c ''period'') (\<lambda>p.
     rbind (price_field_param c) (\<lambda>field.
     rbind (rolling_high p field bars) (\<lambda>thresholds.
     rbind (resolve_trigger c [(''new_high'', GT)] False) (\<lambda>cmp.
       points (length bars) (\<lambda>i.
         case thresholds ! i of
           None \<Rightarrow> Inr None
         | Some v \<Rightarrow> leaf_fact c bars i cmp (price_of field (bars ! i)) v None None (i - p))))))"

definition evaluate_consecutive_up :: "indicator_condition \<Rightarrow> daily_bar list \<Rightarrow> signal_fact option list result" where
  "evaluate_consecutive_up c bars =
     rbind (int_param c ''days'') (\<lambda>days.
     rbind (consecutive_up days bars) (\<lambda>values.
     rbind (resolve_trigger c [(''at_least'', GTE)] False) (\<lambda>cmp.
       points (length bars) (\<lambda>i.
         case values ! i of
           None \<Rightarrow> Inr None
         | Some v \<Rightarrow>
             leaf_fact c bars i cmp v (of_nat days) None None (if v > 0 then i - nat (py_int v) else i - 1)))))"

definition evaluate_volume :: "indicator_condition \<Rightarrow> daily_bar list \<Rightarrow> signal_fact option list result" where
  "evaluate_volume c bars =
     rbind (int_param c ''baseline_period'') (\<lambda>p.
     rbind (volume_average p bars) (\<lambda>averages.
     rbind (resolve_trigger c [(''gte_multiple'', GTE), (''lte_multiple'', LTE)] True) (\<lambda>cmp.
     rbind (required_value c) (\<lambda>multiple.
     rbind (checks [(multiple \<le> 0, SignalRuntimeError ''volume multiple must be greater than zero'')]) (\<lambda>_.
       points (length bars) (\<lambda>i.
         case averages ! i of
           None \<Rightarrow> Inr None
         | Some a \<Rightarrow>
             leaf_fact c bars i cmp (of_int (b_volume (bars ! i))) (ctx (a * multiple)) None None (i + 1 - p)))))))"

text \<open>\<open>ready\<close>: the relative volumes seen so far; the last ones must all reach the multiple.\<close>

definition relative_days_step ::
  "indicator_condition \<Rightarrow> daily_bar list \<Rightarrow> rat option list \<Rightarrow> rat \<Rightarrow> nat \<Rightarrow> nat \<Rightarrow> rat list \<Rightarrow>
   (signal_fact option \<times> rat list) result" where
  "relative_days_step c bars values multiple days i ready =
     (case values ! i of
        None \<Rightarrow> Inr (None, ready)
      | Some v \<Rightarrow>
          let ready' = ready @ [v]
          in if length ready' < days then Inr (None, ready')
             else rbind (leaf_fact c bars i GTE (Min (set (drop (length ready' - days) ready'))) multiple None None 0) (\<lambda>f.
                    Inr (f, ready')))"

definition evaluate_relative_volume :: "indicator_condition \<Rightarrow> daily_bar list \<Rightarrow> signal_fact option list result" where
  "evaluate_relative_volume c bars =
     rbind (int_param c ''baseline_period'') (\<lambda>p.
     rbind (relative_volume p bars) (\<lambda>values.
     rbind (required_value c) (\<lambda>multiple.
     rbind (checks [(multiple \<le> 0, SignalRuntimeError ''relative-volume multiple must be greater than zero'')]) (\<lambda>_.
       if ic_trigger c = ''consecutive_gte_multiple''
       then rbind (int_param c ''consecutive_days'') (\<lambda>days.
              series (length bars) (relative_days_step c bars values multiple days) [])
       else
         rbind (resolve_trigger c [(''gt_multiple'', GT), (''gte_multiple'', GTE), (''lte_multiple'', LTE)] True) (\<lambda>cmp.
           points (length bars) (\<lambda>i.
             case values ! i of
               None \<Rightarrow> Inr None
             | Some v \<Rightarrow> leaf_fact c bars i cmp v multiple None None 0))))))"

definition evaluate_volume_price_confirmation :: "indicator_condition \<Rightarrow> daily_bar list \<Rightarrow> signal_fact option list result" where
  "evaluate_volume_price_confirmation c bars =
     rbind (forbid_value c) (\<lambda>_.
     rbind (checks [(ic_trigger c \<notin> {''surge_up'', ''surge_down''}, SignalRuntimeError ''unsupported trigger'')]) (\<lambda>_.
     rbind (int_param c ''baseline_period'') (\<lambda>p.
     rbind (decimal_param c ''volume_multiple'') (\<lambda>multiple.
     rbind (decimal_param c ''return_threshold_pct'') (\<lambda>threshold.
     rbind (checks [(multiple \<le> 0 \<or> threshold < 0,
        SignalRuntimeError ''volume_multiple must be positive and return_threshold_pct non-negative'')]) (\<lambda>_.
     rbind (volume_price_points p bars) (\<lambda>points'.
       points (length bars) (\<lambda>i.
         case points' ! i of
           None \<Rightarrow> Inr None
         | Some x \<Rightarrow>
             let up = (ic_trigger c = ''surge_up'');
                 limit = (if up then threshold else dec_neg threshold);
                 price_holds = (if up then vp_return_pct x \<ge> threshold else vp_return_pct x \<le> dec_neg threshold)
             in boolean_fact c bars i (vp_relative_volume x \<ge> multiple \<and> price_holds) (Some (vp_return_pct x)) (Some limit)))))))))"

definition obv_signal_step ::
  "indicator_condition \<Rightarrow> daily_bar list \<Rightarrow> rat option list \<Rightarrow> comparator \<Rightarrow> nat \<Rightarrow> rat option \<Rightarrow>
   (signal_fact option \<times> rat option) result" where
  "obv_signal_step c bars values cmp i previous =
     (case values ! i of
        None \<Rightarrow> Inr (None, previous)
      | Some v \<Rightarrow>
          (case previous of
             None \<Rightarrow> Inr (None, Some v)
           | Some w \<Rightarrow> rbind (leaf_fact c bars i cmp v w None None 0) (\<lambda>f. Inr (f, Some v))))"

definition evaluate_obv :: "indicator_condition \<Rightarrow> daily_bar list \<Rightarrow> signal_fact option list result" where
  "evaluate_obv c bars =
     rbind (resolve_trigger c [(''rising'', GT), (''falling'', LT)] False) (\<lambda>cmp.
     rbind (on_balance_volume bars) (\<lambda>values. series (length bars) (obv_signal_step c bars values cmp) None))"

definition divergence_params :: "indicator_condition \<Rightarrow> divergence_parameters result" where
  "divergence_params c =
     rbind (int_param c ''left_bars'') (\<lambda>left.
     rbind (int_param c ''right_bars'') (\<lambda>right.
     rbind (int_param c ''min_separation'') (\<lambda>least.
     rbind (int_param c ''max_separation'') (\<lambda>most.
     rbind (decimal_param c ''price_threshold_pct'') (\<lambda>price.
     rbind (decimal_param c ''obv_threshold_adv'') (\<lambda>obv.
     rbind (int_param c ''average_volume_period'') (\<lambda>p.
       Inr \<lparr>dv_left_bars = left, dv_right_bars = right, dv_min_separation = least, dv_max_separation = most,
            dv_price_threshold = price, dv_obv_threshold = obv, dv_volume_period = p\<rparr>)))))))"

definition evaluate_obv_divergence :: "indicator_condition \<Rightarrow> daily_bar list \<Rightarrow> signal_fact option list result" where
  "evaluate_obv_divergence c bars =
     rbind (forbid_value c) (\<lambda>_.
     rbind (checks [(ic_trigger c \<notin> {''bearish'', ''bullish''}, SignalRuntimeError ''unsupported trigger'')]) (\<lambda>_.
     rbind (divergence_params c) (\<lambda>q.
     rbind (confirmed_obv_divergence q bars) (\<lambda>points'.
       points (length bars) (\<lambda>i.
         case points' ! i of
           None \<Rightarrow> Inr None
         | Some x \<Rightarrow>
             boolean_fact c bars i (if ic_trigger c = ''bearish'' then vd_bearish x else vd_bullish x)
               (vd_obv_change x) (vd_obv_threshold x))))))"

definition trend_params :: "indicator_condition \<Rightarrow> trend_parameters result" where
  "trend_params c =
     rbind (int_param c ''short_period'') (\<lambda>short.
     rbind (int_param c ''long_period'') (\<lambda>long.
     rbind (int_param c ''slope_lookback'') (\<lambda>slope.
     rbind (int_param c ''adx_period'') (\<lambda>adx.
     rbind (decimal_param c ''adx_threshold'') (\<lambda>threshold.
     rbind (int_param c ''confirmation_days'') (\<lambda>days.
     rbind (int_param c ''stability_bars'') (\<lambda>stability.
       Inr \<lparr>tr_short_period = short, tr_long_period = long, tr_slope_lookback = slope, tr_adx_period = adx,
            tr_adx_threshold = threshold, tr_confirmation_days = days, tr_stability_bars = stability\<rparr>)))))))"

definition evaluate_trend_regime :: "indicator_condition \<Rightarrow> daily_bar list \<Rightarrow> signal_fact option list result" where
  "evaluate_trend_regime c bars =
     rbind (forbid_value c) (\<lambda>_.
       case map_of [(''uptrend'', UP_TREND), (''downtrend'', DOWN_TREND), (''range'', RANGE_TREND)] (ic_trigger c) of
         None \<Rightarrow> runtime_error ''unsupported trigger''
       | Some expected \<Rightarrow>
           rbind (trend_params c) (\<lambda>q.
           rbind (stage_trend q bars) (\<lambda>points'.
             points (length bars) (\<lambda>i.
               case points' ! i of
                 None \<Rightarrow> Inr None
               | Some x \<Rightarrow> boolean_fact c bars i (tp_regime x = expected) (Some (dp_adx (tp_movement x))) None))))"

section \<open>The evaluator table\<close>

definition evaluator_table :: "(string \<times> (indicator_condition \<Rightarrow> daily_bar list \<Rightarrow> signal_fact option list result)) list" where
  "evaluator_table =
     [(''technical.ma'', evaluate_ma), (''technical.ema'', evaluate_ema), (''technical.ma_cross'', evaluate_ma_cross),
      (''technical.bollinger'', evaluate_bollinger), (''technical.kdj'', evaluate_kdj), (''technical.cci'', evaluate_cci),
      (''technical.bbi'', evaluate_bbi), (''technical.ema_bias'', evaluate_ema_bias), (''price.close'', evaluate_close_price),
      (''price.return_pct'', evaluate_return_pct), (''price.rolling_high'', evaluate_rolling_high),
      (''price.consecutive_up'', evaluate_consecutive_up), (''price.amplitude'', evaluate_amplitude),
      (''market.amount'', evaluate_amount), (''market.turnover_rate'', evaluate_turnover_rate),
      (''amount.average'', evaluate_amount_average), (''technical.macd'', evaluate_macd), (''technical.rsi'', evaluate_rsi),
      (''market.volume'', evaluate_volume), (''volume.relative'', evaluate_relative_volume),
      (''volume.price_confirmation'', evaluate_volume_price_confirmation), (''technical.obv'', evaluate_obv),
      (''volume.price_divergence'', evaluate_obv_divergence), (''technical.trend_regime'', evaluate_trend_regime),
      (''price.true_range'', evaluate_true_range), (''technical.atr'', evaluate_atr), (''technical.natr'', evaluate_natr),
      (''technical.adx'', evaluate_adx), (''technical.dmi'', evaluate_dmi), (''technical.bias'', evaluate_bias),
      (''technical.roc'', evaluate_roc), (''technical.momentum'', evaluate_momentum),
      (''technical.stochastic'', evaluate_stochastic), (''technical.williams_r'', evaluate_williams_r),
      (''technical.donchian'', evaluate_donchian), (''technical.return_stddev'', evaluate_return_stddev),
      (''technical.historical_volatility'', evaluate_historical_volatility)]"

definition evaluate_indicator_on_valid_bars :: "indicator_condition \<Rightarrow> daily_bar list \<Rightarrow> signal_fact option list result" where
  "evaluate_indicator_on_valid_bars c bars =
     rbind (checks [(ic_definition_version c \<noteq> ''1.0.0'', SignalRuntimeError ''unsupported definition version'')]) (\<lambda>_.
       case map_of evaluator_table (ic_indicator_id c) of
         None \<Rightarrow> runtime_error ''unsupported indicator''
       | Some evaluate \<Rightarrow> evaluate c bars)"

text \<open>A session without volume neither advances a window nor carries a fact.\<close>

definition evaluate_indicator :: "indicator_condition \<Rightarrow> daily_bar list \<Rightarrow> signal_fact option list result" where
  "evaluate_indicator c bars = on_valid tradable (evaluate_indicator_on_valid_bars c) bars"

definition stable_indicator_evaluator_ids :: "string set" where
  "stable_indicator_evaluator_ids =
     {''amount.average'', ''market.amount'', ''market.turnover_rate'', ''market.volume'', ''price.amplitude'', ''price.close'',
      ''price.consecutive_up'', ''price.return_pct'', ''price.rolling_high'', ''price.true_range'', ''technical.adx'',
      ''technical.atr'', ''technical.bbi'', ''technical.bias'', ''technical.bollinger'', ''technical.cci'', ''technical.dmi'',
      ''technical.donchian'', ''technical.ema'', ''technical.ema_bias'', ''technical.historical_volatility'', ''technical.kdj'',
      ''technical.ma'', ''technical.ma_cross'', ''technical.macd'', ''technical.momentum'', ''technical.natr'', ''technical.obv'',
      ''technical.return_stddev'', ''technical.roc'', ''technical.rsi'', ''technical.stochastic'', ''technical.trend_regime'',
      ''technical.williams_r'', ''volume.price_confirmation'', ''volume.price_divergence'', ''volume.relative''}"

end
