(* ===== verification/EventSignals.thy ===== *)
theory EventSignals
  imports Documents Signals IndicatorSignals
begin

text \<open>
  Event conditions of \<open>ashare_lab/domain/events/runtime.py\<close> with the registry of executable events of
  \<open>events/catalog.py\<close>: which published event, in which revision, makes a condition true on which session.
  The texts printed into a reason (identities, counts) are left out.
\<close>

section \<open>The registry of executable events (catalog.py)\<close>

record event_definition =
  ed_event_code :: string
  ed_definition_version :: string
  ed_allowed_attributes :: "string list"

definition public_announcement_event_codes :: "string list" where
  "public_announcement_event_codes = [
     ''event.contracts_orders.contract_changed'', ''event.contracts_orders.contract_completed'',
     ''event.contracts_orders.contract_progress'', ''event.contracts_orders.contract_terminated'',
     ''event.contracts_orders.framework_agreement'', ''event.contracts_orders.major_contract_signed'',
     ''event.contracts_orders.purchase_order_received'', ''event.dividends_corporate_actions.capitalization_issue'',
     ''event.dividends_corporate_actions.cash_dividend_approved'',
     ''event.dividends_corporate_actions.cash_dividend_ex_date'',
     ''event.dividends_corporate_actions.cash_dividend_proposal'', ''event.dividends_corporate_actions.rights_issue'',
     ''event.dividends_corporate_actions.stock_dividend_ex_date'',
     ''event.dividends_corporate_actions.stock_dividend_proposal'', ''event.governance_personnel.board_secretary_change'',
     ''event.governance_personnel.ceo_change'', ''event.governance_personnel.cfo_change'',
     ''event.governance_personnel.chairman_change'', ''event.governance_personnel.director_resignation'',
     ''event.governance_personnel.equity_incentive_grant'', ''event.governance_personnel.equity_incentive_plan'',
     ''event.governance_personnel.supervisor_resignation'', ''event.litigation_credit.arbitration'',
     ''event.litigation_credit.bankruptcy_reorganization'', ''event.litigation_credit.credit_rating_downgrade'',
     ''event.litigation_credit.debt_default'', ''event.litigation_credit.litigation_progress'',
     ''event.litigation_credit.major_litigation'', ''event.m_and_a_restructuring.acquisition_plan'',
     ''event.m_and_a_restructuring.asset_sale_plan'', ''event.m_and_a_restructuring.restructuring_approved_board'',
     ''event.m_and_a_restructuring.restructuring_approved_shareholders'',
     ''event.m_and_a_restructuring.restructuring_completed'',
     ''event.m_and_a_restructuring.restructuring_regulatory_approval'',
     ''event.m_and_a_restructuring.restructuring_resumption'', ''event.m_and_a_restructuring.restructuring_suspension'',
     ''event.m_and_a_restructuring.restructuring_terminated'', ''event.m_and_a_restructuring.spin_off_listing'',
     ''event.regulation_risk.administrative_penalty'', ''event.regulation_risk.disciplinary_action'',
     ''event.regulation_risk.information_disclosure_violation'', ''event.regulation_risk.investigation_opened'',
     ''event.regulation_risk.public_censure'', ''event.repurchase_capital.repurchase_approved'',
     ''event.repurchase_capital.repurchase_cancellation'', ''event.repurchase_capital.repurchase_change'',
     ''event.repurchase_capital.repurchase_completion'', ''event.repurchase_capital.repurchase_first_execution'',
     ''event.repurchase_capital.repurchase_progress'', ''event.repurchase_capital.repurchase_proposal'',
     ''event.repurchase_capital.repurchase_termination'', ''event.restricted_shares_pledges.restricted_shares_unlock'',
     ''event.restricted_shares_pledges.unlock_schedule_change'', ''event.shareholder_holdings.actual_controller_change'',
     ''event.shareholder_holdings.executive_decrease'', ''event.shareholder_holdings.executive_increase'',
     ''event.shareholder_holdings.major_holder_decrease_plan'',
     ''event.shareholder_holdings.major_holder_decrease_progress'',
     ''event.shareholder_holdings.major_holder_increase_plan'',
     ''event.shareholder_holdings.major_holder_increase_progress'',
     ''event.shareholder_holdings.ownership_below_five_percent'',
     ''event.shareholder_holdings.ownership_reaches_five_percent'']"

definition document_text_event_codes :: "string list" where
  "document_text_event_codes = [
     ''event.financial_results.earnings_forecast_published'', ''event.financial_results.earnings_flash_report'',
     ''event.financial_results.annual_report'', ''event.financial_results.semiannual_report'',
     ''event.financial_results.quarterly_report'']"

definition event_definitions :: "event_definition list" where
  "event_definitions = map (\<lambda>(code, attrs). \<lparr>ed_event_code = code, ed_definition_version = ''1.0.0'', ed_allowed_attributes = attrs\<rparr>)
    ([
     (''event.financial_results.earnings_forecast_published'', [''forecast_type'', ''direction'', ''source'']),
     (''event.financial_results.earnings_flash_report'', [''report_type'', ''stat_date'', ''source'']),
     (''event.financial_results.annual_report'', [''report_type'', ''stat_date'', ''source'']),
     (''event.financial_results.semiannual_report'', [''report_type'', ''stat_date'', ''source'']),
     (''event.financial_results.quarterly_report'', [''report_type'', ''stat_date'', ''source'']),
     (''event.contracts_orders.major_contract_won'', [''award_stage'', ''contract_type'', ''counterparty'', ''is_consortium'', ''issuer_role'', ''materiality_basis'', ''materiality_status'', ''project_name'', ''source_kind'']),
     (''event.macro_policy_industry.license_approval'', [''approval_status'', ''jurisdiction'', ''license_type'', ''product_or_scope'', ''regulator'', ''source_kind''])] @
     map (\<lambda>code. (code, [])) public_announcement_event_codes)"

text \<open>The dictionary keeps the last definition of a code; the codes are distinct.\<close>

definition resolve_executable_event :: "string \<Rightarrow> event_definition option" where
  "resolve_executable_event code = map_of (map (\<lambda>d. (ed_event_code d, d)) (rev event_definitions)) code"

section \<open>Evidence of an event\<close>

abbreviation event_error :: "string \<Rightarrow> 'a result" where
  "event_error m \<equiv> Inl (EventRuntimeError m)"

fun time_quality_value :: "time_quality \<Rightarrow> string" where
  "time_quality_value EXACT = ''exact''"
| "time_quality_value VENDOR_OBSERVED = ''vendor_observed''"
| "time_quality_value DATE_ONLY_CONSERVATIVE = ''date_only_conservative''"
| "time_quality_value ESTIMATED_RESEARCH_ONLY = ''estimated_research_only''"

definition required_available_at :: "event_envelope \<Rightarrow> datetime result" where
  "required_available_at e =
     (case event_available_at e of
        None \<Rightarrow> event_error ''research-only estimated event has no tradable availability''
      | Some t \<Rightarrow> Inr t)"

text \<open>\<open>\d{4}-\d{2}-\d{2}[ T]\d{2}:\d{2}:\d{2}(?::\d{3}|\.\d{1,6})?\<close>; in a shape, \<open>d\<close> is a digit and \<open>s\<close> a blank or \<open>T\<close>.\<close>

fun fits :: "string \<Rightarrow> string \<Rightarrow> bool" where
  "fits [] [] \<longleftrightarrow> True"
| "fits (p # ps) (c # cs) \<longleftrightarrow>
     (if p = CHR ''d'' then is_digit c else if p = CHR ''s'' then c = CHR '' '' \<or> c = CHR ''T'' else c = p) \<and> fits ps cs"
| "fits _ _ \<longleftrightarrow> False"

definition eastmoney_second_timestamp :: "string \<Rightarrow> bool" where
  "eastmoney_second_timestamp s \<longleftrightarrow>
     fits ''dddd-dd-ddsdd:dd:dd'' (take 19 s) \<and>
     (drop 19 s = [] \<or> fits '':ddd'' (drop 19 s) \<or>
      list_ex (\<lambda>n. fits (CHR ''.'' # replicate n (CHR ''d'')) (drop 19 s)) [1..<7])"

definition text_value :: "attributes \<Rightarrow> string \<Rightarrow> string option" where
  "text_value attrs name = (case map_of attrs name of Some (TextValue s) \<Rightarrow> Some s | _ \<Rightarrow> None)"

definition timestamp_precision :: "text_library \<Rightarrow> event_envelope \<Rightarrow> string option" where
  "timestamp_precision L e =
     (let attrs = me_attributes (ee_event e); value = text_value attrs
      in if value ''timestamp_precision'' \<in> set (map Some [''second'', ''minute'', ''hour'', ''date'']) then value ''timestamp_precision''
         else if ee_provider e \<noteq> Some ''eastmoney'' \<or> ee_validation_status e \<noteq> Some ''validated'' \<or>
           value ''provider'' \<noteq> Some ''eastmoney'' \<or> value ''validation_status'' \<noteq> Some ''validated'' \<or>
           value ''time_quality'' \<noteq> Some (time_quality_value (ee_time_quality e)) \<or>
           value ''timing_policy'' \<noteq> Some ''max(ceil(display_time), credible_eitime)'' then None
         else if \<not> list_ex (opt_any eastmoney_second_timestamp) [value ''raw_ei_time'', value ''raw_content_ei_time''] then None
         else case (value ''conservative_available_at'', event_available_at e) of
             (Some frozen, Some available) \<Rightarrow> if tl_parse_iso L frozen = Some available then Some ''second'' else None
           | _ \<Rightarrow> None)"

definition event_evidence :: "text_library \<Rightarrow> event_envelope \<Rightarrow> signal_evidence result" where
  "event_evidence L e =
     rbind (required_available_at e) (\<lambda>available.
       mk_signal_evidence
         \<lparr>se_type = ''event'', se_id = me_event_id (ee_event e), se_available_at = available,
          se_source_event_id = ee_source_event_id e, se_provider = ee_provider e, se_source_url = ee_source_url e,
          se_time_quality = Some (time_quality_value (ee_time_quality e)), se_timestamp_precision = timestamp_precision L e,
          se_validation_status = ee_validation_status e, se_raw_response_sha256 = ee_raw_response_sha256 e\<rparr>)"

section \<open>Matching\<close>

fun numeric_attribute :: "attribute \<Rightarrow> rat option" where
  "numeric_attribute (IntValue n) = Some (of_int n)"
| "numeric_attribute (DecimalValue d) = Some d"
| "numeric_attribute _ = None"

fun numeric_scalar :: "json_scalar \<Rightarrow> rat option" where
  "numeric_scalar (JInt n) = Some (of_int n)"
| "numeric_scalar (JFloat (Finite x)) = Some x"
| "numeric_scalar _ = None"

fun scalar_equal :: "attribute \<Rightarrow> json_scalar \<Rightarrow> bool" where
  "scalar_equal (BoolValue a) (JBool b) \<longleftrightarrow> a = b"
| "scalar_equal (TextValue a) (JStr b) \<longleftrightarrow> a = b"
| "scalar_equal a b \<longleftrightarrow> numeric_attribute a \<noteq> None \<and> numeric_attribute a = numeric_scalar b"

definition attributes_match :: "attributes \<Rightarrow> (string \<times> json_scalar) list \<Rightarrow> bool" where
  "attributes_match actual expected \<longleftrightarrow>
     list_all (\<lambda>(name, value). opt_any (\<lambda>a. scalar_equal a value) (map_of actual name)) expected"

definition available_or_epoch :: "event_envelope \<Rightarrow> datetime" where
  "available_or_epoch e = (case event_available_at e of Some t \<Rightarrow> t | None \<Rightarrow> 0)"

text \<open>The sort key; the envelopes that are sorted all have an availability.\<close>

definition event_key :: "event_envelope \<Rightarrow> datetime \<times> string \<times> int" where
  "event_key e = (available_or_epoch e, me_event_id (ee_event e), ee_revision_no e)"

definition event_candidates :: "event_condition \<Rightarrow> event_envelope list \<Rightarrow> string \<Rightarrow> event_envelope list" where
  "event_candidates c events instrument =
     sort_key event_key (filter (\<lambda>e. me_instrument_id (ee_event e) = instrument \<and>
       me_event_code (ee_event e) = ec_event_code c \<and> event_available_at e \<noteq> None) events)"

definition rewrap_document_error :: "'a result \<Rightarrow> 'a result" where
  "rewrap_document_error r =
     (case r of Inl (DocumentMetricError m) \<Rightarrow> event_error ''event document metric cannot be replayed'' | _ \<Rightarrow> r)"

definition document_matches :: "text_library \<Rightarrow> event_condition \<Rightarrow> event_envelope \<Rightarrow> bool result" where
  "document_matches L c e =
     (case ec_document_text c of
        None \<Rightarrow> Inr True
      | Some p \<Rightarrow> rewrap_document_error
          (rbind (evaluate_document_text_predicate L p (me_attributes (ee_event e))) (\<lambda>r. Inr (snd r))))"

text \<open>\<open>selected\<close> is the dictionary from event identifiers to the first matching revision.\<close>

definition select_revision ::
  "text_library \<Rightarrow> event_condition \<Rightarrow> event_envelope \<Rightarrow> (string \<times> event_envelope) list \<Rightarrow> (string \<times> event_envelope) list result" where
  "select_revision L c e selected =
     (if me_event_id (ee_event e) \<in> fst ` set selected then Inr selected
      else if \<not> attributes_match (me_attributes (ee_event e)) (ec_attributes c) then Inr selected
      else rbind (document_matches L c e) (\<lambda>matched.
        Inr (if matched then selected @ [(me_event_id (ee_event e), e)] else selected)))"

definition first_matching_revisions ::
  "text_library \<Rightarrow> event_condition \<Rightarrow> event_envelope list \<Rightarrow> string \<Rightarrow> event_envelope list result" where
  "first_matching_revisions L c events instrument =
     rbind (fold_res (select_revision L c) (event_candidates c events instrument) []) (\<lambda>selected.
       Inr (map snd (sort_key fst selected)))"

text \<open>\<open>next((index for index, bar in enumerate(bars) if ...), None)\<close>\<close>

fun first_position :: "('a \<Rightarrow> bool) \<Rightarrow> 'a list \<Rightarrow> nat option" where
  "first_position P [] = None"
| "first_position P (x # xs) = (if P x then Some 0 else map_option Suc (first_position P xs))"

definition first_session_on_or_after :: "daily_bar list \<Rightarrow> datetime \<Rightarrow> nat option" where
  "first_session_on_or_after bars t = first_position (\<lambda>b. shanghai_date t \<le> b_session_date b) bars"

section \<open>The timeline of an event condition\<close>

record event_point =
  ep_instrument_id :: string
  ep_session_date :: date
  ep_triggered :: bool
  ep_observed_at :: datetime
  ep_available_at :: datetime
  ep_reason :: string
  ep_evidence :: "signal_evidence list"

definition session_matches :: "daily_bar list \<Rightarrow> event_envelope list \<Rightarrow> nat \<Rightarrow> event_envelope list" where
  "session_matches bars selected i =
     sort_key event_key (filter (\<lambda>e. first_session_on_or_after bars (available_or_epoch e) = Some i) selected)"

definition event_point_at :: "text_library \<Rightarrow> daily_bar \<Rightarrow> event_envelope list \<Rightarrow> event_point result" where
  "event_point_at L bar matches =
     (case matches of
        [] \<Rightarrow> Inr \<lparr>ep_instrument_id = b_instrument_id bar, ep_session_date = b_session_date bar, ep_triggered = False,
               ep_observed_at = observed_at bar, ep_available_at = max (observed_at bar) (b_available_at bar),
               ep_reason = ''no_matching_event_published => false'', ep_evidence = []\<rparr>
      | e # es \<Rightarrow>
          let first = Min (set (map available_or_epoch matches))
          in rbind (map_res (event_evidence L) (filter (\<lambda>m. available_or_epoch m = first) matches)) (\<lambda>evidence.
               Inr \<lparr>ep_instrument_id = b_instrument_id bar, ep_session_date = b_session_date bar, ep_triggered = True,
                    ep_observed_at = first, ep_available_at = first, ep_reason = ''published_events => true'', ep_evidence = evidence\<rparr>))"

definition evaluate_event_condition_aligned ::
  "text_library \<Rightarrow> event_condition \<Rightarrow> daily_bar list \<Rightarrow> event_envelope list \<Rightarrow> event_point list result" where
  "evaluate_event_condition_aligned L c bars events =
     (if bars = [] then Inr []
      else case resolve_executable_event (ec_event_code c) of
          None \<Rightarrow> event_error ''unsupported event code''
        | Some d \<Rightarrow>
            rbind (checks [(ec_definition_version c \<noteq> ed_definition_version d, EventRuntimeError ''unsupported definition version'')]) (\<lambda>_.
            rbind (first_matching_revisions L c events (b_instrument_id (hd bars))) (\<lambda>selected.
              map_res (\<lambda>i. event_point_at L (bars ! i) (session_matches bars selected i)) [0..<length bars])))"

section \<open>What the selection guarantees\<close>

text \<open>What is public at the end of a day: the events whose availability falls on it or before.\<close>

definition event_known :: "date \<Rightarrow> event_envelope \<Rightarrow> bool" where
  "event_known d e \<longleftrightarrow> opt_any (\<lambda>t. shanghai_date t \<le> d) (event_available_at e)"

lemma fold_res_append: "fold_res f (xs @ ys) s = rbind (fold_res f xs s) (fold_res f ys)"
proof (induction xs arbitrary: s)
  case (Cons x xs)
  then have "fold_res f (xs @ ys) = (\<lambda>t. rbind (fold_res f xs t) (fold_res f ys))" by blast
  then show ?case by (simp add: rbind_assoc)
qed simp

lemma sorted_split_downward:
  assumes "sorted (map k xs)" and "\<And>x y. x \<in> set xs \<Longrightarrow> y \<in> set xs \<Longrightarrow> P y \<Longrightarrow> k x \<le> k y \<Longrightarrow> P x"
  shows "xs = filter P xs @ filter (\<lambda>x. \<not> P x) xs"
  using assms
proof (induction xs)
  case (Cons x xs)
  show ?case
  proof (cases "P x")
    case True
    have "sorted (map k xs)" using Cons.prems(1) by simp
    then have "xs = filter P xs @ filter (\<lambda>x. \<not> P x) xs"
      by (rule Cons.IH) (use Cons.prems(2) in \<open>meson list.set_intros(2)\<close>)
    then show ?thesis using True by simp
  next
    case False
    have "\<not> P y" if "y \<in> set xs" for y
      using Cons.prems(1) Cons.prems(2) [of x y] False that by auto
    then show ?thesis using False by (simp add: filter_id_conv)
  qed
qed simp

lemma event_known_downward:
  assumes "event_available_at x \<noteq> None" "event_available_at y \<noteq> None" "event_known d y" "event_key x \<le> event_key y"
  shows "event_known d x"
proof -
  obtain s t where st: "event_available_at x = Some s" "event_available_at y = Some t" using assms(1,2) by auto
  then have "s \<le> t" using assms(4) by (auto simp: event_key_def available_or_epoch_def less_eq_prod_def)
  then show ?thesis using assms(3) st shanghai_date_mono [of s t] by (auto simp: event_known_def)
qed

lemma candidates_known: "event_candidates c (filter (event_known d) events) i = filter (event_known d) (event_candidates c events i)"
  by (simp add: event_candidates_def filter_sort conj_commute)

lemma candidates_split:
  "event_candidates c events i = event_candidates c (filter (event_known d) events) i @
     filter (\<lambda>e. \<not> event_known d e) (event_candidates c events i)"
  unfolding candidates_known
  by (rule sorted_split_downward [where k = event_key]) (auto simp: event_candidates_def intro: event_known_downward)

lemma select_revision_extends:
  "select_revision L c e selected = Inr s \<Longrightarrow> s = selected \<or> s = selected @ [(me_event_id (ee_event e), e)]"
  by (auto simp: select_revision_def result_simps split: if_splits)

lemma fold_select_extends:
  "fold_res (select_revision L c) es selected = Inr s \<Longrightarrow> \<exists>more. s = selected @ more \<and> snd ` set more \<subseteq> set es"
proof (induction es arbitrary: selected)
  case (Cons e es)
  then obtain s' where s': "select_revision L c e selected = Inr s'" "fold_res (select_revision L c) es s' = Inr s"
    by (auto simp: result_simps)
  then obtain more where more: "s = s' @ more" "snd ` set more \<subseteq> set es" using Cons.IH by blast
  from select_revision_extends [OF s'(1)] show ?case
  proof
    assume "s' = selected"
    then show ?thesis using more by (intro exI [of _ more]) auto
  next
    assume "s' = selected @ [(me_event_id (ee_event e), e)]"
    then show ?thesis using more by (intro exI [of _ "(me_event_id (ee_event e), e) # more"]) auto
  qed
qed simp

text \<open>Later publications and later revisions cannot rewrite what was selected before them.\<close>

lemma first_matching_revisions_known:
  assumes "first_matching_revisions L c events i = Inr selected"
  shows "first_matching_revisions L c (filter (event_known d) events) i = Inr (filter (event_known d) selected)"
proof -
  let ?early = "event_candidates c (filter (event_known d) events) i"
  let ?late = "filter (\<lambda>e. \<not> event_known d e) (event_candidates c events i)"
  obtain s where s: "fold_res (select_revision L c) (?early @ ?late) [] = Inr s" "selected = map snd (sort_key fst s)"
    using assms candidates_split [of c events i d] by (auto simp: first_matching_revisions_def result_simps)
  then obtain s0 where s0: "fold_res (select_revision L c) ?early [] = Inr s0" "fold_res (select_revision L c) ?late s0 = Inr s"
    by (auto simp: fold_res_append result_simps)
  obtain more where more: "s = s0 @ more" "snd ` set more \<subseteq> set ?late" using fold_select_extends [OF s0(2)] by blast
  have "snd ` set s0 \<subseteq> set ?early" using fold_select_extends [OF s0(1)] by auto
  then have "filter (\<lambda>p. event_known d (snd p)) s0 = s0" by (auto simp: candidates_known intro!: filter_True)
  moreover have "filter (\<lambda>p. event_known d (snd p)) more = []" using more(2) by (auto simp: filter_empty_conv)
  ultimately have "filter (\<lambda>p. event_known d (snd p)) (sort_key fst s) = sort_key fst s0"
    by (simp add: filter_sort more(1))
  then have "filter (event_known d) selected = map snd (sort_key fst s0)"
    by (simp add: s(2) filter_map comp_def)
  then show ?thesis by (simp add: first_matching_revisions_def s0(1))
qed

text \<open>One revision per event: identifiers are unique among the selected envelopes.\<close>

lemma fold_select_distinct:
  "fold_res (select_revision L c) es selected = Inr s \<Longrightarrow> distinct (map fst selected) \<Longrightarrow>
   \<forall>p \<in> set selected. fst p = me_event_id (ee_event (snd p)) \<Longrightarrow>
   distinct (map fst s) \<and> (\<forall>p \<in> set s. fst p = me_event_id (ee_event (snd p)))"
proof (induction es arbitrary: selected)
  case (Cons e es)
  then obtain s' where s': "select_revision L c e selected = Inr s'" "fold_res (select_revision L c) es s' = Inr s"
    by (auto simp: result_simps)
  then have "distinct (map fst s') \<and> (\<forall>p \<in> set s'. fst p = me_event_id (ee_event (snd p)))"
    using Cons.prems(2,3) by (auto simp: select_revision_def result_simps split: if_splits)
  then show ?case using Cons.IH s'(2) by blast
qed simp

lemma selected_facts:
  assumes "first_matching_revisions L c events i = Inr selected"
  shows "distinct (map (\<lambda>e. me_event_id (ee_event e)) selected)"
    "e \<in> set selected \<Longrightarrow> e \<in> set events \<and> me_instrument_id (ee_event e) = i \<and> me_event_code (ee_event e) = ec_event_code c \<and>
       event_available_at e = Some (available_or_epoch e)"
proof -
  obtain s where s: "fold_res (select_revision L c) (event_candidates c events i) [] = Inr s" "selected = map snd (sort_key fst s)"
    using assms by (auto simp: first_matching_revisions_def result_simps)
  have d: "distinct (map fst s)" "\<forall>p \<in> set s. fst p = me_event_id (ee_event (snd p))"
    using fold_select_distinct [OF s(1)] by auto
  have "map (\<lambda>e. me_event_id (ee_event e)) selected = map fst (sort_key fst s)" using d(2) by (auto simp: s(2))
  then show "distinct (map (\<lambda>e. me_event_id (ee_event e)) selected)" using d(1) by (simp add: distinct_map)
  show "e \<in> set events \<and> me_instrument_id (ee_event e) = i \<and> me_event_code (ee_event e) = ec_event_code c \<and>
      event_available_at e = Some (available_or_epoch e)" if "e \<in> set selected"
  proof -
    have "e \<in> set (event_candidates c events i)" using fold_select_extends [OF s(1)] that s(2) by auto
    then show ?thesis by (auto simp: event_candidates_def available_or_epoch_def)
  qed
qed

end
