(* ===== verification/SignalRuntime.thy ===== *)
theory SignalRuntime
  imports FinancialFacts EventSignals
begin

text \<open>
  The signal runtime of \<open>ashare_lab/domain/signals/runtime.py\<close> above its indicator leaves: the financial and
  event leaves, the three-valued combination of the nodes of a condition tree, and the aligned evaluation over
  daily bars.  Reasons are constant texts.  The clock of a bar is a reading of \<open>Asia/Shanghai\<close> when it is compared with
  the availability of a financial fact, whose own zone the check then asks for.
\<close>

lemma map_res_cong [fundef_cong]: "xs = ys \<Longrightarrow> (\<And>x. x \<in> set ys \<Longrightarrow> f x = g x) \<Longrightarrow> map_res f xs = map_res g ys"
  by (induction xs arbitrary: ys) auto

fun filter_res :: "('a \<Rightarrow> bool result) \<Rightarrow> 'a list \<Rightarrow> 'a list result" where
  "filter_res P [] = Inr []"
| "filter_res P (x # xs) =
     rbind (P x) (\<lambda>keep. rbind (filter_res P xs) (\<lambda>ys. Inr (if keep then x # ys else ys)))"

section \<open>The view of the market\<close>

text \<open>What an evaluation reads: bars, the bars of the execution price basis, events and financial facts.\<close>

record market_view =
  mv_bars :: "daily_bar list"
  mv_execution_bars :: "daily_bar list"
  mv_events :: "event_envelope list"
  mv_facts :: "financial_fact list"

section \<open>The financial leaf\<close>

fun financial_metric_value :: "financial_metric \<Rightarrow> string" where
  "financial_metric_value REVENUE = ''financial.revenue''"
| "financial_metric_value NET_PROFIT_PARENT = ''financial.net_profit_parent''"
| "financial_metric_value REVENUE_YOY = ''financial.revenue_yoy''"
| "financial_metric_value NET_PROFIT_PARENT_YOY = ''financial.net_profit_parent_yoy''"
| "financial_metric_value ROE = ''financial.roe''"
| "financial_metric_value GROSS_MARGIN = ''financial.gross_margin''"
| "financial_metric_value NET_MARGIN = ''financial.net_margin''"
| "financial_metric_value OPERATING_CASH_FLOW = ''financial.operating_cash_flow''"
| "financial_metric_value BASIC_EPS = ''financial.basic_eps''"
| "financial_metric_value BOOK_VALUE_PER_SHARE = ''financial.book_value_per_share''"
| "financial_metric_value CAPITAL_RESERVE_PER_SHARE = ''financial.capital_reserve_per_share''"
| "financial_metric_value UNASSIGNED_PROFIT_PER_SHARE = ''financial.unassigned_profit_per_share''"
| "financial_metric_value OPERATING_CASH_FLOW_PER_SHARE = ''financial.operating_cash_flow_per_share''"
| "financial_metric_value GROSS_PROFIT = ''financial.gross_profit''"
| "financial_metric_value DEDUCTED_NET_PROFIT = ''financial.deducted_net_profit''"
| "financial_metric_value DEDUCTED_NET_PROFIT_YOY = ''financial.deducted_net_profit_yoy''"
| "financial_metric_value ROTA = ''financial.rota''"
| "financial_metric_value TOTAL_ASSETS_TURNOVER = ''financial.total_assets_turnover''"
| "financial_metric_value INVENTORY_TURNOVER = ''financial.inventory_turnover''"
| "financial_metric_value ACCOUNTS_RECEIVABLE_TURNOVER = ''financial.accounts_receivable_turnover''"
| "financial_metric_value PE_TTM = ''valuation.pe_ttm''"
| "financial_metric_value PB_MRQ = ''valuation.pb_mrq''"
| "financial_metric_value DIVIDEND_YIELD_TTM = ''valuation.dividend_yield_ttm''"
| "financial_metric_value PE = ''valuation.pe''"
| "financial_metric_value PB = ''valuation.pb''"
| "financial_metric_value PS = ''valuation.ps''"
| "financial_metric_value PCF = ''valuation.pcf''"

fun financial_comparator_value :: "financial_comparator \<Rightarrow> string" where
  "financial_comparator_value FIN_GT = ''gt''"
| "financial_comparator_value FIN_GTE = ''gte''"
| "financial_comparator_value FIN_LT = ''lt''"
| "financial_comparator_value FIN_LTE = ''lte''"
| "financial_comparator_value FIN_EQ = ''eq''"
| "financial_comparator_value FIN_NE = ''ne''"

fun evaluate_financial_comparator :: "financial_comparator \<Rightarrow> rat \<Rightarrow> rat \<Rightarrow> bool" where
  "evaluate_financial_comparator FIN_GT l r \<longleftrightarrow> l > r"
| "evaluate_financial_comparator FIN_GTE l r \<longleftrightarrow> l \<ge> r"
| "evaluate_financial_comparator FIN_LT l r \<longleftrightarrow> l < r"
| "evaluate_financial_comparator FIN_LTE l r \<longleftrightarrow> l \<le> r"
| "evaluate_financial_comparator FIN_EQ l r \<longleftrightarrow> l = r"
| "evaluate_financial_comparator FIN_NE l r \<longleftrightarrow> l \<noteq> r"

definition financial_matches :: "financial_condition \<Rightarrow> financial_fact \<Rightarrow> bool" where
  "financial_matches c f \<longleftrightarrow>
     ff_metric_id f = fc_metric_id c \<and> none_or (\<lambda>b. ff_period_basis f = b) (fc_period_basis c) \<and>
     none_or (\<lambda>t. ff_report_type f = Some t) (fc_report_type c) \<and>
     ff_statement_scope f = fc_statement_scope c \<and> ff_unit f = fc_unit c"

definition financial_fact_sort_key :: "financial_fact \<Rightarrow> (date \<times> datetime \<times> string) result" where
  "financial_fact_sort_key f =
     (case (av_observed_at (ff_availability f), av_first_available_at (ff_availability f)) of
        (Some observed, Some first) \<Rightarrow>
          Inr ((case ff_report_period f of Some d \<Rightarrow> d | None \<Rightarrow> stamp_date observed), stamp_instant first, ff_revision_id f)
      | _ \<Rightarrow> Inl AssertionError)"

text \<open>\<open>max(available, key=...)\<close>: the keys are computed for all, the first greatest wins.\<close>

definition latest_financial_fact :: "financial_fact list \<Rightarrow> financial_fact result" where
  "latest_financial_fact available =
     rbind (map_res financial_fact_sort_key available) (\<lambda>keys.
       case zip keys available of
         [] \<Rightarrow> Inl (ValueError ''max() arg is an empty sequence'')
       | p # ps \<Rightarrow> Inr (snd (first_max fst p ps)))"

definition as_of :: "daily_bar \<Rightarrow> datetime" where
  "as_of b = max (observed_at b) (b_available_at b)"

definition financial_evidence :: "financial_fact \<Rightarrow> datetime \<Rightarrow> signal_evidence result" where
  "financial_evidence f first = mk_signal_evidence
     \<lparr>se_type = ''financial_fact'',
      se_id = ff_snapshot_id f @ '':'' @ ff_source_dataset f @ '':'' @ ff_source_field f @ '':'' @ ff_revision_id f,
      se_available_at = first, se_source_event_id = None, se_provider = Some (ff_provider f), se_source_url = None,
      se_time_quality = None, se_timestamp_precision = None, se_validation_status = None,
      se_raw_response_sha256 = Some (ff_raw_response_sha256 f)\<rparr>"

definition financial_condition_ref :: "financial_condition \<Rightarrow> string" where
  "financial_condition_ref c =
     financial_metric_value (fc_metric_id c) @ ''@1.0.0:'' @ financial_comparator_value (fc_comparator c)"

definition financial_signal :: "financial_condition \<Rightarrow> daily_bar \<Rightarrow> financial_fact \<Rightarrow> signal_fact option result" where
  "financial_signal c bar latest =
     (case ff_value latest of
        None \<Rightarrow> Inr None
      | Some v \<Rightarrow>
          (case av_first_available_at (ff_availability latest) of
             None \<Rightarrow> Inl AssertionError
           | Some first \<Rightarrow>
               rbind (financial_evidence latest (stamp_instant first)) (\<lambda>evidence.
               rbind (mk_signal_fact (SignalFact (b_instrument_id bar) (b_session_date bar) (financial_condition_ref c)
                   (evaluate_financial_comparator (fc_comparator c) v (fc_value c)) (observed_at bar) (max (as_of bar) (stamp_instant first))
                   ''comparison of a reported value'' (Some v) (Some (fc_value c)) [] [evidence])) (\<lambda>f. Inr (Some f)))))"

text \<open>The clocks of bars are readings of \<open>Asia/Shanghai\<close>; a fact whose zone has another offset at the bar raises.\<close>

definition known_financial_facts ::
  "time_zones \<Rightarrow> financial_condition \<Rightarrow> daily_bar \<Rightarrow> financial_fact list \<Rightarrow> financial_fact list result" where
  "known_financial_facts zones c bar facts =
     filter_res (\<lambda>f.
       if financial_matches c f \<and> ff_instrument_id f = b_instrument_id bar
       then is_available_at zones (ff_availability f) (shanghai_stamp (as_of bar)) else Inr False) facts"

definition evaluate_financial ::
  "time_zones \<Rightarrow> financial_condition \<Rightarrow> daily_bar list \<Rightarrow> financial_fact list \<Rightarrow> signal_fact option list result" where
  "evaluate_financial zones c bars facts =
     map_res (\<lambda>bar.
       rbind (known_financial_facts zones c bar facts) (\<lambda>available.
         case available of
           [] \<Rightarrow> Inr None
         | f # fs \<Rightarrow> rbind (latest_financial_fact (f # fs)) (financial_signal c bar))) bars"

section \<open>The event leaf\<close>

definition event_condition_ref :: "event_condition \<Rightarrow> string" where
  "event_condition_ref c = ec_event_code c @ ''@'' @ ec_definition_version c @ '':published''"

definition rewrap_event_error :: "'a result \<Rightarrow> 'a result" where
  "rewrap_event_error r = (case r of Inl (EventRuntimeError m) \<Rightarrow> Inl (SignalRuntimeError m) | _ \<Rightarrow> r)"

definition event_signal :: "event_condition \<Rightarrow> event_point \<Rightarrow> signal_fact option result" where
  "event_signal c p =
     rbind (mk_signal_fact (SignalFact (ep_instrument_id p) (ep_session_date p) (event_condition_ref c) (ep_triggered p)
       (ep_observed_at p) (ep_available_at p) (ep_reason p) None None [] (ep_evidence p))) (\<lambda>f. Inr (Some f))"

definition evaluate_event :: "text_library \<Rightarrow> event_condition \<Rightarrow> daily_bar list \<Rightarrow> event_envelope list \<Rightarrow> signal_fact option list result" where
  "evaluate_event L c bars events =
     rbind (rewrap_event_error (evaluate_event_condition_aligned L c bars events)) (map_res (event_signal c))"

section \<open>Combination of children\<close>

datatype operator = OP_ALL | OP_ANY | OP_NOT

fun operator_value :: "operator \<Rightarrow> string" where
  "operator_value OP_ALL = ''all''"
| "operator_value OP_ANY = ''any''"
| "operator_value OP_NOT = ''not''"

text \<open>A state is unknown, false or true.\<close>

fun combine_states :: "operator \<Rightarrow> bool option list \<Rightarrow> bool option" where
  "combine_states OP_ALL states =
     (if Some False \<in> set states then Some False else if list_all (\<lambda>s. s = Some True) states then Some True else None)"
| "combine_states OP_ANY states =
     (if Some True \<in> set states then Some True else if list_all (\<lambda>s. s = Some False) states then Some False else None)"
| "combine_states OP_NOT states = map_option Not (hd states)"

text \<open>Assignment to a dictionary: a present key keeps its place.\<close>

fun dict_put :: "'k \<Rightarrow> 'v \<Rightarrow> ('k \<times> 'v) list \<Rightarrow> ('k \<times> 'v) list" where
  "dict_put k v [] = [(k, v)]"
| "dict_put k v ((k', v') # d) = (if k = k' then (k, v) # d else (k', v') # dict_put k v d)"

definition evidence_order :: "(string \<times> string \<times> string option) \<times> signal_evidence \<Rightarrow> string \<times> string \<times> string" where
  "evidence_order p = (case fst p of (t, i, s) \<Rightarrow> (t, i, case s of Some x \<Rightarrow> x | None \<Rightarrow> []))"

definition merge_signal_evidence :: "signal_fact list \<Rightarrow> signal_evidence list" where
  "merge_signal_evidence facts =
     map snd (sort_key evidence_order
       (fold (\<lambda>e d. dict_put (evidence_key e) e d) (concat (map sf_evidence facts)) []))"

definition combine_at :: "operator \<Rightarrow> signal_fact option list \<Rightarrow> daily_bar \<Rightarrow> signal_fact option result" where
  "combine_at op children bar =
     (let facts = List.map_filter id children
      in case combine_states op (map (map_option sf_triggered) children) of
           None \<Rightarrow> Inr None
         | Some triggered \<Rightarrow>
             rbind (mk_signal_fact (SignalFact (b_instrument_id bar) (b_session_date bar) (operator_value op) triggered
               (observed_at bar) (fold max (map sf_available_at facts) (observed_at bar)) ''combination of conditions''
               None None facts (merge_signal_evidence facts))) (\<lambda>f. Inr (Some f)))"

definition combine_timelines ::
  "operator \<Rightarrow> signal_fact option list list \<Rightarrow> daily_bar list \<Rightarrow> signal_fact option list result" where
  "combine_timelines op timelines bars =
     points (length bars) (\<lambda>i. combine_at op (map (\<lambda>t. t ! i) timelines) (bars ! i))"

section \<open>Evaluation of a tree\<close>

fun evaluate_node :: "text_library \<Rightarrow> condition \<Rightarrow> market_view \<Rightarrow> signal_fact option list result" where
  "evaluate_node L (IndicatorCondition c) v =
     evaluate_indicator c (if ic_indicator_id c = ''price.close'' then mv_execution_bars v else mv_bars v)"
| "evaluate_node L (FinancialCondition c) v = evaluate_financial (tl_zones L) c (mv_bars v) (mv_facts v)"
| "evaluate_node L (EventCondition c) v = evaluate_event L c (mv_bars v) (mv_events v)"
| "evaluate_node L (AllCondition cs) v =
     rbind (map_res (\<lambda>c. evaluate_node L c v) cs) (\<lambda>ts. combine_timelines OP_ALL ts (mv_bars v))"
| "evaluate_node L (AnyCondition cs) v =
     rbind (map_res (\<lambda>c. evaluate_node L c v) cs) (\<lambda>ts. combine_timelines OP_ANY ts (mv_bars v))"
| "evaluate_node L (NotCondition c) v =
     rbind (evaluate_node L c v) (\<lambda>t. combine_timelines OP_NOT [t] (mv_bars v))"

fun uses_close_price :: "condition \<Rightarrow> bool" where
  "uses_close_price (IndicatorCondition c) \<longleftrightarrow> ic_indicator_id c = ''price.close''"
| "uses_close_price (FinancialCondition c) \<longleftrightarrow> False"
| "uses_close_price (EventCondition c) \<longleftrightarrow> False"
| "uses_close_price (AllCondition cs) \<longleftrightarrow> list_ex uses_close_price cs"
| "uses_close_price (AnyCondition cs) \<longleftrightarrow> list_ex uses_close_price cs"
| "uses_close_price (NotCondition c) \<longleftrightarrow> uses_close_price c"

fun bars_in_order :: "string \<Rightarrow> date option \<Rightarrow> daily_bar list \<Rightarrow> unit result" where
  "bars_in_order instrument previous [] = Inr ()"
| "bars_in_order instrument previous (b # bs) =
     rbind (checks [(b_instrument_id b \<noteq> instrument, SignalRuntimeError ''all bars must belong to one instrument''),
                    (opt_any (\<lambda>p. b_session_date b \<le> p) previous, SignalRuntimeError ''bars must be strictly ordered by session_date'')])
       (\<lambda>_. bars_in_order instrument (Some (b_session_date b)) bs)"

definition validate_bars :: "daily_bar list \<Rightarrow> unit result" where
  "validate_bars bars = (case bars of [] \<Rightarrow> Inr () | b # _ \<Rightarrow> bars_in_order (b_instrument_id b) None bars)"

definition bar_key :: "daily_bar \<Rightarrow> string \<times> date" where
  "bar_key b = (b_instrument_id b, b_session_date b)"

definition alignment_checks :: "condition \<Rightarrow> daily_bar list \<Rightarrow> daily_bar list \<Rightarrow> (bool \<times> py_error) list" where
  "alignment_checks c bars execution_bars =
    [(map bar_key execution_bars \<noteq> map bar_key bars, SignalRuntimeError ''execution bars must align one-to-one with signal bars''),
     (list_ex (\<lambda>(s, e). b_available_at e \<noteq> b_available_at s) (zip bars execution_bars),
      SignalRuntimeError ''execution and signal bars must have identical availability times''),
     (uses_close_price c \<and> list_ex (\<lambda>b. b_price_basis b \<noteq> UNADJUSTED) execution_bars,
      SignalRuntimeError ''price.close requires unadjusted execution bars'')]"

definition evaluate_aligned ::
  "text_library \<Rightarrow> condition \<Rightarrow> daily_bar list \<Rightarrow> event_envelope list \<Rightarrow> financial_fact list \<Rightarrow> daily_bar list option \<Rightarrow>
   signal_fact option list result" where
  "evaluate_aligned L c bars events facts execution_bars =
     rbind (validate_bars bars) (\<lambda>_.
       let xbars = (case execution_bars of None \<Rightarrow> bars | Some b \<Rightarrow> b)
       in rbind (validate_bars xbars) (\<lambda>_.
          rbind (checks (alignment_checks c bars xbars)) (\<lambda>_.
            evaluate_node L c \<lparr>mv_bars = bars, mv_execution_bars = xbars, mv_events = events, mv_facts = facts\<rparr>)))"

definition evaluate ::
  "text_library \<Rightarrow> condition \<Rightarrow> daily_bar list \<Rightarrow> event_envelope list \<Rightarrow> financial_fact list \<Rightarrow> daily_bar list option \<Rightarrow>
   signal_fact list result" where
  "evaluate L c bars events facts execution_bars =
     rbind (evaluate_aligned L c bars events facts execution_bars) (\<lambda>ts. Inr (List.map_filter id ts))"

definition evaluate_latest ::
  "text_library \<Rightarrow> condition \<Rightarrow> daily_bar list \<Rightarrow> event_envelope list \<Rightarrow> financial_fact list \<Rightarrow> daily_bar list option \<Rightarrow>
   signal_fact option result" where
  "evaluate_latest L c bars events facts execution_bars =
     rbind (evaluate_aligned L c bars events facts execution_bars) (\<lambda>ts. Inr (if ts = [] then None else last ts))"

text \<open>The start-up check of the catalog; a definition is its identifier and its status.\<close>

definition validate_stable_indicator_evaluator_catalog :: "(string \<times> string) list \<Rightarrow> unit result" where
  "validate_stable_indicator_evaluator_catalog indicators =
     checks [(fst ` {d \<in> set indicators. snd d = ''stable''} \<noteq> stable_indicator_evaluator_ids,
       SignalRuntimeError ''stable indicator Catalog/evaluator mismatch'')]"

end
