(* ===== verification/LeafStability.thy ===== *)
theory LeafStability
  imports IndicatorSignals
begin

text \<open>
  What every indicator leaf guarantees: its facts do not depend on later bars, and a fact at an index
  describes the bar at that index and is not available before the bar is.
\<close>

section \<open>Prefix stability of the leaves\<close>

lemma dependency_available_take: "i < n \<Longrightarrow> dependency_available (take n bars) start i = dependency_available bars start i"
  by (simp add: dependency_available_def)

lemma fact_take [simp]:
  assumes "i < n"
  shows "bar_fact c (take n bars) i = bar_fact c bars i" "leaf_fact c (take n bars) i = leaf_fact c bars i"
    "boolean_fact c (take n bars) i = boolean_fact c bars i"
  using assms by (auto simp: fun_eq_iff bar_fact_def leaf_fact_def boolean_fact_def dependency_available_take)

lemma before_take [simp]: "i < n \<Longrightarrow> before (\<lambda>j. take n xs ! j) i = before (\<lambda>j. xs ! j) i"
  by (simp add: before_def)

lemma before_price_take [simp]: "i < n \<Longrightarrow> before (\<lambda>j. Some (f (take n xs ! j))) i = before (\<lambda>j. Some (f (xs ! j))) i"
  by (simp add: before_def)

lemma threshold_take:
  assumes "n \<le> length bs"
  shows "prefix_of (length bs) n (evaluate_threshold_series c bs values start) (evaluate_threshold_series c (take n bs) (take n values) start)"
  unfolding evaluate_threshold_series_def
  by (intro prefix_same points_take assms) (auto simp: Let_def split: option.splits)

lemma price_series_take:
  assumes "n \<le> length bs"
  shows "prefix_of (length bs) n (evaluate_price_series c bs values field start) (evaluate_price_series c (take n bs) (take n values) field start)"
  unfolding evaluate_price_series_def
  by (intro prefix_same points_take assms) (auto simp: Let_def split: option.splits)

lemma lines_take:
  assumes "n \<le> length bs"
  shows "prefix_of (length bs) n (evaluate_lines c bs lines cmp always start) (evaluate_lines c (take n bs) (take n lines) cmp always start)"
  unfolding evaluate_lines_def
  by (intro points_take assms) (auto simp: Let_def split: option.splits prod.splits)

lemma map2_take: "map2 f (take n xs) (take n ys) = take n (map2 f xs ys)"
  by (simp add: take_map take_zip)

lemmas passes = causalI prefix_same threshold_take price_series_take lines_take points_take

named_theorems causal_leaves \<open>prefix stability of the indicator leaves\<close>

lemma causal_evaluate_ma [causal_leaves]: "causal (evaluate_ma c)"
  unfolding evaluate_ma_def by (intro passes prefix_causal [OF causal_moving_average]) auto

lemma causal_evaluate_ema [causal_leaves]: "causal (evaluate_ema c)"
  unfolding evaluate_ema_def by (intro passes prefix_causal [OF causal_exponential_moving_average]) auto

lemma causal_evaluate_bbi [causal_leaves]: "causal (evaluate_bbi c)"
  unfolding evaluate_bbi_def by (intro passes prefix_causal [OF causal_bull_and_bear_index]) auto

lemma causal_evaluate_cci [causal_leaves]: "causal (evaluate_cci c)"
  unfolding evaluate_cci_def by (intro passes prefix_causal [OF causal_cci]) auto

lemma causal_evaluate_ema_bias [causal_leaves]: "causal (evaluate_ema_bias c)"
  unfolding evaluate_ema_bias_def by (intro passes prefix_causal [OF causal_ema_bias]) auto

lemma causal_evaluate_close_price [causal_leaves]: "causal (evaluate_close_price c)"
  unfolding evaluate_close_price_def by (auto intro!: causalI threshold_take simp flip: take_map)

lemma causal_evaluate_lookback:
  assumes "\<And>p field. causal (indicator p field)"
  shows "causal (evaluate_lookback indicator c)"
  unfolding evaluate_lookback_def by (intro passes prefix_causal [OF assms]) auto

lemma causal_lookbacks [causal_leaves]:
  "causal (evaluate_return_pct c)" "causal (evaluate_roc c)" "causal (evaluate_momentum c)" "causal (evaluate_return_stddev c)"
  unfolding evaluate_return_pct_def evaluate_roc_def evaluate_momentum_def evaluate_return_stddev_def
  by (intro causal_evaluate_lookback causal_series)+

lemma causal_evaluate_historical_volatility [causal_leaves]: "causal (evaluate_historical_volatility c)"
  unfolding evaluate_historical_volatility_def by (intro passes prefix_causal [OF causal_historical_volatility]) auto

lemma causal_evaluate_bias [causal_leaves]: "causal (evaluate_bias c)"
  unfolding evaluate_bias_def by (intro passes prefix_causal [OF causal_simple_bias]) auto

lemma causal_evaluate_amplitude [causal_leaves]: "causal (evaluate_amplitude c)"
  unfolding evaluate_amplitude_def by (intro passes prefix_causal [OF causal_amplitude_pct]) auto

lemma causal_evaluate_true_range [causal_leaves]: "causal (evaluate_true_range c)"
  unfolding evaluate_true_range_def by (intro passes prefix_causal [OF causal_true_range]) auto

lemma causal_evaluate_amount [causal_leaves]: "causal (evaluate_amount c)"
  unfolding evaluate_amount_def by (intro passes prefix_causal [OF causal_market_amount]) auto

lemma causal_evaluate_amount_average [causal_leaves]: "causal (evaluate_amount_average c)"
  unfolding evaluate_amount_average_def by (intro passes prefix_causal [OF causal_amount_average]) auto

lemma prefix_guard:
  assumes "checks g = Inr () \<Longrightarrow> checks g' = Inr ()" "prefix_of N n r r'"
  shows "prefix_of N n (rbind (checks g) (\<lambda>_. r)) (rbind (checks g') (\<lambda>_. r'))"
  using assms by (cases "checks g") (auto simp: prefix_of_def)

lemma causal_evaluate_turnover_rate [causal_leaves]: "causal (evaluate_turnover_rate c)"
  unfolding evaluate_turnover_rate_def
  by (intro causalI prefix_guard) (auto simp: result_simps list_ex_iff dest: in_set_takeD intro!: threshold_take simp flip: take_map)

lemma causal_evaluate_wilder:
  assumes "\<And>p. causal (indicator p)"
  shows "causal (evaluate_wilder indicator c)"
  unfolding evaluate_wilder_def by (intro passes prefix_causal [OF assms]) auto

lemma causal_then_map: "causal F \<Longrightarrow> causal (\<lambda>bs. rbind (F bs) (\<lambda>xs. Inr (map f xs)))"
  by (intro causalI) (auto intro!: prefix_causal prefix_map)

lemma causal_wilders [causal_leaves]: "causal (evaluate_atr c)" "causal (evaluate_natr c)" "causal (evaluate_adx c)"
  unfolding evaluate_atr_def evaluate_natr_def evaluate_adx_def
  by (intro causal_evaluate_wilder causal_then_map causal_series)+

lemma causal_evaluate_williams_r [causal_leaves]: "causal (evaluate_williams_r c)"
  unfolding evaluate_williams_r_def by (intro passes prefix_causal [OF causal_williams_r]) auto

lemma causal_evaluate_ma_cross [causal_leaves]: "causal (evaluate_ma_cross c)"
  unfolding evaluate_ma_cross_def by (intro passes prefix_causal [OF causal_moving_average_cross]) auto

lemma causal_evaluate_bollinger [causal_leaves]: "causal (evaluate_bollinger c)"
  unfolding evaluate_bollinger_def
  by (intro causalI prefix_same prefix_causal [OF causal_bollinger_bands])
    (auto simp: map2_take split: option.splits intro!: prefix_same lines_take prefix_Inl)

lemma causal_evaluate_kdj [causal_leaves]: "causal (evaluate_kdj c)"
  unfolding evaluate_kdj_def
  by (intro causalI prefix_same prefix_causal [OF causal_kdj])
    (auto intro!: prefix_same lines_take prefix_points simp: take_map [symmetric] split: option.splits)

lemma causal_evaluate_macd [causal_leaves]: "causal (evaluate_macd c)"
  unfolding evaluate_macd_def Let_def
  by (intro causalI prefix_same prefix_causal [OF causal_macd]) (auto intro!: lines_take simp flip: take_map)

lemma causal_evaluate_rsi [causal_leaves]: "causal (evaluate_rsi c)"
  unfolding evaluate_rsi_def
  by (intro causalI prefix_same prefix_causal [OF causal_rsi]) (auto intro!: lines_take simp flip: take_map)

lemma causal_evaluate_dmi [causal_leaves]: "causal (evaluate_dmi c)"
  unfolding evaluate_dmi_def
  by (intro causalI prefix_same prefix_causal [OF causal_directional_movement]) (auto intro!: lines_take simp flip: take_map)

lemma causal_evaluate_stochastic [causal_leaves]: "causal (evaluate_stochastic c)"
  unfolding evaluate_stochastic_def
  by (intro causalI prefix_same prefix_causal [OF causal_stochastic_oscillator])
    (auto split: option.splits intro!: prefix_same lines_take prefix_points prefix_Inl)

lemma causal_evaluate_donchian [causal_leaves]: "causal (evaluate_donchian c)"
  unfolding evaluate_donchian_def
  by (intro causalI prefix_same prefix_causal [OF causal_donchian_channel])
    (auto simp: map2_take split: option.splits intro!: lines_take prefix_Inl)

lemma causal_evaluate_rolling_high [causal_leaves]: "causal (evaluate_rolling_high c)"
  unfolding evaluate_rolling_high_def
  by (intro passes prefix_causal [OF causal_rolling_high]) (auto split: option.splits)

lemma causal_evaluate_consecutive_up [causal_leaves]: "causal (evaluate_consecutive_up c)"
  unfolding evaluate_consecutive_up_def
  by (intro passes prefix_causal [OF causal_consecutive_up]) (auto split: option.splits)

lemma causal_evaluate_volume [causal_leaves]: "causal (evaluate_volume c)"
  unfolding evaluate_volume_def
  by (intro passes prefix_causal [OF causal_volume_average]) (auto split: option.splits)

lemma causal_evaluate_relative_volume [causal_leaves]: "causal (evaluate_relative_volume c)"
  unfolding evaluate_relative_volume_def
  by (intro causalI prefix_same prefix_causal [OF causal_relative_volume])
    (auto intro!: prefix_same prefix_series prefix_points simp: relative_days_step_def Let_def split: option.splits)

lemma causal_evaluate_volume_price_confirmation [causal_leaves]: "causal (evaluate_volume_price_confirmation c)"
  unfolding evaluate_volume_price_confirmation_def
  by (intro passes prefix_causal [OF causal_volume_price_points]) (auto split: option.splits)

lemma causal_evaluate_obv [causal_leaves]: "causal (evaluate_obv c)"
  unfolding evaluate_obv_def
  by (intro causalI prefix_same prefix_causal [OF causal_on_balance_volume])
    (auto intro!: prefix_series simp: obv_signal_step_def split: option.splits)

lemma causal_evaluate_obv_divergence [causal_leaves]: "causal (evaluate_obv_divergence c)"
  unfolding evaluate_obv_divergence_def
  by (intro passes prefix_causal [OF causal_confirmed_obv_divergence]) (auto split: option.splits)

lemma causal_evaluate_trend_regime [causal_leaves]: "causal (evaluate_trend_regime c)"
  unfolding evaluate_trend_regime_def
  by (intro causalI prefix_same)
    (auto split: option.splits intro!: prefix_Inl prefix_same prefix_causal [OF causal_stage_trend] prefix_points)

section \<open>A fact describes its bar\<close>

definition fact_of_bar :: "daily_bar \<Rightarrow> signal_fact \<Rightarrow> bool" where
  "fact_of_bar b f \<longleftrightarrow>
     sf_instrument_id f = b_instrument_id b \<and> sf_session_date f = b_session_date b \<and> sf_observed_at f = observed_at b \<and>
     observed_at b \<le> sf_available_at f \<and> b_available_at b \<le> sf_available_at f \<and> sf_evidence f = [] \<and> sf_children f = []"

text \<open>A property of all values that a computation leaves at the positions of a series.\<close>

definition each_value :: "(nat \<Rightarrow> 'a \<Rightarrow> bool) \<Rightarrow> 'a option list result \<Rightarrow> bool" where
  "each_value Q r \<longleftrightarrow> (\<forall>xs i y. r = Inr xs \<longrightarrow> i < length xs \<longrightarrow> xs ! i = Some y \<longrightarrow> Q i y)"

lemma each_bind: "(\<And>x. m = Inr x \<Longrightarrow> each_value Q (f x)) \<Longrightarrow> each_value Q (rbind m f)"
  by (auto simp: each_value_def result_simps)

lemma each_Inl: "each_value Q (Inl e)"
  by (simp add: each_value_def)

lemma each_points: "(\<And>i y. i < n \<Longrightarrow> f i = Inr (Some y) \<Longrightarrow> Q i y) \<Longrightarrow> each_value Q (points n f)"
  by (auto simp: each_value_def dest: points_length) (metis points_length points_nth)

lemma loop_res_each:
  "loop_res step [a..<n] s = Inr xs \<Longrightarrow> i < length xs \<Longrightarrow> xs ! i = Some y \<Longrightarrow>
   (\<And>i s y s'. i < n \<Longrightarrow> step i s = Inr (Some y, s') \<Longrightarrow> Q i y) \<Longrightarrow> Q (a + i) y"
proof (induction "n - a" arbitrary: a s xs i)
  case 0
  then show ?case by simp
next
  case (Suc m)
  then have e: "[a..<n] = a # [Suc a..<n]" by (simp add: upt_conv_Cons)
  from Suc.prems(1) obtain z s' ys where
    y: "step a s = Inr (z, s')" "loop_res step [Suc a..<n] s' = Inr ys" "xs = z # ys"
    by (auto simp: e result_simps split: prod.splits)
  show ?case
  proof (cases i)
    case 0
    then show ?thesis using Suc.prems(3,4) y Suc.hyps(2) by auto
  next
    case (Suc j)
    have "Q (Suc a + j) y" using Suc.hyps(1) [of "Suc a" s' ys j] Suc.prems y Suc.hyps(2) Suc by simp
    then show ?thesis using Suc by simp
  qed
qed

lemma each_series: "(\<And>i s y s'. i < n \<Longrightarrow> step i s = Inr (Some y, s') \<Longrightarrow> Q i y) \<Longrightarrow> each_value Q (series n step s)"
  unfolding each_value_def series_def using loop_res_each [of step 0 n s _ _ _ Q] by (metis add_0)

lemma bar_fact_of_bar:
  assumes "bar_fact c bars i triggered start reason left right = Inr (Some f)" "i < length bars" "start \<le> i"
  shows "fact_of_bar (bars ! i) f"
proof -
  have "b_available_at (bars ! i) \<le> dependency_available bars start i"
    unfolding dependency_available_def using assms(2,3) by (intro Max_ge) (auto intro!: imageI nth_in_slice)
  then show ?thesis
    using assms(1) by (auto simp: bar_fact_def mk_signal_fact_def result_simps fact_of_bar_def)
qed

lemma leaf_fact_of_bar:
  "leaf_fact c bars i cmp l r pl pr start = Inr (Some f) \<Longrightarrow> i < length bars \<Longrightarrow> start \<le> i \<Longrightarrow> fact_of_bar (bars ! i) f"
  by (auto simp: leaf_fact_def result_simps intro: bar_fact_of_bar)

lemma boolean_fact_of_bar:
  "boolean_fact c bars i t l r = Inr (Some f) \<Longrightarrow> i < length bars \<Longrightarrow> fact_of_bar (bars ! i) f"
  by (auto simp: boolean_fact_def intro: bar_fact_of_bar)

abbreviation describes_bars :: "daily_bar list \<Rightarrow> signal_fact option list result \<Rightarrow> bool" where
  "describes_bars bars r \<equiv> each_value (\<lambda>i f. fact_of_bar (bars ! i) f) r"

lemma starts_le: "0 < p \<Longrightarrow> window_start p i x \<le> i" "lookback_start p i x \<le> i" "whole_history i x \<le> i"
  by (auto simp: window_start_def lookback_start_def whole_history_def)

lemma threshold_describes:
  "(\<And>i x. start i x \<le> i) \<Longrightarrow> describes_bars bars (evaluate_threshold_series c bars values start)"
  unfolding evaluate_threshold_series_def
  by (intro each_bind each_points) (auto simp: Let_def split: option.splits if_splits intro: leaf_fact_of_bar)

lemma price_series_describes:
  "(\<And>i x. start i x \<le> i) \<Longrightarrow> describes_bars bars (evaluate_price_series c bars values field start)"
  unfolding evaluate_price_series_def
  by (intro each_bind each_points) (auto simp: Let_def split: option.splits if_splits intro: leaf_fact_of_bar)

lemma lines_describe:
  "(\<And>i x. start i x \<le> i) \<Longrightarrow> describes_bars bars (evaluate_lines c bars lines cmp always start)"
  unfolding evaluate_lines_def
  by (intro each_points) (auto simp: Let_def split: option.splits prod.splits if_splits intro: leaf_fact_of_bar)

lemma int_param_pos: "int_param_or c name d = Inr p \<Longrightarrow> 0 < p" "int_param c name = Inr p \<Longrightarrow> 0 < p"
  by (auto simp: int_param_def int_param_or_def split: option.splits json_scalar.splits if_splits)

lemmas describing = each_bind each_Inl threshold_describes price_series_describes lines_describe starts_le

lemma threshold_leaves_describe:
  "describes_bars bars (evaluate_ma c bars)" "describes_bars bars (evaluate_ema c bars)"
  "describes_bars bars (evaluate_bbi c bars)" "describes_bars bars (evaluate_cci c bars)"
  "describes_bars bars (evaluate_ema_bias c bars)" "describes_bars bars (evaluate_close_price c bars)"
  "describes_bars bars (evaluate_historical_volatility c bars)" "describes_bars bars (evaluate_bias c bars)"
  "describes_bars bars (evaluate_amplitude c bars)" "describes_bars bars (evaluate_true_range c bars)"
  "describes_bars bars (evaluate_amount c bars)" "describes_bars bars (evaluate_amount_average c bars)"
  "describes_bars bars (evaluate_turnover_rate c bars)" "describes_bars bars (evaluate_williams_r c bars)"
  unfolding evaluate_ma_def evaluate_ema_def evaluate_bbi_def evaluate_cci_def evaluate_ema_bias_def evaluate_close_price_def
    evaluate_historical_volatility_def evaluate_bias_def evaluate_amplitude_def evaluate_true_range_def evaluate_amount_def
    evaluate_amount_average_def evaluate_turnover_rate_def evaluate_williams_r_def
  by (intro describing; simp add: int_param_pos)+

lemma lookback_leaves_describe:
  "describes_bars bars (evaluate_return_pct c bars)" "describes_bars bars (evaluate_roc c bars)"
  "describes_bars bars (evaluate_momentum c bars)" "describes_bars bars (evaluate_return_stddev c bars)"
  "describes_bars bars (evaluate_atr c bars)" "describes_bars bars (evaluate_natr c bars)" "describes_bars bars (evaluate_adx c bars)"
  unfolding evaluate_return_pct_def evaluate_roc_def evaluate_momentum_def evaluate_return_stddev_def evaluate_lookback_def
    evaluate_atr_def evaluate_natr_def evaluate_adx_def evaluate_wilder_def
  by (intro describing)+

lemma line_leaves_describe:
  "describes_bars bars (evaluate_ma_cross c bars)" "describes_bars bars (evaluate_bollinger c bars)"
  "describes_bars bars (evaluate_macd c bars)" "describes_bars bars (evaluate_rsi c bars)"
  "describes_bars bars (evaluate_dmi c bars)" "describes_bars bars (evaluate_donchian c bars)"
  unfolding evaluate_ma_cross_def evaluate_bollinger_def evaluate_macd_def evaluate_rsi_def evaluate_dmi_def evaluate_donchian_def Let_def
  by (auto intro!: describing simp: int_param_pos split: option.splits)

lemma other_leaves_describe:
  "describes_bars bars (evaluate_kdj c bars)" "describes_bars bars (evaluate_rolling_high c bars)"
  "describes_bars bars (evaluate_consecutive_up c bars)" "describes_bars bars (evaluate_relative_volume c bars)"
  "describes_bars bars (evaluate_volume_price_confirmation c bars)" "describes_bars bars (evaluate_obv c bars)"
  "describes_bars bars (evaluate_obv_divergence c bars)" "describes_bars bars (evaluate_trend_regime c bars)"
  unfolding evaluate_kdj_def evaluate_rolling_high_def evaluate_consecutive_up_def evaluate_relative_volume_def
    evaluate_volume_price_confirmation_def evaluate_obv_def evaluate_obv_divergence_def evaluate_trend_regime_def Let_def
  by (auto intro!: describing each_points each_series elim!: leaf_fact_of_bar boolean_fact_of_bar
      simp: relative_days_step_def obv_signal_step_def Let_def result_simps split: option.splits if_splits)

lemma windowed_leaves_describe:
  "describes_bars bars (evaluate_stochastic c bars)" "describes_bars bars (evaluate_volume c bars)"
  unfolding evaluate_stochastic_def evaluate_volume_def
  by (auto intro!: describing each_points elim!: leaf_fact_of_bar dest!: int_param_pos split: option.splits prod.splits if_splits)

section \<open>The dispatch\<close>

lemma evaluator_table_sound:
  "(name, evaluate) \<in> set evaluator_table \<Longrightarrow> causal (evaluate c) \<and> describes_bars bars (evaluate c bars)"
  unfolding evaluator_table_def
  by (auto intro: causal_leaves threshold_leaves_describe lookback_leaves_describe line_leaves_describe
      other_leaves_describe windowed_leaves_describe)

lemma causal_evaluate_indicator_on_valid_bars: "causal (evaluate_indicator_on_valid_bars c)"
  unfolding evaluate_indicator_on_valid_bars_def
proof (rule causal_guard, cases "map_of evaluator_table (ic_indicator_id c)")
  case None
  then show "causal (\<lambda>bs. case map_of evaluator_table (ic_indicator_id c) of None \<Rightarrow> runtime_error ''unsupported indicator'' | Some e \<Rightarrow> e c bs)"
    by (simp add: causal_def prefix_Inl)
next
  case (Some e)
  then show "causal (\<lambda>bs. case map_of evaluator_table (ic_indicator_id c) of None \<Rightarrow> runtime_error ''unsupported indicator'' | Some e \<Rightarrow> e c bs)"
    using evaluator_table_sound [of _ e c] map_of_SomeD [OF Some] by simp
qed

lemma causal_evaluate_indicator: "causal (evaluate_indicator c)"
  unfolding evaluate_indicator_def [abs_def] by (intro causal_on_valid causal_evaluate_indicator_on_valid_bars)

lemma valid_bars_describe: "describes_bars bars (evaluate_indicator_on_valid_bars c bars)"
  unfolding evaluate_indicator_on_valid_bars_def
  by (auto intro!: each_bind each_Inl split: option.splits dest!: map_of_SomeD intro: evaluator_table_sound [THEN conjunct2])

lemma spread_Some: "spread ms xs ! i = Some y \<Longrightarrow> i < length ms \<Longrightarrow>
   ms ! i \<and> (\<exists>j < length xs. j = length (filter id (take i ms)) \<and> xs ! j = Some y)"
proof (induction ms xs arbitrary: i rule: spread.induct)
  case (2 ms x xs)
  then show ?case by (cases i) auto
next
  case (3 ms)
  then show ?case by (cases i) auto
next
  case (4 ms xs)
  then show ?case by (cases i) auto
qed simp

lemma nth_filter: "i < length xs \<Longrightarrow> P (xs ! i) \<Longrightarrow> filter P xs ! length (filter P (take i xs)) = xs ! i"
  by (induction xs arbitrary: i) (auto simp: nth_Cons split: nat.splits)

lemma evaluate_indicator_describes: "describes_bars bars (evaluate_indicator c bars)"
  unfolding each_value_def
proof (intro allI impI)
  fix xs i f
  assume "evaluate_indicator c bars = Inr xs" "i < length xs" "xs ! i = Some f"
  then obtain ys where ys: "evaluate_indicator_on_valid_bars c (filter tradable bars) = Inr ys" "xs = spread (map tradable bars) ys"
      and i: "i < length bars" "spread (map tradable bars) ys ! i = Some f"
    by (auto simp: evaluate_indicator_def on_valid_def result_simps)
  from spread_Some [OF i(2)] i(1) obtain j where
    j: "tradable (bars ! i)" "j < length ys" "j = length (filter id (take i (map tradable bars)))" "ys ! j = Some f" by auto
  have "length (filter id (take i (map tradable bars))) = length (filter tradable (take i bars))"
    by (simp add: take_map filter_map comp_def)
  then have "filter tradable bars ! j = bars ! i" using j(1,3) i(1) nth_filter by metis
  moreover have "fact_of_bar (filter tradable bars ! j) f"
    using valid_bars_describe [of "filter tradable bars" c] ys(1) j(2,4) by (auto simp: each_value_def)
  ultimately show "fact_of_bar (bars ! i) f" by simp
qed

text \<open>Every stable indicator of the catalog has an evaluator, and only those have.\<close>

lemma evaluator_table_ids: "set (map fst evaluator_table) = stable_indicator_evaluator_ids"
  by code_simp

end
