(* ===== verification/SignalLaws.thy ===== *)
theory SignalLaws
  imports SignalRuntime LeafStability
begin

text \<open>
  What the signal runtime promises.  The contract of a source of facts is a locale: a timeline is aligned with
  the bars, its facts describe their bars and rest on evidence published before them, and its first \<open>n\<close>
  entries depend only on what was public at the end of the first \<open>n\<close> sessions.  The indicator, event and
  financial leaves fulfil the contract, combination preserves it, hence every condition tree does.
\<close>

section \<open>What is known after the first sessions\<close>

definition event_public :: "daily_bar list \<Rightarrow> event_envelope \<Rightarrow> bool" where
  "event_public bars e \<longleftrightarrow> list_ex (\<lambda>b. event_known (b_session_date b) e) bars"

definition fact_public :: "daily_bar list \<Rightarrow> financial_fact \<Rightarrow> bool" where
  "fact_public bars f \<longleftrightarrow>
     list_ex (\<lambda>b. opt_any (\<lambda>first. \<not> stamp_less (shanghai_stamp (as_of b)) first) (av_first_available_at (ff_availability f))) bars"

definition known_view :: "nat \<Rightarrow> market_view \<Rightarrow> market_view" where
  "known_view n v =
     \<lparr>mv_bars = take n (mv_bars v), mv_execution_bars = take n (mv_execution_bars v),
      mv_events = filter (event_public (take n (mv_bars v))) (mv_events v),
      mv_facts = filter (fact_public (take n (mv_bars v))) (mv_facts v)\<rparr>"

definition view_ok :: "market_view \<Rightarrow> bool" where
  "view_ok v \<longleftrightarrow> map bar_key (mv_execution_bars v) = map bar_key (mv_bars v)"

definition fact_describes :: "daily_bar \<Rightarrow> signal_fact \<Rightarrow> bool" where
  "fact_describes b f \<longleftrightarrow>
     sf_instrument_id f = b_instrument_id b \<and> sf_session_date f = b_session_date b \<and>
     sf_observed_at f \<le> sf_available_at f \<and> (\<forall>e \<in> set (sf_evidence f). se_available_at e \<le> sf_available_at f) \<and>
     (\<forall>g \<in> set (sf_children f). sf_available_at g \<le> sf_available_at f)"

section \<open>The contract of a source of facts\<close>

locale fact_source =
  fixes evaluate :: "market_view \<Rightarrow> signal_fact option list result"
  assumes aligned: "evaluate v = Inr ts \<Longrightarrow> view_ok v \<Longrightarrow> length ts = length (mv_bars v)"
    and stable: "evaluate v = Inr ts \<Longrightarrow> view_ok v \<Longrightarrow> n \<le> length (mv_bars v) \<Longrightarrow> evaluate (known_view n v) = Inr (take n ts)"
    and describes: "evaluate v = Inr ts \<Longrightarrow> view_ok v \<Longrightarrow> i < length ts \<Longrightarrow> ts ! i = Some f \<Longrightarrow> fact_describes (mv_bars v ! i) f"
begin

text \<open>Two histories that agree on what was public give the same facts.\<close>

lemma agree:
  assumes "evaluate v = Inr ts" "evaluate w = Inr us" "view_ok v" "view_ok w"
    and "n \<le> length (mv_bars v)" "n \<le> length (mv_bars w)" "known_view n v = known_view n w"
  shows "take n ts = take n us"
  using stable [OF assms(1,3,5)] stable [OF assms(2,4,6)] assms(7) by simp

end

section \<open>The leaves\<close>

lemma map_res_take: "map_res f xs = Inr ys \<Longrightarrow> map_res f (take n xs) = Inr (take n ys)"
proof (induction xs arbitrary: n ys)
  case (Cons x xs)
  then show ?case by (cases n) (auto simp: result_simps)
qed simp

lemma known_view_simps [simp]:
  "mv_bars (known_view n v) = take n (mv_bars v)" "mv_execution_bars (known_view n v) = take n (mv_execution_bars v)"
  "mv_events (known_view n v) = filter (event_public (take n (mv_bars v))) (mv_events v)"
  "mv_facts (known_view n v) = filter (fact_public (take n (mv_bars v))) (mv_facts v)"
  by (simp_all add: known_view_def)

lemma view_ok_known: "view_ok v \<Longrightarrow> view_ok (known_view n v)"
  by (simp add: view_ok_def take_map [symmetric])

lemma view_ok_length: "view_ok v \<Longrightarrow> length (mv_execution_bars v) = length (mv_bars v)"
  by (metis length_map view_ok_def)

lemma view_ok_nth:
  "view_ok v \<Longrightarrow> i < length (mv_bars v) \<Longrightarrow> b_instrument_id (mv_execution_bars v ! i) = b_instrument_id (mv_bars v ! i) \<and>
     b_session_date (mv_execution_bars v ! i) = b_session_date (mv_bars v ! i)"
  using view_ok_length [of v] by (metis (no_types, lifting) bar_key_def nth_map prod.inject view_ok_def)

definition indicator_bars :: "indicator_condition \<Rightarrow> market_view \<Rightarrow> daily_bar list" where
  "indicator_bars c v = (if ic_indicator_id c = ''price.close'' then mv_execution_bars v else mv_bars v)"

interpretation indicator: fact_source "\<lambda>v. evaluate_indicator c (indicator_bars c v)"
proof
  fix v :: market_view and ts
  assume e: "evaluate_indicator c (indicator_bars c v) = Inr ts" and ok: "view_ok v"
  have l: "length (indicator_bars c v) = length (mv_bars v)" using view_ok_length [OF ok] by (simp add: indicator_bars_def)
  show len: "length ts = length (mv_bars v)" using causal_length [OF causal_evaluate_indicator e] l by simp
  show "evaluate_indicator c (indicator_bars c (known_view n v)) = Inr (take n ts)" if "n \<le> length (mv_bars v)" for n
    using causal_take [OF causal_evaluate_indicator e] that l by (simp add: indicator_bars_def split: if_splits)
  show "fact_describes (mv_bars v ! i) f" if "i < length ts" "ts ! i = Some f" for i f
  proof -
    have "fact_of_bar (indicator_bars c v ! i) f"
      using evaluate_indicator_describes [of "indicator_bars c v" c] e that by (auto simp: each_value_def)
    then show ?thesis using view_ok_nth [OF ok, of i] that(1) len
      by (auto simp: fact_of_bar_def fact_describes_def indicator_bars_def split: if_splits)
  qed
qed

text \<open>Elements that a test keeps may be selected beforehand.\<close>

lemma filter_res_filter:
  assumes "filter_res P xs = Inr ys" and "\<And>x. P x = Inr True \<Longrightarrow> Q x"
  shows "filter_res P (filter Q xs) = Inr ys"
  using assms by (induction xs arbitrary: ys) (auto simp: result_simps split: if_splits)

lemma known_financial_facts_public:
  assumes "known_financial_facts zones c b facts = Inr known" "b \<in> set bars"
  shows "known_financial_facts zones c b (filter (fact_public bars) facts) = Inr known"
  using assms unfolding known_financial_facts_def
  by (elim filter_res_filter) (auto simp: is_available_at_def fact_public_def list_ex_iff result_simps split: if_splits)

lemma map_res_imp_cong:
  "map_res f xs = Inr ys \<Longrightarrow> (\<And>x y. x \<in> set xs \<Longrightarrow> f x = Inr y \<Longrightarrow> g x = Inr y) \<Longrightarrow> map_res g xs = Inr ys"
  by (induction xs arbitrary: ys) (auto simp: result_simps)

lemma financial_signal_describes:
  "financial_signal c b f = Inr (Some g) \<Longrightarrow> fact_describes b g"
  by (auto simp: financial_signal_def financial_evidence_def mk_signal_fact_def mk_signal_evidence_def fact_describes_def
      result_simps signal_fact_checks_def split: option.splits)

interpretation financial: fact_source "\<lambda>v. evaluate_financial zones c (mv_bars v) (mv_facts v)"
proof
  fix v :: market_view and ts
  assume e: "evaluate_financial zones c (mv_bars v) (mv_facts v) = Inr ts"
  show len: "length ts = length (mv_bars v)" using e by (simp add: evaluate_financial_def map_res_length)
  show "evaluate_financial zones c (mv_bars (known_view n v)) (mv_facts (known_view n v)) = Inr (take n ts)" for n
    using map_res_take [OF e [unfolded evaluate_financial_def], of n]
    unfolding evaluate_financial_def known_view_simps
    by (elim map_res_imp_cong) (auto simp: result_simps known_financial_facts_public)
  show "fact_describes (mv_bars v ! i) f" if "i < length ts" "ts ! i = Some f" for i f
    using map_res_nth [OF e [unfolded evaluate_financial_def], of i] that len
    by (auto simp: result_simps neq_Nil_conv split: list.splits intro: financial_signal_describes)
qed

lemma first_position_take: "first_position P (take n xs) = Some i \<longleftrightarrow> first_position P xs = Some i \<and> i < n"
proof (induction xs arbitrary: n i)
  case (Cons x xs)
  then show ?case by (cases n; cases i) auto
qed simp

lemma first_position_holds: "first_position P xs = Some i \<Longrightarrow> i < length xs \<and> P (xs ! i)"
  by (induction xs arbitrary: i) (auto split: if_splits)

lemma session_matches_known:
  assumes "i < n" "n \<le> length bars" "\<forall>e \<in> set selected. event_available_at e = Some (available_or_epoch e)"
  shows "session_matches (take n bars) (filter (event_public (take n bars)) selected) i = session_matches bars selected i"
proof -
  have "event_public (take n bars) e" if e: "e \<in> set selected" "first_session_on_or_after bars (available_or_epoch e) = Some i" for e
  proof -
    have "i < length bars" "shanghai_date (available_or_epoch e) \<le> b_session_date (bars ! i)"
      using first_position_holds e(2) by (auto simp: first_session_on_or_after_def)
    moreover have "bars ! i \<in> set (take n bars)" using assms(1,2) by (auto simp: in_set_conv_nth)
    ultimately show ?thesis using assms(3) e(1) by (auto simp: event_public_def list_ex_iff event_known_def)
  qed
  then have "filter (\<lambda>e. first_session_on_or_after (take n bars) (available_or_epoch e) = Some i)
      (filter (event_public (take n bars)) selected) =
    filter (\<lambda>e. first_session_on_or_after bars (available_or_epoch e) = Some i) selected"
    using assms(1) by (auto simp: first_session_on_or_after_def first_position_take intro!: filter_cong)
  then show ?thesis by (simp add: session_matches_def)
qed

text \<open>What is public on some day of a list is public on its last day.\<close>

lemma event_public_Max: "bars \<noteq> [] \<Longrightarrow> event_public bars = event_known (Max (set (map b_session_date bars)))"
  by (auto simp: fun_eq_iff event_public_def list_ex_iff event_known_def opt_any_iff Max_ge_iff)

lemma event_evidence_available: "event_evidence L e = Inr s \<Longrightarrow> se_available_at s = available_or_epoch e"
  by (auto simp: event_evidence_def required_available_at_def mk_signal_evidence_def result_simps available_or_epoch_def
      split: option.splits)

lemma map_res_mem: "map_res f xs = Inr ys \<Longrightarrow> y \<in> set ys \<Longrightarrow> \<exists>x \<in> set xs. f x = Inr y"
  by (induction xs arbitrary: ys) (auto simp: result_simps)

lemma event_point_describes:
  assumes "event_point_at L b ms = Inr p" "event_signal c p = Inr (Some f)"
  shows "fact_describes b f"
proof -
  have "se_available_at e = ep_available_at p" if e: "e \<in> set (ep_evidence p)" for e
  proof (cases ms)
    case Nil
    then show ?thesis using assms(1) e by (auto simp: event_point_at_def)
  next
    case (Cons m ms')
    define first where "first = Min (set (map available_or_epoch ms))"
    obtain evidence where ev: "map_res (event_evidence L) (filter (\<lambda>m. available_or_epoch m = first) ms) = Inr evidence"
        "ep_available_at p = first" "ep_evidence p = evidence"
      using assms(1) Cons by (auto simp: event_point_at_def Let_def result_simps first_def simp del: list.set_map filter.simps)
    from map_res_mem [OF ev(1)] e ev(3) obtain m where "m \<in> set (filter (\<lambda>m. available_or_epoch m = first) ms)"
        "event_evidence L m = Inr e" by blast
    then show ?thesis using event_evidence_available ev(2) by auto
  qed
  moreover have "ep_instrument_id p = b_instrument_id b" "ep_session_date p = b_session_date b"
    using assms(1) by (auto simp: event_point_at_def Let_def result_simps split: list.splits)
  ultimately show ?thesis
    using assms(2) by (auto simp: event_signal_def mk_signal_fact_def result_simps signal_fact_checks_def fact_describes_def)
qed

lemma evaluate_event_Inr:
  "evaluate_event L c bars events = Inr ts \<longleftrightarrow>
     (\<exists>ps. evaluate_event_condition_aligned L c bars events = Inr ps \<and> map_res (event_signal c) ps = Inr ts)"
  by (auto simp: evaluate_event_def rewrap_event_error_def result_simps split: sum.splits py_error.splits)

lemma evaluate_event_points:
  assumes "evaluate_event_condition_aligned L c bars events = Inr ps" "bars \<noteq> []"
  obtains selected where "first_matching_revisions L c events (b_instrument_id (hd bars)) = Inr selected"
    "map_res (\<lambda>i. event_point_at L (bars ! i) (session_matches bars selected i)) [0..<length bars] = Inr ps"
  using assms by (auto simp: evaluate_event_condition_aligned_def result_simps split: option.splits)

lemma evaluate_event_length: "evaluate_event_condition_aligned L c bars events = Inr ps \<Longrightarrow> length ps = length bars"
  by (cases "bars = []") (auto simp: evaluate_event_condition_aligned_def result_simps dest: map_res_length split: option.splits)

lemma evaluate_event_known:
  assumes e: "evaluate_event_condition_aligned L c bars events = Inr ps" and n: "n \<le> length bars"
  shows "evaluate_event_condition_aligned L c (take n bars) (filter (event_public (take n bars)) events) = Inr (take n ps)"
proof (cases "take n bars = []")
  case True
  then have "take n ps = []" using evaluate_event_length [OF e] by auto
  then show ?thesis using True by (simp add: evaluate_event_condition_aligned_def)
next
  case False
  then have ne: "bars \<noteq> []" by auto
  from evaluate_event_points [OF e ne] obtain selected where
    s: "first_matching_revisions L c events (b_instrument_id (hd bars)) = Inr selected"
      "map_res (\<lambda>i. event_point_at L (bars ! i) (session_matches bars selected i)) [0..<length bars] = Inr ps" .
  let ?K = "event_public (take n bars)"
  have k: "first_matching_revisions L c (filter ?K events) (b_instrument_id (hd (take n bars))) = Inr (filter ?K selected)"
    using first_matching_revisions_known [OF s(1)] False unfolding event_public_Max [OF False] by (cases bars; cases n) auto
  have a: "\<forall>e \<in> set selected. event_available_at e = Some (available_or_epoch e)" using selected_facts(2) [OF s(1)] by blast
  have "map_res (\<lambda>i. event_point_at L (bars ! i) (session_matches bars selected i)) [0..<n] = Inr (take n ps)"
    using map_res_take [OF s(2), of n] n by simp
  moreover have "map_res (\<lambda>i. event_point_at L (take n bars ! i) (session_matches (take n bars) (filter ?K selected) i)) [0..<n] =
      map_res (\<lambda>i. event_point_at L (bars ! i) (session_matches bars selected i)) [0..<n]"
    using n a by (intro map_res_cong refl) (simp add: session_matches_known)
  ultimately show ?thesis
    using e k False ne n
    by (auto simp: evaluate_event_condition_aligned_def result_simps min_absorb2 split: option.splits)
qed

interpretation event: fact_source "\<lambda>v. evaluate_event L c (mv_bars v) (mv_events v)"
proof
  fix v :: market_view and ts
  assume e: "evaluate_event L c (mv_bars v) (mv_events v) = Inr ts"
  then obtain ps where ps: "evaluate_event_condition_aligned L c (mv_bars v) (mv_events v) = Inr ps"
      "map_res (event_signal c) ps = Inr ts"
    by (auto simp: evaluate_event_Inr)
  show len: "length ts = length (mv_bars v)" using map_res_length [OF ps(2)] evaluate_event_length [OF ps(1)] by simp
  show "evaluate_event L c (mv_bars (known_view n v)) (mv_events (known_view n v)) = Inr (take n ts)"
    if "n \<le> length (mv_bars v)" for n
    using evaluate_event_known [OF ps(1) that] map_res_take [OF ps(2), of n] by (auto simp: evaluate_event_Inr)
  show "fact_describes (mv_bars v ! i) f" if "i < length ts" "ts ! i = Some f" for i f
  proof -
    have i: "i < length (mv_bars v)" "mv_bars v \<noteq> []" "i < length ps" using that(1) len evaluate_event_length [OF ps(1)] by auto
    from evaluate_event_points [OF ps(1) i(2)] obtain selected where
      "map_res (\<lambda>i. event_point_at L (mv_bars v ! i) (session_matches (mv_bars v) selected i)) [0..<length (mv_bars v)] = Inr ps" .
    from map_res_nth [OF this, of i] i(1) have "event_point_at L (mv_bars v ! i) (session_matches (mv_bars v) selected i) = Inr (ps ! i)"
      by simp
    moreover have "event_signal c (ps ! i) = Inr (Some f)" using map_res_nth [OF ps(2) i(3)] that(2) by simp
    ultimately show ?thesis by (rule event_point_describes)
  qed
qed

section \<open>Combination keeps the contract\<close>

lemma fold_max_ge: "(a :: 'a::linorder) \<le> fold max xs a \<and> (\<forall>x \<in> set xs. x \<le> fold max xs a)"
proof (induction xs arbitrary: a)
  case (Cons x xs)
  have "max x a \<le> fold max xs (max x a) \<and> (\<forall>y \<in> set xs. y \<le> fold max xs (max x a))" by (rule Cons.IH)
  then show ?case by simp
qed simp

lemma dict_put_values: "snd ` set (dict_put k v d) \<subseteq> insert v (snd ` set d)"
  by (induction k v d rule: dict_put.induct) auto

lemma merge_signal_evidence_subset: "set (merge_signal_evidence facts) \<subseteq> (\<Union>f \<in> set facts. set (sf_evidence f))"
proof -
  have "snd ` set (fold (\<lambda>e d. dict_put (evidence_key e) e d) es d) \<subseteq> set es \<union> snd ` set d" for es d
  proof (induction es arbitrary: d)
    case (Cons e es)
    then show ?case using Cons.IH [of "dict_put (evidence_key e) e d"] dict_put_values [of "evidence_key e" e d] by auto
  qed simp
  from this [of "concat (map sf_evidence facts)" "[]"] show ?thesis by (auto simp: merge_signal_evidence_def)
qed

lemma combine_at_describes:
  assumes c: "combine_at op children b = Inr (Some f)"
    and children: "\<And>g. Some g \<in> set children \<Longrightarrow> \<forall>e \<in> set (sf_evidence g). se_available_at e \<le> sf_available_at g"
  shows "fact_describes b f"
proof -
  let ?facts = "List.map_filter id children"
  have mem: "g \<in> set ?facts \<longleftrightarrow> Some g \<in> set children" for g by (induction children) (auto simp: List.map_filter_simps split: option.splits)
  obtain t where f: "f = SignalFact (b_instrument_id b) (b_session_date b) (operator_value op) t (observed_at b)
      (fold max (map sf_available_at ?facts) (observed_at b)) ''combination of conditions'' None None ?facts (merge_signal_evidence ?facts)"
    using c by (auto simp: combine_at_def Let_def mk_signal_fact_def result_simps split: option.splits)
  have av: "\<forall>g \<in> set ?facts. sf_available_at g \<le> sf_available_at f" "observed_at b \<le> sf_available_at f"
    using fold_max_ge [of "observed_at b" "map sf_available_at ?facts"] by (auto simp: f)
  have "se_available_at e \<le> sf_available_at f" if e: "e \<in> set (merge_signal_evidence ?facts)" for e
  proof -
    obtain g where g: "g \<in> set ?facts" "e \<in> set (sf_evidence g)" using e merge_signal_evidence_subset by fastforce
    then have "se_available_at e \<le> sf_available_at g" using children mem by blast
    then show ?thesis using av(1) g(1) by fastforce
  qed
  then show ?thesis using av by (simp add: fact_describes_def f)
qed

lemma map_res_map: "map_res f (map g xs) = map_res (\<lambda>x. f (g x)) xs"
  by (induction xs) auto

lemma fact_source_combine:
  assumes sources: "\<And>e. e \<in> set es \<Longrightarrow> fact_source e"
  shows "fact_source (\<lambda>v. rbind (map_res (\<lambda>e. e v) es) (\<lambda>ts. combine_timelines op ts (mv_bars v)))"
proof
  fix v :: market_view and ts
  assume r: "rbind (map_res (\<lambda>e. e v) es) (\<lambda>ts. combine_timelines op ts (mv_bars v)) = Inr ts" and ok: "view_ok v"
  then obtain us where us: "map_res (\<lambda>e. e v) es = Inr us" "combine_timelines op us (mv_bars v) = Inr ts"
    by (auto simp: result_simps)
  have u: "\<exists>e \<in> set es. fact_source e \<and> e v = Inr u" if "u \<in> set us" for u
    using map_res_mem [OF us(1) that] sources by blast
  have lu: "length u = length (mv_bars v)" if "u \<in> set us" for u
    using u [OF that] fact_source.aligned ok by blast
  show len: "length ts = length (mv_bars v)" using us(2) by (simp add: combine_timelines_def points_length)
  show "rbind (map_res (\<lambda>e. e (known_view n v)) es) (\<lambda>ts. combine_timelines op ts (mv_bars (known_view n v))) = Inr (take n ts)"
    if n: "n \<le> length (mv_bars v)" for n
  proof -
    have "e v = Inr u \<Longrightarrow> e \<in> set es \<Longrightarrow> e (known_view n v) = Inr (take n u)" for e u
      using fact_source.stable [OF sources _ ok n] by blast
    then have "map_res (\<lambda>e. e (known_view n v)) es = Inr (map (take n) us)"
      using us(1) by (induction es arbitrary: us) (auto simp: result_simps)
    moreover have "combine_timelines op (map (take n) us) (take n (mv_bars v)) = Inr (take n ts)"
    proof -
      have "prefix_of (length (mv_bars v)) n (combine_timelines op us (mv_bars v))
          (points n (\<lambda>i. combine_at op (map (\<lambda>t. t ! i) (map (take n) us)) (take n (mv_bars v) ! i)))"
        unfolding combine_timelines_def by (rule prefix_points [OF n]) (simp add: comp_def)
      then show ?thesis using us(2) n by (simp add: prefix_of_def combine_timelines_def min_absorb2)
    qed
    ultimately show ?thesis by simp
  qed
  show "fact_describes (mv_bars v ! i) f" if i: "i < length ts" "ts ! i = Some f" for i f
  proof (rule combine_at_describes)
    show "combine_at op (map (\<lambda>t. t ! i) us) (mv_bars v ! i) = Inr (Some f)"
      using points_nth us(2) i len unfolding combine_timelines_def by metis
    show "\<forall>e \<in> set (sf_evidence g). se_available_at e \<le> sf_available_at g" if g: "Some g \<in> set (map (\<lambda>t. t ! i) us)" for g
    proof -
      obtain w where w: "w \<in> set us" "Some g = w ! i" using g by (auto simp: image_iff)
      from u [OF w(1)] obtain e where "fact_source e" "e v = Inr w" by blast
      from fact_source.describes [OF this ok _ w(2) [symmetric]] lu [OF w(1)] i(1) len show ?thesis by (simp add: fact_describes_def)
    qed
  qed
qed

lemma evaluate_node_source: "fact_source (evaluate_node L c)"
proof (induction c)
  case (IndicatorCondition c)
  then show ?case using indicator.fact_source_axioms [of c] by (simp add: indicator_bars_def if_distrib cong: if_cong)
next
  case (FinancialCondition c)
  then show ?case using financial.fact_source_axioms by simp
next
  case (EventCondition c)
  then show ?case using event.fact_source_axioms by simp
next
  case (AllCondition cs)
  have "fact_source (\<lambda>v. rbind (map_res (\<lambda>e. e v) (map (evaluate_node L) cs)) (\<lambda>ts. combine_timelines OP_ALL ts (mv_bars v)))"
    by (rule fact_source_combine) (use AllCondition in auto)
  then show ?case by (simp add: map_res_map)
next
  case (AnyCondition cs)
  have "fact_source (\<lambda>v. rbind (map_res (\<lambda>e. e v) (map (evaluate_node L) cs)) (\<lambda>ts. combine_timelines OP_ANY ts (mv_bars v)))"
    by (rule fact_source_combine) (use AnyCondition in auto)
  then show ?case by (simp add: map_res_map)
next
  case (NotCondition c)
  then show ?case using fact_source_combine [of "[evaluate_node L c]" OP_NOT] by (simp add: rbind_assoc)
qed

interpretation node: fact_source "evaluate_node L c"
  by (rule evaluate_node_source)

section \<open>The aligned evaluation\<close>

lemma bars_in_order_take: "bars_in_order i p bars = Inr u \<Longrightarrow> bars_in_order i p (take n bars) = Inr ()"
proof (induction i p bars arbitrary: n rule: bars_in_order.induct)
  case (2 instrument previous b bs)
  then show ?case by (cases n) (auto simp: result_simps)
qed simp

lemma validate_bars_take: "validate_bars bars = Inr u \<Longrightarrow> validate_bars (take n bars) = Inr ()"
  using bars_in_order_take [of "b_instrument_id (hd bars)" None bars u n]
  by (cases bars; cases n) (auto simp: validate_bars_def)

lemma alignment_take: "checks (alignment_checks c bars xbars) = Inr u \<Longrightarrow> checks (alignment_checks c (take n bars) (take n xbars)) = Inr ()"
  by (auto simp: alignment_checks_def result_simps list_ex_iff take_map [symmetric] take_zip [symmetric] dest!: in_set_takeD)

lemma evaluate_aligned_Inr:
  "evaluate_aligned L c bars events facts (Some xbars) = Inr ts \<longleftrightarrow>
     validate_bars bars = Inr () \<and> validate_bars xbars = Inr () \<and> checks (alignment_checks c bars xbars) = Inr () \<and>
     evaluate_node L c \<lparr>mv_bars = bars, mv_execution_bars = xbars, mv_events = events, mv_facts = facts\<rparr> = Inr ts"
  by (auto simp: evaluate_aligned_def result_simps)

lemma alignment_view_ok:
  "checks (alignment_checks c bars xbars) = Inr () \<Longrightarrow>
   view_ok \<lparr>mv_bars = bars, mv_execution_bars = xbars, mv_events = events, mv_facts = facts\<rparr>"
  by (simp add: alignment_checks_def view_ok_def result_simps)

section \<open>Three-valued logic\<close>

text \<open>Degrees of truth: false, unknown, true.  Conjunction is the minimum, disjunction the maximum.\<close>

fun degree :: "bool option \<Rightarrow> nat" where
  "degree (Some False) = 0"
| "degree None = 1"
| "degree (Some True) = 2"

fun truth_degree :: "(condition \<Rightarrow> nat) \<Rightarrow> condition \<Rightarrow> nat" where
  "truth_degree leaf (AllCondition cs) = foldr min (map (truth_degree leaf) cs) 2"
| "truth_degree leaf (AnyCondition cs) = foldr max (map (truth_degree leaf) cs) 0"
| "truth_degree leaf (NotCondition c) = 2 - truth_degree leaf c"
| "truth_degree leaf c = leaf c"

definition state_at :: "text_library \<Rightarrow> market_view \<Rightarrow> nat \<Rightarrow> condition \<Rightarrow> bool option" where
  "state_at L v i c = (case evaluate_node L c v of Inr ts \<Rightarrow> map_option sf_triggered (ts ! i) | Inl _ \<Rightarrow> None)"

lemma degree_values: "degree s = 0 \<longleftrightarrow> s = Some False" "degree s = 2 \<longleftrightarrow> s = Some True" "degree s \<le> 2"
  by (cases s rule: degree.cases; simp)+

lemma degree_all: "degree (combine_states OP_ALL ss) = foldr min (map degree ss) 2"
proof (induction ss)
  case (Cons s ss)
  then show ?case by (cases s rule: degree.cases) (auto split: if_splits)
qed simp

lemma degree_any: "degree (combine_states OP_ANY ss) = foldr max (map degree ss) 0"
proof (induction ss)
  case (Cons s ss)
  then show ?case by (cases s rule: degree.cases) (auto split: if_splits)
qed simp

lemma degree_not: "degree (combine_states OP_NOT [s]) = 2 - degree s"
  by (cases s rule: degree.cases) auto

lemma combine_at_state:
  "combine_at op children b = Inr r \<Longrightarrow> map_option sf_triggered r = combine_states op (map (map_option sf_triggered) children)"
  by (auto simp: combine_at_def Let_def mk_signal_fact_def result_simps split: option.splits)

lemma combine_timelines_state:
  assumes "combine_timelines op ts bars = Inr r" "i < length bars"
  shows "map_option sf_triggered (r ! i) = combine_states op (map (\<lambda>t. map_option sf_triggered (t ! i)) ts)"
  using combine_at_state [of op "map (\<lambda>t. t ! i) ts" "bars ! i" "r ! i"] points_nth assms
  unfolding combine_timelines_def by (fastforce simp: comp_def)

lemma children_states: "map_res (\<lambda>c. evaluate_node L c v) cs = Inr ts \<Longrightarrow>
    map (\<lambda>t. map_option sf_triggered (t ! i)) ts = map (state_at L v i) cs \<and> (\<forall>c \<in> set cs. is_ok (evaluate_node L c v))"
  by (induction cs arbitrary: ts) (auto simp: result_simps state_at_def)

lemma truth_degree_exact:
  "is_ok (evaluate_node L c v) \<Longrightarrow> i < length (mv_bars v) \<Longrightarrow>
   degree (state_at L v i c) = truth_degree (\<lambda>leaf. degree (state_at L v i leaf)) c"
proof (induction c)
  case (AllCondition cs)
  then obtain ts r where ts: "map_res (\<lambda>c. evaluate_node L c v) cs = Inr ts" "combine_timelines OP_ALL ts (mv_bars v) = Inr r"
    by (auto simp: is_ok_iff result_simps)
  then have "state_at L v i (AllCondition cs) = combine_states OP_ALL (map (state_at L v i) cs)"
    using combine_timelines_state [OF ts(2) AllCondition.prems(2)] children_states [OF ts(1)] by (simp add: state_at_def)
  moreover have "map (truth_degree (\<lambda>leaf. degree (state_at L v i leaf))) cs = map degree (map (state_at L v i) cs)"
    using AllCondition children_states [OF ts(1)] by simp
  ultimately show ?case by (simp only: degree_all truth_degree.simps)
next
  case (AnyCondition cs)
  then obtain ts r where ts: "map_res (\<lambda>c. evaluate_node L c v) cs = Inr ts" "combine_timelines OP_ANY ts (mv_bars v) = Inr r"
    by (auto simp: is_ok_iff result_simps)
  then have "state_at L v i (AnyCondition cs) = combine_states OP_ANY (map (state_at L v i) cs)"
    using combine_timelines_state [OF ts(2) AnyCondition.prems(2)] children_states [OF ts(1)] by (simp add: state_at_def)
  moreover have "map (truth_degree (\<lambda>leaf. degree (state_at L v i leaf))) cs = map degree (map (state_at L v i) cs)"
    using AnyCondition children_states [OF ts(1)] by simp
  ultimately show ?case by (simp only: degree_any truth_degree.simps)
next
  case (NotCondition c)
  then obtain t r where t: "evaluate_node L c v = Inr t" "combine_timelines OP_NOT [t] (mv_bars v) = Inr r"
    by (auto simp: is_ok_iff result_simps)
  then have "state_at L v i (NotCondition c) = combine_states OP_NOT [state_at L v i c]"
    using combine_timelines_state [OF t(2) NotCondition.prems(2)] by (simp add: state_at_def)
  then show ?case using NotCondition t(1) by (simp only: degree_not truth_degree.simps is_ok_simps)
qed simp_all

text \<open>A decided condition does not depend on its unknown leaves.\<close>

lemma foldr_degrees:
  fixes xs :: "nat list"
  shows "foldr min xs 2 \<le> 2" "\<forall>x \<in> set xs. x \<le> 2 \<Longrightarrow> foldr max xs 0 \<le> 2"
  by (induction xs) auto

lemma truth_degree_le: "(\<And>l. leaf l \<le> 2) \<Longrightarrow> truth_degree leaf c \<le> 2"
  by (induction c) (auto simp: foldr_degrees)

lemma decided_pair:
  fixes x y m m' :: nat
  assumes "x \<noteq> 1 \<longrightarrow> y = x" "m \<noteq> 1 \<longrightarrow> m' = m" "x \<le> 2" "y \<le> 2" "m \<le> 2" "m' \<le> 2"
  shows "min x m \<noteq> 1 \<longrightarrow> min y m' = min x m" "max x m \<noteq> 1 \<longrightarrow> max y m' = max x m"
  using assms unfolding min_def max_def by presburger+

lemma all_decided:
  fixes xs :: "nat list"
  assumes "list_all2 (\<lambda>x y. x \<noteq> 1 \<longrightarrow> y = x) xs ys" "\<forall>x \<in> set xs. x \<le> 2" "\<forall>y \<in> set ys. y \<le> 2"
  shows "foldr min xs 2 \<noteq> 1 \<longrightarrow> foldr min ys 2 = foldr min xs 2" "foldr max xs 0 \<noteq> 1 \<longrightarrow> foldr max ys 0 = foldr max xs 0"
proof -
  have "(foldr min xs 2 \<noteq> 1 \<longrightarrow> foldr min ys 2 = foldr min xs 2) \<and> (foldr max xs 0 \<noteq> 1 \<longrightarrow> foldr max ys 0 = foldr max xs 0)"
    using assms
  proof (induction rule: list_all2_induct)
    case (Cons x xs y ys)
    have "foldr min xs 2 \<le> 2" "foldr min ys 2 \<le> 2" "foldr max xs 0 \<le> 2" "foldr max ys 0 \<le> 2"
      using Cons.prems foldr_degrees by auto
    then show ?case
      using decided_pair [of x y "foldr min xs 2" "foldr min ys 2"] decided_pair [of x y "foldr max xs 0" "foldr max ys 0"] Cons by simp
  qed simp
  then show "foldr min xs 2 \<noteq> 1 \<longrightarrow> foldr min ys 2 = foldr min xs 2" "foldr max xs 0 \<noteq> 1 \<longrightarrow> foldr max ys 0 = foldr max xs 0" by blast+
qed

lemma truth_degree_decided:
  assumes "\<And>l. d l \<noteq> 1 \<Longrightarrow> d' l = d l" "\<And>l. d l \<le> 2" "\<And>l. d' l \<le> 2"
  shows "truth_degree d c \<noteq> 1 \<longrightarrow> truth_degree d' c = truth_degree d c"
proof (induction c)
  case (AllCondition cs)
  then have "list_all2 (\<lambda>x y. x \<noteq> 1 \<longrightarrow> y = x) (map (truth_degree d) cs) (map (truth_degree d') cs)"
    by (auto simp: list_all2_map1 list_all2_map2 intro: list.rel_refl_strong)
  from all_decided(1) [OF this] show ?case using truth_degree_le assms(2,3) by simp
next
  case (AnyCondition cs)
  then have "list_all2 (\<lambda>x y. x \<noteq> 1 \<longrightarrow> y = x) (map (truth_degree d) cs) (map (truth_degree d') cs)"
    by (auto simp: list_all2_map1 list_all2_map2 intro: list.rel_refl_strong)
  from all_decided(2) [OF this] show ?case using truth_degree_le assms(2,3) by simp
next
  case (NotCondition c)
  then show ?case using truth_degree_le [of d c] truth_degree_le [of d' c] assms(2,3) by auto
qed (use assms(1) in auto)

end
