(* ===== verification/SignalProperties.thy ===== *)
theory SignalProperties
  imports SignalLaws
begin

text \<open>The properties of the signal runtime as a whole, with the sample evaluation that their witnesses use.\<close>

section \<open>The view of an aligned evaluation\<close>

definition aligned_view ::
  "daily_bar list \<Rightarrow> event_envelope list \<Rightarrow> financial_fact list \<Rightarrow> daily_bar list option \<Rightarrow> market_view" where
  "aligned_view bars events facts execution_bars =
     \<lparr>mv_bars = bars, mv_execution_bars = (case execution_bars of None \<Rightarrow> bars | Some b \<Rightarrow> b), mv_events = events, mv_facts = facts\<rparr>"

lemma evaluate_aligned_iff:
  "evaluate_aligned L c bars events facts xo = Inr ts \<longleftrightarrow>
     (let v = aligned_view bars events facts xo
      in validate_bars bars = Inr () \<and> validate_bars (mv_execution_bars v) = Inr () \<and>
         checks (alignment_checks c bars (mv_execution_bars v)) = Inr () \<and> evaluate_node L c v = Inr ts)"
  by (auto simp: evaluate_aligned_def aligned_view_def Let_def result_simps)

lemma evaluate_aligned_view:
  assumes "evaluate_aligned L c bars events facts xo = Inr ts"
  shows "view_ok (aligned_view bars events facts xo)" "evaluate_node L c (aligned_view bars events facts xo) = Inr ts"
  using assms alignment_view_ok [of c bars "mv_execution_bars (aligned_view bars events facts xo)" events facts]
  by (auto simp: evaluate_aligned_iff Let_def aligned_view_def)

lemma known_aligned_view:
  "known_view n (aligned_view bars events facts xo) =
     aligned_view (take n bars) (filter (event_public (take n bars)) events) (filter (fact_public (take n bars)) facts)
       (map_option (take n) xo)"
  by (cases xo) (simp_all add: known_view_def aligned_view_def)

section \<open>A sample evaluation\<close>

definition plain_library :: text_library where
  "plain_library = \<lparr>tl_sha256 = (\<lambda>s. replicate 64 (CHR ''0'')), tl_nfkc = (\<lambda>s. s), tl_casefold = map lower_char,
     tl_json_loads = (\<lambda>s. None), tl_parse_iso = (\<lambda>s. None), tl_zones = sample_zones\<rparr>"

definition plain_price :: "rat \<Rightarrow> price" where
  "plain_price p = \<lparr>amount = p, currency = ''CNY''\<rparr>"

definition plain_bar :: "date \<Rightarrow> rat \<Rightarrow> daily_bar" where
  "plain_bar d p = \<lparr>b_instrument_id = ''300059.SZ'', b_session_date = d, b_open = plain_price p, b_high = plain_price p,
     b_low = plain_price p, b_close = plain_price p, b_volume = 1000, b_turnover = 1000 * p, b_available_at = combine d (hm 15 0),
     b_price_basis = UNADJUSTED, b_turnover_rate_pct = None, b_turnover_rate_provider = None, b_turnover_rate_methodology = None\<rparr>"

definition plain_event :: "string \<Rightarrow> datetime \<Rightarrow> event_envelope" where
  "plain_event name t = \<lparr>ee_event = \<lparr>me_event_id = name, me_event_code = ''event.financial_results.annual_report'',
       me_instrument_id = ''300059.SZ'', me_attributes = []\<rparr>,
     ee_occurred_at = None, ee_source_released_at = None, ee_vendor_first_available_at = None, ee_ingested_at = t, ee_revision_no = 0,
     ee_time_quality = EXACT, ee_replay_available_at = Some t, ee_source_event_id = None, ee_provider = None,
     ee_source_url = None, ee_raw_response_sha256 = None, ee_validation_status = None\<rparr>"

text \<open>The close is above ten, or the annual report is published; the first bar has no volume.\<close>

definition plain_condition :: condition where
  "plain_condition = AnyCondition
     [IndicatorCondition \<lparr>ic_indicator_id = ''price.close'', ic_definition_version = ''1.0.0'', ic_params = [],
        ic_trigger = ''above'', ic_value = Some (Finite 10)\<rparr>,
      EventCondition \<lparr>ec_event_code = ''event.financial_results.annual_report'', ec_definition_version = ''1.0.0'',
        ec_attributes = [], ec_document_text = None\<rparr>]"

definition plain_bars :: "daily_bar list" where
  "plain_bars = [(plain_bar 1 9)\<lparr>b_volume := 0, b_turnover := 0\<rparr>, plain_bar 2 9, plain_bar 3 11]"

definition plain_events :: "event_envelope list" where
  "plain_events = [plain_event ''late'' (combine 3 (hm 10 0)), plain_event ''early'' (combine 2 (hm 10 0))]"

definition plain_result :: "signal_fact option list result" where
  "plain_result = evaluate_aligned plain_library plain_condition plain_bars plain_events [] None"

lemma plain_result_states:
  "(case plain_result of Inl _ \<Rightarrow> None | Inr ts \<Rightarrow> Some (map (map_option sf_triggered) ts)) = Some [None, Some True, Some True]"
  by code_simp

lemma plain_result_ok: obtains ts where "evaluate_aligned plain_library plain_condition plain_bars plain_events [] None = Inr ts"
    "map (map_option sf_triggered) ts = [None, Some True, Some True]"
  using plain_result_states by (auto simp: plain_result_def split: sum.splits)

section \<open>Properties\<close>

text \<open>C5: the signal runtime does not look ahead: evaluating a condition on the first sessions only, with the events and
  financial facts that were public by then, succeeds and gives exactly the first facts of the evaluation
  on the whole history; later bars, publications and revisions cannot rewrite an earlier fact.\<close>

theorem signals_have_no_look_ahead:
  assumes "evaluate_aligned L c bars events facts execution_bars = Inr ts" and "n \<le> length bars"
  shows "evaluate_aligned L c (take n bars) (filter (event_public (take n bars)) events)
      (filter (fact_public (take n bars)) facts) (map_option (take n) execution_bars) = Inr (take n ts)"
proof -
  let ?v = "aligned_view bars events facts execution_bars"
  have "evaluate_node L c (known_view n ?v) = Inr (take n ts)"
    using node.stable [OF evaluate_aligned_view(2,1) [OF assms(1)]] assms by (simp add: aligned_view_def)
  moreover have "mv_execution_bars (known_view n ?v) = take n (mv_execution_bars ?v)" by simp
  ultimately show ?thesis
    using assms(1) validate_bars_take alignment_take
    unfolding evaluate_aligned_iff Let_def known_aligned_view by metis
qed

theorem signals_have_no_look_ahead_witness:
  "\<exists>ts. map (map_option sf_triggered) ts = [None, Some True] \<and>
     evaluate_aligned plain_library plain_condition (take 2 plain_bars) (filter (event_public (take 2 plain_bars)) plain_events) [] None = Inr ts"
proof -
  obtain ts where ts: "evaluate_aligned plain_library plain_condition plain_bars plain_events [] None = Inr ts"
    "map (map_option sf_triggered) ts = [None, Some True, Some True]" by (rule plain_result_ok)
  have "2 \<le> length plain_bars" by (simp add: plain_bars_def)
  from signals_have_no_look_ahead [OF ts(1) this] show ?thesis
    using ts(2) by (intro exI [of _ "take 2 ts"]) (simp add: take_map [symmetric])
qed

text \<open>C12: every fact describes its bar and rests on the past: the timeline has one slot per bar, a fact carries the
  instrument and session of its bar, it is not available before it is observed, nor before any of its children
  or any of the evidence it cites was published.\<close>

theorem signal_facts_describe_bars:
  assumes "evaluate_aligned L c bars events facts execution_bars = Inr ts"
  shows "length ts = length bars \<and> (\<forall>i f. i < length bars \<and> ts ! i = Some f \<longrightarrow> fact_describes (bars ! i) f)"
  using node.aligned [OF evaluate_aligned_view(2,1) [OF assms]] node.describes [OF evaluate_aligned_view(2,1) [OF assms]]
  by (simp add: aligned_view_def)

theorem signal_facts_describe_bars_witness:
  "\<exists>ts f. evaluate_aligned plain_library plain_condition plain_bars plain_events [] None = Inr ts \<and> ts ! 1 = Some f \<and>
     fact_describes (plain_bars ! 1) f"
proof -
  obtain ts where ts: "evaluate_aligned plain_library plain_condition plain_bars plain_events [] None = Inr ts"
    "map (map_option sf_triggered) ts = [None, Some True, Some True]" by (rule plain_result_ok)
  have "map (map_option sf_triggered) ts ! 1 = Some True" "length (map (map_option sf_triggered) ts) = 3"
    unfolding ts(2) by simp_all
  then obtain f where "ts ! 1 = Some f" by (auto simp del: One_nat_def)
  moreover have "1 < length plain_bars" by (simp add: plain_bars_def)
  ultimately show ?thesis using signal_facts_describe_bars [OF ts(1)] ts(1) by blast
qed

text \<open>C11: a condition tree computes strong Kleene logic: at every bar the state of the root (false, unknown, true as 0, 1, 2)
  is the minimum, maximum and complement of the states of its leaves, each evaluated on its own; and a
  decided root stays as it is whatever the unknown leaves turn out to be.\<close>

theorem signals_are_three_valued:
  assumes "evaluate_aligned L c bars events facts execution_bars = Inr ts" and "i < length bars"
  defines "leaf \<equiv> state_at L (aligned_view bars events facts execution_bars) i"
  shows "degree (map_option sf_triggered (ts ! i)) = truth_degree (\<lambda>l. degree (leaf l)) c \<and>
    (ts ! i \<noteq> None \<longrightarrow>
      (\<forall>d. (\<forall>l. d l \<le> 2 \<and> (leaf l \<noteq> None \<longrightarrow> d l = degree (leaf l))) \<longrightarrow> truth_degree d c = degree (map_option sf_triggered (ts ! i))))"
proof -
  let ?v = "aligned_view bars events facts execution_bars"
  have e: "evaluate_node L c ?v = Inr ts" using evaluate_aligned_view(2) [OF assms(1)] .
  then have "state_at L ?v i c = map_option sf_triggered (ts ! i)" by (simp add: state_at_def)
  moreover have "degree (state_at L ?v i c) = truth_degree (\<lambda>l. degree (leaf l)) c"
    unfolding leaf_def by (rule truth_degree_exact) (use e assms(2) in \<open>simp_all add: aligned_view_def\<close>)
  ultimately have root: "degree (map_option sf_triggered (ts ! i)) = truth_degree (\<lambda>l. degree (leaf l)) c" by simp
  have "truth_degree d c = truth_degree (\<lambda>l. degree (leaf l)) c"
    if t: "ts ! i \<noteq> None" and d: "\<forall>l. d l \<le> 2 \<and> (leaf l \<noteq> None \<longrightarrow> d l = degree (leaf l))" for d
  proof -
    obtain f where f: "ts ! i = Some f" using t by blast
    then have "truth_degree (\<lambda>l. degree (leaf l)) c \<noteq> 1" unfolding root [symmetric] by (cases "sf_triggered f") (simp_all add: f)
    moreover have "d l = degree (leaf l)" if "degree (leaf l) \<noteq> 1" for l
      using d that by (cases "leaf l") auto
    ultimately show ?thesis using truth_degree_decided [of "\<lambda>l. degree (leaf l)" d c] d degree_values(3) by blast
  qed
  then show ?thesis using root by simp
qed

theorem signals_are_three_valued_witness:
  "\<exists>ts. evaluate_aligned plain_library plain_condition plain_bars plain_events [] None = Inr ts \<and>
     truth_degree (\<lambda>l. degree (state_at plain_library (aligned_view plain_bars plain_events [] None) 0 l)) plain_condition = 1"
proof -
  obtain ts where ts: "evaluate_aligned plain_library plain_condition plain_bars plain_events [] None = Inr ts"
    "map (map_option sf_triggered) ts = [None, Some True, Some True]" by (rule plain_result_ok)
  have "map (map_option sf_triggered) ts ! 0 = None" "length (map (map_option sf_triggered) ts) = 3"
    unfolding ts(2) by simp_all
  then have "map_option sf_triggered (ts ! 0) = None" by auto
  moreover have "0 < length plain_bars" by (simp add: plain_bars_def)
  ultimately show ?thesis using signals_are_three_valued [OF ts(1), of 0] ts(1) by fastforce
qed

end
