(* ===== verification/IndicatorExact.thy ===== *)
theory IndicatorExact
  imports Indicators
begin

text \<open>
  What the indicators compute: the running sum of a moving average is the sum of its window, and the
  oscillators stay within their ranges in spite of all intermediate roundings.
\<close>

section \<open>The local context and powers of ten\<close>

lemma round_to_coefficient:
  assumes "0 < p"
  obtains c e where "round_to p x = of_int c * 10 powi e" "\<bar>c\<bar> \<le> 10 ^ p"
proof (cases "x = 0")
  case True
  then show ?thesis using that [of 0 0] by simp
next
  case False
  define e where "e = adjusted x + 1 - int p"
  have "\<bar>x\<bar> < 10 powi (adjusted x + 1)" using adjusted_bounds False by blast
  also have "\<dots> = 10 ^ p * 10 powi e" by (simp add: e_def power_int_diff)
  finally have "\<bar>x\<bar> / 10 powi e < 10 ^ p" by (simp only: pos_divide_less_eq [OF powi10_pos])
  define q where "q = x / 10 powi e"
  have b: "\<bar>q\<bar> < 10 ^ p" using \<open>\<bar>x\<bar> / 10 powi e < 10 ^ p\<close> by (simp only: q_def abs_divide abs_of_pos [OF powi10_pos])
  have "\<bar>round_half_even q\<bar> \<le> 10 ^ p"
  proof (rule abs_leI)
    have "q \<le> of_int (10 ^ p)" using b by (simp add: abs_less_iff)
    from round_half_even_mono [OF this] show "round_half_even q \<le> 10 ^ p" by (simp only: round_half_even_of_int)
    have "- q \<le> of_int (10 ^ p)" using b by (simp add: abs_less_iff)
    from round_half_even_mono [OF this] show "- round_half_even q \<le> 10 ^ p"
      by (simp only: round_half_even_of_int round_half_even_minus)
  qed
  moreover have "round_to p x = of_int (round_half_even q) * 10 powi e"
    using False by (simp add: round_to_def Let_def e_def q_def)
  ultimately show ?thesis using that by blast
qed

lemma loc_idem [simp]: "loc (loc x) = loc x"
proof -
  obtain c e where ce: "round_to 34 x = of_int c * 10 powi e" "\<bar>c\<bar> \<le> 10 ^ 34" by (rule round_to_coefficient [of 34 x]) simp
  show ?thesis
  proof (cases "\<bar>c\<bar> = 10 ^ 34")
    case True
    then have "round_to 34 x = of_int (sgn c) * 10 powi (e + 34)"
      using ce(1) by (auto simp: power_int_add abs_if sgn_if split: if_splits)
    moreover have "\<bar>sgn c\<bar> < (10 :: int) ^ 34" by (simp add: sgn_if)
    ultimately show ?thesis unfolding loc_def by (rule round_to_exact)
  next
    case False
    then show ?thesis unfolding loc_def using round_to_exact [OF ce(1), of 34] ce(2) by linarith
  qed
qed

lemma loc_100: "loc (100 * x) = 100 * loc x"
proof (cases "x = 0")
  case False
  have s: "100 * x = 10 powi 2 * x" by simp
  have "adjusted (100 * x) = adjusted x + 2"
  proof (rule adjusted_unique)
    show "10 powi (adjusted x + 2) \<le> \<bar>100 * x\<bar>" "\<bar>100 * x\<bar> < 10 powi (adjusted x + 2 + 1)"
      using adjusted_bounds [OF False] by (simp_all add: power_int_add abs_mult)
  qed
  then show ?thesis using False by (simp add: loc_def round_to_def Let_def power_int_add power_int_diff mult.commute [of x])
qed simp

lemma loc_numeral [simp]: "loc 1 = 1" "loc 100 = 100" "loc 50 = 50"
  using loc_of_int [of 1] loc_of_int [of 100] loc_of_int [of 50] by simp_all

lemma loc_decimal: "\<bar>c\<bar> < 10 ^ 34 \<Longrightarrow> loc (of_int c / 10 ^ k) = of_int c / 10 ^ k"
  unfolding loc_def by (rule round_to_exact [where c = c and e = "- int k"]) (simp_all add: power_int_minus divide_inverse)

section \<open>Values of a scan\<close>

text \<open>A step that keeps an invariant of its variables and yields good values makes a series of good values.\<close>

lemma loop_res_scan:
  assumes "loop_res (\<lambda>i s. Inr (step i s)) is s = Inr xs" "I s"
    and "\<And>i s. i \<in> set is \<Longrightarrow> I s \<Longrightarrow> I (snd (step i s)) \<and> Q i (fst (step i s))"
  shows "\<forall>j < length is. Q (is ! j) (xs ! j)"
  using assms
proof (induction "is" arbitrary: s xs)
  case (Cons i "is")
  obtain y t where yt: "step i s = (y, t)" by fastforce
  from Cons.prems(1) yt obtain ys where ys: "loop_res (\<lambda>i s. Inr (step i s)) is t = Inr ys" "xs = y # ys"
    by (auto simp: result_simps)
  have "I t" "Q i y" using Cons.prems(3) [of i s] Cons.prems(2) yt by auto
  moreover have "\<forall>j < length is. Q (is ! j) (ys ! j)"
    using Cons.IH [OF ys(1) \<open>I t\<close>] Cons.prems(3) by simp
  ultimately show ?case by (auto simp: ys(2) nth_Cons split: nat.split)
qed simp

lemma scan_values:
  assumes "scan n step s = Inr xs" "I s" "\<And>i s. i < n \<Longrightarrow> I s \<Longrightarrow> I (snd (step i s)) \<and> Q i (fst (step i s))"
  shows "length xs = n \<and> (\<forall>i < n. Q i (xs ! i))"
  using loop_res_scan [OF assms(1) [unfolded scan_def series_def], of I Q] assms
    loop_res_length [OF assms(1) [unfolded scan_def series_def]]
  by simp

lemma scan_ok: "is_ok (scan n step s)"
proof -
  have "is_ok (loop_res (\<lambda>i s. Inr (step i s)) is s)" for "is"
    by (induction "is" arbitrary: s) (auto simp: is_ok_iff result_simps split: prod.splits)
  then show ?thesis by (simp add: scan_def series_def)
qed

text \<open>A step whose variables at index \<open>i\<close> are a function of \<open>i\<close>.\<close>

lemma loop_res_traced:
  assumes "\<And>j. a \<le> j \<Longrightarrow> j < n \<Longrightarrow> step j (f j) = (g j, f (Suc j))" "a \<le> n"
  shows "loop_res (\<lambda>i s. Inr (step i s)) [a..<n] (f a) = Inr (map g [a..<n])"
  using assms
proof (induction "n - a" arbitrary: a)
  case (Suc m)
  then have e: "[a..<n] = a # [Suc a..<n]" by (simp add: upt_conv_Cons)
  have "loop_res (\<lambda>i s. Inr (step i s)) [Suc a..<n] (f (Suc a)) = Inr (map g [Suc a..<n])"
    using Suc by (intro Suc.hyps(1)) auto
  then show ?case using Suc.prems(1) [of a] Suc.hyps(2) by (simp add: e)
qed simp

lemma scan_traced: "(\<And>j. j < n \<Longrightarrow> step j (f j) = (g j, f (Suc j))) \<Longrightarrow> scan n step (f 0) = Inr (map g [0..<n])"
  unfolding scan_def series_def by (rule loop_res_traced) simp_all

section \<open>The moving average\<close>

definition window_total :: "rat list \<Rightarrow> nat \<Rightarrow> nat \<Rightarrow> rat" where
  "window_total vs p i = sum_list (slice vs (i + 1 - p) (i + 1))"

text \<open>Decimals with at most \<open>k\<close> places, small enough that all sums are exact in 34 digits.\<close>

definition small_decimals :: "nat \<Rightarrow> nat \<Rightarrow> rat list \<Rightarrow> bool" where
  "small_decimals k p vs \<longleftrightarrow> (\<forall>v \<in> set vs. \<exists>c. v = of_int c / 10 ^ k \<and> int (p + 2) * \<bar>c\<bar> < 10 ^ 34)"

lemma small_sum:
  fixes vs :: "rat list"
  assumes "\<forall>v \<in> set vs. \<exists>c. v = of_int c / 10 ^ k \<and> int m * \<bar>c\<bar> < b" "length vs \<le> l" "0 < b" "0 < m"
  shows "\<exists>c. sum_list vs = of_int c / 10 ^ k \<and> int m * \<bar>c\<bar> \<le> int l * b"
  using assms(1,2)
proof (induction vs arbitrary: l)
  case Nil
  show ?case using assms(3) by (intro exI [of _ 0]) simp
next
  case (Cons v vs)
  obtain l' where l: "l = Suc l'" "length vs \<le> l'" using Cons.prems(2) by (cases l) auto
  obtain c d where c: "v = of_int c / 10 ^ k" "int m * \<bar>c\<bar> < b" and d: "sum_list vs = of_int d / 10 ^ k" "int m * \<bar>d\<bar> \<le> int l' * b"
    using Cons.IH [of l'] Cons.prems(1) l(2) by auto
  have "int m * \<bar>c + d\<bar> \<le> int m * (\<bar>c\<bar> + \<bar>d\<bar>)" by (intro mult_left_mono abs_triangle_ineq) simp
  also have "\<dots> \<le> int l * b" using c(2) d(2) by (simp add: l(1) algebra_simps)
  finally show ?case using c(1) d(1) by (intro exI [of _ "c + d"]) (simp add: add_divide_distrib)
qed

lemma small_exact:
  assumes "small_decimals k p vs" "set xs \<subseteq> set vs" "length xs \<le> p + 1"
  shows "loc (sum_list xs) = sum_list xs"
proof -
  obtain c where c: "sum_list xs = of_int c / 10 ^ k" "int (p + 2) * \<bar>c\<bar> \<le> int (p + 1) * 10 ^ 34"
    using small_sum [of xs k "p + 2" "10 ^ 34" "p + 1"] assms by (force simp: small_decimals_def)
  have "int (p + 1) * 10 ^ 34 < int (p + 2) * 10 ^ 34" by simp
  with c(2) have "\<bar>c\<bar> < 10 ^ 34" by (metis le_less_trans mult_less_cancel_left_pos of_nat_0_less_iff add_pos_nonneg zero_le zero_less_numeral add.commute)
  then show ?thesis unfolding c(1) by (rule loc_decimal)
qed

lemma small_difference:
  assumes "small_decimals k p vs" "0 < p" "x \<in> set vs" "y \<in> set vs"
  shows "loc (x - y) = x - y"
proof -
  obtain c d where cd: "x = of_int c / 10 ^ k" "int (p + 2) * \<bar>c\<bar> < 10 ^ 34" "y = of_int d / 10 ^ k" "int (p + 2) * \<bar>d\<bar> < 10 ^ 34"
    using assms(1,3,4) unfolding small_decimals_def by meson
  have "3 * z \<le> int (p + 2) * z" if "0 \<le> z" for z using assms(2) that by (intro mult_right_mono) auto
  from this [of "\<bar>c\<bar>"] this [of "\<bar>d\<bar>"] cd(2,4) have "3 * \<bar>c\<bar> < 10 ^ 34" "3 * \<bar>d\<bar> < 10 ^ 34" by simp_all
  then have "\<bar>c - d\<bar> < 10 ^ 34" by linarith
  from loc_decimal [OF this, of k] show ?thesis by (simp add: cd diff_divide_distrib)
qed

lemma dsum_exact: "(\<And>j. j \<le> length xs \<Longrightarrow> loc (sum_list (take j xs)) = sum_list (take j xs)) \<Longrightarrow> dsum xs = sum_list xs"
proof (induction xs rule: rev_induct)
  case (snoc x xs)
  have "dsum xs = sum_list xs" 
  proof (rule snoc.IH)
    show "loc (sum_list (take j xs)) = sum_list (take j xs)" if "j \<le> length xs" for j
      using snoc.prems [of j] that by simp
  qed
  moreover have "loc (sum_list (xs @ [x])) = sum_list (xs @ [x])" using snoc.prems [of "length (xs @ [x])"] by simp
  ultimately show ?case by (simp add: dsum_def)
qed (simp add: dsum_def)

lemma window_total_shift:
  assumes "0 < p" "p \<le> j" "j < length vs"
  shows "window_total vs p j = window_total vs p (j - 1) + (vs ! j - vs ! (j - p))"
proof -
  have "slice vs (j - p) (j + 1) = slice vs (j - p) j @ [vs ! j]"
    using assms by (simp add: slice_def take_Suc_conv_app_nth)
  moreover have "slice vs (j - p) (j + 1) = vs ! (j - p) # slice vs (j + 1 - p) (j + 1)"
    using assms by (simp add: slice_def Suc_diff_le Cons_nth_drop_Suc [symmetric])
  ultimately have "sum_list (slice vs (j - p) j) + vs ! j = vs ! (j - p) + sum_list (slice vs (j + 1 - p) (j + 1))"
    by (metis sum_list.Cons sum_list_append sum_list.Nil add_0_right)
  moreover have "j - 1 + 1 - p = j - p" "j - 1 + 1 = j" using assms by auto
  ultimately show ?thesis by (simp add: window_total_def algebra_simps)
qed

lemma slice_length: "length (slice xs a b) \<le> b - a"
  by (simp add: slice_def)

lemma window_total_exact:
  assumes "small_decimals k p vs" "0 < p"
  shows "loc (window_total vs p i) = window_total vs p i"
  unfolding window_total_def
  using slice_length [of vs "i + 1 - p" "i + 1"] by (intro small_exact [OF assms(1) set_slice_subset]) auto

lemma simple_moving_average_exact:
  assumes small: "small_decimals k p vs" and p: "0 < p"
  shows "simple_moving_average vs p =
    Inr (map (\<lambda>i. if i + 1 < p then None else Some (loc (window_total vs p i / of_nat p))) [0..<length vs])"
proof -
  let ?f = "\<lambda>j. if j < p then 0 else window_total vs p (j - 1)"
  have "average_step vs p j (?f j) =
      (if j + 1 < p then None else Some (loc (window_total vs p j / of_nat p)), ?f (Suc j))" if j: "j < length vs" for j
  proof -
    consider "j + 1 < p" | "j + 1 = p" | "p \<le> j" by linarith
    then show ?thesis
    proof cases
      case 2
      have exact: "loc (sum_list (take n (take p vs))) = sum_list (take n (take p vs))" if "n \<le> length (take p vs)" for n
        by (rule small_exact [OF small]) (auto dest: in_set_takeD)
      then have "dsum (take p vs) = window_total vs p j"
        using 2 dsum_exact [OF exact] by (simp add: window_total_def slice_def)
      then show ?thesis using 2 by (auto simp: average_step_def Let_def)
    next
      case 3
      have "loc (vs ! j - vs ! (j - p)) = vs ! j - vs ! (j - p)"
        using 3 j p by (intro small_difference [OF small]) auto
      moreover have "\<not> j < p" "\<not> Suc j < p" "\<not> j + 1 < p" "j + 1 \<noteq> p" using 3 by auto
      ultimately show ?thesis
        using window_total_shift [OF p 3 j] window_total_exact [OF small p, of j] by (simp add: average_step_def Let_def)
    qed (simp add: average_step_def)
  qed
  from scan_traced [where step = "average_step vs p" and f = ?f and
      g = "\<lambda>j. if j + 1 < p then None else Some (loc (window_total vs p j / of_nat p))", OF this]
  show ?thesis using p by (simp add: simple_moving_average_def)
qed

section \<open>Ranges\<close>

lemma loc_range: "a \<le> x \<Longrightarrow> x \<le> b \<Longrightarrow> loc a = a \<Longrightarrow> loc b = b \<Longrightarrow> a \<le> loc x \<and> loc x \<le> b"
  using loc_mono [of a x] loc_mono [of x b] by simp

lemma loc_percent: "0 \<le> x \<Longrightarrow> x \<le> 100 \<Longrightarrow> 0 \<le> loc x \<and> loc x \<le> 100"
  by (rule loc_range) simp_all

lemma window_bounds:
  assumes "0 < p" "i < length bars" "\<forall>b \<in> set bars. daily_bar_ok b"
  defines "w \<equiv> slice bars (i + 1 - p) (i + 1)"
  shows "lowest w \<le> close_of (bars ! i)" "close_of (bars ! i) \<le> highest w"
proof -
  have m: "bars ! i \<in> set w" unfolding w_def using assms(1,2) by (intro nth_in_slice) auto
  have "low_of (bars ! i) \<le> close_of (bars ! i)" "close_of (bars ! i) \<le> high_of (bars ! i)"
    using daily_bar_ok_order [of "bars ! i"] assms(2,3) by auto
  moreover have "lowest w \<le> low_of (bars ! i)" unfolding lowest_def using m by (intro Min_le) auto
  moreover have "high_of (bars ! i) \<le> highest w" unfolding highest_def using m by (intro Max_ge) auto
  ultimately show "lowest w \<le> close_of (bars ! i)" "close_of (bars ! i) \<le> highest w" by linarith+
qed

text \<open>The part that a distance takes of a spread, in percent.\<close>

lemma percent_of_spread:
  assumes "0 \<le> x" "x \<le> y" "loc y \<noteq> 0"
  shows "0 \<le> loc (loc (100 * loc x) / loc y) \<and> loc (loc (100 * loc x) / loc y) \<le> 100"
proof -
  have y: "0 < loc y" using assms loc_nonneg [of y] by simp
  have "loc (100 * loc x) \<le> 100 * loc y" using loc_mono [OF assms(2)] by (simp add: loc_100)
  moreover have "0 \<le> loc (100 * loc x)" using assms(1) by (intro loc_nonneg) (simp add: loc_nonneg)
  ultimately show ?thesis using y by (intro loc_percent) (simp_all add: pos_divide_le_eq)
qed

lemma raw_k_percent:
  assumes "0 < p" "i < length bars" "\<forall>b \<in> set bars. daily_bar_ok b"
  shows "0 \<le> raw_k p bars i \<and> raw_k p bars i \<le> 100"
  using percent_of_spread [of "close_of (bars ! i) - lowest (slice bars (i + 1 - p) (i + 1))"
      "highest (slice bars (i + 1 - p) (i + 1)) - lowest (slice bars (i + 1 - p) (i + 1))"] window_bounds [OF assms]
  by (simp add: raw_k_def Let_def)

lemma rsv_percent:
  assumes "0 < p" "i < length bars" "\<forall>b \<in> set bars. daily_bar_ok b"
  shows "0 \<le> rsv p bars i \<and> rsv p bars i \<le> 100"
proof -
  let ?w = "slice bars (i + 1 - p) (i + 1)"
  let ?x = "close_of (bars ! i) - lowest ?w" and ?y = "highest ?w - lowest ?w"
  note wb = window_bounds [OF assms]
  have "0 \<le> loc (loc (loc ?x / loc ?y) * 100) \<and> loc (loc (loc ?x / loc ?y) * 100) \<le> 100" if "loc ?y \<noteq> 0"
  proof -
    have y: "0 < loc ?y" using that wb loc_nonneg [of ?y] by simp
    have x: "0 \<le> loc ?x" "loc ?x \<le> loc ?y" using wb by (auto intro: loc_nonneg loc_mono)
    then have "0 \<le> loc (loc ?x / loc ?y) \<and> loc (loc ?x / loc ?y) \<le> 1"
      using y by (intro loc_range) (simp_all add: pos_divide_le_eq)
    then show ?thesis by (intro loc_percent) simp_all
  qed
  then show ?thesis by (simp add: rsv_def Let_def)
qed

lemma rsi_value_percent:
  assumes "0 \<le> gain" "0 \<le> loss"
  shows "0 \<le> rsi_value gain loss \<and> rsi_value gain loss \<le> 100"
proof -
  have "0 \<le> loc (100 - loc (100 / loc (1 + loc (gain / loss)))) \<and> loc (100 - loc (100 / loc (1 + loc (gain / loss)))) \<le> 100"
    if "loss \<noteq> 0"
  proof -
    have "0 \<le> loc (gain / loss)" using assms by (intro loc_nonneg) simp
    then have "1 \<le> loc (1 + loc (gain / loss))" using loc_mono [of 1 "1 + loc (gain / loss)"] by simp
    then have "0 \<le> loc (100 / loc (1 + loc (gain / loss))) \<and> loc (100 / loc (1 + loc (gain / loss))) \<le> 100"
      by (intro loc_percent) (simp_all add: pos_divide_le_eq)
    then show ?thesis by (intro loc_percent) simp_all
  qed
  then show ?thesis by (simp add: rsi_value_def)
qed

lemma loc_of_nat: "n < 10 ^ 34 \<Longrightarrow> loc (of_nat n) = of_nat n"
  using loc_of_int [of "int n"] by simp

lemma loc_percent_of: "0 \<le> x \<Longrightarrow> x \<le> 100 * of_nat n \<Longrightarrow> n < 10 ^ 32 \<Longrightarrow> 0 \<le> loc x \<and> loc x \<le> 100 * of_nat n"
  using loc_range [of 0 x "100 * of_nat n"] loc_of_nat [of "100 * n"] by simp

lemma mean_percent: "0 \<le> x \<Longrightarrow> x \<le> 100 * of_nat n \<Longrightarrow> 0 < n \<Longrightarrow> 0 \<le> loc (x / of_nat n) \<and> loc (x / of_nat n) \<le> 100"
  by (rule loc_percent) (simp_all add: pos_divide_le_eq)

lemma wilder_percent:
  assumes "0 \<le> x" "x \<le> 100" "0 \<le> y" "y \<le> 100" "0 < p" "p < 10 ^ 32"
  shows "0 \<le> wilder p x y \<and> wilder p x y \<le> 100"
proof -
  have "0 \<le> loc (x * of_nat (p - 1)) \<and> loc (x * of_nat (p - 1)) \<le> 100 * of_nat (p - 1)"
    using assms by (intro loc_percent_of mult_right_mono) auto
  moreover have "100 * of_nat (p - 1) + 100 = (100 * of_nat p :: rat)" using assms(5) by (simp add: of_nat_diff algebra_simps)
  ultimately have "0 \<le> loc (loc (x * of_nat (p - 1)) + y) \<and> loc (loc (x * of_nat (p - 1)) + y) \<le> 100 * of_nat p"
    using assms by (intro loc_percent_of) auto
  then show ?thesis unfolding wilder_def using assms(5) by (intro mean_percent) auto
qed

lemma dsum_percent:
  assumes "\<forall>x \<in> set xs. 0 \<le> x \<and> x \<le> 100" "length xs < 10 ^ 32"
  shows "0 \<le> dsum xs \<and> dsum xs \<le> 100 * of_nat (length xs)"
  using assms
proof (induction xs rule: rev_induct)
  case (snoc x xs)
  then have "0 \<le> dsum xs \<and> dsum xs \<le> 100 * of_nat (length xs)" by simp
  then have "0 \<le> loc (dsum xs + x) \<and> loc (dsum xs + x) \<le> 100 * of_nat (length (xs @ [x]))"
    using snoc.prems by (intro loc_percent_of) auto
  then show ?case by (simp add: dsum_def)
qed (simp add: dsum_def)

text \<open>All values that a computation leaves lie in a range.\<close>

definition in_range :: "rat \<Rightarrow> rat \<Rightarrow> rat option list result \<Rightarrow> bool" where
  "in_range a b r \<longleftrightarrow> (case r of Inl _ \<Rightarrow> True | Inr xs \<Rightarrow> list_all (\<lambda>x. case x of None \<Rightarrow> True | Some y \<Rightarrow> a \<le> y \<and> y \<le> b) xs)"

definition project :: "('a \<Rightarrow> rat) \<Rightarrow> 'a option list result \<Rightarrow> rat option list result" where
  "project f r = rbind r (\<lambda>xs. Inr (map (map_option f) xs))"

lemma in_range_project:
  "in_range a b (project f r) \<longleftrightarrow> (\<forall>xs i y. r = Inr xs \<longrightarrow> i < length xs \<longrightarrow> xs ! i = Some y \<longrightarrow> a \<le> f y \<and> f y \<le> b)"
  by (cases r) (auto simp: in_range_def project_def list_all_length split: option.splits)

lemma in_range_plain: "in_range a b r \<longleftrightarrow> (\<forall>xs i y. r = Inr xs \<longrightarrow> i < length xs \<longrightarrow> xs ! i = Some y \<longrightarrow> a \<le> y \<and> y \<le> b)"
  by (cases r) (auto simp: in_range_def list_all_length split: option.splits)

lemma rsi_in_range: "in_range 0 100 (rsi p bars)"
  unfolding in_range_plain
proof (intro allI impI)
  fix xs i y
  assume r: "rsi p bars = Inr xs" and i: "i < length xs" "xs ! i = Some y"
  from r have "scan (length bars) (rsi_step p bars) (0, 0) = Inr xs" by (auto simp: rsi_def result_simps)
  then have "length xs = length bars \<and> (\<forall>i < length bars. case xs ! i of None \<Rightarrow> True | Some y \<Rightarrow> 0 \<le> y \<and> y \<le> 100)"
  proof (rule scan_values [where I = "\<lambda>(g, l). 0 \<le> g \<and> 0 \<le> l"])
    have n: "0 \<le> gain_at bars j" "0 \<le> loss_at bars j" for j by (simp_all add: gain_at_def loss_at_def)
    have w: "0 \<le> wilder p a c" if "0 \<le> a" "0 \<le> c" for a c using that by (simp add: wilder_def loc_nonneg)
    have d: "0 \<le> loc (dsum (map (gain_at bars) js) / of_nat p)" "0 \<le> loc (dsum (map (loss_at bars) js) / of_nat p)" for js
      using n by (auto intro!: loc_nonneg divide_nonneg_nonneg dsum_nonneg simp: list_all_iff)
    show "(case snd (rsi_step p bars j s) of (g, l) \<Rightarrow> 0 \<le> g \<and> 0 \<le> l) \<and>
        (case fst (rsi_step p bars j s) of None \<Rightarrow> True | Some y \<Rightarrow> 0 \<le> y \<and> y \<le> 100)"
      if inv: "case s of (g, l) \<Rightarrow> 0 \<le> g \<and> 0 \<le> l" for j s
    proof -
      obtain a c where s: "s = (a, c)" "0 \<le> a" "0 \<le> c" using inv by (cases s) auto
      have "0 \<le> (if j = p then loc (dsum (map (gain_at bars) [1..<p + 1]) / of_nat p) else wilder p a (gain_at bars j))"
        "0 \<le> (if j = p then loc (dsum (map (loss_at bars) [1..<p + 1]) / of_nat p) else wilder p c (loss_at bars j))"
        using n w d s(2,3) by simp_all
      then show ?thesis using rsi_value_percent s by (simp add: rsi_step_def Let_def)
    qed
  qed simp
  then show "0 \<le> y \<and> y \<le> 100" using i by fastforce
qed

lemma stochastic_in_range:
  assumes bars: "\<forall>b \<in> set bars. daily_bar_ok b" and "d < 10 ^ 32"
  shows "in_range 0 100 (project fst (stochastic_oscillator k d bars))" "in_range 0 100 (project snd (stochastic_oscillator k d bars))"
proof -
  have "0 \<le> fst y \<and> fst y \<le> 100 \<and> 0 \<le> snd y \<and> snd y \<le> 100"
    if s: "stochastic_oscillator k d bars = Inr xs" and i: "i < length xs" "xs ! i = Some y" for xs i y
  proof -
    have p: "0 < k" "0 < d" using s by (auto simp: stochastic_oscillator_def require_positive_periods_def result_simps)
    have "points (length bars) (\<lambda>i. Inr (
         if i + 2 < k + d then None
         else Some (raw_k k bars i, loc (dsum (map (raw_k k bars) [i + 1 - d..<i + 1]) / of_nat d)))) = Inr xs"
      using s by (auto simp: stochastic_oscillator_def result_simps)
    from points_length [OF this] points_nth [OF this, of i] i have y: "i < length bars" "d \<le> i + 1"
        "y = (raw_k k bars i, loc (dsum (map (raw_k k bars) [i + 1 - d..<i + 1]) / of_nat d))"
      using p by (auto split: if_splits)
    have raw: "0 \<le> raw_k k bars j \<and> raw_k k bars j \<le> 100" if "j < i + 1" for j
      using raw_k_percent [OF p(1) _ bars] that y(1) by simp
    define js where "js = [i + 1 - d..<i + 1]"
    have js: "length js = d" "\<forall>j \<in> set js. j < i + 1" using y(2) p(2) by (simp_all add: js_def del: upt_Suc)
    have "0 \<le> dsum (map (raw_k k bars) js) \<and> dsum (map (raw_k k bars) js) \<le> 100 * of_nat (length (map (raw_k k bars) js))"
      by (rule dsum_percent) (use raw js assms(2) in auto)
    then show ?thesis using mean_percent [of "dsum (map (raw_k k bars) js)" d] p(2) raw [of i] js(1) unfolding y(3) js_def [symmetric] by simp
  qed
  then show "in_range 0 100 (project fst (stochastic_oscillator k d bars))" "in_range 0 100 (project snd (stochastic_oscillator k d bars))"
    unfolding in_range_project by blast+
qed

lemma williams_in_range:
  assumes bars: "\<forall>b \<in> set bars. daily_bar_ok b"
  shows "in_range (- 100) 0 (williams_r p bars)"
  unfolding in_range_plain
proof (intro allI impI)
  fix xs i y
  assume s: "williams_r p bars = Inr xs" and i: "i < length xs" "xs ! i = Some y"
  have p: "0 < p" using s by (auto simp: williams_r_def require_positive_periods_def result_simps)
  let ?w = "slice bars (i + 1 - p) (i + 1)"
  from s have "points (length bars) (\<lambda>i. Inr (
         if i + 1 < p then None
         else let window = slice bars (i + 1 - p) (i + 1); spread = loc (highest window - lowest window)
           in Some (if spread = 0 then - 50 else loc (loc (- 100 * loc (highest window - close_of (bars ! i))) / spread)))) = Inr xs"
    by (auto simp: williams_r_def result_simps)
  from points_length [OF this] points_nth [OF this, of i] i
  have y: "i < length bars" "y = (if loc (highest ?w - lowest ?w) = 0 then - 50
      else loc (loc (- 100 * loc (highest ?w - close_of (bars ! i))) / loc (highest ?w - lowest ?w)))"
    by (auto simp: Let_def split: if_splits)
  have m: "loc (loc (- 100 * loc x) / loc z) = - loc (loc (100 * loc x) / loc z)" for x z
    by (simp add: loc_minus)
  show "- 100 \<le> y \<and> y \<le> 0"
    using percent_of_spread [of "highest ?w - close_of (bars ! i)" "highest ?w - lowest ?w"] window_bounds [OF p y(1) bars]
    unfolding y(2) m by auto
qed

lemma kdj_in_range:
  assumes bars: "\<forall>b \<in> set bars. daily_bar_ok b" and "k < 10 ^ 32" "d < 10 ^ 32"
  shows "in_range 0 100 (project kdj_k (kdj p k d bars))" "in_range 0 100 (project kdj_d (kdj p k d bars))"
proof -
  have "0 \<le> kdj_k y \<and> kdj_k y \<le> 100 \<and> 0 \<le> kdj_d y \<and> kdj_d y \<le> 100"
    if s: "kdj p k d bars = Inr xs" and i: "i < length xs" "xs ! i = Some y" for xs i y
  proof -
    have p: "0 < p" "0 < k" "0 < d" using s by (auto simp: kdj_def require_positive_periods_def result_simps)
    from s have "scan (length bars) (kdj_step p k d bars) (50, 50) = Inr xs" by (auto simp: kdj_def result_simps)
    then have "length xs = length bars \<and> (\<forall>i < length bars. case xs ! i of None \<Rightarrow> True
        | Some y \<Rightarrow> 0 \<le> kdj_k y \<and> kdj_k y \<le> 100 \<and> 0 \<le> kdj_d y \<and> kdj_d y \<le> 100)"
    proof (rule scan_values [where I = "\<lambda>(x, z). 0 \<le> x \<and> x \<le> 100 \<and> 0 \<le> z \<and> z \<le> 100"])
      show "(case snd (kdj_step p k d bars j u) of (x, z) \<Rightarrow> 0 \<le> x \<and> x \<le> 100 \<and> 0 \<le> z \<and> z \<le> 100) \<and>
          (case fst (kdj_step p k d bars j u) of None \<Rightarrow> True
           | Some y \<Rightarrow> 0 \<le> kdj_k y \<and> kdj_k y \<le> 100 \<and> 0 \<le> kdj_d y \<and> kdj_d y \<le> 100)"
        if j: "j < length bars" and u: "case u of (x, z) \<Rightarrow> 0 \<le> x \<and> x \<le> 100 \<and> 0 \<le> z \<and> z \<le> 100" for j u
      proof -
        obtain x z where xz: "u = (x, z)" "0 \<le> x" "x \<le> 100" "0 \<le> z" "z \<le> 100" using u by (cases u) auto
        have k: "0 \<le> wilder k x (rsv p bars j) \<and> wilder k x (rsv p bars j) \<le> 100"
          using wilder_percent xz rsv_percent [OF p(1) j bars] p(2) assms(2) by blast
        then have "0 \<le> wilder d z (wilder k x (rsv p bars j)) \<and> wilder d z (wilder k x (rsv p bars j)) \<le> 100"
          using wilder_percent xz p(3) assms(3) by blast
        then show ?thesis using k xz by (simp add: kdj_step_def Let_def)
      qed
    qed simp
    then show ?thesis using i by fastforce
  qed
  then show "in_range 0 100 (project kdj_k (kdj p k d bars))" "in_range 0 100 (project kdj_d (kdj p k d bars))"
    unfolding in_range_project by blast+
qed

section \<open>Properties\<close>

text \<open>The correctly rounded means of the last \<open>p\<close> values of a field of the bars.\<close>

definition rounded_means :: "nat \<Rightarrow> (daily_bar \<Rightarrow> rat) \<Rightarrow> daily_bar list \<Rightarrow> rat option list" where
  "rounded_means p f bars =
     map (\<lambda>i. if i + 1 < p then None else Some (loc (sum_list (map f (slice bars (i + 1 - p) (i + 1))) / of_nat p))) [0..<length bars]"

lemma average_is_rounded_means:
  assumes "0 < p" "small_decimals k p (map f bars)"
  shows "simple_moving_average (map f bars) p = Inr (rounded_means p f bars)"
  using simple_moving_average_exact [OF assms(2,1)] by (simp add: rounded_means_def window_total_def map_slice)

text \<open>C23: the running sum of the moving averages is exact: for a price field, for the volumes and for the turnovers, if the values
  are decimals small enough for 34 digits (a bounded number of decimals and a bounded window total), the average at an index is the
  correctly rounded mean of the last \<open>p\<close> values, whatever the length of the history that the running sum has passed
  through; before \<open>p\<close> values there is none.\<close>

theorem moving_average_exact:
  assumes "0 < p"
  shows "(small_decimals k p (map (price_of field) bars) \<longrightarrow>
      moving_average p field bars = Inr (rounded_means p (price_of field) bars)) \<and>
    (small_decimals m p (map (\<lambda>b. of_int (b_volume b)) bars) \<longrightarrow>
      volume_average p bars = Inr (rounded_means p (\<lambda>b. of_int (b_volume b)) bars)) \<and>
    (small_decimals n p (map b_turnover bars) \<longrightarrow>
      amount_average p bars = Inr (rounded_means p b_turnover bars))"
  using assms average_is_rounded_means [OF assms]
  by (simp add: moving_average_def volume_average_def amount_average_def require_positive_periods_def result_simps)

definition price_bar :: "rat \<Rightarrow> rat \<Rightarrow> rat \<Rightarrow> daily_bar" where
  "price_bar l c h = \<lparr>b_instrument_id = ''300059.SZ'', b_session_date = 1, b_open = \<lparr>amount = c, currency = ''CNY''\<rparr>,
     b_high = \<lparr>amount = h, currency = ''CNY''\<rparr>, b_low = \<lparr>amount = l, currency = ''CNY''\<rparr>, b_close = \<lparr>amount = c, currency = ''CNY''\<rparr>,
     b_volume = 1000, b_turnover = 1000, b_available_at = 0, b_price_basis = UNADJUSTED, b_turnover_rate_pct = None,
     b_turnover_rate_provider = None, b_turnover_rate_methodology = None\<rparr>"

definition price_bars :: "daily_bar list" where
  "price_bars = [price_bar 9 10 11, price_bar 10 (101 / 10) 12, price_bar 10 (103 / 10) 11, price_bar 9 (98 / 10) 11]"

theorem moving_average_exact_witness:
  "moving_average 3 CLOSE price_bars = Inr (rounded_means 3 (price_of CLOSE) price_bars) \<and>
   volume_average 3 price_bars = Inr (rounded_means 3 (\<lambda>b. of_int (b_volume b)) price_bars) \<and>
   amount_average 3 price_bars = Inr (rounded_means 3 b_turnover price_bars)"
proof -
  have "\<forall>v \<in> set (map (price_of CLOSE) price_bars). v \<in> {of_int 100 / 10 ^ 1, of_int 101 / 10 ^ 1, of_int 103 / 10 ^ 1, of_int 98 / 10 ^ 1}"
    by (simp add: price_bars_def price_bar_def)
  moreover have "int (3 + 2) * \<bar>c\<bar> < 10 ^ 34" if "c \<in> {100, 101, 103, 98}" for c :: int using that by auto
  ultimately have "small_decimals 1 3 (map (price_of CLOSE) price_bars)" unfolding small_decimals_def by blast
  moreover have "small_decimals 0 3 (map (\<lambda>b. of_int (b_volume b)) price_bars)" "small_decimals 0 3 (map b_turnover price_bars)"
    unfolding small_decimals_def by (auto simp: price_bars_def price_bar_def intro!: exI [of _ 1000])
  ultimately show ?thesis
    using moving_average_exact [of 3 1 CLOSE price_bars 0 0] by simp
qed

text \<open>C24: the oscillators stay within their ranges although every intermediate result is rounded: RSI, both stochastic lines
  and the K and D lines of KDJ within 0 to 100, Williams' R within -100 to 0, for bars that satisfy the
  checks of their constructor.\<close>

theorem oscillators_in_range:
  assumes "\<forall>b \<in> set bars. daily_bar_ok b" and "s < 10 ^ 32" "d < 10 ^ 32"
  shows "in_range 0 100 (rsi p bars) \<and>
    in_range 0 100 (project fst (stochastic_oscillator p d bars)) \<and> in_range 0 100 (project snd (stochastic_oscillator p d bars)) \<and>
    in_range (- 100) 0 (williams_r p bars) \<and>
    in_range 0 100 (project kdj_k (kdj p s d bars)) \<and> in_range 0 100 (project kdj_d (kdj p s d bars))"
  using rsi_in_range stochastic_in_range [OF assms(1,3)] williams_in_range [OF assms(1)] kdj_in_range [OF assms] by blast

theorem oscillators_in_range_witness:
  "in_range 0 100 (rsi 2 price_bars) \<and> is_ok (rsi 2 price_bars) \<and> in_range 0 100 (project kdj_k (kdj 2 3 3 price_bars)) \<and>
   is_ok (kdj 2 3 3 price_bars)"
proof -
  have "list_all daily_bar_ok price_bars" by code_simp
  then have b: "\<forall>b \<in> set price_bars. daily_bar_ok b" by (simp add: list_all_iff)
  have "is_ok (rsi 2 price_bars)" "is_ok (kdj 2 3 3 price_bars)"
    using scan_ok by (simp_all add: rsi_def kdj_def require_positive_periods_def result_simps checks.simps)
  then show ?thesis using oscillators_in_range [OF b, of 3 3 2] by simp
qed

end
