(* ===== verification/PricePlans.thy ===== *)
theory PricePlans
  imports Timeseries MarketData Text
begin

text \<open>
  The bounded parameters of price plans, \<open>ashare_lab/domain/strategy/price_plans.py\<close>: grids, conditional
  orders and scheduled orders, the validators of their pydantic models, the geometry of a grid, and the
  defaults of new strategies.  Values are those of the fields after pydantic has parsed them; the model
  validators run after the field constraints, and \<open>model_copy\<close> runs none.  Messages that the source
  writes in Chinese are given in English.
\<close>

section \<open>Decimal operations of the plans\<close>

text \<open>\<open>x / 100\<close>\<close>

definition hundredth :: "rat \<Rightarrow> rat" where
  "hundredth x = ctx (x / 100)"

text \<open>\<open>x.quantize(Decimal("0.01"), rounding=...)\<close> for the rounding to an integer \<open>f\<close>.\<close>

definition quantize_by :: "(rat \<Rightarrow> int) \<Rightarrow> nat \<Rightarrow> rat \<Rightarrow> rat result" where
  "quantize_by f k x =
     (let c = f (x * 10 ^ k) in if 10 ^ 28 \<le> \<bar>c\<bar> then Inl DecimalInvalidOperation else Inr (of_int c / 10 ^ k))"

text \<open>
  \<open>base ** n\<close> with an integer exponent: repeated squaring from the leading bit with guard digits, one for
  every digit of the exponent and two more, and a last rounding to the context.
\<close>

fun pow_bits :: "nat \<Rightarrow> rat \<Rightarrow> nat \<Rightarrow> rat" where
  "pow_bits p b n =
     (if n \<le> 1 then (if n = 0 then 1 else b)
      else let r = pow_bits p b (n div 2); s = round_to p (r * r)
           in if odd n then round_to p (s * b) else s)"

declare pow_bits.simps [simp del]

definition dec_pow_nat :: "rat \<Rightarrow> nat \<Rightarrow> rat" where
  "dec_pow_nat b n = ctx (pow_bits (30 + ndigits n) b n)"

definition dec_pow_int :: "rat \<Rightarrow> int \<Rightarrow> rat" where
  "dec_pow_int b n =
     (let k = nat \<bar>n\<bar>; p = 30 + ndigits k
      in if 0 \<le> n then dec_pow_nat b k else ctx (pow_bits (p + 1) (round_to (p + 1) (1 / b)) k))"

text \<open>
  \<open>base ** y\<close>, for a positive base.  The value for a fractional exponent is the real power, rounded to
  the nearest decimal of the context.
\<close>

definition dec_pow_real :: "rat \<Rightarrow> rat \<Rightarrow> rat" where
  "dec_pow_real b y =
     (let z = (of_rat b :: real) powr of_rat y; e = \<lfloor>log 10 z\<rfloor> - 27
      in of_int \<lfloor>z / 10 powi e + 1 / 2\<rfloor> * 10 powi e)"

declare dec_pow_real_def [code del]

definition dec_pow :: "rat \<Rightarrow> rat \<Rightarrow> rat" where
  "dec_pow b y = (if of_int \<lfloor>y\<rfloor> = y then dec_pow_int b \<lfloor>y\<rfloor> else dec_pow_real b y)"

text \<open>\<open>getattr(self, name) or default\<close>: zero counts as missing.\<close>

definition or_else :: "rat option \<Rightarrow> rat \<Rightarrow> rat" where
  "or_else v d = (case v of None \<Rightarrow> d | Some x \<Rightarrow> if x = 0 then d else x)"

text \<open>\<open>Field(gt=.., le=..)\<close> and \<open>value % Decimal("0.01")\<close>.\<close>

definition out_of :: "rat \<Rightarrow> rat \<Rightarrow> rat \<Rightarrow> bool" where
  "out_of lo hi x \<longleftrightarrow> \<not> (lo < x \<and> x \<le> hi)"

definition below_or_above :: "rat \<Rightarrow> rat \<Rightarrow> rat \<Rightarrow> bool" where
  "below_or_above lo hi x \<longleftrightarrow> \<not> (lo \<le> x \<and> x \<le> hi)"

definition outside :: "int \<Rightarrow> int \<Rightarrow> int \<Rightarrow> bool" where
  "outside lo hi n \<longleftrightarrow> \<not> (lo \<le> n \<and> n \<le> hi)"

definition off_cent :: "rat option \<Rightarrow> bool" where
  "off_cent v \<longleftrightarrow> opt_any (\<lambda>x. \<not> on_grid 2 x) v"

section \<open>Grids\<close>

datatype plan_side = BuySide | SellSide
datatype anchor_mode = ANCHOR_MANUAL | ANCHOR_FIRST_OPEN | ANCHOR_LATEST_PRICE | ANCHOR_PREVIOUS_CLOSE
datatype plan_observation = OBS_DAILY_CLOSE | OBS_MINUTE_BAR
datatype anchor_update = UPDATE_FIXED | UPDATE_LAST_FILL | UPDATE_LAST_TRIGGER
datatype startup_mode = START_CATCH_UP | START_WAIT_FOR_CROSSING
datatype spacing_mode = SPACE_CNY | SPACE_ANCHOR_PERCENT | SPACE_PERCENT
datatype capital_scope = TOTAL_EQUITY | CASH_PLUS_OPENING_HOLDINGS
datatype grid_sizing = GRID_SHARES | GRID_AMOUNT
datatype grid_price_mode = NEXT_OPEN | GRID_LIMIT | FIXED_LIMIT

record grid_parameters =
  gp_anchor_mode :: anchor_mode
  gp_observation :: "plan_observation option"
  gp_anchor_price :: "rat option"
  gp_anchor_quote_source :: "string option"
  gp_anchor_quote_retrieved_at :: "string option"
  gp_anchor_quote_time_label :: "string option"
  gp_anchor_quote_response_sha256 :: "string option"
  gp_anchor_update :: anchor_update
  gp_startup_mode :: startup_mode
  gp_spacing_mode :: spacing_mode
  gp_spacing :: rat
  gp_buy_spacing :: "rat option"
  gp_sell_spacing :: "rat option"
  gp_buy_spacing_mode :: "spacing_mode option"
  gp_sell_spacing_mode :: "spacing_mode option"
  gp_lower_price :: rat
  gp_upper_price :: rat
  gp_range_percent :: "rat option"
  gp_levels_below :: "int option"
  gp_levels_above :: "int option"
  gp_sizing_mode :: grid_sizing
  gp_order_shares :: int
  gp_order_amount_cny :: rat
  gp_initial_shares :: int
  gp_opening_shares :: int
  gp_initial_capital_scope :: capital_scope
  gp_min_shares :: int
  gp_max_shares :: int
  gp_max_position_cny :: "rat option"
  gp_price_mode :: grid_price_mode
  gp_buy_limit :: "rat option"
  gp_sell_limit :: "rat option"
  gp_limit_offset_cny :: rat
  gp_initial_cash_cny :: rat
  gp_commission_rate :: rat
  gp_minimum_commission_cny :: rat
  gp_stamp_tax_rate :: rat
  gp_transfer_fee_rate :: rat
  gp_slippage_bps :: rat
  gp_slippage_cny :: rat

text \<open>The defaults of the fields; the bounds have none.\<close>

definition default_initial_cash_cny :: rat where
  "default_initial_cash_cny = 1000000"

definition default_scheduled_budget_cny :: rat where
  "default_scheduled_budget_cny = 10000"

definition default_grid :: "rat \<Rightarrow> rat \<Rightarrow> grid_parameters" where
  "default_grid lower upper =
     \<lparr>gp_anchor_mode = ANCHOR_MANUAL, gp_observation = None, gp_anchor_price = None, gp_anchor_quote_source = None,
      gp_anchor_quote_retrieved_at = None, gp_anchor_quote_time_label = None, gp_anchor_quote_response_sha256 = None,
      gp_anchor_update = UPDATE_FIXED, gp_startup_mode = START_CATCH_UP, gp_spacing_mode = SPACE_CNY, gp_spacing = 1,
      gp_buy_spacing = None, gp_sell_spacing = None, gp_buy_spacing_mode = None, gp_sell_spacing_mode = None,
      gp_lower_price = lower, gp_upper_price = upper, gp_range_percent = None, gp_levels_below = None,
      gp_levels_above = None, gp_sizing_mode = GRID_SHARES, gp_order_shares = 100, gp_order_amount_cny = 10000,
      gp_initial_shares = 0, gp_opening_shares = 0, gp_initial_capital_scope = TOTAL_EQUITY, gp_min_shares = 0,
      gp_max_shares = 10000, gp_max_position_cny = None, gp_price_mode = NEXT_OPEN, gp_buy_limit = None,
      gp_sell_limit = None, gp_limit_offset_cny = 0, gp_initial_cash_cny = default_initial_cash_cny,
      gp_commission_rate = 25 / 100000, gp_minimum_commission_cny = 5, gp_stamp_tax_rate = 5 / 10000,
      gp_transfer_fee_rate = 1 / 100000, gp_slippage_bps = 5, gp_slippage_cny = 0\<rparr>"

definition spacing_for :: "grid_parameters \<Rightarrow> plan_side \<Rightarrow> spacing_mode \<times> rat" where
  "spacing_for g side =
     (case side of
        BuySide \<Rightarrow> (case gp_buy_spacing_mode g of None \<Rightarrow> gp_spacing_mode g | Some m \<Rightarrow> m, or_else (gp_buy_spacing g) (gp_spacing g))
      | SellSide \<Rightarrow> (case gp_sell_spacing_mode g of None \<Rightarrow> gp_spacing_mode g | Some m \<Rightarrow> m, or_else (gp_sell_spacing g) (gp_spacing g)))"

definition asymmetric :: "grid_parameters \<Rightarrow> bool" where
  "asymmetric g \<longleftrightarrow> spacing_for g BuySide \<noteq> spacing_for g SellSide"

text \<open>The constraints of the account fields, which grids and conditional plans share.\<close>

definition account_field_checks ::
  "int \<Rightarrow> int \<Rightarrow> int \<Rightarrow> int \<Rightarrow> rat option \<Rightarrow> rat \<Rightarrow> rat \<Rightarrow> rat \<Rightarrow> rat \<Rightarrow> rat \<Rightarrow> (bool \<times> py_error) list" where
  "account_field_checks initial opening low high position cash commission minimum bps slip =
    [(outside 0 100000000 initial, ValueError ''initial_shares''),
     (outside 0 100000000 opening, ValueError ''opening_shares''),
     (outside 0 100000000 low, ValueError ''min_shares''),
     (outside 1 100000000 high, ValueError ''max_shares''),
     (opt_any (out_of 0 1000000000) position, ValueError ''max_position_cny''),
     (out_of 0 1000000000 cash, ValueError ''initial_cash_cny''),
     (below_or_above 0 (5 / 100) commission, ValueError ''commission_rate''),
     (below_or_above 0 1000 minimum, ValueError ''minimum_commission_cny''),
     (below_or_above 0 1000 bps, ValueError ''slippage_bps''),
     (slip < 0, ValueError ''slippage_cny'')]"

definition grid_field_checks :: "grid_parameters \<Rightarrow> (bool \<times> py_error) list" where
  "grid_field_checks g =
    [(opt_any (out_of 0 1000000) (gp_anchor_price g), ValueError ''anchor_price''),
     (out_of 0 1000000 (gp_spacing g), ValueError ''spacing''),
     (opt_any (out_of 0 1000000) (gp_buy_spacing g), ValueError ''buy_spacing''),
     (opt_any (out_of 0 1000000) (gp_sell_spacing g), ValueError ''sell_spacing''),
     (out_of 0 1000000 (gp_lower_price g), ValueError ''lower_price''),
     (out_of 0 1000000 (gp_upper_price g), ValueError ''upper_price''),
     (opt_any (\<lambda>x. \<not> (0 < x \<and> x < 100)) (gp_range_percent g), ValueError ''range_percent''),
     (opt_any (outside 1 10000) (gp_levels_below g), ValueError ''levels_below''),
     (opt_any (outside 1 10000) (gp_levels_above g), ValueError ''levels_above''),
     (outside 1 1000000 (gp_order_shares g), ValueError ''order_shares''),
     (out_of 0 1000000000 (gp_order_amount_cny g), ValueError ''order_amount_cny''),
     (opt_any (out_of 0 1000000) (gp_buy_limit g), ValueError ''buy_limit''),
     (opt_any (out_of 0 1000000) (gp_sell_limit g), ValueError ''sell_limit''),
     (below_or_above 0 10000 (gp_limit_offset_cny g), ValueError ''limit_offset_cny''),
     (below_or_above 0 (5 / 100) (gp_stamp_tax_rate g), ValueError ''stamp_tax_rate''),
     (below_or_above 0 (5 / 100) (gp_transfer_fee_rate g), ValueError ''transfer_fee_rate'')] @
    account_field_checks (gp_initial_shares g) (gp_opening_shares g) (gp_min_shares g) (gp_max_shares g)
      (gp_max_position_cny g) (gp_initial_cash_cny g) (gp_commission_rate g) (gp_minimum_commission_cny g)
      (gp_slippage_bps g) (gp_slippage_cny g)"

definition too_wide :: "spacing_mode \<times> rat \<Rightarrow> bool" where
  "too_wide p \<longleftrightarrow> fst p \<noteq> SPACE_CNY \<and> 100 \<le> snd p"

definition grid_checks :: "grid_parameters \<Rightarrow> (bool \<times> py_error) list" where
  "grid_checks g =
    [(\<not> gp_lower_price g < gp_upper_price g, ValueError ''grid upper bound must exceed lower bound''),
     (gp_anchor_mode g = ANCHOR_MANUAL \<and> gp_anchor_price g = None, ValueError ''manual anchor requires a price''),
     (gp_anchor_mode g = ANCHOR_MANUAL \<and> opt_any (\<lambda>a. \<not> (gp_lower_price g \<le> a \<and> a \<le> gp_upper_price g)) (gp_anchor_price g),
      ValueError ''anchor must lie within the grid''),
     (max (gp_initial_shares g) (gp_opening_shares g) > gp_max_shares g \<or> gp_min_shares g > gp_max_shares g,
      ValueError ''initial and minimum holdings must not exceed the maximum''),
     (gp_initial_shares g \<noteq> 0 \<and> gp_opening_shares g \<noteq> 0, ValueError ''initial build and opening holdings are exclusive''),
     (too_wide (spacing_for g BuySide) \<or> too_wide (spacing_for g SellSide), ValueError ''percentage spacing must be below 100''),
     (gp_price_mode g = FIXED_LIMIT \<and> (gp_buy_limit g = None \<or> gp_sell_limit g = None), ValueError ''fixed limits are required''),
     (list_ex off_cent [gp_anchor_price g, Some (gp_lower_price g), Some (gp_upper_price g), gp_buy_limit g, gp_sell_limit g,
        Some (gp_limit_offset_cny g)], ValueError ''prices must be exact to a cent'')]"

definition mk_grid :: "grid_parameters \<Rightarrow> grid_parameters result" where
  "mk_grid g = construct (\<lambda>g. checks (grid_field_checks g @ grid_checks g)) g"

definition validate_grid_buy_quantities :: "grid_parameters \<Rightarrow> int \<Rightarrow> int \<Rightarrow> unit result" where
  "validate_grid_buy_quantities g minimum increment =
     (let quantities = gp_initial_shares g # (if gp_sizing_mode g = GRID_SHARES then [gp_order_shares g] else [])
      in checks (map (\<lambda>q. (q \<noteq> 0 \<and> (q < minimum \<or> (q - minimum) mod increment \<noteq> 0),
           GridSpecificationError ''invalid grid buy quantity'')) quantities))"

section \<open>Geometry\<close>

definition resolved_anchor :: "grid_parameters \<Rightarrow> rat result" where
  "resolved_anchor g =
     (case gp_anchor_price g of
        None \<Rightarrow> Inl (GridSpecificationError ''the automatic anchor must be resolved from the first session'')
      | Some a \<Rightarrow> Inr a)"

text \<open>The distance of one grid line in money.\<close>

definition grid_step :: "spacing_mode \<Rightarrow> rat \<Rightarrow> rat \<Rightarrow> rat" where
  "grid_step mode spacing anchor = (if mode = SPACE_CNY then spacing else hundredth (dec_mul anchor spacing))"

definition grid_ratio :: "rat \<Rightarrow> rat" where
  "grid_ratio spacing = dec_add 1 (hundredth spacing)"

text \<open>The price of the outermost line when \<open>count\<close> lines are wanted on one side.\<close>

definition outer_edge :: "spacing_mode \<Rightarrow> rat \<Rightarrow> rat \<Rightarrow> plan_side \<Rightarrow> int \<Rightarrow> rat result" where
  "outer_edge mode spacing anchor side count =
     (if mode = SPACE_PERCENT then
        (let ratio = dec_pow_int (grid_ratio spacing) count
         in if side = BuySide then quot ctx anchor ratio else Inr (dec_mul anchor ratio))
      else
        (let reach = dec_mul (grid_step mode spacing anchor) (of_int count)
         in Inr (if side = BuySide then dec_sub anchor reach else dec_add anchor reach)))"

text \<open>One round of the loop over the two sides: the bound of the side moves to its outermost line.\<close>

definition levels_step :: "grid_parameters \<Rightarrow> rat \<Rightarrow> plan_side \<times> int option \<Rightarrow> rat \<times> rat \<Rightarrow> (rat \<times> rat) result" where
  "levels_step g anchor wanted bounds =
     (case wanted of
        (side, None) \<Rightarrow> Inr bounds
      | (side, Some count) \<Rightarrow>
          (case spacing_for g side of (mode, spacing) \<Rightarrow>
             rbind (outer_edge mode spacing anchor side count) (\<lambda>edge.
               if edge \<le> 0 then Inl (GridSpecificationError ''levels and spacing give a price that is not positive'')
               else if \<not> (fst bounds \<le> edge \<and> edge \<le> snd bounds) then
                 rbind (quantize_by (if side = BuySide then floor else ceiling) 2 edge) (\<lambda>_.
                   Inl (GridSpecificationError ''levels, spacing and price range conflict''))
               else Inr (if side = BuySide then (edge, snd bounds) else (fst bounds, edge)))))"

text \<open>The range in percent around the anchor cuts the bounds first.\<close>

definition percent_bounds :: "grid_parameters \<Rightarrow> rat \<Rightarrow> rat \<times> rat" where
  "percent_bounds g anchor =
     (case gp_range_percent g of
        None \<Rightarrow> (gp_lower_price g, gp_upper_price g)
      | Some r \<Rightarrow> (max (gp_lower_price g) (dec_mul anchor (dec_sub 1 (hundredth r))),
                  min (gp_upper_price g) (dec_mul anchor (dec_add 1 (hundredth r)))))"

definition resolve_geometry :: "grid_parameters \<Rightarrow> grid_parameters result" where
  "resolve_geometry g =
     (if gp_range_percent g = None \<and> gp_levels_below g = None \<and> gp_levels_above g = None then Inr g
      else
        rbind (resolved_anchor g) (\<lambda>anchor.
        rbind (fold_res (levels_step g anchor) [(BuySide, gp_levels_below g), (SellSide, gp_levels_above g)]
          (percent_bounds g anchor)) (\<lambda>(lower, upper).
        rbind (quantize_by floor 2 lower) (\<lambda>low.
        rbind (quantize_by ceiling 2 upper) (\<lambda>high.
          Inr (g\<lparr>gp_lower_price := max (1 / 100) low, gp_upper_price := high\<rparr>))))))"

definition for_side :: "grid_parameters \<Rightarrow> plan_side \<Rightarrow> grid_parameters" where
  "for_side g side =
     (case spacing_for g side of (mode, spacing) \<Rightarrow>
        g\<lparr>gp_spacing_mode := mode, gp_spacing := spacing, gp_buy_spacing := None, gp_sell_spacing := None,
          gp_buy_spacing_mode := None, gp_sell_spacing_mode := None\<rparr>)"

text \<open>Snapping of a distance that is an integer up to rounding.\<close>

definition snap :: "rat \<Rightarrow> rat" where
  "snap v = (let n = of_int (round_half_even v) in if ctx \<bar>dec_sub v n\<bar> < 1 / 10 ^ 20 then n else v)"

text \<open>How many lines a price lies below the anchor, within the bounds of the grid.\<close>

definition grid_distance :: "grid_parameters \<Rightarrow> rat \<Rightarrow> rat result" where
  "grid_distance g price =
     (case spacing_for g BuySide of (mode, spacing) \<Rightarrow>
        (let bounded = max (gp_lower_price g) (min (gp_upper_price g) price) in
         if mode \<noteq> SPACE_PERCENT then
           rbind (resolved_anchor g) (\<lambda>anchor. quot ctx (dec_sub anchor bounded) (grid_step mode spacing anchor))
         else
           rbind (resolved_anchor g) (\<lambda>anchor.
           rbind (quot ctx anchor bounded) (\<lambda>q.
           rbind (ln_to 28 q) (\<lambda>x.
           rbind (ln_to 28 (grid_ratio spacing)) (\<lambda>y.
           rbind (quot ctx x y) (\<lambda>v. Inr (snap v))))))))"

definition grid_line :: "grid_parameters \<Rightarrow> rat \<Rightarrow> rat result" where
  "grid_line g buy_distance =
     (case spacing_for g BuySide of (mode, spacing) \<Rightarrow>
        rbind (resolved_anchor g) (\<lambda>anchor.
          if mode \<noteq> SPACE_PERCENT then Inr (dec_sub anchor (dec_mul buy_distance (grid_step mode spacing anchor)))
          else quot ctx anchor (dec_pow (grid_ratio spacing) buy_distance)))"

section \<open>Conditions\<close>

datatype rule_kind =
    PRICE_RULE | REBOUND_RULE | PULLBACK_RULE | TAKE_PROFIT_RULE | STOP_LOSS_RULE | HOLDING_PERIOD_RULE | RELATIVE_PRICE_RULE
datatype direction = DirUp | DirDown
datatype price_comparison = INCLUSIVE | STRICT
datatype gap_unit = GAP_CNY | GAP_PERCENT
datatype rule_sizing = RULE_SHARES | RULE_AMOUNT | RULE_ALL_POSITION
datatype reference_mode = PREVIOUS_FILL | FIRST_OBSERVATION

record condition_rule =
  cr_kind :: rule_kind
  cr_side :: plan_side
  cr_direction :: direction
  cr_price_comparison :: price_comparison
  cr_target_price :: "rat option"
  cr_gap :: "rat option"
  cr_gap_unit :: gap_unit
  cr_quantity :: int
  cr_limit_price :: "rat option"
  cr_group :: "string option"
  cr_sessions :: "int option"
  cr_sizing_mode :: rule_sizing
  cr_amount_cny :: "rat option"
  cr_activation_price :: "rat option"
  cr_reference_mode :: reference_mode

definition default_rule :: "rule_kind \<Rightarrow> plan_side \<Rightarrow> condition_rule" where
  "default_rule kind side =
     \<lparr>cr_kind = kind, cr_side = side, cr_direction = DirUp, cr_price_comparison = INCLUSIVE, cr_target_price = None,
      cr_gap = None, cr_gap_unit = GAP_PERCENT, cr_quantity = 100, cr_limit_price = None, cr_group = None,
      cr_sessions = None, cr_sizing_mode = RULE_SHARES, cr_amount_cny = None, cr_activation_price = None,
      cr_reference_mode = PREVIOUS_FILL\<rparr>"

text \<open>
  The raw fields that the alias of the older indicator language touches.  \<open>threshold_pct\<close> has a precise unit:
  it becomes the gap in percent, and never a gap in money.
\<close>

record raw_rule =
  rr_kind :: "string option"
  rr_gap :: "rat option"
  rr_gap_unit :: "string option"
  rr_threshold_pct :: "rat option"

definition percentage_alias :: "raw_rule \<Rightarrow> raw_rule result" where
  "percentage_alias r =
     (case rr_threshold_pct r of
        None \<Rightarrow> Inr r
      | Some threshold \<Rightarrow>
          rbind (checks
           [(rr_kind r \<notin> Some ` set [''take_profit'', ''stop_loss'', ''rebound'', ''pullback'', ''relative_price''],
             ValueError ''this condition has no percentage gap''),
            (rr_gap_unit r \<notin> {None, Some ''percent''}, ValueError ''percentage field conflicts with a gap in yuan''),
            (opt_any (\<lambda>g. g \<noteq> threshold) (rr_gap r), ValueError ''repeated percentage gaps differ'')]) (\<lambda>_.
          Inr (r\<lparr>rr_threshold_pct := None, rr_gap := Some threshold, rr_gap_unit := Some ''percent''\<rparr>)))"

definition rule_field_checks :: "condition_rule \<Rightarrow> (bool \<times> py_error) list" where
  "rule_field_checks r =
    [(opt_any (out_of 0 1000000) (cr_target_price r), ValueError ''target_price''),
     (opt_any (out_of 0 1000000) (cr_gap r), ValueError ''gap''),
     (outside 1 1000000 (cr_quantity r), ValueError ''quantity''),
     (opt_any (out_of 0 1000000) (cr_limit_price r), ValueError ''limit_price''),
     (opt_any (\<lambda>g. g = [] \<or> 32 < length g) (cr_group r), ValueError ''group''),
     (opt_any (outside 1 10000) (cr_sessions r), ValueError ''sessions''),
     (opt_any (out_of 0 1000000000) (cr_amount_cny r), ValueError ''amount_cny''),
     (opt_any (out_of 0 1000000) (cr_activation_price r), ValueError ''activation_price'')]"

definition rule_checks :: "condition_rule \<Rightarrow> (bool \<times> py_error) list" where
  "rule_checks r =
    [(cr_price_comparison r = STRICT \<and> cr_kind r \<noteq> PRICE_RULE, ValueError ''strict comparison is for price conditions''),
     (cr_sizing_mode r = RULE_ALL_POSITION \<and> cr_side r \<noteq> SellSide, ValueError ''the whole position can only be sold''),
     (cr_kind r = PRICE_RULE \<and> cr_target_price r = None, ValueError ''a price condition requires a target''),
     (cr_kind r \<notin> {PRICE_RULE, HOLDING_PERIOD_RULE} \<and> cr_gap r = None, ValueError ''the condition requires a gap''),
     ((cr_kind r = REBOUND_RULE \<and> cr_side r \<noteq> BuySide) \<or> (cr_kind r = PULLBACK_RULE \<and> cr_side r \<noteq> SellSide),
      ValueError ''rebounds buy and pullbacks sell''),
     (cr_kind r \<in> {TAKE_PROFIT_RULE, STOP_LOSS_RULE, HOLDING_PERIOD_RULE} \<and> cr_side r \<noteq> SellSide,
      ValueError ''exits of a position sell''),
     (cr_kind r = HOLDING_PERIOD_RULE \<and> cr_sessions r = None, ValueError ''a holding period requires sessions''),
     (cr_sizing_mode r = RULE_AMOUNT \<and> cr_amount_cny r = None, ValueError ''an amount order requires an amount''),
     (cr_sizing_mode r = RULE_AMOUNT \<and> cr_kind r = HOLDING_PERIOD_RULE, ValueError ''a holding period sells shares''),
     (cr_activation_price r \<noteq> None \<and> cr_kind r \<notin> {REBOUND_RULE, PULLBACK_RULE},
      ValueError ''activation is for rebounds and pullbacks''),
     (cr_reference_mode r \<noteq> PREVIOUS_FILL \<and> cr_kind r \<noteq> RELATIVE_PRICE_RULE,
      ValueError ''the first observation is for relative conditions''),
     (cr_gap_unit r = GAP_PERCENT \<and> opt_any (\<lambda>g. 100 \<le> g) (cr_gap r) \<and>
        (cr_kind r \<in> {PULLBACK_RULE, STOP_LOSS_RULE} \<or> (cr_kind r = RELATIVE_PRICE_RULE \<and> cr_direction r = DirDown)),
      ValueError ''percentage gap must be below 100''),
     (list_ex off_cent [cr_target_price r, cr_limit_price r, cr_activation_price r,
        if cr_gap_unit r = GAP_CNY then cr_gap r else None], ValueError ''prices must be exact to a cent'')]"

definition mk_rule :: "condition_rule \<Rightarrow> condition_rule result" where
  "mk_rule r = construct (\<lambda>r. checks (rule_field_checks r @ rule_checks r)) r"

record condition_parameters =
  cp_observation :: plan_observation
  cp_rules :: "condition_rule list"
  cp_repeat_cycles :: int
  cp_initial_cash_cny :: rat
  cp_initial_shares :: int
  cp_opening_shares :: int
  cp_initial_capital_scope :: capital_scope
  cp_min_shares :: int
  cp_max_shares :: int
  cp_max_position_cny :: "rat option"
  cp_commission_rate :: rat
  cp_minimum_commission_cny :: rat
  cp_stamp_tax_rate :: rat
  cp_transfer_fee_rate :: rat
  cp_slippage_bps :: rat
  cp_slippage_cny :: rat

text \<open>Rules of one group stand next to each other.\<close>

fun groups_adjacent :: "string set \<Rightarrow> string option \<Rightarrow> condition_rule list \<Rightarrow> bool" where
  "groups_adjacent groups previous [] \<longleftrightarrow> True"
| "groups_adjacent groups previous (r # rs) \<longleftrightarrow>
     (case cr_group r of
        Some g \<Rightarrow> if cr_group r \<noteq> previous then g \<notin> groups \<and> groups_adjacent (insert g groups) (cr_group r) rs
                  else groups_adjacent groups (cr_group r) rs
      | None \<Rightarrow> groups_adjacent groups None rs)"

definition condition_checks :: "condition_parameters \<Rightarrow> (bool \<times> py_error) list" where
  "condition_checks p =
    (cp_rules p = [] \<or> 8 < length (cp_rules p), ValueError ''rules'') #
    (outside 1 1000 (cp_repeat_cycles p), ValueError ''repeat_cycles'') #
    (below_or_above 0 (5 / 100) (cp_stamp_tax_rate p), ValueError ''stamp_tax_rate'') #
    (below_or_above 0 (5 / 100) (cp_transfer_fee_rate p), ValueError ''transfer_fee_rate'') #
    account_field_checks (cp_initial_shares p) (cp_opening_shares p) (cp_min_shares p) (cp_max_shares p)
      (cp_max_position_cny p) (cp_initial_cash_cny p) (cp_commission_rate p) (cp_minimum_commission_cny p)
      (cp_slippage_bps p) (cp_slippage_cny p) @
    [(max (cp_initial_shares p) (cp_opening_shares p) > cp_max_shares p \<or> cp_min_shares p > cp_max_shares p,
      ValueError ''initial and minimum holdings must not exceed the maximum''),
     (cp_initial_shares p \<noteq> 0 \<and> cp_opening_shares p \<noteq> 0, ValueError ''initial build and opening holdings are exclusive''),
     (\<not> groups_adjacent {} None (cp_rules p), ValueError ''rules of a group must be adjacent'')]"

definition mk_conditions :: "condition_parameters \<Rightarrow> condition_parameters result" where
  "mk_conditions p = rbind (map_res mk_rule (cp_rules p)) (\<lambda>_. construct (\<lambda>p. checks (condition_checks p)) p)"

section \<open>Scheduled plans\<close>

datatype frequency = ONCE | WEEKLY | MONTHLY
datatype schedule_time = AT_OPEN | AT_CLOSE

text \<open>\<open>ss_budget_given\<close>: whether \<open>budget_cny\<close> is among \<open>model_fields_set\<close>.\<close>

record scheduled_parameters =
  sc_exit_rules :: "condition_rule list"
  sc_buy_on_start :: bool
  sc_frequency :: frequency
  sc_day :: int
  sc_at :: schedule_time
  sc_side :: plan_side
  sc_sizing_mode :: grid_sizing
  sc_quantity :: int
  sc_budget_cny :: rat
  sc_budget_given :: bool
  sc_limit_price :: "rat option"
  sc_initial_cash_cny :: rat
  sc_initial_shares :: int
  sc_min_shares :: int
  sc_max_shares :: int
  sc_max_position_cny :: "rat option"
  sc_commission_rate :: rat
  sc_minimum_commission_cny :: rat
  sc_slippage_bps :: rat
  sc_slippage_cny :: rat

definition scheduled_checks :: "scheduled_parameters \<Rightarrow> (bool \<times> py_error) list" where
  "scheduled_checks p =
    (8 < length (sc_exit_rules p), ValueError ''exit_rules'') #
    (outside 1 31 (sc_day p), ValueError ''day'') #
    (outside 1 1000000 (sc_quantity p), ValueError ''quantity'') #
    (out_of 0 1000000000 (sc_budget_cny p), ValueError ''budget_cny'') #
    (opt_any (out_of 0 1000000) (sc_limit_price p), ValueError ''limit_price'') #
    account_field_checks (sc_initial_shares p) 0 (sc_min_shares p) (sc_max_shares p)
      (sc_max_position_cny p) (sc_initial_cash_cny p) (sc_commission_rate p) (sc_minimum_commission_cny p)
      (sc_slippage_bps p) (sc_slippage_cny p) @
    [(sc_exit_rules p \<noteq> [] \<and> (sc_side p \<noteq> BuySide \<or> list_ex (\<lambda>r. cr_side r \<noteq> SellSide) (sc_exit_rules p)),
      ValueError ''exit rules sell what a schedule buys''),
     (sc_buy_on_start p \<and> (sc_side p \<noteq> BuySide \<or> sc_initial_shares p \<noteq> 0), ValueError ''a first purchase excludes an initial build''),
     (sc_frequency p = WEEKLY \<and> 7 < sc_day p, ValueError ''weekly days are 1 to 7''),
     (sc_side p = SellSide \<and> sc_sizing_mode p = GRID_AMOUNT, ValueError ''scheduled sales are in shares''),
     (sc_initial_shares p > sc_max_shares p \<or> sc_min_shares p > sc_max_shares p,
      ValueError ''initial and minimum holdings must not exceed the maximum''),
     (off_cent (sc_limit_price p), ValueError ''limits must be exact to a cent'')]"

definition mk_schedule :: "scheduled_parameters \<Rightarrow> scheduled_parameters result" where
  "mk_schedule p = rbind (map_res mk_rule (sc_exit_rules p)) (\<lambda>_. construct (\<lambda>p. checks (scheduled_checks p)) p)"

section \<open>Plans\<close>

datatype price_plan = GridPlan grid_parameters | ConditionalPlan condition_parameters | ScheduledPlan scheduled_parameters

text \<open>
  The loop over neighbouring rules: an ungrouped pair of take-profit and stop-loss sales becomes a group of its
  own.  The rules to the right see the group that the loop has just given.
\<close>

definition exit_pair :: "condition_rule \<Rightarrow> condition_rule \<Rightarrow> bool" where
  "exit_pair l r \<longleftrightarrow>
     {cr_kind l, cr_kind r} = {TAKE_PROFIT_RULE, STOP_LOSS_RULE} \<and> cr_side l = SellSide \<and> cr_side r = SellSide \<and>
     cr_group l = None \<and> cr_group r = None"

definition exit_group :: "nat \<Rightarrow> string" where
  "exit_group i = ''position_exit_'' @ show_nat (int i + 1)"

fun pair_exits :: "nat \<Rightarrow> condition_rule list \<Rightarrow> condition_rule list" where
  "pair_exits i (l # r # rs) =
     (if exit_pair l r
      then l\<lparr>cr_group := Some (exit_group i)\<rparr> # pair_exits (i + 1) (r\<lparr>cr_group := Some (exit_group i)\<rparr> # rs)
      else l # pair_exits (i + 1) (r # rs))"
| "pair_exits i rs = rs"

definition with_new_strategy_defaults :: "price_plan \<Rightarrow> price_plan" where
  "with_new_strategy_defaults plan =
     (case plan of
        ScheduledPlan p \<Rightarrow>
          if sc_sizing_mode p = GRID_AMOUNT \<and> \<not> sc_budget_given p
          then ScheduledPlan (p\<lparr>sc_budget_cny := default_scheduled_budget_cny, sc_budget_given := True\<rparr>) else plan
      | GridPlan g \<Rightarrow> if gp_observation g = None then GridPlan (g\<lparr>gp_observation := Some OBS_MINUTE_BAR\<rparr>) else plan
      | ConditionalPlan c \<Rightarrow> ConditionalPlan (c\<lparr>cp_rules := pair_exits 0 (cp_rules c)\<rparr>))"

end
