(* ===== verification/GridOrders.thy ===== *)
theory GridOrders
  imports PricePlans Analytics Portfolio
begin

text \<open>
  The intents of a daily grid, \<open>ashare_lab/application/grid_strategy.py\<close>: how a price between the lines
  of a grid becomes an order, and how an actual fill moves the grid.  The two adapted primitives are
  \<open>adapters/strategies/vnpy_grid.py\<close> and \<open>vnpy_conditions.py\<close>; the anchor of the previous close is
  \<open>application/grid_previous_close.py\<close>, the declared opening holdings \<open>application/opening_portfolio.py\<close>.
\<close>

section \<open>Calendar dates as text\<close>

definition year_of :: "date \<Rightarrow> int" where
  "year_of d =
     (let y = (d * 400) div 146097 + 1
      in if d \<le> days_before_year y then y - 1 else if days_before_year (y + 1) < d then y + 1 else y)"

definition month_of :: "date \<Rightarrow> int" where
  "month_of d =
     (let y = year_of d
      in int (length (filter (\<lambda>m. days_before_year y + days_before_month y m < d) [1, 2, 3, 4, 5, 6, 7, 8, 9, 10, 11, 12])))"

definition two_digits :: "int \<Rightarrow> string" where
  "two_digits n = (if n < 10 then CHR ''0'' # show_nat n else show_nat n)"

definition four_digits :: "int \<Rightarrow> string" where
  "four_digits n = (let s = show_nat n in replicate (4 - length s) CHR ''0'' @ s)"

text \<open>\<open>date.isoformat()\<close>\<close>

definition iso_date :: "date \<Rightarrow> string" where
  "iso_date d =
     (let y = year_of d; m = month_of d
      in four_digits y @ ''-'' @ two_digits m @ ''-'' @ two_digits (d - days_before_year y - days_before_month y m))"

section \<open>Adapted primitives\<close>

definition target_grid_change :: "rat \<Rightarrow> rat \<Rightarrow> rat" where
  "target_grid_change distance filled_grid_units =
     (let target_buy_volume = dec_sub (of_int \<lfloor>distance\<rfloor>) filled_grid_units;
          target_sell_volume = dec_sub filled_grid_units (of_int \<lceil>distance\<rceil>)
      in if 0 < target_buy_volume then target_buy_volume
         else if 0 < target_sell_volume then dec_neg target_sell_volume else 0)"

definition price_reached :: "rat \<Rightarrow> rat \<Rightarrow> direction \<Rightarrow> bool \<Rightarrow> bool" where
  "price_reached price target direction inclusive =
     (if \<not> inclusive then (if direction = DirUp then target < price else price < target)
      else (if direction = DirUp then target \<le> price else price \<le> target))"

definition trailing_price :: "rat \<Rightarrow> rat \<Rightarrow> gap_unit \<Rightarrow> direction \<Rightarrow> rat" where
  "trailing_price extreme gap unit direction =
     (let offset = (if unit = GAP_PERCENT then hundredth (dec_mul extreme gap) else gap)
      in if direction = DirUp then dec_add extreme offset else dec_sub extreme offset)"

section \<open>Orders\<close>

record grid_order =
  go_side :: plan_side
  go_quantity :: int
  go_grid_units :: rat
  go_signal_date :: date
  go_limit_price :: "rat option"
  go_initial :: bool
  go_baseline_units :: rat
  go_rule_id :: "string option"
  go_trigger_price :: "rat option"
  go_reference_price :: "rat option"
  go_amount_budget_cny :: "rat option"
  go_signal_at :: "datetime option"

definition rebase_side :: "price_rebase \<Rightarrow> rat option \<Rightarrow> plan_side \<Rightarrow> rat option result" where
  "rebase_side r v side = rebase_price r v (side = BuySide) (1 / 100)"

definition rebase_price_order :: "price_rebase \<Rightarrow> grid_order option \<Rightarrow> grid_order option result" where
  "rebase_price_order r pending =
     (case pending of
        None \<Rightarrow> Inr None
      | Some order \<Rightarrow>
          rbind (rebase_side r (go_limit_price order) (go_side order)) (\<lambda>limit.
          rbind (rebase_side r (go_trigger_price order) (go_side order)) (\<lambda>trigger.
            Inr (Some (order\<lparr>go_limit_price := limit, go_trigger_price := trigger,
              go_reference_price := map_option (\<lambda>p. dec_mul p (rb_factor r)) (go_reference_price order)\<rparr>)))))"

text \<open>The prices of the parameters in the price domain after the ex-date; a missing anchor is multiplied as \<open>None\<close>.\<close>

definition rebase_grid_parameters :: "price_rebase \<Rightarrow> grid_parameters \<Rightarrow> grid_parameters result" where
  "rebase_grid_parameters r g =
     (case gp_anchor_price g of
        None \<Rightarrow> Inl (TypeError ''unsupported operand type(s) for *'')
      | Some anchor \<Rightarrow>
          rbind (rebase_side r (gp_buy_limit g) BuySide) (\<lambda>buy_limit.
          rbind (rebase_side r (gp_sell_limit g) SellSide) (\<lambda>sell_limit.
            let scale = (\<lambda>x. dec_mul x (rb_factor r));
                money = (\<lambda>side v. if fst (spacing_for g side) = SPACE_CNY then map_option scale v else v)
            in Inr (g\<lparr>gp_anchor_price := Some (scale anchor), gp_lower_price := scale (gp_lower_price g),
                 gp_upper_price := scale (gp_upper_price g), gp_limit_offset_cny := scale (gp_limit_offset_cny g),
                 gp_buy_limit := buy_limit, gp_sell_limit := sell_limit,
                 gp_spacing := if gp_spacing_mode g = SPACE_CNY then scale (gp_spacing g) else gp_spacing g,
                 gp_buy_spacing := money BuySide (gp_buy_spacing g),
                 gp_sell_spacing := money SellSide (gp_sell_spacing g)\<rparr>))))"

definition buy_quantity :: "int \<Rightarrow> board \<Rightarrow> int" where
  "buy_quantity desired b =
     (case standard_buy_quantity_rule b of (minimum, increment) \<Rightarrow>
        if desired < minimum then 0 else minimum + (desired - minimum) div increment * increment)"

definition sell_quantity :: "int \<Rightarrow> int \<Rightarrow> board \<Rightarrow> int" where
  "sell_quantity desired held b = (if held \<le> desired then held else buy_quantity desired b)"

definition grid_limit :: "grid_parameters \<Rightarrow> plan_side \<Rightarrow> rat \<Rightarrow> rat option result" where
  "grid_limit g side change =
     (case gp_price_mode g of
        NEXT_OPEN \<Rightarrow> Inr None
      | FIXED_LIMIT \<Rightarrow> Inr (if side = BuySide then gp_buy_limit g else gp_sell_limit g)
      | GRID_LIMIT \<Rightarrow>
          rbind (grid_line g change) (\<lambda>line.
          rbind (quantize_by (if side = BuySide then floor else ceiling) 2
              (dec_add line (dec_mul (gp_limit_offset_cny g) (if side = BuySide then 1 else - 1)))) (\<lambda>price.
            Inr (Some (max (1 / 100) price)))))"

definition side_text :: "plan_side \<Rightarrow> string" where
  "side_text side = (case side of BuySide \<Rightarrow> ''buy'' | SellSide \<Rightarrow> ''sell'')"

definition grid_rule_id :: "date \<Rightarrow> plan_side \<Rightarrow> string" where
  "grid_rule_id session side = ''grid:'' @ iso_date session @ '':'' @ side_text side"

text \<open>The shares for a change of so many grid units.  The two callers divide at different places.\<close>

definition units_quantity :: "grid_parameters \<Rightarrow> rat \<Rightarrow> rat \<Rightarrow> int result" where
  "units_quantity g change price =
     (if gp_sizing_mode g = GRID_SHARES then Inr (py_int (dec_mul (ctx \<bar>change\<bar>) (of_int (gp_order_shares g))))
      else rbind (quot ctx (dec_mul (ctx \<bar>change\<bar>) (gp_order_amount_cny g)) price) (\<lambda>x. Inr (py_int x)))"

definition directional_quantity :: "grid_parameters \<Rightarrow> rat \<Rightarrow> rat \<Rightarrow> int result" where
  "directional_quantity g change price =
     rbind (if gp_sizing_mode g = GRID_SHARES then Inr (of_int (gp_order_shares g))
            else quot ctx (gp_order_amount_cny g) price) (\<lambda>one. Inr (py_int (dec_mul (ctx \<bar>change\<bar>) one)))"

definition amount_budget :: "grid_parameters \<Rightarrow> rat \<Rightarrow> rat option" where
  "amount_budget g change =
     (if gp_sizing_mode g = GRID_AMOUNT then Some (dec_mul (ctx \<bar>change\<bar>) (gp_order_amount_cny g)) else None)"

definition asymmetric_grid_order ::
  "grid_parameters \<Rightarrow> rat \<Rightarrow> date \<Rightarrow> board \<Rightarrow> rat \<Rightarrow> bool \<Rightarrow> grid_order option result" where
  "asymmetric_grid_order g price session b reference startup =
     (if price = reference then Inr None
      else
        let side = (if price < reference then BuySide else SellSide); h = for_side g side
        in rbind (grid_distance h reference) (\<lambda>d.
           rbind (if startup then
                    (let d' = of_int (if side = BuySide then \<lfloor>d\<rfloor> else \<lceil>d\<rceil>)
                     in rbind (grid_line h d') (\<lambda>line. Inr (d', line)))
                  else Inr (d, reference)) (\<lambda>(start, origin).
           rbind (grid_distance h price) (\<lambda>now.
             let change = target_grid_change (snap (dec_sub now start)) 0
             in if change = 0 then Inr None
                else
                  rbind (directional_quantity g change price) (\<lambda>q.
                  rbind (grid_limit h side (dec_add start change)) (\<lambda>limit.
                  rbind (grid_line h (dec_add start change)) (\<lambda>trigger.
                    Inr (Some \<lparr>go_side = side, go_quantity = buy_quantity q b, go_grid_units = change,
                      go_signal_date = session, go_limit_price = limit, go_initial = False, go_baseline_units = 0,
                      go_rule_id = Some (grid_rule_id session side), go_trigger_price = Some trigger,
                      go_reference_price = Some origin, go_amount_budget_cny = amount_budget g change,
                      go_signal_at = None\<rparr>))))))))"

text \<open>
  The order of a price.  \<open>startup\<close> is the distance of the first session while the grid waits for its first
  crossing; then nothing happens between two lines, and the grid starts from a whole line.
\<close>

definition startup_baseline :: "rat \<Rightarrow> rat option \<Rightarrow> rat \<Rightarrow> rat option" where
  "startup_baseline distance startup baseline =
     (case startup of
        None \<Rightarrow> Some baseline
      | Some s \<Rightarrow>
          let direction = target_grid_change distance s
          in if direction = 0 then None else Some (of_int (if 0 < direction then \<lfloor>s\<rfloor> else \<lceil>s\<rceil>)))"

definition symmetric_grid_order ::
  "grid_parameters \<Rightarrow> rat \<Rightarrow> date \<Rightarrow> rat \<Rightarrow> board \<Rightarrow> rat \<Rightarrow> rat option \<Rightarrow> grid_order option result" where
  "symmetric_grid_order g price session filled b baseline startup =
     rbind (grid_distance g price) (\<lambda>distance.
       case startup_baseline distance startup baseline of
         None \<Rightarrow> Inr None
       | Some base \<Rightarrow>
           let change = target_grid_change distance (dec_add filled base)
           in if change = 0 then Inr None
              else
                let side = (if 0 < change then BuySide else SellSide)
                in rbind (units_quantity g change price) (\<lambda>q.
                   rbind (grid_limit g side (dec_add (dec_add base filled) change)) (\<lambda>limit.
                   rbind (grid_line g (dec_add (dec_add base filled) change)) (\<lambda>trigger.
                   rbind (resolved_anchor g) (\<lambda>anchor.
                     Inr (Some \<lparr>go_side = side, go_quantity = buy_quantity q b, go_grid_units = change,
                       go_signal_date = session, go_limit_price = limit, go_initial = False, go_baseline_units = base,
                       go_rule_id = Some (grid_rule_id session side), go_trigger_price = Some trigger,
                       go_reference_price = Some anchor, go_amount_budget_cny = amount_budget g change,
                       go_signal_at = None\<rparr>))))))"

definition grid_order_for ::
  "grid_parameters \<Rightarrow> rat \<Rightarrow> date \<Rightarrow> rat \<Rightarrow> board \<Rightarrow> rat \<Rightarrow> rat option \<Rightarrow> rat option \<Rightarrow> grid_order option result" where
  "grid_order_for g price session filled b baseline startup reference =
     (if price < gp_lower_price g \<or> gp_upper_price g < price then Inr None
      else if asymmetric g then
        rbind (case reference of Some r \<Rightarrow> if r = 0 then resolved_anchor g else Inr r | None \<Rightarrow> resolved_anchor g)
          (\<lambda>r. asymmetric_grid_order g price session b r (startup \<noteq> None))
      else symmetric_grid_order g price session filled b baseline startup)"

text \<open>A fill moves the grid by the executed share of its units; in the mode of the last fill the anchor follows the price.\<close>

record grid_position =
  gx_parameters :: grid_parameters
  gx_baseline :: rat
  gx_units :: rat
  gx_reference :: rat

definition executed_units :: "grid_order \<Rightarrow> int \<Rightarrow> rat" where
  "executed_units order quantity = ctx (dec_mul (go_grid_units order) (of_int quantity) / of_int (go_quantity order))"

definition advance_grid_fill :: "grid_parameters \<Rightarrow> grid_order \<Rightarrow> int \<Rightarrow> rat \<Rightarrow> rat \<Rightarrow> rat \<Rightarrow> grid_position result" where
  "advance_grid_fill g order quantity price filled reference =
     (if go_initial order \<or> \<not> (0 < quantity \<and> quantity \<le> go_quantity order)
      then Inl (ValueError ''daily grid advancement requires an actual grid fill'')
      else
        let units = dec_add filled (executed_units order quantity)
        in rbind (if asymmetric g then
                    (let h = for_side g (go_side order)
                     in rbind (grid_distance h reference) (\<lambda>d. grid_line h (dec_add d (executed_units order quantity))))
                  else Inr reference) (\<lambda>r.
             if gp_anchor_update g = UPDATE_LAST_FILL
             then Inr \<lparr>gx_parameters = g\<lparr>gp_anchor_price := Some price\<rparr>, gx_baseline = 0, gx_units = 0, gx_reference = price\<rparr>
             else Inr \<lparr>gx_parameters = g, gx_baseline = go_baseline_units order, gx_units = units, gx_reference = r\<rparr>))"

section \<open>Anchors and opening holdings\<close>

text \<open>The rows of a daily history as far as the anchor needs them: date and raw close.\<close>

definition bind_previous_close ::
  "grid_parameters \<Rightarrow> date \<Rightarrow> date \<Rightarrow> bool \<Rightarrow> (date \<times> rat) list \<Rightarrow> date list \<Rightarrow> grid_parameters result" where
  "bind_previous_close g start end matches closes sessions =
     (if gp_anchor_mode g \<noteq> ANCHOR_PREVIOUS_CLOSE then Inr g
      else
        let days = sort (remdups sessions);
            missing = Inl (GridSpecificationError ''no matching calendar or instrument for the previous close'')
        in (case find (\<lambda>d. start \<le> d \<and> d \<le> end) days of
              None \<Rightarrow> missing
            | Some first \<Rightarrow>
                (case find (\<lambda>d. d < first) (rev days) of
                   None \<Rightarrow> missing
                 | Some previous \<Rightarrow>
                     if \<not> matches then missing
                     else (case filter (\<lambda>r. fst r = previous) closes of
                             [row] \<Rightarrow>
                               if snd row \<le> 0 then Inl (GridSpecificationError ''no valid previous close'')
                               else mk_grid (g\<lparr>gp_anchor_price := Some (snd row),
                                 gp_anchor_quote_source := Some ''historical_daily_raw_close'',
                                 gp_anchor_quote_time_label := Some (iso_date previous),
                                 gp_anchor_quote_retrieved_at := None, gp_anchor_quote_response_sha256 := None\<rparr>)
                           | _ \<Rightarrow> Inl (GridSpecificationError ''no valid previous close'')))))"

end
