(* ===== verification/ConditionalOrders.thy ===== *)
theory ConditionalOrders
  imports GridOrders
begin

text \<open>
  The signal policy of conditional plans, \<open>ConditionalOrderPolicy\<close> in
  \<open>ashare_lab/application/conditional_orders.py\<close>: a state machine over the rules of a plan.  Neighbouring rules
  of one group race: the first trigger locks the stage.  Only actual fills finish a stage, and only finished
  stages move the machine on.  A method is a function from the state to the state and the returned value;
  the lists of observations and of cancelled rules are part of the state.
\<close>

section \<open>State\<close>

record price_context =
  px_shares :: int
  px_settled_shares :: int
  px_average_entry_price :: "rat option"
  px_holding_sessions :: "int option"
  px_holding_batches :: "(int \<times> int) list"

record observation =
  ob_rule_index :: nat
  ob_cycle :: int
  ob_kind :: rule_kind
  ob_date :: date
  ob_price :: "rat option"
  ob_trigger_price :: "rat option"
  ob_reference_price :: "rat option"
  ob_extreme :: "rat option"
  ob_rule_id :: string

record budget_residual =
  br_rule_id :: "string option"
  br_cancelled_quantity :: int
  br_unspent_amount_cny :: rat
  br_reference_fill_price :: rat

record terminal_order =
  to_rule_id :: "string option"
  to_date :: date
  to_reason :: string
  to_disposition :: string
  to_unfilled_quantity :: int

record cond_policy =
  pl_rules :: "condition_rule list"
  pl_minimum_shares :: int
  pl_repeat_cycles :: int
  pl_cycles :: int
  pl_index :: nat
  pl_remaining :: int
  pl_pending :: "grid_order option"
  pl_extremes :: "nat \<Rightarrow> rat option"
  pl_observations :: "observation list"
  pl_cancelled :: "(int \<times> nat) list"
  pl_last_fill_price :: "rat option"
  pl_first_observation_price :: "rat option"
  pl_stage_notional :: rat
  pl_stage_quantity :: int
  pl_holding_target_remaining :: int
  pl_amount_remaining :: "rat option"
  pl_initial_notional :: rat
  pl_initial_quantity :: int
  pl_minimum_quantity :: int
  pl_budget_residuals :: "budget_residual list"
  pl_selected_rule :: "nat option"
  pl_selected_stage_end :: "nat option"
  pl_terminal :: "terminal_order option"

definition initial_policy :: "condition_rule list \<Rightarrow> int \<Rightarrow> int \<Rightarrow> cond_policy" where
  "initial_policy rules repeat_cycles minimum_shares =
     \<lparr>pl_rules = rules, pl_minimum_shares = minimum_shares, pl_repeat_cycles = repeat_cycles, pl_cycles = 0, pl_index = 0,
      pl_remaining = 0, pl_pending = None, pl_extremes = (\<lambda>_. None), pl_observations = [], pl_cancelled = [],
      pl_last_fill_price = None, pl_first_observation_price = None, pl_stage_notional = 0, pl_stage_quantity = 0,
      pl_holding_target_remaining = 0, pl_amount_remaining = None, pl_initial_notional = 0, pl_initial_quantity = 0,
      pl_minimum_quantity = 100, pl_budget_residuals = [], pl_selected_rule = None, pl_selected_stage_end = None,
      pl_terminal = None\<rparr>"

text \<open>\<open>_stage()\<close>: the rules from the index to the end of its group.\<close>

definition stage_end :: "condition_rule list \<Rightarrow> nat \<Rightarrow> nat" where
  "stage_end rules i =
     (case cr_group (rules ! i) of
        None \<Rightarrow> i + 1
      | Some g \<Rightarrow> i + 1 + length (takeWhile (\<lambda>r. cr_group r = Some g) (drop (i + 1) rules)))"

definition stage_rules :: "cond_policy \<Rightarrow> nat list" where
  "stage_rules p = [pl_index p ..< stage_end (pl_rules p) (pl_index p)]"

text \<open>The rules that are watched: the locked one, or the whole stage.\<close>

definition watched_rules :: "cond_policy \<Rightarrow> nat list" where
  "watched_rules p = (case pl_selected_rule p of Some i \<Rightarrow> [i] | None \<Rightarrow> stage_rules p)"

definition watched_rule :: "cond_policy \<Rightarrow> nat \<Rightarrow> condition_rule" where
  "watched_rule p i = pl_rules p ! i"

definition emit_order :: "cond_policy \<Rightarrow> grid_order option" where
  "emit_order p =
     map_option (\<lambda>o'. o'\<lparr>go_quantity := pl_remaining p, go_amount_budget_cny := pl_amount_remaining p\<rparr>) (pl_pending p)"

section \<open>Arming a rule\<close>

definition arm_quantity :: "condition_rule \<Rightarrow> rat option \<Rightarrow> board \<Rightarrow> int option \<Rightarrow> int result" where
  "arm_quantity r price b override =
     rbind (if cr_sizing_mode r = RULE_AMOUNT
            then (case (price, cr_amount_cny r) of
                    (Some x, Some a) \<Rightarrow> rbind (quot ctx a x) (\<lambda>n. Inr (buy_quantity (py_int n) b))
                  | _ \<Rightarrow> Inl AssertionError)
            else Inr (cr_quantity r)) (\<lambda>quantity.
       Inr (case override of
              None \<Rightarrow> quantity
            | Some n \<Rightarrow> if cr_sizing_mode r = RULE_ALL_POSITION then n else min quantity n))"

definition cycle_rule_id :: "cond_policy \<Rightarrow> nat \<Rightarrow> string" where
  "cycle_rule_id p i = ''cycle-'' @ show_int (pl_cycles p + 1) @ '':rule-'' @ show_nat (int i + 1)"

definition armed_order :: "cond_policy \<Rightarrow> nat \<Rightarrow> int \<Rightarrow> rat option \<Rightarrow> rat option \<Rightarrow> date \<Rightarrow> grid_order" where
  "armed_order p i quantity target reference session =
     (let r = watched_rule p i
      in \<lparr>go_side = cr_side r, go_quantity = quantity, go_grid_units = 0, go_signal_date = session,
          go_limit_price = cr_limit_price r, go_initial = False, go_baseline_units = 0,
          go_rule_id = Some (cycle_rule_id p i), go_trigger_price = target, go_reference_price = reference,
          go_amount_budget_cny = (if cr_sizing_mode r = RULE_AMOUNT then cr_amount_cny r else None),
          go_signal_at = Some (combine session (if cr_kind r = HOLDING_PERIOD_RULE then hm 9 30 else hm 15 0))\<rparr>)"

definition arm_rule ::
  "cond_policy \<Rightarrow> nat \<Rightarrow> rat option \<Rightarrow> rat option \<Rightarrow> rat option \<Rightarrow> date \<Rightarrow> board \<Rightarrow> int option \<Rightarrow>
   (cond_policy \<times> grid_order option) result" where
  "arm_rule p i price target reference session b override =
     rbind (arm_quantity (watched_rule p i) price b override) (\<lambda>quantity.
       if override \<noteq> None \<and> quantity \<le> 0 then Inr (p, None)
       else
         let r = watched_rule p i;
             p' = p\<lparr>pl_selected_stage_end :=
                      (if pl_selected_stage_end p = None then Some (stage_end (pl_rules p) (pl_index p)) else pl_selected_stage_end p),
                    pl_selected_rule := Some i, pl_remaining := quantity,
                    pl_minimum_quantity := fst (standard_buy_quantity_rule b),
                    pl_amount_remaining := (if cr_sizing_mode r = RULE_AMOUNT then cr_amount_cny r else None),
                    pl_pending := Some (armed_order p i quantity target reference session),
                    pl_observations := pl_observations p @
                      [\<lparr>ob_rule_index = i, ob_cycle = pl_cycles p + 1, ob_kind = cr_kind r, ob_date = session, ob_price = price,
                        ob_trigger_price = target, ob_reference_price = reference, ob_extreme = pl_extremes p i,
                        ob_rule_id = cycle_rule_id p i\<rparr>],
                    pl_cancelled := pl_cancelled p @
                      map (\<lambda>j. (pl_cycles p + 1, j)) (filter (\<lambda>j. j \<noteq> i) (stage_rules p))\<rparr>
         in Inr (p', emit_order p'))"

section \<open>The opening of a session\<close>

text \<open>The shares of the batches that have been held long enough.\<close>

definition due_shares :: "condition_rule \<Rightarrow> price_context \<Rightarrow> int" where
  "due_shares r c =
     (case cr_sessions r of
        None \<Rightarrow> 0
      | Some n \<Rightarrow> sum_list (map snd (filter (\<lambda>(age, shares). n \<le> age) (px_holding_batches c))))"

definition reopened_order :: "cond_policy \<Rightarrow> price_context \<Rightarrow> cond_policy \<times> grid_order option" where
  "reopened_order p c =
     (case pl_selected_rule p of
        Some i \<Rightarrow>
          (let r = watched_rule p i in
           if cr_kind r = HOLDING_PERIOD_RULE then
             let due = due_shares r c;
                 due' = (if cr_sizing_mode r = RULE_ALL_POSITION then min due (pl_holding_target_remaining p) else due);
                 p' = p\<lparr>pl_remaining := min (pl_remaining p) due'\<rparr>
             in if pl_remaining p' = 0 then (p'\<lparr>pl_pending := None\<rparr>, None) else (p', emit_order p')
           else (p, emit_order p))
      | None \<Rightarrow> (p, emit_order p))"

definition holding_due :: "cond_policy \<Rightarrow> price_context \<Rightarrow> nat \<Rightarrow> bool" where
  "holding_due p c i \<longleftrightarrow> cr_kind (watched_rule p i) = HOLDING_PERIOD_RULE \<and> 0 < due_shares (watched_rule p i) c"

definition on_open :: "cond_policy \<Rightarrow> date \<Rightarrow> board \<Rightarrow> price_context \<Rightarrow> (cond_policy \<times> grid_order option) result" where
  "on_open p0 session b c =
     (let p = p0\<lparr>pl_holding_target_remaining := max 0 (px_shares c - pl_minimum_shares p0)\<rparr> in
      if pl_terminal p \<noteq> None then Inr (p, None)
      else if pl_pending p \<noteq> None then Inr (reopened_order p c)
      else if length (pl_rules p) \<le> pl_index p then Inr (p, None)
      else
        (case find (holding_due p c) (watched_rules p) of
           None \<Rightarrow> Inr (p, None)
         | Some i \<Rightarrow>
             let r = watched_rule p i
             in arm_rule p i None None (px_average_entry_price c) session b
                  (Some (min (due_shares r c)
                    (if cr_sizing_mode r = RULE_ALL_POSITION then pl_holding_target_remaining p
                     else cr_quantity r - pl_stage_quantity p)))))"

section \<open>The close of a session\<close>

text \<open>
  The extreme of a rebound or pullback: it starts when its activation price is reached and then follows the
  closes.  \<open>None\<close> is the \<open>continue\<close> of a rule that is not activated.
\<close>

definition next_extreme :: "cond_policy \<Rightarrow> nat \<Rightarrow> rat \<Rightarrow> rat option" where
  "next_extreme p i price =
     (let r = watched_rule p i in
      case pl_extremes p i of
        Some e \<Rightarrow> Some (if cr_kind r = REBOUND_RULE then min e price else max e price)
      | None \<Rightarrow>
          if opt_any (\<lambda>a. \<not> price_reached price a (if cr_kind r = REBOUND_RULE then DirDown else DirUp) True) (cr_activation_price r)
          then None else Some price)"

definition trails :: "condition_rule \<Rightarrow> bool" where
  "trails r \<longleftrightarrow> cr_kind r \<in> {REBOUND_RULE, PULLBACK_RULE}"

definition observed_extremes :: "cond_policy \<Rightarrow> nat \<Rightarrow> rat \<Rightarrow> cond_policy" where
  "observed_extremes p i price =
     (if trails (watched_rule p i)
      then (case next_extreme p i price of
              None \<Rightarrow> p
            | Some e \<Rightarrow> p\<lparr>pl_extremes := (pl_extremes p)(i := Some e)\<rparr>)
      else p)"

text \<open>The reference a rule measures its gap from; \<open>None\<close> skips the rule.\<close>

definition rule_reference :: "cond_policy \<Rightarrow> price_context \<Rightarrow> nat \<Rightarrow> rat option" where
  "rule_reference p c i =
     (let r = watched_rule p i in
      if trails r then pl_extremes p i
      else if cr_kind r \<in> {TAKE_PROFIT_RULE, STOP_LOSS_RULE} then
        (if px_shares c = 0 then None else px_average_entry_price c)
      else if cr_kind r = RELATIVE_PRICE_RULE then
        (if cr_reference_mode r = FIRST_OBSERVATION then pl_first_observation_price p else pl_last_fill_price p)
      else None)"

definition rule_direction :: "condition_rule \<Rightarrow> direction" where
  "rule_direction r =
     (if cr_kind r = REBOUND_RULE \<or> cr_kind r = TAKE_PROFIT_RULE then DirUp
      else if cr_kind r = PULLBACK_RULE \<or> cr_kind r = STOP_LOSS_RULE then DirDown
      else cr_direction r)"

definition rule_target :: "condition_rule \<Rightarrow> rat option \<Rightarrow> rat result" where
  "rule_target r reference =
     (case reference of
        Some x \<Rightarrow> (case cr_gap r of Some g \<Rightarrow> Inr (trailing_price x g (cr_gap_unit r) (rule_direction r)) | None \<Rightarrow> Inl AssertionError)
      | None \<Rightarrow> (case cr_target_price r of Some t \<Rightarrow> Inr t | None \<Rightarrow> Inl AssertionError))"

definition rule_triggers :: "condition_rule \<Rightarrow> rat \<Rightarrow> rat \<Rightarrow> bool" where
  "rule_triggers r price target \<longleftrightarrow>
     0 < target \<and> price_reached price target (rule_direction r) (cr_kind r \<noteq> PRICE_RULE \<or> cr_price_comparison r = INCLUSIVE)"

text \<open>The loop over the watched rules.\<close>

fun close_loop ::
  "cond_policy \<Rightarrow> rat \<Rightarrow> date \<Rightarrow> board \<Rightarrow> price_context \<Rightarrow> nat list \<Rightarrow> (cond_policy \<times> grid_order option) result" where
  "close_loop p price session b c [] = Inr (p, None)"
| "close_loop p price session b c (i # is) =
     (let r = watched_rule p i; p' = observed_extremes p i price; reference = rule_reference p' c i in
      if cr_kind r = HOLDING_PERIOD_RULE \<or> (cr_kind r \<noteq> PRICE_RULE \<and> reference = None)
      then close_loop p' price session b c is
      else
        rbind (rule_target r reference) (\<lambda>target.
          if \<not> rule_triggers r price target then close_loop p' price session b c is
          else arm_rule p' i (Some price) (Some target) reference session b
                 (if cr_sizing_mode r = RULE_ALL_POSITION then Some (max 0 (px_shares c - pl_minimum_shares p')) else None)))"

definition on_close :: "cond_policy \<Rightarrow> rat \<Rightarrow> date \<Rightarrow> board \<Rightarrow> price_context \<Rightarrow> (cond_policy \<times> grid_order option) result" where
  "on_close p0 price session b c =
     (let p = p0\<lparr>pl_first_observation_price :=
                (if pl_first_observation_price p0 = None then Some price else pl_first_observation_price p0)\<rparr> in
      if pl_terminal p \<noteq> None then Inr (p, None)
      else if pl_pending p \<noteq> None then Inr (p, emit_order p)
      else if length (pl_rules p) \<le> pl_index p then Inr (p, None)
      else close_loop p price session b c (watched_rules p))"

section \<open>Session ends, fills and ex-dates\<close>

definition on_session_end :: "cond_policy \<Rightarrow> grid_order \<Rightarrow> date \<Rightarrow> string \<Rightarrow> cond_policy \<times> string option" where
  "on_session_end p order session reason =
     (case (pl_pending p, pl_selected_rule p) of
        (Some _, Some i) \<Rightarrow>
          if 0 < pl_remaining p \<and> cr_kind (watched_rule p i) \<in> {TAKE_PROFIT_RULE, STOP_LOSS_RULE, HOLDING_PERIOD_RULE}
          then (p, Some ''retry_next_session'')
          else
            let disposition = (if go_limit_price order \<noteq> None then ''expired_day'' else ''ended'')
            in (p\<lparr>pl_terminal := Some \<lparr>to_rule_id = go_rule_id order, to_date = session, to_reason = reason,
                   to_disposition = disposition, to_unfilled_quantity = pl_remaining p\<rparr>,
                 pl_pending := None, pl_remaining := 0\<rparr>, Some disposition)
      | _ \<Rightarrow> (p, None))"

text \<open>The money part of a fill: a remainder that cannot buy another minimum declaration is given up.\<close>

definition spend_budget :: "cond_policy \<Rightarrow> grid_order \<Rightarrow> int \<Rightarrow> rat \<Rightarrow> cond_policy" where
  "spend_budget p order quantity price =
     (case pl_amount_remaining p of
        None \<Rightarrow> p
      | Some a \<Rightarrow>
          let a' = dec_sub a (dec_mul (of_int quantity) price); p' = p\<lparr>pl_amount_remaining := Some a'\<rparr>
          in if 0 < pl_remaining p \<and> a' < dec_mul (of_int (pl_minimum_quantity p)) price
             then p'\<lparr>pl_budget_residuals := pl_budget_residuals p @
                      [\<lparr>br_rule_id = go_rule_id order, br_cancelled_quantity = pl_remaining p, br_unspent_amount_cny = a',
                        br_reference_fill_price = price\<rparr>],
                    pl_remaining := 0\<rparr>
             else p')"

text \<open>A holding period whose batches come due one after the other is not finished by one full order.\<close>

definition more_batches :: "cond_policy \<Rightarrow> bool" where
  "more_batches p \<longleftrightarrow>
     opt_any (\<lambda>i. let r = watched_rule p i in
       cr_kind r = HOLDING_PERIOD_RULE \<and>
       (if cr_sizing_mode r = RULE_ALL_POSITION then 0 < pl_holding_target_remaining p else pl_stage_quantity p < cr_quantity r))
       (pl_selected_rule p)"

definition finish_stage :: "cond_policy \<Rightarrow> cond_policy result" where
  "finish_stage p =
     rbind (quot ctx (pl_stage_notional p) (of_int (pl_stage_quantity p))) (\<lambda>average.
     rbind (case pl_selected_stage_end p of
              Some e \<Rightarrow> Inr e
            | None \<Rightarrow> if length (pl_rules p) \<le> pl_index p then Inl IndexError else Inr (stage_end (pl_rules p) (pl_index p))) (\<lambda>next.
       let cycles = (if next = length (pl_rules p) then pl_cycles p + 1 else pl_cycles p)
       in Inr (p\<lparr>pl_last_fill_price := Some average,
                 pl_index := (if next = length (pl_rules p) \<and> cycles < pl_repeat_cycles p then 0 else next),
                 pl_selected_rule := None, pl_selected_stage_end := None, pl_pending := None, pl_extremes := (\<lambda>_. None),
                 pl_stage_notional := 0, pl_stage_quantity := 0, pl_cycles := cycles\<rparr>)))"

definition on_fill :: "cond_policy \<Rightarrow> grid_order \<Rightarrow> int \<Rightarrow> rat \<Rightarrow> cond_policy result" where
  "on_fill p order quantity price =
     (let value = dec_mul (of_int quantity) price in
      if go_initial order then
        (let notional = dec_add (pl_initial_notional p) value; n = pl_initial_quantity p + quantity
         in rbind (quot ctx notional (of_int n)) (\<lambda>average.
              Inr (p\<lparr>pl_initial_notional := notional, pl_initial_quantity := n, pl_last_fill_price := Some average\<rparr>)))
      else
        let p1 = p\<lparr>pl_remaining := pl_remaining p - quantity, pl_stage_notional := dec_add (pl_stage_notional p) value,
                   pl_stage_quantity := pl_stage_quantity p + quantity,
                   pl_holding_target_remaining := max 0 (pl_holding_target_remaining p - quantity)\<rparr>;
            p2 = spend_budget p1 order quantity price
        in if pl_remaining p2 \<noteq> 0 then Inr p2
           else if more_batches p2 then Inr (p2\<lparr>pl_pending := None\<rparr>)
           else finish_stage p2)"

definition rebase_rule :: "price_rebase \<Rightarrow> condition_rule \<Rightarrow> condition_rule result" where
  "rebase_rule b r =
     rbind (rebase_side b (cr_target_price r) (cr_side r)) (\<lambda>target.
     rbind (rebase_side b (cr_limit_price r) (cr_side r)) (\<lambda>limit.
     rbind (rebase_side b (cr_activation_price r) (cr_side r)) (\<lambda>activation.
     rbind (if cr_gap_unit r = GAP_CNY then rebase_side b (cr_gap r) (cr_side r) else Inr (cr_gap r)) (\<lambda>gap.
       Inr (r\<lparr>cr_target_price := target, cr_limit_price := limit, cr_activation_price := activation, cr_gap := gap\<rparr>)))))"

definition rebase_policy :: "price_rebase \<Rightarrow> cond_policy \<Rightarrow> cond_policy result" where
  "rebase_policy b p =
     rbind (map_res (rebase_rule b) (pl_rules p)) (\<lambda>rules.
     rbind (rebase_price_order b (pl_pending p)) (\<lambda>pending.
       let scale = (\<lambda>x. dec_mul x (rb_factor b))
       in Inr (p\<lparr>pl_rules := rules, pl_pending := pending, pl_extremes := (\<lambda>i. map_option scale (pl_extremes p i)),
                 pl_last_fill_price := map_option scale (pl_last_fill_price p),
                 pl_first_observation_price := map_option scale (pl_first_observation_price p),
                 pl_stage_notional := scale (pl_stage_notional p), pl_initial_notional := scale (pl_initial_notional p)\<rparr>)))"

end
