(* ===== verification/ConditionalRuns.thy ===== *)
theory ConditionalRuns
  imports ConditionalOrders
begin

text \<open>
  Whole lives of a conditional plan.  A history is any sequence of openings, closes, session ends, ex-dates
  and fills of the emitted order, in whatever order the day loop calls them; \<open>fills\<close> records for every fill
  of a rule the cycle, the rule and the quantity.
\<close>

section \<open>Histories\<close>

inductive policy_history ::
  "condition_rule list \<Rightarrow> int \<Rightarrow> int \<Rightarrow> cond_policy \<Rightarrow> (int \<times> nat \<times> int) list \<Rightarrow> bool"
  for rules :: "condition_rule list" and repeat_cycles :: int and minimum_shares :: int where
  start: "policy_history rules repeat_cycles minimum_shares (initial_policy rules repeat_cycles minimum_shares) []"
| opened: "policy_history rules repeat_cycles minimum_shares p fills \<Longrightarrow> on_open p session b c = Inr (p', order) \<Longrightarrow>
    policy_history rules repeat_cycles minimum_shares p' fills"
| closed: "policy_history rules repeat_cycles minimum_shares p fills \<Longrightarrow> on_close p price session b c = Inr (p', order) \<Longrightarrow>
    policy_history rules repeat_cycles minimum_shares p' fills"
| ended: "policy_history rules repeat_cycles minimum_shares p fills \<Longrightarrow>
    policy_history rules repeat_cycles minimum_shares (fst (on_session_end p order session reason)) fills"
| rebased: "policy_history rules repeat_cycles minimum_shares p fills \<Longrightarrow> rebase_policy r p = Inr p' \<Longrightarrow>
    policy_history rules repeat_cycles minimum_shares p' fills"
| built: "policy_history rules repeat_cycles minimum_shares p fills \<Longrightarrow> go_initial order \<Longrightarrow> on_fill p order q price = Inr p' \<Longrightarrow>
    policy_history rules repeat_cycles minimum_shares p' fills"
| filled: "policy_history rules repeat_cycles minimum_shares p fills \<Longrightarrow> emit_order p = Some order \<Longrightarrow>
    pl_selected_rule p = Some i \<Longrightarrow> 0 < q \<Longrightarrow> q \<le> go_quantity order \<Longrightarrow> on_fill p order q price = Inr p' \<Longrightarrow>
    policy_history rules repeat_cycles minimum_shares p' (fills @ [(pl_cycles p, i, q)])"

section \<open>Stages\<close>








section \<open>The invariant of a history\<close>








text \<open>A step that only touches other fields.\<close>

definition same_place :: "cond_policy \<Rightarrow> cond_policy \<Rightarrow> bool" where
  "same_place p p' \<longleftrightarrow>
     pl_rules p' = pl_rules p \<and> pl_repeat_cycles p' = pl_repeat_cycles p \<and> pl_index p' = pl_index p \<and> pl_cycles p' = pl_cycles p \<and>
     pl_pending p' = pl_pending p \<and> pl_selected_rule p' = pl_selected_rule p \<and>
     pl_selected_stage_end p' = pl_selected_stage_end p \<and> pl_stage_quantity p' = pl_stage_quantity p \<and>
     pl_remaining p' = pl_remaining p \<and> pl_terminal p' = pl_terminal p"



lemma same_place_trans: "same_place p q \<Longrightarrow> same_place q r \<Longrightarrow> same_place p r"
  by (simp add: same_place_def)



section \<open>Every step keeps it\<close>





















section \<open>Executing a history\<close>















end
