(* ===== verification/GridProperties.thy ===== *)
theory GridProperties
  imports GridOrders
begin

text \<open>
  What a grid promises: its resolved range holds the anchor and every line that was asked for, and its
  intents are whole lines that a full fill settles.
\<close>

section \<open>Rounding of powers and of bounds\<close>










section \<open>Geometry\<close>


















text \<open>
  When the wanted lines leave the range by far, the diagnostic cannot print the line in cents: \<open>quantize\<close>
  raises, and the caller sees an exception of the decimal module instead of the conflict.
\<close>

definition distant_grid :: grid_parameters where
  "distant_grid = (default_grid 1 100)
     \<lparr>gp_anchor_price := Some 10, gp_spacing_mode := SPACE_PERCENT, gp_spacing := 50, gp_levels_above := Some 256\<rparr>"

lemma round_to_ge_power: "10 ^ j \<le> x \<Longrightarrow> 0 < p \<Longrightarrow> 10 ^ j \<le> round_to p x"
  using round_to_mono [of "10 ^ j" x p] round_to_exact [of "10 ^ j" 1 "int j" p] by (simp add: power_int_def)

lemma pow_bits_square: "10 ^ j \<le> pow_bits p b n \<Longrightarrow> 0 < p \<Longrightarrow> 0 < n \<Longrightarrow> 10 ^ (2 * j) \<le> pow_bits p b (2 * n)"
  using mult_mono [of "10 ^ j" "pow_bits p b n" "10 ^ j" "pow_bits p b n"] round_to_ge_power [of "2 * j" "pow_bits p b n * pow_bits p b n" p]
  by (subst pow_bits.simps) (simp add: Let_def mult_2 power_add)

lemma distant_lines_raise_decimal_error:
  "is_ok (mk_grid distant_grid)" "resolve_geometry distant_grid = Inl DecimalInvalidOperation"
proof -
  show "is_ok (mk_grid distant_grid)" by code_simp
  have small: "10 ^ 1 \<le> pow_bits 33 (3 / 2) 8" "ndigits 256 = 3" "grid_ratio 50 = 3 / 2" by code_simp+
  define r where "r = dec_pow_int (grid_ratio 50) 256"
  have "10 ^ 32 \<le> pow_bits 33 (3 / 2) 256"
    using pow_bits_square [OF pow_bits_square [OF pow_bits_square [OF pow_bits_square [OF pow_bits_square [OF small(1)]]]]] by simp
  then have "10 ^ 32 \<le> r" using ctx_mono [of "10 ^ 32"] ctx_exact [of "10 ^ 32" 1 32] small(2)
    by (fastforce simp: r_def small(3) dec_pow_int_def dec_pow_nat_def)
  then have "10 ^ 33 \<le> dec_mul 10 r" using ctx_mono [of "10 ^ 33" "10 * r"] ctx_exact [of "10 ^ 33" 1 33] by (simp add: dec_mul_def)
  moreover have "(100 :: rat) < 10 ^ 33" "(10 :: rat) ^ 28 \<le> 10 ^ 33" "(0 :: rat) \<le> 10 ^ 33"
    "dec_mul 10 r * 10 ^ 2 = 100 * dec_mul 10 r" by simp_all
  ultimately have big: "100 < dec_mul 10 r" "10 ^ 28 \<le> dec_mul 10 r * 10 ^ 2" by linarith+
  have "of_int (10 ^ 28) \<le> dec_mul 10 r * 10 ^ 2" using big(2) by simp
  then have "10 ^ 28 \<le> \<lceil>dec_mul 10 r * 10 ^ 2\<rceil>" by (metis ceiling_mono ceiling_of_int)
  then have far: "100 < dec_mul 10 r" "10 ^ 28 \<le> \<bar>\<lceil>dec_mul 10 r * 10 ^ 2\<rceil>\<bar>" using big(1) by linarith+
  have "levels_step distant_grid 10 (SellSide, Some 256) (1, 100) = Inl DecimalInvalidOperation"
    using far by (simp add: levels_step_def spacing_for_def distant_grid_def default_grid_def or_else_def outer_edge_def
        quantize_by_def Let_def flip: r_def)
  then show "resolve_geometry distant_grid = Inl DecimalInvalidOperation"
    by (simp add: resolve_geometry_def resolved_anchor_def percent_bounds_def distant_grid_def default_grid_def levels_step_def [of _ _ "(BuySide, None)"])
qed

section \<open>Whole lines\<close>









text \<open>
  Where the anchor follows the fills, the grid restarts at the fill price: the distance of that price is zero, so the grid
  is settled there.  The steps are the same quotients as before, with denominators that stay different from zero.
\<close>

lemma snap_zero [simp]: "snap 0 = 0"
  by (simp add: snap_def round_half_even_def Let_def)

lemma moved_anchor_spacing [simp]: "spacing_for (g\<lparr>gp_anchor_price := a\<rparr>) side = spacing_for g side"
  by (cases side) (simp_all add: spacing_for_def split: option.split)

lemma moved_anchor_asymmetric [simp]: "asymmetric (g\<lparr>gp_anchor_price := a\<rparr>) = asymmetric g"
  by (simp add: asymmetric_def)




definition plain_grid :: grid_parameters where
  "plain_grid = (default_grid 5 15)\<lparr>gp_anchor_price := Some 10, gp_order_shares := 300\<rparr>"



text \<open>
  Partial fills leave whole units: the shares of a partly filled order are rounded twice, and after its remainder
  has filled the grid may lack 2 units of the last digit.  It then emits an order for no share at all, on every later
  day at this price.
\<close>

definition unit_order :: "rat \<Rightarrow> int \<Rightarrow> grid_order" where
  "unit_order units quantity =
     \<lparr>go_side = BuySide, go_quantity = quantity, go_grid_units = units, go_signal_date = 0, go_limit_price = None, go_initial = False,
      go_baseline_units = 0, go_rule_id = None, go_trigger_price = None, go_reference_price = None, go_amount_budget_cny = None,
      go_signal_at = None\<rparr>"

lemma round_half_even_near_int:
  assumes "\<bar>of_int c - y\<bar> < 1 / 2"
  shows "round_half_even y = c"
proof -
  have "\<bar>of_int (round_half_even y) - y\<bar> \<le> 1 / 2" by (rule round_half_even_error)
  then have "\<bar>of_int (round_half_even y) - of_int c\<bar> < (1 :: rat)" using assms by linarith
  then have "\<bar>of_int (round_half_even y - c)\<bar> < (1 :: rat)" by simp
  then show ?thesis by linarith
qed

lemma ctx_nearest:
  assumes "10 ^ 27 \<le> \<bar>x\<bar> * 10 ^ k" "\<bar>x\<bar> * 10 ^ k < 10 ^ 28" "\<bar>of_int c - x * 10 ^ k\<bar> < 1 / 2"
  shows "ctx x = of_int c / 10 ^ k"
proof -
  define e where "e = 27 - int k"
  have p: "10 powi e = 10 ^ 27 / (10 :: rat) ^ k" "10 powi (e + 1) = 10 ^ 28 / (10 :: rat) ^ k" "10 powi (e - 27) = 1 / (10 :: rat) ^ k"
    by (simp_all add: e_def power_int_diff power_int_minus_divide)
  have b: "10 powi e \<le> \<bar>x\<bar>" "\<bar>x\<bar> < 10 powi (e + 1)"
    using assms(1,2) unfolding p by (simp_all add: pos_divide_le_eq pos_less_divide_eq)
  then have "0 < \<bar>x\<bar>" using powi10_pos [of e] by linarith
  then have "x \<noteq> 0" by simp
  then show ?thesis using round_half_even_near_int [OF assms(3)] adjusted_unique [OF b] by (simp add: ctx_def Let_def p)
qed

lemma ctx_decimal: "\<bar>c\<bar> < 10 ^ 28 \<Longrightarrow> ctx (of_int c / 10 ^ k) = of_int c / 10 ^ k"
  by (rule ctx_exact [of _ c "- int k"]) (simp_all add: power_int_minus_divide)

lemma plain_units: "0 \<le> x \<Longrightarrow> units_quantity plain_grid x 9 = Inr (py_int (ctx (ctx x * 300)))"
  by (simp add: units_quantity_def plain_grid_def default_grid_def dec_mul_def)

lemma partial_fills_leave_a_residue:
  "let first = executed_units (unit_order 1 300) 100; change = target_grid_change 1 first;
       second = dec_add first (executed_units (unit_order change 200) 200); residue = target_grid_change 1 second
   in units_quantity plain_grid change 9 = Inr 200 \<and> 0 < residue \<and> units_quantity plain_grid residue 9 = Inr 0"
proof -
  have "ctx (1 / 3) = 3333333333333333333333333333 / 10 ^ 28"
    using ctx_nearest [of "1 / 3" 28 3333333333333333333333333333] by simp
  then have first: "executed_units (unit_order 1 300) 100 = 3333333333333333333333333333 / 10 ^ 28"
    using ctx_of_int [of 100] by (simp add: executed_units_def unit_order_def dec_mul_def)
  have change: "target_grid_change 1 (3333333333333333333333333333 / 10 ^ 28) = 6666666666666666666666666667 / 10 ^ 28"
    using ctx_decimal [of 6666666666666666666666666667 28] by (simp add: target_grid_change_def dec_sub_def Let_def)
  have "ctx (6666666666666666666666666667 / 10 ^ 28 * 200) = 1333333333333333333333333333 / 10 ^ 25"
    using ctx_nearest [of "6666666666666666666666666667 / 10 ^ 28 * 200" 25 1333333333333333333333333333] by simp
  moreover have "ctx (1333333333333333333333333333 / 10 ^ 25 / 200) = 6666666666666666666666666665 / 10 ^ 28"
    using ctx_decimal [of 6666666666666666666666666665 28] by simp
  ultimately have rest: "executed_units (unit_order (6666666666666666666666666667 / 10 ^ 28) 200) 200 = 6666666666666666666666666665 / 10 ^ 28"
    by (simp only: executed_units_def unit_order_def dec_mul_def grid_order.select_convs of_int_numeral)
  have "(3333333333333333333333333333 / 10 ^ 28 + 6666666666666666666666666665 / 10 ^ 28 :: rat) = 9999999999999999999999999998 / 10 ^ 28"
    by (rule add_divide_distrib [of _ _ "10 ^ 28 :: rat", symmetric, THEN trans]) (simp only: add_num_simps arith_simps)
  then have second: "dec_add (3333333333333333333333333333 / 10 ^ 28) (executed_units (unit_order (6666666666666666666666666667 / 10 ^ 28) 200) 200)
      = 9999999999999999999999999998 / 10 ^ 28"
    using ctx_decimal [of 9999999999999999999999999998 28] by (simp only: rest dec_add_def of_int_numeral) simp
  have residue: "target_grid_change 1 (9999999999999999999999999998 / 10 ^ 28) = 2 / 10 ^ 28"
    using ctx_decimal [of 2 28] by (simp add: target_grid_change_def dec_sub_def Let_def)
  have "ctx (6666666666666666666666666667 / 10 ^ 28) = 6666666666666666666666666667 / 10 ^ 28" "ctx (2 / 10 ^ 28) = 2 / 10 ^ 28"
    using ctx_decimal [of 6666666666666666666666666667 28] ctx_decimal [of 2 28] by simp_all
  moreover have "ctx (6666666666666666666666666667 / 10 ^ 28 * 300) = 200" "ctx (2 / 10 ^ 28 * 300) = 600 / 10 ^ 28"
    using ctx_nearest [of "6666666666666666666666666667 / 10 ^ 28 * 300" 25 2000000000000000000000000000] ctx_decimal [of 600 28]
    by simp_all
  ultimately have "units_quantity plain_grid (6666666666666666666666666667 / 10 ^ 28) 9 = Inr (py_int 200)"
    "units_quantity plain_grid (2 / 10 ^ 28) 9 = Inr (py_int (600 / 10 ^ 28))"
    using plain_units [of "6666666666666666666666666667 / 10 ^ 28"] plain_units [of "2 / 10 ^ 28"]
    by (simp_all only: divide_nonneg_pos zero_le_numeral zero_less_power zero_less_numeral simp_thms)
  then have whole: "units_quantity plain_grid (6666666666666666666666666667 / 10 ^ 28) 9 = Inr 200"
    and none: "units_quantity plain_grid (2 / 10 ^ 28) 9 = Inr 0"
    by (simp_all add: py_int_def round_down_def floor_eq_iff)
  show ?thesis unfolding Let_def first change second residue using whole none by simp
qed

end
