(* ===== verification/FixedGrid.thy ===== *)
theory FixedGrid
  imports GridOrders Matching "HOL-Library.AList"
begin

text \<open>
  The order life cycle of a fixed grid, \<open>ashare_lab/application/fixed_grid_orders.py\<close>: every cell alternates
  between a buying and a selling leg of its own, orders work from the bar after their signal, partial fills
  keep the remainder.  A dictionary is an association list in insertion order, changed by \<open>AList.update\<close> and
  \<open>AList.delete\<close>; a method returns the new state.
\<close>

section \<open>Cells and orders\<close>

datatype cell_order_type = GridLimitOrder | MarketOrder | FixedLimitOrder

record grid_cell =
  gc_cell_id :: string
  gc_buy_price :: rat
  gc_sell_price :: rat
  gc_quantity :: int
  gc_first_side :: plan_side
  gc_order_type :: cell_order_type
  gc_buy_limit :: "rat option"
  gc_sell_limit :: "rat option"
  gc_amount_cny :: "rat option"

definition cell_checks :: "grid_cell \<Rightarrow> (bool \<times> py_error) list" where
  "cell_checks c =
    [(\<not> (0 < gc_buy_price c \<and> gc_buy_price c < gc_sell_price c) \<or> gc_quantity c \<le> 0, ValueError ''invalid grid cell''),
     (gc_order_type c = FixedLimitOrder \<and> list_ex (\<lambda>p. none_or (\<lambda>x. x \<le> 0) p) [gc_buy_limit c, gc_sell_limit c],
      ValueError ''fixed grid limits must be positive''),
     (opt_any (\<lambda>a. a \<le> 0) (gc_amount_cny c), ValueError ''grid amount must be positive'')]"

definition mk_cell :: "grid_cell \<Rightarrow> grid_cell result" where
  "mk_cell c = construct (\<lambda>c. checks (cell_checks c)) c"

record cell_order =
  co_order_id :: string
  co_cell_id :: string
  co_side :: plan_side
  co_quantity :: int
  co_limit_price :: "rat option"
  co_signal_bar :: int
  co_effective_bar :: int

definition opposite :: "plan_side \<Rightarrow> plan_side" where
  "opposite side = (if side = BuySide then SellSide else BuySide)"

section \<open>The state\<close>

record fixed_grid =
  fg_active_sides :: "plan_side set"
  fg_cells :: "(string \<times> grid_cell) list"
  fg_sides :: "(string \<times> plan_side) list"
  fg_armed_from :: "(string \<times> int) list"
  fg_pending :: "(string \<times> cell_order) list"
  fg_remaining :: "(string \<times> int) list"
  fg_serial :: int
  fg_paused :: bool
  fg_last_observed :: int
  fg_rejected :: "string set"
  fg_wait_for_crossing :: bool
  fg_startup_reset :: "string set"
  fg_unfinished_exit_quantity :: int
  fg_unfinished_holding_exit_quantity :: int

text \<open>\<open>d[key]\<close>\<close>

definition item :: "('k \<times> 'v) list \<Rightarrow> 'k \<Rightarrow> 'v result" where
  "item d k = (case map_of d k of None \<Rightarrow> Inl KeyError | Some v \<Rightarrow> Inr v)"

definition mk_fixed_grid :: "grid_cell list \<Rightarrow> bool \<Rightarrow> plan_side list \<Rightarrow> fixed_grid result" where
  "mk_fixed_grid cells wait_for_crossing active_sides =
     rbind (checks
       [(active_sides = [] \<or> \<not> distinct active_sides, ValueError ''grid active sides must be unique buy/sell roles''),
        (\<not> distinct (map gc_cell_id cells), ValueError ''grid cell IDs must be unique'')]) (\<lambda>_.
     Inr \<lparr>fg_active_sides = set active_sides, fg_cells = map (\<lambda>c. (gc_cell_id c, c)) cells,
          fg_sides = map (\<lambda>c. (gc_cell_id c, gc_first_side c)) cells, fg_armed_from = map (\<lambda>c. (gc_cell_id c, 0)) cells,
          fg_pending = [], fg_remaining = [], fg_serial = 0, fg_paused = False, fg_last_observed = - 1, fg_rejected = {},
          fg_wait_for_crossing = wait_for_crossing, fg_startup_reset = {}, fg_unfinished_exit_quantity = 0,
          fg_unfinished_holding_exit_quantity = 0\<rparr>)"

text \<open>Prices move to a new price domain; cell states, quantities and clocks stay.\<close>

definition rebase_amount :: "price_rebase \<Rightarrow> rat \<Rightarrow> plan_side \<Rightarrow> rat \<Rightarrow> rat result" where
  "rebase_amount r x side tick =
     rbind (rebase_price r (Some x) (side = BuySide) tick) (\<lambda>v. case v of None \<Rightarrow> Inl (TypeError ''unsupported operand'') | Some y \<Rightarrow> Inr y)"

definition rebase_cell :: "price_rebase \<Rightarrow> rat \<Rightarrow> grid_cell \<Rightarrow> grid_cell result" where
  "rebase_cell r tick c =
     rbind (rebase_amount r (gc_buy_price c) BuySide tick) (\<lambda>buy.
     rbind (rebase_amount r (gc_sell_price c) SellSide tick) (\<lambda>sell.
     rbind (rebase_price r (gc_buy_limit c) True tick) (\<lambda>buy_limit.
     rbind (rebase_price r (gc_sell_limit c) False tick) (\<lambda>sell_limit.
       mk_cell (c\<lparr>gc_buy_price := buy, gc_sell_price := sell, gc_buy_limit := buy_limit, gc_sell_limit := sell_limit\<rparr>)))))"

definition rebase_cell_order :: "price_rebase \<Rightarrow> rat \<Rightarrow> cell_order \<Rightarrow> cell_order result" where
  "rebase_cell_order r tick order =
     rbind (rebase_price r (co_limit_price order) (co_side order = BuySide) tick) (\<lambda>limit. Inr (order\<lparr>co_limit_price := limit\<rparr>))"

definition map_values :: "('v \<Rightarrow> 'w result) \<Rightarrow> ('k \<times> 'v) list \<Rightarrow> ('k \<times> 'w) list result" where
  "map_values f = map_res (\<lambda>(k, v). rbind (f v) (\<lambda>w. Inr (k, w)))"

definition rebase_fixed_grid :: "price_rebase \<Rightarrow> rat \<Rightarrow> fixed_grid \<Rightarrow> fixed_grid result" where
  "rebase_fixed_grid r tick p =
     rbind (map_values (rebase_cell r tick) (fg_cells p)) (\<lambda>cells.
     rbind (map_values (rebase_cell_order r tick) (fg_pending p)) (\<lambda>pending.
       Inr (p\<lparr>fg_cells := cells, fg_pending := pending\<rparr>)))"

section \<open>Observation of a completed bar\<close>

definition reaches_price :: "plan_side \<Rightarrow> rat \<Rightarrow> rat \<Rightarrow> bool" where
  "reaches_price side x price \<longleftrightarrow> (if side = BuySide then x \<le> price else price \<le> x)"

definition cell_price :: "grid_cell \<Rightarrow> plan_side \<Rightarrow> rat" where
  "cell_price c side = (if side = BuySide then gc_buy_price c else gc_sell_price c)"

definition touches :: "bar_prices \<Rightarrow> plan_side \<Rightarrow> rat \<Rightarrow> bool" where
  "touches bar side price \<longleftrightarrow> (if side = BuySide then bp_low bar \<le> price else price \<le> bp_high bar)"

definition cell_limit :: "grid_cell \<Rightarrow> plan_side \<Rightarrow> rat option" where
  "cell_limit c side =
     (case gc_order_type c of
        MarketOrder \<Rightarrow> None
      | FixedLimitOrder \<Rightarrow> (if side = BuySide then gc_buy_limit c else gc_sell_limit c)
      | GridLimitOrder \<Rightarrow> Some (cell_price c side))"

definition cell_quantity :: "grid_cell \<Rightarrow> rat \<Rightarrow> int \<Rightarrow> int \<Rightarrow> int result" where
  "cell_quantity c price minimum increment =
     (case gc_amount_cny c of
        None \<Rightarrow> Inr (gc_quantity c)
      | Some a \<Rightarrow>
          rbind (quot ctx a price) (\<lambda>n.
          let maximum = py_int n in
          if minimum \<le> maximum then
            (if increment = 0 then Inl ZeroDivisionError else Inr (minimum + (maximum - minimum) div increment * increment))
          else Inr 0))"

definition grid_order_id :: "string \<Rightarrow> int \<Rightarrow> string" where
  "grid_order_id key serial = ''grid:'' @ key @ '':'' @ show_int serial"

definition observe_cell ::
  "bool \<Rightarrow> bar_prices \<Rightarrow> int \<Rightarrow> int \<Rightarrow> int \<Rightarrow> string \<times> grid_cell \<Rightarrow> fixed_grid \<times> cell_order list \<Rightarrow> (fixed_grid \<times> cell_order list) result" where
  "observe_cell first bar index minimum increment kc acc =
     (case (kc, acc) of ((key, cell), (p, orders)) \<Rightarrow>
        if key \<in> fg_rejected p \<or> map_of (fg_pending p) key \<noteq> None then Inr (p, orders)
        else
          rbind (item (fg_armed_from p) key) (\<lambda>armed.
          if index < armed then Inr (p, orders)
          else
            rbind (item (fg_sides p) key) (\<lambda>side.
            if side \<notin> fg_active_sides p then Inr (p, orders)
            else
              let price = cell_price cell side;
                  waiting = (if first \<and> fg_wait_for_crossing p \<and> reaches_price side (bp_open bar) price
                             then insert key (fg_startup_reset p) else fg_startup_reset p)
              in if key \<in> waiting then
                   Inr (p\<lparr>fg_startup_reset := (if \<not> reaches_price side (bp_close bar) price then waiting - {key} else waiting)\<rparr>, orders)
                 else if \<not> touches bar side price then Inr (p, orders)
                 else
                   rbind (cell_quantity cell price minimum increment) (\<lambda>quantity.
                   let serial = fg_serial p + 1;
                       order = \<lparr>co_order_id = grid_order_id key serial, co_cell_id = key, co_side = side,
                                co_quantity = (case map_of (fg_remaining p) key of None \<Rightarrow> quantity | Some n \<Rightarrow> n),
                                co_limit_price = cell_limit cell side, co_signal_bar = index, co_effective_bar = index + 1\<rparr>
                   in Inr (p\<lparr>fg_serial := serial, fg_pending := AList.update key order (fg_pending p),
                            fg_remaining := AList.update key (co_quantity order) (fg_remaining p)\<rparr>, orders @ [order])))))"

definition observe_bar :: "fixed_grid \<Rightarrow> bar_prices \<Rightarrow> int \<Rightarrow> int \<Rightarrow> int \<Rightarrow> (fixed_grid \<times> cell_order list) result" where
  "observe_bar p bar index minimum increment =
     (if index \<le> fg_last_observed p then Inl (ValueError ''bars must be observed once in increasing order'')
      else
        let first = (fg_last_observed p = - 1); p1 = p\<lparr>fg_last_observed := index\<rparr>
        in if fg_paused p1 then Inr (p1, [])
           else fold_res (observe_cell first bar index minimum increment) (fg_cells p1) (p1, []))"

section \<open>Fills and ends of orders\<close>

definition working_order :: "fixed_grid \<Rightarrow> string \<Rightarrow> cell_order option" where
  "working_order p order_id = find (\<lambda>o'. co_order_id o' = order_id) (map snd (fg_pending p))"

definition fill_cell :: "fixed_grid \<Rightarrow> string \<Rightarrow> int \<Rightarrow> int \<Rightarrow> fixed_grid result" where
  "fill_cell p order_id quantity index =
     (case working_order p order_id of
        None \<Rightarrow> Inl (ValueError ''unknown working order'')
      | Some order \<Rightarrow>
          let key = co_cell_id order in
          if index < co_effective_bar order then Inl (ValueError ''invalid fill quantity or time'')
          else if quantity \<le> 0 then Inl (ValueError ''invalid fill quantity or time'')
          else
            rbind (item (fg_remaining p) key) (\<lambda>remaining.
            if remaining < quantity then Inl (ValueError ''invalid fill quantity or time'')
            else if remaining - quantity = 0 then
              Inr (p\<lparr>fg_pending := AList.delete key (fg_pending p), fg_remaining := AList.delete key (fg_remaining p),
                     fg_sides := AList.update key (opposite (co_side order)) (fg_sides p),
                     fg_armed_from := AList.update key (index + 1) (fg_armed_from p)\<rparr>)
            else Inr (p\<lparr>fg_remaining := AList.update key (remaining - quantity) (fg_remaining p)\<rparr>)))"

definition cancel_for_exit :: "fixed_grid \<Rightarrow> fixed_grid \<times> cell_order list" where
  "cancel_for_exit p = (p\<lparr>fg_paused := True, fg_pending := []\<rparr>, map snd (fg_pending p))"

definition reject_order :: "fixed_grid \<Rightarrow> cell_order \<Rightarrow> fixed_grid result" where
  "reject_order p order =
     (let key = co_cell_id order
      in if map_of (fg_pending p) key \<noteq> Some order then Inl (ValueError ''unknown working order'')
         else Inr (p\<lparr>fg_pending := AList.delete key (fg_pending p), fg_remaining := AList.delete key (fg_remaining p),
                    fg_rejected := insert key (fg_rejected p)\<rparr>))"

definition release_cell :: "fixed_grid \<Rightarrow> string \<Rightarrow> int \<Rightarrow> (fixed_grid \<times> cell_order option) result" where
  "release_cell p key index =
     (if key \<notin> fst ` set (fg_cells p) then Inl (ValueError ''unknown grid cell'')
      else Inr (p\<lparr>fg_pending := AList.delete key (fg_pending p), fg_remaining := AList.delete key (fg_remaining p),
                  fg_rejected := fg_rejected p - {key}, fg_sides := AList.update key BuySide (fg_sides p),
                  fg_armed_from := AList.update key (index + 1) (fg_armed_from p)\<rparr>,
                map_of (fg_pending p) key))"

definition reset_side :: "plan_side \<Rightarrow> int \<Rightarrow> int \<Rightarrow> plan_side option" where
  "reset_side side before after =
     (if side = SellSide \<and> 0 < before \<and> after = 0 then Some BuySide
      else if side = BuySide \<and> before = 0 \<and> 0 < after then Some SellSide else None)"

definition reset_cell :: "plan_side \<Rightarrow> int \<Rightarrow> string \<times> grid_cell \<Rightarrow> fixed_grid \<Rightarrow> fixed_grid" where
  "reset_cell side index kc p =
     p\<lparr>fg_rejected := fg_rejected p - {fst kc}, fg_sides := AList.update (fst kc) side (fg_sides p),
       fg_armed_from := AList.update (fst kc) (index + 1) (fg_armed_from p)\<rparr>"

definition after_external_fill :: "fixed_grid \<Rightarrow> plan_side \<Rightarrow> int \<Rightarrow> int \<Rightarrow> int \<Rightarrow> fixed_grid \<times> cell_order list" where
  "after_external_fill p side before after index =
     (case reset_side side before after of
        None \<Rightarrow> (p, [])
      | Some reset \<Rightarrow>
          if fg_active_sides p \<noteq> {reset} then (p, [])
          else (fold (reset_cell reset index) (fg_cells p) (p\<lparr>fg_pending := [], fg_remaining := [], fg_paused := False\<rparr>),
                map snd (fg_pending p)))"

definition reissue :: "int \<Rightarrow> cell_order \<Rightarrow> fixed_grid \<Rightarrow> fixed_grid result" where
  "reissue next_bar old p =
     rbind (item (fg_remaining p) (co_cell_id old)) (\<lambda>remaining.
     let serial = fg_serial p + 1
     in Inr (p\<lparr>fg_serial := serial,
               fg_pending := AList.update (co_cell_id old)
                 \<lparr>co_order_id = grid_order_id (co_cell_id old) serial, co_cell_id = co_cell_id old, co_side = co_side old,
                  co_quantity = remaining, co_limit_price = co_limit_price old, co_signal_bar = co_signal_bar old,
                  co_effective_bar = next_bar\<rparr> (fg_pending p)\<rparr>))"

definition expired_orders :: "fixed_grid \<Rightarrow> int option \<Rightarrow> cell_order list" where
  "expired_orders p next_bar =
     filter (\<lambda>o'. case next_bar of None \<Rightarrow> True | Some b \<Rightarrow> co_effective_bar o' < b) (map snd (fg_pending p))"

definition expire_day :: "fixed_grid \<Rightarrow> int option \<Rightarrow> bool \<Rightarrow> (fixed_grid \<times> cell_order list) result" where
  "expire_day p next_bar rebuild =
     (let expired = expired_orders p next_bar;
          p1 = p\<lparr>fg_pending := filter (\<lambda>(k, o'). o' \<notin> set expired) (fg_pending p)\<rparr>
      in case next_bar of
           None \<Rightarrow> Inr (p1, expired)
         | Some b \<Rightarrow>
             if \<not> fg_paused p \<and> rebuild then rbind (fold_res (reissue b) expired p1) (\<lambda>p2. Inr (p2, expired))
             else Inr (p1, expired))"

section \<open>Dictionaries\<close>

lemma update_entry: "(k', v') \<in> set (AList.update k v d) \<Longrightarrow> (k', v') = (k, v) \<or> (k', v') \<in> set d"
  by (induction d) (auto split: if_splits)

lemma delete_entries: "set (AList.delete k d) = {e \<in> set d. fst e \<noteq> k}"
  by (auto simp: AList.delete_eq)

lemmas dict_simps = AList.update_conv' AList.delete_conv' delete_entries

lemma update_fresh: "k \<notin> fst ` set d \<Longrightarrow> AList.update k v d = d @ [(k, v)]"
  by (induction d) auto

lemma map_values_entry:
  assumes "map_values f d = Inr d'" "(k, w) \<in> set d'"
  shows "\<exists>v. (k, v) \<in> set d \<and> f v = Inr w"
  using assms by (induction d arbitrary: d') (fastforce simp: map_values_def result_simps)+

lemma map_values_keys: "map_values f d = Inr d' \<Longrightarrow> map fst d' = map fst d"
  by (induction d arbitrary: d') (auto simp: map_values_def result_simps)

lemma map_res_snoc: "map_res f (xs @ [x]) = rbind (map_res f xs) (\<lambda>ys. rbind (f x) (\<lambda>y. Inr (ys @ [y])))"
  by (induction xs) (auto simp: rbind_assoc)

lemma map_res_same: "(\<And>x. x \<in> set xs \<Longrightarrow> f x = g x) \<Longrightarrow> map_res f xs = map_res g xs"
  by (induction xs) auto

end
