(* ===== verification/FixedGridRuns.thy ===== *)
theory FixedGridRuns
  imports FixedGrid
begin

text \<open>
  Whole lives of a fixed grid.  A history is any sequence of observed bars,
  fills, rejections, session ends, exits and ex-dates.  Beside the state it keeps, for every cell, the shares that
  the cell has bought and not yet sold, and its last fill.  A cell sized in shares alternates between zero shares and
  its lot; a cell sized by an amount computes the shares of every leg anew from the price of the leg.
\<close>

section \<open>Histories\<close>

type_synonym last_fills = "string \<Rightarrow> (plan_side \<times> int) option"

definition held_after :: "cell_order \<Rightarrow> int \<Rightarrow> (string \<Rightarrow> int) \<Rightarrow> string \<Rightarrow> int" where
  "held_after order q held = held(co_cell_id order := held (co_cell_id order) + (if co_side order = BuySide then q else - q))"

definition held_at_reset :: "(string \<Rightarrow> int) \<Rightarrow> plan_side \<Rightarrow> string \<Rightarrow> int" where
  "held_at_reset lot side k = (if side = BuySide then 0 else lot k)"

inductive grid_history :: "(string \<Rightarrow> int) \<Rightarrow> fixed_grid \<Rightarrow> fixed_grid \<Rightarrow> (string \<Rightarrow> int) \<Rightarrow> last_fills \<Rightarrow> bool"
  for lot :: "string \<Rightarrow> int" and p0 :: fixed_grid where
  start: "grid_history lot p0 p0 (\<lambda>k. case map_of (fg_sides p0) k of None \<Rightarrow> 0 | Some side \<Rightarrow> held_at_reset lot side k) (\<lambda>_. None)"
| observed: "grid_history lot p0 p held last_fill \<Longrightarrow> observe_bar p bar index minimum increment = Inr (p', orders) \<Longrightarrow>
    grid_history lot p0 p' held last_fill"
| filled: "grid_history lot p0 p held last_fill \<Longrightarrow> working_order p order_id = Some order \<Longrightarrow> fill_cell p order_id q index = Inr p' \<Longrightarrow>
    grid_history lot p0 p' (held_after order q held) (last_fill(co_cell_id order \<mapsto> (co_side order, index)))"
| rejected: "grid_history lot p0 p held last_fill \<Longrightarrow> reject_order p order = Inr p' \<Longrightarrow> grid_history lot p0 p' held last_fill"
| ended: "grid_history lot p0 p held last_fill \<Longrightarrow> expire_day p next_bar rebuild = Inr (p', orders) \<Longrightarrow>
    grid_history lot p0 p' held last_fill"
| exiting: "grid_history lot p0 p held last_fill \<Longrightarrow> grid_history lot p0 (fst (cancel_for_exit p)) held last_fill"
| resumed: "grid_history lot p0 p held last_fill \<Longrightarrow> grid_history lot p0 (p\<lparr>fg_paused := False\<rparr>) held last_fill"
| released: "grid_history lot p0 p held last_fill \<Longrightarrow> release_cell p key index = Inr (p', order) \<Longrightarrow>
    grid_history lot p0 p' (held(key := 0)) (last_fill(key := None))"
| reset: "grid_history lot p0 p held last_fill \<Longrightarrow> reset_side side before after = Some back \<Longrightarrow> fg_active_sides p = {back} \<Longrightarrow>
    grid_history lot p0 (fst (after_external_fill p side before after index)) (held_at_reset lot back) (\<lambda>_. None)"
| rebased: "grid_history lot p0 p held last_fill \<Longrightarrow> rebase_fixed_grid r tick p = Inr p' \<Longrightarrow> grid_history lot p0 p' held last_fill"

section \<open>The invariant of a cell\<close>

definition leg_held :: "int \<Rightarrow> plan_side \<Rightarrow> int option \<Rightarrow> int" where
  "leg_held lot side left =
     (case left of None \<Rightarrow> (if side = BuySide then 0 else lot) | Some n \<Rightarrow> (if side = BuySide then lot - n else n))"

text \<open>A fill on the other side came early enough.\<close>

definition turned_before :: "(plan_side \<times> int) option \<Rightarrow> plan_side \<Rightarrow> int \<Rightarrow> bool" where
  "turned_before l side bar \<longleftrightarrow> (case l of None \<Rightarrow> True | Some (s, i) \<Rightarrow> s \<noteq> side \<longrightarrow> i < bar)"

text \<open>\<open>sized\<close> are the cells sized in shares.\<close>

definition lot_inv :: "int \<Rightarrow> fixed_grid \<Rightarrow> int \<Rightarrow> string \<Rightarrow> bool" where
  "lot_inv l p h k \<longleftrightarrow>
     (\<forall>side. map_of (fg_sides p) k = Some side \<longrightarrow> k \<notin> fg_rejected p \<longrightarrow> h = leg_held l side (map_of (fg_remaining p) k)) \<and>
     (\<forall>n. map_of (fg_remaining p) k = Some n \<longrightarrow> 0 < n \<and> n \<le> l) \<and> 0 < l \<and> 0 \<le> h \<and> h \<le> l"

definition cell_inv :: "string set \<Rightarrow> (string \<Rightarrow> int) \<Rightarrow> fixed_grid \<Rightarrow> (string \<Rightarrow> int) \<Rightarrow> last_fills \<Rightarrow> string \<Rightarrow> bool" where
  "cell_inv sized lot p held last_fill k \<longleftrightarrow>
     (\<exists>side armed. map_of (fg_sides p) k = Some side \<and> map_of (fg_armed_from p) k = Some armed \<and>
        turned_before (last_fill k) side armed) \<and>
     (map_of (fg_remaining p) k \<noteq> None \<longrightarrow> k \<notin> fg_rejected p) \<and> (k \<in> sized \<longrightarrow> lot_inv (lot k) p (held k) k)"

definition order_inv :: "fixed_grid \<Rightarrow> last_fills \<Rightarrow> string \<Rightarrow> cell_order \<Rightarrow> bool" where
  "order_inv p last_fill k order \<longleftrightarrow>
     co_cell_id order = k \<and> map_of (fg_sides p) k = Some (co_side order) \<and> map_of (fg_remaining p) k \<noteq> None \<and>
     turned_before (last_fill k) (co_side order) (co_effective_bar order - 1)"

definition grid_inv :: "string set \<Rightarrow> string set \<Rightarrow> (string \<Rightarrow> int) \<Rightarrow> fixed_grid \<Rightarrow> (string \<Rightarrow> int) \<Rightarrow> last_fills \<Rightarrow> bool" where
  "grid_inv ids sized lot p held last_fill \<longleftrightarrow>
     fst ` set (fg_cells p) = ids \<and> (\<forall>(k, c) \<in> set (fg_cells p). gc_quantity c = lot k \<and> (k \<in> sized \<longrightarrow> gc_amount_cny c = None)) \<and>
     (\<forall>k \<in> ids. cell_inv sized lot p held last_fill k) \<and>
     (\<forall>(k, order) \<in> set (fg_pending p). k \<in> ids \<and> order_inv p last_fill k order)"

lemma leg_held_bounds: "0 < l \<Longrightarrow> (\<And>n. left = Some n \<Longrightarrow> 0 < n \<and> n \<le> l) \<Longrightarrow> 0 \<le> leg_held l side left \<and> leg_held l side left \<le> l"
  by (auto simp: leg_held_def split: option.splits)

lemma grid_inv_cell:
  assumes "grid_inv ids sized lot p held last_fill" "(k, c) \<in> set (fg_cells p)"
  shows "k \<in> ids" "gc_quantity c = lot k" "k \<in> sized \<Longrightarrow> gc_amount_cny c = None" "cell_inv sized lot p held last_fill k"
proof -
  have "fst (k, c) \<in> fst ` set (fg_cells p)" using assms(2) by (rule imageI)
  then show "k \<in> ids" using assms(1) by (simp add: grid_inv_def)
  then show "gc_quantity c = lot k" "k \<in> sized \<Longrightarrow> gc_amount_cny c = None" "cell_inv sized lot p held last_fill k"
    using assms by (auto simp: grid_inv_def)
qed

lemma grid_inv_ids: "grid_inv ids sized lot p held last_fill \<Longrightarrow> k \<in> ids \<Longrightarrow> cell_inv sized lot p held last_fill k"
  by (simp add: grid_inv_def)

text \<open>A step that leaves the legs of all cells as they are.\<close>

lemma grid_inv_same:
  assumes "grid_inv ids sized lot p held last_fill"
    and "fst ` set (fg_cells p') = fst ` set (fg_cells p)" "\<forall>(k, c) \<in> set (fg_cells p'). gc_quantity c = lot k \<and> (k \<in> sized \<longrightarrow> gc_amount_cny c = None)"
    and "fg_sides p' = fg_sides p" "fg_armed_from p' = fg_armed_from p" "fg_remaining p' = fg_remaining p" "fg_rejected p' = fg_rejected p"
    and "\<And>k order. (k, order) \<in> set (fg_pending p') \<Longrightarrow>
      \<exists>old. (k, old) \<in> set (fg_pending p) \<and> co_cell_id order = co_cell_id old \<and> co_side order = co_side old \<and>
        co_effective_bar old \<le> co_effective_bar order"
  shows "grid_inv ids sized lot p' held last_fill"
proof -
  have "k \<in> ids \<and> order_inv p' last_fill k order" if o: "(k, order) \<in> set (fg_pending p')" for k order
  proof -
    obtain old where old: "(k, old) \<in> set (fg_pending p)" "co_cell_id order = co_cell_id old" "co_side order = co_side old"
      "co_effective_bar old \<le> co_effective_bar order" using assms(8) [OF o] by blast
    then have "k \<in> ids \<and> order_inv p last_fill k old" using assms(1) by (auto simp: grid_inv_def)
    then show ?thesis using old(2-4) assms(4,6) by (auto simp: order_inv_def turned_before_def split: option.splits)
  qed
  then show ?thesis using assms(1-7) unfolding grid_inv_def cell_inv_def lot_inv_def by auto
qed

section \<open>Every step keeps it\<close>

lemma observe_cell_keeps:
  assumes inv: "grid_inv ids sized lot p held last_fill" and kc: "(k, c) \<in> set (fg_cells p)"
    and step: "observe_cell first bar index minimum increment (k, c) (p, orders) = Inr (p', orders')"
  shows "grid_inv ids sized lot p' held last_fill \<and> fg_cells p' = fg_cells p"
proof -
  have k: "k \<in> ids" "gc_quantity c = lot k" "k \<in> sized \<Longrightarrow> gc_amount_cny c = None" and cell: "cell_inv sized lot p held last_fill k"
    using grid_inv_cell [OF inv kc] by simp_all
  obtain side armed where s: "map_of (fg_sides p) k = Some side" "map_of (fg_armed_from p) k = Some armed"
    "turned_before (last_fill k) side armed" using cell by (auto simp: cell_inv_def)
  have keep: "grid_inv ids sized lot (p\<lparr>fg_startup_reset := x\<rparr>) held last_fill" for x
    using inv by (rule grid_inv_same) (use inv in \<open>auto simp: grid_inv_def\<close>)
  show ?thesis
  proof (cases "p' = p \<or> (\<exists>x. p' = p\<lparr>fg_startup_reset := x\<rparr>)")
    case True
    then show ?thesis using inv keep by auto
  next
    case False
    obtain x order where x: "cell_quantity c (cell_price c side) minimum increment = Inr x"
      and p': "p' = p\<lparr>fg_serial := fg_serial p + 1, fg_pending := AList.update k order (fg_pending p),
        fg_remaining := AList.update k (co_quantity order) (fg_remaining p)\<rparr>"
      and o: "co_cell_id order = k" "co_side order = side" "co_effective_bar order = index + 1" "armed \<le> index"
        "co_quantity order = (case map_of (fg_remaining p) k of None \<Rightarrow> x | Some n \<Rightarrow> n)"
      and free: "k \<notin> fg_rejected p"
      using step False s k(1,2) by (auto simp: observe_cell_def item_def Let_def result_simps split: if_splits)
    have q: "co_quantity order = (case map_of (fg_remaining p) k of None \<Rightarrow> lot k | Some n \<Rightarrow> n)" if "k \<in> sized"
      using x k(2) k(3) [OF that] o(5) by (auto simp: cell_quantity_def split: option.splits)
    have c': "cell_inv sized lot p' held last_fill j" if "j \<in> ids" for j
    proof (cases "j = k")
      case True
      have "lot_inv (lot k) p' (held k) k" if "k \<in> sized"
        using cell q [OF that] that s free p'
        by (auto simp: cell_inv_def lot_inv_def leg_held_def dict_simps split: option.splits)
      then show ?thesis using True s free p' by (auto simp: cell_inv_def)
    next
      case False
      then show ?thesis using inv that p' by (auto simp: grid_inv_def cell_inv_def lot_inv_def dict_simps)
    qed
    have "order_inv p' last_fill k order"
      using o(1-4) s p' by (auto simp: order_inv_def turned_before_def dict_simps split: option.splits)
    then have "j \<in> ids \<and> order_inv p' last_fill j o'" if "(j, o') \<in> set (fg_pending p')" for j o'
      using that inv k p' by (auto simp: grid_inv_def order_inv_def dict_simps dest!: update_entry)
    then show ?thesis using inv c' p' by (auto simp: grid_inv_def)
  qed
qed

lemma observe_keeps:
  assumes inv: "grid_inv ids sized lot p held last_fill" and step: "observe_bar p bar index minimum increment = Inr (p', orders)"
  shows "grid_inv ids sized lot p' held last_fill"
proof -
  let ?p = "p\<lparr>fg_last_observed := index\<rparr>"
  have 1: "grid_inv ids sized lot ?p held last_fill"
    using inv by (rule grid_inv_same) (use inv in \<open>auto simp: grid_inv_def\<close>)
  have "fold_res (observe_cell first bar index minimum increment) cs (q, os) = Inr (p', orders) \<Longrightarrow>
      grid_inv ids sized lot q held last_fill \<Longrightarrow> set cs \<subseteq> set (fg_cells q) \<Longrightarrow> grid_inv ids sized lot p' held last_fill" for first cs q os
  proof (induction cs arbitrary: q os)
    case (Cons kc cs)
    obtain r rs where r: "observe_cell first bar index minimum increment kc (q, os) = Inr (r, rs)"
      "fold_res (observe_cell first bar index minimum increment) cs (r, rs) = Inr (p', orders)"
      using Cons.prems(1) by (auto simp: result_simps)
    have "grid_inv ids sized lot r held last_fill \<and> fg_cells r = fg_cells q"
      using observe_cell_keeps [of ids sized lot q held last_fill "fst kc" "snd kc"] Cons.prems(2,3) r(1) by simp
    then show ?case using Cons.IH [OF r(2)] Cons.prems(3) by auto
  qed simp
  then show ?thesis using step 1 by (auto simp: observe_bar_def Let_def split: if_splits)
qed

lemma working_order_entry:
  assumes "grid_inv ids sized lot p held last_fill" "working_order p order_id = Some order"
  shows "(co_cell_id order, order) \<in> set (fg_pending p)" "co_cell_id order \<in> ids"
    "order_inv p last_fill (co_cell_id order) order" "cell_inv sized lot p held last_fill (co_cell_id order)"
proof -
  have "order \<in> set (map snd (fg_pending p))"
    using assms(2) unfolding working_order_def find_Some_iff by (metis nth_mem)
  then obtain k where k: "(k, order) \<in> set (fg_pending p)" by auto
  then have "k \<in> ids" "order_inv p last_fill k order" using assms(1) by (auto simp: grid_inv_def)
  then show "(co_cell_id order, order) \<in> set (fg_pending p)" "co_cell_id order \<in> ids"
    "order_inv p last_fill (co_cell_id order) order" "cell_inv sized lot p held last_fill (co_cell_id order)"
    using k assms(1) by (auto simp: order_inv_def grid_inv_def)
qed

text \<open>A step that only concerns the cell \<open>key\<close>.\<close>

lemma grid_inv_one_cell:
  assumes inv: "grid_inv ids sized lot p held last_fill"
    and same: "fg_cells p' = fg_cells p" "\<And>k. k \<noteq> key \<Longrightarrow> map_of (fg_sides p') k = map_of (fg_sides p) k"
      "\<And>k. k \<noteq> key \<Longrightarrow> map_of (fg_armed_from p') k = map_of (fg_armed_from p) k"
      "\<And>k. k \<noteq> key \<Longrightarrow> map_of (fg_remaining p') k = map_of (fg_remaining p) k"
      "\<And>k. k \<noteq> key \<Longrightarrow> k \<in> fg_rejected p' \<longleftrightarrow> k \<in> fg_rejected p"
      "\<And>k. k \<noteq> key \<Longrightarrow> held' k = held k" "\<And>k. k \<noteq> key \<Longrightarrow> last' k = last_fill k"
    and pending: "set (fg_pending p') \<subseteq> set (fg_pending p)"
    and key: "key \<in> ids \<Longrightarrow> cell_inv sized lot p' held' last' key" "\<And>order. (key, order) \<in> set (fg_pending p') \<Longrightarrow> order_inv p' last' key order"
  shows "grid_inv ids sized lot p' held' last'"
proof -
  have "cell_inv sized lot p' held' last' k" if "k \<in> ids" for k
  proof (cases "k = key")
    case False
    then have "cell_inv sized lot p' held' last' k \<longleftrightarrow> cell_inv sized lot p held last_fill k" using same by (simp add: cell_inv_def lot_inv_def)
    then show ?thesis using inv that by (simp add: grid_inv_def)
  qed (use key(1) that in simp)
  moreover have "k \<in> ids \<and> order_inv p' last' k order" if "(k, order) \<in> set (fg_pending p')" for k order
  proof -
    have o: "k \<in> ids" "order_inv p last_fill k order" using inv that pending by (auto simp: grid_inv_def)
    then show ?thesis using key(2) that same by (cases "k = key") (auto simp: order_inv_def)
  qed
  ultimately show ?thesis using inv same(1) by (auto simp: grid_inv_def)
qed

lemma cell_fill_keeps:
  assumes inv: "grid_inv ids sized lot p held last_fill" and working: "working_order p order_id = Some order"
    and step: "fill_cell p order_id q index = Inr p'"
  shows "grid_inv ids sized lot p' (held_after order q held) (last_fill(co_cell_id order \<mapsto> (co_side order, index)))"
proof -
  define k where "k = co_cell_id order"
  note w = working_order_entry [OF inv working, folded k_def]
  have side: "map_of (fg_sides p) k = Some (co_side order)" using w(3) by (simp add: order_inv_def)
  obtain n where n: "map_of (fg_remaining p) k = Some n" "0 < q" "q \<le> n" "co_effective_bar order \<le> index"
    and p': "p' = (if n = q then p\<lparr>fg_pending := AList.delete k (fg_pending p), fg_remaining := AList.delete k (fg_remaining p),
        fg_sides := AList.update k (opposite (co_side order)) (fg_sides p), fg_armed_from := AList.update k (index + 1) (fg_armed_from p)\<rparr>
      else p\<lparr>fg_remaining := AList.update k (n - q) (fg_remaining p)\<rparr>)"
    using step working by (auto simp: fill_cell_def item_def k_def Let_def split: option.splits if_splits)
  have c: "k \<notin> fg_rejected p" "k \<in> sized \<Longrightarrow> lot_inv (lot k) p (held k) k" using w(4) n(1) by (auto simp: cell_inv_def)
  show ?thesis unfolding k_def [symmetric]
  proof (rule grid_inv_one_cell [OF inv, where key = k])
    show "set (fg_pending p') \<subseteq> set (fg_pending p)" by (auto simp: p' delete_entries)
    have "lot_inv (lot k) p' (held_after order q held k) k" if "k \<in> sized"
      using c(1) c(2) [OF that] n side
      by (auto simp: lot_inv_def p' dict_simps held_after_def leg_held_def opposite_def k_def [symmetric])
    then show "cell_inv sized lot p' (held_after order q held) (last_fill(k \<mapsto> (co_side order, index))) k"
      using c(1) n side w(4) by (auto simp: cell_inv_def p' dict_simps opposite_def turned_before_def)
    show "order_inv p' (last_fill(k \<mapsto> (co_side order, index))) k o'" if "(k, o') \<in> set (fg_pending p')" for o'
    proof -
      have "order_inv p last_fill k o'" "n \<noteq> q" using that inv p' by (auto simp: grid_inv_def delete_entries split: if_splits)
      then show ?thesis using side by (auto simp: order_inv_def p' dict_simps turned_before_def)
    qed
  qed (auto simp: p' dict_simps held_after_def k_def [symmetric])
qed

lemma reject_keeps:
  assumes inv: "grid_inv ids sized lot p held last_fill" and step: "reject_order p order = Inr p'"
  shows "grid_inv ids sized lot p' held last_fill"
proof -
  let ?k = "co_cell_id order"
  have p': "p' = p\<lparr>fg_pending := AList.delete ?k (fg_pending p), fg_remaining := AList.delete ?k (fg_remaining p),
      fg_rejected := insert ?k (fg_rejected p)\<rparr>"
    using step by (auto simp: reject_order_def Let_def split: if_splits)
  show ?thesis
  proof (rule grid_inv_one_cell [OF inv, where key = ?k])
    show "?k \<in> ids \<Longrightarrow> cell_inv sized lot p' held last_fill ?k"
      using grid_inv_ids [OF inv, of ?k] by (auto simp: cell_inv_def lot_inv_def p' dict_simps)
  qed (auto simp: p' dict_simps)
qed

lemma release_keeps:
  assumes inv: "grid_inv ids sized lot p held last_fill" and step: "release_cell p key index = Inr (p', order)"
  shows "grid_inv ids sized lot p' (held(key := 0)) (last_fill(key := None))"
proof -
  have p': "p' = p\<lparr>fg_pending := AList.delete key (fg_pending p), fg_remaining := AList.delete key (fg_remaining p),
      fg_rejected := fg_rejected p - {key}, fg_sides := AList.update key BuySide (fg_sides p),
      fg_armed_from := AList.update key (index + 1) (fg_armed_from p)\<rparr>"
    using step by (auto simp: release_cell_def split: if_splits)
  show ?thesis
  proof (rule grid_inv_one_cell [OF inv, where key = key])
    show "key \<in> ids \<Longrightarrow> cell_inv sized lot p' (held(key := 0)) (last_fill(key := None)) key"
      using grid_inv_ids [OF inv, of key] by (auto simp: cell_inv_def lot_inv_def p' dict_simps turned_before_def leg_held_def)
  qed (auto simp: p' dict_simps)
qed

lemma reset_cells:
  "fold (reset_cell side index) cs p =
     p\<lparr>fg_rejected := fg_rejected p - fst ` set cs, fg_sides := fold (\<lambda>kc. AList.update (fst kc) side) cs (fg_sides p),
       fg_armed_from := fold (\<lambda>kc. AList.update (fst kc) (index + 1)) cs (fg_armed_from p)\<rparr>"
  by (induction cs arbitrary: p) (auto simp: reset_cell_def Diff_insert2 [symmetric])

lemma map_of_updates: "map_of (fold (\<lambda>kc. AList.update (fst kc) v) cs d) k = (if k \<in> fst ` set cs then Some v else map_of d k)"
  by (induction cs arbitrary: d) (auto simp: AList.update_conv')

lemma reset_keeps:
  assumes inv: "grid_inv ids sized lot p held last_fill" and step: "reset_side side before after = Some back" "fg_active_sides p = {back}"
  shows "grid_inv ids sized lot (fst (after_external_fill p side before after index)) (held_at_reset lot back) (\<lambda>_. None)"
proof -
  have "cell_inv sized lot (fst (after_external_fill p side before after index)) (held_at_reset lot back) (\<lambda>_. None) k" if "k \<in> ids" for k
  proof -
    have "k \<in> fst ` set (fg_cells p)" using inv that by (simp add: grid_inv_def)
    moreover have "k \<in> sized \<Longrightarrow> 0 < lot k" using grid_inv_ids [OF inv that] by (simp add: cell_inv_def lot_inv_def)
    ultimately show ?thesis using step
      by (auto simp: cell_inv_def lot_inv_def after_external_fill_def reset_cells map_of_updates turned_before_def leg_held_def held_at_reset_def)
  qed
  then show ?thesis using inv step by (auto simp: grid_inv_def after_external_fill_def reset_cells)
qed

lemma exit_keeps: "grid_inv ids sized lot p held last_fill \<Longrightarrow> grid_inv ids sized lot (fst (cancel_for_exit p)) held last_fill"
  by (rule grid_inv_same [of ids sized lot p]) (auto simp: cancel_for_exit_def grid_inv_def)

lemma resume_keeps: "grid_inv ids sized lot p held last_fill \<Longrightarrow> grid_inv ids sized lot (p\<lparr>fg_paused := False\<rparr>) held last_fill"
  by (rule grid_inv_same [of ids sized lot p]) (auto simp: grid_inv_def)

lemma reissue_keeps:
  assumes inv: "grid_inv ids sized lot p held last_fill" and old: "co_cell_id old \<in> ids" "order_inv p last_fill (co_cell_id old) old"
      "co_effective_bar old < b"
    and step: "reissue b old p = Inr p'"
  shows "grid_inv ids sized lot p' held last_fill" "fg_sides p' = fg_sides p" "fg_remaining p' = fg_remaining p"
proof -
  obtain order where p': "p' = p\<lparr>fg_serial := fg_serial p + 1, fg_pending := AList.update (co_cell_id old) order (fg_pending p)\<rparr>"
    and o: "co_cell_id order = co_cell_id old" "co_side order = co_side old" "co_effective_bar order = b"
    using step by (auto simp: reissue_def result_simps Let_def)
  show "fg_sides p' = fg_sides p" "fg_remaining p' = fg_remaining p" by (simp_all add: p')
  have new: "order_inv p last_fill (co_cell_id old) order"
    using old o by (auto simp: order_inv_def turned_before_def split: option.splits)
  have "k \<in> ids \<and> order_inv p' last_fill k o'" if "(k, o') \<in> set (fg_pending p')" for k o'
    using that new old(1) inv p' by (auto simp: grid_inv_def order_inv_def dest!: update_entry)
  then show "grid_inv ids sized lot p' held last_fill" using inv p' by (auto simp: grid_inv_def cell_inv_def lot_inv_def)
qed

lemma expire_keeps:
  assumes inv: "grid_inv ids sized lot p held last_fill" and step: "expire_day p next_bar rebuild = Inr (p', orders)"
  shows "grid_inv ids sized lot p' held last_fill"
proof -
  define p1 where "p1 = p\<lparr>fg_pending := filter (\<lambda>(k, o'). o' \<notin> set (expired_orders p next_bar)) (fg_pending p)\<rparr>"
  have 1: "grid_inv ids sized lot p1 held last_fill"
    using inv by (rule grid_inv_same) (use inv in \<open>auto simp: p1_def grid_inv_def\<close>)
  show ?thesis
  proof (cases "\<exists>b. next_bar = Some b \<and> \<not> fg_paused p \<and> rebuild")
    case False
    then show ?thesis using step 1 by (auto simp: expire_day_def Let_def p1_def split: option.splits)
  next
    case True
    then obtain b where b: "next_bar = Some b" by blast
    have old: "co_cell_id o' \<in> ids \<and> order_inv p1 last_fill (co_cell_id o') o' \<and> co_effective_bar o' < b"
      if o: "o' \<in> set (expired_orders p (Some b))" for o'
    proof -
      have "o' \<in> snd ` set (fg_pending p)" "co_effective_bar o' < b" using o by (auto simp: expired_orders_def)
      then obtain k where "(k, o') \<in> set (fg_pending p)" by auto
      then have "k \<in> ids" "order_inv p last_fill k o'" using inv by (auto simp: grid_inv_def)
      then show ?thesis using \<open>co_effective_bar o' < b\<close> by (auto simp: order_inv_def p1_def)
    qed
    have loop: "fold_res (reissue b) os q = Inr p' \<Longrightarrow> grid_inv ids sized lot q held last_fill \<Longrightarrow> fg_sides q = fg_sides p1 \<Longrightarrow>
        fg_remaining q = fg_remaining p1 \<Longrightarrow> set os \<subseteq> set (expired_orders p (Some b)) \<Longrightarrow> grid_inv ids sized lot p' held last_fill" for os q
    proof (induction os arbitrary: q)
      case (Cons o' os)
      obtain r where r: "reissue b o' q = Inr r" "fold_res (reissue b) os r = Inr p'"
        using Cons.prems(1) by (auto simp: result_simps)
      have "co_cell_id o' \<in> ids" "order_inv q last_fill (co_cell_id o') o'" "co_effective_bar o' < b"
        using old [of o'] Cons.prems(3-5) by (auto simp: order_inv_def)
      note keep = reissue_keeps [OF Cons.prems(2) this r(1)]
      then show ?case using Cons.IH [OF r(2)] Cons.prems by simp
    qed simp
    have "fold_res (reissue b) (expired_orders p (Some b)) p1 = Inr p'"
      using step True b by (auto simp: expire_day_def Let_def result_simps p1_def)
    then show ?thesis using loop 1 by blast
  qed
qed

lemma cells_rebase_keeps:
  assumes inv: "grid_inv ids sized lot p held last_fill" and step: "rebase_fixed_grid r tick p = Inr p'"
  shows "grid_inv ids sized lot p' held last_fill"
proof -
  obtain cells pending where m: "map_values (rebase_cell r tick) (fg_cells p) = Inr cells"
    "map_values (rebase_cell_order r tick) (fg_pending p) = Inr pending" and p': "p' = p\<lparr>fg_cells := cells, fg_pending := pending\<rparr>"
    using step by (auto simp: rebase_fixed_grid_def result_simps)
  have c: "gc_quantity c' = gc_quantity c \<and> gc_amount_cny c' = gc_amount_cny c" if "rebase_cell r tick c = Inr c'" for c c'
    using that by (auto simp: rebase_cell_def mk_cell_def construct_Inr result_simps)
  have "gc_quantity c = lot k \<and> (k \<in> sized \<longrightarrow> gc_amount_cny c = None)" if "(k, c) \<in> set cells" for k c
    using map_values_entry [OF m(1) that] c inv by (fastforce simp: grid_inv_def)
  moreover have "\<exists>old. (k, old) \<in> set (fg_pending p) \<and> co_cell_id order = co_cell_id old \<and> co_side order = co_side old \<and>
      co_effective_bar old \<le> co_effective_bar order" if "(k, order) \<in> set pending" for k order
    using map_values_entry [OF m(2) that] by (auto simp: rebase_cell_order_def result_simps)
  moreover have "fst ` set cells = fst ` set (fg_cells p)" using map_values_keys [OF m(1)] by (metis set_map)
  ultimately show ?thesis by (intro grid_inv_same [OF inv]) (auto simp: p')
qed

section \<open>Whole histories\<close>

definition share_cells :: "grid_cell list \<Rightarrow> string set" where
  "share_cells cells = gc_cell_id ` {c \<in> set cells. gc_amount_cny c = None}"

lemma initial_grid_inv:
  assumes "mk_fixed_grid cells wait active = Inr p" "\<forall>c \<in> set cells. is_ok (mk_cell c)"
    and lot: "\<forall>c \<in> set cells. lot (gc_cell_id c) = gc_quantity c"
  shows "grid_inv (gc_cell_id ` set cells) (share_cells cells) lot p
    (\<lambda>k. case map_of (fg_sides p) k of None \<Rightarrow> 0 | Some side \<Rightarrow> held_at_reset lot side k) (\<lambda>_. None)"
proof -
  have d: "distinct (map gc_cell_id cells)" and p: "fg_cells p = map (\<lambda>c. (gc_cell_id c, c)) cells"
    "fg_sides p = map (\<lambda>c. (gc_cell_id c, gc_first_side c)) cells" "fg_armed_from p = map (\<lambda>c. (gc_cell_id c, 0)) cells"
    "fg_pending p = []" "fg_remaining p = []"
    using assms(1) by (auto simp: mk_fixed_grid_def result_simps)
  have entry: "map_of (map (\<lambda>c. (gc_cell_id c, f c)) cells) (gc_cell_id c) = Some (f c)" if "c \<in> set cells" for c f
    using d that by (intro map_of_is_SomeI) (auto simp: comp_def)
  have "0 < gc_quantity c \<and> 0 \<le> gc_quantity c" if "c \<in> set cells" for c
    using assms(2) that by (auto simp: mk_cell_def is_ok_iff construct_Inr result_simps cell_checks_def)
  moreover have "gc_amount_cny c = None" if "c \<in> set cells" "gc_cell_id c \<in> share_cells cells" for c
    using d that by (auto simp: share_cells_def distinct_map dest: inj_onD)
  ultimately show ?thesis
    using lot
    by (auto simp: grid_inv_def cell_inv_def lot_inv_def p entry turned_before_def leg_held_def held_at_reset_def image_image comp_def)
qed

lemma history_grid_inv:
  assumes "grid_history lot p0 p held last_fill"
    and "grid_inv ids sized lot p0 (\<lambda>k. case map_of (fg_sides p0) k of None \<Rightarrow> 0 | Some side \<Rightarrow> held_at_reset lot side k) (\<lambda>_. None)"
  shows "grid_inv ids sized lot p held last_fill"
  using assms
  by (induction) (auto intro: observe_keeps cell_fill_keeps reject_keeps expire_keeps exit_keeps resume_keeps release_keeps reset_keeps cells_rebase_keeps)

text \<open>C7: in every history of a fixed grid, however bars, partial fills, rejections, session ends, exits and ex-dates
  interleave, every working order trades the side of its own cell for an outstanding remainder, and it cannot fill on the bar of
  the cell's opposite fill or the next one. A cell that is sized in shares holds between zero shares and its lot, and its
  working order completes exactly its leg: a buy fills the lot, a sale empties it. (For a cell sized by an amount, whose legs are
  computed from their prices, nothing is said about the shares held.)\<close>

theorem grid_cells_hold_their_lots:
  assumes "mk_fixed_grid cells wait active = Inr p0" and "\<forall>c \<in> set cells. is_ok (mk_cell c)"
    and "\<forall>c \<in> set cells. lot (gc_cell_id c) = gc_quantity c" and "grid_history lot p0 p held last_fill"
  shows "(\<forall>c \<in> set cells. gc_amount_cny c = None \<longrightarrow> 0 \<le> held (gc_cell_id c) \<and> held (gc_cell_id c) \<le> gc_quantity c) \<and>
    (\<forall>(k, order) \<in> set (fg_pending p). co_cell_id order = k \<and> k \<in> gc_cell_id ` set cells \<and>
      map_of (fg_sides p) k = Some (co_side order) \<and>
      (\<forall>side i. last_fill k = Some (side, i) \<longrightarrow> side \<noteq> co_side order \<longrightarrow> i + 1 < co_effective_bar order) \<and>
      (\<exists>n. map_of (fg_remaining p) k = Some n \<and>
        (\<forall>c \<in> set cells. gc_cell_id c = k \<and> gc_amount_cny c = None \<longrightarrow>
          0 < n \<and> held_after order n held k = (if co_side order = BuySide then gc_quantity c else 0))))"
proof -
  note inv = history_grid_inv [OF assms(4) initial_grid_inv [OF assms(1-3)]]
  have "co_cell_id order = k \<and> k \<in> gc_cell_id ` set cells \<and> map_of (fg_sides p) k = Some (co_side order) \<and>
      (\<forall>side i. last_fill k = Some (side, i) \<longrightarrow> side \<noteq> co_side order \<longrightarrow> i + 1 < co_effective_bar order) \<and>
      (\<exists>n. map_of (fg_remaining p) k = Some n \<and>
        (\<forall>c \<in> set cells. gc_cell_id c = k \<and> gc_amount_cny c = None \<longrightarrow>
          0 < n \<and> held_after order n held k = (if co_side order = BuySide then gc_quantity c else 0)))"
    if "(k, order) \<in> set (fg_pending p)" for k order
  proof -
    have o: "k \<in> gc_cell_id ` set cells" "order_inv p last_fill k order" using inv that by (auto simp: grid_inv_def)
    have c: "cell_inv (share_cells cells) lot p held last_fill k" by (rule grid_inv_ids [OF inv o(1)])
    obtain n where n: "map_of (fg_remaining p) k = Some n" using o(2) by (auto simp: order_inv_def)
    have "0 < n \<and> held_after order n held k = (if co_side order = BuySide then gc_quantity c else 0)"
      if "c \<in> set cells" "gc_cell_id c = k" "gc_amount_cny c = None" for c
    proof -
      have "lot_inv (gc_quantity c) p (held k) k" "k \<notin> fg_rejected p"
        using c n that assms(3) by (auto simp: cell_inv_def share_cells_def)
      then show ?thesis using n o(2) by (auto simp: lot_inv_def order_inv_def held_after_def leg_held_def)
    qed
    then show ?thesis using o n by (auto simp: order_inv_def turned_before_def split: option.splits)
  qed
  moreover have "0 \<le> held (gc_cell_id c) \<and> held (gc_cell_id c) \<le> gc_quantity c" if "c \<in> set cells" "gc_amount_cny c = None" for c
    using grid_inv_ids [OF inv, of "gc_cell_id c"] that assms(3) by (auto simp: cell_inv_def lot_inv_def share_cells_def)
  ultimately show ?thesis by blast
qed

section \<open>Executing a history\<close>

datatype grid_event = CompletedBar bar_prices int | ExecutedFill string int int | SessionEnds "int option"

fun replay_event :: "grid_event \<Rightarrow> fixed_grid \<times> (string \<Rightarrow> int) \<times> last_fills \<Rightarrow> (fixed_grid \<times> (string \<Rightarrow> int) \<times> last_fills) result" where
  "replay_event (CompletedBar bar index) (p, held, l) = rbind (observe_bar p bar index 100 100) (\<lambda>(p', _). Inr (p', held, l))"
| "replay_event (ExecutedFill order_id q index) (p, held, l) =
     (case working_order p order_id of
        None \<Rightarrow> Inr (p, held, l)
      | Some order \<Rightarrow>
          rbind (fill_cell p order_id q index) (\<lambda>p'.
            Inr (p', held_after order q held, l(co_cell_id order \<mapsto> (co_side order, index)))))"
| "replay_event (SessionEnds next_bar) (p, held, l) = rbind (expire_day p next_bar True) (\<lambda>(p', _). Inr (p', held, l))"

lemma replay_history:
  assumes "fold_res replay_event es (p, held, l) = Inr (p', held', l')" "grid_history lot p0 p held l"
  shows "grid_history lot p0 p' held' l'"
  using assms
proof (induction es arbitrary: p held l)
  case (Cons e es)
  obtain q h m where q: "replay_event e (p, held, l) = Inr (q, h, m)" "fold_res replay_event es (q, h, m) = Inr (p', held', l')"
    using Cons.prems(1) by (auto simp: result_simps)
  have "grid_history lot p0 q h m"
  proof (cases e)
    case (ExecutedFill order_id n index)
    then show ?thesis
      using q(1) Cons.prems(2) by (auto simp: result_simps split: option.splits intro: grid_history.filled)
  qed (use q(1) Cons.prems(2) in \<open>auto simp: result_simps intro: grid_history.observed grid_history.ended\<close>)
  then show ?case using Cons.IH q(2) by blast
qed simp

definition demo_cell :: "string \<Rightarrow> rat \<Rightarrow> int \<Rightarrow> grid_cell" where
  "demo_cell k price q = \<lparr>gc_cell_id = k, gc_buy_price = price, gc_sell_price = price + 1, gc_quantity = q, gc_first_side = BuySide,
     gc_order_type = GridLimitOrder, gc_buy_limit = None, gc_sell_limit = None, gc_amount_cny = None\<rparr>"

definition demo_bar :: "rat \<Rightarrow> rat \<Rightarrow> bar_prices" where
  "demo_bar low high = \<lparr>bp_open = low, bp_high = high, bp_low = low, bp_close = high\<rparr>"

definition demo_grid :: "fixed_grid result" where
  "demo_grid = mk_fixed_grid [demo_cell ''a'' 9 200, demo_cell ''b'' 8 100] False [BuySide, SellSide]"

definition demo_lot :: "string \<Rightarrow> int" where
  "demo_lot k = (if k = ''a'' then 200 else 100)"

definition demo_replay :: "grid_event list" where
  "demo_replay = [CompletedBar (demo_bar 9 10) 0, ExecutedFill ''grid:a:1'' 120 1, SessionEnds (Some 2), ExecutedFill ''grid:a:2'' 80 2,
     CompletedBar (demo_bar 9 10) 3, ExecutedFill ''grid:a:3'' 50 4]"

definition demo_history :: "(fixed_grid \<times> (string \<Rightarrow> int) \<times> last_fills) result" where
  "demo_history = rbind demo_grid (\<lambda>p. fold_res replay_event demo_replay
     (p, \<lambda>k. case map_of (fg_sides p) k of None \<Rightarrow> 0 | Some side \<Rightarrow> held_at_reset demo_lot side k, \<lambda>_. None))"

lemma demo_history_run:
  "case demo_history of
     Inl _ \<Rightarrow> False
   | Inr (p, held, l) \<Rightarrow>
       held ''a'' = 150 \<and> held ''b'' = 0 \<and> l ''a'' = Some (SellSide, 4) \<and> fg_remaining p = [(''a'', 150)] \<and>
       map (\<lambda>(k, order). (k, co_side order, co_order_id order)) (fg_pending p) = [(''a'', SellSide, ''grid:a:3'')]"
  "is_ok (mk_cell (demo_cell ''a'' 9 200))" "is_ok (mk_cell (demo_cell ''b'' 8 100))"
  by code_simp+

theorem grid_cells_hold_their_lots_witness:
  "\<exists>p held l. demo_history = Inr (p, held, l) \<and> held ''a'' = 150 \<and> held ''a'' \<le> 200 \<and> 0 \<le> held ''b'' \<and> held ''b'' \<le> 100 \<and>
     (\<exists>order. (''a'', order) \<in> set (fg_pending p) \<and> held_after order 150 held ''a'' = 0)"
proof -
  obtain p held l where h: "demo_history = Inr (p, held, l)" using demo_history_run(1) by (auto split: sum.splits)
  obtain p0 where p0: "mk_fixed_grid [demo_cell ''a'' 9 200, demo_cell ''b'' 8 100] False [BuySide, SellSide] = Inr p0"
    using h by (auto simp: demo_history_def demo_grid_def result_simps)
  have "grid_history demo_lot p0 p held l"
    using h p0 grid_history.start by (auto simp: demo_history_def demo_grid_def intro: replay_history)
  note t = grid_cells_hold_their_lots [OF p0 _ _ this]
  have state: "held ''a'' = 150" "fg_remaining p = [(''a'', 150)]"
    "map (\<lambda>(k, order). (k, co_side order, co_order_id order)) (fg_pending p) = [(''a'', SellSide, ''grid:a:3'')]"
    using demo_history_run(1) unfolding h by simp_all
  then obtain order where o: "fg_pending p = [(''a'', order)]" "co_side order = SellSide" by auto
  then have "0 \<le> held ''b''" "held ''b'' \<le> 100" "held_after order 150 held ''a'' = 0"
    using t state(2) demo_history_run(2,3) by (simp_all add: demo_cell_def demo_lot_def)
  then show ?thesis using h state(1) o(1) by (intro exI [of _ p] exI [of _ held] exI [of _ l]) auto
qed

end
