(* ===== verification/TriggerGrid.thy ===== *)
theory TriggerGrid
  imports FixedGrid
begin

text \<open>
  The two policies that derive from the fixed grid: \<open>application/trigger_grid_orders.py\<close>, a grid whose base price
  follows every trigger and whose sides fall asleep when the account cannot serve them, and
  \<open>application/daily_grid_orders.py\<close>, daily target positions on the minute ledger.  The inherited fields are
  a \<open>fixed_grid\<close> without cells; \<open>quote\<close> stands for the fee provider of the caller.
\<close>

section \<open>Bars with their session (minute_grid_replay.py)\<close>

record replay_bar =
  rp_ended_at :: datetime
  rp_prices :: bar_prices
  rp_session :: instrument_session
  rp_next_session :: date
  rp_volume_shares :: int

definition replay_bar_checks :: "replay_bar \<Rightarrow> (bool \<times> py_error) list" where
  "replay_bar_checks b =
    [(rp_volume_shares b < 0, ValueError ''minute volume must be nonnegative whole shares''),
     (shanghai_date (rp_ended_at b) \<noteq> s_session_date (rp_session b), ValueError ''bar date differs from security session''),
     (rp_next_session b \<le> s_session_date (rp_session b), ValueError ''next_session must be a later market session'')]"

definition mk_replay_bar :: "replay_bar \<Rightarrow> replay_bar result" where
  "mk_replay_bar b = construct (\<lambda>b. checks (replay_bar_checks b)) b"

section \<open>Trigger grids\<close>

datatype sleep_reason =
    GridPriceOutsideRange | AmountBelowMinimumOrder | InvalidBuyQuantity | InsufficientPosition | MinimumInventoryReached
  | TPlusOneLocked | MaximumInventoryExceeded | MaximumPositionValueExceeded | InsufficientCashIncludingFees
  | BuyAtUpperLimit | SellAtLowerLimit | SecurityNotTrading | NoMarketTrades | OtherReason string

datatype monitoring_event =
    Sleeping int datetime plan_side sleep_reason rat
  | Ambiguous int datetime rat
  | Triggered int datetime plan_side string rat rat

record trigger_grid =
  tg_orders :: fixed_grid
  tg_parameters :: grid_parameters
  tg_anchor :: rat
  tg_sleeping :: "(plan_side \<times> sleep_reason) list"
  tg_monitoring_events :: "monitoring_event list"
  tg_account :: "portfolio_state option"
  tg_current_bar :: "replay_bar option"
  tg_order_prices :: "(string \<times> rat) list"
  tg_startup_reset :: "plan_side set"

definition mk_trigger_grid :: "grid_parameters \<Rightarrow> plan_side list \<Rightarrow> trigger_grid result" where
  "mk_trigger_grid g active_sides =
     rbind (mk_fixed_grid [] False active_sides) (\<lambda>orders.
     rbind (resolved_anchor g) (\<lambda>anchor.
       Inr \<lparr>tg_orders = orders, tg_parameters = g, tg_anchor = anchor, tg_sleeping = [], tg_monitoring_events = [],
            tg_account = None, tg_current_bar = None, tg_order_prices = [], tg_startup_reset = {}\<rparr>))"

definition trigger_before_observe :: "trigger_grid \<Rightarrow> portfolio_state \<Rightarrow> replay_bar \<Rightarrow> trigger_grid" where
  "trigger_before_observe t account bar = t\<lparr>tg_account := Some account, tg_current_bar := Some bar\<rparr>"

text \<open>An order enters the books: \<open>pending\<close>, \<open>remaining\<close> and \<open>order_prices\<close>.\<close>

definition enter_order :: "cell_order \<Rightarrow> rat \<Rightarrow> trigger_grid \<Rightarrow> trigger_grid" where
  "enter_order order price t =
     (let k = co_cell_id order; p = tg_orders t
      in t\<lparr>tg_orders := p\<lparr>fg_pending := AList.update k order (fg_pending p),
                         fg_remaining := AList.update k (co_quantity order) (fg_remaining p)\<rparr>,
           tg_order_prices := AList.update k price (tg_order_prices t)\<rparr>)"

definition trigger_prepare_bar :: "trigger_grid \<Rightarrow> portfolio_state \<Rightarrow> replay_bar \<Rightarrow> int \<Rightarrow> trigger_grid \<times> cell_order list" where
  "trigger_prepare_bar t account bar index =
     (let t1 = trigger_before_observe t account bar
      in if index = 0 \<and> gp_initial_shares (tg_parameters t1) \<noteq> 0 then
           let order = \<lparr>co_order_id = ''grid-initial-build'', co_cell_id = ''initial-build'', co_side = BuySide,
                        co_quantity = gp_initial_shares (tg_parameters t1), co_limit_price = None,
                        co_signal_bar = index - 1, co_effective_bar = index\<rparr>
           in (enter_order order (bp_open (rp_prices bar)) t1, [order])
         else (t1, []))"

text \<open>\<open>_state\<close>: a side falls asleep once, for the rest of the run.\<close>

definition fall_asleep :: "plan_side \<Rightarrow> sleep_reason option \<Rightarrow> int \<Rightarrow> trigger_grid \<Rightarrow> trigger_grid result" where
  "fall_asleep side reason index t =
     (case reason of
        None \<Rightarrow> Inr t
      | Some r \<Rightarrow>
          if map_of (tg_sleeping t) side \<noteq> None then Inr t
          else (case tg_current_bar t of
                  None \<Rightarrow> Inl AttributeError
                | Some bar \<Rightarrow>
                    Inr (t\<lparr>tg_sleeping := AList.update side r (tg_sleeping t),
                           tg_monitoring_events := tg_monitoring_events t @ [Sleeping index (rp_ended_at bar) side r (tg_anchor t)]\<rparr>)))"

definition trigger_threshold :: "trigger_grid \<Rightarrow> plan_side \<Rightarrow> rat result" where
  "trigger_threshold t side =
     (case spacing_for (tg_parameters t) side of (mode, spacing) \<Rightarrow>
        rbind (if mode = SPACE_PERCENT
               then (if side = BuySide then quot ctx (tg_anchor t) (grid_ratio spacing) else Inr (dec_mul (tg_anchor t) (grid_ratio spacing)))
               else (let gap = grid_step mode spacing (tg_anchor t)
                     in Inr (dec_add (tg_anchor t) (dec_mul (if side = BuySide then - 1 else 1) gap))))
          (quantize_by (if side = BuySide then floor else ceiling) 2))"

definition trigger_quantity :: "trigger_grid \<Rightarrow> rat \<Rightarrow> int \<Rightarrow> int \<Rightarrow> int result" where
  "trigger_quantity t price minimum increment =
     (let g = tg_parameters t
      in if gp_sizing_mode g = GRID_SHARES then Inr (gp_order_shares g)
         else
           rbind (if 0 < price then rbind (quot ctx (gp_order_amount_cny g) price) (\<lambda>n. Inr (py_int n)) else Inr 0) (\<lambda>maximum.
             if minimum \<le> maximum then
               (if increment = 0 then Inl ZeroDivisionError else Inr (minimum + (maximum - minimum) div increment * increment))
             else Inr 0))"

definition trigger_limit :: "trigger_grid \<Rightarrow> plan_side \<Rightarrow> rat \<Rightarrow> rat option" where
  "trigger_limit t side trigger =
     (let g = tg_parameters t
      in case gp_price_mode g of
           NEXT_OPEN \<Rightarrow> None
         | FIXED_LIMIT \<Rightarrow> (if side = BuySide then gp_buy_limit g else gp_sell_limit g)
         | GRID_LIMIT \<Rightarrow> Some (dec_add trigger (dec_mul (gp_limit_offset_cny g) (if side = BuySide then 1 else - 1))))"

type_synonym fee_quotes = "order_side \<Rightarrow> price \<Rightarrow> int \<Rightarrow> date \<Rightarrow> fee_breakdown result"

definition trigger_cost :: "fee_quotes \<Rightarrow> grid_parameters \<Rightarrow> date \<Rightarrow> rat \<Rightarrow> int \<Rightarrow> rat result" where
  "trigger_cost quote g day price quantity =
     rbind (quantize_by ceiling 2 (dec_add (dec_mul price (dec_add 1 (ctx (gp_slippage_bps g / 10000)))) (gp_slippage_cny g))) (\<lambda>x.
     rbind (mk_price x ''CNY'') (\<lambda>p.
     rbind (mk_quantity quantity) (\<lambda>q.
     rbind (quote BUY p q day) (\<lambda>fees.
     rbind (fee_total fees) (\<lambda>m.
       Inr (dec_add (dec_mul x (of_int quantity)) (amount m)))))))"

definition pending_on :: "fixed_grid \<Rightarrow> plan_side \<Rightarrow> cell_order list" where
  "pending_on p side = filter (\<lambda>o'. co_side o' = side) (map snd (fg_pending p))"

definition reserved_shares :: "fixed_grid \<Rightarrow> plan_side \<Rightarrow> int result" where
  "reserved_shares p side =
     rbind (map_res (\<lambda>o'. item (fg_remaining p) (co_cell_id o')) (pending_on p side)) (\<lambda>ns. Inr (sum_list ns))"

definition reserved_cost :: "fee_quotes \<Rightarrow> date \<Rightarrow> trigger_grid \<Rightarrow> cell_order \<Rightarrow> rat result" where
  "reserved_cost quote day t order =
     rbind (case co_limit_price order of
              Some l \<Rightarrow> if l = 0 then item (tg_order_prices t) (co_cell_id order) else Inr l
            | None \<Rightarrow> item (tg_order_prices t) (co_cell_id order)) (\<lambda>price.
     rbind (item (fg_remaining (tg_orders t)) (co_cell_id order)) (trigger_cost quote (tg_parameters t) day price))"

definition reserved_cash :: "fee_quotes \<Rightarrow> date \<Rightarrow> trigger_grid \<Rightarrow> rat result" where
  "reserved_cash quote day t =
     rbind (map_res (reserved_cost quote day t) (pending_on (tg_orders t) BuySide)) (\<lambda>cs. Inr (fold (\<lambda>c x. dec_add x c) cs 0))"

definition sell_unavailable :: "trigger_grid \<Rightarrow> portfolio_state \<Rightarrow> instrument_session \<Rightarrow> int \<Rightarrow> int \<Rightarrow> sleep_reason option" where
  "sell_unavailable t account session reserved quantity =
     (let held = position_quantity account (s_instrument_id session)
      in if held - reserved - quantity < gp_min_shares (tg_parameters t) then
           Some (if held < reserved + quantity then InsufficientPosition else MinimumInventoryReached)
         else if sellable_quantity account (s_instrument_id session) (s_session_date session) - reserved < quantity then Some TPlusOneLocked
         else None)"

definition buy_unavailable ::
  "fee_quotes \<Rightarrow> trigger_grid \<Rightarrow> portfolio_state \<Rightarrow> instrument_session \<Rightarrow> int \<Rightarrow> rat \<Rightarrow> int \<Rightarrow> sleep_reason option result" where
  "buy_unavailable quote t account session reserved price quantity =
     (let g = tg_parameters t; held = position_quantity account (s_instrument_id session)
      in if gp_max_shares g < held + reserved + quantity then Inr (Some MaximumInventoryExceeded)
         else if opt_any (\<lambda>m. m < dec_mul (of_int (held + reserved + quantity)) price) (gp_max_position_cny g)
         then Inr (Some MaximumPositionValueExceeded)
         else
           rbind (reserved_cash quote (s_session_date session) t) (\<lambda>cash.
           rbind (trigger_cost quote g (s_session_date session) price quantity) (\<lambda>cost.
             Inr (if amount (ps_cash account) < dec_add cost cash then Some InsufficientCashIncludingFees else None))))"

definition order_unavailable ::
  "fee_quotes \<Rightarrow> trigger_grid \<Rightarrow> portfolio_state \<Rightarrow> instrument_session \<Rightarrow> plan_side \<Rightarrow> rat \<Rightarrow> int \<Rightarrow> sleep_reason option result" where
  "order_unavailable quote t account session side trigger quantity =
     (let g = tg_parameters t; limit = trigger_limit t side trigger;
          inside = (\<lambda>x. gp_lower_price g \<le> x \<and> x \<le> gp_upper_price g)
      in if \<not> inside trigger \<or> opt_any (\<lambda>l. \<not> inside l) limit then Inr (Some GridPriceOutsideRange)
         else if quantity \<le> 0 then Inr (Some AmountBelowMinimumOrder)
         else if side = BuySide \<and> \<not> is_valid_buy_quantity session quantity then Inr (Some InvalidBuyQuantity)
         else
           rbind (reserved_shares (tg_orders t) side) (\<lambda>reserved.
             if side = SellSide then Inr (sell_unavailable t account session reserved quantity)
             else buy_unavailable quote t account session reserved (or_else limit trigger) quantity))"

text \<open>The start-up reset of one side; \<open>None\<close> for a threshold that was crossed inside this bar.\<close>

definition reset_side_at ::
  "bool \<Rightarrow> bar_prices \<Rightarrow> plan_side \<times> rat \<Rightarrow> plan_side set \<Rightarrow> plan_side set \<times> rat option" where
  "reset_side_at waiting bar sl reset =
     (case sl of (side, level) \<Rightarrow>
        let r = (if waiting \<and> reaches_price side (bp_open bar) level then insert side reset else reset)
        in if side \<in> r \<and> \<not> reaches_price side (bp_close bar) level then (r - {side}, None) else (r, Some level))"

definition trigger_candidate :: "trigger_grid \<Rightarrow> bar_prices \<Rightarrow> plan_side \<Rightarrow> rat option \<Rightarrow> (plan_side \<times> rat \<times> bool) list" where
  "trigger_candidate t bar side level =
     (case level of
        None \<Rightarrow> []
      | Some l \<Rightarrow>
          if map_of (tg_sleeping t) side \<noteq> None \<or> side \<in> tg_startup_reset t \<or> \<not> touches bar side l then []
          else [(side, l, reaches_price side (bp_open bar) l)])"

definition continuous_auction :: "clock_time \<Rightarrow> bool" where
  "continuous_auction c \<longleftrightarrow> (hm 9 30 < c \<and> c \<le> hm 11 30) \<or> (hm 13 0 < c \<and> c \<le> hm 14 57)"

definition reset_sides :: "trigger_grid \<Rightarrow> bool \<Rightarrow> bar_prices \<Rightarrow> (plan_side \<times> rat) list \<Rightarrow> trigger_grid \<times> (plan_side \<times> rat option) list" where
  "reset_sides t waiting bar levels =
     fold (\<lambda>sl (t, done'). case reset_side_at waiting bar sl (tg_startup_reset t) of
         (r, level) \<Rightarrow> (t\<lparr>tg_startup_reset := r\<rparr>, done' @ [(fst sl, level)])) levels (t, [])"

definition trigger_fires ::
  "fee_quotes \<Rightarrow> trigger_grid \<Rightarrow> portfolio_state \<Rightarrow> replay_bar \<Rightarrow> int \<Rightarrow> int \<Rightarrow> int \<Rightarrow> plan_side \<times> rat \<times> bool \<Rightarrow> (trigger_grid \<times> cell_order list) result" where
  "trigger_fires quote t account source index minimum increment choice =
     (case choice of (side, trigger, _) \<Rightarrow>
        rbind (trigger_quantity t trigger minimum increment) (\<lambda>quantity.
        rbind (order_unavailable quote t account (rp_session source) side trigger quantity) (\<lambda>reason.
        rbind (fall_asleep side reason index t) (\<lambda>t1.
          if reason \<noteq> None then Inr (t1, [])
          else
            let p = tg_orders t1; serial = fg_serial p + 1; key = ''trigger:'' @ show_int serial;
                order = \<lparr>co_order_id = ''grid:'' @ key, co_cell_id = key, co_side = side, co_quantity = quantity,
                         co_limit_price = trigger_limit t1 side trigger, co_signal_bar = index, co_effective_bar = index + 1\<rparr>;
                t2 = enter_order order trigger (t1\<lparr>tg_orders := p\<lparr>fg_serial := serial\<rparr>\<rparr>)
            in Inr (t2\<lparr>tg_anchor := trigger, tg_monitoring_events := tg_monitoring_events t2 @
                 [Triggered index (rp_ended_at source) side (co_order_id order) (tg_anchor t2) trigger]\<rparr>, [order])))))"

definition trigger_watch ::
  "fee_quotes \<Rightarrow> bool \<Rightarrow> trigger_grid \<Rightarrow> bar_prices \<Rightarrow> portfolio_state option \<Rightarrow> replay_bar \<Rightarrow> int \<Rightarrow> int \<Rightarrow> int \<Rightarrow> (trigger_grid \<times> cell_order list) result" where
  "trigger_watch quote first t bar account source index minimum increment =
     rbind (map_res (\<lambda>s. rbind (trigger_threshold t s) (\<lambda>l. Inr (s, l)))
       (filter (\<lambda>s. s \<in> fg_active_sides (tg_orders t)) [BuySide, SellSide])) (\<lambda>levels.
     case reset_sides t (first \<and> gp_startup_mode (tg_parameters t) = START_WAIT_FOR_CROSSING) bar levels of
       (t1, open_levels) \<Rightarrow>
         let candidates = concat (map (\<lambda>(s, l). trigger_candidate t1 bar s l) open_levels);
             opening = filter (\<lambda>(_, _, gap). gap) candidates
         in if 1 < length candidates \<and> opening = [] then
              Inr (t1\<lparr>tg_monitoring_events := tg_monitoring_events t1 @ [Ambiguous index (rp_ended_at source) (tg_anchor t1)]\<rparr>, [])
            else (case (if opening = [] then candidates else opening, account) of
                    ([], _) \<Rightarrow> Inr (t1, [])
                  | (_ # _, None) \<Rightarrow> Inl AttributeError
                  | (c # _, Some a) \<Rightarrow> trigger_fires quote t1 a source index minimum increment c))"

definition trigger_observe ::
  "fee_quotes \<Rightarrow> trigger_grid \<Rightarrow> bar_prices \<Rightarrow> int \<Rightarrow> int \<Rightarrow> int \<Rightarrow> (trigger_grid \<times> cell_order list) result" where
  "trigger_observe quote t bar index minimum increment =
     (let p = tg_orders t
      in if index \<le> fg_last_observed p then Inl (ValueError ''bars must be observed once in increasing order'')
         else
           let first = (fg_last_observed p < 0); t1 = t\<lparr>tg_orders := p\<lparr>fg_last_observed := index\<rparr>\<rparr>
           in if fg_paused p then Inr (t1, [])
              else (case tg_current_bar t of
                      None \<Rightarrow> Inl (ValueError ''trigger grid requires current account and session'')
                    | Some source \<Rightarrow>
                        if \<not> continuous_auction (shanghai_time (rp_ended_at source)) then Inr (t1, [])
                        else trigger_watch quote first t1 bar (tg_account t) source index minimum increment))"

section \<open>Fills and ends of trigger orders\<close>

definition trigger_retry_failure :: "trigger_grid \<Rightarrow> plan_side \<Rightarrow> sleep_reason \<Rightarrow> (trigger_grid \<times> bool) result" where
  "trigger_retry_failure t side reason =
     (if reason \<in> {BuyAtUpperLimit, SellAtLowerLimit, SecurityNotTrading, NoMarketTrades} then Inr (t, True)
      else if reason \<in> {InsufficientCashIncludingFees, InsufficientPosition, TPlusOneLocked, MinimumInventoryReached,
        MaximumInventoryExceeded, MaximumPositionValueExceeded}
      then rbind (fall_asleep side (Some reason) (fg_last_observed (tg_orders t) + 1) t) (\<lambda>t'. Inr (t', False))
      else Inr (t, False))"

definition drop_order :: "string \<Rightarrow> trigger_grid \<Rightarrow> trigger_grid" where
  "drop_order k t =
     (let p = tg_orders t
      in t\<lparr>tg_orders := p\<lparr>fg_pending := AList.delete k (fg_pending p), fg_remaining := AList.delete k (fg_remaining p)\<rparr>,
           tg_order_prices := AList.delete k (tg_order_prices t)\<rparr>)"

definition trigger_on_fill :: "trigger_grid \<Rightarrow> string \<Rightarrow> int \<Rightarrow> int \<Rightarrow> trigger_grid result" where
  "trigger_on_fill t order_id quantity index =
     (let p = tg_orders t
      in case working_order p order_id of
           None \<Rightarrow> Inl StopIteration
         | Some order \<Rightarrow>
             let k = co_cell_id order in
             if index < co_effective_bar order \<or> quantity \<le> 0 then Inl (ValueError ''invalid fill quantity or time'')
             else
               rbind (item (fg_remaining p) k) (\<lambda>remaining.
               if remaining < quantity then Inl (ValueError ''invalid fill quantity or time'')
               else if remaining - quantity = 0 then
                 rbind (item (tg_order_prices t) k) (\<lambda>_. Inr (drop_order k t))
               else Inr (t\<lparr>tg_orders := p\<lparr>fg_remaining := AList.update k (remaining - quantity) (fg_remaining p)\<rparr>\<rparr>)))"

definition trigger_reject :: "trigger_grid \<Rightarrow> cell_order \<Rightarrow> trigger_grid result" where
  "trigger_reject t order =
     rbind (item (fg_pending (tg_orders t)) (co_cell_id order)) (\<lambda>_. Inr (drop_order (co_cell_id order) t))"

definition trigger_expire_day :: "trigger_grid \<Rightarrow> trigger_grid \<times> cell_order list" where
  "trigger_expire_day t =
     (let p = tg_orders t
      in (t\<lparr>tg_orders := p\<lparr>fg_pending := [], fg_remaining := []\<rparr>, tg_order_prices := []\<rparr>, map snd (fg_pending p)))"

definition trigger_rebase :: "price_rebase \<Rightarrow> rat \<Rightarrow> trigger_grid \<Rightarrow> trigger_grid result" where
  "trigger_rebase r tick t =
     (let p = tg_orders t in
      rbind (rebase_grid_parameters r (tg_parameters t)) (\<lambda>g.
      rbind (rebase_amount r (tg_anchor t) BuySide tick) (\<lambda>anchor.
      rbind (map_values (rebase_cell_order r tick) (fg_pending p)) (\<lambda>pending.
      rbind (map_values (\<lambda>v. rebase_amount r v BuySide tick) (tg_order_prices t)) (\<lambda>prices.
        Inr (t\<lparr>tg_parameters := g, tg_anchor := anchor, tg_orders := p\<lparr>fg_pending := pending\<rparr>, tg_order_prices := prices\<rparr>))))))"

section \<open>Daily grids on the minute ledger\<close>

record daily_grid =
  dg_orders :: fixed_grid
  dg_parameters :: grid_parameters
  dg_side :: plan_side
  dg_startup_distance :: rat
  dg_baseline :: "rat option"
  dg_units :: rat
  dg_reference :: rat
  dg_source :: "replay_bar option"
  dg_intents :: "(string \<times> grid_order) list"

definition starting_baseline :: "grid_parameters \<Rightarrow> rat option" where
  "starting_baseline g = (if gp_startup_mode g = START_WAIT_FOR_CROSSING then None else Some 0)"

definition mk_daily_grid :: "grid_parameters \<Rightarrow> rat \<Rightarrow> plan_side \<Rightarrow> daily_grid result" where
  "mk_daily_grid g0 first_open side =
     rbind (mk_fixed_grid [] False [side]) (\<lambda>orders.
     rbind (if gp_anchor_mode g0 = ANCHOR_LATEST_PRICE \<and> gp_anchor_price g0 = None
            then Inl (GridSpecificationError ''the latest quote has not been loaded'')
            else if gp_anchor_mode g0 = ANCHOR_FIRST_OPEN then
              (if \<not> (gp_lower_price g0 \<le> first_open \<and> first_open \<le> gp_upper_price g0)
               then Inl (GridSpecificationError ''the first open lies outside the grid'')
               else Inr (g0\<lparr>gp_anchor_price := Some first_open\<rparr>))
            else Inr g0) (\<lambda>g1.
     rbind (resolve_geometry g1) (\<lambda>g.
     rbind (grid_distance g first_open) (\<lambda>distance.
     rbind (if starting_baseline g = None then Inr first_open else resolved_anchor g) (\<lambda>reference.
       Inr \<lparr>dg_orders = orders, dg_parameters = g, dg_side = side, dg_startup_distance = distance,
            dg_baseline = starting_baseline g, dg_units = 0, dg_reference = reference, dg_source = None, dg_intents = []\<rparr>)))))"

definition clear_orders :: "daily_grid \<Rightarrow> daily_grid" where
  "clear_orders d = d\<lparr>dg_orders := (dg_orders d)\<lparr>fg_pending := [], fg_remaining := []\<rparr>, dg_intents := []\<rparr>"

definition daily_before_observe :: "daily_grid \<Rightarrow> replay_bar \<Rightarrow> daily_grid \<times> cell_order list" where
  "daily_before_observe d bar =
     (let d1 = d\<lparr>dg_source := Some bar\<rparr>
      in if shanghai_time (rp_ended_at bar) \<noteq> hm 15 0 then (d1, [])
         else (clear_orders d1, map snd (fg_pending (dg_orders d1))))"

definition daily_observe :: "daily_grid \<Rightarrow> bar_prices \<Rightarrow> int \<Rightarrow> (daily_grid \<times> cell_order list) result" where
  "daily_observe d bar index =
     (let p = dg_orders d
      in if index \<le> fg_last_observed p then Inl (ValueError ''bars must be observed once in increasing order'')
         else
           let p1 = p\<lparr>fg_last_observed := index\<rparr>; d1 = d\<lparr>dg_orders := p1\<rparr>
           in case (fg_paused p, dg_source d) of
                (False, Some source) \<Rightarrow>
                  rbind (grid_order_for (dg_parameters d) (bp_close bar) (s_session_date (rp_session source)) (dg_units d)
                    (s_board (rp_session source)) (or_else (dg_baseline d) 0)
                    (if dg_baseline d = None then Some (dg_startup_distance d) else None) (Some (dg_reference d))) (\<lambda>planned.
                    case planned of
                      None \<Rightarrow> Inr (d1, [])
                    | Some intent \<Rightarrow>
                        if go_side intent \<noteq> dg_side d then Inr (d1, [])
                        else
                          let serial = fg_serial p + 1; key = ''daily-grid:'' @ show_int serial;
                              order = \<lparr>co_order_id = key, co_cell_id = key, co_side = dg_side d, co_quantity = go_quantity intent,
                                       co_limit_price = go_limit_price intent, co_signal_bar = index, co_effective_bar = index + 1\<rparr>
                          in Inr (d1\<lparr>dg_orders := p1\<lparr>fg_serial := serial, fg_pending := AList.update key order (fg_pending p),
                                       fg_remaining := AList.update key (co_quantity order) (fg_remaining p)\<rparr>,
                                     dg_intents := AList.update key intent (dg_intents d)\<rparr>, [order]))
              | _ \<Rightarrow> Inr (d1, []))"

definition daily_on_fill :: "daily_grid \<Rightarrow> string \<Rightarrow> int \<Rightarrow> int \<Rightarrow> rat option \<Rightarrow> daily_grid result" where
  "daily_on_fill d order_id quantity index price =
     (let p = dg_orders d; bad = Inl (ValueError ''invalid daily grid fill'')
      in case map_of (fg_pending p) order_id of
           None \<Rightarrow> bad
         | Some order \<Rightarrow>
             if index < co_effective_bar order \<or> quantity \<le> 0 then bad
             else
               rbind (item (fg_remaining p) order_id) (\<lambda>remaining.
               if remaining < quantity then bad
               else (case price of
                       None \<Rightarrow> Inl (ValueError ''actual fill price is required'')
                     | Some x \<Rightarrow>
                         rbind (item (dg_intents d) order_id) (\<lambda>intent.
                         rbind (advance_grid_fill (dg_parameters d) intent quantity x (dg_units d) (dg_reference d)) (\<lambda>a.
                           let d1 = d\<lparr>dg_parameters := gx_parameters a, dg_baseline := Some (gx_baseline a), dg_units := gx_units a,
                                      dg_reference := gx_reference a\<rparr>
                           in Inr (if remaining - quantity = 0 then
                                     d1\<lparr>dg_orders := p\<lparr>fg_pending := AList.delete order_id (fg_pending p),
                                          fg_remaining := AList.delete order_id (fg_remaining p)\<rparr>,
                                        dg_intents := AList.delete order_id (dg_intents d)\<rparr>
                                   else d1\<lparr>dg_orders := p\<lparr>fg_remaining := AList.update order_id (remaining - quantity) (fg_remaining p)\<rparr>\<rparr>))))))"

definition daily_after_external_fill :: "daily_grid \<Rightarrow> plan_side \<Rightarrow> int \<Rightarrow> int \<Rightarrow> (daily_grid \<times> cell_order list) result" where
  "daily_after_external_fill d side before after =
     (if reset_side side before after \<noteq> Some (dg_side d) then Inr (d, [])
      else
        rbind (resolved_anchor (dg_parameters d)) (\<lambda>anchor.
          Inr ((clear_orders d)\<lparr>dg_units := 0, dg_baseline := starting_baseline (dg_parameters d), dg_reference := anchor\<rparr>,
               map snd (fg_pending (dg_orders d)))))"

definition daily_expire_day :: "daily_grid \<Rightarrow> int option \<Rightarrow> daily_grid \<times> cell_order list" where
  "daily_expire_day d next_bar =
     (case next_bar of Some _ \<Rightarrow> (d, []) | None \<Rightarrow> (clear_orders d, map snd (fg_pending (dg_orders d))))"

definition daily_rebase :: "price_rebase \<Rightarrow> rat \<Rightarrow> daily_grid \<Rightarrow> daily_grid result" where
  "daily_rebase r tick d =
     rbind (rebase_fixed_grid r tick (dg_orders d)) (\<lambda>orders.
     rbind (rebase_grid_parameters r (dg_parameters d)) (\<lambda>g.
     rbind (map_values (\<lambda>o'. rbind (rebase_price_order r (Some o')) (\<lambda>v. case v of None \<Rightarrow> Inl AttributeError | Some x \<Rightarrow> Inr x))
       (dg_intents d)) (\<lambda>intents.
       Inr (d\<lparr>dg_orders := orders, dg_parameters := g, dg_reference := dec_mul (dg_reference d) (rb_factor r), dg_intents := intents\<rparr>))))"

end
