(* ===== verification/TriggerRuns.thy ===== *)
theory TriggerRuns
  imports TriggerGrid
begin

text \<open>
  Histories of a trigger grid: whatever the replay does between two bars, an order that is emitted is covered by
  the account together with all orders still working.
\<close>

section \<open>Reachable states\<close>

inductive trigger_reachable :: "fee_quotes \<Rightarrow> trigger_grid \<Rightarrow> bool" for quote :: fee_quotes where
  start: "mk_trigger_grid g sides = Inr t \<Longrightarrow> trigger_reachable quote t"
| prepared: "trigger_reachable quote t \<Longrightarrow> trigger_reachable quote (fst (trigger_prepare_bar t account bar index))"
| refreshed: "trigger_reachable quote t \<Longrightarrow> trigger_reachable quote (trigger_before_observe t account bar)"
| observed: "trigger_reachable quote t \<Longrightarrow> trigger_observe quote t prices index minimum increment = Inr (t', orders) \<Longrightarrow>
    trigger_reachable quote t'"
| retried: "trigger_reachable quote t \<Longrightarrow> trigger_retry_failure t side reason = Inr (t', again) \<Longrightarrow> trigger_reachable quote t'"
| filled: "trigger_reachable quote t \<Longrightarrow> trigger_on_fill t order_id q index = Inr t' \<Longrightarrow> trigger_reachable quote t'"
| rejected: "trigger_reachable quote t \<Longrightarrow> trigger_reject t order = Inr t' \<Longrightarrow> trigger_reachable quote t'"
| expired: "trigger_reachable quote t \<Longrightarrow> trigger_reachable quote (fst (trigger_expire_day t))"
| exiting: "trigger_reachable quote t \<Longrightarrow> trigger_reachable quote (t\<lparr>tg_orders := fst (cancel_for_exit (tg_orders t))\<rparr>)"
| reset: "trigger_reachable quote t \<Longrightarrow>
    trigger_reachable quote (t\<lparr>tg_orders := fst (after_external_fill (tg_orders t) side before after index)\<rparr>)"
| rebased: "trigger_reachable quote t \<Longrightarrow> trigger_rebase r tick t = Inr t' \<Longrightarrow> trigger_reachable quote t'"

definition trigger_key :: "int \<Rightarrow> string" where
  "trigger_key n = ''trigger:'' @ show_int n"

definition books_inv :: "fixed_grid \<Rightarrow> bool" where
  "books_inv p \<longleftrightarrow> 0 \<le> fg_serial p \<and> fg_cells p = [] \<and>
     (\<forall>(k, order) \<in> set (fg_pending p). co_cell_id order = k \<and> map_of (fg_remaining p) k \<noteq> None \<and>
        (k = ''initial-build'' \<or> (\<exists>n. 0 < n \<and> n \<le> fg_serial p \<and> k = trigger_key n)))"

lemma trigger_key_inj: "0 \<le> m \<Longrightarrow> 0 \<le> n \<Longrightarrow> trigger_key m = trigger_key n \<longleftrightarrow> m = n"
  by (simp add: trigger_key_def show_int_def show_nat_inject)

lemma trigger_key_initial: "trigger_key n \<noteq> ''initial-build''"
  by (simp add: trigger_key_def)

lemma fresh_key:
  assumes "books_inv p" "(k, order) \<in> set (fg_pending p)"
  shows "k \<noteq> trigger_key (fg_serial p + 1)"
  using assms trigger_key_inj trigger_key_initial unfolding books_inv_def by fastforce

text \<open>Steps that only take orders away.\<close>

lemma books_inv_less:
  assumes "books_inv p" "fg_serial p' = fg_serial p" "fg_cells p' = fg_cells p" "set (fg_pending p') \<subseteq> set (fg_pending p)"
    and "\<And>k order. (k, order) \<in> set (fg_pending p') \<Longrightarrow> map_of (fg_remaining p') k \<noteq> None"
  shows "books_inv p'"
proof -
  have "co_cell_id order = k \<and> map_of (fg_remaining p') k \<noteq> None \<and>
      (k = ''initial-build'' \<or> (\<exists>n. 0 < n \<and> n \<le> fg_serial p' \<and> k = trigger_key n))"
    if "(k, order) \<in> set (fg_pending p')" for k order
    using assms that unfolding books_inv_def by auto
  then show ?thesis using assms(1-3) by (auto simp: books_inv_def)
qed

lemma enter_keeps:
  assumes "books_inv (tg_orders t)" "co_cell_id order = ''initial-build'' \<or> (\<exists>n. 0 < n \<and> n \<le> fg_serial (tg_orders t) \<and> co_cell_id order = trigger_key n)"
  shows "books_inv (tg_orders (enter_order order price t))"
  using assms by (auto simp: books_inv_def enter_order_def Let_def AList.update_conv' dest!: update_entry)

lemma asleep_orders: "fall_asleep side reason index t = Inr t' \<Longrightarrow>
    tg_orders t' = tg_orders t \<and> tg_parameters t' = tg_parameters t \<and> tg_anchor t' = tg_anchor t \<and> tg_order_prices t' = tg_order_prices t"
  by (auto simp: fall_asleep_def split: option.splits if_splits)

lemma reset_sides_orders:
  "reset_sides t waiting bar levels = (t', ls) \<Longrightarrow>
     tg_orders t' = tg_orders t \<and> tg_parameters t' = tg_parameters t \<and> tg_anchor t' = tg_anchor t \<and>
     tg_order_prices t' = tg_order_prices t \<and> tg_sleeping t' = tg_sleeping t \<and> map fst ls = map fst levels \<and>
     (\<forall>s l. (s, Some l) \<in> set ls \<longrightarrow> (s, l) \<in> set levels)"
proof (induction levels arbitrary: t' ls rule: rev_induct)
  case (snoc sl levels)
  obtain u us where u: "reset_sides t waiting bar levels = (u, us)" by (cases "reset_sides t waiting bar levels")
  note IH = snoc.IH [OF u]
  have "(t', ls) = (case reset_side_at waiting bar sl (tg_startup_reset u) of
      (r, level) \<Rightarrow> (u\<lparr>tg_startup_reset := r\<rparr>, us @ [(fst sl, level)]))"
    using snoc.prems u by (simp add: reset_sides_def)
  then show ?case using IH by (cases sl) (auto simp: reset_side_at_def Let_def split: if_splits)
qed (simp add: reset_sides_def)

section \<open>Firing\<close>

definition booked :: "trigger_grid \<Rightarrow> cell_order \<Rightarrow> rat \<Rightarrow> trigger_grid" where
  "booked t order trigger = enter_order order trigger (t\<lparr>tg_orders := (tg_orders t)\<lparr>fg_serial := fg_serial (tg_orders t) + 1\<rparr>\<rparr>)"

lemma trigger_fires_cases:
  assumes "trigger_fires quote t account source index minimum increment (side, trigger, gap) = Inr (t', orders)"
  obtains (asleep) reason where "orders = []" "fall_asleep side (Some reason) index t = Inr t'"
  | (fired) quantity order where "order_unavailable quote t account (rp_session source) side trigger quantity = Inr None"
      "orders = [order]" "co_cell_id order = trigger_key (fg_serial (tg_orders t) + 1)" "co_side order = side"
      "co_quantity order = quantity" "co_limit_price order = trigger_limit t side trigger" "co_effective_bar order = index + 1"
      "tg_orders t' = tg_orders (booked t order trigger)" "tg_order_prices t' = tg_order_prices (booked t order trigger)"
      "tg_parameters t' = tg_parameters t" "tg_anchor t' = trigger"
proof -
  obtain quantity reason where r: "order_unavailable quote t account (rp_session source) side trigger quantity = Inr reason"
    and t: "rbind (fall_asleep side reason index t) (\<lambda>t1.
          if reason \<noteq> None then Inr (t1, [])
          else
            let p = tg_orders t1; serial = fg_serial p + 1; key = ''trigger:'' @ show_int serial;
                order = \<lparr>co_order_id = ''grid:'' @ key, co_cell_id = key, co_side = side, co_quantity = quantity,
                         co_limit_price = trigger_limit t1 side trigger, co_signal_bar = index, co_effective_bar = index + 1\<rparr>;
                t2 = enter_order order trigger (t1\<lparr>tg_orders := p\<lparr>fg_serial := serial\<rparr>\<rparr>)
            in Inr (t2\<lparr>tg_anchor := trigger, tg_monitoring_events := tg_monitoring_events t2 @
                 [Triggered index (rp_ended_at source) side (co_order_id order) (tg_anchor t2) trigger]\<rparr>, [order])) = Inr (t', orders)"
    using assms by (auto simp: trigger_fires_def result_simps)
  show thesis
  proof (cases reason)
    case None
    show thesis
      by (rule fired [of quantity "hd orders"])
        (use t r None in \<open>auto simp: fall_asleep_def Let_def trigger_key_def booked_def enter_order_def\<close>)
  next
    case (Some x)
    then show thesis using t asleep by (auto simp: result_simps)
  qed
qed

lemma trigger_observe_cases:
  assumes "trigger_observe quote t bar index minimum increment = Inr (t', orders)"
  obtains (idle) "orders = []" "tg_anchor t' = tg_anchor t"
      "tg_orders t' = (tg_orders t)\<lparr>fg_last_observed := index\<rparr>" "tg_order_prices t' = tg_order_prices t" "tg_parameters t' = tg_parameters t"
  | (choice) u account source side trigger gap where
      "trigger_fires quote u account source index minimum increment (side, trigger, gap) = Inr (t', orders)"
      "tg_account t = Some account" "tg_current_bar t = Some source" "tg_anchor u = tg_anchor t" "tg_parameters u = tg_parameters t"
      "tg_orders u = (tg_orders t)\<lparr>fg_last_observed := index\<rparr>" "tg_order_prices u = tg_order_prices t"
      "map_of (tg_sleeping t) side = None" "side \<in> fg_active_sides (tg_orders t)" "trigger_threshold t side = Inr trigger"
      "touches bar side trigger"
proof (cases "fg_paused (tg_orders t) \<or> (\<exists>source. tg_current_bar t = Some source \<and> \<not> continuous_auction (shanghai_time (rp_ended_at source)))")
  case True
  then show thesis using assms idle by (auto simp: trigger_observe_def Let_def split: if_splits option.splits)
next
  case False
  define t1 where "t1 = t\<lparr>tg_orders := (tg_orders t)\<lparr>fg_last_observed := index\<rparr>\<rparr>"
  obtain source first where src: "tg_current_bar t = Some source"
    and w: "trigger_watch quote first t1 bar (tg_account t) source index minimum increment = Inr (t', orders)"
    using assms False by (auto simp: trigger_observe_def Let_def t1_def split: if_splits option.splits)
  obtain levels where levels: "map_res (\<lambda>s. rbind (trigger_threshold t1 s) (\<lambda>l. Inr (s, l)))
       (filter (\<lambda>s. s \<in> fg_active_sides (tg_orders t1)) [BuySide, SellSide]) = Inr levels"
    using w unfolding trigger_watch_def by (elim rbindE)
  obtain u ls where u: "reset_sides t1 (first \<and> gp_startup_mode (tg_parameters t1) = START_WAIT_FOR_CROSSING) bar levels = (u, ls)"
    by fastforce
  define candidates where "candidates = concat (map (\<lambda>(s, l). trigger_candidate u bar s l) ls)"
  note same = reset_sides_orders [OF u]
  have threshold: "trigger_threshold t1 s = trigger_threshold t s" for s by (simp add: trigger_threshold_def t1_def Let_def split: prod.split)
  have active: "fg_active_sides (tg_orders t1) = fg_active_sides (tg_orders t)" by (simp add: t1_def)
  have level: "trigger_threshold t s = Inr l \<and> s \<in> fg_active_sides (tg_orders t)" if "(s, l) \<in> set levels" for s l
    using levels that by (auto simp: result_simps threshold active split: if_splits)
  have candidate: "map_of (tg_sleeping t) s = None \<and> s \<in> fg_active_sides (tg_orders t) \<and> trigger_threshold t s = Inr l \<and> touches bar s l"
    if offered: "(s, l, gap) \<in> set candidates" for s l gap
  proof -
    obtain v where v: "(s, v) \<in> set ls" "(s, l, gap) \<in> set (trigger_candidate u bar s v)"
      using offered unfolding candidates_def trigger_candidate_def by (fastforce split: option.splits if_splits)
    then have "v = Some l" "map_of (tg_sleeping u) s = None" "touches bar s l"
      by (auto simp: trigger_candidate_def split: option.splits if_splits)
    then show ?thesis using v(1) same level by (auto simp: t1_def)
  qed
  define chosen where "chosen = (let opening = filter (\<lambda>(_, _, gap). gap) candidates in if opening = [] then candidates else opening)"
  have sub: "set chosen \<subseteq> set candidates" by (auto simp: chosen_def Let_def)
  have rest: "(\<exists>e. t' = u\<lparr>tg_monitoring_events := e\<rparr> \<and> orders = []) \<or> (t' = u \<and> orders = []) \<or>
      (\<exists>c cs account. chosen = c # cs \<and> tg_account t = Some account \<and> trigger_fires quote u account source index minimum increment c = Inr (t', orders))"
    using w unfolding trigger_watch_def levels
    by (auto simp: u Let_def candidates_def [symmetric] chosen_def split: if_splits list.splits option.splits)
  show thesis
  proof (cases "orders = [] \<and> (\<exists>e. t' = u\<lparr>tg_monitoring_events := e\<rparr> \<or> t' = u)")
    case True
    then show thesis using idle same by (auto simp: t1_def)
  next
    case False
    then obtain c cs account where c: "chosen = c # cs" "tg_account t = Some account"
      "trigger_fires quote u account source index minimum increment c = Inr (t', orders)" using rest by blast
    obtain s l gap where slg: "c = (s, l, gap)" by (cases c)
    then have "(s, l, gap) \<in> set candidates" using c(1) sub by auto
    note cand = candidate [OF this]
    show thesis by (rule choice [of u account source s l gap]) (use c src slg cand same in \<open>auto simp: t1_def\<close>)
  qed
qed

lemma booked_keeps:
  assumes "books_inv (tg_orders t)" "co_cell_id order = trigger_key (fg_serial (tg_orders t) + 1)"
  shows "books_inv (tg_orders (booked t order trigger))"
proof -
  let ?p = "(tg_orders t)\<lparr>fg_serial := fg_serial (tg_orders t) + 1\<rparr>"
  have "books_inv ?p" using assms(1) by (fastforce simp: books_inv_def)
  moreover have "\<exists>n. 0 < n \<and> n \<le> fg_serial ?p \<and> co_cell_id order = trigger_key n"
    using assms by (intro exI [of _ "fg_serial (tg_orders t) + 1"]) (auto simp: books_inv_def)
  ultimately show ?thesis unfolding booked_def by (intro enter_keeps) simp_all
qed

lemma observed_books:
  assumes "books_inv (tg_orders t)" "trigger_observe quote t bar index minimum increment = Inr (t', orders)"
  shows "books_inv (tg_orders t')"
  using assms(2)
proof (cases rule: trigger_observe_cases)
  case idle
  then show ?thesis using assms(1) by (simp add: books_inv_def)
next
  case (choice u account source side trigger gap)
  have u: "books_inv (tg_orders u)" using assms(1) choice(6) by (simp add: books_inv_def)
  from choice(1) show ?thesis
  proof (cases rule: trigger_fires_cases)
    case (asleep reason)
    then show ?thesis using asleep_orders u by metis
  next
    case (fired quantity order)
    then show ?thesis using booked_keeps [OF u fired(3)] by simp
  qed
qed

lemma filled_books:
  assumes inv: "books_inv (tg_orders t)" and step: "trigger_on_fill t order_id q index = Inr t'"
  shows "books_inv (tg_orders t')"
proof -
  obtain order where order: "working_order (tg_orders t) order_id = Some order"
    using step by (auto simp: trigger_on_fill_def Let_def split: option.splits)
  consider (done') "t' = drop_order (co_cell_id order) t"
    | (less) n where "t' = t\<lparr>tg_orders := (tg_orders t)\<lparr>fg_remaining := AList.update (co_cell_id order) n (fg_remaining (tg_orders t))\<rparr>\<rparr>"
    using step order by (auto simp: trigger_on_fill_def Let_def result_simps split: if_splits)
  then show ?thesis
  proof cases
    case done'
    have "books_inv (tg_orders (drop_order (co_cell_id order) t))"
      by (rule books_inv_less [OF inv])
        (use inv in \<open>auto simp: drop_order_def Let_def delete_entries AList.delete_conv' books_inv_def\<close>)
    then show ?thesis using done' by simp
  next
    case less
    then show ?thesis using inv by (auto simp: books_inv_def AList.update_conv')
  qed
qed

lemma dropped_books: "books_inv (tg_orders t) \<Longrightarrow> books_inv (tg_orders (drop_order k t))"
  by (rule books_inv_less) (auto simp: drop_order_def Let_def delete_entries AList.delete_conv' books_inv_def)

lemma rebased_books:
  assumes inv: "books_inv (tg_orders t)" and step: "trigger_rebase r tick t = Inr t'"
  shows "books_inv (tg_orders t')"
proof -
  obtain pending where m: "map_values (rebase_cell_order r tick) (fg_pending (tg_orders t)) = Inr pending"
    and t': "tg_orders t' = (tg_orders t)\<lparr>fg_pending := pending\<rparr>"
    using step by (auto simp: trigger_rebase_def Let_def result_simps)
  have "co_cell_id order = k \<and> map_of (fg_remaining (tg_orders t)) k \<noteq> None \<and>
      (k = ''initial-build'' \<or> (\<exists>n. 0 < n \<and> n \<le> fg_serial (tg_orders t) \<and> k = trigger_key n))"
    if listed: "(k, order) \<in> set pending" for k order
  proof -
    obtain old where "(k, old) \<in> set (fg_pending (tg_orders t))" "co_cell_id order = co_cell_id old"
      using map_values_entry [OF m listed] by (auto simp: rebase_cell_order_def result_simps)
    then show ?thesis using inv by (auto simp: books_inv_def)
  qed
  then show ?thesis using inv t' by (auto simp: books_inv_def)
qed

lemma reachable_books: "trigger_reachable quote t \<Longrightarrow> books_inv (tg_orders t)"
proof (induction rule: trigger_reachable.induct)
  case (start g sides t)
  then show ?case by (auto simp: mk_trigger_grid_def mk_fixed_grid_def result_simps books_inv_def)
next
  case (prepared t account bar index)
  then show ?case by (auto simp: trigger_prepare_bar_def trigger_before_observe_def Let_def intro!: enter_keeps)
next
  case (refreshed t account bar)
  then show ?case by (simp add: trigger_before_observe_def)
next
  case (observed t prices index minimum increment t' orders)
  then show ?case using observed_books by blast
next
  case (retried t side reason t' again)
  then show ?case by (auto simp: trigger_retry_failure_def result_simps dest: asleep_orders split: if_splits)
next
  case (filled t order_id q index t')
  then show ?case using filled_books by blast
next
  case (rejected t order t')
  then show ?case by (auto simp: trigger_reject_def result_simps dropped_books)
next
  case (expired t)
  then show ?case by (simp add: trigger_expire_day_def Let_def books_inv_def)
next
  case (exiting t)
  then show ?case by (simp add: cancel_for_exit_def books_inv_def)
next
  case (reset t side before after index)
  then show ?case by (auto simp: after_external_fill_def books_inv_def split: option.splits)
next
  case (rebased t r tick t')
  then show ?case using rebased_books by blast
qed

section \<open>Reservations after a trigger\<close>

lemma booked_pending:
  assumes inv: "books_inv (tg_orders t)" and order: "co_cell_id order = trigger_key (fg_serial (tg_orders t) + 1)"
  shows "pending_on (tg_orders (booked t order trigger)) (co_side order) = pending_on (tg_orders t) (co_side order) @ [order]"
    and "o' \<in> set (pending_on (tg_orders t) side) \<Longrightarrow> co_cell_id o' \<noteq> co_cell_id order"
proof -
  have "co_cell_id order \<notin> fst ` set (fg_pending (tg_orders t))" using fresh_key [OF inv] order by fastforce
  then show "pending_on (tg_orders (booked t order trigger)) (co_side order) = pending_on (tg_orders t) (co_side order) @ [order]"
    by (simp add: pending_on_def booked_def enter_order_def Let_def update_fresh)
  assume "o' \<in> set (pending_on (tg_orders t) side)"
  then obtain k where k: "(k, o') \<in> set (fg_pending (tg_orders t))" by (auto simp: pending_on_def)
  then have "co_cell_id o' = k" using inv by (auto simp: books_inv_def)
  then show "co_cell_id o' \<noteq> co_cell_id order" using fresh_key [OF inv k] order by simp
qed

lemma booked_items:
  "item (fg_remaining (tg_orders (booked t order trigger))) k =
     (if k = co_cell_id order then Inr (co_quantity order) else item (fg_remaining (tg_orders t)) k)"
  "item (tg_order_prices (booked t order trigger)) k = (if k = co_cell_id order then Inr trigger else item (tg_order_prices t) k)"
  "tg_parameters (booked t order trigger) = tg_parameters t"
  by (auto simp: item_def booked_def enter_order_def Let_def AList.update_conv')

lemma reserved_after:
  assumes "books_inv (tg_orders t)" "co_cell_id order = trigger_key (fg_serial (tg_orders t) + 1)"
    and res: "reserved_shares (tg_orders t) (co_side order) = Inr n"
  shows "reserved_shares (tg_orders (booked t order trigger)) (co_side order) = Inr (n + co_quantity order)"
proof -
  note b = booked_pending [OF assms(1,2)]
  have "map_res (\<lambda>o'. item (fg_remaining (tg_orders (booked t order trigger))) (co_cell_id o')) (pending_on (tg_orders t) (co_side order)) =
      map_res (\<lambda>o'. item (fg_remaining (tg_orders t)) (co_cell_id o')) (pending_on (tg_orders t) (co_side order))"
    using b(2) by (intro map_res_same) (simp add: booked_items)
  then show ?thesis using res by (auto simp: reserved_shares_def b(1) map_res_snoc booked_items result_simps)
qed

lemma reserved_cash_after:
  assumes "books_inv (tg_orders t)" "co_cell_id order = trigger_key (fg_serial (tg_orders t) + 1)" "co_side order = BuySide"
    and cash: "reserved_cash quote day t = Inr c"
    and cost: "trigger_cost quote (tg_parameters t) day (or_else (co_limit_price order) trigger) (co_quantity order) = Inr x"
  shows "reserved_cash quote day (booked t order trigger) = Inr (dec_add c x)"
proof -
  note b = booked_pending [OF assms(1,2), unfolded assms(3)]
  have "map_res (reserved_cost quote day (booked t order trigger)) (pending_on (tg_orders t) BuySide) =
      map_res (reserved_cost quote day t) (pending_on (tg_orders t) BuySide)"
    using b(2) by (intro map_res_same) (simp add: reserved_cost_def booked_items split: option.split)
  moreover have "reserved_cost quote day (booked t order trigger) order = Inr x"
    using cost by (cases "co_limit_price order") (auto simp: reserved_cost_def booked_items or_else_def)
  ultimately show ?thesis using cash by (auto simp: reserved_cash_def b(1) map_res_snoc result_simps)
qed

text \<open>What an order that passed the account checks leaves of the account.\<close>

definition covered :: "fee_quotes \<Rightarrow> portfolio_state \<Rightarrow> instrument_session \<Rightarrow> grid_parameters \<Rightarrow> plan_side \<Rightarrow> trigger_grid \<Rightarrow> bool" where
  "covered quote account session g side t \<longleftrightarrow>
     (\<exists>n. reserved_shares (tg_orders t) side = Inr n \<and>
        (let held = position_quantity account (s_instrument_id session) in
         if side = SellSide then gp_min_shares g \<le> held - n \<and> n \<le> sellable_quantity account (s_instrument_id session) (s_session_date session)
         else held + n \<le> gp_max_shares g \<and>
           (\<exists>c. reserved_cash quote (s_session_date session) t = Inr c \<and> c \<le> amount (ps_cash account))))"

lemma covered_of_orders:
  assumes "tg_orders t = tg_orders u" "tg_order_prices t = tg_order_prices u" "tg_parameters t = tg_parameters u"
  shows "covered quote account session g side t = covered quote account session g side u"
proof -
  have "reserved_cost quote day t = reserved_cost quote day u" for day
    using assms by (intro ext) (simp add: reserved_cost_def split: option.split)
  then have "reserved_cash quote day t = reserved_cash quote day u" for day
    using assms(1) unfolding reserved_cash_def by simp
  then show ?thesis unfolding covered_def assms(1) by (simp only:)
qed

lemma available_is_covered:
  assumes inv: "books_inv (tg_orders t)" "co_cell_id order = trigger_key (fg_serial (tg_orders t) + 1)"
    and ok: "order_unavailable quote t account session (co_side order) trigger (co_quantity order) = Inr None"
    and limit: "co_limit_price order = trigger_limit t (co_side order) trigger"
  shows "covered quote account session (tg_parameters t) (co_side order) (booked t order trigger)"
proof -
  obtain n where n: "reserved_shares (tg_orders t) (co_side order) = Inr n"
    using ok by (auto simp: order_unavailable_def Let_def result_simps split: if_splits)
  note after = reserved_after [OF inv n]
  show ?thesis
  proof (cases "co_side order")
    case SellSide
    then have "sell_unavailable t account session n (co_quantity order) = None"
      using ok n by (auto simp: order_unavailable_def Let_def split: if_splits)
    then show ?thesis
      using after SellSide by (auto simp: covered_def sell_unavailable_def Let_def split: if_splits)
  next
    case BuySide
    then have "buy_unavailable quote t account session n (or_else (co_limit_price order) trigger) (co_quantity order) = Inr None"
      using ok n limit by (auto simp: order_unavailable_def Let_def split: if_splits)
    then obtain c x where cx: "position_quantity account (s_instrument_id session) + n + co_quantity order \<le> gp_max_shares (tg_parameters t)"
      "reserved_cash quote (s_session_date session) t = Inr c"
      "trigger_cost quote (tg_parameters t) (s_session_date session) (or_else (co_limit_price order) trigger) (co_quantity order) = Inr x"
      "dec_add x c \<le> amount (ps_cash account)"
      by (auto simp: buy_unavailable_def Let_def result_simps split: if_splits)
    then show ?thesis
      using after BuySide reserved_cash_after [OF inv BuySide cx(2,3)]
      by (simp add: covered_def Let_def dec_add_def add.commute add.left_commute)
  qed
qed

text \<open>C8: a trigger grid emits at most one order per bar, from a side that is active and awake, when the bar touches its
  threshold; the base price moves to exactly that threshold, and to nothing else.  The order and all orders still
  working on its side are covered: sales leave the minimum holding and use sellable shares only, purchases stay
  within the maximum holding and, fees and slippage included, within the cash.\<close>

theorem trigger_orders_are_covered:
  assumes "trigger_reachable quote t" "trigger_observe quote t bar index minimum increment = Inr (t', orders)"
  shows "case orders of
      [] \<Rightarrow> tg_anchor t' = tg_anchor t
    | order # others \<Rightarrow>
        others = [] \<and> co_side order \<in> fg_active_sides (tg_orders t) \<and> map_of (tg_sleeping t) (co_side order) = None \<and>
        trigger_threshold t (co_side order) = Inr (tg_anchor t') \<and> touches bar (co_side order) (tg_anchor t') \<and>
        co_effective_bar order = index + 1 \<and>
        (\<exists>account source. tg_account t = Some account \<and> tg_current_bar t = Some source \<and>
           covered quote account (rp_session source) (tg_parameters t) (co_side order) t')"
  using assms(2)
proof (cases rule: trigger_observe_cases)
  case (choice u account source side trigger gap)
  have u: "books_inv (tg_orders u)" using reachable_books [OF assms(1)] choice(6) by (simp add: books_inv_def)
  from choice(1) show ?thesis
  proof (cases rule: trigger_fires_cases)
    case (asleep reason)
    then show ?thesis using asleep_orders choice(4) by force
  next
    case (fired quantity order)
    have "covered quote account (rp_session source) (tg_parameters u) side (booked u order trigger)"
      using available_is_covered [OF u fired(3)] fired by simp
    then have "covered quote account (rp_session source) (tg_parameters t) side t'"
      using covered_of_orders [of t' "booked u order trigger"] fired choice(5) by (simp add: booked_items)
    then show ?thesis using fired choice by simp
  qed
qed simp

definition falling_grid :: grid_parameters where
  "falling_grid = (default_grid 5 15)\<lparr>gp_anchor_price := Some 10, gp_order_shares := 300\<rparr>"

definition flat_fee :: fee_quotes where
  "flat_fee side price quantity day = Inr \<lparr>fb_commission = cny 5, fb_stamp_tax = cny 0, fb_transfer_fee = cny 0, fb_other = cny 0\<rparr>"

definition cash_account :: "rat \<Rightarrow> portfolio_state" where
  "cash_account x = \<lparr>ps_cash = cny x, ps_lots = [], ps_fills = [], ps_ledger_entries = [], ps_action_entries = [], ps_entitlements = []\<rparr>"

definition morning_bar :: replay_bar where
  "morning_bar = \<lparr>rp_ended_at = combine 2 (hm 10 0), rp_prices = \<lparr>bp_open = 10, bp_high = 10, bp_low = 89 / 10, bp_close = 9\<rparr>,
     rp_session = sample_session, rp_next_session = 3, rp_volume_shares = 10000\<rparr>"

definition watching_grid :: "trigger_grid result" where
  "watching_grid = rbind (mk_trigger_grid falling_grid [BuySide, SellSide]) (\<lambda>t. Inr (trigger_before_observe t (cash_account 3000) morning_bar))"

lemma watching_grid_fires:
  "case watching_grid of Inl _ \<Rightarrow> False | Inr t \<Rightarrow>
     (case trigger_observe flat_fee t (rp_prices morning_bar) 0 100 100 of
        Inl _ \<Rightarrow> False
      | Inr (t', orders) \<Rightarrow> map (\<lambda>o'. (co_order_id o', co_side o', co_quantity o')) orders = [(''grid:trigger:1'', BuySide, 300)] \<and>
          tg_anchor t' = 9)"
  by code_simp

theorem trigger_orders_are_covered_witness:
  "\<exists>t t' order c. watching_grid = Inr t \<and> trigger_observe flat_fee t (rp_prices morning_bar) 0 100 100 = Inr (t', [order]) \<and>
     co_quantity order = 300 \<and> tg_anchor t' = 9 \<and> reserved_cash flat_fee 2 t' = Inr c \<and> c \<le> 3000"
proof -
  obtain t t' orders where t: "watching_grid = Inr t" "trigger_observe flat_fee t (rp_prices morning_bar) 0 100 100 = Inr (t', orders)"
    "map (\<lambda>o'. (co_order_id o', co_side o', co_quantity o')) orders = [(''grid:trigger:1'', BuySide, 300)]" "tg_anchor t' = 9"
    using watching_grid_fires by (auto split: sum.splits)
  then obtain order where order: "orders = [order]" "co_side order = BuySide" "co_quantity order = 300" by auto
  obtain t0 where t0: "mk_trigger_grid falling_grid [BuySide, SellSide] = Inr t0" "t = trigger_before_observe t0 (cash_account 3000) morning_bar"
    using t(1) by (auto simp: watching_grid_def result_simps)
  have r: "trigger_reachable flat_fee t" unfolding t0(2) by (intro trigger_reachable.refreshed trigger_reachable.start [OF t0(1)])
  have account: "tg_account t = Some (cash_account 3000)" "tg_current_bar t = Some morning_bar"
    by (simp_all add: t0(2) trigger_before_observe_def)
  from trigger_orders_are_covered [OF r t(2)] order account show ?thesis
    using t by (auto simp: covered_def Let_def cash_account_def morning_bar_def sample_session_def cny_def)
qed

end
