(* ===== verification/Observations.thy ===== *)
theory Observations
  imports Documents Availability GridOrders "HOL-Library.AList"
begin

text \<open>
  Provider observations of company events, \<open>ashare_lab/domain/events/observations.py\<close>: the constructor of
  \<open>EventObservation\<close>, equality as the language has it, and the availability that \<open>domain/events/fusion.py\<close>
  derives.  The argument \<open>L\<close> is the text library of \<open>Documents\<close>.
\<close>

section \<open>Numbers as text\<close>

text \<open>\<open>str(value.normalize())\<close>: the shortest coefficient, in plain notation unless the exponent is positive or the
  number is very small.\<close>

function strip_zeros :: "int \<Rightarrow> int \<Rightarrow> int \<times> int" where
  "strip_zeros c e = (if c \<noteq> 0 \<and> c mod 10 = 0 then strip_zeros (c div 10) (e + 1) else (c, e))"
  by pat_completeness auto
termination by (relation "measure (\<lambda>(c, e). nat \<bar>c\<bar>)") auto

declare strip_zeros.simps [simp del]

definition plain_digits :: "string \<Rightarrow> int \<Rightarrow> string" where
  "plain_digits digits point =
     (if point \<le> 0 then ''0.'' @ replicate (nat (- point)) CHR ''0'' @ digits
      else if int (length digits) \<le> point then digits @ replicate (nat point - length digits) CHR ''0''
      else take (nat point) digits @ ''.'' @ drop (nat point) digits)"

definition number_text :: "rat \<Rightarrow> string" where
  "number_text value =
     (let x = ctx value in
      if x = 0 then ''0''
      else case strip_zeros \<lfloor>x / 10 powi (adjusted x - 27)\<rfloor> (adjusted x - 27) of (c, e) \<Rightarrow>
        let digits = show_nat \<bar>c\<bar>; left = e + int (length digits);
            point = (if e \<le> 0 \<and> - 6 < left then left else 1);
            exponent = (if left = point then []
                        else CHR ''E'' # (if 0 \<le> left - point then CHR ''+'' # show_nat (left - point) else show_int (left - point)))
        in (if c < 0 then ''-'' else []) @ plain_digits digits point @ exponent)"

section \<open>Attribute values\<close>

text \<open>\<open>==\<close> on attribute values: \<open>True\<close> equals \<open>1\<close> and \<open>Decimal(1)\<close>.\<close>

definition attribute_number :: "attribute \<Rightarrow> rat option" where
  "attribute_number a =
     (case a of
        IntValue n \<Rightarrow> Some (of_int n)
      | DecimalValue x \<Rightarrow> Some x
      | BoolValue b \<Rightarrow> Some (if b then 1 else 0)
      | _ \<Rightarrow> None)"

definition attribute_eq :: "attribute \<Rightarrow> attribute \<Rightarrow> bool" where
  "attribute_eq a b \<longleftrightarrow>
     (case (attribute_number a, attribute_number b) of
        (Some x, Some y) \<Rightarrow> x = y
      | (None, None) \<Rightarrow> a = b
      | _ \<Rightarrow> False)"

definition attributes_eq :: "attributes \<Rightarrow> attributes \<Rightarrow> bool" where
  "attributes_eq xs ys \<longleftrightarrow>
     length xs = length ys \<and>
     list_all (\<lambda>(k, v). case map_of ys k of None \<Rightarrow> False | Some w \<Rightarrow> attribute_eq v w) xs"

text \<open>\<open>_scalar_identity\<close>; the text of a string is prepared by the caller.\<close>

definition scalar_identity :: "(string \<Rightarrow> string) \<Rightarrow> attribute \<Rightarrow> string \<times> string" where
  "scalar_identity prepare a =
     (case a of
        NullValue \<Rightarrow> (''null'', '''')
      | BoolValue b \<Rightarrow> (''bool'', if b then ''true'' else ''false'')
      | DecimalValue x \<Rightarrow> (''number'', number_text x)
      | IntValue n \<Rightarrow> (''number'', show_int n)
      | TextValue s \<Rightarrow> (''text'', prepare s))"

section \<open>Observations\<close>

record observation =
  ob_provider :: string
  ob_provider_event_id :: string
  ob_instrument_id :: string
  ob_event_code :: string
  ob_title :: string
  ob_occurred_at :: "datetime option"
  ob_source_released_at :: "datetime option"
  ob_vendor_first_available_at :: "datetime option"
  ob_retrieved_at :: datetime
  ob_time_quality :: time_quality
  ob_document_url :: "string option"
  ob_document_sha256 :: "string option"
  ob_raw_response_sha256 :: "string option"
  ob_external_fact_id :: attribute
  ob_validation_status :: string
  ob_attributes :: attributes
  ob_revision_no :: int

definition announcement_providers :: "string list" where
  "announcement_providers = [''eastmoney'', ''ifind'', ''rqdata'', ''tushare'']"

definition supported_providers :: "string set" where
  "supported_providers = set announcement_providers \<union> {''web_archive''}"

definition validation_statuses :: "string set" where
  "validation_statuses = {''validated'', ''unverified'', ''blocked_time_quality'', ''rejected''}"

definition observation_sha256 :: "string \<Rightarrow> string result" where
  "observation_sha256 s =
     rbind (required_text s) (\<lambda>t.
       let digest = removeprefix ''sha256:'' (map lower_char t)
       in if length digest \<noteq> 64 \<or> \<not> list_all lower_hex digest
          then Inl (DomainValidationError ''document_sha256 must contain 64 hexadecimal digits'') else Inr digest)"

definition optional_with :: "('a \<Rightarrow> 'b result) \<Rightarrow> 'a option \<Rightarrow> 'b option result" where
  "optional_with f v = (case v of None \<Rightarrow> Inr None | Some x \<Rightarrow> rbind (f x) (\<lambda>y. Inr (Some y)))"

definition attribute_step :: "text_library \<Rightarrow> string \<times> attribute \<Rightarrow> attributes \<Rightarrow> attributes result" where
  "attribute_step L kv d =
     rbind (required_text (fst kv)) (\<lambda>name.
       let folded = tl_casefold L name
       in if starts_with ''search_hit'' folded \<or> starts_with ''search_result'' folded
          then Inl (DomainValidationError ''search hits must not be stored in EventObservation'')
          else Inr (AList.update name (snd kv) d))"

definition immutable_attributes :: "text_library \<Rightarrow> attributes \<Rightarrow> attributes result" where
  "immutable_attributes L values = fold_res (attribute_step L) values []"

definition attribute_at :: "attributes \<Rightarrow> string \<Rightarrow> attribute" where
  "attribute_at d k = (case map_of d k of None \<Rightarrow> NullValue | Some v \<Rightarrow> v)"

definition fact_id_of :: "attribute \<Rightarrow> attributes \<Rightarrow> attribute result" where
  "fact_id_of given attrs =
     (let listed = attribute_at attrs ''external_fact_id''
      in if given \<noteq> NullValue \<and> listed \<noteq> NullValue \<and> scalar_identity strip given \<noteq> scalar_identity strip listed
         then Inl (DomainValidationError ''external_fact_id conflicts with attributes.external_fact_id'')
         else (case (if given = NullValue then listed else given) of
                 TextValue s \<Rightarrow> rbind (required_text s) (\<lambda>t. Inr (TextValue t))
               | v \<Rightarrow> Inr v))"

definition precedes :: "datetime \<Rightarrow> datetime option \<Rightarrow> bool" where
  "precedes t v \<longleftrightarrow> opt_any (\<lambda>x. t < x) v"

definition mk_observation :: "text_library \<Rightarrow> observation \<Rightarrow> observation result" where
  "mk_observation L ob =
     rbind (required_text (ob_provider ob)) (\<lambda>raw_provider.
     let provider = map lower_char raw_provider in
     if provider \<notin> supported_providers then Inl (DomainValidationError ''provider is not supported'')
     else
     rbind (required_text (ob_provider_event_id ob)) (\<lambda>event_id.
     rbind (required_text (ob_event_code ob)) (\<lambda>code.
     rbind (required_text (ob_title ob)) (\<lambda>title.
     rbind (checks
       [(precedes (ob_retrieved_at ob) (ob_source_released_at ob), DomainValidationError ''retrieved_at cannot precede source_released_at''),
        (precedes (ob_retrieved_at ob) (ob_vendor_first_available_at ob), DomainValidationError ''retrieved_at cannot precede vendor_first_available_at''),
        (ob_revision_no ob < 0, DomainValidationError ''revision_no must be a non-negative integer'')]) (\<lambda>_.
     rbind (optional_with required_text (ob_document_url ob)) (\<lambda>url.
     rbind (optional_with observation_sha256 (ob_document_sha256 ob)) (\<lambda>document.
     rbind (optional_with observation_sha256 (ob_raw_response_sha256 ob)) (\<lambda>raw.
     rbind (required_text (ob_validation_status ob)) (\<lambda>raw_status.
     let status = map lower_char raw_status in
     if status \<notin> validation_statuses then Inl (DomainValidationError ''validation_status is not supported'')
     else
     rbind (immutable_attributes L (ob_attributes ob)) (\<lambda>attrs.
     rbind (fact_id_of (ob_external_fact_id ob) attrs) (\<lambda>fact.
       Inr (ob\<lparr>ob_provider := provider, ob_provider_event_id := event_id, ob_event_code := code, ob_title := title,
              ob_document_url := url, ob_document_sha256 := document, ob_raw_response_sha256 := raw,
              ob_validation_status := status, ob_external_fact_id := fact, ob_attributes := attrs\<rparr>))))))))))))"

type_synonym revision_key = "string \<times> string \<times> int"

definition provider_revision_key :: "observation \<Rightarrow> revision_key" where
  "provider_revision_key ob = (ob_provider ob, ob_provider_event_id ob, ob_revision_no ob)"

text \<open>\<open>==\<close> of the frozen data class.\<close>

definition observation_eq :: "observation \<Rightarrow> observation \<Rightarrow> bool" where
  "observation_eq x y \<longleftrightarrow>
     x\<lparr>ob_attributes := [], ob_external_fact_id := NullValue\<rparr> = y\<lparr>ob_attributes := [], ob_external_fact_id := NullValue\<rparr> \<and>
     attribute_eq (ob_external_fact_id x) (ob_external_fact_id y) \<and> attributes_eq (ob_attributes x) (ob_attributes y)"

section \<open>Market availability (fusion.py)\<close>

definition microseconds_per_second :: int where
  "microseconds_per_second = 1000000"

text \<open>Seconds, rounded up.\<close>

definition canonical_time :: "datetime \<Rightarrow> datetime" where
  "canonical_time t =
     (if t mod microseconds_per_second = 0 then t
      else (t + microseconds_per_second) - (t + microseconds_per_second) mod microseconds_per_second)"

definition market_available_at :: "observation \<Rightarrow> datetime option" where
  "market_available_at ob =
     (if ob_validation_status ob \<noteq> ''validated'' \<or> ob_time_quality ob \<notin> {EXACT, VENDOR_OBSERVED} then None
      else
        (case map canonical_time (List.map_filter id [ob_source_released_at ob, ob_vendor_first_available_at ob]) of
           [] \<Rightarrow> None
         | t # ts \<Rightarrow> Some (fold max ts t)))"

section \<open>Source-local deduplication\<close>

text \<open>A dictionary of lists: the value joins the list of its key, a new key comes last.\<close>

fun put :: "'k \<Rightarrow> 'v \<Rightarrow> ('k \<times> 'v list) list \<Rightarrow> ('k \<times> 'v list) list" where
  "put k v [] = [(k, [v])]"
| "put k v ((k', vs) # d) = (if k = k' then (k', vs @ [v]) # d else (k', vs) # put k v d)"

definition group_by_key :: "('v \<Rightarrow> 'k) \<Rightarrow> 'v list \<Rightarrow> ('k \<times> 'v list) list" where
  "group_by_key key xs = fold (\<lambda>x. put (key x) x) xs []"

definition revision_groups :: "observation list \<Rightarrow> (revision_key \<times> observation list) list" where
  "revision_groups obs = sort_key fst (group_by_key provider_revision_key obs)"

definition consistent_group :: "observation list \<Rightarrow> bool" where
  "consistent_group values = (case values of [] \<Rightarrow> True | first # rest \<Rightarrow> list_all (\<lambda>ob. observation_eq ob first) rest)"

definition unique_observations :: "observation list \<Rightarrow> observation list" where
  "unique_observations obs = map (\<lambda>g. hd (snd g)) (filter (\<lambda>g. consistent_group (snd g)) (revision_groups obs))"

definition contradictory_groups :: "observation list \<Rightarrow> (revision_key \<times> observation list) list" where
  "contradictory_groups obs = filter (\<lambda>g. \<not> consistent_group (snd g)) (revision_groups obs)"

definition observation_keys :: "observation list \<Rightarrow> revision_key list" where
  "observation_keys obs = sort (map provider_revision_key obs)"

section \<open>Groups\<close>

lemma put_map:
  "distinct ks \<Longrightarrow> put k v (map (\<lambda>j. (j, f j)) ks) =
     (if k \<in> set ks then map (\<lambda>j. (j, if j = k then f j @ [v] else f j)) ks else map (\<lambda>j. (j, f j)) ks @ [(k, [v])])"
  by (induction ks) auto

text \<open>The keys of a dictionary of lists come in the order of their first values.\<close>

definition first_keys :: "'k list \<Rightarrow> 'k list" where
  "first_keys ks = rev (remdups (rev ks))"

lemma first_keys_simps [simp]: "set (first_keys ks) = set ks" "distinct (first_keys ks)"
  by (simp_all add: first_keys_def)

lemma first_keys_snoc: "first_keys (ks @ [k]) = (if k \<in> set ks then first_keys ks else first_keys ks @ [k])"
  by (simp add: first_keys_def)

lemma group_by_key_eq: "group_by_key key xs = map (\<lambda>k. (k, filter (\<lambda>x. key x = k) xs)) (first_keys (map key xs))"
proof (induction xs rule: rev_induct)
  case (snoc x xs)
  have step: "group_by_key key (xs @ [x]) = put (key x) x (group_by_key key xs)" by (simp add: group_by_key_def)
  have none: "filter (\<lambda>y. key y = k) xs = []" if "k \<notin> key ` set xs" for k
    using that by (auto simp: filter_empty_conv)
  show ?case
    unfolding step snoc.IH put_map [OF first_keys_simps(2)]
    by (auto simp: first_keys_snoc none)
qed (simp add: group_by_key_def first_keys_def)

lemma sort_first_keys: "sort (first_keys ks) = sorted_list_of_set (set (ks :: 'k :: linorder list))"
  by (simp add: sorted_list_of_set_sort_remdups sorted_distinct_set_unique)

lemma sort_key_fst_map: "sort_key fst (map (\<lambda>k. (k, f k)) ks) = map (\<lambda>k. (k, f k)) (sort (ks :: 'k :: linorder list))"
proof -
  have "insort_key fst (k, f k) (map (\<lambda>k. (k, f k)) ks) = map (\<lambda>k. (k, f k)) (insort k ks)" for k and ks :: "'k list"
    by (induction ks) auto
  then show ?thesis by (induction ks) auto
qed

lemma revision_groups_eq:
  "revision_groups obs = map (\<lambda>k. (k, filter (\<lambda>x. provider_revision_key x = k) obs)) (sorted_list_of_set (provider_revision_key ` set obs))"
  by (simp add: revision_groups_def group_by_key_eq sort_key_fst_map sort_first_keys)

lemma unique_entries:
  "set (unique_observations obs) \<subseteq> set obs" "sorted (map provider_revision_key (unique_observations obs))"
  "distinct (map provider_revision_key (unique_observations obs))"
proof -
  let ?ks = "sorted_list_of_set (provider_revision_key ` set obs)"
  let ?g = "\<lambda>k. filter (\<lambda>x. provider_revision_key x = k) obs"
  have u: "unique_observations obs = map (\<lambda>k. hd (?g k)) (filter (\<lambda>k. consistent_group (?g k)) ?ks)"
    by (simp add: unique_observations_def revision_groups_eq filter_map comp_def)
  have g: "hd (?g k) \<in> set obs \<and> provider_revision_key (hd (?g k)) = k" if "k \<in> provider_revision_key ` set obs" for k
  proof -
    have "?g k \<noteq> []" using that by (auto simp: filter_empty_conv)
    then have "hd (?g k) \<in> set (?g k)" by (rule hd_in_set)
    then show ?thesis by simp
  qed
  then show "set (unique_observations obs) \<subseteq> set obs" unfolding u by auto
  have "map provider_revision_key (unique_observations obs) = filter (\<lambda>k. consistent_group (?g k)) ?ks"
    unfolding u map_map by (rule map_idI) (use g in auto)
  then show "sorted (map provider_revision_key (unique_observations obs))" "distinct (map provider_revision_key (unique_observations obs))"
    by (simp_all add: sorted_wrt_filter)
qed

text \<open>Without a contradictory group, every record is represented by one that compares equal.\<close>

lemma unique_represents:
  assumes "contradictory_groups obs = []" "ob \<in> set obs"
  shows "\<exists>u \<in> set (unique_observations obs). provider_revision_key u = provider_revision_key ob \<and> (u = ob \<or> observation_eq ob u)"
proof -
  let ?k = "provider_revision_key ob"
  let ?vs = "filter (\<lambda>x. provider_revision_key x = ?k) obs"
  have g: "(?k, ?vs) \<in> set (revision_groups obs)" using assms(2) by (auto simp: revision_groups_eq)
  then have c: "consistent_group ?vs"
    using assms(1) by (force simp: contradictory_groups_def filter_empty_conv)
  then have u: "hd ?vs \<in> set (unique_observations obs)" using g by (force simp: unique_observations_def)
  have ob: "ob \<in> set ?vs" using assms(2) by simp
  then obtain v vs where vs: "?vs = v # vs" by (cases ?vs) auto
  then have "v = ob \<or> observation_eq ob v" using ob c by (auto simp: consistent_group_def list_all_iff)
  moreover have "v \<in> set ?vs" using vs by simp
  then have "provider_revision_key v = ?k" by simp
  ultimately show ?thesis using u vs by auto
qed

end
