(* ===== verification/Revisions.thy ===== *)
theory Revisions
  imports Observations
begin

text \<open>
  Which revision of an event counts at a decision, \<open>ashare_lab/domain/events/revisions.py\<close>.  Revisions are numbered from
  zero; a chain that is contradictory in any way is quarantined.  The lemmas show what an active revision
  is, and how far later records can change an earlier resolution.
\<close>

section \<open>Results\<close>

datatype resolution_state = Active | Withdrawn | NotYetAvailable | Quarantined

datatype chain_role = InitialRole | SupersessionRole | WithdrawalRole

datatype conflict_code =
    ContradictoryProviderRevision | MixedEventChain | ConflictingRevisionChainIdentity | MissingRevisionChainIdentity
  | MissingReliableFirstAvailableAt | RevisionGap | UnknownRevisionRole | MultiSourceRevisionConflict
  | MultiSourceSemanticConflict "string list" | InvalidRevisionSequence

record revision_conflict =
  rc_code :: conflict_code
  rc_observation_keys :: "revision_key list"

record resolution =
  rv_state :: resolution_state
  rv_decision_at :: datetime
  rv_visible :: "observation list"
  rv_active :: "observation list"
  rv_active_revision_no :: "int option"
  rv_superseded_revision_nos :: "int list"
  rv_conflicts :: "revision_conflict list"
  rv_deduplicated_count :: int

definition can_emit_signal :: "resolution \<Rightarrow> bool" where
  "can_emit_signal r \<longleftrightarrow> rv_state r = Active"

definition permits_retry :: "resolution \<Rightarrow> int \<Rightarrow> bool" where
  "permits_retry r n \<longleftrightarrow> rv_state r = Active \<and> rv_active_revision_no r = Some n"

definition chain_conflict :: "conflict_code \<Rightarrow> observation list \<Rightarrow> revision_conflict" where
  "chain_conflict code obs = \<lparr>rc_code = code, rc_observation_keys = observation_keys obs\<rparr>"

definition empty_resolution :: "resolution_state \<Rightarrow> datetime \<Rightarrow> int \<Rightarrow> resolution" where
  "empty_resolution state t n =
     \<lparr>rv_state = state, rv_decision_at = t, rv_visible = [], rv_active = [], rv_active_revision_no = None,
      rv_superseded_revision_nos = [], rv_conflicts = [], rv_deduplicated_count = n\<rparr>"

definition quarantine :: "datetime \<Rightarrow> int \<Rightarrow> observation list \<Rightarrow> revision_conflict list \<Rightarrow> resolution" where
  "quarantine t n visible conflicts = (empty_resolution Quarantined t n)\<lparr>rv_visible := visible, rv_conflicts := conflicts\<rparr>"

section \<open>Checks of the whole chain\<close>

definition duplicate_conflicts :: "observation list \<Rightarrow> revision_conflict list" where
  "duplicate_conflicts obs = map (\<lambda>g. chain_conflict ContradictoryProviderRevision (snd g)) (contradictory_groups obs)"

definition duplicate_count :: "observation list \<Rightarrow> int" where
  "duplicate_count obs =
     sum_list (map (\<lambda>g. int (length (snd g)) - 1) (filter (\<lambda>g. consistent_group (snd g)) (revision_groups obs)))"

text \<open>\<open>if item.external_fact_id\<close> and \<open>str(item.external_fact_id).strip()\<close>\<close>

definition truthy :: "attribute \<Rightarrow> bool" where
  "truthy a =
     (case a of
        NullValue \<Rightarrow> False
      | TextValue s \<Rightarrow> s \<noteq> []
      | IntValue n \<Rightarrow> n \<noteq> 0
      | DecimalValue x \<Rightarrow> x \<noteq> 0
      | BoolValue b \<Rightarrow> b)"

definition identity_code :: "(attribute \<Rightarrow> string) \<Rightarrow> observation list \<Rightarrow> conflict_code option" where
  "identity_code text_of obs =
     (if length (remdups (map ob_instrument_id obs)) \<noteq> 1 \<or> length (remdups (map ob_event_code obs)) \<noteq> 1 then Some MixedEventChain
      else
        let facts = remdups (map (\<lambda>ob. strip (text_of (ob_external_fact_id ob))) (filter (\<lambda>ob. truthy (ob_external_fact_id ob)) obs))
        in if facts \<noteq> [] then
             (if length facts \<noteq> 1 \<or> list_ex (\<lambda>ob. ob_external_fact_id ob = NullValue) obs then Some ConflictingRevisionChainIdentity else None)
           else if length (remdups (map (\<lambda>ob. (ob_provider ob, ob_provider_event_id ob)) obs)) \<noteq> 1 then Some MissingRevisionChainIdentity
           else None)"

section \<open>Roles and agreement of sources\<close>

definition initial_names :: "string set" where
  "initial_names = {''initial'', ''initial_or_explicit_lifecycle'', ''original''}"

definition supersession_names :: "string set" where
  "supersession_names = {''amendment'', ''amended'', ''correction'', ''corrected'', ''revision'', ''supersession''}"

definition withdrawal_names :: "string set" where
  "withdrawal_names = {''cancellation'', ''cancelled'', ''delete'', ''revoked'', ''withdrawal'', ''withdrawn''}"

definition revision_role :: "text_library \<Rightarrow> observation \<Rightarrow> chain_role option" where
  "revision_role L ob =
     (let listed = attribute_at (ob_attributes ob) ''revision_type'';
          raw = (if listed = NullValue then attribute_at (ob_attributes ob) ''announcement_revision_role'' else listed)
      in if raw = NullValue \<and> ob_revision_no ob = 0 then Some InitialRole
         else (case raw of
                 TextValue s \<Rightarrow>
                   (let name = tl_casefold L (strip s)
                    in if name \<in> initial_names then Some InitialRole
                       else if name \<in> supersession_names then Some SupersessionRole
                       else if name \<in> withdrawal_names then Some WithdrawalRole else None)
               | _ \<Rightarrow> None))"

definition audit_names :: "string list" where
  "audit_names =
    [''announcement_revision_role'', ''capture_mode'', ''conservative_available_at'', ''document_hash_basis'', ''document_text_scope'',
     ''document_url'', ''document_version_role'', ''external_fact_id'', ''ingested_at'', ''mapping_confidence'', ''provider'',
     ''retrieved_at'', ''review_status'', ''revision_id'', ''revision_policy'', ''revision_type'', ''search_indexed_at'', ''source'',
     ''source_entity_id'', ''source_event_id'', ''source_url'', ''timestamp_precision'', ''time_quality'', ''timing_basis'',
     ''timing_policy'', ''validation_status'']"

definition audit_prefixes :: "string list" where
  "audit_prefixes =
    [''classification_'', ''classifier_'', ''entity_mapping_'', ''evidence_'', ''extractor_'', ''provider_'', ''publisher_'', ''raw_'', ''source_'']"

definition is_audit_attribute :: "text_library \<Rightarrow> string \<Rightarrow> bool" where
  "is_audit_attribute L name \<longleftrightarrow>
     (let folded = tl_casefold L (strip name) in folded \<in> set audit_names \<or> list_ex (\<lambda>p. starts_with p folded) audit_prefixes)"

definition semantic_value :: "text_library \<Rightarrow> attribute \<Rightarrow> string \<times> string" where
  "semantic_value L = scalar_identity (\<lambda>s. tl_casefold L (strip (tl_nfkc L s)))"

definition semantic_attributes :: "text_library \<Rightarrow> observation \<Rightarrow> (string \<times> (string \<times> string)) list" where
  "semantic_attributes L ob =
     map (\<lambda>(k, v). (k, semantic_value L v)) (filter (\<lambda>(k, v). \<not> is_audit_attribute L k) (ob_attributes ob))"

definition clashing_names :: "(string \<times> 'a) list \<Rightarrow> (string \<times> 'a) list \<Rightarrow> string list" where
  "clashing_names xs ys = map fst (filter (\<lambda>(k, v). case map_of ys k of None \<Rightarrow> False | Some w \<Rightarrow> v \<noteq> w) xs)"

fun conflicting_names :: "(string \<times> 'a) list list \<Rightarrow> string list" where
  "conflicting_names [] = []"
| "conflicting_names (left # rest) = concat (map (clashing_names left) rest) @ conflicting_names rest"

text \<open>\<open>" ".join(text.split())\<close>\<close>

fun split_words :: "string \<Rightarrow> string \<Rightarrow> string list" where
  "split_words w [] = (if w = [] then [] else [w])"
| "split_words w (c # s) =
     (if py_space c then (if w = [] then split_words [] s else w # split_words [] s) else split_words (w @ [c]) s)"

fun join_words :: "string list \<Rightarrow> string" where
  "join_words [] = []"
| "join_words [w] = w"
| "join_words (w # ws) = w @ '' '' @ join_words ws"

definition normalized_title :: "text_library \<Rightarrow> string \<Rightarrow> string" where
  "normalized_title L s = join_words (split_words [] (tl_casefold L (strip (tl_nfkc L s))))"

definition semantic_conflict :: "text_library \<Rightarrow> observation list \<Rightarrow> conflict_code option" where
  "semantic_conflict L obs =
     (if length (remdups (map ob_provider obs)) < 2 then None
      else
        let titles = remdups (map (\<lambda>ob. normalized_title L (ob_title ob)) obs);
            hashes = remdups (List.map_filter ob_document_sha256 obs);
            names = sort (remdups (conflicting_names (map (semantic_attributes L) obs)))
        in if length titles \<le> 1 \<and> length hashes \<le> 1 \<and> names = [] then None
           else Some (MultiSourceSemanticConflict
             ((if 1 < length titles then [''title''] else []) @ (if 1 < length hashes then [''document_sha256''] else []) @ names)))"

section \<open>Resolution\<close>

definition available_time :: "observation \<Rightarrow> datetime" where
  "available_time ob = (case market_available_at ob of None \<Rightarrow> 0 | Some t \<Rightarrow> t)"

definition observation_order :: "observation \<Rightarrow> datetime \<times> int \<times> string \<times> string" where
  "observation_order ob = (available_time ob, ob_revision_no ob, ob_provider ob, ob_provider_event_id ob)"

definition visible_observations :: "observation list \<Rightarrow> datetime \<Rightarrow> observation list" where
  "visible_observations unique t = sort_key observation_order (filter (\<lambda>ob. available_time ob \<le> t) unique)"

definition items_of :: "observation list \<Rightarrow> int \<Rightarrow> observation list" where
  "items_of visible n = filter (\<lambda>ob. ob_revision_no ob = n) visible"

text \<open>The role of one revision, or the conflict among its sources.\<close>

definition role_of :: "text_library \<Rightarrow> int \<Rightarrow> observation list \<Rightarrow> conflict_code + chain_role" where
  "role_of L n items =
     (let roles = remdups (map (revision_role L) items)
      in if None \<in> set roles then Inl UnknownRevisionRole
         else if length roles \<noteq> 1 then Inl MultiSourceRevisionConflict
         else (case semantic_conflict L items of
                 Some c \<Rightarrow> Inl c
               | None \<Rightarrow>
                   (case roles of
                      Some role # _ \<Rightarrow>
                        if (n = 0 \<and> role \<noteq> InitialRole) \<or> (0 < n \<and> role = InitialRole) then Inl InvalidRevisionSequence else Inr role
                    | _ \<Rightarrow> Inl UnknownRevisionRole)))"

fun chain_roles :: "text_library \<Rightarrow> observation list \<Rightarrow> int list \<Rightarrow> revision_conflict + chain_role list" where
  "chain_roles L visible [] = Inr []"
| "chain_roles L visible (n # ns) =
     (case role_of L n (items_of visible n) of
        Inl code \<Rightarrow> Inl (chain_conflict code (items_of visible n))
      | Inr role \<Rightarrow> (case chain_roles L visible ns of Inl c \<Rightarrow> Inl c | Inr roles \<Rightarrow> Inr (role # roles)))"

definition resolve_visible :: "text_library \<Rightarrow> datetime \<Rightarrow> int \<Rightarrow> observation list \<Rightarrow> resolution" where
  "resolve_visible L t n visible =
     (if visible = [] then empty_resolution NotYetAvailable t n
      else
        let numbers = sort (remdups (map ob_revision_no visible)); latest = last numbers
        in if numbers \<noteq> map int [0 ..< nat (latest + 1)] then quarantine t n visible [chain_conflict RevisionGap visible]
           else (case chain_roles L visible numbers of
                   Inl c \<Rightarrow> quarantine t n visible [c]
                 | Inr roles \<Rightarrow>
                     let superseded = filter (\<lambda>k. k < latest) numbers;
                         r = (empty_resolution Active t n)\<lparr>rv_visible := visible, rv_superseded_revision_nos := superseded\<rparr>
                     in if last roles = WithdrawalRole then r\<lparr>rv_state := Withdrawn\<rparr>
                        else r\<lparr>rv_active := sort_key observation_order (items_of visible latest), rv_active_revision_no := Some latest\<rparr>))"

definition resolve_revision_chain :: "text_library \<Rightarrow> (attribute \<Rightarrow> string) \<Rightarrow> observation list \<Rightarrow> datetime \<Rightarrow> resolution" where
  "resolve_revision_chain L text_of obs t =
     (if obs = [] then empty_resolution NotYetAvailable t 0
      else
        let unique = unique_observations obs; n = duplicate_count obs; unavailable = filter (\<lambda>ob. market_available_at ob = None) unique
        in if duplicate_conflicts obs \<noteq> [] then quarantine t n [] (duplicate_conflicts obs)
           else (case identity_code text_of unique of
                   Some code \<Rightarrow> quarantine t n [] [chain_conflict code unique]
                 | None \<Rightarrow>
                     if unavailable \<noteq> [] then quarantine t n [] [chain_conflict MissingReliableFirstAvailableAt unavailable]
                     else resolve_visible L t n (visible_observations unique t)))"

section \<open>What a resolution rests on\<close>

text \<open>A chain that passed the checks over all its records.\<close>

definition settled :: "resolution \<Rightarrow> bool" where
  "settled r \<longleftrightarrow> rv_state r \<noteq> Quarantined \<or> rv_visible r \<noteq> []"

lemma settled_chain:
  assumes "settled (resolve_revision_chain L text_of obs t)" "obs \<noteq> []"
  shows "resolve_revision_chain L text_of obs t =
      resolve_visible L t (duplicate_count obs) (visible_observations (unique_observations obs) t)"
    and "contradictory_groups obs = []" and "\<forall>ob \<in> set (unique_observations obs). market_available_at ob \<noteq> None"
  using assms
  by (auto simp: resolve_revision_chain_def settled_def quarantine_def empty_resolution_def duplicate_conflicts_def Let_def
      filter_empty_conv split: if_splits option.splits)

lemma resolve_visible_count:
  "resolve_visible L t n visible = (resolve_visible L t m visible)\<lparr>rv_deduplicated_count := n\<rparr>"
  by (simp add: resolve_visible_def empty_resolution_def quarantine_def Let_def split: sum.split)

lemma order_key: "observation_order x = observation_order y \<Longrightarrow> provider_revision_key x = provider_revision_key y"
  by (simp add: observation_order_def provider_revision_key_def)

lemma visible_entries:
  "set (visible_observations (unique_observations obs) t) = {ob \<in> set (unique_observations obs). available_time ob \<le> t}"
  "sorted (map observation_order (visible_observations (unique_observations obs) t))"
  "distinct (map observation_order (visible_observations (unique_observations obs) t))"
proof -
  have d: "distinct (map provider_revision_key (unique_observations obs))" by (rule unique_entries)
  then have "distinct (unique_observations obs)" by (simp add: distinct_map)
  moreover have "inj_on observation_order (set (unique_observations obs))"
    using d by (auto simp: inj_on_def distinct_map dest!: order_key)
  ultimately have "distinct (map observation_order (unique_observations obs))" by (simp add: distinct_map)
  then have "distinct (map observation_order (filter (\<lambda>ob. available_time ob \<le> t) (unique_observations obs)))"
    by (rule distinct_map_filter)
  then show "set (visible_observations (unique_observations obs) t) = {ob \<in> set (unique_observations obs). available_time ob \<le> t}"
    "sorted (map observation_order (visible_observations (unique_observations obs) t))"
    "distinct (map observation_order (visible_observations (unique_observations obs) t))"
    by (auto simp: visible_observations_def distinct_map distinct_sort inj_on_def)
qed

text \<open>
  A record is known at a decision when it is validated and reliably timed and every release the record names
  lies at or before the last whole second of the decision.
\<close>

definition known_at :: "datetime \<Rightarrow> observation \<Rightarrow> bool" where
  "known_at t ob \<longleftrightarrow>
     ob_validation_status ob = ''validated'' \<and> (ob_time_quality ob = EXACT \<or> ob_time_quality ob = VENDOR_OBSERVED) \<and>
     (ob_source_released_at ob \<noteq> None \<or> ob_vendor_first_available_at ob \<noteq> None) \<and>
     none_or (\<lambda>x. x \<le> t - t mod 1000000) (ob_source_released_at ob) \<and>
     none_or (\<lambda>x. x \<le> t - t mod 1000000) (ob_vendor_first_available_at ob)"

lemma canonical_time_le: "canonical_time x \<le> t \<longleftrightarrow> x \<le> t - t mod 1000000"
proof -
  define q r Q R where d: "q = x div 1000000" "r = x mod 1000000" "Q = t div 1000000" "R = t mod 1000000"
  have e: "x = 1000000 * q + r" "t = 1000000 * Q + R" "0 \<le> r" "r < 1000000" "0 \<le> R" "R < 1000000" by (simp_all add: d)
  have "canonical_time x = (if r = 0 then x else x - r + 1000000)"
    by (simp add: canonical_time_def microseconds_per_second_def d)
  then have c: "canonical_time x = (if r = 0 then 1000000 * q else 1000000 * (q + 1))" using e(1) by simp
  have "q + 1 \<le> Q \<or> q = Q \<or> Q + 1 \<le> q" by linarith
  then have "(if r = 0 then 1000000 * q else 1000000 * (q + 1)) \<le> 1000000 * Q + R \<longleftrightarrow> 1000000 * q + r \<le> 1000000 * Q"
    using e(3-6) by (elim disjE) (cases "r = 0"; simp)+
  then have "canonical_time x \<le> t \<longleftrightarrow> x \<le> 1000000 * Q" unfolding c [symmetric] e(1,2) [symmetric] .
  moreover have "t - t mod 1000000 = 1000000 * Q" using e(2) d(4) by linarith
  ultimately show ?thesis by simp
qed

lemma known_at_iff: "known_at t ob \<longleftrightarrow> opt_any (\<lambda>a. a \<le> t) (market_available_at ob)"
  by (cases "ob_source_released_at ob"; cases "ob_vendor_first_available_at ob")
    (auto simp: known_at_def market_available_at_def opt_any_iff canonical_time_le map_filter_def)

lemma observation_eq_known: "observation_eq x y \<Longrightarrow> known_at t x = known_at t y"
  by (cases x; cases y) (simp add: observation_eq_def known_at_def)

lemma visible_known:
  assumes "\<forall>ob \<in> set (unique_observations obs). market_available_at ob \<noteq> None"
  shows "set (visible_observations (unique_observations obs) t) = {ob \<in> set (unique_observations obs). known_at t ob}"
  using assms unfolding visible_entries by (auto simp: known_at_iff opt_any_iff available_time_def)

lemma chain_roles_spec:
  assumes "chain_roles L visible ns = Inr roles"
  shows "length roles = length ns" "i < length ns \<Longrightarrow> role_of L (ns ! i) (items_of visible (ns ! i)) = Inr (roles ! i)"
  using assms
  by (induction ns arbitrary: roles i) (auto simp: nth_Cons' split: sum.splits)

lemma role_of_spec:
  assumes "role_of L n items = Inr role" "ob \<in> set items"
  shows "revision_role L ob = Some role" "0 \<le> n \<Longrightarrow> n = 0 \<longleftrightarrow> role = InitialRole"
proof -
  obtain r rs where rs: "remdups (map (revision_role L) items) = Some r # rs"
    using assms(1) by (auto simp: role_of_def Let_def split: if_splits option.splits list.splits)
  then have "rs = []" "r = role" and n: "\<not> ((n = 0 \<and> role \<noteq> InitialRole) \<or> (0 < n \<and> role = InitialRole))"
    using assms(1) by (auto simp: role_of_def Let_def split: if_splits option.splits)
  moreover have "revision_role L ob \<in> set (remdups (map (revision_role L) items))" using assms(2) by simp
  ultimately show "revision_role L ob = Some role" "0 \<le> n \<Longrightarrow> n = 0 \<longleftrightarrow> role = InitialRole" using rs by auto
qed

lemma visible_represents:
  assumes "contradictory_groups obs = []" "\<forall>ob \<in> set (unique_observations obs). market_available_at ob \<noteq> None"
    and "ob \<in> set obs" "known_at t ob"
  shows "\<exists>v \<in> set (visible_observations (unique_observations obs) t).
    provider_revision_key v = provider_revision_key ob \<and> (v = ob \<or> observation_eq ob v)"
proof -
  obtain u where u: "u \<in> set (unique_observations obs)" "provider_revision_key u = provider_revision_key ob" "u = ob \<or> observation_eq ob u"
    using unique_represents [OF assms(1,3)] by blast
  then have "known_at t u" using observation_eq_known assms(4) by blast
  then show ?thesis using u visible_known [OF assms(2)] by blast
qed

text \<open>C13: a resolution that passes the checks of its chain rests on the records known at the decision alone: another chain
  that also passes them, with the same records known by then but any other later ones (another version of the
  same coming revision included), in any order and with any number of copies, resolves to the same state,
  visible and active records and revisions; where known records that compare equal are the same (the
  language has \<open>True == 1\<close>, and the first of two such copies would be kept).\<close>

theorem revisions_have_no_look_ahead:
  assumes "settled (resolve_revision_chain L text_of obs t)" "settled (resolve_revision_chain L text_of obs' t)"
    and "{ob \<in> set obs. known_at t ob} = {ob \<in> set obs'. known_at t ob}"
    and "\<forall>x \<in> set obs. \<forall>y \<in> set obs. known_at t x \<and> known_at t y \<and> observation_eq x y \<longrightarrow> x = y"
  shows "\<exists>n. resolve_revision_chain L text_of obs t = (resolve_revision_chain L text_of obs' t)\<lparr>rv_deduplicated_count := n\<rparr>"
proof -
  let ?K = "{ob \<in> set obs. known_at t ob}" and ?visible = "\<lambda>xs. visible_observations (unique_observations xs) t"
  have r: "resolve_revision_chain L text_of xs t = resolve_visible L t (duplicate_count xs) (?visible xs) \<and> set (?visible xs) = ?K"
    if "settled (resolve_revision_chain L text_of xs t)" "{ob \<in> set xs. known_at t ob} = ?K" for xs
  proof (cases "xs = []")
    case False
    note chain = settled_chain [OF that(1) False]
    have sub: "set (?visible xs) \<subseteq> ?K" using visible_known [OF chain(3)] unique_entries(1) [of xs] that(2) by blast
    have "ob \<in> set (?visible xs)" if ob: "ob \<in> ?K" for ob
    proof -
      have "ob \<in> set xs" "known_at t ob" using ob \<open>{ob \<in> set xs. known_at t ob} = ?K\<close> by blast+
      from visible_represents [OF chain(2,3) this] obtain v where v: "v \<in> set (?visible xs)" "v = ob \<or> observation_eq ob v" by blast
      then show ?thesis using assms(4) ob sub by blast
    qed
    then show ?thesis using chain(1) sub by blast
  next
    case True
    then have "?K = {}" using that(2) by auto
    then show ?thesis using True
      by (simp add: resolve_revision_chain_def resolve_visible_def visible_observations_def unique_observations_def revision_groups_def
          group_by_key_def duplicate_count_def)
  qed
  note a = r [OF assms(1) refl] and b = r [OF assms(2) assms(3) [symmetric]]
  have "inj_on observation_order ?K" using visible_entries(3) [of obs t] a by (metis distinct_map)
  then have "?visible obs = ?visible obs'"
    using a b visible_entries(2,3) by (intro map_sorted_distinct_set_unique [where f = observation_order]) auto
  then show ?thesis using a b resolve_visible_count by metis
qed

text \<open>The outcome of a chain whose visible records form a numbered sequence.\<close>

lemma resolve_visible_outcome:
  assumes r: "resolve_visible L t n visible = r" "rv_state r \<in> {Active, Withdrawn}"
  obtains m roles where "visible \<noteq> []" "0 \<le> m" "ob_revision_no ` set visible = {0..m}" "rv_visible r = visible"
    "rv_superseded_revision_nos r = map int [0 ..< nat m]" "rv_conflicts r = []" "length roles = nat m + 1"
    "\<And>k ob. ob \<in> set visible \<Longrightarrow> ob_revision_no ob = k \<Longrightarrow>
      revision_role L ob = Some (roles ! nat k) \<and> (k = 0 \<longleftrightarrow> roles ! nat k = InitialRole)"
    "if roles ! nat m = WithdrawalRole then rv_state r = Withdrawn \<and> rv_active r = [] \<and> rv_active_revision_no r = None
     else rv_state r = Active \<and> set (rv_active r) = set (items_of visible m) \<and> rv_active_revision_no r = Some m"
proof -
  define numbers where "numbers = sort (remdups (map ob_revision_no visible))"
  define m where "m = last numbers"
  have ne: "visible \<noteq> []" using r by (auto simp: resolve_visible_def empty_resolution_def)
  have numbers: "numbers = map int [0 ..< nat (m + 1)]"
    using r ne by (auto simp: resolve_visible_def empty_resolution_def quarantine_def Let_def numbers_def m_def split: if_splits)
  obtain roles where roles: "chain_roles L visible numbers = Inr roles"
    using r ne numbers
    by (auto simp: resolve_visible_def empty_resolution_def quarantine_def Let_def numbers_def m_def split: if_splits sum.splits)
  have all: "set numbers = ob_revision_no ` set visible" by (simp add: numbers_def)
  have "numbers \<noteq> []" using ne all by auto
  then have m: "0 \<le> m" using numbers by (cases "0 \<le> m") auto
  have len: "length numbers = nat m + 1" unfolding numbers using m by (simp add: nat_add_distrib)
  have nth: "numbers ! nat k = k" if "0 \<le> k" "k \<le> m" for k
    unfolding numbers using that by (subst nth_map) auto
  have set_numbers: "set numbers = {0..m}" unfolding numbers using m by (auto simp: image_iff intro!: bexI [of _ "nat _"])
  note spec = chain_roles_spec [OF roles]
  have rl: "length roles = nat m + 1" using spec(1) len by simp
  have role: "revision_role L ob = Some (roles ! nat k) \<and> (k = 0 \<longleftrightarrow> roles ! nat k = InitialRole)"
    if "ob \<in> set visible" "ob_revision_no ob = k" for k ob
  proof -
    have k: "0 \<le> k" "k \<le> m" using that all set_numbers by auto
    then have "role_of L k (items_of visible k) = Inr (roles ! nat k)" using spec(2) [of "nat k"] len nth by simp
    then show ?thesis using role_of_spec [of L k _ _ ob] that k(1) by (simp add: items_of_def)
  qed
  have result: "r = (let super = (empty_resolution Active t n)\<lparr>rv_visible := visible, rv_superseded_revision_nos := filter (\<lambda>k. k < m) numbers\<rparr>
      in if last roles = WithdrawalRole then super\<lparr>rv_state := Withdrawn\<rparr>
         else super\<lparr>rv_active := sort_key observation_order (items_of visible m), rv_active_revision_no := Some m\<rparr>)"
    using r(1) ne roles unfolding resolve_visible_def Let_def numbers_def [symmetric] m_def [symmetric]
    by (simp add: numbers [THEN eqTrueI])
  have "last roles = roles ! nat m" using rl by (subst last_conv_nth) auto
  moreover have "filter (\<lambda>k. k < m) numbers = map int [0 ..< nat m]"
    unfolding numbers using m by (auto simp: filter_map comp_def nat_add_distrib intro!: filter_True)
  ultimately show thesis
    using that [of m roles] ne m all set_numbers rl role result by (simp add: Let_def empty_resolution_def)
qed

text \<open>C14: an event can emit a signal exactly through its latest known revision: the records known at the decision (validated,
  reliably timed, released by its last whole second) are numbered from zero to the active revision without a gap; the
  visible records are known ones and represent all of them; all sources of a revision agree on its role, the first is
  initial, every later one replaces or withdraws, and the latest is not a withdrawal; the active records are exactly
  the visible ones of the latest revision, and every earlier one is superseded.\<close>

theorem active_revision_is_latest:
  assumes "rv_state (resolve_revision_chain L text_of obs t) = Active"
  shows "\<exists>m role. let r = resolve_revision_chain L text_of obs t in
      0 \<le> m \<and> rv_active_revision_no r = Some m \<and> rv_superseded_revision_nos r = map int [0 ..< nat m] \<and>
      ob_revision_no ` {ob \<in> set obs. known_at t ob} = {0..m} \<and>
      set (rv_visible r) \<subseteq> {ob \<in> set obs. known_at t ob} \<and>
      (\<forall>ob \<in> set obs. known_at t ob \<longrightarrow> (\<exists>v \<in> set (rv_visible r). v = ob \<or> observation_eq ob v)) \<and>
      rv_active r \<noteq> [] \<and> set (rv_active r) = {ob \<in> set (rv_visible r). ob_revision_no ob = m} \<and>
      (\<forall>k. permits_retry r k \<longleftrightarrow> k = m) \<and>
      (\<forall>ob \<in> set (rv_visible r). revision_role L ob = Some (role (ob_revision_no ob))) \<and>
      role 0 = InitialRole \<and> (\<forall>k. 0 < k \<and> k \<le> m \<longrightarrow> role k = SupersessionRole \<or> role k = WithdrawalRole) \<and>
      role m \<noteq> WithdrawalRole"
proof -
  define r where "r = resolve_revision_chain L text_of obs t"
  have ne: "obs \<noteq> []" and settled: "settled r" "rv_state r = Active"
    using assms by (auto simp: r_def resolve_revision_chain_def empty_resolution_def settled_def)
  note chain = settled_chain [OF settled(1) [unfolded r_def] ne]
  define visible where "visible = visible_observations (unique_observations obs) t"
  have known: "set visible \<subseteq> {ob \<in> set obs. known_at t ob}"
    using visible_known [OF chain(3), of t] unique_entries(1) [of obs] by (auto simp: visible_def)
  have all: "\<exists>v \<in> set visible. ob_revision_no v = ob_revision_no ob \<and> (v = ob \<or> observation_eq ob v)"
    if "ob \<in> set obs" "known_at t ob" for ob
    using visible_represents [OF chain(2,3) that] by (force simp: visible_def provider_revision_key_def)
  have "resolve_visible L t (duplicate_count obs) visible = r" "rv_state r \<in> {Active, Withdrawn}"
    using chain(1) settled(2) by (simp_all add: r_def visible_def)
  then obtain m roles where o: "visible \<noteq> []" "0 \<le> m" "ob_revision_no ` set visible = {0..m}" "rv_visible r = visible"
    "rv_superseded_revision_nos r = map int [0 ..< nat m]" "rv_conflicts r = []" "length roles = nat m + 1"
    "\<And>k ob. ob \<in> set visible \<Longrightarrow> ob_revision_no ob = k \<Longrightarrow>
      revision_role L ob = Some (roles ! nat k) \<and> (k = 0 \<longleftrightarrow> roles ! nat k = InitialRole)"
    "if roles ! nat m = WithdrawalRole then rv_state r = Withdrawn \<and> rv_active r = [] \<and> rv_active_revision_no r = None
     else rv_state r = Active \<and> set (rv_active r) = set (items_of visible m) \<and> rv_active_revision_no r = Some m"
    by (rule resolve_visible_outcome) (rule that; assumption)
  have active: "roles ! nat m \<noteq> WithdrawalRole" "set (rv_active r) = set (items_of visible m)" "rv_active_revision_no r = Some m"
    using o(9) settled(2) by (auto split: if_splits)
  have "m \<in> ob_revision_no ` set visible" using o(2,3) by simp
  then have "items_of visible m \<noteq> []" by (auto simp: items_of_def filter_empty_conv)
  then have "rv_active r \<noteq> []" using active(2) by auto
  moreover have "roles ! nat k = InitialRole \<longleftrightarrow> k = 0" if k: "0 \<le> k" "k \<le> m" for k
  proof -
    have "k \<in> ob_revision_no ` set visible" using k o(3) by simp
    then obtain ob where "ob \<in> set visible" "ob_revision_no ob = k" by blast
    then show ?thesis using o(8) by blast
  qed
  note initial = this
  have "roles ! nat k = SupersessionRole \<or> roles ! nat k = WithdrawalRole" if "0 < k \<and> k \<le> m" for k
    using initial [of k] that by (cases "roles ! nat k") auto
  moreover have "roles ! nat 0 = InitialRole" using initial [of 0] o(2) by simp
  moreover have "ob_revision_no ` {ob \<in> set obs. known_at t ob} = {0..m}"
    unfolding o(3) [symmetric] using known all by (intro equalityI image_subsetI) (metis (mono_tags, lifting) image_eqI mem_Collect_eq, blast)
  moreover have "\<forall>ob \<in> set visible. revision_role L ob = Some (roles ! nat (ob_revision_no ob))" using o(8) by blast
  moreover have "\<forall>ob \<in> set obs. known_at t ob \<longrightarrow> (\<exists>v \<in> set visible. v = ob \<or> observation_eq ob v)" using all by blast
  moreover have "set (rv_active r) = {ob \<in> set visible. ob_revision_no ob = m}" using active(2) by (simp add: items_of_def)
  moreover have "\<forall>k. permits_retry r k \<longleftrightarrow> k = m" using active(3) settled(2) by (auto simp: permits_retry_def)
  ultimately show ?thesis
    unfolding Let_def r_def [symmetric] o(4)
    by (intro exI [of _ m] exI [of _ "\<lambda>k. roles ! nat k"] conjI o(2,5) active(1,3) known) (assumption | blast)+
qed

section \<open>A corrected announcement\<close>

definition plain_library :: text_library where
  "plain_library = \<lparr>tl_sha256 = (\<lambda>s. s), tl_nfkc = (\<lambda>s. s), tl_casefold = map lower_char, tl_json_loads = (\<lambda>_. None),
     tl_parse_iso = (\<lambda>_. None), tl_zones = sample_zones\<rparr>"

definition text_value :: "attribute \<Rightarrow> string" where
  "text_value a = (case a of TextValue s \<Rightarrow> s | _ \<Rightarrow> [])"

definition notice :: "int \<Rightarrow> string \<Rightarrow> string \<Rightarrow> datetime \<Rightarrow> observation" where
  "notice revision role title t =
     \<lparr>ob_provider = ''eastmoney'', ob_provider_event_id = ''n1'', ob_instrument_id = ''300059.SZ'', ob_event_code = ''event.contract'',
      ob_title = title, ob_occurred_at = None, ob_source_released_at = Some t, ob_vendor_first_available_at = None,
      ob_retrieved_at = t, ob_time_quality = EXACT, ob_document_url = None, ob_document_sha256 = None, ob_raw_response_sha256 = None,
      ob_external_fact_id = NullValue, ob_validation_status = ''validated'', ob_attributes = [(''revision_type'', TextValue role)],
      ob_revision_no = revision\<rparr>"

definition first_notice :: observation where
  "first_notice = notice 0 ''Original'' ''Contract won'' 1000000"

definition corrected_notice :: observation where
  "corrected_notice = notice 1 ''correction'' ''Contract won, amount corrected'' 5000000"

definition later_notice :: observation where
  "later_notice = notice 2 ''withdrawal'' ''Contract cancelled'' 9500000"

definition other_notice :: observation where
  "other_notice = notice 2 ''correction'' ''Contract won, amount confirmed'' 9700000"

definition told :: "observation list \<Rightarrow> datetime \<Rightarrow> resolution" where
  "told obs t = resolve_revision_chain plain_library text_value obs t"

lemma told_chain:
  "let r = told [later_notice, first_notice, corrected_notice, first_notice] 6000000
   in rv_state r = Active \<and> rv_active_revision_no r = Some 1 \<and> rv_visible r = [first_notice, corrected_notice] \<and>
      rv_deduplicated_count r = 1"
  "rv_state (told [corrected_notice, other_notice, first_notice] 6000000) = Active"
  "rv_state (told [later_notice, first_notice, corrected_notice] 10000000) = Withdrawn"
  by code_simp+

theorem revisions_have_no_look_ahead_witness:
  "provider_revision_key later_notice = provider_revision_key other_notice \<and>
   (\<exists>n. told [later_notice, first_notice, corrected_notice, first_notice] 6000000 =
     (told [corrected_notice, other_notice, first_notice] 6000000)\<lparr>rv_deduplicated_count := n\<rparr>)"
proof -
  let ?xs = "[later_notice, first_notice, corrected_notice, first_notice]" and ?ys = "[corrected_notice, other_notice, first_notice]"
  have s: "settled (resolve_revision_chain plain_library text_value ?xs 6000000)"
    "settled (resolve_revision_chain plain_library text_value ?ys 6000000)"
    using told_chain by (simp_all add: settled_def told_def Let_def)
  have k: "\<not> known_at 6000000 later_notice" "\<not> known_at 6000000 other_notice" "known_at 6000000 first_notice"
    "known_at 6000000 corrected_notice" "\<not> observation_eq first_notice corrected_notice" "\<not> observation_eq corrected_notice first_notice"
    "provider_revision_key later_notice = provider_revision_key other_notice"
    by code_simp+
  have "{ob \<in> set ?xs. known_at 6000000 ob} = {ob \<in> set ?ys. known_at 6000000 ob}" using k(1-4) by auto
  moreover have "\<forall>x \<in> set ?xs. \<forall>y \<in> set ?xs. known_at 6000000 x \<and> known_at 6000000 y \<and> observation_eq x y \<longrightarrow> x = y"
    using k(1-6) by auto
  ultimately show ?thesis
    unfolding told_def by (intro conjI k(7) revisions_have_no_look_ahead [OF s])
qed

theorem active_revision_is_latest_witness:
  "\<exists>r. r = told [later_notice, first_notice, corrected_notice, first_notice] 6000000 \<and> permits_retry r 1 \<and> \<not> permits_retry r 0 \<and>
     rv_superseded_revision_nos r = [0]"
proof -
  let ?r = "told [later_notice, first_notice, corrected_notice, first_notice] 6000000"
  have "rv_state ?r = Active" "rv_active_revision_no ?r = Some 1" using told_chain(1) by (simp_all add: Let_def)
  then show ?thesis
    using active_revision_is_latest [of plain_library text_value "[later_notice, first_notice, corrected_notice, first_notice]" 6000000]
    by (auto simp: told_def Let_def)
qed

text \<open>
  The checks over the whole chain do not look at the decision time.  A second, different report of the first notice
  that only becomes available later quarantines the event at the earlier decision already.
\<close>

definition restated_notice :: observation where
  "restated_notice = notice 0 ''Original'' ''Contract won (restated)'' 9500000"

lemma later_contradiction_quarantines_the_past:
  "rv_state (told [first_notice] 6000000) = Active" "\<not> known_at 6000000 restated_notice"
  "rv_state (told [first_notice, restated_notice] 6000000) = Quarantined"
  by code_simp+

end
