(* ===== verification/Spec2Isabelle.thy ===== *)
theory Spec2Isabelle
  imports CorporateActions Calendar Matching Rules Sizing Signals BuyAttempt RunProperties
    SignalProperties IndicatorExact Availability ConditionalRuns GridProperties
    FixedGridRuns TriggerRuns Revisions
begin

text \<open>
  A verification development for the trading core of \<open>ashare_lab\<close>, a back-testing engine for
  Chinese A-shares.  The program decides from dated facts when an order is sent, matches it against
  daily bars, books fills into a double-entry portfolio and carries corporate actions through it.
  The development models that core as executable HOL functions and proves what the engine relies on.

  \<^bold>\<open>Parts and theories\<close> (paths under \<open>src/ashare_lab/\<close>):

  \<^item> \<open>Base\<close>: results of fallible code (\<open>py_error + 'a\<close>), constructor guards in source order
    (\<open>checks\<close>, \<open>construct\<close>), loops over lists.  An \<open>__init__\<close> or \<open>dataclasses.replace\<close> of the source is a
    \<open>mk_\<close> function that reruns all checks.
  \<^item> \<open>Decimals\<close>, \<open>Rounding\<close>: Python's \<open>Decimal\<close> as rationals; every arithmetic operation is rounded to the
    28 digits of the default context (\<open>ctx\<close>), \<open>quantize\<close> raises when the result does not fit.
  \<^item> \<open>Shared\<close>, \<open>Text\<close>: dates, instants, identifiers, money, quantities (\<open>domain/shared\<close>), number printing, digests.
  \<^item> \<open>Orders\<close>: the order aggregate and its state machine (\<open>domain/orders\<close>).
  \<^item> \<open>MarketData\<close>: sessions, bars, corporate actions, events (\<open>domain/market_data/models.py\<close>).
  \<^item> \<open>Portfolio\<close>, \<open>Ledger\<close>, \<open>CorporateActions\<close>: journal, lots, buys and sales, action life cycle (\<open>domain/portfolio\<close>).
    A sale consumes the sellable lots by acquisition instant and fill identifier, stated lot by lot; it fails where a
    consumed lot has no cost, which is the case of shares from a bonus distribution.
  \<^item> \<open>Fees\<close>, \<open>Calendar\<close>, \<open>Matching\<close>, \<open>Rules\<close>: execution rules (\<open>domain/execution\<close>).
  \<^item> \<open>Sizing\<close>: \<open>application/pre_open_sizing.py\<close>.
  \<^item> \<open>Financials\<close>, \<open>Conditions\<close>: metric catalog and the strategy language's conditions and exit rules.
  \<^item> \<open>Availability\<close>: the clocks of a published revision, its dictionary form, the session schedule
    (\<open>domain/time/availability.py\<close>).  The code checks that every datetime carries the offset of its zone, so a datetime
    is a \<open>stamp\<close> here (clock reading, offset, zone; naive when the offset is missing), and the time zone database is an
    argument: for each key the offset at an instant and the offset of a clock reading.  The first-tradable-instant
    search and the round trip hold for every such database; \<open>skipped_hour_is_not_read_back\<close> shows where the round trip ends.
  \<^item> \<open>FinancialFacts\<close>: source references, envelopes, provider facts and manifests (\<open>domain/provenance\<close>,
    \<open>domain/financials/models.py\<close>).
  \<^item> \<open>Documents\<close>, \<open>EventSignals\<close>: frozen document texts and their counts, the event registry and the event
    timeline (\<open>domain/events\<close>).
  \<^item> \<open>Timeseries\<close>, \<open>Indicators\<close>: \<open>domain/signals/indicators.py\<close>.  The module computes in a local context of 34 digits:
    \<open>loc\<close> rounds every operation to it, \<open>sqrt_to\<close> and \<open>ln_to\<close> are the correctly rounded root and logarithm.
    \<open>PrefixStability\<close> shows that an indicator on a prefix of the bars is the prefix of the indicator;
    \<open>IndicatorExact\<close> that the running sums lose nothing and the oscillators keep their ranges.
  \<^item> \<open>IndicatorSignals\<close>, \<open>SignalRuntime\<close>: \<open>domain/signals/runtime.py\<close>, the evaluator of every indicator, the financial and event
    leaves and the three-valued combination of a condition tree.  \<open>SignalLaws\<close> states what a source of facts
    promises (locale \<open>fact_source\<close>: facts describe their bars, the past is not rewritten) and interprets it by
    indicators, financial facts, events and whole trees; \<open>SignalProperties\<close> concludes.
  \<^item> \<open>Signals\<close>: facts, entry occurrences, selection of facts by the daily backtest.
  \<^item> \<open>Execution\<close>: what \<open>application/daily_backtest.py\<close> does with one decision (\<open>_attempt_decision\<close>): the terms of the
    order, the order's life in the state machine, matching, booking of the fill, expiry and retries.
    \<open>Attempt\<close> proves what an attempt leaves behind under a contract on its fee quote; \<open>BuyAttempt\<close>
    interprets the contract by the fee calculator and the calendar and proves that a buy attempt returns.
  \<^item> \<open>Analytics\<close>: the equity curve, round trips and exact metrics (\<open>domain/analytics\<close>), price rebases.
  \<^item> \<open>RunInputs\<close>, \<open>DayLoop\<close>: \<open>run_daily_backtest\<close>.  \<open>run_env\<close> holds what its first part computes, \<open>run_state\<close>
    its local variables, one field each; a day is \<open>open_day\<close>, \<open>attempt_step\<close>, \<open>close_day\<close>, in the source's order.
    \<open>BacktestRun\<close> states the invariant of the state (\<open>run_inv\<close>: decisions, orders, fills and portfolio
    belong together) and that every step keeps it, and that the equity curve marks the accounts of the run's own
    history; \<open>RunProperties\<close> concludes about whole runs and runs a two-session example to its end.
  \<^item> \<open>PricePlans\<close>: grids, condition rules and schedules with their validators, and the geometry of a grid
    (\<open>domain/strategy/price_plans.py\<close>).  \<open>x ** n\<close> for an integer \<open>n\<close> is the decimal library's binary powering with
    guard digits; a fractional power is the correctly rounded real power.
  \<^item> \<open>GridOrders\<close>: the daily grid: its order from a close and its advance by fills
    (\<open>application/grid_strategy.py\<close>, \<open>adapters/strategies\<close>).  \<open>GridProperties\<close> proves that it holds the requested lines
    and, with equal spacing on both sides, trades whole lines, and where it does not: distant lines and partial fills.
  \<^item> \<open>ConditionalOrders\<close>: the state machine of a conditional plan (\<open>application/conditional_orders.py\<close>);
    \<open>ConditionalRuns\<close> proves an invariant of its histories, an inductive step relation.
  \<^item> \<open>FixedGrid\<close>: the order life cycle of a fixed grid on minute bars (\<open>application/fixed_grid_orders.py\<close>),
    dictionaries as association lists in insertion order; \<open>FixedGridRuns\<close> proves, for every history, when its orders
    may fill and what a cell sized in shares holds.
  \<^item> \<open>TriggerGrid\<close>: the trigger grid and the daily grid on minute bars (\<open>application/trigger_grid_orders.py\<close>,
    \<open>daily_grid_orders.py\<close>); \<open>TriggerRuns\<close> proves that emitted orders are covered by the account.
  \<^item> \<open>Observations\<close>, \<open>Revisions\<close>: provider observations of events and which revision counts at a decision
    (\<open>domain/events/observations.py\<close>, \<open>revisions.py\<close>), with the proof that a resolution rests on records known by then.

  \<^bold>\<open>Bounds and fuel\<close>.  No definition takes fuel: recursion is structural or has a termination proof,
  except the sizing loop, a \<open>partial_function (option)\<close> whose value is proved to exist for every
  session and fee policy of the program.  Exactness of Decimal arithmetic holds only below 28
  digits; the properties that need it state the range (\<open>exact_range\<close>, \<open>on_grid\<close>).

  \<^bold>\<open>Not modelled\<close>.  Adapters, HTTP and persistence are I/O.  The day loops around the grid and the conditional plan
  (\<open>run_grid_backtest\<close>, \<open>run_conditional_backtest\<close>) and the minute replay
  (\<open>minute_grid_replay.py\<close>) are left out, as is the fusion of event providers (\<open>fusion.py\<close>).  In the day loop the argument \<open>runtime\<close> of a run
  stands for \<open>SignalRuntime.evaluate_aligned\<close>, which \<open>SignalRuntime\<close> models.  The result payload and
  its hash, and the ratios computed in binary floating point (returns, volatility, Sharpe), are left
  out; explanatory texts that embed numbers are constant strings.  Values of the wrong run-time type cannot be written, so the checks that reject them are
  absent; naive datetimes can be written only where the code takes stamps (\<open>Availability\<close>, \<open>FinancialFacts\<close>).  SHA-256, Unicode
  normalisation, case folding, the JSON and ISO parsers and the time zone database are parameters of the definitions
  that use them.
\<close>

end
